(* ===== verification/Prelude.thy ===== *)
theory Prelude
  imports Main "HOL-Library.AList" "HOL-Library.List_Lexorder" "HOL-Library.Char_ord"
begin

text \<open>
  The vocabulary every component shares.

  A JavaScript \<open>Map\<close> keeps its keys in insertion order and overwrites in place:
  that is an association list updated by \<open>AList.update\<close>.  A table of the SQLite
  database is a list of rows in insertion order, changed by an \<open>UPDATE ... WHERE\<close>
  (\<open>upd_where\<close>) whose \<open>changes\<close> count is the number of rows that matched.
  Identifiers and texts are \<open>string\<close>s, instants are milliseconds since the epoch.
\<close>

type_synonym ident = string
type_synonym instant = int
type_synonym ('e, 'a) result = "'e + 'a"

text \<open>\<open>row_simps\<close>: rewriting facts for keyed stores and row lists.\<close>
named_theorems row_simps

subsection \<open>JavaScript strings\<close>

definition starts_with :: "string \<Rightarrow> string \<Rightarrow> bool" where
  "starts_with s p \<longleftrightarrow> take (length p) s = p"

definition ends_with :: "string \<Rightarrow> string \<Rightarrow> bool" where
  "ends_with s p \<longleftrightarrow> length p \<le> length s \<and> drop (length s - length p) s = p"

definition is_space :: "char \<Rightarrow> bool" where
  "is_space c \<longleftrightarrow> (of_char c :: nat) \<in> {9, 10, 11, 12, 13, 32, 160}"

definition trim :: "string \<Rightarrow> string" where
  "trim s = rev (dropWhile is_space (rev (dropWhile is_space s)))"

lemma dropWhile_none: "list_all (\<lambda>c. \<not> P c) s \<Longrightarrow> dropWhile P s = s"
  by (cases s) auto

lemma trim_id: "list_all (\<lambda>c. \<not> is_space c) s \<Longrightarrow> trim s = s"
  by (simp add: trim_def dropWhile_none)

lemma dropWhile_idem: "dropWhile P (dropWhile P s) = dropWhile P s"
  by (induction s) auto

lemma trim_trim: "trim (trim s) = trim s"
proof -
  let ?d = "dropWhile is_space"
  have "?d (rev (?d (rev (?d s)))) = rev (?d (rev (?d s)))"
  proof (cases "rev (?d (rev (?d s)))")
    case (Cons a u)
    then have "?d (rev (?d s)) = rev u @ [a]" by (metis rev.simps(2) rev_rev_ident)
    then obtain v where "rev (?d s) = v @ rev u @ [a]" by (metis append.assoc takeWhile_dropWhile_id)
    then have "?d s = a # u @ rev v" by (metis append.assoc rev.simps(2) rev_append rev_rev_ident append_Cons append_Nil)
    then have "\<not> is_space a" by (metis dropWhile_eq_Cons_conv)
    then show ?thesis using Cons by simp
  next
    case Nil
    show ?thesis unfolding Nil by simp
  qed
  then show ?thesis by (simp add: trim_def dropWhile_idem)
qed

lemma starts_with_append [simp]: "starts_with (p @ s) p"
  by (simp add: starts_with_def)

lemma starts_with_iff: "starts_with s p \<longleftrightarrow> (\<exists>r. s = p @ r)"
  by (metis append_eq_conv_conj append_take_drop_id starts_with_def)

lemma ends_with_iff: "ends_with s p \<longleftrightarrow> (\<exists>r. s = r @ p)"
  unfolding ends_with_def
  by (metis add_diff_cancel_right' append_eq_conv_conj append_take_drop_id le_add2 length_append)

text \<open>The property names every JavaScript object inherits from \<open>Object.prototype\<close>: looking one
  up in an object literal used as a dictionary does not give \<open>undefined\<close>.\<close>
definition proto_keys :: "string list" where
  "proto_keys = [''constructor'', ''__defineGetter__'', ''__defineSetter__'', ''hasOwnProperty'',
     ''__lookupGetter__'', ''__lookupSetter__'', ''isPrototypeOf'', ''propertyIsEnumerable'',
     ''toString'', ''valueOf'', ''__proto__'', ''toLocaleString'']"

text \<open>\<open>String(n)\<close> of a natural number, and \<open>join\<close>.\<close>
fun nat_str :: "nat \<Rightarrow> string" where
  "nat_str n = (if n < 10 then [char_of (48 + n)] else nat_str (n div 10) @ [char_of (48 + n mod 10)])"

declare nat_str.simps [simp del]

text \<open>Reading the digits back: different numbers have different texts.\<close>
definition read_nat :: "string \<Rightarrow> nat" where
  "read_nat s = foldl (\<lambda>a c. 10 * a + (of_char c - 48)) 0 s"

lemma read_nat_str: "read_nat (nat_str n) = n"
proof (induction n rule: nat_str.induct)
  case (1 n)
  show ?case
  proof (cases "n < 10")
    case False
    have "n mod 10 < 10" by simp
    then have "of_char (char_of (48 + n mod 10) :: char) = 48 + n mod 10" by (simp add: of_char_of)
    then show ?thesis using 1[OF False] False
      by (subst nat_str.simps) (simp add: read_nat_def del: of_char_of)
  qed (simp add: nat_str.simps read_nat_def of_char_of)
qed

lemma trim_nat_str [simp]: "trim (nat_str n) = nat_str n"
proof (rule trim_id, induction n rule: nat_str.induct)
  case (1 n)
  have digit: "\<not> is_space (char_of (48 + d))" if "d < 10" for d :: nat
    using that by (simp add: is_space_def of_char_of)
  show ?case using 1 digit[of "n mod 10"] digit[of n] by (subst nat_str.simps) simp
qed

lemma nat_str_inj [simp]: "nat_str m = nat_str n \<longleftrightarrow> m = n"
  by (metis read_nat_str)

fun join :: "string \<Rightarrow> string list \<Rightarrow> string" where
  "join sep [] = []"
| "join sep [x] = x"
| "join sep (x # y # ys) = x @ sep @ join sep (y # ys)"

definition nul :: string where "nul = [char_of (0 :: nat)]"

definition contains :: "string \<Rightarrow> string \<Rightarrow> bool" where
  "contains s p \<longleftrightarrow> (\<exists>i\<in>set [0..<Suc (length s)]. take (length p) (drop i s) = p)"

text \<open>\<open>toLowerCase\<close> of the characters below 256.\<close>
definition lower_char :: "char \<Rightarrow> char" where
  "lower_char c = (let n = (of_char c :: nat) in
     if (65 \<le> n \<and> n \<le> 90) \<or> (192 \<le> n \<and> n \<le> 222 \<and> n \<noteq> 215) then char_of (n + 32) else c)"

definition lowercase :: "string \<Rightarrow> string" where
  "lowercase s = map lower_char s"

subsection \<open>Insertion-ordered maps\<close>

type_synonym ('k, 'v) kv = "('k \<times> 'v) list"

lemma update_get [row_simps]: "map_of (AList.update k v m) k' = (if k' = k then Some v else map_of m k')"
  by (simp add: update_conv')

lemma update_distinct [row_simps]:
  "distinct (map fst m) \<Longrightarrow> distinct (map fst (AList.update k v m))"
  by (rule distinct_update)

lemma values_update:
  "distinct (map fst m) \<Longrightarrow>
   v' \<in> snd ` set (AList.update k v m) \<longleftrightarrow> v' = v \<or> (\<exists>k'. k' \<noteq> k \<and> map_of m k' = Some v')"
proof -
  assume d: "distinct (map fst m)"
  then have "distinct (map fst (AList.update k v m))" by (rule distinct_update)
  then have "v' \<in> snd ` set (AList.update k v m) \<longleftrightarrow> (\<exists>k'. map_of (AList.update k v m) k' = Some v')"
    by (auto simp: image_iff) (metis map_of_eq_Some_iff snd_conv)+
  then show ?thesis by (auto simp: update_conv')
qed

subsection \<open>Tables\<close>

definition upd_where :: "('r \<Rightarrow> bool) \<Rightarrow> ('r \<Rightarrow> 'r) \<Rightarrow> 'r list \<Rightarrow> 'r list" where
  "upd_where p f rows = map (\<lambda>r. if p r then f r else r) rows"

definition changes :: "('r \<Rightarrow> bool) \<Rightarrow> 'r list \<Rightarrow> nat" where
  "changes p rows = length (filter p rows)"

lemma upd_where_simps [simp]:
  "upd_where p f [] = []"
  "upd_where p f (r # rows) = (if p r then f r else r) # upd_where p f rows"
  by (simp_all add: upd_where_def)

lemma length_upd_where [simp]: "length (upd_where p f rows) = length rows"
  by (simp add: upd_where_def)

lemma set_upd_where:
  "set (upd_where p f rows) = {f r | r. r \<in> set rows \<and> p r} \<union> {r \<in> set rows. \<not> p r}"
  by (auto simp: upd_where_def)

lemma upd_where_none: "changes p rows = 0 \<Longrightarrow> upd_where p f rows = rows"
  by (induction rows) (auto simp: changes_def upd_where_def split: if_splits)

lemma map_upd_where:
  "(\<And>r. r \<in> set rows \<Longrightarrow> p r \<Longrightarrow> g (f r) = g r) \<Longrightarrow> map g (upd_where p f rows) = map g rows"
  by (auto simp: upd_where_def)

lemma find_upd_where:
  assumes "\<And>r. q (f r) = q r"
  shows "find q (upd_where p f rows) = map_option (\<lambda>r. if p r then f r else r) (find q rows)"
  using assms by (induction rows) auto

lemma find_distinct_key:
  assumes "distinct (map key rows)" "r \<in> set rows"
  shows "find (\<lambda>x. key x = key r) rows = Some r"
  using assms by (induction rows) force+

lemma find_Some_mem: "find p xs = Some x \<Longrightarrow> x \<in> set xs \<and> p x"
  by (auto simp: find_Some_iff)

lemma find_append: "find P (xs @ ys) = (case find P xs of None \<Rightarrow> find P ys | Some x \<Rightarrow> Some x)"
  by (induction xs) auto

lemma changes_le_one:
  assumes "distinct (map key rows)" "\<And>r. p r \<Longrightarrow> key r = k"
  shows "changes p rows \<le> 1"
  using assms
proof (induction rows)
  case (Cons r rows)
  have "filter p rows = []" if "p r"
  proof (rule ccontr)
    assume "filter p rows \<noteq> []"
    then obtain x where "x \<in> set rows" "p x" by (auto simp: filter_empty_conv)
    with that Cons.prems show False by (metis distinct.simps(2) image_eqI list.simps(9) set_map)
  qed
  with Cons show ?case by (auto simp: changes_def)
qed (simp add: changes_def)

text \<open>An update under a unique key changes one row or none.\<close>
lemma changes_key:
  assumes "distinct (map key rows)" "find (\<lambda>r. key r = k) rows = Some r" "\<And>r. p r \<Longrightarrow> key r = k"
  shows "changes p rows = (if p r then 1 else 0)"
proof -
  have r: "r \<in> set rows" "key r = k" using find_Some_mem[OF assms(2)] by auto
  have only: "x = r" if "x \<in> set rows" "p x" for x
    using assms(1,3) r that by (metis distinct_map inj_onD)
  have "changes p rows \<le> 1" by (rule changes_le_one[OF assms(1,3)])
  moreover have "p r \<Longrightarrow> 0 < changes p rows"
    using r by (auto simp: changes_def filter_empty_conv)
  moreover have "\<not> p r \<Longrightarrow> changes p rows = 0"
    using only by (auto simp: changes_def filter_empty_conv)
  ultimately show ?thesis by auto
qed

lemma changes_key_none: "find (\<lambda>r. key r = k) rows = None \<Longrightarrow> (\<And>r. p r \<Longrightarrow> key r = k) \<Longrightarrow> changes p rows = 0"
  by (auto simp: changes_def filter_empty_conv find_None_iff)

end
