(* ===== verification/JsNumber.thy ===== *)
theory JsNumber
  imports Prelude Complex_Main "HOL-Library.Log_Nat"
begin

text \<open>
  JavaScript numbers and JSON values.

  A number is NaN, an infinity or a finite value held as the rational it denotes; \<open>rnd\<close> is the
  IEEE-754 binary64 rounding (nearest, ties to even, gradual underflow, overflow to infinity) that
  every arithmetic operation applies to its exact result.  The two zeros are one value: the code
  modelled here never divides by a zero it has computed.
  The facts used everywhere else: rounding keeps the sign, and it is exact on integers below
  \<open>2 ^ 53\<close>.
\<close>

datatype jnum = JNaN | JPosInf | JNegInf | JFin rat

subsection \<open>Rounding\<close>

definition floor_log2 :: "rat \<Rightarrow> int" where
  "floor_log2 x = (case quotient_of x of (p, q) \<Rightarrow>
     let k = bitlen p - bitlen q in if 2 powi k \<le> x then k else k - 1)"

definition round_even :: "rat \<Rightarrow> int" where
  "round_even r = (let f = \<lfloor>r\<rfloor>; d = r - of_int f in
     if d < 1 / 2 then f else if 1 / 2 < d then f + 1 else if even f then f else f + 1)"

definition rnd :: "rat \<Rightarrow> jnum" where
  "rnd x = (if x = 0 then JFin 0 else
     let e = max (floor_log2 \<bar>x\<bar> - 52) (- 1074);
         s = 2 powi e;
         y = of_int (round_even (\<bar>x\<bar> / s)) * s
     in if 2 ^ 1024 \<le> y then (if x < 0 then JNegInf else JPosInf) else JFin (sgn x * y))"

lemma round_even_of_int [simp]: "round_even (of_int n) = n"
  by (simp add: round_even_def)

lemma round_even_nonneg: "0 \<le> r \<Longrightarrow> 0 \<le> round_even r"
  by (auto simp: round_even_def Let_def)

lemma floor_log2_lower:
  assumes "0 < x"
  shows "2 powi (floor_log2 x) \<le> x"
proof -
  obtain p q where pq: "quotient_of x = (p, q)" by (cases "quotient_of x")
  then have x: "x = of_int p / of_int q" and q: "0 < q"
    using quotient_of_div quotient_of_denom_pos by blast+
  with assms have p: "0 < p" by (simp add: zero_less_divide_iff)
  let ?k = "bitlen p - bitlen q"
  have "2 ^ nat (bitlen p - 1) \<le> p" "q < 2 ^ nat (bitlen q)"
    using bitlen_bounds[OF p] bitlen_bounds[OF q] by auto
  then have pl: "(2::rat) ^ nat (bitlen p - 1) \<le> of_int p" and qu: "of_int q < (2::rat) ^ nat (bitlen q)"
    by (metis of_int_le_iff of_int_numeral of_int_power)
       (metis \<open>q < 2 ^ nat (bitlen q)\<close> of_int_less_iff of_int_numeral of_int_power)
  have bp: "1 \<le> bitlen p" "1 \<le> bitlen q"
    using bitlen_le_iff_power[of p 0] bitlen_le_iff_power[of q 0] p q by auto
  have "2 powi (?k - 1) = (2::rat) ^ nat (bitlen p - 1) / 2 ^ nat (bitlen q)"
    using bp by (simp add: power_int_diff power_int_def field_simps nat_diff_distrib power_diff
      nat_add_distrib)
  also have "\<dots> \<le> of_int p / of_int q"
    using pl qu q p by (intro frac_le) auto
  finally have "2 powi (?k - 1) \<le> x" by (simp add: x)
  then show ?thesis by (auto simp: floor_log2_def pq Let_def)
qed

lemma rnd_zero [simp]: "rnd 0 = JFin 0"
  by (simp add: rnd_def)

lemma rnd_nonneg: "0 \<le> x \<Longrightarrow> rnd x = JFin y \<Longrightarrow> 0 \<le> y"
  by (auto simp: rnd_def Let_def sgn_if round_even_nonneg split: if_splits)

lemma rnd_nonneg_cases: "0 \<le> x \<Longrightarrow> rnd x = JPosInf \<or> (\<exists>y. rnd x = JFin y \<and> 0 \<le> y)"
  by (auto simp: rnd_def Let_def sgn_if round_even_nonneg)

lemma rnd_not_nan [simp]: "rnd x \<noteq> JNaN"
  by (auto simp: rnd_def Let_def)

lemma rnd_of_int:
  assumes "\<bar>n\<bar> < 2 ^ 53"
  shows "rnd (of_int n) = JFin (of_int n)"
proof (cases "n = 0")
  case False
  define x :: rat where "x = \<bar>of_int n\<bar>"
  define e where "e = max (floor_log2 x - 52) (- 1074)"
  have x: "0 < x" "x < 2 ^ 53"
  proof -
    show "0 < x" using False by (simp add: x_def)
    have "x = of_int \<bar>n\<bar>" by (simp add: x_def)
    also have "\<dots> < of_int (2 ^ 53)" using assms by (simp only: of_int_less_iff)
    finally show "x < 2 ^ 53" by simp
  qed
  have "e \<le> 0"
  proof (rule ccontr)
    assume "\<not> e \<le> 0"
    then have "53 \<le> floor_log2 x" by (auto simp: e_def max_def split: if_splits)
    then have "(2::rat) powi 53 \<le> 2 powi (floor_log2 x)" by (intro power_int_increasing) auto
    with floor_log2_lower[OF x(1)] x(2) show False by (simp add: power_int_def)
  qed
  then obtain k where k: "e = - int k" by (metis nonneg_int_cases neg_0_le_iff_le minus_minus)
  have s: "(2::rat) powi e = 1 / 2 ^ k" by (simp add: k power_int_minus power_int_def field_simps)
  have "x / (2 powi e) = of_int (\<bar>n\<bar> * 2 ^ k)" by (simp add: s x_def)
  then have "of_int (round_even (x / 2 powi e)) * 2 powi e = x"
    by (simp only: round_even_of_int) (simp add: s x_def)
  moreover have "\<not> 2 ^ 1024 \<le> x" using x(2) by (auto dest: order.strict_trans2)
  ultimately show ?thesis using False
    by (simp add: rnd_def Let_def x_def[symmetric] e_def[symmetric])
       (simp add: x_def sgn_if abs_if)
qed simp

lemma rnd_numeral [simp]: "(numeral w :: int) < 2 ^ 53 \<Longrightarrow> rnd (numeral w) = JFin (numeral w)"
  using rnd_of_int[of "numeral w"] by simp

lemma rnd_neg_numeral [simp]: "(numeral w :: int) < 2 ^ 53 \<Longrightarrow> rnd (- numeral w) = JFin (- numeral w)"
  using rnd_of_int[of "- numeral w"] by simp

lemma rnd_one [simp]: "rnd 1 = JFin 1"
  using rnd_of_int[of 1] by simp

subsection \<open>Operations\<close>

fun jneg :: "jnum \<Rightarrow> jnum" where
  "jneg JNaN = JNaN" | "jneg JPosInf = JNegInf" | "jneg JNegInf = JPosInf" | "jneg (JFin a) = JFin (- a)"

fun jadd :: "jnum \<Rightarrow> jnum \<Rightarrow> jnum" where
  "jadd (JFin a) (JFin b) = rnd (a + b)"
| "jadd JNaN _ = JNaN" | "jadd _ JNaN = JNaN"
| "jadd JPosInf JNegInf = JNaN" | "jadd JNegInf JPosInf = JNaN"
| "jadd JPosInf _ = JPosInf" | "jadd _ JPosInf = JPosInf"
| "jadd JNegInf _ = JNegInf" | "jadd _ JNegInf = JNegInf"

definition jsub :: "jnum \<Rightarrow> jnum \<Rightarrow> jnum" where
  "jsub a b = jadd a (jneg b)"

text \<open>The value of an infinity with the sign of a rational.\<close>
definition sinf :: "rat \<Rightarrow> jnum" where
  "sinf a = (if a = 0 then JNaN else if 0 < a then JPosInf else JNegInf)"

fun jmul :: "jnum \<Rightarrow> jnum \<Rightarrow> jnum" where
  "jmul (JFin a) (JFin b) = rnd (a * b)"
| "jmul JNaN _ = JNaN" | "jmul _ JNaN = JNaN"
| "jmul (JFin a) JPosInf = sinf a" | "jmul (JFin a) JNegInf = sinf (- a)"
| "jmul JPosInf (JFin b) = sinf b" | "jmul JNegInf (JFin b) = sinf (- b)"
| "jmul JPosInf JPosInf = JPosInf" | "jmul JNegInf JNegInf = JPosInf"
| "jmul _ _ = JNegInf"

fun jdiv :: "jnum \<Rightarrow> jnum \<Rightarrow> jnum" where
  "jdiv (JFin a) (JFin b) = (if b = 0 then sinf a else rnd (a / b))"
| "jdiv JNaN _ = JNaN" | "jdiv _ JNaN = JNaN"
| "jdiv (JFin a) _ = JFin 0"
| "jdiv JPosInf (JFin b) = (if 0 \<le> b then JPosInf else JNegInf)"
| "jdiv JNegInf (JFin b) = (if 0 \<le> b then JNegInf else JPosInf)"
| "jdiv _ _ = JNaN"

fun jlt :: "jnum \<Rightarrow> jnum \<Rightarrow> bool" where
  "jlt (JFin a) (JFin b) = (a < b)"
| "jlt JNaN _ = False" | "jlt _ JNaN = False"
| "jlt JPosInf _ = False" | "jlt _ JPosInf = True"
| "jlt _ JNegInf = False" | "jlt JNegInf _ = True"

fun jeq :: "jnum \<Rightarrow> jnum \<Rightarrow> bool" where
  "jeq JNaN _ = False" | "jeq _ JNaN = False" | "jeq a b = (a = b)"

definition jle :: "jnum \<Rightarrow> jnum \<Rightarrow> bool" where
  "jle a b \<longleftrightarrow> jlt a b \<or> jeq a b"

fun is_finite :: "jnum \<Rightarrow> bool" where
  "is_finite (JFin _) = True" | "is_finite _ = False"

text \<open>\<open>Math.max\<close>, \<open>Math.min\<close>, \<open>Math.abs\<close>, and the test \<open>Number.isInteger\<close>.\<close>
definition jmax :: "jnum \<Rightarrow> jnum \<Rightarrow> jnum" where
  "jmax a b = (if a = JNaN \<or> b = JNaN then JNaN else if jlt a b then b else a)"

definition jmin :: "jnum \<Rightarrow> jnum \<Rightarrow> jnum" where
  "jmin a b = (if a = JNaN \<or> b = JNaN then JNaN else if jlt b a then b else a)"

definition jabs :: "jnum \<Rightarrow> jnum" where
  "jabs a = (if jlt a (JFin 0) then jneg a else a)"

fun jis_integer :: "jnum \<Rightarrow> bool" where
  "jis_integer (JFin a) = (a = of_int \<lfloor>a\<rfloor>)" | "jis_integer _ = False"

abbreviation jint :: "int \<Rightarrow> jnum" where "jint n \<equiv> JFin (of_int n)"

lemma jle_fin [simp]: "jle (JFin a) (JFin b) \<longleftrightarrow> a \<le> b"
  by (auto simp: jle_def)

lemma jle_nan [simp]: "\<not> jle JNaN b" "\<not> jle a JNaN"
  by (cases b; simp add: jle_def) (cases a; simp add: jle_def)

lemma jlt_irrefl [simp]: "\<not> jlt a a"
  by (cases a) auto

lemma jle_refl_iff [simp]: "jle a a \<longleftrightarrow> a \<noteq> JNaN"
  by (cases a) (auto simp: jle_def)

lemma jle_trans: "jle a b \<Longrightarrow> jle b c \<Longrightarrow> jle a c"
  by (cases a; cases b; cases c) (auto simp: jle_def)

text \<open>A value that a guard has accepted as finite and not negative.\<close>
definition jnonneg :: "jnum \<Rightarrow> bool" where
  "jnonneg a \<longleftrightarrow> jle (JFin 0) a"

lemma jnonneg_fin [simp]: "jnonneg (JFin a) \<longleftrightarrow> 0 \<le> a"
  by (simp add: jnonneg_def)

lemma jnonneg_simps [simp]: "jnonneg JPosInf" "\<not> jnonneg JNegInf" "\<not> jnonneg JNaN"
  by (simp_all add: jnonneg_def jle_def)

lemma jnonneg_rnd [simp]: "0 \<le> x \<Longrightarrow> jnonneg (rnd x)"
  using rnd_nonneg_cases[of x] by auto

lemma jnonneg_add: "jnonneg a \<Longrightarrow> jnonneg b \<Longrightarrow> jnonneg (jadd a b)"
  by (cases a; cases b) auto

lemma jnonneg_mul: "jnonneg a \<Longrightarrow> jnonneg b \<Longrightarrow> is_finite a \<Longrightarrow> is_finite b \<Longrightarrow> jnonneg (jmul a b)"
  by (cases a; cases b) auto

lemma jnonneg_sub: "jle b a \<Longrightarrow> is_finite a \<Longrightarrow> is_finite b \<Longrightarrow> jnonneg (jsub a b)"
  by (cases a; cases b) (auto simp: jsub_def)

lemma jnonneg_max [simp]: "jnonneg (jmax (JFin 0) b) \<longleftrightarrow> b \<noteq> JNaN"
  by (cases b) (auto simp: jmax_def)

subsection \<open>Rounding is monotone\<close>

lemma floor_log2_upper:
  assumes "0 < x"
  shows "x < 2 powi (floor_log2 x + 1)"
proof -
  obtain p q where pq: "quotient_of x = (p, q)" by (cases "quotient_of x")
  then have x: "x = of_int p / of_int q" and q: "0 < q"
    using quotient_of_div quotient_of_denom_pos by blast+
  with assms have p: "0 < p" by (simp add: zero_less_divide_iff)
  let ?k = "bitlen p - bitlen q"
  have "p < 2 ^ nat (bitlen p)" "2 ^ nat (bitlen q - 1) \<le> q"
    using bitlen_bounds[OF p] bitlen_bounds[OF q] by auto
  then have pu: "of_int p < (2::rat) ^ nat (bitlen p)" and ql: "(2::rat) ^ nat (bitlen q - 1) \<le> of_int q"
    by (metis of_int_less_iff of_int_numeral of_int_power, metis of_int_le_iff of_int_numeral of_int_power)
  have bp: "1 \<le> bitlen p" "1 \<le> bitlen q"
    using bitlen_le_iff_power[of p 0] bitlen_le_iff_power[of q 0] p q by auto
  have "x \<le> of_int p / 2 ^ nat (bitlen q - 1)" using ql q p by (simp add: x frac_le)
  also have "\<dots> < 2 ^ nat (bitlen p) / 2 ^ nat (bitlen q - 1)" using pu by (simp add: divide_strict_right_mono)
  also have "\<dots> = 2 powi (?k + 1)"
    using bp by (simp add: power_int_diff power_int_add power_int_def field_simps nat_diff_distrib power_diff nat_add_distrib)
  finally have "x < 2 powi (?k + 1)" .
  then show ?thesis by (auto simp: floor_log2_def pq Let_def)
qed

lemma floor_log2_mono: "0 < x \<Longrightarrow> x \<le> y \<Longrightarrow> floor_log2 x \<le> floor_log2 y"
proof (rule ccontr)
  assume a: "0 < x" "x \<le> y" "\<not> floor_log2 x \<le> floor_log2 y"
  then have "(2::rat) powi (floor_log2 y + 1) \<le> 2 powi floor_log2 x" by (intro power_int_increasing) auto
  with floor_log2_lower[of x] floor_log2_upper[of y] a show False by simp
qed

lemma round_even_mono: "r \<le> s \<Longrightarrow> round_even r \<le> round_even s"
proof -
  assume rs: "r \<le> s"
  have f: "\<lfloor>r\<rfloor> \<le> \<lfloor>s\<rfloor>" by (rule floor_mono[OF rs])
  have b: "round_even r \<le> \<lfloor>r\<rfloor> + 1" "\<lfloor>s\<rfloor> \<le> round_even s" by (auto simp: round_even_def Let_def)
  show ?thesis
  proof (cases "\<lfloor>r\<rfloor> = \<lfloor>s\<rfloor>")
    case True
    then show ?thesis using rs by (auto simp: round_even_def Let_def)
  next
    case False
    then show ?thesis using f b by linarith
  qed
qed

text \<open>The positive part of the rounding.\<close>
definition rexp :: "rat \<Rightarrow> int" where "rexp x = max (floor_log2 x - 52) (- 1074)"
definition rpos :: "rat \<Rightarrow> rat" where "rpos x = of_int (round_even (x / 2 powi rexp x)) * 2 powi rexp x"

lemma rnd_pos: "0 < x \<Longrightarrow> rnd x = (if 2 ^ 1024 \<le> rpos x then JPosInf else JFin (rpos x))"
  by (simp add: rnd_def rpos_def rexp_def Let_def)

lemma rexp_mono: "0 < x \<Longrightarrow> x \<le> y \<Longrightarrow> rexp x \<le> rexp y"
  using floor_log2_mono[of x y] by (simp add: rexp_def)

lemma rpos_upper: "0 < x \<Longrightarrow> rpos x \<le> 2 powi (rexp x + 53)"
proof -
  assume x: "0 < x"
  have "x < 2 powi (floor_log2 x + 1)" by (rule floor_log2_upper[OF x])
  also have "\<dots> \<le> 2 powi (rexp x + 53)" by (rule power_int_increasing) (auto simp: rexp_def)
  finally have "x / 2 powi rexp x \<le> 2 ^ 53"
    by (simp add: power_int_add field_simps)
  then have "round_even (x / 2 powi rexp x) \<le> round_even (of_int (2 ^ 53))" by (intro round_even_mono) simp
  then have "round_even (x / 2 powi rexp x) \<le> 2 ^ 53" by (simp only: round_even_of_int)
  then have "of_int (round_even (x / 2 powi rexp x)) \<le> (of_int (2 ^ 53) :: rat)" by (simp only: of_int_le_iff)
  then show ?thesis by (simp add: rpos_def power_int_add field_simps)
qed

lemma rpos_lower: "0 < x \<Longrightarrow> - 1074 < rexp x \<Longrightarrow> 2 powi (rexp x + 52) \<le> rpos x"
proof -
  assume x: "0 < x" and e: "- 1074 < rexp x"
  then have "rexp x = floor_log2 x - 52" by (simp add: rexp_def max_def split: if_splits)
  then have "2 powi (rexp x + 52) \<le> x" using floor_log2_lower[OF x] by simp
  then have "of_int (2 ^ 52) \<le> x / 2 powi rexp x" by (simp add: power_int_add field_simps)
  then have "round_even (of_int (2 ^ 52)) \<le> round_even (x / 2 powi rexp x)" by (rule round_even_mono)
  then have "2 ^ 52 \<le> round_even (x / 2 powi rexp x)" by (simp only: round_even_of_int)
  then have "(of_int (2 ^ 52) :: rat) \<le> of_int (round_even (x / 2 powi rexp x))" by (simp only: of_int_le_iff)
  then show ?thesis by (simp add: rpos_def power_int_add field_simps)
qed

lemma rpos_mono:
  assumes "0 < x" "x \<le> y"
  shows "rpos x \<le> rpos y"
proof (cases "rexp x = rexp y")
  case True
  have "x / 2 powi rexp x \<le> y / 2 powi rexp x" using assms by (simp add: divide_right_mono)
  from round_even_mono[OF this] show ?thesis using True by (simp add: rpos_def mult_right_mono)
next
  case False
  then have e: "rexp x + 1 \<le> rexp y" using rexp_mono[OF assms] by simp
  have "- 1074 \<le> rexp x" by (simp add: rexp_def)
  then have "2 powi (rexp y + 52) \<le> rpos y" using e assms by (intro rpos_lower) auto
  moreover have "(2::rat) powi (rexp x + 53) \<le> 2 powi (rexp y + 52)" using e by (intro power_int_increasing) auto
  ultimately show ?thesis using rpos_upper[OF assms(1)] by linarith
qed

lemma rnd_mono: "0 \<le> x \<Longrightarrow> x \<le> y \<Longrightarrow> jle (rnd x) (rnd y)"
proof (cases "x = 0")
  case True
  moreover assume "x \<le> y"
  ultimately show ?thesis using jnonneg_rnd[of y] by (simp add: jnonneg_def)
next
  case False
  assume "0 \<le> x" "x \<le> y"
  then show ?thesis using False rpos_mono[of x y] by (auto simp: rnd_pos jle_def)
qed

text \<open>A binary64 value rounds to itself.\<close>
lemma rnd_idem: "0 \<le> x \<Longrightarrow> rnd x = JFin y \<Longrightarrow> rnd y = JFin y"
proof (cases "x = 0")
  case False
  assume "0 \<le> x" and y: "rnd x = JFin y"
  then have x: "0 < x" using False by simp
  define n where "n = round_even (x / 2 powi rexp x)"
  have yv: "y = of_int n * 2 powi rexp x" and small: "y < 2 ^ 1024"
    using y x by (auto simp: rnd_pos rpos_def n_def split: if_splits)
  show ?thesis
  proof (cases "y = 0")
    case False
    have n: "0 < n"
    proof (rule ccontr)
      assume "\<not> 0 < n"
      then have "of_int n < (0 :: rat)" using False yv by (cases "n = 0") auto
      then have "y < 0" unfolding yv by (rule mult_neg_pos) simp
      then show False using rnd_nonneg[OF \<open>0 \<le> x\<close> y] by simp
    qed
    have "of_int n \<le> (of_int (2 ^ 53) :: rat)" using rpos_upper[OF x] by (simp add: rpos_def n_def power_int_add field_simps)
    then have n53: "n \<le> 2 ^ 53" by (simp only: of_int_le_iff)
    have y0: "0 < y" using n yv by simp
    have up: "y \<le> 2 powi (rexp x + 53)" using \<open>of_int n \<le> of_int (2 ^ 53)\<close> by (simp add: yv power_int_add field_simps)
    obtain m where m: "y = of_int m * 2 powi rexp y"
    proof (cases "rexp y \<le> rexp x")
      case True
      then have "(2::rat) powi rexp x = 2 ^ nat (rexp x - rexp y) * 2 powi rexp y"
        by (simp add: power_int_add[symmetric] flip: power_int_of_nat)
      then have "y = of_int (n * 2 ^ nat (rexp x - rexp y)) * 2 powi rexp y" by (simp add: yv)
      then show ?thesis by (rule that)
    next
      case False
      then have f: "rexp x < floor_log2 y - 52" by (auto simp: rexp_def)
      then have "(2::rat) powi (rexp x + 53) \<le> 2 powi floor_log2 y" by (intro power_int_increasing) auto
      then have eq: "y = 2 powi (rexp x + 53)" and "2 powi floor_log2 y = y"
        using up floor_log2_lower[OF y0] by auto
      then have "floor_log2 y = rexp x + 53"
        using power_int_strict_increasing[of "floor_log2 y" "rexp x + 53" "2 :: rat"]
          power_int_strict_increasing[of "rexp x + 53" "floor_log2 y" "2 :: rat"]
        by (cases "floor_log2 y" "rexp x + 53" rule: linorder_cases) auto
      then have "rexp y = rexp x + 1" using False f by (auto simp: rexp_def)
      then have "y = of_int (2 ^ 52) * 2 powi rexp y" using eq by (simp add: power_int_add)
      then show ?thesis using that by blast
    qed
    have "y / 2 powi rexp y = of_int m" using m by (simp add: field_simps)
    then have "rpos y = y" using m by (simp add: rpos_def)
    then show ?thesis using rnd_pos[OF y0] small by simp
  qed simp
qed simp

text \<open>The values a variable can hold: for a number that is not negative, those that rounding keeps.
  Adding something that is not negative to such a value does not make it smaller.\<close>
definition jexact :: "jnum \<Rightarrow> bool" where
  "jexact a \<longleftrightarrow> (case a of JFin x \<Rightarrow> rnd x = JFin x | _ \<Rightarrow> True)"

lemma jexact_rnd: "0 \<le> x \<Longrightarrow> jexact (rnd x)"
  using rnd_idem[of x] by (cases "rnd x") (simp_all add: jexact_def)

lemma jexact_simps [simp]: "jexact JNaN" "jexact JPosInf" "jexact JNegInf" "jexact (JFin 0)"
  by (simp_all add: jexact_def)

lemma jexact_add: "jnonneg a \<Longrightarrow> jnonneg b \<Longrightarrow> jexact (jadd a b)"
  by (cases a; cases b) (simp_all add: jexact_rnd)

lemma jle_add: "jexact a \<Longrightarrow> jnonneg a \<Longrightarrow> jnonneg b \<Longrightarrow> jle a (jadd a b)"
proof (cases a)
  case (JFin x)
  assume h: "jexact a" "jnonneg a" "jnonneg b"
  show ?thesis
  proof (cases b)
    case (JFin y)
    then show ?thesis using rnd_mono[of x "x + y"] h \<open>a = JFin x\<close> by (simp add: jexact_def)
  qed (use JFin h in \<open>simp_all add: jle_def\<close>)
next
  case JPosInf
  assume "jnonneg b"
  then show ?thesis using JPosInf by (cases b) (simp_all add: jle_def)
qed (simp_all add: jnonneg_def jle_def)

text \<open>Every value is a multiple of the smallest one, so a difference is zero only between equals.\<close>
lemma rnd_neg: "x < 0 \<Longrightarrow> rnd x = (if 2 ^ 1024 \<le> rpos (- x) then JNegInf else JFin (- rpos (- x)))"
  by (simp add: rnd_def rpos_def rexp_def Let_def)

lemma rpos_tiny: "2 powi (- 1074) \<le> x \<Longrightarrow> 0 < rpos x"
proof -
  assume x: "2 powi (- 1074) \<le> x"
  let ?t = "2 powi (- 1074) :: rat"
  have t: "0 < ?t" by simp
  have "floor_log2 ?t \<le> - 1074"
  proof (rule ccontr)
    assume "\<not> floor_log2 ?t \<le> - 1074"
    then have "?t < 2 powi floor_log2 ?t" by (intro power_int_strict_increasing) auto
    then show False using floor_log2_lower[OF t] by simp
  qed
  then have "rexp ?t = - 1074" by (simp add: rexp_def)
  then have "rpos ?t = ?t" using round_even_of_int[of 1] by (simp add: rpos_def)
  then show ?thesis using rpos_mono[OF t x] t by linarith
qed

lemma jexact_multiple:
  assumes "0 \<le> x" "jexact (JFin x)"
  shows "\<exists>k. x = of_int k * 2 powi (- 1074)"
proof (cases "x = 0")
  case True
  then show ?thesis by (intro exI[of _ 0]) simp
next
  case False
  then have x: "0 < x" using assms(1) by simp
  have "x = rpos x" using assms(2) x by (simp add: jexact_def rnd_pos split: if_splits)
  then have "x = of_int (round_even (x / 2 powi rexp x)) * 2 powi rexp x" by (simp add: rpos_def)
  moreover have "0 \<le> rexp x + 1074" by (simp add: rexp_def)
  then obtain m where m: "rexp x + 1074 = int m" using nonneg_int_cases by blast
  then have m': "rexp x = int m + - 1074" by simp
  have "(2::rat) powi rexp x = 2 powi int m * 2 powi (- 1074)" unfolding m' by (rule power_int_add) simp
  then have "(2::rat) powi rexp x = of_int (2 ^ m) * 2 powi (- 1074)" by (simp only: power_int_of_nat of_int_power of_int_numeral)
  ultimately have "x = of_int (round_even (x / 2 powi rexp x) * 2 ^ m) * 2 powi (- 1074)"
    by (metis mult.assoc of_int_mult)
  then show ?thesis by blast
qed

lemma jsub_zero:
  assumes "jexact a" "jexact b" "jnonneg a" "jnonneg b" "is_finite a" "is_finite b"
  shows "jeq (jsub a b) (JFin 0) \<longleftrightarrow> a = b"
proof -
  obtain x y where xy: "a = JFin x" "b = JFin y" "0 \<le> x" "0 \<le> y" using assms(3-6) by (cases a; cases b) auto
  obtain k l where kl: "x = of_int k * 2 powi (- 1074)" "y = of_int l * 2 powi (- 1074)"
    using jexact_multiple xy assms(1,2) by blast
  have gap: "(2::rat) powi (- 1074) \<le> of_int (m - n) * 2 powi (- 1074)" if "n < m" for m n :: int
  proof -
    have "(1::rat) \<le> of_int (m - n)" using that by simp
    then have "1 * (2::rat) powi (- 1074) \<le> of_int (m - n) * 2 powi (- 1074)" by (intro mult_right_mono) simp_all
    then show ?thesis by simp
  qed
  have d: "x - y = of_int (k - l) * 2 powi (- 1074)" by (simp add: kl left_diff_distrib)
  consider "k = l" | "l < k" | "k < l" by linarith
  then show ?thesis
  proof cases
    case 2
    then have g: "2 powi (- 1074) \<le> x - y" using gap[of l k] d by simp
    moreover have "0 < (2::rat) powi (- 1074)" by simp
    ultimately have pos: "0 < x - y" by (rule order.strict_trans2[rotated])
    then have "rnd (x - y) \<noteq> JFin 0" using rpos_tiny[OF g] by (simp add: rnd_pos)
    then show ?thesis using pos xy by (cases "rnd (x - y)") (auto simp: jsub_def)
  next
    case 3
    have "- (x - y) = of_int (l - k) * 2 powi (- 1074)" by (simp add: kl left_diff_distrib)
    then have g: "2 powi (- 1074) \<le> - (x - y)" using gap[of k l] 3 by simp
    moreover have "0 < (2::rat) powi (- 1074)" by simp
    ultimately have "0 < - (x - y)" by (rule order.strict_trans2[rotated])
    then have neg: "x - y < 0" by simp
    then have "rnd (x - y) \<noteq> JFin 0" using rpos_tiny[OF g] rnd_neg[OF neg] by simp
    then show ?thesis using neg xy by (cases "rnd (x - y)") (auto simp: jsub_def)
  qed (use xy kl in \<open>simp add: jsub_def\<close>)
qed

subsection \<open>JSON\<close>

datatype json = JNull | JBool bool | JNum jnum | JStr string | JArr "json list"
  | JObj "(string \<times> json) list"

end
