(* ===== verification/Policy.thy ===== *)
theory Policy
  imports JsNumber
begin

text \<open>
  Permissions: the policy engine of \<open>packages/core/src/policy.ts\<close>, the governance matrices of
  \<open>packages/core/src/governance.ts\<close> and the gate through which the chat handler of
  \<open>apps/api/src/chat.ts\<close> lets a model's tool call act.  The Chinese notes of the matrix are
  display text: a rule records whether it has a condition text and a note, and the reason of a
  decision says which of them is shown.
\<close>

subsection \<open>Policy engine\<close>

datatype rule_effect = EffAllow | EffDeny

record permission_rule =
  pr_effect :: rule_effect
  pr_action :: string
  pr_resource :: string

definition matchPattern :: "string \<Rightarrow> string \<Rightarrow> bool" where
  "matchPattern pat v =
    (if pat = ''*'' \<or> pat = v then True
     else if ends_with pat ''.*''
       then (let p = take (length pat - 2) pat in v = p \<or> starts_with v (p @ ''.''))
     else False)"

definition rule_matches :: "permission_rule \<Rightarrow> string \<Rightarrow> string \<Rightarrow> bool" where
  "rule_matches r act res \<longleftrightarrow> matchPattern (pr_action r) act \<and> matchPattern (pr_resource r) res"

definition can :: "permission_rule list \<Rightarrow> string \<Rightarrow> string \<Rightarrow> bool" where
  "can rules act res =
    (let denies = filter (\<lambda>r. pr_effect r = EffDeny \<and> rule_matches r act res) rules
     in if 0 < length denies then False
        else let allows = filter (\<lambda>r. pr_effect r = EffAllow \<and> rule_matches r act res) rules
             in 0 < length allows)"

text \<open>A policy rule's condition is a closure supplied by the employee specification; it may throw
  (\<open>None\<close>), which counts as not matching.\<close>
definition evaluatePolicies :: "('ctx \<Rightarrow> bool option) list \<Rightarrow> 'ctx \<Rightarrow> ('ctx \<Rightarrow> bool option) list" where
  "evaluatePolicies rules ctx = filter (\<lambda>when. case when ctx of Some b \<Rightarrow> b | None \<Rightarrow> False) rules"

subsection \<open>Governance\<close>

datatype action_category = CRead | CAnalyze | CInternal | CExternalComm | CErpWrite | CHighRisk | CAdmin

datatype permission_level = LAllow | LConditional | LRequireApproval | LReadonly | LDeny

record action_rule =
  ar_category :: action_category
  ar_level :: permission_level
  ar_condition :: bool
  ar_note :: bool

text \<open>The text of a decision: the fixed text for an undefined action, the unmet condition (the
  rule's own text or the default one), the rule's note, or the name of its level.\<close>
datatype decision_reason = RUndefinedAction | RConditionUnmet bool | RNote | RLevel "permission_level option"

record permission_decision =
  pd_action :: string
  pd_category :: "action_category option"
  pd_level :: "permission_level option"
  pd_autoExecute :: bool
  pd_reason :: decision_reason

type_synonym rule_matrix = "(string, action_rule) kv"

text \<open>The context a caller passes: named numbers (\<open>days\<close>, \<open>delta\<close>).\<close>
type_synonym gov_context = "string \<Rightarrow> jnum option"

definition meetsCondition :: "string \<Rightarrow> gov_context \<Rightarrow> bool" where
  "meetsCondition action ctx =
    (if action = ''update_promise_date''
       then jle (case ctx ''days'' of None \<Rightarrow> jint 0 | Some d \<Rightarrow> d) (jint 2)
     else if action = ''update_quantity''
       then jle (case ctx ''delta'' of None \<Rightarrow> jint 1 | Some d \<Rightarrow> d) (jint 0)
     else False)"

text \<open>\<open>check\<close>: an inherited property name finds a function instead of a rule, whose category, level
  and note are all undefined.\<close>
definition check :: "rule_matrix \<Rightarrow> string \<Rightarrow> gov_context \<Rightarrow> permission_decision" where
  "check rules action ctx =
    (case map_of rules action of
       None \<Rightarrow>
         if action \<in> set proto_keys
         then \<lparr>pd_action = action, pd_category = None, pd_level = None, pd_autoExecute = False,
               pd_reason = RLevel None\<rparr>
         else \<lparr>pd_action = action, pd_category = Some CAdmin, pd_level = Some LDeny,
               pd_autoExecute = False, pd_reason = RUndefinedAction\<rparr>
     | Some rule \<Rightarrow>
         let autoExecute = ar_level rule = LAllow
               \<or> (ar_level rule = LConditional \<and> meetsCondition action ctx);
             reason = if ar_level rule = LConditional \<and> \<not> autoExecute
               then RConditionUnmet (ar_condition rule)
               else if ar_note rule then RNote else RLevel (Some (ar_level rule))
         in \<lparr>pd_action = action, pd_category = Some (ar_category rule),
             pd_level = Some (ar_level rule), pd_autoExecute = autoExecute, pd_reason = reason\<rparr>)"

text \<open>Rules with a note, without one, and with a condition (and a note).\<close>
abbreviation noted :: "action_category \<Rightarrow> permission_level \<Rightarrow> action_rule" where
  "noted c l \<equiv> \<lparr>ar_category = c, ar_level = l, ar_condition = False, ar_note = True\<rparr>"
abbreviation plain :: "action_category \<Rightarrow> permission_level \<Rightarrow> action_rule" where
  "plain c l \<equiv> \<lparr>ar_category = c, ar_level = l, ar_condition = False, ar_note = False\<rparr>"
abbreviation conditional :: "action_category \<Rightarrow> bool \<Rightarrow> action_rule" where
  "conditional c n \<equiv> \<lparr>ar_category = c, ar_level = LConditional, ar_condition = True, ar_note = n\<rparr>"

definition quoteOperatorGovernance :: rule_matrix where
  "quoteOperatorGovernance =
    [(''read_customer_rfq'', noted CRead LAllow),
     (''read_history_quote'', noted CRead LAllow),
     (''read_erp_product'', noted CRead LAllow),
     (''check_inventory'', noted CRead LAllow),
     (''read_std_price'', noted CRead LAllow),
     (''read_history_price'', noted CRead LAllow),
     (''read_std_leadtime'', noted CRead LAllow),
     (''product_match'', conditional CAnalyze True),
     (''generate_quote_draft'', noted CAnalyze LAllow),
     (''send_std_quote'', conditional CExternalComm True),
     (''send_quote'', conditional CExternalComm False),
     (''create_sales_order'', conditional CErpWrite True),
     (''nonstd_quote'', noted CHighRisk LRequireApproval),
     (''low_margin_quote'', noted CHighRisk LRequireApproval),
     (''special_payment_terms'', noted CHighRisk LRequireApproval),
     (''special_leadtime'', noted CHighRisk LRequireApproval),
     (''over_discount'', noted CHighRisk LRequireApproval),
     (''modify_floor_price'', noted CHighRisk LDeny),
     (''change_rule'', noted CAdmin LRequireApproval),
     (''add_capability'', noted CAdmin LRequireApproval),
     (''set_deploy_mode'', noted CAdmin LRequireApproval)]"

definition poOperatorGovernance :: rule_matrix where
  "poOperatorGovernance =
    [(''overview'', noted CRead LAllow),
     (''list_employees'', plain CRead LAllow),
     (''employee_detail'', plain CRead LAllow),
     (''list_tasks'', plain CRead LAllow),
     (''list_approvals'', plain CRead LAllow),
     (''get_context'', plain CRead LAllow),
     (''get_tools'', plain CRead LAllow),
     (''get_po'', noted CRead LAllow),
     (''get_supplier'', noted CRead LAllow),
     (''draft_email'', noted CAnalyze LAllow),
     (''analyze_delay'', plain CAnalyze LAllow),
     (''compare_quotes'', plain CAnalyze LAllow),
     (''approve'', noted CInternal LAllow),
     (''reject'', plain CInternal LAllow),
     (''inject_event'', plain CInternal LAllow),
     (''create_task'', plain CInternal LAllow),
     (''notify'', plain CInternal LAllow),
     (''send_email'', noted CExternalComm LAllow),
     (''send_wecom'', plain CExternalComm LAllow),
     (''update_po_status'', noted CErpWrite LAllow),
     (''update_promise_date'', conditional CErpWrite True),
     (''update_price'', noted CHighRisk LRequireApproval),
     (''update_quantity'', noted CHighRisk LRequireApproval),
     (''cancel_order'', noted CHighRisk LRequireApproval),
     (''award'', noted CHighRisk LRequireApproval),
     (''payment'', noted CHighRisk LDeny),
     (''add_capability'', noted CAdmin LRequireApproval),
     (''set_deploy_mode'', noted CAdmin LRequireApproval),
     (''change_rule'', noted CAdmin LRequireApproval),
     (''publish_version'', noted CAdmin LRequireApproval),
     (''create_employee'', noted CAdmin LRequireApproval)]"

subsection \<open>The chat gate\<close>

definition STATE_CHANGING :: "string list" where
  "STATE_CHANGING = [''approve'', ''reject'', ''send_email'', ''update_promise_date'',
     ''update_quantity'', ''update_price'', ''change_rule'', ''set_deploy_mode'', ''add_capability'',
     ''collaboration_action'']"

text \<open>The roles the source names (purchasing manager, sales manager, buyer, administrator).\<close>
datatype actor_role = PurchasingManager | SalesManager | Buyer | Administrator | OtherRole string

fun ACTOR_CATEGORIES :: "actor_role \<Rightarrow> action_category list" where
  "ACTOR_CATEGORIES PurchasingManager = [CRead, CAnalyze, CInternal, CExternalComm, CErpWrite]"
| "ACTOR_CATEGORIES SalesManager = [CRead, CAnalyze, CInternal, CExternalComm]"
| "ACTOR_CATEGORIES Buyer = [CRead, CAnalyze, CInternal]"
| "ACTOR_CATEGORIES Administrator =
     [CRead, CAnalyze, CInternal, CExternalComm, CErpWrite, CHighRisk, CAdmin]"
| "ACTOR_CATEGORIES (OtherRole _) = [CRead]"

datatype gate_outcome = RefusedActor | RefusedLevel "permission_level option" decision_reason
  | PendingConfirmation | Executed

text \<open>What the handler does with one tool call, after \<open>gov.check\<close>; the category of an inherited
  name is undefined, which no actor's list includes.\<close>
definition chat_gate :: "actor_role \<Rightarrow> bool \<Rightarrow> string \<Rightarrow> gov_context \<Rightarrow> gate_outcome" where
  "chat_gate role confirm name ctx =
    (let d = check poOperatorGovernance name ctx
     in if pd_category d \<notin> Some ` set (ACTOR_CATEGORIES role) then RefusedActor
        else if \<not> pd_autoExecute d then RefusedLevel (pd_level d) (pd_reason d)
        else if \<not> confirm \<and> name \<in> set STATE_CHANGING then PendingConfirmation
        else Executed)"

subsection \<open>Lemmas\<close>

lemma can_iff:
  "can rules act res \<longleftrightarrow>
     (\<exists>r\<in>set rules. pr_effect r = EffAllow \<and> rule_matches r act res) \<and>
     \<not> (\<exists>r\<in>set rules. pr_effect r = EffDeny \<and> rule_matches r act res)"
  by (auto simp: can_def filter_empty_conv Let_def)

lemma matchPattern_prefix:
  "matchPattern (p @ ''.*'') v \<longleftrightarrow> v = p @ ''.*'' \<or> v = p \<or> starts_with v (p @ ''.'') \<or> p @ ''.*'' = ''*''"
  by (auto simp: matchPattern_def ends_with_def)

lemma matchPattern_literal: "pat \<noteq> ''*'' \<Longrightarrow> \<not> ends_with pat ''.*'' \<Longrightarrow> matchPattern pat v \<longleftrightarrow> v = pat"
  by (auto simp: matchPattern_def)

lemma check_auto:
  "pd_autoExecute (check rules a ctx) \<longleftrightarrow>
     (\<exists>r. map_of rules a = Some r \<and>
        (ar_level r = LAllow \<or> ar_level r = LConditional \<and> meetsCondition a ctx))"
  by (auto simp: check_def Let_def split: option.splits)

lemma check_category:
  "map_of rules a = Some r \<Longrightarrow> pd_category (check rules a ctx) = Some (ar_category r)"
  by (simp add: check_def Let_def)

text \<open>A matrix is guarded when its high-risk and administrative rules are never automatic.\<close>
definition guarded_matrix :: "rule_matrix \<Rightarrow> bool" where
  "guarded_matrix rules = list_all (\<lambda>(_, r). ar_category r \<in> {CHighRisk, CAdmin} \<longrightarrow>
      ar_level r \<in> {LRequireApproval, LDeny}) rules"

lemma guarded_po: "guarded_matrix poOperatorGovernance"
  by (simp add: guarded_matrix_def poOperatorGovernance_def)

lemma guarded_quote: "guarded_matrix quoteOperatorGovernance"
  by (simp add: guarded_matrix_def quoteOperatorGovernance_def)

lemma guarded_auto:
  assumes "guarded_matrix rules" "pd_autoExecute (check rules a ctx)"
  shows "pd_category (check rules a ctx) \<in> Some ` {CRead, CAnalyze, CInternal, CExternalComm, CErpWrite}"
proof -
  obtain r where r: "map_of rules a = Some r" and l: "ar_level r = LAllow \<or> ar_level r = LConditional"
    using assms(2) by (auto simp: check_auto)
  have "(a, r) \<in> set rules" using r by (rule map_of_SomeD)
  then have "ar_category r \<notin> {CHighRisk, CAdmin}"
    using assms(1) l by (auto simp: guarded_matrix_def list_all_iff)
  then show ?thesis
    by (cases "ar_category r") (auto simp: check_category[OF r])
qed

subsection \<open>Properties\<close>

text \<open>Default deny with deny precedence: the engine grants an action on a resource exactly when
  some allow rule matches it and no deny rule does, so the order of the rules is irrelevant.  A
  pattern matches everything when it is a star, itself, and (with a trailing dot-star) its prefix
  and everything below it.\<close>
theorem can_spec:
  "(can rules act res \<longleftrightarrow>
      (\<exists>r\<in>set rules. pr_effect r = EffAllow \<and> rule_matches r act res) \<and>
      \<not> (\<exists>r\<in>set rules. pr_effect r = EffDeny \<and> rule_matches r act res)) \<and>
   (can (rules @ others) act res = can (others @ rules) act res) \<and>
   \<not> can [] act res \<and>
   matchPattern ''*'' act \<and>
   (matchPattern (p @ ''.*'') act \<longleftrightarrow>
      act = p @ ''.*'' \<or> act = p \<or> (\<exists>rest. act = p @ ''.'' @ rest))"
  by (auto simp: can_iff matchPattern_prefix starts_with_iff) (simp_all add: matchPattern_def)

text \<open>C29 Whatever the actor's role, the confirmation flag and the context, a tool call that the chat
  handler executes is one the matrix lets run automatically, of a category the role may ask for,
  never high-risk or administrative, and confirmed when it changes state.\<close>
theorem chat_executes_only_authorised:
  assumes "chat_gate role confirm name ctx = Executed"
  shows "\<exists>c. pd_category (check poOperatorGovernance name ctx) = Some c \<and>
     c \<in> set (ACTOR_CATEGORIES role) \<and> c \<noteq> CHighRisk \<and> c \<noteq> CAdmin \<and>
     pd_autoExecute (check poOperatorGovernance name ctx) \<and>
     (confirm \<or> name \<notin> set STATE_CHANGING)"
proof -
  let ?d = "check poOperatorGovernance name ctx"
  have c: "pd_category ?d \<in> Some ` set (ACTOR_CATEGORIES role)" and a: "pd_autoExecute ?d"
    and "confirm \<or> name \<notin> set STATE_CHANGING"
    using assms by (auto simp: chat_gate_def Let_def split: if_splits)
  then show ?thesis using guarded_auto[OF guarded_po a] by auto
qed

theorem chat_executes_only_authorised_witness:
  "\<exists>c. pd_category (check poOperatorGovernance ''send_email'' (\<lambda>_. None)) = Some c \<and>
     c \<in> set (ACTOR_CATEGORIES PurchasingManager) \<and> c \<noteq> CHighRisk \<and> c \<noteq> CAdmin"
  using chat_executes_only_authorised[of PurchasingManager True "''send_email''" "\<lambda>_. None"]
  by (auto simp: chat_gate_def check_def poOperatorGovernance_def)

text \<open>A promised date whose change in days is unknown, or an earlier date however far, counts as
  within the two-day limit.\<close>
lemma promise_date_automatic_without_days:
  "pd_autoExecute (check poOperatorGovernance ''update_promise_date'' (\<lambda>_. None))"
  "pd_autoExecute (check poOperatorGovernance ''update_promise_date'' (Map.empty(''days'' \<mapsto> JFin (- 400))))"
  "\<not> pd_autoExecute (check poOperatorGovernance ''update_promise_date'' (Map.empty(''days'' \<mapsto> JFin 3)))"
  by (simp_all add: check_def poOperatorGovernance_def meetsCondition_def)

end
