(* ===== verification/Repositories.thy ===== *)
theory Repositories
  imports JsNumber
begin

text \<open>
  The repository boundary of \<open>packages/core/src/repositories.ts\<close>: every store of the runtime keeps
  its entities behind \<open>get\<close>, \<open>list\<close> and \<open>save\<close>.  The locale \<open>entity_store\<close> states what the stores
  rely on; the in-memory implementation (a \<open>Map\<close> keyed by id) is \<open>mem_save\<close> over \<open>map_of\<close>, and each
  repository of the code is an interpretation.
\<close>

subsection \<open>The interface\<close>

locale entity_store =
  fixes get :: "'s \<Rightarrow> ident \<Rightarrow> 'v option"
    and save :: "'v \<Rightarrow> 's \<Rightarrow> 's"
    and all :: "'s \<Rightarrow> 'v list"
    and key :: "'v \<Rightarrow> ident"
    and ok :: "'s \<Rightarrow> bool"
  assumes get_save: "get (save v s) k = (if k = key v then Some v else get s k)"
    and ok_save: "ok s \<Longrightarrow> ok (save v s)"
    and all_get: "ok s \<Longrightarrow> v \<in> set (all s) \<longleftrightarrow> get s (key v) = Some v"
    and get_key: "ok s \<Longrightarrow> get s k = Some v \<Longrightarrow> key v = k"
begin

lemma get_save_same [simp]: "get (save v s) (key v) = Some v"
  by (simp add: get_save)

lemma get_save_other: "k \<noteq> key v \<Longrightarrow> get (save v s) k = get s k"
  by (simp add: get_save)

lemma save_save: "key v = key w \<Longrightarrow> get (save v (save w s)) k = get (save v s) k"
  by (simp add: get_save)

lemma get_all: "ok s \<Longrightarrow> get s k = Some v \<Longrightarrow> v \<in> set (all s)"
  using all_get get_key by blast

text \<open>An entity is listed after a save exactly when it is the saved one or another of the old ones.\<close>
lemma all_save:
  assumes "ok s"
  shows "w \<in> set (all (save v s)) \<longleftrightarrow> w = v \<or> (w \<in> set (all s) \<and> key w \<noteq> key v)"
  using assms ok_save all_get by (auto simp: get_save)

text \<open>Saving an entity that satisfies a predicate keeps the predicate on the whole store.\<close>
lemma all_save_pred:
  assumes "ok s" "\<forall>w\<in>set (all s). P w" "P v"
  shows "\<forall>w\<in>set (all (save v s)). P w"
  using assms by (auto simp: all_save)

lemma get_pred: "ok s \<Longrightarrow> \<forall>w\<in>set (all s). P w \<Longrightarrow> get s k = Some v \<Longrightarrow> P v"
  using get_all by blast

end

subsection \<open>The in-memory implementation\<close>

definition mem_save :: "('v \<Rightarrow> ident) \<Rightarrow> 'v \<Rightarrow> (ident, 'v) kv \<Rightarrow> (ident, 'v) kv" where
  "mem_save key v m = AList.update (key v) v m"

definition mem_list :: "(ident, 'v) kv \<Rightarrow> 'v list" where
  "mem_list m = map snd m"

definition mem_ok :: "('v \<Rightarrow> ident) \<Rightarrow> (ident, 'v) kv \<Rightarrow> bool" where
  "mem_ok key m \<longleftrightarrow> distinct (map fst m) \<and> list_all (\<lambda>(k, v). key v = k) m"

lemma mem_ok_Nil [simp]: "mem_ok key []"
  by (simp add: mem_ok_def)

lemma mem_get_save: "map_of (mem_save key v m) k = (if k = key v then Some v else map_of m k)"
  by (simp add: mem_save_def update_get)

lemma set_update_subset: "set (AList.update k v m) \<subseteq> insert (k, v) (set m)"
  by (induction m) auto

lemma mem_ok_save: "mem_ok key m \<Longrightarrow> mem_ok key (mem_save key v m)"
  using set_update_subset[of "key v" v m]
  by (auto simp: mem_ok_def mem_save_def list_all_iff distinct_update)

lemma mem_list_get: "mem_ok key m \<Longrightarrow> v \<in> set (mem_list m) \<longleftrightarrow> map_of m (key v) = Some v"
  by (force simp: mem_ok_def mem_list_def list_all_iff)

lemma mem_get_key: "mem_ok key m \<Longrightarrow> map_of m k = Some v \<Longrightarrow> key v = k"
  by (auto simp: mem_ok_def list_all_iff dest: map_of_SomeD)

lemma mem_store: "entity_store map_of (mem_save key) mem_list key (mem_ok key)"
proof
  show "\<And>v s k. map_of (mem_save key v s) k = (if k = key v then Some v else map_of s k)"
    by (rule mem_get_save)
  show "\<And>s v. mem_ok key s \<Longrightarrow> mem_ok key (mem_save key v s)" by (rule mem_ok_save)
  show "\<And>s v. mem_ok key s \<Longrightarrow> v \<in> set (mem_list s) \<longleftrightarrow> map_of s (key v) = Some v"
    by (rule mem_list_get)
  show "\<And>s k v. mem_ok key s \<Longrightarrow> map_of s k = Some v \<Longrightarrow> key v = k" by (rule mem_get_key)
qed

text \<open>Saving keeps the insertion order of the ids already present.\<close>
lemma mem_save_keys:
  "map fst (mem_save key v m) = (if key v \<in> fst ` set m then map fst m else map fst m @ [key v])"
  by (simp add: mem_save_def update_keys)

end
