(* ===== verification/Lifecycle.thy ===== *)
theory Lifecycle
  imports Repositories
begin

text \<open>
  Procurement business objects and their life cycles: the state machines, approval thresholds and
  exception classes of \<open>packages/core/src/procurement-domain.ts\<close> and the business-object store of
  \<open>packages/core/src/business-object.ts\<close>.  Display names of the machines are left out.
\<close>

subsection \<open>State machines\<close>

record state_machine =
  sm_states :: "string list"
  sm_transitions :: "(string, string list) kv"
  sm_abnormal :: "string list"

definition PO_STATE_MACHINE :: state_machine where
  "PO_STATE_MACHINE = \<lparr>
    sm_states = [''draft'', ''created'', ''sent'', ''awaiting_confirmation'', ''confirmed'',
      ''in_production'', ''awaiting_shipment'', ''partially_shipped'', ''shipped'',
      ''partially_received'', ''received'', ''closed''],
    sm_transitions = [
      (''draft'', [''created'', ''sent'']),
      (''created'', [''sent'']),
      (''sent'', [''awaiting_confirmation'']),
      (''awaiting_confirmation'', [''confirmed'', ''rejected'', ''cancelled'']),
      (''confirmed'', [''in_production'']),
      (''in_production'', [''awaiting_shipment'']),
      (''awaiting_shipment'', [''partially_shipped'', ''shipped'']),
      (''partially_shipped'', [''shipped'', ''partially_received'']),
      (''shipped'', [''partially_received'', ''received'']),
      (''partially_received'', [''received'']),
      (''received'', [''closed'']),
      (''rejected'', [''closed'']),
      (''cancelled'', [''closed''])],
    sm_abnormal = [''rejected'', ''cancelled'']\<rparr>"

definition RFQ_STATE_MACHINE :: state_machine where
  "RFQ_STATE_MACHINE = \<lparr>
    sm_states = [''draft'', ''sent'', ''awaiting_quotes'', ''partial_quotes'', ''quotes_complete'',
      ''compared'', ''pending_award'', ''awarded'', ''closed''],
    sm_transitions = [
      (''draft'', [''sent'', ''pending_award'']),
      (''sent'', [''awaiting_quotes'']),
      (''awaiting_quotes'', [''partial_quotes'', ''quotes_complete'', ''pending_award'']),
      (''partial_quotes'', [''awaiting_quotes'', ''quotes_complete'', ''pending_award'']),
      (''quotes_complete'', [''compared'', ''pending_award'']),
      (''compared'', [''pending_award'']),
      (''pending_award'', [''awarded'']),
      (''awarded'', [''closed''])],
    sm_abnormal = []\<rparr>"

definition INVOICE_STATE_MACHINE :: state_machine where
  "INVOICE_STATE_MACHINE = \<lparr>
    sm_states = [''received'', ''parsing'', ''awaiting_link'', ''three_way_match'', ''matched'',
      ''pending_approval'', ''exception'', ''payable_approved'', ''erp_written''],
    sm_transitions = [
      (''received'', [''parsing'']),
      (''parsing'', [''awaiting_link'', ''exception'']),
      (''awaiting_link'', [''three_way_match'', ''exception'']),
      (''three_way_match'', [''matched'', ''pending_approval'', ''exception'']),
      (''matched'', [''payable_approved'']),
      (''pending_approval'', [''payable_approved'', ''exception'']),
      (''exception'', [''awaiting_link'', ''three_way_match'', ''matched'']),
      (''payable_approved'', [''erp_written''])],
    sm_abnormal = [''exception'']\<rparr>"

text \<open>\<open>None\<close> is the \<open>TypeError\<close> of looking up an inherited property name: it finds a function, which
  has no \<open>includes\<close>.\<close>
definition canTransition :: "state_machine \<Rightarrow> string \<Rightarrow> string \<Rightarrow> bool option" where
  "canTransition sm src dst =
    (case map_of (sm_transitions sm) src of
       Some targets \<Rightarrow> Some (dst \<in> set targets)
     | None \<Rightarrow> if src \<in> set proto_keys then None else Some False)"

definition lifecycleStateMachine :: "string \<Rightarrow> state_machine option" where
  "lifecycleStateMachine ty =
    (if ty = ''po'' \<or> ty = ''purchase_order'' then Some PO_STATE_MACHINE
     else if ty = ''rfq'' then Some RFQ_STATE_MACHINE
     else if ty = ''invoice'' then Some INVOICE_STATE_MACHINE
     else None)"

subsection \<open>Approval thresholds and exception classes\<close>

record approval_threshold =
  th_auto :: jnum
  th_buyer :: jnum

definition APPROVAL_THRESHOLDS :: "(string, approval_threshold) kv" where
  "APPROVAL_THRESHOLDS =
    [(''deliveryDelayDays'', \<lparr>th_auto = jint 2, th_buyer = jint 5\<rparr>),
     (''poPriceVariancePct'', \<lparr>th_auto = jint 2, th_buyer = jint 5\<rparr>),
     (''threeWayVariancePct'', \<lparr>th_auto = jint 1, th_buyer = jint 3\<rparr>)]"

datatype approval_level = AlAuto | AlBuyer | AlManager | AlFinance

text \<open>An unknown kind is the \<open>TypeError\<close> of reading a field of \<open>undefined\<close>; an inherited name finds an
  object without the two fields, and no number is below \<open>undefined\<close>.\<close>
definition approvalLevel :: "string \<Rightarrow> jnum \<Rightarrow> approval_level option" where
  "approvalLevel kind v =
    (case map_of APPROVAL_THRESHOLDS kind of
       None \<Rightarrow> if kind \<in> set proto_keys then Some AlManager else None
     | Some t \<Rightarrow>
         Some (if jle v (th_auto t) then AlAuto
               else if jle v (th_buyer t)
                 then (if kind = ''threeWayVariancePct'' then AlFinance else AlBuyer)
               else AlManager))"

definition ruleIdToExceptionType :: "string \<Rightarrow> string" where
  "ruleIdToExceptionType ruleId =
    (if ruleId = ''delay-over-7d'' then ''delivery_delay''
     else if ruleId = ''price-change'' then ''price_variance''
     else if ruleId = ''variance-over'' then ''three_way_mismatch''
     else if ruleId = ''approve-payable'' then ''payable_approval''
     else ''other'')"

subsection \<open>Business objects\<close>

record bo_event =
  be_at :: instant
  be_kind :: string
  be_summary :: string
  be_by :: string

record business_object =
  bo_id :: ident
  bo_type :: string
  bo_status :: string
  bo_attributes :: "(string, json) kv"
  bo_state :: "(string, json) kv"
  bo_history :: "bo_event list"
  bo_updatedAt :: instant

record bo_meta =
  m_kind :: string
  m_summary :: string
  m_by :: string

record bo_patch =
  p_attributes :: "(string, json) kv option"
  p_state :: "(string, json) kv option"
  p_status :: "string option"

type_synonym bo_store = "(ident, business_object) kv"

abbreviation bo_save :: "business_object \<Rightarrow> bo_store \<Rightarrow> bo_store" where
  "bo_save \<equiv> mem_save bo_id"

interpretation bo_repo: entity_store map_of bo_save mem_list bo_id "mem_ok bo_id"
  by (rule mem_store)

text \<open>Object spread \<open>{...a, ...b}\<close>.\<close>
definition spread :: "(string, json) kv \<Rightarrow> (string, json) kv \<Rightarrow> (string, json) kv" where
  "spread a b = foldl (\<lambda>m (k, v). AList.update k v m) a b"

datatype bo_error = BoMissing ident | BoIllegal string string string | BoTypeError

definition bo_create ::
  "ident \<Rightarrow> string \<Rightarrow> string option \<Rightarrow> (string, json) kv option \<Rightarrow> instant \<Rightarrow> bo_store
    \<Rightarrow> business_object \<times> bo_store" where
  "bo_create i ty st attrs now s =
    (let bo = \<lparr>bo_id = i, bo_type = ty, bo_status = (case st of None \<Rightarrow> ''created'' | Some x \<Rightarrow> x),
               bo_attributes = spread [] (case attrs of None \<Rightarrow> [] | Some a \<Rightarrow> a), bo_state = [],
               bo_history = [], bo_updatedAt = now\<rparr>
     in (bo, bo_save bo s))"

definition bo_event_of :: "bo_meta \<Rightarrow> instant \<Rightarrow> bo_event" where
  "bo_event_of meta now =
     \<lparr>be_at = now, be_kind = m_kind meta, be_summary = m_summary meta, be_by = m_by meta\<rparr>"

definition bo_update ::
  "ident \<Rightarrow> bo_patch \<Rightarrow> bo_meta \<Rightarrow> instant \<Rightarrow> bo_store \<Rightarrow> (bo_error, business_object) result \<times> bo_store"
where
  "bo_update i patch meta now s =
    (case map_of s i of
       None \<Rightarrow> (Inl (BoMissing i), s)
     | Some bo \<Rightarrow>
         let bo1 = (case p_attributes patch of None \<Rightarrow> bo
                    | Some a \<Rightarrow> bo\<lparr>bo_attributes := spread (bo_attributes bo) a\<rparr>);
             bo2 = (case p_state patch of None \<Rightarrow> bo1
                    | Some a \<Rightarrow> bo1\<lparr>bo_state := spread (bo_state bo1) a\<rparr>);
             bo3 = (case p_status patch of None \<Rightarrow> bo2 | Some st \<Rightarrow> bo2\<lparr>bo_status := st\<rparr>);
             bo4 = bo3\<lparr>bo_updatedAt := now, bo_history := bo_history bo3 @ [bo_event_of meta now]\<rparr>
         in (Inr bo4, bo_save bo4 s))"

definition bo_list :: "string option \<Rightarrow> bo_store \<Rightarrow> business_object list" where
  "bo_list ty s =
    (case ty of None \<Rightarrow> mem_list s
     | Some t \<Rightarrow> if t = [] then mem_list s else filter (\<lambda>b. bo_type b = t) (mem_list s))"

definition bo_transition ::
  "ident \<Rightarrow> string \<Rightarrow> bo_meta \<Rightarrow> instant \<Rightarrow> bo_store \<Rightarrow> (bo_error, business_object) result \<times> bo_store"
where
  "bo_transition i next meta now s =
    (case map_of s i of
       None \<Rightarrow> (Inl (BoMissing i), s)
     | Some bo \<Rightarrow>
         (case (case lifecycleStateMachine (bo_type bo) of
                  None \<Rightarrow> Some True
                | Some sm \<Rightarrow> canTransition sm (bo_status bo) next) of
            None \<Rightarrow> (Inl BoTypeError, s)
          | Some False \<Rightarrow> (Inl (BoIllegal (bo_type bo) (bo_status bo) next), s)
          | Some True \<Rightarrow>
              let bo1 = bo\<lparr>bo_status := next, bo_updatedAt := now,
                           bo_history := bo_history bo @ [bo_event_of meta now]\<rparr>
              in (Inr bo1, bo_save bo1 s)))"

subsection \<open>Lemmas\<close>

text \<open>One legal move of a machine, and the states it may pass through.\<close>
definition sm_step :: "state_machine \<Rightarrow> (string \<times> string) set" where
  "sm_step sm = {(a, b). canTransition sm a b = Some True}"

fun sm_path :: "state_machine \<Rightarrow> string list \<Rightarrow> bool" where
  "sm_path sm (a # b # rest) = (canTransition sm a b = Some True \<and> sm_path sm (b # rest))"
| "sm_path sm _ = True"

lemma sm_path_reach: "sm_path sm (a # rest) \<Longrightarrow> (a, last (a # rest)) \<in> (sm_step sm)\<^sup>*"
  by (induction rest arbitrary: a)
    (auto simp: sm_step_def intro: converse_rtrancl_into_rtrancl)

text \<open>A machine is closed when its edges stay within its declared states.\<close>
definition sm_closed :: "state_machine \<Rightarrow> bool" where
  "sm_closed sm = list_all (\<lambda>(a, bs). set (a # bs) \<subseteq> set (sm_states sm @ sm_abnormal sm))
     (sm_transitions sm)"

lemma sm_closed_step:
  "sm_closed sm \<Longrightarrow> canTransition sm a b = Some True \<Longrightarrow>
     a \<in> set (sm_states sm @ sm_abnormal sm) \<and> b \<in> set (sm_states sm @ sm_abnormal sm)"
  by (fastforce simp: sm_closed_def list_all_iff canTransition_def
      dest!: map_of_SomeD split: option.splits if_splits)

lemma sm_closed_machines:
  "sm_closed PO_STATE_MACHINE" "sm_closed RFQ_STATE_MACHINE" "sm_closed INVOICE_STATE_MACHINE"
  by (simp_all add: sm_closed_def PO_STATE_MACHINE_def RFQ_STATE_MACHINE_def INVOICE_STATE_MACHINE_def)

lemma lifecycle_closed: "lifecycleStateMachine ty = Some sm \<Longrightarrow> sm_closed sm"
  using sm_closed_machines by (auto simp: lifecycleStateMachine_def split: if_splits)

text \<open>The step a business object of a type may take: any, when the type has no machine.\<close>
definition bo_allowed :: "business_object \<Rightarrow> string \<Rightarrow> bool" where
  "bo_allowed bo next = (case lifecycleStateMachine (bo_type bo) of None \<Rightarrow> True
     | Some sm \<Rightarrow> canTransition sm (bo_status bo) next = Some True)"

lemma bo_transition_cases:
  "bo_transition i next meta now s =
    (case map_of s i of
       None \<Rightarrow> (Inl (BoMissing i), s)
     | Some bo \<Rightarrow>
         if bo_allowed bo next
         then let bo1 = bo\<lparr>bo_status := next, bo_updatedAt := now,
                           bo_history := bo_history bo @ [bo_event_of meta now]\<rparr>
              in (Inr bo1, bo_save bo1 s)
         else (Inl (case lifecycleStateMachine (bo_type bo) of None \<Rightarrow> BoTypeError
                | Some sm \<Rightarrow> if canTransition sm (bo_status bo) next = None then BoTypeError
                            else BoIllegal (bo_type bo) (bo_status bo) next), s))"
  by (auto simp: bo_transition_def bo_allowed_def Let_def split: option.splits bool.splits)

lemma bo_update_status:
  assumes "mem_ok bo_id s" "bo_update i patch meta now s = (r, s')" "k \<noteq> i"
  shows "map_of s' k = map_of s k"
  using assms
  by (auto simp: bo_update_def Let_def mem_get_save mem_get_key split: option.splits)

text \<open>A list of edges each of which ends in the final state or in the source of a later one.\<close>
fun chain :: "(string \<times> string) list \<Rightarrow> string \<Rightarrow> bool" where
  "chain [] final = True"
| "chain ((a, b) # es) final = ((b = final \<or> b \<in> fst ` set es) \<and> chain es final)"

lemma chain_reach:
  "chain es final \<Longrightarrow> set es \<subseteq> sm_step sm \<Longrightarrow> a \<in> fst ` set es \<Longrightarrow> (a, final) \<in> (sm_step sm)\<^sup>*"
proof (induction es final arbitrary: a rule: chain.induct)
  case (2 x b es final)
  then have "(b, final) \<in> (sm_step sm)\<^sup>*" by auto
  moreover have "(x, b) \<in> sm_step sm" using "2.prems" by simp
  ultimately have "(x, final) \<in> (sm_step sm)\<^sup>*" by (rule converse_rtrancl_into_rtrancl[rotated])
  then show ?case using 2 by auto
qed simp

definition po_route :: "(string \<times> string) list" where
  "po_route = [(''draft'', ''created''), (''created'', ''sent''), (''sent'', ''awaiting_confirmation''),
     (''awaiting_confirmation'', ''confirmed''), (''confirmed'', ''in_production''),
     (''in_production'', ''awaiting_shipment''), (''awaiting_shipment'', ''partially_shipped''),
     (''partially_shipped'', ''shipped''), (''shipped'', ''partially_received''),
     (''partially_received'', ''received''), (''received'', ''closed''),
     (''rejected'', ''closed''), (''cancelled'', ''closed'')]"

definition rfq_route :: "(string \<times> string) list" where
  "rfq_route = [(''draft'', ''sent''), (''sent'', ''awaiting_quotes''),
     (''awaiting_quotes'', ''partial_quotes''), (''partial_quotes'', ''quotes_complete''),
     (''quotes_complete'', ''compared''), (''compared'', ''pending_award''),
     (''pending_award'', ''awarded''), (''awarded'', ''closed'')]"

definition invoice_route :: "(string \<times> string) list" where
  "invoice_route = [(''received'', ''parsing''), (''parsing'', ''awaiting_link''),
     (''awaiting_link'', ''three_way_match''), (''three_way_match'', ''matched''),
     (''exception'', ''matched''), (''matched'', ''payable_approved''),
     (''pending_approval'', ''payable_approved''), (''payable_approved'', ''erp_written'')]"

lemma route_chains:
  "chain po_route ''closed''" "chain rfq_route ''closed''" "chain invoice_route ''erp_written''"
  by (simp_all add: po_route_def rfq_route_def invoice_route_def)

lemma route_edges:
  "set po_route \<subseteq> sm_step PO_STATE_MACHINE"
  "set rfq_route \<subseteq> sm_step RFQ_STATE_MACHINE"
  "set invoice_route \<subseteq> sm_step INVOICE_STATE_MACHINE"
  by (simp_all add: sm_step_def canTransition_def po_route_def rfq_route_def invoice_route_def
      PO_STATE_MACHINE_def RFQ_STATE_MACHINE_def INVOICE_STATE_MACHINE_def)

lemma route_states:
  "set (sm_states PO_STATE_MACHINE @ sm_abnormal PO_STATE_MACHINE) \<subseteq> insert ''closed'' (fst ` set po_route)"
  "set (sm_states RFQ_STATE_MACHINE @ sm_abnormal RFQ_STATE_MACHINE) \<subseteq> insert ''closed'' (fst ` set rfq_route)"
  "set (sm_states INVOICE_STATE_MACHINE @ sm_abnormal INVOICE_STATE_MACHINE)
     \<subseteq> insert ''erp_written'' (fst ` set invoice_route)"
  by (simp_all add: po_route_def rfq_route_def invoice_route_def
      PO_STATE_MACHINE_def RFQ_STATE_MACHINE_def INVOICE_STATE_MACHINE_def)

lemma route_reach:
  assumes "chain es final" "set es \<subseteq> sm_step sm" "A \<subseteq> insert final (fst ` set es)"
  shows "A \<subseteq> {a. (a, final) \<in> (sm_step sm)\<^sup>*}"
proof
  fix a assume "a \<in> A"
  then have "a = final \<or> a \<in> fst ` set es" using assms(3) by auto
  then show "a \<in> {a. (a, final) \<in> (sm_step sm)\<^sup>*}"
    using chain_reach[OF assms(1,2)] by blast
qed

text \<open>The final state of each machine is within reach of all its states.\<close>
lemmas machines_reach_final =
  route_reach[OF route_chains(1) route_edges(1) route_states(1)]
  route_reach[OF route_chains(2) route_edges(2) route_states(2)]
  route_reach[OF route_chains(3) route_edges(3) route_states(3)]

lemma machine_final_absorbing:
  "canTransition PO_STATE_MACHINE ''closed'' b = Some False"
  "canTransition RFQ_STATE_MACHINE ''closed'' b = Some False"
  "canTransition INVOICE_STATE_MACHINE ''erp_written'' b = Some False"
  by (simp_all add: canTransition_def PO_STATE_MACHINE_def RFQ_STATE_MACHINE_def
      INVOICE_STATE_MACHINE_def proto_keys_def)

text \<open>A store driven by \<open>transition\<close> calls alone, failed calls included.\<close>
fun bo_run :: "(ident \<times> string \<times> bo_meta \<times> instant) list \<Rightarrow> bo_store \<Rightarrow> bo_store" where
  "bo_run [] s = s"
| "bo_run ((i, next, meta, now) # ops) s = bo_run ops (snd (bo_transition i next meta now s))"

text \<open>What such a run may have done to one object.\<close>
definition bo_follows :: "business_object \<Rightarrow> business_object \<Rightarrow> bool" where
  "bo_follows a b \<longleftrightarrow> bo_id b = bo_id a \<and> bo_type b = bo_type a \<and>
     bo_attributes b = bo_attributes a \<and> bo_state b = bo_state a \<and>
     (\<exists>more. bo_history b = bo_history a @ more) \<and>
     (case lifecycleStateMachine (bo_type a) of None \<Rightarrow> True
      | Some sm \<Rightarrow> (bo_status a, bo_status b) \<in> (sm_step sm)\<^sup>*)"

lemma bo_follows_refl [simp]: "bo_follows a a"
  by (auto simp: bo_follows_def split: option.splits)

lemma bo_follows_trans: "bo_follows a b \<Longrightarrow> bo_follows b c \<Longrightarrow> bo_follows a c"
  by (auto simp: bo_follows_def split: option.splits)

lemma bo_follows_allowed:
  "bo_allowed a next \<Longrightarrow>
   bo_follows a (a\<lparr>bo_status := next, bo_updatedAt := now, bo_history := bo_history a @ [ev]\<rparr>)"
  by (auto simp: bo_follows_def bo_allowed_def sm_step_def split: option.splits)

lemma bo_transition_keeps:
  assumes "mem_ok bo_id s" "map_of s k = Some bo"
  shows "mem_ok bo_id (snd (bo_transition i next meta now s)) \<and>
    (\<exists>bo'. map_of (snd (bo_transition i next meta now s)) k = Some bo' \<and> bo_follows bo bo')"
  using assms bo_repo.get_key[OF assms(1)] bo_follows_allowed
  by (auto simp: bo_transition_cases Let_def mem_get_save mem_ok_save split: option.splits)

lemma bo_run_keeps:
  assumes "mem_ok bo_id s" "map_of s k = Some bo"
  shows "\<exists>bo'. map_of (bo_run ops s) k = Some bo' \<and> bo_follows bo bo'"
  using assms
proof (induction ops s arbitrary: bo rule: bo_run.induct)
  case (2 i nxt meta now ops s)
  then obtain b where ok: "mem_ok bo_id (snd (bo_transition i nxt meta now s))"
    and b: "map_of (snd (bo_transition i nxt meta now s)) k = Some b" "bo_follows bo b"
    using bo_transition_keeps by blast
  from "2.IH"[OF ok b(1)] b(2) show ?case using bo_follows_trans by auto
qed auto

subsection \<open>Properties\<close>

text \<open>The three life cycles are well formed: every edge stays within the declared states, every
  declared state (the abnormal ones included) can still reach the final state, and nothing leaves
  the final state.\<close>
theorem lifecycle_machines_sound:
  "list_all (\<lambda>(sm, final).
      sm_closed sm \<and>
      set (sm_states sm @ sm_abnormal sm) \<subseteq> {a. (a, final) \<in> (sm_step sm)\<^sup>*} \<and>
      canTransition sm final b = Some False)
    [(PO_STATE_MACHINE, ''closed''), (RFQ_STATE_MACHINE, ''closed''),
     (INVOICE_STATE_MACHINE, ''erp_written'')]"
  by (simp add: sm_closed_machines machines_reach_final machine_final_absorbing del: set_append)

text \<open>Whatever sequence of \<open>transition\<close> calls a store receives, legal or not, each object keeps its
  identity, type, attributes and state, its history only grows, and its status moves along edges
  of its type's state machine; a closed purchase order therefore stays closed.\<close>
theorem transitions_follow_machine:
  assumes "mem_ok bo_id s" "map_of s i = Some bo"
  shows "\<exists>bo'. map_of (bo_run ops s) i = Some bo' \<and> bo_follows bo bo' \<and>
    (lifecycleStateMachine (bo_type bo) = Some PO_STATE_MACHINE \<and> bo_status bo = ''closed''
       \<longrightarrow> bo_status bo' = ''closed'')"
proof -
  obtain bo' where bo': "map_of (bo_run ops s) i = Some bo'" "bo_follows bo bo'"
    using bo_run_keeps[OF assms] by blast
  have "x = ''closed''" if "(''closed'', x) \<in> (sm_step PO_STATE_MACHINE)\<^sup>*" for x
    using that machine_final_absorbing(1)
    by (induction rule: rtrancl_induct) (auto simp: sm_step_def)
  with bo' show ?thesis by (auto simp: bo_follows_def)
qed

definition closed_po :: business_object where
  "closed_po = \<lparr>bo_id = ''PO-1'', bo_type = ''po'', bo_status = ''closed'', bo_attributes = [],
     bo_state = [], bo_history = [], bo_updatedAt = 0\<rparr>"

theorem transitions_follow_machine_witness:
  "\<exists>bo'. map_of (bo_run [(''PO-1'', ''sent'', \<lparr>m_kind = [], m_summary = [], m_by = []\<rparr>, 5)]
     [(''PO-1'', closed_po)]) ''PO-1'' = Some bo' \<and> bo_status bo' = ''closed''"
  using transitions_follow_machine[of "[(''PO-1'', closed_po)]" "''PO-1''" closed_po
      "[(''PO-1'', ''sent'', \<lparr>m_kind = [], m_summary = [], m_by = []\<rparr>, 5)]"]
  by (auto simp: mem_ok_def closed_po_def lifecycleStateMachine_def)

text \<open>Approval never gets weaker as a variance grows: the level of a larger value is at least the
  level of a smaller one, a value is automatic exactly up to the automatic limit, and a value that
  is not a number goes to the manager.\<close>
theorem approval_level_monotone:
  assumes "jle a b" "approvalLevel kind a = Some la" "approvalLevel kind b = Some lb"
  shows "(lb = AlAuto \<longrightarrow> la = AlAuto) \<and> (la = AlManager \<longrightarrow> lb = AlManager) \<and>
    approvalLevel kind JNaN = Some AlManager"
  using assms
  by (auto simp: approvalLevel_def split: option.splits if_splits dest: jle_trans)

theorem approval_level_monotone_witness:
  "approvalLevel ''deliveryDelayDays'' JNaN = Some AlManager"
  using approval_level_monotone[of "jint 2" "jint 3" "''deliveryDelayDays''" AlAuto AlBuyer]
  by (simp add: approvalLevel_def APPROVAL_THRESHOLDS_def)

end
