(* ===== verification/TaskMachine.thy ===== *)
theory TaskMachine
  imports Repositories
begin

text \<open>
  The business task state machine of \<open>packages/core/src/task.ts\<close> with the approvals, events, activities,
  budgets and exceptions it works with (\<open>approval.ts\<close>, \<open>events.ts\<close>, \<open>activity.ts\<close>, \<open>budget.ts\<close>,
  \<open>exception.ts\<close>) as \<open>createRuntimeHub\<close> (\<open>runtime.ts\<close>) wires them: one hub record holds the
  in-memory repositories and the event log the bus listener fills.  Entities are mutated in place, so
  what an operation changed before it throws stays changed.  Random identifiers are drawn from an
  arbitrary sequence \<open>h_rand\<close> of the environment.
\<close>

subsection \<open>Data\<close>

datatype task_status = Created | Queued | Running | WaitingExternal | WaitingApproval | WaitingHuman
  | Completed | Failed | Cancelled

text \<open>The text stored with a failed task: given by the caller, or built by \<open>reject\<close> from the title
  of the approval and the reason (if it is not empty).\<close>
datatype task_failure = TfText string | TfRejected string "string option"

record task_checkpoint =
  cp_stepIndex :: nat
  cp_pendingApprovalId :: "ident option"
  cp_waitingReason :: "string option"
  cp_workspace :: "(string, json) kv"

record task =
  t_id :: ident
  t_tenantId :: ident
  t_employeeId :: ident
  t_workflowId :: string
  t_businessObjectId :: ident
  t_status :: task_status
  t_attempts :: int
  t_maxRetries :: int
  t_instruction :: "string option"
  t_checkpoint :: task_checkpoint
  t_createdAt :: instant
  t_startedAt :: "instant option"
  t_completedAt :: "instant option"
  t_failedAt :: "instant option"
  t_error :: "task_failure option"
  t_metadata :: "(string, json) kv"

record create_task_input =
  cti_id :: "ident option"
  cti_tenantId :: ident
  cti_employeeId :: ident
  cti_workflowId :: string
  cti_businessObjectId :: ident
  cti_instruction :: "string option"
  cti_maxRetries :: "int option"

record event_selector =
  es_eventType :: string
  es_objectId :: "ident option"
  es_match :: "(string, json) kv option"

record wait_options =
  w_reason :: string
  w_untilMs :: "int option"
  w_forEvent :: "event_selector option"

datatype approval_status = Pending | Approved | Rejected

record approval_request =
  a_id :: ident
  a_taskId :: ident
  a_ruleId :: string
  a_title :: string
  a_message :: string
  a_payload :: "(string, json) kv"
  a_status :: approval_status
  a_requestedAt :: instant
  a_decidedAt :: "instant option"
  a_decidedBy :: "string option"
  a_reason :: "string option"

record approval_input =
  ai_ruleId :: string
  ai_title :: string
  ai_message :: string
  ai_payload :: "(string, json) kv"

text \<open>Domain events; the last argument is always the time.\<close>
datatype domain_event =
    EvTaskCreated ident ident string instant
  | EvTaskStarted ident ident instant
  | EvTaskWaiting ident ident string "instant option" "event_selector option" instant
  | EvTaskResumed ident ident "string option" instant
  | EvTaskWaitingApproval ident ident ident string string instant
  | EvTaskApproved ident ident string instant
  | EvTaskRejected ident ident string instant
  | EvTaskCompleted ident ident "json option" instant
  | EvTaskFailed ident ident task_failure int instant
  | EvTaskRetrying ident ident int string instant
  | EvTaskHandedOff ident ident string instant
  | EvTaskHandoffFinished ident instant
  | EvTaskCancelled ident instant
  | EvApprovalRequested ident ident string string instant
  | EvToolCalled ident string string bool jnum instant
  | EvBudgetRecorded ident jnum string instant
  | EvContext string "ident option" "json option" instant

record activity =
  act_id :: ident
  act_at :: instant
  act_objectId :: "ident option"
  act_actor :: string
  act_action :: string
  act_summary :: string

record budget_state =
  b_employeeId :: ident
  b_monthlyCap :: jnum
  b_currency :: string
  b_month :: string
  b_spent :: jnum

datatype exc_severity = SevLow | SevMedium | SevHigh | SevCritical
datatype exc_status = ExcOpen | ExcAssigned | ExcResolved | ExcDismissed

record exception_entity =
  x_id :: ident
  x_type :: string
  x_severity :: exc_severity
  x_objectId :: ident
  x_objectType :: "string option"
  x_owner :: "string option"
  x_aiJudgment :: string
  x_recommendedAction :: string
  x_context :: "(string, json) kv"
  x_needsApproval :: bool
  x_approvalId :: "ident option"
  x_status :: exc_status
  x_createdAt :: instant
  x_resolvedAt :: "instant option"

record hub =
  h_tasks :: "(ident, task) kv"
  h_approvals :: "(ident, approval_request) kv"
  h_budgets :: "(ident, budget_state) kv"
  h_exceptions :: "(ident, exception_entity) kv"
  h_eventLog :: "domain_event list"
  h_activities :: "activity list"
  h_rand :: "nat \<Rightarrow> string"
  h_drawn :: nat

definition empty_hub :: "(nat \<Rightarrow> string) \<Rightarrow> hub" where
  "empty_hub rand = \<lparr>h_tasks = [], h_approvals = [], h_budgets = [], h_exceptions = [],
     h_eventLog = [], h_activities = [], h_rand = rand, h_drawn = 0\<rparr>"

subsection \<open>Repositories, identifiers and the event bus\<close>

abbreviation task_save :: "task \<Rightarrow> (ident, task) kv \<Rightarrow> (ident, task) kv" where
  "task_save \<equiv> mem_save t_id"
abbreviation approval_save ::
  "approval_request \<Rightarrow> (ident, approval_request) kv \<Rightarrow> (ident, approval_request) kv" where
  "approval_save \<equiv> mem_save a_id"
abbreviation budget_save :: "budget_state \<Rightarrow> (ident, budget_state) kv \<Rightarrow> (ident, budget_state) kv" where
  "budget_save \<equiv> mem_save b_employeeId"
abbreviation exc_save ::
  "exception_entity \<Rightarrow> (ident, exception_entity) kv \<Rightarrow> (ident, exception_entity) kv" where
  "exc_save \<equiv> mem_save x_id"

interpretation task_repo: entity_store map_of task_save mem_list t_id "mem_ok t_id"
  by (rule mem_store)
interpretation approval_repo: entity_store map_of approval_save mem_list a_id "mem_ok a_id"
  by (rule mem_store)
interpretation budget_repo: entity_store map_of budget_save mem_list b_employeeId "mem_ok b_employeeId"
  by (rule mem_store)
interpretation exc_repo: entity_store map_of exc_save mem_list x_id "mem_ok x_id"
  by (rule mem_store)

definition uid :: "string \<Rightarrow> hub \<Rightarrow> ident \<times> hub" where
  "uid prefix h = (prefix @ '':'' @ take 8 (h_rand h (h_drawn h)), h\<lparr>h_drawn := Suc (h_drawn h)\<rparr>)"

fun event_type :: "domain_event \<Rightarrow> string" where
  "event_type (EvTaskCreated _ _ _ _) = ''task.created''"
| "event_type (EvTaskStarted _ _ _) = ''task.started''"
| "event_type (EvTaskWaiting _ _ _ _ _ _) = ''task.waiting''"
| "event_type (EvTaskResumed _ _ _ _) = ''task.resumed''"
| "event_type (EvTaskWaitingApproval _ _ _ _ _ _) = ''task.waiting_approval''"
| "event_type (EvTaskApproved _ _ _ _) = ''task.approved''"
| "event_type (EvTaskRejected _ _ _ _) = ''task.rejected''"
| "event_type (EvTaskCompleted _ _ _ _) = ''task.completed''"
| "event_type (EvTaskFailed _ _ _ _ _) = ''task.failed''"
| "event_type (EvTaskRetrying _ _ _ _ _) = ''task.retrying''"
| "event_type (EvTaskHandedOff _ _ _ _) = ''task.handed_off''"
| "event_type (EvTaskHandoffFinished _ _) = ''task.handoff_finished''"
| "event_type (EvTaskCancelled _ _) = ''task.cancelled''"
| "event_type (EvApprovalRequested _ _ _ _ _) = ''approval.requested''"
| "event_type (EvToolCalled _ _ _ _ _ _) = ''tool.called''"
| "event_type (EvBudgetRecorded _ _ _ _) = ''budget.recorded''"
| "event_type (EvContext _ _ _ _) = ''context.event''"

text \<open>The object and the actor of the activity the listener records for an event: the first of task
  and object id, and the first of \<open>by\<close> and \<open>employeeId\<close>, that is present and not empty.\<close>
fun event_object :: "domain_event \<Rightarrow> ident option" where
  "event_object (EvTaskCreated t _ _ _) = Some t"
| "event_object (EvTaskStarted t _ _) = Some t"
| "event_object (EvTaskWaiting t _ _ _ _ _) = Some t"
| "event_object (EvTaskResumed t _ _ _) = Some t"
| "event_object (EvTaskWaitingApproval t _ _ _ _ _) = Some t"
| "event_object (EvTaskApproved t _ _ _) = Some t"
| "event_object (EvTaskRejected t _ _ _) = Some t"
| "event_object (EvTaskCompleted t _ _ _) = Some t"
| "event_object (EvTaskFailed t _ _ _ _) = Some t"
| "event_object (EvTaskRetrying t _ _ _ _) = Some t"
| "event_object (EvTaskHandedOff t _ _ _) = Some t"
| "event_object (EvTaskHandoffFinished t _) = Some t"
| "event_object (EvTaskCancelled t _) = Some t"
| "event_object (EvApprovalRequested t _ _ _ _) = Some t"
| "event_object (EvContext _ i _ _) = i"
| "event_object _ = None"

fun event_actor :: "domain_event \<Rightarrow> string" where
  "event_actor (EvTaskCreated _ e _ _) = e"
| "event_actor (EvTaskStarted _ e _) = e"
| "event_actor (EvTaskWaiting _ e _ _ _ _) = e"
| "event_actor (EvTaskResumed _ e _ _) = e"
| "event_actor (EvTaskWaitingApproval _ e _ _ _ _) = e"
| "event_actor (EvTaskApproved _ _ b _) = b"
| "event_actor (EvTaskRejected _ _ b _) = b"
| "event_actor (EvTaskCompleted _ e _ _) = e"
| "event_actor (EvTaskFailed _ e _ _ _) = e"
| "event_actor (EvTaskRetrying _ e _ _ _) = e"
| "event_actor (EvTaskHandedOff _ e _ _) = e"
| "event_actor (EvToolCalled e _ _ _ _ _) = e"
| "event_actor (EvBudgetRecorded e _ _ _) = e"
| "event_actor _ = []"

definition record_activity ::
  "ident option \<Rightarrow> string \<Rightarrow> string \<Rightarrow> string \<Rightarrow> instant \<Rightarrow> hub \<Rightarrow> activity \<times> hub" where
  "record_activity obj actor action summary now h =
    (let (i, h1) = uid ''act'' h;
         a = \<lparr>act_id = i, act_at = now, act_objectId = obj, act_actor = actor, act_action = action,
              act_summary = summary\<rparr>
     in (a, h1\<lparr>h_activities := h_activities h1 @ [a]\<rparr>))"

definition emit :: "domain_event \<Rightarrow> instant \<Rightarrow> hub \<Rightarrow> hub" where
  "emit e now h =
    (let h1 = h\<lparr>h_eventLog := h_eventLog h @ [e]\<rparr>;
         obj = (if event_object e = Some [] then None else event_object e);
         actor = (if event_actor e = [] then ''system'' else event_actor e)
     in snd (record_activity obj actor (event_type e) (event_type e) now h1))"

subsection \<open>Approvals\<close>

datatype task_error = TaskMissing ident | IllegalMove task_status task_status ident
  | ApprovalMissing ident | ApprovalDecided ident

definition approval_create :: "ident \<Rightarrow> approval_input \<Rightarrow> instant \<Rightarrow> hub \<Rightarrow> approval_request \<times> hub" where
  "approval_create taskId req now h =
    (let (i, h1) = uid ''appr'' h;
         a = \<lparr>a_id = i, a_taskId = taskId, a_ruleId = ai_ruleId req, a_title = ai_title req,
              a_message = ai_message req, a_payload = ai_payload req, a_status = Pending,
              a_requestedAt = now, a_decidedAt = None, a_decidedBy = None, a_reason = None\<rparr>
     in (a, h1\<lparr>h_approvals := approval_save a (h_approvals h1)\<rparr>))"

definition approval_decide ::
  "ident \<Rightarrow> approval_status \<Rightarrow> string \<Rightarrow> string option \<Rightarrow> instant \<Rightarrow> hub
    \<Rightarrow> (task_error, approval_request) result \<times> hub" where
  "approval_decide i st actor reason now h =
    (case map_of (h_approvals h) i of
       None \<Rightarrow> (Inl (ApprovalMissing i), h)
     | Some req \<Rightarrow>
         if a_status req \<noteq> Pending then (Inl (ApprovalDecided i), h)
         else let req1 = req\<lparr>a_status := st, a_decidedAt := Some now, a_decidedBy := Some actor,
                             a_reason := reason\<rparr>
              in (Inr req1, h\<lparr>h_approvals := approval_save req1 (h_approvals h)\<rparr>))"

definition listByTask :: "ident \<Rightarrow> hub \<Rightarrow> approval_request list" where
  "listByTask taskId h = filter (\<lambda>r. a_taskId r = taskId) (mem_list (h_approvals h))"

definition listPending :: "hub \<Rightarrow> approval_request list" where
  "listPending h = filter (\<lambda>r. a_status r = Pending) (mem_list (h_approvals h))"

subsection \<open>The state machine\<close>

fun TRANSITIONS :: "task_status \<Rightarrow> task_status list" where
  "TRANSITIONS Created = [Queued, Running, Cancelled]"
| "TRANSITIONS Queued = [Running, Cancelled]"
| "TRANSITIONS Running = [WaitingExternal, WaitingApproval, WaitingHuman, Completed, Failed, Cancelled]"
| "TRANSITIONS WaitingExternal = [Running, Cancelled]"
| "TRANSITIONS WaitingApproval = [Running, Failed, Cancelled]"
| "TRANSITIONS WaitingHuman = [Running, Cancelled]"
| "TRANSITIONS Completed = []"
| "TRANSITIONS Failed = []"
| "TRANSITIONS Cancelled = []"

type_synonym task_result = "(task_error, task) result \<times> hub"

definition task_create :: "create_task_input \<Rightarrow> instant \<Rightarrow> hub \<Rightarrow> task \<times> hub" where
  "task_create inp now h =
    (let (i, h1) = (case cti_id inp of Some i \<Rightarrow> (i, h) | None \<Rightarrow> uid ''task'' h);
         t = \<lparr>t_id = i, t_tenantId = cti_tenantId inp, t_employeeId = cti_employeeId inp,
              t_workflowId = cti_workflowId inp, t_businessObjectId = cti_businessObjectId inp,
              t_status = Created, t_attempts = 0,
              t_maxRetries = (case cti_maxRetries inp of Some m \<Rightarrow> m | None \<Rightarrow> 3),
              t_instruction = cti_instruction inp,
              t_checkpoint = \<lparr>cp_stepIndex = 0, cp_pendingApprovalId = None,
                cp_waitingReason = None, cp_workspace = []\<rparr>,
              t_createdAt = now, t_startedAt = None, t_completedAt = None, t_failedAt = None,
              t_error = None, t_metadata = []\<rparr>
     in (t, emit (EvTaskCreated i (t_employeeId t) (t_workflowId t) now) now
              (h1\<lparr>h_tasks := task_save t (h_tasks h1)\<rparr>)))"

text \<open>\<open>transition\<close> changes the live entity, so its effect is in the repository at once.\<close>
definition task_transition :: "ident \<Rightarrow> task_status \<Rightarrow> hub \<Rightarrow> task_result" where
  "task_transition i dst h =
    (case map_of (h_tasks h) i of
       None \<Rightarrow> (Inl (TaskMissing i), h)
     | Some t \<Rightarrow>
         if dst \<notin> set (TRANSITIONS (t_status t)) then (Inl (IllegalMove (t_status t) dst i), h)
         else let t1 = t\<lparr>t_status := dst\<rparr> in (Inr t1, h\<lparr>h_tasks := task_save t1 (h_tasks h)\<rparr>))"

text \<open>Continue with the task of a successful call; a throw passes through.\<close>
definition and_then ::
  "('e, 'a) result \<times> hub \<Rightarrow> ('a \<Rightarrow> hub \<Rightarrow> ('e, 'b) result \<times> hub) \<Rightarrow> ('e, 'b) result \<times> hub" where
  "and_then r f = (case r of (Inl e, h) \<Rightarrow> (Inl e, h) | (Inr a, h) \<Rightarrow> f a h)"

text \<open>Save the changed task and emit its events.\<close>
definition save_emit :: "task \<Rightarrow> domain_event list \<Rightarrow> instant \<Rightarrow> hub \<Rightarrow> task_result" where
  "save_emit t evs now h =
     (Inr t, foldl (\<lambda>s e. emit e now s) (h\<lparr>h_tasks := task_save t (h_tasks h)\<rparr>) evs)"

abbreviation set_checkpoint :: "(task_checkpoint \<Rightarrow> task_checkpoint) \<Rightarrow> task \<Rightarrow> task" where
  "set_checkpoint f t \<equiv> t\<lparr>t_checkpoint := f (t_checkpoint t)\<rparr>"

definition task_start :: "ident \<Rightarrow> instant \<Rightarrow> hub \<Rightarrow> task_result" where
  "task_start i now h = and_then (task_transition i Running h) (\<lambda>t h1.
     save_emit (t\<lparr>t_startedAt := Some now\<rparr>) [EvTaskStarted (t_id t) (t_employeeId t) now] now h1)"

definition task_wait :: "ident \<Rightarrow> wait_options \<Rightarrow> instant \<Rightarrow> hub \<Rightarrow> task_result" where
  "task_wait i opts now h = and_then (task_transition i WaitingExternal h) (\<lambda>t h1.
     save_emit (set_checkpoint (\<lambda>c. c\<lparr>cp_waitingReason := Some (w_reason opts)\<rparr>) t)
       [EvTaskWaiting (t_id t) (t_employeeId t) (w_reason opts)
          (map_option (\<lambda>ms. now + ms) (w_untilMs opts)) (w_forEvent opts) now] now h1)"

definition task_resume :: "ident \<Rightarrow> string option \<Rightarrow> instant \<Rightarrow> hub \<Rightarrow> task_result" where
  "task_resume i reason now h = and_then (task_transition i Running h) (\<lambda>t h1.
     save_emit t [EvTaskResumed (t_id t) (t_employeeId t) reason now] now h1)"

definition task_requestApproval :: "ident \<Rightarrow> approval_input \<Rightarrow> instant \<Rightarrow> hub \<Rightarrow> task_result" where
  "task_requestApproval i req now h = and_then (task_transition i WaitingApproval h) (\<lambda>t h1.
     let (a, h2) = approval_create i req now h1
     in save_emit (set_checkpoint (\<lambda>c. c\<lparr>cp_pendingApprovalId := Some (a_id a)\<rparr>) t)
          [EvApprovalRequested (t_id t) (a_id a) (ai_ruleId req) (ai_title req) now,
           EvTaskWaitingApproval (t_id t) (t_employeeId t) (a_id a) (ai_ruleId req) (ai_title req) now]
          now h2)"

definition task_approve :: "ident \<Rightarrow> ident \<Rightarrow> string \<Rightarrow> instant \<Rightarrow> hub \<Rightarrow> task_result" where
  "task_approve i approvalId actor now h =
     and_then (approval_decide approvalId Approved actor None now h) (\<lambda>_ h1.
     and_then (task_transition i Running h1) (\<lambda>t h2.
       save_emit (set_checkpoint (\<lambda>c. c\<lparr>cp_pendingApprovalId := None\<rparr>) t)
         [EvTaskApproved (t_id t) approvalId actor now] now h2))"

definition task_reject :: "ident \<Rightarrow> ident \<Rightarrow> string \<Rightarrow> string option \<Rightarrow> instant \<Rightarrow> hub \<Rightarrow> task_result" where
  "task_reject i approvalId actor reason now h =
     and_then (approval_decide approvalId Rejected actor reason now h) (\<lambda>a h1.
     and_then (task_transition i Failed h1) (\<lambda>t h2.
       let err = TfRejected (a_title a) (if reason = Some [] then None else reason)
       in save_emit (t\<lparr>t_error := Some err, t_failedAt := Some now\<rparr>)
            [EvTaskRejected (t_id t) approvalId actor now,
             EvTaskFailed (t_id t) (t_employeeId t) err (t_attempts t) now] now h2))"

definition task_handoff :: "ident \<Rightarrow> string \<Rightarrow> instant \<Rightarrow> hub \<Rightarrow> task_result" where
  "task_handoff i reason now h = and_then (task_transition i WaitingHuman h) (\<lambda>t h1.
     save_emit (set_checkpoint (\<lambda>c. c\<lparr>cp_waitingReason := Some reason\<rparr>) t)
       [EvTaskHandedOff (t_id t) (t_employeeId t) reason now] now h1)"

definition task_finishHandoff :: "ident \<Rightarrow> instant \<Rightarrow> hub \<Rightarrow> task_result" where
  "task_finishHandoff i now h = and_then (task_transition i Running h) (\<lambda>t h1.
     save_emit t [EvTaskHandoffFinished (t_id t) now] now h1)"

text \<open>\<open>fail\<close> does not go through \<open>transition\<close>.\<close>
definition task_fail :: "ident \<Rightarrow> string \<Rightarrow> instant \<Rightarrow> hub \<Rightarrow> task_result" where
  "task_fail i err now h =
    (case map_of (h_tasks h) i of
       None \<Rightarrow> (Inl (TaskMissing i), h)
     | Some t0 \<Rightarrow>
         let t = t0\<lparr>t_attempts := t_attempts t0 + 1\<rparr>
         in if t_attempts t \<le> t_maxRetries t
            then save_emit (t\<lparr>t_status := Running\<rparr>)
                   [EvTaskRetrying (t_id t) (t_employeeId t) (t_attempts t) err now] now h
            else save_emit (t\<lparr>t_status := Failed, t_error := Some (TfText err), t_failedAt := Some now\<rparr>)
                   [EvTaskFailed (t_id t) (t_employeeId t) (TfText err) (t_attempts t) now] now h)"

definition task_complete :: "ident \<Rightarrow> bool option \<Rightarrow> json option \<Rightarrow> instant \<Rightarrow> hub \<Rightarrow> task_result" where
  "task_complete i onTime res now h = and_then (task_transition i Completed h) (\<lambda>t h1.
     let m1 = (case onTime of None \<Rightarrow> t_metadata t
               | Some b \<Rightarrow> AList.update ''onTime'' (JBool b) (t_metadata t));
         m2 = (case res of None \<Rightarrow> m1 | Some r \<Rightarrow> AList.update ''result'' r m1)
     in save_emit (t\<lparr>t_completedAt := Some now, t_metadata := m2\<rparr>)
          [EvTaskCompleted (t_id t) (t_employeeId t) res now] now h1)"

definition task_cancel :: "ident \<Rightarrow> instant \<Rightarrow> hub \<Rightarrow> task_result" where
  "task_cancel i now h = and_then (task_transition i Cancelled h) (\<lambda>t h1.
     save_emit t [EvTaskCancelled (t_id t) now] now h1)"

definition task_list :: "task_status option \<Rightarrow> hub \<Rightarrow> task list" where
  "task_list st h = (case st of None \<Rightarrow> mem_list (h_tasks h)
     | Some x \<Rightarrow> filter (\<lambda>t. t_status t = x) (mem_list (h_tasks h)))"

definition task_save_op :: "ident \<Rightarrow> hub \<Rightarrow> task_result" where
  "task_save_op i h = (case map_of (h_tasks h) i of
     None \<Rightarrow> (Inl (TaskMissing i), h)
   | Some t \<Rightarrow> (Inr t, h\<lparr>h_tasks := task_save t (h_tasks h)\<rparr>))"

subsection \<open>Budgets and exceptions\<close>

text \<open>\<open>record\<close> works on the live entity of the same month: a new cap stays even when the spend is
  refused.\<close>
definition budget_record ::
  "ident \<Rightarrow> jnum \<Rightarrow> string \<Rightarrow> jnum option \<Rightarrow> string \<Rightarrow> instant \<Rightarrow> hub \<Rightarrow> bool \<times> hub" where
  "budget_record e amount cur cap month now h =
    (let live = (case map_of (h_budgets h) e of
           Some b \<Rightarrow> if b_month b = month then Some b else None | None \<Rightarrow> None);
         b0 = (case live of Some b \<Rightarrow> b
               | None \<Rightarrow> \<lparr>b_employeeId = e,
                   b_monthlyCap = (case cap of Some c \<Rightarrow> c | None \<Rightarrow> JPosInf),
                   b_currency = cur, b_month = month, b_spent = JFin 0\<rparr>);
         b1 = (case cap of Some c \<Rightarrow> b0\<lparr>b_monthlyCap := c\<rparr> | None \<Rightarrow> b0)
     in if jlt (b_monthlyCap b1) (jadd (b_spent b1) amount)
        then (False, if live = None then h else h\<lparr>h_budgets := budget_save b1 (h_budgets h)\<rparr>)
        else (True, emit (EvBudgetRecorded e amount cur now) now
               (h\<lparr>h_budgets := budget_save (b1\<lparr>b_spent := jadd (b_spent b1) amount\<rparr>) (h_budgets h)\<rparr>)))"

definition budget_spent :: "ident \<Rightarrow> hub \<Rightarrow> jnum" where
  "budget_spent e h = (case map_of (h_budgets h) e of Some b \<Rightarrow> b_spent b | None \<Rightarrow> JFin 0)"

text \<open>The input of \<open>ExceptionStore.create\<close> is the entity with its optional fields; the identifier,
  the status and the times are overwritten here.\<close>
definition exception_create ::
  "exception_entity \<Rightarrow> exc_severity option \<Rightarrow> instant \<Rightarrow> hub \<Rightarrow> exception_entity \<times> hub" where
  "exception_create inp sev now h =
    (let (i, h1) = uid ''exc'' h;
         x = inp\<lparr>x_id := i, x_severity := (case sev of Some v \<Rightarrow> v | None \<Rightarrow> SevMedium),
                 x_status := (if x_owner inp \<in> {None, Some []} then ExcOpen else ExcAssigned),
                 x_createdAt := now, x_resolvedAt := None\<rparr>
     in (x, h1\<lparr>h_exceptions := exc_save x (h_exceptions h1)\<rparr>))"

definition exception_listOpen :: "hub \<Rightarrow> exception_entity list" where
  "exception_listOpen h =
     filter (\<lambda>x. x_status x = ExcOpen \<or> x_status x = ExcAssigned) (mem_list (h_exceptions h))"

definition exception_resolve ::
  "ident \<Rightarrow> string \<Rightarrow> string \<Rightarrow> instant \<Rightarrow> hub \<Rightarrow> exception_entity option \<times> hub" where
  "exception_resolve i actor summary now h =
    (case map_of (h_exceptions h) i of
       None \<Rightarrow> (None, h)
     | Some x \<Rightarrow>
         let x1 = x\<lparr>x_status := ExcResolved, x_resolvedAt := Some now,
                    x_context := AList.update ''resolution'' (JStr summary)
                      (AList.update ''resolvedBy'' (JStr actor) (x_context x))\<rparr>
         in (Some x1, h\<lparr>h_exceptions := exc_save x1 (h_exceptions h)\<rparr>))"

definition exception_assign :: "ident \<Rightarrow> string \<Rightarrow> hub \<Rightarrow> exception_entity option \<times> hub" where
  "exception_assign i owner h =
    (case map_of (h_exceptions h) i of
       None \<Rightarrow> (None, h)
     | Some x \<Rightarrow> let x1 = x\<lparr>x_owner := Some owner, x_status := ExcAssigned\<rparr>
         in (Some x1, h\<lparr>h_exceptions := exc_save x1 (h_exceptions h)\<rparr>))"

subsection \<open>Runs\<close>

datatype task_op =
    OpCreate create_task_input
  | OpStart ident | OpWait ident wait_options | OpResume ident "string option"
  | OpRequest ident approval_input
  | OpApprove ident ident string | OpReject ident ident string "string option"
  | OpHandoff ident string | OpFinishHandoff ident
  | OpFail ident string | OpComplete ident "bool option" "json option" | OpCancel ident

fun task_exec :: "task_op \<Rightarrow> instant \<Rightarrow> hub \<Rightarrow> task_result" where
  "task_exec (OpCreate inp) now h = (case task_create inp now h of (t, h') \<Rightarrow> (Inr t, h'))"
| "task_exec (OpStart i) now h = task_start i now h"
| "task_exec (OpWait i opts) now h = task_wait i opts now h"
| "task_exec (OpResume i reason) now h = task_resume i reason now h"
| "task_exec (OpRequest i req) now h = task_requestApproval i req now h"
| "task_exec (OpApprove i a actor) now h = task_approve i a actor now h"
| "task_exec (OpReject i a actor reason) now h = task_reject i a actor reason now h"
| "task_exec (OpHandoff i reason) now h = task_handoff i reason now h"
| "task_exec (OpFinishHandoff i) now h = task_finishHandoff i now h"
| "task_exec (OpFail i err) now h = task_fail i err now h"
| "task_exec (OpComplete i onTime res) now h = task_complete i onTime res now h"
| "task_exec (OpCancel i) now h = task_cancel i now h"

fun task_run :: "(task_op \<times> instant) list \<Rightarrow> hub \<Rightarrow> hub" where
  "task_run [] h = h"
| "task_run ((op, now) # ops) h = task_run ops (snd (task_exec op now h))"

lemma task_run_append: "task_run (xs @ ys) h = task_run ys (task_run xs h)"
  by (induction xs h rule: task_run.induct) auto

subsection \<open>Frames\<close>

lemma uid_frame [simp]:
  "h_tasks (snd (uid p h)) = h_tasks h" "h_approvals (snd (uid p h)) = h_approvals h"
  "h_budgets (snd (uid p h)) = h_budgets h" "h_eventLog (snd (uid p h)) = h_eventLog h"
  "h_rand (snd (uid p h)) = h_rand h" "h_drawn (snd (uid p h)) = Suc (h_drawn h)"
  "fst (uid p h) = p @ '':'' @ take 8 (h_rand h (h_drawn h))"
  by (simp_all add: uid_def)

lemma emit_frame [simp]:
  "h_tasks (emit e now h) = h_tasks h" "h_approvals (emit e now h) = h_approvals h"
  "h_budgets (emit e now h) = h_budgets h" "h_exceptions (emit e now h) = h_exceptions h"
  "h_eventLog (emit e now h) = h_eventLog h @ [e]" "h_rand (emit e now h) = h_rand h"
  "h_drawn (emit e now h) = Suc (h_drawn h)"
  by (simp_all add: emit_def record_activity_def Let_def uid_def)

lemma emits_frame [simp]:
  "h_tasks (foldl (\<lambda>s e. emit e now s) h evs) = h_tasks h"
  "h_approvals (foldl (\<lambda>s e. emit e now s) h evs) = h_approvals h"
  "h_budgets (foldl (\<lambda>s e. emit e now s) h evs) = h_budgets h"
  "h_eventLog (foldl (\<lambda>s e. emit e now s) h evs) = h_eventLog h @ evs"
  "h_rand (foldl (\<lambda>s e. emit e now s) h evs) = h_rand h"
  "h_drawn (foldl (\<lambda>s e. emit e now s) h evs) = h_drawn h + length evs"
  by (induction evs arbitrary: h) auto

lemma save_emit_frame [simp]:
  "fst (save_emit t evs now h) = Inr t"
  "h_tasks (snd (save_emit t evs now h)) = task_save t (h_tasks h)"
  "h_approvals (snd (save_emit t evs now h)) = h_approvals h"
  "h_eventLog (snd (save_emit t evs now h)) = h_eventLog h @ evs"
  "h_rand (snd (save_emit t evs now h)) = h_rand h"
  "h_drawn (snd (save_emit t evs now h)) = h_drawn h + length evs"
  by (simp_all add: save_emit_def)

lemma and_then_simps [simp]:
  "and_then (Inl e, h) f = (Inl e, h)" "and_then (Inr a, h) f = f a h"
  by (simp_all add: and_then_def)

lemma and_then_transition:
  "and_then (task_transition i dst h) f =
    (case map_of (h_tasks h) i of
       None \<Rightarrow> (Inl (TaskMissing i), h)
     | Some t \<Rightarrow> if dst \<in> set (TRANSITIONS (t_status t))
         then f (t\<lparr>t_status := dst\<rparr>) (h\<lparr>h_tasks := task_save (t\<lparr>t_status := dst\<rparr>) (h_tasks h)\<rparr>)
         else (Inl (IllegalMove (t_status t) dst i), h))"
  by (auto simp: task_transition_def Let_def split: option.splits)

lemma and_then_decide:
  "and_then (approval_decide i st actor reason now h) f =
    (case map_of (h_approvals h) i of
       None \<Rightarrow> (Inl (ApprovalMissing i), h)
     | Some req \<Rightarrow> if a_status req \<noteq> Pending then (Inl (ApprovalDecided i), h)
         else (let req1 = req\<lparr>a_status := st, a_decidedAt := Some now, a_decidedBy := Some actor,
                             a_reason := reason\<rparr>
              in f req1 (h\<lparr>h_approvals := approval_save req1 (h_approvals h)\<rparr>)))"
  by (auto simp: approval_decide_def Let_def split: option.splits)

lemmas transition_ops = task_start_def task_wait_def task_resume_def task_handoff_def
  task_finishHandoff_def task_complete_def task_cancel_def

lemmas op_defs = transition_ops task_requestApproval_def task_approve_def task_reject_def
  task_fail_def task_create_def approval_create_def

lemmas frame_rules = and_then_transition and_then_decide Let_def case_prod_unfold mem_get_save mem_ok_save

subsection \<open>Steps\<close>

text \<open>What one operation may do to a task that exists: nothing, one edge of the table, or a failure
  that counts an attempt and goes back to running while attempts are left.\<close>
definition task_moves :: "bool \<Rightarrow> task \<Rightarrow> task \<Rightarrow> bool" where
  "task_moves fails t t' \<longleftrightarrow> t_id t' = t_id t \<and> t_maxRetries t' = t_maxRetries t \<and>
     (if fails then t_attempts t' = t_attempts t + 1 \<and>
           t_status t' = (if t_attempts t' \<le> t_maxRetries t' then Running else Failed)
      else t_attempts t' = t_attempts t \<and>
           (t_status t' = t_status t \<or> t_status t' \<in> set (TRANSITIONS (t_status t))))"

definition fails_task :: "task_op \<Rightarrow> ident \<Rightarrow> bool" where
  "fails_task op k \<longleftrightarrow> (case op of OpFail i _ \<Rightarrow> i = k | _ \<Rightarrow> False)"

fun is_create :: "task_op \<Rightarrow> bool" where
  "is_create (OpCreate _) = True" | "is_create _ = False"

definition retry_of :: "ident \<Rightarrow> domain_event \<Rightarrow> bool" where
  "retry_of k e = (case e of EvTaskRetrying i _ _ _ _ \<Rightarrow> i = k | _ \<Rightarrow> False)"

definition retries :: "ident \<Rightarrow> domain_event list \<Rightarrow> nat" where
  "retries k evs = length (filter (retry_of k) evs)"

lemma retries_append [simp]: "retries k (xs @ ys) = retries k xs + retries k ys"
  by (simp add: retries_def)

lemma retries_simps [simp]:
  "retries k [] = 0" "retries k (e # es) = (if retry_of k e then 1 else 0) + retries k es"
  by (simp_all add: retries_def)

lemma retry_of_simps [simp]:
  "retry_of k (EvTaskRetrying i e n m t) = (i = k)"
  "\<not> retry_of k (EvTaskCreated i e w t)" "\<not> retry_of k (EvTaskStarted i e t)"
  "\<not> retry_of k (EvTaskWaiting i e w u v t)" "\<not> retry_of k (EvTaskResumed i e u' t)"
  "\<not> retry_of k (EvTaskWaitingApproval i e a r w t)" "\<not> retry_of k (EvTaskApproved i a w t)"
  "\<not> retry_of k (EvTaskRejected i a w t)" "\<not> retry_of k (EvTaskCompleted i e j t)"
  "\<not> retry_of k (EvTaskFailed i e f n t)" "\<not> retry_of k (EvTaskHandedOff i e w t)"
  "\<not> retry_of k (EvTaskHandoffFinished i t)" "\<not> retry_of k (EvTaskCancelled i t)"
  "\<not> retry_of k (EvApprovalRequested i a r w t)"
  by (simp_all add: retry_of_def)

lemma task_exec_transition_step:
  assumes "mem_ok t_id (h_tasks h)" "map_of (h_tasks h) k = Some t" "\<not> is_create op" "\<not> fails_task op k"
  shows "\<exists>t'. map_of (h_tasks (snd (task_exec op now h))) k = Some t' \<and> task_moves False t t' \<and>
    retries k (h_eventLog (snd (task_exec op now h))) = retries k (h_eventLog h)"
proof -
  have key: "map_of (h_tasks h) i = Some u \<Longrightarrow> t_id u = i" for i u
    using assms(1) by (rule task_repo.get_key)
  show ?thesis using assms(2-)
    by (cases op)
      (auto simp: op_defs frame_rules task_moves_def fails_task_def key split: option.splits)
qed

lemma task_exec_fail_step:
  assumes "mem_ok t_id (h_tasks h)" "map_of (h_tasks h) k = Some t" "fails_task op k"
  shows "\<exists>t'. map_of (h_tasks (snd (task_exec op now h))) k = Some t' \<and> task_moves True t t' \<and>
    retries k (h_eventLog (snd (task_exec op now h))) =
      retries k (h_eventLog h) + (if t_attempts t' \<le> t_maxRetries t' then 1 else 0)"
proof -
  have "t_id t = k" using assms(1,2) by (rule task_repo.get_key)
  with assms show ?thesis
    by (cases op) (auto simp: task_fail_def Let_def mem_get_save task_moves_def fails_task_def)
qed

lemma task_exec_step:
  assumes "mem_ok t_id (h_tasks h)" "map_of (h_tasks h) k = Some t" "\<not> is_create op"
  shows "\<exists>t'. map_of (h_tasks (snd (task_exec op now h))) k = Some t' \<and> task_moves (fails_task op k) t t' \<and>
    retries k (h_eventLog (snd (task_exec op now h))) =
      retries k (h_eventLog h) + (if fails_task op k \<and> t_attempts t' \<le> t_maxRetries t' then 1 else 0)"
  using task_exec_transition_step[OF assms] task_exec_fail_step[OF assms(1,2)]
  by (cases "fails_task op k") auto

lemma task_exec_ok:
  "mem_ok t_id (h_tasks h) \<Longrightarrow> mem_ok t_id (h_tasks (snd (task_exec op now h)))"
  by (cases op) (auto simp: op_defs frame_rules split: option.splits)

text \<open>Retries already granted are paid for by attempts: the attempts left bound the retries to come.\<close>
lemma task_run_retries:
  assumes "mem_ok t_id (h_tasks h)" "map_of (h_tasks h) k = Some t" "\<forall>x\<in>set ops. \<not> is_create (fst x)"
  shows "\<exists>t'. map_of (h_tasks (task_run ops h)) k = Some t' \<and> t_maxRetries t' = t_maxRetries t \<and>
    t_attempts t \<le> t_attempts t' \<and>
    int (retries k (h_eventLog (task_run ops h))) \<le>
      int (retries k (h_eventLog h)) + max 0 (min (t_attempts t') (t_maxRetries t) - t_attempts t)"
  using assms
proof (induction ops h arbitrary: t rule: task_run.induct)
  case (2 op now ops h)
  from 2(4) have nc: "\<not> is_create op" and rest: "\<forall>x\<in>set ops. \<not> is_create (fst x)" by auto
  from task_exec_step[OF 2(2,3) nc, where now = now] obtain t1 where
    t1: "map_of (h_tasks (snd (task_exec op now h))) k = Some t1" "task_moves (fails_task op k) t t1"
    and r1: "retries k (h_eventLog (snd (task_exec op now h))) =
      retries k (h_eventLog h) + (if fails_task op k \<and> t_attempts t1 \<le> t_maxRetries t1 then 1 else 0)"
    by blast
  from "2.IH"[OF task_exec_ok[OF 2(2)] t1(1) rest] obtain t2 where
    t2: "map_of (h_tasks (task_run ops (snd (task_exec op now h)))) k = Some t2"
      "t_maxRetries t2 = t_maxRetries t1" "t_attempts t1 \<le> t_attempts t2"
      "int (retries k (h_eventLog (task_run ops (snd (task_exec op now h))))) \<le>
        int (retries k (h_eventLog (snd (task_exec op now h)))) +
        max 0 (min (t_attempts t2) (t_maxRetries t1) - t_attempts t1)" by blast
  with t1(2) r1 show ?case
    by (intro exI[of _ t2]) (auto simp: task_moves_def split: if_splits)
qed auto

subsection \<open>Approvals are decided once\<close>

text \<open>While at most \<open>N\<close> identifiers have been drawn, all approval identifiers come from the environment's sequence.\<close>
definition approvals_drawn :: "nat \<Rightarrow> hub \<Rightarrow> bool" where
  "approvals_drawn N h \<longleftrightarrow> (h_drawn h \<le> N \<longrightarrow> mem_ok a_id (h_approvals h) \<and>
     (\<forall>k a. map_of (h_approvals h) k = Some a \<longrightarrow>
        (\<exists>n<h_drawn h. k = ''appr:'' @ take 8 (h_rand h n))))"

lemma approvals_drawn_empty: "approvals_drawn N (empty_hub rand)"
  by (simp add: approvals_drawn_def empty_hub_def)

definition approval_settled :: "approval_request \<Rightarrow> approval_request \<Rightarrow> bool" where
  "approval_settled a a' \<longleftrightarrow> a_id a' = a_id a \<and> a_taskId a' = a_taskId a \<and>
     (a_status a \<noteq> Pending \<longrightarrow> a' = a)"

lemma approval_settled_refl [simp]: "approval_settled a a"
  by (simp add: approval_settled_def)

lemma approval_settled_trans:
  "approval_settled a b \<Longrightarrow> approval_settled b c \<Longrightarrow> approval_settled a c"
  by (auto simp: approval_settled_def)

lemma approvals_drawn_mono:
  assumes "approvals_drawn N h" "h_approvals h' = h_approvals h" "h_rand h' = h_rand h" "h_drawn h \<le> h_drawn h'"
  shows "approvals_drawn N h'"
  using assms unfolding approvals_drawn_def by simp (meson order.strict_trans2 order.trans)

lemma approval_decide_keeps:
  assumes "approvals_drawn N h" "st \<noteq> Pending" "h_drawn h \<le> N"
  shows "approvals_drawn N (snd (approval_decide i st actor reason now h)) \<and>
    (\<forall>k a. map_of (h_approvals h) k = Some a \<longrightarrow>
      (\<exists>a'. map_of (h_approvals (snd (approval_decide i st actor reason now h))) k = Some a' \<and>
         approval_settled a a'))"
proof -
  have key: "map_of (h_approvals h) i = Some u \<Longrightarrow> a_id u = i" for i u
    using assms(1,3) approval_repo.get_key unfolding approvals_drawn_def by blast
  show ?thesis using assms
    by (auto simp: approval_decide_def Let_def approvals_drawn_def mem_get_save mem_ok_save
        approval_settled_def key split: option.splits)
qed

lemma approval_create_keeps:
  assumes "approvals_drawn N h" "inj_on (\<lambda>n. take 8 (h_rand h n)) {..<N}" "Suc (h_drawn h) \<le> N"
  shows "approvals_drawn N (snd (approval_create i req now h)) \<and>
    (\<forall>k a. map_of (h_approvals h) k = Some a \<longrightarrow>
      map_of (h_approvals (snd (approval_create i req now h))) k = Some a)"
proof -
  have "take 8 (h_rand h n) \<noteq> take 8 (h_rand h (h_drawn h))" if "n < h_drawn h" for n
    using assms(2,3) that by (auto dest: inj_onD)
  then have "map_of (h_approvals h) (''appr:'' @ take 8 (h_rand h (h_drawn h))) = None"
    using assms(1,3) unfolding approvals_drawn_def
    by (metis Suc_leD append_same_eq same_append_eq not_Some_eq)
  then show ?thesis using assms(1,3)
    by (auto simp: approval_create_def Let_def case_prod_unfold approvals_drawn_def mem_get_save mem_ok_save less_Suc_eq)
qed

definition approvals_kept :: "nat \<Rightarrow> hub \<Rightarrow> hub \<Rightarrow> bool" where
  "approvals_kept N h h' \<longleftrightarrow> approvals_drawn N h' \<and> h_rand h' = h_rand h \<and> h_drawn h \<le> h_drawn h' \<and>
     (h_drawn h' \<le> N \<longrightarrow> (\<forall>k a. map_of (h_approvals h) k = Some a \<longrightarrow>
        (\<exists>a'. map_of (h_approvals h') k = Some a' \<and> approval_settled a a')))"

lemma approvals_kept_same:
  assumes "approvals_drawn N h" "h_approvals h' = h_approvals h" "h_rand h' = h_rand h" "h_drawn h \<le> h_drawn h'"
  shows "approvals_kept N h h'"
  using approvals_drawn_mono[OF assms] assms by (simp add: approvals_kept_def)

lemma approvals_kept_trans: "approvals_kept N h h1 \<Longrightarrow> approvals_kept N h1 h2 \<Longrightarrow> approvals_kept N h h2"
  by (auto simp: approvals_kept_def) (meson approval_settled_trans)

lemma approvals_kept_drawn: "approvals_kept N h h1 \<Longrightarrow> approvals_drawn N h1"
  by (simp add: approvals_kept_def)

lemma decide_frame: "h_rand (snd (approval_decide i st actor reason now h)) = h_rand h"
  "h_drawn (snd (approval_decide i st actor reason now h)) = h_drawn h"
  by (simp_all add: approval_decide_def Let_def split: option.splits)

lemma create_frame: "h_rand (snd (approval_create i req now h)) = h_rand h"
  "h_drawn (snd (approval_create i req now h)) = Suc (h_drawn h)"
  by (simp_all add: approval_create_def Let_def case_prod_unfold)

lemma approvals_drawn_beyond: "N < h_drawn h \<Longrightarrow> approvals_drawn N h"
  by (simp add: approvals_drawn_def)

lemma decide_kept:
  assumes "approvals_drawn N h" "st \<noteq> Pending"
  shows "approvals_kept N h (snd (approval_decide i st actor reason now h))"
  using approval_decide_keeps[OF assms, of i actor reason now]
  by (cases "h_drawn h \<le> N") (auto simp: approvals_kept_def decide_frame approvals_drawn_beyond)

lemma create_kept:
  assumes "approvals_drawn N h" "inj_on (\<lambda>n. take 8 (h_rand h n)) {..<N}"
  shows "approvals_kept N h (snd (approval_create i req now h))"
  using approval_create_keeps[OF assms, of i req now]
  by (cases "Suc (h_drawn h) \<le> N") (auto simp: approvals_kept_def create_frame approvals_drawn_beyond)

lemma transition_kept:
  assumes "approvals_drawn N h"
  shows "approvals_kept N h (snd (task_transition i dst h))"
  using assms by (auto intro!: approvals_kept_same simp: task_transition_def Let_def split: option.splits)

lemma save_emit_kept:
  assumes "approvals_drawn N h"
  shows "approvals_kept N h (snd (save_emit t evs now h))"
  using assms by (auto intro!: approvals_kept_same)

lemma and_then_kept:
  assumes "approvals_kept N h (snd r)" "\<And>a h1. approvals_kept N h h1 \<Longrightarrow> approvals_kept N h1 (snd (f a h1))"
  shows "approvals_kept N h (snd (and_then r f))"
proof -
  obtain res h1 where r: "r = (res, h1)" by (cases r)
  show ?thesis
  proof (cases res)
    case (Inr a)
    with assms r show ?thesis by (auto intro: approvals_kept_trans[of N h h1])
  qed (use assms r in auto)
qed

lemma fail_kept: "approvals_drawn N h \<Longrightarrow> approvals_kept N h (snd (task_fail i err now h))"
  by (auto simp: task_fail_def Let_def intro!: save_emit_kept approvals_kept_same split: option.splits)

lemma create_task_kept:
  assumes "approvals_drawn N h" "task_create inp now h = (t, h')"
  shows "approvals_kept N h h'"
  using assms by (auto simp: task_create_def Let_def case_prod_unfold intro!: approvals_kept_same
      split: option.splits)

lemma request_kept:
  assumes "approvals_drawn N h" "inj_on (\<lambda>n. take 8 (h_rand h n)) {..<N}"
  shows "approvals_kept N h (snd (task_requestApproval i req now h))"
  unfolding task_requestApproval_def
proof (rule and_then_kept[OF transition_kept[OF assms(1)]])
  fix t h1 assume k: "approvals_kept N h h1"
  obtain a h2 where a: "approval_create i req now h1 = (a, h2)" by (cases "approval_create i req now h1")
  have c: "approvals_kept N h1 h2"
    using create_kept[of N h1 i req now] k assms(2) a by (simp add: approvals_kept_def)
  then show "approvals_kept N h1 (snd (let (a, h2) = approval_create i req now h1
     in save_emit (set_checkpoint (\<lambda>c. c\<lparr>cp_pendingApprovalId := Some (a_id a)\<rparr>) t)
          [EvApprovalRequested (t_id t) (a_id a) (ai_ruleId req) (ai_title req) now,
           EvTaskWaitingApproval (t_id t) (t_employeeId t) (a_id a) (ai_ruleId req) (ai_title req) now]
          now h2))"
    by (simp only: a Let_def prod.case)
       (rule approvals_kept_trans[OF c save_emit_kept[OF approvals_kept_drawn[OF c]]])
qed

lemma transition_op_kept:
  assumes "approvals_drawn N h"
  shows "approvals_kept N h (snd (and_then (task_transition i dst h) (\<lambda>t. save_emit (f t) (g t) now)))"
  by (rule and_then_kept[OF transition_kept[OF assms]])
     (auto intro: save_emit_kept dest: approvals_kept_drawn)

lemma decide_op_kept:
  assumes "approvals_drawn N h" "st \<noteq> Pending"
  shows "approvals_kept N h (snd (and_then (approval_decide a st actor reason now h)
     (\<lambda>r h1. and_then (task_transition i dst h1) (\<lambda>t. save_emit (f r t) (g r t) now))))"
  by (rule and_then_kept[OF decide_kept[OF assms]])
     (auto intro: transition_op_kept dest: approvals_kept_drawn)

lemma task_exec_kept:
  assumes "approvals_drawn N h" "inj_on (\<lambda>n. take 8 (h_rand h n)) {..<N}"
  shows "approvals_kept N h (snd (task_exec op now h))"
  using assms
  by (cases op)
    (auto simp: transition_ops task_approve_def task_reject_def Let_def
      intro: transition_op_kept decide_op_kept request_kept fail_kept create_task_kept
      split: prod.splits)

lemma task_run_kept:
  "approvals_drawn N h \<Longrightarrow> inj_on (\<lambda>n. take 8 (h_rand h n)) {..<N} \<Longrightarrow> approvals_kept N h (task_run ops h)"
proof (induction ops h rule: task_run.induct)
  case (2 op now ops h)
  then have k: "approvals_kept N h (snd (task_exec op now h))" by (intro task_exec_kept)
  then have "approvals_kept N (snd (task_exec op now h)) (task_run ops (snd (task_exec op now h)))"
    using 2 by (simp add: approvals_kept_def)
  then show ?case using approvals_kept_trans[OF k] by simp
qed (simp add: approvals_kept_def)

subsection \<open>Budgets within their cap\<close>

fun budget_run :: "ident \<Rightarrow> string \<Rightarrow> jnum \<Rightarrow> string \<Rightarrow> (jnum \<times> instant) list \<Rightarrow> hub \<Rightarrow> jnum list \<times> hub" where
  "budget_run e cur cap month [] h = ([], h)"
| "budget_run e cur cap month ((amount, now) # xs) h =
    (let (ok, h1) = budget_record e amount cur (Some cap) month now h;
         (acc, h2) = budget_run e cur cap month xs h1
     in (if ok then amount # acc else acc, h2))"

definition capped :: "rat \<Rightarrow> jnum \<Rightarrow> bool" where
  "capped c s \<longleftrightarrow> s = JNegInf \<or> (\<exists>x. s = JFin x \<and> x \<le> c)"

lemma capped_le: "capped c s \<Longrightarrow> jle s (JFin c)"
  by (auto simp: capped_def jle_def)

lemma capped_add: "capped c s \<Longrightarrow> is_finite a \<Longrightarrow> \<not> jlt (JFin c) (jadd s a) \<Longrightarrow> capped c (jadd s a)"
proof (cases "jadd s a")
  case JNaN
  then show "capped c s \<Longrightarrow> is_finite a \<Longrightarrow> capped c (jadd s a)"
    by (cases a) (auto simp: capped_def)
qed (auto simp: capped_def)

definition budget_at :: "ident \<Rightarrow> string \<Rightarrow> rat \<Rightarrow> jnum \<Rightarrow> hub \<Rightarrow> bool" where
  "budget_at e month c spent h \<longleftrightarrow> capped c spent \<and>
     (case map_of (h_budgets h) e of
        None \<Rightarrow> spent = JFin 0
      | Some b \<Rightarrow> b_employeeId b = e \<and> b_month b = month \<and> b_spent b = spent)"

lemma budget_record_at:
  assumes "budget_at e month c spent h" "is_finite a"
    "budget_record e a cur (Some (JFin c)) month now h = (ok, h')"
  shows "budget_at e month c (if ok then jadd spent a else spent) h'"
  using assms capped_add[of c spent a]
  by (auto simp: budget_at_def budget_record_def Let_def mem_get_save split: option.splits if_splits)

lemma budget_run_at:
  assumes "budget_at e month c spent h" "list_all (\<lambda>x. is_finite (fst x)) xs"
    "budget_run e cur (JFin c) month xs h = (acc, h')"
  shows "budget_at e month c (foldl jadd spent acc) h'"
  using assms
proof (induction xs arbitrary: spent h acc)
  case (Cons x xs)
  obtain a now where x: "x = (a, now)" by (cases x)
  obtain ok h1 where r: "budget_record e a cur (Some (JFin c)) month now h = (ok, h1)"
    by (cases "budget_record e a cur (Some (JFin c)) month now h")
  obtain acc1 h2 where b: "budget_run e cur (JFin c) month xs h1 = (acc1, h2)"
    by (cases "budget_run e cur (JFin c) month xs h1")
  have "budget_at e month c (if ok then jadd spent a else spent) h1"
    using Cons.prems x by (intro budget_record_at[OF _ _ r]) auto
  from Cons.IH[OF this] b Cons.prems(2,3) show ?case by (auto simp: x r split: if_splits prod.splits)
qed simp

subsection \<open>Properties\<close>

text \<open>C26 Every operation moves a task along the transition table or leaves its status alone; the one
  exception is \<open>fail\<close>, which counts an attempt and resumes the task while attempts are left and
  fails it otherwise, whatever its status was (a completed task can so be revived).\<close>
theorem task_ops_follow_transitions:
  assumes "mem_ok t_id (h_tasks h)" "map_of (h_tasks h) k = Some t" "\<not> is_create op"
  shows "\<exists>t'. map_of (h_tasks (snd (task_exec op now h))) k = Some t' \<and>
    t_id t' = t_id t \<and> t_maxRetries t' = t_maxRetries t \<and>
    (if fails_task op k
     then t_attempts t' = t_attempts t + 1 \<and>
       t_status t' = (if t_attempts t + 1 \<le> t_maxRetries t then Running else Failed)
     else t_attempts t' = t_attempts t \<and>
       (t_status t' = t_status t \<or> t_status t' \<in> set (TRANSITIONS (t_status t))))"
  using task_exec_step[OF assms, where now = now] by (auto simp: task_moves_def split: if_splits)

definition sample_task :: task where
  "sample_task = \<lparr>t_id = ''task:1'', t_tenantId = ''t'', t_employeeId = ''e'', t_workflowId = ''w'',
     t_businessObjectId = ''PO-1'', t_status = Completed, t_attempts = 0, t_maxRetries = 3,
     t_instruction = None,
     t_checkpoint = \<lparr>cp_stepIndex = 0, cp_pendingApprovalId = None, cp_waitingReason = None,
       cp_workspace = []\<rparr>,
     t_createdAt = 0, t_startedAt = None, t_completedAt = Some 1, t_failedAt = None, t_error = None,
     t_metadata = []\<rparr>"

theorem task_ops_follow_transitions_witness:
  "\<exists>t'. map_of (h_tasks (snd (task_exec (OpFail ''task:1'' ''late'') 9
     (empty_hub (\<lambda>_. [])\<lparr>h_tasks := [(''task:1'', sample_task)]\<rparr>)))) ''task:1'' = Some t' \<and>
     t_status t' = Running"
  using task_ops_follow_transitions[of "empty_hub (\<lambda>_. [])\<lparr>h_tasks := [(''task:1'', sample_task)]\<rparr>"
      "''task:1''" sample_task "OpFail ''task:1'' ''late''" 9]
  by (auto simp: mem_ok_def sample_task_def fails_task_def)

text \<open>Over any sequence of operations (creations aside), a task is put back to work by \<open>fail\<close> at most
  as many times as it has attempts left, and its limit never changes.\<close>
theorem task_retries_bounded:
  assumes "mem_ok t_id (h_tasks h)" "map_of (h_tasks h) k = Some t"
    "\<forall>x\<in>set ops. \<not> is_create (fst x)"
  shows "\<exists>t'. map_of (h_tasks (task_run ops h)) k = Some t' \<and> t_maxRetries t' = t_maxRetries t \<and>
    int (retries k (h_eventLog (task_run ops h))) - int (retries k (h_eventLog h))
      \<le> max 0 (t_maxRetries t - t_attempts t)"
  using task_run_retries[OF assms] by auto

theorem task_retries_bounded_witness:
  "\<exists>t'. map_of (h_tasks (task_run [(OpFail ''task:1'' [], 1), (OpFail ''task:1'' [], 2)]
     (empty_hub (\<lambda>_. [])\<lparr>h_tasks := [(''task:1'', sample_task)]\<rparr>))) ''task:1'' = Some t' \<and>
     t_maxRetries t' = 3"
  using task_retries_bounded[of "empty_hub (\<lambda>_. [])\<lparr>h_tasks := [(''task:1'', sample_task)]\<rparr>"
      "''task:1''" sample_task "[(OpFail ''task:1'' [], 1), (OpFail ''task:1'' [], 2)]"]
  by (auto simp: mem_ok_def sample_task_def)


text \<open>Without that: two identifiers with the same eight characters, and the second request replaces the first one, decided
  or not.\<close>
lemma approval_overwritten:
  assumes "map_of (h_approvals h) (''appr:'' @ take 8 (h_rand h (h_drawn h))) = Some a"
  shows "\<exists>a'. map_of (h_approvals (snd (approval_create i req now h))) (a_id a') = Some a' \<and>
    a_id a' = ''appr:'' @ take 8 (h_rand h (h_drawn h)) \<and> a_status a' = Pending \<and> a_taskId a' = i"
  by (auto simp: approval_create_def Let_def case_prod_unfold mem_get_save)

definition sample_input :: create_task_input where
  "sample_input = \<lparr>cti_id = Some ''T'', cti_tenantId = [], cti_employeeId = [], cti_workflowId = [],
     cti_businessObjectId = [], cti_instruction = None, cti_maxRetries = None\<rparr>"

definition sample_rand :: "nat \<Rightarrow> string" where
  "sample_rand n = replicate n (CHR ''x'')"

lemma sample_rand_inj: "N \<le> 9 \<Longrightarrow> inj_on (\<lambda>n. take 8 (sample_rand n)) {..<N}"
proof (rule inj_onI)
  fix x y
  assume le: "N \<le> 9" "x \<in> {..<N}" "y \<in> {..<N}" and "take 8 (sample_rand x) = take 8 (sample_rand y)"
  then have "length (take 8 (sample_rand x)) = length (take 8 (sample_rand y))" by simp
  then show "x = y" using le by (simp add: sample_rand_def)
qed

definition sample_ops :: "(task_op \<times> instant) list" where
  "sample_ops = [(OpCreate sample_input, 1), (OpStart ''T'', 2),
     (OpRequest ''T'' \<lparr>ai_ruleId = ''r'', ai_title = ''t'', ai_message = [], ai_payload = []\<rparr>, 3)]"


text \<open>C28 A month's spending never exceeds its cap: for any sequence of spends under a finite cap, what is
  spent is the sum of the accepted amounts and at most the cap, floating-point rounding included.\<close>
theorem budget_within_cap:
  assumes "0 \<le> c" "list_all (\<lambda>x. is_finite (fst x)) xs"
    "budget_run e cur (JFin c) month xs (empty_hub rand) = (acc, h)"
  shows "budget_spent e h = foldl jadd (JFin 0) acc \<and> jle (budget_spent e h) (JFin c)"
proof -
  have "budget_at e month c (foldl jadd (JFin 0) acc) h"
    using assms by (intro budget_run_at[OF _ assms(2,3)]) (simp add: budget_at_def capped_def empty_hub_def)
  then show ?thesis
    by (auto simp: budget_at_def budget_spent_def dest: capped_le split: option.splits)
qed

theorem budget_within_cap_witness:
  "jle (budget_spent ''e'' (snd (budget_run ''e'' ''CNY'' (JFin 10) ''2026-01''
     [(JFin 6, 1), (JFin 5, 2)] (empty_hub (\<lambda>_. []))))) (JFin 10)"
proof -
  let ?xs = "[(JFin 6, 1 :: instant), (JFin 5, 2)]"
  obtain acc h where r: "budget_run ''e'' ''CNY'' (JFin 10) ''2026-01'' ?xs (empty_hub (\<lambda>_. [])) = (acc, h)"
    by (cases "budget_run ''e'' ''CNY'' (JFin 10) ''2026-01'' ?xs (empty_hub (\<lambda>_. []))")
  have "jle (budget_spent ''e'' h) (JFin 10)"
    using budget_within_cap[THEN conjunct2, OF _ _ r] by simp
  then show ?thesis by (simp only: r snd_conv)
qed

end
