(* ===== verification/Messaging.thy ===== *)
theory Messaging
  imports JsNumber
begin

text \<open>
  The messaging contracts (\<open>packages/messaging/src/contracts.ts\<close>) and the adapter circuit breaker
  (\<open>circuit-breaker.ts\<close>).  Error texts are values of \<open>msg_text\<close>: a text that came from outside, or
  one of the fixed messages of the gateway.  Absent optional fields are \<open>None\<close>.
\<close>

subsection \<open>Contracts\<close>

definition isValidMessagingChannel :: "string \<Rightarrow> bool" where
  "isValidMessagingChannel v =
    (let lower = (\<lambda>c :: char. CHR ''a'' \<le> c \<and> c \<le> CHR ''z'' \<or> CHR ''0'' \<le> c \<and> c \<le> CHR ''9'')
     in v \<noteq> [] \<and> length v \<le> 96 \<and> lower (hd v) \<and>
        list_all (\<lambda>c. lower c \<or> c \<in> set ''._:-'') (tl v))"

datatype capability = SendText | SendAttachments | Receive | Threads | DeliveryReceipts

datatype adapter_status = AdRunning | AdDegraded | AdPaused | AdPausedByBreaker | AdDisabled
  | AdUnconfigured

datatype msg_text = Txt string | TxtInFlight | TxtRetriesExhausted | TxtNotRegistered string
  | TxtChannelMismatch string string | TxtMissing "capability list" | TxtBlocked | TxtAdapterThrew
  | TxtLeaseLost | TxtBreakerTripped | TxtPollBlocked | TxtPollNotStarted

record message_address =
  ma_address :: string
  ma_displayName :: "string option"

record sender_address =
  sa_address :: "string option"
  sa_displayName :: "string option"

record attachment_descriptor =
  att_id :: ident
  att_name :: string
  att_contentType :: string
  att_sizeBytes :: int
  att_sha256 :: string

record attachment_payload = attachment_descriptor +
  att_content :: string

record inbound_envelope =
  env_id :: ident
  env_tenantId :: ident
  env_adapterId :: ident
  env_channel :: string
  env_provider :: string
  env_providerMessageId :: string
  env_conversationId :: "string option"
  env_inReplyTo :: "string option"
  env_references :: "string list"
  env_sender :: message_address
  env_recipients :: "message_address list"
  env_subject :: "string option"
  env_text :: string
  env_attachments :: "attachment_descriptor list"
  env_occurredAt :: instant
  env_receivedAt :: instant
  env_rawFingerprint :: string

record message_thread =
  th_inReplyTo :: "string option"
  th_references :: "string list option"

record message_trace =
  tr_source :: string
  tr_sourceId :: string
  tr_correlationId :: string

text \<open>A delivery request over the type of its attachments: with their bytes as the caller sends it,
  as descriptors only as it is stored.\<close>
record 'att delivery_request =
  rq_tenantId :: ident
  rq_adapterId :: ident
  rq_channel :: string
  rq_idempotencyKey :: string
  rq_sender :: "sender_address option"
  rq_recipients :: "message_address list"
  rq_subject :: "string option"
  rq_text :: string
  rq_attachments :: "'att list"
  rq_thread :: "message_thread option"
  rq_trace :: message_trace

type_synonym sent_request = "attachment_payload delivery_request"
type_synonym stored_request = "attachment_descriptor delivery_request"

datatype receipt_status = RcAccepted | RcFailed | RcUnknown | RcDeferred | RcBlocked

record delivery_receipt =
  rc_deliveryId :: ident
  rc_status :: receipt_status
  rc_nextAttemptAt :: "instant option"
  rc_providerMessageId :: "string option"
  rc_acceptedAt :: "instant option"
  rc_attempt :: nat
  rc_replayed :: bool
  rc_retryable :: bool
  rc_error :: "msg_text option"

datatype failure_kind = RetryableBeforeDispatch | FailedBeforeDispatch | UnknownAfterDispatch

datatype send_result = Accepted string instant | Failure failure_kind msg_text

record adapter_state =
  ad_configured :: bool
  ad_startedAt :: "instant option"
  ad_tenantId :: ident
  ad_adapterId :: ident
  ad_channel :: string
  ad_provider :: string
  ad_status :: adapter_status
  ad_capabilities :: "capability list"
  ad_consecutiveFailures :: nat
  ad_failureWindowStartedAt :: "instant option"
  ad_lastHealthAt :: "instant option"
  ad_lastSuccessAt :: "instant option"
  ad_lastError :: "msg_text option"
  ad_pauseReason :: "msg_text option"
  ad_version :: nat
  ad_createdAt :: instant
  ad_updatedAt :: instant

datatype inbound_status = InReceived | InDispatching | InProcessed | InRejected | InFailed

datatype delivery_status = DvPending | DvSending | DvAccepted | DvRetryWait | DvUnknown | DvFailed
  | DvAbandoned

text \<open>The registered adapter object: its declared identity and capabilities (its calls are external).\<close>
record adapter =
  apt_id :: ident
  apt_channel :: string
  apt_provider :: string
  apt_capabilities :: "capability list"
  apt_polls :: bool

subsection \<open>Circuit breaker\<close>

definition FAILURE_WINDOW_MS :: int where "FAILURE_WINDOW_MS = 5 * 60 * 1000"
definition BREAKER_THRESHOLD :: nat where "BREAKER_THRESHOLD = 3"

definition isAdapterBlocked :: "adapter_state \<Rightarrow> bool" where
  "isAdapterBlocked st \<longleftrightarrow> ad_status st \<notin> {AdRunning, AdDegraded}"

definition recordAdapterSuccess :: "adapter_state \<Rightarrow> instant \<Rightarrow> nat \<Rightarrow> adapter_state" where
  "recordAdapterSuccess st tm startedVersion =
    (if isAdapterBlocked st \<or> ad_version st \<noteq> startedVersion
     then st\<lparr>ad_lastSuccessAt := Some tm, ad_lastHealthAt := Some tm, ad_updatedAt := tm\<rparr>
     else st\<lparr>ad_status := AdRunning, ad_consecutiveFailures := 0, ad_failureWindowStartedAt := None,
             ad_lastSuccessAt := Some tm, ad_lastHealthAt := Some tm, ad_lastError := None,
             ad_pauseReason := None, ad_updatedAt := tm\<rparr>)"

definition recordAdapterFailure :: "adapter_state \<Rightarrow> failure_kind \<Rightarrow> msg_text \<Rightarrow> instant \<Rightarrow> adapter_state" where
  "recordAdapterFailure st kind err tm =
    (if isAdapterBlocked st
     then st\<lparr>ad_lastError := Some err, ad_lastHealthAt := Some tm, ad_updatedAt := tm\<rparr>
     else let st = st\<lparr>ad_lastHealthAt := Some tm\<rparr>
       in case kind of
         FailedBeforeDispatch \<Rightarrow> st\<lparr>ad_lastError := Some err, ad_updatedAt := tm\<rparr>
       | UnknownAfterDispatch \<Rightarrow> st\<lparr>ad_status := AdDegraded, ad_lastError := Some err, ad_updatedAt := tm\<rparr>
       | RetryableBeforeDispatch \<Rightarrow>
           let insideWindow = (case ad_failureWindowStartedAt st of
                 None \<Rightarrow> False
               | Some w \<Rightarrow> tm - w \<le> FAILURE_WINDOW_MS \<and> w \<le> tm);
               consecutiveFailures = (if insideWindow then ad_consecutiveFailures st + 1 else 1);
               tripped = BREAKER_THRESHOLD \<le> consecutiveFailures
           in st\<lparr>ad_status := (if tripped then AdPausedByBreaker else AdDegraded),
                 ad_consecutiveFailures := consecutiveFailures,
                 ad_failureWindowStartedAt :=
                   (if insideWindow then ad_failureWindowStartedAt st else Some tm),
                 ad_lastError := Some err,
                 ad_pauseReason := (if tripped then Some TxtBreakerTripped else None),
                 ad_updatedAt := tm\<rparr>)"

subsection \<open>Lemmas\<close>

text \<open>The outcomes an adapter reports over time.\<close>
datatype adapter_outcome = OkOutcome nat instant | BadOutcome failure_kind msg_text instant

fun outcome_step :: "adapter_state \<Rightarrow> adapter_outcome \<Rightarrow> adapter_state" where
  "outcome_step st (OkOutcome v tm) = recordAdapterSuccess st tm v"
| "outcome_step st (BadOutcome kind err tm) = recordAdapterFailure st kind err tm"

lemma blocked_absorbing:
  "isAdapterBlocked st \<Longrightarrow> ad_status (outcome_step st ev) = ad_status st \<and>
     ad_consecutiveFailures (outcome_step st ev) = ad_consecutiveFailures st"
  by (cases ev) (auto simp: recordAdapterSuccess_def recordAdapterFailure_def)

lemma blocked_run:
  "isAdapterBlocked st \<Longrightarrow> ad_status (foldl outcome_step st evs) = ad_status st"
proof (induction evs arbitrary: st)
  case (Cons ev evs)
  have "isAdapterBlocked (outcome_step st ev)"
    using blocked_absorbing[OF Cons.prems, of ev] Cons.prems by (simp add: isAdapterBlocked_def)
  then show ?case using Cons.IH blocked_absorbing[OF Cons.prems, of ev] by simp
qed simp

text \<open>The window is open while failures are counted, and an unblocked adapter is below the threshold.\<close>
definition breaker_inv :: "adapter_state \<Rightarrow> bool" where
  "breaker_inv st \<longleftrightarrow>
     (ad_failureWindowStartedAt st = None \<longrightarrow> ad_consecutiveFailures st = 0) \<and>
     (\<not> isAdapterBlocked st \<longrightarrow> ad_consecutiveFailures st < BREAKER_THRESHOLD) \<and>
     ad_consecutiveFailures st \<le> BREAKER_THRESHOLD"

lemma breaker_inv_step: "breaker_inv st \<Longrightarrow> breaker_inv (outcome_step st ev)"
  by (cases ev)
    (auto simp: breaker_inv_def recordAdapterSuccess_def recordAdapterFailure_def Let_def
      BREAKER_THRESHOLD_def isAdapterBlocked_def split: failure_kind.splits option.splits if_splits)

lemma breaker_inv_run: "breaker_inv st \<Longrightarrow> breaker_inv (foldl outcome_step st evs)"
  by (induction evs arbitrary: st) (auto intro: breaker_inv_step)

text \<open>Only a retryable failure opens the breaker, and it is the third one counted since the window
  opened.\<close>
lemma breaker_opens_step:
  assumes "breaker_inv st" "\<not> isAdapterBlocked st" "isAdapterBlocked (outcome_step st ev)"
  shows "ad_status (outcome_step st ev) = AdPausedByBreaker \<and> ad_consecutiveFailures st = 2 \<and>
    (\<exists>err tm w. ev = BadOutcome RetryableBeforeDispatch err tm \<and>
       ad_failureWindowStartedAt st = Some w \<and> w \<le> tm \<and> tm - w \<le> FAILURE_WINDOW_MS)"
  using assms
  by (cases ev)
    (auto simp: breaker_inv_def recordAdapterSuccess_def recordAdapterFailure_def Let_def
      BREAKER_THRESHOLD_def isAdapterBlocked_def split: failure_kind.splits option.splits if_splits)

text \<open>Retryable failures inside one window, counted from a healthy adapter.\<close>
lemma breaker_counts:
  assumes "\<not> isAdapterBlocked st" "ad_failureWindowStartedAt st = Some w"
    "ad_consecutiveFailures st = n" "n < BREAKER_THRESHOLD"
    "\<forall>tm\<in>set tms. w \<le> tm \<and> tm \<le> w + FAILURE_WINDOW_MS"
  shows "ad_status (foldl (\<lambda>s tm. recordAdapterFailure s RetryableBeforeDispatch err tm) st tms) =
    (if BREAKER_THRESHOLD \<le> n + length tms then AdPausedByBreaker
     else if tms = [] then ad_status st else AdDegraded)"
  using assms
proof (induction tms arbitrary: st n)
  case (Cons tm tms)
  let ?s = "recordAdapterFailure st RetryableBeforeDispatch err tm"
  have inside: "tm - w \<le> FAILURE_WINDOW_MS \<and> w \<le> tm" using Cons.prems(5) by simp
  show ?case
  proof (cases "BREAKER_THRESHOLD \<le> Suc n")
    case True
    have b: "isAdapterBlocked ?s" "ad_status ?s = AdPausedByBreaker"
      using Cons.prems inside True by (auto simp: recordAdapterFailure_def Let_def isAdapterBlocked_def)
    have "foldl (\<lambda>s tm. recordAdapterFailure s RetryableBeforeDispatch err tm) ?s tms =
        foldl outcome_step ?s (map (BadOutcome RetryableBeforeDispatch err) tms)"
      by (simp add: foldl_map)
    then show ?thesis using blocked_run[OF b(1)] b(2) True by auto
  next
    case False
    then have "\<not> isAdapterBlocked ?s \<and> ad_failureWindowStartedAt ?s = Some w \<and>
        ad_consecutiveFailures ?s = Suc n \<and> ad_status ?s = AdDegraded"
      using Cons.prems inside by (auto simp: recordAdapterFailure_def Let_def isAdapterBlocked_def)
    with Cons.IH[of ?s "Suc n"] Cons.prems(5) False show ?thesis by auto
  qed
qed auto

subsection \<open>Properties\<close>

text \<open>Starting with no open failure window, retryable failures within five minutes of the first one
  degrade the adapter, the third pauses it, and from then on no reported outcome whatsoever,
  success included, brings it back.\<close>
theorem breaker_trips_at_three:
  assumes "\<not> isAdapterBlocked st" "ad_failureWindowStartedAt st = None"
    "\<forall>t\<in>set tms. t0 \<le> t \<and> t \<le> t0 + FAILURE_WINDOW_MS"
  shows "ad_status (foldl (\<lambda>s t. recordAdapterFailure s RetryableBeforeDispatch err t) st (t0 # tms)) =
      (if length tms < 2 then AdDegraded else AdPausedByBreaker) \<and>
    (2 \<le> length tms \<longrightarrow> ad_status (foldl outcome_step
      (foldl (\<lambda>s t. recordAdapterFailure s RetryableBeforeDispatch err t) st (t0 # tms)) evs)
        = AdPausedByBreaker)"
proof -
  let ?s = "recordAdapterFailure st RetryableBeforeDispatch err t0"
  have "\<not> isAdapterBlocked ?s \<and> ad_failureWindowStartedAt ?s = Some t0 \<and>
      ad_consecutiveFailures ?s = 1 \<and> ad_status ?s = AdDegraded"
    using assms(1,2)
    by (auto simp: recordAdapterFailure_def Let_def isAdapterBlocked_def BREAKER_THRESHOLD_def)
  then have st: "ad_status (foldl (\<lambda>s t. recordAdapterFailure s RetryableBeforeDispatch err t) st (t0 # tms)) =
      (if length tms < 2 then AdDegraded else AdPausedByBreaker)"
    using breaker_counts[of ?s t0 1 tms err] assms(3) by (auto simp: BREAKER_THRESHOLD_def)
  then show ?thesis
    using blocked_run[of "foldl (\<lambda>s t. recordAdapterFailure s RetryableBeforeDispatch err t) st (t0 # tms)" evs]
    by (auto simp: isAdapterBlocked_def)
qed

definition fresh_adapter :: adapter_state where
  "fresh_adapter = \<lparr>ad_configured = True, ad_startedAt = Some 0, ad_tenantId = ''t'',
     ad_adapterId = ''smtp'', ad_channel = ''email'', ad_provider = ''smtp'', ad_status = AdDegraded,
     ad_capabilities = [SendText], ad_consecutiveFailures = 0, ad_failureWindowStartedAt = None,
     ad_lastHealthAt = None, ad_lastSuccessAt = None, ad_lastError = None, ad_pauseReason = None,
     ad_version = 1, ad_createdAt = 0, ad_updatedAt = 0\<rparr>"

theorem breaker_trips_at_three_witness:
  "ad_status (foldl (\<lambda>s t. recordAdapterFailure s RetryableBeforeDispatch TxtBlocked t) fresh_adapter
     [10, 20, 30]) = AdPausedByBreaker"
  using breaker_trips_at_three[of fresh_adapter "[20, 30]" 10 TxtBlocked "[]"]
  by (simp add: fresh_adapter_def isAdapterBlocked_def FAILURE_WINDOW_MS_def)

text \<open>The breaker never opens early: after any history of outcomes from a state that satisfies the
  breaker's invariant, an outcome that blocks the adapter is a retryable failure, the third one
  counted in a window that opened at most five minutes before it.\<close>
theorem breaker_opens_only_at_third:
  assumes "breaker_inv st0" "st = foldl outcome_step st0 evs" "\<not> isAdapterBlocked st"
    "isAdapterBlocked (outcome_step st ev)"
  shows "ad_status (outcome_step st ev) = AdPausedByBreaker \<and> ad_consecutiveFailures st = 2 \<and>
    (\<exists>err t w. ev = BadOutcome RetryableBeforeDispatch err t \<and>
       ad_failureWindowStartedAt st = Some w \<and> w \<le> t \<and> t - w \<le> FAILURE_WINDOW_MS)"
  using breaker_opens_step[of st ev] breaker_inv_run[OF assms(1), of evs] assms by blast

theorem breaker_opens_only_at_third_witness:
  "ad_consecutiveFailures (foldl outcome_step fresh_adapter
     [BadOutcome RetryableBeforeDispatch TxtBlocked 1, BadOutcome RetryableBeforeDispatch TxtBlocked 2]) = 2"
  using breaker_opens_only_at_third[of fresh_adapter _
      "[BadOutcome RetryableBeforeDispatch TxtBlocked 1, BadOutcome RetryableBeforeDispatch TxtBlocked 2]"
      "BadOutcome RetryableBeforeDispatch TxtBlocked 3", OF _ refl]
  by (simp add: fresh_adapter_def breaker_inv_def isAdapterBlocked_def recordAdapterFailure_def Let_def
      FAILURE_WINDOW_MS_def BREAKER_THRESHOLD_def)

end
