(* ===== verification/LeaseQueue.thy ===== *)
theory LeaseQueue
  imports Prelude
begin

text \<open>
  Work queues with leases.  Four tables of the program hand rows to workers under a lease: inbound
  messages, document jobs, the execution outbox and the twin projection queue.  The locale states
  the contract of one row: claiming needs the row not to be under a running lease and puts it
  under one with the claim's token and expiry; finishing needs the row's current token and ends
  the lease.  The client lemmas are mutual exclusion for the length of a lease, the refusal of a
  stale worker and at most one finish per claim.
\<close>

datatype ('c, 'f, 'tok) lease_op = Claim 'c instant | Finish 'f instant 'tok

fun op_time :: "('c, 'f, 'tok) lease_op \<Rightarrow> instant" where
  "op_time (Claim c t) = t" | "op_time (Finish f t tok) = t"

locale lease_queue =
  fixes token :: "'r \<Rightarrow> 'tok option"
    and expiry :: "'r \<Rightarrow> instant option"
    and claim :: "'c \<Rightarrow> instant \<Rightarrow> 'r \<Rightarrow> 'r option"
    and finish :: "'f \<Rightarrow> instant \<Rightarrow> 'tok \<Rightarrow> 'r \<Rightarrow> 'r option"
    and newtok :: "'c \<Rightarrow> instant \<Rightarrow> 'r \<Rightarrow> 'tok"
    and ends :: "'c \<Rightarrow> instant \<Rightarrow> instant"
  assumes claim_free: "claim c t r = Some r' \<Longrightarrow> token r = None \<or> (\<exists>e. expiry r = Some e \<and> e \<le> t)"
    and claim_sets: "claim c t r = Some r' \<Longrightarrow> token r' = Some (newtok c t r) \<and> expiry r' = Some (ends c t)"
    and finish_holder: "finish f t tok r = Some r' \<Longrightarrow> token r = Some tok"
    and finish_releases: "finish f t tok r = Some r' \<Longrightarrow> token r' = None"
begin

definition attempt :: "('c, 'f, 'tok) lease_op \<Rightarrow> 'r \<Rightarrow> 'r option" where
  "attempt op r = (case op of Claim c t \<Rightarrow> claim c t r | Finish f t tok \<Rightarrow> finish f t tok r)"

text \<open>A row driven by attempts, the refused ones leaving it alone; the log of the successful ones.\<close>
fun drive :: "('c, 'f, 'tok) lease_op list \<Rightarrow> 'r \<Rightarrow> 'r \<times> ('c, 'f, 'tok) lease_op list" where
  "drive [] r = (r, [])"
| "drive (op # ops) r = (case attempt op r of
     None \<Rightarrow> drive ops r
   | Some r1 \<Rightarrow> (case drive ops r1 of (r2, done_ops) \<Rightarrow> (r2, op # done_ops)))"

lemma drive_append: "fst (drive (xs @ ys) r) = fst (drive ys (fst (drive xs r)))"
  by (induction xs arbitrary: r) (auto simp: case_prod_unfold split: option.splits)

definition held :: "'r \<Rightarrow> 'tok \<Rightarrow> instant \<Rightarrow> bool" where
  "held r tok e \<longleftrightarrow> token r = Some tok \<and> expiry r = Some e"

lemma claim_held: "claim c t r = Some r' \<Longrightarrow> held r' (newtok c t r) (ends c t)"
  using claim_sets by (simp add: held_def)

lemma held_no_claim: "held r tok e \<Longrightarrow> t < e \<Longrightarrow> claim c t r = None"
  using claim_free by (cases "claim c t r") (force simp: held_def)+

lemma held_no_stale_finish: "held r tok e \<Longrightarrow> tok' \<noteq> tok \<Longrightarrow> finish f t tok' r = None"
  using finish_holder by (cases "finish f t tok' r") (force simp: held_def)+

text \<open>Mutual exclusion: until the lease ends or its holder finishes, no attempt of anyone else
  succeeds and the row stays as the holder left it.\<close>
lemma exclusive:
  assumes "held r tok e"
    "\<forall>op\<in>set ops. op_time op < e \<and> (\<forall>f t tok'. op = Finish f t tok' \<longrightarrow> tok' \<noteq> tok)"
  shows "drive ops r = (r, [])"
  using assms(2)
proof (induction ops)
  case (Cons op ops)
  have "attempt op r = None"
    using Cons.prems held_no_claim[OF assms(1)] held_no_stale_finish[OF assms(1)]
    by (cases op) (auto simp: attempt_def)
  then show ?case using Cons by simp
qed simp

text \<open>Fencing: once a row has been claimed under another token, the earlier holder cannot finish it.\<close>
lemma fenced:
  assumes "claim c t r = Some r'" "newtok c t r \<noteq> tok"
  shows "finish f t' tok r' = None"
  using held_no_stale_finish[OF claim_held[OF assms(1)]] assms(2) by simp

lemma finish_once: "finish f t tok r = Some r' \<Longrightarrow> finish f' t' tok' r' = None"
  using finish_releases finish_holder by (cases "finish f' t' tok' r'") force+

end

end
