(* ===== verification/MessagingStore.thy ===== *)
theory MessagingStore
  imports Messaging LeaseQueue
begin

text \<open>
  The messaging repository (\<open>packages/messaging/src/repository.ts\<close>): the tables of one tenant, as row
  lists, and the operations on them.  Writes happen under SQLite transactions or savepoints: an
  operation that throws there leaves the store as it was.  The environment \<open>msg_env\<close> holds what
  the code takes from outside: the tenant, the SHA-256 function, \<open>JSON.stringify\<close> of a scalar,
  \<open>toISOString\<close>, the process id and the redaction of error texts.
\<close>

record msg_env =
  me_tenant :: ident
  me_hash :: "string \<Rightarrow> string"
  me_json :: "json \<Rightarrow> string"
  me_iso :: "instant \<Rightarrow> string"
  me_pid :: string
  me_redact :: "msg_text \<Rightarrow> msg_text"

subsection \<open>Rows\<close>

record inbound_row =
  ib_envelope :: inbound_envelope
  ib_status :: inbound_status
  ib_attempts :: nat
  ib_version :: nat
  ib_leaseOwner :: "string option"
  ib_leaseToken :: "string option"
  ib_leaseExpiresAt :: "instant option"
  ib_outcomeCode :: "string option"
  ib_error :: "msg_text option"
  ib_processedAt :: "instant option"
  ib_createdAt :: instant
  ib_updatedAt :: instant

record attachment_row =
  ar_inboundId :: ident
  ar_payload :: attachment_payload

record delivery_row =
  dv_id :: ident
  dv_adapterId :: ident
  dv_channel :: string
  dv_idempotencyKey :: string
  dv_fingerprint :: string
  dv_request :: stored_request
  dv_status :: delivery_status
  dv_attempts :: nat
  dv_version :: nat
  dv_leaseOwner :: "string option"
  dv_leaseToken :: "string option"
  dv_leaseExpiresAt :: "instant option"
  dv_dispatchStarted :: bool
  dv_providerMessageId :: "string option"
  dv_acceptedAt :: "instant option"
  dv_nextAttemptAt :: "instant option"
  dv_error :: "msg_text option"
  dv_receipt :: "send_result option"
  dv_createdAt :: instant
  dv_updatedAt :: instant
  dv_completedAt :: "instant option"

text \<open>The status column of an event carries the status of what it is about.\<close>
datatype event_status = EsInbound inbound_status | EsDelivery delivery_status | EsAdapter adapter_status

record gateway_event =
  ge_id :: string
  ge_tenantId :: ident
  ge_adapterId :: ident
  ge_eventType :: string
  ge_status :: event_status
  ge_actorId :: "string option"
  ge_reason :: "msg_text option"
  ge_metadata :: "(string \<times> json) list"
  ge_createdAt :: instant

record msg_store =
  ms_inbound :: "inbound_row list"
  ms_attachments :: "attachment_row list"
  ms_deliveries :: "delivery_row list"
  ms_adapters :: "adapter_state list"
  ms_events :: "gateway_event list"

definition empty_store :: msg_store where
  "empty_store = \<lparr>ms_inbound = [], ms_attachments = [], ms_deliveries = [], ms_adapters = [], ms_events = []\<rparr>"

datatype msg_fault = TenantMismatch | InboundIdentityConflict string | AttachmentMismatch ident
  | AttachmentsNotPersisted | InboundMissing ident | InboundDuplicate ident | InboundStateConflict ident
  | IdempotencyConflict string | DeliveryDuplicate ident | DeliveryMissing ident
  | DeliveryVersionConflict ident nat | EventDuplicate string | AdapterMissing ident
  | AdapterVersionConflict ident "nat option" | WorkerEmpty | LeaseNotPositive
  | AdapterAlreadyRegistered ident | ReasonEmpty | AdapterUnreachable

type_synonym 'a msg_result = "(msg_fault, 'a) result \<times> msg_store"

text \<open>Sequencing within one transaction: a fault passes through with the store it happened in.\<close>
definition bind :: "'a msg_result \<Rightarrow> ('a \<Rightarrow> msg_store \<Rightarrow> 'b msg_result) \<Rightarrow> 'b msg_result" where
  "bind r f = (case r of (Inl e, s) \<Rightarrow> (Inl e, s) | (Inr a, s) \<Rightarrow> f a s)"

text \<open>A savepoint: a fault rolls the store back.\<close>
definition savepoint :: "msg_store \<Rightarrow> 'a msg_result \<Rightarrow> 'a msg_result" where
  "savepoint s r = (case r of (Inl e, _) \<Rightarrow> (Inl e, s) | ok \<Rightarrow> ok)"

subsection \<open>Canonical JSON, fingerprints and event metadata\<close>

fun stableJson :: "(json \<Rightarrow> string) \<Rightarrow> json \<Rightarrow> string" where
  "stableJson J (JArr xs) = ''['' @ join '','' (map (stableJson J) xs) @ '']''"
| "stableJson J (JObj kvs) = ''{'' @ join '',''
     (map (\<lambda>(k, r). J (JStr k) @ '':'' @ r)
       (sort_key fst (map (\<lambda>(k, v). (k, stableJson J v)) kvs))) @ ''}''"
| "stableJson J v = J v"

abbreviation opt_field :: "string \<Rightarrow> string option \<Rightarrow> (string \<times> json) list" where
  "opt_field k v \<equiv> (case v of None \<Rightarrow> [] | Some x \<Rightarrow> [(k, JStr x)])"

definition address_json :: "message_address \<Rightarrow> json" where
  "address_json a = JObj ((''address'', JStr (ma_address a)) # opt_field ''displayName'' (ma_displayName a))"

definition descriptor_json :: "attachment_descriptor \<Rightarrow> json" where
  "descriptor_json d = JObj [(''id'', JStr (att_id d)), (''name'', JStr (att_name d)),
     (''contentType'', JStr (att_contentType d)), (''sizeBytes'', JNum (jint (att_sizeBytes d))),
     (''sha256'', JStr (att_sha256 d))]"

definition request_json :: "stored_request \<Rightarrow> json" where
  "request_json r = JObj (
     [(''tenantId'', JStr (rq_tenantId r)), (''adapterId'', JStr (rq_adapterId r)),
      (''channel'', JStr (rq_channel r)), (''idempotencyKey'', JStr (rq_idempotencyKey r))] @
     (case rq_sender r of None \<Rightarrow> [] | Some a \<Rightarrow> [(''sender'', JObj (opt_field ''address'' (sa_address a)
        @ opt_field ''displayName'' (sa_displayName a)))]) @
     [(''recipients'', JArr (map address_json (rq_recipients r)))] @
     opt_field ''subject'' (rq_subject r) @
     [(''text'', JStr (rq_text r)), (''attachments'', JArr (map descriptor_json (rq_attachments r)))] @
     (case rq_thread r of None \<Rightarrow> [] | Some t \<Rightarrow> [(''thread'', JObj (opt_field ''inReplyTo'' (th_inReplyTo t) @
        (case th_references t of None \<Rightarrow> [] | Some rs \<Rightarrow> [(''references'', JArr (map JStr rs))])))]) @
     [(''trace'', JObj [(''source'', JStr (tr_source (rq_trace r))),
        (''sourceId'', JStr (tr_sourceId (rq_trace r))),
        (''correlationId'', JStr (tr_correlationId (rq_trace r)))])])"

definition storedDeliveryRequest :: "sent_request \<Rightarrow> stored_request" where
  "storedDeliveryRequest r = \<lparr>rq_tenantId = rq_tenantId r, rq_adapterId = rq_adapterId r,
     rq_channel = rq_channel r, rq_idempotencyKey = rq_idempotencyKey r, rq_sender = rq_sender r,
     rq_recipients = rq_recipients r, rq_subject = rq_subject r, rq_text = rq_text r,
     rq_attachments = map attachment_descriptor.truncate (rq_attachments r),
     rq_thread = map_option (\<lambda>t. t\<lparr>th_inReplyTo :=
       (if th_inReplyTo t = Some [] then None else th_inReplyTo t)\<rparr>) (rq_thread r),
     rq_trace = rq_trace r\<rparr>"

definition request_fingerprint :: "msg_env \<Rightarrow> sent_request \<Rightarrow> string" where
  "request_fingerprint E r = me_hash E (stableJson (me_json E) (request_json (storedDeliveryRequest r)))"

definition delivery_id :: "msg_env \<Rightarrow> ident \<Rightarrow> string \<Rightarrow> ident" where
  "delivery_id E adapterId key =
     ''messaging-delivery:'' @ me_hash E (me_tenant E @ nul @ adapterId @ nul @ key)"

definition sensitive_key :: "string \<Rightarrow> bool" where
  "sensitive_key k = list_ex (contains (lowercase k)) [''body'', ''text'', ''content'', ''attachment'',
     ''credential'', ''secret'', ''password'', ''prompt'']"

text \<open>\<open>sanitizeEventMetadata\<close> and \<open>sanitizeEventValue\<close>: sensitive keys are dropped at every depth.\<close>
fun sanitizeEventValue :: "json \<Rightarrow> json" where
  "sanitizeEventValue (JArr xs) = JArr (map sanitizeEventValue xs)"
| "sanitizeEventValue (JObj kvs) = JObj (filter (\<lambda>(k, _). \<not> sensitive_key k)
     (map (\<lambda>(k, v). (k, sanitizeEventValue v)) kvs))"
| "sanitizeEventValue v = v"

definition sanitizeEventMetadata :: "(string \<times> json) list \<Rightarrow> (string \<times> json) list" where
  "sanitizeEventMetadata kvs = filter (\<lambda>(k, _). \<not> sensitive_key k)
     (map (\<lambda>(k, v). (k, sanitizeEventValue v)) kvs)"

subsection \<open>Events\<close>

definition appendEvent :: "msg_env \<Rightarrow> gateway_event \<Rightarrow> msg_store \<Rightarrow> unit msg_result" where
  "appendEvent E ev s =
    (if ge_tenantId ev \<noteq> me_tenant E then (Inl TenantMismatch, s)
     else if ge_id ev \<in> ge_id ` set (ms_events s) then (Inl (EventDuplicate (ge_id ev)), s)
     else (Inr (), s\<lparr>ms_events := ms_events s @
       [ev\<lparr>ge_reason := (case ge_reason ev of None \<Rightarrow> None | Some (Txt []) \<Rightarrow> None
              | Some r \<Rightarrow> Some (me_redact E r)),
           ge_metadata := sanitizeEventMetadata (ge_metadata ev)\<rparr>]\<rparr>))"

definition append_event ::
  "msg_env \<Rightarrow> string \<Rightarrow> ident \<Rightarrow> string \<Rightarrow> event_status \<Rightarrow> (string \<times> json) list \<Rightarrow> instant \<Rightarrow> msg_store
    \<Rightarrow> unit msg_result" where
  "append_event E i adapterId ty st meta t s = appendEvent E
     \<lparr>ge_id = i, ge_tenantId = me_tenant E, ge_adapterId = adapterId, ge_eventType = ty, ge_status = st,
      ge_actorId = None, ge_reason = None, ge_metadata = meta, ge_createdAt = t\<rparr> s"

subsection \<open>Deliveries\<close>

definition getDeliveryById :: "ident \<Rightarrow> msg_store \<Rightarrow> delivery_row option" where
  "getDeliveryById i s = find (\<lambda>d. dv_id d = i) (ms_deliveries s)"

definition requiredDelivery :: "ident \<Rightarrow> msg_store \<Rightarrow> delivery_row msg_result" where
  "requiredDelivery i s = (case getDeliveryById i s of
     None \<Rightarrow> (Inl (DeliveryMissing i), s) | Some d \<Rightarrow> (Inr d, s))"

text \<open>The result is the delivery with \<open>replayed\<close> (its negation is \<open>owner\<close>).  The primary key and the
  unique key of the table make a conflicting insert fail.\<close>
definition reserveDelivery :: "msg_env \<Rightarrow> sent_request \<Rightarrow> instant \<Rightarrow> msg_store \<Rightarrow> (delivery_row \<times> bool) msg_result"
where
  "reserveDelivery E r t s =
    (if rq_tenantId r \<noteq> me_tenant E then (Inl TenantMismatch, s)
     else let fp = request_fingerprint E r in
       case find (\<lambda>d. dv_adapterId d = rq_adapterId r \<and> dv_idempotencyKey d = rq_idempotencyKey r)
              (ms_deliveries s) of
         Some d \<Rightarrow> if dv_fingerprint d \<noteq> fp then (Inl (IdempotencyConflict (rq_idempotencyKey r)), s)
                   else (Inr (d, True), s)
       | None \<Rightarrow>
           let i = delivery_id E (rq_adapterId r) (rq_idempotencyKey r);
               d = \<lparr>dv_id = i, dv_adapterId = rq_adapterId r, dv_channel = rq_channel r,
                    dv_idempotencyKey = rq_idempotencyKey r, dv_fingerprint = fp,
                    dv_request = storedDeliveryRequest r, dv_status = DvPending, dv_attempts = 0,
                    dv_version = 1, dv_leaseOwner = None, dv_leaseToken = None,
                    dv_leaseExpiresAt = None, dv_dispatchStarted = False,
                    dv_providerMessageId = None, dv_acceptedAt = None, dv_nextAttemptAt = None,
                    dv_error = None, dv_receipt = None, dv_createdAt = t, dv_updatedAt = t,
                    dv_completedAt = None\<rparr>
           in if i \<in> dv_id ` set (ms_deliveries s) then (Inl (DeliveryDuplicate i), s)
              else (Inr (d, False), s\<lparr>ms_deliveries := ms_deliveries s @ [d]\<rparr>))"

text \<open>The optimistic update all delivery writes share: exactly one row with the id, the expected
  version and one of the statuses, else a version conflict.\<close>
definition update_delivery ::
  "ident \<Rightarrow> nat \<Rightarrow> delivery_status set \<Rightarrow> (delivery_row \<Rightarrow> delivery_row) \<Rightarrow> msg_store \<Rightarrow> delivery_row msg_result"
where
  "update_delivery i v sts f s =
    (let p = (\<lambda>d. dv_id d = i \<and> dv_version d = v \<and> dv_status d \<in> sts)
     in if changes p (ms_deliveries s) \<noteq> 1 then (Inl (DeliveryVersionConflict i v), s)
        else requiredDelivery i (s\<lparr>ms_deliveries :=
               upd_where p (\<lambda>d. f d\<lparr>dv_version := dv_version d + 1\<rparr>) (ms_deliveries s)\<rparr>))"

definition markDeliverySending :: "msg_env \<Rightarrow> ident \<Rightarrow> nat \<Rightarrow> instant \<Rightarrow> msg_store \<Rightarrow> delivery_row msg_result" where
  "markDeliverySending E i v t = update_delivery i v {DvPending, DvRetryWait, DvFailed} (\<lambda>d.
     d\<lparr>dv_status := DvSending, dv_attempts := dv_attempts d + 1,
       dv_leaseOwner := Some (''gateway:'' @ me_pid E), dv_leaseToken := Some (i @ '':'' @ nat_str v),
       dv_leaseExpiresAt := Some (t + 180000), dv_dispatchStarted := True, dv_nextAttemptAt := None,
       dv_error := None, dv_updatedAt := t\<rparr>)"

definition completeDelivery ::
  "ident \<Rightarrow> nat \<Rightarrow> string \<Rightarrow> instant \<Rightarrow> instant \<Rightarrow> msg_store \<Rightarrow> delivery_row msg_result" where
  "completeDelivery i v pmid acceptedAt t = update_delivery i v {DvSending} (\<lambda>d.
     d\<lparr>dv_status := DvAccepted, dv_dispatchStarted := True, dv_providerMessageId := Some pmid,
       dv_acceptedAt := Some acceptedAt, dv_receipt := Some (Accepted pmid acceptedAt),
       dv_completedAt := Some t, dv_error := None, dv_nextAttemptAt := None, dv_updatedAt := t\<rparr>)"

text \<open>The status is decided on the attempts of the row as read, which throws when there is none.\<close>
definition failDelivery ::
  "msg_env \<Rightarrow> ident \<Rightarrow> nat \<Rightarrow> failure_kind \<Rightarrow> msg_text \<Rightarrow> instant \<Rightarrow> msg_store \<Rightarrow> delivery_row msg_result" where
  "failDelivery E i v kind err t s =
    (let err = me_redact E err in
     if kind = RetryableBeforeDispatch \<and> getDeliveryById i s = None then (Inl (DeliveryMissing i), s)
     else let st = (case kind of UnknownAfterDispatch \<Rightarrow> DvUnknown
            | FailedBeforeDispatch \<Rightarrow> DvFailed
            | RetryableBeforeDispatch \<Rightarrow>
                if dv_attempts (the (getDeliveryById i s)) < 3 then DvRetryWait else DvFailed)
       in update_delivery i v {DvSending} (\<lambda>d.
            d\<lparr>dv_status := st, dv_dispatchStarted := (kind = UnknownAfterDispatch),
              dv_nextAttemptAt := (if st = DvRetryWait then Some (t + 30000) else None),
              dv_error := Some err, dv_receipt := Some (Failure kind err),
              dv_completedAt := (if st = DvRetryWait then None else Some t), dv_updatedAt := t\<rparr>) s)"

definition failDeliveryBeforeDispatch ::
  "msg_env \<Rightarrow> ident \<Rightarrow> nat \<Rightarrow> msg_text \<Rightarrow> instant \<Rightarrow> msg_store \<Rightarrow> delivery_row msg_result" where
  "failDeliveryBeforeDispatch E i v err t = (let err = me_redact E err in
     update_delivery i v {DvPending, DvRetryWait} (\<lambda>d.
       d\<lparr>dv_status := DvFailed, dv_dispatchStarted := False, dv_nextAttemptAt := None,
         dv_error := Some err, dv_receipt := Some (Failure FailedBeforeDispatch err),
         dv_completedAt := Some t, dv_updatedAt := t\<rparr>))"

definition delivery_expired :: "instant \<Rightarrow> delivery_row \<Rightarrow> bool" where
  "delivery_expired t d \<longleftrightarrow> dv_status d = DvSending \<and>
     (case dv_leaseExpiresAt d of Some e \<Rightarrow> e \<le> t | None \<Rightarrow> dv_updatedAt d \<le> t - 180000)"

definition recover_row :: "instant \<Rightarrow> delivery_row \<Rightarrow> delivery_row" where
  "recover_row t d = d\<lparr>dv_status := DvUnknown, dv_dispatchStarted := True, dv_error := Some TxtLeaseLost,
     dv_completedAt := Some t, dv_updatedAt := t, dv_version := dv_version d + 1,
     dv_leaseOwner := None, dv_leaseToken := None, dv_leaseExpiresAt := None\<rparr>"

definition recover_event :: "msg_env \<Rightarrow> instant \<Rightarrow> delivery_row \<Rightarrow> unit \<Rightarrow> msg_store \<Rightarrow> unit msg_result" where
  "recover_event E t d _ s = append_event E (''recovered:'' @ dv_id d @ '':'' @ nat_str (dv_version d + 1))
     (dv_adapterId d) ''delivery_recovered_unknown'' (EsDelivery DvUnknown)
     [(''deliveryId'', JStr (dv_id d))] t s"

definition recoverExpiredDeliveries :: "msg_env \<Rightarrow> instant \<Rightarrow> msg_store \<Rightarrow> unit msg_result" where
  "recoverExpiredDeliveries E t s =
    (let rows = filter (delivery_expired t) (ms_deliveries s);
         s1 = s\<lparr>ms_deliveries := upd_where (delivery_expired t) (recover_row t) (ms_deliveries s)\<rparr>
     in savepoint s (foldl (\<lambda>r d. bind r (recover_event E t d)) (Inr (), s1) rows))"

subsection \<open>Inbound messages\<close>

definition ib_id :: "inbound_row \<Rightarrow> ident" where "ib_id r = env_id (ib_envelope r)"

definition getInboundById :: "ident \<Rightarrow> msg_store \<Rightarrow> inbound_row option" where
  "getInboundById i s = find (\<lambda>r. ib_id r = i) (ms_inbound s)"

definition requiredInbound :: "ident \<Rightarrow> msg_store \<Rightarrow> inbound_row msg_result" where
  "requiredInbound i s = (case getInboundById i s of None \<Rightarrow> (Inl (InboundMissing i), s) | Some r \<Rightarrow> (Inr r, s))"

text \<open>The payloads stored for the descriptors of an envelope, in the envelope's order.\<close>
definition inbound_payloads :: "inbound_envelope \<Rightarrow> msg_store \<Rightarrow> attachment_payload list" where
  "inbound_payloads env s = concat (map (\<lambda>d.
     case find (\<lambda>a. ar_inboundId a = env_id env \<and> att_id (ar_payload a) = att_id d) (ms_attachments s) of
       None \<Rightarrow> [] | Some a \<Rightarrow> [ar_payload a]) (env_attachments env))"

definition receiveEnvelope :: "msg_env \<Rightarrow> inbound_envelope \<Rightarrow> msg_store \<Rightarrow> (ident \<times> bool) msg_result" where
  "receiveEnvelope E env s =
    (if env_tenantId env \<noteq> me_tenant E then (Inl TenantMismatch, s)
     else case find (\<lambda>r. env_channel (ib_envelope r) = env_channel env \<and>
                 env_adapterId (ib_envelope r) = env_adapterId env \<and>
                 env_providerMessageId (ib_envelope r) = env_providerMessageId env) (ms_inbound s) of
       Some r \<Rightarrow>
         if env_rawFingerprint (ib_envelope r) \<noteq> env_rawFingerprint env
         then (Inl (InboundIdentityConflict (env_providerMessageId env)), s)
         else (Inr (ib_id r, True), s)
     | None \<Rightarrow>
         if env_id env \<in> ib_id ` set (ms_inbound s) then (Inl (InboundDuplicate (env_id env)), s)
         else (Inr (env_id env, False), s\<lparr>ms_inbound := ms_inbound s @
           [\<lparr>ib_envelope = env, ib_status = InReceived, ib_attempts = 0, ib_version = 1,
             ib_leaseOwner = None, ib_leaseToken = None, ib_leaseExpiresAt = None,
             ib_outcomeCode = None, ib_error = None, ib_processedAt = None,
             ib_createdAt = env_receivedAt env, ib_updatedAt = env_receivedAt env\<rparr>]\<rparr>))"

text \<open>One turn of the attachment loop: the bytes given for a descriptor must match its size and
  digest; a row already there is kept (\<open>INSERT OR IGNORE\<close>).\<close>
definition store_attachment ::
  "msg_env \<Rightarrow> attachment_payload list \<Rightarrow> ident \<Rightarrow> attachment_descriptor \<Rightarrow> unit \<Rightarrow> msg_store \<Rightarrow> unit msg_result"
where
  "store_attachment E given i d _ s =
    (case find (\<lambda>a. att_id a = att_id d) given of
       None \<Rightarrow> (Inr (), s)
     | Some a \<Rightarrow>
         if int (length (att_content a)) \<noteq> att_sizeBytes d \<or> me_hash E (att_content a) \<noteq> att_sha256 d
         then (Inl (AttachmentMismatch (att_id d)), s)
         else if \<exists>x\<in>set (ms_attachments s). ar_inboundId x = i \<and> att_id (ar_payload x) = att_id d
         then (Inr (), s)
         else (Inr (), s\<lparr>ms_attachments := ms_attachments s @
           [\<lparr>ar_inboundId = i, ar_payload = attachment_descriptor.extend d
               (attachment_payload.fields (att_content a))\<rparr>]\<rparr>))"

definition receive :: "msg_env \<Rightarrow> inbound_envelope \<Rightarrow> attachment_payload list \<Rightarrow> msg_store
    \<Rightarrow> (inbound_row \<times> bool) msg_result" where
  "receive E env given s = savepoint s
    (bind (receiveEnvelope E env s) (\<lambda>got s1.
     bind (foldl (\<lambda>r d. bind r (store_attachment E given (fst got) d)) (Inr (), s1) (env_attachments env)) (\<lambda>_ s2.
     bind (requiredInbound (fst got) s2) (\<lambda>r s3.
       if length (inbound_payloads (ib_envelope r) s3) \<noteq> length (env_attachments env)
       then (Inl AttachmentsNotPersisted, s3)
       else (Inr (r, snd got), s3)))))"

definition clamp :: "int \<Rightarrow> int \<Rightarrow> int \<Rightarrow> nat" where
  "clamp lo hi n = nat (max lo (min hi n))"

definition listInbound :: "inbound_status option \<Rightarrow> int option \<Rightarrow> msg_store \<Rightarrow> inbound_row list" where
  "listInbound st limit s = take (clamp 1 500 (case limit of None \<Rightarrow> 100 | Some n \<Rightarrow> n))
     (sort_key (\<lambda>r. env_receivedAt (ib_envelope r)) (sort_key ib_id
       (filter (\<lambda>r. case st of None \<Rightarrow> True | Some x \<Rightarrow> ib_status r = x) (ms_inbound s))))"

definition inbound_claimable :: "instant \<Rightarrow> inbound_row \<Rightarrow> bool" where
  "inbound_claimable t r \<longleftrightarrow> ib_status r = InReceived \<or> ib_status r = InFailed \<or>
     (ib_status r = InDispatching \<and> (case ib_leaseExpiresAt r of None \<Rightarrow> False | Some e \<Rightarrow> e \<le> t))"

definition inbound_token :: "msg_env \<Rightarrow> string \<Rightarrow> instant \<Rightarrow> inbound_row \<Rightarrow> string" where
  "inbound_token E worker t r = me_hash E (me_tenant E @ nul @ ib_id r @ nul @ worker @ nul @ me_iso E t
     @ nul @ nat_str (ib_version r))"

definition inbound_lease_row :: "msg_env \<Rightarrow> string \<Rightarrow> int \<Rightarrow> instant \<Rightarrow> inbound_row \<Rightarrow> inbound_row" where
  "inbound_lease_row E worker leaseMs t r =
     r\<lparr>ib_status := InDispatching, ib_attempts := ib_attempts r + 1, ib_version := ib_version r + 1,
       ib_leaseOwner := Some worker, ib_leaseToken := Some (inbound_token E worker t r),
       ib_leaseExpiresAt := Some (t + leaseMs), ib_error := None, ib_updatedAt := t\<rparr>"

text \<open>The guarded update of one candidate, shared by the two claiming operations: it repeats the
  claimability test on the row as it is now.\<close>
definition claim_candidate ::
  "msg_env \<Rightarrow> string \<Rightarrow> int \<Rightarrow> instant \<Rightarrow> ident \<Rightarrow> nat \<Rightarrow> msg_store \<Rightarrow> inbound_row option \<times> msg_store" where
  "claim_candidate E worker leaseMs t i v s =
    (let p = (\<lambda>r. ib_id r = i \<and> ib_version r = v \<and> inbound_claimable t r);
         s1 = s\<lparr>ms_inbound := upd_where p (inbound_lease_row E worker leaseMs t) (ms_inbound s)\<rparr>
     in if changes p (ms_inbound s) = 1 then (getInboundById i s1, s1) else (None, s1))"

text \<open>\<open>ORDER BY received_at, id\<close>: a stable sort by the id and then by the time.\<close>
definition inbound_candidates :: "int \<Rightarrow> instant \<Rightarrow> msg_store \<Rightarrow> inbound_row list" where
  "inbound_candidates limit t s = take (clamp 1 100 limit)
     (sort_key (\<lambda>r. env_receivedAt (ib_envelope r)) (sort_key ib_id
        (filter (inbound_claimable t) (ms_inbound s))))"

definition claim_guard :: "string \<Rightarrow> int \<Rightarrow> msg_fault option" where
  "claim_guard worker leaseMs = (if trim worker = [] then Some WorkerEmpty
     else if leaseMs \<le> 0 then Some LeaseNotPositive else None)"

definition claimInbound ::
  "msg_env \<Rightarrow> int \<Rightarrow> string \<Rightarrow> int \<Rightarrow> instant \<Rightarrow> msg_store \<Rightarrow> inbound_row list msg_result" where
  "claimInbound E limit worker leaseMs t s =
    (case claim_guard worker leaseMs of
       Some e \<Rightarrow> (Inl e, s)
     | None \<Rightarrow>
         (case foldl (\<lambda>(claimed, s) c. case claim_candidate E worker leaseMs t (ib_id c) (ib_version c) s of
                  (Some r, s') \<Rightarrow> (claimed @ [r], s') | (None, s') \<Rightarrow> (claimed, s'))
                ([], s) (inbound_candidates limit t s) of
            (claimed, s') \<Rightarrow> (Inr claimed, s')))"

definition claimInboundById ::
  "msg_env \<Rightarrow> ident \<Rightarrow> string \<Rightarrow> int \<Rightarrow> instant \<Rightarrow> msg_store \<Rightarrow> inbound_row option msg_result" where
  "claimInboundById E i worker leaseMs t s =
    (case claim_guard worker leaseMs of
       Some e \<Rightarrow> (Inl e, s)
     | None \<Rightarrow>
         (case getInboundById i s of
            None \<Rightarrow> (Inr None, s)
          | Some r \<Rightarrow>
              if \<not> inbound_claimable t r then (Inr None, s)
              else (case claim_candidate E worker leaseMs t i (ib_version r) s of
                 (res, s') \<Rightarrow> (Inr res, s'))))"

definition pendingInboundIds :: "int \<Rightarrow> instant \<Rightarrow> msg_store \<Rightarrow> ident list" where
  "pendingInboundIds limit t s = map ib_id (inbound_candidates limit t s)"

text \<open>How a lease ends: processed or rejected with an outcome code, or failed with an error.\<close>
datatype inbound_finish = FinProcessed string | FinRejected string | FinFailed msg_text

definition finish_row :: "msg_env \<Rightarrow> inbound_finish \<Rightarrow> instant \<Rightarrow> inbound_row \<Rightarrow> inbound_row" where
  "finish_row E f t r =
    (let r1 = r\<lparr>ib_leaseOwner := None, ib_leaseToken := None, ib_leaseExpiresAt := None,
                ib_version := ib_version r + 1, ib_updatedAt := t\<rparr>
     in case f of
       FinProcessed code \<Rightarrow> r1\<lparr>ib_status := InProcessed, ib_outcomeCode := Some code,
         ib_processedAt := Some t, ib_error := None\<rparr>
     | FinRejected code \<Rightarrow> r1\<lparr>ib_status := InRejected, ib_outcomeCode := Some code,
         ib_processedAt := Some t, ib_error := None\<rparr>
     | FinFailed err \<Rightarrow> r1\<lparr>ib_status := InFailed, ib_error := Some (me_redact E err)\<rparr>)"

definition holds_lease :: "nat \<Rightarrow> string option \<Rightarrow> instant \<Rightarrow> inbound_row \<Rightarrow> bool" where
  "holds_lease v tok t r \<longleftrightarrow> ib_status r = InDispatching \<and> ib_version r = v \<and>
     tok \<noteq> None \<and> ib_leaseToken r = tok \<and> (case ib_leaseExpiresAt r of None \<Rightarrow> False | Some e \<Rightarrow> t < e)"

fun inbound_status_name :: "inbound_status \<Rightarrow> string" where
  "inbound_status_name InReceived = ''received''" | "inbound_status_name InDispatching = ''dispatching''"
| "inbound_status_name InProcessed = ''processed''" | "inbound_status_name InRejected = ''rejected''"
| "inbound_status_name InFailed = ''failed''"

definition appendInboundCompletionEvent :: "msg_env \<Rightarrow> inbound_row \<Rightarrow> instant \<Rightarrow> msg_store \<Rightarrow> unit msg_result" where
  "appendInboundCompletionEvent E r t = append_event E
     (''inbound-completed:'' @ ib_id r @ '':'' @ nat_str (ib_version r)) (env_adapterId (ib_envelope r))
     (''inbound_domain_'' @ inbound_status_name (ib_status r)) (EsInbound (ib_status r))
     [(''inboundId'', JStr (ib_id r))] t"

text \<open>\<open>completeInbound\<close> and \<open>failInbound\<close>: both end the lease under the same guard.\<close>
definition finishInbound ::
  "msg_env \<Rightarrow> ident \<Rightarrow> inbound_finish \<Rightarrow> instant \<Rightarrow> nat \<Rightarrow> string option \<Rightarrow> msg_store \<Rightarrow> inbound_row msg_result"
where
  "finishInbound E i f t v tok s = savepoint s
    (let p = (\<lambda>r. ib_id r = i \<and> holds_lease v tok t r);
         s1 = s\<lparr>ms_inbound := upd_where p (finish_row E f t) (ms_inbound s)\<rparr>
     in if changes p (ms_inbound s) \<noteq> 1 then (Inl (InboundStateConflict i), s1)
        else bind (requiredInbound i s1) (\<lambda>r s2.
             bind (appendInboundCompletionEvent E r t s2) (\<lambda>_ s3. (Inr r, s3))))"

definition renewInboundLease :: "inbound_row \<Rightarrow> instant \<Rightarrow> int \<Rightarrow> msg_store \<Rightarrow> bool \<times> msg_store" where
  "renewInboundLease m t leaseMs s =
    (let p = (\<lambda>r. ib_id r = ib_id m \<and> holds_lease (ib_version m) (ib_leaseToken m) t r)
     in (changes p (ms_inbound s) = 1,
         s\<lparr>ms_inbound := upd_where p (\<lambda>r. r\<lparr>ib_leaseExpiresAt := Some (t + leaseMs)\<rparr>) (ms_inbound s)\<rparr>))"

subsection \<open>Adapter states\<close>

definition getAdapterState :: "ident \<Rightarrow> msg_store \<Rightarrow> adapter_state option" where
  "getAdapterState i s = find (\<lambda>a. ad_adapterId a = i) (ms_adapters s)"

definition requiredAdapterState :: "ident \<Rightarrow> msg_store \<Rightarrow> adapter_state msg_result" where
  "requiredAdapterState i s = (case getAdapterState i s of None \<Rightarrow> (Inl (AdapterMissing i), s) | Some a \<Rightarrow> (Inr a, s))"

definition writeAdapterState ::
  "msg_env \<Rightarrow> adapter_state \<Rightarrow> nat option \<Rightarrow> msg_store \<Rightarrow> adapter_state msg_result" where
  "writeAdapterState E st expected s =
    (if ad_tenantId st \<noteq> me_tenant E then (Inl TenantMismatch, s)
     else case getAdapterState (ad_adapterId st) s of
       None \<Rightarrow>
         if expected \<noteq> None then (Inl (AdapterVersionConflict (ad_adapterId st) expected), s)
         else requiredAdapterState (ad_adapterId st)
                (s\<lparr>ms_adapters := ms_adapters s @ [st\<lparr>ad_version := 1\<rparr>]\<rparr>)
     | Some existing \<Rightarrow>
         if expected \<noteq> Some (ad_version existing)
         then (Inl (AdapterVersionConflict (ad_adapterId st) expected), s)
         else requiredAdapterState (ad_adapterId st)
                (s\<lparr>ms_adapters := upd_where
                    (\<lambda>a. ad_adapterId a = ad_adapterId st \<and> ad_version a = ad_version existing)
                    (\<lambda>a. st\<lparr>ad_version := ad_version a + 1, ad_createdAt := ad_createdAt a\<rparr>)
                    (ms_adapters s)\<rparr>))"

definition redact_opt :: "msg_env \<Rightarrow> msg_text option \<Rightarrow> msg_text option" where
  "redact_opt E x = (case x of None \<Rightarrow> None | Some (Txt []) \<Rightarrow> Some (Txt []) | Some y \<Rightarrow> Some (me_redact E y))"

definition adapter_event_type :: "adapter_state option \<Rightarrow> adapter_state \<Rightarrow> string option" where
  "adapter_event_type previous saved =
    (case previous of
       None \<Rightarrow> Some ''adapter_registered''
     | Some p \<Rightarrow>
         if ad_status saved = AdPausedByBreaker \<and> ad_status p \<noteq> AdPausedByBreaker
         then Some ''adapter_breaker_opened''
         else if ad_startedAt p \<noteq> ad_startedAt saved then Some ''adapter_started''
         else if ad_status p \<noteq> ad_status saved \<or> ad_lastHealthAt p \<noteq> ad_lastHealthAt saved
         then Some ''adapter_health_changed'' else None)"

definition saveAdapterState ::
  "msg_env \<Rightarrow> adapter_state \<Rightarrow> nat option \<Rightarrow> msg_store \<Rightarrow> adapter_state msg_result" where
  "saveAdapterState E st expected s = savepoint s
    (let previous = getAdapterState (ad_adapterId st) s
     in bind (writeAdapterState E (st\<lparr>ad_lastError := redact_opt E (ad_lastError st),
                ad_pauseReason := redact_opt E (ad_pauseReason st)\<rparr>) expected s) (\<lambda>saved s1.
        case adapter_event_type previous saved of
          None \<Rightarrow> (Inr saved, s1)
        | Some ty \<Rightarrow> bind (append_event E
            (''adapter:'' @ ad_adapterId saved @ '':'' @ nat_str (ad_version saved) @ '':'' @ ty)
            (ad_adapterId saved) ty (EsAdapter (ad_status saved))
            [(''adapterVersion'', JNum (jint (int (ad_version saved))))] (ad_updatedAt saved) s1)
            (\<lambda>_ s2. (Inr saved, s2))))"

subsection \<open>Frames\<close>

lemma bind_simps [simp]: "bind (Inl e, s) f = (Inl e, s)" "bind (Inr a, s) f = f a s"
  by (simp_all add: bind_def)

lemma savepoint_simps [simp]: "savepoint s (Inl e, s') = (Inl e, s)" "savepoint s (Inr a, s') = (Inr a, s')"
  by (simp_all add: savepoint_def)

text \<open>A predicate on stores that events, adapter states and the like do not disturb.\<close>
lemma bind_store:
  assumes "P (snd r)" "\<And>a s. P s \<Longrightarrow> P (snd (f a s))"
  shows "P (snd (bind r f))"
  using assms by (cases r; cases "fst r") (auto simp: bind_def split: sum.splits)

lemma savepoint_store: "P s \<Longrightarrow> P (snd r) \<Longrightarrow> P (snd (savepoint s r))"
  by (cases r; cases "fst r") auto

lemma appendEvent_frame [simp]:
  "ms_deliveries (snd (appendEvent E ev s)) = ms_deliveries s"
  "ms_inbound (snd (appendEvent E ev s)) = ms_inbound s"
  "ms_adapters (snd (appendEvent E ev s)) = ms_adapters s"
  "ms_attachments (snd (appendEvent E ev s)) = ms_attachments s"
  by (simp_all add: appendEvent_def)

lemma append_event_frame [simp]:
  "ms_deliveries (snd (append_event E i a ty st m t s)) = ms_deliveries s"
  "ms_inbound (snd (append_event E i a ty st m t s)) = ms_inbound s"
  "ms_adapters (snd (append_event E i a ty st m t s)) = ms_adapters s"
  "ms_attachments (snd (append_event E i a ty st m t s)) = ms_attachments s"
  by (simp_all add: append_event_def)

lemma requiredDelivery_snd [simp]: "snd (requiredDelivery i s) = s"
  by (simp add: requiredDelivery_def split: option.splits)

lemma requiredInbound_snd [simp]: "snd (requiredInbound i s) = s"
  by (simp add: requiredInbound_def split: option.splits)

lemma requiredAdapterState_snd [simp]: "snd (requiredAdapterState i s) = s"
  by (simp add: requiredAdapterState_def split: option.splits)

lemma writeAdapterState_frame [simp]:
  "ms_deliveries (snd (writeAdapterState E st v s)) = ms_deliveries s"
  "ms_inbound (snd (writeAdapterState E st v s)) = ms_inbound s"
  by (simp_all add: writeAdapterState_def split: option.splits)

lemma saveAdapterState_frame [simp]:
  "ms_deliveries (snd (saveAdapterState E st v s)) = ms_deliveries s"
  "ms_inbound (snd (saveAdapterState E st v s)) = ms_inbound s"
  unfolding saveAdapterState_def Let_def
  by (rule savepoint_store[where P = "\<lambda>x. ms_deliveries x = ms_deliveries s"], simp,
      rule bind_store, simp, simp split: option.splits, rule allI impI, rule bind_store, simp+)
     (rule savepoint_store[where P = "\<lambda>x. ms_inbound x = ms_inbound s"], simp,
      rule bind_store, simp, simp split: option.splits, rule allI impI, rule bind_store, simp+)

subsection \<open>Inbound messages as a queue with leases\<close>

definition inbound_holder :: "inbound_row \<Rightarrow> string option" where
  "inbound_holder r = (if ib_status r = InDispatching then ib_leaseToken r else None)"

definition inbound_claim :: "msg_env \<times> string \<times> int \<Rightarrow> instant \<Rightarrow> inbound_row \<Rightarrow> inbound_row option" where
  "inbound_claim c t r = (case c of (E, worker, leaseMs) \<Rightarrow>
     if inbound_claimable t r then Some (inbound_lease_row E worker leaseMs t r) else None)"

definition inbound_finish :: "msg_env \<times> inbound_finish \<times> nat \<Rightarrow> instant \<Rightarrow> string \<Rightarrow> inbound_row \<Rightarrow> inbound_row option" where
  "inbound_finish c t tok r = (case c of (E, f, v) \<Rightarrow>
     if holds_lease v (Some tok) t r then Some (finish_row E f t r) else None)"

definition inbound_newtok :: "msg_env \<times> string \<times> int \<Rightarrow> instant \<Rightarrow> inbound_row \<Rightarrow> string" where
  "inbound_newtok c t r = (case c of (E, worker, leaseMs) \<Rightarrow> inbound_token E worker t r)"

definition inbound_ends :: "msg_env \<times> string \<times> int \<Rightarrow> instant \<Rightarrow> instant" where
  "inbound_ends c t = (case c of (E, worker, leaseMs) \<Rightarrow> t + leaseMs)"

interpretation inbound_queue: lease_queue inbound_holder ib_leaseExpiresAt inbound_claim inbound_finish
  inbound_newtok inbound_ends
  by unfold_locales
    (auto simp: inbound_holder_def inbound_claim_def inbound_finish_def inbound_newtok_def inbound_ends_def
      inbound_claimable_def inbound_lease_row_def finish_row_def holds_lease_def Let_def
      split: if_splits option.splits inbound_finish.splits prod.splits)

text \<open>The operations of any number of workers on the inbound table.\<close>
datatype inbound_op =
    OpClaimMany int string int instant
  | OpClaimId ident string int instant
  | OpFinish ident inbound_finish instant nat "string option"
  | OpRenew inbound_row instant int
  | OpReceive inbound_envelope "attachment_payload list"

fun inbound_exec :: "msg_env \<Rightarrow> inbound_op \<Rightarrow> msg_store \<Rightarrow> msg_store" where
  "inbound_exec E (OpClaimMany limit w l t) s = snd (claimInbound E limit w l t s)"
| "inbound_exec E (OpClaimId i w l t) s = snd (claimInboundById E i w l t s)"
| "inbound_exec E (OpFinish i f t v tok) s = snd (finishInbound E i f t v tok s)"
| "inbound_exec E (OpRenew m t l) s = snd (renewInboundLease m t l s)"
| "inbound_exec E (OpReceive env given) s = snd (receive E env given s)"

text \<open>An operation that neither comes after \<open>e\<close> nor shows the token \<open>tok\<close>.\<close>
fun outsider :: "string \<Rightarrow> instant \<Rightarrow> inbound_op \<Rightarrow> bool" where
  "outsider tok e (OpClaimMany limit w l t) = (t < e)"
| "outsider tok e (OpClaimId i w l t) = (t < e)"
| "outsider tok e (OpFinish i f t v tok') = (t < e \<and> tok' \<noteq> Some tok)"
| "outsider tok e (OpRenew m t l) = (ib_leaseToken m \<noteq> Some tok)"
| "outsider tok e (OpReceive env given) = True"

lemma ib_id_frames [simp]:
  "ib_id (inbound_lease_row E w l t r) = ib_id r" "ib_id (finish_row E f t r) = ib_id r"
  "ib_id (r\<lparr>ib_leaseExpiresAt := x\<rparr>) = ib_id r"
  by (auto simp: ib_id_def inbound_lease_row_def finish_row_def Let_def split: inbound_finish.splits)

lemma get_claim_candidate:
  "getInboundById i (snd (claim_candidate E w l t j v s)) = map_option (\<lambda>r.
     if ib_id r = j \<and> ib_version r = v \<and> inbound_claimable t r then inbound_lease_row E w l t r else r)
     (getInboundById i s)"
  by (simp add: claim_candidate_def getInboundById_def Let_def find_upd_where)

text \<open>What an operation does to one row is a sequence of claims and finishes at its time.\<close>
definition row_effect :: "instant \<Rightarrow> string option set \<Rightarrow> ident \<Rightarrow> msg_store \<Rightarrow> msg_store \<Rightarrow> bool" where
  "row_effect t toks i s s' \<longleftrightarrow> (\<exists>as. (\<forall>a\<in>set as. op_time a = t \<and>
       (\<forall>f t' tok. a = Finish f t' tok \<longrightarrow> Some tok \<in> toks)) \<and>
     getInboundById i s' = map_option (\<lambda>r. fst (inbound_queue.drive as r)) (getInboundById i s))"

lemma row_effect_refl: "getInboundById i s' = getInboundById i s \<Longrightarrow> row_effect t toks i s s'"
  by (auto simp: row_effect_def intro!: exI[of _ "[]"] option.map_ident[symmetric])

lemma row_effect_trans:
  "row_effect t toks i s s1 \<Longrightarrow> row_effect t toks i s1 s2 \<Longrightarrow> row_effect t toks i s s2"
  unfolding row_effect_def
  by (elim exE conjE, rule_tac x = "as @ asa" in exI)
    (auto simp: inbound_queue.drive_append option.map_comp comp_def)

lemma claim_candidate_effect: "row_effect t toks i s (snd (claim_candidate E w l t j v s))"
proof (cases "getInboundById i s")
  case None
  then show ?thesis by (intro row_effect_refl) (simp add: get_claim_candidate)
next
  case (Some r)
  show ?thesis
  proof (cases "ib_id r = j \<and> ib_version r = v \<and> inbound_claimable t r")
    case True
    then have "fst (inbound_queue.drive [Claim (E, w, l) t] r) = inbound_lease_row E w l t r"
      by (simp add: inbound_queue.attempt_def inbound_claim_def)
    then show ?thesis using True Some unfolding row_effect_def
      by (intro exI[of _ "[Claim (E, w, l) t]"]) (simp add: get_claim_candidate)
  next
    case False
    with Some show ?thesis by (intro row_effect_refl) (auto simp: get_claim_candidate)
  qed
qed

definition claim_turn :: "msg_env \<Rightarrow> string \<Rightarrow> int \<Rightarrow> instant \<Rightarrow> inbound_row list \<times> msg_store \<Rightarrow> inbound_row
    \<Rightarrow> inbound_row list \<times> msg_store" where
  "claim_turn E w l t acc c = (case claim_candidate E w l t (ib_id c) (ib_version c) (snd acc) of
     (Some r, s') \<Rightarrow> (fst acc @ [r], s') | (None, s') \<Rightarrow> (fst acc, s'))"

lemma claimInbound_snd:
  "snd (claimInbound E limit w l t s) = (case claim_guard w l of Some e \<Rightarrow> s
     | None \<Rightarrow> snd (foldl (claim_turn E w l t) ([], s) (inbound_candidates limit t s)))"
proof -
  have turn: "(\<lambda>(claimed, s) c. case claim_candidate E w l t (ib_id c) (ib_version c) s of
      (Some r, s') \<Rightarrow> (claimed @ [r], s') | (None, s') \<Rightarrow> (claimed, s')) = claim_turn E w l t"
    by (auto simp: fun_eq_iff claim_turn_def split: prod.split option.split)
  show ?thesis by (simp add: claimInbound_def turn split: option.split prod.split)
qed

lemma snd_claim_turn:
  "snd (claim_turn E w l t acc c) = snd (claim_candidate E w l t (ib_id c) (ib_version c) (snd acc))"
  by (simp add: claim_turn_def split: prod.split option.split)

lemma claimInbound_effect: "row_effect t toks i s (snd (claimInbound E limit w l t s))"
proof -
  have "row_effect t toks i (snd acc) (snd (foldl (claim_turn E w l t) acc cs))" for acc cs
  proof (induction cs arbitrary: acc)
    case (Cons c cs)
    have "row_effect t toks i (snd acc) (snd (claim_turn E w l t acc c))"
      by (simp add: snd_claim_turn claim_candidate_effect)
    from row_effect_trans[OF this Cons.IH] show ?case by simp
  qed (simp add: row_effect_refl)
  from this[of "([], s)"] show ?thesis
    by (simp add: claimInbound_snd row_effect_refl split: option.split)
qed

lemma claimInboundById_effect: "row_effect t toks i s (snd (claimInboundById E j w l t s))"
  by (simp add: claimInboundById_def row_effect_refl claim_candidate_effect case_prod_unfold split: option.split)

text \<open>A savepoint either keeps the whole effect or none of it.\<close>
lemma savepoint_effect:
  "row_effect t toks i s (snd r) \<Longrightarrow> row_effect t toks i s (snd (savepoint s r))"
  by (rule savepoint_store) (simp_all add: row_effect_refl)

lemma finishInbound_effect:
  assumes "tok \<in> toks"
  shows "row_effect t toks i s (snd (finishInbound E j f t v tok s))"
  unfolding finishInbound_def Let_def
proof (rule savepoint_effect)
  let ?p = "\<lambda>r. ib_id r = j \<and> holds_lease v tok t r"
  let ?s1 = "s\<lparr>ms_inbound := upd_where ?p (finish_row E f t) (ms_inbound s)\<rparr>"
  have get: "getInboundById i ?s1 = map_option (\<lambda>r. if ?p r then finish_row E f t r else r) (getInboundById i s)"
    by (simp add: getInboundById_def find_upd_where)
  have "row_effect t toks i s ?s1"
  proof (cases "\<exists>r. getInboundById i s = Some r \<and> ?p r")
    case True
    then obtain r k where r: "getInboundById i s = Some r" "?p r" "tok = Some k"
      by (auto simp: holds_lease_def)
    then have "fst (inbound_queue.drive [Finish (E, f, v) t k] r) = finish_row E f t r"
      by (simp add: inbound_queue.attempt_def inbound_finish_def)
    then show ?thesis using r get assms unfolding row_effect_def
      by (intro exI[of _ "[Finish (E, f, v) t k]"]) simp
  next
    case False
    then have "getInboundById i ?s1 = getInboundById i s" by (cases "getInboundById i s") (auto simp: get)
    then show ?thesis by (rule row_effect_refl)
  qed
  moreover have "getInboundById i (snd (bind (requiredInbound j ?s1) (\<lambda>r s2.
      bind (appendInboundCompletionEvent E r t s2) (\<lambda>_ s3. (Inr r, s3))))) = getInboundById i ?s1"
    by (rule bind_store[where P = "\<lambda>x. getInboundById i x = getInboundById i ?s1"], simp,
        rule bind_store, simp add: getInboundById_def appendInboundCompletionEvent_def, simp)
  ultimately show "row_effect t toks i s (snd (if changes ?p (ms_inbound s) \<noteq> 1 then (Inl (InboundStateConflict j), ?s1)
      else bind (requiredInbound j ?s1) (\<lambda>r s2.
        bind (appendInboundCompletionEvent E r t s2) (\<lambda>_ s3. (Inr r, s3)))))"
    by (simp add: row_effect_def)
qed

lemma get_append: "getInboundById i s = Some r \<Longrightarrow> getInboundById i (s\<lparr>ms_inbound := ms_inbound s @ rows\<rparr>) = Some r"
  by (auto simp: getInboundById_def find_Some_iff nth_append intro: less_trans)

lemma store_attachment_frame [simp]:
  "ms_inbound (snd (store_attachment E given i d u s)) = ms_inbound s"
  "ms_deliveries (snd (store_attachment E given i d u s)) = ms_deliveries s"
  by (simp_all add: store_attachment_def split: option.split)

lemma store_attachments_frame:
  "ms_inbound (snd (foldl (\<lambda>r d. bind r (store_attachment E given i d)) r0 ds)) = ms_inbound (snd r0)"
proof (induction ds arbitrary: r0)
  case (Cons d ds)
  have "ms_inbound (snd (bind r0 (store_attachment E given i d))) = ms_inbound (snd r0)"
    by (rule bind_store[where P = "\<lambda>x. ms_inbound x = ms_inbound (snd r0)"]) simp_all
  then show ?case using Cons.IH by simp
qed simp

lemma receiveEnvelope_keeps:
  assumes "getInboundById i s = Some r"
  shows "getInboundById i (snd (receiveEnvelope E env s)) = Some r"
  using assms get_append[OF assms] by (simp add: receiveEnvelope_def split: option.split)

lemma receive_keeps:
  assumes "getInboundById i s = Some r"
  shows "getInboundById i (snd (receive E env given s)) = Some r"
  unfolding receive_def
  by (rule savepoint_store[where P = "\<lambda>x. getInboundById i x = Some r", OF assms],
      rule bind_store[where P = "\<lambda>x. getInboundById i x = Some r", OF receiveEnvelope_keeps[OF assms]],
      rule bind_store[where P = "\<lambda>x. getInboundById i x = Some r"])
     (simp add: getInboundById_def store_attachments_frame,
      rule bind_store[where P = "\<lambda>x. getInboundById i x = Some r"], simp_all)

text \<open>While a row is held, an outsider's operation leaves it exactly as it is.\<close>
lemma held_effect:
  assumes "row_effect t toks i s s'" "getInboundById i s = Some r" "inbound_queue.held r tok e" "t < e"
    "Some tok \<notin> toks"
  shows "getInboundById i s' = Some r"
proof -
  obtain as where a: "\<forall>a\<in>set as. op_time a = t \<and> (\<forall>f t' k. a = Finish f t' k \<longrightarrow> Some k \<in> toks)"
    and g: "getInboundById i s' = map_option (\<lambda>r. fst (inbound_queue.drive as r)) (getInboundById i s)"
    using assms(1) unfolding row_effect_def by blast
  have "inbound_queue.drive as r = (r, [])"
    using a assms(3-5) by (intro inbound_queue.exclusive[of r tok e]) auto
  then show ?thesis using g assms(2) by simp
qed

lemma outsider_keeps:
  assumes "getInboundById i s = Some r" "inbound_queue.held r tok e" "outsider tok e op"
  shows "getInboundById i (inbound_exec E op s) = Some r"
proof (cases op)
  case (OpClaimMany limit w l t)
  then show ?thesis using assms held_effect[OF claimInbound_effect[where toks = "{}"]] by auto
next
  case (OpClaimId j w l t)
  then show ?thesis using assms held_effect[OF claimInboundById_effect[where toks = "{}"]] by auto
next
  case (OpFinish j f t v tok')
  then show ?thesis using assms held_effect[OF finishInbound_effect[of tok' "{tok'}"]] by auto
next
  case (OpRenew m t l)
  have "getInboundById i (snd (renewInboundLease m t l s)) = map_option (\<lambda>x.
      if ib_id x = ib_id m \<and> holds_lease (ib_version m) (ib_leaseToken m) t x
      then x\<lparr>ib_leaseExpiresAt := Some (t + l)\<rparr> else x) (getInboundById i s)"
    by (simp add: renewInboundLease_def getInboundById_def Let_def find_upd_where)
  moreover have "\<not> holds_lease (ib_version m) (ib_leaseToken m) t r"
    using assms(2,3) OpRenew
    by (auto simp: holds_lease_def inbound_queue.held_def inbound_holder_def split: if_splits)
  ultimately show ?thesis using assms(1) OpRenew by simp
next
  case (OpReceive env given)
  then show ?thesis using receive_keeps[OF assms(1)] by simp
qed

lemma outsiders_keep:
  "getInboundById i s = Some r \<Longrightarrow> inbound_queue.held r tok e \<Longrightarrow> \<forall>op\<in>set ops. outsider tok e op \<Longrightarrow>
     getInboundById i (foldl (\<lambda>s op. inbound_exec E op s) s ops) = Some r"
  by (induction ops arbitrary: s) (auto dest: outsider_keeps)

lemma claimInboundById_held:
  assumes "claimInboundById E i w l t s = (Inr (Some r), s1)"
  shows "getInboundById i s1 = Some r \<and> ib_status r = InDispatching \<and>
    (\<exists>tok. ib_leaseToken r = Some tok \<and> inbound_queue.held r tok (t + l))"
proof -
  obtain r0 where r0: "getInboundById i s = Some r0" "inbound_claimable t r0"
    and c: "claim_candidate E w l t i (ib_version r0) s = (Some r, s1)"
    using assms by (auto simp: claimInboundById_def split: option.splits if_splits prod.splits)
  have id: "ib_id r0 = i" using r0(1) by (auto simp: getInboundById_def find_Some_iff)
  have get: "getInboundById i s1 = Some r"
    using c by (auto simp: claim_candidate_def Let_def split: if_splits)
  with get_claim_candidate[of i E w l t i "ib_version r0" s] c r0 id
  have "r = inbound_lease_row E w l t r0" by simp
  then show ?thesis using get
    by (simp add: inbound_lease_row_def inbound_queue.held_def inbound_holder_def)
qed

subsection \<open>Receiving twice\<close>

lemma fold_fault: "foldl (\<lambda>r d. bind r (f d)) (Inl e, s) ds = (Inl e, s)"
  by (induction ds) auto

lemma store_attachment_done:
  assumes "store_attachment E given i d u s = (Inr v, s')"
  shows "set (ms_attachments s) \<subseteq> set (ms_attachments s') \<and> ms_inbound s' = ms_inbound s \<and>
    (find (\<lambda>a. att_id a = att_id d) given = None \<or>
     (\<exists>a. find (\<lambda>a. att_id a = att_id d) given = Some a \<and> int (length (att_content a)) = att_sizeBytes d \<and>
        me_hash E (att_content a) = att_sha256 d \<and>
        (\<exists>x\<in>set (ms_attachments s'). ar_inboundId x = i \<and> att_id (ar_payload x) = att_id d)))"
  using assms
  by (auto simp: store_attachment_def attachment_descriptor.defs split: option.splits if_splits)

lemma store_attachment_again:
  assumes "store_attachment E given i d u s = (Inr v, s')" "set (ms_attachments s') \<subseteq> set (ms_attachments s2)"
  shows "store_attachment E given i d () s2 = (Inr (), s2)"
  using store_attachment_done[OF assms(1)] assms(2)
  by (auto simp: store_attachment_def split: option.splits)

lemma store_attachments_again:
  assumes "foldl (\<lambda>r d. bind r (store_attachment E given i d)) (Inr (), s) ds = (Inr u, s')"
  shows "set (ms_attachments s) \<subseteq> set (ms_attachments s') \<and>
    (\<forall>s2. set (ms_attachments s') \<subseteq> set (ms_attachments s2) \<longrightarrow>
       foldl (\<lambda>r d. bind r (store_attachment E given i d)) (Inr (), s2) ds = (Inr (), s2))"
  using assms
proof (induction ds arbitrary: s)
  case (Cons d ds)
  obtain res s1 where d: "store_attachment E given i d () s = (res, s1)"
    by (cases "store_attachment E given i d () s")
  show ?case
  proof (cases res)
    case (Inl e)
    then show ?thesis using Cons.prems d fold_fault[of "store_attachment E given i" e s1 ds] by simp
  next
    case (Inr v)
    then have d: "store_attachment E given i d () s = (Inr v, s1)" using d by simp
    have v: "v = ()" by simp
    have tail: "foldl (\<lambda>r d. bind r (store_attachment E given i d)) (Inr (), s1) ds = (Inr u, s')"
      using Cons.prems by (simp add: d v)
    note ih = Cons.IH[OF tail]
    have "store_attachment E given i d () s2 = (Inr (), s2)"
      if "set (ms_attachments s') \<subseteq> set (ms_attachments s2)" for s2
      using store_attachment_again[OF d] ih that by blast
    then show ?thesis using ih store_attachment_done[OF d] by auto
  qed
qed auto

definition same_message :: "inbound_envelope \<Rightarrow> inbound_row \<Rightarrow> bool" where
  "same_message env r \<longleftrightarrow> env_channel (ib_envelope r) = env_channel env \<and>
     env_adapterId (ib_envelope r) = env_adapterId env \<and>
     env_providerMessageId (ib_envelope r) = env_providerMessageId env"

lemma receiveEnvelope_done:
  assumes "receiveEnvelope E env s = (Inr (i, b), s1)"
  shows "env_tenantId env = me_tenant E \<and> ms_attachments s1 = ms_attachments s \<and>
    (\<exists>r. find (same_message env) (ms_inbound s1) = Some r \<and> ib_id r = i \<and>
       env_rawFingerprint (ib_envelope r) = env_rawFingerprint env)"
proof -
  have eq: "(\<lambda>r. env_channel (ib_envelope r) = env_channel env \<and> env_adapterId (ib_envelope r) = env_adapterId env \<and>
      env_providerMessageId (ib_envelope r) = env_providerMessageId env) = same_message env"
    by (simp add: same_message_def fun_eq_iff)
  have app: "find P (xs @ ys) = (case find P xs of None \<Rightarrow> find P ys | Some x \<Rightarrow> Some x)"
    for P :: "inbound_row \<Rightarrow> bool" and xs ys by (induction xs) auto
  show ?thesis
    using assms by (auto simp: receiveEnvelope_def eq app ib_id_def same_message_def split: option.splits if_splits)
qed

lemma receiveEnvelope_again:
  assumes "env_tenantId env = me_tenant E" "find (same_message env) (ms_inbound s) = Some r"
  shows "receiveEnvelope E env s = (if env_rawFingerprint (ib_envelope r) \<noteq> env_rawFingerprint env
     then (Inl (InboundIdentityConflict (env_providerMessageId env)), s) else (Inr (ib_id r, True), s))"
proof -
  have eq: "(\<lambda>r. env_channel (ib_envelope r) = env_channel env \<and> env_adapterId (ib_envelope r) = env_adapterId env \<and>
      env_providerMessageId (ib_envelope r) = env_providerMessageId env) = same_message env"
    by (simp add: same_message_def fun_eq_iff)
  show ?thesis using assms by (simp add: receiveEnvelope_def eq)
qed

lemma bind_ok: "bind r f = (Inr b, s') \<Longrightarrow> \<exists>a s1. r = (Inr a, s1) \<and> f a s1 = (Inr b, s')"
  by (cases r; cases "fst r") auto

lemma savepoint_ok: "savepoint s r = (Inr a, s') \<Longrightarrow> r = (Inr a, s')"
  by (cases r; cases "fst r") auto

lemma receive_done:
  assumes "receive E env given s = (Inr (r, b), s1)"
  shows "receive E env given s1 = (Inr (r, True), s1) \<and> env_tenantId env = me_tenant E \<and>
    (\<exists>r'. find (same_message env) (ms_inbound s1) = Some r' \<and>
       env_rawFingerprint (ib_envelope r') = env_rawFingerprint env)"
proof -
  from assms obtain got sa u where
    e: "receiveEnvelope E env s = (Inr got, sa)" and
    f: "foldl (\<lambda>r d. bind r (store_attachment E given (fst got) d)) (Inr (), sa) (env_attachments env) = (Inr u, s1)" and
    q: "requiredInbound (fst got) s1 = (Inr r, s1)" and
    l: "length (inbound_payloads (ib_envelope r) s1) = length (env_attachments env)" and b: "b = snd got"
    unfolding receive_def
    by (auto dest!: savepoint_ok bind_ok simp: requiredInbound_def split: if_splits option.splits)
  obtain i b' where got: "got = (i, b')" by (cases got)
  note d = receiveEnvelope_done[OF e[unfolded got]]
  have ib: "ms_inbound s1 = ms_inbound sa"
    using store_attachments_frame[of E given "fst got" "(Inr (), sa)" "env_attachments env"] f by simp
  from d obtain r' where r': "find (same_message env) (ms_inbound s1) = Some r'" "ib_id r' = i"
    "env_rawFingerprint (ib_envelope r') = env_rawFingerprint env" by (auto simp: ib)
  have "receiveEnvelope E env s1 = (Inr (i, True), s1)"
    using receiveEnvelope_again[of env E s1 r'] d r' by simp
  moreover have "foldl (\<lambda>r d. bind r (store_attachment E given i d)) (Inr (), s1) (env_attachments env) = (Inr (), s1)"
    using store_attachments_again[OF f] by (simp add: got)
  ultimately show ?thesis using q l d r' by (simp add: receive_def got)
qed

subsection \<open>Properties\<close>

text \<open>Receiving is idempotent: a message that has been received with its attachments is reported as
  a replay of the same row when it comes again, without any change of the store; the same message
  with another payload fingerprint is refused, again without a change.\<close>
theorem receive_idempotent:
  assumes "receive E env given s = (Inr (r, replayed), s1)"
  shows "receive E env given s1 = (Inr (r, True), s1) \<and>
    (env_channel env' = env_channel env \<and> env_adapterId env' = env_adapterId env \<and>
     env_providerMessageId env' = env_providerMessageId env \<and> env_tenantId env' = env_tenantId env \<and>
     env_rawFingerprint env' \<noteq> env_rawFingerprint env \<longrightarrow>
       receive E env' given' s1 = (Inl (InboundIdentityConflict (env_providerMessageId env)), s1))"
proof -
  note d = receive_done[OF assms]
  have "receive E env' given' s1 = (Inl (InboundIdentityConflict (env_providerMessageId env)), s1)"
    if "env_channel env' = env_channel env" "env_adapterId env' = env_adapterId env"
      "env_providerMessageId env' = env_providerMessageId env" "env_tenantId env' = env_tenantId env"
      "env_rawFingerprint env' \<noteq> env_rawFingerprint env"
  proof -
    have "same_message env' = same_message env" using that by (simp add: same_message_def fun_eq_iff)
    then have "receiveEnvelope E env' s1 = (Inl (InboundIdentityConflict (env_providerMessageId env)), s1)"
      using receiveEnvelope_again[of env' E s1] d that by auto
    then show ?thesis by (simp add: receive_def)
  qed
  then show ?thesis using d by blast
qed

definition sample_env :: msg_env where
  "sample_env = \<lparr>me_tenant = ''t'', me_hash = (\<lambda>x. x), me_json = (\<lambda>_. []), me_iso = (\<lambda>_. []), me_pid = ''1'',
     me_redact = (\<lambda>x. x)\<rparr>"

definition sample_descriptor :: attachment_descriptor where
  "sample_descriptor = \<lparr>att_id = ''a1'', att_name = ''q.pdf'', att_contentType = ''pdf'', att_sizeBytes = 2,
     att_sha256 = ''%P''\<rparr>"

definition sample_payload :: attachment_payload where
  "sample_payload = \<lparr>att_id = ''a1'', att_name = ''q.pdf'', att_contentType = ''pdf'', att_sizeBytes = 2,
     att_sha256 = ''%P'', att_content = ''%P''\<rparr>"

definition sample_envelope :: inbound_envelope where
  "sample_envelope = \<lparr>env_id = ''m1'', env_tenantId = ''t'', env_adapterId = ''imap'', env_channel = ''email'',
     env_provider = ''imap'', env_providerMessageId = ''<1@x>'', env_conversationId = None, env_inReplyTo = None,
     env_references = [], env_sender = \<lparr>ma_address = ''s@x'', ma_displayName = None\<rparr>, env_recipients = [],
     env_subject = None, env_text = ''hi'', env_attachments = [sample_descriptor], env_occurredAt = 0,
     env_receivedAt = 5, env_rawFingerprint = ''fp''\<rparr>"

definition sample_store :: msg_store where
  "sample_store = snd (receive sample_env sample_envelope [sample_payload] empty_store)"

lemma sample_receive:
  "\<exists>r. receive sample_env sample_envelope [sample_payload] empty_store = (Inr (r, False), sample_store) \<and>
     getInboundById ''m1'' sample_store = Some r \<and> ib_status r = InReceived \<and> ib_envelope r = sample_envelope"
  by (simp add: sample_store_def receive_def receiveEnvelope_def empty_store_def sample_envelope_def sample_env_def
      store_attachment_def sample_payload_def sample_descriptor_def requiredInbound_def getInboundById_def ib_id_def
      inbound_payloads_def attachment_descriptor.defs attachment_payload.defs)

theorem receive_idempotent_witness:
  "\<exists>r. receive sample_env sample_envelope [sample_payload] sample_store = (Inr (r, True), sample_store)"
  using receive_idempotent sample_receive by blast

text \<open>A claimed inbound message belongs to its worker until the lease ends: no claim, batch or single, by
  anyone before the expiry, no finish or renewal without the claim's token, and no new message
  changes the row in any way, however many such operations come in whatever order.\<close>
theorem inbound_lease_exclusive:
  assumes "claimInboundById E i w leaseMs t s = (Inr (Some r), s1)" "ib_leaseToken r = Some tok"
    "\<forall>op\<in>set ops. outsider tok (t + leaseMs) op"
  shows "getInboundById i (foldl (\<lambda>s op. inbound_exec E' op s) s1 ops) = Some r \<and>
    ib_status r = InDispatching \<and> ib_leaseExpiresAt r = Some (t + leaseMs)"
proof -
  note h = claimInboundById_held[OF assms(1)]
  then have "inbound_queue.held r tok (t + leaseMs)" using assms(2) by simp
  then show ?thesis using outsiders_keep[of i s1 r tok "t + leaseMs" ops] h assms(3)
    by (auto simp: inbound_queue.held_def)
qed

theorem inbound_lease_exclusive_witness:
  "\<exists>r. getInboundById ''m1'' (foldl (\<lambda>s op. inbound_exec sample_env op s)
      (snd (claimInboundById sample_env ''m1'' ''w1'' 1000 10 sample_store))
      [OpClaimMany 10 ''w2'' 1000 500, OpClaimId ''m1'' ''w3'' 9 1009]) = Some r \<and>
    ib_leaseExpiresAt r = Some 1010"
proof -
  obtain r0 where r0: "getInboundById ''m1'' sample_store = Some r0" "ib_status r0 = InReceived"
    "ib_envelope r0 = sample_envelope" using sample_receive by blast
  obtain res s1 where c: "claimInboundById sample_env ''m1'' ''w1'' 1000 10 sample_store = (res, s1)"
    by (cases "claimInboundById sample_env ''m1'' ''w1'' 1000 10 sample_store")
  have one: "ms_inbound sample_store = [r0]"
    using r0(1) by (auto simp: sample_store_def receive_def receiveEnvelope_def empty_store_def
      sample_envelope_def sample_env_def store_attachment_def sample_payload_def sample_descriptor_def
      requiredInbound_def getInboundById_def ib_id_def inbound_payloads_def attachment_descriptor.defs
      attachment_payload.defs)
  have id: "ib_id r0 = ''m1''" using r0(3) by (simp add: ib_id_def sample_envelope_def)
  obtain r where r: "res = Inr (Some r)"
    using c r0 id by (auto simp: claimInboundById_def claim_guard_def trim_def is_space_def claim_candidate_def
      one getInboundById_def changes_def inbound_claimable_def Let_def)
  obtain tok where tok: "ib_leaseToken r = Some tok"
    using claimInboundById_held c r by blast
  show ?thesis
    using inbound_lease_exclusive[OF c[unfolded r] tok, of "[OpClaimMany 10 ''w2'' 1000 500, OpClaimId ''m1'' ''w3'' 9 1009]"
        sample_env] c by auto
qed

end
