(* ===== verification/MessageGateway.thy ===== *)
theory MessageGateway
  imports MessagingStore
begin

text \<open>
  The message gateway (\<open>packages/messaging/src/gateway.ts\<close>).  A delivery runs in two synchronous
  parts around the adapter's asynchronous \<open>send\<close>: \<open>deliver_begin\<close> up to the call, and
  \<open>deliver_end\<close> from its outcome on.  Any number of deliveries, of any number of processes on the
  same database, may be between the two, and a process may die there: the relation \<open>gw_step\<close>
  interleaves them and keeps the log of what went out and what came back.
\<close>

subsection \<open>Receipts\<close>

definition truthy :: "string option \<Rightarrow> string option" where
  "truthy x = (if x = Some [] then None else x)"

definition deliveryReceipt :: "delivery_row \<Rightarrow> bool \<Rightarrow> delivery_receipt" where
  "deliveryReceipt d replayed = \<lparr>rc_deliveryId = dv_id d,
     rc_status = (case dv_status d of DvAccepted \<Rightarrow> RcAccepted | DvUnknown \<Rightarrow> RcUnknown
       | DvRetryWait \<Rightarrow> RcDeferred | _ \<Rightarrow> RcFailed),
     rc_nextAttemptAt = dv_nextAttemptAt d, rc_providerMessageId = truthy (dv_providerMessageId d),
     rc_acceptedAt = dv_acceptedAt d, rc_attempt = dv_attempts d, rc_replayed = replayed,
     rc_retryable = (dv_status d = DvRetryWait), rc_error = dv_error d\<rparr>"

definition is_final :: "delivery_status \<Rightarrow> bool" where
  "is_final st \<longleftrightarrow> st \<in> {DvAccepted, DvUnknown, DvFailed, DvAbandoned}"

definition replayReceipt :: "delivery_row \<Rightarrow> bool \<Rightarrow> instant \<Rightarrow> delivery_receipt option" where
  "replayReceipt d replayed t =
    (if \<not> replayed then None
     else if is_final (dv_status d) then Some (deliveryReceipt d True)
     else if dv_status d = DvRetryWait \<and> (\<exists>n. dv_nextAttemptAt d = Some n \<and> t < n)
     then Some (deliveryReceipt d True) else None)"

definition plain_receipt :: "delivery_row \<Rightarrow> receipt_status \<Rightarrow> instant option \<Rightarrow> msg_text \<Rightarrow> delivery_receipt" where
  "plain_receipt d st n err = \<lparr>rc_deliveryId = dv_id d, rc_status = st, rc_nextAttemptAt = n,
     rc_providerMessageId = None, rc_acceptedAt = None, rc_attempt = dv_attempts d, rc_replayed = True,
     rc_retryable = False, rc_error = Some err\<rparr>"

subsection \<open>Delivery\<close>

text \<open>The adapters registered with this gateway process.\<close>
type_synonym registry = "(ident, adapter) kv"

definition validateRequest :: "adapter option \<Rightarrow> sent_request \<Rightarrow> msg_text option" where
  "validateRequest ad r =
    (case ad of
       None \<Rightarrow> Some (TxtNotRegistered (rq_adapterId r))
     | Some a \<Rightarrow>
         if apt_channel a \<noteq> rq_channel r then Some (TxtChannelMismatch (apt_channel a) (rq_channel r))
         else let required = [SendText] @ (if 0 < length (rq_attachments r) then [SendAttachments] else []) @
                (case rq_thread r of None \<Rightarrow> []
                 | Some th \<Rightarrow> if truthy (th_inReplyTo th) \<noteq> None \<or>
                       (\<exists>rs. th_references th = Some rs \<and> rs \<noteq> []) then [Threads] else []);
              missing = filter (\<lambda>c. c \<notin> set (apt_capabilities a)) required
         in if 0 < length missing then Some (TxtMissing missing) else None)"

text \<open>What is in flight while the adapter works: the row as marked, the adapter, and the version of
  the adapter's state at the start.\<close>
record flight =
  fl_id :: ident
  fl_version :: nat
  fl_adapterId :: ident
  fl_stateVersion :: nat

datatype begun = Replied delivery_receipt | Dispatch flight

text \<open>The last part before the call: the adapter must be dispatchable, and the row is marked.\<close>
definition deliver_dispatch :: "msg_env \<Rightarrow> delivery_row \<Rightarrow> adapter \<Rightarrow> instant \<Rightarrow> msg_store \<Rightarrow> begun msg_result" where
  "deliver_dispatch E d ad t s =
    bind (requiredAdapterState (apt_id ad) s) (\<lambda>st s1.
      if isAdapterBlocked st
      then (Inr (Replied (plain_receipt d RcBlocked (Some (t + 30000)) TxtBlocked)), s1)
      else bind (markDeliverySending E (dv_id d) (dv_version d) t s1) (\<lambda>m s2.
        (Inr (Dispatch \<lparr>fl_id = dv_id m, fl_version = dv_version m,
           fl_adapterId = apt_id ad, fl_stateVersion = ad_version st\<rparr>), s2)))"

definition deliver_refuse :: "msg_env \<Rightarrow> delivery_row \<Rightarrow> msg_text \<Rightarrow> instant \<Rightarrow> msg_store \<Rightarrow> begun msg_result" where
  "deliver_refuse E d err t s = bind (failDeliveryBeforeDispatch E (dv_id d) (dv_version d) err t s)
     (\<lambda>f s1. (Inr (Replied (deliveryReceipt f False)), s1))"

text \<open>What happens with the row a request has reserved.\<close>
definition deliver_reserved ::
  "msg_env \<Rightarrow> registry \<Rightarrow> sent_request \<Rightarrow> instant \<Rightarrow> delivery_row \<Rightarrow> bool \<Rightarrow> msg_store \<Rightarrow> begun msg_result" where
  "deliver_reserved E ads r t d replayed s =
    (case replayReceipt d replayed t of
       Some rc \<Rightarrow> (Inr (Replied rc), s)
     | None \<Rightarrow>
         if dv_status d = DvSending then (Inr (Replied (plain_receipt d RcUnknown None TxtInFlight)), s)
         else if dv_status d = DvRetryWait \<and> (case dv_nextAttemptAt d of None \<Rightarrow> True | Some n \<Rightarrow> t < n)
         then (Inr (Replied (deliveryReceipt d True)), s)
         else if dv_status d = DvRetryWait \<and> 3 \<le> dv_attempts d
         then deliver_refuse E d TxtRetriesExhausted t s
         else case validateRequest (map_of ads (rq_adapterId r)) r of
           Some err \<Rightarrow> deliver_refuse E d err t s
         | None \<Rightarrow>
             (case map_of ads (rq_adapterId r) of
                None \<Rightarrow> (Inl AdapterUnreachable, s)
              | Some ad \<Rightarrow> deliver_dispatch E d ad t s))"

definition deliver_begin :: "msg_env \<Rightarrow> registry \<Rightarrow> sent_request \<Rightarrow> instant \<Rightarrow> msg_store \<Rightarrow> begun msg_result" where
  "deliver_begin E ads r t s =
    bind (recoverExpiredDeliveries E t s) (\<lambda>_ s1.
    bind (reserveDelivery E r t s1) (\<lambda>reserved s2.
      deliver_reserved E ads r t (fst reserved) (snd reserved) s2))"

fun adapter_status_name :: "adapter_status \<Rightarrow> string" where
  "adapter_status_name AdRunning = ''running''" | "adapter_status_name AdDegraded = ''degraded''"
| "adapter_status_name AdPaused = ''paused''" | "adapter_status_name AdPausedByBreaker = ''paused_by_breaker''"
| "adapter_status_name AdDisabled = ''disabled''" | "adapter_status_name AdUnconfigured = ''unconfigured''"

definition eventId :: "msg_env \<Rightarrow> string \<Rightarrow> ident \<Rightarrow> string \<Rightarrow> string \<Rightarrow> string" where
  "eventId E ty adapterId subject discriminator = ''messaging-event:'' @
     me_hash E (ty @ nul @ adapterId @ nul @ subject @ nul @ discriminator)"

definition appendDeliveryEvent :: "msg_env \<Rightarrow> delivery_row \<Rightarrow> msg_store \<Rightarrow> unit msg_result" where
  "appendDeliveryEvent E d = appendEvent E
     \<lparr>ge_id = eventId E ''delivery_status_changed'' (rq_adapterId (dv_request d)) (dv_id d) (nat_str (dv_version d)),
      ge_tenantId = rq_tenantId (dv_request d), ge_adapterId = rq_adapterId (dv_request d),
      ge_eventType = ''delivery_status_changed'', ge_status = EsDelivery (dv_status d),
      ge_actorId = None, ge_reason = None,
      ge_metadata = [(''deliveryId'', JStr (dv_id d)), (''source'', JStr (tr_source (rq_trace (dv_request d)))),
        (''sourceId'', JStr (tr_sourceId (rq_trace (dv_request d)))),
        (''attempts'', JNum (jint (int (dv_attempts d))))],
      ge_createdAt = dv_updatedAt d\<rparr>"

text \<open>The row is settled first; then the adapter's health and the audit event follow.\<close>
definition deliver_end :: "msg_env \<Rightarrow> flight \<Rightarrow> send_result \<Rightarrow> instant \<Rightarrow> msg_store \<Rightarrow> delivery_receipt msg_result" where
  "deliver_end E fl res t s =
    (case res of
       Accepted pmid acceptedAt \<Rightarrow>
         bind (completeDelivery (fl_id fl) (fl_version fl) pmid acceptedAt t s) (\<lambda>d s1.
         bind (requiredAdapterState (fl_adapterId fl) s1) (\<lambda>st s2.
         bind (saveAdapterState E (recordAdapterSuccess st (dv_updatedAt d) (fl_stateVersion fl))
                 (Some (ad_version st)) s2) (\<lambda>_ s3.
         bind (appendDeliveryEvent E d s3) (\<lambda>_ s4. (Inr (deliveryReceipt d False), s4)))))
     | Failure kind err \<Rightarrow>
         bind (failDelivery E (fl_id fl) (fl_version fl) kind err t s) (\<lambda>d s1.
         bind (requiredAdapterState (fl_adapterId fl) s1) (\<lambda>st s2.
         bind (saveAdapterState E (recordAdapterFailure st kind err (dv_updatedAt d))
                 (Some (ad_version st)) s2) (\<lambda>_ s3.
         bind (appendDeliveryEvent E d s3) (\<lambda>_ s4. (Inr (deliveryReceipt d False), s4))))))"

text \<open>An adapter that throws has dispatched with an unknown result.\<close>
definition adapter_threw :: send_result where
  "adapter_threw = Failure UnknownAfterDispatch TxtAdapterThrew"

subsection \<open>Registration, control and health\<close>

definition register_adapter :: "msg_env \<Rightarrow> adapter \<Rightarrow> bool \<Rightarrow> instant \<Rightarrow> registry \<Rightarrow> msg_store
    \<Rightarrow> (msg_fault, registry) result \<times> msg_store" where
  "register_adapter E ad sameObject t ads s =
    (if map_of ads (apt_id ad) \<noteq> None \<and> \<not> sameObject
     then (Inl (AdapterAlreadyRegistered (apt_id ad)), s)
     else let ads1 = AList.update (apt_id ad) ad ads
       in case getAdapterState (apt_id ad) s of
         None \<Rightarrow> bind (saveAdapterState E
           \<lparr>ad_configured = True, ad_startedAt = Some t, ad_tenantId = me_tenant E,
            ad_adapterId = apt_id ad, ad_channel = apt_channel ad, ad_provider = apt_provider ad,
            ad_status = AdDegraded, ad_capabilities = apt_capabilities ad,
            ad_consecutiveFailures = 0, ad_failureWindowStartedAt = None, ad_lastHealthAt = None,
            ad_lastSuccessAt = None, ad_lastError = None, ad_pauseReason = None, ad_version = 1,
            ad_createdAt = t, ad_updatedAt = t\<rparr> None s) (\<lambda>_ s1. (Inr ads1, s1))
       | Some previous \<Rightarrow>
           if map_of ads (apt_id ad) = None
           then bind (saveAdapterState E (previous\<lparr>ad_startedAt := Some t, ad_updatedAt := t\<rparr>)
                  (Some (ad_version previous)) s) (\<lambda>_ s1. (Inr ads1, s1))
           else (Inr ads1, s))"

definition appendAdapterEvent ::
  "msg_env \<Rightarrow> string \<Rightarrow> adapter_state \<Rightarrow> string \<Rightarrow> msg_text \<Rightarrow> msg_store \<Rightarrow> unit msg_result" where
  "appendAdapterEvent E ty st actor reason = appendEvent E
     \<lparr>ge_id = eventId E ty (ad_adapterId st) (nat_str (ad_version st)) (me_iso E (ad_updatedAt st)),
      ge_tenantId = ad_tenantId st, ge_adapterId = ad_adapterId st, ge_eventType = ty,
      ge_status = EsAdapter (ad_status st), ge_actorId = Some actor, ge_reason = Some reason,
      ge_metadata = [(''adapterVersion'', JNum (jint (int (ad_version st))))],
      ge_createdAt = ad_updatedAt st\<rparr>"

definition pauseAdapter :: "msg_env \<Rightarrow> ident \<Rightarrow> nat \<Rightarrow> string \<Rightarrow> string \<Rightarrow> instant \<Rightarrow> msg_store \<Rightarrow> adapter_state msg_result"
where
  "pauseAdapter E i expected actor reason t s =
    (if trim reason = [] then (Inl ReasonEmpty, s)
     else bind (requiredAdapterState i s) (\<lambda>cur s1.
       bind (saveAdapterState E (cur\<lparr>ad_status := AdPaused, ad_pauseReason := Some (Txt (trim reason)),
               ad_updatedAt := t\<rparr>) (Some expected) s1) (\<lambda>saved s2.
       bind (appendAdapterEvent E ''adapter_paused'' saved actor (Txt (trim reason)) s2) (\<lambda>_ s3. (Inr saved, s3)))))"

definition resumeAdapter :: "msg_env \<Rightarrow> ident \<Rightarrow> nat \<Rightarrow> string \<Rightarrow> string \<Rightarrow> instant \<Rightarrow> msg_store \<Rightarrow> adapter_state msg_result"
where
  "resumeAdapter E i expected actor reason t s =
    (if trim reason = [] then (Inl ReasonEmpty, s)
     else bind (requiredAdapterState i s) (\<lambda>cur s1.
       bind (saveAdapterState E (cur\<lparr>ad_status := (if \<not> ad_configured cur then AdUnconfigured else AdDegraded),
               ad_consecutiveFailures := 0, ad_failureWindowStartedAt := None, ad_lastError := None,
               ad_pauseReason := None, ad_updatedAt := t\<rparr>) (Some expected) s1) (\<lambda>saved s2.
       bind (appendAdapterEvent E ''adapter_resumed'' saved actor (Txt (trim reason)) s2) (\<lambda>_ s3. (Inr saved, s3)))))"

text \<open>One adapter's turn of \<open>health\<close>: the state before the probe, and what the probe reported (a
  timeout or a throw is a failed probe).\<close>
definition health_skips :: "adapter_state \<Rightarrow> bool" where
  "health_skips st \<longleftrightarrow> ad_status st \<in> {AdPaused, AdPausedByBreaker, AdDisabled}"

definition health_end :: "msg_env \<Rightarrow> adapter_state \<Rightarrow> bool \<Rightarrow> msg_text option \<Rightarrow> instant \<Rightarrow> msg_store \<Rightarrow> adapter_state msg_result"
where
  "health_end E cur ok msg t s = bind (requiredAdapterState (ad_adapterId cur) s) (\<lambda>latest s1.
     if ad_version latest \<noteq> ad_version cur then (Inr latest, s1)
     else saveAdapterState E (latest\<lparr>
        ad_status := (if isAdapterBlocked latest then ad_status latest else if ok then AdRunning else AdDegraded),
        ad_lastHealthAt := Some t,
        ad_lastError := (case msg of None \<Rightarrow> ad_lastError latest | Some (Txt []) \<Rightarrow> ad_lastError latest | Some m \<Rightarrow> Some m),
        ad_updatedAt := t\<rparr>) (Some (ad_version latest)) s1)"

text \<open>\<open>poll\<close>, in two parts again: whether the mailbox is polled at all, and what its end records.\<close>
definition poll_begin :: "registry \<Rightarrow> ident \<Rightarrow> msg_store \<Rightarrow> (msg_text + nat) msg_result" where
  "poll_begin ads i s = bind (requiredAdapterState i s) (\<lambda>st s1.
     if isAdapterBlocked st then (Inr (Inl TxtPollBlocked), s1)
     else case map_of ads i of
       None \<Rightarrow> (Inr (Inl TxtPollNotStarted), s1)
     | Some ad \<Rightarrow> if Receive \<notin> set (apt_capabilities ad) \<or> \<not> apt_polls ad
         then (Inr (Inl TxtPollNotStarted), s1) else (Inr (Inr (ad_version st)), s1))"

definition poll_end :: "msg_env \<Rightarrow> ident \<Rightarrow> nat \<Rightarrow> msg_text option \<Rightarrow> instant \<Rightarrow> msg_store \<Rightarrow> adapter_state msg_result"
where
  "poll_end E i startedVersion failed t s = bind (requiredAdapterState i s) (\<lambda>st s1.
     saveAdapterState E (case failed of None \<Rightarrow> recordAdapterSuccess st t startedVersion
       | Some err \<Rightarrow> recordAdapterFailure st RetryableBeforeDispatch (me_redact E err) t)
       (Some (ad_version st)) s1)"

definition ingest :: "msg_env \<Rightarrow> inbound_envelope \<Rightarrow> attachment_payload list \<Rightarrow> msg_store \<Rightarrow> (ident \<times> bool) msg_result"
where
  "ingest E env given s = bind (receive E env given s) (\<lambda>got s1.
     bind (if snd got then (Inr (), s1) else appendEvent E
       \<lparr>ge_id = eventId E ''inbound_received'' (env_adapterId env) (env_id env) (me_iso E (env_receivedAt env)),
        ge_tenantId = env_tenantId env, ge_adapterId = env_adapterId env,
        ge_eventType = ''inbound_received'', ge_status = EsInbound InReceived, ge_actorId = None,
        ge_reason = None,
        ge_metadata = [(''inboundId'', JStr (env_id env)), (''channel'', JStr (env_channel env)),
          (''providerMessageIdHash'', JStr (me_hash E (env_providerMessageId env)))],
        ge_createdAt = env_receivedAt env\<rparr> s1)
     (\<lambda>_ s2. (Inr (ib_id (fst got), snd got), s2)))"

subsection \<open>Single writes\<close>

definition ids_ok :: "msg_store \<Rightarrow> bool" where
  "ids_ok s \<longleftrightarrow> distinct (map dv_id (ms_deliveries s))"

lemma get_mem: "ids_ok s \<Longrightarrow> getDeliveryById i s = Some d \<longleftrightarrow> d \<in> set (ms_deliveries s) \<and> dv_id d = i"
  unfolding ids_ok_def getDeliveryById_def
  using find_distinct_key[of dv_id "ms_deliveries s" d] by (auto dest: find_Some_mem)

lemma get_id: "getDeliveryById i s = Some d \<Longrightarrow> dv_id d = i"
  by (auto simp: getDeliveryById_def dest: find_Some_mem)

lemma get_upd:
  assumes "\<And>d. dv_id (f d) = dv_id d"
  shows "getDeliveryById k (s\<lparr>ms_deliveries := upd_where p f (ms_deliveries s)\<rparr>) =
    map_option (\<lambda>d. if p d then f d else d) (getDeliveryById k s)"
  using assms by (simp add: getDeliveryById_def find_upd_where)

lemma ids_ok_upd: "(\<And>d. dv_id (f d) = dv_id d) \<Longrightarrow>
    ids_ok s \<Longrightarrow> ids_ok (s\<lparr>ms_deliveries := upd_where p f (ms_deliveries s)\<rparr>)"
  by (simp add: ids_ok_def map_upd_where)

text \<open>An optimistic update either changes the one row it names, or nothing.\<close>
lemma update_delivery_spec:
  assumes "ids_ok s" "\<And>d. dv_id (f d) = dv_id d"
  shows "(\<exists>d. getDeliveryById i s = Some d \<and> dv_version d = v \<and> dv_status d \<in> sts \<and>
      (let d' = f d\<lparr>dv_version := dv_version d + 1\<rparr>; s' = snd (update_delivery i v sts f s) in
        fst (update_delivery i v sts f s) = Inr d' \<and> ids_ok s' \<and> ms_adapters s' = ms_adapters s \<and>
        (\<forall>k. getDeliveryById k s' = (if k = i then Some d' else getDeliveryById k s)))) \<or>
    update_delivery i v sts f s = (Inl (DeliveryVersionConflict i v), s)"
proof -
  let ?p = "\<lambda>d. dv_id d = i \<and> dv_version d = v \<and> dv_status d \<in> sts"
  let ?f = "\<lambda>d. f d\<lparr>dv_version := dv_version d + 1\<rparr>"
  let ?s = "s\<lparr>ms_deliveries := upd_where ?p ?f (ms_deliveries s)\<rparr>"
  have le: "changes ?p (ms_deliveries s) \<le> 1"
    using assms(1) by (intro changes_le_one[of dv_id]) (auto simp: ids_ok_def)
  have g: "getDeliveryById k ?s = map_option (\<lambda>d. if ?p d then ?f d else d) (getDeliveryById k s)" for k
    by (rule get_upd) (simp add: assms(2))
  show ?thesis
  proof (cases "changes ?p (ms_deliveries s) = 1")
    case True
    then have "filter ?p (ms_deliveries s) \<noteq> []" by (auto simp: changes_def)
    then obtain d where "d \<in> set (ms_deliveries s)" "?p d" by (auto simp: filter_empty_conv)
    then have d: "getDeliveryById i s = Some d" "?p d" using get_mem[OF assms(1)] by auto
    have gi: "getDeliveryById i ?s = Some (?f d)" using d by (simp only: g) simp
    have gk: "getDeliveryById k ?s = getDeliveryById k s" if "k \<noteq> i" for k
      using that get_id[of k s] by (cases "getDeliveryById k s") (auto simp only: g, auto)
    have "ids_ok ?s" by (rule ids_ok_upd) (simp_all add: assms)
    then show ?thesis using True d gi gk
      by (intro disjI1 exI[of _ d]) (simp add: update_delivery_def Let_def requiredDelivery_def del: add_Suc_right)
  next
    case False
    then show ?thesis by (simp add: update_delivery_def Let_def)
  qed
qed

text \<open>The same, for a write that succeeded.\<close>
lemma update_delivery_ok:
  assumes "ids_ok s" "\<And>d. dv_id (f d) = dv_id d" "update_delivery i v sts f s = (Inr d', s')"
  shows "\<exists>d. getDeliveryById i s = Some d \<and> dv_version d = v \<and> dv_status d \<in> sts \<and>
    d' = f d\<lparr>dv_version := dv_version d + 1\<rparr> \<and> ids_ok s' \<and>
    (\<forall>k. getDeliveryById k s' = (if k = i then Some d' else getDeliveryById k s))"
  using update_delivery_spec[OF assms(1,2), of i v sts] assms(3) by (auto simp: Let_def)

lemma update_delivery_fault:
  assumes "ids_ok s" "\<And>d. dv_id (f d) = dv_id d" "update_delivery i v sts f s = (Inl e, s')"
  shows "s' = s \<and> e = DeliveryVersionConflict i v"
  using update_delivery_spec[OF assms(1,2), of i v sts] assms(3) by (auto simp: Let_def)

lemma update_delivery_fault_none:
  assumes "ids_ok s" "fst (update_delivery i v sts f s) = Inl e" "\<And>d. dv_id (f d) = dv_id d"
    "getDeliveryById i s = Some d" "dv_version d = v"
  shows "dv_status d \<notin> sts"
proof
  let ?p = "\<lambda>d. dv_id d = i \<and> dv_version d = v \<and> dv_status d \<in> sts"
  assume "dv_status d \<in> sts"
  then have "d \<in> set (filter ?p (ms_deliveries s))"
    using assms(4,5) get_mem[OF assms(1)] by auto
  then have "0 < changes ?p (ms_deliveries s)" unfolding changes_def by (rule length_pos_if_in_set)
  moreover have "changes ?p (ms_deliveries s) \<le> 1"
    using assms(1) by (intro changes_le_one[of dv_id]) (auto simp: ids_ok_def)
  ultimately have "changes ?p (ms_deliveries s) = 1" by simp
  then show False
    using update_delivery_spec[OF assms(1), of f i v sts, OF assms(3)] assms(2)
    by (auto simp: update_delivery_def Let_def requiredDelivery_def split: option.splits)
qed

subsection \<open>The system of interleaved deliveries\<close>

text \<open>What left the process and what came back: a call of an adapter's \<open>send\<close> for a delivery, and its
  outcome (\<open>None\<close> is acceptance).\<close>
datatype gw_log = LDispatch ident | LOutcome ident "failure_kind option"

record gw_system =
  gs_store :: msg_store
  gs_flights :: "flight list"
  gs_log :: "gw_log list"

definition outcome_kind :: "send_result \<Rightarrow> failure_kind option" where
  "outcome_kind res = (case res of Accepted _ _ \<Rightarrow> None | Failure k _ \<Rightarrow> Some k)"

text \<open>The operations beside deliveries.\<close>
datatype gw_other =
    GRecover instant
  | GRegister registry adapter bool instant
  | GPause ident nat string string instant
  | GResume ident nat string string instant
  | GHealth adapter_state bool "msg_text option" instant
  | GPoll ident nat "msg_text option" instant
  | GIngest inbound_envelope "attachment_payload list"
  | GInbound inbound_op

fun other_exec :: "msg_env \<Rightarrow> gw_other \<Rightarrow> msg_store \<Rightarrow> msg_store" where
  "other_exec E (GRecover t) s = snd (recoverExpiredDeliveries E t s)"
| "other_exec E (GRegister ads ad same t) s = snd (register_adapter E ad same t ads s)"
| "other_exec E (GPause i v actor reason t) s = snd (pauseAdapter E i v actor reason t s)"
| "other_exec E (GResume i v actor reason t) s = snd (resumeAdapter E i v actor reason t s)"
| "other_exec E (GHealth cur ok msg t) s = snd (health_end E cur ok msg t s)"
| "other_exec E (GPoll i v failed t) s = snd (poll_end E i v failed t s)"
| "other_exec E (GIngest env given) s = snd (ingest E env given s)"
| "other_exec E (GInbound op) s = inbound_exec E op s"

text \<open>A delivery starts, ends with the adapter's outcome, or is lost with its process; other
  operations come in between.  The environment may differ from step to step (process, clock,
  redaction), the clock may stand still or jump.\<close>
inductive gw_step :: "gw_system \<Rightarrow> gw_system \<Rightarrow> bool" where
  begin_dispatch: "deliver_begin E ads r t s = (Inr (Dispatch f), s') \<Longrightarrow>
    gw_step \<lparr>gs_store = s, gs_flights = fls, gs_log = lg\<rparr>
      \<lparr>gs_store = s', gs_flights = fls @ [f], gs_log = lg @ [LDispatch (fl_id f)]\<rparr>"
| begin_other: "deliver_begin E ads r t s = (res, s') \<Longrightarrow> \<forall>f. res \<noteq> Inr (Dispatch f) \<Longrightarrow>
    gw_step \<lparr>gs_store = s, gs_flights = fls, gs_log = lg\<rparr>
      \<lparr>gs_store = s', gs_flights = fls, gs_log = lg\<rparr>"
| finish: "deliver_end E f res t s = (rc, s') \<Longrightarrow>
    gw_step \<lparr>gs_store = s, gs_flights = fls @ f # fls', gs_log = lg\<rparr>
      \<lparr>gs_store = s', gs_flights = fls @ fls', gs_log = lg @ [LOutcome (fl_id f) (outcome_kind res)]\<rparr>"
| crash: "gw_step \<lparr>gs_store = s, gs_flights = fls @ f # fls', gs_log = lg\<rparr>
      \<lparr>gs_store = s, gs_flights = fls @ fls', gs_log = lg\<rparr>"
| other: "gw_step \<lparr>gs_store = s, gs_flights = fls, gs_log = lg\<rparr>
      \<lparr>gs_store = other_exec E op s, gs_flights = fls, gs_log = lg\<rparr>"

definition gw_init :: gw_system where
  "gw_init = \<lparr>gs_store = empty_store, gs_flights = [], gs_log = []\<rparr>"

inductive gw_reachable :: "gw_system \<Rightarrow> bool" where
  init: "gw_reachable gw_init"
| step: "gw_reachable g \<Longrightarrow> gw_step g g' \<Longrightarrow> gw_reachable g'"

definition dispatches :: "ident \<Rightarrow> gw_log list \<Rightarrow> nat" where
  "dispatches i lg = length (filter (\<lambda>l. l = LDispatch i) lg)"

fun outcomes :: "ident \<Rightarrow> gw_log list \<Rightarrow> failure_kind option list" where
  "outcomes i [] = []"
| "outcomes i (LOutcome j k # lg) = (if j = i then k # outcomes i lg else outcomes i lg)"
| "outcomes i (LDispatch j # lg) = outcomes i lg"

lemma dispatches_simps [simp]:
  "dispatches i [] = 0"
  "dispatches i (lg @ [LDispatch j]) = dispatches i lg + (if j = i then 1 else 0)"
  "dispatches i (lg @ [LOutcome j k]) = dispatches i lg"
  by (simp_all add: dispatches_def)

lemma outcomes_append [simp]: "outcomes i (lg @ lg') = outcomes i lg @ outcomes i lg'"
  by (induction i lg rule: outcomes.induct) auto

abbreviation flights_of :: "ident \<Rightarrow> flight list \<Rightarrow> flight list" where
  "flights_of i fls \<equiv> filter (\<lambda>f. fl_id f = i) fls"

abbreviation retryables :: "nat \<Rightarrow> failure_kind option list" where
  "retryables n \<equiv> replicate n (Some RetryableBeforeDispatch)"

text \<open>What a row says about the calls made for it: \<open>n\<close> dispatches, the outcomes \<open>os\<close>, the flights \<open>F\<close>.\<close>
definition row_inv :: "delivery_row \<Rightarrow> nat \<Rightarrow> failure_kind option list \<Rightarrow> flight list \<Rightarrow> bool" where
  "row_inv d n os F \<longleftrightarrow> n = dv_attempts d \<and>
    (case dv_status d of
       DvPending \<Rightarrow> n = 0 \<and> os = [] \<and> F = []
     | DvRetryWait \<Rightarrow> n < 3 \<and> os = retryables n \<and> F = []
     | DvSending \<Rightarrow> 0 < n \<and> n \<le> 3 \<and> os = retryables (n - 1) \<and> length F \<le> 1 \<and>
         (\<forall>f\<in>set F. fl_version f = dv_version d)
     | _ \<Rightarrow> n \<le> 3 \<and> length os \<le> n \<and> take (n - 1) os = retryables (n - 1) \<and>
         (F = [] \<or> (0 < n \<and> os = retryables (n - 1) \<and> length F = 1)))"

definition gw_inv :: "msg_store \<Rightarrow> flight list \<Rightarrow> gw_log list \<Rightarrow> bool" where
  "gw_inv s fls lg \<longleftrightarrow> ids_ok s \<and>
     (\<forall>i. case getDeliveryById i s of
        None \<Rightarrow> dispatches i lg = 0 \<and> outcomes i lg = [] \<and> flights_of i fls = []
      | Some d \<Rightarrow> row_inv d (dispatches i lg) (outcomes i lg) (flights_of i fls))"

lemma gw_inv_cong: "ms_deliveries s' = ms_deliveries s \<Longrightarrow> gw_inv s' fls lg = gw_inv s fls lg"
  by (simp add: gw_inv_def ids_ok_def getDeliveryById_def)

lemma gw_invD:
  assumes "gw_inv s fls lg" "getDeliveryById i s = Some d"
  shows "row_inv d (dispatches i lg) (outcomes i lg) (flights_of i fls)"
  using assms by (auto simp: gw_inv_def split: option.splits)

lemma gw_invN:
  assumes "gw_inv s fls lg" "getDeliveryById i s = None"
  shows "dispatches i lg = 0 \<and> outcomes i lg = [] \<and> flights_of i fls = []"
proof -
  have "case getDeliveryById i s of
      None \<Rightarrow> dispatches i lg = 0 \<and> outcomes i lg = [] \<and> flights_of i fls = []
    | Some d \<Rightarrow> row_inv d (dispatches i lg) (outcomes i lg) (flights_of i fls)"
    using assms(1) unfolding gw_inv_def by blast
  then show ?thesis using assms(2) by simp
qed

text \<open>Changing one row.\<close>
lemma gw_inv_change:
  assumes "gw_inv s fls lg" "ids_ok s'"
    "\<forall>k. getDeliveryById k s' = (if k = i then Some d' else getDeliveryById k s)"
    "row_inv d' (dispatches i lg') (outcomes i lg') (flights_of i fls')"
    "\<And>k. k \<noteq> i \<Longrightarrow> dispatches k lg' = dispatches k lg \<and> outcomes k lg' = outcomes k lg \<and>
       flights_of k fls' = flights_of k fls"
  shows "gw_inv s' fls' lg'"
  unfolding gw_inv_def
proof (intro conjI allI)
  fix k
  show "case getDeliveryById k s' of
      None \<Rightarrow> dispatches k lg' = 0 \<and> outcomes k lg' = [] \<and> flights_of k fls' = []
    | Some d \<Rightarrow> row_inv d (dispatches k lg') (outcomes k lg') (flights_of k fls')"
  proof (cases "k = i")
    case False
    then have "getDeliveryById k s' = getDeliveryById k s" using assms(3) by simp
    then show ?thesis using assms(1) assms(5)[OF False] unfolding gw_inv_def by metis
  qed (use assms(3,4) in simp)
qed (rule assms(2))

subsection \<open>Every primitive keeps the invariant\<close>

lemma events_fold_frame:
  "ms_deliveries (snd (foldl (\<lambda>r d. bind r (recover_event E t d)) r0 ds)) = ms_deliveries (snd r0)"
proof (induction ds arbitrary: r0)
  case (Cons d ds)
  have "ms_deliveries (snd (bind r0 (recover_event E t d))) = ms_deliveries (snd r0)"
    by (rule bind_store[where P = "\<lambda>x. ms_deliveries x = ms_deliveries (snd r0)"]) (simp_all add: recover_event_def)
  then show ?case using Cons.IH by simp
qed simp

lemma recover_row_inv: "row_inv d n os F \<Longrightarrow> delivery_expired t d \<Longrightarrow> row_inv (recover_row t d) n os F"
  by (auto simp: row_inv_def delivery_expired_def recover_row_def Suc_le_length_iff length_Suc_conv le_Suc_eq)

lemma recover_inv:
  assumes "gw_inv s fls lg"
  shows "gw_inv (snd (recoverExpiredDeliveries E t s)) fls lg"
proof -
  let ?s1 = "s\<lparr>ms_deliveries := upd_where (delivery_expired t) (recover_row t) (ms_deliveries s)\<rparr>"
  have id: "dv_id (recover_row t d) = dv_id d" for d by (simp add: recover_row_def)
  have g: "getDeliveryById k ?s1 = map_option (\<lambda>d. if delivery_expired t d then recover_row t d else d) (getDeliveryById k s)" for k
    by (rule get_upd) (rule id)
  have "gw_inv ?s1 fls lg"
    unfolding gw_inv_def
  proof (intro conjI allI)
    show "ids_ok ?s1" using assms id by (intro ids_ok_upd) (auto simp: gw_inv_def)
    fix k
    show "case getDeliveryById k ?s1 of
        None \<Rightarrow> dispatches k lg = 0 \<and> outcomes k lg = [] \<and> flights_of k fls = []
      | Some d \<Rightarrow> row_inv d (dispatches k lg) (outcomes k lg) (flights_of k fls)"
      using assms recover_row_inv unfolding g gw_inv_def by (force split: option.splits)
  qed
  then show ?thesis
    unfolding recoverExpiredDeliveries_def Let_def
    by (intro savepoint_store[where P = "\<lambda>x. gw_inv x fls lg", OF assms])
      (subst gw_inv_cong[of _ ?s1], simp_all add: events_fold_frame)
qed

lemma reserve_inv:
  assumes "gw_inv s fls lg"
  shows "gw_inv (snd (reserveDelivery E r t s)) fls lg"
proof -
  have new: "gw_inv (s\<lparr>ms_deliveries := ms_deliveries s @ [d]\<rparr>) fls lg"
    if "dv_id d \<notin> dv_id ` set (ms_deliveries s)" "dv_status d = DvPending" "dv_attempts d = 0" for d
  proof (rule gw_inv_change[OF assms])
    have none: "getDeliveryById (dv_id d) s = None"
      using that(1) unfolding getDeliveryById_def find_None_iff by (metis image_eqI)
    show "ids_ok (s\<lparr>ms_deliveries := ms_deliveries s @ [d]\<rparr>)"
      using assms that(1) by (simp add: gw_inv_def ids_ok_def)
    have app: "find P (xs @ ys) = (case find P xs of None \<Rightarrow> find P ys | Some x \<Rightarrow> Some x)"
      for P :: "delivery_row \<Rightarrow> bool" and xs ys by (induction xs) auto
    show "\<forall>k. getDeliveryById k (s\<lparr>ms_deliveries := ms_deliveries s @ [d]\<rparr>) =
        (if k = dv_id d then Some d else getDeliveryById k s)"
      using none by (auto simp: getDeliveryById_def app split: option.splits)
    have "dispatches (dv_id d) lg = 0 \<and> outcomes (dv_id d) lg = [] \<and> flights_of (dv_id d) fls = []"
      using gw_invN[OF assms none] .
    then show "row_inv d (dispatches (dv_id d) lg) (outcomes (dv_id d) lg) (flights_of (dv_id d) fls)"
      using that by (simp add: row_inv_def)
  qed auto
  show ?thesis using assms by (auto simp: reserveDelivery_def Let_def intro!: new split: option.splits)
qed

text \<open>A reservation reports the row that is in the table, and a new one is pending.\<close>
lemma reserve_row:
  assumes "ids_ok s" "reserveDelivery E r t s = (Inr (d, replayed), s')"
  shows "getDeliveryById (dv_id d) s' = Some d \<and> (replayed \<or> dv_status d = DvPending)"
proof -
  have app: "find P (xs @ ys) = (case find P xs of None \<Rightarrow> find P ys | Some x \<Rightarrow> Some x)"
    for P :: "delivery_row \<Rightarrow> bool" and xs ys by (induction xs) auto
  have "d \<in> set (ms_deliveries s')" "replayed \<or> dv_status d = DvPending"
    using assms(2) by (auto simp: reserveDelivery_def Let_def dest: find_Some_mem split: option.splits if_splits)
  moreover have "ids_ok s'"
    using assms by (auto simp: reserveDelivery_def Let_def ids_ok_def split: option.splits if_splits)
  ultimately show ?thesis using get_mem by blast
qed

lemma update_inv:
  assumes inv: "gw_inv s fls lg" and id: "\<And>d. dv_id (f d) = dv_id d"
    and row: "\<And>d. getDeliveryById i s = Some d \<Longrightarrow> dv_version d = v \<Longrightarrow> dv_status d \<in> sts \<Longrightarrow>
      row_inv (f d\<lparr>dv_version := dv_version d + 1\<rparr>) (dispatches i lg') (outcomes i lg') (flights_of i fls')"
    and others: "\<And>k. k \<noteq> i \<Longrightarrow> dispatches k lg' = dispatches k lg \<and> outcomes k lg' = outcomes k lg \<and>
       flights_of k fls' = flights_of k fls"
    and fault: "\<And>e. fst (update_delivery i v sts f s) = Inl e \<Longrightarrow> gw_inv s fls' lg'"
  shows "gw_inv (snd (update_delivery i v sts f s)) fls' lg'"
proof -
  have ids: "ids_ok s" using inv by (simp add: gw_inv_def)
  obtain res s' where r: "update_delivery i v sts f s = (res, s')"
    by (cases "update_delivery i v sts f s")
  show ?thesis
  proof (cases res)
    case (Inl e)
    with r update_delivery_fault[OF ids id, of i v sts e s'] fault[of e] show ?thesis by simp
  next
    case (Inr d')
    with update_delivery_ok[OF ids id, of i v sts d' s'] r row obtain
      "ids_ok s'" "\<forall>k. getDeliveryById k s' = (if k = i then Some d' else getDeliveryById k s)"
      "row_inv d' (dispatches i lg') (outcomes i lg') (flights_of i fls')" by blast
    from gw_inv_change[OF inv this others] r show ?thesis by simp
  qed
qed

lemma failBefore_inv:
  assumes "gw_inv s fls lg"
  shows "gw_inv (snd (failDeliveryBeforeDispatch E i v err t s)) fls lg"
  unfolding failDeliveryBeforeDispatch_def Let_def
  by (rule update_inv[OF assms]) (auto simp: row_inv_def assms dest!: gw_invD[OF assms])

text \<open>Marking opens a flight at the version the row gets.\<close>
lemma mark_inv:
  assumes inv: "gw_inv s fls lg" and d: "getDeliveryById i s = Some d"
    and st: "dv_status d = DvPending \<or> dv_status d = DvRetryWait"
    and m: "markDeliverySending E i v t s = (Inr m, s')"
  shows "dv_id m = i \<and> gw_inv s' (fls @ [\<lparr>fl_id = i, fl_version = dv_version m, fl_adapterId = a,
     fl_stateVersion = sv\<rparr>]) (lg @ [LDispatch i])"
proof -
  let ?f = "\<lambda>d. d\<lparr>dv_status := DvSending, dv_attempts := dv_attempts d + 1,
       dv_leaseOwner := Some (''gateway:'' @ me_pid E), dv_leaseToken := Some (i @ '':'' @ nat_str v),
       dv_leaseExpiresAt := Some (t + 180000), dv_dispatchStarted := True, dv_nextAttemptAt := None,
       dv_error := None, dv_updatedAt := t\<rparr>"
  have ids: "ids_ok s" using inv by (simp add: gw_inv_def)
  have m': "m = ?f d\<lparr>dv_version := dv_version d + 1\<rparr> \<and> ids_ok s' \<and>
      (\<forall>k. getDeliveryById k s' = (if k = i then Some m else getDeliveryById k s))"
    using update_delivery_ok[OF ids _ m[unfolded markDeliverySending_def]] d by fastforce
  have "dv_id m = i" using m' get_id[OF d] by simp
  moreover have "row_inv m (dispatches i (lg @ [LDispatch i])) (outcomes i (lg @ [LDispatch i]))
      (flights_of i (fls @ [\<lparr>fl_id = i, fl_version = dv_version m, fl_adapterId = a, fl_stateVersion = sv\<rparr>]))"
    using gw_invD[OF inv d] m' st by (auto simp: row_inv_def filter_empty_conv)
  ultimately show ?thesis using m' by (auto intro!: gw_inv_change[OF inv])
qed

text \<open>The first part of a delivery keeps the invariant, with the new flight when it dispatches.\<close>
definition begun_ok :: "flight list \<Rightarrow> gw_log list \<Rightarrow> begun msg_result \<Rightarrow> bool" where
  "begun_ok fls lg r \<longleftrightarrow> (case fst r of
      Inr (Dispatch f) \<Rightarrow> gw_inv (snd r) (fls @ [f]) (lg @ [LDispatch (fl_id f)])
    | _ \<Rightarrow> gw_inv (snd r) fls lg)"

lemma begun_ok_simps [simp]:
  "begun_ok fls lg (Inl e, s) = gw_inv s fls lg"
  "begun_ok fls lg (Inr (Replied rc), s) = gw_inv s fls lg"
  "begun_ok fls lg (Inr (Dispatch f), s) = gw_inv s (fls @ [f]) (lg @ [LDispatch (fl_id f)])"
  by (simp_all add: begun_ok_def)

lemma begun_bind:
  assumes "gw_inv (snd q) fls lg" "\<And>a s'. q = (Inr a, s') \<Longrightarrow> begun_ok fls lg (g a s')"
  shows "begun_ok fls lg (bind q g)"
  using assms by (cases q; cases "fst q") auto

lemma begun_refuse: "gw_inv s fls lg \<Longrightarrow> begun_ok fls lg (deliver_refuse E d err t s)"
  unfolding deliver_refuse_def
  by (rule begun_bind) (auto dest: failBefore_inv, metis failBefore_inv snd_conv)

lemma begun_dispatch:
  assumes inv: "gw_inv s fls lg" and d: "getDeliveryById (dv_id d) s = Some d"
    and st: "dv_status d = DvPending \<or> dv_status d = DvRetryWait"
  shows "begun_ok fls lg (deliver_dispatch E d ad t s)"
  unfolding deliver_dispatch_def
proof (rule begun_bind)
  fix ast s1 assume "requiredAdapterState (apt_id ad) s = (Inr ast, s1)"
  then have s1: "s1 = s" by (metis requiredAdapterState_snd snd_conv)
  obtain res s2 where m: "markDeliverySending E (dv_id d) (dv_version d) t s = (res, s2)"
    by (cases "markDeliverySending E (dv_id d) (dv_version d) t s")
  have "s2 = s" if "res = Inl e" for e
    using update_delivery_fault[OF _ _ m[unfolded markDeliverySending_def that]] inv by (simp add: gw_inv_def)
  then show "begun_ok fls lg (if isAdapterBlocked ast
     then (Inr (Replied (plain_receipt d RcBlocked (Some (t + 30000)) TxtBlocked)), s1)
     else bind (markDeliverySending E (dv_id d) (dv_version d) t s1) (\<lambda>m s2.
       (Inr (Dispatch \<lparr>fl_id = dv_id m, fl_version = dv_version m,
          fl_adapterId = apt_id ad, fl_stateVersion = ad_version ast\<rparr>), s2)))"
    using inv mark_inv[OF inv d st] m by (cases res) (auto simp: s1)
qed (use inv in simp)

lemma begin_inv:
  assumes inv: "gw_inv s fls lg"
  shows "begun_ok fls lg (deliver_begin E ads r t s)"
  unfolding deliver_begin_def
proof (rule begun_bind)
  show inv1: "gw_inv (snd (recoverExpiredDeliveries E t s)) fls lg" by (rule recover_inv[OF inv])
  fix u s1 assume "recoverExpiredDeliveries E t s = (Inr u, s1)"
  then have i1: "gw_inv s1 fls lg" using inv1 by simp
  show "begun_ok fls lg (bind (reserveDelivery E r t s1) (\<lambda>reserved s2.
      deliver_reserved E ads r t (fst reserved) (snd reserved) s2))"
  proof (rule begun_bind)
    show "gw_inv (snd (reserveDelivery E r t s1)) fls lg" by (rule reserve_inv[OF i1])
    fix got s2 assume g: "reserveDelivery E r t s1 = (Inr got, s2)"
    then have i2: "gw_inv s2 fls lg" using reserve_inv[OF i1, of E r t] by simp
    have d: "getDeliveryById (dv_id (fst got)) s2 = Some (fst got)"
      and p: "snd got \<or> dv_status (fst got) = DvPending"
      using reserve_row[of s1 E r t "fst got" "snd got" s2] g i1 by (auto simp: gw_inv_def)
    have st: "dv_status (fst got) = DvPending \<or> dv_status (fst got) = DvRetryWait"
      if "replayReceipt (fst got) (snd got) t = None" "dv_status (fst got) \<noteq> DvSending"
      using that p by (cases "dv_status (fst got)") (auto simp: replayReceipt_def is_final_def split: if_splits)
    show "begun_ok fls lg (deliver_reserved E ads r t (fst got) (snd got) s2)"
      using i2 begun_refuse[OF i2] begun_dispatch[OF i2 d st]
      by (auto simp: deliver_reserved_def split: option.split)
  qed
qed

subsection \<open>The second part, and everything else\<close>

lemma flights_remove:
  "flights_of i (xs @ f # ys) = flights_of i xs @ (if fl_id f = i then f # flights_of i ys else flights_of i ys)"
  by simp

text \<open>An outcome for a row that no longer waits for it.\<close>
lemma unsettled_inv:
  assumes inv: "gw_inv s (xs @ f # ys) lg"
    and row: "\<And>d. getDeliveryById (fl_id f) s = Some d \<Longrightarrow> dv_version d = fl_version f \<Longrightarrow> dv_status d \<noteq> DvSending"
  shows "gw_inv s (xs @ ys) (lg @ [LOutcome (fl_id f) k])"
proof -
  obtain d where d: "getDeliveryById (fl_id f) s = Some d"
    using gw_invN[OF inv, of "fl_id f"] by (cases "getDeliveryById (fl_id f) s") auto
  have r: "row_inv d (dispatches (fl_id f) lg) (outcomes (fl_id f) lg) (flights_of (fl_id f) (xs @ f # ys))"
    by (rule gw_invD[OF inv d])
  then have "dv_status d = DvSending \<Longrightarrow> dv_version d = fl_version f" by (auto simp: row_inv_def)
  then have "dv_status d \<noteq> DvSending" using row[OF d] by blast
  then have "row_inv d (dispatches (fl_id f) (lg @ [LOutcome (fl_id f) k]))
      (outcomes (fl_id f) (lg @ [LOutcome (fl_id f) k])) (flights_of (fl_id f) (xs @ ys))"
    using r by (auto simp: row_inv_def split: delivery_status.splits)
  moreover have "\<forall>k. getDeliveryById k s = (if k = fl_id f then Some d else getDeliveryById k s)"
    using d by simp
  ultimately show ?thesis
    using gw_inv_change[OF inv, of s "fl_id f" d "lg @ [LOutcome (fl_id f) k]" "xs @ ys"] inv
    by (auto simp: gw_inv_def)
qed

text \<open>Whatever comes back, and whether or not the row still waits for it.\<close>
lemma settle_inv:
  assumes inv: "gw_inv s (xs @ f # ys) lg" and id: "\<And>d. dv_id (g d) = dv_id d"
    and g: "\<And>d. getDeliveryById (fl_id f) s = Some d \<Longrightarrow> dv_attempts (g d) = dv_attempts d \<and>
      (if k = Some RetryableBeforeDispatch \<and> dv_attempts d < 3 then dv_status (g d) = DvRetryWait
       else is_final (dv_status (g d)))"
  shows "gw_inv (snd (update_delivery (fl_id f) (fl_version f) {DvSending} g s)) (xs @ ys)
     (lg @ [LOutcome (fl_id f) k])"
proof (rule update_inv[OF inv id])
  fix d assume d: "getDeliveryById (fl_id f) s = Some d" and st: "dv_status d \<in> {DvSending}"
  have "row_inv d (dispatches (fl_id f) lg) (outcomes (fl_id f) lg) (flights_of (fl_id f) (xs @ f # ys))"
    by (rule gw_invD[OF inv d])
  then have "flights_of (fl_id f) xs = [] \<and> flights_of (fl_id f) ys = [] \<and>
      0 < dv_attempts d \<and> dv_attempts d \<le> 3 \<and> dispatches (fl_id f) lg = dv_attempts d \<and>
      outcomes (fl_id f) lg = retryables (dv_attempts d - 1)"
    using st by (auto simp: row_inv_def)
  moreover have "retryables (dv_attempts d - 1) @ [Some RetryableBeforeDispatch] = retryables (dv_attempts d)"
    if "0 < dv_attempts d" using that by (cases "dv_attempts d") (simp_all add: replicate_append_same)
  ultimately show "row_inv (g d\<lparr>dv_version := dv_version d + 1\<rparr>) (dispatches (fl_id f) (lg @ [LOutcome (fl_id f) k]))
      (outcomes (fl_id f) (lg @ [LOutcome (fl_id f) k])) (flights_of (fl_id f) (xs @ ys))"
    using g[OF d] by (auto simp: row_inv_def is_final_def split: if_splits)
next
  fix e assume e: "fst (update_delivery (fl_id f) (fl_version f) {DvSending} g s) = Inl e"
  show "gw_inv s (xs @ ys) (lg @ [LOutcome (fl_id f) k])"
    using update_delivery_fault_none[OF _ e id] inv
    by (intro unsettled_inv[OF inv]) (auto simp: gw_inv_def)
qed auto

lemma after_settled:
  "gw_inv (snd r) fls lg \<Longrightarrow> (\<And>a s. ms_deliveries (snd (h a s)) = ms_deliveries s) \<Longrightarrow>
     gw_inv (snd (bind r h)) fls lg"
  by (rule bind_store) (simp_all cong: gw_inv_cong)

text \<open>The bookkeeping after the row is settled leaves the deliveries alone.\<close>
lemma bookkeeping_frame:
  "ms_deliveries (snd (bind (requiredAdapterState i s) (\<lambda>st s2.
     bind (saveAdapterState E (h st) (Some (ad_version st)) s2) (\<lambda>_ s3.
     bind (appendDeliveryEvent E d s3) (\<lambda>_ s4. (Inr x, s4)))))) = ms_deliveries s"
  by (rule bind_store[where P = "\<lambda>y. ms_deliveries y = ms_deliveries s"], simp,
      rule bind_store, simp, rule bind_store, simp_all add: appendDeliveryEvent_def)

lemma end_inv:
  assumes inv: "gw_inv s (xs @ f # ys) lg"
  shows "gw_inv (snd (deliver_end E f res t s)) (xs @ ys) (lg @ [LOutcome (fl_id f) (outcome_kind res)])"
proof (cases res)
  case (Accepted pmid acceptedAt)
  have "gw_inv (snd (completeDelivery (fl_id f) (fl_version f) pmid acceptedAt t s)) (xs @ ys)
      (lg @ [LOutcome (fl_id f) None])"
    unfolding completeDelivery_def by (rule settle_inv[OF inv]) (auto simp: is_final_def)
  then show ?thesis
    unfolding deliver_end_def Accepted send_result.case outcome_kind_def
    by (rule after_settled) (rule bookkeeping_frame)
next
  case (Failure kind err)
  have "gw_inv (snd (failDelivery E (fl_id f) (fl_version f) kind err t s)) (xs @ ys)
      (lg @ [LOutcome (fl_id f) (Some kind)])"
  proof (cases "kind = RetryableBeforeDispatch \<and> getDeliveryById (fl_id f) s = None")
    case True
    then show ?thesis using unsettled_inv[OF inv] by (simp add: failDelivery_def)
  next
    case False
    then show ?thesis unfolding failDelivery_def Let_def
      by (simp only: if_False) (rule settle_inv[OF inv], auto simp: is_final_def split: failure_kind.splits)
  qed
  then show ?thesis
    unfolding deliver_end_def Failure send_result.case outcome_kind_def
    by (rule after_settled) (rule bookkeeping_frame)
qed

text \<open>Operations beside deliveries touch deliveries only when they recover expired ones.\<close>
abbreviation same_deliveries :: "msg_store \<Rightarrow> msg_store \<Rightarrow> bool" where
  "same_deliveries s s' \<equiv> ms_deliveries s' = ms_deliveries s"

lemma bind_same:
  "same_deliveries s (snd r) \<Longrightarrow> (\<And>a x. same_deliveries s x \<Longrightarrow> same_deliveries s (snd (f a x))) \<Longrightarrow>
     same_deliveries s (snd (bind r f))"
  by (rule bind_store[where P = "same_deliveries s"])

lemma savepoint_same: "same_deliveries s (snd r) \<Longrightarrow> same_deliveries s (snd (savepoint s r))"
  by (rule savepoint_store[where P = "same_deliveries s"]) simp_all

lemma receive_same: "same_deliveries s (snd (receive E env given s))"
  unfolding receive_def
proof (rule savepoint_same, rule bind_same)
  show "same_deliveries s (snd (receiveEnvelope E env s))"
    by (simp add: receiveEnvelope_def split: option.split)
  fix got x assume x: "same_deliveries s x"
  have fold: "same_deliveries s (snd (foldl (\<lambda>r d. bind r (store_attachment E given (fst got) d)) r0 ds))"
    if "same_deliveries s (snd r0)" for r0 ds
    using that
  proof (induction ds arbitrary: r0)
    case (Cons d ds)
    have "same_deliveries s (snd (bind r0 (store_attachment E given (fst got) d)))"
      by (rule bind_same[OF Cons.prems]) simp
    then show ?case using Cons.IH by simp
  qed simp
  show "same_deliveries s (snd (bind (foldl (\<lambda>r d. bind r (store_attachment E given (fst got) d)) (Inr (), x)
      (env_attachments env)) (\<lambda>_ s2. bind (requiredInbound (fst got) s2) (\<lambda>r s3.
        if length (inbound_payloads (ib_envelope r) s3) \<noteq> length (env_attachments env)
        then (Inl AttachmentsNotPersisted, s3) else (Inr (r, snd got), s3)))))"
    by (rule bind_same, rule fold, simp add: x, rule bind_same) auto
qed

lemma claim_same: "same_deliveries s (snd (claimInbound E limit w l t s))"
proof -
  have "ms_deliveries (snd (foldl (claim_turn E w l t) acc cs)) = ms_deliveries (snd acc)" for acc cs
    by (induction cs arbitrary: acc) (simp_all add: snd_claim_turn claim_candidate_def Let_def)
  then show ?thesis by (simp add: claimInbound_snd split: option.split)
qed

lemma inbound_same: "same_deliveries s (inbound_exec E op s)"
proof (cases op)
  case (OpFinish i f t v tok)
  show ?thesis unfolding OpFinish inbound_exec.simps finishInbound_def Let_def
    by (rule savepoint_same, simp, rule impI, rule bind_same, simp, rule bind_same)
      (simp_all add: appendInboundCompletionEvent_def)
qed (auto simp: claim_same receive_same claimInboundById_def claim_candidate_def renewInboundLease_def Let_def
    case_prod_unfold split: option.split)

lemma other_same: "(\<And>t. op \<noteq> GRecover t) \<Longrightarrow> same_deliveries s (other_exec E op s)"
proof (cases op)
  case (GRegister ads ad same t)
  then show ?thesis
    by (auto simp: register_adapter_def Let_def intro!: bind_same split: option.split)
next
  case (GIngest env given)
  show ?thesis unfolding GIngest other_exec.simps ingest_def
    by (rule bind_same, rule receive_same, rule bind_same) auto
qed (auto simp: pauseAdapter_def resumeAdapter_def health_end_def poll_end_def appendAdapterEvent_def
    inbound_same intro!: bind_same)

lemma other_inv:
  assumes "gw_inv s fls lg"
  shows "gw_inv (other_exec E op s) fls lg"
proof (cases "\<exists>t. op = GRecover t")
  case True
  then show ?thesis using recover_inv[OF assms] by auto
next
  case False
  then have "same_deliveries s (other_exec E op s)" by (intro other_same) blast
  from gw_inv_cong[OF this] show ?thesis using assms by simp
qed

lemma gw_step_inv:
  "gw_step g g' \<Longrightarrow> gw_inv (gs_store g) (gs_flights g) (gs_log g) \<Longrightarrow>
     gw_inv (gs_store g') (gs_flights g') (gs_log g')"
proof (induction rule: gw_step.induct)
  case (begin_dispatch E ads r t s f s' fls lg)
  then show ?case using begin_inv[of s fls lg E ads r t] by simp
next
  case (begin_other E ads r t s res s' fls lg)
  then show ?case using begin_inv[of s fls lg E ads r t]
    by (cases res) (auto simp: begun_ok_def split: begun.splits)
next
  case (finish E f res t s rc s' fls fls' lg)
  then show ?case using end_inv[of s fls f fls' lg E res t] by simp
next
  case (crash s fls f fls' lg)
  then have inv: "gw_inv s (fls @ f # fls') lg" by simp
  have "gw_inv s (fls @ fls') lg"
    unfolding gw_inv_def
  proof (intro conjI allI)
    show "ids_ok s" using inv by (simp add: gw_inv_def)
    fix i
    show "case getDeliveryById i s of
        None \<Rightarrow> dispatches i lg = 0 \<and> outcomes i lg = [] \<and> flights_of i (fls @ fls') = []
      | Some d \<Rightarrow> row_inv d (dispatches i lg) (outcomes i lg) (flights_of i (fls @ fls'))"
    proof (cases "getDeliveryById i s")
      case None
      then show ?thesis using gw_invN[OF inv None] by (auto split: if_splits)
    next
      case (Some d)
      then show ?thesis using gw_invD[OF inv Some] by (auto simp: row_inv_def split: delivery_status.splits if_splits)
    qed
  qed
  then show ?case by simp
next
  case (other s fls lg E op)
  then show ?case using other_inv by simp
qed

lemma gw_reachable_inv: "gw_reachable g \<Longrightarrow> gw_inv (gs_store g) (gs_flights g) (gs_log g)"
proof (induction rule: gw_reachable.induct)
  case init
  then show ?case by (simp add: gw_init_def gw_inv_def ids_ok_def empty_store_def getDeliveryById_def)
qed (rule gw_step_inv)

subsection \<open>Settled deliveries\<close>

definition settled :: "ident \<Rightarrow> delivery_row \<Rightarrow> msg_store \<Rightarrow> bool" where
  "settled i d s \<longleftrightarrow> ids_ok s \<and> getDeliveryById i s = Some d \<and> is_final (dv_status d)"

lemma settled_cong: "ms_deliveries s' = ms_deliveries s \<Longrightarrow> settled i d s' = settled i d s"
  by (simp add: settled_def ids_ok_def getDeliveryById_def)

lemma settled_update:
  assumes "settled i d s" "\<And>x. dv_id (f x) = dv_id x" "j = i \<longrightarrow> dv_status d \<notin> sts"
  shows "settled i d (snd (update_delivery j v sts f s))"
proof -
  have ids: "ids_ok s" using assms(1) by (simp add: settled_def)
  obtain res s' where r: "update_delivery j v sts f s = (res, s')" by (cases "update_delivery j v sts f s")
  show ?thesis
  proof (cases res)
    case (Inl e)
    with r update_delivery_fault[OF ids assms(2), of j v sts e s'] assms(1) show ?thesis by simp
  next
    case (Inr d')
    from update_delivery_ok[OF ids assms(2) r[unfolded Inr]] r assms(1,3) show ?thesis
      by (auto simp: settled_def)
  qed
qed

lemma settled_recover:
  assumes "settled i d s"
  shows "settled i d (snd (recoverExpiredDeliveries E t s))"
proof -
  let ?s1 = "s\<lparr>ms_deliveries := upd_where (delivery_expired t) (recover_row t) (ms_deliveries s)\<rparr>"
  have id: "dv_id (recover_row t x) = dv_id x" for x by (simp add: recover_row_def)
  have "\<not> delivery_expired t d"
    using assms by (auto simp: settled_def delivery_expired_def is_final_def)
  then have "settled i d ?s1"
    using assms ids_ok_upd[OF id] get_upd[OF id, where p = "delivery_expired t"] by (simp add: settled_def)
  then show ?thesis
    unfolding recoverExpiredDeliveries_def Let_def
    by (intro savepoint_store[where P = "settled i d", OF assms])
      (subst settled_cong[of _ ?s1], simp_all add: events_fold_frame)
qed

lemma settled_reserve:
  assumes "settled i d s"
  shows "settled i d (snd (reserveDelivery E r t s))"
proof -
  have app: "find P (xs @ ys) = (case find P xs of None \<Rightarrow> find P ys | Some x \<Rightarrow> Some x)"
    for P :: "delivery_row \<Rightarrow> bool" and xs ys by (induction xs) auto
  show ?thesis using assms
    by (auto simp: reserveDelivery_def Let_def settled_def ids_ok_def getDeliveryById_def app split: option.split)
qed

lemma settled_refuse:
  assumes "settled i d s"
  shows "settled i d (snd (deliver_refuse E x err t s))"
proof -
  have "dv_status d \<notin> {DvPending, DvRetryWait}" using assms by (auto simp: settled_def is_final_def)
  then have "settled i d (snd (failDeliveryBeforeDispatch E (dv_id x) (dv_version x) err t s))"
    unfolding failDeliveryBeforeDispatch_def Let_def by (intro settled_update[OF assms]) simp_all
  then show ?thesis unfolding deliver_refuse_def by (rule bind_store[where P = "settled i d"]) simp
qed

lemma settled_dispatch:
  assumes "settled i d s" "getDeliveryById (dv_id x) s = Some x" "\<not> is_final (dv_status x)"
  shows "settled i d (snd (deliver_dispatch E x ad t s))"
proof -
  have "dv_id x \<noteq> i" using assms by (auto simp: settled_def)
  then have m: "settled i d (snd (markDeliverySending E (dv_id x) (dv_version x) t s))"
    unfolding markDeliverySending_def by (intro settled_update[OF assms(1)]) simp_all
  show ?thesis
  proof (cases "requiredAdapterState (apt_id ad) s")
    case (Pair res s1)
    then have "s1 = s" by (metis requiredAdapterState_snd snd_conv)
    then show ?thesis using Pair assms(1) m
      by (cases res) (auto simp: deliver_dispatch_def intro!: bind_store[where P = "settled i d", OF m])
  qed
qed

lemma settled_begin:
  assumes "settled i d s"
  shows "settled i d (snd (deliver_begin E ads r t s))"
  unfolding deliver_begin_def
proof (rule bind_store[where P = "settled i d", OF settled_recover[OF assms]])
  fix u s1 assume s1: "settled i d s1"
  show "settled i d (snd (bind (reserveDelivery E r t s1) (\<lambda>reserved s2.
      deliver_reserved E ads r t (fst reserved) (snd reserved) s2)))"
  proof (cases "reserveDelivery E r t s1")
    case (Pair res s2)
    then have s2: "settled i d s2" using settled_reserve[OF s1, of E r t] by simp
    show ?thesis
    proof (cases res)
      case (Inr got)
      then have d: "getDeliveryById (dv_id (fst got)) s2 = Some (fst got)"
        and p: "snd got \<or> dv_status (fst got) = DvPending"
        using reserve_row[of s1 E r t "fst got" "snd got" s2] Pair s1 by (auto simp: settled_def)
      have nf: "\<not> is_final (dv_status (fst got))" if "replayReceipt (fst got) (snd got) t = None"
        using that p by (auto simp: replayReceipt_def is_final_def split: if_splits)
      show ?thesis
        using s2 Pair Inr settled_refuse[OF s2] settled_dispatch[OF s2 d nf]
        by (auto simp: deliver_reserved_def split: option.split)
    qed (use Pair s2 in simp)
  qed
qed

lemma settled_end:
  assumes "settled i d s"
  shows "settled i d (snd (deliver_end E f res t s))"
proof -
  have ns: "dv_status d \<notin> {DvSending}" using assms by (auto simp: settled_def is_final_def)
  have after: "settled i d (snd (bind r h))"
    if "settled i d (snd r)" "\<And>a s. same_deliveries s (snd (h a s))" for r :: "delivery_row msg_result" and h :: "delivery_row \<Rightarrow> msg_store \<Rightarrow> delivery_receipt msg_result"
    using that(1) by (rule bind_store[where P = "settled i d"]) (simp add: settled_cong[OF that(2)])
  have c: "settled i d (snd (completeDelivery (fl_id f) (fl_version f) p a t s))" for p a
    unfolding completeDelivery_def using ns by (intro settled_update[OF assms]) simp_all
  have b: "settled i d (snd (failDelivery E (fl_id f) (fl_version f) k err t s))" for k err
  proof (cases "k = RetryableBeforeDispatch \<and> getDeliveryById (fl_id f) s = None")
    case False
    then show ?thesis unfolding failDelivery_def Let_def
      by (simp only: if_False) (rule settled_update[OF assms], use ns in simp_all)
  qed (use assms in \<open>simp add: failDelivery_def\<close>)
  show ?thesis
    unfolding deliver_end_def
    by (cases res) (auto intro!: after[OF c] after[OF b] bookkeeping_frame)
qed

lemma settled_other: "settled i d s \<Longrightarrow> settled i d (other_exec E op s)"
proof (cases "\<exists>t. op = GRecover t")
  case False
  assume s: "settled i d s"
  from False have "same_deliveries s (other_exec E op s)" by (intro other_same) blast
  from settled_cong[OF this] s show ?thesis by simp
qed (auto intro: settled_recover)

lemma settled_step: "gw_step g g' \<Longrightarrow> settled i d (gs_store g) \<Longrightarrow> settled i d (gs_store g')"
proof (induction rule: gw_step.induct)
  case (begin_dispatch E ads r t s f s' fls lg)
  then show ?case using settled_begin[of i d s E ads r t] by simp
next
  case (begin_other E ads r t s res s' fls lg)
  then show ?case using settled_begin[of i d s E ads r t] by simp
next
  case (finish E f res t s rc s' fls fls' lg)
  then show ?case using settled_end[of i d s E f res t] by simp
qed (auto intro: settled_other)

lemma settled_steps: "gw_step\<^sup>*\<^sup>* g g' \<Longrightarrow> settled i d (gs_store g) \<Longrightarrow> settled i d (gs_store g')"
  by (induction rule: rtranclp_induct) (auto intro: settled_step)

lemma gw_reachable_steps: "gw_reachable g \<Longrightarrow> gw_step\<^sup>*\<^sup>* g g' \<Longrightarrow> gw_reachable g'"
  by (rotate_tac, induction rule: rtranclp_induct) (auto intro: gw_reachable.step)

subsection \<open>A concrete delivery\<close>

definition sample_adapter :: adapter where
  "sample_adapter = \<lparr>apt_id = ''smtp'', apt_channel = ''email'', apt_provider = ''smtp'',
     apt_capabilities = [SendText], apt_polls = False\<rparr>"

definition sample_request :: sent_request where
  "sample_request = \<lparr>rq_tenantId = ''t'', rq_adapterId = ''smtp'', rq_channel = ''email'',
     rq_idempotencyKey = ''k'', rq_sender = None, rq_recipients = [], rq_subject = None, rq_text = ''x'',
     rq_attachments = [], rq_thread = None, rq_trace = \<lparr>tr_source = [], tr_sourceId = [], tr_correlationId = []\<rparr>\<rparr>"

definition sample_gw :: msg_store where
  "sample_gw = snd (register_adapter sample_env sample_adapter False 0 [] empty_store)"

definition sample_flight :: flight where
  "sample_flight = \<lparr>fl_id = ''messaging-delivery:t'' @ nul @ ''smtp'' @ nul @ ''k'', fl_version = 2,
     fl_adapterId = ''smtp'', fl_stateVersion = 1\<rparr>"

lemmas eval_store = saveAdapterState_def writeAdapterState_def getAdapterState_def requiredAdapterState_def
  adapter_event_type_def append_event_def appendEvent_def redact_opt_def empty_store_def sample_env_def

lemma sample_gw_eq: "ms_deliveries sample_gw = []" "ms_adapters sample_gw = [fresh_adapter\<lparr>ad_version := 1\<rparr>]"
  by (simp_all add: sample_gw_def register_adapter_def sample_adapter_def eval_store fresh_adapter_def Let_def)

lemma sample_begin: "\<exists>s. deliver_begin sample_env [(''smtp'', sample_adapter)] sample_request 5 sample_gw =
    (Inr (Dispatch sample_flight), s) \<and>
    (\<exists>d. getDeliveryById (fl_id sample_flight) s = Some d \<and> dv_status d = DvSending \<and> dv_version d = 2)"
  by (simp add: deliver_begin_def recoverExpiredDeliveries_def sample_gw_eq reserveDelivery_def sample_request_def
      deliver_reserved_def replayReceipt_def validateRequest_def sample_adapter_def deliver_dispatch_def
      requiredAdapterState_def getAdapterState_def fresh_adapter_def isAdapterBlocked_def
      markDeliverySending_def update_delivery_def changes_def requiredDelivery_def getDeliveryById_def Let_def
      sample_env_def delivery_id_def sample_flight_def upd_where_def)

definition sample_begun :: msg_store where
  "sample_begun = snd (deliver_begin sample_env [(''smtp'', sample_adapter)] sample_request 5 sample_gw)"

definition sample_done :: gw_system where
  "sample_done = \<lparr>gs_store = snd (deliver_end sample_env sample_flight (Accepted ''p1'' 9) 9 sample_begun),
     gs_flights = [], gs_log = [LDispatch (fl_id sample_flight), LOutcome (fl_id sample_flight) None]\<rparr>"

lemma sample_done_reachable: "gw_reachable sample_done"
proof -
  obtain s where b: "deliver_begin sample_env [(''smtp'', sample_adapter)] sample_request 5 sample_gw =
    (Inr (Dispatch sample_flight), s)" using sample_begin by blast
  obtain rc s' where e: "deliver_end sample_env sample_flight (Accepted ''p1'' 9) 9 s = (rc, s')"
    by (cases "deliver_end sample_env sample_flight (Accepted ''p1'' 9) 9 s")
  have "gw_reachable \<lparr>gs_store = sample_gw, gs_flights = [], gs_log = []\<rparr>"
    using gw_reachable.step[OF gw_reachable.init[unfolded gw_init_def]
      other[of empty_store "[]" "[]" sample_env "GRegister [] sample_adapter False 0"]]
    by (simp add: sample_gw_def)
  from gw_reachable.step[OF this begin_dispatch[OF b]]
  have "gw_reachable \<lparr>gs_store = s, gs_flights = [] @ sample_flight # [], gs_log = [LDispatch (fl_id sample_flight)]\<rparr>"
    by simp
  from gw_reachable.step[OF this finish[OF e]] show ?thesis
    using b e by (simp add: sample_done_def sample_begun_def outcome_kind_def)
qed

lemma sample_done_row: "\<exists>d. getDeliveryById (fl_id sample_flight) (gs_store sample_done) = Some d \<and> dv_status d = DvAccepted"
proof -
  obtain s d where b: "deliver_begin sample_env [(''smtp'', sample_adapter)] sample_request 5 sample_gw =
      (Inr (Dispatch sample_flight), s)"
    and d: "getDeliveryById (fl_id sample_flight) s = Some d" "dv_status d = DvSending" "dv_version d = 2"
    using sample_begin by blast
  have ids: "ids_ok s"
    using begin_inv[of sample_gw "[]" "[]" sample_env "[(''smtp'', sample_adapter)]" sample_request 5] b
    by (auto simp: gw_inv_def ids_ok_def sample_gw_eq getDeliveryById_def)
  obtain res s' where c: "completeDelivery (fl_id sample_flight) (fl_version sample_flight) ''p1'' 9 9 s = (res, s')"
    by (cases "completeDelivery (fl_id sample_flight) (fl_version sample_flight) ''p1'' 9 9 s")
  have v: "fl_version sample_flight = 2" by (simp add: sample_flight_def)
  have "\<exists>d'. getDeliveryById (fl_id sample_flight) s' = Some d' \<and> dv_status d' = DvAccepted \<and> (\<exists>x. res = Inr x)"
  proof (cases res)
    case (Inl e)
    then have "fst (completeDelivery (fl_id sample_flight) (fl_version sample_flight) ''p1'' 9 9 s) = Inl e"
      using c by simp
    then show ?thesis using update_delivery_fault_none[OF ids _ _ d(1)] d(2,3)
      unfolding completeDelivery_def v by fastforce
  next
    case (Inr d')
    from update_delivery_ok[OF ids _ c[unfolded completeDelivery_def Inr]] Inr show ?thesis by auto
  qed
  then obtain d' x where s': "getDeliveryById (fl_id sample_flight) s' = Some d'" "dv_status d' = DvAccepted"
    "res = Inr x" by blast
  have "same_deliveries s' (gs_store sample_done)"
    using b c s'(3) bookkeeping_frame[of "fl_adapterId sample_flight" s' sample_env
        "\<lambda>st. recordAdapterSuccess st (dv_updatedAt x) (fl_stateVersion sample_flight)" x "deliveryReceipt x False"]
    by (simp add: sample_done_def sample_begun_def deliver_end_def)
  then show ?thesis using s' by (auto simp: getDeliveryById_def)
qed

subsection \<open>Properties\<close>

text \<open>C1 The at-most-once discipline of sending, over all interleavings of any number of deliveries,
  outcomes, crashes, lease recoveries, adapter controls and inbound work: a delivery is handed to
  its adapter at most three times, never by two calls at once, and again only after every earlier
  call has come back with a failure before dispatch.\<close>
theorem gateway_dispatch_discipline:
  assumes "gw_reachable g"
  shows "dispatches i (gs_log g) \<le> 3 \<and> length (flights_of i (gs_flights g)) \<le> 1 \<and>
    take (dispatches i (gs_log g) - 1) (outcomes i (gs_log g)) =
      replicate (dispatches i (gs_log g) - 1) (Some RetryableBeforeDispatch) \<and>
    length (outcomes i (gs_log g)) \<le> dispatches i (gs_log g)"
proof (cases "getDeliveryById i (gs_store g)")
  case None
  then show ?thesis using gw_invN[OF gw_reachable_inv[OF assms] None] by simp
next
  case (Some d)
  then show ?thesis using gw_invD[OF gw_reachable_inv[OF assms] Some]
    by (auto simp: row_inv_def split: delivery_status.splits)
qed

theorem gateway_dispatch_discipline_witness:
  "dispatches (fl_id sample_flight) (gs_log sample_done) = 1 \<and>
   length (outcomes (fl_id sample_flight) (gs_log sample_done)) \<le> 1"
  using gateway_dispatch_discipline[OF sample_done_reachable, of "fl_id sample_flight"]
  by (simp add: sample_done_def dispatches_def)

text \<open>C4 A delivery that is accepted, failed, unknown or abandoned is settled for good: nothing that
  happens later, in whatever order, changes its row or calls an adapter for it again.\<close>
theorem settled_delivery_final:
  assumes "gw_reachable g" "getDeliveryById i (gs_store g) = Some d" "is_final (dv_status d)"
    "gw_step\<^sup>*\<^sup>* g g'"
  shows "getDeliveryById i (gs_store g') = Some d \<and> dispatches i (gs_log g') = dispatches i (gs_log g)"
proof -
  have inv: "gw_inv (gs_store g) (gs_flights g) (gs_log g)" "gw_inv (gs_store g') (gs_flights g') (gs_log g')"
    using gw_reachable_inv gw_reachable_steps assms(1,4) by blast+
  have "settled i d (gs_store g)" using inv(1) assms(2,3) by (simp add: settled_def gw_inv_def)
  then have "getDeliveryById i (gs_store g') = Some d"
    using settled_steps[OF assms(4)] by (simp add: settled_def)
  then show ?thesis using gw_invD[OF inv(1) assms(2)] gw_invD[OF inv(2)] by (simp add: row_inv_def)
qed

theorem settled_delivery_final_witness:
  "\<exists>d. getDeliveryById (fl_id sample_flight) (gs_store sample_done) = Some d \<and> dv_status d = DvAccepted"
proof -
  obtain d where d: "getDeliveryById (fl_id sample_flight) (gs_store sample_done) = Some d" "dv_status d = DvAccepted"
    using sample_done_row by blast
  from settled_delivery_final[OF sample_done_reachable d(1) _ rtranclp.rtrancl_refl] d(2) show ?thesis
    by (auto simp: is_final_def)
qed

end
