(* ===== verification/ProjectionQueue.thy ===== *)
theory ProjectionQueue
  imports LeaseQueue "HOL-Library.Product_Lexorder"
begin

text \<open>
  The twin projection queue (\<open>packages/context/src/projection-queue.ts\<close>) and the enqueueing of
  projections inside a business transaction (\<open>packages/persistence/src/twin-projection-enqueue.ts\<close>):
  the jobs of one tenant with leases, retries, dead letters and their replay.  Times are instants
  that have already been parsed (the code rejects a text that is no date before anything else);
  random identifiers and the redaction of error texts are arguments.
\<close>

subsection \<open>Data\<close>

datatype pj_status = PjQueued | PjProcessing | PjRetryWait | PjSucceeded | PjDeadLetter

record projection_job =
  pj_id :: ident
  pj_sourceTable :: string
  pj_sourceKey :: string
  pj_sourceRevision :: string
  pj_eventType :: string
  pj_payloadHash :: string
  pj_status :: pj_status
  pj_attempts :: nat
  pj_maxAttempts :: nat
  pj_availableAt :: instant
  pj_leaseOwner :: "string option"
  pj_leaseToken :: "string option"
  pj_leaseExpiresAt :: "instant option"
  pj_watermark :: "string option"
  pj_lastError :: "string option"
  pj_createdAt :: instant
  pj_updatedAt :: instant
  pj_completedAt :: "instant option"

record enqueue_input =
  eq_sourceTable :: string
  eq_sourceKey :: string
  eq_sourceRevision :: string
  eq_eventType :: string
  eq_payloadHash :: string
  eq_availableAt :: instant

text \<open>The security event of a payload conflict, and the activity of a replay.\<close>
record payload_conflict =
  pc_jobId :: ident
  pc_sourceTable :: string
  pc_sourceKey :: string
  pc_sourceRevision :: string
  pc_eventType :: string
  pc_existingHash :: string
  pc_incomingHash :: string
  pc_at :: instant

record replay_activity =
  ra_id :: ident
  ra_at :: instant
  ra_objectId :: ident
  ra_actor :: string
  ra_attempts :: nat
  ra_previousAttempts :: nat

record projection_db =
  pq_jobs :: "projection_job list"
  pq_conflicts :: "payload_conflict list"
  pq_activities :: "replay_activity list"

record pj_counts =
  ct_queued :: nat
  ct_processing :: nat
  ct_retryWait :: nat
  ct_succeeded :: nat
  ct_deadLetter :: nat

datatype pj_fault = PjEmptyText string | PjPayloadConflict string | PjDuplicate ident | PjBadLease
  | PjBadLimit | PjLeaseConflict | PjEmptyError | PjNotDead | PjMissing | PjBadAttempts

type_synonym 'a pj_result = "(pj_fault, 'a) result \<times> projection_db"

subsection \<open>Helpers\<close>

definition RETRY_MS :: "int list" where
  "RETRY_MS = [5000, 30000, 120000, 600000, 1800000, 3600000, 14400000]"

definition projectionRetryAt :: "instant \<Rightarrow> nat \<Rightarrow> (pj_fault, instant option) result" where
  "projectionRetryAt failedAt attempts =
    (if attempts < 1 then Inl PjBadAttempts
     else if 8 \<le> attempts then Inr None
     else Inr (Some (failedAt + RETRY_MS ! (attempts - 1))))"

definition requireText :: "string \<Rightarrow> string \<Rightarrow> (pj_fault, string) result" where
  "requireText v field = (if trim v = [] then Inl (PjEmptyText field) else Inr (trim v))"

text \<open>The first rejected field, checked in order; otherwise the trimmed texts.\<close>
fun requireTexts :: "(string \<times> string) list \<Rightarrow> (pj_fault, string list) result" where
  "requireTexts [] = Inr []"
| "requireTexts ((v, field) # rest) = (case requireText v field of Inl e \<Rightarrow> Inl e
     | Inr x \<Rightarrow> (case requireTexts rest of Inl e \<Rightarrow> Inl e | Inr xs \<Rightarrow> Inr (x # xs)))"

definition get_job :: "ident \<Rightarrow> projection_db \<Rightarrow> projection_job option" where
  "get_job i q = find (\<lambda>j. pj_id j = i) (pq_jobs q)"

definition jobRowOrThrow :: "ident \<Rightarrow> projection_db \<Rightarrow> projection_job pj_result" where
  "jobRowOrThrow i q = (case get_job i q of None \<Rightarrow> (Inl PjMissing, q) | Some j \<Rightarrow> (Inr j, q))"

text \<open>A transaction: a throw rolls back.\<close>
definition transaction :: "projection_db \<Rightarrow> 'a pj_result \<Rightarrow> 'a pj_result" where
  "transaction q r = (case r of (Inl e, _) \<Rightarrow> (Inl e, q) | ok \<Rightarrow> ok)"

definition new_job :: "ident \<Rightarrow> enqueue_input \<Rightarrow> instant \<Rightarrow> projection_job" where
  "new_job i inp now = \<lparr>pj_id = i, pj_sourceTable = eq_sourceTable inp, pj_sourceKey = eq_sourceKey inp,
     pj_sourceRevision = eq_sourceRevision inp, pj_eventType = eq_eventType inp,
     pj_payloadHash = eq_payloadHash inp, pj_status = PjQueued, pj_attempts = 0, pj_maxAttempts = 8,
     pj_availableAt = eq_availableAt inp, pj_leaseOwner = None, pj_leaseToken = None,
     pj_leaseExpiresAt = None, pj_watermark = None, pj_lastError = None, pj_createdAt = now,
     pj_updatedAt = now, pj_completedAt = None\<rparr>"

definition same_source :: "enqueue_input \<Rightarrow> projection_job \<Rightarrow> bool" where
  "same_source inp j \<longleftrightarrow> pj_sourceTable j = eq_sourceTable inp \<and> pj_sourceKey j = eq_sourceKey inp \<and>
     pj_sourceRevision j = eq_sourceRevision inp \<and> pj_eventType j = eq_eventType inp"

definition conflict_of :: "enqueue_input \<Rightarrow> projection_job \<Rightarrow> instant \<Rightarrow> payload_conflict" where
  "conflict_of inp j now = \<lparr>pc_jobId = pj_id j, pc_sourceTable = eq_sourceTable inp,
     pc_sourceKey = eq_sourceKey inp, pc_sourceRevision = eq_sourceRevision inp,
     pc_eventType = eq_eventType inp, pc_existingHash = pj_payloadHash j,
     pc_incomingHash = eq_payloadHash inp, pc_at = now\<rparr>"

text \<open>The texts of an enqueue request, trimmed, or the first empty one.\<close>
definition normalize_input :: "enqueue_input \<Rightarrow> (pj_fault, enqueue_input) result" where
  "normalize_input inp =
    (case requireTexts [(eq_sourceTable inp, ''sourceTable''), (eq_sourceKey inp, ''sourceKey''),
        (eq_sourceRevision inp, ''sourceRevision''), (eq_eventType inp, ''eventType''),
        (eq_payloadHash inp, ''payloadHash'')] of
       Inl e \<Rightarrow> Inl e
     | Inr _ \<Rightarrow> Inr (inp\<lparr>eq_sourceTable := trim (eq_sourceTable inp), eq_sourceKey := trim (eq_sourceKey inp),
         eq_sourceRevision := trim (eq_sourceRevision inp), eq_eventType := trim (eq_eventType inp),
         eq_payloadHash := trim (eq_payloadHash inp)\<rparr>))"

subsection \<open>Operations\<close>

text \<open>\<open>enqueue\<close>: the conflict is recorded and committed before the error is thrown.\<close>
definition pj_enqueue :: "enqueue_input \<Rightarrow> string \<Rightarrow> instant \<Rightarrow> projection_db \<Rightarrow> projection_job pj_result" where
  "pj_enqueue raw uuid now q =
    (case normalize_input raw of
       Inl e \<Rightarrow> (Inl e, q)
     | Inr inp \<Rightarrow>
         (case find (same_source inp) (pq_jobs q) of
            Some j \<Rightarrow>
              if pj_payloadHash j = eq_payloadHash inp then (Inr j, q)
              else (Inl (PjPayloadConflict (eq_sourceKey inp)),
                    q\<lparr>pq_conflicts := pq_conflicts q @ [conflict_of inp j now]\<rparr>)
          | None \<Rightarrow>
              let i = ''twin:projection-job:'' @ uuid; j = new_job i inp now
              in if i \<in> pj_id ` set (pq_jobs q) then (Inl (PjDuplicate i), q)
                 else (Inr j, q\<lparr>pq_jobs := pq_jobs q @ [j]\<rparr>)))"

text \<open>\<open>enqueueTwinProjectionInCurrentTransaction\<close>: the same beside a business write, under a stable id;
  the conflict is recorded in the caller's transaction, which the thrown error then rolls back.\<close>
definition stableProjectionJobId :: "(string \<Rightarrow> string) \<Rightarrow> ident \<Rightarrow> enqueue_input \<Rightarrow> ident" where
  "stableProjectionJobId sha tenant inp = ''twin:projection-job:'' @ sha (join nul
     (map trim [tenant, eq_sourceTable inp, eq_sourceKey inp, eq_sourceRevision inp, eq_eventType inp]))"

definition enqueueInTransaction ::
  "(string \<Rightarrow> string) \<Rightarrow> ident \<Rightarrow> enqueue_input \<Rightarrow> projection_db \<Rightarrow> unit pj_result" where
  "enqueueInTransaction sha tenant raw q =
    (case requireText tenant ''tenantId'' of
       Inl e \<Rightarrow> (Inl e, q)
     | Inr _ \<Rightarrow>
       (case normalize_input raw of
          Inl e \<Rightarrow> (Inl e, q)
        | Inr inp \<Rightarrow>
            (case find (same_source inp) (pq_jobs q) of
               Some j \<Rightarrow>
                 if pj_payloadHash j = eq_payloadHash inp then (Inr (), q)
                 else (Inl (PjPayloadConflict (eq_sourceKey inp)),
                       q\<lparr>pq_conflicts := pq_conflicts q @ [conflict_of inp j (eq_availableAt inp)]\<rparr>)
             | None \<Rightarrow>
                 let i = stableProjectionJobId sha tenant inp; j = new_job i inp (eq_availableAt inp)
                 in if i \<in> pj_id ` set (pq_jobs q) then (Inl (PjDuplicate i), q)
                    else (Inr (), q\<lparr>pq_jobs := pq_jobs q @ [j]\<rparr>))))"

text \<open>A lease that ended at the last attempt.\<close>
definition pj_exhausted :: "instant \<Rightarrow> projection_job \<Rightarrow> bool" where
  "pj_exhausted t j \<longleftrightarrow> pj_status j = PjProcessing \<and> pj_maxAttempts j \<le> pj_attempts j \<and>
     (case pj_leaseExpiresAt j of None \<Rightarrow> False | Some e \<Rightarrow> e \<le> t)"

definition pj_bury :: "instant \<Rightarrow> projection_job \<Rightarrow> projection_job" where
  "pj_bury t j = j\<lparr>pj_status := PjDeadLetter, pj_leaseOwner := None, pj_leaseToken := None,
     pj_leaseExpiresAt := None, pj_lastError := Some ''Twin projection lease expired at maximum attempts'',
     pj_updatedAt := t, pj_completedAt := Some t\<rparr>"

definition pj_claimable :: "instant \<Rightarrow> projection_job \<Rightarrow> bool" where
  "pj_claimable t j \<longleftrightarrow> pj_attempts j < pj_maxAttempts j \<and>
     ((pj_status j \<in> {PjQueued, PjRetryWait} \<and> pj_availableAt j \<le> t) \<or>
      (pj_status j = PjProcessing \<and> (case pj_leaseExpiresAt j of None \<Rightarrow> False | Some e \<Rightarrow> e \<le> t)))"

definition pj_lease :: "string \<Rightarrow> string \<Rightarrow> int \<Rightarrow> instant \<Rightarrow> projection_job \<Rightarrow> projection_job" where
  "pj_lease worker token leaseMs t j = j\<lparr>pj_status := PjProcessing, pj_attempts := pj_attempts j + 1,
     pj_leaseOwner := Some worker, pj_leaseToken := Some token, pj_leaseExpiresAt := Some (t + leaseMs),
     pj_updatedAt := t\<rparr>"

text \<open>\<open>ORDER BY available_at, created_at, id LIMIT ?\<close>\<close>
definition pj_candidates :: "int \<Rightarrow> instant \<Rightarrow> projection_db \<Rightarrow> projection_job list" where
  "pj_candidates limit t q = take (nat limit)
     (sort_key (\<lambda>j. (pj_availableAt j, pj_createdAt j, pj_id j)) (filter (pj_claimable t) (pq_jobs q)))"

text \<open>The guarded update of one candidate; a row that no longer matches is skipped.\<close>
definition pj_claim_one ::
  "string \<Rightarrow> int \<Rightarrow> instant \<Rightarrow> projection_job list \<times> projection_db \<Rightarrow> string \<times> ident
    \<Rightarrow> projection_job list \<times> projection_db" where
  "pj_claim_one worker leaseMs t acc c =
    (let q = snd acc; p = (\<lambda>j. pj_id j = snd c \<and> pj_claimable t j);
         q1 = q\<lparr>pq_jobs := upd_where p (pj_lease worker (''twin-projection-lease:'' @ fst c) leaseMs t) (pq_jobs q)\<rparr>
     in if changes p (pq_jobs q) \<noteq> 1 then (fst acc, q1)
        else case get_job (snd c) q1 of None \<Rightarrow> (fst acc, q1) | Some j \<Rightarrow> (fst acc @ [j], q1))"

definition pj_claim ::
  "string \<Rightarrow> instant \<Rightarrow> int \<Rightarrow> int \<Rightarrow> (nat \<Rightarrow> string) \<Rightarrow> projection_db \<Rightarrow> projection_job list pj_result" where
  "pj_claim worker t leaseMs limit uuids q =
    (case requireText worker ''workerId'' of
       Inl e \<Rightarrow> (Inl e, q)
     | Inr w \<Rightarrow>
         if leaseMs \<le> 0 then (Inl PjBadLease, q)
         else if limit < 1 then (Inl PjBadLimit, q)
         else
           let q1 = q\<lparr>pq_jobs := upd_where (pj_exhausted t) (pj_bury t) (pq_jobs q)\<rparr>;
               cs = map pj_id (pj_candidates limit t q1);
               r = foldl (pj_claim_one w leaseMs t) ([], q1) (zip (map uuids [0..<length cs]) cs)
           in (Inr (fst r), snd r))"

definition pj_holds :: "string \<Rightarrow> instant \<Rightarrow> projection_job \<Rightarrow> bool" where
  "pj_holds token t j \<longleftrightarrow> pj_status j = PjProcessing \<and> pj_leaseToken j = Some token \<and>
     (case pj_leaseExpiresAt j of None \<Rightarrow> False | Some e \<Rightarrow> t < e)"

definition pj_done :: "string \<Rightarrow> instant \<Rightarrow> projection_job \<Rightarrow> projection_job" where
  "pj_done watermark t j = j\<lparr>pj_status := PjSucceeded, pj_watermark := Some watermark, pj_lastError := None,
     pj_leaseOwner := None, pj_leaseToken := None, pj_leaseExpiresAt := None,
     pj_completedAt := Some t, pj_updatedAt := t\<rparr>"

definition pj_succeed :: "ident \<Rightarrow> string \<Rightarrow> instant \<Rightarrow> string \<Rightarrow> projection_db \<Rightarrow> projection_job pj_result" where
  "pj_succeed i0 token0 t mark0 q =
    (case requireTexts [(i0, ''id''), (token0, ''leaseToken''), (mark0, ''projectedWatermark'')] of
       Inl e \<Rightarrow> (Inl e, q)
     | Inr _ \<Rightarrow>
         let i = trim i0; p = (\<lambda>j. pj_id j = i \<and> pj_holds (trim token0) t j);
             q1 = q\<lparr>pq_jobs := upd_where p (pj_done (trim mark0) t) (pq_jobs q)\<rparr>
         in transaction q (if changes p (pq_jobs q) \<noteq> 1 then (Inl PjLeaseConflict, q1) else jobRowOrThrow i q1))"

definition pj_failed :: "instant option \<Rightarrow> string \<Rightarrow> instant \<Rightarrow> projection_job \<Rightarrow> projection_job" where
  "pj_failed retryAt err t j = j\<lparr>pj_status := (if retryAt = None then PjDeadLetter else PjRetryWait),
     pj_availableAt := (case retryAt of None \<Rightarrow> pj_availableAt j | Some a \<Rightarrow> a), pj_lastError := Some err,
     pj_leaseOwner := None, pj_leaseToken := None, pj_leaseExpiresAt := None, pj_updatedAt := t,
     pj_completedAt := None\<rparr>"

definition pj_fail ::
  "(string \<Rightarrow> string) \<Rightarrow> ident \<Rightarrow> string \<Rightarrow> instant \<Rightarrow> string \<Rightarrow> projection_db \<Rightarrow> projection_job pj_result" where
  "pj_fail redact i0 token0 t err q =
    (case requireTexts [(i0, ''id''), (token0, ''leaseToken'')] of
       Inl e \<Rightarrow> (Inl e, q)
     | Inr _ \<Rightarrow>
         if redact err = [] then (Inl PjEmptyError, q)
         else
           let i = trim i0; p = (\<lambda>j. pj_id j = i \<and> pj_holds (trim token0) t j)
           in case find p (pq_jobs q) of
             None \<Rightarrow> (Inl PjLeaseConflict, q)
           | Some cur \<Rightarrow>
               (case projectionRetryAt t (pj_attempts cur) of
                  Inl e \<Rightarrow> (Inl e, q)
                | Inr retryAt \<Rightarrow>
                    let q1 = q\<lparr>pq_jobs := upd_where p (\<lambda>j. pj_failed retryAt (redact err) t
                          (j\<lparr>pj_availableAt := pj_availableAt cur\<rparr>)) (pq_jobs q)\<rparr>
                    in transaction q (if changes p (pq_jobs q) \<noteq> 1 then (Inl PjLeaseConflict, q1)
                         else jobRowOrThrow i q1)))"

definition pj_revive :: "instant \<Rightarrow> projection_job \<Rightarrow> projection_job" where
  "pj_revive t j = j\<lparr>pj_status := PjQueued, pj_attempts := 0, pj_availableAt := t, pj_leaseOwner := None,
     pj_leaseToken := None, pj_leaseExpiresAt := None, pj_completedAt := None, pj_updatedAt := t\<rparr>"

definition pj_replayDeadLetter :: "ident \<Rightarrow> string \<Rightarrow> instant \<Rightarrow> string \<Rightarrow> projection_db \<Rightarrow> projection_job pj_result" where
  "pj_replayDeadLetter i0 actor t uuid q =
    (case requireTexts [(i0, ''id''), (actor, ''actorId'')] of
       Inl e \<Rightarrow> (Inl e, q)
     | Inr _ \<Rightarrow>
         let i = trim i0; p = (\<lambda>j. pj_id j = i \<and> pj_status j = PjDeadLetter)
         in case find p (pq_jobs q) of
           None \<Rightarrow> (Inl PjNotDead, q)
         | Some prev \<Rightarrow>
             let q1 = q\<lparr>pq_jobs := upd_where p (pj_revive t) (pq_jobs q)\<rparr>
             in transaction q (if changes p (pq_jobs q) \<noteq> 1 then (Inl PjNotDead, q1)
                else case get_job i q1 of
                  None \<Rightarrow> (Inl PjMissing, q1)
                | Some j \<Rightarrow> (Inr j, q1\<lparr>pq_activities := pq_activities q1 @
                    [\<lparr>ra_id = ''activity:'' @ uuid, ra_at = t, ra_objectId = i, ra_actor = trim actor,
                      ra_attempts = pj_attempts j, ra_previousAttempts = pj_attempts prev\<rparr>]\<rparr>)))"

definition pj_statusCounts :: "projection_db \<Rightarrow> pj_counts" where
  "pj_statusCounts q = (let n = (\<lambda>st. length (filter (\<lambda>j. pj_status j = st) (pq_jobs q))) in
     \<lparr>ct_queued = n PjQueued, ct_processing = n PjProcessing, ct_retryWait = n PjRetryWait,
      ct_succeeded = n PjSucceeded, ct_deadLetter = n PjDeadLetter\<rparr>)"

subsection \<open>Jobs as rows under a lease\<close>

definition pj_holder :: "projection_job \<Rightarrow> string option" where
  "pj_holder j = (if pj_status j = PjProcessing then pj_leaseToken j else None)"

definition pj_row_claim :: "string \<times> string \<times> int \<Rightarrow> instant \<Rightarrow> projection_job \<Rightarrow> projection_job option" where
  "pj_row_claim c t j = (case c of (worker, token, leaseMs) \<Rightarrow>
     if pj_claimable t j then Some (pj_lease worker token leaseMs t j) else None)"

text \<open>The two ways a worker ends a lease.\<close>
datatype pj_end = PjEndDone string | PjEndFailed "instant option" string

definition pj_row_finish :: "pj_end \<Rightarrow> instant \<Rightarrow> string \<Rightarrow> projection_job \<Rightarrow> projection_job option" where
  "pj_row_finish f t token j = (if pj_holds token t j then Some (case f of
       PjEndDone mark \<Rightarrow> pj_done mark t j | PjEndFailed retryAt err \<Rightarrow> pj_failed retryAt err t j) else None)"

definition pj_newtok :: "string \<times> string \<times> int \<Rightarrow> instant \<Rightarrow> projection_job \<Rightarrow> string" where
  "pj_newtok c t j = fst (snd c)"

definition pj_ends :: "string \<times> string \<times> int \<Rightarrow> instant \<Rightarrow> instant" where
  "pj_ends c t = t + snd (snd c)"

interpretation pj_queue: lease_queue pj_holder pj_leaseExpiresAt pj_row_claim pj_row_finish pj_newtok pj_ends
  by unfold_locales
    (auto simp: pj_holder_def pj_row_claim_def pj_row_finish_def pj_newtok_def pj_ends_def pj_claimable_def
      pj_lease_def pj_holds_def pj_done_def pj_failed_def split: if_splits option.splits pj_end.splits prod.splits)

subsection \<open>The invariant\<close>

definition pj_source :: "projection_job \<Rightarrow> string \<times> string \<times> string \<times> string" where
  "pj_source j = (pj_sourceTable j, pj_sourceKey j, pj_sourceRevision j, pj_eventType j)"

definition pj_unleased :: "projection_job \<Rightarrow> bool" where
  "pj_unleased j \<longleftrightarrow> pj_leaseOwner j = None \<and> pj_leaseToken j = None \<and> pj_leaseExpiresAt j = None"

definition pj_ok :: "projection_job \<Rightarrow> bool" where
  "pj_ok j \<longleftrightarrow> pj_maxAttempts j = 8 \<and> (case pj_status j of
       PjQueued \<Rightarrow> pj_attempts j = 0 \<and> pj_unleased j
     | PjRetryWait \<Rightarrow> 1 \<le> pj_attempts j \<and> pj_attempts j < 8 \<and> pj_unleased j
     | PjProcessing \<Rightarrow> 1 \<le> pj_attempts j \<and> pj_attempts j \<le> 8 \<and>
         pj_leaseOwner j \<noteq> None \<and> pj_leaseToken j \<noteq> None \<and> pj_leaseExpiresAt j \<noteq> None
     | PjSucceeded \<Rightarrow> 1 \<le> pj_attempts j \<and> pj_attempts j \<le> 8 \<and> pj_unleased j \<and>
         pj_watermark j \<noteq> None \<and> pj_completedAt j \<noteq> None
     | PjDeadLetter \<Rightarrow> pj_attempts j = 8 \<and> pj_unleased j \<and> pj_lastError j \<noteq> None)"

definition pj_inv :: "projection_db \<Rightarrow> bool" where
  "pj_inv q \<longleftrightarrow> distinct (map pj_id (pq_jobs q)) \<and> distinct (map pj_source (pq_jobs q)) \<and>
     list_all pj_ok (pq_jobs q)"

definition pj_empty :: projection_db where
  "pj_empty = \<lparr>pq_jobs = [], pq_conflicts = [], pq_activities = []\<rparr>"

text \<open>\<open>pj_keys\<close>: the row changes keep identity and source.\<close>
named_theorems pj_keys

lemma pj_row_keys [pj_keys]:
  "pj_id (pj_bury t j) = pj_id j" "pj_source (pj_bury t j) = pj_source j"
  "pj_id (pj_lease w k l t j) = pj_id j" "pj_source (pj_lease w k l t j) = pj_source j"
  "pj_id (pj_done m t j) = pj_id j" "pj_source (pj_done m t j) = pj_source j"
  "pj_id (pj_failed r e t j) = pj_id j" "pj_source (pj_failed r e t j) = pj_source j"
  "pj_id (pj_revive t j) = pj_id j" "pj_source (pj_revive t j) = pj_source j"
  "pj_id (j\<lparr>pj_availableAt := a\<rparr>) = pj_id j" "pj_source (j\<lparr>pj_availableAt := a\<rparr>) = pj_source j"
  by (simp_all add: pj_bury_def pj_lease_def pj_done_def pj_failed_def pj_revive_def pj_source_def)

lemma pj_inv_upd:
  assumes "pj_inv q" "\<And>j. pj_id (f j) = pj_id j" "\<And>j. pj_source (f j) = pj_source j"
    "\<And>j. pj_ok j \<Longrightarrow> p j \<Longrightarrow> pj_ok (f j)"
  shows "pj_inv (q\<lparr>pq_jobs := upd_where p f (pq_jobs q)\<rparr>)"
  using assms by (auto simp: pj_inv_def map_upd_where list_all_iff set_upd_where)

lemma get_job_upd:
  assumes "\<And>j. pj_id (f j) = pj_id j"
  shows "get_job i (q\<lparr>pq_jobs := upd_where p f (pq_jobs q)\<rparr>) = map_option (\<lambda>j. if p j then f j else j) (get_job i q)"
  using assms by (simp add: get_job_def find_upd_where)

lemma get_job_id: "get_job i q = Some j \<Longrightarrow> pj_id j = i \<and> j \<in> set (pq_jobs q)"
  by (auto simp: get_job_def dest: find_Some_mem)

lemma transaction_snd: "P q \<Longrightarrow> P (snd r) \<Longrightarrow> P (snd (transaction q r))"
  by (cases r; cases "fst r") (auto simp: transaction_def)

lemma jobRowOrThrow_snd [simp]: "snd (jobRowOrThrow i q) = q"
  by (simp add: jobRowOrThrow_def split: option.split)

lemma pj_ok_bury: "pj_ok j \<Longrightarrow> pj_exhausted t j \<Longrightarrow> pj_ok (pj_bury t j)"
  by (auto simp: pj_ok_def pj_exhausted_def pj_bury_def pj_unleased_def)

lemma pj_ok_lease: "pj_ok j \<Longrightarrow> pj_claimable t j \<Longrightarrow> pj_ok (pj_lease w k l t j)"
  by (auto simp: pj_ok_def pj_claimable_def pj_lease_def pj_unleased_def)

lemma pj_ok_done: "pj_ok j \<Longrightarrow> pj_holds k t j \<Longrightarrow> pj_ok (pj_done m t j)"
  by (auto simp: pj_ok_def pj_holds_def pj_done_def pj_unleased_def)

lemma pj_ok_failed:
  "pj_ok j \<Longrightarrow> pj_holds k t j \<Longrightarrow> projectionRetryAt t (pj_attempts j) = Inr r \<Longrightarrow> pj_ok (pj_failed r e t (j\<lparr>pj_availableAt := a\<rparr>))"
  by (auto simp: pj_ok_def pj_holds_def pj_failed_def pj_unleased_def projectionRetryAt_def split: if_splits)

lemma pj_ok_revive: "pj_ok j \<Longrightarrow> pj_status j = PjDeadLetter \<Longrightarrow> pj_ok (pj_revive t j)"
  by (auto simp: pj_ok_def pj_revive_def pj_unleased_def)

lemma pj_inv_new:
  assumes "pj_inv q" "find (same_source inp) (pq_jobs q) = None" "i \<notin> pj_id ` set (pq_jobs q)"
  shows "pj_inv (q\<lparr>pq_jobs := pq_jobs q @ [new_job i inp now]\<rparr>)"
proof -
  have "pj_source (new_job i inp now) \<notin> pj_source ` set (pq_jobs q)"
    using assms(2) by (auto simp: find_None_iff same_source_def pj_source_def new_job_def)
  then show ?thesis using assms(1,3)
    by (auto simp: pj_inv_def new_job_def pj_ok_def pj_unleased_def)
qed

lemma pj_inv_jobs_only [simp]:
  "pj_inv (q\<lparr>pq_conflicts := c\<rparr>) = pj_inv q" "pj_inv (q\<lparr>pq_activities := a\<rparr>) = pj_inv q"
  by (simp_all add: pj_inv_def)

lemma pj_enqueue_inv: "pj_inv q \<Longrightarrow> pj_inv (snd (pj_enqueue raw uuid now q))"
  by (auto simp: pj_enqueue_def Let_def pj_inv_new split: sum.split option.split)

lemma enqueueInTransaction_inv: "pj_inv q \<Longrightarrow> pj_inv (snd (enqueueInTransaction sha tenant raw q))"
  by (auto simp: enqueueInTransaction_def Let_def pj_inv_new split: sum.split option.split)

lemma snd_claim_one: "snd (pj_claim_one w l t acc c) = (snd acc)\<lparr>pq_jobs := upd_where
    (\<lambda>j. pj_id j = snd c \<and> pj_claimable t j) (pj_lease w (''twin-projection-lease:'' @ fst c) l t) (pq_jobs (snd acc))\<rparr>"
  by (simp add: pj_claim_one_def Let_def split: option.split)

lemma pj_claims_inv: "pj_inv (snd acc) \<Longrightarrow> pj_inv (snd (foldl (pj_claim_one w l t) acc cs))"
proof (induction cs arbitrary: acc)
  case (Cons c cs)
  have "pj_inv (snd (pj_claim_one w l t acc c))"
    unfolding snd_claim_one by (rule pj_inv_upd[OF Cons.prems]) (auto simp: pj_keys intro: pj_ok_lease)
  then show ?case using Cons.IH by simp
qed simp

lemma pj_claim_inv: "pj_inv q \<Longrightarrow> pj_inv (snd (pj_claim w t l limit uuids q))"
proof -
  assume q: "pj_inv q"
  have "pj_inv (q\<lparr>pq_jobs := upd_where (pj_exhausted t) (pj_bury t) (pq_jobs q)\<rparr>)"
    by (rule pj_inv_upd[OF q]) (auto simp: pj_keys intro: pj_ok_bury)
  then show ?thesis using q pj_claims_inv
    by (auto simp: pj_claim_def Let_def split: sum.split)
qed

lemma pj_succeed_inv: "pj_inv q \<Longrightarrow> pj_inv (snd (pj_succeed i k t m q))"
proof -
  assume q: "pj_inv q"
  have "pj_inv (q\<lparr>pq_jobs := upd_where (\<lambda>j. pj_id j = trim i \<and> pj_holds (trim k) t j) (pj_done (trim m) t) (pq_jobs q)\<rparr>)"
    by (rule pj_inv_upd[OF q]) (auto simp: pj_keys intro: pj_ok_done)
  then show ?thesis using q
    by (auto simp: pj_succeed_def Let_def intro!: transaction_snd[where P = pj_inv] split: sum.split)
qed

lemma find_unique:
  assumes "pj_inv q" "find (\<lambda>j. pj_id j = i \<and> P j) (pq_jobs q) = Some cur" "j \<in> set (pq_jobs q)" "pj_id j = i"
  shows "j = cur"
proof -
  have c: "cur \<in> set (pq_jobs q)" "pj_id cur = i" using find_Some_mem[OF assms(2)] by auto
  have "inj_on pj_id (set (pq_jobs q))" using assms(1) by (simp add: pj_inv_def distinct_map)
  then show ?thesis using c assms(3,4) by (auto dest: inj_onD)
qed

lemma pj_fail_inv: "pj_inv q \<Longrightarrow> pj_inv (snd (pj_fail redact i k t err q))"
proof -
  assume q: "pj_inv q"
  let ?p = "\<lambda>j. pj_id j = trim i \<and> pj_holds (trim k) t j"
  have "pj_inv (q\<lparr>pq_jobs := upd_where ?p (\<lambda>j. pj_failed r e t (j\<lparr>pj_availableAt := pj_availableAt cur\<rparr>)) (pq_jobs q)\<rparr>)"
    if "find ?p (pq_jobs q) = Some cur" "projectionRetryAt t (pj_attempts cur) = Inr r" for cur r e
  proof -
    let ?f = "\<lambda>j. pj_failed r e t (j\<lparr>pj_availableAt := pj_availableAt cur\<rparr>)"
    have ok: "pj_ok (?f j)" if j: "j \<in> set (pq_jobs q)" "?p j" for j
    proof (rule pj_ok_failed)
      show "pj_ok j" using j(1) q by (simp add: pj_inv_def list_all_iff)
      show "pj_holds (trim k) t j" using j(2) by simp
      show "projectionRetryAt t (pj_attempts j) = Inr r"
        using find_unique[OF q \<open>find ?p (pq_jobs q) = Some cur\<close> j(1)] j(2)
          \<open>projectionRetryAt t (pj_attempts cur) = Inr r\<close> by simp
    qed
    then show ?thesis using q by (auto simp: pj_inv_def map_upd_where pj_keys list_all_iff set_upd_where)
  qed
  then show ?thesis using q
    by (auto simp: pj_fail_def Let_def intro!: transaction_snd[where P = pj_inv] split: sum.split option.split)
qed

lemma pj_replay_inv: "pj_inv q \<Longrightarrow> pj_inv (snd (pj_replayDeadLetter i a t u q))"
proof -
  assume q: "pj_inv q"
  have "pj_inv (q\<lparr>pq_jobs := upd_where (\<lambda>j. pj_id j = trim i \<and> pj_status j = PjDeadLetter) (pj_revive t) (pq_jobs q)\<rparr>)"
    by (rule pj_inv_upd[OF q]) (auto simp: pj_keys intro: pj_ok_revive)
  then show ?thesis using q
    by (auto simp: pj_replayDeadLetter_def Let_def intro!: transaction_snd[where P = pj_inv]
        split: sum.split option.split)
qed

subsection \<open>Runs of the queue\<close>

datatype pj_op =
    PjOpEnqueue enqueue_input string instant
  | PjOpEnqueueTx "string \<Rightarrow> string" ident enqueue_input
  | PjOpClaim string instant int int "nat \<Rightarrow> string"
  | PjOpSucceed ident string instant string
  | PjOpFail "string \<Rightarrow> string" ident string instant string
  | PjOpReplay ident string instant string

fun pj_exec :: "pj_op \<Rightarrow> projection_db \<Rightarrow> projection_db" where
  "pj_exec (PjOpEnqueue inp u now) q = snd (pj_enqueue inp u now q)"
| "pj_exec (PjOpEnqueueTx sha tenant inp) q = snd (enqueueInTransaction sha tenant inp q)"
| "pj_exec (PjOpClaim w t l limit us) q = snd (pj_claim w t l limit us q)"
| "pj_exec (PjOpSucceed i k t m) q = snd (pj_succeed i k t m q)"
| "pj_exec (PjOpFail redact i k t e) q = snd (pj_fail redact i k t e q)"
| "pj_exec (PjOpReplay i a t u) q = snd (pj_replayDeadLetter i a t u q)"

lemma pj_exec_inv: "pj_inv q \<Longrightarrow> pj_inv (pj_exec op q)"
  by (cases op) (simp_all add: pj_enqueue_inv enqueueInTransaction_inv pj_claim_inv pj_succeed_inv
    pj_fail_inv pj_replay_inv)

lemma pj_run_inv: "pj_inv q \<Longrightarrow> pj_inv (foldl (\<lambda>q op. pj_exec op q) q ops)"
  by (induction ops arbitrary: q) (auto intro: pj_exec_inv)

text \<open>An operation that neither comes after \<open>e\<close> nor shows the token \<open>tok\<close>.\<close>
fun pj_outsider :: "string \<Rightarrow> instant \<Rightarrow> pj_op \<Rightarrow> bool" where
  "pj_outsider tok e (PjOpClaim w t l limit us) = (t < e)"
| "pj_outsider tok e (PjOpSucceed i k t m) = (trim k \<noteq> tok)"
| "pj_outsider tok e (PjOpFail redact i k t err) = (trim k \<noteq> tok)"
| "pj_outsider tok e _ = True"

text \<open>A held job is neither claimable nor exhausted before its lease ends, nor dead, nor anyone else's.\<close>
lemma pj_held_facts:
  assumes "pj_queue.held j tok e"
  shows "t < e \<Longrightarrow> \<not> pj_claimable t j" "t < e \<Longrightarrow> \<not> pj_exhausted t j" "pj_status j = PjProcessing"
    "k \<noteq> tok \<Longrightarrow> \<not> pj_holds k t j"
proof -
  show "t < e \<Longrightarrow> \<not> pj_claimable t j"
    using pj_queue.held_no_claim[OF assms, of t "([], [], 0)"] by (auto simp: pj_row_claim_def split: if_splits)
  show "k \<noteq> tok \<Longrightarrow> \<not> pj_holds k t j"
    using pj_queue.held_no_stale_finish[OF assms, of k "PjEndDone []" t] by (auto simp: pj_row_finish_def split: if_splits)
  show "t < e \<Longrightarrow> \<not> pj_exhausted t j" "pj_status j = PjProcessing"
    using assms by (auto simp: pj_queue.held_def pj_exhausted_def pj_holder_def split: if_splits)
qed

lemma get_job_claims:
  assumes "get_job i (snd acc) = Some j" "\<not> pj_claimable t j"
  shows "get_job i (snd (foldl (pj_claim_one w l t) acc cs)) = Some j"
  using assms(1)
proof (induction cs arbitrary: acc)
  case (Cons c cs)
  have "get_job i (snd (pj_claim_one w l t acc c)) = Some j"
    unfolding snd_claim_one using Cons.prems assms(2) by (subst get_job_upd) (auto simp: pj_keys)
  then show ?case using Cons.IH by simp
qed simp

lemma get_job_append: "get_job i q = Some j \<Longrightarrow> get_job i (q\<lparr>pq_jobs := pq_jobs q @ js\<rparr>) = Some j"
proof -
  have app: "find P (xs @ ys) = (case find P xs of None \<Rightarrow> find P ys | Some x \<Rightarrow> Some x)"
    for P :: "projection_job \<Rightarrow> bool" and xs ys by (induction xs) auto
  show "get_job i q = Some j \<Longrightarrow> ?thesis" by (simp add: get_job_def app)
qed

lemma get_job_frame [simp]:
  "get_job i (q\<lparr>pq_conflicts := c\<rparr>) = get_job i q" "get_job i (q\<lparr>pq_activities := a\<rparr>) = get_job i q"
  by (simp_all add: get_job_def)

lemma pj_outsider_keeps:
  assumes g: "get_job i q = Some j" and h: "pj_queue.held j tok e" and o: "pj_outsider tok e op"
  shows "get_job i (pj_exec op q) = Some j"
proof -
  note facts = pj_held_facts[OF h]
  have upd: "get_job i (q\<lparr>pq_jobs := upd_where p f (pq_jobs q)\<rparr>) = Some j"
    if "\<not> p j" "\<And>x. pj_id (f x) = pj_id x" for p f
    using that g by (simp add: get_job_upd)
  show ?thesis
  proof (cases op)
    case (PjOpEnqueue inp u now)
    then show ?thesis using g get_job_append[OF g]
      by (auto simp: pj_enqueue_def Let_def split: sum.split option.split)
  next
    case (PjOpEnqueueTx sha tenant inp)
    then show ?thesis using g get_job_append[OF g]
      by (auto simp: enqueueInTransaction_def Let_def split: sum.split option.split)
  next
    case (PjOpClaim w t l limit us)
    with o have t: "t < e" by simp
    have "get_job i (q\<lparr>pq_jobs := upd_where (pj_exhausted t) (pj_bury t) (pq_jobs q)\<rparr>) = Some j"
      using facts(2)[OF t] by (intro upd) (simp_all add: pj_keys)
    then show ?thesis using PjOpClaim g get_job_claims facts(1)[OF t]
      by (auto simp: pj_claim_def Let_def split: sum.split)
  next
    case (PjOpSucceed i' k t m)
    with o facts(4) have "\<not> pj_holds (trim k) t j" by simp
    then show ?thesis using PjOpSucceed g
      by (auto simp: pj_succeed_def Let_def pj_keys
          intro!: transaction_snd[where P = "\<lambda>q. get_job i q = Some j"] upd split: sum.split)
  next
    case (PjOpFail redact i' k t err)
    with o facts(4) have "\<not> pj_holds (trim k) t j" by simp
    then show ?thesis using PjOpFail g
      by (auto simp: pj_fail_def Let_def pj_keys
          intro!: transaction_snd[where P = "\<lambda>q. get_job i q = Some j"] upd split: sum.split option.split)
  next
    case (PjOpReplay i' a t u)
    then show ?thesis using g facts(3)
      by (auto simp: pj_replayDeadLetter_def Let_def pj_keys
          intro!: transaction_snd[where P = "\<lambda>q. get_job i q = Some j"] upd split: sum.split option.split)
  qed
qed

lemma pj_outsiders_keep:
  "get_job i q = Some j \<Longrightarrow> pj_queue.held j tok e \<Longrightarrow> list_all (pj_outsider tok e) ops \<Longrightarrow>
     get_job i (foldl (\<lambda>q op. pj_exec op q) q ops) = Some j"
  by (induction ops arbitrary: q) (auto dest: pj_outsider_keeps)

text \<open>One claim leases the first candidate of an id, and only it.\<close>
lemma get_job_claim_one:
  "get_job i (snd (pj_claim_one w l t acc c)) = map_option (\<lambda>j. if pj_id j = snd c \<and> pj_claimable t j
     then pj_lease w (''twin-projection-lease:'' @ fst c) l t j else j) (get_job i (snd acc))"
  unfolding snd_claim_one by (rule get_job_upd) (simp add: pj_keys)

lemma get_job_claims_leased:
  assumes "get_job i (snd acc) = Some j" "pj_claimable t j" "i \<in> snd ` set cs" "0 < l"
  shows "\<exists>k. get_job i (snd (foldl (pj_claim_one w l t) acc cs)) = Some (pj_lease w k l t j)"
  using assms(1,3)
proof (induction cs arbitrary: acc)
  case (Cons c cs)
  have id: "pj_id j = i" using Cons.prems(1) get_job_id by blast
  show ?case
  proof (cases "snd c = i")
    case True
    have "get_job i (snd (pj_claim_one w l t acc c)) = Some (pj_lease w (''twin-projection-lease:'' @ fst c) l t j)"
      using Cons.prems(1) True id assms(2) by (simp add: get_job_claim_one)
    moreover have "\<not> pj_claimable t (pj_lease w k l t j)" for k
      using assms(4) by (simp add: pj_claimable_def pj_lease_def)
    ultimately show ?thesis using get_job_claims by fastforce
  next
    case False
    then have "get_job i (snd (pj_claim_one w l t acc c)) = Some j"
      using Cons.prems(1) id by (simp add: get_job_claim_one)
    then show ?thesis using Cons.IH Cons.prems(2) False by auto
  qed
qed simp


subsection \<open>Enqueueing again\<close>

lemma pj_enqueue_found:
  assumes "normalize_input raw = Inr inp" "fst (pj_enqueue raw u now q) = Inr j"
  shows "find (same_source inp) (pq_jobs (snd (pj_enqueue raw u now q))) = Some j \<and> pj_payloadHash j = eq_payloadHash inp"
  using assms by (auto simp: pj_enqueue_def Let_def find_append same_source_def new_job_def split: option.splits if_splits)

lemma pj_enqueue_again:
  assumes "normalize_input raw = Inr inp" "find (same_source inp) (pq_jobs q) = Some j"
  shows "pj_enqueue raw u now q = (if pj_payloadHash j = eq_payloadHash inp then (Inr j, q)
     else (Inl (PjPayloadConflict (eq_sourceKey inp)), q\<lparr>pq_conflicts := pq_conflicts q @ [conflict_of inp j now]\<rparr>))"
  using assms by (simp add: pj_enqueue_def)

subsection \<open>A claim serves every due job\<close>

lemma get_job_swept: "get_job i (q\<lparr>pq_jobs := upd_where (pj_exhausted t) (pj_bury t) (pq_jobs q)\<rparr>) =
    map_option (\<lambda>j. if pj_exhausted t j then pj_bury t j else j) (get_job i q)"
  by (rule get_job_upd) (simp add: pj_keys)

definition pj_due :: "instant \<Rightarrow> projection_job \<Rightarrow> bool" where
  "pj_due t j \<longleftrightarrow> (case pj_status j of PjSucceeded \<Rightarrow> False | PjDeadLetter \<Rightarrow> False
     | PjProcessing \<Rightarrow> the (pj_leaseExpiresAt j) \<le> t | _ \<Rightarrow> pj_availableAt j \<le> t)"

lemma pj_due_cases: "pj_ok j \<Longrightarrow> pj_due t j \<Longrightarrow> (pj_exhausted t j \<and> pj_attempts j = 8) \<or>
    (\<not> pj_exhausted t j \<and> pj_claimable t j \<and> pj_attempts j < 8)"
  by (cases "pj_status j"; cases "pj_leaseExpiresAt j")
    (auto simp: pj_ok_def pj_due_def pj_exhausted_def pj_claimable_def)

text \<open>The order in which claims take the jobs, and the claims that the jobs before \<open>j\<close> can still use up: each at most
  its attempts up to the eighth.\<close>
definition pj_key :: "projection_job \<Rightarrow> instant \<times> instant \<times> ident" where
  "pj_key j = (pj_availableAt j, pj_createdAt j, pj_id j)"

definition claims_ahead :: "projection_job \<Rightarrow> projection_db \<Rightarrow> nat" where
  "claims_ahead j q = (\<Sum>x\<leftarrow>pq_jobs q. if pj_key x < pj_key j then 8 - pj_attempts x else 0)"

lemma pj_row_key [simp]: "pj_key (pj_bury t j) = pj_key j" "pj_key (pj_lease w k l t j) = pj_key j" "pj_key (pj_done m t j) = pj_key j"
  by (simp_all add: pj_key_def pj_bury_def pj_lease_def pj_done_def)

lemma claims_ahead_upd:
  assumes "\<And>x. x \<in> set (pq_jobs q) \<Longrightarrow> p x \<Longrightarrow> pj_key (f x) < pj_key j \<Longrightarrow> pj_key x < pj_key j \<and> pj_attempts x \<le> pj_attempts (f x)"
  shows "claims_ahead j (q\<lparr>pq_jobs := upd_where p f (pq_jobs q)\<rparr>) \<le> claims_ahead j q"
  using assms by (auto simp: claims_ahead_def upd_where_def intro!: sum_list_mono diff_le_mono2)

lemma sum_list_less:
  fixes f g :: "'a \<Rightarrow> nat"
  assumes "\<And>x. x \<in> set xs \<Longrightarrow> f x \<le> g x" "y \<in> set xs" "f y < g y"
  shows "sum_list (map f xs) < sum_list (map g xs)"
  using assms
proof (induction xs)
  case (Cons a xs)
  have le: "sum_list (map f xs) \<le> sum_list (map g xs)" using Cons.prems(1) by (intro sum_list_mono) simp
  have a: "f a \<le> g a" using Cons.prems(1) by simp
  show ?case
  proof (cases "a = y")
    case True
    then show ?thesis using le Cons.prems(3) by simp
  next
    case False
    then have "sum_list (map f xs) < sum_list (map g xs)" using Cons by simp
    then show ?thesis using a by simp
  qed
qed simp

lemma claims_ahead_less:
  assumes all: "\<And>x. pj_key (f x) = pj_key x" "\<And>x. pj_attempts x \<le> pj_attempts (f x)"
    and y: "y \<in> set (pq_jobs q)" "p y" "pj_key y < pj_key j" "pj_attempts y < pj_attempts (f y)" "pj_attempts y < 8"
  shows "claims_ahead j (q\<lparr>pq_jobs := upd_where p f (pq_jobs q)\<rparr>) < claims_ahead j q"
proof -
  have "(if pj_key (if p x then f x else x) < pj_key j then 8 - pj_attempts (if p x then f x else x) else 0)
      \<le> (if pj_key x < pj_key j then 8 - pj_attempts x else 0)" for x
    using all[of x] by (simp add: diff_le_mono2)
  then show ?thesis unfolding claims_ahead_def upd_where_def using y all(1)[of y]
    by (simp add: comp_def) (rule sum_list_less[where y = y], auto)
qed

lemma claims_ahead_one: "claims_ahead j (snd (pj_claim_one w l t acc c)) \<le> claims_ahead j (snd acc)"
  unfolding snd_claim_one by (rule claims_ahead_upd) (simp, simp add: pj_lease_def)

lemma claims_ahead_fold: "claims_ahead j (snd (foldl (pj_claim_one w l t) acc cs)) \<le> claims_ahead j (snd acc)"
proof (induction cs arbitrary: acc)
  case (Cons c cs)
  show ?case using le_trans[OF Cons.IH[of "pj_claim_one w l t acc c"] claims_ahead_one[of j w l t acc c]] by simp
qed simp

text \<open>The update of a claimable row before \<open>j\<close> uses up one of the claims.\<close>
lemma claims_ahead_taken:
  assumes x: "x \<in> set (pq_jobs (snd acc))" "pj_id x = snd c" "pj_claimable t x" "pj_maxAttempts x = 8" "pj_key x < pj_key j"
  shows "claims_ahead j (snd (pj_claim_one w l t acc c)) < claims_ahead j (snd acc)"
  unfolding snd_claim_one
  by (rule claims_ahead_less[where y = x]) (use x in \<open>simp_all add: pj_lease_def pj_claimable_def\<close>, simp add: pj_key_def)

lemma pj_inv_row: "pj_inv q \<Longrightarrow> get_job i q = Some j \<Longrightarrow> pj_ok j"
  using get_job_id[of i q j] by (simp add: pj_inv_def list_all_iff)

text \<open>A claim serves a due job, or it takes a job that comes before it.\<close>
lemma pj_claim_serves:
  assumes inv: "pj_inv q" and g: "get_job i q = Some j" and due: "pj_due t j"
    and args: "trim w \<noteq> []" "0 < l" "1 \<le> limit"
  shows "pj_attempts j = 8 \<Longrightarrow> get_job i (snd (pj_claim w t l limit us q)) = Some (pj_bury t j)"
    "pj_attempts j < 8 \<Longrightarrow> (\<exists>k. get_job i (snd (pj_claim w t l limit us q)) = Some (pj_lease (trim w) k l t j)) \<or>
      (get_job i (snd (pj_claim w t l limit us q)) = Some j \<and> claims_ahead j (snd (pj_claim w t l limit us q)) < claims_ahead j q)"
proof -
  let ?q1 = "q\<lparr>pq_jobs := upd_where (pj_exhausted t) (pj_bury t) (pq_jobs q)\<rparr>"
  let ?cs = "map pj_id (pj_candidates limit t ?q1)"
  let ?zs = "zip (map us [0..<length ?cs]) ?cs"
  let ?q' = "snd (pj_claim w t l limit us q)"
  note cases = pj_due_cases[OF pj_inv_row[OF inv g] due]
  have run: "?q' = snd (foldl (pj_claim_one (trim w) l t) ([], ?q1) ?zs)"
    using args by (simp add: pj_claim_def requireText_def Let_def)
  show "get_job i ?q' = Some (pj_bury t j)" if "pj_attempts j = 8"
  proof -
    have "get_job i ?q1 = Some (pj_bury t j)" using that cases g by (simp add: get_job_swept)
    moreover have "\<not> pj_claimable t (pj_bury t j)" by (simp add: pj_claimable_def pj_bury_def)
    ultimately show ?thesis unfolding run by (simp add: get_job_claims)
  qed
  show "(\<exists>k. get_job i ?q' = Some (pj_lease (trim w) k l t j)) \<or> (get_job i ?q' = Some j \<and> claims_ahead j ?q' < claims_ahead j q)"
    if less: "pj_attempts j < 8"
  proof (cases "i \<in> set ?cs")
    case True
    have q1: "get_job i ?q1 = Some j" and cl: "pj_claimable t j" using less cases g by (auto simp: get_job_swept)
    have "i \<in> snd ` set ?zs" using True by (simp add: set_map[symmetric] del: set_map)
    then show ?thesis unfolding run using get_job_claims_leased[OF _ cl _ args(2)] q1 by simp
  next
    case False
    have q1: "get_job i ?q1 = Some j" and cl: "pj_claimable t j" using less cases g by (auto simp: get_job_swept)
    have inv1: "pj_inv ?q1" by (rule pj_inv_upd[OF inv]) (auto simp: pj_keys intro: pj_ok_bury)
    let ?ss = "sort_key pj_key (filter (pj_claimable t) (pq_jobs ?q1))"
    have cand: "pj_candidates limit t ?q1 = take (nat limit) ?ss" by (simp add: pj_candidates_def pj_key_def[abs_def])
    have jin: "j \<in> set ?ss" using get_job_id[OF q1] cl by simp
    then have "?ss \<noteq> []" by (metis empty_iff empty_set)
    then obtain c cs where ss: "?ss = c # cs" by (meson list.exhaust)
    obtain n where n: "nat limit = Suc n" using args(3) by (cases "nat limit") auto
    have c: "c \<in> set (pq_jobs ?q1)" "pj_claimable t c" using arg_cong[OF ss, of set] by auto
    have "sorted (map pj_key ?ss)" by (rule sorted_sort_key)
    then have "pj_key c \<le> pj_key j" using jin unfolding ss by auto
    moreover have "pj_id c \<noteq> pj_id j" using False get_job_id[OF q1] unfolding cand ss n by auto
    ultimately have ahead: "pj_key c < pj_key j" by (auto simp: pj_key_def)
    have ids: "?cs = pj_id c # map pj_id (take n cs)" unfolding cand ss n by simp
    have zs: "?zs = (us 0, pj_id c) # zip (map us [1..<length ?cs]) (map pj_id (take n cs))"
      unfolding ids by (simp add: upt_rec)
    have c8: "pj_maxAttempts c = 8" using inv1 c(1) by (simp add: pj_inv_def list_all_iff pj_ok_def)
    have "claims_ahead j ?q' < claims_ahead j ?q1"
      unfolding run zs using claims_ahead_fold[of j "trim w" l t]
        claims_ahead_taken[of c "([], ?q1)" "(us 0, pj_id c)" t j, OF _ _ c(2) c8 ahead, of "trim w" l] c(1)
      by (simp del: upt_Suc) (meson le_less_trans)
    also have "claims_ahead j ?q1 \<le> claims_ahead j q"
      by (rule claims_ahead_upd) (simp, simp add: pj_bury_def)
    finally have less: "claims_ahead j ?q' < claims_ahead j q" .
    have out: "i \<notin> snd ` set ?zs" using False by (simp add: set_map[symmetric] del: set_map)
    have "get_job i (snd (foldl (pj_claim_one (trim w) l t) acc zs)) = get_job i (snd acc)" if "i \<notin> snd ` set zs" for acc zs
      using that
    proof (induction zs arbitrary: acc)
      case (Cons z zs)
      have "get_job i (snd (pj_claim_one (trim w) l t acc z)) = get_job i (snd acc)"
        using Cons.prems get_job_id[of i "snd acc"] by (cases "get_job i (snd acc)") (auto simp: get_job_claim_one)
      then show ?case using Cons by simp
    qed simp
    from this[OF out, of "([], ?q1)"] have "get_job i ?q' = Some j" unfolding run using q1 by simp
    then show ?thesis using less by blast
  qed
qed

subsection \<open>No job waits for ever\<close>

text \<open>An operation at or after \<open>t0\<close>, a claim with sound arguments, that brings no job before \<open>j\<close>.\<close>
fun pj_later :: "instant \<Rightarrow> projection_job \<Rightarrow> pj_op \<Rightarrow> bool" where
  "pj_later t0 j (PjOpEnqueue raw u now) = (pj_availableAt j < eq_availableAt raw)"
| "pj_later t0 j (PjOpEnqueueTx sha tenant raw) = (pj_availableAt j < eq_availableAt raw)"
| "pj_later t0 j (PjOpClaim w t l limit us) = (t0 \<le> t \<and> trim w \<noteq> [] \<and> 0 < l \<and> 1 \<le> limit)"
| "pj_later t0 j (PjOpSucceed i k t m) = (t0 \<le> t)"
| "pj_later t0 j (PjOpFail redact i k t e) = (t0 \<le> t)"
| "pj_later t0 j (PjOpReplay i a t u) = (t0 \<le> t \<and> pj_availableAt j < t)"

fun pj_is_claim :: "pj_op \<Rightarrow> bool" where
  "pj_is_claim (PjOpClaim w t l limit us) = True"
| "pj_is_claim _ = False"

lemma pj_due_later: "pj_due t0 j \<Longrightarrow> t0 \<le> t \<Longrightarrow> pj_due t j"
  by (auto simp: pj_due_def split: pj_status.splits)

lemma pj_due_not_held: "pj_ok j \<Longrightarrow> pj_due t0 j \<Longrightarrow> t0 \<le> t \<Longrightarrow> \<not> pj_holds k t j"
  by (auto simp: pj_due_def pj_holds_def pj_ok_def split: pj_status.splits option.splits)

lemma normalize_available: "normalize_input raw = Inr inp \<Longrightarrow> eq_availableAt inp = eq_availableAt raw"
  by (auto simp: normalize_input_def split: sum.splits)

lemma claims_ahead_append:
  "\<not> pj_key n < pj_key j \<Longrightarrow> claims_ahead j (q\<lparr>pq_jobs := pq_jobs q @ [n]\<rparr>) = claims_ahead j q"
  by (simp add: claims_ahead_def)

lemma claims_ahead_frame [simp]:
  "claims_ahead j (q\<lparr>pq_conflicts := c\<rparr>) = claims_ahead j q" "claims_ahead j (q\<lparr>pq_activities := a\<rparr>) = claims_ahead j q"
  by (simp_all add: claims_ahead_def)

text \<open>Between the claims a due job stays as it is and nothing comes before it.\<close>
definition pj_waits :: "ident \<Rightarrow> projection_job \<Rightarrow> nat \<Rightarrow> projection_db \<Rightarrow> bool" where
  "pj_waits i j n q \<longleftrightarrow> get_job i q = Some j \<and> claims_ahead j q \<le> n"

lemma pj_waits_upd:
  assumes "pj_waits i j n q" "\<not> p j" "\<And>x. pj_id (f x) = pj_id x"
    "\<And>x. x \<in> set (pq_jobs q) \<Longrightarrow> p x \<Longrightarrow> pj_key (f x) < pj_key j \<Longrightarrow> pj_key x < pj_key j \<and> pj_attempts x \<le> pj_attempts (f x)"
  shows "pj_waits i j n (q\<lparr>pq_jobs := upd_where p f (pq_jobs q)\<rparr>)"
  using assms(1-3) claims_ahead_upd[of q p f j, OF assms(4)] by (auto simp: pj_waits_def get_job_upd)

lemma pj_waits_append:
  "pj_waits i j n q \<Longrightarrow> pj_availableAt j < pj_availableAt x \<Longrightarrow> pj_waits i j n (q\<lparr>pq_jobs := pq_jobs q @ [x]\<rparr>)"
  by (simp add: pj_waits_def get_job_append claims_ahead_append pj_key_def)

lemma pj_waits_frame [simp]:
  "pj_waits i j n (q\<lparr>pq_conflicts := c\<rparr>) = pj_waits i j n q" "pj_waits i j n (q\<lparr>pq_activities := a\<rparr>) = pj_waits i j n q"
  by (simp_all add: pj_waits_def)

lemma retry_later: "projectionRetryAt t n = Inr (Some a) \<Longrightarrow> t < a"
proof -
  assume a: "projectionRetryAt t n = Inr (Some a)"
  then have "n - 1 < 7" "a = t + RETRY_MS ! (n - 1)" by (auto simp: projectionRetryAt_def split: if_splits)
  moreover have "\<forall>k<7. 0 < RETRY_MS ! k" by (simp add: RETRY_MS_def All_less_Suc numeral_eq_Suc)
  ultimately show ?thesis by simp
qed

lemma done_attempts: "pj_attempts (pj_done m t j) = pj_attempts j"
  by (simp add: pj_done_def)

lemma pj_other_waits:
  assumes inv: "pj_inv q" and w: "pj_waits i j n q" and due: "pj_due t0 j" "pj_availableAt j \<le> t0"
    and op: "pj_later t0 j op" "\<not> pj_is_claim op"
  shows "pj_waits i j n (pj_exec op q)"
proof -
  have ok: "pj_ok j" using w pj_inv_row[OF inv, of i j] by (simp add: pj_waits_def)
  show ?thesis
  proof (cases op)
    case (PjOpEnqueue raw u now)
    then show ?thesis using w op(1)
      by (auto simp: pj_enqueue_def Let_def new_job_def intro!: pj_waits_append dest: normalize_available split: sum.split option.split)
  next
    case (PjOpEnqueueTx sha tenant raw)
    then show ?thesis using w op(1)
      by (auto simp: enqueueInTransaction_def Let_def new_job_def intro!: pj_waits_append dest: normalize_available
          split: sum.split option.split)
  next
    case (PjOpSucceed i' k t m)
    then have "\<not> pj_holds (trim k) t j" using pj_due_not_held[OF ok due(1)] op(1) by simp
    then show ?thesis using PjOpSucceed w
      by (auto simp: pj_succeed_def Let_def pj_keys done_attempts intro!: transaction_snd[where P = "pj_waits i j n"] pj_waits_upd
          split: sum.split)
  next
    case (PjOpFail redact i' k t err)
    then have nh: "\<not> pj_holds (trim k) t j" and t: "pj_availableAt j \<le> t" using pj_due_not_held[OF ok due(1)] op(1) due(2) by auto
    let ?p = "\<lambda>x. pj_id x = trim i' \<and> pj_holds (trim k) t x"
    have "pj_waits i j n (q\<lparr>pq_jobs := upd_where ?p (\<lambda>x. pj_failed r e t (x\<lparr>pj_availableAt := pj_availableAt cur\<rparr>)) (pq_jobs q)\<rparr>)"
      if cur: "find ?p (pq_jobs q) = Some cur" and r: "projectionRetryAt t (pj_attempts cur) = Inr r" for cur r e
    proof (rule pj_waits_upd[OF w])
      fix x
      assume x: "x \<in> set (pq_jobs q)" "?p x"
        "pj_key (pj_failed r e t (x\<lparr>pj_availableAt := pj_availableAt cur\<rparr>)) < pj_key j"
      have "x = cur" using find_unique[OF inv cur x(1)] x(2) by simp
      then show "pj_key x < pj_key j \<and> pj_attempts x \<le> pj_attempts (pj_failed r e t (x\<lparr>pj_availableAt := pj_availableAt cur\<rparr>))"
        using x(3) t r by (cases r) (auto simp: pj_key_def pj_failed_def dest: retry_later)
    qed (use nh in \<open>auto simp: pj_keys\<close>)
    then show ?thesis using PjOpFail w
      by (auto simp: pj_fail_def Let_def intro!: transaction_snd[where P = "pj_waits i j n"] split: sum.split option.split)
  next
    case (PjOpReplay i' a t u)
    have nd: "pj_status j \<noteq> PjDeadLetter" using due(1) by (auto simp: pj_due_def)
    let ?p = "\<lambda>x. pj_id x = trim i' \<and> pj_status x = PjDeadLetter"
    have "pj_waits i j n (q\<lparr>pq_jobs := upd_where ?p (pj_revive t) (pq_jobs q)\<rparr>)"
      using nd op(1) PjOpReplay by (intro pj_waits_upd[OF w]) (auto simp: pj_keys pj_key_def pj_revive_def)
    then show ?thesis using PjOpReplay w
      by (auto simp: pj_replayDeadLetter_def Let_def intro!: transaction_snd[where P = "pj_waits i j n"] split: sum.split option.split)
  qed (use op(2) in simp)
qed

text \<open>The claim that ends the waiting.\<close>
definition pj_served :: "ident \<Rightarrow> projection_job \<Rightarrow> pj_op \<Rightarrow> projection_db \<Rightarrow> bool" where
  "pj_served i j op q \<longleftrightarrow> (case op of PjOpClaim w t l limit us \<Rightarrow>
     if pj_attempts j = 8 then get_job i q = Some (pj_bury t j) else (\<exists>k. get_job i q = Some (pj_lease (trim w) k l t j)) | _ \<Rightarrow> False)"

lemma pj_served_after:
  assumes "pj_inv q" "pj_waits i j n q" "pj_due t0 j" "pj_availableAt j \<le> t0" "list_all (pj_later t0 j) ops"
    "n < length (filter pj_is_claim ops)"
  shows "\<exists>pre op post. ops = pre @ op # post \<and> get_job i (foldl (\<lambda>q op. pj_exec op q) q pre) = Some j \<and>
    pj_served i j op (pj_exec op (foldl (\<lambda>q op. pj_exec op q) q pre))"
  using assms(1,2,5,6)
proof (induction ops arbitrary: q n)
  case (Cons op ops)
  have g: "get_job i q = Some j" and ahead: "claims_ahead j q \<le> n" using Cons.prems(2) by (auto simp: pj_waits_def)
  have inv: "pj_inv (pj_exec op q)" by (rule pj_exec_inv[OF Cons.prems(1)])
  have later: "pj_later t0 j op" "list_all (pj_later t0 j) ops" using Cons.prems(3) by simp_all
  have step: ?case if "pj_waits i j m (pj_exec op q)" "m < length (filter pj_is_claim ops)" for m
    using Cons.IH[OF inv that(1) later(2) that(2)] by (metis append_Cons foldl_Cons)
  show ?case
  proof (cases "pj_is_claim op")
    case False
    then show ?thesis
      using step[OF pj_other_waits[OF Cons.prems(1,2) assms(3,4) later(1) False]] Cons.prems(4) by simp
  next
    case True
    then obtain w t l limit us where c: "op = PjOpClaim w t l limit us" by (cases op) auto
    have due: "pj_due t j" and args: "trim w \<noteq> []" "0 < l" "1 \<le> limit"
      using later(1) pj_due_later[OF assms(3)] by (auto simp: c)
    note serves = pj_claim_serves[OF Cons.prems(1) g due args, of us]
    show ?thesis
    proof (cases "pj_served i j op (pj_exec op q)")
      case True
      then show ?thesis using g by (intro exI[of _ "[]"]) simp
    next
      case False
      then have "pj_attempts j \<noteq> 8" using serves(1) by (auto simp: pj_served_def c)
      moreover from this have "pj_attempts j < 8" using pj_due_cases[OF pj_inv_row[OF Cons.prems(1) g] due] by auto
      ultimately have "get_job i (pj_exec op q) = Some j" "claims_ahead j (pj_exec op q) < claims_ahead j q"
        using serves(2) False by (auto simp: pj_served_def c)
      then show ?thesis using step[of "n - 1"] ahead Cons.prems(4) True by (simp add: pj_waits_def)
    qed
  qed
qed simp

subsection \<open>Outcomes of finishing and replaying\<close>

lemma pj_succeed_outcome:
  assumes "pj_inv q" "get_job (trim i) q = Some j"
  shows "fst (pj_succeed i k t m q) =
    (if trim i = [] then Inl (PjEmptyText ''id'') else if trim k = [] then Inl (PjEmptyText ''leaseToken'')
     else if trim m = [] then Inl (PjEmptyText ''projectedWatermark'')
     else if pj_holds (trim k) t j then Inr (pj_done (trim m) t j) else Inl PjLeaseConflict)"
proof -
  let ?p = "\<lambda>x. pj_id x = trim i \<and> pj_holds (trim k) t x"
  have "changes ?p (pq_jobs q) = (if ?p j then 1 else 0)"
    using assms by (intro changes_key[where key = pj_id and k = "trim i"]) (auto simp: pj_inv_def get_job_def)
  moreover have "get_job (trim i) (q\<lparr>pq_jobs := upd_where ?p (pj_done (trim m) t) (pq_jobs q)\<rparr>) =
      Some (if ?p j then pj_done (trim m) t j else j)"
    using assms(2) by (subst get_job_upd) (auto simp: pj_keys)
  ultimately show ?thesis using get_job_id[OF assms(2)]
    by (simp add: pj_succeed_def requireText_def Let_def transaction_def jobRowOrThrow_def)
qed

lemma pj_replay_outcome:
  assumes "pj_inv q" "get_job (trim i) q = Some j" "pj_status j = PjDeadLetter" "trim i \<noteq> []" "trim a \<noteq> []"
  shows "fst (pj_replayDeadLetter i a t u q) = Inr (pj_revive t j)"
proof -
  let ?p = "\<lambda>x. pj_id x = trim i \<and> pj_status x = PjDeadLetter"
  have "changes ?p (pq_jobs q) = (if ?p j then 1 else 0)"
    using assms by (intro changes_key[where key = pj_id and k = "trim i"]) (auto simp: pj_inv_def get_job_def)
  moreover obtain prev where "find ?p (pq_jobs q) = Some prev"
    using get_job_id[OF assms(2)] assms(3) by (cases "find ?p (pq_jobs q)") (auto simp: find_None_iff)
  moreover have "get_job (trim i) (q\<lparr>pq_jobs := upd_where ?p (pj_revive t) (pq_jobs q)\<rparr>) =
      Some (if ?p j then pj_revive t j else j)"
    using assms(2) by (subst get_job_upd) (auto simp: pj_keys)
  ultimately show ?thesis using get_job_id[OF assms(2)] assms(3-5)
    by (simp add: pj_replayDeadLetter_def requireText_def Let_def transaction_def)
qed

subsection \<open>Properties\<close>

text \<open>C23 Over any run of the queue from empty, each source change has at most one job, a job is leased
  exactly while it is processing, its attempts never exceed eight, it waits for a retry only with
  attempts left, is dead-lettered only after its eighth attempt, and a success carries its watermark.\<close>
theorem projection_queue_invariant: "pj_inv (foldl (\<lambda>q op. pj_exec op q) pj_empty ops)"
  by (rule pj_run_inv) (simp add: pj_inv_def pj_empty_def)

text \<open>C24 A claimed job is exclusive: any run of operations that show another token, with claims only
  before the lease ends, leaves it as it is; its worker can still complete it, and nobody else can.\<close>
theorem projection_lease_exclusive:
  assumes "get_job i q = Some j" "pj_status j = PjProcessing" "pj_leaseToken j = Some k" "pj_leaseExpiresAt j = Some e"
    "pj_inv q" "list_all (pj_outsider k e) ops" "t < e" "trim m \<noteq> []" "trim i = i" "trim k = k" "i \<noteq> []" "k \<noteq> []"
  shows "let q' = foldl (\<lambda>q op. pj_exec op q) q ops in get_job i q' = Some j \<and>
    fst (pj_succeed i k t m q') = Inr (pj_done (trim m) t j) \<and>
    (\<forall>k' t' m' x. trim k' \<noteq> k \<longrightarrow> fst (pj_succeed i k' t' m' q') \<noteq> Inr x)"
proof -
  let ?q = "foldl (\<lambda>q op. pj_exec op q) q ops"
  have h: "pj_queue.held j k e" using assms(2-4) by (simp add: pj_queue.held_def pj_holder_def)
  have g: "get_job i ?q = Some j" by (rule pj_outsiders_keep[OF assms(1) h assms(6)])
  have inv: "pj_inv ?q" by (rule pj_run_inv[OF assms(5)])
  have g': "get_job (trim i) ?q = Some j" using g assms(9) by simp
  have "fst (pj_succeed i k t m ?q) = Inr (pj_done (trim m) t j)"
    using pj_succeed_outcome[OF inv g', where k = k and m = m and t = t] assms(2-4,7-12) by (simp add: pj_holds_def)
  moreover have "fst (pj_succeed i k' t' m' ?q) \<noteq> Inr x" if "trim k' \<noteq> k" for k' t' m' x
    using pj_succeed_outcome[OF inv g', where k = k' and m = m' and t = t'] pj_held_facts(4)[OF h that, of t'] assms(9) by auto
  ultimately show ?thesis using g by (simp add: Let_def)
qed

definition pj_demo_input :: enqueue_input where
  "pj_demo_input = \<lparr>eq_sourceTable = ''t'', eq_sourceKey = ''k'', eq_sourceRevision = ''1'',
     eq_eventType = ''e'', eq_payloadHash = ''h'', eq_availableAt = 0\<rparr>"

definition pj_demo :: projection_db where
  "pj_demo = \<lparr>pq_jobs = [pj_lease ''w'' ''s'' 10 5 (new_job ''j'' pj_demo_input 0)], pq_conflicts = [], pq_activities = []\<rparr>"

lemma pj_demo_inv: "pj_inv pj_demo"
  by (simp add: pj_inv_def pj_demo_def pj_ok_def pj_lease_def new_job_def)

lemma pj_demo_job: "get_job ''j'' pj_demo = Some (pj_lease ''w'' ''s'' 10 5 (new_job ''j'' pj_demo_input 0))"
  by (simp add: pj_demo_def get_job_def pj_keys new_job_def)

lemma projection_lease_exclusive_witness:
  "fst (pj_succeed ''j'' ''s'' 14 ''m''
     (pj_exec (PjOpSucceed ''j'' ''old'' 12 ''m'') (pj_exec (PjOpClaim ''v'' 9 10 1 (\<lambda>n. ''x'')) pj_demo)))
   = Inr (pj_done ''m'' 14 (pj_lease ''w'' ''s'' 10 5 (new_job ''j'' pj_demo_input 0)))"
  using projection_lease_exclusive[OF pj_demo_job _ _ _ pj_demo_inv, where k = "''s''" and e = 15 and t = 14 and m = "''m''"
      and ops = "[PjOpClaim ''v'' 9 10 1 (\<lambda>n. ''x''), PjOpSucceed ''j'' ''old'' 12 ''m'']"]
  by (simp add: pj_lease_def trim_def is_space_def Let_def)


text \<open>The job of the dead worker comes after a job that is due as well: claims of one job each take the other first.\<close>
definition pj_demo_two :: projection_db where
  "pj_demo_two = \<lparr>pq_jobs = [pj_lease ''w'' ''s'' 10 5 (new_job ''j'' pj_demo_input 0),
     (new_job ''a'' (pj_demo_input\<lparr>eq_sourceKey := ''k2''\<rparr>) 0)\<lparr>pj_status := PjRetryWait, pj_attempts := 7\<rparr>],
     pq_conflicts = [], pq_activities = []\<rparr>"


text \<open>Enqueueing is idempotent: the same source change with the same payload gives the same job again
  and changes nothing, and with another payload it is refused, recorded as a conflict and the job kept.\<close>
theorem projection_enqueue_idempotent:
  assumes "normalize_input raw = Inr inp" "fst (pj_enqueue raw u now q) = Inr j"
    "normalize_input raw' = Inr inp'" "same_source inp' j"
  shows "let q' = snd (pj_enqueue raw u now q); r = pj_enqueue raw' u' now' q' in
    (eq_payloadHash inp' = eq_payloadHash inp \<longrightarrow> r = (Inr j, q')) \<and>
    (eq_payloadHash inp' \<noteq> eq_payloadHash inp \<longrightarrow> fst r = Inl (PjPayloadConflict (eq_sourceKey inp')) \<and>
       pq_jobs (snd r) = pq_jobs q' \<and> length (pq_conflicts (snd r)) = length (pq_conflicts q') + 1)"
proof -
  note found = pj_enqueue_found[OF assms(1,2)]
  have "same_source inp j" using find_Some_mem[OF conjunct1[OF found]] by simp
  then have "same_source inp' = same_source inp"
    using assms(4) by (auto simp: same_source_def fun_eq_iff)
  then show ?thesis
    using found pj_enqueue_again[OF assms(3), of "snd (pj_enqueue raw u now q)" j u' now'] by (auto simp: Let_def)
qed

lemma projection_enqueue_idempotent_witness:
  "snd (pj_enqueue pj_demo_input ''v'' 9 (snd (pj_enqueue pj_demo_input ''u'' 5 pj_empty)))
     = snd (pj_enqueue pj_demo_input ''u'' 5 pj_empty)"
proof -
  have n: "normalize_input pj_demo_input = Inr pj_demo_input"
    by (simp add: normalize_input_def requireText_def pj_demo_input_def trim_def is_space_def)
  have "fst (pj_enqueue pj_demo_input ''u'' 5 pj_empty) = Inr (new_job (''twin:projection-job:'' @ ''u'') pj_demo_input 5)"
    by (simp add: pj_enqueue_def n pj_empty_def Let_def)
  from projection_enqueue_idempotent[OF n this n, where u' = "''v''" and now' = 9] show ?thesis
    by (simp add: same_source_def new_job_def Let_def)
qed

end
