(* ===== verification/Transactions.thy ===== *)
theory Transactions
  imports Prelude
begin

text \<open>
  Writes of a store under SQLite transactions.  An operation takes the store and returns its result,
  a value or an error, with the store it leaves; \<open>bind_tx\<close> runs one after another, an error ending
  the sequence, and \<open>atomic\<close> is \<open>BEGIN ... COMMIT\<close> with a rollback when the body throws.  The rules
  reduce a fact about a handler to the same fact about its single writes.
\<close>

type_synonym ('e, 'a, 's) tx = "('e, 'a) result \<times> 's"

definition bind_tx :: "('e, 'a, 's) tx \<Rightarrow> ('a \<Rightarrow> 's \<Rightarrow> ('e, 'b, 's) tx) \<Rightarrow> ('e, 'b, 's) tx" where
  "bind_tx r f = (case r of (Inl e, s) \<Rightarrow> (Inl e, s) | (Inr a, s) \<Rightarrow> f a s)"

definition atomic :: "'s \<Rightarrow> ('e, 'a, 's) tx \<Rightarrow> ('e, 'a, 's) tx" where
  "atomic s r = (case r of (Inl e, _) \<Rightarrow> (Inl e, s) | (Inr a, s') \<Rightarrow> (Inr a, s'))"

definition guard_tx :: "bool \<Rightarrow> 'e \<Rightarrow> ('e, 'a, 's) tx \<Rightarrow> 's \<Rightarrow> ('e, 'a, 's) tx" where
  "guard_tx ok e r s = (if ok then r else (Inl e, s))"

lemma bind_tx_simps [simp]:
  "bind_tx (Inl e, s) f = (Inl e, s)" "bind_tx (Inr a, s) f = f a s"
  by (simp_all add: bind_tx_def)

lemma atomic_simps [simp]: "atomic s (Inl e, s') = (Inl e, s)" "atomic s (Inr a, s') = (Inr a, s')"
  by (simp_all add: atomic_def)

lemma guard_tx_simps [simp]: "guard_tx True e r s = r" "guard_tx False e r s = (Inl e, s)"
  by (simp_all add: guard_tx_def)

lemma bind_tx_store:
  "P (snd r) \<Longrightarrow> (\<And>a s. r = (Inr a, s) \<Longrightarrow> P (snd (f a s))) \<Longrightarrow> P (snd (bind_tx r f))"
  by (cases r; cases "fst r") auto

lemma atomic_store: "P s \<Longrightarrow> (\<And>a s'. r = (Inr a, s') \<Longrightarrow> P s') \<Longrightarrow> P (snd (atomic s r))"
  by (cases r; cases "fst r") auto

lemma atomic_error: "atomic s r = (Inl e, s') \<Longrightarrow> s' = s"
  by (cases r; cases "fst r") auto

lemma bind_tx_ok: "bind_tx r f = (Inr b, s') \<longleftrightarrow> (\<exists>a s. r = (Inr a, s) \<and> f a s = (Inr b, s'))"
  by (cases r; cases "fst r") auto

lemma atomic_ok: "atomic s r = (Inr b, s') \<longleftrightarrow> r = (Inr b, s')"
  by (cases r; cases "fst r") auto

lemma guard_tx_ok: "guard_tx c e r s = (Inr b, s') \<longleftrightarrow> c \<and> r = (Inr b, s')"
  by (cases c) auto

lemmas tx_ok = bind_tx_ok atomic_ok guard_tx_ok

text \<open>A loop of writes, ended by the first error.\<close>
fun each_tx :: "('x \<Rightarrow> 's \<Rightarrow> ('e, unit, 's) tx) \<Rightarrow> 'x list \<Rightarrow> 's \<Rightarrow> ('e, unit, 's) tx" where
  "each_tx f [] s = (Inr (), s)"
| "each_tx f (x # xs) s = bind_tx (f x s) (\<lambda>_. each_tx f xs)"

lemma each_tx_keeps:
  assumes "P s" "each_tx f xs s = (Inr u, s')" "\<And>x s s'. x \<in> set xs \<Longrightarrow> P s \<Longrightarrow> f x s = (Inr (), s') \<Longrightarrow> P s'"
  shows "P s'"
  using assms
proof (induction xs arbitrary: s)
  case (Cons x xs)
  from Cons.prems(2) obtain s1 where "f x s = (Inr (), s1)" "each_tx f xs s1 = (Inr u, s')"
    by (auto simp: bind_tx_ok)
  then show ?case using Cons.IH[of s1] Cons.prems(1,3) by (meson list.set_intros)
qed simp

text \<open>What the write of one element establishes and every other write keeps holds in the end.\<close>
lemma each_tx_reaches:
  assumes "x \<in> set xs" "each_tx f xs s = (Inr u, s')" "\<And>s s'. f x s = (Inr (), s') \<Longrightarrow> Q s'"
    "\<And>y s s'. Q s \<Longrightarrow> f y s = (Inr (), s') \<Longrightarrow> Q s'"
  shows "Q s'"
  using assms(1,2)
proof (induction xs arbitrary: s)
  case (Cons y ys)
  from Cons.prems(2) obtain s1 where s1: "f y s = (Inr (), s1)" "each_tx f ys s1 = (Inr u, s')"
    by (auto simp: bind_tx_ok)
  show ?case
  proof (cases "x = y")
    case True
    then show ?thesis using each_tx_keeps[OF _ s1(2), of Q] s1(1) assms(3,4) by blast
  next
    case False
    then show ?thesis using Cons.IH[OF _ s1(2)] Cons.prems(1) by simp
  qed
qed simp

text \<open>A value computed beside the store, its error ending the sequence.\<close>
definition with_value :: "('e, 'a) result \<Rightarrow> ('a \<Rightarrow> 's \<Rightarrow> ('e, 'b, 's) tx) \<Rightarrow> 's \<Rightarrow> ('e, 'b, 's) tx" where
  "with_value r f x = (case r of Inl e \<Rightarrow> (Inl e, x) | Inr a \<Rightarrow> f a x)"

lemma with_value_simps [simp]: "with_value (Inl e) f x = (Inl e, x)" "with_value (Inr a) f x = f a x"
  by (simp_all add: with_value_def)

lemma with_value_ok: "with_value r f x = (Inr b, s') \<longleftrightarrow> (\<exists>a. r = Inr a \<and> f a x = (Inr b, s'))"
  by (cases r) auto

subsection \<open>What holds after a successful write\<close>

text \<open>A postcondition of the successful outcomes, with one rule per way the handlers compose their writes.\<close>
definition after :: "('s \<Rightarrow> bool) \<Rightarrow> ('e, 'a, 's) tx \<Rightarrow> bool" where
  "after P r \<longleftrightarrow> (\<forall>a s. r = (Inr a, s) \<longrightarrow> P s)"

lemma afterD: "after P r \<Longrightarrow> r = (Inr a, s) \<Longrightarrow> P s"
  by (simp add: after_def)

lemma after_fail [simp]: "after P (Inl e, s)"
  by (simp add: after_def)

lemma after_done [simp]: "after P (Inr a, s) \<longleftrightarrow> P s"
  by (simp add: after_def)

lemma after_bind: "after Q r \<Longrightarrow> (\<And>a s. r = (Inr a, s) \<Longrightarrow> Q s \<Longrightarrow> after P (f a s)) \<Longrightarrow> after P (bind_tx r f)"
  by (auto simp: after_def bind_tx_ok)

lemma after_value: "(\<And>a. r = Inr a \<Longrightarrow> after P (f a x)) \<Longrightarrow> after P (with_value r f x)"
  by (auto simp: after_def with_value_ok)

lemma after_atomic: "after P r \<Longrightarrow> after P (atomic s r)"
  by (auto simp: after_def atomic_ok)

lemma after_if: "(c \<Longrightarrow> after P r) \<Longrightarrow> (\<not> c \<Longrightarrow> after P q) \<Longrightarrow> after P (if c then r else q)"
  by simp

lemma after_if_fun: "(c \<Longrightarrow> after P (f x)) \<Longrightarrow> (\<not> c \<Longrightarrow> after P (g x)) \<Longrightarrow> after P ((if c then f else g) x)"
  by simp

lemma after_option:
  "(v = None \<Longrightarrow> after P r) \<Longrightarrow> (\<And>a. v = Some a \<Longrightarrow> after P (f a)) \<Longrightarrow> after P (case v of None \<Rightarrow> r | Some a \<Rightarrow> f a)"
  by (cases v) auto

lemma after_pair: "(\<And>a b. p = (a, b) \<Longrightarrow> after P (f a b)) \<Longrightarrow> after P (case p of (a, b) \<Rightarrow> f a b)"
  by (cases p) auto

lemma after_pair_fun: "(\<And>a b. p = (a, b) \<Longrightarrow> after P (f a b x)) \<Longrightarrow> after P ((case p of (a, b) \<Rightarrow> f a b) x)"
  by (cases p) auto

lemma after_sum:
  "(\<And>a. v = Inl a \<Longrightarrow> after P (f a)) \<Longrightarrow> (\<And>b. v = Inr b \<Longrightarrow> after P (g b)) \<Longrightarrow> after P (case v of Inl a \<Rightarrow> f a | Inr b \<Rightarrow> g b)"
  by (cases v) auto

lemma after_mono: "after Q r \<Longrightarrow> (\<And>s. Q s \<Longrightarrow> P s) \<Longrightarrow> after P r"
  by (auto simp: after_def)

lemma after_each: "P s \<Longrightarrow> (\<And>x s. x \<in> set xs \<Longrightarrow> P s \<Longrightarrow> after P (f x s)) \<Longrightarrow> after P (each_tx f xs s)"
  unfolding after_def using each_tx_keeps[of P s f xs] by blast

lemmas after_rules = after_bind after_value after_atomic after_if after_if_fun after_option after_pair after_pair_fun after_sum

end
