(* ===== verification/Documents.thy ===== *)
theory Documents
  imports ProjectionQueue Transactions JsNumber
begin

text \<open>
  Procurement documents and their lines as versioned rows, each write enqueueing the projection of
  the row's new version in the same transaction (\<open>saveDocument\<close>, \<open>saveLine\<close>, the execution writes and
  the RIHD write-back of \<open>packages/persistence/src/index.ts\<close>; the line writer of
  \<open>packages/persistence/src/twin-projection-enqueue.ts\<close>).  SHA-256, the JSON text of a scalar and
  the ISO text of an instant are arguments (\<open>proj_env\<close>).
\<close>

subsection \<open>Data\<close>

record proj_env =
  pe_sha :: "string \<Rightarrow> string"
  pe_json :: "json \<Rightarrow> string"
  pe_iso :: "instant \<Rightarrow> string"
  pe_tenant :: ident

record document =
  doc_id :: ident
  doc_tenantId :: ident
  doc_sourceSystem :: string
  doc_externalId :: string
  doc_status :: string
  doc_createdAt :: instant
  doc_updatedAt :: instant
  doc_fields :: "(string \<times> json) list"

record proc_line =
  pl_id :: ident
  pl_lineNumber :: string
  pl_fields :: "(string \<times> json) list"

record doc_row =
  dr_kind :: string
  dr_id :: ident
  dr_sourceSystem :: string
  dr_externalId :: string
  dr_status :: string
  dr_version :: nat
  dr_document :: document
  dr_createdAt :: instant
  dr_updatedAt :: instant

record line_row =
  lr_kind :: string
  lr_id :: ident
  lr_documentId :: ident
  lr_lineNumber :: string
  lr_line :: proc_line
  lr_generation :: nat

datatype po_stage = PoSent | SupplierCommitment | FulfilmentProduction | DispatchTransit | DeliveryGrn

datatype stage_state = StCompleted | StActive | StPending | StBlocked

record stage_event =
  sg_id :: ident
  sg_poId :: ident
  sg_stage :: po_stage
  sg_eventType :: string
  sg_state :: stage_state
  sg_occurredAt :: instant
  sg_sourceKind :: string
  sg_sourceId :: string
  sg_actorId :: string
  sg_evidence :: json

record doc_activity =
  da_id :: ident
  da_at :: instant
  da_objectId :: ident
  da_actor :: string
  da_action :: string

record proc_db =
  pd_documents :: "doc_row list"
  pd_lines :: "line_row list"
  pd_stages :: "stage_event list"
  pd_activities :: "doc_activity list"
  pd_queue :: projection_db

datatype doc_fault = DTenant | DBadVersion | DReserved | DVersionConflict int int | DConcurrent | DUnique
  | DNotFinite | DQueue pj_fault | DLineParent | DNoDocument | DImmutable string | DGeneration | DInvalid string
  | DState string

type_synonym 'a doc_tx = "(doc_fault, 'a, proc_db) tx"

subsection \<open>Payload hashes\<close>

text \<open>\<open>canonicalJson\<close>: object entries sorted by key; \<open>None\<close> for a number that is not finite.\<close>
fun all_some :: "'a option list \<Rightarrow> 'a list option" where
  "all_some [] = Some []"
| "all_some (None # xs) = None"
| "all_some (Some x # xs) = (case all_some xs of None \<Rightarrow> None | Some ys \<Rightarrow> Some (x # ys))"

fun canonicalJson :: "(json \<Rightarrow> string) \<Rightarrow> json \<Rightarrow> string option" where
  "canonicalJson J (JNum n) = (if is_finite n then Some (J (JNum n)) else None)"
| "canonicalJson J (JArr xs) = (case all_some (map (canonicalJson J) xs) of None \<Rightarrow> None
     | Some ys \<Rightarrow> Some (''['' @ join '','' ys @ '']''))"
| "canonicalJson J (JObj kvs) = (case all_some (map snd (sort_key fst (map (\<lambda>(k, v). (k,
         (case canonicalJson J v of None \<Rightarrow> None | Some r \<Rightarrow> Some (J (JStr k) @ '':'' @ r)))) kvs))) of
       None \<Rightarrow> None | Some ys \<Rightarrow> Some (''{'' @ join '','' ys @ ''}''))"
| "canonicalJson J v = Some (J v)"

definition twinProjectionPayloadHash :: "proj_env \<Rightarrow> json \<Rightarrow> string option" where
  "twinProjectionPayloadHash E v = map_option (pe_sha E) (canonicalJson (pe_json E) v)"

definition document_json :: "proj_env \<Rightarrow> document \<Rightarrow> json" where
  "document_json E d = JObj ([(''id'', JStr (doc_id d)), (''tenantId'', JStr (doc_tenantId d)),
     (''sourceSystem'', JStr (doc_sourceSystem d)), (''externalId'', JStr (doc_externalId d)),
     (''status'', JStr (doc_status d)), (''createdAt'', JStr (pe_iso E (doc_createdAt d))),
     (''updatedAt'', JStr (pe_iso E (doc_updatedAt d)))] @ doc_fields d)"

definition line_json :: "proc_line \<Rightarrow> json" where
  "line_json l = JObj ([(''id'', JStr (pl_id l)), (''lineNumber'', JStr (pl_lineNumber l))] @ pl_fields l)"

subsection \<open>Enqueueing beside a write\<close>

definition twin_enqueue :: "proj_env \<Rightarrow> enqueue_input \<Rightarrow> proc_db \<Rightarrow> unit doc_tx" where
  "twin_enqueue E inp d = (case enqueueInTransaction (pe_sha E) (pe_tenant E) inp (pd_queue d) of
     (Inl e, q) \<Rightarrow> (Inl (DQueue e), d\<lparr>pd_queue := q\<rparr>) | (Inr _, q) \<Rightarrow> (Inr (), d\<lparr>pd_queue := q\<rparr>))"

definition changed_input :: "string \<Rightarrow> string \<Rightarrow> ident \<Rightarrow> nat \<Rightarrow> string \<Rightarrow> instant \<Rightarrow> enqueue_input" where
  "changed_input table kind i n h t = \<lparr>eq_sourceTable = table, eq_sourceKey = kind @ '':'' @ i,
     eq_sourceRevision = nat_str n, eq_eventType = kind @ ''.changed'', eq_payloadHash = h, eq_availableAt = t\<rparr>"

definition enqueueDocumentProjection :: "proj_env \<Rightarrow> string \<Rightarrow> document \<Rightarrow> nat \<Rightarrow> proc_db \<Rightarrow> unit doc_tx" where
  "enqueueDocumentProjection E kind d n db = (case twinProjectionPayloadHash E (document_json E d) of
     None \<Rightarrow> (Inl DNotFinite, db)
   | Some h \<Rightarrow> twin_enqueue E (changed_input ''procurement_documents'' kind (doc_id d) n h (doc_updatedAt d)) db)"

definition enqueueLineProjection :: "proj_env \<Rightarrow> string \<Rightarrow> proc_line \<Rightarrow> instant \<Rightarrow> nat \<Rightarrow> proc_db \<Rightarrow> unit doc_tx" where
  "enqueueLineProjection E kind l t n db = (case twinProjectionPayloadHash E (line_json l) of
     None \<Rightarrow> (Inl DNotFinite, db)
   | Some h \<Rightarrow> twin_enqueue E (changed_input ''procurement_lines'' kind (pl_id l) n h t) db)"

subsection \<open>Stage events of a purchase order\<close>

definition observedPoStage :: "string \<Rightarrow> po_stage \<times> stage_state" where
  "observedPoStage st =
    (if st = ''draft'' then (PoSent, StActive)
     else if st = ''rejected'' then (SupplierCommitment, StBlocked)
     else if st \<in> {''sent'', ''awaiting_confirmation''} then (SupplierCommitment, StActive)
     else if st \<in> {''confirmed'', ''in_production'', ''awaiting_shipment''} then (FulfilmentProduction, StActive)
     else if st \<in> {''partially_shipped'', ''shipped''} then (DispatchTransit, StActive)
     else if st = ''partially_received'' then (DeliveryGrn, StActive)
     else if st = ''received'' then (DeliveryGrn, StCompleted)
     else (PoSent, StActive))"

definition stage_name :: "po_stage \<Rightarrow> string" where
  "stage_name s = (case s of PoSent \<Rightarrow> ''po_sent'' | SupplierCommitment \<Rightarrow> ''supplier_commitment''
     | FulfilmentProduction \<Rightarrow> ''fulfilment_production'' | DispatchTransit \<Rightarrow> ''dispatch_transit''
     | DeliveryGrn \<Rightarrow> ''delivery_grn'')"

definition state_name :: "stage_state \<Rightarrow> string" where
  "state_name s = (case s of StCompleted \<Rightarrow> ''completed'' | StActive \<Rightarrow> ''active'' | StPending \<Rightarrow> ''pending''
     | StBlocked \<Rightarrow> ''blocked'')"

definition stage_json :: "proj_env \<Rightarrow> stage_event \<Rightarrow> json" where
  "stage_json E s = JObj [(''id'', JStr (sg_id s)), (''poId'', JStr (sg_poId s)),
     (''stage'', JStr (stage_name (sg_stage s))), (''eventType'', JStr (sg_eventType s)),
     (''state'', JStr (state_name (sg_state s))), (''occurredAt'', JStr (pe_iso E (sg_occurredAt s))),
     (''sourceKind'', JStr (sg_sourceKind s)), (''sourceId'', JStr (sg_sourceId s)),
     (''actorId'', JStr (sg_actorId s)), (''evidence'', sg_evidence s)]"

text \<open>\<open>INSERT OR IGNORE\<close>: a stage fact of the same source is kept once.\<close>
definition same_stage :: "stage_event \<Rightarrow> stage_event \<Rightarrow> bool" where
  "same_stage a b \<longleftrightarrow> sg_id a = sg_id b \<or> (sg_poId a = sg_poId b \<and> sg_stage a = sg_stage b \<and>
     sg_eventType a = sg_eventType b \<and> sg_sourceKind a = sg_sourceKind b \<and> sg_sourceId a = sg_sourceId b)"

definition stage_input :: "stage_event \<Rightarrow> string \<Rightarrow> enqueue_input" where
  "stage_input s h = \<lparr>eq_sourceTable = ''procurement_po_stage_events'', eq_sourceKey = sg_id s,
     eq_sourceRevision = ''1'', eq_eventType = ''procurement_po_stage_event.created'',
     eq_payloadHash = h, eq_availableAt = sg_occurredAt s\<rparr>"

definition recordPoStageEvent :: "proj_env \<Rightarrow> stage_event \<Rightarrow> proc_db \<Rightarrow> unit doc_tx" where
  "recordPoStageEvent E s db =
    (if list_ex (same_stage s) (pd_stages db) then (Inr (), db)
     else let db1 = db\<lparr>pd_stages := pd_stages db @ [s]\<rparr> in
       (case twinProjectionPayloadHash E (stage_json E s) of
          None \<Rightarrow> (Inl DNotFinite, db1)
        | Some h \<Rightarrow> twin_enqueue E (stage_input s h) db1))"

definition recordObservedPurchaseOrderStatus :: "proj_env \<Rightarrow> document \<Rightarrow> nat \<Rightarrow> string \<Rightarrow> proc_db \<Rightarrow> unit doc_tx" where
  "recordObservedPurchaseOrderStatus E po version uuid =
    recordPoStageEvent E \<lparr>sg_id = ''po-stage-event:'' @ uuid, sg_poId = doc_id po,
      sg_stage = fst (observedPoStage (doc_status po)), sg_eventType = ''observed_document_status'',
      sg_state = snd (observedPoStage (doc_status po)), sg_occurredAt = doc_updatedAt po,
      sg_sourceKind = ''document_snapshot'',
      sg_sourceId = doc_sourceSystem po @ '':'' @ doc_externalId po @ '':v'' @ nat_str version,
      sg_actorId = ''source:'' @ doc_sourceSystem po,
      sg_evidence = JObj [(''observedStatus'', JStr (doc_status po)), (''sourceSystem'', JStr (doc_sourceSystem po)),
        (''externalId'', JStr (doc_externalId po)), (''documentVersion'', JNum (jint (int version))),
        (''exactTransitionTime'', JBool False),
        (''note'', JStr ''This event records an imported or directly persisted status observation, not an exact transition timestamp'')]\<rparr>"

subsection \<open>Documents\<close>

definition find_doc :: "string \<Rightarrow> ident \<Rightarrow> proc_db \<Rightarrow> doc_row option" where
  "find_doc kind i db = find (\<lambda>r. (dr_kind r, dr_id r) = (kind, i)) (pd_documents db)"

definition doc_row_of :: "string \<Rightarrow> document \<Rightarrow> nat \<Rightarrow> instant \<Rightarrow> doc_row" where
  "doc_row_of kind d n created = \<lparr>dr_kind = kind, dr_id = doc_id d, dr_sourceSystem = doc_sourceSystem d,
     dr_externalId = doc_externalId d, dr_status = doc_status d, dr_version = n, dr_document = d,
     dr_createdAt = created, dr_updatedAt = doc_updatedAt d\<rparr>"

text \<open>The unique index on the source of a document.\<close>
definition source_taken :: "string \<Rightarrow> document \<Rightarrow> proc_db \<Rightarrow> bool" where
  "source_taken kind d db \<longleftrightarrow> list_ex (\<lambda>r. dr_kind r = kind \<and> dr_id r \<noteq> doc_id d \<and>
     dr_sourceSystem r = doc_sourceSystem d \<and> dr_externalId r = doc_externalId d) (pd_documents db)"

definition observe_po :: "proj_env \<Rightarrow> string \<Rightarrow> document \<Rightarrow> nat \<Rightarrow> string \<Rightarrow> proc_db \<Rightarrow> unit doc_tx" where
  "observe_po E kind d n uuid db = (if kind = ''purchase_order''
     then recordObservedPurchaseOrderStatus E d n uuid db else (Inr (), db))"

text \<open>The projection of a new version and, for an order, the observed stage.\<close>
definition project_version :: "proj_env \<Rightarrow> string \<Rightarrow> document \<Rightarrow> nat \<Rightarrow> string \<Rightarrow> proc_db \<Rightarrow> (document \<times> nat) doc_tx" where
  "project_version E kind d n uuid db =
    bind_tx (enqueueDocumentProjection E kind d n db) (\<lambda>_ db.
    bind_tx (observe_po E kind d n uuid db) (\<lambda>_ db. (Inr (d, n), db)))"

definition save_body :: "proj_env \<Rightarrow> string \<Rightarrow> document \<Rightarrow> int \<Rightarrow> string \<Rightarrow> proc_db \<Rightarrow> (document \<times> nat) doc_tx" where
  "save_body E kind d expected uuid db =
    (case find_doc kind (doc_id d) db of
       None \<Rightarrow>
         if expected \<noteq> 0 then (Inl (DVersionConflict expected 0), db)
         else if source_taken kind d db then (Inl DUnique, db)
         else project_version E kind d 1 uuid
                (db\<lparr>pd_documents := pd_documents db @ [doc_row_of kind d 1 (doc_createdAt d)]\<rparr>)
     | Some cur \<Rightarrow>
         if int (dr_version cur) \<noteq> expected then (Inl (DVersionConflict expected (int (dr_version cur))), db)
         else if source_taken kind d db then (Inl DUnique, db)
         else
           let n = dr_version cur + 1;
               p = (\<lambda>r. (dr_kind r, dr_id r) = (kind, doc_id d) \<and> dr_version r = dr_version cur);
               db1 = db\<lparr>pd_documents := upd_where p (\<lambda>r. doc_row_of kind d n (dr_createdAt r)) (pd_documents db)\<rparr>
           in if changes p (pd_documents db) \<noteq> 1 then (Inl DConcurrent, db1)
              else project_version E kind d n uuid db1)"

definition saveDocument :: "proj_env \<Rightarrow> string \<Rightarrow> document \<Rightarrow> int \<Rightarrow> string \<Rightarrow> proc_db \<Rightarrow> (document \<times> nat) doc_tx" where
  "saveDocument E kind d expected uuid db =
    (if doc_tenantId d \<noteq> pe_tenant E then (Inl DTenant, db)
     else if expected < 0 then (Inl DBadVersion, db)
     else if kind = ''quote_comparison'' then (Inl DReserved, db)
     else atomic db (save_body E kind d expected uuid db))"

definition getDocument :: "string \<Rightarrow> ident \<Rightarrow> proc_db \<Rightarrow> (document \<times> nat) option" where
  "getDocument kind i db = map_option (\<lambda>r. (dr_document r, dr_version r)) (find_doc kind i db)"

definition updateExecutionDocument :: "proj_env \<Rightarrow> string \<Rightarrow> document \<Rightarrow> nat \<Rightarrow> proc_db \<Rightarrow> (document \<times> nat) doc_tx" where
  "updateExecutionDocument E kind d current db =
    (let n = current + 1;
         p = (\<lambda>r. (dr_kind r, dr_id r) = (kind, doc_id d) \<and> dr_version r = current);
         db1 = db\<lparr>pd_documents := upd_where p (\<lambda>r. r\<lparr>dr_status := doc_status d, dr_version := n,
                   dr_document := d, dr_updatedAt := doc_updatedAt d\<rparr>) (pd_documents db)\<rparr>
     in if changes p (pd_documents db) \<noteq> 1 then (Inl (DVersionConflict (int current) (int n)), db1)
        else bind_tx (enqueueDocumentProjection E kind d n db1) (\<lambda>_ db. (Inr (d, n), db)))"

definition insertExecutionDocument :: "proj_env \<Rightarrow> string \<Rightarrow> document \<Rightarrow> proc_db \<Rightarrow> unit doc_tx" where
  "insertExecutionDocument E kind d db =
    (if doc_tenantId d \<noteq> pe_tenant E then (Inl DTenant, db)
     else if find_doc kind (doc_id d) db \<noteq> None \<or> source_taken kind d db then (Inl DUnique, db)
     else enqueueDocumentProjection E kind d 1
       (db\<lparr>pd_documents := pd_documents db @ [doc_row_of kind d 1 (doc_createdAt d)]\<rparr>))"

subsection \<open>Lines\<close>

datatype line_kind = RequisitionLine | RfqLine | QuoteLine | AwardLine | PurchaseOrderLine | ConfirmationLine
  | ProductionProgressLine | ShipmentLine | ReceiptLine | InvoiceLine | MatchLine

definition line_kind_name :: "line_kind \<Rightarrow> string" where
  "line_kind_name k = (case k of RequisitionLine \<Rightarrow> ''requisition_line'' | RfqLine \<Rightarrow> ''rfq_line''
     | QuoteLine \<Rightarrow> ''quote_line'' | AwardLine \<Rightarrow> ''award_line'' | PurchaseOrderLine \<Rightarrow> ''purchase_order_line''
     | ConfirmationLine \<Rightarrow> ''confirmation_line'' | ProductionProgressLine \<Rightarrow> ''production_progress_line''
     | ShipmentLine \<Rightarrow> ''shipment_line'' | ReceiptLine \<Rightarrow> ''receipt_line'' | InvoiceLine \<Rightarrow> ''invoice_line''
     | MatchLine \<Rightarrow> ''match_line'')"

definition LINE_DOCUMENT_KIND :: "line_kind \<Rightarrow> string" where
  "LINE_DOCUMENT_KIND k = (case k of RequisitionLine \<Rightarrow> ''requisition'' | RfqLine \<Rightarrow> ''rfq''
     | QuoteLine \<Rightarrow> ''quote'' | AwardLine \<Rightarrow> ''award'' | PurchaseOrderLine \<Rightarrow> ''purchase_order''
     | ConfirmationLine \<Rightarrow> ''confirmation'' | ProductionProgressLine \<Rightarrow> ''production_progress''
     | ShipmentLine \<Rightarrow> ''shipment'' | ReceiptLine \<Rightarrow> ''receipt'' | InvoiceLine \<Rightarrow> ''invoice''
     | MatchLine \<Rightarrow> ''match'')"

definition LINE_PARENT_FIELD :: "line_kind \<Rightarrow> string" where
  "LINE_PARENT_FIELD k = (case k of RequisitionLine \<Rightarrow> ''requisitionId'' | RfqLine \<Rightarrow> ''rfqId''
     | QuoteLine \<Rightarrow> ''quoteId'' | AwardLine \<Rightarrow> ''awardId'' | PurchaseOrderLine \<Rightarrow> ''poId''
     | ConfirmationLine \<Rightarrow> ''confirmationId'' | ProductionProgressLine \<Rightarrow> ''progressId''
     | ShipmentLine \<Rightarrow> ''shipmentId'' | ReceiptLine \<Rightarrow> ''receiptId'' | InvoiceLine \<Rightarrow> ''invoiceId''
     | MatchLine \<Rightarrow> ''matchId'')"

record line_input =
  li_kind :: string
  li_lineId :: ident
  li_documentId :: ident
  li_lineNumber :: string
  li_line :: proc_line
  li_availableAt :: instant

datatype disposition = DispCreated | DispUpdated | DispUnchanged

definition find_line :: "string \<Rightarrow> ident \<Rightarrow> proc_db \<Rightarrow> line_row option" where
  "find_line kind i db = find (\<lambda>r. (lr_kind r, lr_id r) = (kind, i)) (pd_lines db)"

definition line_number_taken :: "string \<Rightarrow> ident \<Rightarrow> ident \<Rightarrow> string \<Rightarrow> proc_db \<Rightarrow> bool" where
  "line_number_taken kind i doc num db \<longleftrightarrow> list_ex (\<lambda>r. lr_kind r = kind \<and> lr_id r \<noteq> i \<and>
     lr_documentId r = doc \<and> lr_lineNumber r = num) (pd_lines db)"

definition line_input_texts :: "proj_env \<Rightarrow> line_input \<Rightarrow> (pj_fault, string list) result" where
  "line_input_texts E inp = requireTexts [(pe_tenant E, ''tenantId''), (li_kind inp, ''kind''),
     (li_lineId inp, ''lineId''), (li_documentId inp, ''documentId''), (li_lineNumber inp, ''lineNumber'')]"

definition line_at :: "string \<Rightarrow> ident \<Rightarrow> nat \<Rightarrow> line_row \<Rightarrow> bool" where
  "line_at kind i n r \<longleftrightarrow> (lr_kind r, lr_id r) = (kind, i) \<and> lr_generation r = n"

definition line_put :: "line_input \<Rightarrow> nat \<Rightarrow> line_row \<Rightarrow> line_row" where
  "line_put inp n r = r\<lparr>lr_documentId := trim (li_documentId inp), lr_lineNumber := trim (li_lineNumber inp),
     lr_line := li_line inp, lr_generation := n\<rparr>"

definition line_new :: "line_input \<Rightarrow> line_row" where
  "line_new inp = \<lparr>lr_kind = trim (li_kind inp), lr_id = trim (li_lineId inp), lr_documentId = trim (li_documentId inp),
     lr_lineNumber = trim (li_lineNumber inp), lr_line = li_line inp, lr_generation = 1\<rparr>"

text \<open>The row write: the line is inserted at generation one, left alone, or moved to the next one.\<close>
definition write_line :: "proj_env \<Rightarrow> line_input \<Rightarrow> string \<Rightarrow> proc_db \<Rightarrow> (disposition \<times> nat) doc_tx" where
  "write_line E inp h db =
    (let kind = trim (li_kind inp); i = trim (li_lineId inp); doc = trim (li_documentId inp);
         num = trim (li_lineNumber inp)
     in case find_line kind i db of
       None \<Rightarrow>
         if line_number_taken kind i doc num db then (Inl DUnique, db)
         else (Inr (DispCreated, 1), db\<lparr>pd_lines := pd_lines db @ [line_new inp]\<rparr>)
     | Some cur \<Rightarrow>
         if twinProjectionPayloadHash E (line_json (lr_line cur)) = None then (Inl DNotFinite, db)
         else if lr_documentId cur = doc \<and> lr_lineNumber cur = num
             \<and> twinProjectionPayloadHash E (line_json (lr_line cur)) = Some h
         then (Inr (DispUnchanged, lr_generation cur), db)
         else if line_number_taken kind i doc num db then (Inl DUnique, db)
         else
           let p = line_at kind i (lr_generation cur);
               db1 = db\<lparr>pd_lines := upd_where p (line_put inp (lr_generation cur + 1)) (pd_lines db)\<rparr>
           in if changes p (pd_lines db) \<noteq> 1 then (Inl DGeneration, db1)
              else (Inr (DispUpdated, lr_generation cur + 1), db1))"

definition project_line :: "proj_env \<Rightarrow> line_input \<Rightarrow> string \<Rightarrow> disposition \<times> nat \<Rightarrow> proc_db \<Rightarrow> (disposition \<times> nat) doc_tx" where
  "project_line E inp h w db =
    (if fst w = DispUnchanged then (Inr w, db)
     else bind_tx (twin_enqueue E (changed_input ''procurement_lines'' (trim (li_kind inp))
            (trim (li_lineId inp)) (snd w) h (li_availableAt inp)) db) (\<lambda>_ db. (Inr w, db)))"

definition persistProcurementLineProjection :: "proj_env \<Rightarrow> line_input \<Rightarrow> proc_db \<Rightarrow> (disposition \<times> nat) doc_tx" where
  "persistProcurementLineProjection E inp db =
    (case line_input_texts E inp of
       Inl e \<Rightarrow> (Inl (DQueue e), db)
     | Inr _ \<Rightarrow>
       (case twinProjectionPayloadHash E (line_json (li_line inp)) of
          None \<Rightarrow> (Inl DNotFinite, db)
        | Some h \<Rightarrow> bind_tx (write_line E inp h db) (project_line E inp h)))"

definition saveLine :: "proj_env \<Rightarrow> line_kind \<Rightarrow> ident \<Rightarrow> proc_line \<Rightarrow> proc_db \<Rightarrow> proc_line doc_tx" where
  "saveLine E k documentId l db =
    (if map_of (pl_fields l) (LINE_PARENT_FIELD k) \<noteq> Some (JStr documentId) then (Inl DLineParent, db)
     else (case find_doc (LINE_DOCUMENT_KIND k) documentId db of
       None \<Rightarrow> (Inl DNoDocument, db)
     | Some parent \<Rightarrow>
         if k \<in> {RfqLine, QuoteLine} \<and> find_line (line_kind_name k) (pl_id l) db \<noteq> None
         then (Inl (DImmutable (line_kind_name k)), db)
         else atomic db (bind_tx (persistProcurementLineProjection E \<lparr>li_kind = line_kind_name k,
                li_lineId = pl_id l, li_documentId = documentId, li_lineNumber = pl_lineNumber l,
                li_line = l, li_availableAt = dr_updatedAt parent\<rparr> db) (\<lambda>_ db. (Inr l, db)))))"

definition insertExecutionLine :: "proj_env \<Rightarrow> line_kind \<Rightarrow> ident \<Rightarrow> proc_line \<Rightarrow> proc_db \<Rightarrow> unit doc_tx" where
  "insertExecutionLine E k documentId l db =
    (if find_line (line_kind_name k) (pl_id l) db \<noteq> None \<or>
        line_number_taken (line_kind_name k) (pl_id l) documentId (pl_lineNumber l) db then (Inl DUnique, db)
     else let db1 = db\<lparr>pd_lines := pd_lines db @ [\<lparr>lr_kind = line_kind_name k, lr_id = pl_id l,
            lr_documentId = documentId, lr_lineNumber = pl_lineNumber l, lr_line = l, lr_generation = 1\<rparr>]\<rparr>
       in case find_doc (LINE_DOCUMENT_KIND k) documentId db1 of
            None \<Rightarrow> (Inl DNoDocument, db1)
          | Some parent \<Rightarrow> enqueueLineProjection E (line_kind_name k) l (dr_updatedAt parent) 1 db1)"

definition listLines :: "line_kind \<Rightarrow> ident \<Rightarrow> proc_db \<Rightarrow> proc_line list" where
  "listLines k doc db = map lr_line (sort_key (\<lambda>r. (lr_lineNumber r, lr_id r))
     (filter (\<lambda>r. lr_kind r = line_kind_name k \<and> lr_documentId r = doc) (pd_lines db)))"

subsection \<open>The write-back of a required in-house date\<close>

record frozen_line =
  fl_poLineId :: ident
  fl_lineNumber :: string
  fl_orderedQty :: jnum
  fl_requestedAt :: json

record rihd_fact =
  rf_outboxId :: ident
  rf_poId :: ident
  rf_poVersion :: nat
  rf_requiredInHouseAt :: instant
  rf_lines :: "frozen_line list"
  rf_verifiedLines :: nat
  rf_connectorId :: string

text \<open>The line is still as it was frozen: \<open>(current.requestedAt ?? null)\<close> on the right.\<close>
definition frozen_unchanged :: "proc_line list \<Rightarrow> frozen_line \<Rightarrow> bool" where
  "frozen_unchanged ls f = (case find (\<lambda>l. pl_id l = fl_poLineId f) (rev ls) of
     None \<Rightarrow> False
   | Some l \<Rightarrow> pl_lineNumber l = fl_lineNumber f \<and>
       (case map_of (pl_fields l) ''orderedQty'' of Some (JNum q) \<Rightarrow> jeq q (fl_orderedQty f) | _ \<Rightarrow> False) \<and>
       (case map_of (pl_fields l) ''requestedAt'' of None \<Rightarrow> JNull | Some v \<Rightarrow> v) = fl_requestedAt f)"

definition set_requested :: "proj_env \<Rightarrow> instant \<Rightarrow> proc_line \<Rightarrow> proc_line" where
  "set_requested E t l = l\<lparr>pl_fields := AList.update ''requestedAt'' (JStr (pe_iso E t)) (pl_fields l)\<rparr>"

text \<open>The stored line is overwritten and its projection enqueued under the version of the order; the
  generation of the line stays.\<close>
definition write_rihd_line :: "proj_env \<Rightarrow> ident \<Rightarrow> instant \<Rightarrow> nat \<Rightarrow> proc_line \<Rightarrow> proc_db \<Rightarrow> unit doc_tx" where
  "write_rihd_line E po t version l db =
    enqueueLineProjection E (line_kind_name PurchaseOrderLine) l t version
      (db\<lparr>pd_lines := upd_where (\<lambda>r. (lr_kind r, lr_id r) = (line_kind_name PurchaseOrderLine, pl_id l) \<and>
         lr_documentId r = po) (\<lambda>r. r\<lparr>lr_line := l\<rparr>) (pd_lines db)\<rparr>)"

definition rihd_document :: "proj_env \<Rightarrow> instant \<Rightarrow> instant \<Rightarrow> document \<Rightarrow> document" where
  "rihd_document E rihd t d = d\<lparr>doc_updatedAt := t, doc_fields :=
     AList.update ''promisedAt'' (JStr (pe_iso E rihd))
       (AList.update ''requiredInHouseAt'' (JStr (pe_iso E rihd)) (doc_fields d))\<rparr>"

definition applyRihd :: "proj_env \<Rightarrow> rihd_fact \<Rightarrow> instant \<Rightarrow> proc_db \<Rightarrow> unit doc_tx" where
  "applyRihd E f t db =
    (case getDocument ''purchase_order'' (rf_poId f) db of
       None \<Rightarrow> (Inl (DInvalid ''po''), db)
     | Some (po, version) \<Rightarrow>
         let lines = listLines PurchaseOrderLine (doc_id po) db;
             changed = map (set_requested E (rf_requiredInHouseAt f)) lines
         in if version \<noteq> rf_poVersion f then (Inl (DVersionConflict (int (rf_poVersion f)) (int version)), db)
            else if length lines \<noteq> length (rf_lines f) \<or> rf_verifiedLines f \<noteq> length (rf_lines f)
            then (Inl (DInvalid ''lines''), db)
            else if \<not> list_all (frozen_unchanged lines) (rf_lines f) then (Inl (DInvalid ''line''), db)
            else
              bind_tx (updateExecutionDocument E ''purchase_order''
                  (rihd_document E (rf_requiredInHouseAt f) t po) (rf_poVersion f) db) (\<lambda>(_, n) db.
              bind_tx (each_tx (write_rihd_line E (doc_id po) t n) changed db) (\<lambda>_ db.
              (Inr (), db\<lparr>pd_activities := pd_activities db @ [\<lparr>da_id = ''activity:po-rihd:'' @ rf_outboxId f, da_at = t,
                 da_objectId = doc_id po, da_actor = ''connector:'' @ rf_connectorId f,
                 da_action = ''purchase_order.rihd_updated''\<rparr>]\<rparr>))))"

subsection \<open>Versions and their projections\<close>

text \<open>The jobs of a queue as pairs of source and payload hash, and the versioned rows of a table as
  (source key, event, version, hash of the content).\<close>
definition jobs_of :: "projection_db \<Rightarrow> ((string \<times> string \<times> string \<times> string) \<times> string) set" where
  "jobs_of q = (\<lambda>j. (pj_source j, pj_payloadHash j)) ` set (pq_jobs q)"

type_synonym versioned = "string \<times> string \<times> nat \<times> string"

text \<open>The version and all below it have their jobs, the newest with the hash of the content.\<close>
definition row_projected :: "string \<Rightarrow> projection_db \<Rightarrow> versioned \<Rightarrow> bool" where
  "row_projected table q v \<longleftrightarrow> (case v of (k, ev, n, h) \<Rightarrow> ((table, k, nat_str n, ev), h) \<in> jobs_of q \<and>
     (\<forall>m. 1 \<le> m \<and> m \<le> n \<longrightarrow> (table, k, nat_str m, ev) \<in> fst ` jobs_of q))"

text \<open>The same for all rows but those under the source keys \<open>B\<close>.\<close>
definition versions_projected :: "string \<Rightarrow> string set \<Rightarrow> versioned set \<Rightarrow> projection_db \<Rightarrow> bool" where
  "versions_projected table B R q \<longleftrightarrow> (\<forall>v\<in>R. fst v \<notin> B \<longrightarrow> row_projected table q v)"

definition doc_version :: "proj_env \<Rightarrow> doc_row \<Rightarrow> versioned" where
  "doc_version E r = (trim (dr_kind r @ '':'' @ dr_id r), trim (dr_kind r @ ''.changed''), dr_version r,
     trim (the (twinProjectionPayloadHash E (document_json E (dr_document r)))))"

definition line_version :: "proj_env \<Rightarrow> line_row \<Rightarrow> versioned" where
  "line_version E r = (trim (lr_kind r @ '':'' @ lr_id r), trim (lr_kind r @ ''.changed''), lr_generation r,
     trim (the (twinProjectionPayloadHash E (line_json (lr_line r)))))"

definition docs_projected :: "proj_env \<Rightarrow> string set \<Rightarrow> proc_db \<Rightarrow> bool" where
  "docs_projected E B db \<longleftrightarrow>
     versions_projected ''procurement_documents'' B (doc_version E ` set (pd_documents db)) (pd_queue db)"

definition lines_projected :: "proj_env \<Rightarrow> string set \<Rightarrow> proc_db \<Rightarrow> bool" where
  "lines_projected E B db \<longleftrightarrow>
     versions_projected ''procurement_lines'' B (line_version E ` set (pd_lines db)) (pd_queue db)"

text \<open>A successful enqueue adds exactly its pair, whether the job is new or already there.\<close>
definition input_job :: "enqueue_input \<Rightarrow> (string \<times> string \<times> string \<times> string) \<times> string" where
  "input_job inp = ((trim (eq_sourceTable inp), trim (eq_sourceKey inp), trim (eq_sourceRevision inp),
     trim (eq_eventType inp)), trim (eq_payloadHash inp))"

lemma normalize_inputD: "normalize_input raw = Inr inp \<Longrightarrow> inp = raw\<lparr>eq_sourceTable := trim (eq_sourceTable raw),
   eq_sourceKey := trim (eq_sourceKey raw), eq_sourceRevision := trim (eq_sourceRevision raw),
   eq_eventType := trim (eq_eventType raw), eq_payloadHash := trim (eq_payloadHash raw)\<rparr>"
  by (auto simp: normalize_input_def split: sum.splits)

lemma jobs_of_append: "jobs_of (q\<lparr>pq_jobs := pq_jobs q @ [j]\<rparr>) = insert (pj_source j, pj_payloadHash j) (jobs_of q)"
  by (simp add: jobs_of_def)

lemma jobs_of_conflicts [simp]: "jobs_of (q\<lparr>pq_conflicts := c\<rparr>) = jobs_of q" "jobs_of (q\<lparr>pq_activities := a\<rparr>) = jobs_of q"
  by (simp_all add: jobs_of_def)

lemma same_source_job:
  assumes "find (same_source inp) (pq_jobs q) = Some j"
  shows "((eq_sourceTable inp, eq_sourceKey inp, eq_sourceRevision inp, eq_eventType inp), pj_payloadHash j) \<in> jobs_of q"
  using find_Some_mem[OF assms] by (force simp: jobs_of_def same_source_def pj_source_def)

lemma enqueueInTransaction_ok:
  assumes "enqueueInTransaction sha tenant raw q = (Inr u, q')"
  shows "jobs_of q' = insert (input_job raw) (jobs_of q)"
proof (cases "normalize_input raw")
  case (Inl e)
  then show ?thesis using assms by (simp add: enqueueInTransaction_def split: sum.splits)
next
  case (Inr inp)
  have "input_job raw = ((eq_sourceTable inp, eq_sourceKey inp, eq_sourceRevision inp, eq_eventType inp), eq_payloadHash inp)"
    using normalize_inputD[OF Inr] by (simp add: input_job_def)
  then show ?thesis using assms Inr same_source_job[of inp q]
    by (auto simp: enqueueInTransaction_def Let_def jobs_of_append new_job_def pj_source_def
        split: sum.splits option.splits if_splits)
qed

lemma twin_enqueue_ok:
  assumes "twin_enqueue E inp db = (Inr u, db')"
  shows "db' = db\<lparr>pd_queue := pd_queue db'\<rparr>" "jobs_of (pd_queue db') = insert (input_job inp) (jobs_of (pd_queue db))"
  using assms by (auto simp: twin_enqueue_def enqueueInTransaction_ok split: prod.splits sum.splits)

text \<open>The row \<open>(k, ev)\<close> moves from version \<open>n\<close> to \<open>n + 1\<close> (or appears at one) and its job is enqueued.\<close>
lemma row_projected_more: "row_projected table q v \<Longrightarrow> jobs_of q \<subseteq> jobs_of q' \<Longrightarrow> row_projected table q' v"
  unfolding row_projected_def by (cases v) (simp, meson image_mono subsetD)

lemma versions_advance:
  assumes vp: "versions_projected table B R q"
    and jobs: "jobs_of q' = insert ((table, k, nat_str (n + 1), ev), h) (jobs_of q)"
    and old: "n = 0 \<or> (\<exists>h0. (k, ev, n, h0) \<in> R)"
    and up: "R' \<subseteq> insert (k, ev, n + 1, h) R"
  shows "versions_projected table B R' q'"
  unfolding versions_projected_def
proof (intro ballI impI)
  fix v
  assume v: "v \<in> R'" "fst v \<notin> B"
  have sub: "jobs_of q \<subseteq> jobs_of q'" using jobs by auto
  show "row_projected table q' v"
  proof (cases "v \<in> R")
    case True
    then show ?thesis using vp v(2) row_projected_more[OF _ sub] by (simp add: versions_projected_def)
  next
    case False
    then have eq: "v = (k, ev, n + 1, h)" using v(1) up by blast
    have "(table, k, nat_str m, ev) \<in> fst ` jobs_of q'" if m: "1 \<le> m" "m \<le> n + 1" for m
    proof (cases "m = n + 1")
      case False
      then obtain h0 where "(k, ev, n, h0) \<in> R" "m \<le> n" using m old by auto
      then have "(table, k, nat_str m, ev) \<in> fst ` jobs_of q"
        using vp v(2) eq m(1) by (force simp: versions_projected_def row_projected_def)
      then show ?thesis using sub by blast
    qed (use jobs in \<open>auto simp: image_iff\<close>)
    then show ?thesis using jobs by (simp add: eq row_projected_def)
  qed
qed

lemma versions_other: "versions_projected table B R q \<Longrightarrow> jobs_of q \<subseteq> jobs_of q' \<Longrightarrow> versions_projected table B R q'"
  using row_projected_more by (fastforce simp: versions_projected_def)

text \<open>Rows under the keys \<open>B\<close> may come and change without a job.\<close>
lemma versions_bare: "versions_projected table B R q \<Longrightarrow> (\<And>v. v \<in> R' \<Longrightarrow> v \<in> R \<or> fst v \<in> B) \<Longrightarrow> versions_projected table B R' q"
  unfolding versions_projected_def by blast

subsection \<open>Every write keeps versions and projections together\<close>

lemma trim_documents_table [simp]: "trim ''procurement_documents'' = ''procurement_documents''"
  "trim ''procurement_lines'' = ''procurement_lines''"
  "trim ''procurement_po_stage_events'' = ''procurement_po_stage_events''"
  by (simp_all add: trim_id is_space_def)

lemma input_job_changed: "input_job (changed_input table kind i n h t) =
    ((trim table, trim (kind @ '':'' @ i), nat_str n, trim (kind @ ''.changed'')), trim h)"
  by (simp add: input_job_def changed_input_def)

text \<open>What a successful enqueue of another table leaves alone.\<close>
definition tables_kept :: "proc_db \<Rightarrow> proc_db \<Rightarrow> bool" where
  "tables_kept db db' \<longleftrightarrow> pd_documents db' = pd_documents db \<and> pd_lines db' = pd_lines db"

lemma enqueueDocumentProjection_ok:
  assumes "enqueueDocumentProjection E kind d n db = (Inr u, db')"
  shows "tables_kept db db'" "jobs_of (pd_queue db') = insert ((''procurement_documents'',
      trim (kind @ '':'' @ doc_id d), nat_str n, trim (kind @ ''.changed'')),
      trim (the (twinProjectionPayloadHash E (document_json E d)))) (jobs_of (pd_queue db))"
proof -
  obtain h where h: "twinProjectionPayloadHash E (document_json E d) = Some h"
    and ok: "twin_enqueue E (changed_input ''procurement_documents'' kind (doc_id d) n h (doc_updatedAt d)) db = (Inr u, db')"
    using assms by (auto simp: enqueueDocumentProjection_def split: option.splits)
  note done_ok = twin_enqueue_ok[OF ok]
  show "tables_kept db db'" using arg_cong[OF done_ok(1), of pd_documents] arg_cong[OF done_ok(1), of pd_lines]
    by (simp add: tables_kept_def)
  show "jobs_of (pd_queue db') = insert ((''procurement_documents'', trim (kind @ '':'' @ doc_id d), nat_str n,
      trim (kind @ ''.changed'')), trim (the (twinProjectionPayloadHash E (document_json E d)))) (jobs_of (pd_queue db))"
    using done_ok(2) h by (simp add: input_job_changed)
qed

lemma enqueueLineProjection_ok:
  assumes "enqueueLineProjection E kind l t n db = (Inr u, db')"
  shows "tables_kept db db'" "jobs_of (pd_queue db') = insert ((''procurement_lines'',
      trim (kind @ '':'' @ pl_id l), nat_str n, trim (kind @ ''.changed'')),
      trim (the (twinProjectionPayloadHash E (line_json l)))) (jobs_of (pd_queue db))"
proof -
  obtain h where h: "twinProjectionPayloadHash E (line_json l) = Some h"
    and ok: "twin_enqueue E (changed_input ''procurement_lines'' kind (pl_id l) n h t) db = (Inr u, db')"
    using assms by (auto simp: enqueueLineProjection_def split: option.splits)
  note done_ok = twin_enqueue_ok[OF ok]
  show "tables_kept db db'" using arg_cong[OF done_ok(1), of pd_documents] arg_cong[OF done_ok(1), of pd_lines]
    by (simp add: tables_kept_def)
  show "jobs_of (pd_queue db') = insert ((''procurement_lines'', trim (kind @ '':'' @ pl_id l), nat_str n,
      trim (kind @ ''.changed'')), trim (the (twinProjectionPayloadHash E (line_json l)))) (jobs_of (pd_queue db))"
    using done_ok(2) h by (simp add: input_job_changed)
qed

lemma recordPoStageEvent_ok:
  assumes "recordPoStageEvent E s db = (Inr u, db')"
  shows "tables_kept db db'" "jobs_of (pd_queue db) \<subseteq> jobs_of (pd_queue db')"
    "j \<in> jobs_of (pd_queue db') \<Longrightarrow> j \<in> jobs_of (pd_queue db) \<or> fst (fst j) = ''procurement_po_stage_events''"
proof -
  let ?db = "db\<lparr>pd_stages := pd_stages db @ [s]\<rparr>"
  consider "db' = db" | h where "twin_enqueue E (stage_input s h) ?db = (Inr u, db')"
  proof (cases "list_ex (same_stage s) (pd_stages db)")
    case False
    then show ?thesis using assms that(2)
      by (cases "twinProjectionPayloadHash E (stage_json E s)") (simp_all add: recordPoStageEvent_def Let_def)
  qed (use assms that in \<open>simp add: recordPoStageEvent_def\<close>)
  note cases = this
  show "tables_kept db db'"
    using cases
  proof cases
    case (2 h)
    note done_ok = twin_enqueue_ok(1)[OF 2]
    show ?thesis using arg_cong[OF done_ok, of pd_documents] arg_cong[OF done_ok, of pd_lines]
      by (simp add: tables_kept_def)
  qed (simp add: tables_kept_def)
  show "jobs_of (pd_queue db) \<subseteq> jobs_of (pd_queue db')"
    using cases
  proof cases
    case (2 h)
    show ?thesis using twin_enqueue_ok(2)[OF 2] by auto
  qed simp
  show "j \<in> jobs_of (pd_queue db) \<or> fst (fst j) = ''procurement_po_stage_events''"
    if j: "j \<in> jobs_of (pd_queue db')"
    using cases
  proof cases
    case (2 h)
    show ?thesis using twin_enqueue_ok(2)[OF 2] j by (auto simp: input_job_def stage_input_def)
  qed (use j in simp)
qed

text \<open>Preservation by the writes that succeed.\<close>
lemma docs_projected_other:
  "docs_projected E B db \<Longrightarrow> pd_documents db' = pd_documents db \<Longrightarrow> jobs_of (pd_queue db) \<subseteq> jobs_of (pd_queue db') \<Longrightarrow>
    docs_projected E B db'"
  by (auto simp: docs_projected_def intro: versions_other)

lemma lines_projected_other:
  "lines_projected E B db \<Longrightarrow> pd_lines db' = pd_lines db \<Longrightarrow> jobs_of (pd_queue db) \<subseteq> jobs_of (pd_queue db') \<Longrightarrow>
    lines_projected E B db'"
  by (auto simp: lines_projected_def intro: versions_other)

text \<open>A document row inserted at version one, or moved on by one, with its projection enqueued.\<close>
lemma docs_insert:
  assumes inv: "docs_projected E B db"
    and ok: "enqueueDocumentProjection E kind d 1 (db\<lparr>pd_documents := pd_documents db @ [doc_row_of kind d 1 c]\<rparr>) = (Inr u, db')"
  shows "docs_projected E B db'"
proof -
  note done_ok = enqueueDocumentProjection_ok[OF ok]
  let ?k = "trim (kind @ '':'' @ doc_id d)" and ?ev = "trim (kind @ ''.changed'')"
    and ?h = "trim (the (twinProjectionPayloadHash E (document_json E d)))"
  have set': "doc_version E ` set (pd_documents db') = insert (?k, ?ev, 0 + 1, ?h) (doc_version E ` set (pd_documents db))"
    using done_ok(1) by (simp add: tables_kept_def doc_version_def doc_row_of_def)
  show ?thesis unfolding docs_projected_def
  proof (rule versions_advance[OF inv[unfolded docs_projected_def]])
    show "jobs_of (pd_queue db') = insert ((''procurement_documents'', ?k, nat_str (0 + 1), ?ev), ?h) (jobs_of (pd_queue db))"
      using done_ok(2) by simp
  qed (use set' in auto)
qed

lemma docs_update:
  assumes inv: "docs_projected E B db"
    and p: "\<And>r. p r \<Longrightarrow> dr_kind r = kind \<and> dr_id r = doc_id d \<and> dr_version r = n"
    and f: "\<And>r. p r \<Longrightarrow> doc_version E (f r) = doc_version E (doc_row_of kind d (n + 1) 0)"
    and some: "changes p (pd_documents db) = 1"
    and ok: "enqueueDocumentProjection E kind d (n + 1) (db\<lparr>pd_documents := upd_where p f (pd_documents db)\<rparr>) = (Inr u, db')"
  shows "docs_projected E B db'"
proof -
  let ?k = "trim (kind @ '':'' @ doc_id d)" and ?ev = "trim (kind @ ''.changed'')"
    and ?h = "trim (the (twinProjectionPayloadHash E (document_json E d)))"
  note done_ok = enqueueDocumentProjection_ok[OF ok]
  have rows: "pd_documents db' = upd_where p f (pd_documents db)" using done_ok(1) by (simp add: tables_kept_def)
  have f': "p r \<Longrightarrow> doc_version E (f r) = (?k, ?ev, n + 1, ?h)" for r
    using f[of r] by (simp add: doc_version_def doc_row_of_def)
  have p': "p r \<Longrightarrow> \<exists>h0. doc_version E r = (?k, ?ev, n, h0)" for r using p[of r] by (simp add: doc_version_def)
  obtain r0 where r0: "r0 \<in> set (pd_documents db)" "p r0"
    using some by (auto simp: changes_def) (metis One_nat_def filter_False length_0_conv zero_neq_one)
  have set': "doc_version E ` set (pd_documents db') =
      insert (?k, ?ev, n + 1, ?h) (doc_version E ` {r \<in> set (pd_documents db). \<not> p r})"
  proof -
    have "doc_version E ` {f r | r. r \<in> set (pd_documents db) \<and> p r} = {(?k, ?ev, n + 1, ?h)}"
      using f' r0 by (auto simp: image_def)
    then show ?thesis unfolding rows set_upd_where image_Un by auto
  qed
  show ?thesis unfolding docs_projected_def
  proof (rule versions_advance[where n = n and k = ?k and ev = ?ev and h = ?h])
    show "versions_projected ''procurement_documents'' B (doc_version E ` set (pd_documents db)) (pd_queue db)"
      using inv by (simp add: docs_projected_def)
    show "jobs_of (pd_queue db') = insert ((''procurement_documents'', ?k, nat_str (n + 1), ?ev), ?h) (jobs_of (pd_queue db))"
      using done_ok(2) by simp
    show "n = 0 \<or> (\<exists>h0. (?k, ?ev, n, h0) \<in> doc_version E ` set (pd_documents db))"
      using p'[OF r0(2)] r0(1) by (force simp: image_iff)
  qed (use set' p' in \<open>auto simp: image_iff\<close>)
qed

text \<open>\<open>db'\<close> has the rows of \<open>db\<close> and, besides its jobs, only jobs of the table \<open>tb\<close>.\<close>
definition only_jobs :: "string \<Rightarrow> proc_db \<Rightarrow> proc_db \<Rightarrow> bool" where
  "only_jobs tb db db' \<longleftrightarrow> jobs_of (pd_queue db) \<subseteq> jobs_of (pd_queue db') \<and>
     (\<forall>j\<in>jobs_of (pd_queue db'). j \<in> jobs_of (pd_queue db) \<or> fst (fst j) = tb)"

lemma docs_only_jobs:
  assumes "docs_projected E B db" "pd_documents db' = pd_documents db" "only_jobs tb db db'" "tb \<noteq> ''procurement_documents''"
  shows "docs_projected E B db'"
  using assms(3,4) by (intro docs_projected_other[OF assms(1,2)]) (auto simp: only_jobs_def)

lemma lines_only_jobs:
  assumes "lines_projected E B db" "pd_lines db' = pd_lines db" "only_jobs tb db db'" "tb \<noteq> ''procurement_lines''"
  shows "lines_projected E B db'"
  using assms(3,4) by (intro lines_projected_other[OF assms(1,2)]) (auto simp: only_jobs_def)

lemma observe_po_ok:
  assumes "observe_po E kind d n uuid db = (Inr u, db')"
  shows "tables_kept db db' \<and> only_jobs ''procurement_po_stage_events'' db db'"
proof (cases "kind = ''purchase_order''")
  case True
  then obtain s where "recordPoStageEvent E s db = (Inr u, db')"
    using assms by (auto simp: observe_po_def recordObservedPurchaseOrderStatus_def)
  from recordPoStageEvent_ok[OF this] show ?thesis by (simp add: only_jobs_def)
qed (use assms in \<open>simp add: observe_po_def tables_kept_def only_jobs_def\<close>)

lemma project_version_ok:
  assumes "project_version E kind d n uuid db = (Inr v, db')"
  obtains db1 where "enqueueDocumentProjection E kind d n db = (Inr (), db1)" "tables_kept db1 db'"
    "only_jobs ''procurement_po_stage_events'' db1 db'" "v = (d, n)"
  using assms observe_po_ok by (force simp: project_version_def tx_ok)

lemma save_body_docs:
  assumes "docs_projected E B db" "save_body E kind d expected uuid db = (Inr v, db')"
  shows "docs_projected E B db'"
proof (cases "find_doc kind (doc_id d) db")
  case None
  with assms(2) have "project_version E kind d 1 uuid (db\<lparr>pd_documents := pd_documents db @ [doc_row_of kind d 1 (doc_createdAt d)]\<rparr>) = (Inr v, db')"
    by (auto simp: save_body_def split: if_splits)
  then show ?thesis
  proof (rule project_version_ok)
    fix db1
    assume e: "enqueueDocumentProjection E kind d 1 (db\<lparr>pd_documents := pd_documents db @ [doc_row_of kind d 1 (doc_createdAt d)]\<rparr>) = (Inr (), db1)"
      and k: "tables_kept db1 db'" "only_jobs ''procurement_po_stage_events'' db1 db'"
    show ?thesis using docs_only_jobs[OF docs_insert[OF assms(1) e] _ k(2)] k(1) by (simp add: tables_kept_def)
  qed
next
  case (Some cur)
  let ?p = "\<lambda>r. (dr_kind r, dr_id r) = (kind, doc_id d) \<and> dr_version r = dr_version cur"
    and ?f = "\<lambda>r. doc_row_of kind d (dr_version cur + 1) (dr_createdAt r)"
  have one: "changes ?p (pd_documents db) = 1"
    and pv: "project_version E kind d (dr_version cur + 1) uuid (db\<lparr>pd_documents := upd_where ?p ?f (pd_documents db)\<rparr>) = (Inr v, db')"
    using assms(2) Some by (auto simp: save_body_def Let_def split: if_splits)
  from pv show ?thesis
  proof (rule project_version_ok)
    fix db1
    assume e: "enqueueDocumentProjection E kind d (dr_version cur + 1) (db\<lparr>pd_documents := upd_where ?p ?f (pd_documents db)\<rparr>) = (Inr (), db1)"
      and k: "tables_kept db1 db'" "only_jobs ''procurement_po_stage_events'' db1 db'"
    have "docs_projected E B db1"
      by (rule docs_update[OF assms(1) _ _ one e]) (auto simp: doc_version_def doc_row_of_def)
    from docs_only_jobs[OF this _ k(2)] show ?thesis using k(1) by (simp add: tables_kept_def)
  qed
qed

lemma updateExecutionDocument_docs:
  assumes "docs_projected E B db" "updateExecutionDocument E kind d n db = (Inr v, db')"
  shows "docs_projected E B db'"
proof -
  let ?p = "\<lambda>r. (dr_kind r, dr_id r) = (kind, doc_id d) \<and> dr_version r = n"
    and ?f = "\<lambda>r. r\<lparr>dr_status := doc_status d, dr_version := n + 1, dr_document := d, dr_updatedAt := doc_updatedAt d\<rparr>"
  have one: "changes ?p (pd_documents db) = 1"
    and e: "enqueueDocumentProjection E kind d (n + 1) (db\<lparr>pd_documents := upd_where ?p ?f (pd_documents db)\<rparr>) = (Inr (), db')"
    using assms(2) by (auto simp: updateExecutionDocument_def Let_def tx_ok split: if_splits)
  show ?thesis by (rule docs_update[OF assms(1) _ _ one e]) (auto simp: doc_version_def doc_row_of_def)
qed

lemma insertExecutionDocument_docs:
  "docs_projected E B db \<Longrightarrow> insertExecutionDocument E kind d db = (Inr u, db') \<Longrightarrow> docs_projected E B db'"
  by (auto simp: insertExecutionDocument_def split: if_splits intro: docs_insert)

lemma document_writes_lines:
  assumes "lines_projected E B db" "tables_kept db1 db'" "only_jobs ''procurement_po_stage_events'' db1 db'"
    "enqueueDocumentProjection E kind d n db0 = (Inr (), db1)" "pd_lines db0 = pd_lines db" "pd_queue db0 = pd_queue db"
  shows "lines_projected E B db'"
proof (rule lines_projected_other[OF assms(1)])
  note e = enqueueDocumentProjection_ok[OF assms(4)]
  show "pd_lines db' = pd_lines db" using e(1) assms(2,5) by (simp add: tables_kept_def)
  show "jobs_of (pd_queue db) \<subseteq> jobs_of (pd_queue db')" using e(2) assms(3,6) by (auto simp: only_jobs_def)
qed

lemma save_body_lines:
  assumes "lines_projected E B db" "save_body E kind d expected uuid db = (Inr v, db')"
  shows "lines_projected E B db'"
proof -
  obtain db0 n where "project_version E kind d n uuid db0 = (Inr v, db')" "pd_lines db0 = pd_lines db" "pd_queue db0 = pd_queue db"
    using assms(2) by (cases "find_doc kind (doc_id d) db") (auto simp: save_body_def Let_def split: if_splits)
  then show ?thesis by (elim project_version_ok) (rule document_writes_lines[OF assms(1)])
qed

lemma tables_kept_refl [simp]: "tables_kept db db" and only_jobs_refl [simp]: "only_jobs tb db db"
  by (auto simp: tables_kept_def only_jobs_def)

lemma updateExecutionDocument_lines:
  assumes "lines_projected E B db" "updateExecutionDocument E kind d n db = (Inr v, db')"
  shows "lines_projected E B db'"
  using assms(2) by (auto simp: updateExecutionDocument_def Let_def tx_ok split: if_splits
    intro!: document_writes_lines[OF assms(1), of db'])

lemma insertExecutionDocument_lines:
  "lines_projected E B db \<Longrightarrow> insertExecutionDocument E kind d db = (Inr u, db') \<Longrightarrow> lines_projected E B db'"
  by (auto simp: insertExecutionDocument_def split: if_splits intro!: document_writes_lines[of E B db db'])

lemma lines_insert:
  assumes inv: "lines_projected E B db" and rows: "pd_lines db' = pd_lines db @ [r]" and n: "lr_generation r = 1"
    and jobs: "jobs_of (pd_queue db') = insert ((''procurement_lines'', fst (line_version E r), nat_str 1,
      fst (snd (line_version E r))), snd (snd (snd (line_version E r)))) (jobs_of (pd_queue db))"
  shows "lines_projected E B db'"
proof -
  let ?k = "fst (line_version E r)" and ?ev = "fst (snd (line_version E r))" and ?h = "snd (snd (snd (line_version E r)))"
  have v: "line_version E r = (?k, ?ev, 0 + 1, ?h)" using n by (simp add: line_version_def)
  then have set': "line_version E ` set (pd_lines db') = insert (?k, ?ev, 0 + 1, ?h) (line_version E ` set (pd_lines db))"
    using rows by simp
  show ?thesis unfolding lines_projected_def
  proof (rule versions_advance[OF inv[unfolded lines_projected_def]])
    show "jobs_of (pd_queue db') = insert ((''procurement_lines'', ?k, nat_str (0 + 1), ?ev), ?h) (jobs_of (pd_queue db))"
      using jobs by simp
  qed (unfold set', auto)
qed

lemma lines_update:
  assumes inv: "lines_projected E B db" and rows: "pd_lines db' = upd_where p f (pd_lines db)"
    and p: "\<And>r. p r \<Longrightarrow> lr_kind r = kind \<and> lr_id r = i \<and> lr_generation r = n"
    and f: "\<And>r. p r \<Longrightarrow> lr_kind (f r) = kind \<and> lr_id (f r) = i \<and> lr_generation (f r) = n + 1 \<and> lr_line (f r) = l"
    and some: "changes p (pd_lines db) = 1"
    and jobs: "jobs_of (pd_queue db') = insert ((''procurement_lines'', trim (kind @ '':'' @ i), nat_str (n + 1),
      trim (kind @ ''.changed'')), trim (the (twinProjectionPayloadHash E (line_json l)))) (jobs_of (pd_queue db))"
  shows "lines_projected E B db'"
proof -
  let ?k = "trim (kind @ '':'' @ i)" and ?ev = "trim (kind @ ''.changed'')"
    and ?h = "trim (the (twinProjectionPayloadHash E (line_json l)))"
  have f': "p r \<Longrightarrow> line_version E (f r) = (?k, ?ev, n + 1, ?h)" for r using f[of r] by (simp add: line_version_def)
  have p': "p r \<Longrightarrow> \<exists>h0. line_version E r = (?k, ?ev, n, h0)" for r using p[of r] by (simp add: line_version_def)
  obtain r0 where r0: "r0 \<in> set (pd_lines db)" "p r0"
    using some by (auto simp: changes_def) (metis One_nat_def filter_False length_0_conv zero_neq_one)
  have "line_version E ` {f r | r. r \<in> set (pd_lines db) \<and> p r} = {(?k, ?ev, n + 1, ?h)}"
    using f' r0 by (auto simp: image_def)
  then have set': "line_version E ` set (pd_lines db') =
      insert (?k, ?ev, n + 1, ?h) (line_version E ` {r \<in> set (pd_lines db). \<not> p r})"
    unfolding rows set_upd_where image_Un by auto
  show ?thesis unfolding lines_projected_def
  proof (rule versions_advance[OF inv[unfolded lines_projected_def] jobs])
    show "n = 0 \<or> (\<exists>h0. (?k, ?ev, n, h0) \<in> line_version E ` set (pd_lines db))"
      using p'[OF r0(2)] r0(1) by (force simp: image_iff)
  qed (use set' p' in \<open>auto simp: image_iff\<close>)
qed

text \<open>The result of a row write, as the enqueue that follows finds it.\<close>
lemma write_line_cases:
  assumes "write_line E inp h db = (Inr (disp, n), db1)"
  obtains (same) "disp = DispUnchanged" "db1 = db"
  | (new) "disp \<noteq> DispUnchanged" "n = 1" "db1 = db\<lparr>pd_lines := pd_lines db @ [line_new inp]\<rparr>"
  | (put) g where "disp \<noteq> DispUnchanged" "n = g + 1"
      "changes (line_at (trim (li_kind inp)) (trim (li_lineId inp)) g) (pd_lines db) = 1"
      "db1 = db\<lparr>pd_lines := upd_where (line_at (trim (li_kind inp)) (trim (li_lineId inp)) g) (line_put inp (g + 1)) (pd_lines db)\<rparr>"
proof (cases "find_line (trim (li_kind inp)) (trim (li_lineId inp)) db")
  case None
  then have "disp = DispCreated \<and> n = 1 \<and> db1 = db\<lparr>pd_lines := pd_lines db @ [line_new inp]\<rparr>"
    using assms by (auto simp: write_line_def split: if_splits)
  then show ?thesis by (intro new) simp_all
next
  case (Some cur)
  then consider "disp = DispUnchanged \<and> db1 = db"
    | "disp = DispUpdated \<and> n = lr_generation cur + 1 \<and>
       changes (line_at (trim (li_kind inp)) (trim (li_lineId inp)) (lr_generation cur)) (pd_lines db) = 1 \<and>
       db1 = db\<lparr>pd_lines := upd_where (line_at (trim (li_kind inp)) (trim (li_lineId inp)) (lr_generation cur))
         (line_put inp (lr_generation cur + 1)) (pd_lines db)\<rparr>"
    using assms unfolding write_line_def Let_def by (fastforce split: if_splits)
  then show ?thesis
  proof cases
    case 1
    then show ?thesis by (intro same) simp_all
  next
    case 2
    then show ?thesis by (intro put[of "lr_generation cur"]) simp_all
  qed
qed

lemma twin_enqueue_kept: "twin_enqueue E inp db = (Inr u, db') \<Longrightarrow> tables_kept db db'"
  by (auto simp: twin_enqueue_def tables_kept_def split: prod.splits sum.splits)

lemma project_line_ok:
  assumes "project_line E inp h w db = (Inr v, db')"
  shows "v = w" "fst w = DispUnchanged \<Longrightarrow> db' = db"
    "fst w \<noteq> DispUnchanged \<Longrightarrow> twin_enqueue E (changed_input ''procurement_lines'' (trim (li_kind inp))
       (trim (li_lineId inp)) (snd w) h (li_availableAt inp)) db = (Inr (), db')"
  using assms by (cases "fst w = DispUnchanged"; simp add: project_line_def tx_ok)+

lemma persist_line_ok:
  assumes "persistProcurementLineProjection E inp db = (Inr v, db')"
  obtains h db1 where "twinProjectionPayloadHash E (line_json (li_line inp)) = Some h"
    "write_line E inp h db = (Inr v, db1)" "project_line E inp h v db1 = (Inr v, db')"
proof -
  obtain h where h: "twinProjectionPayloadHash E (line_json (li_line inp)) = Some h"
    and "bind_tx (write_line E inp h db) (project_line E inp h) = (Inr v, db')"
    using assms by (simp add: persistProcurementLineProjection_def split: sum.splits option.splits)
  then obtain w db1 where "write_line E inp h db = (Inr w, db1)" "project_line E inp h w db1 = (Inr v, db')"
    unfolding bind_tx_ok by blast
  then show ?thesis using that[OF h] project_line_ok(1) by blast
qed

lemma persist_line_lines:
  assumes inv: "lines_projected E B db" and ok: "persistProcurementLineProjection E inp db = (Inr (disp, n), db')"
  shows "lines_projected E B db'"
proof -
  from ok obtain h db1 where h: "twinProjectionPayloadHash E (line_json (li_line inp)) = Some h"
    and w: "write_line E inp h db = (Inr (disp, n), db1)" and pl: "project_line E inp h (disp, n) db1 = (Inr (disp, n), db')"
    by (rule persist_line_ok)
  let ?inp = "changed_input ''procurement_lines'' (trim (li_kind inp)) (trim (li_lineId inp)) n h (li_availableAt inp)"
  have enq: "tables_kept db1 db'" "jobs_of (pd_queue db') = insert (input_job ?inp) (jobs_of (pd_queue db1))" if "disp \<noteq> DispUnchanged"
    using project_line_ok(3)[OF pl] that twin_enqueue_kept twin_enqueue_ok(2) by (fastforce, fastforce)
  from w show ?thesis
  proof (cases rule: write_line_cases)
    case same
    then show ?thesis using project_line_ok(2)[OF pl] inv by simp
  next
    case new
    have "pd_lines db' = pd_lines db @ [line_new inp]" using enq(1)[OF new(1)] new(3) by (simp add: tables_kept_def)
    then show ?thesis using enq(2)[OF new(1)] new(2,3) h
      by (intro lines_insert[OF inv, of db' "line_new inp"]) (auto simp: input_job_changed line_version_def line_new_def)
  next
    case (put g)
    have rows: "pd_lines db' = upd_where (line_at (trim (li_kind inp)) (trim (li_lineId inp)) g) (line_put inp (g + 1)) (pd_lines db)"
      using enq(1)[OF put(1)] put(4) by (simp add: tables_kept_def)
    show ?thesis using enq(2)[OF put(1)] put(2,4) h
      by (intro lines_update[OF inv rows _ _ put(3)]) (auto simp: input_job_changed line_at_def line_put_def)
  qed
qed

lemma write_line_kept: "write_line E inp h db = (r, db1) \<Longrightarrow> pd_documents db1 = pd_documents db \<and> pd_queue db1 = pd_queue db"
  by (auto simp: write_line_def Let_def split: option.splits if_splits)

lemma twin_enqueue_only:
  assumes "twin_enqueue E inp db = (Inr u, db')"
  shows "only_jobs (trim (eq_sourceTable inp)) db db'"
  using twin_enqueue_ok(2)[OF assms] by (auto simp: only_jobs_def input_job_def)

lemma persist_line_docs:
  assumes inv: "docs_projected E B db" and ok: "persistProcurementLineProjection E inp db = (Inr v, db')"
  shows "docs_projected E B db'"
proof -
  from ok obtain h db1 where w: "write_line E inp h db = (Inr v, db1)" and pl: "project_line E inp h v db1 = (Inr v, db')"
    by (rule persist_line_ok)
  have k: "docs_projected E B db1" using inv write_line_kept[OF w] by (simp add: docs_projected_def)
  show ?thesis
  proof (cases "fst v = DispUnchanged")
    case False
    from project_line_ok(3)[OF pl this] show ?thesis
      using docs_only_jobs[OF k _ twin_enqueue_only] twin_enqueue_kept[of E _ db1 "()" db']
      by (auto simp: tables_kept_def changed_input_def)
  qed (use project_line_ok(2)[OF pl] k in simp)
qed

lemma saveLine_ok:
  assumes "saveLine E k doc l db = (Inr v, db')"
  obtains inp w where "persistProcurementLineProjection E inp db = (Inr w, db')"
  using assms by (auto simp: saveLine_def tx_ok split: if_splits option.splits)

lemma saveLine_lines: "lines_projected E B db \<Longrightarrow> saveLine E k doc l db = (Inr v, db') \<Longrightarrow> lines_projected E B db'"
  by (erule saveLine_ok) (metis persist_line_lines prod.exhaust)

lemma saveLine_docs: "docs_projected E B db \<Longrightarrow> saveLine E k doc l db = (Inr v, db') \<Longrightarrow> docs_projected E B db'"
  by (erule saveLine_ok) (rule persist_line_docs)

lemma enqueueLineProjection_only:
  "enqueueLineProjection E kind l t n db = (Inr u, db') \<Longrightarrow> only_jobs ''procurement_lines'' db db'"
  using enqueueLineProjection_ok(2) by (auto simp: only_jobs_def)

lemma insertExecutionLine_ok:
  assumes "insertExecutionLine E k doc l db = (Inr u, db')"
  obtains r t where "lr_generation r = 1" "lr_kind r = line_kind_name k" "lr_id r = pl_id l" "lr_line r = l"
    "enqueueLineProjection E (line_kind_name k) l t 1 (db\<lparr>pd_lines := pd_lines db @ [r]\<rparr>) = (Inr (), db')"
proof -
  let ?r = "\<lparr>lr_kind = line_kind_name k, lr_id = pl_id l, lr_documentId = doc, lr_lineNumber = pl_lineNumber l,
    lr_line = l, lr_generation = 1\<rparr>"
  show ?thesis using assms that[of ?r]
    by (auto simp: insertExecutionLine_def Let_def split: if_splits option.splits)
qed

lemma insertExecutionLine_lines:
  assumes inv: "lines_projected E B db" and ok: "insertExecutionLine E k doc l db = (Inr u, db')"
  shows "lines_projected E B db'"
  using ok
proof (rule insertExecutionLine_ok)
  fix r t
  assume r: "lr_generation r = 1" "lr_kind r = line_kind_name k" "lr_id r = pl_id l" "lr_line r = l"
    and e: "enqueueLineProjection E (line_kind_name k) l t 1 (db\<lparr>pd_lines := pd_lines db @ [r]\<rparr>) = (Inr (), db')"
  show ?thesis using enqueueLineProjection_ok[OF e] r
    by (intro lines_insert[OF inv, of db' r]) (simp_all add: tables_kept_def line_version_def)
qed

lemma insertExecutionLine_docs:
  assumes inv: "docs_projected E B db" and ok: "insertExecutionLine E k doc l db = (Inr u, db')"
  shows "docs_projected E B db'"
  using ok
proof (rule insertExecutionLine_ok)
  fix r t
  assume e: "enqueueLineProjection E (line_kind_name k) l t 1 (db\<lparr>pd_lines := pd_lines db @ [r]\<rparr>) = (Inr (), db')"
  have "docs_projected E B (db\<lparr>pd_lines := pd_lines db @ [r]\<rparr>)" using inv by (simp add: docs_projected_def)
  from docs_only_jobs[OF this _ enqueueLineProjection_only[OF e]] enqueueLineProjection_ok(1)[OF e]
  show ?thesis by (simp add: tables_kept_def)
qed

text \<open>The write-back of a required date keeps the documents, not the lines, in step.\<close>
lemma write_rihd_line_docs:
  assumes "docs_projected E B db" "write_rihd_line E po t n l db = (Inr u, db')"
  shows "docs_projected E B db'"
proof -
  obtain db0 where e: "enqueueLineProjection E (line_kind_name PurchaseOrderLine) l t n db0 = (Inr u, db')"
    and db0: "docs_projected E B db0" using assms by (auto simp: write_rihd_line_def docs_projected_def)
  show ?thesis using docs_only_jobs[OF db0 _ enqueueLineProjection_only[OF e]] enqueueLineProjection_ok(1)[OF e]
    by (simp add: tables_kept_def)
qed

lemma applyRihd_docs:
  assumes inv: "docs_projected E B db" and ok: "applyRihd E f t db = (Inr u, db')"
  shows "docs_projected E B db'"
proof -
  obtain po n v db1 db2 where upd: "updateExecutionDocument E ''purchase_order''
      (rihd_document E (rf_requiredInHouseAt f) t po) (rf_poVersion f) db = (Inr (v, n), db1)"
    and loop: "each_tx (write_rihd_line E (doc_id po) t n)
      (map (set_requested E (rf_requiredInHouseAt f)) (listLines PurchaseOrderLine (doc_id po) db)) db1 = (Inr (), db2)"
    and db': "pd_documents db' = pd_documents db2" "pd_queue db' = pd_queue db2"
    using ok by (auto simp: applyRihd_def Let_def tx_ok split: option.splits if_splits)
  have "docs_projected E B db2"
    by (rule each_tx_keeps[where P = "docs_projected E B", OF updateExecutionDocument_docs[OF inv upd] loop])
       (rule write_rihd_line_docs)
  then show ?thesis using db' by (simp add: docs_projected_def)
qed

subsection \<open>Runs\<close>

text \<open>Worker operations of the queue touch no source and no payload; a foreign enqueue adds a job of
  its own table.\<close>
definition op_table :: "pj_op \<Rightarrow> string option" where
  "op_table op = (case op of PjOpEnqueue inp u t \<Rightarrow> Some (trim (eq_sourceTable inp))
     | PjOpEnqueueTx sha tenant inp \<Rightarrow> Some (trim (eq_sourceTable inp)) | _ \<Rightarrow> None)"

lemma jobs_of_upd:
  assumes "\<And>j. pj_source (f j) = pj_source j" "\<And>j. pj_payloadHash (f j) = pj_payloadHash j"
  shows "jobs_of (q\<lparr>pq_jobs := upd_where p f (pq_jobs q)\<rparr>) = jobs_of q"
proof -
  have "map (\<lambda>j. (pj_source j, pj_payloadHash j)) (upd_where p f (pq_jobs q)) = map (\<lambda>j. (pj_source j, pj_payloadHash j)) (pq_jobs q)"
    by (rule map_upd_where) (simp add: assms)
  then show ?thesis unfolding jobs_of_def by (metis (no_types, lifting) projection_db.select_convs(1) projection_db.surjective projection_db.update_convs(1) set_map)
qed

lemma pj_hash_keys:
  "pj_payloadHash (pj_bury t j) = pj_payloadHash j" "pj_payloadHash (pj_lease w k l t j) = pj_payloadHash j"
  "pj_payloadHash (pj_done m t j) = pj_payloadHash j" "pj_payloadHash (pj_failed r e t j) = pj_payloadHash j"
  "pj_payloadHash (pj_revive t j) = pj_payloadHash j" "pj_payloadHash (j\<lparr>pj_availableAt := a\<rparr>) = pj_payloadHash j"
  by (simp_all add: pj_bury_def pj_lease_def pj_done_def pj_failed_def pj_revive_def)

lemma jobs_of_claims: "jobs_of (snd (foldl (pj_claim_one w l t) acc cs)) = jobs_of (snd acc)"
proof (induction cs arbitrary: acc)
  case (Cons c cs)
  have "jobs_of (snd (pj_claim_one w l t acc c)) = jobs_of (snd acc)"
    unfolding snd_claim_one by (rule jobs_of_upd) (simp_all add: pj_keys pj_hash_keys)
  then show ?case using Cons.IH by simp
qed simp

lemma worker_ops_jobs:
  "jobs_of (snd (pj_claim w t l limit us q)) = jobs_of q"
  "jobs_of (snd (pj_succeed i k t m q)) = jobs_of q"
  "jobs_of (snd (pj_fail redact i k t e q)) = jobs_of q"
  "jobs_of (snd (pj_replayDeadLetter i a t u q)) = jobs_of q"
proof -
  note tx = transaction_snd[where P = "\<lambda>q'. jobs_of q' = jobs_of q"]
  show "jobs_of (snd (pj_claim w t l limit us q)) = jobs_of q"
    by (auto simp: pj_claim_def Let_def jobs_of_claims jobs_of_upd pj_keys pj_hash_keys split: sum.split)
  show "jobs_of (snd (pj_succeed i k t m q)) = jobs_of q"
    by (auto simp: pj_succeed_def Let_def jobs_of_upd pj_keys pj_hash_keys intro!: tx split: sum.split)
  show "jobs_of (snd (pj_fail redact i k t e q)) = jobs_of q"
    by (auto simp: pj_fail_def Let_def jobs_of_upd pj_keys pj_hash_keys intro!: tx split: sum.split option.split)
  show "jobs_of (snd (pj_replayDeadLetter i a t u q)) = jobs_of q"
    by (auto simp: pj_replayDeadLetter_def Let_def jobs_of_upd pj_keys pj_hash_keys intro!: tx split: sum.split option.split)
qed

lemma enqueue_jobs:
  assumes "normalize_input raw = Inr inp" "eq_sourceTable inp = tb"
  shows "jobs_of q \<subseteq> jobs_of (snd (pj_enqueue raw u t q)) \<and>
    (\<forall>j\<in>jobs_of (snd (pj_enqueue raw u t q)). j \<in> jobs_of q \<or> fst (fst j) = tb)"
  using assms by (auto simp: pj_enqueue_def Let_def jobs_of_append pj_source_def new_job_def split: option.splits)

lemma enqueue_rejected: "normalize_input raw = Inl e \<Longrightarrow> snd (pj_enqueue raw u t q) = q"
  by (simp add: pj_enqueue_def)

lemma enqueue_tx_jobs:
  "jobs_of q \<subseteq> jobs_of (snd (enqueueInTransaction sha tenant raw q)) \<and>
   (\<forall>j\<in>jobs_of (snd (enqueueInTransaction sha tenant raw q)). j \<in> jobs_of q \<or> fst (fst j) = trim (eq_sourceTable raw))"
proof (cases "enqueueInTransaction sha tenant raw q")
  case (Pair r q')
  show ?thesis
  proof (cases r)
    case (Inl e)
    then have "jobs_of q' = jobs_of q"
      using Pair by (auto simp: enqueueInTransaction_def Let_def split: sum.splits option.splits if_splits)
    then show ?thesis using Pair by simp
  next
    case (Inr u)
    then show ?thesis using enqueueInTransaction_ok[of sha tenant raw q u q'] Pair by (auto simp: input_job_def)
  qed
qed

lemma pj_exec_jobs:
  "jobs_of q \<subseteq> jobs_of (pj_exec op q) \<and>
   (\<forall>j\<in>jobs_of (pj_exec op q). j \<in> jobs_of q \<or> Some (fst (fst j)) = op_table op)"
proof (cases op)
  case (PjOpEnqueue inp u t)
  show ?thesis
  proof (cases "normalize_input inp")
    case (Inl e)
    then show ?thesis using PjOpEnqueue by (simp add: enqueue_rejected)
  next
    case (Inr n)
    have "eq_sourceTable n = trim (eq_sourceTable inp)" using normalize_inputD[OF Inr] by simp
    from enqueue_jobs[OF Inr this, of q u t] show ?thesis using PjOpEnqueue by (auto simp: op_table_def)
  qed
next
  case (PjOpEnqueueTx sha tenant inp)
  then show ?thesis using enqueue_tx_jobs[of q sha tenant inp] by (auto simp: op_table_def)
qed (simp_all add: worker_ops_jobs)

text \<open>The writes that store a row without enqueueing its projection: the requisitions, requests for quotation, quotes,
  comparisons and awards of \<open>packages/persistence/src/index.ts\<close>, the orders accepted from mails
  (\<open>procurement-po-intake.ts\<close>) and the WhatsApp messages (\<open>procurement-whatsapp-webhook.ts\<close>).\<close>
definition insert_bare :: "string \<Rightarrow> document \<Rightarrow> proc_db \<Rightarrow> unit doc_tx" where
  "insert_bare kind d db =
    (if find_doc kind (doc_id d) db \<noteq> None \<or> source_taken kind d db then (Inl DUnique, db)
     else (Inr (), db\<lparr>pd_documents := pd_documents db @ [doc_row_of kind d 1 (doc_createdAt d)]\<rparr>))"

definition update_bare :: "string \<Rightarrow> document \<Rightarrow> nat \<Rightarrow> proc_db \<Rightarrow> unit doc_tx" where
  "update_bare kind d n db =
    (let p = (\<lambda>r. (dr_kind r, dr_id r) = (kind, doc_id d) \<and> dr_version r = n);
         db1 = db\<lparr>pd_documents := upd_where p (\<lambda>r. r\<lparr>dr_status := doc_status d, dr_version := n + 1,
                   dr_document := d, dr_updatedAt := doc_updatedAt d\<rparr>) (pd_documents db)\<rparr>
     in if changes p (pd_documents db) \<noteq> 1 then (Inl (DVersionConflict (int n) (int (n + 1))), db1) else (Inr (), db1))"

definition insert_bare_line :: "line_kind \<Rightarrow> ident \<Rightarrow> proc_line \<Rightarrow> proc_db \<Rightarrow> unit doc_tx" where
  "insert_bare_line k documentId l db =
    (if find_line (line_kind_name k) (pl_id l) db \<noteq> None \<or>
        line_number_taken (line_kind_name k) (pl_id l) documentId (pl_lineNumber l) db then (Inl DUnique, db)
     else (Inr (), db\<lparr>pd_lines := pd_lines db @ [\<lparr>lr_kind = line_kind_name k, lr_id = pl_id l,
            lr_documentId = documentId, lr_lineNumber = pl_lineNumber l, lr_line = l, lr_generation = 1\<rparr>]\<rparr>))"

text \<open>The operations on one tenant's database, each in its own transaction.\<close>
datatype doc_op =
    OpSave string document int string
  | OpSaveLine line_kind ident proc_line
  | OpUpdate string document nat
  | OpInsert string document
  | OpInsertLine line_kind ident proc_line
  | OpRihd rihd_fact instant
  | OpBareInsert string document
  | OpBareUpdate string document nat
  | OpBareLine line_kind ident proc_line
  | OpQueue pj_op

fun doc_exec :: "proj_env \<Rightarrow> doc_op \<Rightarrow> proc_db \<Rightarrow> proc_db" where
  "doc_exec E (OpSave kind d v u) db = snd (saveDocument E kind d v u db)"
| "doc_exec E (OpSaveLine k doc l) db = snd (saveLine E k doc l db)"
| "doc_exec E (OpUpdate kind d n) db = snd (atomic db (updateExecutionDocument E kind d n db))"
| "doc_exec E (OpInsert kind d) db = snd (atomic db (insertExecutionDocument E kind d db))"
| "doc_exec E (OpInsertLine k doc l) db = snd (atomic db (insertExecutionLine E k doc l db))"
| "doc_exec E (OpRihd f t) db = snd (atomic db (applyRihd E f t db))"
| "doc_exec E (OpBareInsert kind d) db = snd (atomic db (insert_bare kind d db))"
| "doc_exec E (OpBareUpdate kind d n) db = snd (atomic db (update_bare kind d n db))"
| "doc_exec E (OpBareLine k doc l) db = snd (atomic db (insert_bare_line k doc l db))"
| "doc_exec E (OpQueue op) db = db\<lparr>pd_queue := pj_exec op (pd_queue db)\<rparr>"

text \<open>The source keys an operation writes without a projection.\<close>
definition doc_key :: "string \<Rightarrow> ident \<Rightarrow> string" where
  "doc_key kind i = trim (kind @ '':'' @ i)"

definition bare_docs :: "doc_op list \<Rightarrow> string set" where
  "bare_docs ops = {doc_key kind (doc_id d) | kind d. OpBareInsert kind d \<in> set ops \<or> (\<exists>n. OpBareUpdate kind d n \<in> set ops)}"

text \<open>Lines are written without the projection of their generation by the bare inserts and by the write-back of a date,
  which enqueues them under the version of their order.\<close>
definition bare_lines :: "doc_op list \<Rightarrow> string set" where
  "bare_lines ops = {doc_key (line_kind_name k) (pl_id l) | k doc l. OpBareLine k doc l \<in> set ops}"

definition no_rihd :: "doc_op \<Rightarrow> bool" where
  "no_rihd op \<longleftrightarrow> (case op of OpRihd f t \<Rightarrow> False | _ \<Rightarrow> True)"

definition empty_db :: proc_db where
  "empty_db = \<lparr>pd_documents = [], pd_lines = [], pd_stages = [], pd_activities = [], pd_queue = pj_empty\<rparr>"

lemma empty_projected: "docs_projected E B empty_db" "lines_projected E B empty_db"
  by (simp_all add: docs_projected_def lines_projected_def versions_projected_def empty_db_def pj_empty_def jobs_of_def)

lemma saveDocument_snd:
  "P db \<Longrightarrow> (\<And>v db'. save_body E kind d n u db = (Inr v, db') \<Longrightarrow> P db') \<Longrightarrow> P (snd (saveDocument E kind d n u db))"
  by (auto simp: saveDocument_def intro: atomic_store)

lemma saveLine_error: "saveLine E k doc l db = (Inl e, db') \<Longrightarrow> db' = db"
  by (auto simp: saveLine_def split: if_splits option.splits dest: atomic_error)

lemma saveLine_snd:
  "P db \<Longrightarrow> (\<And>v db'. saveLine E k doc l db = (Inr v, db') \<Longrightarrow> P db') \<Longrightarrow> P (snd (saveLine E k doc l db))"
  by (cases "saveLine E k doc l db"; cases "fst (saveLine E k doc l db)") (auto dest: saveLine_error)

lemma queue_exec_projected:
  "docs_projected E B db \<Longrightarrow> docs_projected E B (db\<lparr>pd_queue := pj_exec op (pd_queue db)\<rparr>)"
  "lines_projected E B db \<Longrightarrow> lines_projected E B (db\<lparr>pd_queue := pj_exec op (pd_queue db)\<rparr>)"
  using pj_exec_jobs[of "pd_queue db" op]
  by (simp_all add: docs_projected_other[of E B db] lines_projected_other[of E B db])

lemma doc_version_key: "fst (doc_version E r) = doc_key (dr_kind r) (dr_id r)"
  by (simp add: doc_version_def doc_key_def)

lemma line_version_key: "fst (line_version E r) = doc_key (lr_kind r) (lr_id r)"
  by (simp add: line_version_def doc_key_def)

lemma insert_bare_docs:
  assumes "docs_projected E B db" "insert_bare kind d db = (Inr u, db')" "doc_key kind (doc_id d) \<in> B"
  shows "docs_projected E B db'"
proof -
  have db': "db' = db\<lparr>pd_documents := pd_documents db @ [doc_row_of kind d 1 (doc_createdAt d)]\<rparr>"
    using assms(2) by (auto simp: insert_bare_def split: if_splits)
  have "versions_projected ''procurement_documents'' B (doc_version E ` set (pd_documents db')) (pd_queue db)"
    by (rule versions_bare[OF assms(1)[unfolded docs_projected_def]]) (use assms(3) in \<open>auto simp: db' doc_version_key doc_row_of_def\<close>)
  then show ?thesis by (simp add: docs_projected_def db')
qed

lemma update_bare_docs:
  assumes "docs_projected E B db" "update_bare kind d n db = (Inr u, db')" "doc_key kind (doc_id d) \<in> B"
  shows "docs_projected E B db'"
proof -
  let ?p = "\<lambda>r. (dr_kind r, dr_id r) = (kind, doc_id d) \<and> dr_version r = n"
  let ?f = "\<lambda>r. r\<lparr>dr_status := doc_status d, dr_version := n + 1, dr_document := d, dr_updatedAt := doc_updatedAt d\<rparr>"
  have db': "db' = db\<lparr>pd_documents := upd_where ?p ?f (pd_documents db)\<rparr>"
    using assms(2) by (auto simp: update_bare_def Let_def split: if_splits)
  have "versions_projected ''procurement_documents'' B (doc_version E ` set (pd_documents db')) (pd_queue db)"
    by (rule versions_bare[OF assms(1)[unfolded docs_projected_def]]) (use assms(3) in \<open>auto simp: db' doc_version_key set_upd_where\<close>)
  then show ?thesis by (simp add: docs_projected_def db')
qed

lemma insert_bare_line_lines:
  assumes "lines_projected E B db" "insert_bare_line k doc l db = (Inr u, db')" "doc_key (line_kind_name k) (pl_id l) \<in> B"
  shows "lines_projected E B db'"
proof -
  obtain r where q: "pd_queue db' = pd_queue db" and r: "pd_lines db' = pd_lines db @ [r]" "lr_kind r = line_kind_name k" "lr_id r = pl_id l"
    using assms(2) by (auto simp: insert_bare_line_def split: if_splits)
  have "versions_projected ''procurement_lines'' B (line_version E ` set (pd_lines db')) (pd_queue db)"
    by (rule versions_bare[OF assms(1)[unfolded lines_projected_def]]) (use assms(3) in \<open>auto simp: r line_version_key\<close>)
  then show ?thesis by (simp add: lines_projected_def q)
qed

lemma bare_other:
  "insert_bare kind d db = (Inr u, db') \<Longrightarrow> lines_projected E B db \<Longrightarrow> lines_projected E B db'"
  "update_bare kind d n db = (Inr u, db') \<Longrightarrow> lines_projected E B db \<Longrightarrow> lines_projected E B db'"
  "insert_bare_line k doc l db = (Inr u, db') \<Longrightarrow> docs_projected E B db \<Longrightarrow> docs_projected E B db'"
  by (auto simp: insert_bare_def update_bare_def insert_bare_line_def Let_def docs_projected_def lines_projected_def split: if_splits)

lemma doc_exec_docs: "bare_docs [op] \<subseteq> B \<Longrightarrow> docs_projected E B db \<Longrightarrow> docs_projected E B (doc_exec E op db)"
  by (cases op) (auto simp: bare_docs_def intro!: saveDocument_snd[where P = "docs_projected E B"] saveLine_snd[where P = "docs_projected E B"]
    atomic_store[where P = "docs_projected E B"] queue_exec_projected
    dest: save_body_docs saveLine_docs updateExecutionDocument_docs insertExecutionDocument_docs insertExecutionLine_docs applyRihd_docs
      insert_bare_docs update_bare_docs bare_other)

lemma doc_exec_lines: "bare_lines [op] \<subseteq> B \<Longrightarrow> no_rihd op \<Longrightarrow> lines_projected E B db \<Longrightarrow> lines_projected E B (doc_exec E op db)"
  by (cases op) (auto simp: no_rihd_def bare_lines_def intro!: saveDocument_snd[where P = "lines_projected E B"]
    saveLine_snd[where P = "lines_projected E B"] atomic_store[where P = "lines_projected E B"] queue_exec_projected
    dest: save_body_lines saveLine_lines updateExecutionDocument_lines insertExecutionDocument_lines insertExecutionLine_lines
      insert_bare_line_lines bare_other)

lemma bare_member: "op \<in> set ops \<Longrightarrow> bare_docs [op] \<subseteq> bare_docs ops" "op \<in> set ops \<Longrightarrow> bare_lines [op] \<subseteq> bare_lines ops"
  by (auto simp: bare_docs_def bare_lines_def)

lemma doc_run_docs: "\<forall>op\<in>set ops. bare_docs [op] \<subseteq> B \<Longrightarrow> docs_projected E B db \<Longrightarrow>
    docs_projected E B (foldl (\<lambda>db op. doc_exec E op db) db ops)"
  by (induction ops arbitrary: db) (auto intro: doc_exec_docs)

lemma doc_run_lines: "\<forall>op\<in>set ops. bare_lines [op] \<subseteq> B \<and> no_rihd op \<Longrightarrow> lines_projected E B db \<Longrightarrow>
    lines_projected E B (foldl (\<lambda>db op. doc_exec E op db) db ops)"
  by (induction ops arbitrary: db) (auto intro: doc_exec_lines)

subsection \<open>Lookups after a write\<close>

lemma find_doc_kept: "tables_kept db db' \<Longrightarrow> find_doc k i db' = find_doc k i db"
  by (simp add: tables_kept_def find_doc_def)

lemma find_doc_append:
  "find_doc k i (db\<lparr>pd_documents := pd_documents db @ [r]\<rparr>) = (case find_doc k i db of Some x \<Rightarrow> Some x
     | None \<Rightarrow> if (dr_kind r, dr_id r) = (k, i) then Some r else None)"
  by (simp add: find_doc_def find_append split: option.split)

lemma find_doc_upd:
  assumes "\<And>r. p r \<Longrightarrow> (dr_kind (f r), dr_id (f r)) = (dr_kind r, dr_id r)"
  shows "find_doc k i (db\<lparr>pd_documents := upd_where p f (pd_documents db)\<rparr>) =
    map_option (\<lambda>r. if p r then f r else r) (find_doc k i db)"
proof -
  have "find (\<lambda>r. (dr_kind r, dr_id r) = (k, i)) (upd_where p f rows) =
      map_option (\<lambda>r. if p r then f r else r) (find (\<lambda>r. (dr_kind r, dr_id r) = (k, i)) rows)" for rows
    using assms by (induction rows) auto
  then show ?thesis by (simp add: find_doc_def)
qed

text \<open>The rows after a successful save.\<close>
lemma save_body_rows:
  assumes "save_body E kind d n u db = (Inr v, db')"
  shows "v = (d, nat n + 1) \<and> 0 \<le> n \<and> find_doc kind (doc_id d) db' = Some (doc_row_of kind d (nat n + 1)
      (case find_doc kind (doc_id d) db of None \<Rightarrow> doc_createdAt d | Some r \<Rightarrow> dr_createdAt r)) \<and>
    (\<forall>k i. (k, i) \<noteq> (kind, doc_id d) \<longrightarrow> find_doc k i db' = find_doc k i db)"
proof (cases "find_doc kind (doc_id d) db")
  case None
  let ?db = "db\<lparr>pd_documents := pd_documents db @ [doc_row_of kind d 1 (doc_createdAt d)]\<rparr>"
  have n: "n = 0" and pv: "project_version E kind d 1 u ?db = (Inr v, db')"
    using assms None by (auto simp: save_body_def split: if_splits)
  from pv have k: "v = (d, 1)" "\<And>k i. find_doc k i db' = find_doc k i ?db"
    by (rule project_version_ok; auto dest!: enqueueDocumentProjection_ok(1) simp: find_doc_kept)+
  have row: "dr_kind (doc_row_of kind d 1 c) = kind" "dr_id (doc_row_of kind d 1 c) = doc_id d" for c
    by (simp_all add: doc_row_of_def)
  show ?thesis unfolding k(2) find_doc_append using None n k(1) row by (auto split: option.split)
next
  case (Some cur)
  let ?p = "\<lambda>r. (dr_kind r, dr_id r) = (kind, doc_id d) \<and> dr_version r = dr_version cur"
    and ?f = "\<lambda>r. doc_row_of kind d (dr_version cur + 1) (dr_createdAt r)"
  let ?db = "db\<lparr>pd_documents := upd_where ?p ?f (pd_documents db)\<rparr>"
  have n: "n = int (dr_version cur)" and pv: "project_version E kind d (dr_version cur + 1) u ?db = (Inr v, db')"
    using assms Some by (auto simp: save_body_def Let_def split: if_splits)
  from pv have k: "v = (d, dr_version cur + 1)" "\<And>k i. find_doc k i db' = find_doc k i ?db"
    by (rule project_version_ok; auto dest!: enqueueDocumentProjection_ok(1) simp: find_doc_kept)+
  have upd: "find_doc k i ?db = map_option (\<lambda>r. if ?p r then ?f r else r) (find_doc k i db)" for k i
    by (rule find_doc_upd) (simp add: doc_row_of_def)
  have other: "map_option (\<lambda>r. if ?p r then ?f r else r) (find_doc k i db) = find_doc k i db"
    if "(k, i) \<noteq> (kind, doc_id d)" for k i
    using that by (cases "find_doc k i db") (auto simp: find_doc_def dest: find_Some_mem)
  have "?p cur" using Some by (auto simp: find_doc_def dest: find_Some_mem)
  then show ?thesis unfolding k(2) upd using Some n k(1) other by simp
qed

subsection \<open>The date write-back and the generations of the lines\<close>

definition line_hash :: "proj_env \<Rightarrow> proc_line \<Rightarrow> string" where
  "line_hash E l = trim (the (twinProjectionPayloadHash E (line_json l)))"

definition line_key :: "proc_line \<Rightarrow> nat \<Rightarrow> string \<times> string \<times> string \<times> string" where
  "line_key l n = (''procurement_lines'', trim (line_kind_name PurchaseOrderLine @ '':'' @ pl_id l), nat_str n,
     trim (line_kind_name PurchaseOrderLine @ ''.changed''))"

lemma write_rihd_line_job:
  assumes "write_rihd_line E po t n l db = (Inr u, db')"
  shows "jobs_of (pd_queue db') = insert (line_key l n, line_hash E l) (jobs_of (pd_queue db))"
  using enqueueLineProjection_ok(2)[OF assms[unfolded write_rihd_line_def]] by (simp add: line_key_def line_hash_def)

lemma applyRihd_job:
  assumes ok: "applyRihd E f t db = (Inr u, db')"
    and l: "l \<in> set (listLines PurchaseOrderLine po db)" "getDocument ''purchase_order'' (rf_poId f) db = Some (d, v)" "po = doc_id d"
  shows "(line_key l (rf_poVersion f + 1), line_hash E (set_requested E (rf_requiredInHouseAt f) l)) \<in> jobs_of (pd_queue db')"
proof -
  let ?l = "set_requested E (rf_requiredInHouseAt f) l"
  obtain n w db1 db2 where upd: "updateExecutionDocument E ''purchase_order''
      (rihd_document E (rf_requiredInHouseAt f) t d) (rf_poVersion f) db = (Inr (w, n), db1)"
    and loop: "each_tx (write_rihd_line E (doc_id d) t n)
      (map (set_requested E (rf_requiredInHouseAt f)) (listLines PurchaseOrderLine (doc_id d) db)) db1 = (Inr (), db2)"
    and db': "pd_queue db' = pd_queue db2"
    using ok l(2) by (auto simp: applyRihd_def Let_def tx_ok split: if_splits)
  have n: "n = rf_poVersion f + 1" using upd by (auto simp: updateExecutionDocument_def Let_def tx_ok split: if_splits)
  have "(line_key ?l n, line_hash E ?l) \<in> jobs_of (pd_queue db2)"
    by (rule each_tx_reaches[OF _ loop, of ?l]) (use l in \<open>auto simp: write_rihd_line_job\<close>)
  moreover have "line_key ?l n = line_key l n" by (simp add: line_key_def set_requested_def)
  ultimately show ?thesis using db' n by simp
qed

lemma jobs_unique:
  assumes "pj_inv q" "(s, h) \<in> jobs_of q" "(s, h') \<in> jobs_of q"
  shows "h = h'"
proof -
  have "inj_on pj_source (set (pq_jobs q))" using assms(1) by (simp add: pj_inv_def distinct_map)
  then show ?thesis using assms(2,3) by (auto simp: jobs_of_def inj_on_def)
qed

lemma twin_enqueue_inv: "pj_inv (pd_queue db) \<Longrightarrow> twin_enqueue E inp db = (Inr u, db') \<Longrightarrow> pj_inv (pd_queue db')"
  using enqueueInTransaction_inv[of "pd_queue db" "pe_sha E" "pe_tenant E" inp]
  by (auto simp: twin_enqueue_def split: prod.splits sum.splits)

text \<open>A change of a line whose next generation is already taken by another payload is refused.\<close>
lemma saveLine_blocked:
  assumes inv: "pj_inv (pd_queue db)" and job: "(line_key l (lr_generation r + 1), h) \<in> jobs_of (pd_queue db)"
    and row: "find_line (line_kind_name PurchaseOrderLine) (pl_id l) db = Some r" "trim (pl_id l) = pl_id l"
    and change: "line_hash E l \<noteq> h" "line_hash E l \<noteq> line_hash E (lr_line r)"
  shows "\<exists>e. saveLine E PurchaseOrderLine doc l db = (Inl e, db)"
proof (cases "saveLine E PurchaseOrderLine doc l db")
  case (Pair x db')
  show ?thesis
  proof (cases x)
    case (Inl e)
    then show ?thesis using Pair saveLine_error by blast
  next
    case (Inr v)
    let ?inp = "\<lambda>t. \<lparr>li_kind = line_kind_name PurchaseOrderLine, li_lineId = pl_id l, li_documentId = doc,
      li_lineNumber = pl_lineNumber l, li_line = l, li_availableAt = t\<rparr>"
    have kind: "trim (line_kind_name PurchaseOrderLine) = line_kind_name PurchaseOrderLine"
      by (simp add: line_kind_name_def trim_id is_space_def)
    obtain t w where "persistProcurementLineProjection E (?inp t) db = (Inr w, db')"
      using Pair Inr by (auto simp: saveLine_def tx_ok split: if_splits option.splits)
    then obtain k db1 where k: "twinProjectionPayloadHash E (line_json l) = Some k"
      and wr: "write_line E (?inp t) k db = (Inr w, db1)" and pl: "project_line E (?inp t) k w db1 = (Inr w, db')"
      by (rule persist_line_ok) simp
    have "fst w \<noteq> DispUnchanged \<and> snd w = lr_generation r + 1"
      using wr row change(2) k kind by (auto simp: write_line_def Let_def line_hash_def split: if_splits option.splits)
    then have e: "twin_enqueue E (changed_input ''procurement_lines'' (line_kind_name PurchaseOrderLine) (pl_id l)
        (lr_generation r + 1) k t) db1 = (Inr (), db')"
      using project_line_ok(3)[OF pl] row(2) kind by simp
    have q1: "pd_queue db1 = pd_queue db" using write_line_kept[OF wr] by simp
    have "pj_inv (pd_queue db')" using twin_enqueue_inv[OF _ e] inv q1 by simp
    moreover have "(line_key l (lr_generation r + 1), line_hash E l) \<in> jobs_of (pd_queue db')"
      using twin_enqueue_ok(2)[OF e] k by (simp add: input_job_changed line_key_def line_hash_def)
    moreover have "(line_key l (lr_generation r + 1), h) \<in> jobs_of (pd_queue db')"
      using twin_enqueue_ok(2)[OF e] job q1 by simp
    ultimately show ?thesis using jobs_unique change(1) by blast
  qed
qed

lemma enqueueDocumentProjection_inv:
  "pj_inv (pd_queue db) \<Longrightarrow> enqueueDocumentProjection E kind d n db = (Inr u, db') \<Longrightarrow> pj_inv (pd_queue db')"
  by (auto simp: enqueueDocumentProjection_def intro: twin_enqueue_inv split: option.splits)

lemma enqueueLineProjection_inv:
  "pj_inv (pd_queue db) \<Longrightarrow> enqueueLineProjection E kind l t n db = (Inr u, db') \<Longrightarrow> pj_inv (pd_queue db')"
  by (auto simp: enqueueLineProjection_def intro: twin_enqueue_inv split: option.splits)

lemma updateExecutionDocument_inv:
  assumes "pj_inv (pd_queue db)" "updateExecutionDocument E kind d n db = (Inr v, db')"
  shows "pj_inv (pd_queue db')"
proof -
  obtain db0 where "enqueueDocumentProjection E kind d (n + 1) db0 = (Inr (), db')" "pd_queue db0 = pd_queue db"
    using assms(2) by (auto simp: updateExecutionDocument_def Let_def tx_ok split: if_splits)
  then show ?thesis using enqueueDocumentProjection_inv[of db0] assms(1) by simp
qed

lemma write_rihd_line_inv:
  assumes "pj_inv (pd_queue db)" "write_rihd_line E po t n l db = (Inr u, db')"
  shows "pj_inv (pd_queue db')"
  using enqueueLineProjection_inv[OF _ assms(2)[unfolded write_rihd_line_def]] assms(1) by simp

lemma applyRihd_inv:
  assumes inv: "pj_inv (pd_queue db)" and ok: "applyRihd E f t db = (Inr u, db')"
  shows "pj_inv (pd_queue db')"
proof -
  obtain po n v db1 db2 where upd: "updateExecutionDocument E ''purchase_order''
      (rihd_document E (rf_requiredInHouseAt f) t po) (rf_poVersion f) db = (Inr (v, n), db1)"
    and loop: "each_tx (write_rihd_line E (doc_id po) t n)
      (map (set_requested E (rf_requiredInHouseAt f)) (listLines PurchaseOrderLine (doc_id po) db)) db1 = (Inr (), db2)"
    and db': "pd_queue db' = pd_queue db2"
    using ok by (auto simp: applyRihd_def Let_def tx_ok split: option.splits if_splits)
  have "pj_inv (pd_queue db2)"
    by (rule each_tx_keeps[where P = "\<lambda>db. pj_inv (pd_queue db)", OF updateExecutionDocument_inv[OF inv upd] loop])
       (rule write_rihd_line_inv)
  then show ?thesis using db' by simp
qed

subsection \<open>An enqueue of a new source goes through\<close>

definition norm_input :: "enqueue_input \<Rightarrow> enqueue_input" where
  "norm_input inp = inp\<lparr>eq_sourceTable := trim (eq_sourceTable inp), eq_sourceKey := trim (eq_sourceKey inp),
     eq_sourceRevision := trim (eq_sourceRevision inp), eq_eventType := trim (eq_eventType inp),
     eq_payloadHash := trim (eq_payloadHash inp)\<rparr>"

definition texts_present :: "enqueue_input \<Rightarrow> bool" where
  "texts_present inp \<longleftrightarrow> trim (eq_sourceTable inp) \<noteq> [] \<and> trim (eq_sourceKey inp) \<noteq> [] \<and>
     trim (eq_sourceRevision inp) \<noteq> [] \<and> trim (eq_eventType inp) \<noteq> [] \<and> trim (eq_payloadHash inp) \<noteq> []"

lemma normalize_present: "texts_present inp \<Longrightarrow> normalize_input inp = Inr (norm_input inp)"
  by (simp add: normalize_input_def requireText_def texts_present_def norm_input_def)

lemma nat_str_nonempty [simp]: "nat_str n \<noteq> []"
  by (subst nat_str.simps) simp

definition job_id_of :: "proj_env \<Rightarrow> enqueue_input \<Rightarrow> ident" where
  "job_id_of E inp = stableProjectionJobId (pe_sha E) (pe_tenant E) (norm_input inp)"

lemma twin_enqueue_fresh:
  assumes "trim (pe_tenant E) \<noteq> []" "texts_present inp" "fst (input_job inp) \<notin> fst ` jobs_of (pd_queue db)"
    "job_id_of E inp \<notin> pj_id ` set (pq_jobs (pd_queue db))"
  shows "twin_enqueue E inp db = (Inr (), db\<lparr>pd_queue := (pd_queue db)\<lparr>pq_jobs := pq_jobs (pd_queue db) @
    [new_job (job_id_of E inp) (norm_input inp) (eq_availableAt inp)]\<rparr>\<rparr>)"
proof -
  have "find (same_source (norm_input inp)) (pq_jobs (pd_queue db)) = None"
    using assms(3) by (auto simp: find_None_iff jobs_of_def input_job_def same_source_def pj_source_def norm_input_def image_iff)
  then show ?thesis using assms(1,4)
    by (simp add: twin_enqueue_def enqueueInTransaction_def requireText_def normalize_present[OF assms(2)] Let_def
        job_id_of_def norm_input_def)
qed

subsection \<open>Properties\<close>



text \<open>After a write-back of a required date to an order whose version equals the generation of one of
  its lines, no later change of that line can be saved: the write-back has enqueued the line under the
  version of the order, which is the next generation of the line, with another payload.\<close>
theorem rihd_blocks_line_edit:
  assumes "pj_inv (pd_queue db)" "applyRihd E f t db = (Inr (), db')"
    "getDocument ''purchase_order'' (rf_poId f) db = Some (po, v)" "l0 \<in> set (listLines PurchaseOrderLine (doc_id po) db)"
    "find_line (line_kind_name PurchaseOrderLine) (pl_id l) db' = Some r" "lr_generation r = rf_poVersion f"
    "pl_id l = pl_id l0" "trim (pl_id l) = pl_id l"
    "line_hash E l \<noteq> line_hash E (set_requested E (rf_requiredInHouseAt f) l0)" "line_hash E l \<noteq> line_hash E (lr_line r)"
  shows "\<exists>e. saveLine E PurchaseOrderLine doc l db' = (Inl e, db')"
proof (rule saveLine_blocked[OF applyRihd_inv[OF assms(1,2)] _ assms(5,8,9,10)])
  show "(line_key l (lr_generation r + 1), line_hash E (set_requested E (rf_requiredInHouseAt f) l0)) \<in> jobs_of (pd_queue db')"
    using applyRihd_job[OF assms(2,4,3)] assms(6,7) by (simp add: line_key_def)
qed

definition demo_env :: proj_env where
  "demo_env = \<lparr>pe_sha = (\<lambda>s. CHR ''h'' # s @ ''h''), pe_json = (\<lambda>v. case v of JStr s \<Rightarrow> s | _ \<Rightarrow> ''n''),
     pe_iso = (\<lambda>t. if t = 7 then ''7'' else ''1''), pe_tenant = ''t''\<rparr>"

definition demo_po :: document where
  "demo_po = \<lparr>doc_id = ''d'', doc_tenantId = ''t'', doc_sourceSystem = ''s'', doc_externalId = ''e'',
     doc_status = ''draft'', doc_createdAt = 1, doc_updatedAt = 1, doc_fields = []\<rparr>"

definition demo_line :: "string \<Rightarrow> proc_line" where
  "demo_line x = \<lparr>pl_id = ''l'', pl_lineNumber = ''1'',
     pl_fields = [(''poId'', JStr ''d''), (''orderedQty'', JNum (JFin 3)), (''note'', JStr x)]\<rparr>"

definition demo_row :: line_row where
  "demo_row = \<lparr>lr_kind = line_kind_name PurchaseOrderLine, lr_id = ''l'', lr_documentId = ''d'',
       lr_lineNumber = ''1'', lr_line = demo_line ''a'', lr_generation = 1\<rparr>"

definition demo_db :: proc_db where
  "demo_db = empty_db\<lparr>pd_documents := [doc_row_of ''purchase_order'' demo_po 1 1], pd_lines := [demo_row]\<rparr>"

definition demo_rihd :: rihd_fact where
  "demo_rihd = \<lparr>rf_outboxId = ''o'', rf_poId = ''d'', rf_poVersion = 1, rf_requiredInHouseAt = 7,
     rf_lines = [\<lparr>fl_poLineId = ''l'', fl_lineNumber = ''1'', fl_orderedQty = JFin 3, fl_requestedAt = JNull\<rparr>],
     rf_verifiedLines = 1, rf_connectorId = ''c''\<rparr>"

fun json_finite :: "json \<Rightarrow> bool" where
  "json_finite (JNum n) = is_finite n"
| "json_finite (JArr xs) = list_all json_finite xs"
| "json_finite (JObj kvs) = list_all (\<lambda>(k, v). json_finite v) kvs"
| "json_finite v = True"

lemma all_some_None: "all_some xs = None \<longleftrightarrow> None \<in> set xs"
  by (induction xs rule: all_some.induct) (auto split: option.splits)

lemma canonicalJson_None: "canonicalJson J v = None \<longleftrightarrow> \<not> json_finite v"
proof (induction v)
  case (JArr xs)
  have "all_some (map (canonicalJson J) xs) = None \<longleftrightarrow> (\<exists>x\<in>set xs. canonicalJson J x = None)"
    unfolding all_some_None set_map image_iff by (metis (no_types))
  then show ?case using JArr by (auto simp: list_all_iff split: option.split)
next
  case (JObj kvs)
  let ?f = "\<lambda>(k, v). (k, case canonicalJson J v of None \<Rightarrow> None | Some r \<Rightarrow> Some (J (JStr k) @ '':'' @ r))"
  have IH: "canonicalJson J (snd kv) = None \<longleftrightarrow> \<not> json_finite (snd kv)" if "kv \<in> set kvs" for kv
    using JObj[OF that] by (simp add: snds.intros)
  have "all_some (map snd (sort_key fst (map ?f kvs))) = None \<longleftrightarrow> (\<exists>kv\<in>set kvs. snd (?f kv) = None)"
    by (simp add: all_some_None image_iff) (metis (no_types))
  also have "\<dots> \<longleftrightarrow> (\<exists>kv\<in>set kvs. canonicalJson J (snd kv) = None)"
    by (intro bex_cong refl) (auto split: option.split prod.split)
  also have "\<dots> \<longleftrightarrow> \<not> json_finite (JObj kvs)"
    using IH by (auto simp: list_all_iff split: prod.split) (metis snd_conv)+
  finally show ?case by (cases "all_some (map snd (sort_key fst (map ?f kvs)))") auto
qed simp_all

lemma hash_None: "twinProjectionPayloadHash E v = None \<longleftrightarrow> \<not> json_finite v"
  by (simp add: twinProjectionPayloadHash_def canonicalJson_None)

lemma trim_ends: "\<not> is_space a \<Longrightarrow> \<not> is_space b \<Longrightarrow> trim (a # s @ [b]) = a # s @ [b]"
  by (simp add: trim_def)

lemma demo_hash:
  assumes "json_finite v"
  shows "\<exists>x. twinProjectionPayloadHash demo_env v = Some (CHR ''h'' # x @ ''h'')"
  using assms canonicalJson_None[of "pe_json demo_env" v] by (auto simp: twinProjectionPayloadHash_def demo_env_def)

lemma demo_trim: "trim (CHR ''h'' # s @ ''h'') = CHR ''h'' # s @ ''h''"
  by (rule trim_ends) (simp_all add: is_space_def)

lemma demo_trim_lit [simp]: "trim ''t'' = ''t''" "trim ''1'' = ''1''" "trim ''l'' = ''l''" "trim ''d'' = ''d''"
  "trim ''purchase_order:d'' = ''purchase_order:d''" "trim ''purchase_order.changed'' = ''purchase_order.changed''"
  "trim ''purchase_order_line:l'' = ''purchase_order_line:l''" "trim ''purchase_order_line'' = ''purchase_order_line''"
  "trim ''purchase_order_line.changed'' = ''purchase_order_line.changed''"
  by (simp_all add: trim_id is_space_def)

lemma demo_rihd_ok:
  "\<exists>db'. applyRihd demo_env demo_rihd 7 demo_db = (Inr (), db') \<and>
     pd_lines db' = [demo_row\<lparr>lr_line := set_requested demo_env 7 (demo_line ''a'')\<rparr>]"
proof -
  define po where "po = rihd_document demo_env 7 7 demo_po"
  define l where "l = set_requested demo_env 7 (demo_line ''a'')"
  have po: "doc_id po = ''d''" "doc_updatedAt po = 7" "doc_status po = ''draft''" "doc_sourceSystem po = ''s''" "doc_externalId po = ''e''"
    and l: "pl_id l = ''l''"
    by (simp_all add: po_def rihd_document_def demo_po_def l_def set_requested_def demo_line_def)
  let ?j = "\<lambda>d. twinProjectionPayloadHash demo_env (document_json demo_env d)"
  obtain hd hl where hd: "?j po = Some (CHR ''h'' # hd @ ''h'')"
    and hl: "twinProjectionPayloadHash demo_env (line_json l) = Some (CHR ''h'' # hl @ ''h'')"
    using demo_hash[of "document_json demo_env po"]
      demo_hash[of "line_json l"]
    by (auto simp: document_json_def line_json_def po_def l_def rihd_document_def demo_po_def set_requested_def demo_line_def)
  have lines: "listLines PurchaseOrderLine ''d'' demo_db = [demo_line ''a'']"
    by (simp add: listLines_def demo_db_def demo_row_def)
  have frozen: "list_all (frozen_unchanged [demo_line ''a'']) (rf_lines demo_rihd)"
    by (simp add: demo_rihd_def frozen_unchanged_def demo_line_def)
  have doc: "getDocument ''purchase_order'' ''d'' demo_db = Some (demo_po, 1)"
    by (simp add: getDocument_def find_doc_def demo_db_def doc_row_of_def demo_po_def)
  let ?di = "changed_input ''procurement_documents'' ''purchase_order'' ''d'' 2 (CHR ''h'' # hd @ ''h'') 7"
  let ?li = "changed_input ''procurement_lines'' ''purchase_order_line'' ''l'' 2 (CHR ''h'' # hl @ ''h'') 7"
  let ?q1 = "pj_empty\<lparr>pq_jobs := [new_job (job_id_of demo_env ?di) (norm_input ?di) 7]\<rparr>"
  let ?db1 = "demo_db\<lparr>pd_documents := [doc_row_of ''purchase_order'' po 2 1]\<rparr>"
  have present: "texts_present ?di" "texts_present ?li" by (simp_all add: texts_present_def changed_input_def demo_trim)
  have upd: "updateExecutionDocument demo_env ''purchase_order'' po 1 demo_db = (Inr (po, 2), ?db1\<lparr>pd_queue := ?q1\<rparr>)"
  proof -
    have "twin_enqueue demo_env ?di ?db1 = (Inr (), ?db1\<lparr>pd_queue := ?q1\<rparr>)"
      using twin_enqueue_fresh[OF _ present(1), of demo_env ?db1]
      by (simp add: demo_env_def demo_db_def empty_db_def pj_empty_def jobs_of_def changed_input_def)
    then have "enqueueDocumentProjection demo_env ''purchase_order'' po 2 ?db1 = (Inr (), ?db1\<lparr>pd_queue := ?q1\<rparr>)"
      using hd by (simp add: enqueueDocumentProjection_def po)
    then show ?thesis
      by (simp add: updateExecutionDocument_def changes_def demo_db_def doc_row_of_def po Let_def numeral_2_eq_2)
         (simp add: demo_po_def)
  qed
  let ?db2 = "?db1\<lparr>pd_queue := ?q1\<rparr>" 
  let ?db3 = "?db2\<lparr>pd_lines := [demo_row\<lparr>lr_line := l\<rparr>]\<rparr>"
  let ?q2 = "?q1\<lparr>pq_jobs := pq_jobs ?q1 @ [new_job (job_id_of demo_env ?li) (norm_input ?li) 7]\<rparr>"
  have "job_id_of demo_env ?li \<noteq> job_id_of demo_env ?di"
    by (simp add: job_id_of_def stableProjectionJobId_def norm_input_def changed_input_def demo_env_def)
  then have "twin_enqueue demo_env ?li ?db3 = (Inr (), ?db3\<lparr>pd_queue := ?q2\<rparr>)"
    using twin_enqueue_fresh[OF _ present(2), of demo_env ?db3]
    by (simp add: jobs_of_def input_job_def pj_source_def new_job_def norm_input_def changed_input_def demo_env_def)
  then have wr: "write_rihd_line demo_env ''d'' 7 2 l ?db2 = (Inr (), ?db3\<lparr>pd_queue := ?q2\<rparr>)"
    using hl by (simp add: write_rihd_line_def enqueueLineProjection_def demo_db_def demo_row_def l line_kind_name_def)
  have "rf_poId demo_rihd = ''d''" "rf_poVersion demo_rihd = 1" "rf_requiredInHouseAt demo_rihd = 7" "doc_id demo_po = ''d''"
    "length (rf_lines demo_rihd) = 1" "rf_verifiedLines demo_rihd = 1"
    by (simp_all add: demo_rihd_def demo_po_def)
  then show ?thesis using doc lines frozen upd wr
    by (simp add: applyRihd_def po_def[symmetric] l_def[symmetric])
qed

lemma rihd_blocks_line_edit_witness:
  "\<exists>db' e. applyRihd demo_env demo_rihd 7 demo_db = (Inr (), db') \<and>
     saveLine demo_env PurchaseOrderLine ''d'' (demo_line ''b'') db' = (Inl e, db')"
proof -
  obtain db' where ok: "applyRihd demo_env demo_rihd 7 demo_db = (Inr (), db')"
    and lines: "pd_lines db' = [demo_row\<lparr>lr_line := set_requested demo_env 7 (demo_line ''a'')\<rparr>]"
    using demo_rihd_ok by blast
  let ?r = "demo_row\<lparr>lr_line := set_requested demo_env 7 (demo_line ''a'')\<rparr>"
  have hashes: "line_hash demo_env (demo_line ''b'') \<noteq> line_hash demo_env (set_requested demo_env 7 (demo_line ''a''))"
    by (simp add: line_hash_def twinProjectionPayloadHash_def line_json_def demo_line_def set_requested_def)
       (simp add: demo_env_def trim_def is_space_def)
  have "\<exists>e. saveLine demo_env PurchaseOrderLine ''d'' (demo_line ''b'') db' = (Inl e, db')"
  proof (rule rihd_blocks_line_edit[OF _ ok])
    show "pj_inv (pd_queue demo_db)" by (simp add: demo_db_def empty_db_def pj_inv_def pj_empty_def)
    show "getDocument ''purchase_order'' (rf_poId demo_rihd) demo_db = Some (demo_po, 1)"
      by (simp add: getDocument_def find_doc_def demo_db_def doc_row_of_def demo_po_def demo_rihd_def)
    show "demo_line ''a'' \<in> set (listLines PurchaseOrderLine (doc_id demo_po) demo_db)"
      by (simp add: listLines_def demo_db_def demo_row_def demo_po_def)
    show "find_line (line_kind_name PurchaseOrderLine) (pl_id (demo_line ''b'')) db' = Some ?r"
      by (simp add: find_line_def lines) (simp add: demo_row_def demo_line_def)
  qed (use hashes in \<open>simp_all add: demo_row_def demo_rihd_def demo_line_def\<close>)
  with ok show ?thesis by blast
qed



text \<open>Saving is optimistic: a save that succeeds stores the document under the next version and no
  other document changes, and a second save that expected the same version is refused with the version it
  would have had to name and leaves the database as it is.\<close>
theorem saveDocument_optimistic:
  assumes "saveDocument E kind d n u db = (Inr v, db')" "doc_id d' = doc_id d" "doc_tenantId d' = pe_tenant E"
  shows "v = (d, nat n + 1) \<and> getDocument kind (doc_id d) db' = Some (d, nat n + 1) \<and>
    (\<forall>k i. (k, i) \<noteq> (kind, doc_id d) \<longrightarrow> getDocument k i db' = getDocument k i db) \<and>
    saveDocument E kind d' n u' db' = (Inl (DVersionConflict n (n + 1)), db')"
proof -
  have body: "save_body E kind d n u db = (Inr v, db')" "kind \<noteq> ''quote_comparison''" "\<not> n < 0"
    using assms(1) by (auto simp: saveDocument_def atomic_ok split: if_splits)
  note rows = save_body_rows[OF body(1)]
  have "save_body E kind d' n u' db' = (Inl (DVersionConflict n (n + 1)), db')"
    using rows body(3) assms(2) by (simp add: save_body_def doc_row_of_def)
  then show ?thesis using rows body(2,3) assms(3)
    by (auto simp: saveDocument_def getDocument_def doc_row_of_def)
qed

lemma demo_save: "\<exists>v db'. saveDocument demo_env ''rfq'' demo_po 0 ''u'' empty_db = (Inr v, db')"
proof -
  obtain h where h: "twinProjectionPayloadHash demo_env (document_json demo_env demo_po) = Some (CHR ''h'' # h @ ''h'')"
    using demo_hash[of "document_json demo_env demo_po"] by (auto simp: document_json_def demo_po_def)
  let ?i = "changed_input ''procurement_documents'' ''rfq'' ''d'' 1 (CHR ''h'' # h @ ''h'') 1"
  let ?db = "empty_db\<lparr>pd_documents := [doc_row_of ''rfq'' demo_po 1 1]\<rparr>"
  have "texts_present ?i" by (simp add: texts_present_def changed_input_def demo_trim trim_id is_space_def)
  then obtain q where "twin_enqueue demo_env ?i ?db = (Inr (), ?db\<lparr>pd_queue := q\<rparr>)"
    using twin_enqueue_fresh[of demo_env ?i ?db] by (auto simp: demo_env_def empty_db_def pj_empty_def jobs_of_def)
  moreover have "doc_id demo_po = ''d''" "doc_tenantId demo_po = pe_tenant demo_env" "doc_updatedAt demo_po = 1" "doc_createdAt demo_po = 1"
    by (simp_all add: demo_po_def demo_env_def)
  ultimately show ?thesis using h
    by (simp add: saveDocument_def save_body_def find_doc_def source_taken_def empty_db_def project_version_def observe_po_def
        enqueueDocumentProjection_def)
qed

lemma saveDocument_optimistic_witness:
  "\<exists>v db'. saveDocument demo_env ''rfq'' demo_po 0 ''u'' empty_db = (Inr v, db') \<and>
     saveDocument demo_env ''rfq'' demo_po 0 ''u'' db' = (Inl (DVersionConflict 0 1), db')"
proof -
  obtain v db' where ok: "saveDocument demo_env ''rfq'' demo_po 0 ''u'' empty_db = (Inr v, db')" using demo_save by blast
  have "doc_tenantId demo_po = pe_tenant demo_env" by (simp add: demo_po_def demo_env_def)
  from saveDocument_optimistic[OF ok refl this, of "''u''"] ok show ?thesis by auto
qed

end
