(* ===== verification/Quantities.thy ===== *)
theory Quantities
  imports JsNumber
begin

text \<open>
  The cumulative quantities of a purchase-order line as a projection of immutable events
  (\<open>packages/core/src/procurement-model.ts\<close>), and the guard the execution commands put before a
  shipment, receipt or invoice (\<open>assertCumulativeWithin\<close> of \<open>packages/persistence/src/index.ts\<close>).
  All arithmetic is that of JavaScript numbers, rounding included.
\<close>

subsection \<open>Data\<close>

datatype dimension = Confirmed | Shipped | Received | Invoiced | Cancelled

record quantity_event =
  qe_tenantId :: ident
  qe_sourceSystem :: string
  qe_sourceEventId :: string
  qe_poLineId :: ident
  qe_dimension :: dimension
  qe_delta :: jnum
  qe_occurredAt :: string

record quantity_projection =
  qp_tenantId :: ident
  qp_poLineId :: ident
  qp_orderedQty :: jnum
  qp_confirmedQty :: jnum
  qp_shippedQty :: jnum
  qp_receivedQty :: jnum
  qp_invoicedQty :: jnum
  qp_cancelledQty :: jnum
  qp_events :: "quantity_event list"
  qp_appliedEventKeys :: "string list"

datatype issue_code = ConfirmedExceedsOrdered | ShippedExceedsOrdered | ShippedExceedsConfirmed
  | ReceivedExceedsOrdered | ReceivedExceedsShipped | InvoicedExceedsOrdered | InvoicedExceedsReceived

record quantity_issue =
  qi_code :: issue_code
  qi_actual :: jnum
  qi_reference :: jnum

datatype quantity_fault = QTenant | QLine | QSource | QDelta | QKeyReused | QNotFinite | QCancelled | QExceeds

subsection \<open>Operations\<close>

definition nonneg_finite :: "jnum \<Rightarrow> bool" where
  "nonneg_finite v \<longleftrightarrow> is_finite v \<and> \<not> jlt v (JFin 0)"

definition createPurchaseOrderLineQuantityProjection ::
  "ident \<Rightarrow> jnum \<Rightarrow> ident \<Rightarrow> (quantity_fault, quantity_projection) result" where
  "createPurchaseOrderLineQuantityProjection line ordered tenant =
    (if \<not> nonneg_finite ordered then Inl QNotFinite
     else Inr \<lparr>qp_tenantId = tenant, qp_poLineId = line, qp_orderedQty = ordered, qp_confirmedQty = JFin 0,
       qp_shippedQty = JFin 0, qp_receivedQty = JFin 0, qp_invoicedQty = JFin 0, qp_cancelledQty = JFin 0,
       qp_events = [], qp_appliedEventKeys = []\<rparr>)"

text \<open>\<open>QUANTITY_FIELDS\<close>: reading and writing the field of a dimension.\<close>
definition quantity_of :: "dimension \<Rightarrow> quantity_projection \<Rightarrow> jnum" where
  "quantity_of d p = (case d of Confirmed \<Rightarrow> qp_confirmedQty p | Shipped \<Rightarrow> qp_shippedQty p
     | Received \<Rightarrow> qp_receivedQty p | Invoiced \<Rightarrow> qp_invoicedQty p | Cancelled \<Rightarrow> qp_cancelledQty p)"

definition set_quantity :: "dimension \<Rightarrow> jnum \<Rightarrow> quantity_projection \<Rightarrow> quantity_projection" where
  "set_quantity d v p = (case d of Confirmed \<Rightarrow> p\<lparr>qp_confirmedQty := v\<rparr> | Shipped \<Rightarrow> p\<lparr>qp_shippedQty := v\<rparr>
     | Received \<Rightarrow> p\<lparr>qp_receivedQty := v\<rparr> | Invoiced \<Rightarrow> p\<lparr>qp_invoicedQty := v\<rparr>
     | Cancelled \<Rightarrow> p\<lparr>qp_cancelledQty := v\<rparr>)"

definition quantityEventKey :: "quantity_event \<Rightarrow> string" where
  "quantityEventKey e = qe_tenantId e @ nul @ qe_sourceSystem e @ nul @ qe_sourceEventId e"

definition sameQuantityEvent :: "quantity_event \<Rightarrow> quantity_event \<Rightarrow> bool" where
  "sameQuantityEvent a b \<longleftrightarrow> qe_tenantId a = qe_tenantId b \<and> qe_sourceSystem a = qe_sourceSystem b \<and>
     qe_sourceEventId a = qe_sourceEventId b \<and> qe_poLineId a = qe_poLineId b \<and>
     qe_dimension a = qe_dimension b \<and> jeq (qe_delta a) (qe_delta b) \<and> qe_occurredAt a = qe_occurredAt b"

definition validateQuantityProjection :: "quantity_projection \<Rightarrow> quantity_fault option" where
  "validateQuantityProjection p =
    (if \<not> list_all nonneg_finite [qp_orderedQty p, qp_confirmedQty p, qp_shippedQty p, qp_receivedQty p,
          qp_invoicedQty p, qp_cancelledQty p] then Some QNotFinite
     else if jlt (qp_orderedQty p) (qp_cancelledQty p) then Some QCancelled else None)"

definition addQuantityIssue :: "issue_code \<Rightarrow> jnum \<Rightarrow> jnum \<Rightarrow> quantity_issue list" where
  "addQuantityIssue c actual ref = (if jlt ref actual then [\<lparr>qi_code = c, qi_actual = actual, qi_reference = ref\<rparr>] else [])"

definition deriveQuantityIssues :: "quantity_projection \<Rightarrow> quantity_issue list" where
  "deriveQuantityIssues p =
     addQuantityIssue ConfirmedExceedsOrdered (qp_confirmedQty p) (qp_orderedQty p) @
     addQuantityIssue ShippedExceedsOrdered (qp_shippedQty p) (qp_orderedQty p) @
     addQuantityIssue ShippedExceedsConfirmed (qp_shippedQty p) (qp_confirmedQty p) @
     addQuantityIssue ReceivedExceedsOrdered (qp_receivedQty p) (qp_orderedQty p) @
     addQuantityIssue ReceivedExceedsShipped (qp_receivedQty p) (qp_shippedQty p) @
     addQuantityIssue InvoicedExceedsOrdered (qp_invoicedQty p) (qp_orderedQty p) @
     addQuantityIssue InvoicedExceedsReceived (qp_invoicedQty p) (qp_receivedQty p)"

text \<open>The projection, whether the event was new, and the issues.\<close>
definition applyPurchaseOrderLineQuantityEvent ::
  "quantity_projection \<Rightarrow> quantity_event \<Rightarrow> (quantity_fault, quantity_projection \<times> bool \<times> quantity_issue list) result" where
  "applyPurchaseOrderLineQuantityEvent p e =
    (if qe_tenantId e \<noteq> qp_tenantId p then Inl QTenant
     else if qe_poLineId e \<noteq> qp_poLineId p then Inl QLine
     else if trim (qe_sourceSystem e) = [] \<or> trim (qe_sourceEventId e) = [] then Inl QSource
     else if \<not> is_finite (qe_delta e) \<or> jeq (qe_delta e) (JFin 0) then Inl QDelta
     else if quantityEventKey e \<in> set (qp_appliedEventKeys p) then
       (case find (\<lambda>x. quantityEventKey x = quantityEventKey e) (qp_events p) of
          None \<Rightarrow> Inl QKeyReused
        | Some prev \<Rightarrow> if sameQuantityEvent prev e then Inr (p, False, deriveQuantityIssues p) else Inl QKeyReused)
     else
       let c = set_quantity (qe_dimension e) (jadd (quantity_of (qe_dimension e) p) (qe_delta e)) p
       in case validateQuantityProjection c of
            Some f \<Rightarrow> Inl f
          | None \<Rightarrow>
              let p' = c\<lparr>qp_events := qp_events p @ [e], qp_appliedEventKeys := qp_appliedEventKeys p @ [quantityEventKey e]\<rparr>
              in Inr (p', True, deriveQuantityIssues p'))"

text \<open>The guard of the execution commands: what is added must stay within the quantity of
  the order line and within the previous stage (the confirmed quantity, or the line's while nothing is confirmed).\<close>
definition cumulative_ceiling :: "jnum \<Rightarrow> dimension \<Rightarrow> quantity_projection \<Rightarrow> jnum" where
  "cumulative_ceiling ordered d p = (case d of
     Shipped \<Rightarrow> if jeq (qp_confirmedQty p) (JFin 0) \<or> qp_confirmedQty p = JNaN then ordered else qp_confirmedQty p
   | Received \<Rightarrow> qp_shippedQty p | _ \<Rightarrow> qp_receivedQty p)"

definition assertCumulativeWithin :: "jnum \<Rightarrow> dimension \<Rightarrow> jnum \<Rightarrow> quantity_projection \<Rightarrow> (quantity_fault, unit) result" where
  "assertCumulativeWithin ordered d delta p =
    (let v = jadd (quantity_of d p) delta
     in if jlt ordered v \<or> jlt (cumulative_ceiling ordered d p) v then Inl QExceeds else Inr ())"

subsection \<open>Runs\<close>

text \<open>Events applied in order; a refused event changes nothing.\<close>
definition take_event :: "quantity_projection \<Rightarrow> quantity_event \<Rightarrow> quantity_projection" where
  "take_event p e = (case applyPurchaseOrderLineQuantityEvent p e of Inl f \<Rightarrow> p | Inr (p', _) \<Rightarrow> p')"

definition replay :: "dimension \<Rightarrow> quantity_event list \<Rightarrow> jnum" where
  "replay d es = foldl (\<lambda>v e. jadd v (qe_delta e)) (JFin 0) (filter (\<lambda>e. qe_dimension e = d) es)"

definition quantities_ok :: "quantity_projection \<Rightarrow> bool" where
  "quantities_ok p \<longleftrightarrow> validateQuantityProjection p = None \<and>
     qp_appliedEventKeys p = map quantityEventKey (qp_events p) \<and> distinct (qp_appliedEventKeys p) \<and>
     (\<forall>d. quantity_of d p = replay d (qp_events p)) \<and>
     (\<forall>e\<in>set (qp_events p). qe_tenantId e = qp_tenantId p \<and> qe_poLineId e = qp_poLineId p)"

named_theorems quantity_simps

lemma quantity_of_set [quantity_simps]:
  "quantity_of d (set_quantity d' v p) = (if d = d' then v else quantity_of d p)"
  by (cases d; cases d') (simp_all add: quantity_of_def set_quantity_def)

lemma set_quantity_kept [quantity_simps]:
  "qp_events (set_quantity d v p) = qp_events p" "qp_appliedEventKeys (set_quantity d v p) = qp_appliedEventKeys p"
  "qp_orderedQty (set_quantity d v p) = qp_orderedQty p" "qp_tenantId (set_quantity d v p) = qp_tenantId p"
  "qp_poLineId (set_quantity d v p) = qp_poLineId p"
  by (cases d; simp add: set_quantity_def)+

lemma quantity_of_log [quantity_simps]:
  "quantity_of d (p\<lparr>qp_events := es, qp_appliedEventKeys := ks\<rparr>) = quantity_of d p"
  by (cases d) (simp_all add: quantity_of_def)

lemma validate_log [quantity_simps]:
  "validateQuantityProjection (p\<lparr>qp_events := es, qp_appliedEventKeys := ks\<rparr>) = validateQuantityProjection p"
  by (simp add: validateQuantityProjection_def)

lemma replay_snoc: "replay d (es @ [e]) = (if qe_dimension e = d then jadd (replay d es) (qe_delta e) else replay d es)"
  by (simp add: replay_def)

lemma apply_new:
  assumes "applyPurchaseOrderLineQuantityEvent p e = Inr (p', new, is)" "quantityEventKey e \<notin> set (qp_appliedEventKeys p)"
  shows "p' = (set_quantity (qe_dimension e) (jadd (quantity_of (qe_dimension e) p) (qe_delta e)) p)
      \<lparr>qp_events := qp_events p @ [e], qp_appliedEventKeys := qp_appliedEventKeys p @ [quantityEventKey e]\<rparr>"
    "validateQuantityProjection p' = None" "new" "is = deriveQuantityIssues p'"
    "qe_tenantId e = qp_tenantId p" "qe_poLineId e = qp_poLineId p" "is_finite (qe_delta e)"
  using assms by (auto simp: applyPurchaseOrderLineQuantityEvent_def Let_def validate_log split: if_splits option.splits)

lemma apply_known:
  assumes "applyPurchaseOrderLineQuantityEvent p e = Inr (p', new, is)" "quantityEventKey e \<in> set (qp_appliedEventKeys p)"
  shows "p' = p" "\<not> new" "is = deriveQuantityIssues p"
  using assms by (auto simp: applyPurchaseOrderLineQuantityEvent_def split: if_splits option.splits)

lemma apply_ok:
  assumes ok: "quantities_ok p" and a: "applyPurchaseOrderLineQuantityEvent p e = Inr (p', new, is)"
  shows "quantities_ok p'"
proof (cases "quantityEventKey e \<in> set (qp_appliedEventKeys p)")
  case True
  then show ?thesis using apply_known(1)[OF a] ok by simp
next
  case False
  note n = apply_new[OF a False]
  show ?thesis using ok False n(2,5,6) unfolding n(1) quantities_ok_def
    by (auto simp: quantity_simps replay_snoc)
qed

lemma take_event_ok: "quantities_ok p \<Longrightarrow> quantities_ok (take_event p e)"
  using apply_ok by (auto simp: take_event_def split: sum.split)

lemma run_ok: "quantities_ok p \<Longrightarrow> quantities_ok (foldl take_event p es)"
  by (induction es arbitrary: p) (auto intro: take_event_ok)

lemma create_ok: "createPurchaseOrderLineQuantityProjection l n t = Inr p \<Longrightarrow> quantities_ok p"
  by (cases n) (auto simp: createPurchaseOrderLineQuantityProjection_def quantities_ok_def validateQuantityProjection_def
      nonneg_finite_def quantity_of_def replay_def split: if_splits dimension.split)

text \<open>An event taken stays in the log.\<close>
lemma take_event_cases:
  obtains "take_event p e = p"
  | "quantityEventKey e \<notin> set (qp_appliedEventKeys p)" "applyPurchaseOrderLineQuantityEvent p e =
      Inr (take_event p e, True, deriveQuantityIssues (take_event p e))"
proof (cases "applyPurchaseOrderLineQuantityEvent p e")
  case (Inl f)
  then show ?thesis using that(1) by (simp add: take_event_def)
next
  case (Inr r)
  obtain p' new "is" where r: "r = (p', new, is)" by (cases r) auto
  then have t: "take_event p e = p'" using Inr by (simp add: take_event_def)
  show ?thesis
  proof (cases "quantityEventKey e \<in> set (qp_appliedEventKeys p)")
    case True
    then show ?thesis using apply_known(1)[of p e p' new "is"] Inr r t that(1) by simp
  next
    case False
    then show ?thesis using apply_new(3,4)[of p e p' new "is"] Inr r t that(2) by simp
  qed
qed

lemma take_event_log: "\<exists>l. qp_events (take_event p e) = qp_events p @ l"
  by (rule take_event_cases[of p e]) (auto dest!: apply_new(1))

lemma take_event_kept:
  "qp_tenantId (take_event p e) = qp_tenantId p" "qp_poLineId (take_event p e) = qp_poLineId p"
  "qp_orderedQty (take_event p e) = qp_orderedQty p"
proof -
  have "qp_tenantId (take_event p e) = qp_tenantId p \<and> qp_poLineId (take_event p e) = qp_poLineId p \<and>
      qp_orderedQty (take_event p e) = qp_orderedQty p"
  proof (rule take_event_cases[of p e])
    assume "quantityEventKey e \<notin> set (qp_appliedEventKeys p)" "applyPurchaseOrderLineQuantityEvent p e =
      Inr (take_event p e, True, deriveQuantityIssues (take_event p e))"
    from apply_new(1)[OF this(2,1)] show ?thesis by (metis (no_types, lifting) quantity_projection.select_convs(1-3)
      quantity_projection.surjective quantity_projection.update_convs(9,10) set_quantity_kept(3-5))
  qed simp
  then show "qp_tenantId (take_event p e) = qp_tenantId p" "qp_poLineId (take_event p e) = qp_poLineId p"
    "qp_orderedQty (take_event p e) = qp_orderedQty p" by simp_all
qed

lemma run_kept:
  "qp_tenantId (foldl take_event p es) = qp_tenantId p \<and> qp_poLineId (foldl take_event p es) = qp_poLineId p"
  by (induction es arbitrary: p) (simp_all add: take_event_kept)

lemma run_log: "\<exists>l. qp_events (foldl take_event p es) = qp_events p @ l"
proof (induction es arbitrary: p)
  case (Cons e es)
  obtain l where "qp_events (take_event p e) = qp_events p @ l" using take_event_log by blast
  moreover obtain l' where "qp_events (foldl take_event (take_event p e) es) = qp_events (take_event p e) @ l'"
    using Cons.IH by blast
  ultimately show ?case by simp
qed simp

lemma known_event:
  assumes ok: "quantities_ok p" and e: "e \<in> set (qp_events p)"
  shows "find (\<lambda>x. quantityEventKey x = quantityEventKey e) (qp_events p) = Some e"
    "quantityEventKey e \<in> set (qp_appliedEventKeys p)"
  using ok e find_distinct_key[of quantityEventKey "qp_events p" e] by (auto simp: quantities_ok_def)

lemma same_event_eq: "sameQuantityEvent a b \<Longrightarrow> a = b"
  by (cases "qe_delta a"; cases "qe_delta b") (auto simp: sameQuantityEvent_def)

lemma applied_logged:
  assumes ok: "quantities_ok p" and a: "applyPurchaseOrderLineQuantityEvent p e = Inr (p', new, is)"
  shows "e \<in> set (qp_events p')"
proof (cases "quantityEventKey e \<in> set (qp_appliedEventKeys p)")
  case True
  obtain prev where "find (\<lambda>x. quantityEventKey x = quantityEventKey e) (qp_events p) = Some prev" "sameQuantityEvent prev e"
    using a True by (auto simp: applyPurchaseOrderLineQuantityEvent_def split: if_splits option.splits)
  then show ?thesis using apply_known(1)[OF a True] same_event_eq find_Some_mem by metis
next
  case False
  then show ?thesis using apply_new(1)[OF a] by simp
qed

lemma apply_guards:
  assumes "applyPurchaseOrderLineQuantityEvent p e = Inr r"
  shows "qe_tenantId e = qp_tenantId p" "qe_poLineId e = qp_poLineId p" "trim (qe_sourceSystem e) \<noteq> []"
    "trim (qe_sourceEventId e) \<noteq> []" "is_finite (qe_delta e)" "\<not> jeq (qe_delta e) (JFin 0)"
  using assms by (auto simp: applyPurchaseOrderLineQuantityEvent_def split: if_splits)

subsection \<open>The guarded commands\<close>

definition exact_quantities :: "quantity_projection \<Rightarrow> bool" where
  "exact_quantities p \<longleftrightarrow> (\<forall>d. jexact (quantity_of d p) \<and> jnonneg (quantity_of d p))"

definition quantities_in_order :: "quantity_projection \<Rightarrow> bool" where
  "quantities_in_order p \<longleftrightarrow> jle (qp_shippedQty p) (qp_orderedQty p) \<and> jle (qp_receivedQty p) (qp_shippedQty p) \<and>
     jle (qp_invoicedQty p) (qp_receivedQty p)"

text \<open>Every event adds, and one of a fulfilment stage has passed the guard of a line that still orders what the
  projection was created with.\<close>
fun guarded :: "quantity_projection \<Rightarrow> quantity_event list \<Rightarrow> bool" where
  "guarded p [] = True"
| "guarded p (e # es) = (jlt (JFin 0) (qe_delta e) \<and>
     (qe_dimension e \<in> {Shipped, Received, Invoiced} \<longrightarrow> assertCumulativeWithin (qp_orderedQty p) (qe_dimension e) (qe_delta e) p = Inr ()) \<and>
     guarded (take_event p e) es)"

lemma not_jlt_jle: "jnonneg a \<Longrightarrow> jnonneg b \<Longrightarrow> \<not> jlt b a \<Longrightarrow> jle a b"
  by (cases a; cases b) (auto simp: jle_def)

lemma jle_not_jlt: "jle a b \<Longrightarrow> \<not> jlt b a"
  by (cases a; cases b) (auto simp: jle_def)

lemma positive_nonneg: "jlt (JFin 0) a \<Longrightarrow> jnonneg a"
  by (cases a) simp_all

lemma step_quantity:
  assumes "exact_quantities p" "jnonneg (qe_delta e)"
  shows "exact_quantities (take_event p e)" "jle (quantity_of d p) (quantity_of d (take_event p e))"
    "quantity_of d (take_event p e) \<noteq> quantity_of d p \<Longrightarrow> d = qe_dimension e \<and>
       quantity_of d (take_event p e) = jadd (quantity_of d p) (qe_delta e)"
proof -
  have new: "quantity_of x (take_event p e) = (if x = qe_dimension e then jadd (quantity_of x p) (qe_delta e) else quantity_of x p)"
    if "quantityEventKey e \<notin> set (qp_appliedEventKeys p)" "applyPurchaseOrderLineQuantityEvent p e =
      Inr (take_event p e, True, deriveQuantityIssues (take_event p e))" for x
    by (subst apply_new(1)[OF that(2,1)]) (simp add: quantity_simps)
  have q: "jexact (quantity_of x p)" "jnonneg (quantity_of x p)" for x using assms(1) by (simp_all add: exact_quantities_def)
  show "exact_quantities (take_event p e)"
    by (rule take_event_cases[of p e]) (use assms q new in \<open>auto simp: exact_quantities_def jexact_add jnonneg_add\<close>)
  show "jle (quantity_of d p) (quantity_of d (take_event p e))"
  proof (rule take_event_cases[of p e])
    show "jle (quantity_of d p) (quantity_of d (take_event p e))" if "take_event p e = p"
      using q(2)[of d] that by (auto simp: jnonneg_def)
    show "jle (quantity_of d p) (quantity_of d (take_event p e))"
      if "quantityEventKey e \<notin> set (qp_appliedEventKeys p)" "applyPurchaseOrderLineQuantityEvent p e =
        Inr (take_event p e, True, deriveQuantityIssues (take_event p e))"
      using q[of d] jle_add[OF q assms(2)] by (auto simp: new[OF that] jnonneg_def)
  qed
  show "quantity_of d (take_event p e) \<noteq> quantity_of d p \<Longrightarrow> d = qe_dimension e \<and>
       quantity_of d (take_event p e) = jadd (quantity_of d p) (qe_delta e)"
    by (rule take_event_cases[of p e]) (auto simp: new split: if_splits)
qed

lemma quantity_of_simps: "quantity_of Shipped p = qp_shippedQty p" "quantity_of Received p = qp_receivedQty p"
  "quantity_of Invoiced p = qp_invoicedQty p" "quantity_of Confirmed p = qp_confirmedQty p"
  by (simp_all add: quantity_of_def)

lemma step_in_order:
  assumes ex: "exact_quantities p" and o: "quantities_in_order p" and n: "jnonneg (qp_orderedQty p)"
    and g: "guarded p (e # es)"
  shows "quantities_in_order (take_event p e)"
proof -
  have d: "jnonneg (qe_delta e)" using g positive_nonneg by simp
  let ?p = "take_event p e"
  have ex': "exact_quantities ?p" by (rule step_quantity(1)[OF ex d])
  have nn: "jnonneg (quantity_of x p)" "jnonneg (quantity_of x ?p)" for x
    using ex ex' by (simp_all add: exact_quantities_def)
  have within: "jle (jadd (quantity_of x p) (qe_delta e)) (qp_orderedQty p)"
      "jle (jadd (quantity_of x p) (qe_delta e)) (cumulative_ceiling (qp_orderedQty p) x p)"
    if "x = qe_dimension e" "x \<in> {Shipped, Received, Invoiced}" for x
  proof -
    have "assertCumulativeWithin (qp_orderedQty p) x (qe_delta e) p = Inr ()" using g that by auto
    then have a: "\<not> jlt (qp_orderedQty p) (jadd (quantity_of x p) (qe_delta e))"
        "\<not> jlt (cumulative_ceiling (qp_orderedQty p) x p) (jadd (quantity_of x p) (qe_delta e))"
      by (auto simp: assertCumulativeWithin_def Let_def split: if_splits)
    have c: "jnonneg (cumulative_ceiling (qp_orderedQty p) x p)"
      using nn[of Confirmed] nn[of Shipped] nn[of Received] n by (cases x) (simp_all add: cumulative_ceiling_def quantity_of_simps)
    show "jle (jadd (quantity_of x p) (qe_delta e)) (qp_orderedQty p)"
      "jle (jadd (quantity_of x p) (qe_delta e)) (cumulative_ceiling (qp_orderedQty p) x p)"
      using not_jlt_jle[OF jnonneg_add[OF nn(1) d]] a c n by auto
  qed
  have grow: "jle (quantity_of x p) (quantity_of x ?p)" for x by (rule step_quantity(2)[OF ex d])
  have bound: "jle (quantity_of x ?p) (if x = Shipped then qp_orderedQty p else cumulative_ceiling (qp_orderedQty p) x p)"
    if "x \<in> {Shipped, Received, Invoiced}" for x
  proof (cases "quantity_of x ?p = quantity_of x p")
    case True
    then show ?thesis using o that by (auto simp: quantities_in_order_def quantity_of_simps cumulative_ceiling_def)
  next
    case False
    from step_quantity(3)[OF ex d False] show ?thesis using within[of x] that by auto
  qed
  have "jle (qp_shippedQty ?p) (qp_orderedQty ?p)" using bound[of Shipped] by (simp add: quantity_of_simps take_event_kept)
  moreover have "jle (qp_receivedQty ?p) (qp_shippedQty ?p)"
    using jle_trans[OF _ grow[of Shipped], of "qp_receivedQty ?p"] bound[of Received]
    by (simp add: quantity_of_simps cumulative_ceiling_def)
  moreover have "jle (qp_invoicedQty ?p) (qp_receivedQty ?p)"
    using jle_trans[OF _ grow[of Received], of "qp_invoicedQty ?p"] bound[of Invoiced]
    by (simp add: quantity_of_simps cumulative_ceiling_def)
  ultimately show ?thesis by (simp add: quantities_in_order_def)
qed

lemma run_in_order:
  assumes "exact_quantities p" "quantities_in_order p" "jnonneg (qp_orderedQty p)" "guarded p es"
  shows "exact_quantities (foldl take_event p es) \<and> quantities_in_order (foldl take_event p es)"
  using assms
proof (induction es arbitrary: p)
  case (Cons e es)
  have "exact_quantities (take_event p e)"
    using step_quantity(1)[OF Cons.prems(1)] positive_nonneg Cons.prems(4) by simp
  then show ?case using Cons.IH step_in_order[OF Cons.prems] Cons.prems(3,4) by (simp add: take_event_kept)
qed simp

subsection \<open>Properties\<close>

text \<open>The projection is the sum of its log: after any sequence of events on a new projection every
  cumulative quantity is the JavaScript sum of the logged deltas of its dimension, all quantities are
  finite and not negative, the cancelled one is at most the ordered one, each event key is in the log once
  and only events of this tenant and line are.\<close>
theorem quantity_projection_replay:
  assumes "createPurchaseOrderLineQuantityProjection line ordered tenant = Inr p"
  shows "let q = foldl take_event p es in
    (\<forall>d. quantity_of d q = replay d (qp_events q) \<and> nonneg_finite (quantity_of d q)) \<and>
    jle (qp_cancelledQty q) (qp_orderedQty q) \<and>
    qp_appliedEventKeys q = map quantityEventKey (qp_events q) \<and> distinct (qp_appliedEventKeys q) \<and>
    (\<forall>e. e \<in> set (qp_events q) \<longrightarrow> qe_tenantId e = tenant \<and> qe_poLineId e = line)"
proof -
  let ?q = "foldl take_event p es"
  have ok: "quantities_ok ?q" by (rule run_ok[OF create_ok[OF assms]])
  have v: "validateQuantityProjection ?q = None" using ok by (simp add: quantities_ok_def)
  then have f: "nonneg_finite (quantity_of d ?q)" for d
    by (cases d) (auto simp: validateQuantityProjection_def quantity_of_def split: if_splits)
  have "jle (qp_cancelledQty ?q) (qp_orderedQty ?q)"
    using v by (cases "qp_cancelledQty ?q"; cases "qp_orderedQty ?q")
      (auto simp: validateQuantityProjection_def nonneg_finite_def split: if_splits)
  moreover have "qp_tenantId p = tenant" "qp_poLineId p = line"
    using assms by (auto simp: createPurchaseOrderLineQuantityProjection_def split: if_splits)
  ultimately show ?thesis using ok f run_kept[of p es] by (auto simp: quantities_ok_def Let_def)
qed

definition demo_event :: "string \<Rightarrow> dimension \<Rightarrow> int \<Rightarrow> quantity_event" where
  "demo_event i d n = \<lparr>qe_tenantId = ''t'', qe_sourceSystem = ''s'', qe_sourceEventId = i, qe_poLineId = ''l'',
     qe_dimension = d, qe_delta = jint n, qe_occurredAt = ''now''\<rparr>"

definition demo_projection :: quantity_projection where
  "demo_projection = \<lparr>qp_tenantId = ''t'', qp_poLineId = ''l'', qp_orderedQty = JFin 10, qp_confirmedQty = JFin 0,
     qp_shippedQty = JFin 0, qp_receivedQty = JFin 0, qp_invoicedQty = JFin 0, qp_cancelledQty = JFin 0,
     qp_events = [], qp_appliedEventKeys = []\<rparr>"

lemma demo_created: "createPurchaseOrderLineQuantityProjection ''l'' (JFin 10) ''t'' = Inr demo_projection"
  by (simp add: createPurchaseOrderLineQuantityProjection_def nonneg_finite_def demo_projection_def)

lemmas demo_apply = applyPurchaseOrderLineQuantityEvent_def demo_event_def demo_projection_def trim_def is_space_def
  quantity_of_def set_quantity_def validateQuantityProjection_def nonneg_finite_def quantityEventKey_def

lemma quantity_projection_replay_witness:
  "let q = foldl take_event demo_projection [demo_event ''1'' Confirmed 4, demo_event ''1'' Confirmed 4] in
     qp_confirmedQty q = JFin 4 \<and> quantity_of Confirmed q = replay Confirmed (qp_events q)"
  using quantity_projection_replay[OF demo_created, of "[demo_event ''1'' Confirmed 4, demo_event ''1'' Confirmed 4]"]
  by (simp add: Let_def) (simp add: take_event_def demo_apply sameQuantityEvent_def Let_def)

text \<open>Quantity events are idempotent for good: once an event has been taken, taking it again at any
  later time changes nothing and reports the present issues, and another event under its key is refused.\<close>
theorem quantity_event_idempotent:
  assumes "quantities_ok p" "applyPurchaseOrderLineQuantityEvent p e = Inr (p', new, is)"
  shows "let q = foldl take_event p' es in
    applyPurchaseOrderLineQuantityEvent q e = Inr (q, False, deriveQuantityIssues q) \<and>
    (\<forall>e' r. quantityEventKey e' = quantityEventKey e \<and> e' \<noteq> e \<longrightarrow> applyPurchaseOrderLineQuantityEvent q e' \<noteq> Inr r)"
proof -
  let ?q = "foldl take_event p' es"
  have ok: "quantities_ok ?q" by (rule run_ok[OF apply_ok[OF assms]])
  obtain l where "qp_events ?q = qp_events p' @ l" using run_log by blast
  then have mem: "e \<in> set (qp_events ?q)" using applied_logged[OF assms] by simp
  note known = known_event[OF ok mem]
  have own: "qe_tenantId e = qp_tenantId ?q" "qe_poLineId e = qp_poLineId ?q" using ok mem by (auto simp: quantities_ok_def)
  have same: "sameQuantityEvent e e" using apply_guards(5)[OF assms(2)] by (cases "qe_delta e") (simp_all add: sameQuantityEvent_def)
  have "applyPurchaseOrderLineQuantityEvent ?q e = Inr (?q, False, deriveQuantityIssues ?q)"
    using apply_guards(3-6)[OF assms(2)] own known same by (simp add: applyPurchaseOrderLineQuantityEvent_def)
  moreover have "applyPurchaseOrderLineQuantityEvent ?q e' \<noteq> Inr r"
    if "quantityEventKey e' = quantityEventKey e" "e' \<noteq> e" for e' r
    using known that same_event_eq[of e e'] by (auto simp: applyPurchaseOrderLineQuantityEvent_def)
  ultimately show ?thesis by (simp add: Let_def)
qed

lemma demo_event_taken: "applyPurchaseOrderLineQuantityEvent demo_projection (demo_event ''1'' Confirmed 4) =
    Inr (take_event demo_projection (demo_event ''1'' Confirmed 4), True, [])"
  by (simp add: take_event_def demo_apply Let_def deriveQuantityIssues_def addQuantityIssue_def)

lemma quantity_event_idempotent_witness:
  "let q = take_event (take_event demo_projection (demo_event ''1'' Confirmed 4)) (demo_event ''2'' Shipped 3) in
     applyPurchaseOrderLineQuantityEvent q (demo_event ''1'' Confirmed 4) = Inr (q, False, deriveQuantityIssues q)"
  using quantity_event_idempotent[OF create_ok[OF demo_created] demo_event_taken, of "[demo_event ''2'' Shipped 3]"]
  by (simp add: Let_def)

text \<open>The guard keeps the stages in order: if every event adds and every shipment, receipt and invoice
  has passed \<open>assertCumulativeWithin\<close>, then invoiced is at most received, received at most shipped and
  shipped at most ordered, whatever the rounding, and the only issues that can be reported are a
  confirmation above the order and a shipment above the confirmation.\<close>
theorem guarded_quantities_in_order:
  assumes "createPurchaseOrderLineQuantityProjection line ordered tenant = Inr p" "guarded p es"
  shows "let q = foldl take_event p es in
    jle (qp_invoicedQty q) (qp_receivedQty q) \<and> jle (qp_receivedQty q) (qp_shippedQty q) \<and>
    jle (qp_shippedQty q) (qp_orderedQty q) \<and>
    qi_code ` set (deriveQuantityIssues q) \<subseteq> {ConfirmedExceedsOrdered, ShippedExceedsConfirmed}"
proof -
  let ?q = "foldl take_event p es"
  have start: "exact_quantities p" "quantities_in_order p" "jnonneg (qp_orderedQty p)"
    using assms(1) by (cases ordered; auto simp: createPurchaseOrderLineQuantityProjection_def nonneg_finite_def
      exact_quantities_def quantities_in_order_def quantity_of_def split: if_splits dimension.split)+
  have o: "quantities_in_order ?q" using run_in_order[OF start assms(2)] by simp
  have "qi_code ` set (deriveQuantityIssues ?q) \<subseteq> {ConfirmedExceedsOrdered, ShippedExceedsConfirmed}"
    using o jle_trans[of "qp_receivedQty ?q" "qp_shippedQty ?q" "qp_orderedQty ?q"]
      jle_trans[of "qp_invoicedQty ?q" "qp_receivedQty ?q" "qp_orderedQty ?q"]
    by (auto simp: deriveQuantityIssues_def addQuantityIssue_def quantities_in_order_def dest!: jle_not_jlt)
  then show ?thesis using o by (simp add: quantities_in_order_def Let_def)
qed

lemma guarded_quantities_in_order_witness:
  "let q = foldl take_event demo_projection [demo_event ''1'' Confirmed 4, demo_event ''2'' Shipped 3, demo_event ''3'' Received 3] in
     jle (qp_receivedQty q) (qp_shippedQty q) \<and> jle (qp_shippedQty q) (qp_orderedQty q)"
proof -
  have "guarded demo_projection [demo_event ''1'' Confirmed 4, demo_event ''2'' Shipped 3, demo_event ''3'' Received 3]"
    by (simp add: take_event_def demo_apply assertCumulativeWithin_def cumulative_ceiling_def Let_def nul_def)
  from guarded_quantities_in_order[OF demo_created this] show ?thesis by (simp add: Let_def)
qed

end
