(* ===== verification/LineMatch.thy ===== *)
theory LineMatch
  imports Quantities
begin

text \<open>
  Three-way matching of one purchase-order line with receipt lines and an invoice line
  (\<open>matchPurchaseOrderLine\<close> of \<open>packages/core/src/procurement-model.ts\<close>): the checks of the input, the
  variances in JavaScript arithmetic and the disposition under a tolerance and an approval policy.
\<close>

subsection \<open>Data\<close>

datatype match_disposition = ExactMatch | WithinTolerance | ApprovalRequired | SevereException

record match_variance =
  mv_expected :: jnum
  mv_actual :: jnum
  mv_difference :: jnum
  mv_differencePercent :: jnum

record currency_variance =
  cv_expected :: string
  cv_actual :: string
  cv_matches :: bool

record line_variances =
  lv_quantity :: match_variance
  lv_unitPrice :: match_variance
  lv_amount :: match_variance
  lv_currency :: currency_variance

record thresholds =
  th_quantityPercent :: jnum
  th_unitPricePercent :: jnum
  th_amountPercent :: jnum
  th_amountAbsolute :: jnum

record match_policy =
  mp_tolerance :: thresholds
  mp_approval :: thresholds

record match_po_line =
  mo_id :: ident
  mo_orderedQty :: jnum
  mo_unitPrice :: jnum
  mo_currency :: string

record match_receipt_line =
  mr_id :: ident
  mr_poLineId :: ident
  mr_receivedQty :: jnum

record allocation =
  al_receiptLineId :: ident
  al_allocatedQty :: jnum

record match_invoice_line =
  mi_id :: ident
  mi_poLineId :: "ident option"
  mi_allocations :: "allocation list option"
  mi_invoicedQty :: jnum
  mi_unitPrice :: jnum
  mi_netAmount :: jnum
  mi_currency :: string

record match_input =
  mt_poLine :: match_po_line
  mt_receiptLines :: "match_receipt_line list"
  mt_invoiceLine :: match_invoice_line
  mt_policy :: match_policy
  mt_previouslyAllocated :: "(ident, jnum) kv"

record match_result =
  mx_poLineId :: ident
  mx_allocations :: "allocation list"
  mx_invoiceLineId :: ident
  mx_disposition :: match_disposition
  mx_variances :: line_variances

datatype match_fault = MNotFinite string | MNoPoLine | MOtherPoLine | MNoAllocation | MPrevious ident
  | MReceiptLine | MAllocationQty | MUnknownReceipt | MOverAllocated | MPolicy string

subsection \<open>Checks of the input\<close>

text \<open>The first failing check, in the order of the code.\<close>
fun first_fault :: "('e option) list \<Rightarrow> 'e option" where
  "first_fault [] = None"
| "first_fault (None # cs) = first_fault cs"
| "first_fault (Some e # cs) = Some e"

definition requireNonNegativeFinite :: "string \<Rightarrow> jnum \<Rightarrow> match_fault option" where
  "requireNonNegativeFinite name v = (if nonneg_finite v then None else Some (MNotFinite name))"

definition validateThresholds :: "string \<Rightarrow> thresholds \<Rightarrow> match_fault option" where
  "validateThresholds prefix t = first_fault
     [requireNonNegativeFinite (prefix @ ''.quantityPercent'') (th_quantityPercent t),
      requireNonNegativeFinite (prefix @ ''.unitPricePercent'') (th_unitPricePercent t),
      requireNonNegativeFinite (prefix @ ''.amountPercent'') (th_amountPercent t),
      requireNonNegativeFinite (prefix @ ''.amountAbsolute'') (th_amountAbsolute t)]"

definition ownNumericValue :: "(ident, jnum) kv \<Rightarrow> ident \<Rightarrow> jnum option" where
  "ownNumericValue r k = map_of r k"

definition receiptsById :: "match_receipt_line list \<Rightarrow> (ident, match_receipt_line) kv" where
  "receiptsById ls = foldl (\<lambda>m l. AList.update (mr_id l) l m) [] ls"

definition check_allocation :: "(ident, match_receipt_line) kv \<Rightarrow> allocation \<Rightarrow> match_fault option" where
  "check_allocation rs a = (if \<not> is_finite (al_allocatedQty a) \<or> \<not> jlt (JFin 0) (al_allocatedQty a) then Some MAllocationQty
     else if map_of rs (al_receiptLineId a) = None then Some MUnknownReceipt else None)"

definition allocatedByReceipt :: "allocation list \<Rightarrow> (ident, jnum) kv" where
  "allocatedByReceipt as = foldl (\<lambda>m a. AList.update (al_receiptLineId a)
     (jadd (case map_of m (al_receiptLineId a) of None \<Rightarrow> JFin 0 | Some v \<Rightarrow> v) (al_allocatedQty a)) m) [] as"

definition check_total :: "(ident, jnum) kv \<Rightarrow> (ident, match_receipt_line) kv \<Rightarrow> ident \<times> jnum \<Rightarrow> match_fault option" where
  "check_total prev rs kv = (case map_of rs (fst kv) of None \<Rightarrow> None
     | Some r \<Rightarrow> if jlt (mr_receivedQty r) (jadd (case ownNumericValue prev (fst kv) of None \<Rightarrow> JFin 0 | Some v \<Rightarrow> v) (snd kv))
         then Some MOverAllocated else None)"

definition looser :: "thresholds \<Rightarrow> thresholds \<Rightarrow> bool" where
  "looser a t \<longleftrightarrow> \<not> jlt (th_quantityPercent a) (th_quantityPercent t) \<and> \<not> jlt (th_unitPricePercent a) (th_unitPricePercent t) \<and>
     \<not> jlt (th_amountPercent a) (th_amountPercent t) \<and> \<not> jlt (th_amountAbsolute a) (th_amountAbsolute t)"

definition validateMatchInput :: "match_input \<Rightarrow> match_fault option" where
  "validateMatchInput i =
    (let po = mt_poLine i; iv = mt_invoiceLine i; rs = receiptsById (mt_receiptLines i);
         as = (case mi_allocations iv of None \<Rightarrow> [] | Some l \<Rightarrow> l)
     in first_fault (
       [requireNonNegativeFinite ''PO orderedQty'' (mo_orderedQty po), requireNonNegativeFinite ''PO unitPrice'' (mo_unitPrice po),
        requireNonNegativeFinite ''invoice invoicedQty'' (mi_invoicedQty iv),
        requireNonNegativeFinite ''invoice unitPrice'' (mi_unitPrice iv),
        requireNonNegativeFinite ''invoice netAmount'' (mi_netAmount iv),
        (if mi_poLineId iv = None \<or> mi_poLineId iv = Some [] then Some MNoPoLine else None),
        (if mi_poLineId iv \<noteq> Some (mo_id po) then Some MOtherPoLine else None),
        (if as = [] then Some MNoAllocation else None)] @
       map (\<lambda>(k, v). if nonneg_finite v then None else Some (MPrevious k)) (mt_previouslyAllocated i) @
       concat (map (\<lambda>r. [requireNonNegativeFinite ''receipt receivedQty'' (mr_receivedQty r),
          (if mr_poLineId r \<noteq> mo_id po then Some MReceiptLine else None)]) (mt_receiptLines i)) @
       map (check_allocation rs) as @
       map (check_total (mt_previouslyAllocated i) rs) (allocatedByReceipt as) @
       [validateThresholds ''tolerance'' (mp_tolerance (mt_policy i)), validateThresholds ''approval'' (mp_approval (mt_policy i)),
        (if looser (mp_approval (mt_policy i)) (mp_tolerance (mt_policy i)) then None else Some (MPolicy ''approval''))]))"

subsection \<open>Variances and disposition\<close>

definition variance :: "jnum \<Rightarrow> jnum \<Rightarrow> match_variance" where
  "variance expected actual = (let d = jsub actual expected in
     \<lparr>mv_expected = expected, mv_actual = actual, mv_difference = d,
      mv_differencePercent = (if jeq expected (JFin 0) then (if jeq d (JFin 0) then JFin 0 else JPosInf)
        else jmul (jdiv d expected) (JFin 100))\<rparr>)"

definition isExact :: "line_variances \<Rightarrow> bool" where
  "isExact v \<longleftrightarrow> jeq (mv_difference (lv_quantity v)) (JFin 0) \<and> jeq (mv_difference (lv_unitPrice v)) (JFin 0) \<and>
     jeq (mv_difference (lv_amount v)) (JFin 0)"

definition withinThresholds :: "line_variances \<Rightarrow> thresholds \<Rightarrow> bool" where
  "withinThresholds v t \<longleftrightarrow> jle (jabs (mv_differencePercent (lv_quantity v))) (th_quantityPercent t) \<and>
     jle (jabs (mv_differencePercent (lv_unitPrice v))) (th_unitPricePercent t) \<and>
     (jle (jabs (mv_difference (lv_amount v))) (th_amountAbsolute t) \<or>
      jle (jabs (mv_differencePercent (lv_amount v))) (th_amountPercent t))"

definition disposition_of :: "match_policy \<Rightarrow> line_variances \<Rightarrow> match_disposition" where
  "disposition_of p v = (if \<not> cv_matches (lv_currency v) then SevereException
     else if isExact v then ExactMatch
     else if withinThresholds v (mp_tolerance p) then WithinTolerance
     else if withinThresholds v (mp_approval p) then ApprovalRequired
     else SevereException)"

definition allocated_total :: "allocation list \<Rightarrow> jnum" where
  "allocated_total as = foldl (\<lambda>s a. jadd s (al_allocatedQty a)) (JFin 0) as"

definition variances_of :: "match_input \<Rightarrow> line_variances" where
  "variances_of i = (let q = allocated_total (the (mi_allocations (mt_invoiceLine i))); po = mt_poLine i; iv = mt_invoiceLine i in
     \<lparr>lv_quantity = variance q (mi_invoicedQty iv), lv_unitPrice = variance (mo_unitPrice po) (mi_unitPrice iv),
      lv_amount = variance (jmul q (mo_unitPrice po)) (mi_netAmount iv),
      lv_currency = \<lparr>cv_expected = mo_currency po, cv_actual = mi_currency iv, cv_matches = (mo_currency po = mi_currency iv)\<rparr>\<rparr>)"

definition matchPurchaseOrderLine :: "match_input \<Rightarrow> (match_fault, match_result) result" where
  "matchPurchaseOrderLine i = (case validateMatchInput i of Some f \<Rightarrow> Inl f
     | None \<Rightarrow> Inr \<lparr>mx_poLineId = mo_id (mt_poLine i), mx_allocations = the (mi_allocations (mt_invoiceLine i)),
         mx_invoiceLineId = mi_id (mt_invoiceLine i), mx_disposition = disposition_of (mt_policy i) (variances_of i),
         mx_variances = variances_of i\<rparr>)"

subsection \<open>Facts\<close>

lemma first_fault_None: "first_fault cs = None \<longleftrightarrow> (\<forall>c\<in>set cs. c = None)"
  by (induction cs rule: first_fault.induct) auto

lemma first_fault_append: "first_fault (xs @ ys) = None \<longleftrightarrow> first_fault xs = None \<and> first_fault ys = None"
  by (auto simp: first_fault_None)

lemma required: "requireNonNegativeFinite n v = None \<longleftrightarrow> nonneg_finite v"
  by (simp add: requireNonNegativeFinite_def)

text \<open>What an accepted input satisfies.\<close>
lemma validated:
  assumes "validateMatchInput i = None"
  defines "iv \<equiv> mt_invoiceLine i" and "po \<equiv> mt_poLine i" and "pol \<equiv> mt_policy i"
    and "rs \<equiv> receiptsById (mt_receiptLines i)"
  shows "nonneg_finite (mi_invoicedQty iv)" "nonneg_finite (mi_unitPrice iv)" "nonneg_finite (mi_netAmount iv)"
    "nonneg_finite (mo_unitPrice po)" "mi_poLineId iv = Some (mo_id po)"
    "\<exists>as. mi_allocations iv = Some as \<and> as \<noteq> [] \<and> (\<forall>a\<in>set as. check_allocation rs a = None) \<and>
      (\<forall>kv\<in>set (allocatedByReceipt as). check_total (mt_previouslyAllocated i) rs kv = None)"
    "\<forall>r\<in>set (mt_receiptLines i). nonneg_finite (mr_receivedQty r) \<and> mr_poLineId r = mo_id po"
    "validateThresholds ''tolerance'' (mp_tolerance pol) = None" "validateThresholds ''approval'' (mp_approval pol) = None"
    "looser (mp_approval pol) (mp_tolerance pol)"
proof -
  note v = assms(1)[unfolded validateMatchInput_def Let_def first_fault_append, folded iv_def po_def pol_def rs_def]
  define as where "as = (case mi_allocations iv of None \<Rightarrow> [] | Some l \<Rightarrow> l)"
  from v have a: "first_fault (map (check_allocation rs) as) = None"
      "first_fault (map (check_total (mt_previouslyAllocated i) rs) (allocatedByReceipt as)) = None"
    and f: "first_fault [requireNonNegativeFinite ''PO orderedQty'' (mo_orderedQty po), requireNonNegativeFinite ''PO unitPrice'' (mo_unitPrice po),
        requireNonNegativeFinite ''invoice invoicedQty'' (mi_invoicedQty iv),
        requireNonNegativeFinite ''invoice unitPrice'' (mi_unitPrice iv),
        requireNonNegativeFinite ''invoice netAmount'' (mi_netAmount iv),
        (if mi_poLineId iv = None \<or> mi_poLineId iv = Some [] then Some MNoPoLine else None),
        (if mi_poLineId iv \<noteq> Some (mo_id po) then Some MOtherPoLine else None),
        (if as = [] then Some MNoAllocation else None)] = None"
    and r: "first_fault (concat (map (\<lambda>r. [requireNonNegativeFinite ''receipt receivedQty'' (mr_receivedQty r),
          (if mr_poLineId r \<noteq> mo_id po then Some MReceiptLine else None)]) (mt_receiptLines i))) = None"
    and p: "first_fault [validateThresholds ''tolerance'' (mp_tolerance pol), validateThresholds ''approval'' (mp_approval pol),
        (if looser (mp_approval pol) (mp_tolerance pol) then None else Some (MPolicy ''approval''))] = None"
    unfolding as_def by blast+
  show "nonneg_finite (mi_invoicedQty iv)" "nonneg_finite (mi_unitPrice iv)" "nonneg_finite (mi_netAmount iv)"
    "nonneg_finite (mo_unitPrice po)" "mi_poLineId iv = Some (mo_id po)"
    using f by (simp_all add: first_fault_None required split: if_splits)
  have "as \<noteq> []" using f by (simp add: first_fault_None split: if_splits)
  then have "mi_allocations iv = Some as" by (cases "mi_allocations iv") (simp_all add: as_def)
  then show "\<exists>as. mi_allocations iv = Some as \<and> as \<noteq> [] \<and> (\<forall>a\<in>set as. check_allocation rs a = None) \<and>
      (\<forall>kv\<in>set (allocatedByReceipt as). check_total (mt_previouslyAllocated i) rs kv = None)"
    using \<open>as \<noteq> []\<close> a by (simp add: first_fault_None)
  show "\<forall>r\<in>set (mt_receiptLines i). nonneg_finite (mr_receivedQty r) \<and> mr_poLineId r = mo_id po"
    using r by (auto simp: first_fault_None required split: if_splits)
  show "validateThresholds ''tolerance'' (mp_tolerance pol) = None" "validateThresholds ''approval'' (mp_approval pol) = None"
    "looser (mp_approval pol) (mp_tolerance pol)"
    using p by (simp_all add: first_fault_None split: if_splits)
qed

lemma nonneg_finite_jnonneg: "nonneg_finite v \<Longrightarrow> jnonneg v"
  by (cases v) (simp_all add: nonneg_finite_def)

lemma thresholds_nonneg:
  assumes "validateThresholds p t = None"
  shows "jnonneg (th_quantityPercent t)" "jnonneg (th_unitPricePercent t)" "jnonneg (th_amountPercent t)"
    "jnonneg (th_amountAbsolute t)"
  using assms by (auto simp: validateThresholds_def first_fault_None requireNonNegativeFinite_def
      intro: nonneg_finite_jnonneg split: if_splits)

lemma receiptsById_distinct: "distinct (map fst (receiptsById ls))"
proof -
  have "distinct (map fst m) \<Longrightarrow> distinct (map fst (foldl (\<lambda>m l. AList.update (mr_id l) l m) m ls))" for m
    by (induction ls arbitrary: m) (simp_all add: distinct_update)
  then show ?thesis by (simp add: receiptsById_def)
qed

lemma receiptsById_lookup: "map_of (receiptsById ls) i = find (\<lambda>l. mr_id l = i) (rev ls)"
proof -
  have "map_of (foldl (\<lambda>m l. AList.update (mr_id l) l m) m ls) i =
      (case find (\<lambda>l. mr_id l = i) (rev ls) of None \<Rightarrow> map_of m i | Some l \<Rightarrow> Some l)" for m
  proof (induction ls arbitrary: m)
    case (Cons l ls)
    have app: "find P (xs @ [l]) = (case find P xs of None \<Rightarrow> if P l then Some l else None | Some x \<Rightarrow> Some x)"
      for P and xs :: "match_receipt_line list" by (induction xs) auto
    show ?case using Cons by (simp add: update_get app split: option.split)
  qed simp
  then show ?thesis by (simp add: receiptsById_def split: option.split)
qed

text \<open>The running totals per receipt line are the sums of its allocations, in order.\<close>
definition receipt_total :: "ident \<Rightarrow> allocation list \<Rightarrow> jnum" where
  "receipt_total i as = foldl (\<lambda>s a. jadd s (al_allocatedQty a)) (JFin 0) (filter (\<lambda>a. al_receiptLineId a = i) as)"

lemma allocatedByReceipt_lookup:
  "map_of (allocatedByReceipt as) i = (if i \<in> al_receiptLineId ` set as then Some (receipt_total i as) else None)"
proof (induction as rule: rev_induct)
  case (snoc a as)
  let ?m = "allocatedByReceipt as"
  have "allocatedByReceipt (as @ [a]) = AList.update (al_receiptLineId a)
     (jadd (case map_of ?m (al_receiptLineId a) of None \<Rightarrow> JFin 0 | Some v \<Rightarrow> v) (al_allocatedQty a)) ?m"
    by (simp add: allocatedByReceipt_def)
  moreover have "filter (\<lambda>x. al_receiptLineId x = al_receiptLineId a) as = []" if "al_receiptLineId a \<notin> al_receiptLineId ` set as"
    using that by (auto simp: filter_empty_conv image_iff)
  ultimately show ?case using snoc by (auto simp: update_get receipt_total_def)
qed (simp add: allocatedByReceipt_def)

lemma withinThresholds_mono:
  assumes "withinThresholds v t" "looser t' t" "validateThresholds p t = None" "validateThresholds p' t' = None"
  shows "withinThresholds v t'"
proof -
  note n = thresholds_nonneg[OF assms(3)] thresholds_nonneg[OF assms(4)]
  have "jle (th_quantityPercent t) (th_quantityPercent t')" "jle (th_unitPricePercent t) (th_unitPricePercent t')"
    "jle (th_amountPercent t) (th_amountPercent t')" "jle (th_amountAbsolute t) (th_amountAbsolute t')"
    using assms(2) n by (auto simp: looser_def intro: not_jlt_jle)
  then show ?thesis using assms(1) by (auto simp: withinThresholds_def dest: jle_trans)
qed

text \<open>Zero differences are within any thresholds.\<close>
lemma variance_zero: "jeq (mv_difference (variance e a)) (JFin 0) \<Longrightarrow> e \<noteq> JNaN \<Longrightarrow> jnonneg e \<Longrightarrow>
    mv_differencePercent (variance e a) = JFin 0"
proof -
  assume d: "jeq (mv_difference (variance e a)) (JFin 0)" and e: "e \<noteq> JNaN" "jnonneg e"
  then have "jsub a e = JFin 0" by (cases "jsub a e") (simp_all add: variance_def Let_def)
  then show ?thesis using e by (cases e) (simp_all add: variance_def Let_def)
qed

lemma match_ok:
  assumes "matchPurchaseOrderLine i = Inr r"
  shows "validateMatchInput i = None" "mx_disposition r = disposition_of (mt_policy i) (variances_of i)"
    "mx_variances r = variances_of i" "mx_allocations r = the (mi_allocations (mt_invoiceLine i))"
  using assms by (auto simp: matchPurchaseOrderLine_def split: option.splits)

definition severity :: "match_disposition \<Rightarrow> nat" where
  "severity d = (case d of ExactMatch \<Rightarrow> 0 | WithinTolerance \<Rightarrow> 1 | ApprovalRequired \<Rightarrow> 2 | SevereException \<Rightarrow> 3)"

text \<open>The numbers of an input are values a JavaScript variable can hold.\<close>
definition exact_numbers :: "match_input \<Rightarrow> bool" where
  "exact_numbers i \<longleftrightarrow> jexact (mi_invoicedQty (mt_invoiceLine i)) \<and> jexact (mi_unitPrice (mt_invoiceLine i)) \<and>
     jexact (mi_netAmount (mt_invoiceLine i)) \<and> jexact (mo_unitPrice (mt_poLine i))"

lemma nonneg_finite_is_finite: "nonneg_finite v \<Longrightarrow> is_finite v"
  by (simp add: nonneg_finite_def)

lemma total_nonneg: "\<forall>a\<in>set as. check_allocation rs a = None \<Longrightarrow> jnonneg (allocated_total as) \<and> jexact (allocated_total as)"
proof (induction as rule: rev_induct)
  case (snoc a as)
  have "jnonneg (al_allocatedQty a)"
    using snoc.prems by (cases "al_allocatedQty a") (auto simp: check_allocation_def split: if_splits)
  then show ?case using snoc jnonneg_add jexact_add by (simp add: allocated_total_def)
qed (simp add: allocated_total_def)

lemma jexact_mul: "jnonneg a \<Longrightarrow> jnonneg b \<Longrightarrow> jexact (jmul a b)"
  by (cases a; cases b) (simp_all add: jexact_rnd sinf_def)

lemma difference_zero:
  assumes "jexact e" "jexact a" "jnonneg e" "jnonneg a" "is_finite a"
  shows "jeq (mv_difference (variance e a)) (JFin 0) \<longleftrightarrow> e = a"
proof (cases "is_finite e")
  case True
  then show ?thesis using jsub_zero[OF assms(2,1,4,3,5) True] by (auto simp: variance_def Let_def)
next
  case False
  then have "e = JPosInf" using assms(3) by (cases e) simp_all
  then show ?thesis using assms(5) by (cases a) (simp_all add: variance_def Let_def jsub_def)
qed

subsection \<open>Properties\<close>

text \<open>C30 No receipt is invoiced twice: in an accepted match every allocation is positive and goes to a
  receipt line of this order line, and for each receipt line the earlier allocations and those of this
  invoice together stay within the received quantity.\<close>
theorem match_within_received:
  assumes "matchPurchaseOrderLine i = Inr r"
  shows "mx_allocations r \<noteq> [] \<and> (\<forall>a. a \<in> set (mx_allocations r) \<longrightarrow> jlt (JFin 0) (al_allocatedQty a) \<and>
    (\<exists>rl. find (\<lambda>l. mr_id l = al_receiptLineId a) (rev (mt_receiptLines i)) = Some rl \<and>
       mr_poLineId rl = mx_poLineId r \<and>
       \<not> jlt (mr_receivedQty rl)
         (jadd (case map_of (mt_previouslyAllocated i) (al_receiptLineId a) of None \<Rightarrow> JFin 0 | Some v \<Rightarrow> v)
               (receipt_total (al_receiptLineId a) (mx_allocations r)))))"
proof -
  note v = validated[OF match_ok(1)[OF assms]]
  obtain as where as: "mi_allocations (mt_invoiceLine i) = Some as" "as \<noteq> []"
    and c: "\<forall>a\<in>set as. check_allocation (receiptsById (mt_receiptLines i)) a = None"
    and t: "\<forall>kv\<in>set (allocatedByReceipt as). check_total (mt_previouslyAllocated i) (receiptsById (mt_receiptLines i)) kv = None"
    using v(6) by blast
  have r: "mx_allocations r = as" "mx_poLineId r = mo_id (mt_poLine i)"
    using assms as(1) by (auto simp: matchPurchaseOrderLine_def split: option.splits)
  have "jlt (JFin 0) (al_allocatedQty a) \<and> (\<exists>rl. find (\<lambda>l. mr_id l = al_receiptLineId a) (rev (mt_receiptLines i)) = Some rl \<and>
       mr_poLineId rl = mo_id (mt_poLine i) \<and> \<not> jlt (mr_receivedQty rl)
         (jadd (case map_of (mt_previouslyAllocated i) (al_receiptLineId a) of None \<Rightarrow> JFin 0 | Some v \<Rightarrow> v)
               (receipt_total (al_receiptLineId a) as)))" if a: "a \<in> set as" for a
  proof -
    have pos: "jlt (JFin 0) (al_allocatedQty a)" and "map_of (receiptsById (mt_receiptLines i)) (al_receiptLineId a) \<noteq> None"
      using c a by (auto simp: check_allocation_def split: if_splits)
    then obtain rl where rl: "find (\<lambda>l. mr_id l = al_receiptLineId a) (rev (mt_receiptLines i)) = Some rl"
      by (auto simp: receiptsById_lookup)
    have "map_of (allocatedByReceipt as) (al_receiptLineId a) = Some (receipt_total (al_receiptLineId a) as)"
      using a by (simp add: allocatedByReceipt_lookup)
    then have "check_total (mt_previouslyAllocated i) (receiptsById (mt_receiptLines i))
        (al_receiptLineId a, receipt_total (al_receiptLineId a) as) = None" using t map_of_SomeD by fast
    then have "\<not> jlt (mr_receivedQty rl)
         (jadd (case map_of (mt_previouslyAllocated i) (al_receiptLineId a) of None \<Rightarrow> JFin 0 | Some v \<Rightarrow> v)
               (receipt_total (al_receiptLineId a) as))"
      using rl by (auto simp: check_total_def receiptsById_lookup ownNumericValue_def split: if_splits)
    moreover have "mr_poLineId rl = mo_id (mt_poLine i)" using find_Some_mem[OF rl] v(7) by auto
    ultimately show ?thesis using pos rl by blast
  qed
  then show ?thesis using r as(2) by simp
qed

text \<open>A match is exact precisely when currency, quantity, unit price and amount are equal, for any
  policy: rounding never makes a difference vanish.\<close>
theorem exact_match_iff_equal:
  assumes "matchPurchaseOrderLine i = Inr r" "exact_numbers i"
  shows "mx_disposition r = ExactMatch \<longleftrightarrow>
    mo_currency (mt_poLine i) = mi_currency (mt_invoiceLine i) \<and>
    allocated_total (mx_allocations r) = mi_invoicedQty (mt_invoiceLine i) \<and>
    mo_unitPrice (mt_poLine i) = mi_unitPrice (mt_invoiceLine i) \<and>
    jmul (allocated_total (mx_allocations r)) (mo_unitPrice (mt_poLine i)) = mi_netAmount (mt_invoiceLine i)"
proof -
  note v = validated[OF match_ok(1)[OF assms(1)]]
  let ?iv = "mt_invoiceLine i" and ?po = "mt_poLine i"
  obtain as where as: "mi_allocations ?iv = Some as"
    and c: "\<forall>a\<in>set as. check_allocation (receiptsById (mt_receiptLines i)) a = None"
    using v(6) by blast
  have r: "mx_allocations r = as" using match_ok(4)[OF assms(1)] as by simp
  have q: "jnonneg (allocated_total as)" "jexact (allocated_total as)" using total_nonneg[OF c] by simp_all
  have n: "jnonneg (mi_invoicedQty ?iv)" "jnonneg (mi_unitPrice ?iv)" "jnonneg (mi_netAmount ?iv)" "jnonneg (mo_unitPrice ?po)"
    using v(1-4) by (auto intro: nonneg_finite_jnonneg)
  have f: "is_finite (mi_invoicedQty ?iv)" "is_finite (mi_unitPrice ?iv)" "is_finite (mi_netAmount ?iv)" "is_finite (mo_unitPrice ?po)"
    using v(1-4) by (auto intro: nonneg_finite_is_finite)
  have e: "jexact (mi_invoicedQty ?iv)" "jexact (mi_unitPrice ?iv)" "jexact (mi_netAmount ?iv)" "jexact (mo_unitPrice ?po)"
    using assms(2) by (simp_all add: exact_numbers_def)
  have amount: "jnonneg (jmul (allocated_total as) (mo_unitPrice ?po)) \<or> jmul (allocated_total as) (mo_unitPrice ?po) = JNaN"
    using q(1) n(4) f(4) by (cases "allocated_total as"; cases "mo_unitPrice ?po") (auto simp: sinf_def)
  have "jeq (mv_difference (variance (jmul (allocated_total as) (mo_unitPrice ?po)) (mi_netAmount ?iv))) (JFin 0) \<longleftrightarrow>
      jmul (allocated_total as) (mo_unitPrice ?po) = mi_netAmount ?iv"
    using amount
  proof
    assume "jnonneg (jmul (allocated_total as) (mo_unitPrice ?po))"
    then show ?thesis by (intro difference_zero jexact_mul q n e f)
  next
    assume "jmul (allocated_total as) (mo_unitPrice ?po) = JNaN"
    then show ?thesis using f(3) by (cases "mi_netAmount ?iv") (simp_all add: variance_def Let_def jsub_def)
  qed
  then have "isExact (variances_of i) \<longleftrightarrow> allocated_total as = mi_invoicedQty ?iv \<and> mo_unitPrice ?po = mi_unitPrice ?iv \<and>
      jmul (allocated_total as) (mo_unitPrice ?po) = mi_netAmount ?iv"
    using difference_zero[OF q(2) e(1) q(1) n(1) f(1)] difference_zero[OF e(4,2) n(4,2) f(2)]
    by (simp add: isExact_def variances_of_def Let_def as)
  moreover have "cv_matches (lv_currency (variances_of i)) \<longleftrightarrow> mo_currency ?po = mi_currency ?iv"
    by (simp add: variances_of_def Let_def)
  ultimately show ?thesis unfolding match_ok(2)[OF assms(1)] r disposition_of_def by auto
qed

text \<open>A wider policy never judges a match more severely: with the same order, receipts and invoice, if
  tolerance and approval limits are at least those of another accepted policy, the disposition is the same
  or milder.\<close>
theorem match_severity_antimono:
  assumes "matchPurchaseOrderLine i = Inr r" "matchPurchaseOrderLine (i\<lparr>mt_policy := p\<rparr>) = Inr r'"
    "looser (mp_tolerance p) (mp_tolerance (mt_policy i))" "looser (mp_approval p) (mp_approval (mt_policy i))"
  shows "severity (mx_disposition r') \<le> severity (mx_disposition r) \<and> mx_variances r' = mx_variances r"
proof -
  note v = validated(8,9)[OF match_ok(1)[OF assms(1)]] and v' = validated(8,9)[OF match_ok(1)[OF assms(2)]]
  have vv: "variances_of (i\<lparr>mt_policy := p\<rparr>) = variances_of i" by (simp add: variances_of_def)
  have "withinThresholds (variances_of i) (mp_tolerance (mt_policy i)) \<Longrightarrow> withinThresholds (variances_of i) (mp_tolerance p)"
    "withinThresholds (variances_of i) (mp_approval (mt_policy i)) \<Longrightarrow> withinThresholds (variances_of i) (mp_approval p)"
    using withinThresholds_mono[OF _ assms(3) v(1)] withinThresholds_mono[OF _ assms(4) v(2)] v' by auto
  then show ?thesis unfolding match_ok(2,3)[OF assms(1)] match_ok(2,3)[OF assms(2)] vv
    by (auto simp: disposition_of_def severity_def)
qed

definition demo_match :: "jnum \<Rightarrow> jnum \<Rightarrow> match_input" where
  "demo_match price tol = \<lparr>mt_poLine = \<lparr>mo_id = ''l'', mo_orderedQty = JFin 10, mo_unitPrice = JFin 2, mo_currency = ''EUR''\<rparr>,
     mt_receiptLines = [\<lparr>mr_id = ''r'', mr_poLineId = ''l'', mr_receivedQty = JFin 4\<rparr>],
     mt_invoiceLine = \<lparr>mi_id = ''i'', mi_poLineId = Some ''l'', mi_allocations = Some [\<lparr>al_receiptLineId = ''r'', al_allocatedQty = JFin 3\<rparr>],
       mi_invoicedQty = JFin 3, mi_unitPrice = price, mi_netAmount = JFin 6, mi_currency = ''EUR''\<rparr>,
     mt_policy = \<lparr>mp_tolerance = \<lparr>th_quantityPercent = tol, th_unitPricePercent = tol, th_amountPercent = tol, th_amountAbsolute = tol\<rparr>,
       mp_approval = \<lparr>th_quantityPercent = tol, th_unitPricePercent = tol, th_amountPercent = tol, th_amountAbsolute = tol\<rparr>\<rparr>,
     mt_previouslyAllocated = [(''r'', JFin 1)]\<rparr>"

lemma demo_match_ok: "0 \<le> t \<Longrightarrow> 0 \<le> c \<Longrightarrow> \<exists>r. matchPurchaseOrderLine (demo_match (JFin c) (JFin t)) = Inr r"
  by (simp add: matchPurchaseOrderLine_def validateMatchInput_def demo_match_def Let_def requireNonNegativeFinite_def nonneg_finite_def
      receiptsById_def check_allocation_def check_total_def allocatedByReceipt_def ownNumericValue_def validateThresholds_def looser_def)

lemma match_within_received_witness:
  "\<exists>r. matchPurchaseOrderLine (demo_match (JFin 2) (JFin 0)) = Inr r \<and> mx_allocations r \<noteq> []"
  using demo_match_ok[of 0 2] match_within_received[of "demo_match (JFin 2) (JFin 0)"] by auto

lemma exact_match_iff_equal_witness:
  "\<exists>r. matchPurchaseOrderLine (demo_match (JFin 2) (JFin 0)) = Inr r \<and> mx_disposition r = ExactMatch"
proof -
  obtain r where r: "matchPurchaseOrderLine (demo_match (JFin 2) (JFin 0)) = Inr r" using demo_match_ok[of 0 2] by auto
  have "exact_numbers (demo_match (JFin 2) (JFin 0))" by (simp add: exact_numbers_def demo_match_def jexact_def)
  from exact_match_iff_equal[OF r this] r show ?thesis
    by (auto simp: match_ok(4)[OF r]) (simp_all add: demo_match_def allocated_total_def)
qed

lemma match_severity_antimono_witness:
  "\<exists>r r'. matchPurchaseOrderLine (demo_match (JFin 3) (JFin 0)) = Inr r \<and>
     matchPurchaseOrderLine ((demo_match (JFin 3) (JFin 0))\<lparr>mt_policy := mt_policy (demo_match (JFin 3) (JFin 50))\<rparr>) = Inr r' \<and>
     severity (mx_disposition r') \<le> severity (mx_disposition r)"
proof -
  obtain r where r: "matchPurchaseOrderLine (demo_match (JFin 3) (JFin 0)) = Inr r" using demo_match_ok[of 0 3] by auto
  have d: "(demo_match (JFin 3) (JFin 0))\<lparr>mt_policy := mt_policy (demo_match (JFin 3) (JFin 50))\<rparr> = demo_match (JFin 3) (JFin 50)"
    by (simp add: demo_match_def)
  obtain r' where r': "matchPurchaseOrderLine (demo_match (JFin 3) (JFin 50)) = Inr r'" using demo_match_ok[of 50 3] by auto
  have "severity (mx_disposition r') \<le> severity (mx_disposition r) \<and> mx_variances r' = mx_variances r"
    by (rule match_severity_antimono[OF r, where p = "mt_policy (demo_match (JFin 3) (JFin 50))"])
       (use r' d in \<open>simp_all add: demo_match_def looser_def\<close>)
  then show ?thesis using r r' d by auto
qed

end
