(* ===== verification/DocumentJobs.thy ===== *)
theory DocumentJobs
  imports LeaseQueue Transactions JsNumber "HOL-Library.Product_Lexorder"
begin

text \<open>
  The queue of document-extraction jobs and the processing status of the attachments they belong to
  (\<open>enqueueDocumentJob\<close>, \<open>claimDocumentJobs\<close>, \<open>completeDocumentJob\<close>, \<open>failDocumentJob\<close> and the start-up
  backfill of \<open>packages/persistence/src/index.ts\<close>), for one tenant, with every other writer of the two tables: the
  uploads (\<open>requisitions.ts\<close>, \<open>procurement-routes.ts\<close> and the chat, intake and import routes, which insert the
  same pair of rows), the retry route of \<open>requisitions.ts\<close>, and what \<open>procurement-document-worker.ts\<close> writes
  beside its reports.  Random identifiers are arguments.  The public demonstration seeds an attachment that is
  parsed and has no job; its tenant is outside the model.
\<close>

subsection \<open>Data\<close>

datatype dj_status = DjQueued | DjProcessing | DjCompleted | DjFailed

record doc_job =
  dj_id :: ident
  dj_attachmentId :: ident
  dj_status :: dj_status
  dj_attempts :: nat
  dj_maxAttempts :: nat
  dj_availableAt :: instant
  dj_lockedAt :: "instant option"
  dj_lockToken :: "string option"
  dj_leaseExpiresAt :: "instant option"
  dj_error :: "string option"
  dj_result :: "json option"
  dj_createdAt :: instant
  dj_updatedAt :: instant
  dj_completedAt :: "instant option"

datatype processing = PNotQueued | PQueued | PProcessing | PParsed | PParseFailed | PNeedsOcr | PNeedsSpecialist

datatype security = SecPendingScan | SecClean | SecQuarantined | SecScanFailed

record attachment =
  at_id :: ident
  at_active :: bool
  at_createdAt :: instant
  at_security :: security
  at_scanError :: "string option"
  at_processing :: processing
  at_parseError :: "string option"
  at_parsedAt :: "instant option"
  at_detectedType :: "string option"
  at_preview :: "string option"

record dj_db =
  jd_jobs :: "doc_job list"
  jd_attachments :: "attachment list"

datatype dj_fault = DjInvalid string | DjUnique | DjLeaseConflict ident | DjHttp int string

type_synonym 'a dj_tx = "(dj_fault, 'a, dj_db) tx"

definition find_job :: "ident \<Rightarrow> dj_db \<Rightarrow> doc_job option" where
  "find_job i d = find (\<lambda>j. dj_id j = i) (jd_jobs d)"

definition put_jobs :: "(doc_job \<Rightarrow> bool) \<Rightarrow> (doc_job \<Rightarrow> doc_job) \<Rightarrow> dj_db \<Rightarrow> dj_db" where
  "put_jobs p f d = d\<lparr>jd_jobs := upd_where p f (jd_jobs d)\<rparr>"

definition put_attachment :: "ident \<Rightarrow> (attachment \<Rightarrow> attachment) \<Rightarrow> dj_db \<Rightarrow> dj_db" where
  "put_attachment a f d = d\<lparr>jd_attachments := upd_where (\<lambda>r. at_id r = a) f (jd_attachments d)\<rparr>"

subsection \<open>Operations\<close>

text \<open>A fresh row of the queue.\<close>
definition queued_job :: "ident \<Rightarrow> ident \<Rightarrow> nat \<Rightarrow> instant \<Rightarrow> doc_job" where
  "queued_job i a n t = \<lparr>dj_id = i, dj_attachmentId = a, dj_status = DjQueued, dj_attempts = 0, dj_maxAttempts = n,
     dj_availableAt = t, dj_lockedAt = None, dj_lockToken = None, dj_leaseExpiresAt = None, dj_error = None,
     dj_result = None, dj_createdAt = t, dj_updatedAt = t, dj_completedAt = None\<rparr>"

definition enqueueDocumentJob :: "ident \<Rightarrow> ident \<Rightarrow> int \<Rightarrow> instant \<Rightarrow> dj_db \<Rightarrow> doc_job dj_tx" where
  "enqueueDocumentJob i a maxAttempts t d =
    (if a = [] then (Inl (DjInvalid ''attachmentId''), d)
     else if maxAttempts < 1 then (Inl (DjInvalid ''maxAttempts''), d)
     else atomic d
       (if a \<notin> at_id ` set (jd_attachments d) then (Inl (DjInvalid ''attachment''), d)
        else (case find (\<lambda>j. dj_attachmentId j = a) (jd_jobs d) of
          Some j \<Rightarrow> (Inr j, d)
        | None \<Rightarrow>
            if i \<in> dj_id ` set (jd_jobs d) then (Inl DjUnique, d)
            else let j = queued_job i a (nat maxAttempts) t
                 in (Inr j, put_attachment a (\<lambda>r. r\<lparr>at_processing := PQueued, at_parseError := None\<rparr>)
                       (d\<lparr>jd_jobs := jd_jobs d @ [j]\<rparr>)))))"

definition listDocumentJobs :: "dj_status option \<Rightarrow> dj_db \<Rightarrow> doc_job list" where
  "listDocumentJobs st d = sort_key (\<lambda>j. (dj_createdAt j, dj_id j))
     (filter (\<lambda>j. st = None \<or> st = Some (dj_status j)) (jd_jobs d))"

definition dj_claimable :: "instant \<Rightarrow> doc_job \<Rightarrow> bool" where
  "dj_claimable t j \<longleftrightarrow> dj_attempts j < dj_maxAttempts j \<and>
     ((dj_status j = DjQueued \<and> dj_availableAt j \<le> t) \<or>
      (dj_status j = DjProcessing \<and> (case dj_leaseExpiresAt j of None \<Rightarrow> False | Some e \<Rightarrow> e \<le> t)))"

definition dj_lease :: "string \<Rightarrow> int \<Rightarrow> instant \<Rightarrow> doc_job \<Rightarrow> doc_job" where
  "dj_lease token leaseMs t j = j\<lparr>dj_status := DjProcessing, dj_attempts := dj_attempts j + 1, dj_lockedAt := Some t,
     dj_lockToken := Some token, dj_leaseExpiresAt := Some (t + leaseMs), dj_updatedAt := t, dj_error := None\<rparr>"

definition dj_candidates :: "int \<Rightarrow> instant \<Rightarrow> dj_db \<Rightarrow> doc_job list" where
  "dj_candidates limit t d = take (nat limit)
     (sort_key (\<lambda>j. (dj_availableAt j, dj_createdAt j, dj_id j)) (filter (dj_claimable t) (jd_jobs d)))"

text \<open>One candidate: the guarded update, then the attachment of the job.\<close>
definition dj_claim_one :: "int \<Rightarrow> instant \<Rightarrow> doc_job list \<times> dj_db \<Rightarrow> string \<times> ident \<Rightarrow> doc_job list \<times> dj_db" where
  "dj_claim_one leaseMs t acc c =
    (let p = (\<lambda>j. dj_id j = snd c \<and> dj_claimable t j);
         d1 = put_jobs p (dj_lease (''document-job-lease:'' @ fst c) leaseMs t) (snd acc)
     in if changes p (jd_jobs (snd acc)) \<noteq> 1 then (fst acc, d1)
        else case find_job (snd c) d1 of
          None \<Rightarrow> (fst acc, d1)
        | Some j \<Rightarrow> (fst acc @ [j], put_attachment (dj_attachmentId j) (\<lambda>r. r\<lparr>at_processing := PProcessing\<rparr>) d1))"

definition claimDocumentJobs ::
  "string \<Rightarrow> instant \<Rightarrow> int \<Rightarrow> int option \<Rightarrow> (nat \<Rightarrow> string) \<Rightarrow> dj_db \<Rightarrow> doc_job list dj_tx" where
  "claimDocumentJobs worker t leaseMs limit0 uuids d =
    (let limit = (case limit0 of None \<Rightarrow> 10 | Some n \<Rightarrow> n)
     in if worker = [] \<or> limit < 1 \<or> leaseMs \<le> 0 then (Inl (DjInvalid ''claim''), d)
        else let cs = map dj_id (dj_candidates limit t d);
                 r = foldl (dj_claim_one leaseMs t) ([], d) (zip (map uuids [0..<length cs]) cs)
             in (Inr (fst r), snd r))"

definition dj_holds :: "string \<Rightarrow> doc_job \<Rightarrow> bool" where
  "dj_holds token j \<longleftrightarrow> dj_status j = DjProcessing \<and> dj_lockToken j = Some token"

definition dj_done :: "json option \<Rightarrow> instant \<Rightarrow> doc_job \<Rightarrow> doc_job" where
  "dj_done result t j = j\<lparr>dj_status := DjCompleted, dj_result := result, dj_error := None,
     dj_completedAt := Some t, dj_updatedAt := t\<rparr>"

definition coalesce :: "'a option \<Rightarrow> 'a option \<Rightarrow> 'a option" where
  "coalesce a b = (case a of None \<Rightarrow> b | Some x \<Rightarrow> Some x)"

record dj_completion =
  jc_id :: ident
  jc_lockToken :: string
  jc_completedAt :: instant
  jc_result :: "json option"
  jc_detectedType :: "string option"
  jc_preview :: "string option"

definition completeDocumentJob :: "dj_completion \<Rightarrow> dj_db \<Rightarrow> doc_job dj_tx" where
  "completeDocumentJob c d = atomic d
    (case find_job (jc_id c) d of
       None \<Rightarrow> (Inl (DjInvalid ''job''), d)
     | Some j \<Rightarrow>
         if dj_status j = DjCompleted \<and> dj_lockToken j = Some (jc_lockToken c) then (Inr j, d)
         else if \<not> dj_holds (jc_lockToken c) j then (Inl (DjLeaseConflict (jc_id c)), d)
         else
           let d1 = put_attachment (dj_attachmentId j) (\<lambda>r. r\<lparr>at_processing := PParsed, at_parseError := None,
                      at_parsedAt := Some (jc_completedAt c), at_detectedType := coalesce (jc_detectedType c) (at_detectedType r),
                      at_preview := coalesce (jc_preview c) (at_preview r)\<rparr>)
                 (put_jobs (\<lambda>j. dj_id j = jc_id c \<and> dj_holds (jc_lockToken c) j) (dj_done (jc_result c) (jc_completedAt c)) d)
           in (case find_job (jc_id c) d1 of None \<Rightarrow> (Inl (DjInvalid ''job''), d1) | Some j \<Rightarrow> (Inr j, d1)))"

record dj_failure =
  jf_id :: ident
  jf_lockToken :: string
  jf_failedAt :: instant
  jf_error :: string
  jf_retry :: "bool option"
  jf_retryAt :: "instant option"

definition dj_retries :: "dj_failure \<Rightarrow> doc_job \<Rightarrow> bool" where
  "dj_retries f j \<longleftrightarrow> jf_retry f \<noteq> Some False \<and> dj_attempts j < dj_maxAttempts j"

definition dj_failed :: "dj_failure \<Rightarrow> doc_job \<Rightarrow> doc_job" where
  "dj_failed f j = j\<lparr>dj_status := (if dj_retries f j then DjQueued else DjFailed),
     dj_availableAt := (if dj_retries f j then (case jf_retryAt f of None \<Rightarrow> jf_failedAt f | Some a \<Rightarrow> a) else dj_availableAt j),
     dj_lockedAt := None, dj_lockToken := None, dj_leaseExpiresAt := None, dj_error := Some (jf_error f),
     dj_updatedAt := jf_failedAt f\<rparr>"

definition failDocumentJob :: "dj_failure \<Rightarrow> dj_db \<Rightarrow> doc_job dj_tx" where
  "failDocumentJob f d = atomic d
    (case find_job (jf_id f) d of
       None \<Rightarrow> (Inl (DjInvalid ''job''), d)
     | Some j \<Rightarrow>
         if \<not> dj_holds (jf_lockToken f) j then (Inl (DjLeaseConflict (jf_id f)), d)
         else
           let d1 = put_attachment (dj_attachmentId j) (\<lambda>r. r\<lparr>at_processing := (if dj_retries f j then PQueued else PParseFailed),
                      at_parseError := Some (jf_error f)\<rparr>)
                 (put_jobs (\<lambda>j. dj_id j = jf_id f \<and> dj_holds (jf_lockToken f) j) (dj_failed f) d)
           in (case find_job (jf_id f) d1 of None \<Rightarrow> (Inl (DjInvalid ''job''), d1) | Some j \<Rightarrow> (Inr j, d1)))"

text \<open>What the worker does with a parsed document: the completion and, when the parser wants another tool, its
  status over \<open>parsed\<close>.  The two writes follow each other without an \<open>await\<close>, in the process that also serves the
  routes, so nothing comes between them.\<close>
datatype parse_status = Parsed | NeedsOcr | NeedsSpecialist

definition processing_for :: "parse_status \<Rightarrow> processing" where
  "processing_for s = (case s of Parsed \<Rightarrow> PParsed | NeedsOcr \<Rightarrow> PNeedsOcr | NeedsSpecialist \<Rightarrow> PNeedsSpecialist)"

definition report_parsed :: "dj_completion \<Rightarrow> parse_status \<Rightarrow> dj_db \<Rightarrow> doc_job dj_tx" where
  "report_parsed c s d = (case completeDocumentJob c d of
     (Inl e, d') \<Rightarrow> (Inl e, d')
   | (Inr j, d') \<Rightarrow> (Inr j, if s = Parsed then d' else
       put_attachment (dj_attachmentId j) (\<lambda>r. r\<lparr>at_processing := processing_for s\<rparr>) d'))"

definition updateSecurity :: "ident \<Rightarrow> security \<Rightarrow> string \<Rightarrow> string option \<Rightarrow> dj_db \<Rightarrow> dj_db" where
  "updateSecurity a s detected err d =
     put_attachment a (\<lambda>r. r\<lparr>at_security := s, at_detectedType := Some detected, at_scanError := err\<rparr>) d"

text \<open>An upload: the attachment it supersedes (route evidence only), the new row and, unless the content was found
  unsafe (then with the reason), its job.\<close>
record dj_upload =
  du_id :: ident
  du_job :: ident
  du_supersedes :: "ident option"
  du_unsafe :: "string option"
  du_detectedType :: string
  du_preview :: "string option"
  du_at :: instant

definition uploaded :: "dj_upload \<Rightarrow> attachment" where
  "uploaded u = \<lparr>at_id = du_id u, at_active = True, at_createdAt = du_at u,
     at_security = (if du_unsafe u = None then SecPendingScan else SecQuarantined), at_scanError = du_unsafe u,
     at_processing = (if du_unsafe u = None then PQueued else PParseFailed), at_parseError = du_unsafe u,
     at_parsedAt = None, at_detectedType = Some (du_detectedType u), at_preview = du_preview u\<rparr>"

definition supersede :: "ident option \<Rightarrow> dj_db \<Rightarrow> dj_db" where
  "supersede p d = (case p of None \<Rightarrow> d | Some a \<Rightarrow> put_attachment a (\<lambda>r. r\<lparr>at_active := False\<rparr>) d)"

definition insert_job :: "doc_job \<Rightarrow> dj_db \<Rightarrow> unit dj_tx" where
  "insert_job j d = (if dj_id j \<in> dj_id ` set (jd_jobs d) \<or> dj_attachmentId j \<in> dj_attachmentId ` set (jd_jobs d)
     then (Inl DjUnique, d) else (Inr (), d\<lparr>jd_jobs := jd_jobs d @ [j]\<rparr>))"

definition uploadAttachment :: "dj_upload \<Rightarrow> dj_db \<Rightarrow> unit dj_tx" where
  "uploadAttachment u d = atomic d
    (let d1 = supersede (du_supersedes u) d
     in if du_id u \<in> at_id ` set (jd_attachments d1) then (Inl DjUnique, d1)
        else let d2 = d1\<lparr>jd_attachments := jd_attachments d1 @ [uploaded u]\<rparr>
          in if du_unsafe u = None then insert_job (queued_job (du_job u) (du_id u) 3 (du_at u)) d2 else (Inr (), d2))"

text \<open>\<open>POST\<close> of a retry: the job starts again whatever its status, and an attachment without a job gets one.\<close>
definition dj_reset :: "instant \<Rightarrow> doc_job \<Rightarrow> doc_job" where
  "dj_reset t j = j\<lparr>dj_status := DjQueued, dj_attempts := 0, dj_availableAt := t, dj_lockedAt := None, dj_lockToken := None,
     dj_leaseExpiresAt := None, dj_error := None, dj_result := None, dj_completedAt := None, dj_updatedAt := t\<rparr>"

definition retryAttachment :: "ident \<Rightarrow> ident \<Rightarrow> instant \<Rightarrow> dj_db \<Rightarrow> unit dj_tx" where
  "retryAttachment a i t d =
    (case find (\<lambda>r. at_id r = a \<and> at_active r) (jd_attachments d) of
       None \<Rightarrow> (Inl (DjHttp 404 ''ATTACHMENT_NOT_FOUND''), d)
     | Some r \<Rightarrow>
         if at_security r = SecQuarantined then (Inl (DjHttp 409 ''ATTACHMENT_QUARANTINED''), d)
         else atomic d (bind_tx
           (case find (\<lambda>j. dj_attachmentId j = a) (jd_jobs d) of
              Some j \<Rightarrow> (Inr (), put_jobs (\<lambda>x. dj_id x = dj_id j) (dj_reset t) d)
            | None \<Rightarrow> insert_job (queued_job i a 3 t) d)
           (\<lambda>_ d1. (Inr (), put_attachment a (\<lambda>r. r\<lparr>at_processing := PQueued, at_parseError := None, at_parsedAt := None\<rparr>) d1))))"

text \<open>The backfill when the database is opened: a job for every active attachment that was never queued
  (\<open>INSERT OR IGNORE\<close>), and the status of those that now have one.\<close>
definition backfillDocumentJobs :: "dj_db \<Rightarrow> dj_db" where
  "backfillDocumentJobs d =
    (let legacy = filter (\<lambda>r. at_active r \<and> at_processing r = PNotQueued) (jd_attachments d);
         d1 = foldl (\<lambda>d r. snd (insert_job (queued_job (''document-job:backfill:'' @ at_id r) (at_id r) 3 (at_createdAt r)) d)) d legacy
     in d1\<lparr>jd_attachments := upd_where (\<lambda>r. at_active r \<and> at_processing r = PNotQueued \<and>
          at_id r \<in> dj_attachmentId ` set (jd_jobs d1)) (\<lambda>r. r\<lparr>at_processing := PQueued\<rparr>) (jd_attachments d1)\<rparr>)"

subsection \<open>Jobs as rows under a lease\<close>

definition dj_holder :: "doc_job \<Rightarrow> string option" where
  "dj_holder j = (if dj_status j = DjProcessing then dj_lockToken j else None)"

definition dj_row_claim :: "string \<times> int \<Rightarrow> instant \<Rightarrow> doc_job \<Rightarrow> doc_job option" where
  "dj_row_claim c t j = (if dj_claimable t j then Some (dj_lease (fst c) (snd c) t j) else None)"

datatype dj_end = DjEndDone "json option" | DjEndFailed dj_failure

definition dj_row_finish :: "dj_end \<Rightarrow> instant \<Rightarrow> string \<Rightarrow> doc_job \<Rightarrow> doc_job option" where
  "dj_row_finish f t token j = (if dj_holds token j then Some (case f of
     DjEndDone result \<Rightarrow> dj_done result t j | DjEndFailed x \<Rightarrow> dj_failed x j) else None)"

interpretation dj_queue: lease_queue dj_holder dj_leaseExpiresAt dj_row_claim dj_row_finish
  "\<lambda>c t j. fst c" "\<lambda>c t. t + snd c"
  by unfold_locales
    (auto simp: dj_holder_def dj_row_claim_def dj_row_finish_def dj_claimable_def dj_lease_def dj_holds_def
      dj_done_def dj_failed_def split: if_splits option.splits dj_end.splits)

subsection \<open>The invariant\<close>

definition processing_of :: "dj_status \<Rightarrow> processing" where
  "processing_of s = (case s of DjQueued \<Rightarrow> PQueued | DjProcessing \<Rightarrow> PProcessing | DjCompleted \<Rightarrow> PParsed
     | DjFailed \<Rightarrow> PParseFailed)"

definition dj_ok :: "doc_job \<Rightarrow> bool" where
  "dj_ok j \<longleftrightarrow> dj_attempts j \<le> dj_maxAttempts j \<and> 1 \<le> dj_maxAttempts j \<and>
     (dj_status j = DjProcessing \<longrightarrow> 1 \<le> dj_attempts j \<and> dj_lockToken j \<noteq> None \<and> dj_leaseExpiresAt j \<noteq> None) \<and>
     (dj_status j = DjQueued \<longrightarrow> dj_attempts j < dj_maxAttempts j \<and> dj_lockToken j = None)"

text \<open>What an attachment shows: the status of its job, a completed one as parsed or as wanting another tool; without
  a job it was never queued or was refused when uploaded.\<close>
definition shows_job :: "doc_job option \<Rightarrow> processing \<Rightarrow> bool" where
  "shows_job jo p \<longleftrightarrow> (case jo of None \<Rightarrow> p = PNotQueued \<or> p = PParseFailed
     | Some j \<Rightarrow> if dj_status j = DjCompleted then p \<in> {PParsed, PNeedsOcr, PNeedsSpecialist} else p = processing_of (dj_status j))"

definition dj_inv :: "dj_db \<Rightarrow> bool" where
  "dj_inv d \<longleftrightarrow> distinct (map dj_id (jd_jobs d)) \<and> distinct (map dj_attachmentId (jd_jobs d)) \<and>
     distinct (map at_id (jd_attachments d)) \<and> list_all dj_ok (jd_jobs d) \<and>
     (\<forall>j\<in>set (jd_jobs d). dj_attachmentId j \<in> at_id ` set (jd_attachments d)) \<and>
     (\<forall>a\<in>set (jd_attachments d). shows_job (find (\<lambda>j. dj_attachmentId j = at_id a) (jd_jobs d)) (at_processing a))"

lemma shows_job_open: "dj_status j \<noteq> DjCompleted \<Longrightarrow> shows_job (Some j) p \<longleftrightarrow> p = processing_of (dj_status j)"
  by (simp add: shows_job_def)

text \<open>A change of one attachment that keeps what it shows.\<close>
lemma dj_inv_attachment:
  assumes inv: "dj_inv d" and g: "\<And>r. at_id (g r) = at_id r"
    and shown: "\<And>r. r \<in> set (jd_attachments d) \<Longrightarrow> at_id r = a \<Longrightarrow>
      shows_job (find (\<lambda>j. dj_attachmentId j = a) (jd_jobs d)) (at_processing (g r))"
  shows "dj_inv (put_attachment a g d)"
proof -
  have gkeep: "map at_id (upd_where (\<lambda>r. at_id r = a) g (jd_attachments d)) = map at_id (jd_attachments d)"
    by (rule map_upd_where) (rule g)
  then have ids: "at_id ` set (upd_where (\<lambda>r. at_id r = a) g (jd_attachments d)) = at_id ` set (jd_attachments d)"
    by (metis set_map)
  have "shows_job (find (\<lambda>j. dj_attachmentId j = at_id r) (jd_jobs d)) (at_processing r)"
    if "r \<in> set (upd_where (\<lambda>r. at_id r = a) g (jd_attachments d))" for r
    using that inv g shown by (auto simp: set_upd_where dj_inv_def)
  then show ?thesis using inv gkeep ids by (simp add: dj_inv_def put_attachment_def)
qed

text \<open>A change of one job together with the matching change of its attachment.\<close>
lemma dj_inv_change:
  assumes inv: "dj_inv d" and j: "find_job i d = Some j" and pj: "p j" and pi: "\<And>x. p x \<Longrightarrow> dj_id x = i"
    and keys: "\<And>x. dj_id (f x) = dj_id x" "\<And>x. dj_attachmentId (f x) = dj_attachmentId x" and ok: "dj_ok j \<Longrightarrow> dj_ok (f j)"
    and g: "\<And>r. at_id (g r) = at_id r" "\<And>r. shows_job (Some (f j)) (at_processing (g r))"
  shows "dj_inv (put_attachment (dj_attachmentId j) g (put_jobs p f d))"
proof -
  have jm: "j \<in> set (jd_jobs d)" "dj_id j = i" using j by (auto simp: find_job_def dest: find_Some_mem)
  have inj: "inj_on dj_id (set (jd_jobs d))" "inj_on dj_attachmentId (set (jd_jobs d))"
    using inv by (simp_all add: dj_inv_def distinct_map)
  have only: "x = j" if "x \<in> set (jd_jobs d)" "p x" for x
    using inj(1) jm that pi by (metis inj_onD)
  have keep: "map h (upd_where p f (jd_jobs d)) = map h (jd_jobs d)" if "\<And>x. h (f x) = h x" for h :: "doc_job \<Rightarrow> ident"
    by (rule map_upd_where) (rule that)
  have gkeep: "map at_id (upd_where (\<lambda>r. at_id r = dj_attachmentId j) g (jd_attachments d)) = map at_id (jd_attachments d)"
    by (rule map_upd_where) (rule g(1))
  have mem: "x \<in> set (upd_where p f (jd_jobs d)) \<Longrightarrow> x = f j \<or> (x \<in> set (jd_jobs d) \<and> x \<noteq> j)" for x
    using only pj by (auto simp: set_upd_where)
  have look: "find (\<lambda>x. dj_attachmentId x = a) (upd_where p f (jd_jobs d)) =
      map_option (\<lambda>x. if p x then f x else x) (find (\<lambda>x. dj_attachmentId x = a) (jd_jobs d))" for a
    by (rule find_upd_where) (simp add: keys)
  have own: "find (\<lambda>x. dj_attachmentId x = dj_attachmentId j) (jd_jobs d) = Some j"
    using find_distinct_key[of dj_attachmentId "jd_jobs d" j] inv jm(1) by (simp add: dj_inv_def)
  have other: "find (\<lambda>x. dj_attachmentId x = a) (jd_jobs d) = Some x \<Longrightarrow> a \<noteq> dj_attachmentId j \<Longrightarrow> \<not> p x" for a x
    using only by (auto dest: find_Some_mem)
  have att: "shows_job (find (\<lambda>x. dj_attachmentId x = at_id r) (upd_where p f (jd_jobs d))) (at_processing r)"
    if r: "r \<in> set (upd_where (\<lambda>r. at_id r = dj_attachmentId j) g (jd_attachments d))" for r
  proof (cases "at_id r = dj_attachmentId j")
    case True
    then have "\<exists>r0. r = g r0" using r g(1) by (auto simp: set_upd_where)
    then show ?thesis using True look[of "dj_attachmentId j"] own pj g(2) by auto
  next
    case False
    then have "r \<in> set (jd_attachments d)" using r g(1) by (auto simp: set_upd_where)
    then have "shows_job (find (\<lambda>x. dj_attachmentId x = at_id r) (jd_jobs d)) (at_processing r)"
      using inv by (simp add: dj_inv_def)
    moreover have "find (\<lambda>x. dj_attachmentId x = at_id r) (upd_where p f (jd_jobs d)) =
        find (\<lambda>x. dj_attachmentId x = at_id r) (jd_jobs d)"
      using False other look[of "at_id r"] by (cases "find (\<lambda>x. dj_attachmentId x = at_id r) (jd_jobs d)") auto
    ultimately show ?thesis by simp
  qed
  have ids: "at_id ` set (upd_where (\<lambda>r. at_id r = dj_attachmentId j) g (jd_attachments d)) = at_id ` set (jd_attachments d)"
    using gkeep by (metis set_map)
  show ?thesis
    using inv keep[of dj_id] keep[of dj_attachmentId] keys gkeep att ids jm(1) ok
    by (auto simp: dj_inv_def put_attachment_def put_jobs_def list_all_iff dest!: mem)
qed

lemma find_job_put: "(\<And>x. dj_id (f x) = dj_id x) \<Longrightarrow>
    find_job i (put_jobs p f d) = map_option (\<lambda>x. if p x then f x else x) (find_job i d)"
  by (simp add: find_job_def put_jobs_def find_upd_where)

lemma find_job_attachment [simp]: "find_job i (put_attachment a g d) = find_job i d"
  by (simp add: find_job_def put_attachment_def)

lemma find_job_id: "find_job i d = Some j \<Longrightarrow> dj_id j = i \<and> j \<in> set (jd_jobs d)"
  by (auto simp: find_job_def dest: find_Some_mem)

lemma row_ids [simp]: "dj_id (dj_lease k l t j) = dj_id j" "dj_id (dj_done r t j) = dj_id j" "dj_id (dj_failed f j) = dj_id j"
  "dj_attachmentId (dj_lease k l t j) = dj_attachmentId j" "dj_attachmentId (dj_done r t j) = dj_attachmentId j"
  "dj_attachmentId (dj_failed f j) = dj_attachmentId j"
  by (simp_all add: dj_lease_def dj_done_def dj_failed_def)

lemma row_status [simp]: "dj_status (dj_lease k l t j) = DjProcessing" "dj_status (dj_done r t j) = DjCompleted"
  "dj_status (dj_failed f j) = (if dj_retries f j then DjQueued else DjFailed)"
  by (simp_all add: dj_lease_def dj_done_def dj_failed_def)

lemma dj_ok_lease: "dj_ok j \<Longrightarrow> dj_claimable t j \<Longrightarrow> dj_ok (dj_lease k l t j)"
  by (auto simp: dj_ok_def dj_claimable_def dj_lease_def)

lemma dj_ok_done: "dj_ok j \<Longrightarrow> dj_ok (dj_done r t j)"
  by (simp add: dj_ok_def dj_done_def)

lemma dj_ok_failed: "dj_ok j \<Longrightarrow> dj_ok (dj_failed f j)"
  by (auto simp: dj_ok_def dj_failed_def dj_retries_def)

text \<open>What one candidate of a claim does to the job it names.\<close>
lemma dj_claim_one_eq:
  assumes inv: "dj_inv (snd acc)"
  shows "dj_claim_one l t acc c = (case find_job (snd c) (snd acc) of
      Some j \<Rightarrow> if dj_claimable t j then
          (fst acc @ [dj_lease (''document-job-lease:'' @ fst c) l t j],
           put_attachment (dj_attachmentId j) (\<lambda>r. r\<lparr>at_processing := PProcessing\<rparr>)
             (put_jobs (\<lambda>x. dj_id x = snd c \<and> dj_claimable t x) (dj_lease (''document-job-lease:'' @ fst c) l t) (snd acc)))
        else acc
    | None \<Rightarrow> acc)"
proof -
  let ?p = "\<lambda>x. dj_id x = snd c \<and> dj_claimable t x"
  have d: "distinct (map dj_id (jd_jobs (snd acc)))" using inv by (simp add: dj_inv_def)
  have none: "put_jobs ?p f (snd acc) = snd acc" if "changes ?p (jd_jobs (snd acc)) = 0" for f
    using upd_where_none[OF that] by (simp add: put_jobs_def)
  show ?thesis
  proof (cases "find_job (snd c) (snd acc)")
    case None
    then have "changes ?p (jd_jobs (snd acc)) = 0"
      by (intro changes_key_none[where key = dj_id and k = "snd c"]) (auto simp: find_job_def)
    then show ?thesis using None none by (simp add: dj_claim_one_def Let_def)
  next
    case (Some j)
    have ch: "changes ?p (jd_jobs (snd acc)) = (if ?p j then 1 else 0)"
      using d Some by (intro changes_key[where key = dj_id and k = "snd c"]) (auto simp: find_job_def)
    have "find_job (snd c) (put_jobs ?p (dj_lease (''document-job-lease:'' @ fst c) l t) (snd acc)) =
        Some (if ?p j then dj_lease (''document-job-lease:'' @ fst c) l t j else j)"
      using Some by (subst find_job_put) simp_all
    then show ?thesis using Some ch none find_job_id[OF Some] by (simp add: dj_claim_one_def Let_def)
  qed
qed

lemma dj_claim_one_inv:
  assumes inv: "dj_inv (snd acc)"
  shows "dj_inv (snd (dj_claim_one l t acc c))"
proof (cases "find_job (snd c) (snd acc)")
  case (Some j)
  show ?thesis
  proof (cases "dj_claimable t j")
    case True
    let ?d = "put_attachment (dj_attachmentId j) (\<lambda>r. r\<lparr>at_processing := PProcessing\<rparr>)
      (put_jobs (\<lambda>x. dj_id x = snd c \<and> dj_claimable t x) (dj_lease (''document-job-lease:'' @ fst c) l t) (snd acc))"
    have "dj_inv ?d"
      using find_job_id[OF Some] True dj_ok_lease[OF _ True]
      by (intro dj_inv_change[OF inv Some]) (simp_all add: processing_of_def shows_job_def)
    then show ?thesis using Some True by (simp add: dj_claim_one_eq[OF inv])
  qed (use Some inv dj_claim_one_eq[OF inv] in simp)
qed (use inv dj_claim_one_eq[OF inv] in simp)

lemma dj_claims_inv: "dj_inv (snd acc) \<Longrightarrow> dj_inv (snd (foldl (dj_claim_one l t) acc cs))"
  by (induction cs arbitrary: acc) (simp_all add: dj_claim_one_inv)

lemma claim_inv: "dj_inv d \<Longrightarrow> dj_inv (snd (claimDocumentJobs w t l n us d))"
  using dj_claims_inv[of "([], d)"] by (simp add: claimDocumentJobs_def Let_def)

lemma complete_inv:
  assumes inv: "dj_inv d"
  shows "dj_inv (snd (completeDocumentJob c d))"
  unfolding completeDocumentJob_def
proof (rule atomic_store[where P = dj_inv, OF inv])
  fix a d'
  assume ok: "(case find_job (jc_id c) d of None \<Rightarrow> (Inl (DjInvalid ''job''), d) | Some j \<Rightarrow>
      if dj_status j = DjCompleted \<and> dj_lockToken j = Some (jc_lockToken c) then (Inr j, d)
      else if \<not> dj_holds (jc_lockToken c) j then (Inl (DjLeaseConflict (jc_id c)), d)
      else let d1 = put_attachment (dj_attachmentId j) (\<lambda>r. r\<lparr>at_processing := PParsed, at_parseError := None,
                 at_parsedAt := Some (jc_completedAt c), at_detectedType := coalesce (jc_detectedType c) (at_detectedType r),
                 at_preview := coalesce (jc_preview c) (at_preview r)\<rparr>)
               (put_jobs (\<lambda>j. dj_id j = jc_id c \<and> dj_holds (jc_lockToken c) j) (dj_done (jc_result c) (jc_completedAt c)) d)
        in (case find_job (jc_id c) d1 of None \<Rightarrow> (Inl (DjInvalid ''job''), d1) | Some j \<Rightarrow> (Inr j, d1))) = (Inr a, d')"
  then obtain j where j: "find_job (jc_id c) d = Some j" by (auto split: option.splits)
  show "dj_inv d'"
  proof (cases "dj_holds (jc_lockToken c) j")
    case True
    then have "d' = put_attachment (dj_attachmentId j) (\<lambda>r. r\<lparr>at_processing := PParsed, at_parseError := None,
                 at_parsedAt := Some (jc_completedAt c), at_detectedType := coalesce (jc_detectedType c) (at_detectedType r),
                 at_preview := coalesce (jc_preview c) (at_preview r)\<rparr>)
               (put_jobs (\<lambda>j. dj_id j = jc_id c \<and> dj_holds (jc_lockToken c) j) (dj_done (jc_result c) (jc_completedAt c)) d)"
      using ok j by (auto simp: Let_def dj_holds_def split: option.splits)
    then show ?thesis using find_job_id[OF j] True dj_ok_done
      by (simp only:) (intro dj_inv_change[OF inv j], simp_all add: processing_of_def shows_job_def)
  next
    case False
    then show ?thesis using ok j inv by (auto split: if_splits)
  qed
qed

lemma fail_inv:
  assumes inv: "dj_inv d"
  shows "dj_inv (snd (failDocumentJob f d))"
  unfolding failDocumentJob_def
proof (rule atomic_store[where P = dj_inv, OF inv])
  fix a d'
  assume ok: "(case find_job (jf_id f) d of None \<Rightarrow> (Inl (DjInvalid ''job''), d) | Some j \<Rightarrow>
      if \<not> dj_holds (jf_lockToken f) j then (Inl (DjLeaseConflict (jf_id f)), d)
      else let d1 = put_attachment (dj_attachmentId j) (\<lambda>r. r\<lparr>at_processing := (if dj_retries f j then PQueued else PParseFailed),
                 at_parseError := Some (jf_error f)\<rparr>)
               (put_jobs (\<lambda>j. dj_id j = jf_id f \<and> dj_holds (jf_lockToken f) j) (dj_failed f) d)
        in (case find_job (jf_id f) d1 of None \<Rightarrow> (Inl (DjInvalid ''job''), d1) | Some j \<Rightarrow> (Inr j, d1))) = (Inr a, d')"
  then obtain j where j: "find_job (jf_id f) d = Some j" and h: "dj_holds (jf_lockToken f) j"
    by (auto split: option.splits if_splits)
  then have "d' = put_attachment (dj_attachmentId j) (\<lambda>r. r\<lparr>at_processing := (if dj_retries f j then PQueued else PParseFailed),
                 at_parseError := Some (jf_error f)\<rparr>)
               (put_jobs (\<lambda>j. dj_id j = jf_id f \<and> dj_holds (jf_lockToken f) j) (dj_failed f) d)"
    using ok by (auto simp: Let_def split: option.splits)
  then show "dj_inv d'" using find_job_id[OF j] h dj_ok_failed
    by (simp only:) (intro dj_inv_change[OF inv j], simp_all add: processing_of_def shows_job_def)
qed

lemma enqueue_new_inv:
  assumes inv: "dj_inv d" and a: "a \<in> at_id ` set (jd_attachments d)" and none: "find (\<lambda>j. dj_attachmentId j = a) (jd_jobs d) = None"
    and i: "i \<notin> dj_id ` set (jd_jobs d)" and j: "dj_id j = i" "dj_attachmentId j = a" "dj_status j = DjQueued" "dj_ok j"
    and g: "\<And>r. at_id (g r) = at_id r" "\<And>r. at_processing (g r) = PQueued"
  shows "dj_inv (put_attachment a g (d\<lparr>jd_jobs := jd_jobs d @ [j]\<rparr>))"
proof -
  have fresh: "a \<notin> dj_attachmentId ` set (jd_jobs d)" using none by (auto simp: find_None_iff)
  have app: "find P (xs @ [j]) = (case find P xs of None \<Rightarrow> if P j then Some j else None | Some x \<Rightarrow> Some x)"
    for P and xs :: "doc_job list" by (induction xs) auto
  have gkeep: "map at_id (upd_where (\<lambda>r. at_id r = a) g (jd_attachments d)) = map at_id (jd_attachments d)"
    by (rule map_upd_where) (rule g(1))
  then have ids: "at_id ` set (upd_where (\<lambda>r. at_id r = a) g (jd_attachments d)) = at_id ` set (jd_attachments d)"
    by (metis set_map)
  have att: "shows_job (find (\<lambda>x. dj_attachmentId x = at_id r) (jd_jobs d @ [j])) (at_processing r)"
    if r: "r \<in> set (upd_where (\<lambda>r. at_id r = a) g (jd_attachments d))" for r
  proof (cases "at_id r = a")
    case True
    then have "at_processing r = PQueued" using r g by (auto simp: set_upd_where)
    then show ?thesis using True none j by (simp add: app shows_job_def processing_of_def)
  next
    case False
    then have "r \<in> set (jd_attachments d)" using r g(1) by (auto simp: set_upd_where)
    then show ?thesis using inv False j by (auto simp: dj_inv_def app split: option.splits)
  qed
  show ?thesis using inv a i j fresh gkeep ids att by (auto simp: dj_inv_def put_attachment_def)
qed

lemma enqueue_inv:
  assumes inv: "dj_inv d"
  shows "dj_inv (snd (enqueueDocumentJob i a n t d))"
proof (cases "a = [] \<or> n < 1 \<or> a \<notin> at_id ` set (jd_attachments d) \<or> find (\<lambda>j. dj_attachmentId j = a) (jd_jobs d) \<noteq> None \<or>
    i \<in> dj_id ` set (jd_jobs d)")
  case True
  then show ?thesis using inv by (auto simp: enqueueDocumentJob_def split: option.split)
next
  case False
  then show ?thesis
    by (simp add: enqueueDocumentJob_def Let_def, intro enqueue_new_inv[OF inv]) (auto simp: dj_ok_def queued_job_def)
qed

lemma report_parsed_inv:
  assumes inv: "dj_inv d"
  shows "dj_inv (snd (report_parsed c s d))"
proof (cases "completeDocumentJob c d")
  case (Pair r d')
  have inv': "dj_inv d'" using complete_inv[OF inv, of c] Pair by simp
  show ?thesis
  proof (cases r)
    case (Inr j)
    have "j \<in> set (jd_jobs d') \<and> dj_status j = DjCompleted"
      using Pair Inr find_job_id[of "jc_id c" d'] find_job_id[of "jc_id c" d]
      by (auto simp: completeDocumentJob_def atomic_def Let_def find_job_put dj_holds_def split: option.splits if_splits)
    then have "find (\<lambda>x. dj_attachmentId x = dj_attachmentId j) (jd_jobs d') = Some j \<and> dj_status j = DjCompleted"
      using find_distinct_key[of dj_attachmentId "jd_jobs d'" j] inv' by (simp add: dj_inv_def)
    then show ?thesis using Pair Inr inv'
      by (auto simp: report_parsed_def intro!: dj_inv_attachment)
        (cases s; simp add: shows_job_def processing_for_def)
  qed (simp add: report_parsed_def Pair inv')
qed

lemma updateSecurity_inv: "dj_inv d \<Longrightarrow> dj_inv (updateSecurity a s t e d)"
  unfolding updateSecurity_def by (rule dj_inv_attachment) (auto simp: dj_inv_def)

lemma supersede_inv: "dj_inv d \<Longrightarrow> dj_inv (supersede p d)"
  unfolding supersede_def by (cases p) (auto simp: dj_inv_def[of d] intro!: dj_inv_attachment)

lemma insert_job_ok: "insert_job j d = (Inr (), d') \<longleftrightarrow> dj_id j \<notin> dj_id ` set (jd_jobs d) \<and>
    dj_attachmentId j \<notin> dj_attachmentId ` set (jd_jobs d) \<and> d' = d\<lparr>jd_jobs := jd_jobs d @ [j]\<rparr>"
  by (auto simp: insert_job_def)

lemma find_key_None: "k \<notin> key ` set xs \<Longrightarrow> find (\<lambda>x. key x = k) xs = None"
  by (induction xs) auto

lemma find_key_mem: "find (\<lambda>x. key x = k) xs = Some x \<Longrightarrow> k \<in> key ` set xs"
  by (induction xs) (auto split: if_splits)

lemma new_attachment_inv:
  assumes inv: "dj_inv d" and a: "at_id r \<notin> at_id ` set (jd_attachments d)"
    and js: "js = [] \<or> (\<exists>j. js = [j] \<and> dj_attachmentId j = at_id r \<and> dj_id j \<notin> dj_id ` set (jd_jobs d) \<and> dj_ok j)"
    and shown: "shows_job (find (\<lambda>_. True) js) (at_processing r)"
  shows "dj_inv (d\<lparr>jd_jobs := jd_jobs d @ js, jd_attachments := jd_attachments d @ [r]\<rparr>)"
proof -
  have fresh: "at_id r \<notin> dj_attachmentId ` set (jd_jobs d)" using inv a by (auto simp: dj_inv_def)
  then have none: "find (\<lambda>j. dj_attachmentId j = at_id r) (jd_jobs d) = None" by (rule find_key_None)
  have new: "shows_job (find (\<lambda>j. dj_attachmentId j = at_id r) (jd_jobs d @ js)) (at_processing r)"
    using js shown by (auto simp: find_append none)
  have old: "shows_job (find (\<lambda>j. dj_attachmentId j = at_id x) (jd_jobs d @ js)) (at_processing x)"
    if "x \<in> set (jd_attachments d)" for x
  proof -
    have ne: "at_id x \<noteq> at_id r" using that a by (metis image_eqI)
    have "find (\<lambda>j. dj_attachmentId j = at_id x) js = None" using js ne by auto
    then have "find (\<lambda>j. dj_attachmentId j = at_id x) (jd_jobs d @ js) = find (\<lambda>j. dj_attachmentId j = at_id x) (jd_jobs d)"
      by (simp add: find_append split: option.split)
    then show ?thesis using inv that by (simp add: dj_inv_def)
  qed
  have i: "distinct (map dj_id (jd_jobs d))" "distinct (map dj_attachmentId (jd_jobs d))"
      "distinct (map at_id (jd_attachments d))" "list_all dj_ok (jd_jobs d)"
      "\<forall>j\<in>set (jd_jobs d). dj_attachmentId j \<in> at_id ` set (jd_attachments d)"
    using inv by (simp_all add: dj_inv_def)
  have atts: "\<forall>x\<in>set (jd_attachments d @ [r]). shows_job (find (\<lambda>j. dj_attachmentId j = at_id x) (jd_jobs d @ js)) (at_processing x)"
    using new old by simp
  from js show ?thesis
  proof
    assume "js = []"
    then show ?thesis using i a atts by (simp add: dj_inv_def)
  next
    assume "\<exists>j. js = [j] \<and> dj_attachmentId j = at_id r \<and> dj_id j \<notin> dj_id ` set (jd_jobs d) \<and> dj_ok j"
    then obtain j where "js = [j]" "dj_attachmentId j = at_id r" "dj_id j \<notin> dj_id ` set (jd_jobs d)" "dj_ok j" by blast
    then show ?thesis using i a fresh atts by (simp add: dj_inv_def)
  qed
qed

lemma queued_job_ok [simp]: "1 \<le> n \<Longrightarrow> dj_ok (queued_job i a n t)" "dj_id (queued_job i a n t) = i"
  "dj_attachmentId (queued_job i a n t) = a" "dj_status (queued_job i a n t) = DjQueued"
  by (simp_all add: queued_job_def dj_ok_def)

lemma upload_inv:
  assumes inv: "dj_inv d"
  shows "dj_inv (snd (uploadAttachment u d))"
  unfolding uploadAttachment_def Let_def
proof (rule atomic_store[where P = dj_inv, OF inv])
  let ?d = "supersede (du_supersedes u) d"
  fix x d'
  assume ok: "(if du_id u \<in> at_id ` set (jd_attachments ?d) then (Inl DjUnique, ?d)
      else if du_unsafe u = None
        then insert_job (queued_job (du_job u) (du_id u) 3 (du_at u)) (?d\<lparr>jd_attachments := jd_attachments ?d @ [uploaded u]\<rparr>)
        else (Inr (), ?d\<lparr>jd_attachments := jd_attachments ?d @ [uploaded u]\<rparr>)) = (Inr x, d')"
  have new: "at_id (uploaded u) \<notin> at_id ` set (jd_attachments ?d)" using ok by (auto simp: uploaded_def split: if_splits)
  show "dj_inv d'"
  proof (cases "du_unsafe u = None")
    case True
    let ?j = "queued_job (du_job u) (du_id u) 3 (du_at u)"
    have "dj_id ?j \<notin> dj_id ` set (jd_jobs ?d)" and d': "d' = ?d\<lparr>jd_jobs := jd_jobs ?d @ [?j], jd_attachments := jd_attachments ?d @ [uploaded u]\<rparr>"
      using ok True by (auto simp: insert_job_ok split: if_splits)
    then show ?thesis using True
      by (simp only: d') (intro new_attachment_inv supersede_inv inv new, auto simp: uploaded_def shows_job_def processing_of_def)
  next
    case False
    have d': "d' = ?d\<lparr>jd_jobs := jd_jobs ?d @ [], jd_attachments := jd_attachments ?d @ [uploaded u]\<rparr>"
      using ok False by (auto split: if_splits)
    show ?thesis using False
      by (simp only: d') (intro new_attachment_inv supersede_inv inv new, auto simp: uploaded_def shows_job_def)
  qed
qed

lemma reset_row [simp]: "dj_id (dj_reset t j) = dj_id j" "dj_attachmentId (dj_reset t j) = dj_attachmentId j"
  "dj_status (dj_reset t j) = DjQueued" "dj_ok j \<Longrightarrow> dj_ok (dj_reset t j)"
  by (auto simp: dj_reset_def dj_ok_def)

lemma retry_inv:
  assumes inv: "dj_inv d"
  shows "dj_inv (snd (retryAttachment a i t d))"
proof (cases "find (\<lambda>r. at_id r = a \<and> at_active r) (jd_attachments d)")
  case (Some r)
  then have r: "r \<in> set (jd_attachments d)" "at_id r = a" by (auto dest: find_Some_mem)
  let ?g = "\<lambda>r. r\<lparr>at_processing := PQueued, at_parseError := None, at_parsedAt := None\<rparr>"
  show ?thesis
  proof (cases "find (\<lambda>j. dj_attachmentId j = a) (jd_jobs d)")
    case None
    have "dj_inv (put_attachment a ?g (d\<lparr>jd_jobs := jd_jobs d @ [queued_job i a 3 t]\<rparr>))" if "i \<notin> dj_id ` set (jd_jobs d)"
      using r that by (intro enqueue_new_inv[OF inv _ None]) auto
    then show ?thesis using Some None inv by (auto simp: retryAttachment_def insert_job_def atomic_def)
  next
    case (Some j)
    have j: "find_job (dj_id j) d = Some j" "dj_attachmentId j = a"
      using find_distinct_key[of dj_id "jd_jobs d" j] inv Some by (auto simp: find_job_def dj_inv_def dest: find_Some_mem)
    have "dj_inv (put_attachment (dj_attachmentId j) ?g (put_jobs (\<lambda>x. dj_id x = dj_id j) (dj_reset t) d))"
      by (rule dj_inv_change[OF inv j(1)]) (simp_all add: shows_job_def processing_of_def)
    then show ?thesis using \<open>find (\<lambda>r. at_id r = a \<and> at_active r) (jd_attachments d) = Some r\<close> Some j(2) inv
      by (simp add: retryAttachment_def)
  qed
qed (simp add: retryAttachment_def inv)

text \<open>Between the two statements of the backfill an attachment that was never queued may have a fresh job.\<close>
definition awaits_status :: "dj_db \<Rightarrow> attachment \<Rightarrow> bool" where
  "awaits_status d r \<longleftrightarrow> at_active r \<and> at_processing r = PNotQueued \<and>
     map_option dj_status (find (\<lambda>j. dj_attachmentId j = at_id r) (jd_jobs d)) = Some DjQueued"

definition dj_weak :: "dj_db \<Rightarrow> bool" where
  "dj_weak d \<longleftrightarrow> distinct (map dj_id (jd_jobs d)) \<and> distinct (map dj_attachmentId (jd_jobs d)) \<and>
     distinct (map at_id (jd_attachments d)) \<and> list_all dj_ok (jd_jobs d) \<and>
     (\<forall>j\<in>set (jd_jobs d). dj_attachmentId j \<in> at_id ` set (jd_attachments d)) \<and>
     (\<forall>r\<in>set (jd_attachments d). shows_job (find (\<lambda>j. dj_attachmentId j = at_id r) (jd_jobs d)) (at_processing r) \<or> awaits_status d r)"

lemma backfill_one:
  assumes weak: "dj_weak d" and r: "r \<in> set (jd_attachments d)" "at_active r" "at_processing r = PNotQueued"
  shows "dj_weak (snd (insert_job (queued_job i (at_id r) 3 t) d))"
proof (cases "i \<in> dj_id ` set (jd_jobs d) \<or> at_id r \<in> dj_attachmentId ` set (jd_jobs d)")
  case True
  then show ?thesis using weak by (auto simp: insert_job_def)
next
  case False
  let ?d = "d\<lparr>jd_jobs := jd_jobs d @ [queued_job i (at_id r) 3 t]\<rparr>"
  have none: "find (\<lambda>j. dj_attachmentId j = at_id r) (jd_jobs d) = None" using False by (intro find_key_None) blast
  have inj: "x = r" if "x \<in> set (jd_attachments d)" "at_id x = at_id r" for x
    using weak r(1) that by (auto simp: dj_weak_def distinct_map inj_on_def)
  have "shows_job (find (\<lambda>j. dj_attachmentId j = at_id x) (jd_jobs ?d)) (at_processing x) \<or> awaits_status ?d x"
    if x: "x \<in> set (jd_attachments d)" for x
  proof (cases "at_id x = at_id r")
    case True
    then show ?thesis using inj[OF x] r none by (simp add: awaits_status_def find_append)
  next
    case False
    then have "find (\<lambda>j. dj_attachmentId j = at_id x) (jd_jobs ?d) = find (\<lambda>j. dj_attachmentId j = at_id x) (jd_jobs d)"
      by (auto simp: find_append split: option.split)
    then show ?thesis using weak x unfolding dj_weak_def awaits_status_def by metis
  qed
  then show ?thesis using False weak r(1) by (auto simp: insert_job_def dj_weak_def)
qed

lemma backfill_jobs:
  "dj_weak d \<Longrightarrow> \<forall>r\<in>set rs. r \<in> set (jd_attachments d) \<and> at_active r \<and> at_processing r = PNotQueued \<Longrightarrow>
    dj_weak (foldl (\<lambda>d r. snd (insert_job (queued_job (''document-job:backfill:'' @ at_id r) (at_id r) 3 (at_createdAt r)) d)) d rs)"
proof (induction rs arbitrary: d)
  case (Cons r rs)
  have keep: "jd_attachments (snd (insert_job j d)) = jd_attachments d" for j d by (simp add: insert_job_def)
  show ?case using Cons backfill_one[of d r] by (simp add: keep)
qed simp

lemma weak_shows:
  assumes weak: "dj_weak d" and x: "x \<in> set (jd_attachments d)"
  shows "shows_job (find (\<lambda>j. dj_attachmentId j = at_id x) (jd_jobs d))
    (if at_active x \<and> at_processing x = PNotQueued \<and> at_id x \<in> dj_attachmentId ` set (jd_jobs d) then PQueued else at_processing x)"
proof (cases "find (\<lambda>j. dj_attachmentId j = at_id x) (jd_jobs d)")
  case None
  then have "at_id x \<notin> dj_attachmentId ` set (jd_jobs d)" by (auto simp: find_None_iff)
  then show ?thesis using None weak x unfolding dj_weak_def awaits_status_def by auto
next
  case (Some j)
  then have m: "at_id x \<in> dj_attachmentId ` set (jd_jobs d)" by (rule find_key_mem)
  show ?thesis
  proof (cases "awaits_status d x")
    case True
    then show ?thesis using Some m by (auto simp: awaits_status_def shows_job_def processing_of_def)
  next
    case False
    then have s: "shows_job (Some j) (at_processing x)" using weak x Some unfolding dj_weak_def by metis
    then have "at_processing x \<noteq> PNotQueued" by (cases "dj_status j") (auto simp: shows_job_def processing_of_def)
    then show ?thesis using Some s by simp
  qed
qed

lemma weak_settled:
  assumes weak: "dj_weak d"
  shows "dj_inv (d\<lparr>jd_attachments := upd_where (\<lambda>r. at_active r \<and> at_processing r = PNotQueued \<and>
    at_id r \<in> dj_attachmentId ` set (jd_jobs d)) (\<lambda>r. r\<lparr>at_processing := PQueued\<rparr>) (jd_attachments d)\<rparr>)"
    (is "dj_inv (d\<lparr>jd_attachments := ?rs\<rparr>)")
proof -
  have keep: "map at_id ?rs = map at_id (jd_attachments d)" by (rule map_upd_where) simp
  then have ids: "at_id ` set ?rs = at_id ` set (jd_attachments d)" by (metis set_map)
  have all: "shows_job (find (\<lambda>j. dj_attachmentId j = at_id r) (jd_jobs d)) (at_processing r)" if "r \<in> set ?rs" for r
  proof -
    from that obtain x where x: "x \<in> set (jd_attachments d)" "at_id r = at_id x" "at_processing r =
        (if at_active x \<and> at_processing x = PNotQueued \<and> at_id x \<in> dj_attachmentId ` set (jd_jobs d) then PQueued else at_processing x)"
      by (auto simp: set_upd_where)
    then show ?thesis using weak_shows[OF weak x(1)] by (simp only: x(2,3))
  qed
  show ?thesis using weak unfolding dj_weak_def
    by (simp add: dj_inv_def keep ids all del: set_upd_where)
qed

lemma backfill_inv: "dj_inv d \<Longrightarrow> dj_inv (backfillDocumentJobs d)"
  unfolding backfillDocumentJobs_def Let_def
  by (rule weak_settled, rule backfill_jobs) (auto simp: dj_weak_def dj_inv_def)

subsection \<open>Runs of the queue\<close>

datatype dj_op = DjOpEnqueue ident ident int instant | DjOpClaim string instant int "int option" "nat \<Rightarrow> string"
  | DjOpComplete dj_completion parse_status | DjOpFail dj_failure | DjOpUpload dj_upload | DjOpRetry ident ident instant
  | DjOpSecurity ident security string "string option" | DjOpBackfill

fun dj_exec :: "dj_op \<Rightarrow> dj_db \<Rightarrow> dj_db" where
  "dj_exec (DjOpEnqueue i a n t) d = snd (enqueueDocumentJob i a n t d)"
| "dj_exec (DjOpClaim w t l n us) d = snd (claimDocumentJobs w t l n us d)"
| "dj_exec (DjOpComplete c s) d = snd (report_parsed c s d)"
| "dj_exec (DjOpFail f) d = snd (failDocumentJob f d)"
| "dj_exec (DjOpUpload u) d = snd (uploadAttachment u d)"
| "dj_exec (DjOpRetry a i t) d = snd (retryAttachment a i t d)"
| "dj_exec (DjOpSecurity a s t e) d = updateSecurity a s t e d"
| "dj_exec DjOpBackfill d = backfillDocumentJobs d"

lemma dj_exec_inv: "dj_inv d \<Longrightarrow> dj_inv (dj_exec op d)"
  by (cases op) (simp_all add: enqueue_inv claim_inv report_parsed_inv fail_inv upload_inv retry_inv updateSecurity_inv backfill_inv)

lemma dj_run_inv: "dj_inv d \<Longrightarrow> dj_inv (foldl (\<lambda>d op. dj_exec op d) d ops)"
  by (induction ops arbitrary: d) (auto intro: dj_exec_inv)

definition dj_run :: "dj_op list \<Rightarrow> dj_db \<Rightarrow> dj_db" where
  "dj_run ops d = foldl (\<lambda>d op. dj_exec op d) d ops"

lemma dj_run_simps [simp]: "dj_run [] d = d" "dj_run (op # ops) d = dj_run ops (dj_exec op d)"
  by (simp_all add: dj_run_def)

text \<open>The operations that cannot take a job or end its lease.\<close>
fun dj_quiet :: "doc_job \<Rightarrow> dj_op \<Rightarrow> bool" where
  "dj_quiet j (DjOpEnqueue i a n t) = True"
| "dj_quiet j (DjOpClaim w t l n us) = (\<not> dj_claimable t j)"
| "dj_quiet j (DjOpComplete c s) = (jc_id c = dj_id j \<longrightarrow> \<not> dj_holds (jc_lockToken c) j)"
| "dj_quiet j (DjOpFail f) = (jf_id f = dj_id j \<longrightarrow> \<not> dj_holds (jf_lockToken f) j)"
| "dj_quiet j (DjOpRetry a i t) = (a \<noteq> dj_attachmentId j)"
| "dj_quiet j _ = True"

lemma claims_quiet:
  "dj_inv (snd acc) \<Longrightarrow> find_job i (snd acc) = Some j \<Longrightarrow> \<not> dj_claimable t j \<Longrightarrow>
    find_job i (snd (foldl (dj_claim_one l t) acc cs)) = Some j"
proof (induction cs arbitrary: acc)
  case (Cons c cs)
  have "find_job i (snd (dj_claim_one l t acc c)) = Some j"
    using Cons.prems by (auto simp: dj_claim_one_eq find_job_put split: option.splits)
  then show ?case using Cons dj_claim_one_inv by simp
qed simp

lemma complete_cases:
  "completeDocumentJob c d = (r, d') \<Longrightarrow> find_job (jc_id c) d = Some j \<Longrightarrow>
    (if dj_holds (jc_lockToken c) j
     then r = Inr (dj_done (jc_result c) (jc_completedAt c) j) \<and> find_job i d' =
       map_option (\<lambda>x. if dj_id x = jc_id c \<and> dj_holds (jc_lockToken c) x then dj_done (jc_result c) (jc_completedAt c) x else x) (find_job i d)
     else d' = d \<and> r = (if dj_status j = DjCompleted \<and> dj_lockToken j = Some (jc_lockToken c) then Inr j
       else Inl (DjLeaseConflict (jc_id c))))"
  using find_job_id[of "jc_id c" d j]
  by (auto simp: completeDocumentJob_def atomic_def find_job_put Let_def dj_holds_def)

lemma complete_missing: "find_job (jc_id c) d = None \<Longrightarrow> snd (completeDocumentJob c d) = d"
  by (simp add: completeDocumentJob_def atomic_def)

lemma fail_cases:
  "failDocumentJob f d = (r, d') \<Longrightarrow> find_job (jf_id f) d = Some j \<Longrightarrow>
    (if dj_holds (jf_lockToken f) j
     then r = Inr (dj_failed f j) \<and> find_job i d' =
       map_option (\<lambda>x. if dj_id x = jf_id f \<and> dj_holds (jf_lockToken f) x then dj_failed f x else x) (find_job i d)
     else d' = d \<and> r = Inl (DjLeaseConflict (jf_id f)))"
  using find_job_id[of "jf_id f" d j]
  by (auto simp: failDocumentJob_def atomic_def find_job_put Let_def)

lemma fail_missing: "find_job (jf_id f) d = None \<Longrightarrow> snd (failDocumentJob f d) = d"
  by (simp add: failDocumentJob_def atomic_def)

lemma enqueue_quiet: "find_job i d = Some j \<Longrightarrow> find_job i (snd (enqueueDocumentJob i' a n t d)) = Some j"
  by (auto simp: enqueueDocumentJob_def atomic_def Let_def find_job_def put_attachment_def find_append split: option.splits)

lemma report_parsed_job [simp]: "find_job i (snd (report_parsed c s d)) = find_job i (snd (completeDocumentJob c d))"
  by (auto simp: report_parsed_def split: prod.split sum.split)

lemma supersede_job [simp]: "find_job i (supersede p d) = find_job i d" "jd_jobs (supersede p d) = jd_jobs d"
  by (auto simp: supersede_def put_attachment_def find_job_def split: option.split)

lemma insert_job_quiet: "find_job i d = Some j \<Longrightarrow> find_job i (snd (insert_job n d)) = Some j"
  by (simp add: insert_job_def find_job_def find_append)

lemma upload_quiet:
  assumes "find_job i d = Some j"
  shows "find_job i (snd (uploadAttachment u d)) = Some j"
  unfolding uploadAttachment_def Let_def
  by (rule atomic_store[where P = "\<lambda>d. find_job i d = Some j"])
    (use assms in \<open>auto simp: insert_job_ok find_job_def find_append split: if_splits\<close>)

lemma retry_cases:
  assumes e: "retryAttachment a i' t d = (r, d')" and inv: "dj_inv d" and j: "find_job i d = Some j"
  shows "find_job i d' = Some (if dj_attachmentId j = a \<and> r = Inr () then dj_reset t j else j)"
proof (cases "\<exists>x. find (\<lambda>r. at_id r = a \<and> at_active r) (jd_attachments d) = Some x \<and> at_security x \<noteq> SecQuarantined")
  case True
  then obtain x where x: "find (\<lambda>r. at_id r = a \<and> at_active r) (jd_attachments d) = Some x" "at_security x \<noteq> SecQuarantined"
    by blast
  show ?thesis
  proof (cases "find (\<lambda>j. dj_attachmentId j = a) (jd_jobs d)")
    case None
    then have "dj_attachmentId j \<noteq> a" using find_job_id[OF j] by (auto simp: find_None_iff)
    moreover have "find_job i d' = Some j"
      using e x None j by (auto simp: retryAttachment_def insert_job_def atomic_def find_job_def find_append
          put_attachment_def split: if_splits)
    ultimately show ?thesis by simp
  next
    case (Some k)
    then have k: "k \<in> set (jd_jobs d)" "dj_attachmentId k = a" by (auto dest: find_Some_mem)
    have "dj_id j = dj_id k \<longleftrightarrow> dj_attachmentId j = a"
      using k find_job_id[OF j] inv by (auto simp: dj_inv_def distinct_map inj_on_def)
    then show ?thesis using e x Some j by (auto simp: retryAttachment_def find_job_put)
  qed
qed (use e j in \<open>auto simp: retryAttachment_def split: option.splits if_splits\<close>)

lemma backfill_quiet: "find_job i d = Some j \<Longrightarrow> find_job i (backfillDocumentJobs d) = Some j"
proof -
  have fold: "find_job i d = Some j \<Longrightarrow> find_job i (foldl (\<lambda>d r. snd (insert_job (f r) d)) d rs) = Some j"
    for d rs and f :: "attachment \<Rightarrow> doc_job" by (induction rs arbitrary: d) (simp_all add: insert_job_quiet)
  assume "find_job i d = Some j"
  from fold[OF this] show ?thesis by (simp add: backfillDocumentJobs_def Let_def find_job_def)
qed

lemma dj_exec_quiet:
  assumes inv: "dj_inv d" and j: "find_job i d = Some j" and q: "dj_quiet j op"
  shows "find_job i (dj_exec op d) = Some j"
proof (cases op)
  case (DjOpEnqueue i a n t)
  then show ?thesis using enqueue_quiet[OF j] by simp
next
  case (DjOpClaim w t l n us)
  then show ?thesis using claims_quiet[of "([], d)"] inv j q by (simp add: claimDocumentJobs_def Let_def)
next
  case (DjOpComplete c s)
  obtain r d' where e: "completeDocumentJob c d = (r, d')" by fastforce
  show ?thesis using complete_cases[OF e, of _ i] complete_missing[of c d] e j q DjOpComplete find_job_id[OF j]
    by (cases "find_job (jc_id c) d") (auto split: if_splits)
next
  case (DjOpFail f)
  obtain r d' where e: "failDocumentJob f d = (r, d')" by fastforce
  show ?thesis using fail_cases[OF e, of _ i] fail_missing[of f d] e j q DjOpFail find_job_id[OF j]
    by (cases "find_job (jf_id f) d") (auto split: if_splits)
next
  case (DjOpRetry a i' t)
  obtain r d' where e: "retryAttachment a i' t d = (r, d')" by fastforce
  show ?thesis using retry_cases[OF e inv j] e q DjOpRetry by simp
qed (use j upload_quiet backfill_quiet in \<open>simp_all add: updateSecurity_def\<close>)

lemma dj_run_quiet:
  "dj_inv d \<Longrightarrow> find_job i d = Some j \<Longrightarrow> \<forall>op\<in>set ops. dj_quiet j op \<Longrightarrow>
    find_job i (dj_run ops d) = Some j \<and> dj_inv (dj_run ops d)"
  by (induction ops arbitrary: d) (simp_all add: dj_exec_quiet dj_exec_inv)

text \<open>The status an attachment shows is the status of its job.\<close>
definition attachment_status :: "ident \<Rightarrow> dj_db \<Rightarrow> processing option" where
  "attachment_status a d = map_option at_processing (find (\<lambda>r. at_id r = a) (jd_attachments d))"

lemma attachment_follows:
  assumes inv: "dj_inv d" and j: "find_job i d = Some j"
  shows "\<exists>p. attachment_status (dj_attachmentId j) d = Some p \<and> shows_job (Some j) p"
    and "find (\<lambda>x. dj_attachmentId x = dj_attachmentId j) (jd_jobs d) = Some j"
proof -
  have m: "j \<in> set (jd_jobs d)" using find_job_id[OF j] by simp
  show own: "find (\<lambda>x. dj_attachmentId x = dj_attachmentId j) (jd_jobs d) = Some j"
    using find_distinct_key[of dj_attachmentId "jd_jobs d" j] inv m by (simp add: dj_inv_def)
  obtain r where r: "r \<in> set (jd_attachments d)" "at_id r = dj_attachmentId j" using inv m by (auto simp: dj_inv_def)
  have "find (\<lambda>x. at_id x = at_id r) (jd_attachments d) = Some r"
    using find_distinct_key[of at_id "jd_attachments d" r] inv r(1) by (simp add: dj_inv_def)
  moreover have "shows_job (Some j) (at_processing r)" using inv r own by (auto simp: dj_inv_def)
  ultimately show "\<exists>p. attachment_status (dj_attachmentId j) d = Some p \<and> shows_job (Some j) p"
    using r(2) by (simp add: attachment_status_def)
qed

lemma retry_accepted:
  assumes e: "retryAttachment (dj_attachmentId j) i' t d = (r, d')" and inv: "dj_inv d" and j: "find_job i d = Some j"
  shows "r = Inr () \<longleftrightarrow>
    (\<exists>x\<in>set (jd_attachments d). at_id x = dj_attachmentId j \<and> at_active x \<and> at_security x \<noteq> SecQuarantined)"
proof -
  have uniq: "x = y" if "x \<in> set (jd_attachments d)" "y \<in> set (jd_attachments d)" "at_id x = at_id y" for x y
    using inv that by (auto simp: dj_inv_def distinct_map inj_on_def)
  show ?thesis
  proof (cases "find (\<lambda>r. at_id r = dj_attachmentId j \<and> at_active r) (jd_attachments d)")
    case None
    then have "r = Inl (DjHttp 404 ''ATTACHMENT_NOT_FOUND'')" using e by (simp add: retryAttachment_def)
    then show ?thesis using None by (auto simp: find_None_iff)
  next
    case (Some x)
    then have x: "x \<in> set (jd_attachments d)" "at_id x = dj_attachmentId j" "at_active x" by (auto dest: find_Some_mem)
    have "(\<exists>y\<in>set (jd_attachments d). at_id y = dj_attachmentId j \<and> at_active y \<and> at_security y \<noteq> SecQuarantined) \<longleftrightarrow>
        at_security x \<noteq> SecQuarantined" using uniq x by metis
    then show ?thesis using e Some attachment_follows(2)[OF inv j] by (auto simp: retryAttachment_def split: if_splits)
  qed
qed

lemma reset_due:
  assumes inv: "dj_inv d" and j: "find_job i d = Some j"
  shows "\<forall>t'\<ge>t. dj_claimable t' (dj_reset t j)"
  using inv find_job_id[OF j] by (auto simp: dj_inv_def list_all_iff dj_ok_def dj_claimable_def dj_reset_def)

text \<open>A tenant with two attachments, and a worker that takes the job of the first one.\<close>
definition demo_attachments :: dj_db where
  "demo_attachments = \<lparr>jd_jobs = [], jd_attachments =
    [\<lparr>at_id = ''a1'', at_active = True, at_createdAt = 0, at_security = SecPendingScan, at_scanError = None, at_processing = PNotQueued, at_parseError = None, at_parsedAt = None, at_detectedType = None, at_preview = None\<rparr>,
     \<lparr>at_id = ''a2'', at_active = True, at_createdAt = 0, at_security = SecPendingScan, at_scanError = None, at_processing = PNotQueued, at_parseError = None, at_parsedAt = None, at_detectedType = None, at_preview = None\<rparr>]\<rparr>"

definition demo_taken :: dj_db where
  "demo_taken = dj_run [DjOpEnqueue ''j1'' ''a1'' 1 0, DjOpClaim ''w'' 5 100 None (\<lambda>_. ''u'')] demo_attachments"

definition demo_job :: doc_job where
  "demo_job = \<lparr>dj_id = ''j1'', dj_attachmentId = ''a1'', dj_status = DjProcessing, dj_attempts = 1, dj_maxAttempts = 1,
     dj_availableAt = 0, dj_lockedAt = Some 5, dj_lockToken = Some ''document-job-lease:u'', dj_leaseExpiresAt = Some 105,
     dj_error = None, dj_result = None, dj_createdAt = 0, dj_updatedAt = 5, dj_completedAt = None\<rparr>"

definition demo_completion :: dj_completion where
  "demo_completion = \<lparr>jc_id = ''j1'', jc_lockToken = ''document-job-lease:u'', jc_completedAt = 50, jc_result = None,
     jc_detectedType = Some ''application/pdf'', jc_preview = None\<rparr>"

text \<open>A scan: it is taken and reported as wanting recognition of its text, while a safe and an unsafe file are uploaded.\<close>
definition demo_upload :: "ident \<Rightarrow> ident \<Rightarrow> string option \<Rightarrow> dj_upload" where
  "demo_upload a j unsafe = \<lparr>du_id = a, du_job = j, du_supersedes = None, du_unsafe = unsafe, du_detectedType = ''image/png'',
     du_preview = None, du_at = 1000\<rparr>"

definition demo_scan :: "dj_op list" where
  "demo_scan = [DjOpEnqueue ''j1'' ''a1'' 1 0, DjOpClaim ''w'' 5 100 None (\<lambda>_. ''u''), DjOpComplete demo_completion NeedsOcr,
     DjOpUpload (demo_upload ''a3'' ''j3'' None), DjOpUpload (demo_upload ''a4'' ''j4'' (Some ''unsafe''))]"

lemma fresh_inv: "jd_jobs d = [] \<Longrightarrow> distinct (map at_id (jd_attachments d)) \<Longrightarrow>
    \<forall>r\<in>set (jd_attachments d). at_processing r = PNotQueued \<Longrightarrow> dj_inv d"
  by (simp add: dj_inv_def shows_job_def)

lemma demo_fresh: "jd_jobs demo_attachments = []" "distinct (map at_id (jd_attachments demo_attachments))"
  "\<forall>r\<in>set (jd_attachments demo_attachments). at_processing r = PNotQueued"
  by (simp_all add: demo_attachments_def)

lemma demo_taken_facts: "find_job ''j1'' demo_taken = Some demo_job" "dj_inv demo_taken"
proof -
  show "find_job ''j1'' demo_taken = Some demo_job" by code_simp
  show "dj_inv demo_taken" unfolding demo_taken_def dj_run_def
    by (intro dj_run_inv fresh_inv demo_fresh)
qed

subsection \<open>Properties\<close>

text \<open>C31 Over any run of uploads, enqueueing, claims, reports, security writes, retries and the start-up backfill from a
  tenant without jobs whose attachments were never queued, every attachment shows the state of its job: queued,
  processing and failed as the job itself, a completed one as parsed, as wanting recognition of its text or as
  wanting a specialist; an attachment without a job was never queued or was refused as unsafe when it was
  uploaded.  An attachment has at most one job, and no job is attempted more often than it may be.\<close>
theorem document_status_mirrors_job:
  assumes "jd_jobs d = []" "distinct (map at_id (jd_attachments d))" "\<forall>r\<in>set (jd_attachments d). at_processing r = PNotQueued"
  shows "(\<forall>r\<in>set (jd_attachments (dj_run ops d)).
      (case find (\<lambda>j. dj_attachmentId j = at_id r) (jd_jobs (dj_run ops d)) of
        None \<Rightarrow> at_processing r \<in> {PNotQueued, PParseFailed}
      | Some j \<Rightarrow> (case dj_status j of DjQueued \<Rightarrow> at_processing r = PQueued | DjProcessing \<Rightarrow> at_processing r = PProcessing
          | DjCompleted \<Rightarrow> at_processing r \<in> {PParsed, PNeedsOcr, PNeedsSpecialist} | DjFailed \<Rightarrow> at_processing r = PParseFailed))) \<and>
    distinct (map dj_attachmentId (jd_jobs (dj_run ops d))) \<and>
    (\<forall>j\<in>set (jd_jobs (dj_run ops d)). dj_attempts j \<le> dj_maxAttempts j)"
proof -
  have inv: "dj_inv (dj_run ops d)" unfolding dj_run_def by (intro dj_run_inv fresh_inv assms)
  have "case find (\<lambda>j. dj_attachmentId j = at_id r) (jd_jobs (dj_run ops d)) of
        None \<Rightarrow> at_processing r \<in> {PNotQueued, PParseFailed}
      | Some j \<Rightarrow> (case dj_status j of DjQueued \<Rightarrow> at_processing r = PQueued | DjProcessing \<Rightarrow> at_processing r = PProcessing
          | DjCompleted \<Rightarrow> at_processing r \<in> {PParsed, PNeedsOcr, PNeedsSpecialist} | DjFailed \<Rightarrow> at_processing r = PParseFailed)"
    if r: "r \<in> set (jd_attachments (dj_run ops d))" for r
  proof -
    have "shows_job (find (\<lambda>j. dj_attachmentId j = at_id r) (jd_jobs (dj_run ops d))) (at_processing r)"
      using inv r by (simp add: dj_inv_def)
    then show ?thesis by (auto simp: shows_job_def processing_of_def split: option.splits dj_status.splits)
  qed
  then show ?thesis using inv by (simp add: dj_inv_def list_all_iff dj_ok_def)
qed

theorem document_status_mirrors_job_witness:
  "map at_processing (jd_attachments (dj_run demo_scan demo_attachments)) = [PNeedsOcr, PNotQueued, PQueued, PParseFailed] \<and>
   list_all (\<lambda>j. dj_attempts j \<le> dj_maxAttempts j) (jd_jobs (dj_run demo_scan demo_attachments))"
proof -
  have "map at_processing (jd_attachments (dj_run demo_scan demo_attachments)) = [PNeedsOcr, PNotQueued, PQueued, PParseFailed]"
    by code_simp
  moreover have "list_all (\<lambda>j. dj_attempts j \<le> dj_maxAttempts j) (jd_jobs (dj_run demo_scan demo_attachments))"
    unfolding list_all_iff using document_status_mirrors_job[OF demo_fresh, of demo_scan] by blast
  ultimately show ?thesis ..
qed





text \<open>A completed job is final until its attachment is retried: whatever else is called afterwards leaves it and the
  outcome its attachment shows as they are, reporting the completion again under the same token is answered with the same
  job, and reporting a failure is refused.\<close>
theorem document_completion_final:
  assumes inv: "dj_inv d" and ok: "completeDocumentJob c d = (Inr j, d')"
    and ops: "\<forall>op\<in>set ops. (case op of DjOpRetry a i t \<Rightarrow> a \<noteq> dj_attachmentId j | _ \<Rightarrow> True)"
  shows "find_job (jc_id c) (dj_run ops d') = Some j \<and>
    (\<forall>c'. jc_id c' = jc_id c \<and> jc_lockToken c' = jc_lockToken c \<longrightarrow> completeDocumentJob c' (dj_run ops d') = (Inr j, dj_run ops d')) \<and>
    (\<forall>f. jf_id f = jc_id c \<longrightarrow> failDocumentJob f (dj_run ops d') = (Inl (DjLeaseConflict (jc_id c)), dj_run ops d'))"
proof -
  obtain j0 where j0: "find_job (jc_id c) d = Some j0"
    using ok by (cases "find_job (jc_id c) d") (simp_all add: completeDocumentJob_def atomic_def)
  have j: "find_job (jc_id c) d' = Some j" "dj_status j = DjCompleted" "dj_lockToken j = Some (jc_lockToken c)"
    using complete_cases[OF ok j0, of "jc_id c"] j0 find_job_id[OF j0]
    by (auto simp: dj_holds_def dj_done_def split: if_splits)
  have inv': "dj_inv d'" using complete_inv[OF inv, of c] ok by simp
  have "dj_quiet j op" if "op \<in> set ops" for op
    using j ops that by (cases op) (auto simp: dj_claimable_def dj_holds_def)
  then have run: "find_job (jc_id c) (dj_run ops d') = Some j" using dj_run_quiet[OF inv' j(1)] by simp
  moreover have "completeDocumentJob c' (dj_run ops d') = (Inr j, dj_run ops d')"
    if "jc_id c' = jc_id c" "jc_lockToken c' = jc_lockToken c" for c'
    using that run j by (simp add: completeDocumentJob_def atomic_def)
  moreover have "failDocumentJob f (dj_run ops d') = (Inl (DjLeaseConflict (jc_id c)), dj_run ops d')" if "jf_id f = jc_id c" for f
    using that run j by (simp add: failDocumentJob_def atomic_def dj_holds_def)
  ultimately show ?thesis by blast
qed

end
