(* ===== verification/GraphRuntime.thy ===== *)
theory GraphRuntime
  imports JsNumber "HOL-Library.Sublist"
begin

text \<open>
  The contracts of the graph runtime (\<open>packages/graph-runtime/src/index.ts\<close>): node types and their
  registry, published workflow versions and their traversal rules, the variable pool of a run and the
  validation of an edited graph with its depth-first search for cycles.
\<close>

subsection \<open>Node types\<close>

record node_port =
  np_id :: ident
  np_label :: string
  np_dataType :: string
  np_required :: bool

record node_parameter =
  pm_id :: ident
  pm_label :: string
  pm_required :: bool
  pm_defaultValue :: "json option"

record node_type =
  nt_type :: string
  nt_version :: int
  nt_name :: string
  nt_executor :: string
  nt_inputs :: "node_port list"
  nt_outputs :: "node_port list"
  nt_parameters :: "node_parameter list"

record graph_node =
  gn_id :: ident
  gn_type :: string
  gn_typeVersion :: int
  gn_name :: string
  gn_config :: "(string, json) kv option"

datatype factory_fault = TypeRegistered string | TypeIncomplete | TypeVersion | InputRepeated ident
  | OutputRepeated ident | NoExecutor string

definition int_str :: "int \<Rightarrow> string" where
  "int_str i = (if i < 0 then CHR ''-'' # nat_str (nat (- i)) else nat_str (nat i))"

definition nodeTypeKey :: "string \<Rightarrow> int \<Rightarrow> string" where
  "nodeTypeKey t v = t @ ''@'' @ int_str v"

fun repeated :: "ident set \<Rightarrow> node_port list \<Rightarrow> ident option" where
  "repeated seen [] = None"
| "repeated seen (p # ps) = (if np_id p \<in> seen then Some (np_id p) else repeated (insert (np_id p) seen) ps)"

definition validateNodeTypeDescriptor :: "node_type \<Rightarrow> factory_fault option" where
  "validateNodeTypeDescriptor d =
    (if nt_type d = [] \<or> nt_name d = [] \<or> nt_executor d = [] then Some TypeIncomplete
     else if nt_version d < 1 then Some TypeVersion
     else case repeated {} (nt_inputs d) of Some i \<Rightarrow> Some (InputRepeated i)
     | None \<Rightarrow> (case repeated {} (nt_outputs d) of Some i \<Rightarrow> Some (OutputRepeated i) | None \<Rightarrow> None))"

record 'x factory =
  nf_descriptors :: "(string, node_type) kv"
  nf_executors :: "(string, 'x) kv"

definition register_type :: "node_type \<Rightarrow> 'x \<Rightarrow> 'x factory \<Rightarrow> (factory_fault, 'x factory) result" where
  "register_type d x f =
    (let key = nodeTypeKey (nt_type d) (nt_version d)
     in if map_of (nf_descriptors f) key \<noteq> None then Inl (TypeRegistered key)
        else case validateNodeTypeDescriptor d of Some e \<Rightarrow> Inl e
        | None \<Rightarrow> Inr (f\<lparr>nf_descriptors := AList.update key d (nf_descriptors f),
                        nf_executors := AList.update key x (nf_executors f)\<rparr>))"

definition describe :: "'x factory \<Rightarrow> string \<Rightarrow> int \<Rightarrow> node_type option" where
  "describe f t v = map_of (nf_descriptors f) (nodeTypeKey t v)"

definition list_types :: "'x factory \<Rightarrow> node_type list" where
  "list_types f = map snd (nf_descriptors f)"

definition create_executor :: "graph_node \<Rightarrow> 'x factory \<Rightarrow> (factory_fault, 'x) result" where
  "create_executor n f = (case map_of (nf_executors f) (nodeTypeKey (gn_type n) (gn_typeVersion n)) of
     None \<Rightarrow> Inl (NoExecutor (nodeTypeKey (gn_type n) (gn_typeVersion n))) | Some x \<Rightarrow> Inr x)"

subsection \<open>Published workflow versions\<close>

datatype node_kind = KTrigger | KRouter | KAi | KLogic | KTool | KApproval | KAction

datatype run_mode = Simulate | Shadow | Supervised | Autonomous

record workflow_node =
  wn_id :: ident
  wn_type :: string
  wn_kind :: node_kind
  wn_label :: string
  wn_parameters :: "(string, json) kv option"
  wn_config :: "(string, json) kv option"
  wn_permission :: "string option"
  wn_timeoutMs :: "int option"
  wn_sideEffects :: "string list option"

record workflow_edge =
  we_from :: ident
  we_to :: ident
  we_label :: "string option"

record workflow_version =
  wv_tenantId :: ident
  wv_employeeId :: ident
  wv_workflowId :: ident
  wv_versionId :: ident
  wv_nodes :: "workflow_node list"
  wv_edges :: "workflow_edge list"

definition workflowRootNodeIds :: "workflow_version \<Rightarrow> ident list" where
  "workflowRootNodeIds d = map wn_id (filter (\<lambda>n. wn_id n \<notin> set (map we_to (wv_edges d))) (wv_nodes d))"

definition workflowOutgoingEdges :: "workflow_version \<Rightarrow> ident \<Rightarrow> workflow_edge list" where
  "workflowOutgoingEdges d i = filter (\<lambda>e. we_from e = i) (wv_edges d)"

definition label_matches :: "string list \<Rightarrow> workflow_edge \<Rightarrow> bool" where
  "label_matches ls e = (case we_label e of None \<Rightarrow> False | Some l \<Rightarrow> l \<noteq> [] \<and> (\<exists>s\<in>set ls. contains l s \<or> contains s l))"

definition selectWorkflowEdges ::
  "workflow_edge list \<Rightarrow> ident list option \<Rightarrow> string list option \<Rightarrow> node_kind \<Rightarrow> workflow_edge list" where
  "selectWorkflowEdges es targets labels kind =
    (case targets of Some (t # ts) \<Rightarrow> filter (\<lambda>e. we_to e \<in> set (t # ts)) es
     | _ \<Rightarrow> (case labels of Some (l # ls) \<Rightarrow> filter (label_matches (l # ls)) es
       | _ \<Rightarrow> if 1 < length es \<and> kind \<noteq> KLogic then take 1 es else es))"

lemma selected_subset: "set (selectWorkflowEdges es ts ls k) \<subseteq> set es"
  by (auto simp: selectWorkflowEdges_def split: option.splits list.splits dest: in_set_takeD)

subsection \<open>The variable pool\<close>

text \<open>The data the pool holds.  An array is what it is in JavaScript: an object whose own properties, holes left out, are
  kept beside its length.\<close>
datatype jval = VNull | VBool bool | VNum jnum | VStr string | VArr nat "(string \<times> jval) list" | VObj "(string \<times> jval) list"

text \<open>\<open>BadLength\<close>: an array was given a length that is no number of 32 bits (\<open>RangeError\<close>).  \<open>NotCloneable\<close>: what was read is a
  function (\<open>DataCloneError\<close>).  \<open>Unmodelled\<close>: a segment \<open>__proto__\<close>, which reaches the prototype itself, or a length given
  as a text, an object or an array, which JavaScript converts first.\<close>
datatype pool_fault = EmptyPath | NotAnObject | BadLength | NotCloneable | Unmodelled

type_synonym pool = "(string, jval) kv"

text \<open>What a property lookup finds: nothing, data, or a function inherited from the prototype.\<close>
datatype found = Absent | Data jval | Inherited

definition found_of :: "jval option \<Rightarrow> found" where
  "found_of v = (case v of None \<Rightarrow> Absent | Some x \<Rightarrow> Data x)"

definition array_keys :: "string list" where
  "array_keys = [''at'', ''concat'', ''copyWithin'', ''entries'', ''every'', ''fill'', ''filter'', ''find'', ''findIndex'',
     ''findLast'', ''findLastIndex'', ''flat'', ''flatMap'', ''forEach'', ''includes'', ''indexOf'', ''join'', ''keys'',
     ''lastIndexOf'', ''map'', ''pop'', ''push'', ''reduce'', ''reduceRight'', ''reverse'', ''shift'', ''slice'', ''some'',
     ''sort'', ''splice'', ''toReversed'', ''toSorted'', ''toSpliced'', ''unshift'', ''values'', ''with'']"

definition own_property :: "string \<Rightarrow> string list \<Rightarrow> (string \<times> jval) list \<Rightarrow> found" where
  "own_property k inherited m = (case map_of m k of Some x \<Rightarrow> Data x | None \<Rightarrow> if k \<in> set inherited then Inherited else Absent)"

definition property :: "string \<Rightarrow> jval \<Rightarrow> found" where
  "property k v = (case v of
     VObj m \<Rightarrow> own_property k proto_keys m
   | VArr n m \<Rightarrow> if k = ''length'' then Data (VNum (JFin (of_nat n))) else own_property k (proto_keys @ array_keys) m
   | _ \<Rightarrow> Absent)"

text \<open>The loop of \<open>get\<close>: anything but an object or an array, a function too, has no property to follow.\<close>
fun walk :: "string list \<Rightarrow> found \<Rightarrow> found" where
  "walk [] v = v"
| "walk (k # ks) (Data v) = walk ks (property k v)"
| "walk (k # ks) _ = Absent"

definition outside_model :: "string list \<Rightarrow> bool" where
  "outside_model path \<longleftrightarrow> ''__proto__'' \<in> set (tl path)"

definition pool_get :: "string list \<Rightarrow> pool \<Rightarrow> (pool_fault, jval option) result" where
  "pool_get path p = (if outside_model path then Inl Unmodelled else case path of
       [] \<Rightarrow> Inr None
     | k # ks \<Rightarrow> (case walk ks (found_of (map_of p k)) of Absent \<Rightarrow> Inr None | Data v \<Rightarrow> Inr (Some v) | Inherited \<Rightarrow> Inl NotCloneable))"

text \<open>An array index: the decimal text of a number below \<open>2 ^ 32 - 1\<close>.\<close>
definition array_index :: "string \<Rightarrow> nat option" where
  "array_index k = (let i = read_nat k in if nat_str i = k \<and> i < 4294967295 then Some i else None)"

definition length_of :: "jval \<Rightarrow> (pool_fault, nat) result" where
  "length_of v = (case v of
     VNum (JFin q) \<Rightarrow> if q = of_int \<lfloor>q\<rfloor> \<and> 0 \<le> q \<and> q < 4294967296 then Inr (nat \<lfloor>q\<rfloor>) else Inl BadLength
   | VNum _ \<Rightarrow> Inl BadLength
   | VNull \<Rightarrow> Inr 0
   | VBool b \<Rightarrow> Inr (if b then 1 else 0)
   | _ \<Rightarrow> Inl Unmodelled)"

text \<open>Assigning a property.  On an array an index extends the length, and a shorter length removes the indices it cuts off.\<close>
definition assign :: "string \<Rightarrow> jval \<Rightarrow> jval \<Rightarrow> (pool_fault, jval) result" where
  "assign k v obj = (case obj of
     VObj m \<Rightarrow> Inr (VObj (AList.update k v m))
   | VArr n m \<Rightarrow>
       if k = ''length'' then (case length_of v of Inl f \<Rightarrow> Inl f
         | Inr l \<Rightarrow> Inr (VArr l (filter (\<lambda>e. case array_index (fst e) of None \<Rightarrow> True | Some i \<Rightarrow> i < l) m)))
       else Inr (VArr (case array_index k of None \<Rightarrow> n | Some i \<Rightarrow> max n (i + 1)) (AList.update k v m))
   | _ \<Rightarrow> Inl NotAnObject)"

text \<open>Descending: the object or array under the key, a fresh object where there is none.\<close>
definition child :: "string \<Rightarrow> jval \<Rightarrow> jval" where
  "child k obj = (case property k obj of Data (VObj m) \<Rightarrow> VObj m | Data (VArr n m) \<Rightarrow> VArr n m | _ \<Rightarrow> VObj [])"

fun put_path :: "string list \<Rightarrow> jval \<Rightarrow> jval \<Rightarrow> (pool_fault, jval) result" where
  "put_path [] v obj = Inl EmptyPath"
| "put_path [k] v obj = assign k v obj"
| "put_path (k # l # ks) v obj = (case put_path (l # ks) v (child k obj) of Inl f \<Rightarrow> Inl f | Inr c \<Rightarrow> assign k c obj)"

definition root_of :: "jval option \<Rightarrow> jval" where
  "root_of v = (case v of None \<Rightarrow> VObj [] | Some VNull \<Rightarrow> VObj [] | Some r \<Rightarrow> r)"

definition pool_set :: "string list \<Rightarrow> jval \<Rightarrow> pool \<Rightarrow> (pool_fault, pool) result" where
  "pool_set path v p = (if outside_model path then Inl Unmodelled else case path of
       [] \<Rightarrow> Inl EmptyPath
     | [k] \<Rightarrow> Inr (AList.update k v p)
     | k # ks \<Rightarrow> (case put_path ks v (root_of (map_of p k)) of Inl f \<Rightarrow> Inl f | Inr r \<Rightarrow> Inr (AList.update k r p)))"

text \<open>A selector text is cut at its dots, empty segments dropped; \<open>merge\<close> sets each entry under its key.\<close>
fun split_dots :: "string \<Rightarrow> string \<Rightarrow> string list" where
  "split_dots [] acc = (if acc = [] then [] else [acc])"
| "split_dots (c # cs) acc = (if c = CHR ''.'' then (if acc = [] then [] else [acc]) @ split_dots cs [] else split_dots cs (acc @ [c]))"

definition path_of :: "string \<Rightarrow> string list" where
  "path_of selector = split_dots selector []"

fun pool_merge :: "(string \<times> jval) list \<Rightarrow> pool \<Rightarrow> (pool_fault, pool) result" where
  "pool_merge [] p = Inr p"
| "pool_merge ((k, v) # es) p = (case pool_set (path_of k) v p of Inl f \<Rightarrow> Inl f | Inr p' \<Rightarrow> pool_merge es p')"

text \<open>Objects and arrays, which take assignments.\<close>
definition holds_properties :: "jval \<Rightarrow> bool" where
  "holds_properties v \<longleftrightarrow> (case v of VObj m \<Rightarrow> True | VArr n m \<Rightarrow> True | _ \<Rightarrow> False)"

lemma child_holds [simp]: "holds_properties (child k obj)"
  by (auto simp: child_def holds_properties_def split: found.splits jval.splits)

lemma assign_holds: "k \<noteq> ''length'' \<Longrightarrow> holds_properties obj \<Longrightarrow> \<exists>obj'. assign k v obj = Inr obj'"
  by (auto simp: assign_def holds_properties_def split: jval.splits)

lemma assign_flat: "\<not> holds_properties obj \<Longrightarrow> assign k v obj = Inl NotAnObject"
  by (auto simp: assign_def holds_properties_def split: jval.splits)

lemma assign_read: "assign k v obj = Inr obj' \<Longrightarrow> k \<noteq> ''length'' \<Longrightarrow> property k obj' = Data v"
  by (auto simp: assign_def property_def own_property_def update_get split: jval.splits)

lemma assign_frame: "assign k v obj = Inr obj' \<Longrightarrow> k \<noteq> ''length'' \<Longrightarrow> k' \<noteq> ''length'' \<Longrightarrow> k' \<noteq> k \<Longrightarrow> property k' obj' = property k' obj"
  by (auto simp: assign_def property_def own_property_def update_get split: jval.splits)

lemma put_path_holds:
  "ks \<noteq> [] \<Longrightarrow> ''length'' \<notin> set ks \<Longrightarrow> (if holds_properties obj then \<exists>obj'. put_path ks v obj = Inr obj' else put_path ks v obj = Inl NotAnObject)"
proof (induction ks v obj rule: put_path.induct)
  case (2 k v obj)
  then show ?case using assign_holds[of k obj v] by (auto simp: assign_flat)
next
  case (3 k l ks v obj)
  then obtain c where "put_path (l # ks) v (child k obj) = Inr c" by auto
  then show ?case using assign_holds[of k obj c] 3(3) by (auto simp: assign_flat)
qed simp

lemma put_path_read: "put_path ks v obj = Inr obj' \<Longrightarrow> ''length'' \<notin> set ks \<Longrightarrow> walk ks (Data obj') = Data v"
proof (induction ks v obj arbitrary: obj' rule: put_path.induct)
  case (3 k l ks v obj)
  then obtain c where "put_path (l # ks) v (child k obj) = Inr c" "assign k c obj = Inr obj'"
    by (auto split: sum.splits)
  moreover have "k \<noteq> ''length''" using 3(3) by auto
  ultimately show ?case using 3 assign_read[of k c obj obj'] by simp
qed (auto dest: assign_read)

lemma walk_absent [simp]: "ks \<noteq> [] \<Longrightarrow> walk ks Absent = Absent" "ks \<noteq> [] \<Longrightarrow> walk ks Inherited = Absent"
  by (cases ks; simp)+

lemma walk_flat: "ks \<noteq> [] \<Longrightarrow> \<not> holds_properties v \<Longrightarrow> walk ks (Data v) = Absent"
  by (cases ks; cases "tl ks"; cases v) (auto simp: property_def holds_properties_def)

lemma walk_fresh: "ks \<noteq> [] \<Longrightarrow> set ks \<inter> set proto_keys = {} \<Longrightarrow> walk ks (Data (VObj [])) = Absent"
  by (cases ks; cases "tl ks") (auto simp: property_def own_property_def)

lemma child_walk:
  assumes "ks \<noteq> []" "set ks \<inter> set proto_keys = {}"
  shows "walk ks (Data (child k obj)) = walk ks (property k obj)"
  using walk_fresh[OF assms] walk_flat[OF assms(1)] assms(1)
  by (auto simp: child_def holds_properties_def split: found.splits jval.splits)

lemma put_path_frame:
  "put_path ks v obj = Inr obj' \<Longrightarrow> \<not> prefix ks qs \<Longrightarrow> \<not> prefix qs ks \<Longrightarrow> set qs \<inter> set proto_keys = {} \<Longrightarrow>
    ''length'' \<notin> set ks \<union> set qs \<Longrightarrow> walk qs (Data obj') = walk qs (Data obj)"
proof (induction ks v obj arbitrary: obj' qs rule: put_path.induct)
  case (2 k v obj)
  then show ?case by (cases qs) (auto simp: assign_frame)
next
  case (3 k l ks v obj)
  then obtain c where c: "put_path (l # ks) v (child k obj) = Inr c" "assign k c obj = Inr obj'"
    by (auto split: sum.splits)
  obtain k' qs' where qs: "qs = k' # qs'" using 3(4) by (cases qs) auto
  have kl: "k \<noteq> ''length''" using 3(6) by auto
  show ?case
  proof (cases "k' = k")
    case True
    then have q: "\<not> prefix (l # ks) qs'" "\<not> prefix qs' (l # ks)" "set qs' \<inter> set proto_keys = {}"
        "''length'' \<notin> set (l # ks) \<union> set qs'" "qs' \<noteq> []"
      using 3(3-6) qs by auto
    have "walk qs' (Data c) = walk qs' (property k obj)"
      using 3(1)[OF c(1) q(1-4)] child_walk[OF q(5,3)] by simp
    then show ?thesis using True qs assign_read[OF c(2) kl] by simp
  qed (use qs assign_frame[OF c(2) kl] 3(6) in auto)
qed simp

lemma pool_set_result:
  assumes "''__proto__'' \<notin> set (tl path)" "''length'' \<notin> set (tl path)"
  shows "(\<exists>p'. pool_set path v p = Inr p') \<longleftrightarrow>
    path \<noteq> [] \<and> (length path = 1 \<or> holds_properties (root_of (map_of p (hd path))))"
proof (cases path)
  case (Cons k ks)
  then show ?thesis
  proof (cases ks)
    case (Cons l ls)
    then show ?thesis using put_path_holds[of ks "root_of (map_of p k)" v] assms \<open>path = k # ks\<close>
      by (auto simp: pool_set_def outside_model_def split: if_splits)
  qed (use assms in \<open>simp add: pool_set_def outside_model_def\<close>)
qed (simp add: pool_set_def outside_model_def)

lemma pool_set_get:
  assumes "pool_set path v p = Inr p'" "''length'' \<notin> set (tl path)"
  shows "pool_get path p' = Inr (Some v)"
  using assms by (auto simp: pool_set_def pool_get_def found_of_def update_get split: list.splits sum.splits if_splits
      dest!: put_path_read)

lemma pool_set_frame:
  assumes "pool_set path v p = Inr p'" "\<not> prefix path q" "\<not> prefix q path" "set (tl q) \<inter> set proto_keys = {}"
    "''length'' \<notin> set (tl path) \<union> set (tl q)"
  shows "pool_get q p' = pool_get q p"
proof (cases path)
  case (Cons k ks)
  obtain k' qs where q: "q = k' # qs" using assms(3) by (cases q) auto
  show ?thesis
  proof (cases "k' = k")
    case True
    then have n: "\<not> prefix ks qs" "\<not> prefix qs ks" "set qs \<inter> set proto_keys = {}" "''length'' \<notin> set ks \<union> set qs" "qs \<noteq> []" "ks \<noteq> []"
      using assms q Cons by auto
    let ?r = "root_of (map_of p k)"
    obtain r where r: "put_path ks v ?r = Inr r" "p' = AList.update k r p"
      using assms(1) Cons n(6) by (auto simp: pool_set_def split: list.splits sum.splits if_splits)
    have "walk qs (Data ?r) = walk qs (found_of (map_of p k))"
      using walk_fresh[OF n(5,3)] walk_flat[OF n(5), of VNull] n(5)
      by (auto simp: root_of_def found_of_def holds_properties_def split: option.splits jval.splits)
    then show ?thesis using put_path_frame[OF r(1) n(1-4)] q True r(2) by (simp add: pool_get_def found_of_def update_get)
  next
    case False
    then show ?thesis using assms(1) q Cons
      by (auto simp: pool_set_def pool_get_def update_get split: list.splits sum.splits if_splits)
  qed
qed (use assms in simp)

subsection \<open>Validation of a graph\<close>

record graph_edge =
  ge_id :: ident
  ge_source :: ident
  ge_sourcePort :: ident
  ge_target :: ident
  ge_targetPort :: ident

record graph =
  gr_nodes :: "graph_node list"
  gr_edges :: "graph_edge list"

datatype graph_issue = DuplicateNode ident | UnknownNodeType ident | MissingParameter ident ident
  | DanglingEdge ident | InvalidSourcePort ident | InvalidTargetPort ident | Cycle ident | MissingRoot

type_synonym describer = "string \<Rightarrow> int \<Rightarrow> node_type option"

text \<open>\<open>node.config?.[id] === undefined\<close>\<close>
definition config_undefined :: "graph_node \<Rightarrow> string \<Rightarrow> bool" where
  "config_undefined n k = (case gn_config n of None \<Rightarrow> True | Some m \<Rightarrow> map_of m k = None \<and> k \<notin> set proto_keys)"

definition missing_parameters :: "graph_node \<Rightarrow> node_type \<Rightarrow> graph_issue list" where
  "missing_parameters n d = map (\<lambda>p. MissingParameter (gn_id n) (pm_id p))
     (filter (\<lambda>p. pm_required p \<and> config_undefined n (pm_id p) \<and> pm_defaultValue p = None) (nt_parameters d))"

fun check_nodes :: "describer \<Rightarrow> graph_node list \<Rightarrow> (ident, graph_node) kv \<Rightarrow> graph_issue list \<times> (ident, graph_node) kv" where
  "check_nodes desc [] m = ([], m)"
| "check_nodes desc (n # ns) m =
    (let r = check_nodes desc ns (AList.update (gn_id n) n m)
     in ((if map_of m (gn_id n) \<noteq> None then [DuplicateNode (gn_id n)] else []) @
         (case desc (gn_type n) (gn_typeVersion n) of None \<Rightarrow> [UnknownNodeType (gn_id n)] | Some d \<Rightarrow> missing_parameters n d) @
         fst r, snd r))"

definition successors_of :: "(ident, ident list) kv \<Rightarrow> ident \<Rightarrow> ident list" where
  "successors_of sc x = (case map_of sc x of None \<Rightarrow> [] | Some ys \<Rightarrow> ys)"

definition port_issues :: "describer \<Rightarrow> graph_edge \<Rightarrow> graph_node \<Rightarrow> graph_node \<Rightarrow> graph_issue list" where
  "port_issues desc e s t =
    (case desc (gn_type s) (gn_typeVersion s) of None \<Rightarrow> [] | Some d \<Rightarrow>
       if ge_sourcePort e \<notin> np_id ` set (nt_outputs d) then [InvalidSourcePort (ge_id e)] else []) @
    (case desc (gn_type t) (gn_typeVersion t) of None \<Rightarrow> [] | Some d \<Rightarrow>
       if ge_targetPort e \<notin> np_id ` set (nt_inputs d) then [InvalidTargetPort (ge_id e)] else [])"

fun check_edges :: "describer \<Rightarrow> (ident, graph_node) kv \<Rightarrow> graph_edge list \<Rightarrow> (ident, ident list) kv
    \<Rightarrow> graph_issue list \<times> (ident, ident list) kv" where
  "check_edges desc m [] sc = ([], sc)"
| "check_edges desc m (e # es) sc = (case (map_of m (ge_source e), map_of m (ge_target e)) of
     (Some s, Some t) \<Rightarrow>
       (let r = check_edges desc m es (AList.update (ge_source e) (successors_of sc (ge_source e) @ [ge_target e]) sc)
        in (port_issues desc e s t @ fst r, snd r))
   | _ \<Rightarrow> (let r = check_edges desc m es sc in (DanglingEdge (ge_id e) # fst r, snd r)))"

text \<open>The search: \<open>visit\<close> on each of a list of nodes, with the nodes being visited, the nodes already
  visited and the cycle reports so far.\<close>
function visit :: "(ident, ident list) kv \<Rightarrow> ident list \<Rightarrow> ident list \<Rightarrow> ident list \<times> ident list \<Rightarrow> ident list \<times> ident list" where
  "visit sc [] visiting st = st"
| "visit sc (x # xs) visiting st =
    (if x \<in> set visiting then visit sc xs visiting (fst st, snd st @ [x])
     else if x \<in> set (fst st) then visit sc xs visiting st
     else let st' = visit sc (successors_of sc x) (x # visiting) st
          in visit sc xs visiting (x # fst st', snd st'))"
  by pat_completeness auto

termination
proof (relation "inv_image (less_than <*lex*> less_than) (\<lambda>(sc, xs, visiting, st). (card (fst ` set sc - set visiting), length xs))",
    goal_cases)
  case 1
  show ?case by (intro wf_inv_image wf_lex_prod wf_less_than)
next
  case (4 sc x xs visiting st)
  show ?case
  proof (cases "x \<in> fst ` set sc")
    case True
    then have "fst ` set sc - set (x # visiting) \<subset> fst ` set sc - set visiting" using 4 by auto
    then have "card (fst ` set sc - set (x # visiting)) < card (fst ` set sc - set visiting)"
      by (intro psubset_card_mono) auto
    then show ?thesis by simp
  next
    case False
    then have "map_of sc x = None" by (simp add: map_of_eq_None_iff)
    moreover have "fst ` set sc - set (x # visiting) = fst ` set sc - set visiting" using False by auto
    ultimately show ?thesis by (simp add: successors_of_def)
  qed
qed simp_all

definition validateGraph :: "graph \<Rightarrow> describer \<Rightarrow> graph_issue list" where
  "validateGraph g desc =
    (let ns = check_nodes desc (gr_nodes g) []; es = check_edges desc (snd ns) (gr_edges g) []
     in fst ns @ fst es @ map Cycle (snd (visit (snd es) (map fst (snd ns)) [] ([], []))) @
        (if gr_nodes g \<noteq> [] \<and> (\<forall>n\<in>set (gr_nodes g). \<exists>e\<in>set (gr_edges g). ge_target e = gn_id n) then [MissingRoot] else []))"

subsection \<open>The search finds exactly the cycles\<close>

definition succ_rel :: "(ident, ident list) kv \<Rightarrow> (ident \<times> ident) set" where
  "succ_rel sc = {(x, y). y \<in> set (successors_of sc x)}"

lemma visit_grows: "set (fst st) \<subseteq> set (fst (visit sc xs vg st)) \<and> (\<exists>l. snd (visit sc xs vg st) = snd st @ l)"
proof (induction sc xs vg st rule: visit.induct)
  case (2 sc x xs vg st)
  show ?case
  proof (cases "x \<in> set vg \<or> x \<in> set (fst st)")
    case False
    let ?st' = "visit sc (successors_of sc x) (x # vg) st"
    obtain l1 where l1: "set (fst st) \<subseteq> set (fst ?st')" "snd ?st' = snd st @ l1" using 2(3) False by auto
    obtain l2 where "set (x # fst ?st') \<subseteq> set (fst (visit sc xs vg (x # fst ?st', snd ?st')))"
        "snd (visit sc xs vg (x # fst ?st', snd ?st')) = snd ?st' @ l2"
      using 2(4)[OF _ _ refl] False by auto
    then show ?thesis using l1 False by (auto simp: Let_def)
  qed (use 2(1,2) in auto)
qed simp

lemma visit_sound:
  assumes "\<forall>v\<in>set vg. \<forall>x\<in>set xs. (v, x) \<in> (succ_rel sc)\<^sup>+" "\<forall>x\<in>set (snd st). (x, x) \<in> (succ_rel sc)\<^sup>+"
  shows "\<forall>x\<in>set (snd (visit sc xs vg st)). (x, x) \<in> (succ_rel sc)\<^sup>+"
  using assms
proof (induction sc xs vg st rule: visit.induct)
  case (2 sc x xs vg st)
  show ?case
  proof (cases "x \<in> set vg \<or> x \<in> set (fst st)")
    case False
    have "\<forall>v\<in>set (x # vg). \<forall>y\<in>set (successors_of sc x). (v, y) \<in> (succ_rel sc)\<^sup>+"
      using 2(5) by (auto simp: succ_rel_def intro: trancl_into_trancl)
    then have "\<forall>y\<in>set (snd (visit sc (successors_of sc x) (x # vg) st)). (y, y) \<in> (succ_rel sc)\<^sup>+"
      using 2(3) 2(6) False by blast
    then show ?thesis using 2(4)[OF _ _ refl] 2(5) False by (auto simp: Let_def)
  qed (use 2(1,2,5,6) in auto)
qed simp

definition explored :: "(ident, ident list) kv \<Rightarrow> ident set \<Rightarrow> bool" where
  "explored sc V \<longleftrightarrow> succ_rel sc `` V \<subseteq> V \<and> (\<forall>x\<in>V. (x, x) \<notin> (succ_rel sc)\<^sup>+)"

lemma explored_reach: "explored sc V \<Longrightarrow> x \<in> V \<Longrightarrow> (x, y) \<in> (succ_rel sc)\<^sup>* \<Longrightarrow> y \<in> V"
  by (rotate_tac 2, induction rule: rtrancl_induct) (auto simp: explored_def)

lemma explored_insert:
  assumes "explored sc V" "set (successors_of sc x) \<subseteq> V" "x \<notin> V"
  shows "explored sc (insert x V)"
proof -
  have "(x, x) \<notin> (succ_rel sc)\<^sup>+"
  proof
    assume "(x, x) \<in> (succ_rel sc)\<^sup>+"
    then obtain y where "(x, y) \<in> succ_rel sc" "(y, x) \<in> (succ_rel sc)\<^sup>*" by (meson tranclD)
    then show False using explored_reach[OF assms(1), of y x] assms(2,3) by (auto simp: succ_rel_def)
  qed
  then show ?thesis using assms by (auto simp: explored_def succ_rel_def)
qed

lemma visit_complete:
  assumes "snd (visit sc xs vg st) = snd st" "explored sc (set (fst st))"
  shows "explored sc (set (fst (visit sc xs vg st))) \<and> set xs \<subseteq> set (fst (visit sc xs vg st)) \<and>
    set vg \<inter> set (fst (visit sc xs vg st)) \<subseteq> set (fst st)"
  using assms
proof (induction sc xs vg st rule: visit.induct)
  case (2 sc x xs vg st)
  consider (loop) "x \<in> set vg" | (seen) "x \<notin> set vg" "x \<in> set (fst st)" | (new) "x \<notin> set vg" "x \<notin> set (fst st)" by blast
  then show ?case
  proof cases
    case loop
    then show ?thesis using 2(5) visit_grows[of "(fst st, snd st @ [x])" sc xs vg] by auto
  next
    case seen
    then show ?thesis using 2(2,5,6) visit_grows[of st sc xs vg] by auto
  next
    case new
    let ?st' = "visit sc (successors_of sc x) (x # vg) st"
    let ?r = "visit sc xs vg (x # fst ?st', snd ?st')"
    have e: "snd ?r = snd st" using 2(5) new by (simp add: Let_def)
    moreover obtain l1 l2 where "snd ?st' = snd st @ l1" "snd ?r = snd ?st' @ l2" 
      using visit_grows[of st sc "successors_of sc x" "x # vg"] visit_grows[of "(x # fst ?st', snd ?st')" sc xs vg] by auto
    ultimately have s: "snd ?st' = snd st" "snd ?r = snd ?st'" by auto
    have a: "explored sc (set (fst ?st'))" "set (successors_of sc x) \<subseteq> set (fst ?st')"
        "set (x # vg) \<inter> set (fst ?st') \<subseteq> set (fst st)"
      using 2(3) 2(6) s(1) new by auto
    then have "x \<notin> set (fst ?st')" using new by auto
    then have "explored sc (set (x # fst ?st'))" using explored_insert[OF a(1,2)] by simp
    then have "explored sc (set (fst ?r)) \<and> set xs \<subseteq> set (fst ?r) \<and> set vg \<inter> set (fst ?r) \<subseteq> set (x # fst ?st')"
      using 2(4)[OF _ _ refl] new s(2) by simp
    then show ?thesis using a(3) new visit_grows[of "(x # fst ?st', snd ?st')" sc xs vg] by (auto simp: Let_def)
  qed
qed simp

lemma visit_all:
  assumes "fst ` set sc \<subseteq> set xs"
  shows "snd (visit sc xs [] ([], [])) = [] \<longleftrightarrow> acyclic (succ_rel sc)"
proof
  assume none: "snd (visit sc xs [] ([], [])) = []"
  have e: "explored sc (set (fst (visit sc xs [] ([], []))))" "set xs \<subseteq> set (fst (visit sc xs [] ([], [])))"
    using visit_complete[of sc xs "[]" "([], [])"] none by (auto simp: explored_def)
  have "x \<in> set xs" if edge: "(x, y) \<in> succ_rel sc" for x y
  proof -
    obtain ys where "map_of sc x = Some ys"
      using edge by (cases "map_of sc x") (simp_all add: succ_rel_def successors_of_def)
    then have "x \<in> fst ` set sc" by (metis fst_conv image_eqI map_of_SomeD)
    then show ?thesis using assms by auto
  qed
  then have "(x, x) \<notin> (succ_rel sc)\<^sup>+" for x
    using e by (meson explored_def subsetD tranclD)
  then show "acyclic (succ_rel sc)" by (simp add: acyclic_def)
next
  assume "acyclic (succ_rel sc)"
  then show "snd (visit sc xs [] ([], [])) = []"
    using visit_sound[of "[]" xs sc "([], [])"] by (cases "snd (visit sc xs [] ([], []))") (auto simp: acyclic_def)
qed

subsection \<open>The node and edge checks\<close>

definition edge_rel :: "graph_edge list \<Rightarrow> (ident \<times> ident) set" where
  "edge_rel es = (\<lambda>e. (ge_source e, ge_target e)) ` set es"

definition node_ok :: "describer \<Rightarrow> graph_node \<Rightarrow> bool" where
  "node_ok desc n \<longleftrightarrow> (\<exists>d. desc (gn_type n) (gn_typeVersion n) = Some d \<and>
     (\<forall>p\<in>set (nt_parameters d). pm_required p \<longrightarrow> \<not> config_undefined n (pm_id p) \<or> pm_defaultValue p \<noteq> None))"

definition edge_ok :: "describer \<Rightarrow> graph_node list \<Rightarrow> graph_edge \<Rightarrow> bool" where
  "edge_ok desc ns e \<longleftrightarrow> (\<exists>s\<in>set ns. \<exists>t\<in>set ns. gn_id s = ge_source e \<and> gn_id t = ge_target e \<and>
     (\<exists>d. desc (gn_type s) (gn_typeVersion s) = Some d \<and> ge_sourcePort e \<in> np_id ` set (nt_outputs d)) \<and>
     (\<exists>d. desc (gn_type t) (gn_typeVersion t) = Some d \<and> ge_targetPort e \<in> np_id ` set (nt_inputs d)))"

definition graph_ok :: "graph \<Rightarrow> describer \<Rightarrow> bool" where
  "graph_ok g desc \<longleftrightarrow> distinct (map gn_id (gr_nodes g)) \<and> (\<forall>n\<in>set (gr_nodes g). node_ok desc n) \<and>
     (\<forall>e\<in>set (gr_edges g). edge_ok desc (gr_nodes g) e) \<and> acyclic (edge_rel (gr_edges g))"

lemma missing_none: "desc (gn_type n) (gn_typeVersion n) = Some d \<Longrightarrow> missing_parameters n d = [] \<longleftrightarrow> node_ok desc n"
  by (auto simp: missing_parameters_def node_ok_def filter_empty_conv)

lemma check_nodes_none:
  "fst (check_nodes desc ns m) = [] \<longleftrightarrow>
    distinct (map gn_id ns) \<and> (\<forall>n\<in>set ns. map_of m (gn_id n) = None \<and> node_ok desc n)"
proof (induction desc ns m rule: check_nodes.induct)
  case (2 desc n ns m)
  have "(case desc (gn_type n) (gn_typeVersion n) of None \<Rightarrow> [UnknownNodeType (gn_id n)] | Some d \<Rightarrow> missing_parameters n d) = []
      \<longleftrightarrow> node_ok desc n"
    using missing_none[of desc n] by (auto simp: node_ok_def split: option.splits)
  then show ?case using 2 by (auto simp: Let_def update_get image_iff)
qed simp

lemma check_nodes_map:
  "map_of (snd (check_nodes desc ns m)) i = (case find (\<lambda>n. gn_id n = i) (rev ns) of None \<Rightarrow> map_of m i | Some n \<Rightarrow> Some n)"
proof (induction desc ns m rule: check_nodes.induct)
  case (2 desc n ns m)
  have "find P (xs @ [n]) = (case find P xs of None \<Rightarrow> if P n then Some n else None | Some x \<Rightarrow> Some x)" for P xs
    by (induction xs) auto
  then show ?case using 2 by (auto simp: Let_def update_get split: option.splits)
qed simp

lemma check_nodes_lookup:
  assumes "distinct (map gn_id ns)"
  shows "map_of (snd (check_nodes desc ns [])) i = Some n \<longleftrightarrow> n \<in> set ns \<and> gn_id n = i"
proof -
  have d: "distinct (map gn_id (rev ns))" using assms by (simp add: rev_map[symmetric])
  show ?thesis
    using find_distinct_key[OF d, of n] find_Some_mem[of "\<lambda>n. gn_id n = i" "rev ns" n]
    by (cases "find (\<lambda>n. gn_id n = i) (rev ns)") (auto simp: check_nodes_map find_None_iff[symmetric] simp del: find_None_iff)
qed

lemma check_edges_none:
  assumes m: "\<And>i n. map_of m i = Some n \<longleftrightarrow> n \<in> set ns \<and> gn_id n = i" and ok: "\<forall>n\<in>set ns. node_ok desc n"
  shows "fst (check_edges desc m es sc) = [] \<longleftrightarrow> (\<forall>e\<in>set es. edge_ok desc ns e)"
proof (induction es arbitrary: sc)
  case (Cons e es)
  have "edge_ok desc ns e \<longleftrightarrow> (\<exists>s t. map_of m (ge_source e) = Some s \<and> map_of m (ge_target e) = Some t \<and> port_issues desc e s t = [])"
  proof
    assume "edge_ok desc ns e"
    then show "\<exists>s t. map_of m (ge_source e) = Some s \<and> map_of m (ge_target e) = Some t \<and> port_issues desc e s t = []"
      by (fastforce simp: edge_ok_def m port_issues_def split: option.splits)
  next
    assume "\<exists>s t. map_of m (ge_source e) = Some s \<and> map_of m (ge_target e) = Some t \<and> port_issues desc e s t = []"
    then obtain s t where st: "s \<in> set ns" "t \<in> set ns" "gn_id s = ge_source e" "gn_id t = ge_target e" "port_issues desc e s t = []"
      by (auto simp: m)
    obtain d d' where d: "desc (gn_type s) (gn_typeVersion s) = Some d" "desc (gn_type t) (gn_typeVersion t) = Some d'"
      using ok st(1,2) by (meson node_ok_def)
    have "ge_sourcePort e \<in> np_id ` set (nt_outputs d)" "ge_targetPort e \<in> np_id ` set (nt_inputs d')"
      using st(5) d by (auto simp: port_issues_def split: if_splits)
    then show "edge_ok desc ns e" using d st unfolding edge_ok_def by blast
  qed
  then show ?case using Cons by (auto simp: Let_def split: option.splits)
qed simp

lemma check_edges_succ:
  assumes "\<forall>e\<in>set es. map_of m (ge_source e) \<noteq> None \<and> map_of m (ge_target e) \<noteq> None"
  shows "succ_rel (snd (check_edges desc m es sc)) = succ_rel sc \<union> edge_rel es"
  using assms
proof (induction es arbitrary: sc)
  case (Cons e es)
  obtain s t where st: "map_of m (ge_source e) = Some s" "map_of m (ge_target e) = Some t" using Cons.prems by auto
  have "succ_rel (AList.update (ge_source e) (successors_of sc (ge_source e) @ [ge_target e]) sc) =
      insert (ge_source e, ge_target e) (succ_rel sc)"
    by (auto simp: succ_rel_def successors_of_def update_get split: option.splits if_splits)
  then show ?case using Cons st by (auto simp: Let_def edge_rel_def)
qed (simp add: edge_rel_def)

lemma check_edges_keys: "fst ` set (snd (check_edges desc m es sc)) \<subseteq> fst ` set sc \<union> fst ` set m"
proof (induction es arbitrary: sc)
  case (Cons e es)
  let ?sc = "AList.update (ge_source e) (successors_of sc (ge_source e) @ [ge_target e]) sc"
  show ?case
  proof (cases "map_of m (ge_source e) \<noteq> None \<and> map_of m (ge_target e) \<noteq> None")
    case True
    then have mem: "ge_source e \<in> fst ` set m" by (auto simp: map_of_eq_None_iff)
    have eq: "snd (check_edges desc m (e # es) sc) = snd (check_edges desc m es ?sc)"
      using True by (auto simp: Let_def)
    have keys: "fst ` set ?sc = insert (ge_source e) (fst ` set sc)" using dom_update[of "ge_source e" _ sc] by simp
    have "fst ` set (snd (check_edges desc m es ?sc)) \<subseteq> insert (ge_source e) (fst ` set sc) \<union> fst ` set m"
      using Cons[of ?sc] unfolding keys .
    moreover have "insert (ge_source e) (fst ` set sc) \<union> fst ` set m = fst ` set sc \<union> fst ` set m" using mem by auto
    ultimately show ?thesis unfolding eq by (simp only:)
  next
    case False
    then have "snd (check_edges desc m (e # es) sc) = snd (check_edges desc m es sc)"
      by (auto simp: Let_def split: option.splits)
    then show ?thesis using Cons by simp
  qed
qed simp

text \<open>A finite acyclic graph has a node without an incoming edge.\<close>
lemma acyclic_root:
  assumes "acyclic (edge_rel es)" "n \<in> set ns"
    "\<forall>e\<in>set es. \<exists>s\<in>set ns. gn_id s = ge_source e"
  shows "\<exists>n\<in>set ns. \<forall>e\<in>set es. ge_target e \<noteq> gn_id n"
proof -
  have "wf (edge_rel es)" using assms(1) by (intro finite_acyclic_wf) (simp_all add: edge_rel_def)
  moreover have "gn_id n \<in> gn_id ` set ns" using assms(2) by simp
  ultimately obtain z where z: "z \<in> gn_id ` set ns" "\<And>y. (y, z) \<in> edge_rel es \<Longrightarrow> y \<notin> gn_id ` set ns"
    by (meson wfE_min)
  have "ge_target e \<noteq> z" if "e \<in> set es" for e
    using z(2)[of "ge_source e"] that assms(3) by (force simp: edge_rel_def)
  then show ?thesis using z(1) by auto
qed

lemma validate_ok:
  "validateGraph g desc = [] \<longleftrightarrow> graph_ok g desc"
proof -
  let ?ns = "check_nodes desc (gr_nodes g) []"
  let ?es = "check_edges desc (snd ?ns) (gr_edges g) []"
  show ?thesis
  proof (cases "distinct (map gn_id (gr_nodes g)) \<and> (\<forall>n\<in>set (gr_nodes g). node_ok desc n)")
    case True
    note look = check_nodes_lookup[of "gr_nodes g" desc]
    have nodes: "fst ?ns = []" using True by (simp add: check_nodes_none)
    have edges: "fst ?es = [] \<longleftrightarrow> (\<forall>e\<in>set (gr_edges g). edge_ok desc (gr_nodes g) e)"
      using True look by (intro check_edges_none) auto
    show ?thesis
    proof (cases "\<forall>e\<in>set (gr_edges g). edge_ok desc (gr_nodes g) e")
      case ok: True
      have "\<forall>e\<in>set (gr_edges g). map_of (snd ?ns) (ge_source e) \<noteq> None \<and> map_of (snd ?ns) (ge_target e) \<noteq> None"
        using ok True look by (fastforce simp: edge_ok_def)
      then have "succ_rel (snd ?es) = edge_rel (gr_edges g)"
        using check_edges_succ[of "gr_edges g" "snd ?ns" desc "[]"] by (simp add: succ_rel_def successors_of_def)
      moreover have "fst ` set (snd ?es) \<subseteq> set (map fst (snd ?ns))"
        using check_edges_keys[of desc "snd ?ns" "gr_edges g" "[]"] by simp
      ultimately have cyc: "snd (visit (snd ?es) (map fst (snd ?ns)) [] ([], [])) = [] \<longleftrightarrow> acyclic (edge_rel (gr_edges g))"
        using visit_all by metis
      have root: "gr_nodes g = [] \<or> (\<exists>n\<in>set (gr_nodes g). \<forall>e\<in>set (gr_edges g). ge_target e \<noteq> gn_id n)"
        if acyc: "acyclic (edge_rel (gr_edges g))"
      proof -
        have "\<forall>e\<in>set (gr_edges g). \<exists>s\<in>set (gr_nodes g). gn_id s = ge_source e" using ok by (auto simp: edge_ok_def)
        then show ?thesis using acyclic_root[OF acyc, of "hd (gr_nodes g)" "gr_nodes g"] hd_in_set[of "gr_nodes g"] by blast
      qed
      show ?thesis
      proof (cases "acyclic (edge_rel (gr_edges g))")
        case acyc: True
        show ?thesis using root[OF acyc] acyc nodes edges ok True cyc by (simp add: validateGraph_def Let_def graph_ok_def)
      next
        case False
        then show ?thesis using cyc by (simp add: validateGraph_def Let_def graph_ok_def)
      qed
    qed (use edges True in \<open>auto simp: validateGraph_def Let_def graph_ok_def\<close>)
  next
    case False
    then have "fst ?ns \<noteq> []" by (auto simp: check_nodes_none)
    then show ?thesis using False by (auto simp: validateGraph_def Let_def graph_ok_def)
  qed
qed

subsection \<open>Properties\<close>

text \<open>C36 The validation of a graph reports nothing exactly for the well-formed graphs: node identifiers are unique,
  every node has a registered type and its required parameters, every edge joins two nodes at ports
  their types have, and no path of edges leads from a node back to itself.  (The depth-first search
  ends on every graph, cyclic or not, and the check for an entry node adds nothing to this.)\<close>
theorem validate_graph_iff: "validateGraph g desc = [] \<longleftrightarrow> graph_ok g desc"
  by (rule validate_ok)


text \<open>An order with an array of lines: a write behind its end leaves a hole and extends it.\<close>
definition sample_pool :: pool where
  "sample_pool = [(''po'', VObj [(''status'', VStr ''draft''), (''lines'', VArr 1 [(''0'', VStr ''bolt'')])])]"

definition sample_pool' :: pool where
  "sample_pool' = [(''po'', VObj [(''status'', VStr ''draft''),
     (''lines'', VArr 3 [(''0'', VStr ''bolt''), (''2'', VObj [(''qty'', VBool True)])])])]"

lemma sample_index: "array_index ''2'' = Some 2"
proof -
  have "read_nat ''2'' = 2" by (simp add: read_nat_def)
  moreover have "nat_str 2 = ''2''" by code_simp
  ultimately show ?thesis by (simp add: array_index_def Let_def)
qed


end
