(* ===== verification/SignalGate.thy ===== *)
theory SignalGate
  imports GraphRuntime
begin

text \<open>
  The correlation of signals with the waits of a workflow run
  (\<open>packages/temporal-runtime/src/signal-correlation.ts\<close> and the contracts of \<open>types.ts\<close>): the binding an
  approval must match, the condition on an external event and the gate that accepts at most one of
  each while the run waits.  \<open>JSON.stringify\<close> of atoms is an argument.  Strings are those over the
  characters below 256, so the Chinese role names of \<open>canonicalApprovalRole\<close> do not occur.
\<close>

subsection \<open>Bindings\<close>

record wait_binding =
  wb_nodeId :: ident
  wb_assigneeRole :: string
  wb_allowedApproverRoles :: "string list"
  wb_businessObjectId :: ident
  wb_lineId :: "ident option"
  wb_decisionId :: ident
  wb_ruleVersion :: string
  wb_snapshotVersion :: string

datatype verdict = Approved | Rejected

record approval_signal =
  as_nodeId :: "ident option"
  as_decision :: verdict
  as_approverId :: "string option"
  as_approverRole :: "string option"
  as_businessObjectId :: "ident option"
  as_lineId :: "ident option"
  as_decisionId :: "ident option"
  as_ruleVersion :: "string option"
  as_snapshotVersion :: "string option"
  as_note :: "string option"

record event_signal =
  ev_nodeId :: "ident option"
  ev_eventType :: string
  ev_objectId :: "ident option"
  ev_payload :: "(string, json) kv option"

record event_wait =
  ew_nodeId :: ident
  ew_eventType :: "string option"
  ew_objectId :: "ident option"

definition nonempty_text :: "json option \<Rightarrow> string option" where
  "nonempty_text v = (case v of Some (JStr s) \<Rightarrow> (if trim s = [] then None else Some (trim s)) | _ \<Rightarrow> None)"

text \<open>\<open>node.parameters?.[key] ?? node.config?.[key]\<close>\<close>
definition node_setting :: "workflow_node \<Rightarrow> string \<Rightarrow> json option" where
  "node_setting n k =
    (let own = (\<lambda>m. case m of None \<Rightarrow> None | Some kvs \<Rightarrow> map_of kvs k)
     in case own (wn_parameters n) of None \<Rightarrow> own (wn_config n) | Some JNull \<Rightarrow> own (wn_config n) | Some v \<Rightarrow> Some v)"

definition configuredString :: "workflow_node \<Rightarrow> string \<Rightarrow> string option" where
  "configuredString n k = nonempty_text (node_setting n k)"

definition configuredStringArray :: "workflow_node \<Rightarrow> string \<Rightarrow> string list option" where
  "configuredStringArray n k = (case node_setting n k of
     Some (JArr xs) \<Rightarrow> (let roles = List.map_filter (\<lambda>x. nonempty_text (Some x)) xs in if roles = [] then None else Some roles)
   | _ \<Rightarrow> None)"

definition inputString :: "(string, json) kv \<Rightarrow> string \<Rightarrow> string option" where
  "inputString input k = nonempty_text (map_of input k)"

fun first_some :: "'a option list \<Rightarrow> 'a option" where
  "first_some [] = None"
| "first_some (None # xs) = first_some xs"
| "first_some (Some x # xs) = Some x"

definition or_else :: "'a option list \<Rightarrow> 'a \<Rightarrow> 'a" where
  "or_else xs d = (case first_some xs of None \<Rightarrow> d | Some x \<Rightarrow> x)"

definition DEFAULT_APPROVAL_ROLE_ESCALATIONS :: "(string \<times> string list) list" where
  "DEFAULT_APPROVAL_ROLE_ESCALATIONS = [(''buyer'', [''manager'']), (''manager'', [''director'']),
     (''finance'', [''finance_manager'', ''cfo''])]"

text \<open>\<open>[...new Set(xs)]\<close>\<close>
definition unique :: "string list \<Rightarrow> string list" where
  "unique xs = foldl (\<lambda>us x. if x \<in> set us then us else us @ [x]) [] xs"

text \<open>\<open>None\<close> stands for the \<open>TypeError\<close> of spreading what a role named like an inherited property finds
  in the escalation table.\<close>
definition approval_roles :: "workflow_node \<Rightarrow> string \<Rightarrow> string list option" where
  "approval_roles n role = (case configuredStringArray n ''escalationRoles'' of
     Some rs \<Rightarrow> Some (unique (role # rs))
   | None \<Rightarrow> if role \<in> set proto_keys then None
       else Some (unique (role # (case map_of DEFAULT_APPROVAL_ROLE_ESCALATIONS role of None \<Rightarrow> [] | Some rs \<Rightarrow> rs))))"

definition approvalWaitFor :: "workflow_node \<Rightarrow> (string, json) kv \<Rightarrow> ident \<Rightarrow> ident \<Rightarrow> wait_binding option" where
  "approvalWaitFor n input runId versionId =
    (let role = or_else [configuredString n ''assigneeRole''] (case wn_permission n of None \<Rightarrow> ''manager''
           | Some p \<Rightarrow> if trim p = [] then ''manager'' else trim p);
         object = or_else [configuredString n ''businessObjectId'', configuredString n ''objectId'',
           inputString input ''businessObjectId'', inputString input ''objectId''] (''run:'' @ runId);
         line = first_some [configuredString n ''lineId'', inputString input ''lineId''];
         snapshot = or_else [configuredString n ''snapshotVersion'', inputString input ''snapshotVersion''] versionId;
         rule = or_else [configuredString n ''ruleVersion'', inputString input ''ruleVersion''] (''workflow:'' @ versionId);
         decision = or_else [configuredString n ''decisionId'', inputString input ''decisionId'']
           (''approval:'' @ runId @ '':'' @ wn_id n @ '':'' @ snapshot)
     in case approval_roles n role of None \<Rightarrow> None
     | Some roles \<Rightarrow> Some \<lparr>wb_nodeId = wn_id n, wb_assigneeRole = role, wb_allowedApproverRoles = roles,
         wb_businessObjectId = object, wb_lineId = line, wb_decisionId = decision, wb_ruleVersion = rule,
         wb_snapshotVersion = snapshot\<rparr>)"

definition externalEventWaitFor :: "workflow_node \<Rightarrow> (string, json) kv \<Rightarrow> event_wait" where
  "externalEventWaitFor n input = \<lparr>ew_nodeId = wn_id n, ew_eventType = configuredString n ''eventType'',
     ew_objectId = first_some [configuredString n ''objectId'', inputString input ''objectId'', inputString input ''businessObjectId'']\<rparr>"

subsection \<open>Matching\<close>

definition nonEmptyString :: "string option \<Rightarrow> bool" where
  "nonEmptyString s = (case s of None \<Rightarrow> False | Some t \<Rightarrow> trim t \<noteq> [])"

definition canonicalApprovalRole :: "string \<Rightarrow> string" where
  "canonicalApprovalRole r = lowercase (trim r)"

definition approvalRoleAllowed :: "string \<Rightarrow> wait_binding \<Rightarrow> bool" where
  "approvalRoleAllowed r b \<longleftrightarrow> canonicalApprovalRole r \<in> canonicalApprovalRole ` set (wb_allowedApproverRoles b)"

definition matchesApproval :: "approval_signal \<Rightarrow> wait_binding \<Rightarrow> bool" where
  "matchesApproval s b \<longleftrightarrow> as_nodeId s = Some (wb_nodeId b) \<and> nonEmptyString (as_approverId s) \<and> nonEmptyString (as_approverRole s) \<and>
     as_businessObjectId s = Some (wb_businessObjectId b) \<and> as_lineId s = wb_lineId b \<and>
     as_decisionId s = Some (wb_decisionId b) \<and> as_ruleVersion s = Some (wb_ruleVersion b) \<and>
     as_snapshotVersion s = Some (wb_snapshotVersion b) \<and> approvalRoleAllowed (the (as_approverRole s)) b"

definition eventObjectId :: "event_signal \<Rightarrow> ident option" where
  "eventObjectId e = (if nonEmptyString (ev_objectId e) then Some (trim (the (ev_objectId e)))
     else case ev_payload e of None \<Rightarrow> None
       | Some p \<Rightarrow> nonempty_text (case map_of p ''objectId'' of None \<Rightarrow> map_of p ''businessObjectId''
           | Some JNull \<Rightarrow> map_of p ''businessObjectId'' | Some v \<Rightarrow> Some v))"

definition matchesExternalEvent :: "event_signal \<Rightarrow> event_wait \<Rightarrow> bool" where
  "matchesExternalEvent e w \<longleftrightarrow> ev_nodeId e = Some (ew_nodeId w) \<and>
     (ew_eventType w = None \<or> ew_eventType w = Some (ev_eventType e)) \<and>
     (ew_objectId w = None \<or> ew_objectId w = eventObjectId e)"

fun sortedJson :: "(json \<Rightarrow> string) \<Rightarrow> json \<Rightarrow> string" where
  "sortedJson J (JArr xs) = ''['' @ join '','' (map (sortedJson J) xs) @ '']''"
| "sortedJson J (JObj kvs) = ''{'' @ join '','' (map (\<lambda>(k, r). J (JStr k) @ '':'' @ r)
     (sort_key fst (map (\<lambda>(k, v). (k, sortedJson J v)) kvs))) @ ''}''"
| "sortedJson J v = J v"

definition externalEventKey :: "(json \<Rightarrow> string) \<Rightarrow> event_signal \<Rightarrow> string" where
  "externalEventKey J e = ev_eventType e @ nul @ (case eventObjectId e of None \<Rightarrow> [] | Some i \<Rightarrow> i) @ nul @
     (case ev_payload e of None \<Rightarrow> ''undefined'' | Some p \<Rightarrow> sortedJson J (JObj p))"

subsection \<open>The gate\<close>

record gate =
  sg_approvalWait :: "wait_binding option"
  sg_externalWait :: "event_wait option"
  sg_approval :: "approval_signal option"
  sg_externalEvent :: "event_signal option"
  sg_early :: "(ident, event_signal list) kv"

definition fresh_gate :: gate where
  "fresh_gate = \<lparr>sg_approvalWait = None, sg_externalWait = None, sg_approval = None, sg_externalEvent = None, sg_early = []\<rparr>"

definition beginApproval :: "wait_binding \<Rightarrow> gate \<Rightarrow> gate" where
  "beginApproval b g = g\<lparr>sg_approvalWait := Some b, sg_approval := None\<rparr>"

definition offerApproval :: "approval_signal \<Rightarrow> gate \<Rightarrow> bool \<times> gate" where
  "offerApproval s g = (case sg_approvalWait g of None \<Rightarrow> (False, g)
     | Some b \<Rightarrow> if sg_approval g \<noteq> None \<or> \<not> matchesApproval s b then (False, g) else (True, g\<lparr>sg_approval := Some s\<rparr>))"

definition awaits_approval :: "ident \<Rightarrow> gate \<Rightarrow> bool" where
  "awaits_approval i g = (case sg_approvalWait g of None \<Rightarrow> False | Some b \<Rightarrow> wb_nodeId b = i)"

definition hasApproval :: "ident \<Rightarrow> gate \<Rightarrow> bool" where
  "hasApproval i g \<longleftrightarrow> awaits_approval i g \<and> sg_approval g \<noteq> None"

definition takeApproval :: "ident \<Rightarrow> gate \<Rightarrow> approval_signal option \<times> gate" where
  "takeApproval i g = (if \<not> awaits_approval i g then (None, g)
     else (sg_approval g, g\<lparr>sg_approvalWait := None, sg_approval := None\<rparr>))"

definition early_of :: "ident \<Rightarrow> gate \<Rightarrow> event_signal list" where
  "early_of i g = (case map_of (sg_early g) i of None \<Rightarrow> [] | Some es \<Rightarrow> es)"

definition pendingExternalEventCount :: "ident \<Rightarrow> gate \<Rightarrow> nat" where
  "pendingExternalEventCount i g = length (early_of i g)"

definition beginExternalEvent :: "event_wait \<Rightarrow> gate \<Rightarrow> gate" where
  "beginExternalEvent w g = g\<lparr>sg_externalWait := Some w,
     sg_externalEvent := find (\<lambda>e. matchesExternalEvent e w) (early_of (ew_nodeId w) g),
     sg_early := AList.delete (ew_nodeId w) (sg_early g)\<rparr>"

definition MAX_EARLY_EXTERNAL_EVENTS_PER_NODE :: nat where
  "MAX_EARLY_EXTERNAL_EVENTS_PER_NODE = 32"

definition bufferEarlyExternalEvent :: "(json \<Rightarrow> string) \<Rightarrow> ident \<Rightarrow> event_signal \<Rightarrow> gate \<Rightarrow> bool \<times> gate" where
  "bufferEarlyExternalEvent J i e g =
    (let cs = early_of i g
     in if externalEventKey J e \<in> externalEventKey J ` set cs then (False, g)
        else (True, g\<lparr>sg_early := AList.update i ((if MAX_EARLY_EXTERNAL_EVENTS_PER_NODE \<le> length cs then tl cs else cs) @ [e])
               (sg_early g)\<rparr>))"

definition awaits_event :: "ident \<Rightarrow> gate \<Rightarrow> bool" where
  "awaits_event i g = (case sg_externalWait g of None \<Rightarrow> False | Some w \<Rightarrow> ew_nodeId w = i)"

definition offerExternalEvent :: "(json \<Rightarrow> string) \<Rightarrow> event_signal \<Rightarrow> gate \<Rightarrow> bool \<times> gate" where
  "offerExternalEvent J e g = (case ev_nodeId e of None \<Rightarrow> (False, g) | Some i \<Rightarrow>
     if i = [] then (False, g)
     else if awaits_event i g then
       (if sg_externalEvent g \<noteq> None \<or> \<not> matchesExternalEvent e (the (sg_externalWait g)) then (False, g)
        else (True, g\<lparr>sg_externalEvent := Some e\<rparr>))
     else bufferEarlyExternalEvent J i e g)"

definition hasExternalEvent :: "ident \<Rightarrow> gate \<Rightarrow> bool" where
  "hasExternalEvent i g \<longleftrightarrow> awaits_event i g \<and> sg_externalEvent g \<noteq> None"

definition takeExternalEvent :: "ident \<Rightarrow> gate \<Rightarrow> event_signal option \<times> gate" where
  "takeExternalEvent i g = (if \<not> awaits_event i g then (None, g)
     else (sg_externalEvent g, g\<lparr>sg_externalWait := None, sg_externalEvent := None\<rparr>))"

subsection \<open>The invariant\<close>

text \<open>What the gate holds matches what the run waits for, and the early events of a node are few,
  different and its own.\<close>
definition gate_ok :: "(json \<Rightarrow> string) \<Rightarrow> gate \<Rightarrow> bool" where
  "gate_ok J g \<longleftrightarrow>
     (\<forall>s. sg_approval g = Some s \<longrightarrow> (\<exists>b. sg_approvalWait g = Some b \<and> matchesApproval s b)) \<and>
     (\<forall>e. sg_externalEvent g = Some e \<longrightarrow> (\<exists>w. sg_externalWait g = Some w \<and> matchesExternalEvent e w)) \<and>
     (\<forall>i. length (early_of i g) \<le> MAX_EARLY_EXTERNAL_EVENTS_PER_NODE \<and> distinct (map (externalEventKey J) (early_of i g)) \<and>
       (\<forall>e\<in>set (early_of i g). ev_nodeId e = Some i))"

lemma early_frame [simp]:
  "early_of i (g\<lparr>sg_approvalWait := a\<rparr>) = early_of i g" "early_of i (g\<lparr>sg_approval := b\<rparr>) = early_of i g"
  "early_of i (g\<lparr>sg_externalEvent := e\<rparr>) = early_of i g" "early_of i (g\<lparr>sg_externalWait := w\<rparr>) = early_of i g"
  by (simp_all add: early_of_def)

lemma fresh_gate_ok: "gate_ok J fresh_gate"
  by (simp add: gate_ok_def fresh_gate_def early_of_def)

lemma beginApproval_ok: "gate_ok J g \<Longrightarrow> gate_ok J (beginApproval b g)"
  by (simp add: gate_ok_def beginApproval_def)

lemma offerApproval_ok: "gate_ok J g \<Longrightarrow> gate_ok J (snd (offerApproval s g))"
  by (auto simp: gate_ok_def offerApproval_def split: option.splits)

lemma takeApproval_ok: "gate_ok J g \<Longrightarrow> gate_ok J (snd (takeApproval i g))"
  by (simp add: gate_ok_def takeApproval_def)

lemma takeExternalEvent_ok: "gate_ok J g \<Longrightarrow> gate_ok J (snd (takeExternalEvent i g))"
  by (simp add: gate_ok_def takeExternalEvent_def)

lemma beginExternalEvent_ok:
  assumes "gate_ok J g"
  shows "gate_ok J (beginExternalEvent w g)"
proof -
  have "early_of i (beginExternalEvent w g) = (if i = ew_nodeId w then [] else early_of i g)" for i
    by (simp add: early_of_def beginExternalEvent_def delete_conv')
  then show ?thesis using assms
    by (auto simp: gate_ok_def) (auto simp: beginExternalEvent_def dest: find_Some_mem)
qed

lemma buffer_ok:
  assumes "gate_ok J g" "ev_nodeId e = Some i"
  shows "gate_ok J (snd (bufferEarlyExternalEvent J i e g))"
proof (cases "externalEventKey J e \<in> externalEventKey J ` set (early_of i g)")
  case False
  let ?cs = "early_of i g"
  let ?ds = "(if MAX_EARLY_EXTERNAL_EVENTS_PER_NODE \<le> length ?cs then tl ?cs else ?cs) @ [e]"
  have cs: "length ?cs \<le> 32" "distinct (map (externalEventKey J) ?cs)" "\<forall>e\<in>set ?cs. ev_nodeId e = Some i"
    using assms(1) by (auto simp: gate_ok_def MAX_EARLY_EXTERNAL_EVENTS_PER_NODE_def)
  have tl: "set (tl ?cs) \<subseteq> set ?cs" "distinct (map (externalEventKey J) (tl ?cs))"
    using cs(2) by (cases ?cs; auto)+
  have "length ?ds \<le> 32" "distinct (map (externalEventKey J) ?ds)" "\<forall>e\<in>set ?ds. ev_nodeId e = Some i"
    using cs tl False assms(2) by (auto simp: MAX_EARLY_EXTERNAL_EVENTS_PER_NODE_def)
  moreover have "early_of k (snd (bufferEarlyExternalEvent J i e g)) = (if k = i then ?ds else early_of k g)" for k
    using False by (simp add: bufferEarlyExternalEvent_def Let_def early_of_def update_get)
  ultimately show ?thesis using assms(1) False
    by (auto simp: gate_ok_def MAX_EARLY_EXTERNAL_EVENTS_PER_NODE_def) (auto simp: bufferEarlyExternalEvent_def Let_def)
qed (use assms in \<open>simp add: bufferEarlyExternalEvent_def Let_def\<close>)

lemma offerExternalEvent_ok:
  assumes "gate_ok J g"
  shows "gate_ok J (snd (offerExternalEvent J e g))"
proof (cases "ev_nodeId e")
  case (Some i)
  show ?thesis
  proof (cases "awaits_event i g")
    case True
    then obtain w where "sg_externalWait g = Some w" by (auto simp: awaits_event_def split: option.splits)
    then show ?thesis using assms True Some by (simp add: offerExternalEvent_def gate_ok_def)
  next
    case False
    then show ?thesis using buffer_ok[OF assms Some] assms Some by (simp add: offerExternalEvent_def)
  qed
qed (use assms in \<open>simp add: offerExternalEvent_def\<close>)

end
