(* ===== verification/GraphRun.thy ===== *)
theory GraphRun
  imports SignalGate
begin

text \<open>
  The execution of a published graph (\<open>workforceGraphWorkflow\<close> of
  \<open>packages/temporal-runtime/src/workflows.ts\<close>) as a machine that runs from one \<open>await\<close> to the next.
  A run holds its queue, visited nodes, workspace, approval budget, audit, signal gate, the state the
  query returns, the activity calls it has made and the \<open>await\<close> it is at; an event is a signal, the
  result of an activity, a timer or the resumption of a condition that has become true.  What the
  activities and the clock give are arguments of the events; display messages are left out.
\<close>

subsection \<open>Data\<close>

record run_input =
  ri_runId :: ident
  ri_mode :: run_mode
  ri_definition :: workflow_version
  ri_input :: "(string, json) kv"

datatype node_status = NodeCompleted | NodeBlocked | NodeFailed

record node_result =
  nr_status :: node_status
  nr_output :: "(string, json) kv"
  nr_selectedTargets :: "ident list option"
  nr_selectedEdgeLabels :: "string list option"
  nr_message :: string

datatype run_status = RunRunning | RunWaitingApproval | RunWaitingExternal | RunCompleted | RunRejected | RunFailed

record audit_entry =
  au_binding :: wait_binding
  au_approverId :: string
  au_approverRole :: string
  au_decision :: verdict
  au_decidedAt :: instant

record run_state =
  rs_status :: run_status
  rs_currentNodeId :: "ident option"
  rs_visitedNodeIds :: "ident list"
  rs_pendingApproval :: "wait_binding option"
  rs_approvalAudit :: "audit_entry list"

datatype phase = SupervisedPhase | ApprovalPhase

datatype await = AwaitApprovalUpdate phase workflow_node wait_binding | AwaitApproval phase workflow_node wait_binding
  | AwaitRejectUpdate | AwaitEventUpdate workflow_node | AwaitEvent workflow_node | AwaitNode workflow_node
  | AwaitSleep | AwaitFinalUpdate | AwaitFailUpdate string | Finished run_status | Crashed string

datatype call = ExecuteNode workflow_node "(string, json) kv"
  | UpdateRun run_status "wait_binding option" "(string, json) kv option"

record run =
  rn_state :: run_state
  rn_gate :: gate
  rn_queue :: "ident list"
  rn_queued :: "ident list"
  rn_visited :: "ident list"
  rn_workspace :: "(string, json) kv"
  rn_budget :: nat
  rn_audit :: "audit_entry list"
  rn_calls :: "call list"
  rn_at :: await

text \<open>Texts of instants, \<open>JSON.stringify\<close> of atoms.\<close>
record run_env =
  re_iso :: "instant \<Rightarrow> string"
  re_json :: "json \<Rightarrow> string"

datatype run_event = SignalApproval approval_signal | SignalEvent event_signal | Wake instant | Timer
  | UpdateDone "string option" | NodeDone "(string, node_result) result"

subsection \<open>Pieces of the loop\<close>

definition node_by_id :: "run_input \<Rightarrow> ident \<Rightarrow> workflow_node option" where
  "node_by_id inp i = find (\<lambda>n. wn_id n = i) (rev (wv_nodes (ri_definition inp)))"

definition isSideEffect :: "workflow_node \<Rightarrow> bool" where
  "isSideEffect n \<longleftrightarrow> (case wn_sideEffects n of None \<Rightarrow> False | Some es \<Rightarrow> es \<noteq> []) \<or> wn_kind n = KTool"

definition waits_in :: "run_mode \<Rightarrow> bool" where
  "waits_in m \<longleftrightarrow> m \<noteq> Simulate \<and> m \<noteq> Shadow"

definition optional_text :: "string \<Rightarrow> string option \<Rightarrow> (string \<times> json) list" where
  "optional_text k v = (case v of None \<Rightarrow> [] | Some x \<Rightarrow> [(k, JStr x)])"

definition audit_json :: "run_env \<Rightarrow> audit_entry \<Rightarrow> json" where
  "audit_json E a = (let b = au_binding a in JObj ([(''nodeId'', JStr (wb_nodeId b)),
     (''assigneeRole'', JStr (wb_assigneeRole b)), (''allowedApproverRoles'', JArr (map JStr (wb_allowedApproverRoles b))),
     (''businessObjectId'', JStr (wb_businessObjectId b))] @ optional_text ''lineId'' (wb_lineId b) @
     [(''decisionId'', JStr (wb_decisionId b)), (''ruleVersion'', JStr (wb_ruleVersion b)),
      (''snapshotVersion'', JStr (wb_snapshotVersion b)), (''approverId'', JStr (au_approverId a)),
      (''approverRole'', JStr (au_approverRole a)),
      (''decision'', JStr (case au_decision a of Approved \<Rightarrow> ''approved'' | Rejected \<Rightarrow> ''rejected'')),
      (''decidedAt'', JStr (re_iso E (au_decidedAt a)))]))"

definition event_json :: "event_signal \<Rightarrow> json" where
  "event_json e = JObj (optional_text ''nodeId'' (ev_nodeId e) @ [(''eventType'', JStr (ev_eventType e))] @
     optional_text ''objectId'' (ev_objectId e) @ (case ev_payload e of None \<Rightarrow> [] | Some p \<Rightarrow> [(''payload'', JObj p)]))"

text \<open>\<open>{ ...workspace, ...kvs }\<close>\<close>
definition spread_into :: "(string, json) kv \<Rightarrow> (string \<times> json) list \<Rightarrow> (string, json) kv" where
  "spread_into ws kvs = foldl (\<lambda>m kv. AList.update (fst kv) (snd kv) m) ws kvs"

definition set_status :: "run_status \<Rightarrow> run \<Rightarrow> run" where
  "set_status s r = r\<lparr>rn_state := (rn_state r)\<lparr>rs_status := s\<rparr>\<rparr>"

definition make_call :: "call \<Rightarrow> await \<Rightarrow> run \<Rightarrow> run" where
  "make_call c a r = r\<lparr>rn_calls := rn_calls r @ [c], rn_at := a\<rparr>"

text \<open>The \<open>catch\<close> block up to its update.\<close>
definition crash :: "string \<Rightarrow> run \<Rightarrow> run" where
  "crash e r = make_call (UpdateRun RunFailed None (Some (rn_workspace r))) (AwaitFailUpdate e) (set_status RunFailed r)"

text \<open>The first part of \<open>waitForApproval\<close>, up to its update.\<close>
definition begin_approval :: "run_input \<Rightarrow> phase \<Rightarrow> workflow_node \<Rightarrow> run \<Rightarrow> run" where
  "begin_approval inp ph n r =
    (let r1 = set_status RunWaitingApproval r
     in case approvalWaitFor n (ri_input inp) (ri_runId inp) (wv_versionId (ri_definition inp)) of
       None \<Rightarrow> crash ''not iterable'' r1
     | Some b \<Rightarrow> make_call (UpdateRun RunWaitingApproval (Some b) None) (AwaitApprovalUpdate ph n b)
         (r1\<lparr>rn_state := (rn_state r1)\<lparr>rs_pendingApproval := Some b, rs_approvalAudit := rn_audit r1\<rparr>\<rparr>))"

definition execute_node :: "workflow_node \<Rightarrow> run \<Rightarrow> run" where
  "execute_node n r = make_call (ExecuteNode n (rn_workspace r)) (AwaitNode n) r"

text \<open>The rest of an iteration after the approval node's wait, and after the supervised wait.\<close>
definition after_approval :: "run_input \<Rightarrow> workflow_node \<Rightarrow> run \<Rightarrow> run" where
  "after_approval inp n r =
    (if wn_type n = ''logic.wait_event'' \<and> waits_in (ri_mode inp)
     then make_call (UpdateRun RunWaitingExternal None None) (AwaitEventUpdate n) (set_status RunWaitingExternal r)
     else execute_node n r)"

definition after_supervised :: "run_input \<Rightarrow> workflow_node \<Rightarrow> run \<Rightarrow> run" where
  "after_supervised inp n r =
    (let r1 = (if ri_mode inp = Supervised \<and> isSideEffect n \<and> 0 < rn_budget r then r\<lparr>rn_budget := rn_budget r - 1\<rparr> else r)
     in if wn_kind n = KApproval \<and> waits_in (ri_mode inp) then begin_approval inp ApprovalPhase n r1
        else after_approval inp n r1)"

definition start_node :: "run_input \<Rightarrow> workflow_node \<Rightarrow> run \<Rightarrow> run" where
  "start_node inp n r =
    (let r1 = r\<lparr>rn_state := (rn_state r)\<lparr>rs_currentNodeId := Some (wn_id n), rs_status := RunRunning\<rparr>\<rparr>
     in if ri_mode inp = Supervised \<and> isSideEffect n \<and> rn_budget r1 = 0 then begin_approval inp SupervisedPhase n r1
        else after_supervised inp n r1)"

text \<open>The head of the \<open>while\<close> loop: skipping visited and unknown nodes.\<close>
fun pick_node :: "run_input \<Rightarrow> ident list \<Rightarrow> ident list \<Rightarrow> ident list \<Rightarrow> workflow_node option \<times> ident list \<times> ident list" where
  "pick_node inp visited [] queued = (None, [], queued)"
| "pick_node inp visited (i # q) queued =
    (if i \<in> set visited then pick_node inp visited q (removeAll i queued)
     else case node_by_id inp i of None \<Rightarrow> pick_node inp visited q (removeAll i queued)
     | Some n \<Rightarrow> (Some n, q, removeAll i queued))"

definition next_node :: "run_input \<Rightarrow> run \<Rightarrow> run" where
  "next_node inp r = (case pick_node inp (rn_visited r) (rn_queue r) (rn_queued r) of
     (Some n, q, qd) \<Rightarrow> start_node inp n (r\<lparr>rn_queue := q, rn_queued := qd\<rparr>)
   | (None, q, qd) \<Rightarrow>
       let r1 = r\<lparr>rn_queue := q, rn_queued := qd,
                 rn_state := (rn_state r)\<lparr>rs_status := RunCompleted, rs_currentNodeId := None\<rparr>\<rparr>
       in make_call (UpdateRun RunCompleted None (Some (rn_workspace r1))) AwaitFinalUpdate r1)"

text \<open>The second part of \<open>waitForApproval\<close> and what follows the decision.\<close>
definition decided :: "run_env \<Rightarrow> run_input \<Rightarrow> phase \<Rightarrow> workflow_node \<Rightarrow> wait_binding \<Rightarrow> instant \<Rightarrow> run \<Rightarrow> run" where
  "decided E inp ph n b t r =
    (case takeApproval (wn_id n) (rn_gate r) of
       (Some s, g) \<Rightarrow>
         (case (as_approverId s, as_approverRole s) of
           (Some who, Some role) \<Rightarrow>
             if who = [] \<or> role = [] then crash ''identity'' (r\<lparr>rn_gate := g\<rparr>)
             else
             (let audit = rn_audit r @ [\<lparr>au_binding = b, au_approverId = who, au_approverRole = role,
                    au_decision = as_decision s, au_decidedAt = t\<rparr>];
                  js = JArr (map (audit_json E) audit);
                  r1 = r\<lparr>rn_gate := g, rn_audit := audit,
                    rn_state := (rn_state r)\<lparr>rs_pendingApproval := None, rs_approvalAudit := audit\<rparr>,
                    rn_workspace := spread_into (rn_workspace r) [(''approvalAudit'', js), (''__readyworkApprovalAudit'', js)]\<rparr>
              in case as_decision s of
                   Rejected \<Rightarrow> make_call (UpdateRun RunRejected None (Some (rn_workspace r1))) AwaitRejectUpdate
                     (set_status RunRejected r1)
                 | Approved \<Rightarrow> (case ph of SupervisedPhase \<Rightarrow> after_supervised inp n r1
                     | ApprovalPhase \<Rightarrow> after_approval inp n (r1\<lparr>rn_budget := 1\<rparr>)))
         | _ \<Rightarrow> crash ''identity'' (r\<lparr>rn_gate := g\<rparr>))
     | (None, g) \<Rightarrow> crash ''identity'' (r\<lparr>rn_gate := g\<rparr>))"

definition event_taken :: "workflow_node \<Rightarrow> run \<Rightarrow> run" where
  "event_taken n r =
    (let ws = (if hasExternalEvent (wn_id n) (rn_gate r) then rn_workspace r
           else spread_into (rn_workspace r) [(''waitTimedOut'', JBool True), (''waitNodeId'', JStr (wn_id n))])
     in case takeExternalEvent (wn_id n) (rn_gate r) of
          (None, g) \<Rightarrow> execute_node n (r\<lparr>rn_gate := g, rn_workspace := ws\<rparr>)
        | (Some e, g) \<Rightarrow> execute_node n (r\<lparr>rn_gate := g, rn_workspace := spread_into ws [(''externalEvent'', event_json e)]\<rparr>))"

definition enqueue_target :: "ident list \<Rightarrow> ident list \<times> ident list \<Rightarrow> workflow_edge \<Rightarrow> ident list \<times> ident list" where
  "enqueue_target visited qs e = (if we_to e \<notin> set visited \<and> we_to e \<notin> set (snd qs)
     then (fst qs @ [we_to e], snd qs @ [we_to e]) else qs)"

definition node_finished :: "run_input \<Rightarrow> workflow_node \<Rightarrow> node_result \<Rightarrow> run \<Rightarrow> run" where
  "node_finished inp n res r =
    (if nr_status res = NodeFailed then crash (nr_message res) r
     else
       let ws = spread_into (rn_workspace r) (nr_output res @ [(''node.'' @ wn_id n, JObj (nr_output res)), (''lastNodeId'', JStr (wn_id n))]);
           visited = (if wn_id n \<in> set (rn_visited r) then rn_visited r else rn_visited r @ [wn_id n]);
           selected = selectWorkflowEdges (workflowOutgoingEdges (ri_definition inp) (wn_id n)) (nr_selectedTargets res)
             (nr_selectedEdgeLabels res) (wn_kind n);
           qs = foldl (enqueue_target visited) (rn_queue r, rn_queued r) selected
       in r\<lparr>rn_workspace := ws, rn_visited := visited, rn_state := (rn_state r)\<lparr>rs_visitedNodeIds := visited\<rparr>,
            rn_queue := fst qs, rn_queued := snd qs, rn_at := AwaitSleep\<rparr>)"

subsection \<open>The machine\<close>

definition update_done :: "run_input \<Rightarrow> string option \<Rightarrow> run \<Rightarrow> run" where
  "update_done inp err r = (case (rn_at r, err) of
     (AwaitApprovalUpdate ph n b, None) \<Rightarrow> r\<lparr>rn_gate := beginApproval b (rn_gate r), rn_at := AwaitApproval ph n b\<rparr>
   | (AwaitApprovalUpdate ph n b, Some e) \<Rightarrow> crash e r
   | (AwaitRejectUpdate, None) \<Rightarrow> r\<lparr>rn_at := Finished RunRejected\<rparr>
   | (AwaitRejectUpdate, Some e) \<Rightarrow> crash e r
   | (AwaitEventUpdate n, None) \<Rightarrow> r\<lparr>rn_gate := beginExternalEvent (externalEventWaitFor n (ri_input inp)) (rn_gate r),
       rn_at := AwaitEvent n\<rparr>
   | (AwaitEventUpdate n, Some e) \<Rightarrow> crash e r
   | (AwaitFinalUpdate, None) \<Rightarrow> r\<lparr>rn_at := Finished RunCompleted\<rparr>
   | (AwaitFinalUpdate, Some e) \<Rightarrow> crash e r
   | (AwaitFailUpdate e, None) \<Rightarrow> r\<lparr>rn_at := Crashed e\<rparr>
   | (AwaitFailUpdate e, Some e') \<Rightarrow> r\<lparr>rn_at := Crashed e'\<rparr>
   | _ \<Rightarrow> r)"

definition run_step :: "run_env \<Rightarrow> run_input \<Rightarrow> run_event \<Rightarrow> run \<Rightarrow> run" where
  "run_step E inp ev r = (case ev of
     SignalApproval s \<Rightarrow> r\<lparr>rn_gate := snd (offerApproval s (rn_gate r))\<rparr>
   | SignalEvent e \<Rightarrow> r\<lparr>rn_gate := snd (offerExternalEvent (re_json E) e (rn_gate r))\<rparr>
   | Wake t \<Rightarrow> (case rn_at r of
       AwaitApproval ph n b \<Rightarrow> if hasApproval (wn_id n) (rn_gate r) then decided E inp ph n b t r else r
     | AwaitEvent n \<Rightarrow> if hasExternalEvent (wn_id n) (rn_gate r) then event_taken n r else r
     | _ \<Rightarrow> r)
   | Timer \<Rightarrow> (case rn_at r of
       AwaitEvent n \<Rightarrow> (case wn_timeoutMs n of Some ms \<Rightarrow> if 0 < ms then event_taken n r else r | None \<Rightarrow> r)
     | AwaitSleep \<Rightarrow> next_node inp r
     | _ \<Rightarrow> r)
   | UpdateDone err \<Rightarrow> update_done inp err r
   | NodeDone res \<Rightarrow> (case rn_at r of
       AwaitNode n \<Rightarrow> (case res of Inl e \<Rightarrow> crash e r | Inr x \<Rightarrow> node_finished inp n x r)
     | _ \<Rightarrow> r))"

definition run_start :: "run_input \<Rightarrow> run" where
  "run_start inp =
    (let roots = workflowRootNodeIds (ri_definition inp);
         q = (if roots \<noteq> [] then roots else filter (\<lambda>i. i \<noteq> []) (map wn_id (take 1 (wv_nodes (ri_definition inp)))));
         ws = AList.delete ''__readyworkApprovalAudit'' (AList.delete ''approvalAudit'' (ri_input inp))
     in next_node inp \<lparr>rn_state = \<lparr>rs_status = RunRunning, rs_currentNodeId = None, rs_visitedNodeIds = [],
            rs_pendingApproval = None, rs_approvalAudit = []\<rparr>,
          rn_gate = fresh_gate, rn_queue = q, rn_queued = remdups q, rn_visited = [], rn_workspace = ws, rn_budget = 0,
          rn_audit = [], rn_calls = [], rn_at = AwaitSleep\<rparr>)"

definition run_events :: "run_env \<Rightarrow> run_input \<Rightarrow> run_event list \<Rightarrow> run \<Rightarrow> run" where
  "run_events E inp evs r = foldl (\<lambda>r ev. run_step E inp ev r) r evs"

lemma run_events_simps [simp]: "run_events E inp [] r = r"
  "run_events E inp (ev # evs) r = run_events E inp evs (run_step E inp ev r)"
  by (simp_all add: run_events_def)

lemma run_events_append: "run_events E inp (xs @ ys) r = run_events E inp ys (run_events E inp xs r)"
  by (simp add: run_events_def)

subsection \<open>What a run has done\<close>

definition executed :: "run \<Rightarrow> workflow_node list" where
  "executed r = concat (map (\<lambda>c. case c of ExecuteNode n ws \<Rightarrow> [n] | UpdateRun st b out \<Rightarrow> []) (rn_calls r))"

definition approvals :: "run \<Rightarrow> nat" where
  "approvals r = length (filter (\<lambda>a. au_decision a = Approved) (rn_audit r))"

definition side_effects :: "run \<Rightarrow> nat" where
  "side_effects r = length (filter isSideEffect (executed r))"

definition approved_for :: "workflow_node \<Rightarrow> run \<Rightarrow> bool" where
  "approved_for n r \<longleftrightarrow> (\<exists>a\<in>set (rn_audit r). au_decision a = Approved \<and> wb_nodeId (au_binding a) = wn_id n)"

definition bound_to :: "run_input \<Rightarrow> workflow_node \<Rightarrow> wait_binding \<Rightarrow> bool" where
  "bound_to inp n b \<longleftrightarrow> approvalWaitFor n (ri_input inp) (ri_runId inp) (wv_versionId (ri_definition inp)) = Some b"

text \<open>An audit entry is a decision by a permitted role under the binding of a node of the graph.\<close>
definition entry_ok :: "run_input \<Rightarrow> audit_entry \<Rightarrow> bool" where
  "entry_ok inp a \<longleftrightarrow> (\<exists>n\<in>set (wv_nodes (ri_definition inp)). bound_to inp n (au_binding a)) \<and>
     approvalRoleAllowed (au_approverRole a) (au_binding a)"

definition node_ids :: "run_input \<Rightarrow> ident set" where
  "node_ids inp = wn_id ` set (wv_nodes (ri_definition inp))"

text \<open>\<open>c\<close> is an approval not yet used up by an execution.\<close>
definition good :: "run_input \<Rightarrow> nat \<Rightarrow> run \<Rightarrow> bool" where
  "good inp c r \<longleftrightarrow> distinct (map wn_id (executed r)) \<and> set (executed r) \<subseteq> set (wv_nodes (ri_definition inp)) \<and>
     (ri_mode inp = Supervised \<longrightarrow> side_effects r + c \<le> approvals r) \<and> (\<forall>a\<in>set (rn_audit r). entry_ok inp a) \<and>
     (waits_in (ri_mode inp) \<longrightarrow> (\<forall>n\<in>set (executed r). wn_kind n = KApproval \<longrightarrow> approved_for n r))"

definition active :: "run_input \<Rightarrow> nat \<Rightarrow> run \<Rightarrow> bool" where
  "active inp c r \<longleftrightarrow> good inp (rn_budget r + c) r \<and> (\<forall>a\<in>set (rn_audit r). au_decision a = Approved) \<and>
     map wn_id (executed r) = rn_visited r"

definition here :: "run_input \<Rightarrow> workflow_node \<Rightarrow> run \<Rightarrow> bool" where
  "here inp n r \<longleftrightarrow> node_by_id inp (wn_id n) = Some n \<and> wn_id n \<notin> set (rn_visited r)"

definition covered :: "run_input \<Rightarrow> workflow_node \<Rightarrow> nat \<Rightarrow> bool" where
  "covered inp n c \<longleftrightarrow> (ri_mode inp = Supervised \<and> isSideEffect n \<longrightarrow> c = 1)"

definition ready :: "run_input \<Rightarrow> workflow_node \<Rightarrow> run \<Rightarrow> bool" where
  "ready inp n r \<longleftrightarrow> (\<exists>c. active inp c r \<and> covered inp n c) \<and> here inp n r \<and>
     (waits_in (ri_mode inp) \<and> wn_kind n = KApproval \<longrightarrow> approved_for n r)"

definition run_inv :: "run_input \<Rightarrow> run \<Rightarrow> bool" where
  "run_inv inp r \<longleftrightarrow> (case rn_at r of
     AwaitApprovalUpdate ph n b \<Rightarrow> sg_approvalWait (rn_gate r) = None \<and> bound_to inp n b \<and> here inp n r \<and>
       (\<exists>c. active inp c r \<and> (ph = ApprovalPhase \<longrightarrow> covered inp n c))
   | AwaitApproval ph n b \<Rightarrow> sg_approvalWait (rn_gate r) = Some b \<and> bound_to inp n b \<and> here inp n r \<and>
       (\<forall>s. sg_approval (rn_gate r) = Some s \<longrightarrow> matchesApproval s b) \<and>
       (\<exists>c. active inp c r \<and> (ph = ApprovalPhase \<longrightarrow> covered inp n c))
   | AwaitEventUpdate n \<Rightarrow> sg_approvalWait (rn_gate r) = None \<and> ready inp n r
   | AwaitEvent n \<Rightarrow> sg_approvalWait (rn_gate r) = None \<and> ready inp n r \<and>
       sg_externalWait (rn_gate r) = Some (externalEventWaitFor n (ri_input inp))
   | AwaitNode n \<Rightarrow> sg_approvalWait (rn_gate r) = None \<and> good inp (rn_budget r) r \<and> here inp n r \<and>
       (\<forall>a\<in>set (rn_audit r). au_decision a = Approved) \<and> map wn_id (executed r) = rn_visited r @ [wn_id n]
   | AwaitSleep \<Rightarrow> sg_approvalWait (rn_gate r) = None \<and> active inp 0 r
   | _ \<Rightarrow> sg_approvalWait (rn_gate r) = None \<and> good inp 0 r)"

lemma executed_same [simp]:
  "executed (r\<lparr>rn_state := st\<rparr>) = executed r" "executed (r\<lparr>rn_gate := g\<rparr>) = executed r" "executed (r\<lparr>rn_budget := k\<rparr>) = executed r"
  "executed (r\<lparr>rn_queue := q\<rparr>) = executed r" "executed (r\<lparr>rn_queued := qd\<rparr>) = executed r" "executed (r\<lparr>rn_at := a\<rparr>) = executed r"
  "executed (r\<lparr>rn_workspace := ws\<rparr>) = executed r" "executed (r\<lparr>rn_audit := au\<rparr>) = executed r" "executed (r\<lparr>rn_visited := v\<rparr>) = executed r"
  "executed (set_status s r) = executed r" "executed (make_call (UpdateRun s b out) a r) = executed r"
  "executed (make_call (ExecuteNode n ws) a r) = executed r @ [n]"
  by (simp_all add: executed_def set_status_def make_call_def)

lemma fields_kept [simp]:
  "rn_audit (set_status s r) = rn_audit r" "rn_audit (make_call c a r) = rn_audit r" "rn_budget (set_status s r) = rn_budget r"
  "rn_budget (make_call c a r) = rn_budget r" "rn_visited (set_status s r) = rn_visited r" "rn_visited (make_call c a r) = rn_visited r"
  "rn_gate (set_status s r) = rn_gate r" "rn_gate (make_call c a r) = rn_gate r" "rn_at (make_call c a r) = a"
  "rn_at (set_status s r) = rn_at r"
  by (simp_all add: set_status_def make_call_def)

text \<open>All of these look only at the executed nodes, the audit, the budget and the visited nodes.\<close>
lemma good_cong: "executed r' = executed r \<Longrightarrow> rn_audit r' = rn_audit r \<Longrightarrow> good inp c r' = good inp c r"
  by (simp add: good_def side_effects_def approvals_def approved_for_def)

lemma active_cong: "executed r' = executed r \<Longrightarrow> rn_audit r' = rn_audit r \<Longrightarrow> rn_budget r' = rn_budget r \<Longrightarrow>
    rn_visited r' = rn_visited r \<Longrightarrow> active inp c r' = active inp c r"
  using good_cong[of r' r inp] by (simp add: active_def)

lemma here_cong: "rn_visited r' = rn_visited r \<Longrightarrow> here inp n r' = here inp n r"
  by (simp add: here_def)

lemma ready_cong: "executed r' = executed r \<Longrightarrow> rn_audit r' = rn_audit r \<Longrightarrow> rn_budget r' = rn_budget r \<Longrightarrow>
    rn_visited r' = rn_visited r \<Longrightarrow> ready inp n r' = ready inp n r"
  using active_cong[of r' r inp] here_cong[of r' r inp n] by (simp add: ready_def approved_for_def)

lemma good_weaken: "good inp c r \<Longrightarrow> d \<le> c \<Longrightarrow> good inp d r"
  by (auto simp: good_def)

lemma active_good: "active inp c r \<Longrightarrow> good inp 0 r"
  by (auto simp: active_def elim: good_weaken)

lemma here_node: "here inp n r \<Longrightarrow> n \<in> set (wv_nodes (ri_definition inp))"
  by (auto simp: here_def node_by_id_def dest: find_Some_mem)

lemma crash_inv: "good inp 0 r \<Longrightarrow> sg_approvalWait (rn_gate r) = None \<Longrightarrow> run_inv inp (crash e r)"
  using good_cong[of "crash e r" r inp 0] by (simp add: run_inv_def crash_def)

lemma execute_inv:
  assumes "ready inp n r" "sg_approvalWait (rn_gate r) = None"
  shows "run_inv inp (execute_node n r)"
proof -
  obtain c where c: "active inp c r" "covered inp n c" using assms(1) by (auto simp: ready_def)
  have ex: "executed (execute_node n r) = executed r @ [n]" by (simp add: execute_node_def)
  have n: "n \<in> set (wv_nodes (ri_definition inp))" "here inp n r" using assms(1) here_node by (auto simp: ready_def)
  have "good inp (rn_budget r) (execute_node n r)"
    using c n assms(1) unfolding good_def ex
    by (auto simp: active_def good_def here_def covered_def ready_def side_effects_def approvals_def approved_for_def ex execute_node_def)
  then show ?thesis using n c assms(2) here_cong[of "execute_node n r" r inp n]
    by (simp add: run_inv_def execute_node_def active_def)
qed

lemma after_approval_inv:
  assumes "ready inp n r" "sg_approvalWait (rn_gate r) = None"
  shows "run_inv inp (after_approval inp n r)"
proof (cases "wn_type n = ''logic.wait_event'' \<and> waits_in (ri_mode inp)")
  case True
  then show ?thesis using assms by (simp add: after_approval_def run_inv_def) (subst ready_cong[where r = r], simp_all)
next
  case False
  then show ?thesis using execute_inv[OF assms] by (auto simp: after_approval_def)
qed

lemma begin_approval_inv:
  assumes "active inp c r" "ph = ApprovalPhase \<longrightarrow> covered inp n c" "here inp n r" "sg_approvalWait (rn_gate r) = None"
  shows "run_inv inp (begin_approval inp ph n r)"
proof (cases "approvalWaitFor n (ri_input inp) (ri_runId inp) (wv_versionId (ri_definition inp))")
  case None
  have "good inp 0 (set_status RunWaitingApproval r)" using active_good[OF assms(1)] by (subst good_cong[where r = r]) simp_all
  then show ?thesis using None crash_inv assms(4) by (simp add: begin_approval_def Let_def)
next
  case (Some b)
  let ?r = "begin_approval inp ph n r"
  have "executed ?r = executed r" "rn_audit ?r = rn_audit r" "rn_budget ?r = rn_budget r" "rn_visited ?r = rn_visited r"
    using Some by (simp_all add: begin_approval_def Let_def)
  then have "active inp c ?r" "here inp n ?r" using assms(1,3) active_cong[of ?r r inp c] here_cong[of ?r r inp n] by simp_all
  then show ?thesis using Some assms(2,4) by (auto simp: run_inv_def begin_approval_def Let_def bound_to_def)
qed

lemma after_supervised_inv:
  assumes a: "active inp c r" and cov: "rn_budget r = 0 \<longrightarrow> covered inp n c" and h: "here inp n r" "sg_approvalWait (rn_gate r) = None"
  shows "run_inv inp (after_supervised inp n r)"
proof -
  define r1 where "r1 = (if ri_mode inp = Supervised \<and> isSideEffect n \<and> 0 < rn_budget r then r\<lparr>rn_budget := rn_budget r - 1\<rparr> else r)"
  have same: "executed r1 = executed r" "rn_audit r1 = rn_audit r" "rn_visited r1 = rn_visited r" "rn_gate r1 = rn_gate r"
    by (simp_all add: r1_def)
  obtain c1 where c1: "active inp c1 r1" "covered inp n c1"
  proof (cases "ri_mode inp = Supervised \<and> isSideEffect n \<and> 0 < rn_budget r")
    case True
    then have "rn_budget r1 + 1 \<le> rn_budget r + c" by (simp add: r1_def)
    then have "active inp 1 r1" using a good_cong[OF same(1,2)] same by (auto simp: active_def intro: good_weaken)
    then show ?thesis using that by (simp add: covered_def)
  next
    case False
    then have "covered inp n c" using cov by (cases "rn_budget r = 0") (auto simp: covered_def)
    then show ?thesis using that a False by (simp add: r1_def)
  qed
  have h1: "here inp n r1" "sg_approvalWait (rn_gate r1) = None" using h here_cong[OF same(3)] same by simp_all
  show ?thesis
  proof (cases "wn_kind n = KApproval \<and> waits_in (ri_mode inp)")
    case True
    then show ?thesis using begin_approval_inv[OF c1(1) _ h1] c1(2)
      by (simp add: after_supervised_def Let_def r1_def[symmetric])
  next
    case False
    then have "ready inp n r1" using c1 h1 by (auto simp: ready_def)
    then show ?thesis using False after_approval_inv[OF _ h1(2)]
      by (auto simp: after_supervised_def Let_def r1_def[symmetric])
  qed
qed

lemma start_node_inv:
  assumes a: "active inp 0 r" and h: "here inp n r" "sg_approvalWait (rn_gate r) = None"
  shows "run_inv inp (start_node inp n r)"
proof -
  define r1 where "r1 = r\<lparr>rn_state := (rn_state r)\<lparr>rs_currentNodeId := Some (wn_id n), rs_status := RunRunning\<rparr>\<rparr>"
  have r1: "active inp 0 r1" "here inp n r1" "sg_approvalWait (rn_gate r1) = None" "rn_budget r1 = rn_budget r"
    using a h active_cong[of r1 r inp 0] here_cong[of r1 r inp n] by (simp_all add: r1_def)
  show ?thesis
  proof (cases "ri_mode inp = Supervised \<and> isSideEffect n \<and> rn_budget r1 = 0")
    case True
    then show ?thesis using begin_approval_inv[OF r1(1) _ r1(2,3), of SupervisedPhase]
      by (simp add: start_node_def Let_def r1_def[symmetric])
  next
    case False
    then have "rn_budget r1 = 0 \<longrightarrow> covered inp n 0" by (auto simp: covered_def)
    then show ?thesis using False after_supervised_inv[OF r1(1) _ r1(2,3)]
      by (auto simp: start_node_def Let_def r1_def[symmetric])
  qed
qed

lemma pick_node_here: "pick_node inp visited q qd = (Some n, q', qd') \<Longrightarrow> node_by_id inp (wn_id n) = Some n \<and> wn_id n \<notin> set visited"
proof (induction inp visited q qd rule: pick_node.induct)
  case (2 inp visited i q queued)
  then show ?case
    by (auto simp: node_by_id_def split: if_splits option.splits dest: find_Some_mem)
qed simp

lemma next_node_inv:
  assumes a: "active inp 0 r" and g: "sg_approvalWait (rn_gate r) = None"
  shows "run_inv inp (next_node inp r)"
proof -
  obtain on q qd where pick: "pick_node inp (rn_visited r) (rn_queue r) (rn_queued r) = (on, q, qd)" by (cases "pick_node inp (rn_visited r) (rn_queue r) (rn_queued r)")
  let ?r = "r\<lparr>rn_queue := q, rn_queued := qd\<rparr>"
  have r: "active inp 0 ?r" "sg_approvalWait (rn_gate ?r) = None" using a g active_cong[of ?r r inp 0] by simp_all
  show ?thesis
  proof (cases on)
    case None
    then show ?thesis using pick g active_good[OF a]
      by (simp add: next_node_def Let_def run_inv_def) (subst good_cong[where r = r], simp_all)
  next
    case (Some n)
    then have "here inp n ?r" using pick_node_here pick by (auto simp: here_def)
    then show ?thesis using pick Some start_node_inv[OF r(1) _ r(2)] by (simp add: next_node_def)
  qed
qed

text \<open>A decision recorded: the data grow by the entry.\<close>
lemma good_entry:
  assumes g: "good inp c r" and ex: "executed r1 = executed r" and au: "rn_audit r1 = rn_audit r @ [a]" and ok: "entry_ok inp a"
  shows "good inp (c + (if au_decision a = Approved then 1 else 0)) r1"
  using assms by (auto simp: good_def side_effects_def approvals_def approved_for_def)

lemma nonEmptyString_Some: "nonEmptyString x \<Longrightarrow> \<exists>t. x = Some t \<and> t \<noteq> []"
  by (cases x) (auto simp: nonEmptyString_def trim_def)

lemma decided_inv:
  assumes inv: "run_inv inp r" and pc: "rn_at r = AwaitApproval ph n b" and has: "hasApproval (wn_id n) (rn_gate r)"
  shows "run_inv inp (decided E inp ph n b t r)"
proof -
  obtain c where c: "active inp c r" "ph = ApprovalPhase \<longrightarrow> covered inp n c" and h: "here inp n r" "bound_to inp n b"
      and g: "sg_approvalWait (rn_gate r) = Some b"
    using inv pc by (auto simp: run_inv_def)
  obtain s where s: "sg_approval (rn_gate r) = Some s" "matchesApproval s b"
    using inv pc has by (auto simp: run_inv_def hasApproval_def)
  let ?g = "(rn_gate r)\<lparr>sg_approvalWait := None, sg_approval := None\<rparr>"
  have tk: "takeApproval (wn_id n) (rn_gate r) = (Some s, ?g)" using has s by (simp add: takeApproval_def hasApproval_def)
  have ms: "nonEmptyString (as_approverId s)" "nonEmptyString (as_approverRole s)" "approvalRoleAllowed (the (as_approverRole s)) b"
    using s(2) by (simp_all add: matchesApproval_def)
  obtain who role where w: "as_approverId s = Some who" "as_approverRole s = Some role" "who \<noteq> []" "role \<noteq> []"
    using nonEmptyString_Some[OF ms(1)] nonEmptyString_Some[OF ms(2)] by auto
  have role: "approvalRoleAllowed role b" using ms(3) w(2) by simp
  define a where "a = \<lparr>au_binding = b, au_approverId = who, au_approverRole = role, au_decision = as_decision s, au_decidedAt = t\<rparr>"
  have ok: "entry_ok inp a" using h here_node role by (auto simp: entry_ok_def a_def)
  define js where "js = JArr (map (audit_json E) (rn_audit r @ [a]))"
  define r1 where "r1 = r\<lparr>rn_gate := ?g, rn_audit := rn_audit r @ [a],
      rn_state := (rn_state r)\<lparr>rs_pendingApproval := None, rs_approvalAudit := rn_audit r @ [a]\<rparr>,
      rn_workspace := spread_into (rn_workspace r) [(''approvalAudit'', js), (''__readyworkApprovalAudit'', js)]\<rparr>"
  have r1: "executed r1 = executed r" "rn_audit r1 = rn_audit r @ [a]" "rn_visited r1 = rn_visited r" "rn_budget r1 = rn_budget r"
      "sg_approvalWait (rn_gate r1) = None"
    by (simp_all add: r1_def)
  have eq: "decided E inp ph n b t r = (case as_decision s of
      Rejected \<Rightarrow> make_call (UpdateRun RunRejected None (Some (rn_workspace r1))) AwaitRejectUpdate (set_status RunRejected r1)
    | Approved \<Rightarrow> (case ph of SupervisedPhase \<Rightarrow> after_supervised inp n r1 | ApprovalPhase \<Rightarrow> after_approval inp n (r1\<lparr>rn_budget := 1\<rparr>)))"
    using tk w by (cases "as_decision s"; cases ph) (simp_all add: decided_def Let_def a_def r1_def js_def)
  show ?thesis
  proof (cases "as_decision s")
    case Rejected
    have "good inp 0 r1" using good_entry[OF active_good[OF c(1)] r1(1,2) ok] by (rule good_weaken) simp
    then have "good inp 0 (make_call (UpdateRun RunRejected None (Some (rn_workspace r1))) AwaitRejectUpdate (set_status RunRejected r1))"
      by (subst good_cong[where r = r1]) simp_all
    then show ?thesis using Rejected r1 by (simp add: eq run_inv_def)
  next
    case Approved
    have gd: "good inp (rn_budget r + c + 1) r1"
      using good_entry[OF _ r1(1,2) ok, of "rn_budget r + c"] c(1) Approved by (simp add: active_def a_def)
    have all: "\<forall>x\<in>set (rn_audit r1). au_decision x = Approved" using c(1) Approved by (auto simp: r1 active_def a_def)
    have vis: "map wn_id (executed r1) = rn_visited r1" using c(1) by (simp add: r1 active_def)
    have h1: "here inp n r1" using h(1) here_cong[OF r1(3)] by simp
    show ?thesis
    proof (cases ph)
      case SupervisedPhase
      have "active inp 1 r1" using gd all vis by (auto simp: active_def r1 elim: good_weaken)
      then have "run_inv inp (after_supervised inp n r1)"
        using after_supervised_inv[of inp 1 r1 n] h1 r1(5) by (simp add: covered_def)
      then show ?thesis unfolding eq using Approved SupervisedPhase by simp
    next
      case ApprovalPhase
      let ?r2 = "r1\<lparr>rn_budget := 1\<rparr>"
      have "active inp c ?r2"
        using gd all vis good_cong[of ?r2 r1 inp] by (auto simp: active_def elim: good_weaken)
      moreover have "approved_for n ?r2"
        using Approved h(2) by (auto simp: approved_for_def r1 a_def bound_to_def approvalWaitFor_def Let_def split: option.splits)
      moreover have "here inp n ?r2" using h1 by (simp add: here_def)
      ultimately have "ready inp n ?r2" using c(2) ApprovalPhase by (auto simp: ready_def)
      then have "run_inv inp (after_approval inp n ?r2)" using after_approval_inv[of inp n ?r2] r1(5) by simp
      then show ?thesis unfolding eq using Approved ApprovalPhase by simp
    qed
  qed
qed

lemma event_taken_inv:
  assumes inv: "run_inv inp r" and pc: "rn_at r = AwaitEvent n"
  shows "run_inv inp (event_taken n r)"
proof -
  have r: "ready inp n r" "sg_approvalWait (rn_gate r) = None" using inv pc by (simp_all add: run_inv_def)
  have step: "run_inv inp (execute_node n (r\<lparr>rn_gate := g, rn_workspace := ws\<rparr>))" if "sg_approvalWait g = None" for g ws
    using that r by (intro execute_inv) (subst ready_cong[where r = r], simp_all)
  have "sg_approvalWait (snd (takeExternalEvent (wn_id n) (rn_gate r))) = None" using r(2) by (simp add: takeExternalEvent_def)
  then show ?thesis using step[of _ "rn_workspace r"]
    by (auto simp: event_taken_def Let_def split: prod.split option.split intro!: step)
qed

lemma node_finished_inv:
  assumes inv: "run_inv inp r" and pc: "rn_at r = AwaitNode n"
  shows "run_inv inp (node_finished inp n x r)"
proof -
  have r: "good inp (rn_budget r) r" "sg_approvalWait (rn_gate r) = None" "wn_id n \<notin> set (rn_visited r)"
      "\<forall>a\<in>set (rn_audit r). au_decision a = Approved" "map wn_id (executed r) = rn_visited r @ [wn_id n]"
    using inv pc by (auto simp: run_inv_def here_def)
  show ?thesis
  proof (cases "nr_status x = NodeFailed")
    case True
    then show ?thesis using crash_inv good_weaken[OF r(1)] r(2) by (simp add: node_finished_def)
  next
    case False
    let ?r = "node_finished inp n x r"
    have "executed ?r = executed r" "rn_audit ?r = rn_audit r" "rn_budget ?r = rn_budget r" "rn_visited ?r = rn_visited r @ [wn_id n]"
        "rn_at ?r = AwaitSleep" "rn_gate ?r = rn_gate r"
      using False r(3) by (simp_all add: node_finished_def Let_def executed_def)
    then show ?thesis using r good_cong[of ?r r inp "rn_budget r"] by (simp add: run_inv_def active_def)
  qed
qed

lemma crash_any:
  assumes "run_inv inp r" "sg_approvalWait (rn_gate r) = None"
  shows "run_inv inp (crash e r)"
proof -
  have "good inp 0 r" using assms(1)
    by (auto simp: run_inv_def ready_def dest: active_good elim: good_weaken split: await.splits)
  then show ?thesis using crash_inv assms(2) by simp
qed

lemma set_at_good: "good inp 0 r \<Longrightarrow> good inp 0 (r\<lparr>rn_at := a\<rparr>)"
  by (subst good_cong[where r = r]) simp_all

lemma update_done_inv:
  assumes inv: "run_inv inp r"
  shows "run_inv inp (update_done inp err r)"
proof (cases "rn_at r")
  case (AwaitApprovalUpdate ph n b)
  then have g: "sg_approvalWait (rn_gate r) = None" using inv by (simp add: run_inv_def)
  have "run_inv inp (r\<lparr>rn_gate := beginApproval b (rn_gate r), rn_at := AwaitApproval ph n b\<rparr>)"
    using inv AwaitApprovalUpdate active_cong[of "r\<lparr>rn_gate := beginApproval b (rn_gate r), rn_at := AwaitApproval ph n b\<rparr>" r inp]
    by (simp add: run_inv_def here_def beginApproval_def)
  then show ?thesis using AwaitApprovalUpdate crash_any[OF inv g] by (simp add: update_done_def split: option.split)
next
  case (AwaitEventUpdate n)
  then have g: "sg_approvalWait (rn_gate r) = None" using inv by (simp add: run_inv_def)
  let ?r = "r\<lparr>rn_gate := beginExternalEvent (externalEventWaitFor n (ri_input inp)) (rn_gate r), rn_at := AwaitEvent n\<rparr>"
  have "run_inv inp ?r"
    using inv AwaitEventUpdate ready_cong[of ?r r inp n] by (simp add: run_inv_def beginExternalEvent_def)
  then show ?thesis using AwaitEventUpdate crash_any[OF inv g] by (simp add: update_done_def split: option.split)
next
  case AwaitRejectUpdate
  then have g: "sg_approvalWait (rn_gate r) = None" "good inp 0 r" using inv by (simp_all add: run_inv_def)
  then show ?thesis using AwaitRejectUpdate crash_any[OF inv g(1)] set_at_good
    by (auto simp: update_done_def run_inv_def split: option.split)
next
  case AwaitFinalUpdate
  then have g: "sg_approvalWait (rn_gate r) = None" "good inp 0 r" using inv by (simp_all add: run_inv_def)
  then show ?thesis using AwaitFinalUpdate crash_any[OF inv g(1)] set_at_good
    by (auto simp: update_done_def run_inv_def split: option.split)
next
  case (AwaitFailUpdate e)
  then have g: "sg_approvalWait (rn_gate r) = None" "good inp 0 r" using inv by (simp_all add: run_inv_def)
  then show ?thesis using AwaitFailUpdate set_at_good by (auto simp: update_done_def run_inv_def split: option.split)
qed (use inv in \<open>simp_all add: update_done_def\<close>)

lemma signal_inv:
  assumes inv: "run_inv inp r" and g: "sg_approvalWait g = sg_approvalWait (rn_gate r)" "sg_externalWait g = sg_externalWait (rn_gate r)"
    and m: "\<And>s b. sg_approvalWait (rn_gate r) = Some b \<Longrightarrow> sg_approval g = Some s \<Longrightarrow>
      \<forall>s'. sg_approval (rn_gate r) = Some s' \<longrightarrow> matchesApproval s' b \<Longrightarrow> matchesApproval s b"
  shows "run_inv inp (r\<lparr>rn_gate := g\<rparr>)"
proof -
  let ?r = "r\<lparr>rn_gate := g\<rparr>"
  have "good inp k ?r = good inp k r" "active inp k ?r = active inp k r" "here inp n ?r = here inp n r" "ready inp n ?r = ready inp n r" for k n
    by (rule good_cong active_cong here_cong ready_cong; simp)+
  then show ?thesis using inv g m by (auto simp: run_inv_def split: await.splits)
qed

lemma run_step_inv:
  assumes inv: "run_inv inp r"
  shows "run_inv inp (run_step E inp ev r)"
proof (cases ev)
  case (SignalApproval s)
  then show ?thesis
    by (simp add: run_step_def) (rule signal_inv[OF inv], auto simp: offerApproval_def split: option.splits if_splits)
next
  case (SignalEvent e)
  then show ?thesis
    by (simp add: run_step_def)
       (rule signal_inv[OF inv], auto simp: offerExternalEvent_def bufferEarlyExternalEvent_def Let_def split: option.splits if_splits)
next
  case (Wake t)
  then show ?thesis using inv decided_inv[OF inv] event_taken_inv[OF inv] by (auto simp: run_step_def split: await.splits)
next
  case Timer
  then show ?thesis using inv event_taken_inv[OF inv] next_node_inv[of inp r]
    by (auto simp: run_step_def run_inv_def split: await.splits option.splits)
next
  case (UpdateDone err)
  then show ?thesis using update_done_inv[OF inv] by (simp add: run_step_def)
next
  case (NodeDone res)
  show ?thesis
  proof (cases "rn_at r")
    case (AwaitNode n)
    then have "sg_approvalWait (rn_gate r) = None" using inv by (simp add: run_inv_def)
    then show ?thesis using AwaitNode NodeDone crash_any[OF inv] node_finished_inv[OF inv] by (simp add: run_step_def split: sum.split)
  qed (use inv NodeDone in \<open>simp_all add: run_step_def\<close>)
qed

lemma run_start_inv: "run_inv inp (run_start inp)"
  unfolding run_start_def Let_def
  by (rule next_node_inv) (simp_all add: active_def good_def executed_def side_effects_def fresh_gate_def)

lemma run_events_inv: "run_inv inp r \<Longrightarrow> run_inv inp (run_events E inp evs r)"
  by (induction evs arbitrary: r) (simp_all add: run_step_inv)

subsection \<open>Every run ends\<close>

fun rank :: "await \<Rightarrow> nat" where
  "rank (AwaitApprovalUpdate SupervisedPhase n b) = 9" | "rank (AwaitApproval SupervisedPhase n b) = 8"
| "rank (AwaitApprovalUpdate ApprovalPhase n b) = 7" | "rank (AwaitApproval ApprovalPhase n b) = 6"
| "rank (AwaitEventUpdate n) = 5" | "rank (AwaitEvent n) = 4" | "rank (AwaitNode n) = 3" | "rank AwaitSleep = 10"
| "rank AwaitRejectUpdate = 2" | "rank AwaitFinalUpdate = 2" | "rank (AwaitFailUpdate e) = 1"
| "rank (Finished s) = 0" | "rank (Crashed e) = 0"

definition weight :: "run_input \<Rightarrow> run \<Rightarrow> nat" where
  "weight inp r = 10 * card (node_ids inp - set (rn_visited r)) + rank (rn_at r)"

definition lands :: "nat \<Rightarrow> run \<Rightarrow> run \<Rightarrow> bool" where
  "lands k r r' \<longleftrightarrow> rn_visited r' = rn_visited r \<and> rank (rn_at r') \<le> k"

lemma lands_from: "lands k r1 r' \<Longrightarrow> rn_visited r1 = rn_visited r \<Longrightarrow> k \<le> l \<Longrightarrow> lands l r r'"
  by (auto simp: lands_def)

lemma lands_crash: "rn_visited r1 = rn_visited r \<Longrightarrow> 1 \<le> k \<Longrightarrow> lands k r (crash e r1)"
  by (simp add: lands_def crash_def)

lemma lands_execute: "lands 3 r (execute_node n r)"
  by (simp add: lands_def execute_node_def)

lemma lands_after_approval: "lands 5 r (after_approval inp n r)"
  using lands_execute[of r n] by (auto simp: after_approval_def lands_def)

lemma lands_begin: "lands (case ph of SupervisedPhase \<Rightarrow> 9 | ApprovalPhase \<Rightarrow> 7) r (begin_approval inp ph n r)"
  by (cases ph) (auto simp: begin_approval_def Let_def lands_def crash_def split: option.split)

lemma lands_after_supervised: "lands 7 r (after_supervised inp n r)"
  by (auto simp: after_supervised_def Let_def
    intro!: lands_from[OF lands_begin] lands_from[OF lands_after_approval])

lemma lands_start: "lands 9 r (start_node inp n r)"
  by (auto simp: start_node_def Let_def intro!: lands_from[OF lands_begin] lands_from[OF lands_after_supervised])

lemma lands_next: "lands 9 r (next_node inp r)"
proof -
  obtain on q qd where p: "pick_node inp (rn_visited r) (rn_queue r) (rn_queued r) = (on, q, qd)"
    by (cases "pick_node inp (rn_visited r) (rn_queue r) (rn_queued r)")
  show ?thesis
  proof (cases on)
    case None
    then show ?thesis using p by (simp add: next_node_def Let_def lands_def)
  next
    case (Some n)
    then show ?thesis using p by (simp add: next_node_def lands_from[OF lands_start])
  qed
qed

lemma lands_decided: "lands (case ph of SupervisedPhase \<Rightarrow> 7 | ApprovalPhase \<Rightarrow> 5) r (decided E inp ph n b t r)"
proof (cases ph)
  case SupervisedPhase
  then show ?thesis
    by (auto simp: decided_def Let_def split: prod.split option.split verdict.split
      intro!: lands_crash lands_from[OF lands_after_supervised]) (simp_all add: lands_def)
next
  case ApprovalPhase
  then show ?thesis
    by (auto simp: decided_def Let_def split: prod.split option.split verdict.split
      intro!: lands_crash lands_from[OF lands_after_approval]) (simp_all add: lands_def)
qed

lemma lands_event: "lands 3 r (event_taken n r)"
  by (auto simp: event_taken_def Let_def split: prod.split option.split intro!: lands_from[OF lands_execute])

lemma weight_lands: "lands k r r' \<Longrightarrow> k < rank (rn_at r) \<Longrightarrow> weight inp r' < weight inp r"
  by (auto simp: lands_def weight_def)

lemma weight_finished:
  assumes "here inp n r" "rn_at r = AwaitNode n"
  shows "weight inp (node_finished inp n x r) < weight inp r"
proof (cases "nr_status x = NodeFailed")
  case True
  then show ?thesis using weight_lands[OF lands_crash[of r r 1]] assms(2) by (simp add: node_finished_def)
next
  case False
  have n: "wn_id n \<in> node_ids inp - set (rn_visited r)"
    using here_node[OF assms(1)] assms(1) by (auto simp: node_ids_def here_def)
  have "node_ids inp - set (rn_visited r @ [wn_id n]) = node_ids inp - set (rn_visited r) - {wn_id n}" by auto
  then have "card (node_ids inp - set (rn_visited r)) = Suc (card (node_ids inp - set (rn_visited r @ [wn_id n])))"
    using n by (simp only:) (intro card.remove, auto simp: node_ids_def)
  moreover have "rn_visited (node_finished inp n x r) = rn_visited r @ [wn_id n]" "rn_at (node_finished inp n x r) = AwaitSleep"
    using False assms(1) by (simp_all add: node_finished_def Let_def here_def)
  ultimately show ?thesis using assms(2) by (simp add: weight_def)
qed

text \<open>A step leaves the run at its \<open>await\<close> with the same nodes visited, or brings it nearer to its end.\<close>
lemma step_weight:
  assumes inv: "run_inv inp r"
  shows "(rn_at (run_step E inp ev r) = rn_at r \<and> rn_visited (run_step E inp ev r) = rn_visited r) \<or>
    weight inp (run_step E inp ev r) < weight inp r"
proof (cases ev)
  case (Wake t)
  have d: "weight inp (decided E inp ph n b t r) < weight inp r" if "rn_at r = AwaitApproval ph n b" for ph n b
    by (rule weight_lands[OF lands_decided]) (use that in \<open>simp split: phase.split\<close>)
  have e: "weight inp (event_taken n r) < weight inp r" if "rn_at r = AwaitEvent n" for n
    by (rule weight_lands[OF lands_event]) (use that in simp)
  show ?thesis using Wake d e by (cases "rn_at r") (auto simp: run_step_def)
next
  case Timer
  have e: "weight inp (event_taken n r) < weight inp r" if "rn_at r = AwaitEvent n" for n
    by (rule weight_lands[OF lands_event]) (use that in simp)
  have s: "weight inp (next_node inp r) < weight inp r" if "rn_at r = AwaitSleep"
    by (rule weight_lands[OF lands_next]) (use that in simp)
  show ?thesis using Timer e s by (cases "rn_at r") (auto simp: run_step_def split: option.split)
next
  case (UpdateDone err)
  have c: "weight inp (crash e r) < weight inp r" if "1 < rank (rn_at r)" for e
    by (rule weight_lands[OF lands_crash[of r r 1]]) (use that in simp_all)
  show ?thesis using UpdateDone c
    by (cases "rn_at r"; cases err; cases "rn_at r" rule: rank.cases) (auto simp: run_step_def update_done_def weight_def)
next
  case (NodeDone res)
  show ?thesis
  proof (cases "rn_at r")
    case (AwaitNode n)
    then have "here inp n r" using inv by (simp add: run_inv_def)
    then have f: "weight inp (node_finished inp n x r) < weight inp r" for x by (rule weight_finished) (rule AwaitNode)
    have c: "weight inp (crash e r) < weight inp r" for e
      by (rule weight_lands[OF lands_crash[of r r 1]]) (use AwaitNode in simp_all)
    show ?thesis using f c NodeDone AwaitNode by (cases res) (simp_all add: run_step_def)
  qed (simp_all add: NodeDone run_step_def)
qed (simp_all add: run_step_def)

text \<open>How often the run gets on from an \<open>await\<close> to another.\<close>
fun moves :: "run_env \<Rightarrow> run_input \<Rightarrow> run_event list \<Rightarrow> run \<Rightarrow> nat" where
  "moves E inp [] r = 0"
| "moves E inp (ev # evs) r = (if rn_at (run_step E inp ev r) = rn_at r then 0 else 1) + moves E inp evs (run_step E inp ev r)"

lemma moves_weight: "run_inv inp r \<Longrightarrow> moves E inp evs r \<le> weight inp r"
proof (induction evs arbitrary: r)
  case (Cons ev evs)
  have "moves E inp evs (run_step E inp ev r) \<le> weight inp (run_step E inp ev r)" using Cons run_step_inv by simp
  moreover have "weight inp (run_step E inp ev r) = weight inp r" if "rn_at (run_step E inp ev r) = rn_at r \<and> rn_visited (run_step E inp ev r) = rn_visited r"
    using that by (simp add: weight_def)
  ultimately show ?case using step_weight[OF Cons.prems, of E ev] by auto
qed simp

lemma start_weight: "weight inp (run_start inp) \<le> 10 * length (wv_nodes (ri_definition inp)) + 9"
proof -
  define r where "r = run_start inp"
  have "card (node_ids inp - set (rn_visited r)) \<le> card (node_ids inp)" by (intro card_mono) (auto simp: node_ids_def)
  also have "\<dots> \<le> length (wv_nodes (ri_definition inp))"
    unfolding node_ids_def by (rule order_trans[OF card_image_le card_length]) simp
  finally have "card (node_ids inp - set (rn_visited r)) \<le> length (wv_nodes (ri_definition inp))" .
  moreover have "rank (rn_at r) \<le> 9" using lands_next by (auto simp: r_def run_start_def Let_def lands_def)
  ultimately show ?thesis by (simp add: weight_def r_def)
qed

definition ended :: "run \<Rightarrow> bool" where
  "ended r \<longleftrightarrow> (\<exists>s. rn_at r = Finished s) \<or> (\<exists>e. rn_at r = Crashed e)"

subsection \<open>A waiting run can always go on\<close>

declare trim_trim [simp]

lemma nonempty_text_trim: "nonempty_text v = Some s \<Longrightarrow> trim s = s \<and> s \<noteq> []"
  by (auto simp: nonempty_text_def split: option.splits json.splits if_splits)

lemma first_some_one: "first_some [x] = x"
  by (cases x) simp_all

lemma first_some_in: "first_some xs = Some x \<Longrightarrow> Some x \<in> set xs"
  by (induction xs rule: first_some.induct) auto

lemma unique_set: "set (unique xs) = set xs"
proof -
  have "set (foldl (\<lambda>us x. if x \<in> set us then us else us @ [x]) us xs) = set us \<union> set xs" for us
    by (induction xs arbitrary: us) auto
  then show ?thesis by (simp add: unique_def)
qed

lemma assignee_allowed:
  assumes "bound_to inp n b"
  shows "approvalRoleAllowed (wb_assigneeRole b) b \<and> trim (wb_assigneeRole b) \<noteq> []"
proof -
  define role where "role = or_else [configuredString n ''assigneeRole''] (case wn_permission n of None \<Rightarrow> ''manager''
     | Some p \<Rightarrow> if trim p = [] then ''manager'' else trim p)"
  obtain roles where b: "approval_roles n role = Some roles" "wb_assigneeRole b = role" "wb_allowedApproverRoles b = roles"
    using assms by (auto simp: bound_to_def approvalWaitFor_def Let_def role_def split: option.splits)
  have "role \<in> set roles" using b(1) by (auto simp: approval_roles_def unique_set split: option.splits if_splits)
  moreover have "trim ''manager'' \<noteq> []" by code_simp
  then have "trim role \<noteq> []"
    by (auto simp: role_def or_else_def first_some_one configuredString_def dest: nonempty_text_trim split: option.splits)
  ultimately show ?thesis using b by (auto simp: approvalRoleAllowed_def)
qed

text \<open>The approval signal and the event a wait asks for.\<close>
definition answer :: "wait_binding \<Rightarrow> approval_signal" where
  "answer b = \<lparr>as_nodeId = Some (wb_nodeId b), as_decision = Approved, as_approverId = Some ''approver'',
     as_approverRole = Some (wb_assigneeRole b), as_businessObjectId = Some (wb_businessObjectId b), as_lineId = wb_lineId b,
     as_decisionId = Some (wb_decisionId b), as_ruleVersion = Some (wb_ruleVersion b), as_snapshotVersion = Some (wb_snapshotVersion b), as_note = None\<rparr>"

definition occurrence :: "event_wait \<Rightarrow> event_signal" where
  "occurrence w = \<lparr>ev_nodeId = Some (ew_nodeId w), ev_eventType = (case ew_eventType w of None \<Rightarrow> [] | Some t \<Rightarrow> t),
     ev_objectId = ew_objectId w, ev_payload = None\<rparr>"

lemma answer_matches: "bound_to inp n b \<Longrightarrow> matchesApproval (answer b) b"
proof -
  assume b: "bound_to inp n b"
  have "trim ''approver'' \<noteq> []" by code_simp
  then show ?thesis using assignee_allowed[OF b] by (simp add: matchesApproval_def answer_def nonEmptyString_def)
qed

lemma occurrence_matches: "matchesExternalEvent (occurrence (externalEventWaitFor n i)) (externalEventWaitFor n i)"
proof -
  have "trim x = x \<and> x \<noteq> []" if x: "ew_objectId (externalEventWaitFor n i) = Some x" for x
  proof -
    have "\<exists>v. nonempty_text v = Some x"
      using first_some_in[of _ x] x by (fastforce simp: externalEventWaitFor_def configuredString_def inputString_def)
    then show ?thesis using nonempty_text_trim by blast
  qed
  then show ?thesis
    by (auto simp: matchesExternalEvent_def occurrence_def eventObjectId_def nonEmptyString_def split: option.split)
qed

lemma can_go_on:
  assumes inv: "run_inv inp r" and run: "\<not> ended r" and ids: "\<forall>n\<in>set (wv_nodes (ri_definition inp)). wn_id n \<noteq> []"
  shows "\<exists>ev1 ev2. rn_at (run_events E inp [ev1, ev2] r) \<noteq> rn_at r"
proof -
  have wakes: "rn_at (run_step E inp (Wake 0) r') \<noteq> rn_at r'" if "rn_at r' = AwaitApproval ph n b" "hasApproval (wn_id n) (rn_gate r')" for r' ph n b
    using lands_decided[of ph r' E inp n b 0] that by (cases ph) (auto simp: run_step_def lands_def)
  have taken: "rn_at (run_step E inp (Wake 0) r') \<noteq> rn_at r'" if "rn_at r' = AwaitEvent n" "hasExternalEvent (wn_id n) (rn_gate r')" for r' n
    using lands_event[of r' n] that by (auto simp: run_step_def lands_def)
  have quiet: "run_step E inp (SignalEvent \<lparr>ev_nodeId = None, ev_eventType = [], ev_objectId = None, ev_payload = None\<rparr>) r' = r'" for r'
    by (simp add: run_step_def offerExternalEvent_def)
  have one: ?thesis if "rn_at (run_step E inp ev r) \<noteq> rn_at r" for ev
    using that quiet[of r] by (intro exI[of _ "SignalEvent \<lparr>ev_nodeId = None, ev_eventType = [], ev_objectId = None, ev_payload = None\<rparr>"] exI[of _ ev]) simp
  show ?thesis
  proof (cases "rn_at r")
    case (AwaitApproval ph n b)
    then have w: "sg_approvalWait (rn_gate r) = Some b" "bound_to inp n b" using inv by (simp_all add: run_inv_def)
    have id: "wb_nodeId b = wn_id n" using w(2) by (auto simp: bound_to_def approvalWaitFor_def Let_def split: option.splits)
    let ?r = "run_step E inp (SignalApproval (answer b)) r"
    have "hasApproval (wn_id n) (rn_gate ?r)" "rn_at ?r = rn_at r"
      using w id answer_matches[OF w(2)] by (auto simp: run_step_def offerApproval_def hasApproval_def awaits_approval_def)
    then show ?thesis using wakes[of ?r ph n b] AwaitApproval
      by (intro exI[of _ "SignalApproval (answer b)"] exI[of _ "Wake 0"]) simp
  next
    case (AwaitEvent n)
    let ?w = "externalEventWaitFor n (ri_input inp)"
    have w: "sg_externalWait (rn_gate r) = Some ?w" "ready inp n r" using inv AwaitEvent by (simp_all add: run_inv_def)
    have id: "ew_nodeId ?w = wn_id n" "wn_id n \<noteq> []" using ids here_node w(2) by (auto simp: externalEventWaitFor_def ready_def)
    let ?r = "run_step E inp (SignalEvent (occurrence ?w)) r"
    have "hasExternalEvent (wn_id n) (rn_gate ?r)" "rn_at ?r = rn_at r"
      using w id occurrence_matches[of n "ri_input inp"]
      by (auto simp: run_step_def offerExternalEvent_def hasExternalEvent_def awaits_event_def occurrence_def)
    then show ?thesis using taken[of ?r n] AwaitEvent
      by (intro exI[of _ "SignalEvent (occurrence ?w)"] exI[of _ "Wake 0"]) simp
  next
    case AwaitSleep
    then have "rn_at (run_step E inp Timer r) \<noteq> rn_at r" using lands_next[of r inp] by (auto simp: run_step_def lands_def)
    then show ?thesis by (rule one)
  next
    case (AwaitNode n)
    then have "rn_at (run_step E inp (NodeDone (Inl [])) r) \<noteq> rn_at r" by (simp add: run_step_def crash_def)
    then show ?thesis by (rule one)
  qed (rule one[where ev = "UpdateDone None"], use run in \<open>simp add: run_step_def update_done_def ended_def\<close>)+
qed

subsection \<open>After a rejection\<close>

definition closing :: "run \<Rightarrow> bool" where
  "closing r \<longleftrightarrow> (case rn_at r of AwaitRejectUpdate \<Rightarrow> True | AwaitFinalUpdate \<Rightarrow> True | AwaitFailUpdate e \<Rightarrow> True
     | Finished s \<Rightarrow> True | Crashed e \<Rightarrow> True | _ \<Rightarrow> False)"

lemma rejected_closing: "run_inv inp r \<Longrightarrow> a \<in> set (rn_audit r) \<Longrightarrow> au_decision a = Rejected \<Longrightarrow> closing r"
  by (fastforce simp: run_inv_def closing_def active_def ready_def split: await.splits)

lemma closing_step: "closing r \<Longrightarrow> closing (run_step E inp ev r) \<and> executed (run_step E inp ev r) = executed r"
  by (cases ev; cases "rn_at r")
     (auto simp: closing_def run_step_def update_done_def crash_def split: option.splits)

lemma closing_run: "closing r \<Longrightarrow> executed (run_events E inp evs r) = executed r"
  using closing_step by (induction evs arbitrary: r) auto

subsection \<open>Properties\<close>

text \<open>C35 A run ends: whatever signals, timers and activity results arrive and in whatever order, it gets on from
  one \<open>await\<close> to another at most ten times per node and nine times more, and a run that has not
  ended can always get on (so none is stuck), provided node identifiers are not empty.\<close>
theorem graph_run_terminates:
  assumes "\<forall>n\<in>set (wv_nodes (ri_definition inp)). wn_id n \<noteq> []"
  shows "moves E inp evs (run_start inp) \<le> 10 * length (wv_nodes (ri_definition inp)) + 9 \<and>
    (ended (run_events E inp evs (run_start inp)) \<or>
     (\<exists>ev1 ev2. rn_at (run_events E inp (evs @ [ev1, ev2]) (run_start inp)) \<noteq> rn_at (run_events E inp evs (run_start inp))))"
  using moves_weight[OF run_start_inv, of E inp evs] start_weight[of inp]
    can_go_on[OF run_events_inv[OF run_start_inv] _ assms, of E evs E] by (auto simp: run_events_append)

text \<open>C34 Whatever arrives in whatever order, a run executes no node twice and only nodes of its graph; in
  supervised mode it has executed at most as many side effects as it has been given approvals, in the
  modes that wait every approval node it executed was approved under its own identifier, every
  recorded decision was made by a permitted role under the binding of a node of the graph, and after
  a rejection nothing more is executed.\<close>
theorem graph_run_approved:
  assumes r: "r = run_events E inp evs (run_start inp)"
  shows "distinct (map wn_id (executed r)) \<and> set (executed r) \<subseteq> set (wv_nodes (ri_definition inp)) \<and>
    (ri_mode inp = Supervised \<longrightarrow> side_effects r \<le> approvals r) \<and>
    (ri_mode inp = Supervised \<or> ri_mode inp = Autonomous \<longrightarrow> (\<forall>n\<in>set (executed r). wn_kind n = KApproval \<longrightarrow> approved_for n r)) \<and>
    (\<forall>a\<in>set (rn_audit r). entry_ok inp a) \<and>
    (\<forall>a\<in>set (rn_audit r). au_decision a = Rejected \<longrightarrow> (\<forall>evs'. executed (run_events E inp evs' r) = executed r))"
proof -
  have inv: "run_inv inp r" unfolding r by (rule run_events_inv[OF run_start_inv])
  then have "good inp 0 r"
    by (auto simp: run_inv_def ready_def dest: active_good elim: good_weaken split: await.splits)
  moreover have "executed (run_events E inp evs' r) = executed r" if "a \<in> set (rn_audit r)" "au_decision a = Rejected" for a evs'
    using closing_run[OF rejected_closing[OF inv that]] .
  ultimately show ?thesis by (auto simp: good_def waits_in_def)
qed

definition sample_node :: "ident \<Rightarrow> node_kind \<Rightarrow> workflow_node" where
  "sample_node i k = \<lparr>wn_id = i, wn_type = ''tool.send'', wn_kind = k, wn_label = i, wn_parameters = None, wn_config = None,
     wn_permission = Some ''finance'', wn_timeoutMs = None, wn_sideEffects = None\<rparr>"

definition sample_run :: run_input where
  "sample_run = \<lparr>ri_runId = ''r'', ri_mode = Supervised, ri_definition = \<lparr>wv_tenantId = ''t'', wv_employeeId = ''e'',
     wv_workflowId = ''w'', wv_versionId = ''v1'', wv_nodes = [sample_node ''start'' KTrigger, sample_node ''send'' KTool],
     wv_edges = [\<lparr>we_from = ''start'', we_to = ''send'', we_label = None\<rparr>]\<rparr>, ri_input = []\<rparr>"

definition sample_env_run :: run_env where
  "sample_env_run = \<lparr>re_iso = (\<lambda>t. ''now''), re_json = (\<lambda>j. [])\<rparr>"

definition sample_binding :: wait_binding where
  "sample_binding = \<lparr>wb_nodeId = ''send'', wb_assigneeRole = ''finance'', wb_allowedApproverRoles = [''finance'', ''finance_manager'', ''cfo''],
     wb_businessObjectId = ''run:r'', wb_lineId = None, wb_decisionId = ''approval:r:send:v1'', wb_ruleVersion = ''workflow:v1'',
     wb_snapshotVersion = ''v1''\<rparr>"

definition sample_ok :: run_event where
  "sample_ok = NodeDone (Inr \<lparr>nr_status = NodeCompleted, nr_output = [], nr_selectedTargets = None, nr_selectedEdgeLabels = None, nr_message = []\<rparr>)"

definition sample_events :: "run_event list" where
  "sample_events = [sample_ok, Timer, UpdateDone None, SignalApproval (answer sample_binding), Wake 7, sample_ok, Timer, UpdateDone None]"

lemma sample_finished: "rn_at (run_events sample_env_run sample_run sample_events (run_start sample_run)) = Finished RunCompleted"
  by code_simp

theorem graph_run_terminates_witness:
  "moves sample_env_run sample_run sample_events (run_start sample_run) \<le> 29"
proof -
  have ids: "\<forall>n\<in>set (wv_nodes (ri_definition sample_run)). wn_id n \<noteq> []" by (simp add: sample_run_def sample_node_def)
  have "length (wv_nodes (ri_definition sample_run)) = 2" by (simp add: sample_run_def)
  then show ?thesis using conjunct1[OF graph_run_terminates[OF ids, of sample_env_run sample_events]] by simp
qed

theorem graph_run_approved_witness:
  "side_effects (run_events sample_env_run sample_run sample_events (run_start sample_run)) = 1 \<and>
   approvals (run_events sample_env_run sample_run sample_events (run_start sample_run)) = 1 \<and>
   distinct (map wn_id (executed (run_events sample_env_run sample_run sample_events (run_start sample_run))))"
proof -
  have "side_effects (run_events sample_env_run sample_run sample_events (run_start sample_run)) = 1" by code_simp
  moreover have "approvals (run_events sample_env_run sample_run sample_events (run_start sample_run)) = 1" by code_simp
  ultimately show ?thesis using conjunct1[OF graph_run_approved[OF refl]] by simp
qed

end
