(* ===== verification/EditorApproval.thy ===== *)
theory EditorApproval
  imports GraphRun
begin

text \<open>
  The decision of an approval through the editor API (\<open>apps/api/src/editor-approval.ts\<close> and the
  approve and reject handlers of \<open>apps/api/src/index.ts\<close>), composed with the workflow run that waits
  for it.  The table of decisions holds the rows of one tenant in the order they are scanned; a
  request is cut at its awaits, so that requests interleave with each other, with the run and with
  the delivery of signals.  The clock and the identity of the session are arguments.
\<close>

subsection \<open>The signal of a request\<close>

record session =
  se_humanId :: ident
  se_role :: string

datatype preparation_fault = NotWaiting | NodeMismatch | RoleForbidden

definition text_field :: "(string, json) kv \<Rightarrow> string \<Rightarrow> string option" where
  "text_field body k = (case map_of body k of Some (JStr s) \<Rightarrow> Some (trim s) | _ \<Rightarrow> None)"

definition requested_node :: "(string, json) kv \<Rightarrow> ident" where
  "requested_node body = (case text_field body ''nodeId'' of None \<Rightarrow> [] | Some i \<Rightarrow> i)"

definition some_text :: "string option \<Rightarrow> string option" where
  "some_text s = (if s = Some [] then None else s)"

definition prepareEditorApprovalSignal ::
  "run_state \<Rightarrow> session \<Rightarrow> (string, json) kv \<Rightarrow> verdict \<Rightarrow> (preparation_fault, approval_signal) result" where
  "prepareEditorApprovalSignal st u body v =
    (case rs_pendingApproval st of
       None \<Rightarrow> Inl NotWaiting
     | Some b \<Rightarrow>
         if rs_status st \<noteq> RunWaitingApproval then Inl NotWaiting
         else if requested_node body = [] \<or> requested_node body \<noteq> wb_nodeId b then Inl NodeMismatch
         else if \<not> approvalRoleAllowed (se_role u) b then Inl RoleForbidden
         else Inr \<lparr>as_nodeId = Some (wb_nodeId b), as_decision = v, as_approverId = Some (se_humanId u),
           as_approverRole = Some (se_role u), as_businessObjectId = Some (wb_businessObjectId b),
           as_lineId = some_text (wb_lineId b), as_decisionId = Some (wb_decisionId b),
           as_ruleVersion = Some (wb_ruleVersion b), as_snapshotVersion = Some (wb_snapshotVersion b),
           as_note = some_text (map_option (take 2000) (text_field body ''note''))\<rparr>)"

subsection \<open>The table of decisions\<close>

datatype decision_status = DPending | DSent | DFailed

record decision_row =
  dr_runId :: ident
  dr_decisionId :: ident
  dr_nodeId :: ident
  dr_decision :: verdict
  dr_status :: decision_status
  dr_payload :: approval_signal
  dr_createdAt :: instant
  dr_updatedAt :: instant
  dr_leaseExpiresAt :: "instant option"
  dr_error :: "string option"

datatype claim = Owner | ClaimReplayed approval_signal | ClaimProcessing | ClaimConflict

datatype existing = ExReplayed verdict | ExProcessing | ExRecoverable verdict approval_signal | ExConflict

definition APPROVAL_DECISION_LEASE_MS :: int where
  "APPROVAL_DECISION_LEASE_MS = 60000"

definition is_decision :: "ident \<Rightarrow> ident \<Rightarrow> decision_row \<Rightarrow> bool" where
  "is_decision run d x \<longleftrightarrow> dr_runId x = run \<and> dr_decisionId x = d"

definition lease_over :: "instant \<Rightarrow> decision_row \<Rightarrow> bool" where
  "lease_over t x = (case dr_leaseExpiresAt x of None \<Rightarrow> True | Some e \<Rightarrow> e \<le> t)"

definition take_over :: "instant \<Rightarrow> approval_signal \<Rightarrow> decision_row \<Rightarrow> decision_row" where
  "take_over t p x = x\<lparr>dr_status := DPending, dr_payload := p, dr_updatedAt := t,
     dr_leaseExpiresAt := Some (t + APPROVAL_DECISION_LEASE_MS), dr_error := None\<rparr>"

text \<open>\<open>None\<close> for the exception of a payload without a decision or node identifier.\<close>
definition claimEditorApprovalDecision ::
  "instant \<Rightarrow> ident \<Rightarrow> approval_signal \<Rightarrow> decision_row list \<Rightarrow> claim option \<times> decision_row list" where
  "claimEditorApprovalDecision t run p rows =
    (case (as_decisionId p, as_nodeId p) of
       (Some d, Some n) \<Rightarrow>
         if d = [] \<or> n = [] then (None, rows)
         else (case find (is_decision run d) rows of
           None \<Rightarrow> (Some Owner, rows @ [\<lparr>dr_runId = run, dr_decisionId = d, dr_nodeId = n, dr_decision = as_decision p,
              dr_status = DPending, dr_payload = p, dr_createdAt = t, dr_updatedAt = t,
              dr_leaseExpiresAt = Some (t + APPROVAL_DECISION_LEASE_MS), dr_error = None\<rparr>])
         | Some x \<Rightarrow>
             if dr_decision x \<noteq> as_decision p then (Some ClaimConflict, rows)
             else (case dr_status x of
               DSent \<Rightarrow> (Some (ClaimReplayed (dr_payload x)), rows)
             | DFailed \<Rightarrow> (Some Owner, upd_where (\<lambda>y. is_decision run d y \<and> dr_status y = DFailed) (take_over t p) rows)
             | DPending \<Rightarrow> if lease_over t x
                 then (Some Owner, upd_where (\<lambda>y. is_decision run d y \<and> dr_status y = DPending) (take_over t p) rows)
                 else (Some ClaimProcessing, rows)))
     | _ \<Rightarrow> (None, rows))"

text \<open>\<open>ORDER BY updated_at DESC LIMIT 1\<close>, the first of equals.\<close>
fun latest :: "decision_row list \<Rightarrow> decision_row option" where
  "latest [] = None"
| "latest (x # xs) = (case latest xs of None \<Rightarrow> Some x
     | Some y \<Rightarrow> if dr_updatedAt x < dr_updatedAt y then Some y else Some x)"

definition existingEditorApprovalDecision ::
  "instant \<Rightarrow> ident \<Rightarrow> ident \<Rightarrow> verdict \<Rightarrow> ident \<Rightarrow> decision_row list \<Rightarrow> existing option" where
  "existingEditorApprovalDecision t run node v approver rows =
    (case latest (filter (\<lambda>x. dr_runId x = run \<and> dr_nodeId x = node) rows) of
       None \<Rightarrow> None
     | Some x \<Rightarrow>
         if approver \<noteq> [] \<and> as_approverId (dr_payload x) \<noteq> Some approver then None
         else if dr_decision x \<noteq> v then Some ExConflict
         else if dr_status x = DSent then Some (ExReplayed (dr_decision x))
         else if dr_status x = DPending \<and> lease_over t x then Some (ExRecoverable (dr_decision x) (dr_payload x))
         else Some ExProcessing)"

text \<open>The two marks; a payload without a decision identifier is an exception, here no change.\<close>
definition mark_decision :: "(decision_row \<Rightarrow> decision_row) \<Rightarrow> ident \<Rightarrow> approval_signal \<Rightarrow> decision_row list \<Rightarrow> decision_row list" where
  "mark_decision f run p rows = (case as_decisionId p of None \<Rightarrow> rows
     | Some d \<Rightarrow> if d = [] then rows
         else upd_where (\<lambda>y. is_decision run d y \<and> dr_decision y = as_decision p) f rows)"

definition markEditorApprovalDecisionSent :: "instant \<Rightarrow> ident \<Rightarrow> approval_signal \<Rightarrow> decision_row list \<Rightarrow> decision_row list" where
  "markEditorApprovalDecisionSent t = mark_decision
     (\<lambda>y. y\<lparr>dr_status := DSent, dr_updatedAt := t, dr_leaseExpiresAt := None, dr_error := None\<rparr>)"

definition markEditorApprovalDecisionFailed :: "instant \<Rightarrow> ident \<Rightarrow> approval_signal \<Rightarrow> decision_row list \<Rightarrow> decision_row list" where
  "markEditorApprovalDecisionFailed t = mark_decision
     (\<lambda>y. y\<lparr>dr_status := DFailed, dr_updatedAt := t, dr_leaseExpiresAt := None,
            dr_error := Some ''TEMPORAL_APPROVAL_SIGNAL_UNAVAILABLE''\<rparr>)"

definition temporalStateRecordedApproval :: "run_state \<Rightarrow> approval_signal \<Rightarrow> bool" where
  "temporalStateRecordedApproval st p \<longleftrightarrow> (case as_decisionId p of None \<Rightarrow> False
     | Some d \<Rightarrow> d \<noteq> [] \<and> (\<exists>a\<in>set (rs_approvalAudit st). wb_decisionId (au_binding a) = d \<and> au_decision a = as_decision p \<and>
         as_nodeId p = Some (wb_nodeId (au_binding a)) \<and>
         as_businessObjectId p = Some (wb_businessObjectId (au_binding a))))"

subsection \<open>The handler, from await to await\<close>

datatype reply = Done | Replayed verdict | Conflict | Processing | Unprepared preparation_fault
  | StateUnavailable | SignalUnavailable | ServerError | Lost

datatype flight = Querying "existing option" session "(string, json) kv" verdict
  | Queried "existing option" session "(string, json) kv" verdict run_state
  | Sending approval_signal bool
  | Answered reply

definition handle_request :: "ident \<Rightarrow> instant \<Rightarrow> session \<Rightarrow> (string, json) kv \<Rightarrow> verdict \<Rightarrow> decision_row list \<Rightarrow> flight" where
  "handle_request run t u body v rows =
    (let ex = (if requested_node body = [] then None
           else existingEditorApprovalDecision t run (requested_node body) v (se_humanId u) rows)
     in case ex of Some (ExReplayed w) \<Rightarrow> Answered (Replayed w)
        | Some ExConflict \<Rightarrow> Answered Conflict
        | Some ExProcessing \<Rightarrow> Answered Processing
        | _ \<Rightarrow> Querying ex u body v)"

definition handle_state ::
  "ident \<Rightarrow> instant \<Rightarrow> existing option \<Rightarrow> session \<Rightarrow> (string, json) kv \<Rightarrow> verdict \<Rightarrow> run_state \<Rightarrow> decision_row list
    \<Rightarrow> flight \<times> decision_row list" where
  "handle_state run t ex u body v st rows =
    (case prepareEditorApprovalSignal st u body v of
       Inl e \<Rightarrow> (case ex of
           Some (ExRecoverable w p) \<Rightarrow>
             if temporalStateRecordedApproval st p then (Answered (Replayed w), markEditorApprovalDecisionSent t run p rows)
             else (Answered (Unprepared e), rows)
         | _ \<Rightarrow> (Answered (Unprepared e), rows))
     | Inr p \<Rightarrow> (case claimEditorApprovalDecision t run p rows of
           (Some Owner, rows') \<Rightarrow> (Sending p False, rows')
         | (Some (ClaimReplayed q), rows') \<Rightarrow> (Answered (Replayed (as_decision q)), rows')
         | (Some ClaimConflict, rows') \<Rightarrow> (Answered Conflict, rows')
         | (Some ClaimProcessing, rows') \<Rightarrow> (Answered Processing, rows')
         | (None, rows') \<Rightarrow> (Answered ServerError, rows')))"

definition handle_sent :: "ident \<Rightarrow> instant \<Rightarrow> approval_signal \<Rightarrow> bool \<Rightarrow> decision_row list \<Rightarrow> flight \<times> decision_row list" where
  "handle_sent run t p ok rows =
    (if ok then (Answered Done, markEditorApprovalDecisionSent t run p rows)
     else (Answered SignalUnavailable, markEditorApprovalDecisionFailed t run p rows))"

subsection \<open>The API and the run together\<close>

text \<open>\<open>es_wire\<close> holds the signals the engine has accepted and the run has not yet been given, \<open>es_sent\<close>
  all that were ever accepted.\<close>
record editor =
  es_rows :: "decision_row list"
  es_flights :: "flight list"
  es_wire :: "approval_signal list"
  es_sent :: "approval_signal list"
  es_run :: run

datatype editor_event = EdRequest instant session "(string, json) kv" verdict | EdQuery nat | EdQueryFails nat
  | EdResume nat instant | EdAccept nat | EdDeliver | EdReturn nat instant bool | EdLost nat | EdRun run_event

definition flight_of :: "nat \<Rightarrow> editor \<Rightarrow> flight option" where
  "flight_of i s = (if i < length (es_flights s) then Some (es_flights s ! i) else None)"

definition put_flight :: "nat \<Rightarrow> flight \<Rightarrow> editor \<Rightarrow> editor" where
  "put_flight i f s = s\<lparr>es_flights := (es_flights s)[i := f]\<rparr>"

definition editor_step :: "run_env \<Rightarrow> run_input \<Rightarrow> editor_event \<Rightarrow> editor \<Rightarrow> editor" where
  "editor_step E inp ev s =
    (let run = ri_runId inp in
     case ev of
       EdRequest t u body v \<Rightarrow> s\<lparr>es_flights := es_flights s @ [handle_request run t u body v (es_rows s)]\<rparr>
     | EdQuery i \<Rightarrow> (case flight_of i s of
         Some (Querying ex u body v) \<Rightarrow> put_flight i (Queried ex u body v (rn_state (es_run s))) s | _ \<Rightarrow> s)
     | EdQueryFails i \<Rightarrow> (case flight_of i s of
         Some (Querying ex u body v) \<Rightarrow> put_flight i (Answered StateUnavailable) s | _ \<Rightarrow> s)
     | EdResume i t \<Rightarrow> (case flight_of i s of
         Some (Queried ex u body v st) \<Rightarrow>
           (case handle_state run t ex u body v st (es_rows s) of (f, rows) \<Rightarrow> put_flight i f (s\<lparr>es_rows := rows\<rparr>))
       | _ \<Rightarrow> s)
     | EdAccept i \<Rightarrow> (case flight_of i s of
         Some (Sending p False) \<Rightarrow> put_flight i (Sending p True) (s\<lparr>es_wire := es_wire s @ [p], es_sent := es_sent s @ [p]\<rparr>)
       | _ \<Rightarrow> s)
     | EdDeliver \<Rightarrow> (case es_wire s of [] \<Rightarrow> s
         | p # ps \<Rightarrow> s\<lparr>es_wire := ps, es_run := run_step E inp (SignalApproval p) (es_run s)\<rparr>)
     | EdReturn i t ok \<Rightarrow> (case flight_of i s of
         Some (Sending p accepted) \<Rightarrow>
           if ok \<and> \<not> accepted then s
           else (case handle_sent run t p ok (es_rows s) of (f, rows) \<Rightarrow> put_flight i f (s\<lparr>es_rows := rows\<rparr>))
       | _ \<Rightarrow> s)
     | EdLost i \<Rightarrow> (case flight_of i s of None \<Rightarrow> s | Some (Answered a) \<Rightarrow> s | _ \<Rightarrow> put_flight i (Answered Lost) s)
     | EdRun e \<Rightarrow> (case e of SignalApproval p \<Rightarrow> s | _ \<Rightarrow> s\<lparr>es_run := run_step E inp e (es_run s)\<rparr>))"

definition editor_start :: "run_input \<Rightarrow> editor" where
  "editor_start inp = \<lparr>es_rows = [], es_flights = [], es_wire = [], es_sent = [], es_run = run_start inp\<rparr>"

definition editor_events :: "run_env \<Rightarrow> run_input \<Rightarrow> editor_event list \<Rightarrow> editor \<Rightarrow> editor" where
  "editor_events E inp evs s = foldl (\<lambda>s ev. editor_step E inp ev s) s evs"

lemma editor_events_simps [simp]: "editor_events E inp [] s = s"
  "editor_events E inp (ev # evs) s = editor_events E inp evs (editor_step E inp ev s)"
  by (simp_all add: editor_events_def)

lemma editor_events_append: "editor_events E inp (xs @ ys) s = editor_events E inp ys (editor_events E inp xs s)"
  by (induction xs arbitrary: s) simp_all

subsection \<open>The verdict of a decision\<close>

definition verdict_of :: "ident \<Rightarrow> ident \<Rightarrow> decision_row list \<Rightarrow> verdict option" where
  "verdict_of run d rows = map_option dr_decision (find (is_decision run d) rows)"

lemma verdict_upd:
  assumes "\<And>y. is_decision run d (f y) = is_decision run d y" "\<And>y. dr_decision (f y) = dr_decision y"
  shows "verdict_of run d (upd_where p f rows) = verdict_of run d rows"
  by (induction rows) (simp_all add: verdict_of_def assms)

lemma verdict_append: "verdict_of run d (rows @ [x]) =
    (case verdict_of run d rows of None \<Rightarrow> if is_decision run d x then Some (dr_decision x) else None | Some v \<Rightarrow> Some v)"
  by (induction rows) (auto simp: verdict_of_def)

lemma verdict_find: "find (is_decision run d) rows = Some x \<Longrightarrow> verdict_of run d rows = Some (dr_decision x)"
  by (simp add: verdict_of_def)

lemma verdict_none: "find (is_decision run d) rows = None \<longleftrightarrow> verdict_of run d rows = None"
  by (simp add: verdict_of_def)

lemma mark_verdict [simp]:
  "verdict_of run d (markEditorApprovalDecisionSent t run' p rows) = verdict_of run d rows"
  "verdict_of run d (markEditorApprovalDecisionFailed t run' p rows) = verdict_of run d rows"
  by (auto simp: markEditorApprovalDecisionSent_def markEditorApprovalDecisionFailed_def mark_decision_def is_decision_def
      intro!: verdict_upd split: option.split)

lemma claim_verdict:
  assumes "claimEditorApprovalDecision t run p rows = (c, rows')"
  shows "verdict_of run d rows = Some v \<Longrightarrow> verdict_of run d rows' = Some v"
    and "c = Some Owner \<Longrightarrow> \<exists>d. as_decisionId p = Some d \<and> verdict_of run d rows' = Some (as_decision p)"
proof -
  have upd: "verdict_of run d (upd_where q (take_over t p) rows) = verdict_of run d rows" for d q
    by (rule verdict_upd) (simp_all add: take_over_def is_decision_def)
  show "verdict_of run d rows = Some v \<Longrightarrow> verdict_of run d rows' = Some v"
    using assms upd by (auto simp: claimEditorApprovalDecision_def verdict_append
        split: option.splits if_splits decision_status.splits)
  show "c = Some Owner \<Longrightarrow> \<exists>d. as_decisionId p = Some d \<and> verdict_of run d rows' = Some (as_decision p)"
    using assms upd
    by (auto simp: claimEditorApprovalDecision_def verdict_append verdict_none is_decision_def dest: verdict_find
        split: option.splits if_splits decision_status.splits)
qed

subsection \<open>What the run does with signals\<close>

lemma parts_kept:
  "rn_audit (crash e r) = rn_audit r \<and> rn_gate (crash e r) = rn_gate r"
  "rn_audit (execute_node n r) = rn_audit r \<and> rn_gate (execute_node n r) = rn_gate r"
  "rn_audit (after_approval inp n r) = rn_audit r \<and> rn_gate (after_approval inp n r) = rn_gate r"
  "rn_audit (begin_approval inp ph n r) = rn_audit r \<and> rn_gate (begin_approval inp ph n r) = rn_gate r"
  by (auto simp: crash_def execute_node_def after_approval_def begin_approval_def Let_def split: option.split)

lemma more_parts_kept:
  "rn_audit (after_supervised inp n r) = rn_audit r \<and> rn_gate (after_supervised inp n r) = rn_gate r"
  "rn_audit (start_node inp n r) = rn_audit r \<and> rn_gate (start_node inp n r) = rn_gate r"
  "rn_audit (next_node inp r) = rn_audit r \<and> rn_gate (next_node inp r) = rn_gate r"
  "rn_audit (node_finished inp n x r) = rn_audit r \<and> rn_gate (node_finished inp n x r) = rn_gate r"
proof -
  show sup: "rn_audit (after_supervised inp n r) = rn_audit r \<and> rn_gate (after_supervised inp n r) = rn_gate r" for n r
    by (simp add: after_supervised_def Let_def parts_kept)
  show start: "rn_audit (start_node inp n r) = rn_audit r \<and> rn_gate (start_node inp n r) = rn_gate r" for n r
    by (simp add: start_node_def Let_def parts_kept sup)
  show "rn_audit (next_node inp r) = rn_audit r \<and> rn_gate (next_node inp r) = rn_gate r"
    by (auto simp: next_node_def Let_def start split: prod.split option.split)
  show "rn_audit (node_finished inp n x r) = rn_audit r \<and> rn_gate (node_finished inp n x r) = rn_gate r"
    by (auto simp: node_finished_def Let_def parts_kept)
qed

lemmas kept = parts_kept more_parts_kept

definition quiet_step :: "run \<Rightarrow> run \<Rightarrow> bool" where
  "quiet_step r r' \<longleftrightarrow> rn_audit r' = rn_audit r \<and>
     (sg_approval (rn_gate r') = None \<or> sg_approval (rn_gate r') = sg_approval (rn_gate r))"

definition decision_step :: "run \<Rightarrow> run \<Rightarrow> bool" where
  "decision_step r r' \<longleftrightarrow> sg_approval (rn_gate r') = None \<and>
     (\<exists>a p. rn_audit r' = rn_audit r @ [a] \<and> sg_approval (rn_gate r) = Some p \<and>
        as_decisionId p = Some (wb_decisionId (au_binding a)) \<and> au_decision a = as_decision p)"

lemma decided_step:
  assumes inv: "run_inv inp r" and pc: "rn_at r = AwaitApproval ph n b" and has: "hasApproval (wn_id n) (rn_gate r)"
  shows "decision_step r (decided E inp ph n b t r)"
proof -
  obtain s where s: "sg_approval (rn_gate r) = Some s" "matchesApproval s b" and g: "awaits_approval (wn_id n) (rn_gate r)"
    using inv pc has by (auto simp: run_inv_def hasApproval_def)
  have ms: "nonEmptyString (as_approverId s)" "nonEmptyString (as_approverRole s)" using s(2) by (simp_all add: matchesApproval_def)
  obtain who role where w: "as_approverId s = Some who" "as_approverRole s = Some role" "who \<noteq> []" "role \<noteq> []"
    using nonEmptyString_Some[OF ms(1)] nonEmptyString_Some[OF ms(2)] by auto
  have "as_decisionId s = Some (wb_decisionId b)" using s(2) by (simp add: matchesApproval_def)
  then show ?thesis using s w g
    by (cases "as_decision s"; cases ph) (auto simp: decision_step_def decided_def takeApproval_def Let_def kept)
qed

lemma run_step_audit:
  assumes inv: "run_inv inp r" and ev: "\<And>p. ev \<noteq> SignalApproval p"
  shows "quiet_step r (run_step E inp ev r) \<or> decision_step r (run_step E inp ev r)"
proof (cases ev)
  case (Wake t)
  show ?thesis
  proof (cases "rn_at r")
    case (AwaitApproval ph n b)
    then show ?thesis using Wake decided_step[OF inv] by (auto simp: run_step_def quiet_step_def)
  qed (use Wake in \<open>auto simp: run_step_def quiet_step_def event_taken_def Let_def kept takeExternalEvent_def split: prod.split option.split if_splits\<close>)
next
  case Timer
  then show ?thesis
    by (cases "rn_at r") (auto simp: run_step_def quiet_step_def event_taken_def Let_def kept takeExternalEvent_def split: prod.split option.split if_splits)
next
  case (UpdateDone err)
  then show ?thesis
    by (cases "rn_at r"; cases err) (simp_all add: run_step_def quiet_step_def update_done_def kept beginApproval_def beginExternalEvent_def)
next
  case (NodeDone res)
  then show ?thesis by (cases "rn_at r"; cases res) (simp_all add: run_step_def quiet_step_def kept)
next
  case (SignalEvent e)
  then show ?thesis
    by (auto simp: run_step_def quiet_step_def offerExternalEvent_def bufferEarlyExternalEvent_def Let_def split: option.split)
qed (use ev in blast)

subsection \<open>One verdict per decision\<close>

definition grows :: "ident \<Rightarrow> decision_row list \<Rightarrow> decision_row list \<Rightarrow> bool" where
  "grows run rows rows' \<longleftrightarrow> (\<forall>d v. verdict_of run d rows = Some v \<longrightarrow> verdict_of run d rows' = Some v)"

definition recorded :: "ident \<Rightarrow> decision_row list \<Rightarrow> approval_signal \<Rightarrow> bool" where
  "recorded run rows p \<longleftrightarrow> (\<exists>d. as_decisionId p = Some d \<and> verdict_of run d rows = Some (as_decision p))"

definition signals_of :: "editor \<Rightarrow> approval_signal set" where
  "signals_of s = set (es_wire s) \<union> set (es_sent s) \<union> {p. \<exists>k. Sending p k \<in> set (es_flights s)} \<union> set_option (sg_approval (rn_gate (es_run s)))"

definition editor_inv :: "run_input \<Rightarrow> editor \<Rightarrow> bool" where
  "editor_inv inp s \<longleftrightarrow> run_inv inp (es_run s) \<and> (\<forall>p\<in>signals_of s. recorded (ri_runId inp) (es_rows s) p) \<and>
     (\<forall>a\<in>set (rn_audit (es_run s)). verdict_of (ri_runId inp) (wb_decisionId (au_binding a)) (es_rows s) = Some (au_decision a))"

lemma grows_refl [simp]: "grows run rows rows"
  by (simp add: grows_def)

lemma handle_state_grows:
  assumes "handle_state run t ex u body v st rows = (f, rows')"
  shows "grows run rows rows' \<and> (\<forall>p k. f = Sending p k \<longrightarrow> recorded run rows' p)"
proof (cases "prepareEditorApprovalSignal st u body v")
  case (Inl e)
  then show ?thesis using assms by (auto simp: handle_state_def grows_def split: option.splits existing.splits if_splits)
next
  case (Inr p)
  obtain c rows2 where c: "claimEditorApprovalDecision t run p rows = (c, rows2)" by fastforce
  then show ?thesis using assms Inr claim_verdict[OF c]
    by (auto simp: handle_state_def grows_def recorded_def split: option.splits claim.splits)
qed

lemma handle_sent_grows: "handle_sent run t p ok rows = (f, rows') \<Longrightarrow> grows run rows rows' \<and> (\<exists>a. f = Answered a)"
  by (auto simp: handle_sent_def grows_def split: if_splits)

text \<open>A step of the API that touches no signal but those of one flight.\<close>
lemma api_inv:
  assumes inv: "editor_inv inp s" and g: "grows (ri_runId inp) (es_rows s) rows"
    and sig: "signals_of s' \<subseteq> signals_of s \<union> P" "\<forall>p\<in>P. recorded (ri_runId inp) rows p"
    and eq: "es_rows s' = rows" "es_run s' = es_run s"
  shows "editor_inv inp s'"
proof -
  have "recorded (ri_runId inp) rows p" if "p \<in> signals_of s'" for p
    using that sig inv g unfolding editor_inv_def recorded_def grows_def by blast
  then show ?thesis using inv g eq by (auto simp: editor_inv_def grows_def)
qed

lemma sending_put: "{p. \<exists>k. Sending p k \<in> set (xs[i := f])} \<subseteq> {p. \<exists>k. Sending p k \<in> set xs} \<union> {p. \<exists>k. f = Sending p k}"
  using set_update_subset_insert[of xs i f] by auto

lemma put_inv:
  assumes inv: "editor_inv inp s" and g: "grows (ri_runId inp) (es_rows s) rows"
    and f: "\<forall>p k. f = Sending p k \<longrightarrow> recorded (ri_runId inp) rows p"
  shows "editor_inv inp (put_flight i f (s\<lparr>es_rows := rows\<rparr>))"
  by (rule api_inv[OF inv g, where P = "{p. \<exists>k. f = Sending p k}"])
     (use f sending_put[of "es_flights s" i f] in \<open>auto simp: signals_of_def put_flight_def\<close>)

lemma put_same: "editor_inv inp s \<Longrightarrow> \<nexists>p k. f = Sending p k \<Longrightarrow> editor_inv inp (put_flight i f s)"
  using put_inv[of inp s "es_rows s" f i] by simp

lemma run_inv_editor:
  assumes inv: "editor_inv inp s" and ev: "\<And>p. ev \<noteq> SignalApproval p"
  shows "editor_inv inp (s\<lparr>es_run := run_step E inp ev (es_run s)\<rparr>)"
proof -
  let ?r = "run_step E inp ev (es_run s)"
  have r: "run_inv inp (es_run s)" "run_inv inp ?r" using inv run_step_inv by (simp_all add: editor_inv_def)
  consider "quiet_step (es_run s) ?r" | "decision_step (es_run s) ?r" using run_step_audit[OF r(1) ev] by blast
  then show ?thesis
  proof cases
    case 1
    then have "signals_of (s\<lparr>es_run := ?r\<rparr>) \<subseteq> signals_of s" by (auto simp: signals_of_def quiet_step_def)
    then show ?thesis using inv r 1 by (auto simp: editor_inv_def quiet_step_def)
  next
    case 2
    then obtain a p where a: "rn_audit ?r = rn_audit (es_run s) @ [a]" "sg_approval (rn_gate (es_run s)) = Some p"
        "as_decisionId p = Some (wb_decisionId (au_binding a))" "au_decision a = as_decision p"
      by (auto simp: decision_step_def)
    have "signals_of (s\<lparr>es_run := ?r\<rparr>) \<subseteq> signals_of s" using 2 by (auto simp: signals_of_def decision_step_def)
    moreover have "recorded (ri_runId inp) (es_rows s) p" using inv a(2) by (auto simp: editor_inv_def signals_of_def)
    ultimately show ?thesis using inv r a by (auto simp: editor_inv_def recorded_def)
  qed
qed

lemma deliver_inv:
  assumes inv: "editor_inv inp s" and w: "es_wire s = p # ps"
  shows "editor_inv inp (s\<lparr>es_wire := ps, es_run := run_step E inp (SignalApproval p) (es_run s)\<rparr>)"
proof -
  let ?s = "s\<lparr>es_wire := ps, es_run := run_step E inp (SignalApproval p) (es_run s)\<rparr>"
  have "signals_of ?s \<subseteq> signals_of s"
    by (auto simp: signals_of_def w run_step_def offerApproval_def split: option.splits if_splits)
  moreover have "rn_audit (es_run ?s) = rn_audit (es_run s)" by (simp add: run_step_def)
  ultimately show ?thesis using inv run_step_inv by (auto simp: editor_inv_def)
qed

lemma editor_step_inv:
  assumes inv: "editor_inv inp s"
  shows "editor_inv inp (editor_step E inp ev s)"
proof (cases ev)
  case (EdRequest t u body v)
  have "Sending p k \<noteq> handle_request (ri_runId inp) t u body v (es_rows s)" for p k
    by (simp add: handle_request_def Let_def split: option.split existing.split)
  then show ?thesis using EdRequest
    by (simp add: editor_step_def) (rule api_inv[OF inv grows_refl, where P = "{}"], auto simp: signals_of_def)
next
  case (EdAccept i)
  show ?thesis
  proof (cases "\<exists>p. flight_of i s = Some (Sending p False)")
    case True
    then obtain p where p: "flight_of i s = Some (Sending p False)" by blast
    then have "p \<in> signals_of s" by (force simp: flight_of_def signals_of_def in_set_conv_nth split: if_splits)
    moreover have "recorded (ri_runId inp) (es_rows s) p" using calculation inv by (simp add: editor_inv_def)
    ultimately show ?thesis using p EdAccept sending_put[of "es_flights s" i "Sending p True"]
      by (simp add: editor_step_def) (rule api_inv[OF inv grows_refl, where P = "{p}"], auto simp: signals_of_def put_flight_def)
  qed (use EdAccept inv in \<open>auto simp: editor_step_def split: option.split flight.split\<close>)
next
  case (EdResume i t)
  then show ?thesis using inv handle_state_grows
    by (auto simp: editor_step_def split: option.split flight.split prod.split intro!: put_inv)
next
  case (EdReturn i t ok)
  then show ?thesis using inv handle_sent_grows
    by (fastforce simp: editor_step_def split: option.split flight.split prod.split intro!: put_inv)
next
  case (EdRun e)
  then show ?thesis using inv run_inv_editor by (cases e) (auto simp: editor_step_def)
qed (use inv deliver_inv in \<open>auto simp: editor_step_def intro!: put_same split: option.split flight.split list.split\<close>)

lemma editor_events_inv: "editor_inv inp s \<Longrightarrow> editor_inv inp (editor_events E inp evs s)"
  by (induction evs arbitrary: s) (simp_all add: editor_step_inv)

lemma start_quiet: "rn_audit (run_start inp) = [] \<and> rn_gate (run_start inp) = fresh_gate"
  by (simp add: run_start_def Let_def kept)

lemma editor_start_inv: "editor_inv inp (editor_start inp)"
  using start_quiet[of inp] by (simp add: editor_inv_def editor_start_def run_start_inv signals_of_def fresh_gate_def)

lemma grows_trans: "grows run a b \<Longrightarrow> grows run b c \<Longrightarrow> grows run a c"
  by (simp add: grows_def)

lemma editor_step_grows: "grows (ri_runId inp) (es_rows s) (es_rows (editor_step E inp ev s))"
  by (cases ev) (auto simp: editor_step_def put_flight_def split: option.split flight.split prod.split list.split run_event.split bool.split
      dest: handle_state_grows handle_sent_grows)

lemma editor_events_grows: "grows (ri_runId inp) (es_rows s) (es_rows (editor_events E inp evs s))"
  by (induction evs arbitrary: s) (auto intro: grows_trans[OF editor_step_grows])

subsection \<open>A wait whose decision counts as sent\<close>

definition sent_in :: "ident \<Rightarrow> ident \<Rightarrow> decision_row list \<Rightarrow> bool" where
  "sent_in run d rows \<longleftrightarrow> map_option dr_status (find (is_decision run d) rows) = Some DSent"

lemma find_status_upd:
  assumes "\<And>y. is_decision run d (f y) = is_decision run d y"
    and "\<And>y. is_decision run d y \<Longrightarrow> p y \<Longrightarrow> dr_status y = DSent \<Longrightarrow> dr_status (f y) = DSent"
  shows "sent_in run d rows \<Longrightarrow> sent_in run d (upd_where p f rows)"
  using assms by (induction rows) (auto simp: sent_in_def split: if_splits)

lemma sent_append: "sent_in run d rows \<Longrightarrow> sent_in run d (rows @ [x])"
  by (induction rows) (auto simp: sent_in_def split: if_splits)

lemma mark_sent_keeps: "sent_in run d rows \<Longrightarrow> sent_in run d (markEditorApprovalDecisionSent t run p rows)"
  by (auto simp: markEditorApprovalDecisionSent_def mark_decision_def is_decision_def intro!: find_status_upd split: option.split)

lemma mark_failed_keeps:
  "sent_in run d rows \<Longrightarrow> as_decisionId p \<noteq> Some d \<Longrightarrow> sent_in run d (markEditorApprovalDecisionFailed t run p rows)"
  by (auto simp: markEditorApprovalDecisionFailed_def mark_decision_def is_decision_def intro!: find_status_upd split: option.split)

lemma claim_keeps:
  assumes "claimEditorApprovalDecision t run p rows = (c, rows')" "sent_in run d rows"
  shows "sent_in run d rows' \<and> (c = Some Owner \<longrightarrow> as_decisionId p \<noteq> Some d)"
proof -
  have upd: "sent_in run d (upd_where (\<lambda>y. is_decision run e y \<and> dr_status y = k) (take_over t p) rows)" if "k \<noteq> DSent" for e k
    using that assms(2) by (auto intro!: find_status_upd simp: take_over_def is_decision_def)
  obtain z where "find (is_decision run d) rows = Some z" "dr_status z = DSent" using assms(2) by (auto simp: sent_in_def)
  then show ?thesis using assms sent_append[OF assms(2)] upd
    by (auto simp: claimEditorApprovalDecision_def split: option.splits if_splits decision_status.splits)
qed

lemma handle_state_keeps:
  assumes "handle_state run t ex u body v st rows = (f, rows')" "sent_in run d rows"
  shows "sent_in run d rows' \<and> (\<forall>p k. f = Sending p k \<longrightarrow> as_decisionId p \<noteq> Some d)"
proof (cases "prepareEditorApprovalSignal st u body v")
  case (Inl e)
  then show ?thesis using assms mark_sent_keeps[OF assms(2)]
    by (auto simp: handle_state_def split: option.splits existing.splits if_splits)
next
  case (Inr p)
  obtain c rows2 where c: "claimEditorApprovalDecision t run p rows = (c, rows2)" by fastforce
  then show ?thesis using assms Inr claim_keeps[OF c assms(2)]
    by (auto simp: handle_state_def split: option.splits claim.splits)
qed

definition stuck_at :: "wait_binding \<Rightarrow> run \<Rightarrow> bool" where
  "stuck_at b r \<longleftrightarrow> (case rn_at r of AwaitApprovalUpdate ph n b' \<Rightarrow> b' = b
     | AwaitApproval ph n b' \<Rightarrow> b' = b \<and> sg_approval (rn_gate r) = None
     | AwaitFailUpdate e \<Rightarrow> True | Crashed e \<Rightarrow> True | _ \<Rightarrow> False)"

definition stuck_on :: "run_input \<Rightarrow> wait_binding \<Rightarrow> editor \<Rightarrow> bool" where
  "stuck_on inp b s \<longleftrightarrow> run_inv inp (es_run s) \<and> sent_in (ri_runId inp) (wb_decisionId b) (es_rows s) \<and>
     (\<forall>p\<in>set (es_wire s) \<union> {p. \<exists>k. Sending p k \<in> set (es_flights s)}. as_decisionId p \<noteq> Some (wb_decisionId b)) \<and>
     stuck_at b (es_run s)"

definition halted :: "run \<Rightarrow> run \<Rightarrow> bool" where
  "halted r r' \<longleftrightarrow> executed r' = executed r \<and> rn_audit r' = rn_audit r"

lemma halted_refl [simp]: "halted r r"
  by (simp add: halted_def)

lemma stuck_run:
  assumes st: "stuck_on inp b s" and ev: "\<And>p. ev \<noteq> SignalApproval p"
  shows "stuck_on inp b (s\<lparr>es_run := run_step E inp ev (es_run s)\<rparr>) \<and> halted (es_run s) (run_step E inp ev (es_run s))"
proof -
  let ?r = "es_run s"
  have inv: "run_inv inp ?r" "run_inv inp (run_step E inp ev ?r)" using st run_step_inv by (simp_all add: stuck_on_def)
  let ?r' = "run_step E inp ev ?r"
  have gate: "sg_approval (snd (offerExternalEvent (re_json E) e g)) = sg_approval g" for e g
    by (auto simp: offerExternalEvent_def bufferEarlyExternalEvent_def Let_def split: option.split)
  have "stuck_at b ?r' \<and> halted ?r ?r'"
  proof (cases "rn_at ?r")
    case (AwaitApprovalUpdate ph n b')
    then show ?thesis using st ev
      by (cases ev) (auto simp: stuck_on_def stuck_at_def halted_def run_step_def update_done_def crash_def beginApproval_def split: option.split)
  next
    case (AwaitApproval ph n b')
    then show ?thesis using st ev
      by (cases ev) (auto simp: stuck_on_def stuck_at_def halted_def run_step_def update_done_def hasApproval_def gate)
  next
    case (AwaitFailUpdate e)
    then show ?thesis using st ev
      by (cases ev) (auto simp: stuck_on_def stuck_at_def halted_def run_step_def update_done_def split: option.split)
  next
    case (Crashed e)
    then show ?thesis using st ev
      by (cases ev) (auto simp: stuck_on_def stuck_at_def halted_def run_step_def update_done_def)
  qed (use st in \<open>simp_all add: stuck_on_def stuck_at_def\<close>)
  then show ?thesis using st inv by (simp add: stuck_on_def)
qed

lemma stuck_deliver:
  assumes st: "stuck_on inp b s" and w: "es_wire s = p # ps"
  shows "run_step E inp (SignalApproval p) (es_run s) = es_run s"
proof -
  have "as_decisionId p \<noteq> Some (wb_decisionId b)" using st w by (simp add: stuck_on_def)
  then have "snd (offerApproval p (rn_gate (es_run s))) = rn_gate (es_run s)"
    using st by (cases "rn_at (es_run s)") (auto simp: stuck_on_def stuck_at_def run_inv_def offerApproval_def matchesApproval_def)
  then show ?thesis by (simp add: run_step_def)
qed

lemma stuck_put:
  assumes st: "stuck_on inp b s" and rows: "sent_in (ri_runId inp) (wb_decisionId b) rows"
    and f: "\<forall>p k. f = Sending p k \<longrightarrow> as_decisionId p \<noteq> Some (wb_decisionId b)"
  shows "stuck_on inp b (put_flight i f (s\<lparr>es_rows := rows\<rparr>))"
proof -
  have "as_decisionId p \<noteq> Some (wb_decisionId b)" if "Sending p k \<in> set ((es_flights s)[i := f])" for p k
  proof -
    have "Sending p k \<in> set (es_flights s) \<or> f = Sending p k" using that set_update_subset_insert[of "es_flights s" i f] by auto
    then show ?thesis using st f unfolding stuck_on_def by blast
  qed
  then show ?thesis using st rows unfolding stuck_on_def put_flight_def by simp blast
qed

lemma stuck_put_same:
  "stuck_on inp b s \<Longrightarrow> \<forall>p k. f = Sending p k \<longrightarrow> as_decisionId p \<noteq> Some (wb_decisionId b) \<Longrightarrow> stuck_on inp b (put_flight i f s)"
  using stuck_put[of inp b s "es_rows s" f i] by (simp add: stuck_on_def)

lemma stuck_step:
  assumes st: "stuck_on inp b s"
  shows "stuck_on inp b (editor_step E inp ev s) \<and> halted (es_run s) (es_run (editor_step E inp ev s))"
proof -
  have rows: "sent_in (ri_runId inp) (wb_decisionId b) (es_rows s)" using st by (simp add: stuck_on_def)
  have sig: "as_decisionId p \<noteq> Some (wb_decisionId b)" if "flight_of i s = Some (Sending p k)" for i p k
  proof -
    have "Sending p k \<in> set (es_flights s)" using that by (auto simp: flight_of_def in_set_conv_nth split: if_splits)
    then show ?thesis using st unfolding stuck_on_def by blast
  qed
  have same: "es_run (put_flight i f s') = es_run s'" for i f s' by (simp add: put_flight_def)
  show ?thesis
  proof (cases ev)
    case (EdRequest t u body v)
    have "Sending p k \<noteq> handle_request (ri_runId inp) t u body v (es_rows s)" for p k
      by (simp add: handle_request_def Let_def split: option.split existing.split)
    then show ?thesis using st EdRequest by (auto simp: editor_step_def stuck_on_def)
  next
    case (EdResume i t)
    show ?thesis
    proof (cases "flight_of i s")
      case (Some f)
      then show ?thesis using EdResume st stuck_put[OF st] handle_state_keeps[OF _ rows]
        by (cases f) (auto simp: editor_step_def same split: prod.split)
    qed (use st EdResume in \<open>simp add: editor_step_def\<close>)
  next
    case (EdAccept i)
    show ?thesis
    proof (cases "\<exists>p. flight_of i s = Some (Sending p False)")
      case True
      then obtain p where p: "flight_of i s = Some (Sending p False)" by blast
      have "stuck_on inp b (s\<lparr>es_wire := es_wire s @ [p], es_sent := es_sent s @ [p]\<rparr>)" using st sig[OF p] by (auto simp: stuck_on_def)
      then show ?thesis using p EdAccept sig[OF p] stuck_put_same by (simp add: editor_step_def same)
    qed (use EdAccept st in \<open>auto simp: editor_step_def split: option.split flight.split\<close>)
  next
    case (EdReturn i t ok)
    show ?thesis
    proof (cases "\<exists>p k. flight_of i s = Some (Sending p k)")
      case True
      then obtain p k where p: "flight_of i s = Some (Sending p k)" by blast
      show ?thesis using st p EdReturn stuck_put[OF st] mark_sent_keeps[OF rows] mark_failed_keeps[OF rows sig[OF p]]
        by (simp add: editor_step_def handle_sent_def same)
    qed (use EdReturn st in \<open>auto simp: editor_step_def split: option.split flight.split\<close>)
  next
    case EdDeliver
    show ?thesis
    proof (cases "es_wire s")
      case (Cons p ps)
      have "stuck_on inp b (s\<lparr>es_wire := ps\<rparr>)" using st Cons by (simp add: stuck_on_def)
      then show ?thesis using EdDeliver Cons stuck_deliver[OF st Cons, of E] by (simp add: editor_step_def stuck_on_def)
    qed (use st EdDeliver in \<open>simp add: editor_step_def\<close>)
  next
    case (EdRun e)
    then show ?thesis using st stuck_run[OF st] by (cases e) (auto simp: editor_step_def)
  qed (use st in \<open>auto simp: editor_step_def same intro!: stuck_put_same split: option.split flight.split\<close>)
qed

lemma sent_blocks:
  "stuck_on inp b s \<Longrightarrow> stuck_on inp b (editor_events E inp evs s) \<and> halted (es_run s) (es_run (editor_events E inp evs s))"
proof (induction evs arbitrary: s)
  case (Cons ev evs)
  show ?case using Cons.IH stuck_step[OF Cons.prems, of E ev] by (auto simp: halted_def)
qed simp

subsection \<open>What the query shows while the run waits\<close>

definition shown :: "run \<Rightarrow> bool" where
  "shown r \<longleftrightarrow> (case rn_at r of
     AwaitApprovalUpdate ph n b \<Rightarrow> rs_pendingApproval (rn_state r) = Some b \<and> rs_status (rn_state r) = RunWaitingApproval
   | AwaitApproval ph n b \<Rightarrow> rs_pendingApproval (rn_state r) = Some b \<and> rs_status (rn_state r) = RunWaitingApproval
   | _ \<Rightarrow> True)"

lemma shown_pieces:
  "shown (crash e r)" "shown (execute_node n r)" "shown (after_approval inp n r)" "shown (begin_approval inp ph n r)"
  by (auto simp: shown_def crash_def execute_node_def after_approval_def begin_approval_def Let_def make_call_def set_status_def
      split: option.split)

lemma shown_next: "shown (after_supervised inp n r)" "shown (start_node inp n r)" "shown (next_node inp r)"
  "shown (node_finished inp n x r)"
proof -
  show sup: "shown (after_supervised inp n r)" for n r by (simp add: after_supervised_def Let_def shown_pieces)
  show start: "shown (start_node inp n r)" for n r by (simp add: start_node_def Let_def shown_pieces sup)
  show "shown (next_node inp r)"
    by (simp add: next_node_def Let_def start split: prod.split option.split) (simp add: shown_def)
  show "shown (node_finished inp n x r)" by (simp add: node_finished_def Let_def shown_pieces) (simp add: shown_def)
qed

lemma shown_decided: "shown (decided E inp ph n b t r)"
proof -
  have rej: "shown (make_call c AwaitRejectUpdate r')" for c r' by (simp add: shown_def)
  show ?thesis
    by (auto simp: decided_def Let_def shown_pieces shown_next rej split: prod.split option.split verdict.split phase.split)
qed

lemma run_step_shown: "shown r \<Longrightarrow> shown (run_step E inp ev r)"
proof (cases ev)
  case (UpdateDone err)
  then show "shown r \<Longrightarrow> ?thesis"
    by (cases "rn_at r"; cases err) (simp_all add: run_step_def update_done_def shown_pieces, simp_all add: shown_def)
next
  case (Wake t)
  then show "shown r \<Longrightarrow> ?thesis"
    by (cases "rn_at r") (auto simp: run_step_def event_taken_def Let_def shown_pieces shown_decided split: prod.split option.split)
next
  case Timer
  then show "shown r \<Longrightarrow> ?thesis"
    by (cases "rn_at r") (auto simp: run_step_def event_taken_def Let_def shown_pieces shown_next split: prod.split option.split)
next
  case (NodeDone res)
  then show "shown r \<Longrightarrow> ?thesis"
    by (cases "rn_at r"; cases res) (simp_all add: run_step_def shown_pieces shown_next)
qed (auto simp: run_step_def shown_def split: await.splits)

lemma editor_shown: "shown (es_run s) \<Longrightarrow> shown (es_run (editor_events E inp evs s))"
proof (induction evs arbitrary: s)
  case (Cons ev evs)
  have "shown (es_run (editor_step E inp ev s))" using Cons.prems run_step_shown
    by (cases ev) (auto simp: editor_step_def put_flight_def split: option.split flight.split prod.split list.split run_event.split bool.split)
  then show ?case using Cons.IH by simp
qed simp

lemma start_shown: "shown (es_run (editor_start inp))"
  by (simp add: editor_start_def run_start_def Let_def shown_next)

lemma or_else_nonempty: "(\<And>x. Some x \<in> set xs \<Longrightarrow> x \<noteq> []) \<Longrightarrow> d \<noteq> [] \<Longrightarrow> or_else xs d \<noteq> []"
  by (auto simp: or_else_def dest: first_some_in split: option.split)

lemma decision_nonempty: "bound_to inp n b \<Longrightarrow> wb_decisionId b \<noteq> []"
proof -
  assume "bound_to inp n b"
  then obtain y where "wb_decisionId b =
      or_else [nonempty_text (node_setting n ''decisionId''), nonempty_text (map_of (ri_input inp) ''decisionId'')] (''approval:'' @ y)"
    by (auto simp: bound_to_def approvalWaitFor_def Let_def configuredString_def inputString_def split: option.splits)
  moreover have "or_else [nonempty_text u, nonempty_text w] (''approval:'' @ y) \<noteq> []" for u w
    by (rule or_else_nonempty) (auto dest: nonempty_text_trim sym)
  ultimately show ?thesis by simp
qed

subsection \<open>Properties\<close>

text \<open>C38 Over all interleavings of API requests, their awaits and failures, the delivery of signals and the
  steps of the run: the verdict stored for a decision never changes, every signal sent for it carries
  that verdict, and what the run records as decided is the verdict stored, so that no decision is
  recorded both ways.\<close>
theorem editor_decision_linear:
  assumes s: "s = editor_events E inp evs (editor_start inp)"
  shows "grows (ri_runId inp) (es_rows s) (es_rows (editor_events E inp later s)) \<and>
    (\<forall>p\<in>set (es_sent s). recorded (ri_runId inp) (es_rows s) p) \<and>
    (\<forall>a\<in>set (rn_audit (es_run s)). verdict_of (ri_runId inp) (wb_decisionId (au_binding a)) (es_rows s) = Some (au_decision a)) \<and>
    (\<forall>a\<in>set (rn_audit (es_run s)). \<forall>a'\<in>set (rn_audit (es_run s)).
       wb_decisionId (au_binding a) = wb_decisionId (au_binding a') \<longrightarrow> au_decision a = au_decision a')"
proof -
  have inv: "editor_inv inp s" unfolding s by (rule editor_events_inv[OF editor_start_inv])
  then have audit: "\<forall>a\<in>set (rn_audit (es_run s)). verdict_of (ri_runId inp) (wb_decisionId (au_binding a)) (es_rows s) = Some (au_decision a)"
    by (simp add: editor_inv_def)
  moreover have "\<forall>p\<in>set (es_sent s). recorded (ri_runId inp) (es_rows s) p" using inv by (auto simp: editor_inv_def signals_of_def)
  moreover have "au_decision a = au_decision a'" if "a \<in> set (rn_audit (es_run s))" "a' \<in> set (rn_audit (es_run s))"
      "wb_decisionId (au_binding a) = wb_decisionId (au_binding a')" for a a'
  proof -
    have "Some (au_decision a) = Some (au_decision a')" using audit that by metis
    then show ?thesis by simp
  qed
  ultimately show ?thesis using editor_events_grows by blast
qed

lemma fresh_request:
  assumes fresh: "\<forall>x\<in>set rows. dr_nodeId x \<noteq> requested_node body"
  shows "handle_request run t u body v rows = Querying None u body v"
proof -
  have "filter (\<lambda>x. dr_runId x = run \<and> dr_nodeId x = requested_node body) rows = []" using fresh by (auto simp: filter_empty_conv)
  then show ?thesis by (simp add: handle_request_def existingEditorApprovalDecision_def)
qed

lemma fresh_claim:
  assumes "as_decisionId p = Some d" "as_nodeId p = Some n" "d \<noteq> []" "n \<noteq> []" "\<forall>x\<in>set rows. dr_decisionId x \<noteq> d"
  shows "\<exists>x. claimEditorApprovalDecision t run p rows = (Some Owner, rows @ [x]) \<and> is_decision run d x \<and> dr_decision x = as_decision p"
proof -
  have "find (is_decision run d) rows = None" using assms(5) by (auto simp: find_None_iff is_decision_def)
  then show ?thesis using assms by (simp add: claimEditorApprovalDecision_def is_decision_def)
qed

lemma mark_last:
  assumes "\<forall>x\<in>set rows. dr_decisionId x \<noteq> d" "is_decision run d x" "dr_decision x = as_decision p" "as_decisionId p = Some d" "d \<noteq> []"
  shows "sent_in run d (markEditorApprovalDecisionSent t run p (rows @ [x]))"
  using assms
  by (induction rows) (auto simp: sent_in_def markEditorApprovalDecisionSent_def mark_decision_def is_decision_def split: if_splits)

text \<open>C39 An approval given while the run has published its wait but not yet opened its gate is lost for good: the
  API sends the signal, marks the decision sent and answers that it is done, the run drops the signal,
  and whatever requests, retries, signals and events follow, the run executes no further node,
  records no decision and never finishes (it waits, or fails when its own update fails).\<close>
theorem early_approval_lost:
  assumes s: "s = editor_events E inp evs (editor_start inp)"
    and pc: "rn_at (es_run s) = AwaitApprovalUpdate ph n b"
    and fresh: "\<forall>x\<in>set (es_rows s). dr_nodeId x \<noteq> wb_nodeId b \<and> dr_decisionId x \<noteq> wb_decisionId b"
    and wire: "es_wire s = []"
    and req: "requested_node body = wb_nodeId b" "wb_nodeId b \<noteq> []" "approvalRoleAllowed (se_role u) b"
    and i: "i = length (es_flights s)"
    and s': "s' = editor_events E inp [EdRequest t0 u body v, EdQuery i, EdResume i t1, EdAccept i, EdDeliver, EdReturn i t2 True] s"
  shows "flight_of i s' = Some (Answered Done) \<and> es_run s' = es_run s \<and>
    (\<forall>later. executed (es_run (editor_events E inp later s')) = executed (es_run s) \<and>
       rn_audit (es_run (editor_events E inp later s')) = rn_audit (es_run s) \<and>
       (\<forall>st. rn_at (es_run (editor_events E inp later s')) \<noteq> Finished st))"
proof -
  let ?d = "wb_decisionId b" and ?run = "ri_runId inp"
  have inv: "editor_inv inp s" unfolding s by (rule editor_events_inv[OF editor_start_inv])
  have rinv: "run_inv inp (es_run s)" using inv by (simp add: editor_inv_def)
  then have gate: "sg_approvalWait (rn_gate (es_run s)) = None" and d: "?d \<noteq> []"
    using pc decision_nonempty by (auto simp: run_inv_def)
  have "shown (es_run s)" unfolding s by (rule editor_shown[OF start_shown])
  then have show1: "rs_pendingApproval (rn_state (es_run s)) = Some b" "rs_status (rn_state (es_run s)) = RunWaitingApproval"
    using pc by (simp_all add: shown_def)
  obtain p where p: "prepareEditorApprovalSignal (rn_state (es_run s)) u body v = Inr p"
      "as_decisionId p = Some ?d" "as_nodeId p = Some (wb_nodeId b)" "as_decision p = v"
    using show1 req by (simp add: prepareEditorApprovalSignal_def)
  obtain x where x: "claimEditorApprovalDecision t1 ?run p (es_rows s) = (Some Owner, es_rows s @ [x])"
      "is_decision ?run ?d x" "dr_decision x = as_decision p"
    using fresh_claim[OF p(2,3) d req(2)] fresh by blast
  have none: "\<forall>q\<in>signals_of s. as_decisionId q \<noteq> Some ?d"
  proof -
    have "verdict_of ?run ?d (es_rows s) = None" using fresh by (auto simp: verdict_of_def find_None_iff is_decision_def)
    then show ?thesis using inv by (auto simp: editor_inv_def recorded_def)
  qed
  have drop: "run_step E inp (SignalApproval p) (es_run s) = es_run s" using gate by (simp add: run_step_def offerApproval_def)
  have rq: "handle_request ?run t0 u body v (es_rows s) = Querying None u body v" using fresh_request fresh req(1) by metis
  have s'_eq: "s' = s\<lparr>es_rows := markEditorApprovalDecisionSent t2 ?run p (es_rows s @ [x]),
      es_flights := es_flights s @ [Answered Done], es_sent := es_sent s @ [p]\<rparr>"
    using p x drop wire rq
    by (simp add: s' i editor_step_def flight_of_def put_flight_def handle_state_def handle_sent_def nth_append list_update_append)
  have sent: "sent_in ?run ?d (es_rows s')" using mark_last[OF _ x(2,3) p(2) d] fresh by (simp add: s'_eq)
  have "stuck_on inp b s'"
    using sent none rinv pc wire by (auto simp: stuck_on_def stuck_at_def s'_eq signals_of_def)
  then have "stuck_on inp b (editor_events E inp later s') \<and> halted (es_run s') (es_run (editor_events E inp later s'))" for later
    by (rule sent_blocks)
  moreover have "rn_at r \<noteq> Finished st" if "stuck_at b r" for r st using that by (auto simp: stuck_at_def)
  ultimately show ?thesis using i by (simp add: s'_eq stuck_on_def halted_def flight_of_def)
qed

text \<open>Sending that failed: the handler refuses the same approver before it gets to the claim that would
  allow sending again.\<close>
lemma failed_send_refused:
  assumes "latest (filter (\<lambda>x. dr_runId x = run \<and> dr_nodeId x = requested_node body) rows) = Some x"
    and "dr_status x = DFailed" "as_approverId (dr_payload x) = Some (se_humanId u)" "requested_node body \<noteq> []"
  shows "handle_request run t u body v rows = Answered (if dr_decision x = v then Processing else Conflict)"
  using assms by (simp add: handle_request_def existingEditorApprovalDecision_def)

definition demo_session :: session where
  "demo_session = \<lparr>se_humanId = ''h'', se_role = ''finance''\<rparr>"

definition demo_body :: "(string, json) kv" where
  "demo_body = [(''nodeId'', JStr ''send'')]"

definition demo_published :: "editor_event list" where
  "demo_published = [EdRun sample_ok, EdRun Timer]"

definition demo_decided :: "editor_event list" where
  "demo_decided = demo_published @ [EdRun (UpdateDone None), EdRequest 1 demo_session demo_body Approved, EdQuery 0, EdResume 0 2,
     EdAccept 0, EdDeliver, EdReturn 0 3 True, EdRun (Wake 4)]"

definition demo_later :: "editor_event list" where
  "demo_later = [EdRequest 5 \<lparr>se_humanId = ''g'', se_role = ''cfo''\<rparr> demo_body Rejected, EdQuery 1, EdResume 1 6]"

theorem editor_decision_linear_witness:
  "map au_decision (rn_audit (es_run (editor_events sample_env_run sample_run demo_decided (editor_start sample_run)))) = [Approved] \<and>
   grows ''r'' (es_rows (editor_events sample_env_run sample_run demo_decided (editor_start sample_run)))
     (es_rows (editor_events sample_env_run sample_run
        demo_later (editor_events sample_env_run sample_run demo_decided (editor_start sample_run))))"
proof -
  have "map au_decision (rn_audit (es_run (editor_events sample_env_run sample_run demo_decided (editor_start sample_run)))) = [Approved]"
    by code_simp
  moreover have "ri_runId sample_run = ''r''" by (simp add: sample_run_def)
  ultimately show ?thesis
    using conjunct1[OF editor_decision_linear[OF refl, where E = sample_env_run and inp = sample_run and evs = demo_decided]] by simp
qed

theorem early_approval_lost_witness:
  "\<exists>s s'. s = editor_events sample_env_run sample_run demo_published (editor_start sample_run) \<and>
     s' = editor_events sample_env_run sample_run [EdRequest 1 demo_session demo_body Approved, EdQuery 0, EdResume 0 2, EdAccept 0,
       EdDeliver, EdReturn 0 3 True] s \<and> flight_of 0 s' = Some (Answered Done) \<and>
     (\<forall>later. rn_audit (es_run (editor_events sample_env_run sample_run later s')) = [])"
proof -
  define s where "s = editor_events sample_env_run sample_run demo_published (editor_start sample_run)"
  have pc: "rn_at (es_run s) = AwaitApprovalUpdate SupervisedPhase (sample_node ''send'' KTool) sample_binding"
    unfolding s_def by code_simp
  have rest: "es_rows s = []" "es_flights s = []" "es_wire s = []" "rn_audit (es_run s) = []"
    unfolding s_def by code_simp+
  have req: "requested_node demo_body = wb_nodeId sample_binding" "wb_nodeId sample_binding \<noteq> []"
    "approvalRoleAllowed (se_role demo_session) sample_binding"
    by code_simp+
  have fresh: "\<forall>x\<in>set (es_rows s). dr_nodeId x \<noteq> wb_nodeId sample_binding \<and> dr_decisionId x \<noteq> wb_decisionId sample_binding"
    and len: "0 = length (es_flights s)" using rest by simp_all
  define s' where "s' = editor_events sample_env_run sample_run [EdRequest 1 demo_session demo_body Approved, EdQuery 0, EdResume 0 2,
    EdAccept 0, EdDeliver, EdReturn 0 3 True] s"
  have "flight_of 0 s' = Some (Answered Done) \<and>
      (\<forall>later. rn_audit (es_run (editor_events sample_env_run sample_run later s')) = [])"
    using early_approval_lost[OF s_def pc fresh rest(3) req len s'_def] rest(4) by simp
  then show ?thesis using s_def s'_def by blast
qed

end
