(* ===== verification/Amendments.thy ===== *)
theory Amendments
  imports Documents
begin

text \<open>
  Amendments of purchase orders and their audit (\<open>createProcurementPurchaseOrderAmendment\<close>,
  \<open>transitionProcurementPurchaseOrderAmendment\<close> and the append-only audit table of
  \<open>packages/persistence/src/index.ts\<close>), for one tenant.  The row keeps the patch as its canonical JSON
  text, as the table does.  The abstract machine keeps for each amendment the states it has been in;
  the audit table implements it.
\<close>

subsection \<open>Data\<close>

datatype am_action = AmEdit | AmCancel

datatype am_state = AmRequested | AmQueued | AmPending | AmDispatched | AmUnknown | AmApplied | AmFailed
  | AmRejected | AmCancelled

record amendment =
  am_id :: ident
  am_poId :: ident
  am_action :: am_action
  am_sourcePoVersion :: int
  am_patchJson :: string
  am_state :: am_state
  am_outboxId :: "ident option"
  am_receiptReference :: "string option"
  am_idempotencyKey :: string
  am_actorId :: string
  am_reason :: string
  am_createdAt :: instant
  am_updatedAt :: instant
  am_appliedAt :: "instant option"

record am_event =
  ae_id :: ident
  ae_amendmentId :: ident
  ae_sequence :: nat
  ae_fromState :: "am_state option"
  ae_toState :: am_state
  ae_actorId :: string
  ae_reason :: string
  ae_outboxId :: "ident option"
  ae_receiptReference :: "string option"
  ae_createdAt :: instant

record am_db =
  ad_rows :: "amendment list"
  ad_audit :: "am_event list"

record am_request =
  ar_id :: ident
  ar_poId :: ident
  ar_action :: am_action
  ar_sourcePoVersion :: int
  ar_patch :: json
  ar_idempotencyKey :: string
  ar_actorId :: string
  ar_reason :: string
  ar_at :: instant

record am_transition =
  at_id :: ident
  at_state :: am_state
  at_actorId :: string
  at_reason :: string
  at_outboxId :: "ident option"
  at_receiptReference :: "string option"
  at_at :: instant

datatype am_fault = AmVersion | AmBlank string | AmPatch | AmKeyReused string | AmTaken | AmNotFound
  | AmIllegal am_state am_state | AmNeedsOutbox am_state | AmNeedsReceipt | AmConcurrent

type_synonym 'a am_tx = "(am_fault, 'a, am_db) tx"

subsection \<open>Operations\<close>

definition stableJsonObject :: "(json \<Rightarrow> string) \<Rightarrow> json \<Rightarrow> string option" where
  "stableJsonObject J v = (case v of JObj kvs \<Rightarrow> canonicalJson J v | _ \<Rightarrow> None)"

text \<open>The first of several required texts that is blank.\<close>
definition first_blank :: "(string \<times> string) list \<Rightarrow> string option" where
  "first_blank xs = map_option snd (find (\<lambda>x. trim (fst x) = []) xs)"

definition getProcurementPurchaseOrderAmendment :: "ident \<Rightarrow> am_db \<Rightarrow> amendment option" where
  "getProcurementPurchaseOrderAmendment i db = find (\<lambda>m. am_id m = i) (ad_rows db)"

definition am_audit_of :: "ident \<Rightarrow> am_db \<Rightarrow> am_event list" where
  "am_audit_of i db = filter (\<lambda>e. ae_amendmentId e = i) (ad_audit db)"

definition listProcurementPurchaseOrderAmendmentAudit :: "ident \<Rightarrow> am_db \<Rightarrow> am_event list" where
  "listProcurementPurchaseOrderAmendmentAudit i db = sort_key ae_sequence (am_audit_of i db)"

definition appendProcurementPurchaseOrderAmendmentAudit ::
  "string \<Rightarrow> ident \<Rightarrow> am_state option \<Rightarrow> am_state \<Rightarrow> string \<Rightarrow> string \<Rightarrow> ident option \<Rightarrow> string option \<Rightarrow> instant \<Rightarrow> am_db \<Rightarrow> unit am_tx" where
  "appendProcurementPurchaseOrderAmendmentAudit uuid i from to actor reason outbox receipt t db =
    (let k = Max (insert 0 (ae_sequence ` set (am_audit_of i db))) + 1;
         e = \<lparr>ae_id = ''po-amendment-audit:'' @ uuid, ae_amendmentId = i, ae_sequence = k, ae_fromState = from, ae_toState = to,
              ae_actorId = actor, ae_reason = reason, ae_outboxId = outbox, ae_receiptReference = receipt, ae_createdAt = t\<rparr>
     in if ae_id e \<in> ae_id ` set (ad_audit db) then (Inl AmTaken, db)
        else (Inr (), db\<lparr>ad_audit := ad_audit db @ [e]\<rparr>))"

definition same_request :: "am_request \<Rightarrow> string \<Rightarrow> amendment \<Rightarrow> bool" where
  "same_request r js m \<longleftrightarrow> am_poId m = trim (ar_poId r) \<and> am_action m = ar_action r \<and>
     am_sourcePoVersion m = ar_sourcePoVersion r \<and> am_patchJson m = js \<and> am_actorId m = trim (ar_actorId r) \<and>
     am_reason m = trim (ar_reason r)"

definition requested_amendment :: "am_request \<Rightarrow> string \<Rightarrow> amendment" where
  "requested_amendment r js = \<lparr>am_id = trim (ar_id r), am_poId = trim (ar_poId r), am_action = ar_action r,
     am_sourcePoVersion = ar_sourcePoVersion r, am_patchJson = js, am_state = AmRequested, am_outboxId = None,
     am_receiptReference = None, am_idempotencyKey = trim (ar_idempotencyKey r), am_actorId = trim (ar_actorId r),
     am_reason = trim (ar_reason r), am_createdAt = ar_at r, am_updatedAt = ar_at r, am_appliedAt = None\<rparr>"

definition insert_amendment :: "string \<Rightarrow> amendment \<Rightarrow> am_db \<Rightarrow> (amendment \<times> bool) am_tx" where
  "insert_amendment uuid m db =
    atomic db (bind_tx (appendProcurementPurchaseOrderAmendmentAudit uuid (am_id m) None AmRequested (am_actorId m) (am_reason m)
        None None (am_createdAt m) (db\<lparr>ad_rows := ad_rows db @ [m]\<rparr>)) (\<lambda>_ db. (Inr (m, False), db)))"

definition createProcurementPurchaseOrderAmendment ::
  "(json \<Rightarrow> string) \<Rightarrow> string \<Rightarrow> am_request \<Rightarrow> am_db \<Rightarrow> (amendment \<times> bool) am_tx" where
  "createProcurementPurchaseOrderAmendment J uuid r db =
    (if ar_sourcePoVersion r < 1 \<or> 9007199254740991 < ar_sourcePoVersion r then (Inl AmVersion, db)
     else case first_blank [(ar_id r, ''id''), (ar_poId r, ''poId''), (ar_idempotencyKey r, ''idempotencyKey''),
         (ar_actorId r, ''actorId''), (ar_reason r, ''reason'')] of
       Some f \<Rightarrow> (Inl (AmBlank f), db)
     | None \<Rightarrow>
       (case stableJsonObject J (ar_patch r) of
          None \<Rightarrow> (Inl AmPatch, db)
        | Some js \<Rightarrow>
          (case find (\<lambda>m. am_idempotencyKey m = trim (ar_idempotencyKey r)) (ad_rows db) of
             Some m \<Rightarrow> if same_request r js m then (Inr (m, True), db)
               else (Inl (AmKeyReused (trim (ar_idempotencyKey r))), db)
           | None \<Rightarrow>
               let m = requested_amendment r js in
               if getProcurementPurchaseOrderAmendment (am_id m) db \<noteq> None then (Inl AmTaken, db)
               else insert_amendment uuid m db)))"

fun AMENDMENT_LEGAL_TRANSITIONS :: "am_state \<Rightarrow> am_state list" where
  "AMENDMENT_LEGAL_TRANSITIONS AmRequested = [AmQueued, AmPending, AmRejected, AmCancelled]"
| "AMENDMENT_LEGAL_TRANSITIONS AmQueued = [AmPending, AmDispatched, AmFailed, AmCancelled]"
| "AMENDMENT_LEGAL_TRANSITIONS AmPending = [AmDispatched, AmFailed, AmRejected, AmCancelled]"
| "AMENDMENT_LEGAL_TRANSITIONS AmDispatched = [AmApplied, AmFailed, AmUnknown]"
| "AMENDMENT_LEGAL_TRANSITIONS AmUnknown = [AmApplied, AmFailed]"
| "AMENDMENT_LEGAL_TRANSITIONS AmFailed = [AmQueued, AmPending, AmCancelled]"
| "AMENDMENT_LEGAL_TRANSITIONS AmApplied = []"
| "AMENDMENT_LEGAL_TRANSITIONS AmRejected = []"
| "AMENDMENT_LEGAL_TRANSITIONS AmCancelled = []"

definition needs_outbox :: "am_state \<Rightarrow> bool" where
  "needs_outbox s \<longleftrightarrow> s \<in> {AmQueued, AmPending, AmDispatched, AmFailed, AmUnknown, AmApplied}"

text \<open>What the transition makes of a given outbox or receipt: the given one trimmed, or the current one.\<close>
definition given_or :: "string option \<Rightarrow> string option \<Rightarrow> string option" where
  "given_or given current = (case given of None \<Rightarrow> current | Some x \<Rightarrow> Some (trim x))"

definition moved_amendment :: "am_transition \<Rightarrow> amendment \<Rightarrow> amendment" where
  "moved_amendment r m = m\<lparr>am_state := at_state r, am_outboxId := given_or (at_outboxId r) (am_outboxId m),
     am_receiptReference := given_or (at_receiptReference r) (am_receiptReference m), am_updatedAt := at_at r,
     am_appliedAt := (if at_state r = AmApplied then Some (at_at r) else am_appliedAt m)\<rparr>"

definition same_place :: "amendment \<Rightarrow> amendment \<Rightarrow> bool" where
  "same_place cur x \<longleftrightarrow> am_id x = am_id cur \<and> am_state x = am_state cur"

definition move_amendment :: "string \<Rightarrow> am_transition \<Rightarrow> amendment \<Rightarrow> am_db \<Rightarrow> amendment am_tx" where
  "move_amendment uuid r cur db =
    (let m = moved_amendment r cur
     in if changes (same_place cur) (ad_rows db) \<noteq> 1 then (Inl AmConcurrent, db)
        else atomic db (bind_tx (appendProcurementPurchaseOrderAmendmentAudit uuid (am_id cur) (Some (am_state cur)) (at_state r)
               (trim (at_actorId r)) (trim (at_reason r)) (am_outboxId m) (am_receiptReference m) (at_at r)
               (db\<lparr>ad_rows := upd_where (same_place cur) (moved_amendment r) (ad_rows db)\<rparr>))
             (\<lambda>_ db. (Inr m, db))))"

definition transitionProcurementPurchaseOrderAmendment :: "string \<Rightarrow> am_transition \<Rightarrow> am_db \<Rightarrow> amendment am_tx" where
  "transitionProcurementPurchaseOrderAmendment uuid r db =
    (case getProcurementPurchaseOrderAmendment (at_id r) db of
       None \<Rightarrow> (Inl AmNotFound, db)
     | Some cur \<Rightarrow>
        if at_state r \<notin> set (AMENDMENT_LEGAL_TRANSITIONS (am_state cur)) then (Inl (AmIllegal (am_state cur) (at_state r)), db)
        else case first_blank ([(at_actorId r, ''actorId''), (at_reason r, ''reason'')] @
            (case at_outboxId r of None \<Rightarrow> [] | Some o' \<Rightarrow> [(o', ''outboxId'')]) @
            (case at_receiptReference r of None \<Rightarrow> [] | Some x \<Rightarrow> [(x, ''receiptReference'')])) of
          Some f \<Rightarrow> (Inl (AmBlank f), db)
        | None \<Rightarrow>
          let m = moved_amendment r cur in
             if needs_outbox (at_state r) \<and> am_outboxId m = None then (Inl (AmNeedsOutbox (at_state r)), db)
             else if at_state r = AmApplied \<and> am_receiptReference m = None then (Inl AmNeedsReceipt, db)
             else move_amendment uuid r cur db)"

subsection \<open>The abstract machine\<close>

type_synonym history = "ident \<Rightarrow> am_state list"

datatype am_move = Request ident | Move ident am_state

definition spec_step :: "am_move \<Rightarrow> history \<Rightarrow> history option" where
  "spec_step mv h = (case mv of
     Request i \<Rightarrow> if h i = [] then Some (h(i := [AmRequested])) else None
   | Move i s \<Rightarrow> if h i \<noteq> [] \<and> s \<in> set (AMENDMENT_LEGAL_TRANSITIONS (last (h i))) then Some (h(i := h i @ [s])) else None)"

fun spec_run :: "am_move list \<Rightarrow> history \<Rightarrow> history option" where
  "spec_run [] h = Some h"
| "spec_run (mv # mvs) h = (case spec_step mv h of None \<Rightarrow> None | Some h' \<Rightarrow> spec_run mvs h')"

lemma spec_run_append: "spec_run (xs @ ys) h = (case spec_run xs h of None \<Rightarrow> None | Some h' \<Rightarrow> spec_run ys h')"
  by (induction xs arbitrary: h) (auto split: option.split)

definition history_of :: "am_db \<Rightarrow> history" where
  "history_of db = (\<lambda>i. map ae_toState (am_audit_of i db))"

datatype am_op = OpRequest string am_request | OpMove string am_transition

definition am_exec :: "(json \<Rightarrow> string) \<Rightarrow> am_op \<Rightarrow> am_db \<Rightarrow> am_db" where
  "am_exec J op db = (case op of OpRequest u r \<Rightarrow> snd (createProcurementPurchaseOrderAmendment J u r db)
     | OpMove u r \<Rightarrow> snd (transitionProcurementPurchaseOrderAmendment u r db))"

text \<open>The abstract move an operation makes; none when it is refused or replays.\<close>
definition moves_of :: "(json \<Rightarrow> string) \<Rightarrow> am_op \<Rightarrow> am_db \<Rightarrow> am_move list" where
  "moves_of J op db = (case op of
     OpRequest u r \<Rightarrow> (case fst (createProcurementPurchaseOrderAmendment J u r db) of
         Inr (m, False) \<Rightarrow> [Request (am_id m)] | _ \<Rightarrow> [])
   | OpMove u r \<Rightarrow> (case fst (transitionProcurementPurchaseOrderAmendment u r db) of
         Inr m \<Rightarrow> [Move (am_id m) (at_state r)] | Inl e \<Rightarrow> []))"

fun am_run :: "(json \<Rightarrow> string) \<Rightarrow> am_op list \<Rightarrow> am_db \<Rightarrow> am_db" where
  "am_run J [] db = db"
| "am_run J (op # ops) db = am_run J ops (am_exec J op db)"

fun am_moves :: "(json \<Rightarrow> string) \<Rightarrow> am_op list \<Rightarrow> am_db \<Rightarrow> am_move list" where
  "am_moves J [] db = []"
| "am_moves J (op # ops) db = moves_of J op db @ am_moves J ops (am_exec J op db)"

definition am_empty :: am_db where
  "am_empty = \<lparr>ad_rows = [], ad_audit = []\<rparr>"

subsection \<open>The audit implements it\<close>

text \<open>The entries of one amendment: numbered from one, each starting where the one before has ended.\<close>
definition chained :: "am_event list \<Rightarrow> bool" where
  "chained es \<longleftrightarrow> map ae_sequence es = [1..<Suc (length es)] \<and>
     map ae_fromState es = (if es = [] then [] else None # map (Some \<circ> ae_toState) (butlast es))"

definition am_ok :: "am_db \<Rightarrow> bool" where
  "am_ok db \<longleftrightarrow> distinct (map am_id (ad_rows db)) \<and> (\<forall>i. chained (am_audit_of i db)) \<and>
     (\<forall>m\<in>set (ad_rows db). am_audit_of (am_id m) db \<noteq> [] \<and> ae_toState (last (am_audit_of (am_id m) db)) = am_state m) \<and>
     (\<forall>i. i \<notin> am_id ` set (ad_rows db) \<longrightarrow> am_audit_of i db = [])"

definition adds_event :: "ident \<Rightarrow> am_state option \<Rightarrow> am_state \<Rightarrow> am_db \<Rightarrow> am_db \<Rightarrow> bool" where
  "adds_event i from to db db' \<longleftrightarrow> (\<exists>e. ad_audit db' = ad_audit db @ [e] \<and> ae_amendmentId e = i \<and> ae_fromState e = from \<and>
     ae_toState e = to \<and> ae_sequence e = Max (insert 0 (ae_sequence ` set (am_audit_of i db))) + 1)"

lemma append_ok:
  assumes "appendProcurementPurchaseOrderAmendmentAudit u i from to a rs ob rc t db = (Inr x, db')"
  shows "adds_event i from to db db' \<and> ad_rows db' = ad_rows db"
  using assms by (auto simp: appendProcurementPurchaseOrderAmendmentAudit_def adds_event_def Let_def split: if_splits)

lemma audit_of_rows [simp]: "am_audit_of i (db\<lparr>ad_rows := rs\<rparr>) = am_audit_of i db"
  by (simp add: am_audit_of_def)

lemma insert_cases:
  "(\<exists>e. insert_amendment u m db = (Inl e, db)) \<or>
   (\<exists>db'. insert_amendment u m db = (Inr (m, False), db') \<and> ad_rows db' = ad_rows db @ [m] \<and> adds_event (am_id m) None AmRequested db db')"
proof (cases "insert_amendment u m db")
  case (Pair x db')
  show ?thesis
  proof (cases x)
    case (Inl e)
    then show ?thesis using Pair by (auto simp: insert_amendment_def dest: atomic_error)
  next
    case (Inr v)
    then have "v = (m, False)" and app: "appendProcurementPurchaseOrderAmendmentAudit u (am_id m) None AmRequested (am_actorId m)
        (am_reason m) None None (am_createdAt m) (db\<lparr>ad_rows := ad_rows db @ [m]\<rparr>) = (Inr (), db')"
      using Pair by (auto simp: insert_amendment_def tx_ok)
    then show ?thesis using append_ok[OF app] Pair Inr by (simp add: adds_event_def)
  qed
qed

lemma create_cases:
  "(\<exists>e. createProcurementPurchaseOrderAmendment J u r db = (Inl e, db)) \<or>
   (\<exists>m. createProcurementPurchaseOrderAmendment J u r db = (Inr (m, True), db)) \<or>
   (\<exists>m db'. createProcurementPurchaseOrderAmendment J u r db = (Inr (m, False), db') \<and> am_id m \<notin> am_id ` set (ad_rows db) \<and>
      am_state m = AmRequested \<and> am_outboxId m = None \<and> ad_rows db' = ad_rows db @ [m] \<and> adds_event (am_id m) None AmRequested db db')"
proof -
  have new: "(\<exists>e. insert_amendment u m db = (Inl e, db)) \<or>
    (\<exists>db'. insert_amendment u m db = (Inr (m, False), db') \<and> am_id m \<notin> am_id ` set (ad_rows db) \<and>
      am_state m = AmRequested \<and> am_outboxId m = None \<and> ad_rows db' = ad_rows db @ [m] \<and> adds_event (am_id m) None AmRequested db db')"
    if "m = requested_amendment r js" "getProcurementPurchaseOrderAmendment (am_id m) db = None" for m js
  proof -
    have "am_id m \<notin> am_id ` set (ad_rows db)" "am_state m = AmRequested" "am_outboxId m = None"
      using that by (auto simp: getProcurementPurchaseOrderAmendment_def find_None_iff requested_amendment_def)
    then show ?thesis using insert_cases[of u m db] by blast
  qed
  show ?thesis
    unfolding createProcurementPurchaseOrderAmendment_def Let_def
    using new[OF refl] by (simp split: option.split) blast
qed

lemma move_cases:
  "(\<exists>e. move_amendment u r cur db = (Inl e, db)) \<or>
   (\<exists>db'. move_amendment u r cur db = (Inr (moved_amendment r cur), db') \<and>
      ad_rows db' = upd_where (same_place cur) (moved_amendment r) (ad_rows db) \<and>
      adds_event (am_id cur) (Some (am_state cur)) (at_state r) db db')"
proof (cases "move_amendment u r cur db")
  case (Pair x db')
  show ?thesis
  proof (cases x)
    case (Inl e)
    then show ?thesis using Pair by (auto simp: move_amendment_def Let_def dest: atomic_error split: if_splits)
  next
    case (Inr v)
    then have "v = moved_amendment r cur" and app: "appendProcurementPurchaseOrderAmendmentAudit u (am_id cur) (Some (am_state cur))
        (at_state r) (trim (at_actorId r)) (trim (at_reason r)) (am_outboxId (moved_amendment r cur))
        (am_receiptReference (moved_amendment r cur)) (at_at r)
        (db\<lparr>ad_rows := upd_where (same_place cur) (moved_amendment r) (ad_rows db)\<rparr>) = (Inr (), db')"
      using Pair by (auto simp: move_amendment_def Let_def tx_ok split: if_splits)
    then show ?thesis using append_ok[OF app] Pair Inr by (simp add: adds_event_def)
  qed
qed

lemma transition_cases:
  "(\<exists>e. transitionProcurementPurchaseOrderAmendment u r db = (Inl e, db)) \<or>
   (\<exists>cur db'. transitionProcurementPurchaseOrderAmendment u r db = (Inr (moved_amendment r cur), db') \<and>
      getProcurementPurchaseOrderAmendment (at_id r) db = Some cur \<and>
      at_state r \<in> set (AMENDMENT_LEGAL_TRANSITIONS (am_state cur)) \<and>
      ad_rows db' = upd_where (same_place cur) (moved_amendment r) (ad_rows db) \<and>
      adds_event (am_id cur) (Some (am_state cur)) (at_state r) db db')"
  using move_cases[of u r _ db]
  unfolding transitionProcurementPurchaseOrderAmendment_def Let_def
  by (simp split: option.split)

lemma audit_of_adds:
  assumes "adds_event i from to db db'"
  obtains e where "am_audit_of i db' = am_audit_of i db @ [e]" "ae_fromState e = from" "ae_toState e = to"
    "ae_sequence e = Max (insert 0 (ae_sequence ` set (am_audit_of i db))) + 1" "\<And>j. j \<noteq> i \<Longrightarrow> am_audit_of j db' = am_audit_of j db"
  using assms by (auto simp: adds_event_def am_audit_of_def)

lemma chained_snoc:
  assumes c: "chained es" and e: "ae_sequence e = Max (insert 0 (ae_sequence ` set es)) + 1"
    and f: "ae_fromState e = (if es = [] then None else Some (ae_toState (last es)))"
  shows "chained (es @ [e])"
proof -
  have seqs: "map ae_sequence es = [1..<Suc (length es)]" using c by (simp add: chained_def)
  have "ae_sequence ` set es = set [1..<Suc (length es)]" unfolding seqs[symmetric] by simp
  then have "Max (insert 0 (ae_sequence ` set es)) = length es"
    by (cases es) (auto intro!: Max_eqI)
  then have "map ae_sequence (es @ [e]) = [1..<Suc (length (es @ [e]))]" using seqs e by simp
  moreover have "map ae_fromState (es @ [e]) = None # map (Some \<circ> ae_toState) (butlast (es @ [e]))"
  proof (cases "es = []")
    case False
    then have "map ae_fromState es = None # map (Some \<circ> ae_toState) (butlast es)" using c by (simp add: chained_def)
    moreover have "es = butlast es @ [last es]" using False by simp
    then have "map (Some \<circ> ae_toState) es = map (Some \<circ> ae_toState) (butlast es) @ [Some (ae_toState (last es))]"
      by (metis (no_types) comp_apply list.simps(8,9) map_append)
    ultimately show ?thesis using f False by simp
  qed (use f in simp)
  ultimately show ?thesis by (simp add: chained_def)
qed

lemma find_row: "find (\<lambda>m. am_id m = i) rows = Some m \<Longrightarrow> m \<in> set rows \<and> am_id m = i"
  using find_Some_mem by fastforce

lemma moved_ids: "map am_id (upd_where p (moved_amendment r) rows) = map am_id rows"
  by (rule map_upd_where) (simp add: moved_amendment_def)

lemma create_refines:
  assumes ok: "am_ok db" and c: "createProcurementPurchaseOrderAmendment J u r db = (Inr (m, False), db')"
  shows "am_ok db' \<and> spec_step (Request (am_id m)) (history_of db) = Some (history_of db')"
proof -
  have m: "am_id m \<notin> am_id ` set (ad_rows db)" "am_state m = AmRequested" "ad_rows db' = ad_rows db @ [m]"
      "adds_event (am_id m) None AmRequested db db'"
    using create_cases[of J u r db] c by auto
  obtain e where e: "am_audit_of (am_id m) db' = am_audit_of (am_id m) db @ [e]" "ae_fromState e = None" "ae_toState e = AmRequested"
      "ae_sequence e = Max (insert 0 (ae_sequence ` set (am_audit_of (am_id m) db))) + 1" "\<And>j. j \<noteq> am_id m \<Longrightarrow> am_audit_of j db' = am_audit_of j db"
    by (rule audit_of_adds[OF m(4)]) blast
  have none: "am_audit_of (am_id m) db = []" using ok m(1) by (simp add: am_ok_def)
  have ch: "chained (am_audit_of j db')" for j
  proof (cases "j = am_id m")
    case True
    have "chained ([] @ [e])" by (rule chained_snoc) (use e(2,4) none in \<open>simp_all add: chained_def\<close>)
    then show ?thesis using True e(1) none by simp
  qed (use ok e(5) in \<open>simp add: am_ok_def\<close>)
  have row: "am_audit_of (am_id x) db' \<noteq> [] \<and> ae_toState (last (am_audit_of (am_id x) db')) = am_state x" if "x \<in> set (ad_rows db')" for x
  proof (cases "x = m")
    case False
    then have x: "x \<in> set (ad_rows db)" using that m(3) by simp
    then have "am_id x \<noteq> am_id m" using m(1) by (metis imageI)
    then have "am_audit_of (am_id x) db' = am_audit_of (am_id x) db" by (rule e(5))
    then show ?thesis using x ok by (simp add: am_ok_def)
  qed (use e m(2) in simp)
  have "am_audit_of j db' = []" if "j \<notin> am_id ` set (ad_rows db')" for j
    using that m(3) e(5) ok by (simp add: am_ok_def)
  then have "am_ok db'" using ok ch row m(1,3) by (simp add: am_ok_def)
  moreover have "history_of db' = (history_of db)(am_id m := [AmRequested])" using e none by (auto simp: history_of_def)
  ultimately show ?thesis using none by (simp add: spec_step_def history_of_def)
qed

lemma transition_refines:
  assumes ok: "am_ok db" and c: "transitionProcurementPurchaseOrderAmendment u r db = (Inr m, db')"
  shows "am_ok db' \<and> spec_step (Move (am_id m) (at_state r)) (history_of db) = Some (history_of db')"
proof -
  obtain cur where cur: "m = moved_amendment r cur" "getProcurementPurchaseOrderAmendment (at_id r) db = Some cur"
      "at_state r \<in> set (AMENDMENT_LEGAL_TRANSITIONS (am_state cur))"
      "ad_rows db' = upd_where (same_place cur) (moved_amendment r) (ad_rows db)"
      "adds_event (am_id cur) (Some (am_state cur)) (at_state r) db db'"
    using transition_cases[of u r db] c by auto
  have mem: "cur \<in> set (ad_rows db)" using cur(2) find_row by (auto simp: getProcurementPurchaseOrderAmendment_def)
  have id: "am_id m = am_id cur" by (simp add: cur(1) moved_amendment_def)
  obtain e where e: "am_audit_of (am_id cur) db' = am_audit_of (am_id cur) db @ [e]" "ae_fromState e = Some (am_state cur)"
      "ae_toState e = at_state r" "ae_sequence e = Max (insert 0 (ae_sequence ` set (am_audit_of (am_id cur) db))) + 1"
      "\<And>j. j \<noteq> am_id cur \<Longrightarrow> am_audit_of j db' = am_audit_of j db"
    by (rule audit_of_adds[OF cur(5)]) blast
  have last: "am_audit_of (am_id cur) db \<noteq> []" "ae_toState (last (am_audit_of (am_id cur) db)) = am_state cur"
    using ok mem by (auto simp: am_ok_def)
  have dist: "distinct (map am_id (ad_rows db))" using ok by (simp add: am_ok_def)
  have ch: "chained (am_audit_of j db')" for j
  proof (cases "j = am_id cur")
    case True
    have "chained (am_audit_of (am_id cur) db @ [e])" by (rule chained_snoc) (use e last ok in \<open>simp_all add: am_ok_def\<close>)
    then show ?thesis using True e(1) by simp
  qed (use ok e(5) in \<open>simp add: am_ok_def\<close>)
  have row: "am_audit_of (am_id x) db' \<noteq> [] \<and> ae_toState (last (am_audit_of (am_id x) db')) = am_state x" if x: "x \<in> set (ad_rows db')" for x
  proof -
    obtain y where y: "y \<in> set (ad_rows db)" "x = (if same_place cur y then moved_amendment r y else y)"
      using x cur(4) by (auto simp: upd_where_def)
    show ?thesis
    proof (cases "am_id y = am_id cur")
      case True
      then have "y = cur" using y(1) mem dist by (simp add: eq_key_imp_eq_value distinct_map inj_on_def)
      then show ?thesis using y(2) e by (simp add: same_place_def moved_amendment_def)
    qed (use y e(5) ok in \<open>simp add: same_place_def am_ok_def\<close>)
  qed
  have ids: "map am_id (ad_rows db') = map am_id (ad_rows db)" by (simp add: cur(4) moved_ids)
  then have idset: "am_id ` set (ad_rows db') = am_id ` set (ad_rows db)" by (metis set_map)
  have "am_audit_of j db' = []" if j: "j \<notin> am_id ` set (ad_rows db')" for j
  proof -
    have "j \<noteq> am_id cur" using j idset mem by blast
    then show ?thesis using j idset e(5) ok by (simp add: am_ok_def)
  qed
  then have "am_ok db'" using ch row ids dist by (simp add: am_ok_def)
  moreover have "history_of db' = (history_of db)(am_id cur := history_of db (am_id cur) @ [at_state r])"
    using e by (auto simp: history_of_def)
  ultimately show ?thesis using last cur(3) by (simp add: spec_step_def history_of_def id last_map)
qed

lemma am_exec_refines:
  assumes ok: "am_ok db"
  shows "am_ok (am_exec J op db) \<and> spec_run (moves_of J op db) (history_of db) = Some (history_of (am_exec J op db))"
proof (cases op)
  case (OpRequest u r)
  then show ?thesis using ok create_cases[of J u r db] create_refines[OF ok, of J u r]
    by (auto simp: am_exec_def moves_of_def)
next
  case (OpMove u r)
  then show ?thesis using ok transition_cases[of u r db] transition_refines[OF ok, of u r]
    by (auto simp: am_exec_def moves_of_def)
qed

lemma am_run_refines:
  "am_ok db \<Longrightarrow> am_ok (am_run J ops db) \<and> spec_run (am_moves J ops db) (history_of db) = Some (history_of (am_run J ops db))"
proof (induction ops arbitrary: db)
  case (Cons op ops)
  then show ?case using am_exec_refines[OF Cons.prems, of J op] by (simp add: spec_run_append)
qed simp

lemma am_empty_ok: "am_ok am_empty" "history_of am_empty = (\<lambda>_. [])"
  by (simp_all add: am_ok_def am_empty_def am_audit_of_def chained_def history_of_def)

lemma audit_listed: "chained (am_audit_of i db) \<Longrightarrow> listProcurementPurchaseOrderAmendmentAudit i db = am_audit_of i db"
proof -
  assume "chained (am_audit_of i db)"
  then have "map ae_sequence (am_audit_of i db) = [1..<Suc (length (am_audit_of i db))]" by (simp add: chained_def)
  then have "sorted (map ae_sequence (am_audit_of i db))" by (metis sorted_upt)
  then show ?thesis by (simp add: listProcurementPurchaseOrderAmendmentAudit_def sort_key_id_if_sorted)
qed

subsection \<open>Properties\<close>

text \<open>C40 The amendment tables implement the abstract life cycle: whatever requests and transitions arrive, valid,
  refused or repeated, the moves that succeed are a run of the abstract machine along the legal
  transitions; the abstraction of the tables is its state, every row shows the last state of its
  history, and the audit listing is that history without a gap, numbered from one, each entry
  starting in the state where the entry before it ended.\<close>
theorem amendment_audit_refines:
  "spec_run (am_moves J ops am_empty) (\<lambda>_. []) = Some (history_of (am_run J ops am_empty)) \<and>
   list_all (\<lambda>m. history_of (am_run J ops am_empty) (am_id m) \<noteq> [] \<and>
      last (history_of (am_run J ops am_empty) (am_id m)) = am_state m) (ad_rows (am_run J ops am_empty)) \<and>
   map ae_toState (listProcurementPurchaseOrderAmendmentAudit i (am_run J ops am_empty)) = history_of (am_run J ops am_empty) i \<and>
   chained (listProcurementPurchaseOrderAmendmentAudit i (am_run J ops am_empty))"
proof -
  let ?db = "am_run J ops am_empty"
  have ok: "am_ok ?db" and run: "spec_run (am_moves J ops am_empty) (\<lambda>_. []) = Some (history_of ?db)"
    using am_run_refines[OF am_empty_ok(1), of J ops] am_empty_ok(2) by auto
  have "chained (am_audit_of i ?db)" using ok by (simp add: am_ok_def)
  moreover have "list_all (\<lambda>m. history_of ?db (am_id m) \<noteq> [] \<and> last (history_of ?db (am_id m)) = am_state m) (ad_rows ?db)"
    using ok by (auto simp: am_ok_def list_all_iff history_of_def last_map)
  ultimately show ?thesis using run audit_listed[of i ?db] by (simp add: history_of_def)
qed

end
