(* ===== verification/Outbox.thy ===== *)
theory Outbox
  imports Amendments Quantities LeaseQueue LineMatch
begin

text \<open>
  The execution outbox of procurement (\<open>insertExecutionOutbox\<close>, \<open>requeueBlockedOutboxMessages\<close>,
  \<open>claimOutboxMessages\<close>, \<open>completeOutboxMessage\<close>, \<open>failOutboxMessage\<close>, \<open>applyCompletedOutboxFact\<close> of
  \<open>packages/persistence/src/index.ts\<close>): messages to be dispatched to email, WhatsApp or the ERP, worked
  off under leases, and the facts a completed dispatch writes to documents, amendments, quantities
  and drafts in the same transaction.  One record holds a message, since the columns of its row and
  its JSON are written together with the same values; one tenant is modelled.  Random identifiers, the
  redaction of error texts, \<open>String\<close> of a value and \<open>Date.parse\<close> are arguments.
\<close>

subsection \<open>Data\<close>

datatype channel = ChEmail | ChWhatsapp | ChErp

datatype ob_status = ObPending | ObBlocked | ObProcessing | ObDispatched | ObFailed

record snapshot =
  sn_id :: ident
  sn_sha256 :: string
  sn_version :: jnum
  sn_name :: string
  sn_contentType :: string
  sn_sizeBytes :: jnum

record ob_msg =
  ob_id :: ident
  ob_channel :: channel
  ob_connectorId :: string
  ob_action :: string
  ob_aggregateId :: ident
  ob_idempotencyKey :: string
  ob_status :: ob_status
  ob_payload :: "(string \<times> json) list"
  ob_attempts :: nat
  ob_nextAttemptAt :: "instant option"
  ob_requeuedAt :: "instant option"
  ob_leaseOwner :: "string option"
  ob_leaseToken :: "string option"
  ob_leaseExpiresAt :: "instant option"
  ob_dispatchedAt :: "instant option"
  ob_failedAt :: "instant option"
  ob_sentAttachments :: "snapshot list"
  ob_connectorResult :: "(string \<times> json) list option"
  ob_createdAt :: instant
  ob_updatedAt :: instant
  ob_error :: "string option"

record exec_exception =
  ee_id :: ident
  ee_type :: string
  ee_severity :: string
  ee_objectId :: ident
  ee_objectType :: string
  ee_judgment :: string
  ee_status :: string
  ee_createdAt :: instant

record message_draft =
  md_id :: ident
  md_purchaseOrderId :: ident
  md_supplierId :: ident
  md_recipient :: string
  md_category :: string
  md_triggerCode :: string
  md_status :: string
  md_version :: nat
  md_sentAt :: "instant option"
  md_updatedAt :: instant

record whatsapp_event =
  we_fingerprint :: string
  we_messageId :: string
  we_draftId :: ident
  we_outboxId :: ident
  we_occurredAt :: instant

record exec_approval =
  ea_id :: ident
  ea_kind :: string
  ea_objectId :: ident
  ea_poId :: ident
  ea_status :: string
  ea_requestedBy :: ident
  ea_requestedAt :: instant
  ea_reason :: string
  ea_decidedBy :: "ident option"
  ea_decidedAt :: "instant option"
  ea_decisionReason :: "string option"
  ea_shortfall :: bool

record mutation_result =
  xr_action :: string
  xr_aggregate :: "document \<times> nat"
  xr_documents :: "document list"
  xr_lines :: "proc_line list"
  xr_approval :: "exec_approval option"
  xr_outbox :: "ob_msg option"
  xr_exception :: "exec_exception option"
  xr_amendment :: "amendment option"
  xr_requestId :: "ident option"
  xr_replayed :: bool

record attachment_meta =
  ax_id :: ident
  ax_requisitionId :: ident
  ax_fileName :: string
  ax_contentType :: string
  ax_sizeBytes :: int
  ax_sha256 :: string
  ax_version :: int
  ax_status :: string
  ax_securityStatus :: string
  ax_processingStatus :: string
  ax_ownerType :: string
  ax_ownerId :: "ident option"

record import_policy =
  ip_id :: ident
  ip_status :: string
  ip_publishedAt :: instant
  ip_requirements :: json

record import_document =
  im_poId :: ident
  im_requirementCode :: string
  im_attachmentId :: ident
  im_expiresAt :: "string option"
  im_status :: string

text \<open>The input of the execution commands.\<close>
record exec_line =
  xl_poLineId :: ident
  xl_quantity :: jnum
  xl_unitPrice :: "jnum option"
  xl_promisedAt :: "string option"
  xl_allocations :: "(ident \<times> jnum) list option"
  xl_netAmount :: "jnum option"
  xl_progressStatus :: "string option"
  xl_completionPercent :: "jnum option"
  xl_expectedReadyAt :: "string option"
  xl_note :: "string option"

record edit_line =
  el_id :: ident
  el_itemCode :: string
  el_description :: string
  el_quantity :: jnum
  el_unit :: string
  el_unitPrice :: "jnum option"
  el_taxRate :: "jnum option"

record edit_patch =
  ep_supplierId :: "ident option"
  ep_requiredInHouseAt :: "string option"
  ep_materialType :: "string option"
  ep_contactId :: "ident option option"
  ep_lines :: "edit_line list option"

record mutation_input =
  xi_action :: string
  xi_idempotencyKey :: string
  xi_payloadHash :: string
  xi_actorId :: ident
  xi_permission :: string
  xi_aggregateId :: ident
  xi_expectedVersion :: int
  xi_occurredAt :: string
  xi_connectorId :: "string option"
  xi_connectorReady :: bool
  xi_decision :: "string option"
  xi_shortfall :: "string option"
  xi_missingFields :: "string list option"
  xi_reason :: "string option"
  xi_evidenceSource :: "string option"
  xi_evidenceReference :: "string option"
  xi_supplierId :: "ident option"
  xi_supplierReference :: "string option"
  xi_warehouseId :: "ident option"
  xi_shipmentId :: "ident option"
  xi_carrier :: "string option"
  xi_trackingNumber :: "string option"
  xi_estimatedArrivalAt :: "string option"
  xi_requiredInHouseAt :: "string option"
  xi_purchaseOrderNumber :: "string option"
  xi_riskSeverity :: "string option"
  xi_riskCategory :: "string option"
  xi_recommendedAction :: "string option"
  xi_eventCode :: "string option"
  xi_eventOccurredAt :: "string option"
  xi_eventReference :: "string option"
  xi_location :: "string option"
  xi_carrierReference :: "string option"
  xi_invoiceNumber :: "string option"
  xi_currency :: "string option"
  xi_invoiceDate :: "string option"
  xi_poId :: "ident option"
  xi_lines :: "exec_line list option"
  xi_matchPolicy :: "match_policy option"
  xi_patch :: "edit_patch option"

record exec_db =
  xd_proc :: proc_db
  xd_outbox :: "ob_msg list"
  xd_amendments :: am_db
  xd_projections :: "(ident, quantity_projection) kv"
  xd_quantityEvents :: "quantity_event list"
  xd_exceptions :: "exec_exception list"
  xd_drafts :: "message_draft list"
  xd_draftEvents :: "ident list"
  xd_whatsapp :: "whatsapp_event list"
  xd_attachments :: "attachment_meta list"
  xd_attachmentAudit :: "(ident \<times> ident \<times> string) list"
  xd_approvals :: "exec_approval list"
  xd_replies :: "((string \<times> string) \<times> string \<times> mutation_result) list"
  xd_identity :: "(json \<times> string) option"
  xd_routes :: "(ident, string) kv"
  xd_importPolicies :: "import_policy list"
  xd_importDocuments :: "import_document list"

datatype exec_fault = XInvalid string | XLease ident | XVersion int int | XState string | XTaken
  | XDoc doc_fault | XAmend am_fault | XQuantity quantity_fault
  | XPermission string | XInFlight ident ident | XKeyReused string string | XDuplicateInvoice string | XMatch match_fault

type_synonym 'a exec_tx = "(exec_fault, 'a, exec_db) tx"

record exec_env =
  xe_proj :: proj_env
  xe_redact :: "string \<Rightarrow> string"
  xe_string :: "json \<Rightarrow> string"
  xe_date :: "string \<Rightarrow> instant option"

definition on_proc :: "(proc_db \<Rightarrow> 'a doc_tx) \<Rightarrow> exec_db \<Rightarrow> 'a exec_tx" where
  "on_proc f x = (case f (xd_proc x) of (Inl e, d) \<Rightarrow> (Inl (XDoc e), x\<lparr>xd_proc := d\<rparr>) | (Inr a, d) \<Rightarrow> (Inr a, x\<lparr>xd_proc := d\<rparr>))"

definition on_amendments :: "(am_db \<Rightarrow> 'a am_tx) \<Rightarrow> exec_db \<Rightarrow> 'a exec_tx" where
  "on_amendments f x = (case f (xd_amendments x) of (Inl e, d) \<Rightarrow> (Inl (XAmend e), x\<lparr>xd_amendments := d\<rparr>)
     | (Inr a, d) \<Rightarrow> (Inr a, x\<lparr>xd_amendments := d\<rparr>))"

subsection \<open>Reading payloads\<close>

definition string_of :: "json option \<Rightarrow> string" where
  "string_of v = (case v of Some (JStr s) \<Rightarrow> s | _ \<Rightarrow> [])"

text \<open>\<open>requireRepositoryText\<close>.\<close>
definition need_text :: "string \<Rightarrow> string \<Rightarrow> (exec_fault, string) result" where
  "need_text s field = (if trim s = [] then Inl (XInvalid field) else Inr (trim s))"

definition positive_int :: "json option \<Rightarrow> int option" where
  "positive_int v = (case v of Some (JNum (JFin q)) \<Rightarrow>
     (if q = of_int \<lfloor>q\<rfloor> \<and> 0 < q \<and> q \<le> 9007199254740991 then Some \<lfloor>q\<rfloor> else None) | _ \<Rightarrow> None)"

definition is_hex64 :: "string \<Rightarrow> bool" where
  "is_hex64 s \<longleftrightarrow> length s = 64 \<and> list_all (\<lambda>c. c \<in> set ''0123456789abcdef'') s"

text \<open>\<open>String(record[key] ?? '')\<close>\<close>
definition text_of :: "exec_env \<Rightarrow> json option \<Rightarrow> string" where
  "text_of X v = (case v of None \<Rightarrow> [] | Some JNull \<Rightarrow> [] | Some (JStr s) \<Rightarrow> s | Some j \<Rightarrow> xe_string X j)"

definition outbox_snapshot :: "exec_env \<Rightarrow> json \<Rightarrow> (exec_fault, snapshot) result" where
  "outbox_snapshot X v = (case v of
     JObj r \<Rightarrow>
       (let i = trim (text_of X (map_of r ''id'')); h = lowercase (text_of X (map_of r ''sha256''));
            name = trim (text_of X (map_of r ''name'')); ct = trim (text_of X (map_of r ''contentType''))
        in if i = [] then Inl (XInvalid ''id'')
           else if \<not> is_hex64 h then Inl (XInvalid ''sha256'')
           else if positive_int (map_of r ''version'') = None then Inl (XInvalid ''version'')
           else if positive_int (map_of r ''sizeBytes'') = None then Inl (XInvalid ''sizeBytes'')
           else if name = [] then Inl (XInvalid ''name'')
           else if ct = [] then Inl (XInvalid ''contentType'')
           else Inr \<lparr>sn_id = i, sn_sha256 = h, sn_version = jint (the (positive_int (map_of r ''version''))), sn_name = name,
                  sn_contentType = ct, sn_sizeBytes = jint (the (positive_int (map_of r ''sizeBytes'')))\<rparr>)
   | _ \<Rightarrow> Inl (XInvalid ''snapshot''))"

fun all_right :: "('e, 'a) result list \<Rightarrow> ('e, 'a list) result" where
  "all_right [] = Inr []"
| "all_right (Inl e # xs) = Inl e"
| "all_right (Inr x # xs) = (case all_right xs of Inl e \<Rightarrow> Inl e | Inr ys \<Rightarrow> Inr (x # ys))"

definition outboxAttachmentSnapshots :: "exec_env \<Rightarrow> json option \<Rightarrow> (exec_fault, snapshot list) result" where
  "outboxAttachmentSnapshots X v = (case v of
     None \<Rightarrow> Inr []
   | Some (JArr xs) \<Rightarrow> (case all_right (map (outbox_snapshot X) xs) of
       Inl e \<Rightarrow> Inl e
     | Inr ss \<Rightarrow> if distinct (map sn_id ss) then Inr ss else Inl (XInvalid ''snapshot ids''))
   | Some _ \<Rightarrow> Inl (XInvalid ''snapshots''))"

definition trimmed :: "(string \<times> json) list \<Rightarrow> string \<Rightarrow> string" where
  "trimmed v k = trim (string_of (map_of v k))"

definition kept_number :: "(string \<times> json) list \<Rightarrow> string \<Rightarrow> (string \<times> json) list" where
  "kept_number v k = (case positive_int (map_of v k) of None \<Rightarrow> [] | Some n \<Rightarrow> [(k, JNum (jint n))])"

definition text_limit :: "string \<Rightarrow> nat" where
  "text_limit k = (if k = ''message_id'' then 1024 else if k \<in> {''from_name'', ''name'', ''po_name''} then 160
     else if k = ''correlationKey'' then 500 else if k = ''receiptReference'' then 200 else 100)"

definition kept_text :: "(string \<times> json) list \<Rightarrow> string \<Rightarrow> (exec_fault, (string \<times> json) list) result" where
  "kept_text v k = (let t = trimmed v k in
     if t = [] then Inr []
     else if text_limit k < length t then Inl (XInvalid k)
     else if k = ''from_name'' \<and> (char_of (10 :: nat) \<in> set t \<or> char_of (13 :: nat) \<in> set t) then Inl (XInvalid k)
     else Inr [(k, JStr t)])"

definition kept_credential :: "(string \<times> json) list \<Rightarrow> (exec_fault, (string \<times> json) list) result" where
  "kept_credential v = (case map_of v ''credential'' of
     Some (JObj c) \<Rightarrow>
       (let i = trimmed c ''credentialId''; n = trimmed c ''credentialVersion''; t = trimmed c ''lastTestedAt''
        in if i = [] \<or> n = [] \<or> t = [] \<or> 200 < length i \<or> 100 < length n \<or> 100 < length t then Inl (XInvalid ''credential'')
           else Inr [(''credential'', JObj [(''credentialId'', JStr i), (''credentialVersion'', JStr n), (''lastTestedAt'', JStr t)])])
   | _ \<Rightarrow> Inr [])"

definition demo_result :: "exec_env \<Rightarrow> (string \<times> json) list \<Rightarrow> (exec_fault, (string \<times> json) list) result" where
  "demo_result X v =
    (let short = (\<lambda>k. trimmed v k \<noteq> [] \<and> length (trimmed v k) \<le> 200); gen = trimmed v ''generatedAt''
     in if map_of v ''outcome'' \<notin> {Some (JStr ''accepted''), Some (JStr ''uncertain'')} \<or>
           map_of v ''externalDelivery'' \<noteq> Some (JBool False) \<or> positive_int (map_of v ''generation'') = None \<or>
           \<not> short ''connector'' \<or> \<not> short ''action'' \<or> \<not> short ''reference'' \<or> gen = [] \<or> xe_date X gen = None
        then Inl (XInvalid ''simulated_demo'')
        else Inr ([(''receiptKind'', JStr ''simulated_demo''), (''outcome'', the (map_of v ''outcome'')), (''externalDelivery'', JBool False),
          (''connector'', JStr (trimmed v ''connector'')), (''action'', JStr (trimmed v ''action'')),
          (''reference'', JStr (trimmed v ''reference'')), (''generatedAt'', JStr gen)] @ kept_number v ''generation''))"

definition safeConnectorResult :: "exec_env \<Rightarrow> (string \<times> json) list \<Rightarrow> (exec_fault, (string \<times> json) list) result" where
  "safeConnectorResult X v =
    (if map_of v ''receiptKind'' = Some (JStr ''simulated_demo'') then demo_result X v
     else case all_right (map (kept_text v) [''message_id'', ''accepted_at'', ''delivery_status'', ''from_name'', ''name'', ''state'',
          ''correlationKey'', ''po_name'', ''required_in_house_at'', ''receiptReference'']) of
       Inl e \<Rightarrow> Inl e
     | Inr texts \<Rightarrow> (case kept_credential v of
         Inl e \<Rightarrow> Inl e
       | Inr c \<Rightarrow> Inr (kept_number v ''id'' @
           (case map_of v ''readbackMatches'' of Some (JBool x) \<Rightarrow> [(''readbackMatches'', JBool x)] | _ \<Rightarrow> []) @
           kept_number v ''updated_lines'' @ kept_number v ''verified_lines'' @ concat texts @ c)))"

subsection \<open>Projections and the queue of messages\<close>

definition optional_instant :: "exec_env \<Rightarrow> string \<Rightarrow> instant option \<Rightarrow> (string \<times> json) list" where
  "optional_instant X k t = (case t of None \<Rightarrow> [] | Some t \<Rightarrow> [(k, JStr (pe_iso (xe_proj X) t))])"

definition optional_string :: "string \<Rightarrow> string option \<Rightarrow> (string \<times> json) list" where
  "optional_string k s = (case s of None \<Rightarrow> [] | Some s \<Rightarrow> [(k, JStr s)])"

definition snapshot_json :: "snapshot \<Rightarrow> json" where
  "snapshot_json s = JObj [(''id'', JStr (sn_id s)), (''sha256'', JStr (sn_sha256 s)), (''version'', JNum (sn_version s)),
     (''name'', JStr (sn_name s)), (''contentType'', JStr (sn_contentType s)), (''sizeBytes'', JNum (sn_sizeBytes s))]"

definition channel_name :: "channel \<Rightarrow> string" where
  "channel_name c = (case c of ChEmail \<Rightarrow> ''email'' | ChWhatsapp \<Rightarrow> ''whatsapp'' | ChErp \<Rightarrow> ''erp'')"

definition ob_status_name :: "ob_status \<Rightarrow> string" where
  "ob_status_name s = (case s of ObPending \<Rightarrow> ''pending'' | ObBlocked \<Rightarrow> ''blocked'' | ObProcessing \<Rightarrow> ''processing''
     | ObDispatched \<Rightarrow> ''dispatched'' | ObFailed \<Rightarrow> ''failed'')"

definition outbox_json :: "exec_env \<Rightarrow> ob_msg \<Rightarrow> json" where
  "outbox_json X m = JObj ([(''id'', JStr (ob_id m)), (''tenantId'', JStr (pe_tenant (xe_proj X))), (''channel'', JStr (channel_name (ob_channel m))),
     (''connectorId'', JStr (ob_connectorId m)), (''action'', JStr (ob_action m)), (''aggregateId'', JStr (ob_aggregateId m)),
     (''idempotencyKey'', JStr (ob_idempotencyKey m)), (''status'', JStr (ob_status_name (ob_status m))), (''payload'', JObj (ob_payload m)),
     (''attempts'', JNum (jint (int (ob_attempts m))))] @ optional_instant X ''nextAttemptAt'' (ob_nextAttemptAt m) @
     optional_instant X ''requeuedAt'' (ob_requeuedAt m) @ optional_string ''leaseOwner'' (ob_leaseOwner m) @
     optional_string ''leaseToken'' (ob_leaseToken m) @ optional_instant X ''leaseExpiresAt'' (ob_leaseExpiresAt m) @
     optional_instant X ''dispatchedAt'' (ob_dispatchedAt m) @ optional_instant X ''failedAt'' (ob_failedAt m) @
     (if ob_sentAttachments m = [] then [] else [(''sentAttachments'', JArr (map snapshot_json (ob_sentAttachments m)))]) @
     (case ob_connectorResult m of None \<Rightarrow> [] | Some r \<Rightarrow> [(''connectorResult'', JObj r)]) @
     [(''createdAt'', JStr (pe_iso (xe_proj X) (ob_createdAt m))), (''updatedAt'', JStr (pe_iso (xe_proj X) (ob_updatedAt m)))] @
     optional_string ''error'' (ob_error m))"

definition enqueueOutboxProjection :: "exec_env \<Rightarrow> ob_msg \<Rightarrow> exec_db \<Rightarrow> unit exec_tx" where
  "enqueueOutboxProjection X m x = (case twinProjectionPayloadHash (xe_proj X) (outbox_json X m) of
     None \<Rightarrow> (Inl (XDoc DNotFinite), x)
   | Some h \<Rightarrow> on_proc (twin_enqueue (xe_proj X) \<lparr>eq_sourceTable = ''procurement_outbox'', eq_sourceKey = ob_id m,
       eq_sourceRevision = h, eq_eventType = ''procurement_outbox.changed'', eq_payloadHash = h, eq_availableAt = ob_updatedAt m\<rparr>) x)"

definition getOutboxMessage :: "ident \<Rightarrow> exec_db \<Rightarrow> ob_msg option" where
  "getOutboxMessage i x = find (\<lambda>m. ob_id m = i) (xd_outbox x)"

definition listOutboxMessages :: "ob_status option \<Rightarrow> exec_db \<Rightarrow> ob_msg list" where
  "listOutboxMessages st x = sort_key (\<lambda>m. (ob_createdAt m, ob_id m))
     (filter (\<lambda>m. st = None \<or> st = Some (ob_status m)) (xd_outbox x))"

definition new_message :: "mutation_input \<Rightarrow> string \<Rightarrow> instant \<Rightarrow> channel \<Rightarrow> string \<Rightarrow> string \<Rightarrow> ident \<Rightarrow> (string \<times> json) list \<Rightarrow> ob_msg" where
  "new_message r uuid t ch connector action aggregate payload =
    \<lparr>ob_id = ''procurement-outbox:'' @ uuid, ob_channel = ch, ob_connectorId = connector, ob_action = action,
     ob_aggregateId = aggregate, ob_idempotencyKey = xi_action r @ '':'' @ xi_idempotencyKey r,
     ob_status = (if xi_connectorReady r then ObPending else ObBlocked), ob_payload = payload, ob_attempts = 0,
     ob_nextAttemptAt = None, ob_requeuedAt = None, ob_leaseOwner = None, ob_leaseToken = None, ob_leaseExpiresAt = None,
     ob_dispatchedAt = None, ob_failedAt = None, ob_sentAttachments = [], ob_connectorResult = None, ob_createdAt = t,
     ob_updatedAt = t, ob_error = (if xi_connectorReady r then None else Some (connector @ '' connector is not configured''))\<rparr>"

definition insertExecutionOutbox ::
  "exec_env \<Rightarrow> mutation_input \<Rightarrow> string \<Rightarrow> instant \<Rightarrow> channel \<Rightarrow> string \<Rightarrow> ident \<Rightarrow> (string \<times> json) list \<Rightarrow> exec_db \<Rightarrow> ob_msg exec_tx" where
  "insertExecutionOutbox X r uuid t ch action aggregate payload x =
    (case need_text (case xi_connectorId r of None \<Rightarrow> channel_name ch | Some c \<Rightarrow> c) ''connectorId'' of
       Inl e \<Rightarrow> (Inl e, x)
     | Inr connector \<Rightarrow>
        (let m = new_message r uuid t ch connector action aggregate payload
         in if ob_id m \<in> ob_id ` set (xd_outbox x) \<or>
               (ob_channel m, ob_idempotencyKey m) \<in> (\<lambda>m. (ob_channel m, ob_idempotencyKey m)) ` set (xd_outbox x)
            then (Inl XTaken, x)
            else bind_tx (enqueueOutboxProjection X m (x\<lparr>xd_outbox := xd_outbox x @ [m]\<rparr>)) (\<lambda>_ x. (Inr m, x))))"

definition requeued :: "instant \<Rightarrow> ob_msg \<Rightarrow> ob_msg" where
  "requeued t m = m\<lparr>ob_status := ObPending, ob_nextAttemptAt := Some t, ob_requeuedAt := Some t, ob_updatedAt := t, ob_error := None\<rparr>"

definition requeue_one :: "string \<Rightarrow> instant \<Rightarrow> ob_msg list \<times> exec_db \<Rightarrow> ob_msg \<Rightarrow> ob_msg list \<times> exec_db" where
  "requeue_one connector t acc m =
    (let p = (\<lambda>y. ob_id y = ob_id m \<and> ob_connectorId y = connector \<and> ob_status y = ObBlocked);
         x = (snd acc)\<lparr>xd_outbox := upd_where p (\<lambda>_. requeued t m) (xd_outbox (snd acc))\<rparr>
     in if changes p (xd_outbox (snd acc)) = 1 then (fst acc @ [requeued t m], x) else (fst acc, x))"

definition requeueBlockedOutboxMessages :: "string \<Rightarrow> instant \<Rightarrow> int option \<Rightarrow> exec_db \<Rightarrow> ob_msg list exec_tx" where
  "requeueBlockedOutboxMessages connector0 t limit0 x =
    (case need_text connector0 ''connectorId'' of
       Inl e \<Rightarrow> (Inl e, x)
     | Inr connector \<Rightarrow>
        (let limit = (case limit0 of None \<Rightarrow> 100 | Some n \<Rightarrow> n)
         in if limit \<le> 0 \<or> 500 < limit then (Inl (XInvalid ''limit''), x)
            else let ms = take (nat limit) (sort_key (\<lambda>m. (ob_createdAt m, ob_id m))
                   (filter (\<lambda>m. ob_connectorId m = connector \<and> ob_status m = ObBlocked) (xd_outbox x)));
                 r = foldl (requeue_one connector t) ([], x) ms
             in (Inr (fst r), snd r)))"

definition ob_claimable :: "instant \<Rightarrow> ob_msg \<Rightarrow> bool" where
  "ob_claimable t m \<longleftrightarrow>
     (ob_status m = ObPending \<and> (case ob_nextAttemptAt m of None \<Rightarrow> True | Some n \<Rightarrow> n \<le> t)) \<or>
     (ob_status m = ObProcessing \<and> (case ob_leaseExpiresAt m of None \<Rightarrow> False | Some e \<Rightarrow> e \<le> t))"

definition leased :: "string \<Rightarrow> string \<Rightarrow> int \<Rightarrow> instant \<Rightarrow> ob_msg \<Rightarrow> ob_msg" where
  "leased worker token leaseMs t m = m\<lparr>ob_status := ObProcessing, ob_attempts := ob_attempts m + 1, ob_nextAttemptAt := None,
     ob_leaseOwner := Some worker, ob_leaseToken := Some token, ob_leaseExpiresAt := Some (t + leaseMs), ob_dispatchedAt := None,
     ob_failedAt := None, ob_updatedAt := t, ob_error := None\<rparr>"

definition claim_one :: "string \<Rightarrow> int \<Rightarrow> instant \<Rightarrow> ob_msg list \<times> exec_db \<Rightarrow> string \<times> ob_msg \<Rightarrow> ob_msg list \<times> exec_db" where
  "claim_one worker leaseMs t acc c =
    (let m = leased worker (''procurement-lease:'' @ fst c) leaseMs t (snd c);
         p = (\<lambda>y. ob_id y = ob_id (snd c) \<and> ob_claimable t y);
         x = (snd acc)\<lparr>xd_outbox := upd_where p (\<lambda>_. m) (xd_outbox (snd acc))\<rparr>
     in if changes p (xd_outbox (snd acc)) = 1 then (fst acc @ [m], x) else (fst acc, x))"

definition claim_order :: "ob_msg \<Rightarrow> instant \<times> instant \<times> ident" where
  "claim_order m = ((case ob_nextAttemptAt m of None \<Rightarrow> ob_createdAt m | Some n \<Rightarrow> n), ob_createdAt m, ob_id m)"

definition claimOutboxMessages ::
  "string \<Rightarrow> instant \<Rightarrow> int \<Rightarrow> int option \<Rightarrow> channel option \<Rightarrow> (nat \<Rightarrow> string) \<Rightarrow> exec_db \<Rightarrow> ob_msg list exec_tx" where
  "claimOutboxMessages worker0 t leaseMs limit0 ch uuids x =
    (case need_text worker0 ''workerId'' of
       Inl e \<Rightarrow> (Inl e, x)
     | Inr worker \<Rightarrow>
        (let limit = (case limit0 of None \<Rightarrow> 1 | Some n \<Rightarrow> n)
         in if leaseMs \<le> 0 then (Inl (XInvalid ''leaseDurationMs''), x)
            else if limit \<le> 0 \<or> 100 < limit then (Inl (XInvalid ''limit''), x)
            else let ms = take (nat limit) (sort_key claim_order
                   (filter (\<lambda>m. ob_claimable t m \<and> (ch = None \<or> ch = Some (ob_channel m))) (xd_outbox x)));
                 r = foldl (claim_one worker leaseMs t) ([], x) (zip (map uuids [0..<length ms]) ms)
             in (Inr (fst r), snd r)))"

subsection \<open>What a completed dispatch writes\<close>

text \<open>\<open>INSERT OR IGNORE\<close> into the table of exceptions.\<close>
definition note_exception :: "exec_exception \<Rightarrow> exec_db \<Rightarrow> unit exec_tx" where
  "note_exception e x = (Inr (), if ee_id e \<in> ee_id ` set (xd_exceptions x) then x else x\<lparr>xd_exceptions := xd_exceptions x @ [e]\<rparr>)"

definition insertOutboxFailureException :: "ob_msg \<Rightarrow> instant \<Rightarrow> bool \<Rightarrow> exec_db \<Rightarrow> unit exec_tx" where
  "insertOutboxFailureException m t uncertain = note_exception \<lparr>ee_id = ''procurement-outbox-exception:'' @ ob_id m,
     ee_type = (if uncertain then ''external_delivery_uncertain'' else ''external_delivery_failed''),
     ee_severity = (if uncertain then ''critical'' else ''high''), ee_objectId = ob_aggregateId m,
     ee_objectType = (if starts_with (ob_action m) ''purchase_order.'' then ''purchase_order''
       else if ob_channel m = ChErp then ''invoice'' else if ob_action m = ''rfq.send'' then ''rfq'' else ''purchase_order''),
     ee_judgment = (case ob_error m of None \<Rightarrow> [] | Some e \<Rightarrow> e), ee_status = ''open'', ee_createdAt = t\<rparr>"

definition insert_activity :: "doc_activity \<Rightarrow> exec_db \<Rightarrow> unit exec_tx" where
  "insert_activity a x = (if da_id a \<in> da_id ` set (pd_activities (xd_proc x)) then (Inl XTaken, x)
     else (Inr (), x\<lparr>xd_proc := (xd_proc x)\<lparr>pd_activities := pd_activities (xd_proc x) @ [a]\<rparr>\<rparr>))"

definition move_to :: "string \<Rightarrow> ident \<Rightarrow> am_state \<Rightarrow> string \<Rightarrow> string \<Rightarrow> ident \<Rightarrow> string option \<Rightarrow> instant \<Rightarrow> exec_db \<Rightarrow> unit exec_tx" where
  "move_to uuid i st actor reason outbox receipt t x =
    bind_tx (on_amendments (transitionProcurementPurchaseOrderAmendment uuid \<lparr>at_id = i, at_state = st, at_actorId = actor,
      at_reason = reason, at_outboxId = Some outbox, at_receiptReference = receipt, at_at = t\<rparr>) x) (\<lambda>_ x. (Inr (), x))"

definition connector_actor :: "ob_msg \<Rightarrow> string" where
  "connector_actor m = ''connector:'' @ ob_connectorId m"

definition payload_text :: "ob_msg \<Rightarrow> string \<Rightarrow> (exec_fault, string) result" where
  "payload_text m k = need_text (string_of (map_of (ob_payload m) k)) k"

definition result_of :: "ob_msg \<Rightarrow> string \<Rightarrow> json option" where
  "result_of m k = (case ob_connectorResult m of None \<Rightarrow> None | Some r \<Rightarrow> map_of r k)"

definition projection_json :: "quantity_projection \<Rightarrow> json" where
  "projection_json p = JObj [(''tenantId'', JStr (qp_tenantId p)), (''poLineId'', JStr (qp_poLineId p)),
     (''orderedQty'', JNum (qp_orderedQty p)), (''confirmedQty'', JNum (qp_confirmedQty p)), (''shippedQty'', JNum (qp_shippedQty p)),
     (''receivedQty'', JNum (qp_receivedQty p)), (''invoicedQty'', JNum (qp_invoicedQty p)), (''cancelledQty'', JNum (qp_cancelledQty p)),
     (''appliedEventKeys'', JArr (map JStr (qp_appliedEventKeys p)))]"

definition ordered_qty :: "proc_line \<Rightarrow> jnum" where
  "ordered_qty l = (case map_of (pl_fields l) ''orderedQty'' of Some (JNum q) \<Rightarrow> q | _ \<Rightarrow> JNaN)"

definition dimension_name :: "dimension \<Rightarrow> string" where
  "dimension_name d = (case d of Confirmed \<Rightarrow> ''confirmed'' | Shipped \<Rightarrow> ''shipped'' | Received \<Rightarrow> ''received''
     | Invoiced \<Rightarrow> ''invoiced'' | Cancelled \<Rightarrow> ''cancelled'')"

definition applyExecutionQuantity ::
  "exec_env \<Rightarrow> string \<Rightarrow> string \<Rightarrow> string \<Rightarrow> proc_line \<Rightarrow> dimension \<Rightarrow> jnum \<Rightarrow> instant \<Rightarrow> exec_db \<Rightarrow> unit exec_tx" where
  "applyExecutionQuantity X source action key l d delta t x =
    (let E = xe_proj X;
         e = \<lparr>qe_tenantId = pe_tenant E, qe_sourceSystem = source,
           qe_sourceEventId = action @ '':'' @ key @ '':'' @ dimension_name d @ '':'' @ pl_id l, qe_poLineId = pl_id l,
           qe_dimension = d, qe_delta = delta, qe_occurredAt = pe_iso E t\<rparr>;
         p0 = (case map_of (xd_projections x) (pl_id l) of Some p \<Rightarrow> Inr p
           | None \<Rightarrow> createPurchaseOrderLineQuantityProjection (pl_id l) (ordered_qty l) (pe_tenant E))
     in case p0 of Inl q \<Rightarrow> (Inl (XQuantity q), x)
        | Inr p \<Rightarrow> (case applyPurchaseOrderLineQuantityEvent p e of
            Inl q \<Rightarrow> (Inl (XQuantity q), x)
          | Inr (p', _) \<Rightarrow>
              if (qe_sourceSystem e, qe_sourceEventId e) \<in> (\<lambda>e. (qe_sourceSystem e, qe_sourceEventId e)) ` set (xd_quantityEvents x)
              then (Inl XTaken, x)
              else let x1 = x\<lparr>xd_quantityEvents := xd_quantityEvents x @ [e], xd_projections := AList.update (pl_id l) p' (xd_projections x)\<rparr>
                in case twinProjectionPayloadHash E (projection_json p') of
                     None \<Rightarrow> (Inl (XDoc DNotFinite), x1)
                   | Some h \<Rightarrow> on_proc (twin_enqueue E \<lparr>eq_sourceTable = ''procurement_po_line_quantity_projections'',
                       eq_sourceKey = qp_poLineId p', eq_sourceRevision = h,
                       eq_eventType = ''procurement_po_line_quantity_projection.changed'', eq_payloadHash = h, eq_availableAt = t\<rparr>) x1))"

text \<open>The source system of a quantity event, by the evidence the command names.\<close>
definition event_source :: "string option \<Rightarrow> string" where
  "event_source e = (if e = Some ''manual_verified'' then ''readywork-manual-verification''
     else if e = Some ''supplier_email_ai'' then ''supplier-email-ai'' else ''readywork-execution'')"

definition cancel_line :: "exec_env \<Rightarrow> string \<Rightarrow> string \<Rightarrow> instant \<Rightarrow> proc_line \<Rightarrow> exec_db \<Rightarrow> unit exec_tx" where
  "cancel_line X source key t l x =
    (let left = jsub (ordered_qty l) (case map_of (xd_projections x) (pl_id l) of None \<Rightarrow> JFin 0 | Some p \<Rightarrow> qp_cancelledQty p)
     in if jlt (JFin 0) left then applyExecutionQuantity X source ''cancel_po'' key l Cancelled left t x
        else (Inr (), x))"

definition appendPurchaseOrderCancellationQuantities :: "exec_env \<Rightarrow> string \<Rightarrow> ident \<Rightarrow> string \<Rightarrow> instant \<Rightarrow> exec_db \<Rightarrow> unit exec_tx" where
  "appendPurchaseOrderCancellationQuantities X source po key t x =
    each_tx (cancel_line X source key t) (listLines PurchaseOrderLine po (xd_proc x)) x"

definition set_doc_status :: "string \<Rightarrow> instant \<Rightarrow> document \<Rightarrow> document" where
  "set_doc_status st t d = d\<lparr>doc_status := st, doc_updatedAt := t\<rparr>"

definition update_document :: "exec_env \<Rightarrow> string \<Rightarrow> document \<Rightarrow> nat \<Rightarrow> exec_db \<Rightarrow> (document \<times> nat) exec_tx" where
  "update_document X kind d n = on_proc (updateExecutionDocument (xe_proj X) kind d n)"

text \<open>The order of a message, at the version the message was frozen at.\<close>
definition with_order :: "ob_msg \<Rightarrow> string \<Rightarrow> (document \<Rightarrow> nat \<Rightarrow> exec_db \<Rightarrow> 'a exec_tx) \<Rightarrow> exec_db \<Rightarrow> 'a exec_tx" where
  "with_order m versionField f x =
    (case getDocument ''purchase_order'' (ob_aggregateId m) (xd_proc x) of
       None \<Rightarrow> (Inl (XInvalid ''purchase order''), x)
     | Some (po, n) \<Rightarrow> (case positive_int (map_of (ob_payload m) versionField) of
         None \<Rightarrow> (Inl (XInvalid versionField), x)
       | Some v \<Rightarrow> if int n \<noteq> v then (Inl (XVersion v (int n)), x) else f po n x))"

definition receipt_of :: "ob_msg \<Rightarrow> string" where
  "receipt_of m = (case result_of m ''receiptReference'' of Some (JStr s) \<Rightarrow> s | _ \<Rightarrow> ob_id m)"

definition cancel_order :: "exec_env \<Rightarrow> (nat \<Rightarrow> string) \<Rightarrow> ob_msg \<Rightarrow> ident \<Rightarrow> instant \<Rightarrow> exec_db \<Rightarrow> unit exec_tx" where
  "cancel_order X us m i t = with_order m ''sourcePoVersion'' (\<lambda>po n.
     with_value (payload_text m ''actorId'') (\<lambda>_. with_value (payload_text m ''reason'') (\<lambda>_ x.
     bind_tx (update_document X ''purchase_order'' (set_doc_status ''cancelled'' t po) n x) (\<lambda>_ x.
     bind_tx (appendPurchaseOrderCancellationQuantities X (event_source None) (doc_id po) i t x) (\<lambda>_ x.
     bind_tx (move_to (us 1) i AmApplied (connector_actor m) ''Odoo authoritative readback confirms cancellation'' (ob_id m)
       (Some (receipt_of m)) t x) (\<lambda>_.
     insert_activity \<lparr>da_id = ''activity:po-cancelled:'' @ i, da_at = t, da_objectId = doc_id po,
       da_actor = connector_actor m, da_action = ''purchase_order.cancelled''\<rparr>)))))) "

text \<open>The patch of an amendment that may be applied: nothing but the required in-house date.\<close>
definition patch_date :: "exec_env \<Rightarrow> ob_msg \<Rightarrow> string option" where
  "patch_date X m = (case map_of (ob_payload m) ''patch'' of
     Some (JObj p) \<Rightarrow> (case map_of p ''requiredInHouseAt'' of
         Some (JStr d) \<Rightarrow> if list_all (\<lambda>kv. fst kv = ''requiredInHouseAt'') p \<and> trim d \<noteq> [] \<and> xe_date X d \<noteq> None then Some d else None
       | _ \<Rightarrow> None)
   | _ \<Rightarrow> None)"

definition amend_order :: "exec_env \<Rightarrow> (nat \<Rightarrow> string) \<Rightarrow> ob_msg \<Rightarrow> ident \<Rightarrow> instant \<Rightarrow> exec_db \<Rightarrow> unit exec_tx" where
  "amend_order X us m i t = with_order m ''sourcePoVersion'' (\<lambda>po n x.
     case patch_date X m of
       None \<Rightarrow> (Inl (XInvalid ''patch''), x)
     | Some d \<Rightarrow>
        (let lines = map (\<lambda>l. l\<lparr>pl_fields := AList.update ''requestedAt'' (JStr d) (pl_fields l)\<rparr>)
               (listLines PurchaseOrderLine (doc_id po) (xd_proc x));
             po' = po\<lparr>doc_updatedAt := t, doc_fields := AList.update ''requiredInHouseAt'' (JStr d) (doc_fields po)\<rparr>
         in bind_tx (update_document X ''purchase_order'' po' n x) (\<lambda>_ x.
            bind_tx (each_tx (\<lambda>l x. bind_tx (on_proc (saveLine (xe_proj X) PurchaseOrderLine (doc_id po) l) x) (\<lambda>_ x. (Inr (), x))) lines x) (\<lambda>_ x.
            bind_tx (move_to (us 1) i AmApplied (connector_actor m) ''Odoo authoritative readback matches the queued amendment'' (ob_id m)
              (Some (receipt_of m)) t x) (\<lambda>_.
            insert_activity \<lparr>da_id = ''activity:po-amendment-applied:'' @ us 2, da_at = t, da_objectId = doc_id po,
              da_actor = connector_actor m, da_action = ''purchase_order.amendment_applied''\<rparr>)))))"

text \<open>The two branches for amendments: dispatched, then applied or unknown by the readback.\<close>
definition amendment_fact ::
  "exec_env \<Rightarrow> (nat \<Rightarrow> string) \<Rightarrow> ob_msg \<Rightarrow> instant \<Rightarrow> (ident \<Rightarrow> exec_db \<Rightarrow> unit exec_tx) \<Rightarrow> string \<Rightarrow> string \<Rightarrow> exec_db \<Rightarrow> unit exec_tx" where
  "amendment_fact X us m t apply_it what unclear = with_value (payload_text m ''amendmentId'') (\<lambda>i x.
     case result_of m ''readbackMatches'' of
       Some (JBool ok) \<Rightarrow>
         bind_tx (move_to (us 0) i AmDispatched (connector_actor m) (''Odoo '' @ what @ '' dispatched; awaiting authoritative readback'')
             (ob_id m) None t x)
           (\<lambda>_ x. if ok then apply_it i x
              else bind_tx (move_to (us 1) i AmUnknown (connector_actor m) unclear (ob_id m) None t x)
                (\<lambda>_. insertOutboxFailureException
                  (m\<lparr>ob_error := Some (''Odoo '' @ what @ '' authoritative readback did not match'')\<rparr>) t True))
     | _ \<Rightarrow> (Inl (XInvalid ''readbackMatches''), x))"

text \<open>\<open>requireIsoDate\<close>\<close>
definition need_date :: "exec_env \<Rightarrow> string \<Rightarrow> string \<Rightarrow> (exec_fault, instant) result" where
  "need_date X s field = (if trim s = [] then Inl (XInvalid field)
     else case xe_date X s of None \<Rightarrow> Inl (XInvalid field) | Some t \<Rightarrow> Inr t)"

definition record_whatsapp :: "exec_env \<Rightarrow> ob_msg \<Rightarrow> ident \<Rightarrow> instant \<Rightarrow> exec_db \<Rightarrow> unit exec_tx" where
  "record_whatsapp X m draft t = with_value (need_text (string_of (result_of m ''message_id'')) ''message_id'') (\<lambda>provider.
     with_value (case result_of m ''accepted_at'' of Some (JStr s) \<Rightarrow> need_date X s ''accepted_at'' | _ \<Rightarrow> Inr t) (\<lambda>accepted x.
       let f = pe_sha (xe_proj X) (provider @ ''|accepted|'' @ pe_iso (xe_proj X) accepted);
           w = \<lparr>we_fingerprint = f, we_messageId = provider, we_draftId = draft, we_outboxId = ob_id m, we_occurredAt = accepted\<rparr>
       in (Inr (), if f \<in> we_fingerprint ` set (xd_whatsapp x) then x else x\<lparr>xd_whatsapp := xd_whatsapp x @ [w]\<rparr>)))"

text \<open>A draft that was approved and queued is sent; a sent one stays; the event and the delivery of WhatsApp are
  recorded once.\<close>
definition send_draft :: "exec_env \<Rightarrow> ob_msg \<Rightarrow> instant \<Rightarrow> exec_db \<Rightarrow> unit exec_tx" where
  "send_draft X m t = with_value (payload_text m ''draftId'') (\<lambda>i x.
     case find (\<lambda>d. md_id d = i) (xd_drafts x) of
       None \<Rightarrow> (Inl (XInvalid ''draft''), x)
     | Some d \<Rightarrow>
        if md_status d \<noteq> ''sent'' \<and> md_status d \<noteq> ''approved_queued'' then (Inl (XInvalid ''draft status''), x)
        else
          let x1 = x\<lparr>xd_drafts := upd_where (\<lambda>d. md_id d = i \<and> md_status d = ''approved_queued'')
                 (\<lambda>d. d\<lparr>md_status := ''sent'', md_version := md_version d + 1, md_sentAt := Some t, md_updatedAt := t\<rparr>) (xd_drafts x)\<rparr>;
              ev = ''message-draft-event:sent:'' @ ob_id m;
              x2 = (if ev \<in> set (xd_draftEvents x1) then x1 else x1\<lparr>xd_draftEvents := xd_draftEvents x1 @ [ev]\<rparr>)
          in if ob_channel m = ChWhatsapp then record_whatsapp X m i t x2 else (Inr (), x2))"

definition send_rfq :: "exec_env \<Rightarrow> ob_msg \<Rightarrow> instant \<Rightarrow> exec_db \<Rightarrow> unit exec_tx" where
  "send_rfq X m t x = (case getDocument ''rfq'' (ob_aggregateId m) (xd_proc x) of
     None \<Rightarrow> (Inl (XInvalid ''rfq''), x)
   | Some (d, n) \<Rightarrow>
       if doc_status d \<in> {''sent'', ''awaiting_quotes'', ''partial_quotes''} then (Inr (), x)
       else if doc_status d \<noteq> ''draft'' then (Inl (XInvalid ''rfq status''), x)
       else bind_tx (update_document X ''rfq'' (set_doc_status ''sent'' t d) n x) (\<lambda>_ x. (Inr (), x)))"

definition sent_stage :: "ob_msg \<Rightarrow> string \<Rightarrow> ident \<Rightarrow> po_stage \<Rightarrow> string \<Rightarrow> stage_state \<Rightarrow> instant \<Rightarrow> json \<Rightarrow> stage_event" where
  "sent_stage m uuid po stage ty st t evidence =
    \<lparr>sg_id = ''po-stage-event:'' @ uuid, sg_poId = po, sg_stage = stage, sg_eventType = ty, sg_state = st, sg_occurredAt = t,
     sg_sourceKind = ''outbox'', sg_sourceId = ob_id m, sg_actorId = connector_actor m, sg_evidence = evidence\<rparr>"

definition po_sent :: "ob_msg \<Rightarrow> string \<Rightarrow> ident \<Rightarrow> instant \<Rightarrow> stage_event" where
  "po_sent m uuid po t = sent_stage m uuid po PoSent ''connector_delivery_confirmed'' StCompleted t
     (JObj [(''outboxId'', JStr (ob_id m)), (''connectorId'', JStr (ob_connectorId m)), (''channel'', JStr (channel_name (ob_channel m))),
       (''action'', JStr (ob_action m)), (''exactTransitionTime'', JBool True)])"

definition commitment_entered :: "ob_msg \<Rightarrow> string \<Rightarrow> ident \<Rightarrow> instant \<Rightarrow> stage_event" where
  "commitment_entered m uuid po t = sent_stage m uuid po SupplierCommitment ''stage_entered'' StActive t
     (JObj [(''causedByStage'', JStr ''po_sent''), (''outboxId'', JStr (ob_id m)), (''exactTransitionTime'', JBool True)])"

definition send_order :: "exec_env \<Rightarrow> (nat \<Rightarrow> string) \<Rightarrow> ob_msg \<Rightarrow> instant \<Rightarrow> exec_db \<Rightarrow> unit exec_tx" where
  "send_order X us m t x = (case getDocument ''purchase_order'' (ob_aggregateId m) (xd_proc x) of
     None \<Rightarrow> (Inl (XInvalid ''purchase order''), x)
   | Some (d, n) \<Rightarrow>
       if doc_status d = ''sent'' then (Inr (), x)
       else if doc_status d \<noteq> ''draft'' then (Inl (XInvalid ''purchase order status''), x)
       else bind_tx (update_document X ''purchase_order'' (set_doc_status ''sent'' t d) n x) (\<lambda>_ x.
            bind_tx (on_proc (recordPoStageEvent (xe_proj X) (po_sent m (us 0) (doc_id d) t)) x) (\<lambda>_ x.
            on_proc (recordPoStageEvent (xe_proj X) (commitment_entered m (us 1) (doc_id d) t)) x)))"

text \<open>\<open>requireOdooPurchaseOrderDraftResult\<close>\<close>
definition requireOdooPurchaseOrderDraftResult :: "ob_msg \<Rightarrow> string \<Rightarrow> (exec_fault, int \<times> string) result" where
  "requireOdooPurchaseOrderDraftResult m key =
    (if ob_connectorResult m = None then Inl (XInvalid ''receipt'')
     else case positive_int (result_of m ''id'') of
       None \<Rightarrow> Inl (XInvalid ''id'')
     | Some i \<Rightarrow> (case need_text (string_of (result_of m ''name'')) ''name'' of
         Inl e \<Rightarrow> Inl e
       | Inr name \<Rightarrow> if result_of m ''state'' \<noteq> Some (JStr ''draft'') then Inl (XInvalid ''state'')
           else if result_of m ''correlationKey'' \<noteq> Some (JStr key) then Inl (XInvalid ''correlationKey'')
           else Inr (i, name)))"

definition has_reference :: "document \<Rightarrow> bool" where
  "has_reference d \<longleftrightarrow> map_of (doc_fields d) ''odooReference'' \<notin> {None, Some JNull}"

definition create_draft :: "exec_env \<Rightarrow> ob_msg \<Rightarrow> instant \<Rightarrow> exec_db \<Rightarrow> unit exec_tx" where
  "create_draft X m t = with_order m ''poVersion'' (\<lambda>po n x.
     if doc_status po \<noteq> ''draft'' \<or> doc_sourceSystem po \<noteq> ''readywork'' \<or> has_reference po
     then (Inl (XState (doc_status po)), x)
     else with_value (need_text (text_of X (map_of (ob_payload m) ''correlationKey'')) ''correlationKey'') (\<lambda>key.
       with_value (requireOdooPurchaseOrderDraftResult m key) (\<lambda>r x.
         let po' = po\<lparr>doc_updatedAt := t, doc_fields := AList.update ''odooReference'' (JObj [(''id'', JNum (jint (fst r))),
                 (''name'', JStr (snd r)), (''correlationKey'', JStr key), (''createdAt'', JStr (pe_iso (xe_proj X) t))]) (doc_fields po)\<rparr>
         in bind_tx (update_document X ''purchase_order'' po' n x) (\<lambda>_.
              insert_activity \<lparr>da_id = ''activity:odoo-po-draft:'' @ ob_id m, da_at = t, da_objectId = doc_id po,
                da_actor = connector_actor m, da_action = ''purchase_order.odoo_draft_created''\<rparr>))) x)"

definition requireFrozenOdooPurchaseOrderMapping :: "ob_msg \<Rightarrow> (exec_fault, string) result" where
  "requireFrozenOdooPurchaseOrderMapping m = (case map_of (ob_payload m) ''odooMapping'' of
     Some (JObj f) \<Rightarrow> (case need_text (string_of (map_of f ''poNumber'')) ''poNumber'' of
         Inl e \<Rightarrow> Inl e
       | Inr p \<Rightarrow> if positive_int (map_of f ''odooId'') = None then Inl (XInvalid ''odooId'') else Inr p)
   | _ \<Rightarrow> Inl (XInvalid ''odooMapping''))"

definition requireOdooRihdResult :: "exec_env \<Rightarrow> ob_msg \<Rightarrow> string \<Rightarrow> instant \<Rightarrow> (exec_fault, int) result" where
  "requireOdooRihdResult X m poNumber rihd =
    (if ob_connectorResult m = None then Inl (XInvalid ''receipt'')
     else case need_text (string_of (result_of m ''po_name'')) ''po_name'' of
       Inl e \<Rightarrow> Inl e
     | Inr p \<Rightarrow> if p \<noteq> poNumber then Inl (XInvalid ''po_name'')
         else (case need_date X (string_of (result_of m ''required_in_house_at'')) ''required_in_house_at'' of
           Inl e \<Rightarrow> Inl e
         | Inr t \<Rightarrow> if take 10 (pe_iso (xe_proj X) t) \<noteq> take 10 (pe_iso (xe_proj X) rihd) then Inl (XInvalid ''required_in_house_at'')
             else if positive_int (result_of m ''updated_lines'') = None then Inl (XInvalid ''updated_lines'')
             else (case positive_int (result_of m ''verified_lines'') of
               None \<Rightarrow> Inl (XInvalid ''verified_lines'') | Some n \<Rightarrow> Inr n)))"

definition frozen_requested :: "exec_env \<Rightarrow> json option \<Rightarrow> (exec_fault, json) result" where
  "frozen_requested X v = (if v = Some JNull then Inr JNull
     else case need_date X (string_of v) ''requestedAt'' of Inl e \<Rightarrow> Inl e | Inr t \<Rightarrow> Inr (JStr (pe_iso (xe_proj X) t)))"

definition frozen_line_of :: "exec_env \<Rightarrow> json \<Rightarrow> (exec_fault, frozen_line) result" where
  "frozen_line_of X v = (case v of
     JObj r \<Rightarrow> (case (need_text (string_of (map_of r ''poLineId'')) ''poLineId'', frozen_requested X (map_of r ''requestedAt''),
         need_text (string_of (map_of r ''lineNumber'')) ''lineNumber'', map_of r ''orderedQty'') of
       (Inl e, _) \<Rightarrow> Inl e
     | (Inr i, Inl e, _) \<Rightarrow> Inl e
     | (Inr i, Inr a, Inl e, _) \<Rightarrow> Inl e
     | (Inr i, Inr a, Inr n, Some (JNum q)) \<Rightarrow> if is_finite q \<and> jlt (JFin 0) q
         then Inr \<lparr>fl_poLineId = i, fl_lineNumber = n, fl_orderedQty = q, fl_requestedAt = a\<rparr> else Inl (XInvalid ''orderedQty'')
     | (Inr i, Inr a, Inr n, _) \<Rightarrow> Inl (XInvalid ''orderedQty''))
   | _ \<Rightarrow> Inl (XInvalid ''line''))"

definition requireFrozenRihdLines :: "exec_env \<Rightarrow> json option \<Rightarrow> (exec_fault, frozen_line list) result" where
  "requireFrozenRihdLines X v = (case v of
     Some (JArr (r # rs)) \<Rightarrow> (case all_right (map (frozen_line_of X) (r # rs)) of
         Inl e \<Rightarrow> Inl e
       | Inr ls \<Rightarrow> if distinct (map fl_poLineId ls) then Inr ls else Inl (XInvalid ''poLineId''))
   | _ \<Rightarrow> Inl (XInvalid ''lines''))"

definition update_rihd :: "exec_env \<Rightarrow> ob_msg \<Rightarrow> instant \<Rightarrow> exec_db \<Rightarrow> unit exec_tx" where
  "update_rihd X m t = with_order m ''poVersion'' (\<lambda>po n.
     with_value (need_date X (string_of (map_of (ob_payload m) ''requiredInHouseAt'')) ''requiredInHouseAt'') (\<lambda>rihd.
     with_value (requireFrozenOdooPurchaseOrderMapping m) (\<lambda>poNumber.
     with_value (requireOdooRihdResult X m poNumber rihd) (\<lambda>verified.
     with_value (requireFrozenRihdLines X (map_of (ob_payload m) ''lines'')) (\<lambda>ls.
     on_proc (applyRihd (xe_proj X) \<lparr>rf_outboxId = ob_id m, rf_poId = ob_aggregateId m, rf_poVersion = n,
       rf_requiredInHouseAt = rihd, rf_lines = ls, rf_verifiedLines = nat verified, rf_connectorId = ob_connectorId m\<rparr> t))))))"

definition write_invoice :: "exec_env \<Rightarrow> ob_msg \<Rightarrow> instant \<Rightarrow> exec_db \<Rightarrow> unit exec_tx" where
  "write_invoice X m t x = (case getDocument ''invoice'' (ob_aggregateId m) (xd_proc x) of
     None \<Rightarrow> (Inl (XInvalid ''invoice''), x)
   | Some (d, n) \<Rightarrow>
       if doc_status d = ''erp_written'' then (Inr (), x)
       else if doc_status d \<noteq> ''payable_approved'' then (Inl (XInvalid ''invoice status''), x)
       else bind_tx (update_document X ''invoice'' (set_doc_status ''erp_written'' t d) n x) (\<lambda>_ x. (Inr (), x)))"

definition applyCompletedOutboxFact :: "exec_env \<Rightarrow> (nat \<Rightarrow> string) \<Rightarrow> ob_msg \<Rightarrow> instant \<Rightarrow> exec_db \<Rightarrow> unit exec_tx" where
  "applyCompletedOutboxFact X us m t x =
    (if ob_action m = ''purchase_order.cancel'' \<and> ob_channel m = ChErp
     then amendment_fact X us m t (\<lambda>i. cancel_order X us m i t) ''cancellation''
       ''Odoo cancellation readback does not show cancelled; manual review required'' x
     else if ob_action m = ''purchase_order.amend'' \<and> ob_channel m = ChErp
     then amendment_fact X us m t (\<lambda>i. amend_order X us m i t) ''amendment''
       ''Odoo readback does not match the queued amendment; manual review required'' x
     else if ob_action m \<in> {''purchase_order.draft_email.send'', ''purchase_order.draft_whatsapp.send''} then send_draft X m t x
     else if ob_action m = ''rfq.send'' then send_rfq X m t x
     else if ob_action m = ''purchase_order.send'' then send_order X us m t x
     else if ob_action m = ''purchase_order.create_draft'' \<and> ob_channel m = ChErp then create_draft X m t x
     else if ob_action m = ''purchase_order.update_rihd'' \<and> ob_channel m = ChErp then update_rihd X m t x
     else if ob_action m = ''invoice.update'' \<and> ob_channel m = ChErp then write_invoice X m t x
     else (Inr (), x))"

subsection \<open>Completing and failing\<close>

definition note_sent :: "(snapshot \<Rightarrow> (exec_fault, ident) result) \<Rightarrow> ob_msg \<Rightarrow> snapshot \<Rightarrow> exec_db \<Rightarrow> unit exec_tx" where
  "note_sent owner m a x = with_value (owner a) (\<lambda>r x.
     let i = ''attachment-audit:sent:'' @ ob_id m @ '':'' @ sn_id a
     in (Inr (), if i \<in> fst ` set (xd_attachmentAudit x) then x
           else x\<lparr>xd_attachmentAudit := xd_attachmentAudit x @ [(i, sn_id a, r)]\<rparr>)) x"

text \<open>The requisition an attachment of a request for quotation belongs to.\<close>
definition sent_owner :: "document \<Rightarrow> exec_db \<Rightarrow> snapshot \<Rightarrow> (exec_fault, ident) result" where
  "sent_owner rfq x a =
    (let r = (case map_of (doc_fields rfq) ''requisitionId'' of
               Some (JStr s) \<Rightarrow> s | _ \<Rightarrow> (case find (\<lambda>y. ax_id y = sn_id a) (xd_attachments x) of None \<Rightarrow> [] | Some y \<Rightarrow> ax_requisitionId y))
     in if r = [] then Inl (XInvalid ''requisition'') else Inr r)"

definition recordSentAttachmentAudit :: "ob_msg \<Rightarrow> exec_db \<Rightarrow> unit exec_tx" where
  "recordSentAttachmentAudit m x =
    (if ob_action m \<notin> {''rfq.send'', ''purchase_order.send''} \<or> ob_sentAttachments m = [] then (Inr (), x)
     else if ob_action m = ''purchase_order.send'' then
       (case getDocument ''purchase_order'' (ob_aggregateId m) (xd_proc x) of
          None \<Rightarrow> (Inl (XInvalid ''purchase order''), x)
        | Some (po, _) \<Rightarrow> each_tx (note_sent (\<lambda>_. Inr (doc_id po)) m) (ob_sentAttachments m) x)
     else
       (case getDocument ''rfq'' (ob_aggregateId m) (xd_proc x) of
          None \<Rightarrow> (Inl (XInvalid ''rfq''), x)
        | Some (rfq, _) \<Rightarrow> each_tx (note_sent (sent_owner rfq x) m) (ob_sentAttachments m) x))"

record completion =
  co_id :: ident
  co_leaseToken :: string
  co_completedAt :: instant
  co_sentAttachments :: "json option"
  co_connectorResult :: "(string \<times> json) list option"

record failing =
  fo_id :: ident
  fo_leaseToken :: string
  fo_failedAt :: instant
  fo_error :: string
  fo_retryAt :: "instant option"
  fo_deferred :: bool
  fo_uncertain :: bool
  fo_connectorResult :: "(string \<times> json) list option"

text \<open>The lease is the caller's and has not ended before the given time.\<close>
definition ob_holds :: "string \<Rightarrow> instant \<Rightarrow> ob_msg \<Rightarrow> bool" where
  "ob_holds token t m \<longleftrightarrow> ob_status m = ObProcessing \<and> ob_leaseToken m = Some token \<and>
     (case ob_leaseExpiresAt m of None \<Rightarrow> False | Some e \<Rightarrow> t \<le> e)"

definition safe_result :: "exec_env \<Rightarrow> (string \<times> json) list option \<Rightarrow> ob_msg \<Rightarrow> (exec_fault, ob_msg) result" where
  "safe_result X r m = (case r of None \<Rightarrow> Inr m
     | Some v \<Rightarrow> (case safeConnectorResult X v of Inl e \<Rightarrow> Inl e | Inr c \<Rightarrow> Inr (m\<lparr>ob_connectorResult := Some c\<rparr>)))"

definition sends_attachments :: "ob_msg \<Rightarrow> bool" where
  "sends_attachments m \<longleftrightarrow> ob_action m \<in> {''rfq.send'', ''purchase_order.send''}"

definition completed_message :: "exec_env \<Rightarrow> completion \<Rightarrow> ob_msg \<Rightarrow> (exec_fault, ob_msg) result" where
  "completed_message X c m =
    (case outboxAttachmentSnapshots X (map_of (ob_payload m) ''attachments'') of
       Inl e \<Rightarrow> Inl e
     | Inr frozen \<Rightarrow> (case outboxAttachmentSnapshots X (co_sentAttachments c) of
         Inl e \<Rightarrow> Inl e
       | Inr sent \<Rightarrow> if sends_attachments m \<and> frozen \<noteq> sent then Inl (XInvalid ''attachments'')
           else safe_result X (co_connectorResult c) (m\<lparr>ob_status := ObDispatched, ob_dispatchedAt := Some (co_completedAt c),
             ob_updatedAt := co_completedAt c, ob_nextAttemptAt := None, ob_failedAt := None, ob_error := None,
             ob_sentAttachments := (if sent = [] then ob_sentAttachments m else sent)\<rparr>)))"

definition put_leased :: "ident \<Rightarrow> string \<Rightarrow> ob_msg \<Rightarrow> exec_db \<Rightarrow> unit exec_tx" where
  "put_leased i token m x =
    (let p = (\<lambda>y. ob_id y = i \<and> ob_status y = ObProcessing \<and> ob_leaseToken y = Some token)
     in if changes p (xd_outbox x) = 1 then (Inr (), x\<lparr>xd_outbox := upd_where p (\<lambda>_. m) (xd_outbox x)\<rparr>)
        else (Inl (XLease i), x))"

definition write_completed :: "exec_env \<Rightarrow> (nat \<Rightarrow> string) \<Rightarrow> ident \<Rightarrow> string \<Rightarrow> ob_msg \<Rightarrow> instant \<Rightarrow> exec_db \<Rightarrow> ob_msg exec_tx" where
  "write_completed X us i token m t x =
    bind_tx (put_leased i token m x) (\<lambda>_ x.
    bind_tx (applyCompletedOutboxFact X us m t x) (\<lambda>_ x.
    bind_tx (recordSentAttachmentAudit m x) (\<lambda>_ x.
    bind_tx (enqueueOutboxProjection X m x) (\<lambda>_ x. (Inr m, x)))))"

definition completeOutboxMessage :: "exec_env \<Rightarrow> (nat \<Rightarrow> string) \<Rightarrow> completion \<Rightarrow> exec_db \<Rightarrow> ob_msg exec_tx" where
  "completeOutboxMessage X us c x =
    with_value (need_text (co_id c) ''id'') (\<lambda>i. with_value (need_text (co_leaseToken c) ''leaseToken'') (\<lambda>token x.
    (case getOutboxMessage i x of
       None \<Rightarrow> (Inl (XInvalid ''outbox''), x)
     | Some m \<Rightarrow>
        if ob_status m = ObDispatched \<and> ob_leaseToken m = Some token then (Inr m, x)
        else if \<not> ob_holds token (co_completedAt c) m then (Inl (XLease i), x)
        else (case completed_message X c m of
            Inl e \<Rightarrow> (Inl e, x)
          | Inr m' \<Rightarrow> atomic x (write_completed X us i token m' (co_completedAt c) x))))) x"

definition markPurchaseOrderAmendmentUnknown :: "(nat \<Rightarrow> string) \<Rightarrow> ob_msg \<Rightarrow> instant \<Rightarrow> string \<Rightarrow> exec_db \<Rightarrow> unit exec_tx" where
  "markPurchaseOrderAmendmentUnknown us m t reason = with_value (payload_text m ''amendmentId'') (\<lambda>i x.
     case getProcurementPurchaseOrderAmendment i (xd_amendments x) of
       None \<Rightarrow> (Inl (XInvalid ''amendment''), x)
     | Some a \<Rightarrow>
        bind_tx (if am_state a = AmQueued
           then bind_tx (move_to (us 0) i AmDispatched (connector_actor m)
                  ''Odoo amendment attempted but no authoritative readback is available'' (ob_id m) None t x)
                (\<lambda>_. move_to (us 1) i AmUnknown (connector_actor m) reason (ob_id m) None t)
           else (Inr (), x))
          (\<lambda>_. insertOutboxFailureException m t True))"

definition markPurchaseOrderAmendmentFailed :: "(nat \<Rightarrow> string) \<Rightarrow> ob_msg \<Rightarrow> instant \<Rightarrow> string \<Rightarrow> exec_db \<Rightarrow> unit exec_tx" where
  "markPurchaseOrderAmendmentFailed us m t reason = with_value (payload_text m ''amendmentId'') (\<lambda>i x.
     case getProcurementPurchaseOrderAmendment i (xd_amendments x) of
       None \<Rightarrow> (Inl (XInvalid ''amendment''), x)
     | Some a \<Rightarrow> if am_state a \<in> {AmQueued, AmPending, AmDispatched}
         then move_to (us 0) i AmFailed (connector_actor m) reason (ob_id m) None t x else (Inr (), x))"

definition carries_amendment :: "ob_msg \<Rightarrow> bool" where
  "carries_amendment m \<longleftrightarrow> ob_action m \<in> {''purchase_order.amend'', ''purchase_order.cancel''} \<and> ob_channel m = ChErp"

definition failed_message :: "exec_env \<Rightarrow> failing \<Rightarrow> string \<Rightarrow> ob_msg \<Rightarrow> (exec_fault, ob_msg) result" where
  "failed_message X f text m = safe_result X (fo_connectorResult f) (m\<lparr>
     ob_attempts := (if fo_deferred f \<and> fo_retryAt f \<noteq> None then ob_attempts m - 1 else ob_attempts m),
     ob_status := (if fo_retryAt f = None then ObFailed else ObPending), ob_updatedAt := fo_failedAt f, ob_error := Some text,
     ob_nextAttemptAt := fo_retryAt f, ob_failedAt := (if fo_retryAt f = None then Some (fo_failedAt f) else None),
     ob_leaseOwner := None, ob_leaseToken := None, ob_leaseExpiresAt := None\<rparr>)"

text \<open>What a failure writes beside the message.\<close>
definition failure_fact :: "(nat \<Rightarrow> string) \<Rightarrow> failing \<Rightarrow> ob_msg \<Rightarrow> exec_db \<Rightarrow> unit exec_tx" where
  "failure_fact us f m x =
    (if fo_retryAt f \<noteq> None then (Inr (), x)
     else if carries_amendment m \<and> fo_uncertain f
     then markPurchaseOrderAmendmentUnknown us m (fo_failedAt f) ''Odoo amendment dispatch outcome is uncertain; manual review required'' x
     else if carries_amendment m
     then markPurchaseOrderAmendmentFailed us m (fo_failedAt f) ''Odoo amendment was rejected before external dispatch began'' x
     else insertOutboxFailureException m (fo_failedAt f) (fo_uncertain f) x)"

definition write_failed :: "exec_env \<Rightarrow> (nat \<Rightarrow> string) \<Rightarrow> ident \<Rightarrow> string \<Rightarrow> failing \<Rightarrow> ob_msg \<Rightarrow> exec_db \<Rightarrow> ob_msg exec_tx" where
  "write_failed X us i token f m x =
    bind_tx (put_leased i token m x) (\<lambda>_ x.
    bind_tx (failure_fact us f m x) (\<lambda>_ x.
    bind_tx (enqueueOutboxProjection X m x) (\<lambda>_ x. (Inr m, x))))"

definition failOutboxMessage :: "exec_env \<Rightarrow> (nat \<Rightarrow> string) \<Rightarrow> failing \<Rightarrow> exec_db \<Rightarrow> ob_msg exec_tx" where
  "failOutboxMessage X us f x =
    with_value (need_text (fo_id f) ''id'') (\<lambda>i. with_value (need_text (fo_leaseToken f) ''leaseToken'') (\<lambda>token.
    with_value (need_text (fo_error f) ''error'') (\<lambda>err x.
    (if (case fo_retryAt f of None \<Rightarrow> False | Some r \<Rightarrow> r \<le> fo_failedAt f) then (Inl (XInvalid ''retryAt''), x)
     else case getOutboxMessage i x of
       None \<Rightarrow> (Inl (XInvalid ''outbox''), x)
     | Some m \<Rightarrow>
        if \<not> ob_holds token (fo_failedAt f) m then (Inl (XLease i), x)
        else (case failed_message X f (xe_redact X err) m of
            Inl e \<Rightarrow> (Inl e, x)
          | Inr m' \<Rightarrow> atomic x (write_failed X us i token f m' x)))))) x"

end
