(* ===== verification/Commands.thy ===== *)
theory Commands
  imports Outbox
begin

text \<open>
  The execution commands on purchase orders before fulfilment: sending a request for quotation or an
  order, editing and cancelling an order, creating its draft in the ERP, moving its required date and
  marking it at risk, and also copying an order and drafting a follow-up message (\<open>executeSendRfq\<close>, \<open>executeSendPo\<close>, \<open>executeEditPurchaseOrder\<close>,
  \<open>executeCancelPurchaseOrder\<close>, \<open>executeCreateOdooPoDraft\<close>, \<open>executeUpdateRihd\<close> \<open>executeMarkAtRisk\<close>,
  \<open>executeDuplicatePurchaseOrder\<close>, \<open>executeQueueFollowup\<close> of
  \<open>packages/persistence/src/index.ts\<close>).  Each runs inside the transaction of
  \<open>executeProcurementMutation\<close>; the \<open>n\<close>-th random identifier of a call is the argument \<open>us n\<close>.
\<close>

subsection \<open>Checks shared by the commands\<close>

definition given :: "string option \<Rightarrow> string" where
  "given s = (case s of None \<Rightarrow> [] | Some s \<Rightarrow> s)"

definition requireBoundedBusinessText :: "string option \<Rightarrow> string \<Rightarrow> nat \<Rightarrow> nat \<Rightarrow> (exec_fault, string) result" where
  "requireBoundedBusinessText v field lo hi = (case need_text (given v) field of
     Inl e \<Rightarrow> Inl e | Inr s \<Rightarrow> if length s < lo \<or> hi < length s then Inl (XInvalid field) else Inr s)"

definition doc_text :: "document \<Rightarrow> string \<Rightarrow> string" where
  "doc_text d k = string_of (map_of (doc_fields d) k)"

definition line_text :: "proc_line \<Rightarrow> string \<Rightarrow> string" where
  "line_text l k = string_of (map_of (pl_fields l) k)"

definition line_number :: "proc_line \<Rightarrow> string \<Rightarrow> jnum" where
  "line_number l k = (case map_of (pl_fields l) k of Some (JNum q) \<Rightarrow> q | _ \<Rightarrow> JNaN)"

definition check :: "bool \<Rightarrow> exec_fault \<Rightarrow> (exec_fault, unit) result" where
  "check c e = (if c then Inr () else Inl e)"

definition executionDocument :: "string \<Rightarrow> ident \<Rightarrow> int \<Rightarrow> string list \<Rightarrow> exec_db \<Rightarrow> (exec_fault, document \<times> nat) result" where
  "executionDocument kind i expected allowed x = (case getDocument kind i (xd_proc x) of
     None \<Rightarrow> Inl (XInvalid kind)
   | Some (d, n) \<Rightarrow> if int n \<noteq> expected then Inl (XVersion expected (int n))
       else if doc_status d \<notin> set allowed then Inl (XState (doc_status d)) else Inr (d, n))"

text \<open>The document of a handler, read in the current state.\<close>
definition with_document ::
  "string \<Rightarrow> ident \<Rightarrow> int \<Rightarrow> string list \<Rightarrow> (document \<Rightarrow> nat \<Rightarrow> exec_db \<Rightarrow> 'a exec_tx) \<Rightarrow> exec_db \<Rightarrow> 'a exec_tx" where
  "with_document kind i expected allowed f x =
     with_value (executionDocument kind i expected allowed x) (\<lambda>(d, n). f d n) x"

definition plain_result :: "mutation_input \<Rightarrow> document \<times> nat \<Rightarrow> mutation_result" where
  "plain_result r agg = \<lparr>xr_action = xi_action r, xr_aggregate = agg, xr_documents = [], xr_lines = [], xr_approval = None,
     xr_outbox = None, xr_exception = None, xr_amendment = None, xr_requestId = None, xr_replayed = False\<rparr>"

text \<open>The first message, by creation, about an aggregate.\<close>
definition message_about :: "string \<Rightarrow> ident \<Rightarrow> ob_status list \<Rightarrow> exec_db \<Rightarrow> ob_msg option" where
  "message_about action i states x = (case sort_key (\<lambda>m. (ob_createdAt m, ob_id m))
       (filter (\<lambda>m. ob_action m = action \<and> ob_aggregateId m = i \<and> ob_status m \<in> set states) (xd_outbox x)) of
     [] \<Rightarrow> None | m # _ \<Rightarrow> Some m)"

definition free_of :: "string \<Rightarrow> ident \<Rightarrow> ob_status list \<Rightarrow> exec_db \<Rightarrow> (exec_fault, unit) result" where
  "free_of action i states x = (case message_about action i states x of None \<Rightarrow> Inr () | Some m \<Rightarrow> Inl (XInFlight i (ob_id m)))"

definition requireActiveCommunicationIdentity :: "exec_db \<Rightarrow> (exec_fault, json) result" where
  "requireActiveCommunicationIdentity x = (case xd_identity x of
     Some (j, st) \<Rightarrow> if st = ''active'' then Inr j else Inl (XInvalid ''identity'') | None \<Rightarrow> Inl (XInvalid ''identity''))"

definition queue_message ::
  "exec_env \<Rightarrow> mutation_input \<Rightarrow> string \<Rightarrow> instant \<Rightarrow> channel \<Rightarrow> string \<Rightarrow> document \<times> nat \<Rightarrow> (string \<times> json) list \<Rightarrow> exec_db \<Rightarrow> mutation_result exec_tx" where
  "queue_message X r uuid t ch action agg payload x =
    bind_tx (insertExecutionOutbox X r uuid t ch action (doc_id (fst agg)) payload x)
      (\<lambda>m x. (Inr ((plain_result r agg)\<lparr>xr_outbox := Some m\<rparr>), x))"

subsection \<open>Sending\<close>

definition json_objects :: "json option \<Rightarrow> (string \<times> json) list list" where
  "json_objects v = (case v of Some (JArr xs) \<Rightarrow> map (\<lambda>x. case x of JObj r \<Rightarrow> r | _ \<Rightarrow> []) xs | _ \<Rightarrow> [])"

definition json_strings :: "json option \<Rightarrow> string list" where
  "json_strings v = (case v of Some (JArr xs) \<Rightarrow> map (\<lambda>x. string_of (Some x)) xs | _ \<Rightarrow> [])"

definition assertExactIdSet :: "string list \<Rightarrow> string list \<Rightarrow> string \<Rightarrow> (exec_fault, unit) result" where
  "assertExactIdSet actual expected what =
    (if \<not> distinct actual \<or> \<not> distinct expected \<or> sort actual \<noteq> sort expected then Inl (XInvalid what) else Inr ())"

definition frozen_attachment :: "(string \<times> json) list list \<Rightarrow> ident \<Rightarrow> (exec_fault, json) result" where
  "frozen_attachment metadata i = (case find (\<lambda>r. string_of (map_of r ''id'') = i) metadata of
     None \<Rightarrow> Inl (XInvalid ''attachment'')
   | Some r \<Rightarrow>
      (let h = string_of (map_of r ''sha256'')
       in if \<not> is_hex64 (lowercase h) then Inl (XInvalid ''sha256'')
          else case (positive_int (map_of r ''version''), positive_int (map_of r ''sizeBytes''),
              need_text (string_of (map_of r ''fileName'')) ''fileName'', need_text (string_of (map_of r ''contentType'')) ''contentType'') of
            (None, _) \<Rightarrow> Inl (XInvalid ''version'')
          | (_, None, _) \<Rightarrow> Inl (XInvalid ''sizeBytes'')
          | (_, _, Inl e, _) \<Rightarrow> Inl e
          | (_, _, _, Inl e) \<Rightarrow> Inl e
          | (Some v, Some n, Inr name, Inr ct) \<Rightarrow> Inr (snapshot_json \<lparr>sn_id = i, sn_sha256 = lowercase h, sn_version = jint v,
              sn_name = name, sn_contentType = ct, sn_sizeBytes = jint n\<rparr>)))"

definition freezeRfqAttachments :: "document \<Rightarrow> (exec_fault, json) result" where
  "freezeRfqAttachments rfq =
    (let ids = json_strings (map_of (doc_fields rfq) ''attachmentIds''); metadata = json_objects (map_of (doc_fields rfq) ''attachments'')
     in case assertExactIdSet (map (\<lambda>r. string_of (map_of r ''id'')) metadata) ids ''attachments'' of
          Inl e \<Rightarrow> Inl e
        | Inr _ \<Rightarrow> (case all_right (map (frozen_attachment metadata) ids) of Inl e \<Rightarrow> Inl e | Inr js \<Rightarrow> Inr (JArr js)))"

definition executeSendRfq :: "exec_env \<Rightarrow> (nat \<Rightarrow> string) \<Rightarrow> mutation_input \<Rightarrow> instant \<Rightarrow> exec_db \<Rightarrow> mutation_result exec_tx" where
  "executeSendRfq X us r t =
    with_document ''rfq'' (xi_aggregateId r) (xi_expectedVersion r) [''draft'', ''sent'', ''awaiting_quotes'', ''partial_quotes''] (\<lambda>rfq n.
    with_value (need_text (given (xi_supplierId r)) ''supplierId'') (\<lambda>supplier.
    with_value (check (supplier \<in> set (json_strings (map_of (doc_fields rfq) ''supplierIds''))) (XInvalid ''supplierId'')) (\<lambda>_ x.
    with_value (check (getDocument ''supplier'' supplier (xd_proc x) \<noteq> None) (XInvalid ''supplier'')) (\<lambda>_.
    with_value (requireActiveCommunicationIdentity x) (\<lambda>identity.
    with_value (freezeRfqAttachments rfq) (\<lambda>attachments.
    queue_message X r (us 0) t ChEmail ''rfq.send'' (rfq, n) [(''rfqId'', JStr (doc_id rfq)), (''supplierId'', JStr supplier),
      (''attachments'', attachments), (''communicationIdentity'', identity)]))) x)))"

definition freezePurchaseOrderAttachments :: "exec_env \<Rightarrow> document \<Rightarrow> exec_db \<Rightarrow> (exec_fault, json) result" where
  "freezePurchaseOrderAttachments X po x =
    (if map_of (doc_fields po) ''sourceAttachmentId'' \<in> {None, Some JNull, Some (JStr [])} then Inr (JArr [])
     else case need_text (text_of X (map_of (doc_fields po) ''sourceAttachmentId'')) ''sourceAttachmentId'' of
       Inl e \<Rightarrow> Inl e
     | Inr i \<Rightarrow> (case find (\<lambda>a. ax_id a = i) (xd_attachments x) of
         None \<Rightarrow> Inl (XInvalid ''attachment'')
       | Some a \<Rightarrow>
           if ax_status a \<noteq> ''active'' \<or> ax_ownerType a \<noteq> ''purchase_order'' \<or> ax_ownerId a \<noteq> Some (doc_id po)
           then Inl (XInvalid ''attachment owner'')
           else if ax_securityStatus a \<noteq> ''clean'' \<or> ax_processingStatus a \<noteq> ''parsed'' then Inl (XInvalid ''attachment scan'')
           else if \<not> is_hex64 (lowercase (ax_sha256 a)) \<or> ax_version a \<le> 0 \<or> 9007199254740991 < ax_version a \<or>
             ax_sizeBytes a \<le> 0 \<or> 9007199254740991 < ax_sizeBytes a then Inl (XInvalid ''attachment metadata'')
           else (case (need_text (ax_fileName a) ''name'', need_text (ax_contentType a) ''contentType'') of
               (Inl e, _) \<Rightarrow> Inl e
             | (_, Inl e) \<Rightarrow> Inl e
             | (Inr name, Inr ct) \<Rightarrow> Inr (JArr [snapshot_json \<lparr>sn_id = ax_id a, sn_sha256 = lowercase (ax_sha256 a),
                 sn_version = jint (ax_version a), sn_name = name, sn_contentType = ct, sn_sizeBytes = jint (ax_sizeBytes a)\<rparr>]))))"

definition executeSendPo :: "exec_env \<Rightarrow> (nat \<Rightarrow> string) \<Rightarrow> mutation_input \<Rightarrow> instant \<Rightarrow> exec_db \<Rightarrow> mutation_result exec_tx" where
  "executeSendPo X us r t =
    with_document ''purchase_order'' (xi_aggregateId r) (xi_expectedVersion r) [''draft''] (\<lambda>po n x.
    with_value (free_of ''purchase_order.send'' (doc_id po) [ObPending, ObProcessing] x) (\<lambda>_.
    with_value (requireActiveCommunicationIdentity x) (\<lambda>identity.
    with_value (freezePurchaseOrderAttachments X po x) (\<lambda>attachments.
    queue_message X r (us 0) t ChEmail ''purchase_order.send'' (po, n) [(''poId'', JStr (doc_id po)), (''poVersion'', JNum (jint (int n))),
      (''supplierId'', JStr (doc_text po ''supplierId'')), (''attachments'', attachments), (''communicationIdentity'', identity)]))) x)"


subsection \<open>Editing an order\<close>

definition requirePurchaseOrderEditPatch :: "exec_env \<Rightarrow> edit_patch option \<Rightarrow> (exec_fault, edit_patch) result" where
  "requirePurchaseOrderEditPatch X v = (case v of
     None \<Rightarrow> Inl (XInvalid ''patch'')
   | Some p \<Rightarrow>
       if ep_supplierId p = None \<and> ep_requiredInHouseAt p = None \<and> ep_materialType p = None \<and> ep_contactId p = None \<and> ep_lines p = None
       then Inl (XInvalid ''patch'')
       else if ep_materialType p \<notin> {None, Some ''direct'', Some ''indirect''} then Inl (XInvalid ''materialType'')
       else (case (case ep_requiredInHouseAt p of None \<Rightarrow> Inr 0 | Some d \<Rightarrow> need_date X d ''requiredInHouseAt'') of
           Inl e \<Rightarrow> Inl e
         | Inr _ \<Rightarrow> if ep_lines p = Some [] then Inl (XInvalid ''lines'') else Inr p))"

definition edited_line :: "string \<Rightarrow> string option \<Rightarrow> proc_line list \<Rightarrow> edit_line \<Rightarrow> (exec_fault, proc_line) result" where
  "edited_line currency rihd current e = (case find (\<lambda>l. pl_id l = el_id e) current of
     None \<Rightarrow> Inl (XInvalid ''line'')
   | Some l \<Rightarrow>
      (case (requireBoundedBusinessText (Some (el_itemCode e)) ''itemCode'' 1 240,
             requireBoundedBusinessText (Some (el_description e)) ''description'' 1 2000,
             requireBoundedBusinessText (Some (el_unit e)) ''unit'' 1 64) of
         (Inl f, _) \<Rightarrow> Inl f
       | (_, Inl f, _) \<Rightarrow> Inl f
       | (_, _, Inl f) \<Rightarrow> Inl f
       | (Inr item, Inr desc, Inr uom) \<Rightarrow>
           if \<not> is_finite (el_quantity e) \<or> \<not> jlt (JFin 0) (el_quantity e) then Inl (XInvalid ''quantity'')
           else (case el_unitPrice e of
               None \<Rightarrow> Inl (XInvalid ''unitPrice'')
             | Some price \<Rightarrow> if \<not> is_finite price \<or> jlt price (JFin 0) then Inl (XInvalid ''unitPrice'')
                 else if (case el_taxRate e of None \<Rightarrow> False
                     | Some q \<Rightarrow> \<not> is_finite q \<or> jlt q (JFin 0) \<or> jlt (JFin 1) q) then Inl (XInvalid ''taxRate'')
                 else Inr (l\<lparr>pl_fields := filter (\<lambda>kv. fst kv \<notin> {''itemId'', ''description'', ''uom'', ''orderedQty'', ''unitPrice'',
                        ''currency'', ''taxRate'', ''requestedAt''}) (pl_fields l) @
                      [(''itemId'', JStr item), (''description'', JStr desc), (''uom'', JStr uom), (''orderedQty'', JNum (el_quantity e)),
                       (''unitPrice'', JNum price), (''currency'', JStr currency)] @
                      (case el_taxRate e of None \<Rightarrow> [] | Some q \<Rightarrow> [(''taxRate'', JNum q)]) @
                      optional_string ''requestedAt'' rihd\<rparr>))))"

definition editPurchaseOrderLines ::
  "proc_line list \<Rightarrow> edit_line list \<Rightarrow> string \<Rightarrow> string option \<Rightarrow> (exec_fault, proc_line list) result" where
  "editPurchaseOrderLines current es currency rihd = (case all_right (map (edited_line currency rihd current) es) of
     Inl f \<Rightarrow> Inl f | Inr ls \<Rightarrow> if distinct (map el_id es) then Inr ls else Inl (XInvalid ''lines''))"

text \<open>\<open>isDeepStrictEqual\<close> of two lines: the same value under every key, whatever the order of the keys.\<close>
definition same_line :: "proc_line \<Rightarrow> proc_line \<Rightarrow> bool" where
  "same_line a b \<longleftrightarrow> pl_id a = pl_id b \<and> pl_lineNumber a = pl_lineNumber b \<and>
     list_all (\<lambda>kv. map_of (pl_fields a) (fst kv) = map_of (pl_fields b) (fst kv)) (pl_fields a @ pl_fields b)"

text \<open>\<open>stableJsonObject\<close> of a document without its time of change.\<close>
definition edit_state :: "exec_env \<Rightarrow> document \<Rightarrow> string option" where
  "edit_state X d = (case document_json (xe_proj X) d of
     JObj f \<Rightarrow> canonicalJson (pe_json (xe_proj X)) (JObj (map (\<lambda>kv. if fst kv = ''updatedAt'' then (''updatedAt'', JStr []) else kv) f))
   | _ \<Rightarrow> None)"

definition purchaseOrderHasSupplierChangeExecutionFacts :: "document \<Rightarrow> exec_db \<Rightarrow> bool" where
  "purchaseOrderHasSupplierChangeExecutionFacts po x \<longleftrightarrow>
     has_reference po \<or>
     list_ex (\<lambda>m. ob_aggregateId m = doc_id po \<and>
       ob_action m \<in> {''purchase_order.send'', ''purchase_order.create_draft'', ''purchase_order.amend''}) (xd_outbox x) \<or>
     list_ex (\<lambda>d. dr_kind d \<in> {''confirmation'', ''production_progress'', ''shipment'', ''receipt''} \<and>
       map_of (doc_fields (dr_document d)) ''poId'' = Some (JStr (doc_id po))) (pd_documents (xd_proc x)) \<or>
     list_ex (\<lambda>s. sg_poId s = doc_id po \<and> sg_stage s \<noteq> PoSent) (pd_stages (xd_proc x)) \<or>
     list_ex (\<lambda>q. doc_id (fst (xr_aggregate (snd (snd q)))) = doc_id po) (xd_replies x)"

definition is_local_draft :: "document \<Rightarrow> bool" where
  "is_local_draft po \<longleftrightarrow> doc_sourceSystem po = ''readywork'' \<and> doc_status po = ''draft'' \<and> \<not> has_reference po"

definition supplier_changed :: "edit_patch \<Rightarrow> document \<Rightarrow> bool" where
  "supplier_changed p po \<longleftrightarrow> ep_supplierId p \<noteq> None \<and> ep_supplierId p \<noteq> Some (doc_text po ''supplierId'')"

text \<open>The checks of an edit before anything is written.\<close>
definition edit_checks :: "edit_patch \<Rightarrow> document \<Rightarrow> exec_db \<Rightarrow> (exec_fault, unit) result" where
  "edit_checks p po x =
    (if \<not> is_local_draft po \<and> (ep_supplierId p \<noteq> None \<or> ep_materialType p \<noteq> None \<or> ep_contactId p \<noteq> None \<or> ep_lines p \<noteq> None)
     then Inl (XInvalid ''field'')
     else if supplier_changed p po \<and> (\<not> is_local_draft po \<or> purchaseOrderHasSupplierChangeExecutionFacts po x)
     then Inl (XInvalid ''supplierId'')
     else case getDocument ''supplier'' (case ep_supplierId p of None \<Rightarrow> doc_text po ''supplierId'' | Some s \<Rightarrow> s) (xd_proc x) of
       None \<Rightarrow> Inl (XInvalid ''supplier'')
     | Some (supplier, _) \<Rightarrow>
         if supplier_changed p po \<and> ep_contactId p = None then Inl (XInvalid ''contactId'')
         else (case ep_contactId p of
             Some (Some c) \<Rightarrow> check (c \<in> set (map (\<lambda>r. string_of (map_of r ''id'')) (json_objects (map_of (doc_fields supplier) ''contacts''))))
               (XInvalid ''contactId'')
           | _ \<Rightarrow> Inr ()))"

definition set_field :: "string \<Rightarrow> json option \<Rightarrow> (string \<times> json) list \<Rightarrow> (string \<times> json) list" where
  "set_field k v f = (case v of None \<Rightarrow> f | Some j \<Rightarrow> AList.update k j f)"

definition edited_document :: "edit_patch \<Rightarrow> instant \<Rightarrow> document \<Rightarrow> document" where
  "edited_document p t po = po\<lparr>doc_updatedAt := t, doc_fields :=
     set_field ''contactId'' (map_option (\<lambda>c. case c of None \<Rightarrow> JNull | Some s \<Rightarrow> JStr s) (ep_contactId p))
      (set_field ''materialType'' (map_option JStr (ep_materialType p))
      (set_field ''requiredInHouseAt'' (map_option JStr (ep_requiredInHouseAt p))
      (set_field ''supplierId'' (Some (case ep_supplierId p of None \<Rightarrow> JStr (doc_text po ''supplierId'') | Some s \<Rightarrow> JStr s)) (doc_fields po))))\<rparr>"

definition edit_draft ::
  "exec_env \<Rightarrow> (nat \<Rightarrow> string) \<Rightarrow> mutation_input \<Rightarrow> edit_patch \<Rightarrow> document \<Rightarrow> nat \<Rightarrow> instant \<Rightarrow> exec_db \<Rightarrow> mutation_result exec_tx" where
  "edit_draft X us r p po n t x =
    (let current = listLines PurchaseOrderLine (doc_id po) (xd_proc x); po' = edited_document p t po
     in with_value (case ep_lines p of None \<Rightarrow> Inr []
          | Some es \<Rightarrow> editPurchaseOrderLines current es (doc_text po ''currency'') (ep_requiredInHouseAt p)) (\<lambda>edited.
        let changed = filter (\<lambda>l. case find (\<lambda>c. pl_id c = pl_id l) current of None \<Rightarrow> True | Some c \<Rightarrow> \<not> same_line c l) edited
        in with_value (check (edit_state X po \<noteq> edit_state X po' \<or> changed \<noteq> []) (XInvalid ''no change'')) (\<lambda>_ x.
           bind_tx (update_document X ''purchase_order'' po' n x) (\<lambda>agg x.
           bind_tx (each_tx (\<lambda>l x. bind_tx (on_proc (saveLine (xe_proj X) PurchaseOrderLine (doc_id po) l) x) (\<lambda>_ x. (Inr (), x))) changed x) (\<lambda>_ x.
           bind_tx (insert_activity \<lparr>da_id = ''activity:po-edited:'' @ us 0, da_at = t, da_objectId = doc_id po,
               da_actor = xi_actorId r, da_action = ''purchase_order.edited''\<rparr> x) (\<lambda>_ x.
           (Inr ((plain_result r agg)\<lparr>xr_lines := changed\<rparr>), x)))))) x)"

definition digits_number :: "string \<Rightarrow> int option" where
  "digits_number s = (if s \<noteq> [] \<and> list_all (\<lambda>c. c \<in> set ''0123456789'') s \<and> hd s \<noteq> CHR ''0'' \<and> read_nat s \<le> 9007199254740991
     then Some (int (read_nat s)) else None)"

definition freezeOdooPurchaseOrderMapping :: "document \<Rightarrow> (exec_fault, json) result" where
  "freezeOdooPurchaseOrderMapping po =
    (if doc_sourceSystem po = ''odoo'' then
       (case need_text (doc_externalId po) ''externalId'' of
          Inl e \<Rightarrow> Inl e
        | Inr s \<Rightarrow> (case (if starts_with s ''purchase.order:'' then digits_number (drop 15 s) else None) of
            None \<Rightarrow> Inl (XInvalid ''mapping'')
          | Some i \<Rightarrow> (case need_text (doc_text po ''number'') ''number'' of
              Inl e \<Rightarrow> Inl e
            | Inr num \<Rightarrow> Inr (JObj [(''sourceSystem'', JStr ''odoo''), (''externalId'', JStr (doc_externalId po)), (''odooId'', JNum (jint i)),
                (''poNumber'', JStr num)]))))
     else if doc_sourceSystem po = ''readywork'' \<and> has_reference po then
       (let f = (case map_of (doc_fields po) ''odooReference'' of Some (JObj f) \<Rightarrow> f | _ \<Rightarrow> [])
        in case (positive_int (map_of f ''id''), need_text (string_of (map_of f ''name'')) ''name'',
             need_text (string_of (map_of f ''correlationKey'')) ''correlationKey'') of
            (None, _) \<Rightarrow> Inl (XInvalid ''id'')
          | (_, Inl e, _) \<Rightarrow> Inl e
          | (_, _, Inl e) \<Rightarrow> Inl e
          | (Some i, Inr name, Inr key) \<Rightarrow> Inr (JObj [(''sourceSystem'', JStr ''readywork''), (''externalId'', JStr (doc_externalId po)),
              (''odooId'', JNum (jint i)), (''poNumber'', JStr name), (''correlationKey'', JStr key)]))
     else Inl (XInvalid ''mapping''))"

text \<open>An amendment is requested, put into a message for the ERP and queued, in this order.\<close>
definition queue_amendment ::
  "exec_env \<Rightarrow> (nat \<Rightarrow> string) \<Rightarrow> mutation_input \<Rightarrow> string \<Rightarrow> am_action \<Rightarrow> json \<Rightarrow> string \<Rightarrow> string \<Rightarrow>
   (string \<times> json) list \<Rightarrow> string \<Rightarrow> document \<Rightarrow> nat \<Rightarrow> instant \<Rightarrow> exec_db \<Rightarrow> (ob_msg \<times> amendment) exec_tx" where
  "queue_amendment X us r i act patch reason action extra queued po n t x =
    bind_tx (on_amendments (createProcurementPurchaseOrderAmendment (pe_json (xe_proj X)) (us 1) \<lparr>ar_id = i, ar_poId = doc_id po,
        ar_action = act, ar_sourcePoVersion = int n, ar_patch = patch, ar_idempotencyKey = xi_idempotencyKey r,
        ar_actorId = xi_actorId r, ar_reason = reason, ar_at = t\<rparr>) x) (\<lambda>(a, _).
    with_value (freezeOdooPurchaseOrderMapping po) (\<lambda>mapping x.
    bind_tx (insertExecutionOutbox X r (us 2) t ChErp action (doc_id po) ([(''amendmentId'', JStr (am_id a)), (''poId'', JStr (doc_id po)),
        (''sourcePoVersion'', JNum (jint (int n)))] @ extra @ [(''reason'', JStr reason), (''actorId'', JStr (xi_actorId r)),
        (''odooMapping'', mapping)]) x) (\<lambda>m x.
    bind_tx (on_amendments (transitionProcurementPurchaseOrderAmendment (us 3) \<lparr>at_id = am_id a, at_state = AmQueued,
        at_actorId = xi_actorId r, at_reason = queued, at_outboxId = Some (ob_id m), at_receiptReference = None, at_at = t\<rparr>) x) (\<lambda>a x.
    (Inr (m, a), x)))))"

definition queue_edit ::
  "exec_env \<Rightarrow> (nat \<Rightarrow> string) \<Rightarrow> mutation_input \<Rightarrow> edit_patch \<Rightarrow> string \<Rightarrow> document \<Rightarrow> nat \<Rightarrow> instant \<Rightarrow> exec_db \<Rightarrow> mutation_result exec_tx" where
  "queue_edit X us r p reason po n t x =
    (let patch = JObj (optional_string ''requiredInHouseAt'' (ep_requiredInHouseAt p))
     in with_value (check (map_option JStr (ep_requiredInHouseAt p) \<noteq> map_of (doc_fields po) ''requiredInHouseAt'') (XInvalid ''no change'')) (\<lambda>_.
        with_value (free_of ''purchase_order.amend'' (doc_id po) [ObBlocked, ObPending, ObProcessing] x) (\<lambda>_ x.
        bind_tx (queue_amendment X us r (''purchase-order-amendment:'' @ us 0) AmEdit patch reason ''purchase_order.amend''
            [(''patch'', patch)] ''Odoo amendment queued'' po n t x) (\<lambda>(m, a) x.
        (Inr ((plain_result r (po, n))\<lparr>xr_outbox := Some m, xr_amendment := Some a\<rparr>), x)))) x)"

text \<open>The order of a handler that tells a missing order and a stale version apart but allows every status.\<close>
definition with_purchase_order :: "mutation_input \<Rightarrow> (document \<Rightarrow> nat \<Rightarrow> exec_db \<Rightarrow> 'a exec_tx) \<Rightarrow> exec_db \<Rightarrow> 'a exec_tx" where
  "with_purchase_order r f x = (case getDocument ''purchase_order'' (xi_aggregateId r) (xd_proc x) of
     None \<Rightarrow> (Inl (XInvalid ''purchase order''), x)
   | Some (po, n) \<Rightarrow> if int n \<noteq> xi_expectedVersion r then (Inl (XVersion (xi_expectedVersion r) (int n)), x) else f po n x)"

definition executeEditPurchaseOrder :: "exec_env \<Rightarrow> (nat \<Rightarrow> string) \<Rightarrow> mutation_input \<Rightarrow> instant \<Rightarrow> exec_db \<Rightarrow> mutation_result exec_tx" where
  "executeEditPurchaseOrder X us r t = with_purchase_order r (\<lambda>po n.
    with_value (requirePurchaseOrderEditPatch X (xi_patch r)) (\<lambda>p.
    with_value (requireBoundedBusinessText (xi_reason r) ''reason'' 4 1000) (\<lambda>reason x.
    with_value (edit_checks p po x) (\<lambda>_.
    if is_local_draft po then edit_draft X us r p po n t else queue_edit X us r p reason po n t) x)))"


subsection \<open>Cancelling an order\<close>

definition refers_to :: "doc_row \<Rightarrow> ident \<Rightarrow> bool" where
  "refers_to d po \<longleftrightarrow> map_of (doc_fields (dr_document d)) ''poId'' = Some (JStr po)"

definition is_line_of :: "ident \<Rightarrow> line_row \<Rightarrow> bool" where
  "is_line_of po r \<longleftrightarrow> lr_kind r = line_kind_name PurchaseOrderLine \<and> lr_documentId r = po"

definition invoiced_order :: "ident \<Rightarrow> exec_db \<Rightarrow> bool" where
  "invoiced_order po x \<longleftrightarrow> list_ex (\<lambda>i. lr_kind i = line_kind_name InvoiceLine \<and>
     list_ex (\<lambda>r. is_line_of po r \<and> map_of (pl_fields (lr_line i)) ''poLineId'' = Some (JStr (lr_id r))) (pd_lines (xd_proc x)))
     (pd_lines (xd_proc x))"

definition fulfilled_quantity :: "ident \<Rightarrow> exec_db \<Rightarrow> bool" where
  "fulfilled_quantity po x \<longleftrightarrow> list_ex (\<lambda>(i, p). list_ex (\<lambda>r. is_line_of po r \<and> lr_id r = i) (pd_lines (xd_proc x)) \<and>
     (jlt (JFin 0) (qp_shippedQty p) \<or> jlt (JFin 0) (qp_receivedQty p) \<or> jlt (JFin 0) (qp_invoicedQty p))) (xd_projections x)"

definition purchaseOrderCancellationBlocker :: "document \<Rightarrow> exec_db \<Rightarrow> string option" where
  "purchaseOrderCancellationBlocker po x =
    (if doc_status po \<in> {''cancelled'', ''closed'', ''partially_shipped'', ''shipped'', ''partially_received'', ''received''}
     then Some (doc_status po)
     else case sort_key (\<lambda>d. (dr_createdAt d, dr_id d))
         (filter (\<lambda>d. dr_kind d \<in> {''shipment'', ''receipt''} \<and> refers_to d (doc_id po)) (pd_documents (xd_proc x))) of
       d # _ \<Rightarrow> Some (if dr_kind d = ''receipt'' then ''grn_exists'' else ''shipment_exists'')
     | [] \<Rightarrow> if invoiced_order (doc_id po) x then Some ''invoice_exists''
         else if fulfilled_quantity (doc_id po) x then Some ''fulfilment_quantity_exists'' else None)"

definition cancel_local ::
  "exec_env \<Rightarrow> (nat \<Rightarrow> string) \<Rightarrow> mutation_input \<Rightarrow> document \<Rightarrow> nat \<Rightarrow> instant \<Rightarrow> exec_db \<Rightarrow> mutation_result exec_tx" where
  "cancel_local X us r po n t x =
    (let i = ''purchase-order-cancellation:'' @ us 0
     in bind_tx (update_document X ''purchase_order'' (set_doc_status ''cancelled'' t po) n x) (\<lambda>agg x.
        bind_tx (appendPurchaseOrderCancellationQuantities X (event_source (xi_evidenceSource r)) (doc_id po) (xi_idempotencyKey r) t x) (\<lambda>_ x.
        bind_tx (insert_activity \<lparr>da_id = i, da_at = t, da_objectId = doc_id po, da_actor = xi_actorId r,
            da_action = ''purchase_order.cancelled''\<rparr> x) (\<lambda>_ x.
        (Inr ((plain_result r agg)\<lparr>xr_requestId := Some i\<rparr>), x)))))"

definition cancel_pending :: "ident \<Rightarrow> exec_db \<Rightarrow> bool" where
  "cancel_pending po x \<longleftrightarrow> list_ex (\<lambda>a. am_poId a = po \<and> am_action a = AmCancel \<and>
     am_state a \<in> {AmRequested, AmQueued, AmPending, AmDispatched, AmUnknown}) (ad_rows (xd_amendments x))"

definition queue_cancel ::
  "exec_env \<Rightarrow> (nat \<Rightarrow> string) \<Rightarrow> mutation_input \<Rightarrow> string \<Rightarrow> document \<Rightarrow> nat \<Rightarrow> instant \<Rightarrow> exec_db \<Rightarrow> mutation_result exec_tx" where
  "queue_cancel X us r reason po n t x =
     with_value (check (\<not> cancel_pending (doc_id po) x) (XState ''cancellation_pending_or_unknown'')) (\<lambda>_ x.
     bind_tx (queue_amendment X us r (''purchase-order-cancellation:'' @ us 0) AmCancel (JObj [(''status'', JStr ''cancelled'')]) reason
         ''purchase_order.cancel'' [] ''Odoo cancellation queued'' po n t x) (\<lambda>(m, a) x.
     (Inr ((plain_result r (po, n))\<lparr>xr_outbox := Some m, xr_amendment := Some a, xr_requestId := Some (am_id a)\<rparr>), x))) x"

definition executeCancelPurchaseOrder :: "exec_env \<Rightarrow> (nat \<Rightarrow> string) \<Rightarrow> mutation_input \<Rightarrow> instant \<Rightarrow> exec_db \<Rightarrow> mutation_result exec_tx" where
  "executeCancelPurchaseOrder X us r t = with_purchase_order r (\<lambda>po n.
    with_value (requireBoundedBusinessText (xi_reason r) ''reason'' 4 1000) (\<lambda>reason x.
    case purchaseOrderCancellationBlocker po x of
      Some b \<Rightarrow> (Inl (XState b), x)
    | None \<Rightarrow> if doc_sourceSystem po = ''odoo'' \<or> has_reference po then queue_cancel X us r reason po n t x
        else cancel_local X us r po n t x))"

subsection \<open>The draft in the ERP\<close>

definition parseOdooPartnerId :: "string \<Rightarrow> (exec_fault, int) result" where
  "parseOdooPartnerId s = (case need_text s ''externalId'' of
     Inl e \<Rightarrow> Inl e
   | Inr v \<Rightarrow>
      (let l = lowercase v;
           d = (if starts_with l ''odoo-partner-'' then drop 13 l else if starts_with l ''odoo-'' then drop 5 l else l)
       in case digits_number d of None \<Rightarrow> Inl (XInvalid ''partner'') | Some i \<Rightarrow> Inr i))"

definition freezeOdooPurchaseOrderLine :: "exec_env \<Rightarrow> string \<Rightarrow> proc_line \<Rightarrow> (exec_fault, json) result" where
  "freezeOdooPurchaseOrderLine X currency l =
    (case (need_text (line_text l ''itemId'') ''itemId'', need_text (line_text l ''description'') ''description'') of
       (Inl e, _) \<Rightarrow> Inl e
     | (_, Inl e) \<Rightarrow> Inl e
     | (Inr item, Inr desc) \<Rightarrow>
        if \<not> is_finite (ordered_qty l) \<or> \<not> jlt (JFin 0) (ordered_qty l) then Inl (XInvalid ''qty'')
        else if \<not> is_finite (line_number l ''unitPrice'') \<or> jlt (line_number l ''unitPrice'') (JFin 0) then Inl (XInvalid ''unitPrice'')
        else (case need_text (line_text l ''currency'') ''currency'' of
            Inl e \<Rightarrow> Inl e
          | Inr c \<Rightarrow> if c \<noteq> currency then Inl (XInvalid ''currency'')
              else (case (need_date X (line_text l ''requestedAt'') ''requestedAt'', need_text (pl_id l) ''poLineId'') of
                  (Inl e, _) \<Rightarrow> Inl e
                | (_, Inl e) \<Rightarrow> Inl e
                | (Inr d, Inr i) \<Rightarrow> Inr (JObj [(''poLineId'', JStr i), (''itemId'', JStr item), (''description'', JStr desc),
                    (''qty'', JNum (ordered_qty l)), (''unitPrice'', JNum (line_number l ''unitPrice'')), (''currency'', JStr c),
                    (''requestedAt'', JStr (pe_iso (xe_proj X) d))]))))"

definition purchaseOrderOdooCorrelationKey :: "string \<Rightarrow> string \<Rightarrow> (exec_fault, string) result" where
  "purchaseOrderOdooCorrelationKey tenant po =
    (if trim tenant = [] \<or> trim po = [] then Inl (XInvalid ''correlation'') else Inr (''readywork:'' @ trim tenant @ '':'' @ trim po))"

definition draft_payload :: "exec_env \<Rightarrow> document \<Rightarrow> nat \<Rightarrow> exec_db \<Rightarrow> (exec_fault, (string \<times> json) list) result" where
  "draft_payload X po n x = (case getDocument ''supplier'' (doc_text po ''supplierId'') (xd_proc x) of
     None \<Rightarrow> Inl (XInvalid ''supplier'')
   | Some (s, _) \<Rightarrow>
       if doc_sourceSystem s \<noteq> ''odoo'' then Inl (XInvalid ''supplier mapping'')
       else (case (parseOdooPartnerId (doc_externalId s), need_text (doc_text po ''currency'') ''currency'',
           listLines PurchaseOrderLine (doc_id po) (xd_proc x)) of
           (Inl e, _) \<Rightarrow> Inl e
         | (_, Inl e, _) \<Rightarrow> Inl e
         | (_, _, []) \<Rightarrow> Inl (XInvalid ''lines'')
         | (Inr partner, Inr currency, ls) \<Rightarrow>
            (case (all_right (map (freezeOdooPurchaseOrderLine X currency) ls),
                 purchaseOrderOdooCorrelationKey (pe_tenant (xe_proj X)) (doc_id po)) of
               (Inl e, _) \<Rightarrow> Inl e
             | (_, Inl e) \<Rightarrow> Inl e
             | (Inr js, Inr key) \<Rightarrow> Inr [(''poId'', JStr (doc_id po)), (''poVersion'', JNum (jint (int n))),
                 (''supplierMapping'', JObj [(''supplierId'', JStr (doc_id s)), (''sourceSystem'', JStr (doc_sourceSystem s)),
                   (''externalId'', JStr (doc_externalId s)), (''partnerId'', JNum (jint partner))]),
                 (''partnerId'', JNum (jint partner)), (''currency'', JStr currency), (''correlationKey'', JStr key), (''lines'', JArr js)])))"

definition executeCreateOdooPoDraft :: "exec_env \<Rightarrow> (nat \<Rightarrow> string) \<Rightarrow> mutation_input \<Rightarrow> instant \<Rightarrow> exec_db \<Rightarrow> mutation_result exec_tx" where
  "executeCreateOdooPoDraft X us r t =
    with_document ''purchase_order'' (xi_aggregateId r) (xi_expectedVersion r) [''draft''] (\<lambda>po n x.
    with_value (check (doc_sourceSystem po = ''readywork'') (XInvalid ''source'')) (\<lambda>_.
    with_value (check (\<not> has_reference po) (XState (doc_status po))) (\<lambda>_.
    with_value (free_of ''purchase_order.create_draft'' (doc_id po) [ObPending, ObBlocked, ObProcessing, ObDispatched] x) (\<lambda>_.
    with_value (draft_payload X po n x) (\<lambda>payload.
    queue_message X r (us 0) t ChErp ''purchase_order.create_draft'' (po, n) payload)))) x)"

subsection \<open>The required in-house date\<close>

definition date_of :: "exec_env \<Rightarrow> json option \<Rightarrow> instant list" where
  "date_of X v = (case v of Some (JStr s) \<Rightarrow> (case xe_date X s of None \<Rightarrow> [] | Some t \<Rightarrow> [t]) | _ \<Rightarrow> [])"

text \<open>The latest of the dates of the order and its lines.\<close>
definition purchaseOrderRequiredInHouseAt :: "exec_env \<Rightarrow> document \<Rightarrow> proc_line list \<Rightarrow> instant option" where
  "purchaseOrderRequiredInHouseAt X po ls =
    (let ts = date_of X (map_of (doc_fields po) ''requiredInHouseAt'') @ date_of X (map_of (doc_fields po) ''promisedAt'') @
       concat (map (\<lambda>l. date_of X (map_of (pl_fields l) ''requestedAt'')) ls)
     in case ts of [] \<Rightarrow> None | t # ts \<Rightarrow> Some (foldl max t ts))"

definition rihd_line :: "exec_env \<Rightarrow> proc_line \<Rightarrow> (exec_fault, json) result" where
  "rihd_line X l = (case (need_text (pl_id l) ''poLineId'', need_text (pl_lineNumber l) ''lineNumber'') of
     (Inl e, _) \<Rightarrow> Inl e
   | (_, Inl e) \<Rightarrow> Inl e
   | (Inr i, Inr num) \<Rightarrow>
      if \<not> is_finite (ordered_qty l) \<or> \<not> jlt (JFin 0) (ordered_qty l) then Inl (XInvalid ''orderedQty'')
      else (case (if line_text l ''requestedAt'' = [] then Inr JNull
            else case need_date X (line_text l ''requestedAt'') ''requestedAt'' of
              Inl e \<Rightarrow> Inl e | Inr t \<Rightarrow> Inr (JStr (pe_iso (xe_proj X) t))) of
          Inl e \<Rightarrow> Inl e
        | Inr d \<Rightarrow> Inr (JObj [(''poLineId'', JStr i), (''lineNumber'', JStr num), (''orderedQty'', JNum (ordered_qty l)), (''requestedAt'', d)])))"

definition executeUpdateRihd :: "exec_env \<Rightarrow> (nat \<Rightarrow> string) \<Rightarrow> mutation_input \<Rightarrow> instant \<Rightarrow> exec_db \<Rightarrow> mutation_result exec_tx" where
  "executeUpdateRihd X us r t =
    with_document ''purchase_order'' (xi_aggregateId r) (xi_expectedVersion r) [''sent'', ''awaiting_confirmation'', ''confirmed'',
        ''in_production'', ''awaiting_shipment'', ''partially_shipped'', ''shipped'', ''partially_received''] (\<lambda>po n x.
    let ls = listLines PurchaseOrderLine (doc_id po) (xd_proc x); iso = pe_iso (xe_proj X); current = purchaseOrderRequiredInHouseAt X po ls
    in with_value (need_date X (given (xi_requiredInHouseAt r)) ''requiredInHouseAt'') (\<lambda>rihd.
       with_value (need_text (given (xi_reason r)) ''reason'') (\<lambda>reason.
       with_value (check (ls \<noteq> []) (XInvalid ''lines'')) (\<lambda>_.
       with_value (check (case current of None \<Rightarrow> True | Some c \<Rightarrow> take 10 (iso c) \<noteq> take 10 (iso rihd)) (XInvalid ''same date'')) (\<lambda>_.
       with_value (free_of ''purchase_order.update_rihd'' (doc_id po) [ObBlocked, ObPending, ObProcessing] x) (\<lambda>_.
       with_value (freezeOdooPurchaseOrderMapping po) (\<lambda>mapping.
       with_value (all_right (map (rihd_line X) ls)) (\<lambda>js.
       queue_message X r (us 0) t ChErp ''purchase_order.update_rihd'' (po, n) [(''poId'', JStr (doc_id po)),
         (''poVersion'', JNum (jint (int n))), (''previousRequiredInHouseAt'', case current of None \<Rightarrow> JNull | Some c \<Rightarrow> JStr (iso c)),
         (''requiredInHouseAt'', JStr (iso rihd)), (''reason'', JStr reason), (''actorId'', JStr (xi_actorId r)),
         (''odooMapping'', mapping), (''lines'', JArr js)]))))))) x)"

subsection \<open>Marking an order at risk\<close>

definition executeMarkAtRisk :: "exec_env \<Rightarrow> (nat \<Rightarrow> string) \<Rightarrow> mutation_input \<Rightarrow> instant \<Rightarrow> exec_db \<Rightarrow> mutation_result exec_tx" where
  "executeMarkAtRisk X us r t =
    with_document ''purchase_order'' (xi_aggregateId r) (xi_expectedVersion r) [''sent'', ''awaiting_confirmation'', ''confirmed'',
        ''in_production'', ''awaiting_shipment'', ''partially_shipped'', ''shipped'', ''partially_received''] (\<lambda>po n.
    with_value (check (xi_riskSeverity r \<in> {Some ''medium'', Some ''high'', Some ''critical''}) (XInvalid ''riskSeverity'')) (\<lambda>_.
    with_value (check (xi_riskCategory r \<in> {Some ''supplier_response'', Some ''schedule'', Some ''production'', Some ''logistics'',
        Some ''quality'', Some ''commercial'', Some ''compliance'', Some ''other''}) (XInvalid ''riskCategory'')) (\<lambda>_.
    with_value (requireBoundedBusinessText (xi_reason r) ''reason'' 4 1000) (\<lambda>reason.
    with_value (case xi_recommendedAction r of None \<Rightarrow> Inr [] | Some s \<Rightarrow> requireBoundedBusinessText (Some s) ''recommendedAction'' 4 1000) (\<lambda>_ x.
    let e = \<lparr>ee_id = ''procurement-risk:'' @ us 0, ee_type = ''manual_purchase_order_risk'', ee_severity = given (xi_riskSeverity r),
          ee_objectId = doc_id po, ee_objectType = ''purchase_order'', ee_judgment = reason, ee_status = ''assigned'', ee_createdAt = t\<rparr>
    in with_value (check (\<not> list_ex (\<lambda>e. ee_objectId e = doc_id po \<and> ee_status e \<in> {''open'', ''assigned''} \<and>
           ee_type e = ''manual_purchase_order_risk'') (xd_exceptions x)) (XState ''already_marked'')) (\<lambda>_.
       with_value (check (ee_id e \<notin> ee_id ` set (xd_exceptions x)) XTaken) (\<lambda>_ x.
       bind_tx (insert_activity \<lparr>da_id = ''activity:po-risk:'' @ ee_id e, da_at = t, da_objectId = doc_id po, da_actor = xi_actorId r,
           da_action = ''purchase_order.marked_at_risk''\<rparr> (x\<lparr>xd_exceptions := xd_exceptions x @ [e]\<rparr>)) (\<lambda>_ x.
       (Inr ((plain_result r (po, n))\<lparr>xr_exception := Some e\<rparr>), x)))) x)))))"


subsection \<open>Copying an order\<close>

definition purchaseOrderDisplayNumber :: "document \<Rightarrow> string" where
  "purchaseOrderDisplayNumber po = (if trim (doc_text po ''number'') \<noteq> [] then trim (doc_text po ''number'')
     else if doc_externalId po \<noteq> [] then doc_externalId po else doc_id po)"

text \<open>SQL \<open>trim\<close> and \<open>lower\<close>: spaces only and the ASCII letters only.\<close>
definition sql_trim :: "string \<Rightarrow> string" where
  "sql_trim s = rev (dropWhile (\<lambda>c. c = CHR '' '') (rev (dropWhile (\<lambda>c. c = CHR '' '') s)))"

definition sql_lower :: "string \<Rightarrow> string" where
  "sql_lower s = map (\<lambda>c. let n = (of_char c :: nat) in if 65 \<le> n \<and> n \<le> 90 then char_of (n + 32) else c) s"

definition number_in_use :: "string \<Rightarrow> exec_db \<Rightarrow> bool" where
  "number_in_use num x \<longleftrightarrow> list_ex (\<lambda>d. dr_kind d = ''purchase_order'' \<and>
     (sql_lower (sql_trim (dr_externalId d)) = sql_lower num \<or>
      sql_lower (sql_trim (doc_text (dr_document d) ''number'')) = sql_lower num)) (pd_documents (xd_proc x))"

definition kept :: "(string \<times> json) list \<Rightarrow> string \<Rightarrow> (string \<times> json) list" where
  "kept f k = (case map_of f k of None \<Rightarrow> [] | Some v \<Rightarrow> [(k, v)])"

definition duplicate_order ::
  "exec_env \<Rightarrow> (nat \<Rightarrow> string) \<Rightarrow> mutation_input \<Rightarrow> document \<Rightarrow> nat \<Rightarrow> string \<Rightarrow> instant \<Rightarrow> string \<Rightarrow> instant \<Rightarrow> document" where
  "duplicate_order X us r po n num rihd reason t = (let iso = pe_iso (xe_proj X) in
     \<lparr>doc_id = ''purchase-order:readywork:'' @ us 0, doc_tenantId = pe_tenant (xe_proj X), doc_sourceSystem = ''readywork'',
      doc_externalId = num, doc_status = ''draft'', doc_createdAt = t, doc_updatedAt = t, doc_fields =
      kept (doc_fields po) ''supplierId'' @ kept (doc_fields po) ''currency'' @ [(''orderedAt'', JStr (iso t)),
       (''requiredInHouseAt'', JStr (iso rihd)), (''duplicatedFrom'', JObj ([(''purchaseOrderId'', JStr (doc_id po)),
         (''purchaseOrderVersion'', JNum (jint (int n))), (''purchaseOrderNumber'', JStr (purchaseOrderDisplayNumber po))] @
         (case map_of (doc_fields po) ''orderedAt'' of None \<Rightarrow> [] | Some v \<Rightarrow> [(''originalOrderedAt'', v)]) @
         [(''duplicatedBy'', JStr (xi_actorId r)), (''duplicatedAt'', JStr (iso t)), (''reason'', JStr reason)]))]\<rparr>)"

definition duplicate_line :: "exec_env \<Rightarrow> (nat \<Rightarrow> string) \<Rightarrow> ident \<Rightarrow> instant \<Rightarrow> nat \<times> proc_line \<Rightarrow> proc_line" where
  "duplicate_line X us po rihd kl = (let f = pl_fields (snd kl) in
     \<lparr>pl_id = ''purchase-order-line:readywork:'' @ us (10 + fst kl), pl_lineNumber = pl_lineNumber (snd kl), pl_fields =
      [(''poId'', JStr po)] @ kept f ''itemId'' @ (if line_text (snd kl) ''description'' = [] then [] else kept f ''description'') @
      kept f ''uom'' @ kept f ''orderedQty'' @ kept f ''unitPrice'' @ kept f ''currency'' @ kept f ''quotedUnitPrice'' @
      kept f ''priceBasisQuantity'' @ kept f ''taxIncluded'' @ kept f ''taxRate'' @ [(''requestedAt'', JStr (pe_iso (xe_proj X) rihd))]\<rparr>)"

definition write_duplicate ::
  "exec_env \<Rightarrow> (nat \<Rightarrow> string) \<Rightarrow> mutation_input \<Rightarrow> document \<Rightarrow> nat \<Rightarrow> string \<Rightarrow> instant \<Rightarrow> string \<Rightarrow> proc_line list \<Rightarrow> instant \<Rightarrow> exec_db \<Rightarrow> mutation_result exec_tx" where
  "write_duplicate X us r po n num rihd reason ls t x =
    (let d = duplicate_order X us r po n num rihd reason t;
         ds = map (duplicate_line X us (doc_id d) rihd) (zip [0..<length ls] ls);
         s = \<lparr>sg_id = ''po-stage-event:'' @ us 1, sg_poId = doc_id d, sg_stage = PoSent, sg_eventType = ''draft_created_from_duplicate'',
           sg_state = StActive, sg_occurredAt = t, sg_sourceKind = ''human_action'', sg_sourceId = xi_action r @ '':'' @ xi_idempotencyKey r,
           sg_actorId = xi_actorId r, sg_evidence = JObj [(''exactTransitionTime'', JBool True), (''sourcePurchaseOrderId'', JStr (doc_id po)),
             (''sourcePurchaseOrderVersion'', JNum (jint (int n))), (''sourcePurchaseOrderNumber'', JStr (purchaseOrderDisplayNumber po)),
             (''purchaseOrderNumber'', JStr num), (''requiredInHouseAt'', JStr (pe_iso (xe_proj X) rihd)), (''reason'', JStr reason)]\<rparr>;
         act = (\<lambda>i o' what. \<lparr>da_id = i, da_at = t, da_objectId = o', da_actor = xi_actorId r, da_action = what\<rparr>)
     in bind_tx (on_proc (insertExecutionDocument (xe_proj X) ''purchase_order'' d) x) (\<lambda>_ x.
        bind_tx (each_tx (\<lambda>l. on_proc (insertExecutionLine (xe_proj X) PurchaseOrderLine (doc_id d) l)) ds x) (\<lambda>_ x.
        bind_tx (on_proc (recordPoStageEvent (xe_proj X) s) x) (\<lambda>_ x.
        bind_tx (insert_activity (act (''activity:po-duplicated-source:'' @ us 2) (doc_id po) ''purchase_order.duplicated'') x) (\<lambda>_ x.
        bind_tx (insert_activity (act (''activity:po-duplicated-target:'' @ us 3) (doc_id d) ''purchase_order.created_from_duplicate'') x) (\<lambda>_ x.
        (Inr ((plain_result r (po, n))\<lparr>xr_documents := [d], xr_lines := ds\<rparr>), x)))))))"

definition executeDuplicatePurchaseOrder :: "exec_env \<Rightarrow> (nat \<Rightarrow> string) \<Rightarrow> mutation_input \<Rightarrow> instant \<Rightarrow> exec_db \<Rightarrow> mutation_result exec_tx" where
  "executeDuplicatePurchaseOrder X us r t = with_purchase_order r (\<lambda>po n.
    with_value (requireBoundedBusinessText (xi_purchaseOrderNumber r) ''purchaseOrderNumber'' 1 120) (\<lambda>num.
    with_value (need_date X (given (xi_requiredInHouseAt r)) ''requiredInHouseAt'') (\<lambda>rihd.
    with_value (requireBoundedBusinessText (xi_reason r) ''reason'' 4 1000) (\<lambda>reason x.
    let ls = listLines PurchaseOrderLine (doc_id po) (xd_proc x)
    in with_value (check (\<not> number_in_use num x) (XInvalid ''DUPLICATE_PO_NUMBER'')) (\<lambda>_ x.
       with_value (check (getDocument ''supplier'' (doc_text po ''supplierId'') (xd_proc x) \<noteq> None) (XInvalid ''supplier'')) (\<lambda>_.
       with_value (check (ls \<noteq> []) (XInvalid ''lines'')) (\<lambda>_.
       write_duplicate X us r po n num rihd reason ls t)) x) x))))"

subsection \<open>A follow-up message\<close>

definition is_example :: "string \<Rightarrow> bool" where
  "is_example d \<longleftrightarrow> d = [] \<or> d \<in> {''example.com'', ''example.org'', ''example.net'', ''demo.cn''} \<or> ends_with d ''.example.com'' \<or>
     ends_with d ''.demo.cn'' \<or> ends_with d ''.test''"

text \<open>The part between the first and the second at sign.\<close>
definition isPlaceholderEmailRecipient :: "string \<Rightarrow> bool" where
  "isPlaceholderEmailRecipient v = is_example (takeWhile (\<lambda>c. c \<noteq> CHR ''@'') (drop 1 (dropWhile (\<lambda>c. c \<noteq> CHR ''@'') (lowercase (trim v)))))"

definition requireConfirmationMissingFields :: "string list \<Rightarrow> (exec_fault, unit) result" where
  "requireConfirmationMissingFields v = check (v \<noteq> [] \<and> length v \<le> 2 \<and> distinct v \<and>
     set v \<subseteq> {''quantity'', ''unit_price'', ''promised_date''}) (XInvalid ''confirmationMissingFields'')"

definition recipient_of :: "document \<Rightarrow> string" where
  "recipient_of supplier =
    (let cs = filter (\<lambda>c. string_of (map_of c ''email'') \<noteq> []) (json_objects (map_of (doc_fields supplier) ''contacts''))
     in case filter (\<lambda>c. map_of c ''primary'' = Some (JBool True)) cs @ cs of [] \<Rightarrow> [] | c # _ \<Rightarrow> string_of (map_of c ''email''))"

text \<open>The order is still with the supplier: nothing but the ERP says that it is confirmed.\<close>
definition awaits_supplier :: "document \<Rightarrow> exec_db \<Rightarrow> bool" where
  "awaits_supplier po x \<longleftrightarrow> doc_status po \<in> {''sent'', ''awaiting_confirmation''} \<or> (doc_status po = ''confirmed'' \<and>
     \<not> list_ex (\<lambda>d. dr_kind d = ''confirmation'' \<and> refers_to d (doc_id po) \<and> dr_status d \<noteq> ''rejected'') (pd_documents (xd_proc x)))"

definition trusted_reply :: "mutation_input \<Rightarrow> document \<Rightarrow> exec_db \<Rightarrow> bool" where
  "trusted_reply r po x \<longleftrightarrow> (case getDocument ''communication'' (given (xi_supplierReference r)) (xd_proc x) of
     None \<Rightarrow> False
   | Some (c, _) \<Rightarrow> doc_text c ''businessObjectType'' = ''purchase_order'' \<and> doc_text c ''businessObjectId'' = doc_id po \<and>
       doc_text c ''direction'' = ''inbound'' \<and> doc_status c = ''received'' \<and> doc_text c ''supplierId'' = doc_text po ''supplierId'')"

definition followup_checks :: "mutation_input \<Rightarrow> document \<Rightarrow> exec_db \<Rightarrow> (exec_fault, string) result" where
  "followup_checks r po x = (case getDocument ''supplier'' (doc_text po ''supplierId'') (xd_proc x) of
     None \<Rightarrow> Inl (XInvalid ''supplier'')
   | Some (s, _) \<Rightarrow>
       if recipient_of s = [] \<or> isPlaceholderEmailRecipient (recipient_of s) then Inl (XInvalid ''recipient'')
       else (case requireActiveCommunicationIdentity x of
           Inl e \<Rightarrow> Inl e
         | Inr _ \<Rightarrow> (case xi_missingFields r of
             None \<Rightarrow> Inr (lowercase (trim (recipient_of s)))
           | Some fs \<Rightarrow> (case requireConfirmationMissingFields fs of
               Inl e \<Rightarrow> Inl e
             | Inr _ \<Rightarrow> if awaits_supplier po x \<and> trusted_reply r po x then Inr (lowercase (trim (recipient_of s)))
                 else Inl (XInvalid ''clarification'')))))"

text \<open>Subject, body and signature of the draft are display text.\<close>
definition executeQueueFollowup :: "exec_env \<Rightarrow> (nat \<Rightarrow> string) \<Rightarrow> mutation_input \<Rightarrow> instant \<Rightarrow> exec_db \<Rightarrow> mutation_result exec_tx" where
  "executeQueueFollowup X us r t =
    with_document ''purchase_order'' (xi_aggregateId r) (xi_expectedVersion r) [''sent'', ''awaiting_confirmation'', ''confirmed'',
        ''in_production'', ''awaiting_shipment'', ''partially_shipped''] (\<lambda>po n x.
    with_value (need_text (given (xi_reason r)) ''reason'') (\<lambda>_.
    with_value (followup_checks r po x) (\<lambda>recipient x.
    let d = \<lparr>md_id = ''message-draft:'' @ us 0, md_purchaseOrderId = doc_id po, md_supplierId = doc_text po ''supplierId'',
          md_recipient = recipient, md_category = (if awaits_supplier po x then ''acknowledgement_followup'' else ''delivery_status_escalation''),
          md_triggerCode = ''manual-followup:'' @ doc_id po @ '':'' @ xi_idempotencyKey r, md_status = ''draft'', md_version = 1,
          md_sentAt = None, md_updatedAt = t\<rparr>;
        ev = ''message-draft-event:'' @ us 1
    in with_value (check (\<not> list_ex (\<lambda>y. md_id y = md_id d \<or> md_triggerCode y = md_triggerCode d) (xd_drafts x) \<and>
           ev \<notin> set (xd_draftEvents x)) XTaken) (\<lambda>_ x.
       (Inr (plain_result r (po, n)), x\<lparr>xd_drafts := xd_drafts x @ [d], xd_draftEvents := xd_draftEvents x @ [ev]\<rparr>)) x)) x)"

end
