(* ===== verification/Fulfilment.thy ===== *)
theory Fulfilment
  imports Commands
begin

text \<open>
  The execution commands of fulfilment: confirmations of the supplier and their approval, shipments,
  production progress, transport events, receipts, invoices, their match and the approval of payables (\<open>executeRecordConfirmation\<close>,
  \<open>executeDecideConfirmation\<close>, \<open>executeRecordShipment\<close>, \<open>executeRecordReceipt\<close>, \<open>executeRecordInvoice\<close>,
  \<open>executeRecordProductionProgress\<close>, \<open>executeRecordTransportEvent\<close>, \<open>executeMatchInvoice\<close>,
  \<open>executeDecideAp\<close> of \<open>packages/persistence/src/index.ts\<close>, with the variance rule of
  \<open>packages/core/src/procurement-confirmation.ts\<close>).  Evidence objects are kept as the JSON of the stage
  event, quantities in JavaScript numbers.
\<close>

subsection \<open>Shared steps\<close>

definition stage_fact ::
  "exec_env \<Rightarrow> string \<Rightarrow> ident \<Rightarrow> po_stage \<Rightarrow> string \<Rightarrow> stage_state \<Rightarrow> instant \<Rightarrow> string \<Rightarrow> ident \<Rightarrow> ident \<Rightarrow> (string \<times> json) list \<Rightarrow> exec_db \<Rightarrow> unit exec_tx" where
  "stage_fact X uuid po stage ty st t kind source actor evidence = on_proc (recordPoStageEvent (xe_proj X)
     \<lparr>sg_id = ''po-stage-event:'' @ uuid, sg_poId = po, sg_stage = stage, sg_eventType = ty, sg_state = st, sg_occurredAt = t,
      sg_sourceKind = kind, sg_sourceId = source, sg_actorId = actor, sg_evidence = JObj evidence\<rparr>)"

definition quantity_fact :: "exec_env \<Rightarrow> mutation_input \<Rightarrow> dimension \<Rightarrow> instant \<Rightarrow> proc_line \<Rightarrow> jnum \<Rightarrow> exec_db \<Rightarrow> unit exec_tx" where
  "quantity_fact X r d t l q = applyExecutionQuantity X (event_source (xi_evidenceSource r)) (xi_action r) (xi_idempotencyKey r) l d q t"

definition projection_of :: "exec_env \<Rightarrow> proc_line \<Rightarrow> exec_db \<Rightarrow> (exec_fault, quantity_projection) result" where
  "projection_of X l x = (case map_of (xd_projections x) (pl_id l) of
     Some p \<Rightarrow> Inr p
   | None \<Rightarrow> (case createPurchaseOrderLineQuantityProjection (pl_id l) (ordered_qty l) (pe_tenant (xe_proj X)) of
       Inl e \<Rightarrow> Inl (XQuantity e) | Inr p \<Rightarrow> Inr p))"

definition within_quantities :: "exec_env \<Rightarrow> dimension \<Rightarrow> proc_line \<Rightarrow> jnum \<Rightarrow> exec_db \<Rightarrow> (exec_fault, unit) result" where
  "within_quantities X d l q x = (case projection_of X l x of
     Inl e \<Rightarrow> Inl e
   | Inr p \<Rightarrow> (case assertCumulativeWithin (ordered_qty l) d q p of Inl e \<Rightarrow> Inl (XQuantity e) | Inr _ \<Rightarrow> Inr ()))"

definition requireExecutionLines :: "exec_line list option \<Rightarrow> (exec_fault, exec_line list) result" where
  "requireExecutionLines v = (case v of
     None \<Rightarrow> Inl (XInvalid ''lines'')
   | Some ls \<Rightarrow> if ls = [] then Inl (XInvalid ''lines'')
       else if list_ex (\<lambda>l. trim (xl_poLineId l) = []) ls then Inl (XInvalid ''poLineId'')
       else if \<not> distinct (map (\<lambda>l. trim (xl_poLineId l)) ls) then Inl (XInvalid ''poLineId'')
       else Inr ls)"

definition requirePositiveQuantity :: "jnum \<Rightarrow> string \<Rightarrow> (exec_fault, unit) result" where
  "requirePositiveQuantity q field = check (is_finite q \<and> jlt (JFin 0) q) (XInvalid field)"

text \<open>The last line with an identifier, as the map built from the lines keeps it.\<close>
definition po_line :: "proc_line list \<Rightarrow> ident \<Rightarrow> proc_line option" where
  "po_line ls i = find (\<lambda>l. pl_id l = i) (rev ls)"

definition numbered :: "proc_line \<Rightarrow> nat \<Rightarrow> string" where
  "numbered l k = (if pl_lineNumber l = [] then nat_str ((k + 1) * 10) else pl_lineNumber l)"

definition copied :: "proc_line \<Rightarrow> string \<Rightarrow> (string \<times> json) list" where
  "copied l k = (case map_of (pl_fields l) k of None \<Rightarrow> [] | Some v \<Rightarrow> [(k, v)])"

definition optional_description :: "proc_line \<Rightarrow> (string \<times> json) list" where
  "optional_description l = (if line_text l ''description'' = [] then [] else copied l ''description'')"

definition optional_input :: "string \<Rightarrow> string option \<Rightarrow> (exec_fault, (string \<times> json) list) result" where
  "optional_input k v = (if given v = [] then Inr [] else case need_text (given v) k of Inl e \<Rightarrow> Inl e | Inr s \<Rightarrow> Inr [(k, JStr s)])"

definition optional_date :: "exec_env \<Rightarrow> string \<Rightarrow> string option \<Rightarrow> (exec_fault, (string \<times> json) list) result" where
  "optional_date X k v = (if given v = [] then Inr [] else case need_date X (given v) k of Inl e \<Rightarrow> Inl e
     | Inr t \<Rightarrow> Inr [(k, JStr (pe_iso (xe_proj X) t))])"

definition insert_document :: "exec_env \<Rightarrow> string \<Rightarrow> document \<Rightarrow> exec_db \<Rightarrow> unit exec_tx" where
  "insert_document X kind d = on_proc (insertExecutionDocument (xe_proj X) kind d)"

definition insert_line :: "exec_env \<Rightarrow> line_kind \<Rightarrow> ident \<Rightarrow> proc_line \<Rightarrow> exec_db \<Rightarrow> unit exec_tx" where
  "insert_line X kind i l = on_proc (insertExecutionLine (xe_proj X) kind i l)"

text \<open>A line is inserted and its quantity counted on the order line it names.\<close>
definition counted_line ::
  "exec_env \<Rightarrow> mutation_input \<Rightarrow> line_kind \<Rightarrow> dimension \<Rightarrow> ident \<Rightarrow> instant \<Rightarrow> proc_line \<times> proc_line \<times> jnum \<Rightarrow> exec_db \<Rightarrow> unit exec_tx" where
  "counted_line X r kind d i t = (\<lambda>(new, old, q) x.
     bind_tx (insert_line X kind i new x) (\<lambda>_. quantity_fact X r d t old q))"

definition field_or_null :: "(string \<times> json) list \<Rightarrow> string \<Rightarrow> json" where
  "field_or_null f k = (case map_of f k of None \<Rightarrow> JNull | Some v \<Rightarrow> v)"

subsection \<open>Approvals\<close>

definition new_approval :: "ident \<Rightarrow> string \<Rightarrow> ident \<Rightarrow> ident \<Rightarrow> ident \<Rightarrow> instant \<Rightarrow> string \<Rightarrow> exec_approval" where
  "new_approval i kind obj po by t reason = \<lparr>ea_id = i, ea_kind = kind, ea_objectId = obj, ea_poId = po, ea_status = ''pending'',
     ea_requestedBy = by, ea_requestedAt = t, ea_reason = reason, ea_decidedBy = None, ea_decidedAt = None,
     ea_decisionReason = None, ea_shortfall = False\<rparr>"

definition insertExecutionApproval :: "exec_approval \<Rightarrow> exec_db \<Rightarrow> unit exec_tx" where
  "insertExecutionApproval a x = (if ea_id a \<in> ea_id ` set (xd_approvals x) then (Inl XTaken, x)
     else (Inr (), x\<lparr>xd_approvals := xd_approvals x @ [a]\<rparr>))"

definition getExecutionApproval :: "ident \<Rightarrow> exec_db \<Rightarrow> exec_approval option" where
  "getExecutionApproval i x = find (\<lambda>a. ea_id a = i) (xd_approvals x)"

definition executionApprovalForDecision :: "mutation_input \<Rightarrow> string \<Rightarrow> exec_db \<Rightarrow> (exec_fault, exec_approval) result" where
  "executionApprovalForDecision r kind x = (case getExecutionApproval (xi_aggregateId r) x of
     None \<Rightarrow> Inl (XInvalid ''approval'')
   | Some a \<Rightarrow> if ea_kind a \<noteq> kind then Inl (XInvalid ''approval'')
       else if ea_status a \<noteq> ''pending'' then Inl (XState (ea_status a)) else Inr a)"

definition decideExecutionApproval ::
  "exec_approval \<Rightarrow> string \<Rightarrow> ident \<Rightarrow> instant \<Rightarrow> string option \<Rightarrow> bool \<Rightarrow> exec_db \<Rightarrow> exec_approval exec_tx" where
  "decideExecutionApproval a decision by t reason shortfall = with_value
     (if given reason = [] then Inr (ea_decisionReason a) else case need_text (given reason) ''reason'' of Inl e \<Rightarrow> Inl e | Inr s \<Rightarrow> Inr (Some s))
     (\<lambda>rs x. let b = a\<lparr>ea_status := decision, ea_decidedBy := Some by, ea_decidedAt := Some t, ea_decisionReason := rs,
            ea_shortfall := ea_shortfall a \<or> shortfall\<rparr>
       in (Inr b, x\<lparr>xd_approvals := upd_where (\<lambda>y. ea_id y = ea_id a \<and> ea_status y = ''pending'') (\<lambda>_. b) (xd_approvals x)\<rparr>))"

definition requireExecutionDecision :: "string option \<Rightarrow> (exec_fault, string) result" where
  "requireExecutionDecision d = (if d \<in> {Some ''approved'', Some ''rejected''} then Inr (the d) else Inl (XInvalid ''decision''))"

subsection \<open>The confirmation of the supplier\<close>

definition supplierConfirmationPromisedVarianceDays :: "exec_env \<Rightarrow> string option \<Rightarrow> string option \<Rightarrow> jnum option" where
  "supplierConfirmationPromisedVarianceDays X requested promised =
    (if given requested = [] \<or> given promised = [] then None
     else case (xe_date X (given requested), xe_date X (given promised)) of
       (Some a, Some b) \<Rightarrow> (case jdiv (jint (b - a)) (jint 86400000) of JFin q \<Rightarrow> Some (jint \<lfloor>q + 1/2\<rfloor>) | v \<Rightarrow> Some v)
     | _ \<Rightarrow> None)"

record variance_result =
  vr_quantity :: "jnum option"
  vr_unitPrice :: "jnum option"
  vr_promisedDays :: "jnum option"
  vr_requiresApproval :: bool

definition finite_difference :: "jnum \<Rightarrow> jnum \<Rightarrow> jnum option" where
  "finite_difference a b = (if is_finite a \<and> is_finite b then Some (jsub b a) else None)"

definition SUPPLIER_CONFIRMATION_PROMISED_DELAY_APPROVAL_DAYS :: int where
  "SUPPLIER_CONFIRMATION_PROMISED_DELAY_APPROVAL_DAYS = 2"

definition evaluateSupplierConfirmationVariance ::
  "exec_env \<Rightarrow> jnum \<Rightarrow> jnum \<Rightarrow> jnum \<Rightarrow> jnum \<Rightarrow> string option \<Rightarrow> string option \<Rightarrow> variance_result" where
  "evaluateSupplierConfirmationVariance X ordered confirmed poPrice price requested promised =
    (let q = finite_difference ordered confirmed; p = finite_difference poPrice price;
         d = supplierConfirmationPromisedVarianceDays X requested promised;
         differs = (\<lambda>v. case v of None \<Rightarrow> False | Some v \<Rightarrow> \<not> jeq v (JFin 0))
     in \<lparr>vr_quantity = q, vr_unitPrice = p, vr_promisedDays = d,
         vr_requiresApproval = (differs q \<or> differs p \<or>
           (case d of None \<Rightarrow> False | Some v \<Rightarrow> jlt (jint SUPPLIER_CONFIRMATION_PROMISED_DELAY_APPROVAL_DAYS) v))\<rparr>)"

definition optional_number :: "string \<Rightarrow> jnum option \<Rightarrow> (string \<times> json) list" where
  "optional_number k v = (case v of None \<Rightarrow> [] | Some q \<Rightarrow> [(k, JNum q)])"

text \<open>One line of a confirmation, the line of the order and the quantity, and whether it needs an approval.\<close>
definition confirmation_line ::
  "exec_env \<Rightarrow> (nat \<Rightarrow> string) \<Rightarrow> ident \<Rightarrow> proc_line list \<Rightarrow> nat \<Rightarrow> exec_line \<Rightarrow> (exec_fault, (proc_line \<times> proc_line \<times> jnum) \<times> bool) result" where
  "confirmation_line X us i ls k e = (case po_line ls (xl_poLineId e) of
     None \<Rightarrow> Inl (XInvalid ''line'')
   | Some l \<Rightarrow>
      (case requirePositiveQuantity (xl_quantity e) ''confirmed quantity'' of
         Inl f \<Rightarrow> Inl f
       | Inr _ \<Rightarrow>
          (let price = (case xl_unitPrice e of None \<Rightarrow> line_number l ''unitPrice'' | Some q \<Rightarrow> q)
           in if \<not> is_finite price \<or> jlt price (JFin 0) then Inl (XInvalid ''unitPrice'')
              else case optional_date X ''promisedAt'' (xl_promisedAt e) of
                Inl f \<Rightarrow> Inl f
              | Inr promised \<Rightarrow>
                 (let v = evaluateSupplierConfirmationVariance X (ordered_qty l) (xl_quantity e) (line_number l ''unitPrice'') price
                        (Some (line_text l ''requestedAt'')) (map_option (\<lambda>j. string_of (Some j)) (map_of promised ''promisedAt''))
                  in if vr_quantity v = None \<or> vr_unitPrice v = None then Inl (XInvalid ''baseline'')
                     else Inr ((\<lparr>pl_id = ''confirmation-line:'' @ us (10 + k), pl_lineNumber = numbered l k, pl_fields =
                       [(''confirmationId'', JStr i), (''poLineId'', JStr (pl_id l))] @ copied l ''itemId'' @ optional_description l @
                       copied l ''uom'' @ [(''confirmedQty'', JNum (xl_quantity e))] @ promised @ [(''confirmedUnitPrice'', JNum price)] @
                       optional_number ''quantityVariance'' (vr_quantity v) @ optional_number ''unitPriceVariance'' (vr_unitPrice v) @
                       optional_number ''promisedAtVarianceDays'' (vr_promisedDays v) @
                       [(''requiresApproval'', JBool (vr_requiresApproval v))]\<rparr>, l, xl_quantity e), vr_requiresApproval v)))))"

definition confirmation_document ::
  "exec_env \<Rightarrow> mutation_input \<Rightarrow> ident \<Rightarrow> document \<Rightarrow> exec_approval option \<Rightarrow> (string \<times> json) list \<Rightarrow> instant \<Rightarrow> document" where
  "confirmation_document X r i po approval reference t = \<lparr>doc_id = i, doc_tenantId = pe_tenant (xe_proj X), doc_sourceSystem = ''supplier'',
     doc_externalId = i, doc_status = (if approval = None then ''confirmed'' else ''pending_approval''), doc_createdAt = t, doc_updatedAt = t,
     doc_fields = [(''poId'', JStr (doc_id po)), (''supplierId'', JStr (doc_text po ''supplierId'')),
       (''confirmedAt'', JStr (pe_iso (xe_proj X) t))] @ reference @
       (case approval of None \<Rightarrow> [] | Some a \<Rightarrow> [(''approvalId'', JStr (ea_id a))])\<rparr>"

definition insert_approval_if :: "exec_approval option \<Rightarrow> exec_db \<Rightarrow> unit exec_tx" where
  "insert_approval_if a x = (case a of None \<Rightarrow> (Inr (), x) | Some a \<Rightarrow> insertExecutionApproval a x)"

definition write_confirmation ::
  "exec_env \<Rightarrow> (nat \<Rightarrow> string) \<Rightarrow> mutation_input \<Rightarrow> ident \<Rightarrow> exec_approval option \<Rightarrow> (proc_line \<times> proc_line \<times> jnum) list \<Rightarrow>
   (string \<times> json) list \<Rightarrow> document \<Rightarrow> nat \<Rightarrow> instant \<Rightarrow> exec_db \<Rightarrow> mutation_result exec_tx" where
  "write_confirmation X us r i approval cs reference po n t x =
    (let c = confirmation_document X r i po approval reference t; direct = (approval = None); po_id = doc_id po
     in bind_tx (insert_document X ''confirmation'' c x) (\<lambda>_ x.
        bind_tx (each_tx (\<lambda>l. insert_line X ConfirmationLine i (fst l)) cs x) (\<lambda>_ x.
        bind_tx (if direct then each_tx (\<lambda>(_, l, q). quantity_fact X r Confirmed t l q) cs x else (Inr (), x)) (\<lambda>_ x.
        bind_tx (stage_fact X (us 2) po_id SupplierCommitment (if direct then ''confirmation_accepted'' else ''confirmation_evidence_received'')
            (if direct then StCompleted else StActive) t ''confirmation'' i (xi_actorId r)
            [(''confirmationId'', JStr i), (''requiresApproval'', JBool (\<not> direct)),
             (''approvalId'', case approval of None \<Rightarrow> JNull | Some a \<Rightarrow> JStr (ea_id a)), (''lineCount'', JNum (jint (int (length cs)))),
             (''exactTransitionTime'', JBool True)] x) (\<lambda>_ x.
        bind_tx (if direct then stage_fact X (us 3) po_id FulfilmentProduction ''stage_entered'' StActive t ''confirmation'' i (xi_actorId r)
            [(''causedByStage'', JStr ''supplier_commitment''), (''confirmationId'', JStr i), (''exactTransitionTime'', JBool True)] x
            else (Inr (), x)) (\<lambda>_ x.
        bind_tx (update_document X ''purchase_order'' (set_doc_status (if direct then ''confirmed'' else ''awaiting_confirmation'') t po) n x) (\<lambda>agg x.
        (Inr ((plain_result r agg)\<lparr>xr_documents := [c], xr_lines := map fst cs, xr_approval := approval\<rparr>), x))))))))"

definition indexed :: "'a list \<Rightarrow> (nat \<times> 'a) list" where
  "indexed xs = zip [0..<length xs] xs"

definition executeRecordConfirmation :: "exec_env \<Rightarrow> (nat \<Rightarrow> string) \<Rightarrow> mutation_input \<Rightarrow> instant \<Rightarrow> exec_db \<Rightarrow> mutation_result exec_tx" where
  "executeRecordConfirmation X us r t =
    with_document ''purchase_order'' (xi_aggregateId r) (xi_expectedVersion r) [''sent'', ''awaiting_confirmation'', ''confirmed''] (\<lambda>po n x.
    let ls = listLines PurchaseOrderLine (doc_id po) (xd_proc x); i = ''confirmation:'' @ us 0
    in with_value (requireExecutionLines (xi_lines r)) (\<lambda>es.
       with_value (assertExactIdSet (map xl_poLineId es) (map pl_id ls) ''lines'') (\<lambda>_.
       with_value (all_right (map (\<lambda>(k, e). confirmation_line X us i ls k e) (indexed es))) (\<lambda>cs x.
       let approval = (if list_ex snd cs then Some (new_approval (''procurement-approval:'' @ us 1) ''supplier_confirmation'' i (doc_id po)
              (xi_actorId r) t ''variance'') else None)
       in bind_tx (insert_approval_if approval x) (\<lambda>_.
          with_value (optional_input ''supplierReference'' (xi_supplierReference r)) (\<lambda>reference.
          write_confirmation X us r i approval (map fst cs) reference po n t))))) x)"


subsection \<open>The decision on a confirmation\<close>

definition confirmed_quantity :: "proc_line \<Rightarrow> jnum" where
  "confirmed_quantity c = line_number c ''confirmedQty''"

text \<open>The lines of the confirmation, each with the line of the order it names.\<close>
definition confirmed_pairs :: "document \<Rightarrow> ident \<Rightarrow> exec_db \<Rightarrow> (exec_fault, (proc_line \<times> proc_line) list) result" where
  "confirmed_pairs po i x =
    (let ls = listLines PurchaseOrderLine (doc_id po) (xd_proc x)
     in all_right (map (\<lambda>c. case po_line ls (line_text c ''poLineId'') of
          None \<Rightarrow> Inl (XInvalid ''line'') | Some l \<Rightarrow> Inr (c, l)) (listLines ConfirmationLine i (xd_proc x))))"

definition short_lines :: "string \<Rightarrow> (proc_line \<times> proc_line) list \<Rightarrow> (proc_line \<times> proc_line) list" where
  "short_lines decision ps = (if decision = ''approved'' then filter (\<lambda>(c, l). jlt (confirmed_quantity c) (ordered_qty l)) ps else [])"

definition remainder :: "proc_line \<times> proc_line \<Rightarrow> jnum" where
  "remainder p = jsub (ordered_qty (snd p)) (confirmed_quantity (fst p))"

definition confirm_quantities :: "exec_env \<Rightarrow> mutation_input \<Rightarrow> instant \<Rightarrow> proc_line \<times> proc_line \<Rightarrow> exec_db \<Rightarrow> unit exec_tx" where
  "confirm_quantities X r t p x = bind_tx (quantity_fact X r Confirmed t (snd p) (confirmed_quantity (fst p)) x)
     (\<lambda>_ x. if jlt (JFin 0) (remainder p) then quantity_fact X r Cancelled t (snd p) (remainder p) x else (Inr (), x))"

definition shortfall_json :: "bool \<Rightarrow> json" where
  "shortfall_json s = (if s then JStr ''cancel_remainder'' else JNull)"

definition confirmation_decided ::
  "exec_env \<Rightarrow> (nat \<Rightarrow> string) \<Rightarrow> mutation_input \<Rightarrow> instant \<Rightarrow> string \<Rightarrow> exec_approval \<Rightarrow> bool \<Rightarrow> (proc_line \<times> proc_line) list \<Rightarrow>
   document \<times> nat \<Rightarrow> document \<times> nat \<Rightarrow> exec_db \<Rightarrow> mutation_result exec_tx" where
  "confirmation_decided X us r t decision decided short ps conf po x =
    (let ok = (decision = ''approved''); c = fst conf; o' = fst po; cancelled = foldl (\<lambda>q p. jadd q (jmax (JFin 0) (remainder p))) (JFin 0) ps;
         c' = set_doc_status (if ok then ''confirmed'' else ''rejected'') t c
     in bind_tx (if \<not> ok then (Inr (), x)
          else with_value (check (\<not> list_ex (\<lambda>(c, l). jlt (ordered_qty l) (confirmed_quantity c)) ps) (XInvalid ''excess''))
            (\<lambda>_. each_tx (confirm_quantities X r t) ps) x) (\<lambda>_ x.
        bind_tx (stage_fact X (us 0) (doc_id o') SupplierCommitment (''confirmation_'' @ decision) (if ok then StCompleted else StBlocked) t
            ''approval'' (ea_id decided) (xi_actorId r) [(''approvalId'', JStr (ea_id decided)), (''confirmationId'', JStr (doc_id c)),
             (''decision'', JStr decision), (''reason'', case ea_decisionReason decided of None \<Rightarrow> JNull | Some s \<Rightarrow> JStr s),
             (''shortfallDisposition'', shortfall_json short), (''cancelledRemainderQty'', JNum (if ok then cancelled else JFin 0)),
             (''exactTransitionTime'', JBool True)] x) (\<lambda>_ x.
        bind_tx (if ok then stage_fact X (us 1) (doc_id o') FulfilmentProduction ''stage_entered'' StActive t ''approval'' (ea_id decided)
            (xi_actorId r) [(''causedByStage'', JStr ''supplier_commitment''), (''approvalId'', JStr (ea_id decided)),
             (''confirmationId'', JStr (doc_id c)), (''shortfallDisposition'', shortfall_json short), (''exactTransitionTime'', JBool True)] x
            else (Inr (), x)) (\<lambda>_ x.
        bind_tx (update_document X ''confirmation'' c' (snd conf) x) (\<lambda>_ x.
        bind_tx (update_document X ''purchase_order'' (set_doc_status (if ok then ''confirmed'' else ''rejected'') t o') (snd po) x) (\<lambda>agg x.
        (Inr ((plain_result r agg)\<lparr>xr_documents := [c'], xr_approval := Some decided\<rparr>), x)))))))"

text \<open>The reason and the disposition of a shortfall; neither without one.\<close>
definition shortfall_checks :: "mutation_input \<Rightarrow> bool \<Rightarrow> (exec_fault, string option) result" where
  "shortfall_checks r short =
    (if \<not> short then (if xi_shortfall r \<noteq> None then Inl (XInvalid ''shortfallDisposition'') else Inr (xi_reason r))
     else if xi_shortfall r \<noteq> Some ''cancel_remainder'' then Inl (XInvalid ''shortfallDisposition'')
     else case need_text (given (xi_reason r)) ''reason'' of Inl e \<Rightarrow> Inl e | Inr s \<Rightarrow> Inr (Some s))"

definition executeDecideConfirmation :: "exec_env \<Rightarrow> (nat \<Rightarrow> string) \<Rightarrow> mutation_input \<Rightarrow> instant \<Rightarrow> exec_db \<Rightarrow> mutation_result exec_tx" where
  "executeDecideConfirmation X us r t x =
    with_value (executionApprovalForDecision r ''supplier_confirmation'' x) (\<lambda>a x.
    case getDocument ''confirmation'' (ea_objectId a) (xd_proc x) of
      None \<Rightarrow> (Inl (XInvalid ''confirmation''), x)
    | Some conf \<Rightarrow>
        with_document ''purchase_order'' (ea_poId a) (xi_expectedVersion r) [''awaiting_confirmation''] (\<lambda>po n x.
        with_value (requireExecutionDecision (xi_decision r)) (\<lambda>decision x.
        with_value (confirmed_pairs po (doc_id (fst conf)) x) (\<lambda>ps.
        let short = (short_lines decision ps \<noteq> [])
        in with_value (shortfall_checks r short) (\<lambda>reason x.
           bind_tx (decideExecutionApproval a decision (xi_actorId r) t reason short x) (\<lambda>decided x.
           confirmation_decided X us r t decision decided short ps conf (po, n) x))) x) x) x) x"

subsection \<open>Shipments\<close>

record fulfilment_evidence =
  fe_source :: string
  fe_sourceSystem :: string
  fe_reference :: string
  fe_fields :: "(string \<times> json) list"

definition requireManualVerification :: "mutation_input \<Rightarrow> (exec_fault, string \<times> string) result" where
  "requireManualVerification r =
    (if xi_permission r \<noteq> ''approve'' then Inl (XPermission ''approve'')
     else if xi_evidenceSource r \<noteq> Some ''manual_verified'' then Inl (XInvalid ''evidenceSource'')
     else case (need_text (given (xi_evidenceReference r)) ''evidenceReference'', need_text (given (xi_reason r)) ''reason'') of
       (Inl e, _) \<Rightarrow> Inl e | (_, Inl e) \<Rightarrow> Inl e | (Inr a, Inr b) \<Rightarrow> Inr (a, b))"

definition verification_fields :: "mutation_input \<Rightarrow> string \<Rightarrow> (string \<times> json) list" where
  "verification_fields r reason = [(''verifiedBy'', JStr (xi_actorId r)), (''verificationReason'', JStr reason)]"

definition requireFulfilmentEvidence :: "document \<Rightarrow> mutation_input \<Rightarrow> exec_db \<Rightarrow> (exec_fault, fulfilment_evidence) result" where
  "requireFulfilmentEvidence po r x =
    (if xi_evidenceSource r = Some ''manual_verified'' then
       (case requireManualVerification r of
          Inl e \<Rightarrow> Inl e
        | Inr (reference, reason) \<Rightarrow> Inr \<lparr>fe_source = ''manual_verified'', fe_sourceSystem = ''readywork-manual-verification'',
            fe_reference = reference, fe_fields = verification_fields r reason\<rparr>)
     else if xi_evidenceSource r \<noteq> Some ''supplier_email_ai'' then Inl (XInvalid ''evidenceSource'')
     else if xi_actorId r \<noteq> ''ai:supplier-reply'' \<or> xi_permission r \<noteq> ''operate'' then Inl (XInvalid ''actorId'')
     else case need_text (given (xi_evidenceReference r)) ''evidenceReference'' of
       Inl e \<Rightarrow> Inl e
     | Inr i \<Rightarrow> (case getDocument ''communication'' i (xd_proc x) of
         None \<Rightarrow> Inl (XInvalid ''communication'')
       | Some (c, _) \<Rightarrow>
           if doc_text c ''direction'' \<noteq> ''inbound'' \<or> doc_text c ''channel'' \<noteq> ''email'' \<or>
              doc_text c ''businessObjectType'' \<noteq> ''purchase_order'' \<or> doc_text c ''businessObjectId'' \<noteq> doc_id po \<or>
              doc_text c ''supplierId'' \<noteq> doc_text po ''supplierId'' then Inl (XInvalid ''communication'')
           else Inr \<lparr>fe_source = ''supplier_email_ai'', fe_sourceSystem = ''supplier-email-ai'', fe_reference = i, fe_fields = []\<rparr>))"

definition external_taken :: "string \<Rightarrow> string \<Rightarrow> string \<Rightarrow> exec_db \<Rightarrow> bool" where
  "external_taken kind source external x \<longleftrightarrow> list_ex (\<lambda>d. dr_kind d = kind \<and> dr_sourceSystem d = source \<and>
     dr_externalId d = external) (pd_documents (xd_proc x))"

text \<open>A line of a shipment or a receipt, with the order line and the quantity it counts.\<close>
definition moved_line ::
  "exec_env \<Rightarrow> (nat \<Rightarrow> string) \<Rightarrow> string \<Rightarrow> string \<Rightarrow> string \<Rightarrow> dimension \<Rightarrow> ident \<Rightarrow> proc_line list \<Rightarrow> exec_db \<Rightarrow> nat \<times> exec_line \<Rightarrow>
   (exec_fault, proc_line \<times> proc_line \<times> jnum) result" where
  "moved_line X us prefix parent quantity d i ls x ke = (case po_line ls (xl_poLineId (snd ke)) of
     None \<Rightarrow> Inl (XInvalid ''line'')
   | Some l \<Rightarrow> (case requirePositiveQuantity (xl_quantity (snd ke)) quantity of
       Inl e \<Rightarrow> Inl e
     | Inr _ \<Rightarrow> (case within_quantities X d l (xl_quantity (snd ke)) x of
         Inl e \<Rightarrow> Inl e
       | Inr _ \<Rightarrow> Inr (\<lparr>pl_id = prefix @ us (10 + fst ke), pl_lineNumber = numbered l (fst ke), pl_fields =
           [(parent, JStr i), (''poLineId'', JStr (pl_id l))] @ copied l ''itemId'' @ optional_description l @ copied l ''uom'' @
           [(quantity, JNum (xl_quantity (snd ke)))]\<rparr>, l, xl_quantity (snd ke)))))"

text \<open>\<open>(projection?.q ?? 0) + (projection?.cancelledQty ?? 0) + extra >= orderedQty\<close> on every line of the order.\<close>
definition all_covered :: "dimension \<Rightarrow> (ident \<Rightarrow> jnum option) \<Rightarrow> proc_line list \<Rightarrow> exec_db \<Rightarrow> bool" where
  "all_covered d extra ls x \<longleftrightarrow> list_all (\<lambda>l.
     let v = (case map_of (xd_projections x) (pl_id l) of None \<Rightarrow> jadd (JFin 0) (JFin 0)
           | Some p \<Rightarrow> jadd (quantity_of d p) (qp_cancelledQty p))
     in jle (ordered_qty l) (case extra (pl_id l) of None \<Rightarrow> v | Some q \<Rightarrow> jadd v q)) ls"

definition shipment_stages ::
  "exec_env \<Rightarrow> (nat \<Rightarrow> string) \<Rightarrow> mutation_input \<Rightarrow> fulfilment_evidence \<Rightarrow> document \<Rightarrow> bool \<Rightarrow> nat \<Rightarrow> document \<Rightarrow> instant \<Rightarrow> exec_db \<Rightarrow> unit exec_tx" where
  "shipment_stages X us r ev sh full k po t x =
    (let kind = fe_source ev @ ''_shipment''; f = field_or_null (doc_fields sh);
         tail = [(''evidenceSource'', JStr (fe_source ev)), (''evidenceReference'', JStr (fe_reference ev))] @ fe_fields ev @
           [(''exactTransitionTime'', JBool True)]
     in bind_tx (stage_fact X (us 1) (doc_id po) FulfilmentProduction
            (if full then ''fulfilment_completed_by_full_shipment'' else ''partial_shipment_progress_recorded'')
            (if full then StCompleted else StActive) t kind (doc_id sh) (xi_actorId r)
            ([(''shipmentId'', JStr (doc_id sh)), (''shipmentComplete'', JBool full), (''lineCount'', JNum (jint (int k))),
              (''estimatedArrivalAt'', f ''estimatedArrivalAt'')] @ tail) x) (\<lambda>_.
        stage_fact X (us 2) (doc_id po) DispatchTransit (if full then ''full_shipment_recorded'' else ''partial_shipment_recorded'')
            StActive t kind (doc_id sh) (xi_actorId r) ([(''shipmentId'', JStr (doc_id sh)), (''shipmentComplete'', JBool full),
              (''carrier'', f ''carrier''), (''trackingNumber'', f ''trackingNumber''), (''estimatedArrivalAt'', f ''estimatedArrivalAt'')] @ tail)))"

definition shipment_document ::
  "exec_env \<Rightarrow> mutation_input \<Rightarrow> fulfilment_evidence \<Rightarrow> ident \<Rightarrow> string \<Rightarrow> document \<Rightarrow> instant \<Rightarrow> (exec_fault, document) result" where
  "shipment_document X r ev i external po t =
    (case all_right [optional_input ''carrier'' (xi_carrier r), optional_input ''trackingNumber'' (xi_trackingNumber r),
        optional_date X ''estimatedArrivalAt'' (xi_estimatedArrivalAt r)] of
       Inl e \<Rightarrow> Inl e
     | Inr extras \<Rightarrow> Inr \<lparr>doc_id = i, doc_tenantId = pe_tenant (xe_proj X), doc_sourceSystem = fe_sourceSystem ev,
         doc_externalId = external, doc_status = ''shipped'', doc_createdAt = t, doc_updatedAt = t,
         doc_fields = [(''poId'', JStr (doc_id po)), (''supplierId'', JStr (doc_text po ''supplierId'')),
           (''shippedAt'', JStr (pe_iso (xe_proj X) t))] @ concat extras @
           [(''evidenceSource'', JStr (fe_source ev)), (''evidenceReference'', JStr (fe_reference ev))] @ fe_fields ev\<rparr>)"

definition executeRecordShipment :: "exec_env \<Rightarrow> (nat \<Rightarrow> string) \<Rightarrow> mutation_input \<Rightarrow> instant \<Rightarrow> exec_db \<Rightarrow> mutation_result exec_tx" where
  "executeRecordShipment X us r t =
    with_document ''purchase_order'' (xi_aggregateId r) (xi_expectedVersion r)
        [''confirmed'', ''in_production'', ''awaiting_shipment'', ''partially_shipped''] (\<lambda>po n x.
    let ls = listLines PurchaseOrderLine (doc_id po) (xd_proc x); i = ''shipment:'' @ us 0
    in with_value (requireFulfilmentEvidence po r x) (\<lambda>ev.
       with_value (need_text (given (xi_supplierReference r)) ''supplierReference'') (\<lambda>external.
       with_value (check (\<not> external_taken ''shipment'' (fe_sourceSystem ev) external x) (XInvalid ''shipment taken'')) (\<lambda>_.
       with_value (requireExecutionLines (xi_lines r)) (\<lambda>es.
       with_value (all_right (map (moved_line X us ''shipment-line:'' ''shipmentId'' ''shippedQty'' Shipped i ls x) (indexed es))) (\<lambda>cs.
       with_value (shipment_document X r ev i external po t) (\<lambda>sh x.
       bind_tx (insert_document X ''shipment'' sh x) (\<lambda>_ x.
       bind_tx (each_tx (counted_line X r ShipmentLine Shipped i t) cs x) (\<lambda>_ x.
       let full = all_covered Shipped (\<lambda>_. None) ls x
       in bind_tx (shipment_stages X us r ev sh full (length cs) po t x) (\<lambda>_ x.
          bind_tx (update_document X ''purchase_order'' (set_doc_status (if full then ''shipped'' else ''partially_shipped'') t po) n x) (\<lambda>agg x.
          (Inr ((plain_result r agg)\<lparr>xr_documents := [sh], xr_lines := map fst cs\<rparr>), x))))))))))) x)"


subsection \<open>Receipts\<close>

text \<open>The import documents an order must have before its last receipt.  The two Chinese names of the import
  route lie outside the eight-bit characters.\<close>
definition is_import :: "document \<Rightarrow> exec_env \<Rightarrow> exec_db \<Rightarrow> bool" where
  "is_import po X x \<longleftrightarrow> (case map_of (xd_routes x) (doc_id po) of
     Some route \<Rightarrow> route = ''import''
   | None \<Rightarrow>
       (let f = map_of (doc_fields po);
            v = (if f ''procurementRoute'' \<notin> {None, Some JNull} then f ''procurementRoute'' else f ''route'')
        in lowercase (trim (text_of X v)) \<in> {''import'', ''international''}))"

definition required_documents :: "json \<Rightarrow> (string \<times> json) list list" where
  "required_documents v = filter (\<lambda>r. map_of r ''required'' \<noteq> Some (JBool False) \<and> trim (string_of (map_of r ''code'')) \<noteq> [])
     (json_objects (Some v))"

definition document_problem :: "exec_env \<Rightarrow> ident \<Rightarrow> instant \<Rightarrow> exec_db \<Rightarrow> (string \<times> json) list \<Rightarrow> bool" where
  "document_problem X po t x r =
    (let joined = concat (map (\<lambda>d. map (Pair d) (filter (\<lambda>a. ax_id a = im_attachmentId d) (xd_attachments x)))
           (filter (\<lambda>d. im_poId d = po \<and> im_status d = ''active'') (xd_importDocuments x)))
     in case find (\<lambda>q. im_requirementCode (fst q) = string_of (map_of r ''code'')) (rev joined) of
          None \<Rightarrow> True
        | Some (d, a) \<Rightarrow> ax_status a \<noteq> ''active'' \<or> ax_securityStatus a \<noteq> ''clean'' \<or>
            (map_of r ''expiryRequired'' = Some (JBool True) \<and> given (im_expiresAt d) = []) \<or>
            (given (im_expiresAt d) \<noteq> [] \<and> (case xe_date X (given (im_expiresAt d)) of None \<Rightarrow> False | Some e \<Rightarrow> e < t)))"

definition assertImportDocumentCompletionGate :: "exec_env \<Rightarrow> document \<Rightarrow> instant \<Rightarrow> exec_db \<Rightarrow> (exec_fault, unit) result" where
  "assertImportDocumentCompletionGate X po t x =
    (if \<not> is_import po X x then Inr ()
     else case sort_key (\<lambda>p. (- ip_publishedAt p, ip_id p)) (filter (\<lambda>p. ip_status p = ''published'') (xd_importPolicies x)) of
       [] \<Rightarrow> Inl (XState ''import policy'')
     | p # _ \<Rightarrow> check (required_documents (ip_requirements p) \<noteq> [] \<and>
         \<not> list_ex (document_problem X (doc_id po) t x) (required_documents (ip_requirements p))) (XState ''import documents''))"

definition receipt_document ::
  "exec_env \<Rightarrow> mutation_input \<Rightarrow> ident \<Rightarrow> string \<Rightarrow> string \<times> string \<Rightarrow> document \<Rightarrow> instant \<Rightarrow> (exec_fault, document) result" where
  "receipt_document X r i external v po t = (case need_text (given (xi_warehouseId r)) ''warehouseId'' of
     Inl e \<Rightarrow> Inl e
   | Inr w \<Rightarrow> Inr \<lparr>doc_id = i, doc_tenantId = pe_tenant (xe_proj X), doc_sourceSystem = ''readywork-manual-verification'',
       doc_externalId = external, doc_status = ''received'', doc_createdAt = t, doc_updatedAt = t,
       doc_fields = [(''poId'', JStr (doc_id po))] @ (if given (xi_shipmentId r) = [] then [] else [(''shipmentId'', JStr (given (xi_shipmentId r)))]) @
         [(''warehouseId'', JStr w), (''receivedAt'', JStr (pe_iso (xe_proj X) t)), (''evidenceSource'', JStr ''manual_verified''),
          (''evidenceReference'', JStr (fst v))] @ verification_fields r (snd v)\<rparr>)"

definition receipt_stages ::
  "exec_env \<Rightarrow> (nat \<Rightarrow> string) \<Rightarrow> mutation_input \<Rightarrow> string \<times> string \<Rightarrow> document \<Rightarrow> bool \<Rightarrow> document \<Rightarrow> instant \<Rightarrow> exec_db \<Rightarrow> unit exec_tx" where
  "receipt_stages X us r v rc full po t x =
    (let tail = [(''receiptComplete'', JBool full), (''evidenceSource'', JStr ''manual_verified''), (''evidenceReference'', JStr (fst v))] @
           verification_fields r (snd v) @ [(''exactTransitionTime'', JBool True)];
         st = (if full then StCompleted else StActive)
     in bind_tx (stage_fact X (us 1) (doc_id po) DispatchTransit (if full then ''final_arrival_recorded'' else ''partial_arrival_recorded'') st t
            ''manual_verified_grn'' (doc_id rc) (xi_actorId r)
            ([(''receiptId'', JStr (doc_id rc)), (''shipmentId'', field_or_null (doc_fields rc) ''shipmentId'')] @ tail) x) (\<lambda>_.
        stage_fact X (us 2) (doc_id po) DeliveryGrn (if full then ''grn_completed'' else ''partial_grn_recorded'') st t
            ''manual_verified_grn'' (doc_id rc) (xi_actorId r)
            ([(''receiptId'', JStr (doc_id rc)), (''warehouseId'', field_or_null (doc_fields rc) ''warehouseId'')] @ tail)))"

definition shipment_of_order :: "mutation_input \<Rightarrow> document \<Rightarrow> exec_db \<Rightarrow> (exec_fault, unit) result" where
  "shipment_of_order r po x = (if given (xi_shipmentId r) = [] then Inr ()
     else case getDocument ''shipment'' (given (xi_shipmentId r)) (xd_proc x) of
       None \<Rightarrow> Inl (XInvalid ''shipment'')
     | Some (s, _) \<Rightarrow> check (doc_text s ''poId'' = doc_id po) (XInvalid ''shipment''))"

definition incoming :: "(proc_line \<times> proc_line \<times> jnum) list \<Rightarrow> ident \<Rightarrow> jnum option" where
  "incoming cs i = (case find (\<lambda>(_, l, _). pl_id l = i) (rev cs) of None \<Rightarrow> Some (JFin 0) | Some (_, _, q) \<Rightarrow> Some q)"

definition executeRecordReceipt :: "exec_env \<Rightarrow> (nat \<Rightarrow> string) \<Rightarrow> mutation_input \<Rightarrow> instant \<Rightarrow> exec_db \<Rightarrow> mutation_result exec_tx" where
  "executeRecordReceipt X us r t =
    with_document ''purchase_order'' (xi_aggregateId r) (xi_expectedVersion r) [''partially_shipped'', ''shipped'', ''partially_received''] (\<lambda>po n x.
    let ls = listLines PurchaseOrderLine (doc_id po) (xd_proc x); i = ''receipt:'' @ us 0
    in with_value (requireManualVerification r) (\<lambda>v.
       with_value (need_text (given (xi_supplierReference r)) ''supplierReference'') (\<lambda>external.
       with_value (check (\<not> external_taken ''receipt'' ''readywork-manual-verification'' external x) (XInvalid ''receipt taken'')) (\<lambda>_.
       with_value (requireExecutionLines (xi_lines r)) (\<lambda>es.
       with_value (shipment_of_order r po x) (\<lambda>_.
       with_value (all_right (map (moved_line X us ''receipt-line:'' ''receiptId'' ''receivedQty'' Received i ls x) (indexed es))) (\<lambda>cs.
       with_value (if all_covered Received (incoming cs) ls x then assertImportDocumentCompletionGate X po t x else Inr ()) (\<lambda>_.
       with_value (receipt_document X r i external v po t) (\<lambda>rc x.
       bind_tx (insert_document X ''receipt'' rc x) (\<lambda>_ x.
       bind_tx (each_tx (counted_line X r ReceiptLine Received i t) cs x) (\<lambda>_ x.
       let full = all_covered Received (\<lambda>_. None) ls x
       in bind_tx (receipt_stages X us r v rc full po t x) (\<lambda>_ x.
          bind_tx (update_document X ''purchase_order'' (set_doc_status (if full then ''received'' else ''partially_received'') t po) n x) (\<lambda>agg x.
          (Inr ((plain_result r agg)\<lparr>xr_documents := [rc], xr_lines := map fst cs\<rparr>), x))))))))))))) x)"

subsection \<open>Invoices and their approval\<close>

text \<open>\<open>toUpperCase\<close> of the characters below 256 whose upper case is below 256 too.\<close>
definition upper_char :: "char \<Rightarrow> string" where
  "upper_char c = (let n = (of_char c :: nat) in
     if n = 223 then ''SS'' else if (97 \<le> n \<and> n \<le> 122) \<or> (224 \<le> n \<and> n \<le> 254 \<and> n \<noteq> 247) then [char_of (n - 32)] else [c])"

definition uppercase :: "string \<Rightarrow> string" where
  "uppercase s = concat (map upper_char s)"

definition allocation_json :: "ident \<times> jnum \<Rightarrow> json" where
  "allocation_json a = JObj [(''receiptLineId'', JStr (fst a)), (''allocatedQty'', JNum (snd a))]"

definition own_receipt_line :: "proc_line \<Rightarrow> exec_db \<Rightarrow> ident \<Rightarrow> bool" where
  "own_receipt_line l x i = (case find_line (line_kind_name ReceiptLine) i (xd_proc x) of
     None \<Rightarrow> False | Some q \<Rightarrow> line_text (lr_line q) ''poLineId'' = pl_id l)"

definition nonneg_input :: "jnum option \<Rightarrow> bool" where
  "nonneg_input v = (case v of None \<Rightarrow> False | Some q \<Rightarrow> is_finite q \<and> \<not> jlt q (JFin 0))"

definition invoice_line ::
  "exec_env \<Rightarrow> (nat \<Rightarrow> string) \<Rightarrow> ident \<Rightarrow> string \<Rightarrow> proc_line list \<Rightarrow> exec_db \<Rightarrow> nat \<times> exec_line \<Rightarrow> (exec_fault, proc_line \<times> proc_line \<times> jnum) result" where
  "invoice_line X us i currency ls x ke =
    (case moved_line X us ''invoice-line:'' ''invoiceId'' ''invoicedQty'' Invoiced i ls x ke of
       Inl e \<Rightarrow> Inl e
     | Inr (new, l, q) \<Rightarrow>
        (let e = snd ke; al = (case xl_allocations e of None \<Rightarrow> [] | Some as \<Rightarrow> as)
         in if \<not> nonneg_input (xl_unitPrice e) \<or> \<not> nonneg_input (xl_netAmount e) then Inl (XInvalid ''unitPrice'')
            else if list_ex (\<lambda>a. \<not> is_finite (snd a) \<or> \<not> jlt (JFin 0) (snd a)) al then Inl (XInvalid ''allocatedQty'')
            else if \<not> jeq (foldl (\<lambda>s a. jadd s (snd a)) (JFin 0) al) q then Inl (XInvalid ''allocations'')
            else if \<not> list_all (\<lambda>a. own_receipt_line l x (fst a)) al then Inl (XInvalid ''allocations'')
            else Inr (new\<lparr>pl_fields := pl_fields new @ [(''receiptAllocations'', JArr (map allocation_json al)),
              (''unitPrice'', JNum (the (xl_unitPrice e))), (''netAmount'', JNum (the (xl_netAmount e))), (''currency'', JStr currency)]\<rparr>, l, q)))"

definition invoice_number_taken :: "string \<Rightarrow> string \<Rightarrow> exec_db \<Rightarrow> bool" where
  "invoice_number_taken supplier num x \<longleftrightarrow> list_ex (\<lambda>d. dr_kind d = ''invoice'' \<and>
     map_of (doc_fields (dr_document d)) ''supplierId'' = Some (JStr supplier) \<and>
     map_of (doc_fields (dr_document d)) ''invoiceNumber'' = Some (JStr num)) (pd_documents (xd_proc x))"

definition executeRecordInvoice :: "exec_env \<Rightarrow> (nat \<Rightarrow> string) \<Rightarrow> mutation_input \<Rightarrow> instant \<Rightarrow> exec_db \<Rightarrow> mutation_result exec_tx" where
  "executeRecordInvoice X us r t =
    with_document ''purchase_order'' (xi_aggregateId r) (xi_expectedVersion r) [''partially_received'', ''received''] (\<lambda>po n x.
    let ls = listLines PurchaseOrderLine (doc_id po) (xd_proc x); i = ''invoice:'' @ us 0; supplier = doc_text po ''supplierId''
    in with_value (requireExecutionLines (xi_lines r)) (\<lambda>es.
       with_value (need_text (given (xi_currency r)) ''currency'') (\<lambda>c.
       with_value (check (uppercase c = doc_text po ''currency'') (XInvalid ''currency'')) (\<lambda>_.
       with_value (need_text (given (xi_invoiceNumber r)) ''invoiceNumber'') (\<lambda>num.
       with_value (check (\<not> invoice_number_taken supplier num x) (XDuplicateInvoice num)) (\<lambda>_.
       with_value (all_right (map (invoice_line X us i (uppercase c) ls x) (indexed es))) (\<lambda>cs.
       with_value (need_date X (given (xi_invoiceDate r)) ''invoiceDate'') (\<lambda>d x.
       let bill = \<lparr>doc_id = i, doc_tenantId = pe_tenant (xe_proj X), doc_sourceSystem = ''supplier'', doc_externalId = i,
             doc_status = ''received'', doc_createdAt = t, doc_updatedAt = t, doc_fields = [(''supplierId'', JStr supplier),
             (''invoiceNumber'', JStr num), (''currency'', JStr (uppercase c)), (''invoiceDate'', JStr (pe_iso (xe_proj X) d))]\<rparr>
       in bind_tx (insert_document X ''invoice'' bill x) (\<lambda>_ x.
          bind_tx (each_tx (counted_line X r InvoiceLine Invoiced i t) cs x) (\<lambda>_ x.
          bind_tx (update_document X ''purchase_order'' (po\<lparr>doc_updatedAt := t\<rparr>) n x) (\<lambda>agg x.
          (Inr ((plain_result r agg)\<lparr>xr_documents := [bill], xr_lines := map fst cs\<rparr>), x))))))))))) x)"

definition executeDecideAp :: "exec_env \<Rightarrow> (nat \<Rightarrow> string) \<Rightarrow> mutation_input \<Rightarrow> instant \<Rightarrow> exec_db \<Rightarrow> mutation_result exec_tx" where
  "executeDecideAp X us r t x =
    with_value (executionApprovalForDecision r ''accounts_payable'' x) (\<lambda>a.
    with_document ''invoice'' (ea_objectId a) (xi_expectedVersion r) [''pending_approval''] (\<lambda>bill n.
    with_value (requireExecutionDecision (xi_decision r)) (\<lambda>decision x.
    bind_tx (decideExecutionApproval a decision (xi_actorId r) t (xi_reason r) False x) (\<lambda>decided x.
    bind_tx (update_document X ''invoice'' (set_doc_status (if decision = ''approved'' then ''payable_approved'' else ''exception'') t bill) n x) (\<lambda>agg x.
    if decision \<noteq> ''approved'' then (Inr ((plain_result r agg)\<lparr>xr_approval := Some decided\<rparr>), x)
    else bind_tx (insertExecutionOutbox X r (us 0) t ChErp ''invoice.update'' (doc_id bill)
        [(''invoiceId'', JStr (doc_id bill)), (''status'', JStr ''payable_approved'')] x) (\<lambda>m x.
      (Inr ((plain_result r agg)\<lparr>xr_approval := Some decided, xr_outbox := Some m\<rparr>), x))))))) x"


subsection \<open>Production progress\<close>

definition production_statuses :: "string list" where
  "production_statuses = [''materials_ready'', ''in_production'', ''quality_check'', ''ready_to_ship'', ''delayed'', ''blocked'']"

definition productionOverallStatus :: "string list \<Rightarrow> string" where
  "productionOverallStatus ss =
    (if ''blocked'' \<in> set ss then ''blocked'' else if ''delayed'' \<in> set ss then ''delayed''
     else if list_all (\<lambda>s. s = ''ready_to_ship'') ss then ''ready_to_ship''
     else if ''quality_check'' \<in> set ss then ''quality_check'' else if ''in_production'' \<in> set ss then ''in_production''
     else ''materials_ready'')"

definition effective_quantity :: "proc_line \<Rightarrow> exec_db \<Rightarrow> jnum" where
  "effective_quantity l x = jmax (JFin 0) (jsub (ordered_qty l)
     (case map_of (xd_projections x) (pl_id l) of None \<Rightarrow> JFin 0 | Some p \<Rightarrow> qp_cancelledQty p))"

definition progress_line ::
  "exec_env \<Rightarrow> (nat \<Rightarrow> string) \<Rightarrow> ident \<Rightarrow> proc_line list \<Rightarrow> exec_db \<Rightarrow> nat \<times> exec_line \<Rightarrow> (exec_fault, proc_line) result" where
  "progress_line X us i ls x ke = (case po_line ls (xl_poLineId (snd ke)) of
     None \<Rightarrow> Inl (XInvalid ''line'')
   | Some l \<Rightarrow>
      (let e = snd ke; st = given (xl_progressStatus e); q = xl_quantity e; eff = effective_quantity l x; note = trim (given (xl_note e))
       in case xl_completionPercent e of
            None \<Rightarrow> Inl (XInvalid ''completionPercent'')
          | Some pc \<Rightarrow>
              if st \<notin> set production_statuses then Inl (XInvalid ''progressStatus'')
              else if \<not> is_finite pc \<or> jlt pc (JFin 0) \<or> jlt (JFin 100) pc then Inl (XInvalid ''completionPercent'')
              else if \<not> is_finite q \<or> jlt q (JFin 0) then Inl (XInvalid ''quantity'')
              else if jlt eff q then Inl (XInvalid ''quantity'')
              else if st = ''ready_to_ship'' \<and> (\<not> jeq pc (JFin 100) \<or> jlt q eff) then Inl (XInvalid ''ready_to_ship'')
              else (case optional_date X ''expectedReadyAt'' (xl_expectedReadyAt e) of
                  Inl f \<Rightarrow> Inl f
                | Inr ready \<Rightarrow>
                    if st \<in> {''delayed'', ''blocked''} \<and> note = [] then Inl (XInvalid ''note'')
                    else Inr \<lparr>pl_id = ''production-progress-line:'' @ us (10 + fst ke), pl_lineNumber = numbered l (fst ke), pl_fields =
                      [(''progressId'', JStr i), (''poLineId'', JStr (pl_id l))] @ copied l ''itemId'' @ optional_description l @
                      copied l ''uom'' @ [(''progressStatus'', JStr st), (''completionPercent'', JNum pc), (''completedQty'', JNum q)] @
                      ready @ (if note = [] then [] else [(''note'', JStr note)])\<rparr>)))"

text \<open>The lines of all progress reports of an order, the latest report first.\<close>
definition progress_history :: "ident \<Rightarrow> exec_db \<Rightarrow> proc_line list" where
  "progress_history po x =
    (let ds = sort_key (\<lambda>d. (dr_createdAt d, dr_id d)) (filter (\<lambda>d. dr_kind d = ''production_progress'' \<and> refers_to d po) (pd_documents (xd_proc x)))
     in concat (map (\<lambda>d. listLines ProductionProgressLine (dr_id d) (xd_proc x)) (rev ds)))"

definition line_ready :: "proc_line list \<Rightarrow> exec_db \<Rightarrow> proc_line \<Rightarrow> bool" where
  "line_ready history x l \<longleftrightarrow> jeq (effective_quantity l x) (JFin 0) \<or>
     (case find (\<lambda>p. line_text p ''poLineId'' = pl_id l) history of
        None \<Rightarrow> False
      | Some p \<Rightarrow> line_text p ''progressStatus'' = ''ready_to_ship'' \<and> jeq (line_number p ''completionPercent'') (JFin 100) \<and>
          jle (effective_quantity l x) (line_number p ''completedQty''))"

definition progress_document ::
  "exec_env \<Rightarrow> fulfilment_evidence \<Rightarrow> ident \<Rightarrow> string \<Rightarrow> string \<Rightarrow> document \<Rightarrow> instant \<Rightarrow> document" where
  "progress_document X ev i external overall po t = \<lparr>doc_id = i, doc_tenantId = pe_tenant (xe_proj X),
     doc_sourceSystem = fe_sourceSystem ev, doc_externalId = external, doc_status = ''recorded'', doc_createdAt = t, doc_updatedAt = t,
     doc_fields = [(''poId'', JStr (doc_id po)), (''supplierId'', JStr (doc_text po ''supplierId'')),
       (''reportedAt'', JStr (pe_iso (xe_proj X) t)), (''overallStatus'', JStr overall), (''evidenceSource'', JStr (fe_source ev)),
       (''evidenceReference'', JStr (fe_reference ev))] @ fe_fields ev\<rparr>"

definition write_progress ::
  "exec_env \<Rightarrow> (nat \<Rightarrow> string) \<Rightarrow> mutation_input \<Rightarrow> fulfilment_evidence \<Rightarrow> document \<Rightarrow> proc_line list \<Rightarrow> document \<Rightarrow> nat \<Rightarrow> instant \<Rightarrow> exec_db \<Rightarrow> mutation_result exec_tx" where
  "write_progress X us r ev d ps po n t x =
    (let ls = listLines PurchaseOrderLine (doc_id po) (xd_proc x); overall = doc_text d ''overallStatus''
     in bind_tx (insert_document X ''production_progress'' d x) (\<lambda>_ x.
        bind_tx (each_tx (insert_line X ProductionProgressLine (doc_id d)) ps x) (\<lambda>_ x.
        let ready = list_all (line_ready (progress_history (doc_id po) x) x) ls;
            blocked = list_ex (\<lambda>p. line_text p ''progressStatus'' \<in> {''delayed'', ''blocked''}) ps
        in bind_tx (stage_fact X (us 1) (doc_id po) FulfilmentProduction (if ready then ''production_ready_to_ship''
               else if blocked then ''production_progress_blocked'' else ''production_progress_recorded'')
               (if ready then StCompleted else if blocked then StBlocked else StActive) t (fe_source ev @ ''_production_progress'')
               (doc_id d) (xi_actorId r) ([(''productionProgressId'', JStr (doc_id d)), (''overallStatus'', JStr overall),
                 (''lineCount'', JNum (jint (int (length ps)))), (''allLinesReadyToShip'', JBool ready),
                 (''evidenceSource'', JStr (fe_source ev)), (''evidenceReference'', JStr (fe_reference ev))] @ fe_fields ev @
                 [(''exactTransitionTime'', JBool ready)]) x) (\<lambda>_ x.
           bind_tx (update_document X ''purchase_order'' (set_doc_status (if doc_status po = ''partially_shipped'' then ''partially_shipped''
               else if ready then ''awaiting_shipment'' else ''in_production'') t po) n x) (\<lambda>agg x.
           (Inr ((plain_result r agg)\<lparr>xr_documents := [d], xr_lines := ps\<rparr>), x))))))"

definition executeRecordProductionProgress :: "exec_env \<Rightarrow> (nat \<Rightarrow> string) \<Rightarrow> mutation_input \<Rightarrow> instant \<Rightarrow> exec_db \<Rightarrow> mutation_result exec_tx" where
  "executeRecordProductionProgress X us r t =
    with_document ''purchase_order'' (xi_aggregateId r) (xi_expectedVersion r)
        [''confirmed'', ''in_production'', ''awaiting_shipment'', ''partially_shipped''] (\<lambda>po n x.
    let ls = listLines PurchaseOrderLine (doc_id po) (xd_proc x); i = ''production-progress:'' @ us 0
    in with_value (requireFulfilmentEvidence po r x) (\<lambda>ev.
       with_value (need_text (given (xi_supplierReference r)) ''supplierReference'') (\<lambda>external.
       with_value (check (\<not> external_taken ''production_progress'' (fe_sourceSystem ev) external x) (XInvalid ''progress taken'')) (\<lambda>_.
       with_value (requireExecutionLines (xi_lines r)) (\<lambda>es.
       with_value (all_right (map (progress_line X us i ls x) (indexed es))) (\<lambda>ps.
       write_progress X us r ev (progress_document X ev i external
         (productionOverallStatus (map (\<lambda>p. line_text p ''progressStatus'') ps)) po t) ps po n t))))) x)"

subsection \<open>Transport events\<close>

definition transport_codes :: "string list" where
  "transport_codes = [''picked_up'', ''departed_origin'', ''arrived_port'', ''customs_submitted'', ''customs_cleared'', ''customs_held'',
     ''out_for_delivery'', ''delivered'', ''exception'']"

fun route_of_fields :: "exec_env \<Rightarrow> json option list \<Rightarrow> string" where
  "route_of_fields X [] = ''unclassified''"
| "route_of_fields X (v # vs) = (let s = lowercase (trim (text_of X v)) in
     if s \<in> {''import'', ''international''} then ''import'' else if s \<in> {''local'', ''domestic''} then ''local'' else route_of_fields X vs)"

definition procurementRouteForPo :: "exec_env \<Rightarrow> document \<Rightarrow> exec_db \<Rightarrow> string" where
  "procurementRouteForPo X po x = (case map_of (xd_routes x) (doc_id po) of
     Some route \<Rightarrow> if route \<in> {''local'', ''import''} then route
       else route_of_fields X [map_of (doc_fields po) ''procurementRoute'', map_of (doc_fields po) ''route'']
   | None \<Rightarrow> route_of_fields X [map_of (doc_fields po) ''procurementRoute'', map_of (doc_fields po) ''route''])"

definition transport_document ::
  "exec_env \<Rightarrow> mutation_input \<Rightarrow> ident \<Rightarrow> string \<Rightarrow> string \<times> string \<Rightarrow> ident \<Rightarrow> string \<Rightarrow> instant \<Rightarrow> document \<Rightarrow> instant \<Rightarrow> (exec_fault, document) result" where
  "transport_document X r i external v shipment code occurred po t =
    (case all_right [optional_input ''location'' (xi_location r), optional_date X ''estimatedArrivalAt'' (xi_estimatedArrivalAt r),
        optional_input ''carrierReference'' (xi_carrierReference r)] of
       Inl e \<Rightarrow> Inl e
     | Inr extras \<Rightarrow> Inr \<lparr>doc_id = i, doc_tenantId = pe_tenant (xe_proj X), doc_sourceSystem = ''readywork-manual-verification'',
         doc_externalId = external, doc_status = ''recorded'', doc_createdAt = t, doc_updatedAt = t,
         doc_fields = [(''poId'', JStr (doc_id po)), (''shipmentId'', JStr shipment), (''eventCode'', JStr code),
           (''occurredAt'', JStr (pe_iso (xe_proj X) occurred))] @ concat extras @
           [(''evidenceSource'', JStr ''manual_verified''), (''evidenceReference'', JStr (fst v))] @ verification_fields r (snd v)\<rparr>)"

definition executeRecordTransportEvent :: "exec_env \<Rightarrow> (nat \<Rightarrow> string) \<Rightarrow> mutation_input \<Rightarrow> instant \<Rightarrow> exec_db \<Rightarrow> mutation_result exec_tx" where
  "executeRecordTransportEvent X us r t =
    with_document ''purchase_order'' (xi_aggregateId r) (xi_expectedVersion r) [''partially_shipped'', ''shipped'', ''partially_received''] (\<lambda>po n x.
    let i = ''transport-event:'' @ us 0; code = given (xi_eventCode r)
    in with_value (requireManualVerification r) (\<lambda>v.
       with_value (need_text (given (xi_shipmentId r)) ''shipmentId'') (\<lambda>shipment.
       with_value (check (case getDocument ''shipment'' shipment (xd_proc x) of None \<Rightarrow> False | Some (s, _) \<Rightarrow> doc_text s ''poId'' = doc_id po)
         (XInvalid ''shipment'')) (\<lambda>_.
       with_value (check (code \<in> set transport_codes) (XInvalid ''eventCode'')) (\<lambda>_.
       with_value (check (starts_with code ''customs_'' \<longrightarrow> procurementRouteForPo X po x = ''import'') (XInvalid ''route'')) (\<lambda>_.
       with_value (need_date X (given (xi_eventOccurredAt r)) ''eventOccurredAt'') (\<lambda>occurred.
       with_value (check (occurred \<le> t + 300000) (XInvalid ''eventOccurredAt'')) (\<lambda>_.
       with_value (need_text (given (xi_eventReference r)) ''eventReference'') (\<lambda>external.
       with_value (check (\<not> external_taken ''transport_event'' ''readywork-manual-verification'' external x) (XInvalid ''event taken'')) (\<lambda>_.
       with_value (transport_document X r i external v shipment code occurred po t) (\<lambda>d x.
       let f = field_or_null (doc_fields d)
       in bind_tx (insert_document X ''transport_event'' d x) (\<lambda>_ x.
          bind_tx (stage_fact X (us 1) (doc_id po) DispatchTransit (''transport_'' @ code)
              (if code \<in> {''customs_held'', ''exception''} then StBlocked else StActive) occurred ''manual_verified_transport_event'' i
              (xi_actorId r) ([(''transportEventId'', JStr i), (''shipmentId'', JStr shipment), (''eventCode'', JStr code),
                (''location'', f ''location''), (''estimatedArrivalAt'', f ''estimatedArrivalAt''),
                (''carrierReference'', f ''carrierReference''), (''evidenceSource'', JStr ''manual_verified''),
                (''evidenceReference'', JStr (fst v))] @ verification_fields r (snd v) @
                [(''exactTransitionTime'', JBool True), (''carrierDeliveryIsNotGrn'', JBool (code = ''delivered''))]) x) (\<lambda>_ x.
          bind_tx (update_document X ''purchase_order'' (po\<lparr>doc_updatedAt := t\<rparr>) n x) (\<lambda>agg x.
          (Inr ((plain_result r agg)\<lparr>xr_documents := [d]\<rparr>), x)))))))))))))) x)"

subsection \<open>The match of an invoice\<close>

definition json_allocation :: "(string \<times> json) list \<Rightarrow> allocation" where
  "json_allocation r = \<lparr>al_receiptLineId = string_of (map_of r ''receiptLineId''),
     al_allocatedQty = (case map_of r ''allocatedQty'' of Some (JNum q) \<Rightarrow> q | _ \<Rightarrow> JNaN)\<rparr>"

definition as_po_line :: "proc_line \<Rightarrow> match_po_line" where
  "as_po_line l = \<lparr>mo_id = pl_id l, mo_orderedQty = ordered_qty l, mo_unitPrice = line_number l ''unitPrice'', mo_currency = line_text l ''currency''\<rparr>"

definition as_receipt_line :: "proc_line \<Rightarrow> match_receipt_line" where
  "as_receipt_line l = \<lparr>mr_id = pl_id l, mr_poLineId = line_text l ''poLineId'', mr_receivedQty = line_number l ''receivedQty''\<rparr>"

definition as_invoice_line :: "proc_line \<Rightarrow> match_invoice_line" where
  "as_invoice_line l = \<lparr>mi_id = pl_id l,
     mi_poLineId = (case map_of (pl_fields l) ''poLineId'' of Some (JStr s) \<Rightarrow> Some s | _ \<Rightarrow> None),
     mi_allocations = (case map_of (pl_fields l) ''receiptAllocations'' of Some (JArr as) \<Rightarrow>
        Some (map json_allocation (json_objects (Some (JArr as)))) | _ \<Rightarrow> None),
     mi_invoicedQty = line_number l ''invoicedQty'', mi_unitPrice = line_number l ''unitPrice'',
     mi_netAmount = line_number l ''netAmount'', mi_currency = line_text l ''currency''\<rparr>"

definition variance_json :: "match_variance \<Rightarrow> json" where
  "variance_json v = JObj [(''expected'', JNum (mv_expected v)), (''actual'', JNum (mv_actual v)), (''difference'', JNum (mv_difference v)),
     (''differencePercent'', JNum (mv_differencePercent v))]"

definition variances_json :: "line_variances \<Rightarrow> json" where
  "variances_json v = JObj [(''quantity'', variance_json (lv_quantity v)), (''unitPrice'', variance_json (lv_unitPrice v)),
     (''amount'', variance_json (lv_amount v)), (''currency'', JObj [(''expected'', JStr (cv_expected (lv_currency v))),
       (''actual'', JStr (cv_actual (lv_currency v))), (''matches'', JBool (cv_matches (lv_currency v)))])]"

definition disposition_name :: "match_disposition \<Rightarrow> string" where
  "disposition_name d = (case d of ExactMatch \<Rightarrow> ''exact_match'' | WithinTolerance \<Rightarrow> ''within_tolerance''
     | ApprovalRequired \<Rightarrow> ''approval_required'' | SevereException \<Rightarrow> ''severe_exception'')"

definition disposition_rank :: "match_disposition \<Rightarrow> nat" where
  "disposition_rank d = (case d of ExactMatch \<Rightarrow> 0 | WithinTolerance \<Rightarrow> 1 | ApprovalRequired \<Rightarrow> 2 | SevereException \<Rightarrow> 3)"

definition find_own_line :: "line_kind \<Rightarrow> ident \<Rightarrow> exec_db \<Rightarrow> proc_line option" where
  "find_own_line k i x = map_option lr_line (find_line (line_kind_name k) i (xd_proc x))"

text \<open>Matching one line of the invoice; nothing is passed of what earlier invoices have allocated.\<close>
definition match_line ::
  "(nat \<Rightarrow> string) \<Rightarrow> ident \<Rightarrow> ident \<Rightarrow> match_policy \<Rightarrow> exec_db \<Rightarrow> nat \<times> proc_line \<Rightarrow> (exec_fault, proc_line \<times> match_disposition) result" where
  "match_line us i po policy x kl =
    (let iv = as_invoice_line (snd kl); l = snd kl in
     case (case mi_poLineId iv of None \<Rightarrow> None | Some j \<Rightarrow> find_own_line PurchaseOrderLine j x) of
       None \<Rightarrow> Inl (XInvalid ''po line'')
     | Some pol \<Rightarrow>
         if line_text pol ''poId'' \<noteq> po then Inl (XInvalid ''po line'')
         else (case all_right (map (\<lambda>a. case find_own_line ReceiptLine (al_receiptLineId a) x of
               None \<Rightarrow> Inl (XInvalid ''receipt line'') | Some q \<Rightarrow> Inr (as_receipt_line q))
               (case mi_allocations iv of None \<Rightarrow> [] | Some as \<Rightarrow> as)) of
             Inl e \<Rightarrow> Inl e
           | Inr receipts \<Rightarrow> (case matchPurchaseOrderLine \<lparr>mt_poLine = as_po_line pol, mt_receiptLines = receipts, mt_invoiceLine = iv,
                 mt_policy = policy, mt_previouslyAllocated = []\<rparr> of
               Inl f \<Rightarrow> Inl (XMatch f)
             | Inr res \<Rightarrow> Inr (\<lparr>pl_id = ''match-line:'' @ us (10 + fst kl), pl_lineNumber = pl_lineNumber l, pl_fields =
                 [(''matchId'', JStr i), (''poLineId'', JStr (pl_id pol))] @ copied l ''itemId'' @ optional_description l @ copied l ''uom'' @
                 [(''receiptAllocations'', JArr (map (\<lambda>a. allocation_json (al_receiptLineId a, al_allocatedQty a)) (mx_allocations res))),
                  (''invoiceLineId'', JStr (pl_id l)), (''disposition'', JStr (disposition_name (mx_disposition res))),
                  (''variances'', variances_json (mx_variances res))]\<rparr>, mx_disposition res))))"

text \<open>The first of the most severe dispositions.\<close>
definition worst :: "match_disposition list \<Rightarrow> match_disposition" where
  "worst ds = foldl (\<lambda>a d. if disposition_rank a < disposition_rank d then d else a) (hd ds) ds"

definition write_match ::
  "exec_env \<Rightarrow> (nat \<Rightarrow> string) \<Rightarrow> mutation_input \<Rightarrow> ident \<Rightarrow> document \<Rightarrow> nat \<Rightarrow> document \<Rightarrow> (proc_line \<times> match_disposition) list \<Rightarrow> instant \<Rightarrow> exec_db \<Rightarrow> mutation_result exec_tx" where
  "write_match X us r i bill n po ms t x =
    (let d = worst (map snd ms); severe = (d = SevereException);
         m = \<lparr>doc_id = i, doc_tenantId = pe_tenant (xe_proj X), doc_sourceSystem = ''readywork'', doc_externalId = i,
           doc_status = (if severe then ''exception'' else ''pending_approval''), doc_createdAt = t, doc_updatedAt = t,
           doc_fields = [(''poId'', JStr (doc_id po)), (''invoiceId'', JStr (doc_id bill)), (''result'', JStr (disposition_name d))]\<rparr>;
         approval = (if severe then None else Some (new_approval (''procurement-approval:'' @ us 1) ''accounts_payable'' (doc_id bill) (doc_id po)
           (xi_actorId r) t (disposition_name d)))
     in bind_tx (insert_document X ''match'' m x) (\<lambda>_ x.
        bind_tx (each_tx (\<lambda>l. insert_line X MatchLine i (fst l)) ms x) (\<lambda>_ x.
        bind_tx (insert_approval_if approval x) (\<lambda>_ x.
        bind_tx (update_document X ''invoice'' (set_doc_status (if severe then ''exception'' else ''pending_approval'') t bill) n x) (\<lambda>agg x.
        (Inr ((plain_result r agg)\<lparr>xr_documents := [m], xr_lines := map fst ms, xr_approval := approval\<rparr>), x))))))"

definition executeMatchInvoice :: "exec_env \<Rightarrow> (nat \<Rightarrow> string) \<Rightarrow> mutation_input \<Rightarrow> instant \<Rightarrow> exec_db \<Rightarrow> mutation_result exec_tx" where
  "executeMatchInvoice X us r t =
    with_document ''invoice'' (xi_aggregateId r) (xi_expectedVersion r) [''received'', ''three_way_match''] (\<lambda>bill n x.
    with_value (need_text (given (xi_poId r)) ''poId'') (\<lambda>poId x.
    case getDocument ''purchase_order'' poId (xd_proc x) of
      None \<Rightarrow> (Inl (XInvalid ''purchase order''), x)
    | Some (po, _) \<Rightarrow>
        let ls = listLines InvoiceLine (doc_id bill) (xd_proc x); i = ''match:'' @ us 0
        in with_value (check (doc_text po ''supplierId'' = doc_text bill ''supplierId'' \<and> doc_text po ''currency'' = doc_text bill ''currency'')
             (XInvalid ''supplier'')) (\<lambda>_.
           with_value (case xi_matchPolicy r of None \<Rightarrow> Inl (XInvalid ''matchPolicy'') | Some p \<Rightarrow> Inr p) (\<lambda>policy.
           with_value (check (ls \<noteq> []) (XInvalid ''lines'')) (\<lambda>_.
           with_value (all_right (map (match_line us i (doc_id po) policy x) (indexed ls))) (\<lambda>ms.
           write_match X us r i bill n po ms t)))) x) x)"

end
