(* ===== verification/ErpPayloads.thy ===== *)
theory ErpPayloads
  imports Fulfilment
begin

text \<open>
  What the outbox worker reads out of a frozen message and checks in an answer of the ERP
  (\<open>apps/api/src/procurement-outbox-worker.ts\<close>): the readers of untyped values, the frozen draft, date
  update, amendment and cancellation, the input of the ERP client, and the normalised receipts.  An
  untyped value is a \<open>json option\<close>, \<open>None\<close> for \<open>undefined\<close>.  \<open>Number\<close> of a value that is no number is an argument.
  The fixed text of a fault is shortened to the field or subject it names.
\<close>

subsection \<open>Faults of a dispatch\<close>

datatype dispatch_error = ConfigurationDispatchError string | GatewayRetryableDispatchError string
  | GatewayDeferredDispatchError string "instant option" bool | ExternalDispatchStartedError string
  | OdooPurchaseOrderCancellationRejectedError string | ConnectorDispatchError string | OtherError string

type_synonym 'a reading = "(dispatch_error, 'a) result"
type_synonym fields = "(string \<times> json) list"

fun error_message :: "dispatch_error \<Rightarrow> string" where
  "error_message (ConfigurationDispatchError s) = s"
| "error_message (GatewayRetryableDispatchError s) = s"
| "error_message (GatewayDeferredDispatchError s _ _) = s"
| "error_message (ExternalDispatchStartedError s) = s"
| "error_message (OdooPurchaseOrderCancellationRejectedError s) = s"
| "error_message (ConnectorDispatchError s) = s"
| "error_message (OtherError s) = s"

text \<open>\<open>throw\<close> ends the reading.\<close>
definition reads :: "'a reading \<Rightarrow> ('a \<Rightarrow> 'b reading) \<Rightarrow> 'b reading" where
  "reads r f = (case r of Inl e \<Rightarrow> Inl e | Inr a \<Rightarrow> f a)"

definition require_that :: "bool \<Rightarrow> dispatch_error \<Rightarrow> unit reading" where
  "require_that ok e = (if ok then Inr () else Inl e)"

lemma reads_simps [simp]: "reads (Inl e) f = Inl e" "reads (Inr a) f = f a"
  by (simp_all add: reads_def)

lemma reads_ok: "reads r f = Inr b \<longleftrightarrow> (\<exists>a. r = Inr a \<and> f a = Inr b)"
  by (cases r) auto

lemma require_that_ok [simp]: "require_that c e = Inr u \<longleftrightarrow> c"
  by (simp add: require_that_def)

text \<open>Reading the elements of an array in order, up to the first that throws.\<close>
fun reads_all :: "('a \<Rightarrow> 'b reading) \<Rightarrow> 'a list \<Rightarrow> 'b list reading" where
  "reads_all f [] = Inr []"
| "reads_all f (x # xs) = reads (f x) (\<lambda>y. reads (reads_all f xs) (\<lambda>ys. Inr (y # ys)))"

lemma reads_all_ok: "reads_all f xs = Inr ys \<longleftrightarrow> list_all2 (\<lambda>x y. f x = Inr y) xs ys"
  by (induction xs arbitrary: ys) (auto simp: reads_ok list_all2_Cons1)

lemma reads_all_length: "reads_all f xs = Inr ys \<Longrightarrow> length ys = length xs"
  unfolding reads_all_ok by (rule list_all2_lengthD[symmetric])

subsection \<open>Untyped values\<close>

definition is_truthy :: "json option \<Rightarrow> bool" where
  "is_truthy v = (case v of None \<Rightarrow> False | Some JNull \<Rightarrow> False | Some (JBool b) \<Rightarrow> b
     | Some (JNum q) \<Rightarrow> q \<noteq> JNaN \<and> q \<noteq> JFin 0 | Some (JStr s) \<Rightarrow> s \<noteq> [] | Some _ \<Rightarrow> True)"

text \<open>\<open>a ?? b\<close>\<close>
definition nullish :: "json option \<Rightarrow> json option \<Rightarrow> json option" where
  "nullish a b = (if a = None \<or> a = Some JNull then b else a)"

definition number_of :: "(json \<Rightarrow> jnum) \<Rightarrow> json option \<Rightarrow> jnum" where
  "number_of num v = (case v of None \<Rightarrow> JNaN | Some (JNum q) \<Rightarrow> q | Some j \<Rightarrow> num j)"

definition frozenRecord :: "json option \<Rightarrow> string \<Rightarrow> fields reading" where
  "frozenRecord v field = (case v of Some (JObj r) \<Rightarrow> Inr r | _ \<Rightarrow> Inl (ConfigurationDispatchError field))"

definition frozenText :: "json option \<Rightarrow> string \<Rightarrow> string reading" where
  "frozenText v field = (case v of
     Some (JStr s) \<Rightarrow> if trim s = [] then Inl (ConfigurationDispatchError field) else Inr (trim s)
   | _ \<Rightarrow> Inl (ConfigurationDispatchError field))"

definition frozenPositiveInteger :: "json option \<Rightarrow> string \<Rightarrow> int reading" where
  "frozenPositiveInteger v field = (case positive_int v of None \<Rightarrow> Inl (ConfigurationDispatchError field) | Some n \<Rightarrow> Inr n)"

definition frozenPositiveNumber :: "json option \<Rightarrow> string \<Rightarrow> jnum reading" where
  "frozenPositiveNumber v field = (case v of
     Some (JNum q) \<Rightarrow> if is_finite q \<and> jlt (JFin 0) q then Inr q else Inl (ConfigurationDispatchError field)
   | _ \<Rightarrow> Inl (ConfigurationDispatchError field))"

definition frozenNonNegativeNumber :: "json option \<Rightarrow> string \<Rightarrow> jnum reading" where
  "frozenNonNegativeNumber v field = (case v of
     Some (JNum q) \<Rightarrow> if is_finite q \<and> jle (JFin 0) q then Inr q else Inl (ConfigurationDispatchError field)
   | _ \<Rightarrow> Inl (ConfigurationDispatchError field))"

text \<open>A non-empty array.\<close>
definition frozen_array :: "json option \<Rightarrow> string \<Rightarrow> json list reading" where
  "frozen_array v field = (case v of Some (JArr (r # rs)) \<Rightarrow> Inr (r # rs) | _ \<Rightarrow> Inl (ConfigurationDispatchError field))"

subsection \<open>The frozen messages\<close>

definition draft_line :: "string \<Rightarrow> json \<Rightarrow> json reading" where
  "draft_line currencyCode raw =
    reads (frozenRecord (Some raw) ''lines'') (\<lambda>line.
    reads (frozenText (map_of line ''itemId'') ''itemId'') (\<lambda>itemCode.
    reads (frozenPositiveNumber (map_of line ''qty'') ''qty'') (\<lambda>quantity.
    reads (frozenNonNegativeNumber (map_of line ''unitPrice'') ''unitPrice'') (\<lambda>priceUnit.
    reads (frozenText (map_of line ''description'') ''description'') (\<lambda>description.
    reads (frozenText (map_of line ''requestedAt'') ''requestedAt'') (\<lambda>datePlanned.
    reads (frozenText (map_of line ''currency'') ''currency'') (\<lambda>c.
    reads (require_that (uppercase c = currencyCode) (ConfigurationDispatchError ''currency'')) (\<lambda>_.
    Inr (JObj [(''itemCode'', JStr itemCode), (''quantity'', JNum quantity), (''priceUnit'', JNum priceUnit),
      (''description'', JStr description), (''datePlanned'', JStr datePlanned)])))))))))"

definition frozenOdooPurchaseOrderDraft :: "ob_msg \<Rightarrow> fields reading" where
  "frozenOdooPurchaseOrderDraft m = (let p = map_of (ob_payload m) in
    reads (frozenText (p ''poId'') ''poId'') (\<lambda>poId.
    reads (frozenPositiveInteger (p ''poVersion'') ''poVersion'') (\<lambda>poVersion.
    reads (frozenText (p ''correlationKey'') ''correlationKey'') (\<lambda>correlationKey.
    reads (frozenPositiveInteger (p ''partnerId'') ''partnerId'') (\<lambda>partnerId.
    reads (frozenText (p ''currency'') ''currency'') (\<lambda>currency.
    reads (frozenRecord (p ''supplierMapping'') ''supplierMapping'') (\<lambda>mapping.
    reads (frozenPositiveInteger (map_of mapping ''partnerId'') ''supplierMapping.partnerId'') (\<lambda>mapped.
    reads (require_that (mapped = partnerId) (ConfigurationDispatchError ''supplierMapping'')) (\<lambda>_.
    reads (frozenText (map_of mapping ''sourceSystem'') ''supplierMapping.sourceSystem'') (\<lambda>source.
    reads (require_that (source = ''odoo'') (ConfigurationDispatchError ''supplierMapping'')) (\<lambda>_.
    reads (frozen_array (p ''lines'') ''lines'') (\<lambda>raw.
    reads (reads_all (draft_line (uppercase currency)) raw) (\<lambda>lines.
    Inr [(''poId'', JStr poId), (''poVersion'', JNum (jint poVersion)), (''correlationKey'', JStr correlationKey),
      (''partnerId'', JNum (jint partnerId)), (''currencyCode'', JStr (uppercase currency)), (''lines'', JArr lines)])))))))))))))"

text \<open>The line snapshot of a date update is checked line by line, with the set of identifiers already
  seen; only the number of lines is used.\<close>
fun rihd_lines :: "string list \<Rightarrow> json list \<Rightarrow> unit reading" where
  "rihd_lines seen [] = Inr ()"
| "rihd_lines seen (raw # raws) =
    reads (frozenRecord (Some raw) ''lines'') (\<lambda>line.
    reads (frozenText (map_of line ''poLineId'') ''poLineId'') (\<lambda>i.
    reads (require_that (i \<notin> set seen) (ConfigurationDispatchError ''poLineId'')) (\<lambda>_.
    reads (frozenText (map_of line ''lineNumber'') ''lineNumber'') (\<lambda>_.
    reads (frozenPositiveNumber (map_of line ''orderedQty'') ''orderedQty'') (\<lambda>_.
    reads (if map_of line ''requestedAt'' = Some JNull then Inr [] else frozenText (map_of line ''requestedAt'') ''requestedAt'') (\<lambda>_.
    rihd_lines (i # seen) raws))))))"

definition frozenOdooRihdUpdate :: "exec_env \<Rightarrow> ob_msg \<Rightarrow> fields reading" where
  "frozenOdooRihdUpdate X m = (let p = map_of (ob_payload m) in
    reads (frozenText (p ''poId'') ''poId'') (\<lambda>poId.
    reads (frozenPositiveInteger (p ''poVersion'') ''poVersion'') (\<lambda>poVersion.
    reads (frozenText (p ''requiredInHouseAt'') ''requiredInHouseAt'') (\<lambda>rihd.
    reads (require_that (xe_date X rihd \<noteq> None) (ConfigurationDispatchError ''requiredInHouseAt'')) (\<lambda>_.
    reads (frozenRecord (p ''odooMapping'') ''odooMapping'') (\<lambda>mapping.
    reads (frozenText (map_of mapping ''poNumber'') ''odooMapping.poNumber'') (\<lambda>poName.
    reads (frozenPositiveInteger (map_of mapping ''odooId'') ''odooMapping.odooId'') (\<lambda>_.
    reads (frozen_array (p ''lines'') ''lines'') (\<lambda>lines.
    reads (rihd_lines [] lines) (\<lambda>_.
    Inr [(''businessObjectId'', JStr poId), (''poVersion'', JNum (jint poVersion)), (''poId'', JStr poName),
      (''field'', JStr ''date_planned''), (''value'', JStr rihd), (''expectedLineCount'', JNum (jint (int (length lines))))]))))))))))"

text \<open>The head an amendment and a cancellation share: identifiers, version and mapping to the ERP.\<close>
definition frozen_amendment_head :: "ob_msg \<Rightarrow> (string \<times> string \<times> int \<times> int \<times> string) reading" where
  "frozen_amendment_head m = (let p = map_of (ob_payload m) in
    reads (frozenText (p ''amendmentId'') ''amendmentId'') (\<lambda>amendmentId.
    reads (frozenText (p ''poId'') ''poId'') (\<lambda>poId.
    reads (require_that (poId = ob_aggregateId m) (ConfigurationDispatchError ''aggregateId'')) (\<lambda>_.
    reads (frozenPositiveInteger (p ''sourcePoVersion'') ''sourcePoVersion'') (\<lambda>version.
    reads (frozenRecord (p ''odooMapping'') ''odooMapping'') (\<lambda>mapping.
    reads (frozenText (map_of mapping ''sourceSystem'') ''odooMapping.sourceSystem'') (\<lambda>source.
    reads (require_that (source = ''odoo'' \<or> source = ''readywork'') (ConfigurationDispatchError ''sourceSystem'')) (\<lambda>_.
    reads (frozenText (map_of mapping ''externalId'') ''odooMapping.externalId'') (\<lambda>_.
    reads (frozenPositiveInteger (map_of mapping ''odooId'') ''odooMapping.odooId'') (\<lambda>odooId.
    reads (frozenText (map_of mapping ''poNumber'') ''odooMapping.poNumber'') (\<lambda>poNumber.
    Inr (amendmentId, poId, version, odooId, poNumber))))))))))))"

definition frozen_tail :: "ob_msg \<Rightarrow> unit reading" where
  "frozen_tail m =
    reads (frozenText (map_of (ob_payload m) ''reason'') ''reason'') (\<lambda>_.
    reads (frozenText (map_of (ob_payload m) ''actorId'') ''actorId'') (\<lambda>_. Inr ()))"

definition patch_number :: "(jnum \<Rightarrow> bool) \<Rightarrow> json option \<Rightarrow> bool" where
  "patch_number bad v \<longleftrightarrow> v = Some JNull \<or> (case v of Some (JNum q) \<Rightarrow> is_finite q \<and> \<not> bad q | _ \<Rightarrow> False)"

definition patch_line :: "json \<Rightarrow> json reading" where
  "patch_line raw =
    reads (frozenRecord (Some raw) ''patch.lines'') (\<lambda>line.
    let v = map_of line in
    reads (frozenPositiveNumber (v ''quantity'') ''patch.quantity'') (\<lambda>quantity.
    reads (require_that (patch_number (\<lambda>q. jlt q (JFin 0)) (v ''unitPrice'')) (ConfigurationDispatchError ''patch.unitPrice'')) (\<lambda>_.
    reads (require_that (patch_number (\<lambda>q. jlt q (JFin 0) \<or> jlt (JFin 1) q) (v ''taxRate'')) (ConfigurationDispatchError ''patch.taxRate'')) (\<lambda>_.
    reads (frozenText (v ''id'') ''patch.id'') (\<lambda>i.
    reads (frozenText (v ''itemCode'') ''patch.itemCode'') (\<lambda>itemCode.
    reads (frozenText (v ''description'') ''patch.description'') (\<lambda>description.
    reads (frozenText (v ''unit'') ''patch.unit'') (\<lambda>unit.
    Inr (JObj [(''id'', JStr i), (''itemCode'', JStr itemCode), (''description'', JStr description), (''quantity'', JNum quantity),
      (''unit'', JStr unit), (''unitPrice'', the (v ''unitPrice'')), (''taxRate'', the (v ''taxRate''))])))))))))"

text \<open>One optional entry of a patch.\<close>
definition patch_entry :: "fields \<Rightarrow> string \<Rightarrow> (json option \<Rightarrow> json reading) \<Rightarrow> fields reading" where
  "patch_entry raw k f = (if map_of raw k = None then Inr [] else reads (f (map_of raw k)) (\<lambda>v. Inr [(k, v)]))"

definition patch_date_value :: "exec_env \<Rightarrow> json option \<Rightarrow> json reading" where
  "patch_date_value X v = reads (frozenText v ''patch.requiredInHouseAt'') (\<lambda>d.
     reads (require_that (xe_date X d \<noteq> None) (ConfigurationDispatchError ''patch.requiredInHouseAt'')) (\<lambda>_. Inr (JStr d)))"

definition frozenOdooPurchaseOrderAmendmentPatch :: "exec_env \<Rightarrow> json option \<Rightarrow> fields reading" where
  "frozenOdooPurchaseOrderAmendmentPatch X v =
    reads (frozenRecord v ''patch'') (\<lambda>raw.
    reads (require_that (list_all (\<lambda>kv. fst kv \<in> {''supplierId'', ''requiredInHouseAt'', ''materialType'', ''contactId'', ''lines''}) raw)
      (ConfigurationDispatchError ''patch field'')) (\<lambda>_.
    reads (require_that (raw \<noteq> []) (ConfigurationDispatchError ''patch'')) (\<lambda>_.
    reads (patch_entry raw ''supplierId'' (\<lambda>v. reads (frozenText v ''patch.supplierId'') (\<lambda>s. Inr (JStr s)))) (\<lambda>supplier.
    reads (patch_entry raw ''requiredInHouseAt'' (patch_date_value X)) (\<lambda>date.
    reads (patch_entry raw ''materialType'' (\<lambda>v. if v \<in> {Some (JStr ''direct''), Some (JStr ''indirect'')} then Inr (the v)
      else Inl (ConfigurationDispatchError ''patch.materialType''))) (\<lambda>material.
    reads (patch_entry raw ''contactId'' (\<lambda>v. if v = Some JNull then Inr JNull
      else reads (frozenText v ''patch.contactId'') (\<lambda>s. Inr (JStr s)))) (\<lambda>contact.
    reads (patch_entry raw ''lines'' (\<lambda>v. reads (frozen_array v ''patch.lines'') (\<lambda>ls. reads (reads_all patch_line ls) (\<lambda>ls. Inr (JArr ls))))) (\<lambda>lines.
    Inr (supplier @ date @ material @ contact @ lines)))))))))"

definition frozenOdooPurchaseOrderAmendment :: "exec_env \<Rightarrow> ob_msg \<Rightarrow> fields reading" where
  "frozenOdooPurchaseOrderAmendment X m =
    reads (frozen_amendment_head m) (\<lambda>(amendmentId, poId, version, odooId, poNumber).
    reads (frozenOdooPurchaseOrderAmendmentPatch X (map_of (ob_payload m) ''patch'')) (\<lambda>patch.
    reads (frozen_tail m) (\<lambda>_.
    Inr [(''amendmentId'', JStr amendmentId), (''poId'', JStr poId), (''sourcePoVersion'', JNum (jint version)),
      (''odooId'', JNum (jint odooId)), (''poNumber'', JStr poNumber), (''patch'', JObj patch)])))"

definition frozenOdooPurchaseOrderCancellation :: "ob_msg \<Rightarrow> fields reading" where
  "frozenOdooPurchaseOrderCancellation m =
    reads (frozen_amendment_head m) (\<lambda>(amendmentId, poId, version, odooId, poNumber).
    reads (frozen_tail m) (\<lambda>_.
    Inr [(''amendmentId'', JStr amendmentId), (''poId'', JStr poId), (''sourcePoVersion'', JNum (jint version)),
      (''odooId'', JNum (jint odooId)), (''poNumber'', JStr poNumber)]))"

subsection \<open>The input of the ERP client\<close>

definition is_digit :: "char \<Rightarrow> bool" where
  "is_digit c \<longleftrightarrow> CHR ''0'' \<le> c \<and> c \<le> CHR ''9''"

definition partner_ok :: "json option \<Rightarrow> bool" where
  "partner_ok v \<longleftrightarrow> positive_int v \<noteq> None \<or>
     (case v of Some (JStr s) \<Rightarrow> starts_with s ''odoo-'' \<and> drop 5 s \<noteq> [] \<and> list_all is_digit (drop 5 s) | _ \<Rightarrow> False)"

definition given_text :: "fields \<Rightarrow> string \<Rightarrow> fields" where
  "given_text r k = (if trimmed r k = [] then [] else [(k, JStr (trimmed r k))])"

definition draft_input_line :: "(json \<Rightarrow> jnum) \<Rightarrow> json \<Rightarrow> json reading" where
  "draft_input_line num raw =
    reads (frozenRecord (Some raw) ''lines'') (\<lambda>line.
    let quantity = number_of num (map_of line ''quantity''); priceUnit = number_of num (map_of line ''priceUnit'') in
    reads (require_that (is_finite quantity \<and> jlt (JFin 0) quantity \<and> is_finite priceUnit \<and> \<not> jlt priceUnit (JFin 0))
      (ConfigurationDispatchError ''lines'')) (\<lambda>_.
    reads (frozenText (map_of line ''itemCode'') ''itemCode'') (\<lambda>itemCode.
    Inr (JObj ([(''itemCode'', JStr itemCode), (''quantity'', JNum quantity), (''priceUnit'', JNum priceUnit)] @
      given_text line ''description'' @ given_text line ''datePlanned'')))))"

definition odooDraftInput :: "(json \<Rightarrow> jnum) \<Rightarrow> fields \<Rightarrow> fields reading" where
  "odooDraftInput num r =
    reads (frozenText (map_of r ''correlationKey'') ''correlationKey'') (\<lambda>key.
    reads (require_that (partner_ok (map_of r ''partnerId'')) (ConfigurationDispatchError ''partnerId'')) (\<lambda>_.
    reads (frozenText (map_of r ''currencyCode'') ''currencyCode'') (\<lambda>currency.
    reads (frozen_array (map_of r ''lines'') ''lines'') (\<lambda>raw.
    reads (reads_all (draft_input_line num) raw) (\<lambda>lines.
    Inr [(''correlationKey'', JStr key), (''partnerId'', the (map_of r ''partnerId'')), (''currencyCode'', JStr currency),
      (''lines'', JArr lines)])))))"

definition one_of :: "string list \<Rightarrow> json option \<Rightarrow> bool" where
  "one_of vs v \<longleftrightarrow> (case v of None \<Rightarrow> True | Some (JStr s) \<Rightarrow> s \<in> set vs | _ \<Rightarrow> False)"

definition odooInvoiceUpdate :: "fields \<Rightarrow> fields reading" where
  "odooInvoiceUpdate r =
    reads (require_that (one_of [''exact_match'', ''within_tolerance'', ''approval_required'', ''severe_exception''] (map_of r ''matchResult''))
      (ConfigurationDispatchError ''matchResult'')) (\<lambda>_.
    reads (require_that (one_of [''pending'', ''approved'', ''rejected''] (map_of r ''approvalStatus'')) (ConfigurationDispatchError ''approvalStatus'')) (\<lambda>_.
    reads (require_that (one_of [''payable'', ''hold'', ''not_payable''] (map_of r ''payableStatus'')) (ConfigurationDispatchError ''payableStatus'')) (\<lambda>_.
    reads (require_that (case map_of r ''holdReason'' of None \<Rightarrow> True | Some (JStr s) \<Rightarrow> trim s \<noteq> [] \<and> length s \<le> 500 | _ \<Rightarrow> False)
      (ConfigurationDispatchError ''holdReason'')) (\<lambda>_.
    let update = concat (map (\<lambda>k. case map_of r k of None \<Rightarrow> [] | Some v \<Rightarrow> [(k, v)])
          [''matchResult'', ''approvalStatus'', ''payableStatus'', ''holdReason'']) in
    reads (require_that (update \<noteq> []) (ConfigurationDispatchError ''invoice.update'')) (\<lambda>_. Inr update)))))"

definition odooPurchaseOrderAmendmentInput :: "exec_env \<Rightarrow> fields \<Rightarrow> (string \<times> int \<times> fields) reading" where
  "odooPurchaseOrderAmendmentInput X r =
    reads (frozenText (map_of r ''poNumber'') ''poNumber'') (\<lambda>poNumber.
    reads (frozenPositiveInteger (map_of r ''odooId'') ''odooId'') (\<lambda>odooId.
    reads (frozenOdooPurchaseOrderAmendmentPatch X (map_of r ''patch'')) (\<lambda>patch. Inr (poNumber, odooId, patch))))"

definition odooPurchaseOrderCancellationInput :: "fields \<Rightarrow> (string \<times> int) reading" where
  "odooPurchaseOrderCancellationInput r =
    reads (frozenText (map_of r ''poNumber'') ''poNumber'') (\<lambda>poNumber.
    reads (frozenPositiveInteger (map_of r ''odooId'') ''odooId'') (\<lambda>odooId. Inr (poNumber, odooId)))"

subsection \<open>The receipts of the ERP\<close>

text \<open>\<open>/^(\d{4}-\d{2}-\d{2})(?:[T\s]|$)/\<close>\<close>
definition calendar_date :: "string \<Rightarrow> bool" where
  "calendar_date s \<longleftrightarrow> 10 \<le> length s \<and> list_all (\<lambda>i. is_digit (s ! i)) [0, 1, 2, 3, 5, 6, 8, 9] \<and> s ! 4 = CHR ''-'' \<and> s ! 7 = CHR ''-'' \<and>
     (length s = 10 \<or> s ! 10 = CHR ''T'' \<or> is_space (s ! 10))"

definition dateOnly :: "exec_env \<Rightarrow> string \<Rightarrow> string reading" where
  "dateOnly X v = (if calendar_date (trim v) then Inr (take 10 (trim v))
     else case xe_date X v of None \<Rightarrow> Inl (OtherError ''Odoo RIHD date'') | Some t \<Rightarrow> Inr (take 10 (pe_iso (xe_proj X) t)))"

text \<open>Whether a line read back from the ERP is planned for the expected day.\<close>
definition same_day :: "exec_env \<Rightarrow> string \<Rightarrow> json \<Rightarrow> bool reading" where
  "same_day X expected raw =
    reads (frozenRecord (Some raw) ''connectorResult.po.lines'') (\<lambda>line.
    reads (frozenText (nullish (map_of line ''datePlanned'') (map_of line ''date_planned'')) ''datePlanned'') (\<lambda>planned.
    reads (dateOnly X planned) (\<lambda>d. reads (dateOnly X expected) (\<lambda>e. Inr (d = e)))))"

definition credential_of :: "fields \<Rightarrow> fields" where
  "credential_of output = (if is_truthy (map_of output ''credential'') then [(''credential'', the (map_of output ''credential''))] else [])"

definition receipt_text :: "int \<Rightarrow> string" where
  "receipt_text odooId = ''purchase.order:'' @ nat_str (nat odooId)"

definition amendment_readback :: "exec_env \<Rightarrow> fields \<Rightarrow> fields \<Rightarrow> fields \<Rightarrow> bool reading" where
  "amendment_readback X patch po output =
    (if map_of patch ''requiredInHouseAt'' = None then Inr False
     else
      reads (frozenText (map_of patch ''requiredInHouseAt'') ''patch.requiredInHouseAt'') (\<lambda>expected.
      reads (frozenRecord (map_of output ''write'') ''connectorResult.write'') (\<lambda>written.
      reads (frozenPositiveInteger (nullish (map_of written ''updated'') (map_of written ''lines'')) ''connectorResult.write.updated'') (\<lambda>updated.
      case map_of po ''lines'' of
        Some (JArr ls) \<Rightarrow> if ls = [] \<or> updated \<noteq> int (length ls) then Inr False
          else reads (reads_all (same_day X expected) ls) (\<lambda>oks. Inr (length patch = 1 \<and> list_all id oks))
      | _ \<Rightarrow> Inr False))))"

definition normalizeOdooPurchaseOrderAmendmentResult :: "exec_env \<Rightarrow> fields option \<Rightarrow> fields \<Rightarrow> fields reading" where
  "normalizeOdooPurchaseOrderAmendmentResult X result r = (case result of
     None \<Rightarrow> Inl (OtherError ''Odoo amendment'')
   | Some output \<Rightarrow>
      reads (frozenText (map_of r ''poNumber'') ''poNumber'') (\<lambda>expectedPoName.
      reads (frozenPositiveInteger (map_of r ''odooId'') ''odooId'') (\<lambda>expectedOdooId.
      reads (frozenOdooPurchaseOrderAmendmentPatch X (map_of r ''patch'')) (\<lambda>patch.
      reads (frozenRecord (map_of output ''po'') ''connectorResult.po'') (\<lambda>po.
      reads (frozenPositiveInteger (map_of po ''id'') ''connectorResult.po.id'') (\<lambda>i.
      reads (require_that (i = expectedOdooId) (OtherError ''Odoo amendment'')) (\<lambda>_.
      reads (frozenText (map_of po ''name'') ''connectorResult.po.name'') (\<lambda>name.
      reads (require_that (name = expectedPoName) (OtherError ''Odoo amendment'')) (\<lambda>_.
      reads (amendment_readback X patch po output) (\<lambda>ok.
      Inr ([(''po_name'', JStr expectedPoName), (''readbackMatches'', JBool ok), (''receiptReference'', JStr (receipt_text expectedOdooId))] @
        credential_of output)))))))))))"

definition normalizeOdooPurchaseOrderCancellationResult :: "fields option \<Rightarrow> fields \<Rightarrow> fields reading" where
  "normalizeOdooPurchaseOrderCancellationResult result r = (case result of
     None \<Rightarrow> Inl (OtherError ''Odoo cancellation'')
   | Some output \<Rightarrow>
      reads (frozenText (map_of r ''poNumber'') ''poNumber'') (\<lambda>expectedPoName.
      reads (frozenPositiveInteger (map_of r ''odooId'') ''odooId'') (\<lambda>expectedOdooId.
      reads (frozenPositiveInteger (map_of output ''id'') ''connectorResult.id'') (\<lambda>i.
      reads (frozenText (map_of output ''name'') ''connectorResult.name'') (\<lambda>name.
      reads (frozenText (map_of output ''state'') ''connectorResult.state'') (\<lambda>state.
      reads (require_that (i = expectedOdooId \<and> name = expectedPoName) (OtherError ''Odoo cancellation'')) (\<lambda>_.
      Inr ([(''po_name'', JStr expectedPoName), (''readbackMatches'', JBool (state = ''cancel'')),
        (''receiptReference'', JStr (receipt_text expectedOdooId))] @ credential_of output))))))))"

text \<open>\<open>new Date(Date.parse(d)).toISOString()\<close>\<close>
definition iso_of :: "exec_env \<Rightarrow> string \<Rightarrow> string reading" where
  "iso_of X d = (case xe_date X d of None \<Rightarrow> Inl (OtherError ''Invalid time value'') | Some t \<Rightarrow> Inr (pe_iso (xe_proj X) t))"

definition rihd_receipt :: "exec_env \<Rightarrow> string \<Rightarrow> string \<Rightarrow> int \<Rightarrow> int \<Rightarrow> fields \<Rightarrow> fields reading" where
  "rihd_receipt X poName expectedDate updated verified output = reads (iso_of X expectedDate) (\<lambda>d.
     Inr ([(''po_name'', JStr poName), (''required_in_house_at'', JStr d), (''updated_lines'', JNum (jint updated)),
       (''verified_lines'', JNum (jint verified))] @ credential_of output))"

text \<open>The receipt of a write that has already been verified.\<close>
definition rihd_verified :: "exec_env \<Rightarrow> string \<Rightarrow> string \<Rightarrow> int \<Rightarrow> fields \<Rightarrow> fields reading" where
  "rihd_verified X expectedPoName expectedDate expectedLineCount output =
    reads (frozenText (map_of output ''po_name'') ''connectorResult.po_name'') (\<lambda>poName.
    reads (frozenText (map_of output ''required_in_house_at'') ''connectorResult.required_in_house_at'') (\<lambda>rihd.
    reads (frozenPositiveInteger (map_of output ''updated_lines'') ''connectorResult.updated_lines'') (\<lambda>updated.
    reads (frozenPositiveInteger (map_of output ''verified_lines'') ''connectorResult.verified_lines'') (\<lambda>verified.
    reads (require_that (poName = expectedPoName) (OtherError ''Odoo RIHD'')) (\<lambda>_.
    reads (dateOnly X rihd) (\<lambda>d. reads (dateOnly X expectedDate) (\<lambda>e.
    reads (require_that (d = e \<and> updated = expectedLineCount \<and> verified = expectedLineCount) (OtherError ''Odoo RIHD'')) (\<lambda>_.
    rihd_receipt X poName expectedDate updated verified output))))))))"

text \<open>The order read back after the write: every line has to be planned for the expected day.\<close>
definition rihd_readback :: "exec_env \<Rightarrow> string \<Rightarrow> string \<Rightarrow> int \<Rightarrow> fields \<Rightarrow> fields reading" where
  "rihd_readback X expectedPoName expectedDate expectedLineCount output =
    reads (frozenRecord (map_of output ''po'') ''connectorResult.po'') (\<lambda>po.
    reads (frozenRecord (map_of output ''write'') ''connectorResult.write'') (\<lambda>written.
    reads (frozenText (map_of po ''name'') ''connectorResult.po.name'') (\<lambda>poName.
    reads (frozenPositiveInteger (nullish (map_of written ''updated'') (map_of written ''lines'')) ''connectorResult.write.updated'') (\<lambda>updated.
    case map_of po ''lines'' of
      Some (JArr ls) \<Rightarrow>
        if poName \<noteq> expectedPoName \<or> int (length ls) \<noteq> expectedLineCount \<or> updated \<noteq> expectedLineCount then Inl (OtherError ''Odoo RIHD'')
        else reads (reads_all (\<lambda>raw. reads (same_day X expectedDate raw) (\<lambda>ok. require_that ok (OtherError ''Odoo RIHD line''))) ls) (\<lambda>_.
          rihd_receipt X poName expectedDate updated (int (length ls)) output)
    | _ \<Rightarrow> Inl (OtherError ''Odoo RIHD'')))))"

definition normalizeOdooRihdResult :: "exec_env \<Rightarrow> fields option \<Rightarrow> fields \<Rightarrow> fields reading" where
  "normalizeOdooRihdResult X result r = (case result of
     None \<Rightarrow> Inl (OtherError ''Odoo RIHD'')
   | Some output \<Rightarrow>
      reads (frozenText (map_of r ''poId'') ''poId'') (\<lambda>expectedPoName.
      reads (frozenText (map_of r ''value'') ''value'') (\<lambda>expectedDate.
      reads (frozenPositiveInteger (map_of r ''expectedLineCount'') ''expectedLineCount'') (\<lambda>expectedLineCount.
      (case map_of output ''po_name'' of
         Some (JStr _) \<Rightarrow> rihd_verified X expectedPoName expectedDate expectedLineCount output
       | _ \<Rightarrow> rihd_readback X expectedPoName expectedDate expectedLineCount output)))))"

definition validateOdooDraftResult :: "fields option \<Rightarrow> fields \<Rightarrow> unit reading" where
  "validateOdooDraftResult result r = (case result of
     None \<Rightarrow> Inl (ConfigurationDispatchError ''connectorResult'')
   | Some output \<Rightarrow>
      reads (frozenPositiveInteger (map_of output ''id'') ''connectorResult.id'') (\<lambda>_.
      reads (frozenText (map_of output ''name'') ''connectorResult.name'') (\<lambda>_.
      reads (require_that (map_of output ''state'' = Some (JStr ''draft'')) (ConfigurationDispatchError ''connectorResult.state'')) (\<lambda>_.
      reads (require_that (map_of output ''correlationKey'' = map_of r ''correlationKey'') (ConfigurationDispatchError ''connectorResult.correlationKey'')) (\<lambda>_.
      require_that (case map_of output ''replayed'' of Some (JBool _) \<Rightarrow> True | _ \<Rightarrow> False) (ConfigurationDispatchError ''connectorResult.replayed''))))))"

subsection \<open>Reading what has been read\<close>

lemma frozenText_again: "frozenText v f = Inr s \<Longrightarrow> frozenText (Some (JStr s)) g = Inr s"
  by (auto simp: frozenText_def trim_trim split: option.splits json.splits if_splits)

lemma frozenText_trimmed: "frozenText v f = Inr s \<Longrightarrow> trim s = s \<and> s \<noteq> []"
  by (auto simp: frozenText_def trim_trim split: option.splits json.splits if_splits)

lemma frozenPositiveNumber_again: "frozenPositiveNumber v f = Inr q \<Longrightarrow> frozenPositiveNumber (Some (JNum q)) g = Inr q"
  by (auto simp: frozenPositiveNumber_def split: option.splits json.splits if_splits)

lemma patch_number_some: "patch_number bad v \<Longrightarrow> \<exists>j. v = Some j"
  by (cases v) (auto simp: patch_number_def)

lemma patch_line_again:
  assumes "patch_line raw = Inr l"
  shows "patch_line l = Inr l"
proof -
  obtain line q i c d u where r: "frozenPositiveNumber (map_of line ''quantity'') ''patch.quantity'' = Inr q"
      "patch_number (\<lambda>q. jlt q (JFin 0)) (map_of line ''unitPrice'')"
      "patch_number (\<lambda>q. jlt q (JFin 0) \<or> jlt (JFin 1) q) (map_of line ''taxRate'')"
      "frozenText (map_of line ''id'') ''patch.id'' = Inr i" "frozenText (map_of line ''itemCode'') ''patch.itemCode'' = Inr c"
      "frozenText (map_of line ''description'') ''patch.description'' = Inr d" "frozenText (map_of line ''unit'') ''patch.unit'' = Inr u"
    and l: "l = JObj [(''id'', JStr i), (''itemCode'', JStr c), (''description'', JStr d), (''quantity'', JNum q),
      (''unit'', JStr u), (''unitPrice'', the (map_of line ''unitPrice'')), (''taxRate'', the (map_of line ''taxRate''))]"
    using assms by (auto simp: patch_line_def Let_def reads_ok)
  obtain up tr where n: "map_of line ''unitPrice'' = Some up" "map_of line ''taxRate'' = Some tr"
    using patch_number_some[OF r(2)] patch_number_some[OF r(3)] by blast
  show ?thesis unfolding l
    using r(2,3) frozenPositiveNumber_again[OF r(1), of "''patch.quantity''"] frozenText_again[OF r(4), of "''patch.id''"]
      frozenText_again[OF r(5), of "''patch.itemCode''"] frozenText_again[OF r(6), of "''patch.description''"]
      frozenText_again[OF r(7), of "''patch.unit''"]
    by (simp add: patch_line_def frozenRecord_def Let_def n require_that_def)
qed

lemma patch_lines_again: "reads_all patch_line raw = Inr ls \<Longrightarrow> reads_all patch_line ls = Inr ls"
  unfolding reads_all_ok by (induction raw ls rule: list_all2_induct) (auto intro: patch_line_again)

lemma patch_entry_cases:
  assumes "patch_entry raw k f = Inr es"
  obtains "map_of raw k = None" "es = []" | j v where "map_of raw k = Some j" "f (Some j) = Inr v" "es = [(k, v)]"
  using assms by (cases "map_of raw k") (auto simp: patch_entry_def reads_ok)

lemma patch_entry_again:
  assumes "patch_entry raw k f = Inr es" "map_of p k = map_of es k" "\<And>j v. f (Some j) = Inr v \<Longrightarrow> f (Some v) = Inr v"
  shows "patch_entry p k f = Inr es"
  using assms(1)
proof (cases rule: patch_entry_cases)
  case 1
  then show ?thesis using assms(2) by (simp add: patch_entry_def)
next
  case (2 j v)
  then show ?thesis using assms(2) assms(3)[OF 2(2)] by (simp add: patch_entry_def)
qed

lemma patch_entry_keys: "patch_entry raw k f = Inr es \<Longrightarrow> es = [] \<or> (\<exists>v. es = [(k, v)])"
  by (erule patch_entry_cases) auto

text \<open>A patch that has been read is read again as itself.\<close>
lemma frozen_patch_again:
  assumes "frozenOdooPurchaseOrderAmendmentPatch X v = Inr p"
  shows "frozenOdooPurchaseOrderAmendmentPatch X (Some (JObj p)) = Inr p"
proof -
  let ?supplier = "\<lambda>v. reads (frozenText v ''patch.supplierId'') (\<lambda>s. Inr (JStr s))"
  let ?material = "\<lambda>v. if v \<in> {Some (JStr ''direct''), Some (JStr ''indirect'')} then Inr (the v)
      else Inl (ConfigurationDispatchError ''patch.materialType'')"
  let ?contact = "\<lambda>v. if v = Some JNull then Inr JNull else reads (frozenText v ''patch.contactId'') (\<lambda>s. Inr (JStr s))"
  let ?lines = "\<lambda>v. reads (frozen_array v ''patch.lines'') (\<lambda>ls. reads (reads_all patch_line ls) (\<lambda>ls. Inr (JArr ls)))"
  obtain raw s d m c l where
      keys: "list_all (\<lambda>kv. fst kv \<in> {''supplierId'', ''requiredInHouseAt'', ''materialType'', ''contactId'', ''lines''}) raw" "raw \<noteq> []"
    and e: "patch_entry raw ''supplierId'' ?supplier = Inr s" "patch_entry raw ''requiredInHouseAt'' (patch_date_value X) = Inr d"
      "patch_entry raw ''materialType'' ?material = Inr m" "patch_entry raw ''contactId'' ?contact = Inr c"
      "patch_entry raw ''lines'' ?lines = Inr l"
    and p: "p = s @ d @ m @ c @ l"
    using assms unfolding frozenOdooPurchaseOrderAmendmentPatch_def by (auto simp: reads_ok simp del: insert_iff)
  note k = e[THEN patch_entry_keys]
  have some: "p \<noteq> []"
  proof
    assume "p = []"
    then have none: "map_of raw ''supplierId'' = None" "map_of raw ''requiredInHouseAt'' = None" "map_of raw ''materialType'' = None"
        "map_of raw ''contactId'' = None" "map_of raw ''lines'' = None"
      using e unfolding p by (auto elim!: patch_entry_cases)
    obtain q j qs where q: "raw = (q, j) # qs" using keys(2) by (cases raw) auto
    then show False using keys(1) none by auto
  qed
  have again: "patch_entry p ''supplierId'' ?supplier = Inr s" "patch_entry p ''requiredInHouseAt'' (patch_date_value X) = Inr d"
      "patch_entry p ''materialType'' ?material = Inr m" "patch_entry p ''contactId'' ?contact = Inr c" "patch_entry p ''lines'' ?lines = Inr l"
  proof -
    show "patch_entry p ''supplierId'' ?supplier = Inr s"
      by (rule patch_entry_again[OF e(1)]) (use k in \<open>auto simp: p reads_ok dest: frozenText_again\<close>)
    show "patch_entry p ''requiredInHouseAt'' (patch_date_value X) = Inr d"
      by (rule patch_entry_again[OF e(2)]) (use k in \<open>auto simp: p reads_ok patch_date_value_def dest: frozenText_again\<close>)
    show "patch_entry p ''materialType'' ?material = Inr m"
      by (rule patch_entry_again[OF e(3)]) (use k in \<open>auto simp: p split: if_splits\<close>)
    show "patch_entry p ''contactId'' ?contact = Inr c"
      by (rule patch_entry_again[OF e(4)]) (use k in \<open>auto simp: p reads_ok split: if_splits dest: frozenText_again\<close>)
    have arr: "?lines (Some v) = Inr v" if "?lines (Some j) = Inr v" for j v
    proof -
      obtain xs ls where x: "frozen_array (Some j) ''patch.lines'' = Inr xs" "reads_all patch_line xs = Inr ls" "v = JArr ls"
        using \<open>?lines (Some j) = Inr v\<close> by (auto simp: reads_ok)
      have "xs \<noteq> []" using x(1) by (auto simp: frozen_array_def split: json.splits list.splits)
      then obtain y ys where "ls = y # ys" using reads_all_length[OF x(2)] by (cases ls) auto
      then show ?thesis using patch_lines_again[OF x(2)] x(3) by (simp add: frozen_array_def)
    qed
    show "patch_entry p ''lines'' ?lines = Inr l"
      by (rule patch_entry_again[OF e(5) _ arr]) (use k in \<open>auto simp: p\<close>)
  qed
  have "list_all (\<lambda>kv. fst kv \<in> {''supplierId'', ''requiredInHouseAt'', ''materialType'', ''contactId'', ''lines''}) p"
    using k by (auto simp: p)
  then show ?thesis
    unfolding frozenOdooPurchaseOrderAmendmentPatch_def
    using some again by (simp add: frozenRecord_def require_that_def p[symmetric] del: insert_iff)
qed

subsection \<open>What a matching readback says\<close>

lemma patch_date_only:
  assumes "frozenOdooPurchaseOrderAmendmentPatch X v = Inr p" "map_of p ''requiredInHouseAt'' \<noteq> None" "length p = 1"
  shows "\<exists>d. p = [(''requiredInHouseAt'', JStr d)] \<and> trim d = d \<and> d \<noteq> []"
proof -
  obtain j where j: "p = [(''requiredInHouseAt'', j)]" using assms(2,3) by (cases p) (auto split: if_splits)
  have "frozenOdooPurchaseOrderAmendmentPatch X (Some (JObj p)) = Inr p" by (rule frozen_patch_again[OF assms(1)])
  then obtain d where "frozenText (Some j) ''patch.requiredInHouseAt'' = Inr d" "j = JStr d"
    unfolding j by (auto simp: frozenOdooPurchaseOrderAmendmentPatch_def patch_entry_def patch_date_value_def reads_ok frozenRecord_def)
  then show ?thesis using frozenText_trimmed j by blast
qed

lemma readback_true:
  assumes "normalizeOdooPurchaseOrderAmendmentResult X (Some output) r = Inr out" "map_of out ''readbackMatches'' = Some (JBool True)"
  obtains po d ls where "map_of output ''po'' = Some (JObj po)"
    "frozenOdooPurchaseOrderAmendmentPatch X (map_of r ''patch'') = Inr [(''requiredInHouseAt'', JStr d)]"
    "map_of po ''lines'' = Some (JArr ls)" "ls \<noteq> []" "list_all (\<lambda>l. same_day X d l = Inr True) ls"
proof -
  obtain patch po where f: "frozenOdooPurchaseOrderAmendmentPatch X (map_of r ''patch'') = Inr patch"
      "frozenRecord (map_of output ''po'') ''connectorResult.po'' = Inr po" "amendment_readback X patch po output = Inr True"
    using assms by (auto simp: normalizeOdooPurchaseOrderAmendmentResult_def reads_ok)
  have po: "map_of output ''po'' = Some (JObj po)"
    using f(2) by (auto simp: frozenRecord_def split: option.splits json.splits)
  have some: "map_of patch ''requiredInHouseAt'' \<noteq> None"
    using f(3) by (cases "map_of patch ''requiredInHouseAt''") (simp_all add: amendment_readback_def)
  obtain e updated where e: "frozenText (map_of patch ''requiredInHouseAt'') ''patch.requiredInHouseAt'' = Inr e"
    "(case map_of po ''lines'' of
        Some (JArr ls) \<Rightarrow> if ls = [] \<or> updated \<noteq> int (length ls) then Inr False
          else reads (reads_all (same_day X e) ls) (\<lambda>oks. Inr (length patch = 1 \<and> list_all id oks))
      | _ \<Rightarrow> Inr False) = Inr True"
    using f(3) some unfolding amendment_readback_def by (auto simp: reads_ok simp del: not_None_eq)
  obtain ls where ls: "map_of po ''lines'' = Some (JArr ls)"
    using e(2) by (cases "map_of po ''lines''") (simp_all split: json.splits)
  have ne: "ls \<noteq> []" "reads (reads_all (same_day X e) ls) (\<lambda>oks. Inr (length patch = 1 \<and> list_all id oks)) = Inr True"
    using e(2) unfolding ls by (simp_all split: if_splits)
  then obtain oks where oks: "reads_all (same_day X e) ls = Inr oks" "length patch = 1" "list_all id oks" by (auto simp: reads_ok)
  obtain d where d: "patch = [(''requiredInHouseAt'', JStr d)]" "trim d = d" "d \<noteq> []" using patch_date_only[OF f(1) some oks(2)] by blast
  have "e = d" using e(1) d by (simp add: frozenText_def)
  have "list_all (\<lambda>l. same_day X d l = Inr True) ls"
    using oks(1,3) unfolding reads_all_ok \<open>e = d\<close> by (induction ls oks rule: list_all2_induct) auto
  then show thesis using that[OF po _ ls ne(1)] f(1) d(1) by simp
qed

lemma cancellation_true:
  assumes "normalizeOdooPurchaseOrderCancellationResult (Some output) r = Inr out" "map_of out ''readbackMatches'' = Some (JBool True)"
  shows "frozenText (map_of output ''state'') ''connectorResult.state'' = Inr ''cancel''"
  using assms by (auto simp: normalizeOdooPurchaseOrderCancellationResult_def reads_ok)

end
