(* ===== verification/Execution.thy ===== *)
theory Execution
  imports Fulfilment
begin

text \<open>
  The execution mutation of procurement (\<open>executeProcurementMutation\<close> of
  \<open>packages/persistence/src/index.ts\<close>): the checks of the input, the permission each action needs, the
  replay of a repeated request and the transaction around the handler; and the runs that mix
  mutations of any kind with the operations of the outbox workers.
\<close>

subsection \<open>The mutation\<close>

definition is_approval_action :: "string \<Rightarrow> bool" where
  "is_approval_action a \<longleftrightarrow> a \<in> {''decide_confirmation'', ''decide_ap'', ''create_odoo_po_draft'', ''update_rihd'',
     ''record_production_progress'', ''record_shipment'', ''record_transport_event'', ''record_receipt''}"

definition is_supplier_email_action :: "mutation_input \<Rightarrow> bool" where
  "is_supplier_email_action r \<longleftrightarrow> xi_evidenceSource r = Some ''supplier_email_ai'' \<and>
     xi_action r \<in> {''record_production_progress'', ''record_shipment''}"

definition permission_check :: "mutation_input \<Rightarrow> (exec_fault, unit) result" where
  "permission_check r =
    (if xi_action r = ''cancel_po'' \<and> xi_permission r \<noteq> ''operate_and_approve'' then Inl (XPermission ''operate_and_approve'')
     else if is_approval_action (xi_action r) \<and> is_supplier_email_action r \<and> xi_permission r \<noteq> ''operate'' then Inl (XPermission ''operate'')
     else if is_approval_action (xi_action r) \<and> \<not> is_supplier_email_action r \<and> xi_permission r \<noteq> ''approve'' then Inl (XPermission ''approve'')
     else if \<not> is_approval_action (xi_action r) \<and> xi_permission r \<notin> {''operate'', ''approve'', ''operate_and_approve''}
     then Inl (XPermission ''operate'') else Inr ())"

definition input_check :: "mutation_input \<Rightarrow> (exec_fault, unit) result" where
  "input_check r =
    (case all_right [need_text (xi_idempotencyKey r) ''idempotencyKey'', need_text (xi_payloadHash r) ''payloadHash'',
        need_text (xi_actorId r) ''actorId'', need_text (xi_aggregateId r) ''aggregateId''] of
       Inl e \<Rightarrow> Inl e
     | Inr _ \<Rightarrow>
        if xi_expectedVersion r \<le> 0 \<or> 9007199254740991 < xi_expectedVersion r then Inl (XInvalid ''expectedVersion'')
        else if xi_shortfall r \<notin> {None, Some ''cancel_remainder''} then Inl (XInvalid ''shortfallDisposition'')
        else if xi_shortfall r \<noteq> None \<and> (xi_action r \<noteq> ''decide_confirmation'' \<or> xi_decision r \<noteq> Some ''approved'')
        then Inl (XInvalid ''shortfallDisposition'')
        else (case xi_missingFields r of
            None \<Rightarrow> Inr ()
          | Some fs \<Rightarrow> (case requireConfirmationMissingFields fs of
              Inl e \<Rightarrow> Inl e
            | Inr _ \<Rightarrow> check (xi_action r = ''queue_followup'' \<and> given (xi_supplierReference r) \<noteq> []) (XInvalid ''confirmationMissingFields''))))"

definition execute_action :: "exec_env \<Rightarrow> (nat \<Rightarrow> string) \<Rightarrow> mutation_input \<Rightarrow> instant \<Rightarrow> exec_db \<Rightarrow> mutation_result exec_tx" where
  "execute_action X us r t x =
    (let a = xi_action r in
     if a = ''send_rfq'' then executeSendRfq X us r t x
     else if a = ''send_po'' then executeSendPo X us r t x
     else if a = ''edit_po'' then executeEditPurchaseOrder X us r t x
     else if a = ''cancel_po'' then executeCancelPurchaseOrder X us r t x
     else if a = ''duplicate_po'' then executeDuplicatePurchaseOrder X us r t x
     else if a = ''create_odoo_po_draft'' then executeCreateOdooPoDraft X us r t x
     else if a = ''queue_followup'' then executeQueueFollowup X us r t x
     else if a = ''update_rihd'' then executeUpdateRihd X us r t x
     else if a = ''mark_at_risk'' then executeMarkAtRisk X us r t x
     else if a = ''record_confirmation'' then executeRecordConfirmation X us r t x
     else if a = ''decide_confirmation'' then executeDecideConfirmation X us r t x
     else if a = ''record_production_progress'' then executeRecordProductionProgress X us r t x
     else if a = ''record_shipment'' then executeRecordShipment X us r t x
     else if a = ''record_transport_event'' then executeRecordTransportEvent X us r t x
     else if a = ''record_receipt'' then executeRecordReceipt X us r t x
     else if a = ''record_invoice'' then executeRecordInvoice X us r t x
     else if a = ''match_invoice'' then executeMatchInvoice X us r t x
     else if a = ''decide_ap'' then executeDecideAp X us r t x
     else (Inl (XInvalid ''action''), x))"

text \<open>The handler and the record of its reply, in one transaction.\<close>
definition perform :: "exec_env \<Rightarrow> (nat \<Rightarrow> string) \<Rightarrow> mutation_input \<Rightarrow> instant \<Rightarrow> exec_db \<Rightarrow> mutation_result exec_tx" where
  "perform X us r t x = atomic x (bind_tx (execute_action X us r t x) (\<lambda>res x.
     (Inr res, x\<lparr>xd_replies := xd_replies x @ [((xi_action r, xi_idempotencyKey r), xi_payloadHash r, res)]\<rparr>)))"

definition executeProcurementMutation :: "exec_env \<Rightarrow> (nat \<Rightarrow> string) \<Rightarrow> mutation_input \<Rightarrow> exec_db \<Rightarrow> mutation_result exec_tx" where
  "executeProcurementMutation X us r x =
    with_value (input_check r) (\<lambda>_. with_value (need_date X (xi_occurredAt r) ''occurredAt'') (\<lambda>t.
    with_value (permission_check r) (\<lambda>_ x.
    case map_of (xd_replies x) (xi_action r, xi_idempotencyKey r) of
      Some (h, res) \<Rightarrow> if h \<noteq> xi_payloadHash r then (Inl (XKeyReused (xi_action r) (xi_idempotencyKey r)), x)
        else (Inr (res\<lparr>xr_replayed := True\<rparr>), x)
    | None \<Rightarrow> perform X us r t x))) x"

subsection \<open>Runs\<close>

datatype exec_op =
    Mutate "nat \<Rightarrow> string" mutation_input
  | Requeue string instant "int option"
  | ClaimOutbox string instant int "int option" "channel option" "nat \<Rightarrow> string"
  | CompleteOutbox "nat \<Rightarrow> string" completion
  | FailOutbox "nat \<Rightarrow> string" failing

definition exec_op_run :: "exec_env \<Rightarrow> exec_op \<Rightarrow> exec_db \<Rightarrow> exec_db" where
  "exec_op_run X op x = (case op of
     Mutate us r \<Rightarrow> snd (executeProcurementMutation X us r x)
   | Requeue c t n \<Rightarrow> snd (requeueBlockedOutboxMessages c t n x)
   | ClaimOutbox w t ms n ch us \<Rightarrow> snd (claimOutboxMessages w t ms n ch us x)
   | CompleteOutbox us c \<Rightarrow> snd (completeOutboxMessage X us c x)
   | FailOutbox us f \<Rightarrow> snd (failOutboxMessage X us f x))"

fun exec_run :: "exec_env \<Rightarrow> exec_op list \<Rightarrow> exec_db \<Rightarrow> exec_db" where
  "exec_run X [] x = x"
| "exec_run X (op # ops) x = exec_run X ops (exec_op_run X op x)"

lemma exec_run_append: "exec_run X (xs @ ys) x = exec_run X ys (exec_run X xs x)"
  by (induction xs arbitrary: x) auto

end
