(* ===== verification/Dispatch.thy ===== *)
theory Dispatch
  imports ErpPayloads Messaging Execution
begin

text \<open>
  How the outbox worker carries out one claimed message (\<open>dispatch\<close> and its helpers in
  \<open>apps/api/src/procurement-outbox-worker.ts\<close>, \<open>public-demo-receipts.ts\<close>, \<open>procurement-attachment-content.ts\<close>,
  \<open>normalizeDraftRecipient\<close> of \<open>procurement-message-drafts.ts\<close>): what is sent is read from the frozen payload and
  the store and checked; then one call leaves the program, whose answer is an argument; then the answer is
  checked.  The texts of mails are arguments; so are the object storage and the ERP client.  One tenant is
  modelled, so a message is never another tenant's.
\<close>

subsection \<open>The state the worker reads\<close>

text \<open>The columns of a message draft beside those of \<open>message_draft\<close>.\<close>
record draft_sheet =
  dh_channel :: string
  dh_subject :: string
  dh_body :: string
  dh_outboxId :: "ident option"
  dh_senderName :: "string option"
  dh_senderTitle :: "string option"
  dh_senderOrganization :: "string option"

text \<open>The stored bytes of an attachment.\<close>
record stored_content =
  sc_backend :: string
  sc_objectKey :: "string option"
  sc_content :: "string option"

record demo_book =
  dk_state :: "(string \<times> jnum \<times> string) option"
  dk_scenarios :: "(ident, fields) kv"
  dk_audit :: "(string \<times> fields) list"

record site =
  st_exec :: exec_db
  st_sheets :: "(ident, draft_sheet) kv"
  st_contents :: "(ident, stored_content) kv"
  st_demo :: demo_book

record identity =
  id_displayName :: string
  id_title :: string
  id_organizationName :: string
  id_version :: int

subsection \<open>What is outside\<close>

text \<open>What a call to the outside throws: the rejection of a cancellation by the ERP client, or any other error.\<close>
datatype thrown = Rejected string | Threw string

type_synonym 'a external = "(thrown, 'a) result"

definition outside :: "'a external \<Rightarrow> 'a reading" where
  "outside r = (case r of Inl (Rejected t) \<Rightarrow> Inl (OdooPurchaseOrderCancellationRejectedError t)
     | Inl (Threw t) \<Rightarrow> Inl (OtherError t) | Inr a \<Rightarrow> Inr a)"

record connector_result =
  cr_ok :: bool
  cr_output :: "fields option"
  cr_error :: "string option"

record resolved =
  rs_action :: string
  rs_input :: fields
  rs_files :: "(string \<times> string \<times> string) list"
  rs_sent :: "snapshot list option"

record connector_call =
  cc_connectorId :: string
  cc_action :: string
  cc_resolved :: resolved
  cc_credentialId :: ident
  cc_nodeRunId :: string
  cc_idempotencyKey :: string
  cc_timeoutMs :: int

text \<open>The client of the ERP as the resolver returns it; a call may throw.\<close>
record odoo_runtime =
  od_credential :: json
  od_createDraft :: "fields \<Rightarrow> fields external"
  od_updateInvoice :: "int \<Rightarrow> fields \<Rightarrow> fields external"
  od_updateETA :: "string \<Rightarrow> string \<Rightarrow> fields external"
  od_readPO :: "string \<Rightarrow> json option external"
  od_cancel :: "string \<Rightarrow> fields external"

record credential =
  cd_id :: ident
  cd_connectorId :: string
  cd_connected :: bool
  cd_secret :: bool

text \<open>The configuration of a worker.\<close>
record worker =
  wk_env :: exec_env
  wk_workerId :: string
  wk_leaseDurationMs :: int
  wk_batchSize :: int
  wk_maximumAttempts :: nat
  wk_gateway :: bool
  wk_resolver :: bool
  wk_number :: "json \<Rightarrow> jnum"
  wk_messageText :: "msg_text \<Rightarrow> string"
  wk_rfqText :: "document \<Rightarrow> proc_line list \<Rightarrow> identity \<Rightarrow> string \<times> string"
  wk_orderText :: "ob_msg \<Rightarrow> document \<Rightarrow> proc_line list \<Rightarrow> identity \<Rightarrow> string \<times> string"

text \<open>What the outside answers while one message is carried out.\<close>
record answers =
  an_deliver :: "sent_request \<Rightarrow> (string, delivery_receipt) result"
  an_execute :: "connector_call \<Rightarrow> connector_result external"
  an_credentials :: "credential list"
  an_runtime :: "odoo_runtime option"
  an_objects :: "(ident \<Rightarrow> int \<Rightarrow> (string, string \<times> string) result) option"
  an_demoAt :: string

definition wk_proj :: "worker \<Rightarrow> proj_env" where
  "wk_proj K = xe_proj (wk_env K)"

subsection \<open>Receipts of the public demonstration\<close>

definition isPublicDemoTenant :: "worker \<Rightarrow> bool" where
  "isPublicDemoTenant K \<longleftrightarrow> pe_tenant (wk_proj K) = ''t:public-demo''"

definition demo_text :: "string \<Rightarrow> string \<Rightarrow> string reading" where
  "demo_text v field = (if trim v = [] \<or> 500 < length (trim v) then Inl (OtherError field) else Inr (trim v))"

definition createSimulatedDemoReceipt :: "worker \<Rightarrow> ob_msg \<Rightarrow> string \<Rightarrow> demo_book \<Rightarrow> fields reading" where
  "createSimulatedDemoReceipt K m generatedAt b = (case dk_state b of
     None \<Rightarrow> Inl (OtherError ''state'')
   | Some (seed, generation, reset) \<Rightarrow>
      reads (require_that (seed = ''public-demo-v1'' \<and> reset = ''healthy'' \<and> positive_int (Some (JNum generation)) \<noteq> None) (OtherError ''state'')) (\<lambda>_.
      case map_of (dk_scenarios b) (ob_aggregateId m) of
        None \<Rightarrow> Inl (OtherError ''scenario'')
      | Some metadata \<Rightarrow>
      reads (require_that (map_of metadata ''simulationOutcome'' \<in> {Some (JStr ''accepted''), Some (JStr ''uncertain'')}) (OtherError ''outcome'')) (\<lambda>_.
      reads (require_that (xe_date (wk_env K) generatedAt \<noteq> None) (OtherError ''timestamp'')) (\<lambda>_.
      reads (demo_text (ob_connectorId m) ''connector'') (\<lambda>connector.
      reads (demo_text (ob_action m) ''action'') (\<lambda>action.
      reads (demo_text (ob_idempotencyKey m) ''idempotencyKey'') (\<lambda>key.
      let g = nat_str (nat (the (positive_int (Some (JNum generation)))));
          digest = uppercase (take 16 (pe_sha (wk_proj K) (join nul [g, ob_aggregateId m, connector, action, key])))
      in Inr [(''receiptKind'', JStr ''simulated_demo''), (''outcome'', the (map_of metadata ''simulationOutcome'')),
        (''externalDelivery'', JBool False), (''connector'', JStr connector), (''action'', JStr action),
        (''reference'', JStr (''SIM-'' @ g @ ''-'' @ digest)), (''generatedAt'', JStr generatedAt), (''generation'', JNum generation)])))))))"

text \<open>\<open>INSERT OR IGNORE\<close> into the audit of the demonstration.\<close>
definition recordSimulatedDemoReceipt :: "worker \<Rightarrow> ob_msg \<Rightarrow> fields \<Rightarrow> demo_book \<Rightarrow> demo_book" where
  "recordSimulatedDemoReceipt K m receipt b =
    (let i = ''public-demo-audit:receipt:'' @ nat_str (nat (the (positive_int (map_of receipt ''generation'')))) @ '':'' @ string_of (map_of receipt ''reference'')
     in if i \<in> fst ` set (dk_audit b) then b
        else b\<lparr>dk_audit := dk_audit b @ [(i, [(''receipt'', JObj receipt), (''scenarioId'', JStr (ob_aggregateId m)),
          (''source'', JStr ''procurement_outbox'')])]\<rparr>)"

definition isPublicDemoReceipt :: "fields option \<Rightarrow> bool" where
  "isPublicDemoReceipt v \<longleftrightarrow> (case v of None \<Rightarrow> False
   | Some r \<Rightarrow> map_of r ''receiptKind'' = Some (JStr ''simulated_demo'') \<and>
       map_of r ''outcome'' \<in> {Some (JStr ''accepted''), Some (JStr ''uncertain'')} \<and> map_of r ''externalDelivery'' = Some (JBool False))"

subsection \<open>Attachments\<close>

definition parse_snapshot :: "json \<Rightarrow> snapshot reading" where
  "parse_snapshot v =
    reads (frozenRecord (Some v) ''attachments'') (\<lambda>r.
    let i = trimmed r ''id''; h = lowercase (string_of (map_of r ''sha256'')); name = trimmed r ''name''; ct = trimmed r ''contentType'' in
    reads (require_that (i \<noteq> [] \<and> is_hex64 h \<and> positive_int (map_of r ''version'') \<noteq> None \<and> name \<noteq> [] \<and> ct \<noteq> [] \<and>
      positive_int (map_of r ''sizeBytes'') \<noteq> None) (ConfigurationDispatchError ''attachments'')) (\<lambda>_.
    Inr \<lparr>sn_id = i, sn_sha256 = h, sn_version = jint (the (positive_int (map_of r ''version''))), sn_name = name,
      sn_contentType = ct, sn_sizeBytes = jint (the (positive_int (map_of r ''sizeBytes'')))\<rparr>))"

definition parseAttachmentSnapshots :: "json option \<Rightarrow> snapshot list reading" where
  "parseAttachmentSnapshots v = (case v of
     None \<Rightarrow> Inr []
   | Some (JArr xs) \<Rightarrow> reads (reads_all parse_snapshot xs) (\<lambda>ss.
       reads (require_that (distinct (map sn_id ss)) (ConfigurationDispatchError ''attachments'')) (\<lambda>_. Inr ss))
   | Some _ \<Rightarrow> Inl (ConfigurationDispatchError ''attachments''))"

text \<open>The object storage is asked for a version of an attachment and answers with the key and the bytes.\<close>
definition stored_bytes :: "answers \<Rightarrow> attachment_meta \<Rightarrow> stored_content \<Rightarrow> string reading" where
  "stored_bytes A a c =
    (if sc_backend c = ''sqlite'' then (case sc_content c of None \<Rightarrow> Inl (OtherError ''content'') | Some s \<Rightarrow> Inr s)
     else if sc_backend c = ''s3'' then
       (case an_objects A of None \<Rightarrow> Inl (OtherError ''storage'')
        | Some get \<Rightarrow> (case get (ax_id a) (ax_version a) of
            Inl e \<Rightarrow> Inl (OtherError e)
          | Inr (key, s) \<Rightarrow> if sc_objectKey c \<notin> {None, Some []} \<and> sc_objectKey c \<noteq> Some key then Inl (OtherError ''key'') else Inr s))
     else Inl (OtherError ''backend''))"

definition loadProcurementAttachmentContent :: "worker \<Rightarrow> answers \<Rightarrow> attachment_meta \<Rightarrow> stored_content \<Rightarrow> string reading" where
  "loadProcurementAttachmentContent K A a c =
    reads (stored_bytes A a c) (\<lambda>bytes.
    reads (require_that (int (length bytes) = ax_sizeBytes a) (OtherError ''size'')) (\<lambda>_.
    reads (require_that (pe_sha (wk_proj K) bytes = lowercase (ax_sha256 a)) (OtherError ''sha256'')) (\<lambda>_. Inr bytes)))"

definition empty_content :: stored_content where
  "empty_content = \<lparr>sc_backend = [], sc_objectKey = None, sc_content = None\<rparr>"

definition as_configuration :: "'a reading \<Rightarrow> 'a reading" where
  "as_configuration r = (case r of Inl e \<Rightarrow> Inl (ConfigurationDispatchError (error_message e)) | Inr a \<Rightarrow> Inr a)"

definition verified_attachment :: "worker \<Rightarrow> answers \<Rightarrow> site \<Rightarrow> snapshot \<Rightarrow> (string \<times> string \<times> string) reading" where
  "verified_attachment K A s sn = (case find (\<lambda>a. ax_id a = sn_id sn) (xd_attachments (st_exec s)) of
     None \<Rightarrow> Inl (ConfigurationDispatchError ''attachment'')
   | Some a \<Rightarrow>
      reads (require_that (ax_status a = ''active'') (ConfigurationDispatchError ''attachment status'')) (\<lambda>_.
      reads (require_that (ax_securityStatus a = ''clean'') (ConfigurationDispatchError ''attachment scan'')) (\<lambda>_.
      reads (require_that (jint (ax_version a) = sn_version sn) (ConfigurationDispatchError ''attachment version'')) (\<lambda>_.
      reads (require_that (jint (ax_sizeBytes a) = sn_sizeBytes sn) (ConfigurationDispatchError ''attachment size'')) (\<lambda>_.
      reads (require_that (lowercase (ax_sha256 a) = sn_sha256 sn) (ConfigurationDispatchError ''attachment sha256'')) (\<lambda>_.
      reads (as_configuration (loadProcurementAttachmentContent K A a
        (case map_of (st_contents s) (ax_id a) of None \<Rightarrow> empty_content | Some c \<Rightarrow> c))) (\<lambda>bytes.
      Inr (sn_name sn, sn_contentType sn, bytes))))))))"

definition loadVerifiedAttachments :: "worker \<Rightarrow> answers \<Rightarrow> site \<Rightarrow> snapshot list \<Rightarrow> (string \<times> string \<times> string) list reading" where
  "loadVerifiedAttachments K A s = reads_all (verified_attachment K A s)"

subsection \<open>The sender\<close>

definition textIdentityField :: "json option \<Rightarrow> string \<Rightarrow> string reading" where
  "textIdentityField v label = (case v of
     Some (JStr s) \<Rightarrow> if trim s = [] \<or> 160 < length (trim s) \<or> char_of (10 :: nat) \<in> set (trim s) \<or> char_of (13 :: nat) \<in> set (trim s)
       then Inl (ConfigurationDispatchError label) else Inr (trim s)
   | _ \<Rightarrow> Inl (ConfigurationDispatchError label))"

definition frozenCommunicationIdentity :: "json option \<Rightarrow> identity reading" where
  "frozenCommunicationIdentity v =
    reads (frozenRecord v ''communicationIdentity'') (\<lambda>c.
    reads (textIdentityField (map_of c ''displayName'') ''displayName'') (\<lambda>displayName.
    reads (textIdentityField (map_of c ''title'') ''title'') (\<lambda>title.
    reads (textIdentityField (map_of c ''organizationName'') ''organizationName'') (\<lambda>organization.
    reads (frozenPositiveInteger (map_of c ''version'') ''version'') (\<lambda>version.
    Inr \<lparr>id_displayName = displayName, id_title = title, id_organizationName = organization, id_version = version\<rparr>)))))"

definition nullable :: "string option \<Rightarrow> json" where
  "nullable s = (case s of None \<Rightarrow> JNull | Some t \<Rightarrow> JStr t)"

definition identityFromDraft :: "draft_sheet \<Rightarrow> identity reading" where
  "identityFromDraft d = frozenCommunicationIdentity (Some (JObj [(''displayName'', nullable (dh_senderName d)),
     (''title'', nullable (dh_senderTitle d)), (''organizationName'', nullable (dh_senderOrganization d)), (''version'', JNum (JFin 1))]))"

subsection \<open>Recipients\<close>

fun split_char :: "char \<Rightarrow> string \<Rightarrow> string list" where
  "split_char d [] = [[]]"
| "split_char d (c # cs) = (if c = d then [] # split_char d cs
     else case split_char d cs of [] \<Rightarrow> [[c]] | w # ws \<Rightarrow> (c # w) # ws)"

definition lower_alnum :: "char \<Rightarrow> bool" where
  "lower_alnum c \<longleftrightarrow> CHR ''a'' \<le> c \<and> c \<le> CHR ''z'' \<or> is_digit c"

definition atom_char :: "char \<Rightarrow> bool" where
  "atom_char c \<longleftrightarrow> lower_alnum c \<or> c \<in> set ''!#$%&*+/=?^_`{|}~.-'' \<or> of_char c = (39 :: nat)"

definition domain_label :: "string \<Rightarrow> bool" where
  "domain_label l \<longleftrightarrow> l \<noteq> [] \<and> length l \<le> 63 \<and> lower_alnum (hd l) \<and> lower_alnum (last l) \<and> list_all (\<lambda>c. lower_alnum c \<or> c = CHR ''-'') l"

definition placeholder_domain :: "string \<Rightarrow> bool" where
  "placeholder_domain d \<longleftrightarrow> d \<in> {''example.com'', ''example.org'', ''example.net'', ''demo.cn''} \<or>
     list_ex (ends_with d) [''.example.com'', ''.example.org'', ''.example.net'', ''.demo.cn'', ''.invalid'', ''.local'', ''.test'']"

definition normalize_email :: "string \<Rightarrow> string option" where
  "normalize_email v = (let n = lowercase (trim v) in
     if 254 < length n then None
     else case split_char (CHR ''@'') n of
       [local, domain] \<Rightarrow>
         if local \<noteq> [] \<and> length local \<le> 64 \<and> list_all atom_char local \<and> \<not> starts_with local ''.'' \<and> \<not> ends_with local ''.'' \<and>
            \<not> contains local ''..'' \<and> 2 \<le> length (split_char (CHR ''.'') domain) \<and> list_all domain_label (split_char (CHR ''.'') domain) \<and>
            \<not> placeholder_domain domain
         then Some n else None
     | _ \<Rightarrow> None)"

definition phone_filler :: "char \<Rightarrow> bool" where
  "phone_filler c \<longleftrightarrow> is_space c \<or> c \<in> set ''().-''"

definition normalize_phone :: "string \<Rightarrow> string option" where
  "normalize_phone v = (let t = trim v; ds = filter (\<lambda>c. \<not> phone_filler c) (drop 1 t) in
     if starts_with t ''+'' \<and> list_all (\<lambda>c. is_digit c \<or> phone_filler c) (drop 1 t) \<and> 8 \<le> length ds \<and> length ds \<le> 15 \<and> hd ds \<noteq> CHR ''0''
     then Some (CHR ''+'' # ds) else None)"

definition normalizeDraftRecipient :: "channel \<Rightarrow> string \<Rightarrow> string option" where
  "normalizeDraftRecipient ch v = (if ch = ChWhatsapp then normalize_phone v else normalize_email v)"

subsection \<open>What a message is resolved to\<close>

definition order_of :: "ident \<Rightarrow> exec_db \<Rightarrow> (document \<times> nat) option" where
  "order_of i x = getDocument ''purchase_order'' i (xd_proc x)"

text \<open>The address of a supplier's contact, empty when there is none.\<close>
definition supplier_address :: "ident \<Rightarrow> exec_db \<Rightarrow> string" where
  "supplier_address i x = (case getDocument ''supplier'' i (xd_proc x) of None \<Rightarrow> [] | Some (d, _) \<Rightarrow> recipient_of d)"

text \<open>An approved draft of the given channel that is queued as this message, with its order and normalised recipient.\<close>
definition queued_draft :: "channel \<Rightarrow> ob_msg \<Rightarrow> site \<Rightarrow> (message_draft \<times> draft_sheet \<times> document \<times> string) reading" where
  "queued_draft ch m s = (let i = trimmed (ob_payload m) ''draftId'' in
    reads (require_that (i \<noteq> []) (ConfigurationDispatchError ''draftId'')) (\<lambda>_.
    case (find (\<lambda>d. md_id d = i) (xd_drafts (st_exec s)), map_of (st_sheets s) i) of
      (Some d, Some h) \<Rightarrow>
        reads (require_that ((ch = ChWhatsapp \<longrightarrow> dh_channel h = ''whatsapp'') \<and> md_status d = ''approved_queued'' \<and> dh_outboxId h = Some (ob_id m))
          (ConfigurationDispatchError ''draft'')) (\<lambda>_.
        case order_of (md_purchaseOrderId d) (st_exec s) of
          None \<Rightarrow> Inl (ConfigurationDispatchError ''order'')
        | Some (po, _) \<Rightarrow>
            reads (require_that (doc_text po ''supplierId'' = md_supplierId d) (ConfigurationDispatchError ''order'')) (\<lambda>_.
            case normalizeDraftRecipient ch (md_recipient d) of
              None \<Rightarrow> Inl (ConfigurationDispatchError ''recipient'')
            | Some to \<Rightarrow> Inr (d, h, po, to)))
    | _ \<Rightarrow> Inl (ConfigurationDispatchError ''draft'')))"

definition mail_input :: "string \<Rightarrow> string \<times> string \<Rightarrow> identity \<Rightarrow> ident \<Rightarrow> ident \<Rightarrow> fields" where
  "mail_input to txt who object supplier = [(''to'', JStr to), (''subject'', JStr (fst txt)), (''body'', JStr (snd txt)),
     (''fromName'', JStr (id_displayName who)), (''businessObjectId'', JStr object), (''supplierId'', JStr supplier)]"

definition resolve_draft_email :: "ob_msg \<Rightarrow> site \<Rightarrow> resolved reading" where
  "resolve_draft_email m s =
    reads (queued_draft ChEmail m s) (\<lambda>(d, h, po, to).
    reads (identityFromDraft h) (\<lambda>who.
    Inr \<lparr>rs_action = ''send'', rs_input = mail_input to (dh_subject h, dh_body h) who (doc_id po) (doc_text po ''supplierId''),
      rs_files = [], rs_sent = None\<rparr>))"

definition resolve_rfq_email :: "worker \<Rightarrow> answers \<Rightarrow> ob_msg \<Rightarrow> site \<Rightarrow> resolved reading" where
  "resolve_rfq_email K A m s =
    reads (frozenCommunicationIdentity (map_of (ob_payload m) ''communicationIdentity'')) (\<lambda>who.
    case getDocument ''rfq'' (ob_aggregateId m) (xd_proc (st_exec s)) of
      None \<Rightarrow> Inl (ConfigurationDispatchError ''rfq'')
    | Some (rfq, _) \<Rightarrow> (let supplier = text_of (wk_env K) (map_of (ob_payload m) ''supplierId''); to = supplier_address supplier (st_exec s) in
      reads (require_that (supplier \<noteq> [] \<and> supplier \<in> set (json_strings (map_of (doc_fields rfq) ''supplierIds''))) (ConfigurationDispatchError ''supplier'')) (\<lambda>_.
      reads (require_that (to \<noteq> []) (ConfigurationDispatchError ''contact'')) (\<lambda>_.
      reads (parseAttachmentSnapshots (map_of (ob_payload m) ''attachments'')) (\<lambda>sent.
      reads (loadVerifiedAttachments K A s sent) (\<lambda>files.
      Inr \<lparr>rs_action = ''send'', rs_input = mail_input to (wk_rfqText K rfq (listLines RfqLine (doc_id rfq) (xd_proc (st_exec s))) who) who (doc_id rfq) supplier,
        rs_files = files, rs_sent = Some sent\<rparr>))))))"

text \<open>Only the version of the order that was frozen with the message may be sent.\<close>
definition resolve_order_email :: "worker \<Rightarrow> answers \<Rightarrow> ob_msg \<Rightarrow> site \<Rightarrow> resolved reading" where
  "resolve_order_email K A m s =
    reads (frozenCommunicationIdentity (map_of (ob_payload m) ''communicationIdentity'')) (\<lambda>who.
    case order_of (ob_aggregateId m) (st_exec s) of
      None \<Rightarrow> Inl (ConfigurationDispatchError ''order'')
    | Some (po, n) \<Rightarrow> (let supplier = doc_text po ''supplierId''; to = supplier_address supplier (st_exec s) in
      reads (require_that (positive_int (Some (JNum (number_of (wk_number K) (map_of (ob_payload m) ''poVersion'')))) = Some (int n))
        (ConfigurationDispatchError ''poVersion'')) (\<lambda>_.
      reads (require_that (to \<noteq> []) (ConfigurationDispatchError ''contact'')) (\<lambda>_.
      reads (parseAttachmentSnapshots (map_of (ob_payload m) ''attachments'')) (\<lambda>sent.
      reads (loadVerifiedAttachments K A s sent) (\<lambda>files.
      Inr \<lparr>rs_action = ''send'', rs_input = mail_input to (wk_orderText K m po (listLines PurchaseOrderLine (doc_id po) (xd_proc (st_exec s))) who) who (doc_id po) supplier,
        rs_files = files, rs_sent = Some sent\<rparr>))))))"

definition resolve_draft_whatsapp :: "ob_msg \<Rightarrow> site \<Rightarrow> resolved reading" where
  "resolve_draft_whatsapp m s =
    reads (queued_draft ChWhatsapp m s) (\<lambda>(d, h, po, to). let supplier = doc_text po ''supplierId'' in
    Inr \<lparr>rs_action = ''send_template'', rs_input = [(''to'', JStr to),
      (''poNumber'', JStr (if doc_externalId po = [] then doc_id po else doc_externalId po)),
      (''supplierName'', case getDocument ''supplier'' supplier (xd_proc (st_exec s)) of None \<Rightarrow> JStr supplier | Some (d, _) \<Rightarrow> JStr (doc_text d ''name'')),
      (''message'', JStr (dh_body h)), (''businessObjectId'', JStr (doc_id po)), (''supplierId'', JStr supplier)],
        rs_files = [], rs_sent = None\<rparr>)"

definition odoo_number :: "string \<Rightarrow> bool" where
  "odoo_number v \<longleftrightarrow> v \<noteq> [] \<and> list_all is_digit v \<and> hd v \<noteq> CHR ''0''"

definition resolve_invoice :: "ob_msg \<Rightarrow> site \<Rightarrow> resolved reading" where
  "resolve_invoice m s = (case getDocument ''invoice'' (ob_aggregateId m) (xd_proc (st_exec s)) of
     None \<Rightarrow> Inl (ConfigurationDispatchError ''invoice'')
   | Some (d, _) \<Rightarrow>
      reads (require_that (doc_sourceSystem d = ''odoo'' \<and> odoo_number (doc_externalId d)) (ConfigurationDispatchError ''invoice'')) (\<lambda>_.
      Inr \<lparr>rs_action = ''invoice.update'', rs_input = [(''invoiceId'', JNum (rnd (of_nat (read_nat (doc_externalId d))))),
        (''approvalStatus'', JStr ''approved''), (''payableStatus'', JStr ''payable'')],
        rs_files = [], rs_sent = None\<rparr>))"

definition plain_action :: "string \<Rightarrow> fields reading \<Rightarrow> resolved reading" where
  "plain_action a r = reads r (\<lambda>input. Inr \<lparr>rs_action = a, rs_input = input, rs_files = [], rs_sent = None\<rparr>)"

definition resolveConnectorAction :: "worker \<Rightarrow> answers \<Rightarrow> ob_msg \<Rightarrow> site \<Rightarrow> resolved reading" where
  "resolveConnectorAction K A m s = (let c = ob_channel m; a = ob_action m in
     if c = ChEmail then
       (if a = ''purchase_order.draft_email.send'' then resolve_draft_email m s
        else if a = ''rfq.send'' then resolve_rfq_email K A m s else resolve_order_email K A m s)
     else if c = ChWhatsapp \<and> a = ''purchase_order.draft_whatsapp.send'' then resolve_draft_whatsapp m s
     else if c = ChErp \<and> a = ''purchase_order.create_draft'' then plain_action ''po.create_draft'' (frozenOdooPurchaseOrderDraft m)
     else if c = ChErp \<and> a = ''purchase_order.update_rihd'' then plain_action ''po.update'' (frozenOdooRihdUpdate (wk_env K) m)
     else if c = ChErp \<and> a = ''purchase_order.amend'' then plain_action ''po.amend'' (frozenOdooPurchaseOrderAmendment (wk_env K) m)
     else if c = ChErp \<and> a = ''purchase_order.cancel'' then plain_action ''po.cancel'' (frozenOdooPurchaseOrderCancellation m)
     else if c = ChErp \<and> a = ''invoice.update'' then resolve_invoice m s
     else Inl (ConfigurationDispatchError ''action''))"

subsection \<open>The request to the message gateway\<close>

text \<open>One file with the snapshot at its place, when there is one.\<close>
definition request_attachment :: "worker \<Rightarrow> (string \<times> string \<times> string) \<times> snapshot option \<Rightarrow> attachment_payload reading" where
  "request_attachment K fs = (case fs of ((filename, contentType, content), snap) \<Rightarrow>
     let h = pe_sha (wk_proj K) content in
     reads (require_that (case snap of None \<Rightarrow> True | Some sn \<Rightarrow> sn_sha256 sn = h) (ConfigurationDispatchError ''attachment sha256'')) (\<lambda>_.
     reads (frozenText (Some (JStr filename)) ''filename'') (\<lambda>name.
     reads (frozenText (Some (JStr contentType)) ''contentType'') (\<lambda>ct.
     Inr \<lparr>att_id = (case snap of None \<Rightarrow> ''messaging-attachment:'' @ h | Some sn \<Rightarrow> sn_id sn), att_name = name, att_contentType = ct,
       att_sizeBytes = int (length content), att_sha256 = h, att_content = content\<rparr>))))"

definition with_snapshots :: "'a list \<Rightarrow> snapshot list option \<Rightarrow> ('a \<times> snapshot option) list" where
  "with_snapshots fs sent = (let ss = (case sent of None \<Rightarrow> [] | Some ss \<Rightarrow> ss)
     in zip fs (map (\<lambda>i. if i < length ss then Some (ss ! i) else None) [0..<length fs]))"

definition request_references :: "worker \<Rightarrow> fields \<Rightarrow> string list" where
  "request_references K r = (case map_of r ''references'' of
     Some (JArr xs) \<Rightarrow> filter (\<lambda>t. t \<noteq> []) (map (\<lambda>j. case j of JStr t \<Rightarrow> t | _ \<Rightarrow> xe_string (wk_env K) j) xs) | _ \<Rightarrow> [])"

definition buildMessageDeliveryRequest :: "worker \<Rightarrow> ob_msg \<Rightarrow> resolved \<Rightarrow> sent_request reading" where
  "buildMessageDeliveryRequest K m r = (let v = map_of (rs_input r); X = wk_env K in
    reads (require_that (ob_channel m \<noteq> ChErp) (ConfigurationDispatchError ''channel'')) (\<lambda>_.
    reads (frozenText (v ''to'') ''to'') (\<lambda>to.
    reads (reads_all (request_attachment K) (with_snapshots (rs_files r) (rs_sent r))) (\<lambda>attachments.
    let refs = request_references K (rs_input r); reply = trimmed (rs_input r) ''inReplyTo''; from = trimmed (rs_input r) ''fromName'' in
    Inr \<lparr>rq_tenantId = pe_tenant (wk_proj K), rq_adapterId = ob_connectorId m, rq_channel = channel_name (ob_channel m),
      rq_idempotencyKey = ob_idempotencyKey m,
      rq_sender = (if from = [] then None else Some \<lparr>sa_address = None, sa_displayName = Some from\<rparr>),
      rq_recipients = [\<lparr>ma_address = to, ma_displayName = None\<rparr>],
      rq_subject = (case v ''subject'' of Some (JStr t) \<Rightarrow> Some t | _ \<Rightarrow> None),
      rq_text = text_of X (v (if ob_channel m = ChEmail then ''body'' else ''message'')), rq_attachments = attachments,
      rq_thread = (if reply = [] \<and> refs = [] then None else Some \<lparr>th_inReplyTo = (if reply = [] then None else Some reply),
        th_references = (if refs = [] then None else Some refs)\<rparr>),
      rq_trace = \<lparr>tr_source = ''procurement_outbox'', tr_sourceId = ob_id m, tr_correlationId = ob_aggregateId m\<rparr>\<rparr>))))"

subsection \<open>Calls of the ERP\<close>

definition some_entry :: "string \<Rightarrow> json option \<Rightarrow> fields" where
  "some_entry k v = (case v of None \<Rightarrow> [] | Some j \<Rightarrow> [(k, j)])"

definition succeeded :: "fields \<Rightarrow> connector_result" where
  "succeeded output = \<lparr>cr_ok = True, cr_output = Some output, cr_error = None\<rparr>"

definition executeResolvedErpAction :: "worker \<Rightarrow> odoo_runtime \<Rightarrow> string \<Rightarrow> fields \<Rightarrow> connector_result reading" where
  "executeResolvedErpAction K R a input = (let X = wk_env K; credential = [(''credential'', od_credential R)] in
    if a = ''po.create_draft'' then
      reads (odooDraftInput (wk_number K) input) (\<lambda>d. reads (outside (od_createDraft R d)) (\<lambda>draft.
      Inr (succeeded (some_entry ''id'' (map_of draft ''id'') @ some_entry ''name'' (map_of draft ''name'') @ some_entry ''state'' (map_of draft ''state'') @
        [(''correlationKey'', JStr (text_of X (map_of input ''correlationKey'')))] @ some_entry ''replayed'' (map_of draft ''replayed'') @ credential))))
    else if a = ''invoice.update'' then
      (case positive_int (Some (JNum (number_of (wk_number K) (nullish (map_of input ''invoiceId'') (map_of input ''id''))))) of
         None \<Rightarrow> Inl (ConfigurationDispatchError ''invoiceId'')
       | Some i \<Rightarrow> reads (odooInvoiceUpdate input) (\<lambda>u. reads (outside (od_updateInvoice R i u)) (\<lambda>invoice.
           Inr (succeeded ([(''invoice'', JObj (some_entry ''id'' (map_of invoice ''id'') @ some_entry ''name'' (map_of invoice ''name'')))] @ credential)))))
    else if a = ''po.update'' then
      reads (frozenText (map_of input ''poId'') ''poId'') (\<lambda>poName.
      reads (frozenText (map_of input ''value'') ''value'') (\<lambda>rihd.
      reads (outside (od_updateETA R poName rihd)) (\<lambda>written.
      reads (outside (od_readPO R poName)) (\<lambda>po.
      reads (normalizeOdooRihdResult X (Some (some_entry ''po'' po @ [(''write'', JObj written)] @ credential)) input) (\<lambda>output.
      Inr (succeeded output))))))
    else if a = ''po.amend'' then
      reads (odooPurchaseOrderAmendmentInput X input) (\<lambda>(poNumber, odooId, patch).
      reads (case map_of patch ''requiredInHouseAt'' of None \<Rightarrow> Inr None
        | Some d \<Rightarrow> reads (outside (od_updateETA R poNumber (text_of X (Some d)))) (\<lambda>w. Inr (Some (JObj w)))) (\<lambda>written.
      reads (outside (od_readPO R poNumber)) (\<lambda>po.
      Inr (succeeded (some_entry ''po'' po @ some_entry ''write'' written @ credential)))))
    else if a = ''po.cancel'' then
      reads (odooPurchaseOrderCancellationInput input) (\<lambda>(poNumber, odooId). reads (outside (od_cancel R poNumber)) (\<lambda>result.
      Inr (succeeded (AList.update ''credential'' (od_credential R) result))))
    else Inl (ConfigurationDispatchError ''action''))"

text \<open>The answer of the ERP is checked and normalised by the action of the message.\<close>
definition verified_output :: "exec_env \<Rightarrow> ob_msg \<Rightarrow> resolved \<Rightarrow> connector_result \<Rightarrow> connector_result reading" where
  "verified_output X m r res = (let a = ob_action m; normal = (\<lambda>n. reads n (\<lambda>output. Inr (res\<lparr>cr_output := Some output\<rparr>))) in
     if \<not> cr_ok res then Inr res
     else if a = ''purchase_order.create_draft'' then reads (validateOdooDraftResult (cr_output res) (rs_input r)) (\<lambda>_. Inr res)
     else if a = ''purchase_order.update_rihd'' then normal (normalizeOdooRihdResult X (cr_output res) (rs_input r))
     else if a = ''purchase_order.amend'' then normal (normalizeOdooPurchaseOrderAmendmentResult X (cr_output res) (rs_input r))
     else if a = ''purchase_order.cancel'' then normal (normalizeOdooPurchaseOrderCancellationResult (cr_output res) (rs_input r))
     else Inr res)"

definition amends :: "ob_msg \<Rightarrow> bool" where
  "amends m \<longleftrightarrow> ob_action m = ''purchase_order.amend'' \<or> ob_action m = ''purchase_order.cancel''"

text \<open>The result of a dispatch: what the connector returned, the attachments sent, whether the call of an amendment was entered.\<close>
record dispatched =
  dp_result :: connector_result
  dp_sent :: "snapshot list option"
  dp_started :: bool

fun is_rejection :: "dispatch_error \<Rightarrow> bool" where
  "is_rejection (OdooPurchaseOrderCancellationRejectedError _) = True"
| "is_rejection _ = False"

text \<open>An error while the ERP is called leaves open whether an amendment was written; a rejected cancellation was not.\<close>
definition rethrown :: "ob_msg \<Rightarrow> dispatch_error \<Rightarrow> dispatch_error" where
  "rethrown m e = (if ob_action m = ''purchase_order.cancel'' \<and> is_rejection e then e
     else if amends m then ExternalDispatchStartedError (error_message e) else e)"

definition called :: "exec_env \<Rightarrow> ob_msg \<Rightarrow> resolved \<Rightarrow> connector_result reading \<Rightarrow> dispatched reading" where
  "called X m r call = (case reads call (verified_output X m r) of
     Inl e \<Rightarrow> Inl (rethrown m e)
   | Inr res \<Rightarrow> Inr \<lparr>dp_result = res, dp_sent = rs_sent r, dp_started = amends m\<rparr>)"

subsection \<open>The dispatch of a message\<close>

definition receipt_text_of :: "worker \<Rightarrow> delivery_receipt \<Rightarrow> string" where
  "receipt_text_of K c = (case rc_error c of None \<Rightarrow> ''gateway'' | Some t \<Rightarrow> wk_messageText K t)"

text \<open>A receipt of the gateway is read as an error or as an accepted delivery.\<close>
definition receipt_outcome :: "worker \<Rightarrow> resolved \<Rightarrow> delivery_receipt \<Rightarrow> dispatched reading" where
  "receipt_outcome K r c = (case rc_status c of
     RcDeferred \<Rightarrow> Inl (GatewayDeferredDispatchError (receipt_text_of K c) (rc_nextAttemptAt c) (rc_replayed c))
   | RcBlocked \<Rightarrow> Inl (GatewayDeferredDispatchError (receipt_text_of K c) (rc_nextAttemptAt c) (rc_replayed c))
   | RcUnknown \<Rightarrow> Inl (ExternalDispatchStartedError (receipt_text_of K c))
   | RcFailed \<Rightarrow> Inl (if rc_retryable c then GatewayRetryableDispatchError (receipt_text_of K c) else ConfigurationDispatchError (receipt_text_of K c))
   | RcAccepted \<Rightarrow>
      (case (rc_providerMessageId c, rc_acceptedAt c) of
         (Some (i # is), Some t) \<Rightarrow> Inr \<lparr>dp_result = succeeded ([(''message_id'', JStr (i # is)), (''accepted_at'', JStr (pe_iso (wk_proj K) t)),
             (''delivery_status'', JStr ''accepted'')] @
             (case map_of (rs_input r) ''fromName'' of Some (JStr n) \<Rightarrow> [(''from_name'', JStr n)] | _ \<Rightarrow> [])),
           dp_sent = rs_sent r, dp_started = False\<rparr>
       | _ \<Rightarrow> Inl (ExternalDispatchStartedError ''receipt'')))"

definition delivered :: "worker \<Rightarrow> answers \<Rightarrow> ob_msg \<Rightarrow> resolved \<Rightarrow> dispatched reading" where
  "delivered K A m r = reads (buildMessageDeliveryRequest K m r) (\<lambda>q.
     case an_deliver A q of Inl e \<Rightarrow> Inl (OtherError e) | Inr c \<Rightarrow> receipt_outcome K r c)"

definition pinned_credential :: "ob_msg \<Rightarrow> string" where
  "pinned_credential m = trimmed (ob_payload m) ''credentialId''"

definition usable_credential :: "ob_msg \<Rightarrow> credential \<Rightarrow> bool" where
  "usable_credential m c \<longleftrightarrow> (pinned_credential m = [] \<or> cd_id c = pinned_credential m) \<and> cd_connectorId c = ob_connectorId m \<and> cd_connected c"

definition connector_call_of :: "worker \<Rightarrow> ob_msg \<Rightarrow> resolved \<Rightarrow> ident \<Rightarrow> connector_call" where
  "connector_call_of K m r i = \<lparr>cc_connectorId = ob_connectorId m, cc_action = rs_action r, cc_resolved = r, cc_credentialId = i,
     cc_nodeRunId = ''outbox:'' @ ob_id m @ '':'' @ nat_str (ob_attempts m), cc_idempotencyKey = ob_idempotencyKey m,
     cc_timeoutMs = max 1000 (wk_leaseDurationMs K - 5000)\<rparr>"

definition by_connector :: "worker \<Rightarrow> answers \<Rightarrow> ob_msg \<Rightarrow> resolved \<Rightarrow> dispatched reading" where
  "by_connector K A m r = (case find (usable_credential m) (an_credentials A) of
     None \<Rightarrow> Inl (ConfigurationDispatchError ''credential'')
   | Some c \<Rightarrow> if \<not> cd_secret c then Inl (ConfigurationDispatchError ''credential'')
       else called (wk_env K) m r (outside (an_execute A (connector_call_of K m r (cd_id c)))))"

definition carried_out :: "worker \<Rightarrow> answers \<Rightarrow> ob_msg \<Rightarrow> site \<Rightarrow> dispatched reading" where
  "carried_out K A m s = reads (resolveConnectorAction K A m s) (\<lambda>r.
     if ob_channel m = ChEmail \<and> wk_gateway K then delivered K A m r
     else if ob_channel m = ChErp \<and> wk_resolver K then
       (case an_runtime A of
          None \<Rightarrow> Inl (ConfigurationDispatchError ''runtime'')
        | Some R \<Rightarrow> called (wk_env K) m r (executeResolvedErpAction K R (rs_action r) (rs_input r)))
     else by_connector K A m r)"

definition simulated :: "worker \<Rightarrow> answers \<Rightarrow> ob_msg \<Rightarrow> site \<Rightarrow> dispatched reading \<times> site" where
  "simulated K A m s = (case createSimulatedDemoReceipt K m (an_demoAt A) (st_demo s) of
     Inl e \<Rightarrow> (Inl e, s)
   | Inr receipt \<Rightarrow>
      (reads (if sends_attachments m then reads (parseAttachmentSnapshots (map_of (ob_payload m) ''attachments'')) (Inr \<circ> Some) else Inr None) (\<lambda>sent.
         Inr \<lparr>dp_result = (if map_of receipt ''outcome'' = Some (JStr ''accepted'') then succeeded receipt
              else \<lparr>cr_ok = False, cr_output = Some receipt, cr_error = Some ''demo''\<rparr>),
            dp_sent = sent, dp_started = False\<rparr>),
       s\<lparr>st_demo := recordSimulatedDemoReceipt K m receipt (st_demo s)\<rparr>))"

definition dispatch :: "worker \<Rightarrow> answers \<Rightarrow> ob_msg \<Rightarrow> site \<Rightarrow> dispatched reading \<times> site" where
  "dispatch K A m s = (if isPublicDemoTenant K then simulated K A m s else (carried_out K A m s, s))"

end
