(* ===== verification/ExecutionInvariants.thy ===== *)
theory ExecutionInvariants
  imports Execution
begin

text \<open>
  Invariants of the execution store, reduced to their single writes.  The locale names the writes
  the execution commands are made of; from their laws it follows once and for all that the eighteen
  commands, the mutation around them and every run keep the property.  Each invariant of the store is
  an interpretation of it.
\<close>

subsection \<open>The writes\<close>

text \<open>The books of the store: what the invariants speak about.  The other tables may change freely.\<close>
definition same_books :: "exec_db \<Rightarrow> exec_db \<Rightarrow> bool" where
  "same_books x y \<longleftrightarrow> xd_outbox y = xd_outbox x \<and> xd_amendments y = xd_amendments x \<and> xd_projections y = xd_projections x \<and>
     xd_quantityEvents y = xd_quantityEvents x \<and> xd_replies y = xd_replies x"

lemma same_books_refl [simp]: "same_books x x"
  by (simp add: same_books_def)

lemma on_proc_books: "on_proc f x = (r, y) \<Longrightarrow> same_books x y"
  by (auto simp: on_proc_def same_books_def split: prod.splits sum.splits)

lemma inserted_message:
  assumes "insertExecutionOutbox X r uuid t ch action agg payload x = (Inr m, y)"
  shows "ob_action m = action" "ob_channel m = ch"
    "\<exists>c. m = new_message r uuid t ch c action agg payload"
    "ob_id m \<notin> ob_id ` set (xd_outbox x)"
    "(ob_channel m, ob_idempotencyKey m) \<notin> (\<lambda>m. (ob_channel m, ob_idempotencyKey m)) ` set (xd_outbox x)"
    "same_books (x\<lparr>xd_outbox := xd_outbox x @ [m]\<rparr>) y"
proof -
  obtain c where c: "need_text (case xi_connectorId r of None \<Rightarrow> channel_name ch | Some c \<Rightarrow> c) ''connectorId'' = Inr c"
    using assms by (auto simp: insertExecutionOutbox_def split: sum.splits)
  let ?m = "new_message r uuid t ch c action agg payload"
  have g: "\<not> (ob_id ?m \<in> ob_id ` set (xd_outbox x) \<or>
      (ob_channel ?m, ob_idempotencyKey ?m) \<in> (\<lambda>m. (ob_channel m, ob_idempotencyKey m)) ` set (xd_outbox x))"
    using assms by (auto simp: insertExecutionOutbox_def c Let_def simp del: image_iff split: if_splits)
  have w: "bind_tx (enqueueOutboxProjection X ?m (x\<lparr>xd_outbox := xd_outbox x @ [?m]\<rparr>)) (\<lambda>_ x. (Inr ?m, x)) = (Inr m, y)"
    using assms g unfolding insertExecutionOutbox_def c sum.case Let_def by (simp only: if_False)
  have m: "m = ?m" and e: "\<exists>u. enqueueOutboxProjection X ?m (x\<lparr>xd_outbox := xd_outbox x @ [?m]\<rparr>) = (Inr u, y)"
    using w by (auto simp: bind_tx_ok)
  show "ob_action m = action" "ob_channel m = ch" "\<exists>c. m = new_message r uuid t ch c action agg payload"
    unfolding m by (auto simp: new_message_def)
  show "ob_id m \<notin> ob_id ` set (xd_outbox x)"
    "(ob_channel m, ob_idempotencyKey m) \<notin> (\<lambda>m. (ob_channel m, ob_idempotencyKey m)) ` set (xd_outbox x)" using g m by blast+
  show "same_books (x\<lparr>xd_outbox := xd_outbox x @ [m]\<rparr>) y"
    using e unfolding m enqueueOutboxProjection_def by (auto split: option.splits dest: on_proc_books)
qed

lemma with_value_store: "P x \<Longrightarrow> (\<And>a. r = Inr a \<Longrightarrow> P (snd (f a x))) \<Longrightarrow> P (snd (with_value r f x))"
  by (cases r) auto

lemma moved_books:
  assumes "on_amendments f x = (r, y)"
  shows "xd_outbox y = xd_outbox x" "xd_projections y = xd_projections x" "xd_quantityEvents y = xd_quantityEvents x"
    "xd_replies y = xd_replies x"
  using assms by (auto simp: on_amendments_def split: prod.splits sum.splits)

lemma move_to_books:
  assumes "move_to u i st actor reason ob rc t x = (r, y)"
  shows "xd_outbox y = xd_outbox x" "xd_projections y = xd_projections x" "xd_quantityEvents y = xd_quantityEvents x"
    "xd_replies y = xd_replies x"
  using assms unfolding move_to_def by (auto simp: bind_tx_def dest: moved_books split: prod.splits sum.splits)

lemma put_leased_books:
  assumes "put_leased i tok m x = (r, y)"
  shows "xd_amendments y = xd_amendments x" "xd_projections y = xd_projections x" "xd_quantityEvents y = xd_quantityEvents x"
    "xd_replies y = xd_replies x"
  using assms by (auto simp: put_leased_def Let_def split: if_splits)

lemma queued_parts:
  assumes "queue_amendment X us r i kind patch reason action extra queued po n t x = (Inr (m, b), y)"
  obtains a f x1 x2 d where
    "on_amendments (createProcurementPurchaseOrderAmendment (pe_json (xe_proj X)) (us 1) \<lparr>ar_id = i, ar_poId = doc_id po,
        ar_action = kind, ar_sourcePoVersion = int n, ar_patch = patch, ar_idempotencyKey = xi_idempotencyKey r,
        ar_actorId = xi_actorId r, ar_reason = reason, ar_at = t\<rparr>) x = (Inr (a, f), x1)"
    "insertExecutionOutbox X r (us 2) t ChErp action (doc_id po) ([(''amendmentId'', JStr (am_id a)), (''poId'', JStr (doc_id po)),
        (''sourcePoVersion'', JNum (jint (int n)))] @ extra @ d) x1 = (Inr m, x2)"
    "on_amendments (transitionProcurementPurchaseOrderAmendment (us 3) \<lparr>at_id = am_id a, at_state = AmQueued,
        at_actorId = xi_actorId r, at_reason = queued, at_outboxId = Some (ob_id m), at_receiptReference = None, at_at = t\<rparr>) x2 = (Inr b, y)"
  using assms unfolding queue_amendment_def by (auto simp: bind_tx_ok with_value_ok split: prod.splits)

lemma queued_books:
  assumes "queue_amendment X us r i kind patch reason action extra queued po n t x = (Inr z, y)"
  shows "xd_projections y = xd_projections x" "xd_quantityEvents y = xd_quantityEvents x" "xd_replies y = xd_replies x"
proof -
  obtain m b where z: "z = (m, b)" by (cases z)
  from assms[unfolded z] have "xd_projections y = xd_projections x \<and> xd_quantityEvents y = xd_quantityEvents x \<and> xd_replies y = xd_replies x"
  proof (rule queued_parts)
    fix a f x1 x2 d act1 act2
    assume w: "on_amendments act1 x = (Inr (a, f), x1)" "insertExecutionOutbox X r (us 2) t ChErp action (doc_id po) d x1 = (Inr m, x2)"
      "on_amendments act2 x2 = (Inr b, y)"
    show ?thesis using moved_books[OF w(1)] inserted_message(6)[OF w(2)] moved_books[OF w(3)] by (simp add: same_books_def)
  qed
  then show "xd_projections y = xd_projections x" "xd_quantityEvents y = xd_quantityEvents x" "xd_replies y = xd_replies x" by simp_all
qed

text \<open>An event that may be counted: a confirmation or a cancellation, or a positive quantity that has passed the guard.\<close>
definition countable :: "exec_env \<Rightarrow> dimension \<Rightarrow> proc_line \<Rightarrow> jnum \<Rightarrow> exec_db \<Rightarrow> bool" where
  "countable X d l q x \<longleftrightarrow> d \<in> {Confirmed, Cancelled} \<or>
     (within_quantities X d l q x = Inr () \<and> is_finite q \<and> jlt (JFin 0) q)"

lemma applied_books:
  assumes "applyExecutionQuantity X src act key l d q t x = (Inr u, y)"
  shows "xd_outbox y = xd_outbox x" "xd_amendments y = xd_amendments x" "xd_replies y = xd_replies x"
    "xd_approvals y = xd_approvals x"
    "\<exists>p p' e is. projection_of X l x = Inr p \<and> applyPurchaseOrderLineQuantityEvent p e = Inr (p', is) \<and>
       qe_dimension e = d \<and> qe_delta e = q \<and>
       (qe_sourceSystem e, qe_sourceEventId e) \<notin> (\<lambda>e. (qe_sourceSystem e, qe_sourceEventId e)) ` set (xd_quantityEvents x) \<and>
       xd_projections y = AList.update (pl_id l) p' (xd_projections x) \<and> xd_quantityEvents y = xd_quantityEvents x @ [e]"
proof -
  let ?e = "\<lparr>qe_tenantId = pe_tenant (xe_proj X), qe_sourceSystem = src,
      qe_sourceEventId = act @ '':'' @ key @ '':'' @ dimension_name d @ '':'' @ pl_id l, qe_poLineId = pl_id l,
      qe_dimension = d, qe_delta = q, qe_occurredAt = pe_iso (xe_proj X) t\<rparr>"
  obtain p where p: "projection_of X l x = Inr p"
    using assms by (cases "projection_of X l x")
      (auto simp: applyExecutionQuantity_def projection_of_def Let_def split: option.splits sum.splits)
  have pre: "(case map_of (xd_projections x) (pl_id l) of Some p \<Rightarrow> Inr p
      | None \<Rightarrow> createPurchaseOrderLineQuantityProjection (pl_id l) (ordered_qty l) (pe_tenant (xe_proj X))) = Inr p"
    using p by (auto simp: projection_of_def split: option.splits sum.splits)
  obtain p' new issues where a: "applyPurchaseOrderLineQuantityEvent p ?e = Inr (p', new, issues)"
    using assms unfolding applyExecutionQuantity_def Let_def pre
    by (cases "applyPurchaseOrderLineQuantityEvent p ?e") auto
  let ?x1 = "x\<lparr>xd_quantityEvents := xd_quantityEvents x @ [?e], xd_projections := AList.update (pl_id l) p' (xd_projections x)\<rparr>"
  have fresh: "(qe_sourceSystem ?e, qe_sourceEventId ?e) \<notin> (\<lambda>e. (qe_sourceSystem e, qe_sourceEventId e)) ` set (xd_quantityEvents x)"
    using assms unfolding applyExecutionQuantity_def Let_def pre sum.case a prod.case by (auto split: if_splits)
  obtain f where "on_proc f ?x1 = (Inr u, y)"
    using assms fresh unfolding applyExecutionQuantity_def Let_def pre sum.case a prod.case
    by (simp split: option.splits) 
  then have b: "same_books ?x1 y" "xd_approvals y = xd_approvals ?x1"
    by (auto simp: on_proc_books on_proc_def split: prod.splits sum.splits)
  show "xd_outbox y = xd_outbox x" "xd_amendments y = xd_amendments x" "xd_replies y = xd_replies x"
    "xd_approvals y = xd_approvals x" using b by (simp_all add: same_books_def)
  show "\<exists>p p' e is. projection_of X l x = Inr p \<and> applyPurchaseOrderLineQuantityEvent p e = Inr (p', is) \<and>
       qe_dimension e = d \<and> qe_delta e = q \<and>
       (qe_sourceSystem e, qe_sourceEventId e) \<notin> (\<lambda>e. (qe_sourceSystem e, qe_sourceEventId e)) ` set (xd_quantityEvents x) \<and>
       xd_projections y = AList.update (pl_id l) p' (xd_projections x) \<and> xd_quantityEvents y = xd_quantityEvents x @ [e]"
    using p a fresh b(1) by (intro exI[of _ p] exI[of _ p'] exI[of _ ?e] exI[of _ "(new, issues)"]) (simp add: same_books_def)
qed

lemma projection_of_other: "map_of (xd_projections y) (pl_id l) = map_of (xd_projections x) (pl_id l) \<Longrightarrow>
    projection_of X l y = projection_of X l x"
  by (simp add: projection_of_def)

lemma countable_other: "map_of (xd_projections y) (pl_id l) = map_of (xd_projections x) (pl_id l) \<Longrightarrow>
    countable X d l q y = countable X d l q x"
  by (simp add: countable_def within_quantities_def projection_of_def)

subsection \<open>The work of the workers\<close>

text \<open>A completion or failure either changes nothing or is the work on the message of the lease.\<close>
lemma complete_work:
  obtains "snd (completeOutboxMessage X us c x) = x"
  | i tok m m' where "need_text (co_leaseToken c) ''leaseToken'' = Inr tok" "getOutboxMessage i x = Some m" "ob_holds tok (co_completedAt c) m" "completed_message X c m = Inr m'"
      "write_completed X us i tok m' (co_completedAt c) x = (Inr m', snd (completeOutboxMessage X us c x))"
proof -
  let ?P = "\<lambda>y. y = x \<or> (\<exists>i tok m m'. need_text (co_leaseToken c) ''leaseToken'' = Inr tok \<and> getOutboxMessage i x = Some m \<and> ob_holds tok (co_completedAt c) m \<and>
      completed_message X c m = Inr m' \<and> write_completed X us i tok m' (co_completedAt c) x = (Inr m', y))"
  have w: "?P (snd (atomic x (write_completed X us i tok m' (co_completedAt c) x)))"
    if g: "need_text (co_leaseToken c) ''leaseToken'' = Inr tok" "getOutboxMessage i x = Some m" "ob_holds tok (co_completedAt c) m" "completed_message X c m = Inr m'" for i tok m m'
  proof (rule atomic_store[of ?P])
    show "?P s" if "write_completed X us i tok m' (co_completedAt c) x = (Inr a, s)" for a s
    proof -
      have "a = m'" using that by (auto simp: write_completed_def tx_ok)
      then show ?thesis using g that by blast
    qed
  qed simp
  have "?P (snd (completeOutboxMessage X us c x))"
    unfolding completeOutboxMessage_def
  proof (intro with_value_store[where P = ?P])
    fix i tok
    assume t: "need_text (co_leaseToken c) ''leaseToken'' = Inr tok"
    have a: "?P (snd (if ob_status m = ObDispatched \<and> ob_leaseToken m = Some tok then (Inr m, x)
        else if \<not> ob_holds tok (co_completedAt c) m then (Inl (XLease i), x)
        else case completed_message X c m of Inl e \<Rightarrow> (Inl e, x)
          | Inr m' \<Rightarrow> atomic x (write_completed X us i tok m' (co_completedAt c) x)))"
      if "getOutboxMessage i x = Some m" for m
      using w[OF t that] by (cases "completed_message X c m") (simp_all only: sum.case snd_conv split: if_split, blast+)
    show "?P (snd (case getOutboxMessage i x of None \<Rightarrow> (Inl (XInvalid ''outbox''), x)
      | Some m \<Rightarrow> if ob_status m = ObDispatched \<and> ob_leaseToken m = Some tok then (Inr m, x)
        else if \<not> ob_holds tok (co_completedAt c) m then (Inl (XLease i), x)
        else case completed_message X c m of Inl e \<Rightarrow> (Inl e, x)
          | Inr m' \<Rightarrow> atomic x (write_completed X us i tok m' (co_completedAt c) x)))"
    proof (cases "getOutboxMessage i x")
      case (Some m)
      show ?thesis using a[OF Some] by (simp only: Some option.case)
    qed simp
  qed simp_all
  then show thesis using that by blast
qed

lemma fail_work:
  obtains "snd (failOutboxMessage X us f x) = x"
  | i tok e m m' where "need_text (fo_leaseToken f) ''leaseToken'' = Inr tok" "getOutboxMessage i x = Some m" "ob_holds tok (fo_failedAt f) m" "failed_message X f e m = Inr m'"
      "write_failed X us i tok f m' x = (Inr m', snd (failOutboxMessage X us f x))"
proof -
  let ?P = "\<lambda>y. y = x \<or> (\<exists>i tok e m m'. need_text (fo_leaseToken f) ''leaseToken'' = Inr tok \<and> getOutboxMessage i x = Some m \<and> ob_holds tok (fo_failedAt f) m \<and>
      failed_message X f e m = Inr m' \<and> write_failed X us i tok f m' x = (Inr m', y))"
  have w: "?P (snd (atomic x (write_failed X us i tok f m' x)))"
    if g: "need_text (fo_leaseToken f) ''leaseToken'' = Inr tok" "getOutboxMessage i x = Some m" "ob_holds tok (fo_failedAt f) m" "failed_message X f e m = Inr m'" for i tok e m m'
  proof (rule atomic_store[of ?P])
    show "?P s" if "write_failed X us i tok f m' x = (Inr a, s)" for a s
    proof -
      have "a = m'" using that by (auto simp: write_failed_def tx_ok)
      then show ?thesis using g that by blast
    qed
  qed simp
  have "?P (snd (failOutboxMessage X us f x))"
    unfolding failOutboxMessage_def
  proof (intro with_value_store[where P = ?P])
    fix i tok err
    assume t: "need_text (fo_leaseToken f) ''leaseToken'' = Inr tok"
    have a: "?P (snd (if \<not> ob_holds tok (fo_failedAt f) m then (Inl (XLease i), x)
        else case failed_message X f (xe_redact X err) m of Inl e \<Rightarrow> (Inl e, x)
          | Inr m' \<Rightarrow> atomic x (write_failed X us i tok f m' x)))"
      if "getOutboxMessage i x = Some m" for m
      using w[OF t that] by (cases "failed_message X f (xe_redact X err) m") (simp_all only: sum.case snd_conv split: if_split, blast+)
    show "?P (snd (if case fo_retryAt f of None \<Rightarrow> False | Some r \<Rightarrow> r \<le> fo_failedAt f then (Inl (XInvalid ''retryAt''), x)
      else case getOutboxMessage i x of None \<Rightarrow> (Inl (XInvalid ''outbox''), x)
      | Some m \<Rightarrow> if \<not> ob_holds tok (fo_failedAt f) m then (Inl (XLease i), x)
        else case failed_message X f (xe_redact X err) m of Inl e \<Rightarrow> (Inl e, x)
          | Inr m' \<Rightarrow> atomic x (write_failed X us i tok f m' x)))"
    proof (cases "getOutboxMessage i x")
      case (Some m)
      show ?thesis using a[OF Some] by (simp only: Some option.case snd_conv split: if_split) simp
    qed simp
  qed simp_all
  then show thesis using that by blast
qed

subsection \<open>Lines that pass the guard\<close>

lemma all_right_all2: "all_right (map f xs) = Inr ys \<Longrightarrow> list_all2 (\<lambda>x y. f x = Inr y) xs ys"
proof (induction xs arbitrary: ys)
  case (Cons x xs)
  then show ?case by (cases "f x"; cases "all_right (map f xs)") auto
qed simp

lemma po_line_id: "po_line ls i = Some l \<Longrightarrow> pl_id l = i"
  by (auto simp: po_line_def find_Some_iff)

lemma moved_line_ok:
  assumes "moved_line X us prefix parent quantity d i ls x ke = Inr (new, l, q)"
  shows "pl_id l = xl_poLineId (snd ke)" "countable X d l q x"
  using assms
  by (auto simp: moved_line_def countable_def requirePositiveQuantity_def check_def po_line_id split: option.splits sum.splits if_splits)

lemma invoice_line_ok:
  assumes "invoice_line X us i c ls x ke = Inr (new, l, q)"
  shows "pl_id l = xl_poLineId (snd ke)" "countable X Invoiced l q x"
proof -
  obtain n' where "moved_line X us ''invoice-line:'' ''invoiceId'' ''invoicedQty'' Invoiced i ls x ke = Inr (n', l, q)"
    using assms by (auto simp: invoice_line_def Let_def split: sum.splits if_splits)
  from moved_line_ok[OF this] show "pl_id l = xl_poLineId (snd ke)" "countable X Invoiced l q x" by auto
qed

lemma execution_lines_distinct: "requireExecutionLines v = Inr es \<Longrightarrow> distinct (map xl_poLineId es)"
  by (auto simp: requireExecutionLines_def distinct_map inj_on_def split: option.splits if_splits)

text \<open>The lines a command has checked: different order lines, each countable in the state of the check.\<close>
definition checked_lines :: "exec_env \<Rightarrow> dimension \<Rightarrow> (proc_line \<times> proc_line \<times> jnum) list \<Rightarrow> exec_db \<Rightarrow> bool" where
  "checked_lines X d cs x \<longleftrightarrow> distinct (map (\<lambda>c. pl_id (fst (snd c))) cs) \<and> list_all (\<lambda>c. countable X d (fst (snd c)) (snd (snd c)) x) cs"

lemma checked_linesI:
  assumes f: "\<And>ke new l q. f ke = Inr (new, l, q) \<Longrightarrow> pl_id l = xl_poLineId (snd ke) \<and> countable X d l q x"
    and r: "requireExecutionLines v = Inr es" and a: "all_right (map f (indexed es)) = Inr cs"
  shows "checked_lines X d cs x"
proof -
  have all: "list_all2 (\<lambda>ke c. pl_id (fst (snd c)) = xl_poLineId (snd ke) \<and> countable X d (fst (snd c)) (snd (snd c)) x) (indexed es) cs"
    by (rule list_all2_mono[OF all_right_all2[OF a]]) (metis f prod.collapse)
  then have "map (\<lambda>c. pl_id (fst (snd c))) cs = map (\<lambda>ke. xl_poLineId (snd ke)) (indexed es)"
    by (induction rule: list_all2_induct) auto
  also have "\<dots> = map xl_poLineId (map snd (indexed es))" by simp
  also have "\<dots> = map xl_poLineId es" by (simp only: indexed_def map_snd_zip length_upt minus_nat.diff_0)
  finally have "distinct (map (\<lambda>c. pl_id (fst (snd c))) cs)" using execution_lines_distinct[OF r] by simp
  moreover have "list_all (\<lambda>c. countable X d (fst (snd c)) (snd (snd c)) x) cs"
    using all by (induction rule: list_all2_induct) auto
  ultimately show ?thesis by (simp add: checked_lines_def)
qed

lemma checked_books: "same_books x y \<Longrightarrow> checked_lines X d cs y = checked_lines X d cs x"
  by (simp add: checked_lines_def countable_other[of y _ x] same_books_def)

subsection \<open>The locale\<close>

named_theorems keeps

text \<open>What may be assumed of every write: the other tables may change, and countable events may be taken.\<close>
locale exec_base =
  fixes X :: exec_env
    and P :: "exec_db \<Rightarrow> bool"
  assumes quiet: "P x \<Longrightarrow> same_books x y \<Longrightarrow> P y"
    and count: "P x \<Longrightarrow> countable X d l q x \<Longrightarrow> applyExecutionQuantity X src act key l d q t x = (Inr (), y) \<Longrightarrow> P y"
begin

lemma keep_done: "P x \<Longrightarrow> after P (Inr a, x)"
  by simp

lemma keep_proc [keeps]: "P x \<Longrightarrow> after P (on_proc f x)"
  using quiet on_proc_books by (fastforce simp: after_def)

lemma keep_activity [keeps]: "P x \<Longrightarrow> after P (insert_activity a x)"
  using quiet by (fastforce simp: after_def insert_activity_def same_books_def split: if_splits)

lemma keep_update [keeps]: "P x \<Longrightarrow> after P (update_document X k d n x)"
  by (simp add: update_document_def keeps)

lemma keep_insert [keeps]: "P x \<Longrightarrow> after P (insert_document X k d x)"
  by (simp add: insert_document_def keeps)

lemma keep_line [keeps]: "P x \<Longrightarrow> after P (insert_line X k i l x)"
  by (simp add: insert_line_def keeps)

lemma keep_stage [keeps]: "P x \<Longrightarrow> after P (stage_fact X u po st ty sta t k src a ev x)"
  by (simp add: stage_fact_def keeps)

lemma keep_approval [keeps]: "P x \<Longrightarrow> after P (insertExecutionApproval a x)"
  using quiet by (fastforce simp: after_def insertExecutionApproval_def same_books_def split: if_splits)

lemma keep_approval_if [keeps]: "P x \<Longrightarrow> after P (insert_approval_if a x)"
  by (cases a) (simp_all add: insert_approval_if_def keeps)

lemma keep_decided [keeps]: "P x \<Longrightarrow> after P (decideExecutionApproval a d by t reason short x)"
  unfolding decideExecutionApproval_def Let_def
  by (rule after_value) (auto intro: quiet simp: same_books_def)

lemma keep_exception: "P x \<Longrightarrow> P (x\<lparr>xd_exceptions := es\<rparr>)"
  by (erule quiet) (simp add: same_books_def)

lemma keep_draft: "P x \<Longrightarrow> P (x\<lparr>xd_drafts := ds, xd_draftEvents := es\<rparr>)"
  by (erule quiet) (simp add: same_books_def)

lemma keep_count: "P x \<Longrightarrow> countable X d l q x \<Longrightarrow> after P (applyExecutionQuantity X src act key l d q t x)"
  using count by (auto simp: after_def)

lemma keep_loop: "P x \<Longrightarrow> (\<And>l y. l \<in> set ls \<Longrightarrow> P y \<Longrightarrow> after P (f l y)) \<Longrightarrow> after P (each_tx f ls x)"
  by (rule after_each)

lemma keep_cancelled [keeps]: "P x \<Longrightarrow> after P (appendPurchaseOrderCancellationQuantities X src po key t x)"
  unfolding appendPurchaseOrderCancellationQuantities_def cancel_line_def Let_def
  by (rule keep_loop) (auto intro!: after_if keep_count simp: countable_def)

lemma keep_bind: "after P r \<Longrightarrow> (\<And>a s. P s \<Longrightarrow> after P (f a s)) \<Longrightarrow> after P (bind_tx r f)"
  by (rule after_bind)

lemma keep_document: "(\<And>d n. after P (f d n x)) \<Longrightarrow> after P (with_document k i e al f x)"
  unfolding with_document_def by (rule after_value) (simp split: prod.split)

lemma keep_order: "(\<And>d n. after P (f d n x)) \<Longrightarrow> after P (with_purchase_order r f x)"
  unfolding with_purchase_order_def by (simp split: option.split)

subsubsection \<open>What a dispatch writes\<close>

lemma keep_with_order: "(\<And>po n. after P (f po n x)) \<Longrightarrow> after P (with_order m k f x)"
  unfolding with_order_def by (intro after_option after_pair after_if) auto

lemma keep_note: "P x \<Longrightarrow> after P (insertOutboxFailureException m t un x)"
  by (auto simp: insertOutboxFailureException_def note_exception_def intro: keep_exception)

lemmas fact_rules = keep_with_order after_option after_value keep_bind after_if after_if_fun after_pair keep_note keep_update
  keep_activity keep_proc keep_cancelled keep_loop keep_done

lemma keep_whatsapp: "P x \<Longrightarrow> after P (record_whatsapp X m i t x)"
  unfolding record_whatsapp_def Let_def by (intro after_value) (auto intro: quiet simp: same_books_def)

lemma keep_send_draft: "P x \<Longrightarrow> after P (send_draft X m t x)"
  unfolding send_draft_def Let_def by (intro after_value after_option after_if keep_whatsapp) (auto intro: quiet simp: same_books_def)

lemma keep_sent_rfq: "P x \<Longrightarrow> after P (send_rfq X m t x)"
  unfolding send_rfq_def by (intro fact_rules) auto

lemma keep_sent_order: "P x \<Longrightarrow> after P (send_order X us m t x)"
  unfolding send_order_def by (intro fact_rules) auto

lemma keep_created_draft: "P x \<Longrightarrow> after P (create_draft X m t x)"
  unfolding create_draft_def Let_def by (intro fact_rules) auto

lemma keep_updated_rihd: "P x \<Longrightarrow> after P (update_rihd X m t x)"
  unfolding update_rihd_def by (intro fact_rules)

lemma keep_written_invoice: "P x \<Longrightarrow> after P (write_invoice X m t x)"
  unfolding write_invoice_def by (intro fact_rules) auto

lemma keep_projection: "P x \<Longrightarrow> after P (enqueueOutboxProjection X m x)"
  unfolding enqueueOutboxProjection_def by (intro fact_rules) auto

lemma keep_sent_audit: "P x \<Longrightarrow> after P (recordSentAttachmentAudit m x)"
  unfolding recordSentAttachmentAudit_def note_sent_def Let_def
  by (intro fact_rules) (auto intro!: after_value intro: quiet simp: same_books_def)

text \<open>A dispatch that carries no amendment moves none.\<close>
lemma keep_plain_fact: "\<not> carries_amendment m \<Longrightarrow> P x \<Longrightarrow> after P (applyCompletedOutboxFact X us m t x)"
  unfolding applyCompletedOutboxFact_def
  by (intro after_if keep_send_draft keep_sent_rfq keep_sent_order keep_created_draft keep_updated_rihd keep_written_invoice keep_done)
    (auto simp: carries_amendment_def)

end

subsection \<open>The facts of a dispatch\<close>

text \<open>For what a completed or failed dispatch writes beside its message, the moves of amendments join.\<close>
locale exec_facts = exec_base +
  assumes moved: "P x \<Longrightarrow> move_to u i st actor reason ob rc t x = (Inr (), y) \<Longrightarrow> P y"
begin

lemma keep_move: "P x \<Longrightarrow> after P (move_to u i st actor reason ob rc t x)"
  using moved by (auto simp: after_def)

lemmas move_rules = fact_rules keep_move

lemma keep_cancel_order: "P x \<Longrightarrow> after P (cancel_order X us m i t x)"
  unfolding cancel_order_def by (intro move_rules)

lemma keep_amend_order: "P x \<Longrightarrow> after P (amend_order X us m i t x)"
  unfolding amend_order_def Let_def by (intro move_rules) auto

lemma keep_amendment_fact:
  "P x \<Longrightarrow> (\<And>i y. P y \<Longrightarrow> after P (g i y)) \<Longrightarrow> after P (amendment_fact X us m t g what unclear x)"
  unfolding amendment_fact_def
  by (rule after_value) (auto split: option.split json.split intro!: keep_bind keep_move keep_note)

lemma keep_completed_fact: "P x \<Longrightarrow> after P (applyCompletedOutboxFact X us m t x)"
  unfolding applyCompletedOutboxFact_def
  by (intro after_if keep_amendment_fact keep_cancel_order keep_amend_order keep_send_draft keep_sent_rfq keep_sent_order
      keep_created_draft keep_updated_rihd keep_written_invoice keep_done)

lemma keep_failure_fact: "P x \<Longrightarrow> after P (failure_fact us f m x)"
  unfolding failure_fact_def markPurchaseOrderAmendmentUnknown_def markPurchaseOrderAmendmentFailed_def
  by (intro move_rules) auto

text \<open>A completion and a failure keep what the write of the message keeps.\<close>
lemma keep_complete:
  assumes "P x"
    and put: "\<And>i tok m m' y. need_text (co_leaseToken c) ''leaseToken'' = Inr tok \<Longrightarrow> getOutboxMessage i x = Some m \<Longrightarrow>
      ob_holds tok (co_completedAt c) m \<Longrightarrow>
      completed_message X c m = Inr m' \<Longrightarrow> put_leased i tok m' x = (Inr (), y) \<Longrightarrow> P y"
  shows "P (snd (completeOutboxMessage X us c x))"
proof (rule complete_work[of X us c x])
  fix i tok m m'
  assume g: "need_text (co_leaseToken c) ''leaseToken'' = Inr tok" "getOutboxMessage i x = Some m" "ob_holds tok (co_completedAt c) m"
      "completed_message X c m = Inr m'"
    and w: "write_completed X us i tok m' (co_completedAt c) x = (Inr m', snd (completeOutboxMessage X us c x))"
  have "after P (put_leased i tok m' x)" using put[OF g] by (simp add: after_def)
  then have "after P (write_completed X us i tok m' (co_completedAt c) x)"
    unfolding write_completed_def by (intro keep_bind keep_completed_fact keep_sent_audit keep_projection keep_done)
  then show ?thesis by (rule afterD[OF _ w])
qed (use assms(1) in simp)

lemma keep_fail:
  assumes "P x"
    and put: "\<And>i tok e m m' y. need_text (fo_leaseToken f) ''leaseToken'' = Inr tok \<Longrightarrow> getOutboxMessage i x = Some m \<Longrightarrow>
      ob_holds tok (fo_failedAt f) m \<Longrightarrow>
      failed_message X f e m = Inr m' \<Longrightarrow> put_leased i tok m' x = (Inr (), y) \<Longrightarrow> P y"
  shows "P (snd (failOutboxMessage X us f x))"
proof (rule fail_work[of X us f x])
  fix i tok e m m'
  assume g: "need_text (fo_leaseToken f) ''leaseToken'' = Inr tok" "getOutboxMessage i x = Some m" "ob_holds tok (fo_failedAt f) m"
      "failed_message X f e m = Inr m'"
    and w: "write_failed X us i tok f m' x = (Inr m', snd (failOutboxMessage X us f x))"
  have "after P (put_leased i tok m' x)" using put[OF g] by (simp add: after_def)
  then have "after P (write_failed X us i tok f m' x)"
    unfolding write_failed_def by (intro keep_bind keep_failure_fact keep_projection keep_done)
  then show ?thesis by (rule afterD[OF _ w])
qed (use assms(1) in simp)

end

subsection \<open>The commands\<close>

locale exec_commands = exec_base +
  assumes queue: "P x \<Longrightarrow> \<not> carries_amendment m \<Longrightarrow> insertExecutionOutbox X r uuid t ch action agg payload x = (Inr m, y) \<Longrightarrow> P y"
    and amend: "P x \<Longrightarrow> queue_amendment X us r i kind patch reason action extra queued po n t x = (Inr z, y) \<Longrightarrow>
      action \<in> {''purchase_order.amend'', ''purchase_order.cancel''} \<Longrightarrow> list_all (\<lambda>kv. fst kv \<noteq> ''amendmentId'') extra \<Longrightarrow> P y"
begin

lemmas keep_rules = keep_document keep_order after_value keep_bind after_if after_if_fun after_option after_pair after_pair_fun
  keep_done keep_exception keep_draft

lemma keep_message: "P x \<Longrightarrow> \<not> (action \<in> {''purchase_order.amend'', ''purchase_order.cancel''} \<and> ch = ChErp) \<Longrightarrow>
    after P (insertExecutionOutbox X r u t ch action agg payload x)"
proof (unfold after_def, intro allI impI)
  fix m y
  assume p: "P x" "\<not> (action \<in> {''purchase_order.amend'', ''purchase_order.cancel''} \<and> ch = ChErp)"
    and i: "insertExecutionOutbox X r u t ch action agg payload x = (Inr m, y)"
  have "ob_action m = action" "ob_channel m = ch" by (rule inserted_message[OF i])+
  then have "\<not> carries_amendment m" using p(2) by (auto simp: carries_amendment_def)
  then show "P y" using queue p(1) i by blast
qed

lemma keep_queue [keeps]: "P x \<Longrightarrow> \<not> (action \<in> {''purchase_order.amend'', ''purchase_order.cancel''} \<and> ch = ChErp) \<Longrightarrow>
    after P (queue_message X r u t ch action agg payload x)"
  unfolding queue_message_def by (intro keep_bind keep_message) auto

lemma keep_amendment: "P x \<Longrightarrow> action \<in> {''purchase_order.amend'', ''purchase_order.cancel''} \<Longrightarrow>
    list_all (\<lambda>kv. fst kv \<noteq> ''amendmentId'') extra \<Longrightarrow> after P (queue_amendment X us r i kind patch reason action extra queued po n t x)"
  using amend unfolding after_def by blast

lemma keep_send_rfq: "P x \<Longrightarrow> after P (executeSendRfq X us r t x)"
  unfolding executeSendRfq_def by (intro keep_rules keep_queue) auto

lemma keep_send_po: "P x \<Longrightarrow> after P (executeSendPo X us r t x)"
  unfolding executeSendPo_def by (intro keep_rules keep_queue) auto

lemma keep_create_draft: "P x \<Longrightarrow> after P (executeCreateOdooPoDraft X us r t x)"
  unfolding executeCreateOdooPoDraft_def by (intro keep_rules keep_queue) auto

lemma keep_update_rihd: "P x \<Longrightarrow> after P (executeUpdateRihd X us r t x)"
  unfolding executeUpdateRihd_def Let_def by (intro keep_rules keep_queue) auto

lemma keep_edit: "P x \<Longrightarrow> after P (executeEditPurchaseOrder X us r t x)"
  unfolding executeEditPurchaseOrder_def edit_draft_def queue_edit_def Let_def
  by (intro keep_rules keep_amendment keep_activity keep_update keep_loop keep_proc) (auto simp: split_beta)

lemma keep_cancel: "P x \<Longrightarrow> after P (executeCancelPurchaseOrder X us r t x)"
  unfolding executeCancelPurchaseOrder_def cancel_local_def queue_cancel_def Let_def
  by (intro keep_rules keep_amendment keep_activity keep_update keep_cancelled) (auto simp: split_beta)

lemma keep_duplicate: "P x \<Longrightarrow> after P (executeDuplicatePurchaseOrder X us r t x)"
  unfolding executeDuplicatePurchaseOrder_def write_duplicate_def Let_def
  by (intro keep_rules keep_activity keep_loop keep_proc) auto

lemma keep_followup: "P x \<Longrightarrow> after P (executeQueueFollowup X us r t x)"
  unfolding executeQueueFollowup_def Let_def by (intro keep_rules) auto

lemma keep_at_risk: "P x \<Longrightarrow> after P (executeMarkAtRisk X us r t x)"
  unfolding executeMarkAtRisk_def Let_def by (intro keep_rules keep_activity) auto

subsubsection \<open>The commands of fulfilment\<close>

lemma keep_fact: "P x \<Longrightarrow> countable X d l q x \<Longrightarrow> after P (quantity_fact X r d t l q x)"
  unfolding quantity_fact_def by (rule keep_count)

lemma keep_counted: "P x \<Longrightarrow> checked_lines X d cs x \<Longrightarrow> after P (each_tx (counted_line X r k d i t) cs x)"
proof (induction cs arbitrary: x)
  case (Cons c cs)
  obtain new l q where c: "c = (new, l, q)" by (cases c)
  have cnt: "countable X d l q x" using Cons.prems(2) by (simp add: checked_lines_def c)
  have "P y \<and> checked_lines X d cs y" if w: "counted_line X r k d i t c x = (Inr (), y)" for y
  proof -
    obtain z where z: "same_books x z" "P z" "quantity_fact X r d t l q z = (Inr (), y)"
      using w Cons.prems(1) quiet by (auto simp: counted_line_def c tx_ok insert_line_def dest: on_proc_books)
    have cz: "countable X d l q z" using cnt countable_other[of z l x] z(1) by (simp add: same_books_def)
    have "P y" using afterD[OF keep_fact[OF z(2) cz] z(3)] .
    moreover have other: "map_of (xd_projections y) j = map_of (xd_projections x) j" if "j \<noteq> pl_id l" for j
      using applied_books(5)[OF z(3)[unfolded quantity_fact_def]] z(1) that by (auto simp: same_books_def update_conv')
    have apart: "pl_id l \<notin> (\<lambda>c. pl_id (fst (snd c))) ` set cs" using Cons.prems(2) by (simp add: checked_lines_def c)
    have "countable X d (fst (snd e)) (snd (snd e)) y" if e: "e \<in> set cs" for e
    proof -
      have "pl_id (fst (snd e)) \<noteq> pl_id l" using imageI[OF e, of "\<lambda>c. pl_id (fst (snd c))"] apart by metis
      from other[OF this] have "countable X d (fst (snd e)) (snd (snd e)) y = countable X d (fst (snd e)) (snd (snd e)) x"
        by (rule countable_other)
      then show ?thesis using Cons.prems(2) e by (simp add: checked_lines_def c list_all_iff)
    qed
    then have "checked_lines X d cs y" using Cons.prems(2) by (simp add: c checked_lines_def list_all_iff)
    ultimately show ?thesis ..
  qed
  then have "after (\<lambda>y. P y \<and> checked_lines X d cs y) (counted_line X r k d i t c x)" by (simp add: after_def)
  then show ?case using Cons.IH by (auto intro: after_bind)
qed simp

text \<open>The document of a fulfilment command, then its counted lines.\<close>
lemma keep_fulfilled:
  assumes "P x" "checked_lines X d cs x" "\<And>y. P y \<Longrightarrow> after P (g y)"
  shows "after P (bind_tx (insert_document X kind doc x) (\<lambda>_ x. bind_tx (each_tx (counted_line X r k d i t) cs x) (\<lambda>_. g)))"
proof (rule after_bind[where Q = "\<lambda>y. P y \<and> same_books x y"])
  show "after (\<lambda>y. P y \<and> same_books x y) (insert_document X kind doc x)"
    using assms(1) by (auto simp: after_def insert_document_def dest!: on_proc_books intro: quiet)
  show "after P (bind_tx (each_tx (counted_line X r k d i t) cs s) (\<lambda>_. g))" if "P s \<and> same_books x s" for s
    using that assms(2,3) checked_books by (auto intro!: keep_bind keep_counted)
qed

lemma keep_shipment: "P x \<Longrightarrow> after P (executeRecordShipment X us r t x)"
  unfolding executeRecordShipment_def Let_def shipment_stages_def
  by (intro keep_document after_value after_if keep_fulfilled keep_bind keep_stage keep_update keep_done)
    (assumption | erule (1) checked_linesI[rotated] | simp add: moved_line_ok)+

lemma keep_receipt: "P x \<Longrightarrow> after P (executeRecordReceipt X us r t x)"
  unfolding executeRecordReceipt_def Let_def receipt_stages_def
  by (intro keep_document after_value after_if keep_fulfilled keep_bind keep_stage keep_update keep_done)
    (assumption | erule (1) checked_linesI[rotated] | simp add: moved_line_ok)+

lemma keep_invoice: "P x \<Longrightarrow> after P (executeRecordInvoice X us r t x)"
  unfolding executeRecordInvoice_def Let_def
  by (intro keep_document after_value after_if keep_fulfilled keep_bind keep_stage keep_update keep_done)
    (assumption | erule (1) checked_linesI[rotated] | simp add: invoice_line_ok)+

lemma keep_confirmation: "P x \<Longrightarrow> after P (executeRecordConfirmation X us r t x)"
  unfolding executeRecordConfirmation_def write_confirmation_def Let_def
  by (intro keep_document after_value after_if after_pair keep_bind keep_approval_if keep_insert keep_loop keep_line keep_fact keep_stage
      keep_update keep_done) (auto simp: countable_def intro!: keep_fact keep_line)

lemma keep_decision: "P x \<Longrightarrow> after P (executeDecideConfirmation X us r t x)"
  unfolding executeDecideConfirmation_def confirmation_decided_def confirm_quantities_def Let_def
  by (intro keep_document after_value after_option after_pair keep_bind after_if keep_decided keep_loop keep_fact keep_stage
      keep_update keep_done) (auto simp: countable_def)

lemma keep_progress: "P x \<Longrightarrow> after P (executeRecordProductionProgress X us r t x)"
  unfolding executeRecordProductionProgress_def write_progress_def Let_def
  by (intro keep_document after_value keep_bind keep_insert keep_loop keep_line keep_stage keep_update keep_done)

lemma keep_transport: "P x \<Longrightarrow> after P (executeRecordTransportEvent X us r t x)"
  unfolding executeRecordTransportEvent_def Let_def
  by (intro keep_document after_value keep_bind keep_insert keep_stage keep_update keep_done)

lemma keep_match: "P x \<Longrightarrow> after P (executeMatchInvoice X us r t x)"
  unfolding executeMatchInvoice_def write_match_def Let_def
  by (intro keep_document after_value after_option after_pair keep_bind keep_insert keep_loop keep_line keep_approval_if keep_update keep_done) auto

lemma keep_payable: "P x \<Longrightarrow> after P (executeDecideAp X us r t x)"
  unfolding executeDecideAp_def Let_def
  by (intro keep_document after_value keep_bind after_if keep_decided keep_update keep_message keep_done) auto

lemmas keep_commands = keep_send_rfq keep_send_po keep_edit keep_cancel keep_duplicate keep_create_draft keep_followup keep_update_rihd
  keep_at_risk keep_confirmation keep_decision keep_progress keep_shipment keep_transport keep_receipt keep_invoice keep_match keep_payable

lemma keep_action: "P x \<Longrightarrow> after P (execute_action X us r t x)"
  unfolding execute_action_def Let_def by (intro after_if keep_commands after_fail)

end

text \<open>No handler touches the recorded replies.\<close>
interpretation replies_kept: exec_commands X "\<lambda>y. xd_replies y = R" for X R
proof
  show "xd_replies y = R" if "xd_replies x = R" "same_books x y" for x y using that by (simp add: same_books_def)
  show "xd_replies y = R" if "xd_replies x = R" "applyExecutionQuantity X src act key l d q t x = (Inr (), y)" for x y src act key l d q t
    using that applied_books(3) by metis
  show "xd_replies y = R" if "xd_replies x = R" "insertExecutionOutbox X r uuid t ch action agg payload x = (Inr m, y)" for x y r uuid t ch action agg payload m
    using that inserted_message(6)[OF that(2)] by (simp add: same_books_def)
  show "xd_replies y = R" if "xd_replies x = R" "queue_amendment X us r i kind patch reason action extra queued po n t x = (Inr z, y)"
    for x y us r i kind patch reason action extra queued po n t z
    using that queued_books[OF that(2)] by simp
qed

text \<open>An invariant of the store: kept by the commands, the record of replies and the operations of the workers that are allowed.\<close>
locale exec_invariant = exec_commands +
  fixes allowed :: "exec_op \<Rightarrow> bool"
  assumes reply: "P x \<Longrightarrow> map_of (xd_replies x) slot = None \<Longrightarrow> P (x\<lparr>xd_replies := xd_replies x @ [(slot, v)]\<rparr>)"
    and requeue: "P x \<Longrightarrow> allowed (Requeue c t k) \<Longrightarrow> P (exec_op_run X (Requeue c t k) x)"
    and claim: "P x \<Longrightarrow> allowed (ClaimOutbox w t ms k oc us) \<Longrightarrow> P (exec_op_run X (ClaimOutbox w t ms k oc us) x)"
    and finish: "P x \<Longrightarrow> allowed (CompleteOutbox us co) \<Longrightarrow> P (exec_op_run X (CompleteOutbox us co) x)"
    and give_up: "P x \<Longrightarrow> allowed (FailOutbox us fo) \<Longrightarrow> P (exec_op_run X (FailOutbox us fo) x)"
begin

lemma keep_mutation: "P x \<Longrightarrow> P (snd (executeProcurementMutation X us r x))"
proof -
  assume p: "P x"
  have perf: "P (snd (perform X us r t x))" if none: "map_of (xd_replies x) (xi_action r, xi_idempotencyKey r) = None" for t
    unfolding perform_def
  proof (rule atomic_store[of P, OF p])
    fix a s
    assume "bind_tx (execute_action X us r t x) (\<lambda>res x. (Inr res,
        x\<lparr>xd_replies := xd_replies x @ [((xi_action r, xi_idempotencyKey r), xi_payloadHash r, res)]\<rparr>)) = (Inr a, s)"
    then obtain y where e: "execute_action X us r t x = (Inr a, y)"
      and s: "s = y\<lparr>xd_replies := xd_replies y @ [((xi_action r, xi_idempotencyKey r), xi_payloadHash r, a)]\<rparr>"
      by (auto simp: bind_tx_ok)
    have py: "P y" using afterD[OF keep_action[OF p] e] .
    have "xd_replies y = xd_replies x" using afterD[OF replies_kept.keep_action[OF refl] e] .
    then show "P s" unfolding s by (intro reply[OF py]) (simp add: none)
  qed
  show ?thesis
    unfolding executeProcurementMutation_def with_value_def using p perf by (simp split: sum.split option.split)
qed

theorem keep_op: "P x \<Longrightarrow> allowed op \<Longrightarrow> P (exec_op_run X op x)"
  using keep_mutation requeue claim finish give_up by (cases op) (auto simp: exec_op_run_def)

theorem keep_run: "P x \<Longrightarrow> list_all allowed ops \<Longrightarrow> P (exec_run X ops x)"
  using keep_op by (induction ops arbitrary: x) auto

end

subsection \<open>Claims and requeues, row by row\<close>

text \<open>What a fold of updates does to each row, when every single update does it.\<close>
lemma foldl_rows:
  assumes "list_all2 R xs (xd_outbox (snd acc))"
    "\<And>acc c. c \<in> set cs \<Longrightarrow> list_all2 R xs (xd_outbox (snd acc)) \<Longrightarrow> list_all2 R xs (xd_outbox (snd (step acc c)))"
  shows "list_all2 R xs (xd_outbox (snd (foldl step acc cs)))"
  using assms by (induction cs arbitrary: acc) auto

lemma upd_where_rows:
  assumes "list_all2 R xs ys" "\<And>a b. a \<in> set xs \<Longrightarrow> R a b \<Longrightarrow> p b \<Longrightarrow> R a (f b)"
  shows "list_all2 R xs (upd_where p f ys)"
  using assms by (induction rule: list_all2_induct) (auto simp: upd_where_def)

definition claimed_row :: "string \<Rightarrow> int \<Rightarrow> instant \<Rightarrow> ob_msg \<Rightarrow> ob_msg \<Rightarrow> bool" where
  "claimed_row w ms t a b \<longleftrightarrow> b = a \<or> (ob_claimable t a \<and> (\<exists>tok. b = leased w (''procurement-lease:'' @ tok) ms t a))"

definition requeued_row :: "instant \<Rightarrow> ob_msg \<Rightarrow> ob_msg \<Rightarrow> bool" where
  "requeued_row t a b \<longleftrightarrow> b = a \<or> (ob_status a = ObBlocked \<and> b = requeued t a)"

lemma same_id_row: "distinct (map ob_id xs) \<Longrightarrow> a \<in> set xs \<Longrightarrow> b \<in> set xs \<Longrightarrow> ob_id a = ob_id b \<Longrightarrow> a = b"
  by (metis distinct_map inj_onD)

lemma claim_rows:
  assumes d: "distinct (map ob_id (xd_outbox x))"
  obtains w where "list_all2 (claimed_row w ms t) (xd_outbox x) (xd_outbox (snd (claimOutboxMessages w0 t ms k ch us x)))"
proof (cases "need_text w0 ''workerId''")
  case (Inl e)
  then have "list_all2 (claimed_row [] ms t) (xd_outbox x) (xd_outbox (snd (claimOutboxMessages w0 t ms k ch us x)))"
    by (simp add: claimOutboxMessages_def claimed_row_def list.rel_refl)
  then show thesis by (rule that)
next
  case (Inr w)
  have step: "list_all2 (claimed_row w ms t) (xd_outbox x) (xd_outbox (snd (claim_one w ms t acc c)))"
    if "0 < ms" "snd c \<in> set (xd_outbox x)" "list_all2 (claimed_row w ms t) (xd_outbox x) (xd_outbox (snd acc))" for acc c
  proof -
    have "claimed_row w ms t a (leased w (''procurement-lease:'' @ fst c) ms t (snd c))"
      if "a \<in> set (xd_outbox x)" "claimed_row w ms t a b" "ob_id b = ob_id (snd c) \<and> ob_claimable t b" for a b
    proof -
      have "b = a" using that \<open>0 < ms\<close> by (auto simp: claimed_row_def leased_def ob_claimable_def)
      then have "a = snd c" using same_id_row[OF d that(1) \<open>snd c \<in> set (xd_outbox x)\<close>] that(3) by simp
      then show ?thesis using that(3) \<open>b = a\<close> by (auto simp: claimed_row_def)
    qed
    then show ?thesis
      using upd_where_rows[OF that(3)] by (simp add: claim_one_def Let_def)
  qed
  have rest: "list_all2 (claimed_row w ms t) (xd_outbox x)
      (xd_outbox (snd (foldl (claim_one w ms t) ([], x) (zip us' (take n (sort_key claim_order (filter p (xd_outbox x))))))))"
    if "0 < ms" for us' n p
  proof (rule foldl_rows)
    show "list_all2 (claimed_row w ms t) (xd_outbox x) (xd_outbox (snd ([], x)))" by (simp add: claimed_row_def list.rel_refl)
    show "list_all2 (claimed_row w ms t) (xd_outbox x) (xd_outbox (snd (claim_one w ms t acc c)))"
      if "c \<in> set (zip us' (take n (sort_key claim_order (filter p (xd_outbox x)))))"
        "list_all2 (claimed_row w ms t) (xd_outbox x) (xd_outbox (snd acc))" for acc c
    proof (rule step[OF \<open>0 < ms\<close> _ that(2)])
      have "snd c \<in> set (take n (sort_key claim_order (filter p (xd_outbox x))))" using that(1) set_zip_rightD[of "fst c" "snd c"] by simp
      then show "snd c \<in> set (xd_outbox x)" by (auto dest: in_set_takeD)
    qed
  qed
  have "list_all2 (claimed_row w ms t) (xd_outbox x) (xd_outbox (snd (claimOutboxMessages w0 t ms k ch us x)))"
    unfolding claimOutboxMessages_def Inr sum.case Let_def
    using rest by (simp add: claimed_row_def list.rel_refl)
  then show thesis by (rule that)
qed

lemma requeue_rows:
  assumes d: "distinct (map ob_id (xd_outbox x))"
  shows "list_all2 (requeued_row t) (xd_outbox x) (xd_outbox (snd (requeueBlockedOutboxMessages c0 t k x)))"
proof (cases "need_text c0 ''connectorId''")
  case (Inr c)
  have rest: "list_all2 (requeued_row t) (xd_outbox x)
      (xd_outbox (snd (foldl (requeue_one c t) ([], x) (take n (sort_key f (filter p (xd_outbox x)))))))"
    for n p and f :: "ob_msg \<Rightarrow> instant \<times> ident"
  proof (rule foldl_rows)
    show "list_all2 (requeued_row t) (xd_outbox x) (xd_outbox (snd ([], x)))" by (simp add: requeued_row_def list.rel_refl)
    show "list_all2 (requeued_row t) (xd_outbox x) (xd_outbox (snd (requeue_one c t acc m)))"
      if "m \<in> set (take n (sort_key f (filter p (xd_outbox x))))" "list_all2 (requeued_row t) (xd_outbox x) (xd_outbox (snd acc))" for acc m
    proof -
      have m: "m \<in> set (xd_outbox x)" using that(1) by (auto dest: in_set_takeD)
      have "requeued_row t a (requeued t m)"
        if "a \<in> set (xd_outbox x)" "requeued_row t a b" "ob_id b = ob_id m \<and> ob_connectorId b = c \<and> ob_status b = ObBlocked" for a b
      proof -
        have "b = a" using that by (auto simp: requeued_row_def requeued_def)
        then show ?thesis using same_id_row[OF d that(1) m] that(3) by (auto simp: requeued_row_def)
      qed
      then show ?thesis using upd_where_rows[OF that(2)] by (simp add: requeue_one_def Let_def)
    qed
  qed
  show ?thesis
    unfolding requeueBlockedOutboxMessages_def Inr sum.case Let_def
    using rest by (simp add: requeued_row_def list.rel_refl)
qed (simp add: requeueBlockedOutboxMessages_def requeued_row_def list.rel_refl)

lemma foldl_books:
  assumes "\<And>acc c. \<exists>ms. snd (step acc c) = (snd acc)\<lparr>xd_outbox := ms\<rparr>"
  shows "\<exists>ms. snd (foldl step acc cs) = (snd acc)\<lparr>xd_outbox := ms\<rparr>"
proof (induction cs arbitrary: acc)
  case Nil
  show ?case by (rule exI[of _ "xd_outbox (snd acc)"]) simp
next
  case (Cons c cs)
  obtain ms where "snd (step acc c) = (snd acc)\<lparr>xd_outbox := ms\<rparr>" using assms by blast
  then show ?case using Cons.IH[of "step acc c"] by auto
qed

lemma claim_books: "\<exists>ms. snd (claimOutboxMessages w0 t lms k ch us x) = x\<lparr>xd_outbox := ms\<rparr>"
proof -
  have same: "\<exists>ms. x = x\<lparr>xd_outbox := ms\<rparr>" by (rule exI[of _ "xd_outbox x"]) simp
  have "\<exists>ms. snd (foldl (claim_one w lms t) ([], x) cs) = x\<lparr>xd_outbox := ms\<rparr>" for w cs
  proof -
    have "\<exists>ms. snd (claim_one w lms t acc c) = (snd acc)\<lparr>xd_outbox := ms\<rparr>" for acc c
      unfolding claim_one_def Let_def by (cases acc) (auto simp del: fst_conv)
    from foldl_books[where acc = "([], x)" and cs = cs, OF this] show ?thesis by simp
  qed
  then show ?thesis using same by (auto simp: claimOutboxMessages_def Let_def split: sum.split)
qed

lemma requeue_books: "\<exists>ms. snd (requeueBlockedOutboxMessages c0 t k x) = x\<lparr>xd_outbox := ms\<rparr>"
proof -
  have same: "\<exists>ms. x = x\<lparr>xd_outbox := ms\<rparr>" by (rule exI[of _ "xd_outbox x"]) simp
  have "\<exists>ms. snd (foldl (requeue_one c t) ([], x) cs) = x\<lparr>xd_outbox := ms\<rparr>" for c cs
  proof -
    have "\<exists>ms. snd (requeue_one c t acc m) = (snd acc)\<lparr>xd_outbox := ms\<rparr>" for acc m
      unfolding requeue_one_def Let_def by (cases acc) (auto simp del: fst_conv)
    from foldl_books[where acc = "([], x)" and cs = cs, OF this] show ?thesis by simp
  qed
  then show ?thesis using same by (auto simp: requeueBlockedOutboxMessages_def Let_def split: sum.split)
qed

end
