(* ===== verification/OutboxRows.thy ===== *)
theory OutboxRows
  imports ExecutionInvariants
begin

text \<open>
  The rows of the execution outbox along any run of mutations and workers: what each operation of a
  worker does to a row, the shape of a row in each status, the permanence of what was queued, and the
  leases as an instance of the lease queue.
\<close>

subsection \<open>What the workers do to a row\<close>

definition completed_row :: "exec_env \<Rightarrow> completion \<Rightarrow> ob_msg \<Rightarrow> ob_msg \<Rightarrow> bool" where
  "completed_row X c a b \<longleftrightarrow> b = a \<or>
     (ob_holds (trim (co_leaseToken c)) (co_completedAt c) a \<and> completed_message X c a = Inr b)"

definition failed_row :: "exec_env \<Rightarrow> failing \<Rightarrow> ob_msg \<Rightarrow> ob_msg \<Rightarrow> bool" where
  "failed_row X f a b \<longleftrightarrow> b = a \<or>
     (ob_holds (trim (fo_leaseToken f)) (fo_failedAt f) a \<and> (\<exists>e. failed_message X f e a = Inr b))"

lemma message_row: "getOutboxMessage i x = Some m \<Longrightarrow> m \<in> set (xd_outbox x) \<and> ob_id m = i"
  unfolding getOutboxMessage_def by (auto simp: find_Some_iff)

lemma put_rows:
  assumes "distinct (map ob_id (xd_outbox x))" "getOutboxMessage i x = Some m" "put_leased i tok m' x = (Inr (), y)"
    "\<And>a. R a a" "R m m'"
  shows "list_all2 R (xd_outbox x) (xd_outbox y)"
proof -
  have y: "xd_outbox y = upd_where (\<lambda>y. ob_id y = i \<and> ob_status y = ObProcessing \<and> ob_leaseToken y = Some tok) (\<lambda>_. m') (xd_outbox x)"
    using assms(3) by (auto simp: put_leased_def Let_def split: if_splits)
  have "R a m'" if "a \<in> set (xd_outbox x)" "ob_id a = i" for a
    using same_id_row[OF assms(1) that(1), of m] message_row[OF assms(2)] that(2) assms(5) by auto
  then show ?thesis unfolding y by (auto simp: upd_where_def list_all2_map2 list_all2_same assms(4))
qed

interpretation rows: exec_facts X "\<lambda>y. list_all2 R xs (xd_outbox y)" for X xs R
  by unfold_locales (auto simp: same_books_def dest: applied_books(1) move_to_books(1))

lemma complete_rows:
  assumes "distinct (map ob_id (xd_outbox x))"
  shows "list_all2 (completed_row X c) (xd_outbox x) (xd_outbox (snd (completeOutboxMessage X us c x)))"
proof (rule rows.keep_complete)
  show "list_all2 (completed_row X c) (xd_outbox x) (xd_outbox x)" by (simp add: completed_row_def list.rel_refl)
  show "list_all2 (completed_row X c) (xd_outbox x) (xd_outbox y)"
    if "need_text (co_leaseToken c) ''leaseToken'' = Inr tok" "getOutboxMessage i x = Some m" "ob_holds tok (co_completedAt c) m"
      "completed_message X c m = Inr m'" "put_leased i tok m' x = (Inr (), y)" for i tok m m' y
    by (rule put_rows[OF assms that(2,5)]) (use that in \<open>auto simp: completed_row_def need_text_def split: if_splits\<close>)
qed

lemma fail_rows:
  assumes "distinct (map ob_id (xd_outbox x))"
  shows "list_all2 (failed_row X f) (xd_outbox x) (xd_outbox (snd (failOutboxMessage X us f x)))"
proof (rule rows.keep_fail)
  show "list_all2 (failed_row X f) (xd_outbox x) (xd_outbox x)" by (simp add: failed_row_def list.rel_refl)
  show "list_all2 (failed_row X f) (xd_outbox x) (xd_outbox y)"
    if "need_text (fo_leaseToken f) ''leaseToken'' = Inr tok" "getOutboxMessage i x = Some m" "ob_holds tok (fo_failedAt f) m"
      "failed_message X f e m = Inr m'" "put_leased i tok m' x = (Inr (), y)" for i tok e m m' y
    by (rule put_rows[OF assms that(2,5)]) (use that in \<open>auto simp: failed_row_def need_text_def split: if_splits\<close>)
qed

lemma queued_outbox:
  assumes "queue_amendment X us r i kind patch reason action extra queued po n t x = (Inr z, y)"
  shows "xd_outbox y = xd_outbox x @ [fst z]"
proof -
  obtain m b where z: "z = (m, b)" by (cases z)
  from assms[unfolded z] show ?thesis
  proof (rule queued_parts)
    fix a f x1 x2 d act1 act2
    assume w: "on_amendments act1 x = (Inr (a, f), x1)" "insertExecutionOutbox X r (us 2) t ChErp action (doc_id po) d x1 = (Inr m, x2)"
      "on_amendments act2 x2 = (Inr b, y)"
    show ?thesis using moved_books(1)[OF w(1)] inserted_message(6)[OF w(2)] moved_books(1)[OF w(3)] by (simp add: z same_books_def)
  qed
qed

subsection \<open>The shape of a row\<close>

definition unleased :: "ob_msg \<Rightarrow> bool" where
  "unleased m \<longleftrightarrow> ob_leaseOwner m = None \<and> ob_leaseToken m = None \<and> ob_leaseExpiresAt m = None"

definition ob_ok :: "ob_msg \<Rightarrow> bool" where
  "ob_ok m \<longleftrightarrow> (case ob_status m of
     ObPending \<Rightarrow> unleased m \<and> ob_dispatchedAt m = None \<and> ob_failedAt m = None
   | ObBlocked \<Rightarrow> unleased m \<and> ob_dispatchedAt m = None \<and> ob_failedAt m = None \<and> ob_error m \<noteq> None \<and> ob_attempts m = 0 \<and>
       ob_nextAttemptAt m = None
   | ObProcessing \<Rightarrow> ob_leaseOwner m \<noteq> None \<and> ob_leaseToken m \<noteq> None \<and> ob_leaseExpiresAt m \<noteq> None \<and> 0 < ob_attempts m \<and>
       ob_nextAttemptAt m = None \<and> ob_dispatchedAt m = None \<and> ob_failedAt m = None \<and> ob_error m = None
   | ObDispatched \<Rightarrow> ob_leaseToken m \<noteq> None \<and> 0 < ob_attempts m \<and> ob_nextAttemptAt m = None \<and> ob_dispatchedAt m \<noteq> None \<and>
       ob_failedAt m = None \<and> ob_error m = None
   | ObFailed \<Rightarrow> unleased m \<and> 0 < ob_attempts m \<and> ob_nextAttemptAt m = None \<and> ob_dispatchedAt m = None \<and>
       ob_failedAt m \<noteq> None \<and> ob_error m \<noteq> None)"

text \<open>What was queued: everything about a message but its way through the queue.\<close>
definition same_letter :: "ob_msg \<Rightarrow> ob_msg \<Rightarrow> bool" where
  "same_letter a b \<longleftrightarrow> ob_id b = ob_id a \<and> ob_channel b = ob_channel a \<and> ob_connectorId b = ob_connectorId a \<and>
     ob_action b = ob_action a \<and> ob_aggregateId b = ob_aggregateId a \<and> ob_idempotencyKey b = ob_idempotencyKey a \<and>
     ob_payload b = ob_payload a \<and> ob_createdAt b = ob_createdAt a"

lemma new_ok: "ob_ok (new_message r u t ch c action agg payload)"
  by (simp add: ob_ok_def new_message_def unleased_def)

lemma claimed_ok: "claimed_row w ms t a b \<Longrightarrow> same_letter a b \<and> (ob_ok a \<longrightarrow> ob_ok b)"
  by (auto simp: claimed_row_def same_letter_def ob_ok_def leased_def)

lemma requeued_ok: "requeued_row t a b \<Longrightarrow> same_letter a b \<and> (ob_ok a \<longrightarrow> ob_ok b)"
  by (auto simp: requeued_row_def same_letter_def ob_ok_def requeued_def unleased_def)

lemma safe_result_cases: "safe_result X r m = Inr b \<Longrightarrow> b = m \<or> (\<exists>c. b = m\<lparr>ob_connectorResult := Some c\<rparr>)"
  by (auto simp: safe_result_def split: option.splits sum.splits)

lemma completed_cases:
  assumes "completed_message X c a = Inr b"
  obtains (row) cr sent where "b = a\<lparr>ob_status := ObDispatched, ob_dispatchedAt := Some (co_completedAt c), ob_updatedAt := co_completedAt c,
      ob_nextAttemptAt := None, ob_failedAt := None, ob_error := None, ob_sentAttachments := sent, ob_connectorResult := cr\<rparr>"
proof -
  obtain s where "safe_result X (co_connectorResult c) (a\<lparr>ob_status := ObDispatched, ob_dispatchedAt := Some (co_completedAt c),
      ob_updatedAt := co_completedAt c, ob_nextAttemptAt := None, ob_failedAt := None, ob_error := None, ob_sentAttachments := s\<rparr>) = Inr b"
    using assms by (auto simp: completed_message_def split: sum.splits if_splits)
  let ?m = "a\<lparr>ob_status := ObDispatched, ob_dispatchedAt := Some (co_completedAt c), ob_updatedAt := co_completedAt c,
      ob_nextAttemptAt := None, ob_failedAt := None, ob_error := None, ob_sentAttachments := s\<rparr>"
  have "b = ?m \<or> (\<exists>c. b = ?m\<lparr>ob_connectorResult := Some c\<rparr>)" by (rule safe_result_cases) fact
  then have "b = ?m\<lparr>ob_connectorResult := ob_connectorResult a\<rparr> \<or> (\<exists>c. b = ?m\<lparr>ob_connectorResult := Some c\<rparr>)" by simp
  then show thesis by (elim disjE exE) (rule row, assumption)+
qed

lemma completed_ok: "completed_row X c a b \<Longrightarrow> same_letter a b \<and> (ob_ok a \<longrightarrow> ob_ok b)"
  unfolding completed_row_def
  by (elim disjE conjE) (auto simp: same_letter_def ob_ok_def ob_holds_def elim!: completed_cases)

lemma failed_cases:
  assumes "failed_message X f e a = Inr b"
  obtains cr where "b = a\<lparr>ob_attempts := (if fo_deferred f \<and> fo_retryAt f \<noteq> None then ob_attempts a - 1 else ob_attempts a),
     ob_status := (if fo_retryAt f = None then ObFailed else ObPending), ob_updatedAt := fo_failedAt f, ob_error := Some e,
     ob_nextAttemptAt := fo_retryAt f, ob_failedAt := (if fo_retryAt f = None then Some (fo_failedAt f) else None),
     ob_leaseOwner := None, ob_leaseToken := None, ob_leaseExpiresAt := None, ob_connectorResult := cr\<rparr>"
proof -
  let ?m = "a\<lparr>ob_attempts := (if fo_deferred f \<and> fo_retryAt f \<noteq> None then ob_attempts a - 1 else ob_attempts a),
     ob_status := (if fo_retryAt f = None then ObFailed else ObPending), ob_updatedAt := fo_failedAt f, ob_error := Some e,
     ob_nextAttemptAt := fo_retryAt f, ob_failedAt := (if fo_retryAt f = None then Some (fo_failedAt f) else None),
     ob_leaseOwner := None, ob_leaseToken := None, ob_leaseExpiresAt := None\<rparr>"
  have "b = ?m \<or> (\<exists>c. b = ?m\<lparr>ob_connectorResult := Some c\<rparr>)"
    using assms unfolding failed_message_def by (rule safe_result_cases)
  then have "b = ?m\<lparr>ob_connectorResult := ob_connectorResult a\<rparr> \<or> (\<exists>c. b = ?m\<lparr>ob_connectorResult := Some c\<rparr>)" by simp
  then show thesis by (elim disjE exE) (rule that, assumption)+
qed

lemma failed_ok: "failed_row X f a b \<Longrightarrow> same_letter a b \<and> (ob_ok a \<longrightarrow> ob_ok b)"
  unfolding failed_row_def
  by (elim disjE conjE exE) (auto simp: same_letter_def ob_ok_def ob_holds_def unleased_def elim!: failed_cases)

definition outbox_ok :: "exec_db \<Rightarrow> bool" where
  "outbox_ok x \<longleftrightarrow> distinct (map ob_id (xd_outbox x)) \<and>
     distinct (map (\<lambda>m. (ob_channel m, ob_idempotencyKey m)) (xd_outbox x)) \<and> list_all ob_ok (xd_outbox x)"

lemma rows_ok:
  assumes ok: "outbox_ok x" and r: "list_all2 R (xd_outbox x) (xd_outbox y)"
    and R: "\<And>a b. R a b \<Longrightarrow> same_letter a b \<and> (ob_ok a \<longrightarrow> ob_ok b)"
  shows "outbox_ok y"
proof -
  have "list_all2 (\<lambda>a b. same_letter a b \<and> (ob_ok a \<longrightarrow> ob_ok b)) (xd_outbox x) (xd_outbox y)"
    using r R by (rule list_all2_mono)
  then have "map ob_id (xd_outbox y) = map ob_id (xd_outbox x) \<and>
      map (\<lambda>m. (ob_channel m, ob_idempotencyKey m)) (xd_outbox y) = map (\<lambda>m. (ob_channel m, ob_idempotencyKey m)) (xd_outbox x) \<and>
      (list_all ob_ok (xd_outbox x) \<longrightarrow> list_all ob_ok (xd_outbox y))"
    by (induction rule: list_all2_induct) (auto simp: same_letter_def)
  then show ?thesis using ok unfolding outbox_ok_def by metis
qed

lemma outbox_ok_ids: "outbox_ok x \<Longrightarrow> distinct (map ob_id (xd_outbox x))"
  by (simp add: outbox_ok_def)

lemma outbox_ok_insert:
  assumes "outbox_ok x" "insertExecutionOutbox X r u t ch action agg payload x = (Inr m, y)"
  shows "outbox_ok y"
proof -
  note m = inserted_message[OF assms(2)]
  have "ob_ok m" using m(3) new_ok by auto
  then show ?thesis using assms(1) m(4,5,6) by (simp add: outbox_ok_def same_books_def)
qed

lemma outbox_ok_same: "outbox_ok x \<Longrightarrow> xd_outbox y = xd_outbox x \<Longrightarrow> outbox_ok y"
  by (simp add: outbox_ok_def)

lemma outbox_ok_queued:
  assumes "outbox_ok x" "queue_amendment X us r i kind patch reason action extra queued po n t x = (Inr z, y)"
  shows "outbox_ok y"
proof -
  obtain m b where z: "z = (m, b)" by (cases z)
  from assms(2)[unfolded z] show ?thesis
  proof (rule queued_parts)
    fix a f x1 x2 d act1 act2
    assume w: "on_amendments act1 x = (Inr (a, f), x1)" "insertExecutionOutbox X r (us 2) t ChErp action (doc_id po) d x1 = (Inr m, x2)"
      "on_amendments act2 x2 = (Inr b, y)"
    show ?thesis using outbox_ok_same[OF outbox_ok_insert[OF outbox_ok_same[OF assms(1) moved_books(1)[OF w(1)]] w(2)] moved_books(1)[OF w(3)]] .
  qed
qed

text \<open>The outbox stays well formed whatever the mutations and the workers do.\<close>
interpretation well_formed: exec_invariant X outbox_ok "\<lambda>_. True" for X
proof
  show "outbox_ok y" if "outbox_ok x" "same_books x y" for x y using that outbox_ok_same by (simp add: same_books_def)
  show "outbox_ok y" if "outbox_ok x" "applyExecutionQuantity X src act key l d q t x = (Inr (), y)" for x y src act key l d q t
    using outbox_ok_same that applied_books(1) by blast
  show "outbox_ok y" if "outbox_ok x" "insertExecutionOutbox X r uuid t ch action agg payload x = (Inr m, y)"
    for x y r uuid t ch action agg payload m using that by (rule outbox_ok_insert)
  show "outbox_ok y" if "outbox_ok x" "queue_amendment X us r i kind patch reason action extra queued po n t x = (Inr z, y)"
    for x y us r i kind patch reason action extra queued po n t z using that by (rule outbox_ok_queued)
  show "outbox_ok (x\<lparr>xd_replies := xd_replies x @ [(slot, v)]\<rparr>)" if "outbox_ok x" for x slot v using that outbox_ok_same by simp
  show "outbox_ok (exec_op_run X (Requeue c t k) x)" if "outbox_ok x" for x c t k
    using rows_ok[OF that requeue_rows[OF outbox_ok_ids[OF that]]] requeued_ok by (simp add: exec_op_run_def)
  show "outbox_ok (exec_op_run X (ClaimOutbox w t ms k oc us) x)" if "outbox_ok x" for x w t ms k oc us
  proof (rule claim_rows[OF outbox_ok_ids[OF that], of ms t w k oc us])
    fix v
    assume "list_all2 (claimed_row v ms t) (xd_outbox x) (xd_outbox (snd (claimOutboxMessages w t ms k oc us x)))"
    then show ?thesis using rows_ok[OF that] claimed_ok by (simp add: exec_op_run_def)
  qed
  show "outbox_ok (exec_op_run X (CompleteOutbox us co) x)" if "outbox_ok x" for x us co
    using rows_ok[OF that complete_rows[OF outbox_ok_ids[OF that]]] completed_ok by (simp add: exec_op_run_def)
  show "outbox_ok (exec_op_run X (FailOutbox us fo) x)" if "outbox_ok x" for x us fo
    using rows_ok[OF that fail_rows[OF outbox_ok_ids[OF that]]] failed_ok by (simp add: exec_op_run_def)
qed

subsection \<open>Facts about single rows\<close>

text \<open>A property of the rows that survives new rows and the allowed operations of the workers.\<close>
locale row_invariant =
  fixes X :: exec_env
    and Q :: "ob_msg list \<Rightarrow> bool"
    and allowed :: "exec_op \<Rightarrow> bool"
  assumes new: "Q ms \<Longrightarrow> Q (ms @ [m])"
    and requeued: "Q ms \<Longrightarrow> list_all2 (requeued_row t) ms ns \<Longrightarrow> Q ns"
    and claimed: "Q ms \<Longrightarrow> allowed (ClaimOutbox w t d k oc us) \<Longrightarrow> list_all2 (claimed_row v d t) ms ns \<Longrightarrow> Q ns"
    and completed: "Q ms \<Longrightarrow> allowed (CompleteOutbox us c) \<Longrightarrow> list_all2 (completed_row X c) ms ns \<Longrightarrow> Q ns"
    and failed: "Q ms \<Longrightarrow> allowed (FailOutbox us f) \<Longrightarrow> list_all2 (failed_row X f) ms ns \<Longrightarrow> Q ns"

sublocale row_invariant \<subseteq> exec_invariant X "\<lambda>y. outbox_ok y \<and> Q (xd_outbox y)" allowed
proof
  show "outbox_ok y \<and> Q (xd_outbox y)" if "outbox_ok x \<and> Q (xd_outbox x)" "same_books x y" for x y
    using that outbox_ok_same[of x y] by (simp add: same_books_def)
  show "outbox_ok y \<and> Q (xd_outbox y)" if "outbox_ok x \<and> Q (xd_outbox x)" "applyExecutionQuantity X src act key l d q t x = (Inr (), y)"
    for x y src act key l d q t using that applied_books(1)[OF that(2)] outbox_ok_same[of x y] by simp
  show "outbox_ok y \<and> Q (xd_outbox y)" if "outbox_ok x \<and> Q (xd_outbox x)"
      "insertExecutionOutbox X r uuid t ch action agg payload x = (Inr m, y)" for x y r uuid t ch action agg payload m
    using that(1) outbox_ok_insert[OF _ that(2)] inserted_message(6)[OF that(2)] new by (simp add: same_books_def)
  show "outbox_ok y \<and> Q (xd_outbox y)" if "outbox_ok x \<and> Q (xd_outbox x)"
      "queue_amendment X us r i kind patch reason action extra queued po n t x = (Inr z, y)" for x y us r i kind patch reason action extra queued po n t z
    using that(1) outbox_ok_queued[OF _ that(2)] queued_outbox[OF that(2)] new by metis
  show "outbox_ok (x\<lparr>xd_replies := xd_replies x @ [(slot, v)]\<rparr>) \<and> Q (xd_outbox (x\<lparr>xd_replies := xd_replies x @ [(slot, v)]\<rparr>))"
    if "outbox_ok x \<and> Q (xd_outbox x)" for x slot v using that outbox_ok_same[of x] by simp
  show "outbox_ok (exec_op_run X (Requeue c t k) x) \<and> Q (xd_outbox (exec_op_run X (Requeue c t k) x))"
    if "outbox_ok x \<and> Q (xd_outbox x)" for x c t k
    using that well_formed.requeue[of x X c t k] requeued[OF _ requeue_rows[where x = x and t = t and k = k, OF outbox_ok_ids]] by (auto simp: exec_op_run_def)
  show "outbox_ok (exec_op_run X (ClaimOutbox w t ms k oc us) x) \<and> Q (xd_outbox (exec_op_run X (ClaimOutbox w t ms k oc us) x))"
    if "outbox_ok x \<and> Q (xd_outbox x)" "allowed (ClaimOutbox w t ms k oc us)" for x w t ms k oc us
  proof (rule claim_rows[OF outbox_ok_ids, of x ms t w k oc us])
    fix v
    assume "list_all2 (claimed_row v ms t) (xd_outbox x) (xd_outbox (snd (claimOutboxMessages w t ms k oc us x)))"
    then show ?thesis using that well_formed.claim[of x X w t ms k oc us] claimed by (auto simp: exec_op_run_def)
  qed (use that in simp)
  show "outbox_ok (exec_op_run X (CompleteOutbox us c) x) \<and> Q (xd_outbox (exec_op_run X (CompleteOutbox us c) x))"
    if "outbox_ok x \<and> Q (xd_outbox x)" "allowed (CompleteOutbox us c)" for x us c
    using that well_formed.finish[of x X us c] completed[OF _ _ complete_rows[where x = x and c = c and us = us, OF outbox_ok_ids]] by (auto simp: exec_op_run_def)
  show "outbox_ok (exec_op_run X (FailOutbox us f) x) \<and> Q (xd_outbox (exec_op_run X (FailOutbox us f) x))"
    if "outbox_ok x \<and> Q (xd_outbox x)" "allowed (FailOutbox us f)" for x us f
    using that well_formed.give_up[of x X us f] failed[OF _ _ fail_rows[where x = x and f = f and us = us, OF outbox_ok_ids]] by (auto simp: exec_op_run_def)
qed

context row_invariant
begin

lemma rows_run:
  assumes "outbox_ok x" "Q (xd_outbox x)" "list_all allowed ops"
  shows "outbox_ok (exec_run X ops x) \<and> Q (xd_outbox (exec_run X ops x))"
  using keep_run[of x ops] assms by blast

end

text \<open>How a row may change for good: its letter stays, and a settled one stays altogether.\<close>
definition later :: "ob_msg \<Rightarrow> ob_msg \<Rightarrow> bool" where
  "later a b \<longleftrightarrow> same_letter a b \<and> (ob_status a \<in> {ObDispatched, ObFailed} \<longrightarrow> b = a)"

lemma later_refl: "later a a"
  by (simp add: later_def same_letter_def)

lemma later_trans: "later a b \<Longrightarrow> later b c \<Longrightarrow> later a c"
  by (auto simp: later_def same_letter_def)

lemma later_rows:
  "claimed_row v d t a b \<Longrightarrow> later a b" "requeued_row t a b \<Longrightarrow> later a b" "completed_row X c a b \<Longrightarrow> later a b"
  "failed_row X f a b \<Longrightarrow> later a b"
  using claimed_ok[of v d t a b] requeued_ok[of t a b] completed_ok[of X c a b] failed_ok[of X f a b]
  by (auto simp: later_def claimed_row_def requeued_row_def completed_row_def failed_row_def ob_claimable_def ob_holds_def)

definition grown_from :: "ob_msg list \<Rightarrow> ob_msg list \<Rightarrow> bool" where
  "grown_from ms ns \<longleftrightarrow> length ms \<le> length ns \<and> list_all2 later ms (take (length ms) ns)"

lemma grown_refl: "grown_from ms ms"
  by (simp add: grown_from_def list.rel_refl later_refl)

lemma grown_rows:
  assumes "grown_from ms ns" "list_all2 R ns os" "\<And>a b. R a b \<Longrightarrow> later a b"
  shows "grown_from ms os"
proof -
  have "list_all2 later ns os" using assms(2,3) by (rule list_all2_mono)
  then have "list_all2 later (take (length ms) ns) (take (length ms) os)" by simp
  then have "list_all2 later ms (take (length ms) os)"
    using assms(1) list_all2_trans[of later later later ms "take (length ms) ns"] later_trans by (auto simp: grown_from_def)
  then show ?thesis using assms(1) list_all2_lengthD[OF assms(2)] by (simp add: grown_from_def)
qed

interpretation kept_rows: row_invariant X "grown_from ms" "\<lambda>_. True" for X ms
proof
  show "grown_from ms (ns @ [m])" if "grown_from ms ns" for ns m using that by (simp add: grown_from_def)
qed (use grown_rows later_rows in blast)+

subsection \<open>Leases\<close>

definition ob_holder :: "ob_msg \<Rightarrow> string option" where
  "ob_holder m = (if ob_status m = ObProcessing then ob_leaseToken m else None)"

definition ob_row_claim :: "string \<times> string \<times> int \<Rightarrow> instant \<Rightarrow> ob_msg \<Rightarrow> ob_msg option" where
  "ob_row_claim c t m = (if ob_claimable t m then Some (leased (fst c) (fst (snd c)) (snd (snd c)) t m) else None)"

text \<open>The end of a lease: the message as the completion or the failure of its worker leaves it.\<close>
definition ob_row_finish :: "ob_msg \<Rightarrow> instant \<Rightarrow> string \<Rightarrow> ob_msg \<Rightarrow> ob_msg option" where
  "ob_row_finish m' t tok m = (if ob_holds tok t m \<and> ob_status m' \<in> {ObDispatched, ObFailed, ObPending} then Some m' else None)"

interpretation ob_queue: lease_queue ob_holder ob_leaseExpiresAt ob_row_claim ob_row_finish
    "\<lambda>c t m. fst (snd c)" "\<lambda>c t. t + snd (snd c)"
  by unfold_locales (auto simp: ob_holder_def ob_row_claim_def ob_row_finish_def ob_claimable_def leased_def ob_holds_def
      split: if_splits option.splits)

text \<open>The operations of others while a lease runs.\<close>
definition ob_outsider :: "string \<Rightarrow> instant \<Rightarrow> exec_op \<Rightarrow> bool" where
  "ob_outsider tok e op = (case op of ClaimOutbox w t ms k ch us \<Rightarrow> t < e
     | CompleteOutbox us c \<Rightarrow> trim (co_leaseToken c) \<noteq> tok | FailOutbox us f \<Rightarrow> trim (fo_leaseToken f) \<noteq> tok | _ \<Rightarrow> True)"

lemma held_rows:
  assumes "ob_queue.held m tok e"
  shows "t < e \<Longrightarrow> claimed_row v d t m b \<Longrightarrow> b = m" "requeued_row t m b \<Longrightarrow> b = m"
    "trim (co_leaseToken c) \<noteq> tok \<Longrightarrow> completed_row X c m b \<Longrightarrow> b = m"
    "trim (fo_leaseToken f) \<noteq> tok \<Longrightarrow> failed_row X f m b \<Longrightarrow> b = m"
proof -
  have h: "ob_status m = ObProcessing" "ob_leaseToken m = Some tok"
    using assms by (auto simp: ob_queue.held_def ob_holder_def split: if_splits)
  show "b = m" if "t < e" "claimed_row v d t m b"
    using ob_queue.held_no_claim[OF assms that(1), of "(v, [], d)"] that(2)
    by (auto simp: claimed_row_def ob_row_claim_def split: if_splits)
  show "b = m" if "requeued_row t m b" using that h by (simp add: requeued_row_def)
  show "b = m" if "trim (co_leaseToken c) \<noteq> tok" "completed_row X c m b" using that h by (auto simp: completed_row_def ob_holds_def)
  show "b = m" if "trim (fo_leaseToken f) \<noteq> tok" "failed_row X f m b" using that h by (auto simp: failed_row_def ob_holds_def)
qed

lemma mem_rows: "m \<in> set ms \<Longrightarrow> list_all2 R ms ns \<Longrightarrow> (\<And>b. R m b \<Longrightarrow> b = m) \<Longrightarrow> m \<in> set ns"
  by (metis in_set_conv_nth list_all2_conv_all_nth)

lemma held_invariant:
  assumes "ob_queue.held m tok e"
  shows "row_invariant X (\<lambda>ms. m \<in> set ms) (ob_outsider tok e)"
proof
  show "m \<in> set (ms @ [m'])" if "m \<in> set ms" for ms m' using that by simp
  show "m \<in> set ns" if "m \<in> set ms" "list_all2 (requeued_row t) ms ns" for ms ns t
    using that mem_rows held_rows(2)[OF assms] by metis
  show "m \<in> set ns" if "m \<in> set ms" "ob_outsider tok e (ClaimOutbox w t d k oc us)" "list_all2 (claimed_row v d t) ms ns"
    for ms ns w t d k oc us v using that(1,3) by (rule mem_rows) (use held_rows(1)[OF assms] that(2) in \<open>simp add: ob_outsider_def\<close>)
  show "m \<in> set ns" if "m \<in> set ms" "ob_outsider tok e (CompleteOutbox us c)" "list_all2 (completed_row X c) ms ns"
    for ms ns us c using that(1,3) by (rule mem_rows) (use held_rows(3)[OF assms] that(2) in \<open>simp add: ob_outsider_def\<close>)
  show "m \<in> set ns" if "m \<in> set ms" "ob_outsider tok e (FailOutbox us f)" "list_all2 (failed_row X f) ms ns"
    for ms ns us f using that(1,3) by (rule mem_rows) (use held_rows(4)[OF assms] that(2) in \<open>simp add: ob_outsider_def\<close>)
qed

subsection \<open>Properties\<close>

definition empty_exec :: exec_db where
  "empty_exec = \<lparr>xd_proc = empty_db, xd_outbox = [], xd_amendments = am_empty, xd_projections = [], xd_quantityEvents = [],
     xd_exceptions = [], xd_drafts = [], xd_draftEvents = [], xd_whatsapp = [], xd_attachments = [], xd_attachmentAudit = [],
     xd_approvals = [], xd_replies = [], xd_identity = None, xd_routes = [], xd_importPolicies = [], xd_importDocuments = []\<rparr>"


text \<open>C11 No message is lost or rewritten: whatever happens after any moment of a run, all messages of that moment
  are still there in their order, with the same channel, connector, action, aggregate, key, payload and
  time of creation, and those that were dispatched or failed have not changed at all.\<close>
theorem outbox_messages_permanent:
  "grown_from (xd_outbox (exec_run X ops (x\<lparr>xd_outbox := []\<rparr>))) (xd_outbox (exec_run X (ops @ ops') (x\<lparr>xd_outbox := []\<rparr>)))"
proof -
  let ?y = "exec_run X ops (x\<lparr>xd_outbox := []\<rparr>)"
  have "outbox_ok ?y" by (rule well_formed.keep_run) (simp_all add: outbox_ok_def list_all_iff)
  then have "outbox_ok (exec_run X ops' ?y) \<and> grown_from (xd_outbox ?y) (xd_outbox (exec_run X ops' ?y))"
    by (rule kept_rows.rows_run) (simp_all add: grown_refl list_all_iff)
  then show ?thesis by (simp add: exec_run_append)
qed

text \<open>C12 A worker's lease on a message is exclusive: while it runs, no mutation, requeue, claim, completion or
  failure of anyone else changes the message in any way, and a completion under another token is refused
  without effect.\<close>
theorem outbox_lease_exclusive:
  assumes "outbox_ok x" "m \<in> set (xd_outbox x)" "ob_status m = ObProcessing" "ob_leaseToken m = Some tok"
    "ob_leaseExpiresAt m = Some e" "list_all (ob_outsider tok e) ops"
    "trim (co_id c) = ob_id m" "ob_id m \<noteq> []" "trim (co_leaseToken c) \<notin> {[], tok}"
  shows "let y = exec_run X ops x in
    getOutboxMessage (ob_id m) y = Some m \<and> completeOutboxMessage X us c y = (Inl (XLease (ob_id m)), y)"
proof -
  let ?y = "exec_run X ops x"
  have held: "ob_queue.held m tok e" using assms(3,4,5) by (simp add: ob_queue.held_def ob_holder_def)
  have y: "outbox_ok ?y" "m \<in> set (xd_outbox ?y)"
    using row_invariant.rows_run[OF held_invariant[OF held] assms(1,2,6)] by blast+
  have "getOutboxMessage (ob_id m) ?y = Some m"
  proof (cases "getOutboxMessage (ob_id m) ?y")
    case (Some b)
    have "b \<in> set (xd_outbox ?y)" "ob_id m = ob_id b" using message_row[OF Some] by simp_all
    then have "m = b" by (rule same_id_row[OF outbox_ok_ids[OF y(1)] y(2)])
    then show ?thesis using Some by simp
  qed (use y(2) in \<open>auto simp: getOutboxMessage_def find_None_iff\<close>)
  moreover from this have "completeOutboxMessage X us c ?y = (Inl (XLease (ob_id m)), ?y)"
    using assms(3,4,7,8,9) by (auto simp: completeOutboxMessage_def need_text_def ob_holds_def)
  ultimately show ?thesis by (simp add: Let_def)
qed

definition demo_exec_env :: exec_env where
  "demo_exec_env = \<lparr>xe_proj = demo_env, xe_redact = (\<lambda>s. s), xe_string = (\<lambda>_. ''v''), xe_date = (\<lambda>_. Some 7)\<rparr>"

definition demo_message :: ob_msg where
  "demo_message = \<lparr>ob_id = ''o'', ob_channel = ChErp, ob_connectorId = ''erp'', ob_action = ''invoice.update'', ob_aggregateId = ''i'',
     ob_idempotencyKey = ''decide_ap:k'', ob_status = ObProcessing, ob_payload = [], ob_attempts = 1, ob_nextAttemptAt = None,
     ob_requeuedAt = None, ob_leaseOwner = Some ''w'', ob_leaseToken = Some ''tok'', ob_leaseExpiresAt = Some 20,
     ob_dispatchedAt = None, ob_failedAt = None, ob_sentAttachments = [], ob_connectorResult = None, ob_createdAt = 1,
     ob_updatedAt = 10, ob_error = None\<rparr>"

lemma outbox_lease_exclusive_witness:
  "getOutboxMessage ''o'' (exec_run demo_exec_env [Requeue ''erp'' 12 None, ClaimOutbox ''v'' 15 10 None None (\<lambda>_. ''u'')]
     (empty_exec\<lparr>xd_outbox := [demo_message]\<rparr>)) = Some demo_message"
proof -
  have ok: "outbox_ok (empty_exec\<lparr>xd_outbox := [demo_message]\<rparr>)"
    by (simp add: outbox_ok_def ob_ok_def demo_message_def)
  have "getOutboxMessage (ob_id demo_message) (exec_run demo_exec_env [Requeue ''erp'' 12 None, ClaimOutbox ''v'' 15 10 None None (\<lambda>_. ''u'')]
     (empty_exec\<lparr>xd_outbox := [demo_message]\<rparr>)) = Some demo_message"
    using outbox_lease_exclusive[OF ok, of demo_message "''tok''" 20
        "[Requeue ''erp'' 12 None, ClaimOutbox ''v'' 15 10 None None (\<lambda>_. ''u'')]"
        "\<lparr>co_id = ''o'', co_leaseToken = ''x'', co_completedAt = 1, co_sentAttachments = None, co_connectorResult = None\<rparr>"]
    by (simp add: demo_message_def ob_outsider_def trim_def is_space_def Let_def)
  then show ?thesis by (simp add: demo_message_def)
qed

end
