(* ===== verification/Mutations.thy ===== *)
theory Mutations
  imports OutboxRows
begin

text \<open>
  The mutation as a whole: replay of a repeated request for good, no effect of a refused one, and the
  permission and evidence behind every change.
\<close>

subsection \<open>Recorded replies\<close>

interpretation reply_facts: exec_facts X "\<lambda>y. map_of (xd_replies y) slot = Some v" for X slot v
  by unfold_locales (auto simp: same_books_def dest: applied_books(3) move_to_books(4))

text \<open>A recorded reply stays.\<close>
interpretation recorded: exec_invariant X "\<lambda>y. map_of (xd_replies y) slot = Some v" "\<lambda>_. True" for X slot v
proof
  show "map_of (xd_replies y) slot = Some v" if "map_of (xd_replies x) slot = Some v"
      "insertExecutionOutbox X r uuid t ch action agg payload x = (Inr m, y)" for x y r uuid t ch action agg payload m
    using that inserted_message(6)[OF that(2)] by (simp add: same_books_def)
  show "map_of (xd_replies y) slot = Some v" if "map_of (xd_replies x) slot = Some v"
      "queue_amendment X us r i kind patch reason action extra queued po n t x = (Inr z, y)" for x y us r i kind patch reason action extra queued po n t z
    using that queued_books(3)[OF that(2)] by simp
  show "map_of (xd_replies (x\<lparr>xd_replies := xd_replies x @ [(slot', w)]\<rparr>)) slot = Some v" if "map_of (xd_replies x) slot = Some v"
    for x slot' w using that by simp
  show "map_of (xd_replies (exec_op_run X (Requeue c t k) x)) slot = Some v" if "map_of (xd_replies x) slot = Some v" for x c t k
    using that requeue_books[of c t k x] by (auto simp: exec_op_run_def)
  show "map_of (xd_replies (exec_op_run X (ClaimOutbox w t ms k oc us) x)) slot = Some v" if "map_of (xd_replies x) slot = Some v"
    for x w t ms k oc us using that claim_books[of w t ms k oc us x] by (auto simp: exec_op_run_def)
  show "map_of (xd_replies (exec_op_run X (CompleteOutbox us c) x)) slot = Some v" if "map_of (xd_replies x) slot = Some v" for x us c
    using that reply_facts.keep_complete[of x slot v c X us] put_leased_books(4) by (simp add: exec_op_run_def)
  show "map_of (xd_replies (exec_op_run X (FailOutbox us f) x)) slot = Some v" if "map_of (xd_replies x) slot = Some v" for x us f
    using that reply_facts.keep_fail[of x slot v f X us] put_leased_books(4) by (simp add: exec_op_run_def)
qed

lemma mutation_refused: "executeProcurementMutation X us r x = (Inl e, y) \<Longrightarrow> y = x"
  unfolding executeProcurementMutation_def with_value_def perform_def
  by (auto split: sum.splits option.splits if_splits dest: atomic_error)

text \<open>The guards a mutation passes and the reply it records.\<close>
lemma mutation_done:
  assumes "executeProcurementMutation X us r x = (Inr res, y)"
  obtains t where "input_check r = Inr ()" "need_date X (xi_occurredAt r) ''occurredAt'' = Inr t" "permission_check r = Inr ()"
    "\<exists>s. map_of (xd_replies y) (xi_action r, xi_idempotencyKey r) = Some (xi_payloadHash r, s) \<and> s\<lparr>xr_replayed := True\<rparr> = res\<lparr>xr_replayed := True\<rparr>"
    "y = x \<or> perform X us r t x = (Inr res, y)"
proof -
  from assms obtain t where g: "input_check r = Inr ()" "need_date X (xi_occurredAt r) ''occurredAt'' = Inr t" "permission_check r = Inr ()"
    and m: "(case map_of (xd_replies x) (xi_action r, xi_idempotencyKey r) of
      Some (h, res) \<Rightarrow> if h \<noteq> xi_payloadHash r then (Inl (XKeyReused (xi_action r) (xi_idempotencyKey r)), x)
        else (Inr (res\<lparr>xr_replayed := True\<rparr>), x)
    | None \<Rightarrow> perform X us r t x) = (Inr res, y)"
    by (auto simp: executeProcurementMutation_def with_value_ok)
  show thesis
  proof (cases "map_of (xd_replies x) (xi_action r, xi_idempotencyKey r)")
    case None
    then have p: "perform X us r t x = (Inr res, y)" using m by simp
    then obtain z where z: "execute_action X us r t x = (Inr res, z)"
      and y: "y = z\<lparr>xd_replies := xd_replies z @ [((xi_action r, xi_idempotencyKey r), xi_payloadHash r, res)]\<rparr>"
      by (auto simp: perform_def tx_ok)
    have "xd_replies z = xd_replies x" using afterD[OF replies_kept.keep_action[OF refl] z] .
    then have "map_of (xd_replies y) (xi_action r, xi_idempotencyKey r) = Some (xi_payloadHash r, res)"
      using None by (simp add: y map_add_def)
    then show thesis using that[OF g] p by blast
  next
    case (Some v)
    then show thesis using that[OF g] m by (cases v) (auto split: if_splits)
  qed
qed

lemma input_check_hash:
  assumes "input_check r = Inr ()" "trim h \<noteq> []"
  shows "input_check (r\<lparr>xi_payloadHash := h\<rparr>) = Inr ()"
proof -
  obtain a b c d where n: "need_text (xi_idempotencyKey r) ''idempotencyKey'' = Inr a" "need_text (xi_payloadHash r) ''payloadHash'' = Inr b"
      "need_text (xi_actorId r) ''actorId'' = Inr c" "need_text (xi_aggregateId r) ''aggregateId'' = Inr d"
    using assms(1) unfolding input_check_def
    by (cases "need_text (xi_idempotencyKey r) ''idempotencyKey''"; cases "need_text (xi_payloadHash r) ''payloadHash''";
        cases "need_text (xi_actorId r) ''actorId''"; cases "need_text (xi_aggregateId r) ''aggregateId''") simp_all
  have "need_text h ''payloadHash'' = Inr (trim h)" using assms(2) by (simp add: need_text_def)
  then have "input_check (r\<lparr>xi_payloadHash := h\<rparr>) = input_check r"
    by (simp add: input_check_def n cong: option.case_cong sum.case_cong)
  then show ?thesis using assms(1) by simp
qed

lemma permission_check_hash: "permission_check (r\<lparr>xi_payloadHash := h\<rparr>) = permission_check r"
  by (cases r) (simp only: permission_check_def is_supplier_email_action_def mutation_input.simps)

text \<open>C16 A mutation is performed once: after it has succeeded, sending it again at any later moment of any run
  gives the recorded result marked as replayed and changes nothing, and another payload under its action and
  key is refused without effect.\<close>
theorem mutation_replayed:
  assumes "executeProcurementMutation X us r x = (Inr res, y)"
  shows "executeProcurementMutation X us' r (exec_run X ops y) = (Inr (res\<lparr>xr_replayed := True\<rparr>), exec_run X ops y) \<and>
    (h = xi_payloadHash r \<or> trim h = [] \<or> executeProcurementMutation X us' (r\<lparr>xi_payloadHash := h\<rparr>) (exec_run X ops y) =
      (Inl (XKeyReused (xi_action r) (xi_idempotencyKey r)), exec_run X ops y))"
proof (rule mutation_done[OF assms])
  fix t
  assume g: "input_check r = Inr ()" "need_date X (xi_occurredAt r) ''occurredAt'' = Inr t" "permission_check r = Inr ()"
    and "\<exists>s. map_of (xd_replies y) (xi_action r, xi_idempotencyKey r) = Some (xi_payloadHash r, s) \<and> s\<lparr>xr_replayed := True\<rparr> = res\<lparr>xr_replayed := True\<rparr>"
  then obtain s where s: "map_of (xd_replies y) (xi_action r, xi_idempotencyKey r) = Some (xi_payloadHash r, s)"
      "s\<lparr>xr_replayed := True\<rparr> = res\<lparr>xr_replayed := True\<rparr>" by blast
  have l: "map_of (xd_replies (exec_run X ops y)) (xi_action r, xi_idempotencyKey r) = Some (xi_payloadHash r, s)"
    by (rule recorded.keep_run[OF s(1)]) (simp add: list_all_iff)
  have same: "executeProcurementMutation X us' r (exec_run X ops y) = (Inr (res\<lparr>xr_replayed := True\<rparr>), exec_run X ops y)"
    using g l s(2) by (simp add: executeProcurementMutation_def)
  moreover have "executeProcurementMutation X us' (r\<lparr>xi_payloadHash := h\<rparr>) (exec_run X ops y) =
      (Inl (XKeyReused (xi_action r) (xi_idempotencyKey r)), exec_run X ops y)" if "h \<noteq> xi_payloadHash r" "trim h \<noteq> []"
    using g l that input_check_hash[OF g(1) that(2)] by (simp add: executeProcurementMutation_def permission_check_hash)
  ultimately show ?thesis by blast
qed

definition demo_input :: mutation_input where
  "demo_input = \<lparr>xi_action = ''mark_at_risk'', xi_idempotencyKey = ''k'', xi_payloadHash = ''h'', xi_actorId = ''u'', xi_permission = ''operate'',
     xi_aggregateId = ''d'', xi_expectedVersion = 1, xi_occurredAt = ''now'', xi_connectorId = None, xi_connectorReady = False,
     xi_decision = None, xi_shortfall = None, xi_missingFields = None, xi_reason = Some ''late'', xi_evidenceSource = None,
     xi_evidenceReference = None, xi_supplierId = None, xi_supplierReference = None, xi_warehouseId = None, xi_shipmentId = None,
     xi_carrier = None, xi_trackingNumber = None, xi_estimatedArrivalAt = None, xi_requiredInHouseAt = None,
     xi_purchaseOrderNumber = None, xi_riskSeverity = Some ''high'', xi_riskCategory = Some ''schedule'', xi_recommendedAction = None,
     xi_eventCode = None, xi_eventOccurredAt = None, xi_eventReference = None, xi_location = None, xi_carrierReference = None,
     xi_invoiceNumber = None, xi_currency = None, xi_invoiceDate = None, xi_poId = None, xi_lines = None, xi_matchPolicy = None,
     xi_patch = None\<rparr>"

definition demo_store :: exec_db where
  "demo_store = empty_exec\<lparr>xd_proc := empty_db\<lparr>pd_documents := [doc_row_of ''purchase_order'' (demo_po\<lparr>doc_status := ''sent''\<rparr>) 1 1]\<rparr>\<rparr>"

lemma demo_marked: "\<exists>res y. executeProcurementMutation demo_exec_env (\<lambda>_. ''n'') demo_input demo_store = (Inr res, y)"
  by (simp add: executeProcurementMutation_def input_check_def need_text_def permission_check_def is_approval_action_def
      is_supplier_email_action_def need_date_def demo_input_def demo_store_def empty_exec_def demo_exec_env_def trim_def is_space_def
      perform_def execute_action_def executeMarkAtRisk_def with_document_def executionDocument_def getDocument_def find_doc_def
      doc_row_of_def demo_po_def empty_db_def check_def requireBoundedBusinessText_def given_def insert_activity_def Let_def)

lemma mutation_replayed_witness:
  "\<exists>res y. executeProcurementMutation demo_exec_env (\<lambda>_. ''m'') demo_input y = (Inr (res\<lparr>xr_replayed := True\<rparr>), y) \<and> xd_replies y \<noteq> []"
proof -
  obtain res y where d: "executeProcurementMutation demo_exec_env (\<lambda>_. ''n'') demo_input demo_store = (Inr res, y)"
    using demo_marked by blast
  have "executeProcurementMutation demo_exec_env (\<lambda>_. ''m'') demo_input y = (Inr (res\<lparr>xr_replayed := True\<rparr>), y)"
    using mutation_replayed[OF d, of "\<lambda>_. ''m''" "[]" "''h''"] by simp
  moreover have "xd_replies y \<noteq> []"
    by (rule mutation_done[OF d]) (metis list.distinct(1) map_of.simps(1) option.distinct(1))
  ultimately show ?thesis by blast
qed

subsection \<open>Permission and evidence\<close>

lemma with_document_ok: "with_document k i e al f x = (Inr a, y) \<longleftrightarrow>
    (\<exists>d n. getDocument k i (xd_proc x) = Some (d, n) \<and> int n = e \<and> doc_status d \<in> set al \<and> f d n x = (Inr a, y))"
  by (auto simp: with_document_def with_value_ok executionDocument_def split: option.splits if_splits)

text \<open>A person has verified the fact and says on what evidence and why.\<close>
definition verified_by_person :: "mutation_input \<Rightarrow> bool" where
  "verified_by_person r \<longleftrightarrow> xi_permission r = ''approve'' \<and> xi_evidenceSource r = Some ''manual_verified'' \<and>
     trim (given (xi_evidenceReference r)) \<noteq> [] \<and> trim (given (xi_reason r)) \<noteq> []"

text \<open>The agent that reads supplier mail cites a received email of this order's supplier about this order.\<close>
definition cites_supplier_mail :: "mutation_input \<Rightarrow> exec_db \<Rightarrow> bool" where
  "cites_supplier_mail r x \<longleftrightarrow> xi_permission r = ''operate'' \<and> xi_actorId r = ''ai:supplier-reply'' \<and>
     (case getDocument ''purchase_order'' (xi_aggregateId r) (xd_proc x) of
        None \<Rightarrow> False
      | Some (po, _) \<Rightarrow> (case getDocument ''communication'' (trim (given (xi_evidenceReference r))) (xd_proc x) of
          None \<Rightarrow> False
        | Some (c, _) \<Rightarrow> doc_text c ''direction'' = ''inbound'' \<and> doc_text c ''channel'' = ''email'' \<and>
            doc_text c ''businessObjectId'' = doc_id po \<and> doc_text c ''supplierId'' = doc_text po ''supplierId''))"

definition authorised :: "mutation_input \<Rightarrow> exec_db \<Rightarrow> bool" where
  "authorised r x \<longleftrightarrow>
     (if xi_action r = ''cancel_po'' then xi_permission r = ''operate_and_approve''
      else if xi_action r \<in> {''record_shipment'', ''record_production_progress''} then verified_by_person r \<or> cites_supplier_mail r x
      else if xi_action r \<in> {''record_receipt'', ''record_transport_event''} then verified_by_person r
      else if xi_action r \<in> {''decide_confirmation'', ''decide_ap'', ''create_odoo_po_draft'', ''update_rihd''} then xi_permission r = ''approve''
      else xi_permission r \<in> {''operate'', ''approve'', ''operate_and_approve''})"

lemma manual_evidence: "requireManualVerification r = Inr v \<Longrightarrow> verified_by_person r"
  by (auto simp: requireManualVerification_def verified_by_person_def need_text_def split: if_splits sum.splits)

lemma fulfilment_evidence:
  assumes "requireFulfilmentEvidence po r x = Inr ev" "getDocument ''purchase_order'' (xi_aggregateId r) (xd_proc x) = Some (po, n)"
  shows "verified_by_person r \<or> cites_supplier_mail r x"
  using assms manual_evidence[of r]
  by (auto simp: requireFulfilmentEvidence_def cites_supplier_mail_def need_text_def split: if_splits sum.splits option.splits prod.splits)

lemma evidence_used:
  "executeRecordShipment X us r t x = (Inr res, y) \<Longrightarrow> verified_by_person r \<or> cites_supplier_mail r x"
  "executeRecordProductionProgress X us r t x = (Inr res, y) \<Longrightarrow> verified_by_person r \<or> cites_supplier_mail r x"
  "executeRecordReceipt X us r t x = (Inr res, y) \<Longrightarrow> verified_by_person r"
  "executeRecordTransportEvent X us r t x = (Inr res, y) \<Longrightarrow> verified_by_person r"
  unfolding executeRecordShipment_def executeRecordProductionProgress_def executeRecordReceipt_def executeRecordTransportEvent_def Let_def
    with_document_ok with_value_ok[of "requireFulfilmentEvidence _ _ _"] with_value_ok[of "requireManualVerification _"]
  using fulfilment_evidence manual_evidence by blast+

lemma permission_cases:
  assumes "permission_check r = Inr ()"
  shows "xi_action r = ''cancel_po'' \<Longrightarrow> xi_permission r = ''operate_and_approve''"
    "xi_action r \<in> {''decide_confirmation'', ''decide_ap'', ''create_odoo_po_draft'', ''update_rihd''} \<Longrightarrow> xi_permission r = ''approve''"
    "\<not> is_approval_action (xi_action r) \<Longrightarrow> xi_permission r \<in> {''operate'', ''approve'', ''operate_and_approve''}"
  using assms by (auto simp: permission_check_def is_approval_action_def is_supplier_email_action_def split: if_splits)

text \<open>C17 A mutation changes the store only when it succeeds and only with authority: a cancellation needs the
  double permission, decisions and writes to the ERP the permission to approve, a receipt or a transport
  event a person who verified it, and a shipment or production report either such a person or the mail
  agent citing a received email of the order's own supplier about this order.\<close>
theorem mutation_authorised:
  "snd (executeProcurementMutation X us r x) = x \<or>
   ((\<exists>res. fst (executeProcurementMutation X us r x) = Inr res) \<and> authorised r x)"
proof (cases "executeProcurementMutation X us r x")
  case (Pair v y)
  show ?thesis
  proof (cases v)
    case (Inl e)
    then show ?thesis using Pair mutation_refused[of X us r x e y] by simp
  next
    case (Inr res)
    show ?thesis
    proof (rule mutation_done[OF Pair[unfolded Inr]])
      fix t
      assume g: "permission_check r = Inr ()" and p: "y = x \<or> perform X us r t x = (Inr res, y)"
      have "authorised r x" if performed: "perform X us r t x = (Inr res, y)"
      proof -
        obtain z where z: "execute_action X us r t x = (Inr res, z)" using performed by (auto simp: perform_def tx_ok)
        note c = permission_cases[OF g] and e = evidence_used[of X us r t x res z]
        show ?thesis
          using z c e by (auto simp: authorised_def execute_action_def is_approval_action_def Let_def split: if_splits)
      qed
      then show ?thesis using p Pair Inr by auto
    qed
  qed
qed

end
