(* ===== verification/QuantityBooks.thy ===== *)
theory QuantityBooks
  imports Mutations
begin

text \<open>
  The quantity projections along any run of mutations and workers: the projection of every order line
  agrees with the stored events, and no line is received beyond what was shipped or invoiced beyond what was
  received.
\<close>

subsection \<open>One projection\<close>

definition stages_ok :: "quantity_projection \<Rightarrow> bool" where
  "stages_ok p \<longleftrightarrow> quantities_ok p \<and> jexact (qp_shippedQty p) \<and> jexact (qp_receivedQty p) \<and> jexact (qp_invoicedQty p) \<and>
     jle (qp_receivedQty p) (qp_shippedQty p) \<and> jle (qp_invoicedQty p) (qp_receivedQty p)"

lemma stages_nonneg:
  assumes "quantities_ok p"
  shows "jnonneg (quantity_of d p)"
proof -
  have "nonneg_finite (quantity_of d p)"
    using assms by (cases d) (auto simp: quantities_ok_def validateQuantityProjection_def quantity_of_def split: if_splits)
  then show ?thesis by (cases "quantity_of d p") (auto simp: nonneg_finite_def)
qed

lemma created_stages: "createPurchaseOrderLineQuantityProjection i n tenant = Inr p \<Longrightarrow> stages_ok p \<and> qp_poLineId p = i \<and> qp_events p = []"
  using create_ok[of i n tenant p]
  by (auto simp: createPurchaseOrderLineQuantityProjection_def stages_ok_def split: if_splits)

text \<open>A new event that is countable keeps the stages in order.\<close>
lemma counted_stages:
  assumes ok: "stages_ok p" and a: "applyPurchaseOrderLineQuantityEvent p e = Inr (p', new, is)"
    and k: "quantityEventKey e \<notin> set (qp_appliedEventKeys p)"
    and c: "qe_dimension e \<in> {Confirmed, Cancelled} \<or>
      (jlt (JFin 0) (qe_delta e) \<and> assertCumulativeWithin n (qe_dimension e) (qe_delta e) p = Inr ())"
  shows "stages_ok p'"
proof -
  note p' = apply_new(1)[OF a k]
  have okp: "quantities_ok p" using ok by (simp add: stages_ok_def)
  have okp': "quantities_ok p'" by (rule apply_ok[OF okp a])
  have q: "quantity_of d p' = (if d = qe_dimension e then jadd (quantity_of d p) (qe_delta e) else quantity_of d p)" for d
    unfolding p' by (simp add: quantity_simps)
  note nn = stages_nonneg[OF okp] and nn' = stages_nonneg[OF okp']
  show ?thesis
  proof (cases "qe_dimension e \<in> {Confirmed, Cancelled}")
    case True
    then have "qp_shippedQty p' = qp_shippedQty p" "qp_receivedQty p' = qp_receivedQty p" "qp_invoicedQty p' = qp_invoicedQty p"
      using q[of Shipped] q[of Received] q[of Invoiced] by (auto simp: quantity_of_simps)
    then show ?thesis using ok okp' by (simp add: stages_ok_def)
  next
    case False
    then have d: "jnonneg (qe_delta e)" and g: "assertCumulativeWithin n (qe_dimension e) (qe_delta e) p = Inr ()"
      using c positive_nonneg by auto
    have ex: "jexact (quantity_of x p')" if "jexact (quantity_of x p)" for x
      using q[of x] that jexact_add[OF nn d] by simp
    have grow: "jle (quantity_of x p) (quantity_of x p')" if "jexact (quantity_of x p)" for x
      using q[of x] jle_add[OF that nn d] nn[of x] by (cases "quantity_of x p") (auto simp: jle_def)
    have bound: "jle (quantity_of x p') (cumulative_ceiling n x p)" if "x = qe_dimension e" "jnonneg (cumulative_ceiling n x p)" for x
      using g that q[of x] not_jlt_jle[OF nn'[of x]] by (auto simp: assertCumulativeWithin_def Let_def split: if_splits)
    have r: "jle (qp_receivedQty p') (qp_shippedQty p)"
    proof (cases "qe_dimension e = Received")
      case True
      then show ?thesis using bound[of Received] nn[of Shipped] by (simp add: quantity_of_simps cumulative_ceiling_def)
    qed (use ok q[of Received] in \<open>simp add: stages_ok_def quantity_of_simps\<close>)
    have i: "jle (qp_invoicedQty p') (qp_receivedQty p)"
    proof (cases "qe_dimension e = Invoiced")
      case True
      then show ?thesis using bound[of Invoiced] nn[of Received] by (simp add: quantity_of_simps cumulative_ceiling_def)
    qed (use ok q[of Invoiced] in \<open>simp add: stages_ok_def quantity_of_simps\<close>)
    have "jexact (qp_shippedQty p)" "jexact (qp_receivedQty p)" "jexact (qp_invoicedQty p)" using ok by (simp_all add: stages_ok_def)
    then show ?thesis
      using okp' ex[of Shipped] ex[of Received] ex[of Invoiced] jle_trans[OF r, of "qp_shippedQty p'"] grow[of Shipped]
        jle_trans[OF i, of "qp_receivedQty p'"] grow[of Received]
      by (simp add: stages_ok_def quantity_of_simps)
  qed
qed

subsection \<open>The books\<close>

definition events_of :: "ident \<Rightarrow> exec_db \<Rightarrow> quantity_event list" where
  "events_of i x = filter (\<lambda>e. qe_poLineId e = i) (xd_quantityEvents x)"

definition quantity_books :: "exec_db \<Rightarrow> bool" where
  "quantity_books x \<longleftrightarrow> distinct (map fst (xd_projections x)) \<and>
     (\<forall>i. case map_of (xd_projections x) i of
        None \<Rightarrow> events_of i x = []
      | Some p \<Rightarrow> stages_ok p \<and> qp_poLineId p = i \<and> qp_events p = events_of i x)"

lemma books_kept: "quantity_books x \<Longrightarrow> xd_projections y = xd_projections x \<Longrightarrow> xd_quantityEvents y = xd_quantityEvents x \<Longrightarrow> quantity_books y"
  unfolding quantity_books_def events_of_def by presburger

lemma books_count:
  assumes b: "quantity_books x" and c: "countable X d l q x" and w: "applyExecutionQuantity X src act key l d q t x = (Inr (), y)"
  shows "quantity_books y"
proof -
  obtain p p' e r where p: "projection_of X l x = Inr p" and a: "applyPurchaseOrderLineQuantityEvent p e = Inr (p', r)"
    and e: "qe_dimension e = d" "qe_delta e = q"
      "(qe_sourceSystem e, qe_sourceEventId e) \<notin> (\<lambda>e. (qe_sourceSystem e, qe_sourceEventId e)) ` set (xd_quantityEvents x)"
    and y: "xd_projections y = AList.update (pl_id l) p' (xd_projections x)" "xd_quantityEvents y = xd_quantityEvents x @ [e]"
    using applied_books(5)[OF w] by blast
  obtain new issues where r: "r = (new, issues)" by (cases r)
  let ?i = "pl_id l"
  have sp: "stages_ok p" "qp_poLineId p = ?i" "qp_events p = events_of ?i x"
    using p b created_stages by (auto simp: projection_of_def quantity_books_def split: option.splits sum.splits dest!: spec[of _ ?i])
  have line: "qe_poLineId e = ?i" using apply_guards(2)[OF a] sp(2) by simp
  have k: "quantityEventKey e \<notin> set (qp_appliedEventKeys p)"
  proof
    assume "quantityEventKey e \<in> set (qp_appliedEventKeys p)"
    then have "p' = p" using apply_known(1)[OF a[unfolded r]] by simp
    moreover have "e \<in> set (qp_events p')" using applied_logged[OF _ a[unfolded r]] sp(1) by (simp add: stages_ok_def)
    ultimately have "e \<in> set (xd_quantityEvents x)" using sp(3) by (simp add: events_of_def)
    then show False using e(3) by blast
  qed
  have "stages_ok p'"
  proof (rule counted_stages[OF sp(1) a[unfolded r] k])
    show "qe_dimension e \<in> {Confirmed, Cancelled} \<or>
      (jlt (JFin 0) (qe_delta e) \<and> assertCumulativeWithin (ordered_qty l) (qe_dimension e) (qe_delta e) p = Inr ())"
      using c p e(1,2) by (auto simp: countable_def within_quantities_def split: sum.splits)
  qed
  moreover have "qp_events p' = qp_events p @ [e]" "qp_poLineId p' = ?i"
    using apply_new(1)[OF a[unfolded r] k] sp(2) by (simp_all add: quantity_simps)
  moreover have "events_of i y = (if i = ?i then events_of i x @ [e] else events_of i x)" for i
    using y(2) line by (simp add: events_of_def)
  ultimately show ?thesis
    using b y(1) sp(3) by (simp add: quantity_books_def update_conv' distinct_update cong: option.case_cong)
qed

interpretation books_facts: exec_facts X quantity_books for X
proof
  show "quantity_books y" if "quantity_books x" "same_books x y" for x y using that books_kept[of x y] by (simp add: same_books_def)
  show "quantity_books y" if "quantity_books x" "countable X d l q x" "applyExecutionQuantity X src act key l d q t x = (Inr (), y)"
    for x d l q src act key t y using that by (rule books_count)
  show "quantity_books y" if "quantity_books x" "move_to u i st actor reason ob rc t x = (Inr (), y)" for x u i st actor reason ob rc t y
    using books_kept[OF that(1)] move_to_books(2,3)[OF that(2)] by simp
qed

interpretation books: exec_invariant X quantity_books "\<lambda>_. True" for X
proof
  show "quantity_books y" if "quantity_books x" "insertExecutionOutbox X r uuid t ch action agg payload x = (Inr m, y)"
    for x y r uuid t ch action agg payload m
    using books_kept[OF that(1)] inserted_message(6)[OF that(2)] by (simp add: same_books_def)
  show "quantity_books y" if "quantity_books x" "queue_amendment X us r i kind patch reason action extra queued po n t x = (Inr z, y)"
    for x y us r i kind patch reason action extra queued po n t z
    using books_kept[OF that(1)] queued_books[OF that(2)] by simp
  show "quantity_books (x\<lparr>xd_replies := xd_replies x @ [(slot, v)]\<rparr>)" if "quantity_books x" for x slot v
    using books_kept[OF that] by simp
  show "quantity_books (exec_op_run X (Requeue c t k) x)" if "quantity_books x" for x c t k
    using books_kept[OF that] requeue_books[of c t k x] by (auto simp: exec_op_run_def)
  show "quantity_books (exec_op_run X (ClaimOutbox w t ms k oc us) x)" if "quantity_books x" for x w t ms k oc us
    using books_kept[OF that] claim_books[of w t ms k oc us x] by (auto simp: exec_op_run_def)
  show "quantity_books (exec_op_run X (CompleteOutbox us c) x)" if "quantity_books x" for x us c
    unfolding exec_op_run_def exec_op.case using books_facts.keep_complete[OF that] books_kept[OF that] put_leased_books(2,3) by blast
  show "quantity_books (exec_op_run X (FailOutbox us f) x)" if "quantity_books x" for x us f
    unfolding exec_op_run_def exec_op.case using books_facts.keep_fail[OF that] books_kept[OF that] put_leased_books(2,3) by blast
qed

subsection \<open>Properties\<close>

text \<open>C3 The quantities of every order line stay in order over any run: whatever mutations and workers do, in any
  order and with any JavaScript numbers, a line is never invoiced beyond what was received nor received beyond
  what was shipped, never cancelled beyond the order, and its projection is the replay of exactly the stored
  events of that line.\<close>
theorem line_quantities_in_order:
  "let y = exec_run X ops (x\<lparr>xd_projections := [], xd_quantityEvents := []\<rparr>) in
     list_all (\<lambda>(i, p). jle (qp_invoicedQty p) (qp_receivedQty p) \<and> jle (qp_receivedQty p) (qp_shippedQty p) \<and>
       \<not> jlt (qp_orderedQty p) (qp_cancelledQty p) \<and> qp_events p = filter (\<lambda>e. qe_poLineId e = i) (xd_quantityEvents y) \<and>
       (\<forall>d. quantity_of d p = replay d (qp_events p))) (xd_projections y)"
proof -
  let ?y = "exec_run X ops (x\<lparr>xd_projections := [], xd_quantityEvents := []\<rparr>)"
  have ok: "quantity_books ?y"
    by (rule books.keep_run) (simp_all add: quantity_books_def events_of_def list_all_iff)
  have "jle (qp_invoicedQty p) (qp_receivedQty p) \<and> jle (qp_receivedQty p) (qp_shippedQty p) \<and>
      \<not> jlt (qp_orderedQty p) (qp_cancelledQty p) \<and> qp_events p = events_of i ?y \<and> (\<forall>d. quantity_of d p = replay d (qp_events p))"
    if "(i, p) \<in> set (xd_projections ?y)" for i p
  proof -
    have "map_of (xd_projections ?y) i = Some p" using ok that by (simp add: quantity_books_def)
    then have s: "stages_ok p" "qp_events p = events_of i ?y" using ok by (auto simp: quantity_books_def dest!: spec[of _ i])
    then have "validateQuantityProjection p = None" "\<forall>d. quantity_of d p = replay d (qp_events p)"
      by (simp_all add: stages_ok_def quantities_ok_def)
    then show ?thesis using s by (simp add: stages_ok_def validateQuantityProjection_def split: if_splits)
  qed
  then show ?thesis by (auto simp: Let_def list_all_iff events_of_def)
qed

end
