(* ===== verification/AmendmentBooks.thy ===== *)
theory AmendmentBooks
  imports QuantityBooks
begin

text \<open>
  Amendments and the messages that carry them to the ERP.  Over any run of mutations and workers the
  state of an amendment and the status of its messages agree: exactly one message is under way while the
  amendment is queued, and none once its outcome is known or declared unknown.
\<close>

subsection \<open>The agreement\<close>

definition carried :: "ident \<Rightarrow> ob_msg \<Rightarrow> bool" where
  "carried i m \<longleftrightarrow> carries_amendment m \<and> payload_text m ''amendmentId'' = Inr i"

definition statuses :: "ident \<Rightarrow> exec_db \<Rightarrow> ob_status list" where
  "statuses i x = map ob_status (filter (carried i) (xd_outbox x))"

definition amendment_state :: "exec_db \<Rightarrow> ident \<Rightarrow> am_state option" where
  "amendment_state x i = map_option am_state (getProcurementPurchaseOrderAmendment i (xd_amendments x))"

definition under_way :: "ob_status \<Rightarrow> bool" where
  "under_way s \<longleftrightarrow> s \<in> {ObBlocked, ObPending, ObProcessing}"

fun fits :: "am_state option \<Rightarrow> ob_status list \<Rightarrow> bool" where
  "fits None ss = (ss = [])"
| "fits (Some AmQueued) ss = (length (filter under_way ss) = 1)"
| "fits (Some AmApplied) ss = (filter under_way ss = [] \<and> ObDispatched \<in> set ss)"
| "fits (Some AmUnknown) ss = (filter under_way ss = [] \<and> ss \<noteq> [])"
| "fits (Some AmFailed) ss = (filter under_way ss = [] \<and> ObFailed \<in> set ss)"
| "fits (Some _) ss = False"

definition agree :: "exec_db \<Rightarrow> bool" where
  "agree x \<longleftrightarrow> outbox_ok x \<and> (\<forall>i. fits (amendment_state x i) (statuses i x))"

lemma agree_ok: "agree x \<Longrightarrow> outbox_ok x"
  by (simp add: agree_def)

lemma agree_same: "agree x \<Longrightarrow> xd_outbox y = xd_outbox x \<Longrightarrow> xd_amendments y = xd_amendments x \<Longrightarrow> agree y"
  by (simp add: agree_def outbox_ok_def statuses_def amendment_state_def)

subsection \<open>Single moves\<close>

lemma find_changed:
  assumes "find (\<lambda>m. am_id m = i) rows = Some cur" "\<And>m. am_id (f m) = am_id m"
  shows "find (\<lambda>m. am_id m = i) (upd_where (same_place cur) f rows) = Some (f cur)"
    "j \<noteq> i \<Longrightarrow> find (\<lambda>m. am_id m = j) (upd_where (same_place cur) f rows) = find (\<lambda>m. am_id m = j) rows"
proof -
  have "am_id cur = i" using assms(1) by (auto simp: find_Some_iff)
  show "find (\<lambda>m. am_id m = i) (upd_where (same_place cur) f rows) = Some (f cur)"
    using assms(1) by (induction rows) (auto simp: upd_where_def same_place_def assms(2) split: if_splits)
  show "find (\<lambda>m. am_id m = j) (upd_where (same_place cur) f rows) = find (\<lambda>m. am_id m = j) rows" if "j \<noteq> i"
    using that \<open>am_id cur = i\<close> by (induction rows) (auto simp: upd_where_def same_place_def assms(2))
qed

lemma transition_state:
  assumes "on_amendments (transitionProcurementPurchaseOrderAmendment u r) x = (Inr b, y)"
  shows "amendment_state y = (amendment_state x)(at_id r \<mapsto> at_state r)"
    "\<exists>s. amendment_state x (at_id r) = Some s \<and> at_state r \<in> set (AMENDMENT_LEGAL_TRANSITIONS s)"
proof -
  obtain d where t: "transitionProcurementPurchaseOrderAmendment u r (xd_amendments x) = (Inr b, d)" and y: "y = x\<lparr>xd_amendments := d\<rparr>"
    using assms by (auto simp: on_amendments_def split: prod.splits sum.splits)
  obtain cur where c: "getProcurementPurchaseOrderAmendment (at_id r) (xd_amendments x) = Some cur"
      "at_state r \<in> set (AMENDMENT_LEGAL_TRANSITIONS (am_state cur))"
      "ad_rows d = upd_where (same_place cur) (moved_amendment r) (ad_rows (xd_amendments x))"
    using transition_cases[of u r "xd_amendments x"] t by auto
  have m: "am_id (moved_amendment r m) = am_id m" "am_state (moved_amendment r m) = at_state r" for m
    by (simp_all add: moved_amendment_def)
  show "\<exists>s. amendment_state x (at_id r) = Some s \<and> at_state r \<in> set (AMENDMENT_LEGAL_TRANSITIONS s)"
    using c(1,2) by (simp add: amendment_state_def)
  show "amendment_state y = (amendment_state x)(at_id r \<mapsto> at_state r)"
    using find_changed[OF c(1)[unfolded getProcurementPurchaseOrderAmendment_def], of "moved_amendment r"] m
    by (auto simp: fun_eq_iff amendment_state_def getProcurementPurchaseOrderAmendment_def y c(3))
qed

text \<open>The books while nothing moves an amendment.\<close>
definition at_books :: "ob_msg list \<Rightarrow> (ident \<Rightarrow> am_state option) \<Rightarrow> exec_db \<Rightarrow> bool" where
  "at_books ms s x \<longleftrightarrow> xd_outbox x = ms \<and> amendment_state x = s"

interpretation at_books: exec_base X "at_books ms s" for X ms s
  by unfold_locales (auto simp: at_books_def same_books_def amendment_state_def fun_eq_iff dest: applied_books(1,2))

lemma move_at: "at_books ms s x \<Longrightarrow> after (at_books ms (s(i \<mapsto> st))) (move_to u i st actor reason ob rc t x)"
  unfolding after_def
proof (intro allI impI)
  fix a y
  assume x: "at_books ms s x" and m: "move_to u i st actor reason ob rc t x = (Inr a, y)"
  then obtain b where t: "on_amendments (transitionProcurementPurchaseOrderAmendment u \<lparr>at_id = i, at_state = st, at_actorId = actor,
      at_reason = reason, at_outboxId = Some ob, at_receiptReference = rc, at_at = t\<rparr>) x = (Inr b, y)"
    by (auto simp: move_to_def tx_ok)
  show "at_books ms (s(i \<mapsto> st)) y" using transition_state(1)[OF t] move_to_books(1)[OF m] x by (simp add: at_books_def)
qed

subsection \<open>The facts of a dispatch\<close>

lemma cancel_at:
  assumes "at_books ms s x"
  shows "after (at_books ms (s(i \<mapsto> AmApplied))) (cancel_order X us m i t x)"
  unfolding cancel_order_def
  by (intro at_books.keep_with_order after_value after_bind[OF at_books.keep_update[OF assms]]
      after_bind[OF at_books.keep_cancelled] after_bind[OF move_at] at_books.keep_activity) (use assms in \<open>simp_all\<close>)

lemma amend_at:
  assumes "at_books ms s x"
  shows "after (at_books ms (s(i \<mapsto> AmApplied))) (amend_order X us m i t x)"
  unfolding amend_order_def Let_def
  by (intro at_books.keep_with_order after_option after_fail after_bind[OF at_books.keep_update[OF assms]]
      after_bind[OF at_books.keep_loop] at_books.keep_bind at_books.keep_proc at_books.keep_done
      after_bind[OF move_at] at_books.keep_activity) assumption+

lemma fact_at:
  assumes x: "at_books ms s x"
    and g: "\<And>i y. at_books ms (s(i \<mapsto> AmDispatched)) y \<Longrightarrow> after (at_books ms (s(i \<mapsto> AmApplied))) (g i y)"
  shows "after (\<lambda>y. \<exists>i st. payload_text m ''amendmentId'' = Inr i \<and> st \<in> {AmApplied, AmUnknown} \<and> at_books ms (s(i \<mapsto> st)) y)
    (amendment_fact X us m t g what unclear x)"
  unfolding amendment_fact_def
proof (rule after_value)
  fix i
  assume i: "payload_text m ''amendmentId'' = Inr i"
  let ?Q = "\<lambda>y. \<exists>j st. payload_text m ''amendmentId'' = Inr j \<and> st \<in> {AmApplied, AmUnknown} \<and> at_books ms (s(j \<mapsto> st)) y"
  have q: "after ?Q r" if "after (at_books ms (s(i \<mapsto> st))) r" "st \<in> {AmApplied, AmUnknown}" for st and r :: "unit exec_tx"
    using that i by (auto simp: after_def)
  have did: "after ?Q (bind_tx (move_to (us 0) i AmDispatched (connector_actor m) w (ob_id m) None t x)
      (\<lambda>_ y. if ok then g i y else bind_tx (move_to (us 1) i AmUnknown (connector_actor m) unclear (ob_id m) None t y)
        (\<lambda>_. insertOutboxFailureException (m\<lparr>ob_error := e\<rparr>) t True)))" for ok w e
  proof (rule after_bind[OF move_at[OF x]])
    fix y
    assume y: "at_books ms (s(i \<mapsto> AmDispatched)) y"
    have "after (at_books ms (s(i \<mapsto> AmDispatched, i \<mapsto> AmUnknown))) (bind_tx (move_to (us 1) i AmUnknown (connector_actor m) unclear (ob_id m) None t y)
        (\<lambda>_. insertOutboxFailureException (m\<lparr>ob_error := e\<rparr>) t True))"
      by (rule after_bind[OF move_at[OF y]]) (rule at_books.keep_note)
    then have u: "after (at_books ms (s(i \<mapsto> AmUnknown))) (bind_tx (move_to (us 1) i AmUnknown (connector_actor m) unclear (ob_id m) None t y)
        (\<lambda>_. insertOutboxFailureException (m\<lparr>ob_error := e\<rparr>) t True))" by simp
    show "after ?Q (if ok then g i y else bind_tx (move_to (us 1) i AmUnknown (connector_actor m) unclear (ob_id m) None t y)
        (\<lambda>_. insertOutboxFailureException (m\<lparr>ob_error := e\<rparr>) t True))"
      using q[OF g[OF y]] q[OF u] by simp
  qed
  define v where "v = result_of m ''readbackMatches''"
  have "after ?Q (case v of
       Some (JBool ok) \<Rightarrow> bind_tx (move_to (us 0) i AmDispatched (connector_actor m) (''Odoo '' @ what @ '' dispatched; awaiting authoritative readback'')
             (ob_id m) None t x)
           (\<lambda>_ x. if ok then g i x
              else bind_tx (move_to (us 1) i AmUnknown (connector_actor m) unclear (ob_id m) None t x)
                (\<lambda>_. insertOutboxFailureException
                  (m\<lparr>ob_error := Some (''Odoo '' @ what @ '' authoritative readback did not match'')\<rparr>) t True))
     | _ \<Rightarrow> (Inl (XInvalid ''readbackMatches''), x))"
  proof (cases "\<exists>ok. v = Some (JBool ok)")
    case True
    then obtain ok where ok: "v = Some (JBool ok)" by blast
    show ?thesis unfolding ok option.case json.case by (rule did)
  qed (auto split: option.split json.split)
  then show "after ?Q (case result_of m ''readbackMatches'' of
       Some (JBool ok) \<Rightarrow> bind_tx (move_to (us 0) i AmDispatched (connector_actor m) (''Odoo '' @ what @ '' dispatched; awaiting authoritative readback'')
             (ob_id m) None t x)
           (\<lambda>_ x. if ok then g i x
              else bind_tx (move_to (us 1) i AmUnknown (connector_actor m) unclear (ob_id m) None t x)
                (\<lambda>_. insertOutboxFailureException
                  (m\<lparr>ob_error := Some (''Odoo '' @ what @ '' authoritative readback did not match'')\<rparr>) t True))
     | _ \<Rightarrow> (Inl (XInvalid ''readbackMatches''), x))" unfolding v_def .
qed

lemma completed_fact_at:
  assumes x: "at_books ms s x"
  shows "after (\<lambda>y. if carries_amendment m
      then \<exists>i st. payload_text m ''amendmentId'' = Inr i \<and> st \<in> {AmApplied, AmUnknown} \<and> at_books ms (s(i \<mapsto> st)) y
      else at_books ms s y) (applyCompletedOutboxFact X us m t x)"
proof (cases "carries_amendment m")
  case True
  have c: "after (at_books ms (s(i \<mapsto> AmApplied))) (cancel_order X us m i t y)" "after (at_books ms (s(i \<mapsto> AmApplied))) (amend_order X us m i t y)"
    if "at_books ms (s(i \<mapsto> AmDispatched)) y" for i y
    using cancel_at[OF that, of i X us m t] amend_at[OF that, of i X us m t] by simp_all
  show ?thesis
    using True fact_at[OF x c(1)] fact_at[OF x c(2)]
    by (auto simp: applyCompletedOutboxFact_def carries_amendment_def)
next
  case False
  then show ?thesis using at_books.keep_plain_fact[OF False x] by simp
qed

text \<open>And a final failure settles a queued amendment as failed or, when the outcome is uncertain, as unknown.\<close>
lemma failure_fact_at:
  assumes x: "at_books ms s x" and queued: "\<And>i. payload_text m ''amendmentId'' = Inr i \<Longrightarrow> s i = Some AmQueued"
  shows "after (\<lambda>y. if carries_amendment m \<and> fo_retryAt f = None
      then \<exists>i st. payload_text m ''amendmentId'' = Inr i \<and> st \<in> {AmFailed, AmUnknown} \<and> at_books ms (s(i \<mapsto> st)) y
      else at_books ms s y) (failure_fact us f m x)"
proof (cases "carries_amendment m \<and> fo_retryAt f = None")
  case True
  let ?Q = "\<lambda>y. \<exists>i st. payload_text m ''amendmentId'' = Inr i \<and> st \<in> {AmFailed, AmUnknown} \<and> at_books ms (s(i \<mapsto> st)) y"
  have q: "after ?Q r" if "payload_text m ''amendmentId'' = Inr i" "after (at_books ms (s(i \<mapsto> st))) r" "st \<in> {AmFailed, AmUnknown}"
    for i st and r :: "unit exec_tx" using that by (auto simp: after_def)
  have u: "after ?Q (markPurchaseOrderAmendmentUnknown us m t why x)" for t why
    unfolding markPurchaseOrderAmendmentUnknown_def
  proof (intro after_value after_option after_fail)
    fix i a
    assume i: "payload_text m ''amendmentId'' = Inr i" and a: "getProcurementPurchaseOrderAmendment i (xd_amendments x) = Some a"
    have "am_state a = AmQueued" using queued[OF i] x a by (auto simp: at_books_def amendment_state_def)
    moreover have "after (at_books ms (s(i \<mapsto> AmDispatched, i \<mapsto> AmUnknown)))
        (bind_tx (bind_tx (move_to (us 0) i AmDispatched (connector_actor m)
                  ''Odoo amendment attempted but no authoritative readback is available'' (ob_id m) None t x)
                (\<lambda>_. move_to (us 1) i AmUnknown (connector_actor m) why (ob_id m) None t)) (\<lambda>_. insertOutboxFailureException m t True))"
      by (rule after_bind[OF after_bind[OF move_at[OF x]]], erule move_at) (rule at_books.keep_note)
    ultimately show "after ?Q (bind_tx (if am_state a = AmQueued
           then bind_tx (move_to (us 0) i AmDispatched (connector_actor m)
                  ''Odoo amendment attempted but no authoritative readback is available'' (ob_id m) None t x)
                (\<lambda>_. move_to (us 1) i AmUnknown (connector_actor m) why (ob_id m) None t)
           else (Inr (), x)) (\<lambda>_. insertOutboxFailureException m t True))"
      using q[OF i, of AmUnknown] by simp
  qed
  have f: "after ?Q (markPurchaseOrderAmendmentFailed us m t why x)" for t why
    unfolding markPurchaseOrderAmendmentFailed_def
  proof (intro after_value after_option after_fail)
    fix i a
    assume i: "payload_text m ''amendmentId'' = Inr i" and a: "getProcurementPurchaseOrderAmendment i (xd_amendments x) = Some a"
    have "am_state a = AmQueued" using queued[OF i] x a by (auto simp: at_books_def amendment_state_def)
    then show "after ?Q (if am_state a \<in> {AmQueued, AmPending, AmDispatched}
         then move_to (us 0) i AmFailed (connector_actor m) why (ob_id m) None t x else (Inr (), x))"
      using q[OF i move_at[OF x]] by simp
  qed
  show ?thesis using True u f by (simp add: failure_fact_def)
next
  case False
  then show ?thesis using x at_books.keep_note[OF x] by (auto simp: failure_fact_def)
qed

subsection \<open>The operations\<close>

lemma carried_same: "same_letter a b \<Longrightarrow> carried i b = carried i a"
  by (simp add: carried_def carries_amendment_def payload_text_def same_letter_def)

lemma settled_status: "\<not> under_way s \<Longrightarrow> s \<in> set ss \<longleftrightarrow> s \<in> set (filter (Not \<circ> under_way) ss)"
  by simp

lemma fits_same:
  assumes "length (filter under_way ss') = length (filter under_way ss)" "filter (Not \<circ> under_way) ss' = filter (Not \<circ> under_way) ss"
    "fits s ss"
  shows "fits s ss'"
proof -
  have e: "filter under_way ss' = [] \<longleftrightarrow> filter under_way ss = []" using assms(1) by (metis length_0_conv)
  have "ss' = [] \<longleftrightarrow> filter under_way ss' = [] \<and> filter (Not \<circ> under_way) ss' = []"
    "ss = [] \<longleftrightarrow> filter under_way ss = [] \<and> filter (Not \<circ> under_way) ss = []" by (auto simp: filter_empty_conv)
  then have n: "ss' = [] \<longleftrightarrow> ss = []" using e assms(2) by simp
  have settled: "s \<in> set ss' \<longleftrightarrow> s \<in> set ss" if "\<not> under_way s" for s
    unfolding settled_status[OF that, of ss'] settled_status[OF that, of ss] assms(2) ..
  have d: "ObDispatched \<in> set ss' \<longleftrightarrow> ObDispatched \<in> set ss" "ObFailed \<in> set ss' \<longleftrightarrow> ObFailed \<in> set ss"
    by (rule settled; simp add: under_way_def)+
  show ?thesis
  proof (cases s)
    case None
    then show ?thesis using assms(3) n by simp
  next
    case (Some st)
    have f: "fits (Some st) ss" using assms(3) Some by simp
    show ?thesis
    proof (cases st)
      case AmQueued
      then show ?thesis using f assms(1) Some by simp
    qed (use f e n d Some in simp_all)
  qed
qed

text \<open>Rows that stay under way, or do not change, keep the agreement.\<close>
lemma agree_rows:
  assumes a: "agree x" and o: "outbox_ok y" and m: "amendment_state y = amendment_state x"
    and r: "list_all2 (\<lambda>a b. b = a \<or> (same_letter a b \<and> under_way (ob_status a) \<and> under_way (ob_status b))) (xd_outbox x) (xd_outbox y)"
  shows "agree y"
proof -
  have "length (filter under_way (statuses i y)) = length (filter under_way (statuses i x)) \<and>
      filter (Not \<circ> under_way) (statuses i y) = filter (Not \<circ> under_way) (statuses i x)" for i
    using r unfolding statuses_def by (induction rule: list_all2_induct) (auto simp: carried_same)
  then have "fits s (statuses i x) \<Longrightarrow> fits s (statuses i y)" for s i using fits_same by blast
  then show ?thesis using a o m by (simp add: agree_def)
qed

lemma new_carried: "payload_text m ''amendmentId'' = need_text i ''amendmentId'' \<Longrightarrow> carries_amendment m \<Longrightarrow> trim i = i \<Longrightarrow> i \<noteq> [] \<Longrightarrow>
    carried j m \<longleftrightarrow> j = i"
  by (auto simp: carried_def need_text_def)

text \<open>An amendment that has messages has a trimmed identifier.\<close>
lemma carried_id: "carried i m \<Longrightarrow> trim i = i \<and> i \<noteq> []"
  by (auto simp: carried_def payload_text_def need_text_def trim_trim split: if_splits)

lemma statuses_id: "statuses i x \<noteq> [] \<Longrightarrow> trim i = i \<and> i \<noteq> []"
  using carried_id by (fastforce simp: statuses_def filter_empty_conv)

lemma created_amendment:
  assumes "on_amendments (createProcurementPurchaseOrderAmendment J u r) x = (Inr (a, f), y)"
  shows "if f then xd_amendments y = xd_amendments x
    else trim (am_id a) = am_id a \<and> am_id a \<noteq> [] \<and> amendment_state x (am_id a) = None \<and>
      amendment_state y = (amendment_state x)(am_id a \<mapsto> AmRequested)"
proof -
  obtain d where c: "createProcurementPurchaseOrderAmendment J u r (xd_amendments x) = (Inr (a, f), d)" and y: "y = x\<lparr>xd_amendments := d\<rparr>"
    using assms by (auto simp: on_amendments_def split: prod.splits sum.splits)
  show ?thesis
  proof (cases f)
    case True
    then show ?thesis using create_cases[of J u r "xd_amendments x"] c y by auto
  next
    case False
    then have n: "am_id a \<notin> am_id ` set (ad_rows (xd_amendments x))" "am_state a = AmRequested" "ad_rows d = ad_rows (xd_amendments x) @ [a]"
      using create_cases[of J u r "xd_amendments x"] c by auto
    have "am_id a = trim (ar_id r) \<and> trim (ar_id r) \<noteq> []"
      using c False unfolding createProcurementPurchaseOrderAmendment_def insert_amendment_def Let_def
      by (auto simp: tx_ok first_blank_def requested_amendment_def split: if_splits option.splits)
    moreover have none: "find (\<lambda>m. am_id m = am_id a) (ad_rows (xd_amendments x)) = None" using n(1) by (simp add: find_None_iff image_iff) metis
    moreover have "find (\<lambda>m. am_id m = j) (ad_rows (xd_amendments x) @ [a]) =
        (if j = am_id a then Some a else find (\<lambda>m. am_id m = j) (ad_rows (xd_amendments x)))" for j
    proof (cases "j = am_id a")
      case True
      then show ?thesis using none by (simp add: find_append)
    next
      case False
      then show ?thesis by (simp add: find_append split: option.split)
    qed
    ultimately show ?thesis using False n
      by (auto simp: fun_eq_iff amendment_state_def getProcurementPurchaseOrderAmendment_def y trim_trim)
  qed
qed

lemma statuses_insert:
  assumes "insertExecutionOutbox X r uuid t ch action agg payload x = (Inr m, y)"
  shows "statuses i y = statuses i x @ (if carried i m then [ob_status m] else [])" "amendment_state y = amendment_state x"
    "under_way (ob_status m)"
proof -
  note m = inserted_message[OF assms]
  show "statuses i y = statuses i x @ (if carried i m then [ob_status m] else [])" using m(6) by (simp add: statuses_def same_books_def)
  show "amendment_state y = amendment_state x" using m(6) by (simp add: amendment_state_def same_books_def fun_eq_iff)
  show "under_way (ob_status m)" using m(3) by (auto simp: new_message_def under_way_def split: if_splits)
qed

lemma agree_insert:
  assumes "agree x" "insertExecutionOutbox X r uuid t ch action agg payload x = (Inr m, y)" "\<not> carries_amendment m"
  shows "agree y"
  using assms(1,3) outbox_ok_insert[OF agree_ok[OF assms(1)] assms(2)]
  by (simp add: agree_def statuses_insert[OF assms(2)] carried_def)

text \<open>Only a failed or a new amendment can be queued, and then its message is the only one under way.\<close>
lemma agree_queued:
  assumes a: "agree x" and q: "queue_amendment X us r i kind patch reason action extra queued po n t x = (Inr z, y)"
    and act: "action \<in> {''purchase_order.amend'', ''purchase_order.cancel''}"
  shows "agree y"
proof -
  obtain m b where z: "z = (m, b)" by (cases z)
  from q[unfolded z] show ?thesis
  proof (rule queued_parts)
    fix am :: amendment and f x1 x2 d
    let ?cr = "createProcurementPurchaseOrderAmendment (pe_json (xe_proj X)) (us 1) \<lparr>ar_id = i, ar_poId = doc_id po,
        ar_action = kind, ar_sourcePoVersion = int n, ar_patch = patch, ar_idempotencyKey = xi_idempotencyKey r,
        ar_actorId = xi_actorId r, ar_reason = reason, ar_at = t\<rparr>"
    let ?pl = "[(''amendmentId'', JStr (am_id am)), (''poId'', JStr (doc_id po)), (''sourcePoVersion'', JNum (jint (int n)))] @ extra @ d"
    let ?tr = "\<lparr>at_id = am_id am, at_state = AmQueued, at_actorId = xi_actorId r, at_reason = queued, at_outboxId = Some (ob_id m),
        at_receiptReference = None, at_at = t\<rparr>"
    assume c: "on_amendments ?cr x = (Inr (am, f), x1)" and ins: "insertExecutionOutbox X r (us 2) t ChErp action (doc_id po) ?pl x1 = (Inr m, x2)"
      and tr: "on_amendments (transitionProcurementPurchaseOrderAmendment (us 3) ?tr) x2 = (Inr b, y)"
    let ?i = "am_id am"
    have x1: "xd_outbox x1 = xd_outbox x" using moved_books(1)[OF c] .
    have ok: "outbox_ok y" using outbox_ok_queued[OF agree_ok[OF a] q] .
    have st1: "statuses j x1 = statuses j x" for j by (simp add: statuses_def x1)
    have sty: "statuses j y = statuses j x2" for j by (simp add: statuses_def moved_books(1)[OF tr])
    obtain s where s: "amendment_state x1 ?i = Some s" "AmQueued \<in> set (AMENDMENT_LEGAL_TRANSITIONS s)"
      using transition_state(2)[OF tr] statuses_insert(2)[OF ins] by auto
    have y: "amendment_state y = (amendment_state x1)(?i \<mapsto> AmQueued)"
      using transition_state(1)[OF tr] statuses_insert(2)[OF ins] by simp
    have fitx: "fits (amendment_state x j) (statuses j x)" for j using a by (simp add: agree_def)
    have id: "trim ?i = ?i \<and> ?i \<noteq> []" and none: "filter under_way (statuses ?i x) = []"
      and others: "j \<noteq> ?i \<Longrightarrow> amendment_state x1 j = amendment_state x j" for j
    proof -
      have "trim ?i = ?i \<and> ?i \<noteq> [] \<and> filter under_way (statuses ?i x) = [] \<and> (j \<noteq> ?i \<longrightarrow> amendment_state x1 j = amendment_state x j)" for j
      proof (cases f)
        case True
        then have same: "amendment_state x1 = amendment_state x"
          using created_amendment[OF c] by (simp add: amendment_state_def fun_eq_iff)
        have "fits (Some s) (statuses ?i x)" using fitx[of ?i] s(1) same by simp
        then have "filter under_way (statuses ?i x) = [] \<and> statuses ?i x \<noteq> []" using s(2) by (cases s) auto
        then show ?thesis using statuses_id[of ?i x] same by simp
      next
        case False
        then show ?thesis using created_amendment[OF c] fitx[of ?i] by simp
      qed
      then show "trim ?i = ?i \<and> ?i \<noteq> []" "filter under_way (statuses ?i x) = []"
        "j \<noteq> ?i \<Longrightarrow> amendment_state x1 j = amendment_state x j" for j by blast+
    qed
    have "carries_amendment m" using act inserted_message(1,2)[OF ins] by (auto simp: carries_amendment_def)
    moreover have "payload_text m ''amendmentId'' = need_text ?i ''amendmentId''"
      using inserted_message(3)[OF ins] by (auto simp: new_message_def payload_text_def string_of_def)
    ultimately have carr: "carried j m \<longleftrightarrow> j = ?i" for j using new_carried id by blast
    have "fits (amendment_state y j) (statuses j y)" for j
    proof (cases "j = ?i")
      case True
      then show ?thesis using none statuses_insert(1,3)[OF ins] by (simp add: y sty st1 carr)
    next
      case False
      then show ?thesis using fitx[of j] others[OF False] statuses_insert(1)[OF ins] by (simp add: y sty st1 carr)
    qed
    then show ?thesis using ok by (simp add: agree_def)
  qed
qed

lemma only_one: "length (filter Q xs) = 1 \<Longrightarrow> a \<in> set xs \<Longrightarrow> Q a \<Longrightarrow> b \<in> set xs \<Longrightarrow> Q b \<Longrightarrow> a = b"
proof -
  assume "length (filter Q xs) = 1" and ab: "a \<in> set xs" "Q a" "b \<in> set xs" "Q b"
  then obtain c where "filter Q xs = [c]" by (auto simp: length_Suc_conv)
  moreover have "a \<in> set (filter Q xs)" "b \<in> set (filter Q xs)" using ab by simp_all
  ultimately show "a = b" by simp
qed

text \<open>The message of a worker, replaced by what the worker makes of it.\<close>
lemma replaced_message:
  assumes a: "agree x" and m: "getOutboxMessage i x = Some m" "ob_status m = ObProcessing" "ob_leaseToken m = Some tok"
    and l: "same_letter m m'" and p: "put_leased i tok m' x = (Inr (), y)"
  shows "\<not> carried j m \<Longrightarrow> statuses j y = statuses j x"
    "carried j m \<Longrightarrow> amendment_state x j = Some AmQueued"
    "carried j m \<Longrightarrow> \<not> under_way (ob_status m') \<Longrightarrow> filter under_way (statuses j y) = [] \<and> ob_status m' \<in> set (statuses j y)"
proof -
  let ?p = "\<lambda>y. ob_id y = i \<and> ob_status y = ObProcessing \<and> ob_leaseToken y = Some tok"
  have y: "xd_outbox y = upd_where ?p (\<lambda>_. m') (xd_outbox x)"
    using p by (auto simp: put_leased_def Let_def split: if_splits)
  have mem: "m \<in> set (xd_outbox x)" "ob_id m = i" using message_row[OF m(1)] by auto
  have same: "carried j m' = carried j m" by (rule carried_same[OF l])
  have rows: "list_all2 (\<lambda>a b. b = a \<or> (a = m \<and> b = m')) (xd_outbox x) (xd_outbox y)"
    by (rule put_rows[OF outbox_ok_ids[OF agree_ok[OF a]] m(1) p]) simp_all
  show "statuses j y = statuses j x" if "\<not> carried j m"
    using rows that same unfolding statuses_def by (induction rule: list_all2_induct) auto
  show queued: "amendment_state x j = Some AmQueued" if "carried j m"
  proof -
    have "ObProcessing \<in> set (filter under_way (statuses j x))"
      using that mem(1) m(2) by (force simp: statuses_def under_way_def)
    then have "filter under_way (statuses j x) \<noteq> []" by (metis empty_iff list.set(1))
    moreover have "fits (amendment_state x j) (statuses j x)" using a by (simp add: agree_def)
    ultimately show ?thesis by (cases "(amendment_state x j, statuses j x)" rule: fits.cases) simp_all
  qed
  show "filter under_way (statuses j y) = [] \<and> ob_status m' \<in> set (statuses j y)" if c: "carried j m" "\<not> under_way (ob_status m')"
  proof -
    have "fits (Some AmQueued) (statuses j x)" using a queued[OF c(1)] by (metis agree_def)
    then have "length (filter (\<lambda>b. carried j b \<and> under_way (ob_status b)) (xd_outbox x)) = 1"
      by (simp add: statuses_def filter_map comp_def)
    then have one: "b = m" if "b \<in> set (xd_outbox x)" "carried j b" "under_way (ob_status b)" for b
      using only_one[of "\<lambda>b. carried j b \<and> under_way (ob_status b)" "xd_outbox x" b m] that mem(1) c(1) m(2) by (simp add: under_way_def)
    have "\<not> (carried j b \<and> under_way (ob_status b))" if "b \<in> set (xd_outbox y)" for b
      using that one c(2) m(2,3) mem(2) unfolding y by (auto simp: upd_where_def)
    moreover have "m' \<in> set (xd_outbox y)" unfolding y upd_where_def using mem m(2,3) by force
    ultimately show ?thesis using same c(1) by (auto simp: statuses_def filter_empty_conv)
  qed
qed

text \<open>The message is settled together with its amendment.\<close>
lemma agree_settled:
  assumes a: "agree x" and m: "getOutboxMessage i x = Some m" "ob_holds tok t m" and l: "same_letter m m'" "\<not> under_way (ob_status m')"
    and p: "put_leased i tok m' x = (Inr (), y)" and o: "outbox_ok z"
    and S: "\<And>st ss. st \<in> S \<Longrightarrow> filter under_way ss = [] \<Longrightarrow> ob_status m' \<in> set ss \<Longrightarrow> fits (Some st) ss"
    and z: "if carries_amendment m' then \<exists>k st. payload_text m' ''amendmentId'' = Inr k \<and> st \<in> S \<and>
        at_books (xd_outbox y) ((amendment_state x)(k \<mapsto> st)) z else at_books (xd_outbox y) (amendment_state x) z"
  shows "agree z"
proof -
  have held: "ob_status m = ObProcessing" "ob_leaseToken m = Some tok" using m(2) by (auto simp: ob_holds_def)
  note rep = replaced_message[OF a m(1) held l(1) p]
  have st: "statuses j z = statuses j y" if "at_books (xd_outbox y) s z" for j s using that by (simp add: at_books_def statuses_def)
  have "fits (amendment_state z j) (statuses j z)" for j
  proof (cases "carries_amendment m'")
    case True
    then obtain k s where k: "payload_text m' ''amendmentId'' = Inr k" "s \<in> S" "at_books (xd_outbox y) ((amendment_state x)(k \<mapsto> s)) z"
      using z by auto
    have c: "carried j m \<longleftrightarrow> j = k" for j using True k(1) carried_same[OF l(1), of j] by (auto simp: carried_def)
    show ?thesis
    proof (cases "j = k")
      case True
      then show ?thesis using rep(3)[of k] c l(2) k(3) st[OF k(3)] S[OF k(2), of "statuses k z"] by (simp add: at_books_def)
    next
      case False
      then show ?thesis using rep(1)[of j] c k(3) st[OF k(3)] a by (simp add: at_books_def agree_def)
    qed
  next
    case False
    then have y: "at_books (xd_outbox y) (amendment_state x) z" using z by simp
    have "\<not> carried j m" using False carried_same[OF l(1), of j] by (simp add: carried_def)
    then show ?thesis using rep(1) y st[OF y] a by (simp add: at_books_def agree_def)
  qed
  then show ?thesis using o by (simp add: agree_def)
qed

lemma agree_complete:
  assumes a: "agree x"
  shows "agree (snd (completeOutboxMessage X us c x))"
proof (rule complete_work[of X us c x])
  fix i tok m m'
  let ?z = "snd (completeOutboxMessage X us c x)"
  assume m: "getOutboxMessage i x = Some m" "ob_holds tok (co_completedAt c) m" "completed_message X c m = Inr m'"
    and w: "write_completed X us i tok m' (co_completedAt c) x = (Inr m', ?z)"
  have l: "same_letter m m'" "ob_status m' = ObDispatched"
    using completed_ok[of X c m m'] m(3) by (auto simp: same_letter_def elim!: completed_cases)
  obtain y y2 y3 where p: "put_leased i tok m' x = (Inr (), y)" and f: "applyCompletedOutboxFact X us m' (co_completedAt c) y = (Inr (), y2)"
    and r: "recordSentAttachmentAudit m' y2 = (Inr (), y3)" and e: "enqueueOutboxProjection X m' y3 = (Inr (), ?z)"
    using w by (auto simp: write_completed_def tx_ok)
  have y: "at_books (xd_outbox y) (amendment_state x) y" using put_leased_books(1)[OF p] by (simp add: at_books_def amendment_state_def fun_eq_iff)
  have keep: "at_books (xd_outbox y) s y2 \<Longrightarrow> at_books (xd_outbox y) s ?z" for s
    using afterD[OF at_books.keep_sent_audit r] afterD[OF at_books.keep_projection e] by blast
  have o: "outbox_ok ?z" using well_formed.finish[OF agree_ok[OF a], of X us c] by (simp add: exec_op_run_def)
  show ?thesis
  proof (rule agree_settled[OF a m(1,2) l(1) _ p o])
    show "\<not> under_way (ob_status m')" using l(2) by (simp add: under_way_def)
    show "fits (Some st) ss" if "st \<in> {AmApplied, AmUnknown}" "filter under_way ss = []" "ob_status m' \<in> set ss" for st ss
      using that l(2) by auto
    show "if carries_amendment m' then \<exists>k st. payload_text m' ''amendmentId'' = Inr k \<and> st \<in> {AmApplied, AmUnknown} \<and>
        at_books (xd_outbox y) ((amendment_state x)(k \<mapsto> st)) ?z else at_books (xd_outbox y) (amendment_state x) ?z"
      using afterD[OF completed_fact_at[OF y] f] keep by (cases "carries_amendment m'") auto
  qed
qed (use a in simp)

lemma agree_fail:
  assumes a: "agree x"
  shows "agree (snd (failOutboxMessage X us f x))"
proof (rule fail_work[of X us f x])
  fix i tok e m m'
  let ?z = "snd (failOutboxMessage X us f x)"
  assume m: "getOutboxMessage i x = Some m" "ob_holds tok (fo_failedAt f) m" "failed_message X f e m = Inr m'"
    and w: "write_failed X us i tok f m' x = (Inr m', ?z)"
  have held: "ob_status m = ObProcessing" "ob_leaseToken m = Some tok" using m(2) by (auto simp: ob_holds_def)
  have l: "same_letter m m'" "ob_status m' = (if fo_retryAt f = None then ObFailed else ObPending)"
    using m(3) by (auto simp: same_letter_def elim!: failed_cases)
  obtain y y2 where p: "put_leased i tok m' x = (Inr (), y)" and g: "failure_fact us f m' y = (Inr (), y2)"
    and q: "enqueueOutboxProjection X m' y2 = (Inr (), ?z)"
    using w by (auto simp: write_failed_def tx_ok)
  have y: "at_books (xd_outbox y) (amendment_state x) y" using put_leased_books(1)[OF p] by (simp add: at_books_def amendment_state_def fun_eq_iff)
  have keep: "at_books (xd_outbox y) s y2 \<Longrightarrow> at_books (xd_outbox y) s ?z" for s
    using afterD[OF at_books.keep_projection q] by blast
  have o: "outbox_ok ?z" using well_formed.give_up[OF agree_ok[OF a], of X us f] by (simp add: exec_op_run_def)
  show ?thesis
  proof (cases "fo_retryAt f = None")
    case True
    show ?thesis
    proof (rule agree_settled[OF a m(1,2) l(1) _ p o])
      show "\<not> under_way (ob_status m')" using l(2) True by (simp add: under_way_def)
      show "fits (Some st) ss" if "st \<in> {AmFailed, AmUnknown}" "filter under_way ss = []" "ob_status m' \<in> set ss" for st ss
        using that l(2) True by auto
      have d: "if carries_amendment m' \<and> fo_retryAt f = None
          then \<exists>k st. payload_text m' ''amendmentId'' = Inr k \<and> st \<in> {AmFailed, AmUnknown} \<and> at_books (xd_outbox y) ((amendment_state x)(k \<mapsto> st)) y2
          else at_books (xd_outbox y) (amendment_state x) y2"
      proof (cases "carries_amendment m'")
        case c: True
        have "amendment_state x k = Some AmQueued" if "payload_text m' ''amendmentId'' = Inr k" for k
          using replaced_message(2)[OF a m(1) held l(1) p, of k] that c carried_same[OF l(1), of k] by (simp add: carried_def)
        from afterD[OF failure_fact_at[OF y this] g] show ?thesis .
      next
        case c: False
        have "after (at_books (xd_outbox y) (amendment_state x)) (failure_fact us f m' y)"
          using c True y by (simp add: failure_fact_def at_books.keep_note)
        from afterD[OF this g] show ?thesis using c by simp
      qed
      show "if carries_amendment m' then \<exists>k st. payload_text m' ''amendmentId'' = Inr k \<and> st \<in> {AmFailed, AmUnknown} \<and>
          at_books (xd_outbox y) ((amendment_state x)(k \<mapsto> st)) ?z else at_books (xd_outbox y) (amendment_state x) ?z"
        using d keep True by (cases "carries_amendment m'") auto
    qed
  next
    case False
    then have "y2 = y" using g by (simp add: failure_fact_def)
    then have z: "xd_outbox ?z = xd_outbox y" "amendment_state ?z = amendment_state x" using keep y by (simp_all add: at_books_def)
    have "list_all2 (\<lambda>a b. b = a \<or> (same_letter a b \<and> under_way (ob_status a) \<and> under_way (ob_status b))) (xd_outbox x) (xd_outbox y)"
      by (rule put_rows[OF outbox_ok_ids[OF agree_ok[OF a]] m(1) p]) (use l held False in \<open>simp_all add: under_way_def\<close>)
    then show ?thesis using agree_rows[OF a o] z by simp
  qed
qed (use a in simp)

text \<open>Together: the agreement is an invariant of the store.\<close>
interpretation agreed: exec_invariant X agree "\<lambda>_. True" for X
proof
  show "agree y" if "agree x" "same_books x y" for x y using that by (auto simp: same_books_def intro: agree_same)
  show "agree y" if "agree x" "applyExecutionQuantity X src act key l d q t x = (Inr (), y)" for x y src act key l d q t
    using agree_same[OF that(1) applied_books(1,2)[OF that(2)]] .
  show "agree y" if "agree x" "\<not> carries_amendment m" "insertExecutionOutbox X r uuid t ch action agg payload x = (Inr m, y)"
    for x y r uuid t ch action agg payload m using agree_insert[OF that(1,3,2)] .
  show "agree y" if "agree x" "queue_amendment X us r i kind patch reason action extra queued po n t x = (Inr z, y)"
      "action \<in> {''purchase_order.amend'', ''purchase_order.cancel''}"
    for x y us r i kind patch reason action extra queued po n t z using agree_queued[OF that] .
  show "agree (x\<lparr>xd_replies := xd_replies x @ [(slot, v)]\<rparr>)" if "agree x" for x slot v using that by (rule agree_same) simp_all
  show "agree (exec_op_run X (Requeue c t k) x)" if a: "agree x" for x c t k
  proof (rule agree_rows[OF a well_formed.requeue[OF agree_ok[OF a]]])
    show "amendment_state (exec_op_run X (Requeue c t k) x) = amendment_state x"
      using requeue_books[of c t k x] by (auto simp: exec_op_run_def amendment_state_def fun_eq_iff)
    show "list_all2 (\<lambda>a b. b = a \<or> (same_letter a b \<and> under_way (ob_status a) \<and> under_way (ob_status b))) (xd_outbox x)
        (xd_outbox (exec_op_run X (Requeue c t k) x))"
      unfolding exec_op_run_def exec_op.case
      by (rule list_all2_mono[OF requeue_rows[OF outbox_ok_ids[OF agree_ok[OF a]], of t c k]])
        (auto simp: requeued_row_def requeued_def same_letter_def under_way_def)
  qed simp
  show "agree (exec_op_run X (ClaimOutbox w t ms k oc us) x)" if a: "agree x" for x w t ms k oc us
  proof (rule claim_rows[OF outbox_ok_ids[OF agree_ok[OF a]], of ms t w k oc us])
    fix v
    assume r: "list_all2 (claimed_row v ms t) (xd_outbox x) (xd_outbox (snd (claimOutboxMessages w t ms k oc us x)))"
    show ?thesis
    proof (rule agree_rows[OF a well_formed.claim[OF agree_ok[OF a]]])
      show "amendment_state (exec_op_run X (ClaimOutbox w t ms k oc us) x) = amendment_state x"
        using claim_books[of w t ms k oc us x] by (auto simp: exec_op_run_def amendment_state_def fun_eq_iff)
      show "list_all2 (\<lambda>a b. b = a \<or> (same_letter a b \<and> under_way (ob_status a) \<and> under_way (ob_status b))) (xd_outbox x)
          (xd_outbox (exec_op_run X (ClaimOutbox w t ms k oc us) x))"
        unfolding exec_op_run_def exec_op.case
        by (rule list_all2_mono[OF r]) (auto simp: claimed_row_def leased_def same_letter_def under_way_def ob_claimable_def)
    qed simp
  qed
  show "agree (exec_op_run X (CompleteOutbox us c) x)" if "agree x" for x us c using agree_complete[OF that] by (simp add: exec_op_run_def)
  show "agree (exec_op_run X (FailOutbox us f) x)" if "agree x" for x us f using agree_fail[OF that] by (simp add: exec_op_run_def)
qed

subsection \<open>Properties\<close>

text \<open>C2 An amendment and its messages never disagree: from a store without amendments and messages, whatever
  mutations and workers do, an amendment is queued exactly while one single message carrying it is under way;
  it is applied only after a dispatched message, failed only after a failed one, unknown only when nothing is
  under way any more, and no other state of an amendment is ever stored.\<close>
theorem execution_agreement:
  "let y = exec_run X ops (x\<lparr>xd_outbox := [], xd_amendments := am_empty\<rparr>) in fits (amendment_state y i) (statuses i y)"
proof -
  have "agree (x\<lparr>xd_outbox := [], xd_amendments := am_empty\<rparr>)"
    by (simp add: agree_def outbox_ok_def statuses_def amendment_state_def getProcurementPurchaseOrderAmendment_def am_empty_def)
  then have "agree (exec_run X ops (x\<lparr>xd_outbox := [], xd_amendments := am_empty\<rparr>))" by (rule agreed.keep_run) (simp add: list_all_iff)
  then show ?thesis by (simp add: agree_def Let_def)
qed

end
