(* ===== verification/OutboxWorker.thy ===== *)
theory OutboxWorker
  imports Dispatch AmendmentBooks
begin

text \<open>
  The outbox worker (\<open>ProcurementOutboxWorker\<close> in \<open>apps/api/src/procurement-outbox-worker.ts\<close>): one run of a
  tenant requeues blocked messages of connectors that have become ready, claims a batch under leases,
  and carries out each message, whose completion or failure is then recorded.  While a call is outside,
  other requests and workers go on; \<open>mw_meanwhile\<close> lists what they do to the store.  The clock and the
  identifiers drawn are arguments, and so is the text of an error after redaction.
\<close>

subsection \<open>Errors and retries_message\<close>

definition word_char :: "char \<Rightarrow> bool" where
  "word_char c \<longleftrightarrow> lower_alnum (lower_char c) \<or> c = CHR ''_''"

definition ends_word :: "string \<Rightarrow> bool" where
  "ends_word s \<longleftrightarrow> (case s of [] \<Rightarrow> True | c # _ \<Rightarrow> \<not> word_char c)"

text \<open>What is left of a text after a word it starts with.\<close>
definition after_text :: "string \<Rightarrow> string \<Rightarrow> string list" where
  "after_text w s = (if starts_with s w then [drop (length w) s] else [])"

definition after_rate_limit :: "string \<Rightarrow> string list" where
  "after_rate_limit s = concat (map (\<lambda>r. concat (map (\<lambda>r. r # after_text ''ed'' r) (after_text ''limit'' (dropWhile is_space r)))) (after_text ''rate'' s))"

definition after_space :: "string \<Rightarrow> string list" where
  "after_space s = (case s of [] \<Rightarrow> [] | c # _ \<Rightarrow> if is_space c then [dropWhile is_space s] else [])"

definition after_too_many :: "string \<Rightarrow> string list" where
  "after_too_many s = concat (map (\<lambda>r. concat (map (\<lambda>r. concat (map (\<lambda>r. concat (map (after_text ''requests'') (after_space r)))
     (after_text ''many'' r))) (after_space r))) (after_text ''too'' s))"

text \<open>\<open>/\b(econnrefused|...|429|rate\s*limit(?:ed)?|too\s+many\s+requests)\b/i\<close>, on the text in lower case.\<close>
definition refusal_here :: "string \<Rightarrow> bool" where
  "refusal_here s \<longleftrightarrow> list_ex ends_word (concat (map (\<lambda>w. after_text w s) [''econnrefused'', ''enotfound'', ''eai_again'', ''enetunreach'', ''429'']) @
     after_rate_limit s @ after_too_many s)"

fun mentions_refusal :: "bool \<Rightarrow> string \<Rightarrow> bool" where
  "mentions_refusal inside [] = False"
| "mentions_refusal inside (c # cs) \<longleftrightarrow> (\<not> inside \<and> refusal_here (c # cs)) \<or> mentions_refusal (word_char c) cs"

text \<open>\<open>/Meta WhatsApp HTTP (?:400|401|403|404|405|409|422)\b/\<close>\<close>
definition whatsapp_refusal :: "string \<Rightarrow> bool" where
  "whatsapp_refusal s \<longleftrightarrow> list_ex (\<lambda>i. list_ex (\<lambda>code. list_ex ends_word (after_text (''Meta WhatsApp HTTP '' @ code) (drop i s)))
     [''400'', ''401'', ''403'', ''404'', ''405'', ''409'', ''422'']) [0..<length s]"

fun isSafeBeforeDispatchFailure :: "dispatch_error \<Rightarrow> bool" where
  "isSafeBeforeDispatchFailure (GatewayRetryableDispatchError _) = True"
| "isSafeBeforeDispatchFailure (ConfigurationDispatchError _) = False"
| "isSafeBeforeDispatchFailure e = (mentions_refusal False (lowercase (error_message e)) \<or> whatsapp_refusal (error_message e))"

definition retryDelayMs :: "nat \<Rightarrow> int" where
  "retryDelayMs attempt = min 60000 (1000 * 2 ^ (attempt - 1))"

fun is_configuration :: "dispatch_error \<Rightarrow> bool" where
  "is_configuration (ConfigurationDispatchError _) = True"
| "is_configuration _ = False"

fun is_started :: "dispatch_error \<Rightarrow> bool" where
  "is_started (ExternalDispatchStartedError _) = True"
| "is_started _ = False"

subsection \<open>One claimed message\<close>

text \<open>The course of one message: the answers of the outside, what others do to the store meanwhile, the
  clock at its end and in the handler of an error, the identifiers drawn.\<close>
record moment =
  mw_answers :: answers
  mw_meanwhile :: "exec_op list"
  mw_finishedAt :: instant
  mw_caughtAt :: instant
  mw_uuids :: "nat \<Rightarrow> string"
  mw_caughtUuids :: "nat \<Rightarrow> string"
  mw_errorText :: "dispatch_error \<Rightarrow> string"
  mw_faultText :: "exec_fault \<Rightarrow> string"

record tally =
  ty_claimed :: nat
  ty_dispatched :: nat
  ty_retryScheduled :: nat
  ty_failed :: nat

definition on_exec :: "(exec_db \<Rightarrow> 'a exec_tx) \<Rightarrow> site \<Rightarrow> (exec_fault, 'a) result \<times> site" where
  "on_exec f s = (case f (st_exec s) of (r, x) \<Rightarrow> (r, s\<lparr>st_exec := x\<rparr>))"

definition reported_result :: "ob_msg \<Rightarrow> connector_result \<Rightarrow> fields option" where
  "reported_result m res = (if isPublicDemoReceipt (cr_output res) then cr_output res
     else case cr_output res of None \<Rightarrow> None
     | Some out \<Rightarrow>
        if ob_channel m = ChEmail \<or> ob_channel m = ChWhatsapp then
          Some (some_entry ''message_id'' (map_of out ''message_id'') @
            some_entry ''accepted_at'' (nullish (map_of out ''accepted_at'') (map_of out ''sent_at'')) @
            some_entry ''delivery_status'' (nullish (map_of out ''delivery_status'') (if ob_channel m = ChEmail then Some (JStr ''sent'') else None)) @
            some_entry ''from_name'' (map_of out ''from_name''))
        else Some out)"

definition completion_of :: "ob_msg \<Rightarrow> string \<Rightarrow> moment \<Rightarrow> dispatched \<Rightarrow> completion" where
  "completion_of m token w d = \<lparr>co_id = ob_id m, co_leaseToken = token, co_completedAt = mw_finishedAt w,
     co_sentAttachments = map_option (\<lambda>ss. JArr (map snapshot_json ss)) (dp_sent d), co_connectorResult = reported_result m (dp_result d)\<rparr>"

definition uncertain_demo :: "ob_msg \<Rightarrow> string \<Rightarrow> moment \<Rightarrow> connector_result \<Rightarrow> failing" where
  "uncertain_demo m token w res = \<lparr>fo_id = ob_id m, fo_leaseToken = token, fo_failedAt = mw_finishedAt w, fo_error = ''demo'',
     fo_retryAt = None, fo_deferred = False, fo_uncertain = True, fo_connectorResult = cr_output res\<rparr>"

definition retries_message :: "worker \<Rightarrow> ob_msg \<Rightarrow> dispatch_error \<Rightarrow> bool" where
  "retries_message K m e \<longleftrightarrow> \<not> carries_amendment m \<and> ob_attempts m < wk_maximumAttempts K \<and> isSafeBeforeDispatchFailure e"

text \<open>The failure that is recorded for an error, and whether another attempt is scheduled.\<close>
definition failing_of :: "worker \<Rightarrow> ob_msg \<Rightarrow> string \<Rightarrow> moment \<Rightarrow> dispatch_error \<Rightarrow> failing" where
  "failing_of K m token w e = (case e of
     GatewayDeferredDispatchError text nextAttempt replayed \<Rightarrow>
       \<lparr>fo_id = ob_id m, fo_leaseToken = token, fo_failedAt = mw_caughtAt w, fo_error = text, fo_retryAt = nextAttempt,
        fo_deferred = replayed, fo_uncertain = False, fo_connectorResult = None\<rparr>
   | _ \<Rightarrow> \<lparr>fo_id = ob_id m, fo_leaseToken = token, fo_failedAt = mw_caughtAt w, fo_error = mw_errorText w e,
        fo_retryAt = (if retries_message K m e then Some (mw_caughtAt w + retryDelayMs (ob_attempts m)) else None), fo_deferred = False,
        fo_uncertain = (if carries_amendment m then is_started e else \<not> isSafeBeforeDispatchFailure e \<and> \<not> is_configuration e),
        fo_connectorResult = None\<rparr>)"

fun is_deferral :: "dispatch_error \<Rightarrow> bool" where
  "is_deferral (GatewayDeferredDispatchError _ _ _) = True"
| "is_deferral _ = False"

definition count_dispatched :: "tally \<Rightarrow> tally" where "count_dispatched n = n\<lparr>ty_dispatched := ty_dispatched n + 1\<rparr>"
definition count_retry :: "tally \<Rightarrow> tally" where "count_retry n = n\<lparr>ty_retryScheduled := ty_retryScheduled n + 1\<rparr>"
definition count_failed :: "tally \<Rightarrow> tally" where "count_failed n = n\<lparr>ty_failed := ty_failed n + 1\<rparr>"

type_synonym 'a site_tx = "(exec_fault, 'a, site) tx"

text \<open>The \<open>catch\<close> block; an error in it ends the run.\<close>
definition catch_failure :: "worker \<Rightarrow> ob_msg \<Rightarrow> string \<Rightarrow> moment \<Rightarrow> tally \<Rightarrow> dispatch_error \<Rightarrow> site \<Rightarrow> tally site_tx" where
  "catch_failure K m token w n e s =
    bind_tx (on_exec (failOutboxMessage (wk_env K) (mw_caughtUuids w) (failing_of K m token w e)) s) (\<lambda>_ s.
      (Inr (if is_deferral e \<or> retries_message K m e then count_retry n else count_failed n), s))"

text \<open>A write of the \<open>try\<close> block: a fault of the store is an error like any other.\<close>
definition try_write ::
  "worker \<Rightarrow> ob_msg \<Rightarrow> string \<Rightarrow> moment \<Rightarrow> tally \<Rightarrow> tally \<Rightarrow> (exec_db \<Rightarrow> ob_msg exec_tx) \<Rightarrow> site \<Rightarrow> tally site_tx" where
  "try_write K m token w n counted f s = (case on_exec f s of
     (Inr _, s') \<Rightarrow> (Inr counted, s')
   | (Inl e, s') \<Rightarrow> catch_failure K m token w n (OtherError (mw_faultText w e)) s')"

definition settle :: "worker \<Rightarrow> ob_msg \<Rightarrow> string \<Rightarrow> moment \<Rightarrow> tally \<Rightarrow> dispatched reading \<Rightarrow> site \<Rightarrow> tally site_tx" where
  "settle K m token w n r s = (case r of
     Inl e \<Rightarrow> catch_failure K m token w n e s
   | Inr d \<Rightarrow> (let res = dp_result d; text = (case cr_error res of None \<Rightarrow> ''connector'' | Some t \<Rightarrow> t) in
       if cr_ok res then try_write K m token w n (count_dispatched n) (completeOutboxMessage (wk_env K) (mw_uuids w) (completion_of m token w d)) s
       else if isPublicDemoReceipt (cr_output res) \<and> map_of (the (cr_output res)) ''outcome'' = Some (JStr ''uncertain'')
       then try_write K m token w n (count_failed n) (failOutboxMessage (wk_env K) (mw_uuids w) (uncertain_demo m token w res)) s
       else catch_failure K m token w n (if dp_started d then ExternalDispatchStartedError text else ConnectorDispatchError text) s))"

text \<open>A claimed message carries the token of its lease; without it nothing can be recorded.\<close>
definition handle :: "worker \<Rightarrow> ob_msg \<Rightarrow> moment \<Rightarrow> tally \<Rightarrow> site \<Rightarrow> tally site_tx" where
  "handle K m w n s =
    (let (r, s1) = dispatch K (mw_answers w) m s; s2 = s1\<lparr>st_exec := exec_run (wk_env K) (mw_meanwhile w) (st_exec s1)\<rparr>
     in case ob_leaseToken m of
          None \<Rightarrow> (Inl (XInvalid ''leaseToken''), s2)
        | Some token \<Rightarrow> if token = [] then (Inl (XInvalid ''leaseToken''), s2) else settle K m token w n r s2)"

subsection \<open>A run\<close>

fun work :: "worker \<Rightarrow> (ob_msg \<times> moment) list \<Rightarrow> tally \<Rightarrow> site \<Rightarrow> tally site_tx" where
  "work K [] n s = (Inr n, s)"
| "work K ((m, w) # ms) n s = bind_tx (handle K m w n s) (work K ms)"

definition readyConnectorIds :: "worker \<Rightarrow> credential list \<Rightarrow> site \<Rightarrow> string list" where
  "readyConnectorIds K cs s = (if isPublicDemoTenant K
     then remdups (map ob_connectorId (filter (\<lambda>m. ob_status m = ObBlocked) (xd_outbox (st_exec s))))
     else remdups (map cd_connectorId (filter (\<lambda>c. cd_connected c \<and> cd_secret c) cs)))"

definition requeue_connector :: "worker \<Rightarrow> instant \<Rightarrow> string \<Rightarrow> site \<Rightarrow> unit site_tx" where
  "requeue_connector K t c s = bind_tx (on_exec (requeueBlockedOutboxMessages c t (Some (wk_batchSize K))) s) (\<lambda>_ s. (Inr (), s))"

definition runTenant :: "worker \<Rightarrow> credential list \<Rightarrow> instant \<Rightarrow> (nat \<Rightarrow> string) \<Rightarrow> (nat \<Rightarrow> moment) \<Rightarrow> site \<Rightarrow> tally site_tx" where
  "runTenant K cs startedAt us ws s =
    bind_tx (each_tx (requeue_connector K startedAt) (readyConnectorIds K cs s) s) (\<lambda>_ s.
    bind_tx (on_exec (claimOutboxMessages (wk_workerId K) startedAt (wk_leaseDurationMs K) (Some (wk_batchSize K)) None us) s) (\<lambda>ms.
    work K (zip ms (map ws [0..<length ms])) \<lparr>ty_claimed = length ms, ty_dispatched = 0, ty_retryScheduled = 0, ty_failed = 0\<rparr>))"

end
