(* ===== verification/WorkerBooks.thy ===== *)
theory WorkerBooks
  imports OutboxWorker
begin

text \<open>
  What the outbox worker may rely on and what the books may rely on from it: its runs are runs of the store,
  a message that carries an amendment is handled for good, an amendment is applied only on a matching
  readback of the ERP, a mail for an order is sent as it was frozen, and the demonstration stays inside.
\<close>

subsection \<open>Errors before anything has left\<close>

text \<open>Readings that fail only with a fault of the configuration: nothing has left the program.\<close>
definition unsent :: "'a reading \<Rightarrow> bool" where
  "unsent r \<longleftrightarrow> (\<forall>e. r = Inl e \<longrightarrow> is_configuration e)"

named_theorems unsent_intros

lemma unsent_base [unsent_intros]: "unsent (Inr a)" "unsent (Inl (ConfigurationDispatchError t))"
  "unsent (require_that c (ConfigurationDispatchError t))"
  by (simp_all add: unsent_def require_that_def)

lemma unsent_reads [unsent_intros]: "unsent r \<Longrightarrow> (\<And>a. unsent (f a)) \<Longrightarrow> unsent (reads r f)"
  by (cases r) (auto simp: unsent_def)

lemma unsent_all [unsent_intros]: "(\<And>x. unsent (f x)) \<Longrightarrow> unsent (reads_all f xs)"
  by (induction xs) (auto intro: unsent_intros)

lemma unsent_text [unsent_intros]: "unsent (frozenText v t)"
  by (auto simp: frozenText_def intro: unsent_intros split: option.splits json.splits)

lemma unsent_record [unsent_intros]: "unsent (frozenRecord v t)"
  by (auto simp: frozenRecord_def intro: unsent_intros split: option.splits json.splits)

lemma unsent_integer [unsent_intros]: "unsent (frozenPositiveInteger v t)"
  by (auto simp: frozenPositiveInteger_def intro: unsent_intros split: option.splits)

lemma unsent_number [unsent_intros]: "unsent (frozenPositiveNumber v t)"
  by (auto simp: frozenPositiveNumber_def intro: unsent_intros split: option.splits json.splits)

lemma unsent_array [unsent_intros]: "unsent (frozen_array v t)"
  by (auto simp: frozen_array_def intro: unsent_intros split: option.splits json.splits list.splits)

lemma unsent_if [unsent_intros]: "(c \<Longrightarrow> unsent r) \<Longrightarrow> (\<not> c \<Longrightarrow> unsent q) \<Longrightarrow> unsent (if c then r else q)"
  by simp

lemma unsent_let [unsent_intros]: "unsent (f a) \<Longrightarrow> unsent (Let a f)"
  by simp

lemma unsent_head [unsent_intros]: "unsent (frozen_amendment_head m)"
  unfolding frozen_amendment_head_def by (intro unsent_intros)

lemma unsent_patch [unsent_intros]: "unsent (frozenOdooPurchaseOrderAmendmentPatch X v)"
  unfolding frozenOdooPurchaseOrderAmendmentPatch_def patch_entry_def patch_date_value_def patch_line_def
  by (intro unsent_intros)

lemma unsent_tail [unsent_intros]: "unsent (frozen_tail m)"
  unfolding frozen_tail_def by (intro unsent_intros)

lemma unsent_amendment: "carries_amendment m \<Longrightarrow> unsent (resolveConnectorAction K A m s)"
  unfolding carries_amendment_def
  by (auto simp: resolveConnectorAction_def plain_action_def frozenOdooPurchaseOrderAmendment_def
      frozenOdooPurchaseOrderCancellation_def intro!: unsent_intros)

text \<open>A dispatch changes nothing in the execution store.\<close>
lemma dispatch_exec: "st_exec (snd (dispatch K A m s)) = st_exec s"
  by (simp add: dispatch_def simulated_def split: sum.splits)

lemma on_exec_store: "st_exec (snd (on_exec f s)) = snd (f (st_exec s))" "fst (on_exec f s) = fst (f (st_exec s))"
  by (simp_all add: on_exec_def split: prod.splits)

text \<open>The operations a worker records for a message, after the outcome \<open>r\<close> of its dispatch.\<close>
definition records :: "worker \<Rightarrow> ob_msg \<Rightarrow> moment \<Rightarrow> dispatched reading \<Rightarrow> exec_op \<Rightarrow> bool" where
  "records K m w r op \<longleftrightarrow> (\<exists>token. ob_leaseToken m = Some token \<and>
     ((\<exists>us d. op = CompleteOutbox us (completion_of m token w d) \<and> r = Inr d \<and> cr_ok (dp_result d)) \<or>
      (\<exists>us d. op = FailOutbox us (uncertain_demo m token w (dp_result d)) \<and> r = Inr d) \<or>
      (\<exists>us e. op = FailOutbox us (failing_of K m token w e) \<and>
         (r = Inl e \<or> (\<exists>t. e = OtherError t \<or> e = ConnectorDispatchError t) \<or>
          (\<exists>d t. r = Inr d \<and> dp_started d \<and> e = ExternalDispatchStartedError t)))))"

definition caught :: "worker \<Rightarrow> ob_msg \<Rightarrow> string \<Rightarrow> moment \<Rightarrow> dispatch_error \<Rightarrow> exec_op" where
  "caught K m token w e = FailOutbox (mw_caughtUuids w) (failing_of K m token w e)"

text \<open>The errors of a dispatch that gave the answer \<open>d\<close>, and the write that follows it.\<close>
definition connector_error :: "dispatched \<Rightarrow> dispatch_error" where
  "connector_error d = (let text = (case cr_error (dp_result d) of None \<Rightarrow> ''connector'' | Some t \<Rightarrow> t)
     in if dp_started d then ExternalDispatchStartedError text else ConnectorDispatchError text)"

definition uncertain_answer :: "dispatched \<Rightarrow> bool" where
  "uncertain_answer d \<longleftrightarrow> isPublicDemoReceipt (cr_output (dp_result d)) \<and>
     map_of (the (cr_output (dp_result d))) ''outcome'' = Some (JStr ''uncertain'')"

text \<open>A write and, when the store refuses it, the failure recorded for that.\<close>
definition write_or_caught :: "worker \<Rightarrow> ob_msg \<Rightarrow> string \<Rightarrow> moment \<Rightarrow> exec_op \<Rightarrow> ob_msg exec_tx \<Rightarrow> exec_op list" where
  "write_or_caught K m token w op r = op # (case fst r of Inr _ \<Rightarrow> [] | Inl e \<Rightarrow> [caught K m token w (OtherError (mw_faultText w e))])"

text \<open>All that is written for a message after the outcome \<open>r\<close> of its dispatch, in the store \<open>x\<close>.\<close>
definition written :: "worker \<Rightarrow> ob_msg \<Rightarrow> moment \<Rightarrow> dispatched reading \<Rightarrow> exec_db \<Rightarrow> exec_op list" where
  "written K m w r x = (case ob_leaseToken m of None \<Rightarrow> [] | Some token \<Rightarrow> if token = [] then [] else (case r of
     Inl e \<Rightarrow> [caught K m token w e]
   | Inr d \<Rightarrow>
      if cr_ok (dp_result d) then write_or_caught K m token w (CompleteOutbox (mw_uuids w) (completion_of m token w d))
        (completeOutboxMessage (wk_env K) (mw_uuids w) (completion_of m token w d) x)
      else if uncertain_answer d then write_or_caught K m token w (FailOutbox (mw_uuids w) (uncertain_demo m token w (dp_result d)))
        (failOutboxMessage (wk_env K) (mw_uuids w) (uncertain_demo m token w (dp_result d)) x)
      else [caught K m token w (connector_error d)]))"

text \<open>The store refuses an operation.\<close>
definition refused :: "exec_env \<Rightarrow> exec_op \<Rightarrow> exec_db \<Rightarrow> bool" where
  "refused X op x \<longleftrightarrow> (case op of
     Mutate us r \<Rightarrow> isl (fst (executeProcurementMutation X us r x))
   | Requeue c t n \<Rightarrow> isl (fst (requeueBlockedOutboxMessages c t n x))
   | ClaimOutbox i t ms n ch us \<Rightarrow> isl (fst (claimOutboxMessages i t ms n ch us x))
   | CompleteOutbox us c \<Rightarrow> isl (fst (completeOutboxMessage X us c x))
   | FailOutbox us f \<Rightarrow> isl (fst (failOutboxMessage X us f x)))"

text \<open>The run ends with a message when nothing could be written for it or the last write was refused.\<close>
definition broken :: "exec_env \<Rightarrow> exec_op list \<Rightarrow> exec_db \<Rightarrow> bool" where
  "broken X ops x \<longleftrightarrow> ops = [] \<or> refused X (last ops) (exec_run X (butlast ops) x)"

lemma catch_writes:
  "st_exec (snd (catch_failure K m token w n e s)) = exec_run (wk_env K) [caught K m token w e] (st_exec s) \<and>
   (isl (fst (catch_failure K m token w n e s)) \<longleftrightarrow> broken (wk_env K) [caught K m token w e] (st_exec s))"
  by (simp add: catch_failure_def caught_def bind_tx_def exec_op_run_def on_exec_def broken_def refused_def split: prod.splits sum.splits)

lemma try_writes:
  assumes "\<And>x. exec_op_run (wk_env K) op x = snd (f x)"
  shows "st_exec (snd (try_write K m token w n n' f s)) = exec_run (wk_env K) (write_or_caught K m token w op (f (st_exec s))) (st_exec s) \<and>
    (isl (fst (try_write K m token w n n' f s)) \<longleftrightarrow> (\<exists>e. fst (f (st_exec s)) = Inl e \<and>
       broken (wk_env K) (write_or_caught K m token w op (f (st_exec s))) (st_exec s)))"
proof (cases "f (st_exec s)")
  case (Pair q x)
  have x: "exec_op_run (wk_env K) op (st_exec s) = x" using assms Pair by simp
  show ?thesis
  proof (cases q)
    case (Inl e)
    then show ?thesis using x catch_writes[of K m token w n "OtherError (mw_faultText w e)" "s\<lparr>st_exec := x\<rparr>"]
      by (simp add: try_write_def on_exec_def Pair write_or_caught_def broken_def)
  qed (use x in \<open>simp add: try_write_def on_exec_def Pair write_or_caught_def\<close>)
qed

lemma broken_write:
  "broken X (write_or_caught K m token w op r) x \<longleftrightarrow> (case fst r of Inr _ \<Rightarrow> refused X op x
     | Inl e \<Rightarrow> refused X (caught K m token w (OtherError (mw_faultText w e))) (exec_op_run X op x))"
  by (simp add: broken_def write_or_caught_def split: sum.split)

lemma settle_writes:
  assumes t: "ob_leaseToken m = Some token" "token \<noteq> []"
  shows "st_exec (snd (settle K m token w n r s)) = exec_run (wk_env K) (written K m w r (st_exec s)) (st_exec s) \<and>
    (isl (fst (settle K m token w n r s)) \<longleftrightarrow> broken (wk_env K) (written K m w r (st_exec s)) (st_exec s))"
proof (cases r)
  case (Inl e)
  then show ?thesis using t catch_writes[of K m token w n e s] by (simp add: settle_def written_def)
next
  case (Inr d)
  let ?c = "completeOutboxMessage (wk_env K) (mw_uuids w) (completion_of m token w d)"
  let ?u = "failOutboxMessage (wk_env K) (mw_uuids w) (uncertain_demo m token w (dp_result d))"
  consider (ok) "cr_ok (dp_result d)" | (uncertain) "\<not> cr_ok (dp_result d)" "uncertain_answer d"
    | (other) "\<not> cr_ok (dp_result d)" "\<not> uncertain_answer d" by blast
  then show ?thesis
  proof cases
    case ok
    then show ?thesis using t try_writes[of K "CompleteOutbox (mw_uuids w) (completion_of m token w d)" ?c m token w n "count_dispatched n" s]
      by (cases "fst (?c (st_exec s))") (simp_all add: settle_def written_def Inr Let_def exec_op_run_def broken_write refused_def)
  next
    case uncertain
    then show ?thesis using t try_writes[of K "FailOutbox (mw_uuids w) (uncertain_demo m token w (dp_result d))" ?u m token w n "count_failed n" s]
      by (cases "fst (?u (st_exec s))") (simp_all add: settle_def written_def Inr Let_def exec_op_run_def broken_write refused_def uncertain_answer_def)
  next
    case other
    have "settle K m token w n r s = catch_failure K m token w n (connector_error d) s"
      unfolding settle_def Inr sum.case Let_def connector_error_def if_not_P[OF other(1)]
        if_not_P[OF other(2)[unfolded uncertain_answer_def]] by (rule refl)
    then show ?thesis using t other catch_writes[of K m token w n "connector_error d" s] by (simp add: written_def Inr)
  qed
qed

text \<open>The store as others have left it when the outcome of the dispatch is known.\<close>
abbreviation meantime :: "worker \<Rightarrow> moment \<Rightarrow> exec_db \<Rightarrow> exec_db" where
  "meantime K w x \<equiv> exec_run (wk_env K) (mw_meanwhile w) x"

lemma handle_writes:
  "st_exec (snd (handle K m w n s)) = exec_run (wk_env K)
     (mw_meanwhile w @ written K m w (fst (dispatch K (mw_answers w) m s)) (meantime K w (st_exec s))) (st_exec s) \<and>
   (isl (fst (handle K m w n s)) \<longleftrightarrow> broken (wk_env K) (written K m w (fst (dispatch K (mw_answers w) m s)) (meantime K w (st_exec s)))
      (meantime K w (st_exec s)))"
proof (cases "dispatch K (mw_answers w) m s")
  case (Pair r s1)
  let ?s2 = "s1\<lparr>st_exec := exec_run (wk_env K) (mw_meanwhile w) (st_exec s1)\<rparr>"
  have s1: "st_exec s1 = st_exec s" using dispatch_exec[of K "mw_answers w" m s] Pair by simp
  show ?thesis
  proof (cases "ob_leaseToken m = None \<or> ob_leaseToken m = Some []")
    case True
    then show ?thesis using s1 by (auto simp: handle_def Pair written_def broken_def)
  next
    case False
    then obtain token where t: "ob_leaseToken m = Some token" "token \<noteq> []" by auto
    from settle_writes[OF t, of K w n r ?s2] show ?thesis using t s1 by (simp add: handle_def Pair exec_run_append)
  qed
qed

lemma caught_records:
  assumes "ob_leaseToken m = Some token" "r = Inl e \<or> (\<exists>t. e = OtherError t) \<or> (\<exists>d. r = Inr d \<and> e = connector_error d)"
  shows "records K m w r (caught K m token w e)"
  unfolding records_def caught_def using assms by (auto simp: connector_error_def Let_def)

lemma written_records:
  assumes "op \<in> set (written K m w r x)"
  shows "records K m w r op"
proof -
  obtain token where t: "ob_leaseToken m = Some token" "token \<noteq> []"
    using assms that
    by (cases "ob_leaseToken m") (auto simp: written_def split: if_splits)
  have other: "records K m w r (caught K m token w (OtherError u))" for u by (rule caught_records[OF t(1)]) simp
  show ?thesis
  proof (cases r)
    case (Inl e)
    then show ?thesis using assms t caught_records[OF t(1), of r e K w] by (simp add: written_def)
  next
    case (Inr d)
    have w: "records K m w r op" if "op \<in> set (write_or_caught K m token w op' q)" "records K m w r op'" for op' q
      using that other by (auto simp: write_or_caught_def split: sum.splits)
    have "records K m w r (CompleteOutbox (mw_uuids w) (completion_of m token w d))" if "cr_ok (dp_result d)"
      unfolding records_def using that t(1) Inr by blast
    moreover have "records K m w r (FailOutbox (mw_uuids w) (uncertain_demo m token w (dp_result d)))"
      unfolding records_def using t(1) Inr by blast
    moreover have "records K m w r (caught K m token w (connector_error d))"
      by (rule caught_records[OF t(1)]) (simp add: Inr)
    ultimately show ?thesis using assms t Inr w by (auto simp: written_def split: if_splits)
  qed
qed

lemma handle_ops:
  "\<exists>ops. (\<forall>op\<in>set ops. records K m w (fst (dispatch K (mw_answers w) m s)) op) \<and>
    st_exec (snd (handle K m w n s)) = exec_run (wk_env K) (mw_meanwhile w @ ops) (st_exec s)"
  using handle_writes[of K m w n s] written_records by blast

text \<open>A message that carries an amendment is never put back for another attempt.\<close>
lemma rethrown_deferral: "amends m \<Longrightarrow> \<not> is_deferral (rethrown m e)"
  by (cases e) (auto simp: rethrown_def amends_def)

lemma carries_amends: "carries_amendment m \<Longrightarrow> amends m \<and> ob_channel m = ChErp"
  by (auto simp: carries_amendment_def amends_def)

lemma unsent_deferral: "unsent r \<Longrightarrow> r = Inl e \<Longrightarrow> \<not> is_deferral e"
  by (cases e) (auto simp: unsent_def)

lemma called_deferral: "amends m \<Longrightarrow> called X m r call = Inl e \<Longrightarrow> \<not> is_deferral e"
  by (auto simp: called_def rethrown_deferral split: sum.splits)

lemma executed_deferral: "amends m \<Longrightarrow> by_connector K A m r = Inl e \<Longrightarrow> \<not> is_deferral e"
  by (auto simp: by_connector_def split: option.splits if_splits dest: called_deferral)

lemma carried_out_deferral:
  assumes "carries_amendment m" "carried_out K A m s = Inl e"
  shows "\<not> is_deferral e"
proof (cases "resolveConnectorAction K A m s")
  case (Inl e')
  then show ?thesis using assms unsent_deferral[OF unsent_amendment[OF assms(1)] Inl] by (simp add: carried_out_def)
next
  case (Inr r)
  then show ?thesis using assms carries_amends[OF assms(1)]
    by (auto simp: carried_out_def split: if_splits option.splits dest: called_deferral executed_deferral)
qed

definition demo_errors :: "'a reading \<Rightarrow> bool" where
  "demo_errors r \<longleftrightarrow> (\<forall>e. r = Inl e \<longrightarrow> \<not> is_deferral e)"

lemma reads_deferral: "demo_errors r \<Longrightarrow> (\<And>a. demo_errors (f a)) \<Longrightarrow> demo_errors (reads r f)"
  by (cases r) (auto simp: demo_errors_def)

lemma receipt_deferral: "demo_errors (createSimulatedDemoReceipt K m t b)"
  unfolding createSimulatedDemoReceipt_def demo_text_def require_that_def Let_def
  by (auto simp: demo_errors_def reads_def split: option.splits if_splits sum.splits)

lemma parse_unsent: "unsent (parseAttachmentSnapshots v)"
  unfolding parseAttachmentSnapshots_def parse_snapshot_def Let_def
  by (auto intro!: unsent_intros split: option.splits json.splits)

lemma dispatch_deferral:
  assumes "carries_amendment m" "fst (dispatch K A m s) = Inl e"
  shows "\<not> is_deferral e"
proof (cases "isPublicDemoTenant K")
  case False
  then show ?thesis using assms carried_out_deferral by (simp add: dispatch_def)
next
  case True
  have "demo_errors (reads (if sends_attachments m then reads (parseAttachmentSnapshots v) (Inr \<circ> Some) else Inr None) (\<lambda>x. Inr (g x)))"
    for v and g :: "snapshot list option \<Rightarrow> dispatched"
    using unsent_deferral[OF parse_unsent[of v]]
    by (cases "parseAttachmentSnapshots v") (auto simp: demo_errors_def)
  then show ?thesis using assms(2) True receipt_deferral[of K m "an_demoAt A" "st_demo s"]
    by (auto simp: dispatch_def simulated_def demo_errors_def split: sum.splits)
qed

lemma failing_amendment:
  assumes "carries_amendment m" "\<not> is_deferral e"
  shows "fo_retryAt (failing_of K m token w e) = None" "fo_deferred (failing_of K m token w e) = False"
  using assms by (cases e; simp add: failing_of_def retries_message_def)+

subsection \<open>Runs are runs of the store\<close>

text \<open>A report of the worker on a message it has claimed: under the identifier and the lease token of the claim.\<close>
fun own_report :: "ob_msg \<Rightarrow> exec_op \<Rightarrow> bool" where
  "own_report m (CompleteOutbox us c) \<longleftrightarrow> co_id c = ob_id m \<and> Some (co_leaseToken c) = ob_leaseToken m"
| "own_report m (FailOutbox us f) \<longleftrightarrow> fo_id f = ob_id m \<and> Some (fo_leaseToken f) = ob_leaseToken m"
| "own_report m op \<longleftrightarrow> False"

fun is_completion :: "exec_op \<Rightarrow> bool" where
  "is_completion (CompleteOutbox us c) = True"
| "is_completion op = False"

definition delivered :: "dispatched reading \<Rightarrow> bool" where
  "delivered r \<longleftrightarrow> (case r of Inl e \<Rightarrow> False | Inr d \<Rightarrow> cr_ok (dp_result d))"

text \<open>What is reported after a dispatch: a completion exactly when the dispatch succeeded, a failure otherwise, and
  after it at most one failure more, only when the store has refused the first report.\<close>
definition reports :: "exec_env \<Rightarrow> ob_msg \<Rightarrow> dispatched reading \<Rightarrow> exec_db \<Rightarrow> exec_op list \<Rightarrow> bool" where
  "reports X m r x ops \<longleftrightarrow> list_all (own_report m) ops \<and> (case ops of
     [] \<Rightarrow> ob_leaseToken m \<in> {None, Some []}
   | op # rest \<Rightarrow> (is_completion op \<longleftrightarrow> delivered r) \<and> (case rest of
       [] \<Rightarrow> True
     | op' # rest' \<Rightarrow> refused X op x \<and> \<not> is_completion op' \<and> rest' = []))"

text \<open>Claimed messages are worked off one after the other, until the first one that cannot be reported.\<close>
inductive worked :: "worker \<Rightarrow> (ob_msg \<times> moment) list \<Rightarrow> exec_db \<Rightarrow> exec_op list \<Rightarrow> bool" for K where
  worked_all: "worked K [] x []"
| worked_last: "reports (wk_env K) m (fst (dispatch K (mw_answers w) m s)) (meantime K w x) ops \<Longrightarrow> st_exec s = x \<Longrightarrow>
    broken (wk_env K) ops (meantime K w x) \<Longrightarrow> worked K ((m, w) # mws) x (mw_meanwhile w @ ops)"
| worked_next: "reports (wk_env K) m (fst (dispatch K (mw_answers w) m s)) (meantime K w x) ops \<Longrightarrow> st_exec s = x \<Longrightarrow>
    \<not> broken (wk_env K) ops (meantime K w x) \<Longrightarrow> worked K mws (exec_run (wk_env K) (mw_meanwhile w @ ops) x) later_ops \<Longrightarrow>
    worked K ((m, w) # mws) x (mw_meanwhile w @ ops @ later_ops)"

definition requeue_op :: "worker \<Rightarrow> instant \<Rightarrow> string \<Rightarrow> exec_op" where
  "requeue_op K t c = Requeue c t (Some (wk_batchSize K))"

definition claim_op :: "worker \<Rightarrow> instant \<Rightarrow> (nat \<Rightarrow> string) \<Rightarrow> exec_op" where
  "claim_op K t us = ClaimOutbox (wk_workerId K) t (wk_leaseDurationMs K) (Some (wk_batchSize K)) None us"

text \<open>The messages a claim takes under new leases of the worker, in the order of the claim.\<close>
definition claims_of :: "worker \<Rightarrow> instant \<Rightarrow> (nat \<Rightarrow> string) \<Rightarrow> exec_db \<Rightarrow> ob_msg list" where
  "claims_of K t us x = (case fst (claimOutboxMessages (wk_workerId K) t (wk_leaseDurationMs K) (Some (wk_batchSize K)) None us x) of
     Inl e \<Rightarrow> [] | Inr ms \<Rightarrow> ms)"

text \<open>A run for a tenant: a requeue for each of the connectors \<open>cs\<close>, a claim, and the claimed messages worked off.  It
  ends early with a requeue that is refused.\<close>
definition tenant_run :: "worker \<Rightarrow> string list \<Rightarrow> instant \<Rightarrow> (nat \<Rightarrow> string) \<Rightarrow> (nat \<Rightarrow> moment) \<Rightarrow> exec_db \<Rightarrow> exec_op list \<Rightarrow> bool" where
  "tenant_run K cs t us ws x ops \<longleftrightarrow>
    (\<exists>k < length cs. ops = map (requeue_op K t) (take (Suc k) cs) \<and>
       refused (wk_env K) (requeue_op K t (cs ! k)) (exec_run (wk_env K) (map (requeue_op K t) (take k cs)) x)) \<or>
    (\<exists>later_ops. ops = map (requeue_op K t) cs @ claim_op K t us # later_ops \<and>
       (let x1 = exec_run (wk_env K) (map (requeue_op K t) cs) x; ms = claims_of K t us x1
        in worked K (zip ms (map ws [0..<length ms])) (exec_op_run (wk_env K) (claim_op K t us) x1) later_ops))"

lemma written_reports: "reports (wk_env K) m r x (written K m w r x)"
proof -
  have f: "fo_id (failing_of K m token w e) = ob_id m" "fo_leaseToken (failing_of K m token w e) = token" for token e
    by (cases e; simp add: failing_of_def)+
  show ?thesis
    by (auto simp: reports_def written_def write_or_caught_def caught_def delivered_def refused_def completion_of_def uncertain_demo_def f
        split: option.splits sum.splits)
qed

lemma work_worked:
  "\<exists>ops. worked K mws (st_exec s) ops \<and> st_exec (snd (work K mws n s)) = exec_run (wk_env K) ops (st_exec s)"
proof (induction mws arbitrary: n s)
  case Nil
  then show ?case using worked_all by fastforce
next
  case (Cons mw mws)
  obtain m w where mw: "mw = (m, w)" by (cases mw)
  let ?ops = "written K m w (fst (dispatch K (mw_answers w) m s)) (meantime K w (st_exec s))"
  note h = handle_writes[of K m w n s]
  show ?case
  proof (cases "handle K m w n s")
    case (Pair q s1)
    then show ?thesis
    proof (cases q)
      case (Inl e)
      have "worked K (mw # mws) (st_exec s) (mw_meanwhile w @ ?ops)" unfolding mw
        by (rule worked_last[OF written_reports refl]) (use h Pair Inl in simp)
      then show ?thesis using h Pair Inl mw by (intro exI[of _ "mw_meanwhile w @ ?ops"]) (simp add: bind_tx_def)
    next
      case (Inr n1)
      from Cons[of s1 n1] obtain later_ops where later_ops: "worked K mws (st_exec s1) later_ops"
        "st_exec (snd (work K mws n1 s1)) = exec_run (wk_env K) later_ops (st_exec s1)" by blast
      have s1: "st_exec s1 = exec_run (wk_env K) (mw_meanwhile w @ ?ops) (st_exec s)" using h Pair by simp
      have "worked K (mw # mws) (st_exec s) (mw_meanwhile w @ ?ops @ later_ops)" unfolding mw
        by (rule worked_next[OF written_reports refl]) (use h Pair Inr later_ops(1) s1 in simp_all)
      then show ?thesis using later_ops(2) Pair Inr mw s1
        by (intro exI[of _ "mw_meanwhile w @ ?ops @ later_ops"]) (simp add: bind_tx_def exec_run_append)
    qed
  qed
qed

lemma requeue_one:
  "st_exec (snd (requeue_connector K t c s)) = exec_op_run (wk_env K) (requeue_op K t c) (st_exec s)"
  "isl (fst (requeue_connector K t c s)) \<longleftrightarrow> refused (wk_env K) (requeue_op K t c) (st_exec s)"
  by (simp_all add: requeue_connector_def bind_tx_def on_exec_def requeue_op_def exec_op_run_def refused_def split: prod.splits sum.splits)

lemma requeues_run:
  assumes "each_tx (requeue_connector K t) cs s = (q, s')"
  shows "(case q of Inr u \<Rightarrow> st_exec s' = exec_run (wk_env K) (map (requeue_op K t) cs) (st_exec s)
     | Inl e \<Rightarrow> \<exists>k < length cs. st_exec s' = exec_run (wk_env K) (map (requeue_op K t) (take (Suc k) cs)) (st_exec s) \<and>
         refused (wk_env K) (requeue_op K t (cs ! k)) (exec_run (wk_env K) (map (requeue_op K t) (take k cs)) (st_exec s)))"
  using assms
proof (induction cs arbitrary: s)
  case (Cons c cs)
  note one = requeue_one[of K t c s]
  show ?case
  proof (cases "requeue_connector K t c s")
    case (Pair r s1)
    show ?thesis
    proof (cases r)
      case (Inl e)
      then have "q = Inl e" "s' = s1" using Cons.prems Pair by (auto simp: bind_tx_def)
      then show ?thesis using one Pair Inl by (auto intro!: exI[of _ 0])
    next
      case (Inr u)
      then have "each_tx (requeue_connector K t) cs s1 = (q, s')" using Cons.prems Pair by (simp add: bind_tx_def)
      note IH = Cons.IH[OF this]
      show ?thesis
      proof (cases q)
        case got: (Inl e)
        with IH one(1) Pair obtain k where "k < length cs" "st_exec s' = exec_run (wk_env K) (map (requeue_op K t) (take (Suc (Suc k)) (c # cs))) (st_exec s)"
          "refused (wk_env K) (requeue_op K t ((c # cs) ! Suc k)) (exec_run (wk_env K) (map (requeue_op K t) (take (Suc k) (c # cs))) (st_exec s))" by auto
        then show ?thesis using got by (auto intro!: exI[of _ "Suc k"])
      qed (use IH one(1) Pair in simp)
    qed
  qed
qed auto

lemma runTenant_trace:
  "\<exists>ops. tenant_run K (readyConnectorIds K cs s) t us ws (st_exec s) ops \<and>
     st_exec (snd (runTenant K cs t us ws s)) = exec_run (wk_env K) ops (st_exec s)"
proof (cases "each_tx (requeue_connector K t) (readyConnectorIds K cs s) s")
  case (Pair q s1)
  note rq = requeues_run[OF Pair]
  show ?thesis
  proof (cases q)
    case (Inl e)
    then show ?thesis using rq Pair by (auto simp: runTenant_def bind_tx_def tenant_run_def)
  next
    case (Inr u)
    let ?rs = "map (requeue_op K t) (readyConnectorIds K cs s)"
    let ?claim = "claimOutboxMessages (wk_workerId K) t (wk_leaseDurationMs K) (Some (wk_batchSize K)) None us"
    let ?ms = "claims_of K t us (st_exec s1)"
    let ?s2 = "s1\<lparr>st_exec := snd (?claim (st_exec s1))\<rparr>"
    have s1: "st_exec s1 = exec_run (wk_env K) ?rs (st_exec s)" using rq Inr by simp
    have op: "exec_op_run (wk_env K) (claim_op K t us) (st_exec s1) = st_exec ?s2" by (simp add: exec_op_run_def claim_op_def)
    have "\<exists>later_ops. worked K (zip ?ms (map ws [0..<length ?ms])) (st_exec ?s2) later_ops \<and>
        st_exec (snd (runTenant K cs t us ws s)) = exec_run (wk_env K) later_ops (st_exec ?s2)"
    proof (cases "?claim (st_exec s1)")
      case claimed: (Pair c x)
      show ?thesis
      proof (cases c)
        case (Inl e)
        then show ?thesis using Pair Inr claimed worked_all
          by (intro exI[of _ "[]"]) (simp add: runTenant_def bind_tx_def on_exec_def claims_of_def)
      next
        case got: (Inr ms)
        then show ?thesis using Pair Inr claimed work_worked[of K "zip ms (map ws [0..<length ms])" ?s2]
          by (simp add: runTenant_def bind_tx_def on_exec_def claims_of_def)
      qed
    qed
    then obtain later_ops where later_ops: "worked K (zip ?ms (map ws [0..<length ?ms])) (st_exec ?s2) later_ops"
      "st_exec (snd (runTenant K cs t us ws s)) = exec_run (wk_env K) later_ops (st_exec ?s2)" by blast
    then show ?thesis using s1 op
      by (intro exI[of _ "?rs @ claim_op K t us # later_ops"]) (auto simp: tenant_run_def Let_def exec_run_append)
  qed
qed

text \<open>The worker itself mutates nothing but through the outbox.\<close>
fun outbox_op :: "exec_op \<Rightarrow> bool" where
  "outbox_op (Mutate us r) = False"
| "outbox_op op = True"

lemma own_report_outbox: "own_report m op \<Longrightarrow> outbox_op op"
  by (cases op) simp_all

lemma worked_ops: "worked K mws x ops \<Longrightarrow> op \<in> set ops \<Longrightarrow> outbox_op op \<or> (\<exists>mw\<in>set mws. op \<in> set (mw_meanwhile (snd mw)))"
  by (induction rule: worked.induct) (auto simp: reports_def list_all_iff dest: own_report_outbox)

lemma tenant_run_ops:
  assumes "tenant_run K cs t us ws x ops" "op \<in> set ops"
  shows "outbox_op op \<or> (\<exists>i. op \<in> set (mw_meanwhile (ws i)))"
proof -
  have rq: "outbox_op (requeue_op K t c)" "outbox_op (claim_op K t us)" for c by (simp_all add: requeue_op_def claim_op_def)
  show ?thesis using assms rq unfolding tenant_run_def Let_def
    by (auto dest!: worked_ops simp: set_zip)
qed

text \<open>So whatever mutations and workers keep, a whole run of the worker keeps.\<close>
context exec_invariant
begin

lemma keep_runTenant:
  assumes "wk_env K = X" "P (st_exec s)" "\<And>op. outbox_op op \<Longrightarrow> allowed op" "\<And>i. list_all allowed (mw_meanwhile (ws i))"
  shows "P (st_exec (snd (runTenant K cs t us ws s)))"
proof -
  obtain ops where o: "tenant_run K (readyConnectorIds K cs s) t us ws (st_exec s) ops"
    "st_exec (snd (runTenant K cs t us ws s)) = exec_run X ops (st_exec s)"
    using runTenant_trace[of K cs s t us ws] assms(1) by auto
  have "list_all allowed ops" using tenant_run_ops[OF o(1)] assms(3,4) unfolding list_all_iff by blast
  then show ?thesis using keep_run[OF assms(2)] o(2) by simp
qed

end

subsection \<open>Applied only on the answer of the ERP\<close>

definition unapplied :: "ident \<Rightarrow> exec_db \<Rightarrow> bool" where
  "unapplied i x \<longleftrightarrow> amendment_state x i \<noteq> Some AmApplied"

interpretation unapplied: exec_base X "unapplied i" for X i
  by unfold_locales (auto simp: unapplied_def same_books_def amendment_state_def dest: applied_books(1,2))

lemma move_unapplied: "unapplied i x \<Longrightarrow> st \<noteq> AmApplied \<Longrightarrow> after (unapplied i) (move_to u k st actor reason ob rc t x)"
  using move_at[of "xd_outbox x" "amendment_state x" x k st u actor reason ob rc t]
  by (auto simp: at_books_def unapplied_def after_def)

lemma safe_readback:
  assumes "safeConnectorResult X v = Inr c" "map_of c ''readbackMatches'' = Some (JBool True)"
  shows "map_of v ''readbackMatches'' = Some (JBool True)"
proof -
  have mem: "(''readbackMatches'', JBool True) \<in> set c" using assms(2) by (rule map_of_SomeD)
  have k: "(''readbackMatches'', JBool True) \<notin> set (kept_number v n)" for n
    by (auto simp: kept_number_def split: option.splits)
  have t: "(''readbackMatches'', JBool True) \<notin> set r" if "kept_text v n = Inr r" for n r
    using that by (auto simp: kept_text_def Let_def split: if_splits)
  have cr: "(''readbackMatches'', JBool True) \<notin> set r" if "kept_credential v = Inr r" for r
    using that by (auto simp: kept_credential_def Let_def split: option.splits json.splits if_splits)
  have al: "(''readbackMatches'', JBool True) \<notin> set (concat rs)" if "all_right (map (kept_text v) ns) = Inr rs" for ns rs
    using that
  proof (induction ns arbitrary: rs)
    case (Cons n ns)
    then show ?case using t by (cases "kept_text v n") (fastforce split: sum.splits)+
  qed simp
  show ?thesis
  proof (cases "map_of v ''receiptKind'' = Some (JStr ''simulated_demo'')")
    case True
    then show ?thesis using assms(1) mem k
      by (auto simp: safeConnectorResult_def demo_result_def Let_def split: if_splits)
  next
    case False
    obtain texts r where x: "all_right (map (kept_text v) [''message_id'', ''accepted_at'', ''delivery_status'', ''from_name'', ''name'', ''state'',
          ''correlationKey'', ''po_name'', ''required_in_house_at'', ''receiptReference'']) = Inr texts" "kept_credential v = Inr r"
      and c: "c = kept_number v ''id'' @ (case map_of v ''readbackMatches'' of Some (JBool x) \<Rightarrow> [(''readbackMatches'', JBool x)] | _ \<Rightarrow> []) @
           kept_number v ''updated_lines'' @ kept_number v ''verified_lines'' @ concat texts @ r"
      using assms(1) False unfolding safeConnectorResult_def by (simp split: sum.splits)
    show ?thesis using mem k cr[OF x(2)] al[OF x(1)] unfolding c
      by (auto split: option.splits json.splits)
  qed
qed

lemma completed_readback:
  assumes "completed_message X c m = Inr m'" "co_connectorResult c = Some out" "result_of m' ''readbackMatches'' = Some (JBool True)"
  shows "map_of out ''readbackMatches'' = Some (JBool True)"
  using assms safe_readback[of X out]
  by (auto simp: completed_message_def safe_result_def result_of_def split: sum.splits if_splits)

lemma fact_unapplied:
  assumes u: "unapplied i x" and r: "result_of m ''readbackMatches'' \<noteq> Some (JBool True)"
  shows "after (unapplied i) (applyCompletedOutboxFact X us m t x)"
proof (cases "carries_amendment m")
  case True
  have "after (unapplied i) (amendment_fact X us m t g what unclear x)" for g what unclear
    unfolding amendment_fact_def
  proof (rule after_value)
    fix k
    show "after (unapplied i) (case result_of m ''readbackMatches'' of
       Some (JBool ok) \<Rightarrow>
         bind_tx (move_to (us 0) k AmDispatched (connector_actor m) (''Odoo '' @ what @ '' dispatched; awaiting authoritative readback'')
             (ob_id m) None t x)
           (\<lambda>_ x. if ok then g k x
              else bind_tx (move_to (us 1) k AmUnknown (connector_actor m) unclear (ob_id m) None t x)
                (\<lambda>_. insertOutboxFailureException
                  (m\<lparr>ob_error := Some (''Odoo '' @ what @ '' authoritative readback did not match'')\<rparr>) t True))
     | _ \<Rightarrow> (Inl (XInvalid ''readbackMatches''), x))"
    proof (cases "result_of m ''readbackMatches'' = Some (JBool False)")
      case True
      show ?thesis unfolding True option.case json.case if_False
        by (intro after_bind[OF move_unapplied[OF u]] after_bind[OF move_unapplied] unapplied.keep_note) simp_all
    qed (use r in \<open>auto split: option.splits json.splits\<close>)
  qed
  then show ?thesis using True by (auto simp: applyCompletedOutboxFact_def carries_amendment_def)
next
  case False
  then show ?thesis using unapplied.keep_plain_fact[OF False u] by simp
qed

lemma failure_unapplied:
  assumes u: "unapplied i x"
  shows "after (unapplied i) (failure_fact us f m x)"
proof -
  have moved: "after (unapplied i) (bind_tx (move_to v k AmDispatched act why ob rc t x) (\<lambda>_. move_to v' k AmUnknown act' why' ob' rc' t'))"
    for v v' k act act' why why' ob ob' rc rc' t t'
    by (rule after_bind[OF move_unapplied[OF u]], simp, erule move_unapplied) simp
  have lost: "after (unapplied i) (markPurchaseOrderAmendmentUnknown us m t why x)" for t why
    unfolding markPurchaseOrderAmendmentUnknown_def
  proof (intro after_value after_option after_fail)
    fix k a
    show "after (unapplied i) (bind_tx (if am_state a = AmQueued
           then bind_tx (move_to (us 0) k AmDispatched (connector_actor m)
                  ''Odoo amendment attempted but no authoritative readback is available'' (ob_id m) None t x)
                (\<lambda>_. move_to (us 1) k AmUnknown (connector_actor m) why (ob_id m) None t)
           else (Inr (), x)) (\<lambda>_. insertOutboxFailureException m t True))"
      by (rule after_bind[of "unapplied i"]) (use moved u unapplied.keep_note in \<open>simp_all\<close>)
  qed
  have refused: "after (unapplied i) (markPurchaseOrderAmendmentFailed us m t why x)" for t why
    unfolding markPurchaseOrderAmendmentFailed_def
    by (intro after_value after_option after_fail after_if) (use move_unapplied[OF u] u in \<open>simp_all\<close>)
  show ?thesis unfolding failure_fact_def using lost refused u unapplied.keep_note[OF u] by simp
qed

lemma put_unapplied: "unapplied i x \<Longrightarrow> put_leased k tok m x = (Inr u, y) \<Longrightarrow> unapplied i y"
  using put_leased_books(1)[of k tok m x] by (simp add: unapplied_def amendment_state_def)

lemma complete_unapplied:
  assumes u: "unapplied i x" and r: "co_connectorResult c = Some out" "map_of out ''readbackMatches'' \<noteq> Some (JBool True)"
  shows "unapplied i (snd (completeOutboxMessage X us c x))"
proof (rule complete_work[of X us c x])
  fix k tok m m'
  assume c: "completed_message X c m = Inr m'"
    and w: "write_completed X us k tok m' (co_completedAt c) x = (Inr m', snd (completeOutboxMessage X us c x))"
  have n: "result_of m' ''readbackMatches'' \<noteq> Some (JBool True)" using completed_readback[OF c r(1)] r(2) by blast
  obtain y y2 y3 where p: "put_leased k tok m' x = (Inr (), y)" and f: "applyCompletedOutboxFact X us m' (co_completedAt c) y = (Inr (), y2)"
    and a: "recordSentAttachmentAudit m' y2 = (Inr (), y3)" and e: "enqueueOutboxProjection X m' y3 = (Inr (), snd (completeOutboxMessage X us c x))"
    using w by (auto simp: write_completed_def tx_ok)
  have "unapplied i y2" using afterD[OF fact_unapplied[OF put_unapplied[OF u p] n] f] .
  then show ?thesis using afterD[OF unapplied.keep_sent_audit a] afterD[OF unapplied.keep_projection e] by blast
qed (use u in simp)

lemma fail_unapplied:
  assumes u: "unapplied i x"
  shows "unapplied i (snd (failOutboxMessage X us f x))"
proof (rule fail_work[of X us f x])
  fix k tok e m m'
  assume w: "write_failed X us k tok f m' x = (Inr m', snd (failOutboxMessage X us f x))"
  obtain y y2 where p: "put_leased k tok m' x = (Inr (), y)" and g: "failure_fact us f m' y = (Inr (), y2)"
    and q: "enqueueOutboxProjection X m' y2 = (Inr (), snd (failOutboxMessage X us f x))"
    using w by (auto simp: write_failed_def tx_ok)
  show ?thesis using afterD[OF unapplied.keep_projection[OF afterD[OF failure_unapplied[OF put_unapplied[OF u p]] g]] q] .
qed (use u in simp)

text \<open>A run of the worker keeps the agreement of the amendments with their messages.\<close>
lemma runTenant_agree: "agree (st_exec s) \<Longrightarrow> agree (st_exec (snd (runTenant K cs t us ws s)))"
  by (rule agreed.keep_runTenant[OF refl]) (simp_all add: list_all_iff)

lemma records_unapplied:
  assumes "\<And>d out. r = Inr d \<Longrightarrow> cr_ok (dp_result d) \<Longrightarrow> reported_result m (dp_result d) = Some out \<Longrightarrow>
      map_of out ''readbackMatches'' \<noteq> Some (JBool True)"
    "\<And>d. r = Inr d \<Longrightarrow> cr_ok (dp_result d) \<Longrightarrow> reported_result m (dp_result d) \<noteq> None"
  shows "\<forall>op\<in>set ops. records K m w r op \<Longrightarrow> unapplied i x \<Longrightarrow> unapplied i (exec_run X ops x)"
proof (induction ops arbitrary: x)
  case (Cons op ops)
  have "unapplied i (exec_op_run X op x)"
  proof -
    have "records K m w r op" using Cons.prems(1) by simp
    then consider us token d where "op = CompleteOutbox us (completion_of m token w d)" "r = Inr d" "cr_ok (dp_result d)"
      | us f where "op = FailOutbox us f" by (auto simp: records_def)
    then show ?thesis
    proof cases
      case 1
      then obtain out where "reported_result m (dp_result d) = Some out" using assms(2)[of d] by blast
      then show ?thesis using complete_unapplied[OF Cons.prems(2), of "completion_of m token w d" out] assms(1)[of d out] 1
        by (simp add: exec_op_run_def completion_of_def)
    next
      case 2
      then show ?thesis using fail_unapplied[OF Cons.prems(2)] by (simp add: exec_op_run_def)
    qed
  qed
  then show ?case using Cons by simp
qed simp

text \<open>When handling a message makes an amendment applied, the dispatch reported a matching readback.\<close>
lemma applied_reported:
  assumes erp: "ob_channel m = ChErp" and some: "\<And>d. fst (dispatch K (mw_answers w) m s) = Inr d \<Longrightarrow> cr_ok (dp_result d) \<Longrightarrow> cr_output (dp_result d) \<noteq> None"
    and a: "amendment_state (exec_run (wk_env K) (mw_meanwhile w) (st_exec s)) i \<noteq> Some AmApplied"
      "amendment_state (st_exec (snd (handle K m w n s))) i = Some AmApplied"
  obtains d out where "fst (dispatch K (mw_answers w) m s) = Inr d" "cr_ok (dp_result d)" "cr_output (dp_result d) = Some out"
    "map_of out ''readbackMatches'' = Some (JBool True)"
proof -
  let ?r = "fst (dispatch K (mw_answers w) m s)"
  have rep: "reported_result m q = cr_output q" for q
    using erp by (auto simp: reported_result_def split: option.splits)
  obtain ops where o: "\<forall>op\<in>set ops. records K m w ?r op"
    "st_exec (snd (handle K m w n s)) = exec_run (wk_env K) (mw_meanwhile w @ ops) (st_exec s)" using handle_ops by blast
  have "\<not> unapplied i (exec_run (wk_env K) ops (exec_run (wk_env K) (mw_meanwhile w) (st_exec s)))"
    using a(2) o(2) by (simp add: unapplied_def exec_run_append)
  then show thesis using records_unapplied[OF _ _ o(1), of i] a(1) that some by (metis rep unapplied_def)
qed

lemma called_amendment:
  assumes "called X m r call = Inr d" "ob_action m = ''purchase_order.amend''" "cr_ok (dp_result d)"
  obtains res out where "call = Inr res" "normalizeOdooPurchaseOrderAmendmentResult X (cr_output res) (rs_input r) = Inr out"
    "cr_output (dp_result d) = Some out"
proof -
  obtain q where q: "reads call (verified_output X m r) = Inr q" "dp_result d = q"
    using assms(1) by (auto simp: called_def split: sum.splits)
  then obtain res where res: "call = Inr res" "verified_output X m r res = Inr q" by (auto simp: reads_ok)
  have "cr_ok res" using res(2) q(2) assms(3) by (cases "cr_ok res") (auto simp: verified_output_def)
  then have "reads (normalizeOdooPurchaseOrderAmendmentResult X (cr_output res) (rs_input r)) (\<lambda>output. Inr (res\<lparr>cr_output := Some output\<rparr>)) = Inr q"
    using res(2) by (simp add: verified_output_def assms(2))
  then obtain out where "normalizeOdooPurchaseOrderAmendmentResult X (cr_output res) (rs_input r) = Inr out" "q = res\<lparr>cr_output := Some out\<rparr>"
    by (auto simp: reads_ok)
  then show thesis using that[OF res(1)] q(2) by simp
qed

lemma executed_amendment:
  assumes "executeResolvedErpAction K R ''po.amend'' input = Inr res"
  obtains num odooId patch po where "odooPurchaseOrderAmendmentInput (wk_env K) input = Inr (num, odooId, patch)" "od_readPO R num = Inr po"
    "\<And>out. cr_output res = Some out \<Longrightarrow> map_of out ''po'' = po"
proof -
  obtain num odooId patch written po where e: "odooPurchaseOrderAmendmentInput (wk_env K) input = Inr (num, odooId, patch)"
      "outside (od_readPO R num) = Inr po" "res = succeeded (some_entry ''po'' po @ some_entry ''write'' written @ [(''credential'', od_credential R)])"
    using assms by (auto simp: executeResolvedErpAction_def Let_def reads_ok)
  have "od_readPO R num = Inr po" using e(2) by (auto simp: outside_def split: sum.splits thrown.splits)
  moreover have "cr_output res = Some out \<Longrightarrow> map_of out ''po'' = po" for out
    by (cases po; cases written) (auto simp: e(3) succeeded_def some_entry_def)
  ultimately show thesis using that e(1) by blast
qed


lemma resolved_amendment:
  assumes "ob_channel m = ChErp" "ob_action m = ''purchase_order.amend''" "resolveConnectorAction K A m s = Inr r"
  obtains fs where "frozenOdooPurchaseOrderAmendment (wk_env K) m = Inr fs" "rs_input r = fs" "rs_action r = ''po.amend''"
  using assms by (auto simp: resolveConnectorAction_def plain_action_def reads_ok)

lemma frozen_amendment_entries:
  assumes "frozenOdooPurchaseOrderAmendment X m = Inr fs"
  obtains num patch where "map_of fs ''poNumber'' = Some (JStr num)" "trim num = num"
    "map_of fs ''patch'' = Some (JObj patch)" "frozenOdooPurchaseOrderAmendmentPatch X (Some (JObj patch)) = Inr patch"
proof -
  obtain a p v i num patch where h: "frozen_amendment_head m = Inr (a, p, v, i, num)"
      "frozenOdooPurchaseOrderAmendmentPatch X (map_of (ob_payload m) ''patch'') = Inr patch"
      "fs = [(''amendmentId'', JStr a), (''poId'', JStr p), (''sourcePoVersion'', JNum (jint v)),
      (''odooId'', JNum (jint i)), (''poNumber'', JStr num), (''patch'', JObj patch)]"
    using assms by (auto simp: frozenOdooPurchaseOrderAmendment_def reads_ok)
  have "trim num = num" using h(1) by (auto simp: frozen_amendment_head_def Let_def reads_ok dest: frozenText_trimmed)
  then show thesis using that[of num patch] h(3) frozen_patch_again[OF h(2)] by simp
qed

subsection \<open>Properties\<close>


text \<open>What may be recorded for a message that carries an amendment: its completion, or a failure that is final.\<close>
fun final_for :: "ob_msg \<Rightarrow> exec_op \<Rightarrow> bool" where
  "final_for m (CompleteOutbox us c) \<longleftrightarrow> co_id c = ob_id m"
| "final_for m (FailOutbox us f) \<longleftrightarrow> fo_id f = ob_id m \<and> fo_retryAt f = None"
| "final_for m op \<longleftrightarrow> False"

lemma records_final:
  assumes "carries_amendment m" "records K m w (fst (dispatch K A m s)) op"
  shows "final_for m op"
proof -
  have "final_for m (FailOutbox us (failing_of K m token w e))" if "\<not> is_deferral e" for us token e
    using failing_amendment(1)[OF assms(1) that] that by (cases e) (simp_all add: failing_of_def)
  moreover have "\<not> is_deferral e" if "fst (dispatch K A m s) = Inl e" for e using dispatch_deferral[OF assms(1) that] .
  ultimately show ?thesis using assms(2)
    by (auto simp: records_def completion_of_def uncertain_demo_def)
qed

text \<open>C13 The worker writes an amendment to the ERP at most once per claim of its message and never schedules
  it again: whatever the outside answers, all it records for the message is its completion or a failure
  without a further attempt.\<close>
theorem amendment_never_retried:
  assumes "carries_amendment m"
  shows "\<exists>ops. st_exec (snd (handle K m w n s)) = exec_run (wk_env K) (mw_meanwhile w @ ops) (st_exec s) \<and> list_all (final_for m) ops"
  using handle_ops[of K m w s n] records_final[OF assms] unfolding list_all_iff by meson

text \<open>C14 A run of the worker is a run of the store, and one of a fixed shape: a requeue for each connector that is ready,
  one claim under its own name and lease length, and then for each claimed message, in the order of the claim, what
  others do while its call is outside and the reports on it, all under its identifier and the lease token of the claim:
  one completion when the dispatch succeeded, one failure when it did not, and one failure more only when the store has
  refused the first report.  The run goes on to the next message exactly when the last report was accepted.\<close>
theorem runTenant_refines:
  "\<exists>ops. tenant_run K (readyConnectorIds K cs s) t us ws (st_exec s) ops \<and>
     st_exec (snd (runTenant K cs t us ws s)) = exec_run (wk_env K) ops (st_exec s)"
  by (rule runTenant_trace)

text \<open>Nothing outside answers.\<close>
definition nobody :: "string \<Rightarrow> answers" where
  "nobody t = \<lparr>an_deliver = (\<lambda>_. Inl ''nobody''), an_execute = (\<lambda>_. Inl (Threw ''nobody'')), an_credentials = [], an_runtime = None,
     an_objects = None, an_demoAt = t\<rparr>"

definition alone :: "moment \<Rightarrow> moment" where
  "alone w = w\<lparr>mw_answers := nobody (an_demoAt (mw_answers w))\<rparr>"

lemma alone_simps [simp]: "mw_meanwhile (alone w) = mw_meanwhile w" "mw_finishedAt (alone w) = mw_finishedAt w"
  "mw_caughtAt (alone w) = mw_caughtAt w" "mw_uuids (alone w) = mw_uuids w" "mw_caughtUuids (alone w) = mw_caughtUuids w"
  "mw_errorText (alone w) = mw_errorText w" "mw_faultText (alone w) = mw_faultText w"
  "an_demoAt (mw_answers (alone w)) = an_demoAt (mw_answers w)"
  by (simp_all add: alone_def nobody_def)

lemma failing_alone [simp]: "failing_of K m token (alone w) e = failing_of K m token w e"
  by (cases e) (simp_all add: failing_of_def)

lemma writes_alone [simp]: "catch_failure K m token (alone w) n e s = catch_failure K m token w n e s"
  "completion_of m token (alone w) d = completion_of m token w d" "uncertain_demo m token (alone w) q = uncertain_demo m token w q"
  by (simp_all add: catch_failure_def completion_of_def uncertain_demo_def)

lemma try_alone [simp]: "try_write K m token (alone w) n k f s = try_write K m token w n k f s"
  by (simp add: try_write_def split: prod.split sum.split)

lemma settle_alone [simp]: "settle K m token (alone w) n r s = settle K m token w n r s"
  by (cases r) (simp_all add: settle_def Let_def)

lemma dispatch_alone: "isPublicDemoTenant K \<Longrightarrow> dispatch K (mw_answers (alone w)) m s = dispatch K (mw_answers w) m s"
  by (simp add: dispatch_def simulated_def)

lemma handle_alone: "isPublicDemoTenant K \<Longrightarrow> handle K m (alone w) n s = handle K m w n s"
  by (simp add: handle_def dispatch_alone Let_def split: prod.split option.split)

lemma work_alone: "isPublicDemoTenant K \<Longrightarrow> work K (map (map_prod id alone) mws) n s = work K mws n s"
proof (induction mws arbitrary: n s)
  case (Cons mw mws)
  then show ?case by (cases mw) (simp add: handle_alone bind_tx_def split: prod.split sum.split)
qed simp

text \<open>The public demonstration never leaves the program: a run for its tenant gives the same result and the same
  store when no gateway, connector, credential, ERP client or object storage answers at all.\<close>
theorem demo_never_outside:
  assumes "isPublicDemoTenant K"
  shows "runTenant K cs t us ws s = runTenant K [] t us (alone \<circ> ws) s"
proof -
  have "readyConnectorIds K cs s = readyConnectorIds K [] s" using assms by (simp add: readyConnectorIds_def)
  moreover have "zip ms (map (alone \<circ> ws) xs) = map (map_prod id alone) (zip ms (map ws xs))" for ms :: "ob_msg list" and xs
    by (simp add: zip_map2 case_prod_beta' map_prod_def)
  ultimately show ?thesis by (simp add: runTenant_def bind_tx_def work_alone[OF assms] split: prod.split sum.split)
qed

lemma identity_field: "textIdentityField v l = Inr t \<Longrightarrow> trim t = t \<and> t \<noteq> []"
  unfolding textIdentityField_def by (cases v) (auto simp: trim_trim split: json.splits if_splits)

lemma sender_name: "frozenCommunicationIdentity v = Inr who \<Longrightarrow> trim (id_displayName who) = id_displayName who \<and> id_displayName who \<noteq> []"
  unfolding frozenCommunicationIdentity_def reads_ok by (elim exE conjE) (use identity_field in auto)

lemma with_snapshots_zip: "length fs = length ss \<Longrightarrow> with_snapshots fs (Some ss) = zip fs (map Some ss)"
  by (auto simp: with_snapshots_def intro!: nth_equalityI)

text \<open>A stored attachment that may leave: active, scanned clean, and at the frozen version.\<close>
definition cleared :: "site \<Rightarrow> snapshot \<Rightarrow> bool" where
  "cleared s sn \<longleftrightarrow> (case find (\<lambda>a. ax_id a = sn_id sn) (xd_attachments (st_exec s)) of None \<Rightarrow> False
     | Some a \<Rightarrow> ax_status a = ''active'' \<and> ax_securityStatus a = ''clean'' \<and> jint (ax_version a) = sn_version sn)"

definition sent_as_frozen :: "worker \<Rightarrow> site \<Rightarrow> snapshot \<Rightarrow> attachment_payload \<Rightarrow> bool" where
  "sent_as_frozen K s sn a \<longleftrightarrow> cleared s sn \<and> att_id a = sn_id sn \<and> att_sha256 a = sn_sha256 sn \<and>
     pe_sha (wk_proj K) (att_content a) = sn_sha256 sn \<and> jint (att_sizeBytes a) = sn_sizeBytes sn"

lemma verified_cleared:
  assumes "verified_attachment K A s sn = Inr (name, ct, bytes)"
  shows "cleared s sn \<and> jint (int (length bytes)) = sn_sizeBytes sn"
proof -
  obtain a where a: "find (\<lambda>a. ax_id a = sn_id sn) (xd_attachments (st_exec s)) = Some a"
    using assms by (cases "find (\<lambda>a. ax_id a = sn_id sn) (xd_attachments (st_exec s))") (simp_all add: verified_attachment_def)
  obtain c where c: "ax_status a = ''active''" "ax_securityStatus a = ''clean''" "jint (ax_version a) = sn_version sn"
      "jint (ax_sizeBytes a) = sn_sizeBytes sn" "as_configuration (loadProcurementAttachmentContent K A a c) = Inr bytes"
    using assms by (auto simp only: verified_attachment_def a option.case reads_ok require_that_ok prod.inject sum.inject)
  have "int (length bytes) = ax_sizeBytes a"
    using c(5) by (auto simp: as_configuration_def loadProcurementAttachmentContent_def reads_ok split: sum.splits)
  then show ?thesis using c(1,2,3,4) by (simp only: cleared_def a option.case simp_thms)
qed

lemma requested_frozen:
  assumes "request_attachment K ((name, ct, bytes), Some sn) = Inr a" "verified_attachment K A s sn = Inr (name, ct, bytes)"
  shows "sent_as_frozen K s sn a"
  using assms(1) verified_cleared[OF assms(2)] by (auto simp: request_attachment_def Let_def reads_ok sent_as_frozen_def)

lemma attachments_frozen:
  assumes "loadVerifiedAttachments K A s ss = Inr fs" "reads_all (request_attachment K) (with_snapshots fs (Some ss)) = Inr as"
  shows "list_all2 (sent_as_frozen K s) ss as"
proof -
  have l: "length fs = length ss" using assms(1) reads_all_length unfolding loadVerifiedAttachments_def by blast
  have v: "list_all2 (\<lambda>sn f. verified_attachment K A s sn = Inr f) ss fs"
    using assms(1) by (simp add: loadVerifiedAttachments_def reads_all_ok)
  have r: "list_all2 (\<lambda>x a. request_attachment K x = Inr a) (zip fs (map Some ss)) as"
    using assms(2) by (simp add: with_snapshots_zip[OF l] reads_all_ok)
  show ?thesis
    unfolding list_all2_conv_all_nth
  proof (intro conjI allI impI)
    show "length ss = length as" using list_all2_lengthD[OF r] l by simp
    fix i
    assume i: "i < length ss"
    obtain name ct bytes where f: "fs ! i = (name, ct, bytes)" by (cases "fs ! i") auto
    have "request_attachment K ((name, ct, bytes), Some (ss ! i)) = Inr (as ! i)"
      using list_all2_nthD[OF r, of i] i l f by simp
    moreover have "verified_attachment K A s (ss ! i) = Inr (name, ct, bytes)" using list_all2_nthD[OF v i] f by simp
    ultimately show "sent_as_frozen K s (ss ! i) (as ! i)" by (rule requested_frozen)
  qed
qed

text \<open>C6 What is mailed for an order is what was frozen when the mail was queued: the request that reaches the gateway
  is for the version of the order that was frozen, goes to the contact of the order's supplier alone, under
  the frozen sender, and carries exactly the frozen attachments, each one active, scanned clean, at its
  version, size and hash.\<close>
theorem order_email_frozen:
  assumes "ob_channel m = ChEmail" "ob_action m = ''purchase_order.send''"
    "resolveConnectorAction K A m s = Inr r" "buildMessageDeliveryRequest K m r = Inr q"
  shows "\<exists>po n who ss. order_of (ob_aggregateId m) (st_exec s) = Some (po, n) \<and>
    positive_int (Some (JNum (number_of (wk_number K) (map_of (ob_payload m) ''poVersion'')))) = Some (int n) \<and>
    frozenCommunicationIdentity (map_of (ob_payload m) ''communicationIdentity'') = Inr who \<and>
    rq_recipients q = [\<lparr>ma_address = trim (supplier_address (doc_text po ''supplierId'') (st_exec s)), ma_displayName = None\<rparr>] \<and>
    rq_sender q = Some \<lparr>sa_address = None, sa_displayName = Some (id_displayName who)\<rparr> \<and>
    parseAttachmentSnapshots (map_of (ob_payload m) ''attachments'') = Inr ss \<and> list_all2 (sent_as_frozen K s) ss (rq_attachments q)"
proof -
  have r: "resolve_order_email K A m s = Inr r" using assms(1,2,3) by (simp add: resolveConnectorAction_def)
  then obtain who where who: "frozenCommunicationIdentity (map_of (ob_payload m) ''communicationIdentity'') = Inr who"
    by (auto simp: resolve_order_email_def reads_ok)
  then obtain po n where po: "order_of (ob_aggregateId m) (st_exec s) = Some (po, n)"
    using r by (cases "order_of (ob_aggregateId m) (st_exec s)") (auto simp: resolve_order_email_def)
  obtain ss fs where p: "positive_int (Some (JNum (number_of (wk_number K) (map_of (ob_payload m) ''poVersion'')))) = Some (int n)"
      "parseAttachmentSnapshots (map_of (ob_payload m) ''attachments'') = Inr ss" "loadVerifiedAttachments K A s ss = Inr fs"
    and i: "rs_input r = mail_input (supplier_address (doc_text po ''supplierId'') (st_exec s))
        (wk_orderText K m po (listLines PurchaseOrderLine (doc_id po) (xd_proc (st_exec s))) who) who (doc_id po) (doc_text po ''supplierId'')"
      "rs_files r = fs" "rs_sent r = Some ss"
    using r by (auto simp: resolve_order_email_def who po Let_def reads_ok)
  have name: "trim (id_displayName who) = id_displayName who" "id_displayName who \<noteq> []"
    using sender_name[OF who] by simp_all
  obtain as where a: "reads_all (request_attachment K) (with_snapshots fs (Some ss)) = Inr as" "rq_attachments q = as"
      "rq_recipients q = [\<lparr>ma_address = trim (supplier_address (doc_text po ''supplierId'') (st_exec s)), ma_displayName = None\<rparr>]"
      "rq_sender q = Some \<lparr>sa_address = None, sa_displayName = Some (id_displayName who)\<rparr>"
    using assms(4) name unfolding buildMessageDeliveryRequest_def i
    by (auto simp: reads_ok Let_def mail_input_def trimmed_def string_of_def frozenText_def split: if_splits)
  show ?thesis using po p(1,2) who a(2,3,4) attachments_frozen[OF p(3) a(1)] by blast
qed

text \<open>C15 An amendment the ERP has accepted is denied when the store refuses its completion, say because the order has
  moved to another version meanwhile: the failure recorded is final and certain, as if nothing had been sent.\<close>
theorem refused_completion_denies_dispatch:
  assumes "carries_amendment m" "ob_leaseToken m = Some token" "token \<noteq> []"
    "fst (dispatch K (mw_answers w) m s) = Inr d" "cr_ok (dp_result d)"
    "completeOutboxMessage (wk_env K) (mw_uuids w) (completion_of m token w d) (exec_run (wk_env K) (mw_meanwhile w) (st_exec s)) = (Inl e, x)"
  shows "\<exists>f. st_exec (snd (handle K m w n s)) = snd (failOutboxMessage (wk_env K) (mw_caughtUuids w) f x) \<and>
    fo_id f = ob_id m \<and> fo_retryAt f = None \<and> \<not> fo_uncertain f"
proof -
  obtain s1 where d: "dispatch K (mw_answers w) m s = (Inr d, s1)" using assms(4) by (cases "dispatch K (mw_answers w) m s") auto
  have s1: "st_exec s1 = st_exec s" using dispatch_exec[of K "mw_answers w" m s] d by simp
  let ?f = "failing_of K m token w (OtherError (mw_faultText w e))"
  have f: "fo_id ?f = ob_id m" "fo_retryAt ?f = None" "\<not> fo_uncertain ?f"
    using assms(1) by (simp_all add: failing_of_def retries_message_def)
  have "st_exec (snd (handle K m w n s)) = snd (failOutboxMessage (wk_env K) (mw_caughtUuids w) ?f x)"
    using assms(2,3,5,6) by (simp add: handle_def d settle_def Let_def try_write_def on_exec_def s1 catch_failure_def bind_tx_def
        split: prod.split sum.split)
  then show ?thesis using f by blast
qed



subsection \<open>A run on a small site\<close>

definition demo_patch :: fields where
  "demo_patch = [(''requiredInHouseAt'', JStr ''2025-01-01'')]"

definition demo_amendment :: ob_msg where
  "demo_amendment = demo_message\<lparr>ob_action := ''purchase_order.amend'', ob_aggregateId := ''d'', ob_payload :=
     [(''amendmentId'', JStr ''a''), (''poId'', JStr ''d''), (''sourcePoVersion'', JNum (JFin 1)),
      (''odooMapping'', JObj [(''sourceSystem'', JStr ''odoo''), (''externalId'', JStr ''e''), (''odooId'', JNum (JFin 5)), (''poNumber'', JStr ''P'')]),
      (''patch'', JObj demo_patch), (''reason'', JStr ''r''), (''actorId'', JStr ''h'')]\<rparr>"

definition demo_books :: am_db where
  "demo_books = \<lparr>ad_rows = [\<lparr>am_id = ''a'', am_poId = ''d'', am_action = AmEdit, am_sourcePoVersion = 1, am_patchJson = ''p'',
     am_state = AmQueued, am_outboxId = Some ''o'', am_receiptReference = None, am_idempotencyKey = ''k'', am_actorId = ''h'', am_reason = ''r'',
     am_createdAt = 1, am_updatedAt = 1, am_appliedAt = None\<rparr>], ad_audit = []\<rparr>"

definition demo_site :: "nat \<Rightarrow> site" where
  "demo_site version = \<lparr>st_exec = empty_exec\<lparr>xd_proc := empty_db\<lparr>pd_documents := [doc_row_of ''purchase_order'' demo_po version 1]\<rparr>,
       xd_outbox := [demo_amendment], xd_amendments := demo_books\<rparr>,
     st_sheets = [], st_contents = [], st_demo = \<lparr>dk_state = None, dk_scenarios = [], dk_audit = []\<rparr>\<rparr>"

definition demo_worker :: worker where
  "demo_worker = \<lparr>wk_env = demo_exec_env, wk_workerId = ''w'', wk_leaseDurationMs = 60000, wk_batchSize = 10, wk_maximumAttempts = 3,
     wk_gateway = True, wk_resolver = True, wk_number = (\<lambda>_. JNaN), wk_messageText = (\<lambda>_. ''t''),
     wk_rfqText = (\<lambda>_ _ _. (''s'', ''b'')), wk_orderText = (\<lambda>_ _ _ _. (''s'', ''b''))\<rparr>"

definition demo_erp :: odoo_runtime where
  "demo_erp = \<lparr>od_credential = JNull, od_createDraft = (\<lambda>_. Inl (Threw ''t'')), od_updateInvoice = (\<lambda>_ _. Inl (Threw ''t'')),
     od_updateETA = (\<lambda>_ _. Inr [(''updated'', JNum (JFin 1))]),
     od_readPO = (\<lambda>p. Inr (Some (JObj [(''id'', JNum (JFin 5)), (''name'', JStr p), (''lines'', JArr [JObj [(''datePlanned'', JStr ''2025-01-01 08:00:00'')]])]))),
     od_cancel = (\<lambda>_. Inl (Rejected ''t''))\<rparr>"

definition demo_moment :: moment where
  "demo_moment = \<lparr>mw_answers = \<lparr>an_deliver = (\<lambda>_. Inl ''t''), an_execute = (\<lambda>_. Inl (Threw ''t'')), an_credentials = [], an_runtime = Some demo_erp,
       an_objects = None, an_demoAt = ''t''\<rparr>, mw_meanwhile = [], mw_finishedAt = 15, mw_caughtAt = 16,
     mw_uuids = (\<lambda>i. nat_str i), mw_caughtUuids = (\<lambda>i. ''c'' @ nat_str i), mw_errorText = (\<lambda>_. ''e''), mw_faultText = (\<lambda>_. ''f'')\<rparr>"

definition no_tally :: tally where
  "no_tally = \<lparr>ty_claimed = 1, ty_dispatched = 0, ty_retryScheduled = 0, ty_failed = 0\<rparr>"

lemma demo_dispatch: "fst (dispatch demo_worker (mw_answers demo_moment) demo_amendment (demo_site v)) =
   Inr \<lparr>dp_result = succeeded [(''po_name'', JStr ''P''), (''readbackMatches'', JBool True), (''receiptReference'', JStr ''purchase.order:5'')],
     dp_sent = None, dp_started = True\<rparr>"
  by code_simp

lemma demo_applied: "amendment_state (st_exec (snd (handle demo_worker demo_amendment demo_moment no_tally (demo_site 1)))) ''a'' = Some AmApplied"
  by code_simp

lemma demo_conflict: "amendment_state (st_exec (snd (handle demo_worker demo_amendment demo_moment no_tally (demo_site 2)))) ''a'' = Some AmFailed"
  by code_simp

lemma amendment_never_retried_witness:
  "\<exists>ops. st_exec (snd (handle demo_worker demo_amendment demo_moment no_tally (demo_site 1))) =
      exec_run demo_exec_env ops (st_exec (demo_site 1)) \<and> list_all (final_for demo_amendment) ops"
proof -
  have c: "carries_amendment demo_amendment" by code_simp
  have w: "wk_env demo_worker = demo_exec_env" "mw_meanwhile demo_moment = []" by (simp_all add: demo_worker_def demo_moment_def)
  show ?thesis using amendment_never_retried[OF c, of demo_worker demo_moment no_tally "demo_site 1"] unfolding w append_Nil .
qed


text \<open>The order has moved to another version while the message waited: the ERP shows the amendment, the books say failed.\<close>
lemma refused_completion_denies_dispatch_witness:
  "fst (dispatch demo_worker (mw_answers demo_moment) demo_amendment (demo_site 2)) = Inr \<lparr>dp_result = succeeded [(''po_name'', JStr ''P''),
       (''readbackMatches'', JBool True), (''receiptReference'', JStr ''purchase.order:5'')], dp_sent = None, dp_started = True\<rparr> \<and>
   amendment_state (st_exec (snd (handle demo_worker demo_amendment demo_moment no_tally (demo_site 2)))) ''a'' = Some AmFailed \<and>
   (\<exists>f. st_exec (snd (handle demo_worker demo_amendment demo_moment no_tally (demo_site 2))) =
       snd (failOutboxMessage demo_exec_env (mw_caughtUuids demo_moment) f (st_exec (demo_site 2))) \<and>
     fo_id f = ob_id demo_amendment \<and> fo_retryAt f = None \<and> \<not> fo_uncertain f)"
proof -
  let ?d = "\<lparr>dp_result = succeeded [(''po_name'', JStr ''P''), (''readbackMatches'', JBool True), (''receiptReference'', JStr ''purchase.order:5'')],
     dp_sent = None, dp_started = True\<rparr>"
  have e: "fst (completeOutboxMessage (wk_env demo_worker) (mw_uuids demo_moment) (completion_of demo_amendment ''tok'' demo_moment ?d)
      (exec_run (wk_env demo_worker) (mw_meanwhile demo_moment) (st_exec (demo_site 2)))) = Inl (XVersion 1 2)" by code_simp
  have x: "snd (completeOutboxMessage (wk_env demo_worker) (mw_uuids demo_moment) (completion_of demo_amendment ''tok'' demo_moment ?d)
      (exec_run (wk_env demo_worker) (mw_meanwhile demo_moment) (st_exec (demo_site 2)))) = st_exec (demo_site 2)" by code_simp
  have c: "carries_amendment demo_amendment" "ob_leaseToken demo_amendment = Some ''tok''" by code_simp+
  have o: "cr_ok (dp_result ?d)" by code_simp
  have w: "wk_env demo_worker = demo_exec_env" by (simp add: demo_worker_def)
  show ?thesis
    using refused_completion_denies_dispatch[OF c _ demo_dispatch o surjective_pairing[THEN trans, OF arg_cong2[OF e x, of Pair]], of no_tally]
      demo_dispatch demo_conflict unfolding w by simp
qed

definition demo_public :: worker where
  "demo_public = demo_worker\<lparr>wk_env := demo_exec_env\<lparr>xe_proj := demo_env\<lparr>pe_tenant := ''t:public-demo''\<rparr>\<rparr>\<rparr>"

lemma demo_never_outside_witness:
  "runTenant demo_public [] 30 (\<lambda>_. ''u'') (\<lambda>_. demo_moment) (demo_site 1) =
   runTenant demo_public [] 30 (\<lambda>_. ''u'') (alone \<circ> (\<lambda>_. demo_moment)) (demo_site 1)"
  by (rule demo_never_outside) code_simp

definition demo_mailer :: worker where
  "demo_mailer = demo_worker\<lparr>wk_env := demo_exec_env\<lparr>xe_proj := demo_env\<lparr>pe_sha := (\<lambda>_. replicate 64 CHR ''a'')\<rparr>\<rparr>\<rparr>"

definition demo_snapshot :: snapshot where
  "demo_snapshot = \<lparr>sn_id = ''f'', sn_sha256 = replicate 64 CHR ''a'', sn_version = JFin 1, sn_name = ''n'', sn_contentType = ''c'', sn_sizeBytes = JFin 2\<rparr>"

definition demo_mail :: ob_msg where
  "demo_mail = demo_message\<lparr>ob_channel := ChEmail, ob_action := ''purchase_order.send'', ob_aggregateId := ''d'', ob_payload :=
     [(''poVersion'', JNum (JFin 1)), (''attachments'', JArr [snapshot_json demo_snapshot]), (''communicationIdentity'',
       JObj [(''displayName'', JStr ''N''), (''title'', JStr ''T''), (''organizationName'', JStr ''O''), (''version'', JNum (JFin 1))])]\<rparr>"

definition demo_office :: site where
  "demo_office = (demo_site 1)\<lparr>st_exec := (st_exec (demo_site 1))\<lparr>xd_proc := empty_db\<lparr>pd_documents :=
       [doc_row_of ''purchase_order'' (demo_po\<lparr>doc_fields := [(''supplierId'', JStr ''s'')]\<rparr>) 1 1,
        doc_row_of ''supplier'' (demo_po\<lparr>doc_id := ''s'', doc_fields := [(''contacts'', JArr [JObj [(''email'', JStr ''a@b.c'')]])]\<rparr>) 1 1]\<rparr>,
     xd_attachments := [\<lparr>ax_id = ''f'', ax_requisitionId = [], ax_fileName = ''n'', ax_contentType = ''c'', ax_sizeBytes = 2,
       ax_sha256 = replicate 64 CHR ''a'', ax_version = 1, ax_status = ''active'', ax_securityStatus = ''clean'', ax_processingStatus = ''parsed'',
       ax_ownerType = ''purchase_order'', ax_ownerId = Some ''d''\<rparr>]\<rparr>,
     st_contents := [(''f'', \<lparr>sc_backend = ''sqlite'', sc_objectKey = None, sc_content = Some ''xy''\<rparr>)]\<rparr>"

lemma order_email_frozen_witness:
  "\<exists>po n who ss (q :: sent_request). order_of (ob_aggregateId demo_mail) (st_exec demo_office) = Some (po, n) \<and>
    positive_int (Some (JNum (number_of (wk_number demo_mailer) (map_of (ob_payload demo_mail) ''poVersion'')))) = Some (int n) \<and>
    frozenCommunicationIdentity (map_of (ob_payload demo_mail) ''communicationIdentity'') = Inr who \<and>
    rq_recipients q = [\<lparr>ma_address = trim (supplier_address (doc_text po ''supplierId'') (st_exec demo_office)), ma_displayName = None\<rparr>] \<and>
    rq_sender q = Some \<lparr>sa_address = None, sa_displayName = Some (id_displayName who)\<rparr> \<and>
    parseAttachmentSnapshots (map_of (ob_payload demo_mail) ''attachments'') = Inr ss \<and> list_all2 (sent_as_frozen demo_mailer demo_office) ss (rq_attachments q)"
proof -
  have "\<exists>r q. resolveConnectorAction demo_mailer (mw_answers demo_moment) demo_mail demo_office = Inr r \<and> buildMessageDeliveryRequest demo_mailer demo_mail r = Inr q"
    by (rule exI[of _ "projr (resolveConnectorAction demo_mailer (mw_answers demo_moment) demo_mail demo_office)"],
        rule exI[of _ "projr (buildMessageDeliveryRequest demo_mailer demo_mail (projr (resolveConnectorAction demo_mailer (mw_answers demo_moment) demo_mail demo_office)))"])
      code_simp
  then obtain r q where rq: "resolveConnectorAction demo_mailer (mw_answers demo_moment) demo_mail demo_office = Inr r"
    "buildMessageDeliveryRequest demo_mailer demo_mail r = Inr q" by blast
  have m: "ob_channel demo_mail = ChEmail" "ob_action demo_mail = ''purchase_order.send''" by code_simp+
  show ?thesis using order_email_frozen[OF m rq] by (elim exE) (intro exI, assumption)
qed

end
