(* ===== verification/Sourcing.thy ===== *)
theory Sourcing
  imports Fulfilment
begin

text \<open>
  From a requisition to draft orders (\<open>createRequisitionIdempotent\<close>, \<open>createRfqIdempotent\<close>,
  \<open>createQuoteIdempotent\<close>, \<open>persistQuoteComparison\<close>, \<open>awardRfqAndCreateDraftPurchaseOrders\<close> of
  \<open>packages/persistence/src/index.ts\<close>): each is one transaction keyed by an idempotency key, over the
  tables of documents and lines.  \<open>Date.parse\<close> and the collation of \<open>localeCompare\<close> are arguments; the
  \<open>n\<close>-th random identifier of an award is \<open>us n\<close>.  Instants of a document are valid by type.
\<close>

subsection \<open>Data\<close>

record so_env =
  se_proj :: proj_env
  se_parse :: "string \<Rightarrow> instant option"
  se_collate :: "string \<Rightarrow> string \<Rightarrow> bool"

record create_input =
  ci_document :: document
  ci_lines :: "proc_line list"
  ci_key :: string
  ci_hash :: string

record create_result =
  cr_document :: "document \<times> nat"
  cr_lines :: "proc_line list"
  cr_replayed :: bool

record comparison_input =
  qi_key :: string
  qi_hash :: string
  qi_expected :: int
  qi_versions :: "(ident \<times> int) list"
  qi_snapshot :: document

record comparison_result =
  qr_snapshot :: "document \<times> nat"
  qr_rfq :: "document \<times> nat"
  qr_replayed :: bool

record award_selection =
  as_rfqLineId :: ident
  as_quoteLineId :: ident
  as_awardedQuantity :: jnum
  as_selectionReason :: string

record award_input =
  wi_key :: string
  wi_hash :: string
  wi_rfqId :: ident
  wi_expected :: int
  wi_approvedBy :: ident
  wi_approvedAt :: string
  wi_lines :: "award_selection list"

record award_result =
  wr_award :: "document \<times> nat"
  wr_lines :: "proc_line list"
  wr_orders :: "((document \<times> nat) \<times> proc_line list) list"
  wr_rfq :: "document \<times> nat"
  wr_replayed :: bool

record attachment_audit =
  aa_id :: ident
  aa_attachmentId :: ident
  aa_requisitionId :: ident
  aa_actorId :: ident
  aa_action :: string
  aa_detail :: json
  aa_createdAt :: instant

record so_db =
  so_proc :: proc_db
  so_requisition_keys :: "(string \<times> string \<times> ident) list"
  so_create_keys :: "((string \<times> string) \<times> string \<times> ident) list"
  so_comparison_keys :: "(string \<times> string \<times> comparison_result) list"
  so_award_keys :: "(string \<times> string \<times> award_result) list"
  so_audit :: "attachment_audit list"

datatype so_fault = SoTenant | SoInvalid string | SoParent | SoKeyReused string | SoMissing string | SoSet string
  | SoVersion int int | SoQuoteVersion ident int int | SoState string | SoAwarded ident | SoRelation | SoEligible
  | SoExpired | SoQuantity | SoCharges | SoUnique | SoStore doc_fault

type_synonym 'a so_tx = "(so_fault, 'a, so_db) tx"

definition on_store :: "(proc_db \<Rightarrow> 'a doc_tx) \<Rightarrow> so_db \<Rightarrow> 'a so_tx" where
  "on_store f s = (case f (so_proc s) of (Inl e, d) \<Rightarrow> (Inl (SoStore e), s\<lparr>so_proc := d\<rparr>)
     | (Inr a, d) \<Rightarrow> (Inr a, s\<lparr>so_proc := d\<rparr>))"

definition ensure :: "bool \<Rightarrow> so_fault \<Rightarrow> (so_fault, unit) result" where
  "ensure c e = (if c then Inr () else Inl e)"

subsection \<open>Checks\<close>

text \<open>\<open>requireRepositoryText\<close>.\<close>
definition source_text :: "string \<Rightarrow> string \<Rightarrow> (so_fault, string) result" where
  "source_text v field = (if trim v = [] then Inl (SoInvalid field) else Inr (trim v))"

definition source_texts :: "(string \<times> string) list \<Rightarrow> (so_fault, string list) result" where
  "source_texts xs = all_right (map (\<lambda>(field, v). source_text v field) xs)"

definition requireExpectedVersion :: "int \<Rightarrow> (so_fault, int) result" where
  "requireExpectedVersion n = (if n \<le> 0 \<or> 9007199254740991 < n then Inl (SoInvalid ''expectedRfqVersion'') else Inr n)"

definition exact_ids :: "string list \<Rightarrow> string list \<Rightarrow> string \<Rightarrow> (so_fault, unit) result" where
  "exact_ids actual expected what = (case assertExactIdSet actual expected what of Inl _ \<Rightarrow> Inl (SoSet what) | Inr _ \<Rightarrow> Inr ())"

subsection \<open>Rows\<close>

text \<open>An award is unique for its request, an award line for its line of the request.\<close>
definition award_taken :: "string \<Rightarrow> document \<Rightarrow> proc_db \<Rightarrow> bool" where
  "award_taken kind d db \<longleftrightarrow> kind = ''award'' \<and> map_of (doc_fields d) ''rfqId'' \<noteq> None \<and>
     list_ex (\<lambda>r. dr_kind r = ''award'' \<and> map_of (doc_fields (dr_document r)) ''rfqId'' = map_of (doc_fields d) ''rfqId'')
       (pd_documents db)"

definition award_line_taken :: "line_kind \<Rightarrow> proc_line \<Rightarrow> proc_db \<Rightarrow> bool" where
  "award_line_taken k l db \<longleftrightarrow> k = AwardLine \<and> map_of (pl_fields l) ''rfqLineId'' \<noteq> None \<and>
     list_ex (\<lambda>r. lr_kind r = line_kind_name AwardLine \<and>
       map_of (pl_fields (lr_line r)) ''rfqLineId'' = map_of (pl_fields l) ''rfqLineId'') (pd_lines db)"

definition insert_row :: "string \<Rightarrow> document \<Rightarrow> so_db \<Rightarrow> unit so_tx" where
  "insert_row kind d s =
    (if find_doc kind (doc_id d) (so_proc s) \<noteq> None \<or> source_taken kind d (so_proc s) \<or> award_taken kind d (so_proc s)
     then (Inl SoUnique, s)
     else (Inr (), s\<lparr>so_proc := (so_proc s)\<lparr>pd_documents := pd_documents (so_proc s) @
       [doc_row_of kind d 1 (doc_createdAt d)]\<rparr>\<rparr>))"

definition insert_row_line :: "line_kind \<Rightarrow> ident \<Rightarrow> proc_line \<Rightarrow> so_db \<Rightarrow> unit so_tx" where
  "insert_row_line k doc l s =
    (if find_line (line_kind_name k) (pl_id l) (so_proc s) \<noteq> None \<or>
        line_number_taken (line_kind_name k) (pl_id l) doc (pl_lineNumber l) (so_proc s) \<or> award_line_taken k l (so_proc s)
     then (Inl SoUnique, s)
     else (Inr (), s\<lparr>so_proc := (so_proc s)\<lparr>pd_lines := pd_lines (so_proc s) @ [\<lparr>lr_kind = line_kind_name k, lr_id = pl_id l,
       lr_documentId = doc, lr_lineNumber = pl_lineNumber l, lr_line = l, lr_generation = 1\<rparr>]\<rparr>\<rparr>))"

definition listDocuments :: "string \<Rightarrow> proc_db \<Rightarrow> (document \<times> nat) list" where
  "listDocuments kind db = map (\<lambda>r. (dr_document r, dr_version r))
     (sort_key (\<lambda>r. (- dr_createdAt r, dr_id r)) (filter (\<lambda>r. dr_kind r = kind) (pd_documents db)))"

definition getLine :: "line_kind \<Rightarrow> ident \<Rightarrow> proc_db \<Rightarrow> proc_line option" where
  "getLine k i db = map_option lr_line (find_line (line_kind_name k) i db)"

subsection \<open>Requisitions\<close>

definition child_of :: "line_kind \<Rightarrow> ident \<Rightarrow> proc_line \<Rightarrow> bool" where
  "child_of k doc l \<longleftrightarrow> map_of (pl_fields l) (LINE_PARENT_FIELD k) = Some (JStr doc)"

definition create_checks :: "proj_env \<Rightarrow> line_kind \<Rightarrow> create_input \<Rightarrow> (so_fault, unit) result" where
  "create_checks E k r =
    (if doc_tenantId (ci_document r) \<noteq> pe_tenant E then Inl SoTenant
     else if ci_key r = [] then Inl (SoInvalid ''idempotencyKey'')
     else if ci_hash r = [] then Inl (SoInvalid ''payloadHash'')
     else if ci_lines r = [] then Inl (SoInvalid ''lines'')
     else if \<not> list_all (child_of k (doc_id (ci_document r))) (ci_lines r) then Inl SoParent
     else Inr ())"

text \<open>The stored answer of a key that was used before.\<close>
definition replay_create :: "line_kind \<Rightarrow> create_input \<Rightarrow> string \<times> ident \<Rightarrow> so_db \<Rightarrow> create_result so_tx" where
  "replay_create k r e s =
    (if fst e \<noteq> ci_hash r then (Inl (SoKeyReused (ci_key r)), s)
     else case getDocument (LINE_DOCUMENT_KIND k) (snd e) (so_proc s) of
       None \<Rightarrow> (Inl (SoMissing (LINE_DOCUMENT_KIND k)), s)
     | Some d \<Rightarrow> (Inr \<lparr>cr_document = d, cr_lines = listLines k (snd e) (so_proc s), cr_replayed = True\<rparr>, s))"

definition created :: "create_input \<Rightarrow> create_result" where
  "created r = \<lparr>cr_document = (ci_document r, 1), cr_lines = ci_lines r, cr_replayed = False\<rparr>"

definition insert_with_lines :: "line_kind \<Rightarrow> create_input \<Rightarrow> so_db \<Rightarrow> unit so_tx" where
  "insert_with_lines k r s = bind_tx (insert_row (LINE_DOCUMENT_KIND k) (ci_document r) s)
     (\<lambda>_. each_tx (insert_row_line k (doc_id (ci_document r))) (ci_lines r))"

definition createRequisitionIdempotent :: "so_env \<Rightarrow> create_input \<Rightarrow> so_db \<Rightarrow> create_result so_tx" where
  "createRequisitionIdempotent E r s =
    with_value (create_checks (se_proj E) RequisitionLine r) (\<lambda>_ s. atomic s
      (case map_of (so_requisition_keys s) (ci_key r) of
         Some e \<Rightarrow> replay_create RequisitionLine r e s
       | None \<Rightarrow> bind_tx (insert_with_lines RequisitionLine r s) (\<lambda>_ s.
           (Inr (created r), s\<lparr>so_requisition_keys := (ci_key r, ci_hash r, doc_id (ci_document r)) # so_requisition_keys s\<rparr>)))) s"

subsection \<open>Requests for quotation and quotes\<close>

definition quotable :: "string list" where
  "quotable = [''draft'', ''sent'', ''awaiting_quotes'', ''partial_quotes'', ''quotes_complete'', ''compared'', ''pending_award'']"

definition receipting :: "string list" where
  "receipting = [''sent'', ''awaiting_quotes'', ''partial_quotes'', ''quotes_complete'', ''compared'', ''pending_award'']"

text \<open>A quote is taken for an existing request that is not awarded.\<close>
definition quote_open :: "line_kind \<Rightarrow> document \<Rightarrow> so_db \<Rightarrow> (so_fault, unit) result" where
  "quote_open k q s = (if k \<noteq> QuoteLine then Inr ()
     else case getDocument ''rfq'' (doc_text q ''rfqId'') (so_proc s) of
       None \<Rightarrow> Inl (SoMissing ''rfq'')
     | Some (rfq, _) \<Rightarrow> ensure (doc_status rfq \<in> set quotable) (SoState (doc_status rfq)))"

definition audit_attachment :: "document \<Rightarrow> (string \<times> json) list \<Rightarrow> so_db \<Rightarrow> unit so_tx" where
  "audit_attachment rfq a s =
    (let i = string_of (map_of a ''id'');
         row = \<lparr>aa_id = ''attachment-audit:selected:'' @ doc_id rfq @ '':'' @ i, aa_attachmentId = i,
           aa_requisitionId = doc_text rfq ''requisitionId'', aa_actorId = doc_text rfq ''buyerId'', aa_action = ''selected_for_rfq'',
           aa_detail = JObj [(''rfqId'', JStr (doc_id rfq)),
             (''attachmentVersion'', case map_of a ''version'' of None \<Rightarrow> JNum (JFin 1) | Some JNull \<Rightarrow> JNum (JFin 1) | Some v \<Rightarrow> v),
             (''sha256'', case map_of a ''sha256'' of None \<Rightarrow> JNull | Some v \<Rightarrow> v)],
           aa_createdAt = doc_createdAt rfq\<rparr>
     in if aa_id row \<in> aa_id ` set (so_audit s) then (Inl SoUnique, s) else (Inr (), s\<lparr>so_audit := so_audit s @ [row]\<rparr>))"

definition audit_selected :: "line_kind \<Rightarrow> document \<Rightarrow> so_db \<Rightarrow> unit so_tx" where
  "audit_selected k rfq s = (if k \<noteq> RfqLine then (Inr (), s)
     else let as = json_objects (map_of (doc_fields rfq) ''attachments'')
       in if as \<noteq> [] \<and> doc_text rfq ''requisitionId'' = [] then (Inl (SoInvalid ''requisitionId''), s)
          else each_tx (audit_attachment rfq) as s)"

definition quotes_of :: "ident \<Rightarrow> proc_db \<Rightarrow> (document \<times> nat) list" where
  "quotes_of rfq db = filter (\<lambda>q. map_of (doc_fields (fst q)) ''rfqId'' = Some (JStr rfq)) (listDocuments ''quote'' db)"

text \<open>The status of a request once its quotes are in.\<close>
definition quoted_status :: "document \<Rightarrow> proc_db \<Rightarrow> string" where
  "quoted_status rfq db = (if list_all (\<lambda>x. x \<in> set (map (\<lambda>q. doc_text (fst q) ''supplierId'') (quotes_of (doc_id rfq) db)))
       (json_strings (map_of (doc_fields rfq) ''supplierIds''))
     then ''quotes_complete'' else ''partial_quotes'')"

definition without_comparison :: "document \<Rightarrow> document" where
  "without_comparison d = d\<lparr>doc_fields := filter (\<lambda>kv. fst kv \<noteq> ''comparisonSnapshotId'') (doc_fields d)\<rparr>"

text \<open>A received quote moves its request and ends the comparison made without it.\<close>
definition receive_quote :: "so_env \<Rightarrow> line_kind \<Rightarrow> document \<Rightarrow> so_db \<Rightarrow> unit so_tx" where
  "receive_quote E k q s = (if k \<noteq> QuoteLine then (Inr (), s)
     else case getDocument ''rfq'' (doc_text q ''rfqId'') (so_proc s) of
       None \<Rightarrow> (Inl (SoMissing ''rfq''), s)
     | Some (rfq, n) \<Rightarrow>
         if doc_status rfq \<in> set receipting \<and> (doc_status rfq \<noteq> quoted_status rfq (so_proc s) \<or>
             map_of (doc_fields rfq) ''comparisonSnapshotId'' \<noteq> None)
         then bind_tx (on_store (updateExecutionDocument (se_proj E) ''rfq'' ((without_comparison rfq)\<lparr>
             doc_status := quoted_status rfq (so_proc s), doc_updatedAt := doc_updatedAt q\<rparr>) n) s) (\<lambda>_ s. (Inr (), s))
         else (Inr (), s))"

definition createDocumentWithLinesIdempotent :: "so_env \<Rightarrow> line_kind \<Rightarrow> create_input \<Rightarrow> so_db \<Rightarrow> create_result so_tx" where
  "createDocumentWithLinesIdempotent E k r s =
    with_value (create_checks (se_proj E) k r) (\<lambda>_ s. atomic s
      (case map_of (so_create_keys s) (LINE_DOCUMENT_KIND k, ci_key r) of
         Some e \<Rightarrow> replay_create k r e s
       | None \<Rightarrow>
           with_value (quote_open k (ci_document r) s) (\<lambda>_ s.
           bind_tx (insert_with_lines k r s) (\<lambda>_ s.
           bind_tx (audit_selected k (ci_document r) s) (\<lambda>_ s.
           bind_tx (receive_quote E k (ci_document r)
             (s\<lparr>so_create_keys := ((LINE_DOCUMENT_KIND k, ci_key r), ci_hash r, doc_id (ci_document r)) # so_create_keys s\<rparr>)) (\<lambda>_ s.
           (Inr (created r), s))))) s)) s"

definition createRfqIdempotent :: "so_env \<Rightarrow> create_input \<Rightarrow> so_db \<Rightarrow> create_result so_tx" where
  "createRfqIdempotent E r = createDocumentWithLinesIdempotent E RfqLine (r\<lparr>ci_document := (ci_document r)\<lparr>doc_status := ''draft''\<rparr>\<rparr>)"

definition createQuoteIdempotent :: "so_env \<Rightarrow> create_input \<Rightarrow> so_db \<Rightarrow> create_result so_tx" where
  "createQuoteIdempotent E = createDocumentWithLinesIdempotent E QuoteLine"

subsection \<open>Comparing quotes\<close>

text \<open>\<open>JSON.parse(JSON.stringify(v))\<close>: a number that is not finite becomes null.\<close>
fun json_clone :: "json \<Rightarrow> json" where
  "json_clone (JNum q) = (if is_finite q then JNum q else JNull)"
| "json_clone (JArr xs) = JArr (map json_clone xs)"
| "json_clone (JObj kvs) = JObj (map (\<lambda>(k, v). (k, json_clone v)) kvs)"
| "json_clone v = v"

definition clone_document :: "document \<Rightarrow> document" where
  "clone_document d = d\<lparr>doc_fields := map (\<lambda>(k, v). (k, json_clone v)) (doc_fields d)\<rparr>"

definition json_fields :: "json option \<Rightarrow> (string \<times> json) list" where
  "json_fields v = (case v of Some (JObj f) \<Rightarrow> f | _ \<Rightarrow> [])"

definition comparison_lines :: "document \<Rightarrow> (string \<times> json) list list" where
  "comparison_lines d = json_objects (map_of (doc_fields d) ''lineComparisons'')"

definition quote_results :: "(string \<times> json) list \<Rightarrow> (string \<times> json) list list" where
  "quote_results c = json_objects (map_of c ''quotes'')"

definition field_text :: "(string \<times> json) list \<Rightarrow> string \<Rightarrow> string" where
  "field_text f k = string_of (map_of f k)"

definition parsed_date :: "so_env \<Rightarrow> string \<Rightarrow> string \<Rightarrow> (so_fault, instant) result" where
  "parsed_date E v field = (case source_text v field of Inl e \<Rightarrow> Inl e
     | Inr _ \<Rightarrow> (case se_parse E v of None \<Rightarrow> Inl (SoInvalid field) | Some t \<Rightarrow> Inr t))"

definition weight_bad :: "json \<Rightarrow> bool" where
  "weight_bad v \<longleftrightarrow> (case v of JNum q \<Rightarrow> \<not> is_finite q \<or> jlt q (JFin 0) | _ \<Rightarrow> True)"

definition rate_bad :: "json \<Rightarrow> bool" where
  "rate_bad v \<longleftrightarrow> (case v of JNum q \<Rightarrow> \<not> is_finite q \<or> jle q (JFin 0) | _ \<Rightarrow> True)"

definition check_quote_result :: "(string \<times> json) list \<Rightarrow> (so_fault, unit) result" where
  "check_quote_result q =
    (case source_texts [(''lineComparison.quoteId'', field_text q ''quoteId''),
        (''lineComparison.quoteLineId'', field_text q ''quoteLineId'')] of
       Inl e \<Rightarrow> Inl e
     | Inr _ \<Rightarrow> ensure (positive_int (map_of q ''quoteVersion'') \<noteq> None) (SoInvalid ''lineComparison.quoteVersion''))"

definition check_comparison_line :: "(string \<times> json) list \<Rightarrow> (so_fault, unit) result" where
  "check_comparison_line c =
    (case source_text (field_text c ''rfqLineId'') ''lineComparison.rfqLineId'' of
       Inl e \<Rightarrow> Inl e
     | Inr _ \<Rightarrow> if quote_results c = [] then Inl (SoSet ''quotes'')
         else (case all_right (map check_quote_result (quote_results c)) of Inl e \<Rightarrow> Inl e | Inr _ \<Rightarrow> Inr ()))"

definition validateQuoteComparisonSnapshot :: "so_env \<Rightarrow> document \<Rightarrow> (so_fault, unit) result" where
  "validateQuoteComparisonSnapshot E d =
    (let rates = json_fields (map_of (doc_fields d) ''rateSnapshot''); weights = map snd (json_fields (map_of (doc_fields d) ''weights''))
     in case source_texts [(''snapshot.id'', doc_id d), (''snapshot.externalId'', doc_externalId d),
          (''snapshot.sourceSystem'', doc_sourceSystem d), (''snapshot.rfqId'', doc_text d ''rfqId''),
          (''snapshot.createdBy'', doc_text d ''createdBy''), (''snapshot.comparisonCurrency'', doc_text d ''comparisonCurrency''),
          (''snapshot.ruleVersion'', doc_text d ''ruleVersion''), (''snapshot.rateSnapshot.version'', field_text rates ''version'')] of
        Inl e \<Rightarrow> Inl e
      | Inr _ \<Rightarrow>
          (case parsed_date E (doc_text d ''asOf'') ''snapshot.asOf'' of
             Inl e \<Rightarrow> Inl e
           | Inr _ \<Rightarrow>
               if list_ex weight_bad weights \<or> list_all (\<lambda>v. v = JNum (JFin 0)) weights then Inl (SoInvalid ''weights'')
               else if list_ex rate_bad (map snd (json_fields (map_of rates ''rates''))) then Inl (SoInvalid ''rates'')
               else (case all_right (map check_comparison_line (comparison_lines d)) of Inl e \<Rightarrow> Inl e | Inr _ \<Rightarrow> Inr ())))"

fun quote_versions_from :: "ident list \<Rightarrow> (ident \<times> int) list \<Rightarrow> (so_fault, unit) result" where
  "quote_versions_from ids [] = Inr ()"
| "quote_versions_from ids ((i, n) # vs) =
    (if trim i = [] then Inl (SoInvalid ''quoteId'')
     else if n \<le> 0 \<or> 9007199254740991 < n then Inl (SoInvalid ''quote version'')
     else if i \<in> set ids then Inl (SoSet ''quoteId'')
     else quote_versions_from (i # ids) vs)"

definition validateQuoteVersionExpectations :: "(ident \<times> int) list \<Rightarrow> (so_fault, unit) result" where
  "validateQuoteVersionExpectations vs = (if vs = [] then Inl (SoSet ''quoteVersions'') else quote_versions_from [] vs)"

text \<open>One quote result of a line of the comparison, against what is stored.\<close>
definition check_result :: "(ident \<times> int) list \<Rightarrow> (document \<times> nat) list \<Rightarrow> proc_db \<Rightarrow> proc_line \<Rightarrow> (string \<times> json) list \<Rightarrow> (so_fault, unit) result" where
  "check_result vs stored db l q =
    (let qid = field_text q ''quoteId''; v = positive_int (map_of q ''quoteVersion'')
     in case find (\<lambda>s. doc_id (fst s) = qid) (List.rev stored) of
          None \<Rightarrow> Inl (SoSet ''quoteVersion'')
        | Some (d, n) \<Rightarrow>
            if v \<noteq> Some (int n) \<or> v \<noteq> map_of (List.rev vs) qid then Inl (SoSet ''quoteVersion'')
            else (case getLine QuoteLine (field_text q ''quoteLineId'') db of
              None \<Rightarrow> Inl (SoMissing ''quote_line'')
            | Some ql \<Rightarrow> ensure (line_text ql ''quoteId'' = doc_id d \<and> line_text ql ''rfqLineId'' = pl_id l \<and>
                map_of (doc_fields d) ''supplierId'' = map_of q ''supplierId'') SoRelation))"

fun check_results :: "(ident \<times> int) list \<Rightarrow> (document \<times> nat) list \<Rightarrow> proc_db \<Rightarrow> proc_line \<Rightarrow> ident list \<Rightarrow> (string \<times> json) list list \<Rightarrow> (so_fault, unit) result" where
  "check_results vs stored db l seen [] = Inr ()"
| "check_results vs stored db l seen (q # qs) =
    (if field_text q ''quoteLineId'' \<in> set seen then Inl (SoSet ''quoteLineId'')
     else case check_result vs stored db l q of
       Inl e \<Rightarrow> Inl e
     | Inr _ \<Rightarrow> check_results vs stored db l (field_text q ''quoteLineId'' # seen) qs)"

definition check_line :: "(ident \<times> int) list \<Rightarrow> (document \<times> nat) list \<Rightarrow> proc_db \<Rightarrow> proc_line list \<Rightarrow> (string \<times> json) list \<Rightarrow> (so_fault, unit) result" where
  "check_line vs stored db ls c = (case find (\<lambda>l. pl_id l = field_text c ''rfqLineId'') (List.rev ls) of
     None \<Rightarrow> Inl SoRelation
   | Some l \<Rightarrow>
       if map_of c ''lineNumber'' \<noteq> Some (JStr (pl_lineNumber l)) \<or> map_of c ''itemId'' \<noteq> map_of (pl_fields l) ''itemId''
       then Inl SoRelation
       else check_results vs stored db l [] (quote_results c))"

definition version_check :: "(ident \<times> int) list \<Rightarrow> document \<times> nat \<Rightarrow> (so_fault, unit) result" where
  "version_check vs q = (case map_of (List.rev vs) (doc_id (fst q)) of
     None \<Rightarrow> Inl (SoSet ''quotes'')
   | Some v \<Rightarrow> ensure (int (snd q) = v) (SoQuoteVersion (doc_id (fst q)) v (int (snd q))))"

definition compared_quotes :: "document \<Rightarrow> ident list" where
  "compared_quotes d = concat (map (\<lambda>c. map (\<lambda>q. field_text q ''quoteId'') (quote_results c)) (comparison_lines d))"

text \<open>All that a comparison is checked against: the lines and the quotes of the request.\<close>
definition comparison_fits :: "(ident \<times> int) list \<Rightarrow> document \<Rightarrow> proc_db \<Rightarrow> (so_fault, unit) result" where
  "comparison_fits vs d db =
    (let rfq = doc_text d ''rfqId''; ls = listLines RfqLine rfq db; stored = quotes_of rfq db
     in case exact_ids (map (\<lambda>c. field_text c ''rfqLineId'') (comparison_lines d)) (map pl_id ls) ''lines'' of
        Inl e \<Rightarrow> Inl e
      | Inr _ \<Rightarrow> (case exact_ids (map fst vs) (map (\<lambda>q. doc_id (fst q)) stored) ''quotes'' of
        Inl e \<Rightarrow> Inl e
      | Inr _ \<Rightarrow> (case all_right (map (version_check vs) stored) of
        Inl e \<Rightarrow> Inl e
      | Inr _ \<Rightarrow> (case all_right (map (check_line vs stored db ls) (comparison_lines d)) of
        Inl e \<Rightarrow> Inl e
      | Inr _ \<Rightarrow> exact_ids (remdups (compared_quotes d)) (map fst vs) ''quotes''))))"

definition comparable :: "string list" where
  "comparable = [''draft'', ''sent'', ''awaiting_quotes'', ''partial_quotes'', ''quotes_complete'', ''compared'']"

definition all_recommended :: "document \<Rightarrow> bool" where
  "all_recommended d \<longleftrightarrow> list_all (\<lambda>c. map_of c ''recommendedSupplierId'' \<noteq> Some JNull) (comparison_lines d)"

definition compared_rfq :: "document \<Rightarrow> document \<Rightarrow> document" where
  "compared_rfq d rfq = rfq\<lparr>doc_status := (if all_recommended d then ''pending_award'' else ''compared''),
     doc_updatedAt := doc_createdAt d, doc_fields := AList.update ''comparisonSnapshotId'' (JStr (doc_id d)) (doc_fields rfq)\<rparr>"

text \<open>The update of a request beside its projection.\<close>
definition write_rfq :: "document \<Rightarrow> nat \<Rightarrow> int \<Rightarrow> so_db \<Rightarrow> unit so_tx" where
  "write_rfq d n expected s =
    (let p = (\<lambda>r. (dr_kind r, dr_id r) = (''rfq'', doc_id d) \<and> dr_version r = n);
         s1 = s\<lparr>so_proc := (so_proc s)\<lparr>pd_documents := upd_where p (\<lambda>r. r\<lparr>dr_status := doc_status d, dr_version := n + 1,
           dr_document := d, dr_updatedAt := doc_updatedAt d\<rparr>) (pd_documents (so_proc s))\<rparr>\<rparr>
     in if changes p (pd_documents (so_proc s)) \<noteq> 1 then (Inl (SoVersion expected (int n)), s1) else (Inr (), s1))"

definition comparison_checks :: "so_env \<Rightarrow> comparison_input \<Rightarrow> document \<Rightarrow> (so_fault, unit) result" where
  "comparison_checks E r d =
    (case source_texts [(''idempotencyKey'', qi_key r), (''payloadHash'', qi_hash r)] of
       Inl e \<Rightarrow> Inl e
     | Inr _ \<Rightarrow> (case requireExpectedVersion (qi_expected r) of
       Inl e \<Rightarrow> Inl e
     | Inr _ \<Rightarrow>
         if doc_tenantId d \<noteq> pe_tenant (se_proj E) then Inl (SoInvalid ''tenantId'')
         else if map_of (doc_fields d) ''rfqVersion'' \<noteq> Some (JNum (JFin (of_int (qi_expected r)))) then Inl (SoInvalid ''rfqVersion'')
         else if doc_status d \<noteq> ''final'' then Inl (SoInvalid ''status'')
         else if comparison_lines d = [] then Inl (SoInvalid ''lineComparisons'')
         else (case validateQuoteComparisonSnapshot E d of
           Inl e \<Rightarrow> Inl e
         | Inr _ \<Rightarrow> validateQuoteVersionExpectations (qi_versions r))))"

definition compare_body :: "comparison_input \<Rightarrow> document \<Rightarrow> so_db \<Rightarrow> comparison_result so_tx" where
  "compare_body r d s =
    (case getDocument ''rfq'' (doc_text d ''rfqId'') (so_proc s) of
       None \<Rightarrow> (Inl (SoMissing ''rfq''), s)
     | Some (rfq, n) \<Rightarrow>
         if int n \<noteq> qi_expected r then (Inl (SoVersion (qi_expected r) (int n)), s)
         else if doc_status rfq \<notin> set comparable then (Inl (SoState (doc_status rfq)), s)
         else with_value (comparison_fits (qi_versions r) d (so_proc s)) (\<lambda>_ s.
           bind_tx (insert_row ''quote_comparison'' d s) (\<lambda>_ s.
           bind_tx (write_rfq (compared_rfq d rfq) n (qi_expected r) s) (\<lambda>_ s.
           let res = \<lparr>qr_snapshot = (d, 1), qr_rfq = (compared_rfq d rfq, n + 1), qr_replayed = False\<rparr>
           in (Inr res, s\<lparr>so_comparison_keys := (qi_key r, qi_hash r, res) # so_comparison_keys s\<rparr>)))) s)"

definition persistQuoteComparison :: "so_env \<Rightarrow> comparison_input \<Rightarrow> so_db \<Rightarrow> comparison_result so_tx" where
  "persistQuoteComparison E r s =
    (let d = clone_document (qi_snapshot r)
     in with_value (comparison_checks E r d) (\<lambda>_ s. atomic s
       (case map_of (so_comparison_keys s) (qi_key r) of
          Some (h, res) \<Rightarrow> if h \<noteq> qi_hash r then (Inl (SoKeyReused (qi_key r)), s) else (Inr (res\<lparr>qr_replayed := True\<rparr>), s)
        | None \<Rightarrow> compare_body r d s)) s)"

subsection \<open>Awarding\<close>

record award_item =
  ai_selection :: award_selection
  ai_reason :: string
  ai_rfqLine :: proc_line
  ai_quote :: document
  ai_quoteLine :: proc_line
  ai_price :: jnum
  ai_basis :: jnum

text \<open>\<open>a ?? n\<close> for a number.\<close>
definition default_number :: "proc_line \<Rightarrow> string \<Rightarrow> rat \<Rightarrow> jnum" where
  "default_number l k n = (case map_of (pl_fields l) k of None \<Rightarrow> JFin n | Some JNull \<Rightarrow> JFin n | Some (JNum q) \<Rightarrow> q | Some _ \<Rightarrow> JNaN)"

definition is_zero :: "json option \<Rightarrow> bool" where
  "is_zero v \<longleftrightarrow> v = Some (JNum (JFin 0))"

definition has_charges :: "proc_line \<Rightarrow> bool" where
  "has_charges l \<longleftrightarrow> list_ex (\<lambda>c. \<not> is_zero (map_of c ''amount'')) (json_objects (map_of (pl_fields l) ''oneTimeCharges'')) \<or>
     \<not> jeq (default_number l ''freight'' 0) (JFin 0)"

definition expired_quote :: "so_env \<Rightarrow> document \<Rightarrow> instant \<Rightarrow> bool" where
  "expired_quote E q t \<longleftrightarrow> doc_text q ''validUntil'' \<noteq> [] \<and>
     (case se_parse E (doc_text q ''validUntil'') of None \<Rightarrow> False | Some u \<Rightarrow> u < t)"

definition below_moq :: "proc_line \<Rightarrow> jnum \<Rightarrow> bool" where
  "below_moq l q \<longleftrightarrow> (case map_of (pl_fields l) ''moq'' of Some (JNum m) \<Rightarrow> jlt q m | _ \<Rightarrow> False)"

definition bad_tax :: "proc_line \<Rightarrow> bool" where
  "bad_tax l \<longleftrightarrow> (case map_of (pl_fields l) ''taxRate'' of None \<Rightarrow> False
     | Some (JNum q) \<Rightarrow> \<not> is_finite q \<or> jlt q (JFin 0) \<or> jlt (JFin 1) q | Some _ \<Rightarrow> True)"

text \<open>The terms of a quote line that an award takes over.\<close>
definition check_terms :: "so_env \<Rightarrow> instant \<Rightarrow> award_selection \<Rightarrow> proc_line \<Rightarrow> document \<Rightarrow> proc_line \<Rightarrow> (so_fault, unit) result" where
  "check_terms E t sel l q ql =
    (let price = line_number ql ''unitPrice''; basis = default_number ql ''priceBasisQuantity'' 1
     in if doc_status q \<noteq> ''received'' then Inl SoEligible
        else if expired_quote E q t then Inl SoExpired
        else if jlt (line_number ql ''quotedQty'') (as_awardedQuantity sel) \<or> map_of (pl_fields ql) ''uom'' \<noteq> map_of (pl_fields l) ''uom''
        then Inl SoQuantity
        else if below_moq ql (as_awardedQuantity sel) then Inl SoEligible
        else if has_charges ql then Inl SoCharges
        else if \<not> is_finite basis \<or> jle basis (JFin 0) \<or> \<not> is_finite price \<or> jlt price (JFin 0) then Inl (SoInvalid ''unitPrice'')
        else if bad_tax ql then Inl (SoInvalid ''taxRate'')
        else Inr ())"

definition selected_result :: "document \<Rightarrow> award_selection \<Rightarrow> (string \<times> json) list option" where
  "selected_result d sel = (case find (\<lambda>c. field_text c ''rfqLineId'' = as_rfqLineId sel) (List.rev (comparison_lines d)) of
     None \<Rightarrow> None | Some c \<Rightarrow> find (\<lambda>q. field_text q ''quoteLineId'' = as_quoteLineId sel) (quote_results c))"

definition prepare_quote :: "so_env \<Rightarrow> ident \<Rightarrow> document \<Rightarrow> instant \<Rightarrow> proc_db \<Rightarrow> award_selection \<Rightarrow> string \<Rightarrow> proc_line \<Rightarrow> (string \<times> json) list \<Rightarrow> (so_fault, award_item) result" where
  "prepare_quote E rid rfq t db sel reason l q =
    (case getDocument ''quote'' (field_text q ''quoteId'') db of
       None \<Rightarrow> Inl (SoMissing ''quote'')
     | Some (d, n) \<Rightarrow>
       (case getLine QuoteLine (as_quoteLineId sel) db of
          None \<Rightarrow> Inl (SoMissing ''quote_line'')
        | Some ql \<Rightarrow>
            if positive_int (map_of q ''quoteVersion'') \<noteq> Some (int n) \<or> doc_text d ''rfqId'' \<noteq> rid \<or>
               line_text ql ''quoteId'' \<noteq> doc_id d \<or> line_text ql ''rfqLineId'' \<noteq> pl_id l \<or>
               map_of q ''supplierId'' \<noteq> map_of (doc_fields d) ''supplierId'' \<or>
               doc_text d ''supplierId'' \<notin> set (json_strings (map_of (doc_fields rfq) ''supplierIds''))
            then Inl SoRelation
            else (case check_terms E t sel l d ql of
              Inl e \<Rightarrow> Inl e
            | Inr _ \<Rightarrow> Inr \<lparr>ai_selection = sel, ai_reason = reason, ai_rfqLine = l, ai_quote = d, ai_quoteLine = ql,
                ai_price = jdiv (line_number ql ''unitPrice'') (default_number ql ''priceBasisQuantity'' 1),
                ai_basis = default_number ql ''priceBasisQuantity'' 1\<rparr>)))"

definition prepare_line :: "so_env \<Rightarrow> ident \<Rightarrow> document \<Rightarrow> document \<Rightarrow> proc_line list \<Rightarrow> instant \<Rightarrow> proc_db \<Rightarrow> award_selection \<Rightarrow> (so_fault, award_item) result" where
  "prepare_line E rid rfq d ls t db sel =
    (case source_text (as_selectionReason sel) ''selectionReason'' of
       Inl e \<Rightarrow> Inl e
     | Inr reason \<Rightarrow>
       (case find (\<lambda>l. pl_id l = as_rfqLineId sel) (List.rev ls) of
          None \<Rightarrow> Inl (SoSet ''lines'')
        | Some l \<Rightarrow>
            if \<not> is_finite (as_awardedQuantity sel) \<or> jle (as_awardedQuantity sel) (JFin 0) \<or>
               \<not> jeq (as_awardedQuantity sel) (line_number l ''requestedQty'') then Inl SoQuantity
            else (case selected_result d sel of
              None \<Rightarrow> Inl SoEligible
            | Some q \<Rightarrow> if field_text q ''eligibility'' \<noteq> ''eligible'' then Inl SoEligible
                else prepare_quote E rid rfq t db sel reason l q)))"

definition award_document :: "so_env \<Rightarrow> ident \<Rightarrow> award_input \<Rightarrow> instant \<Rightarrow> document" where
  "award_document E i r t = \<lparr>doc_id = i, doc_tenantId = pe_tenant (se_proj E), doc_sourceSystem = ''readywork'',
     doc_externalId = i, doc_status = ''approved'', doc_createdAt = t, doc_updatedAt = t,
     doc_fields = [(''rfqId'', JStr (wi_rfqId r)), (''approvedBy'', JStr (wi_approvedBy r)),
       (''approvedAt'', JStr (pe_iso (se_proj E) t))]\<rparr>"

definition if_text :: "proc_line \<Rightarrow> string \<Rightarrow> string \<Rightarrow> (string \<times> json) list" where
  "if_text l k k' = (if line_text l k = [] then [] else [(k', JStr (line_text l k))])"

definition fields_of :: "proc_line \<Rightarrow> string list \<Rightarrow> (string \<times> json) list" where
  "fields_of l ks = concat (map (copied l) ks)"

definition award_line :: "(nat \<Rightarrow> string) \<Rightarrow> ident \<Rightarrow> nat \<Rightarrow> award_item \<Rightarrow> proc_line" where
  "award_line us award k it = \<lparr>pl_id = ''award-line:'' @ us k, pl_lineNumber = pl_lineNumber (ai_rfqLine it),
     pl_fields = [(''awardId'', JStr award), (''rfqLineId'', JStr (pl_id (ai_rfqLine it))),
       (''quoteLineId'', JStr (pl_id (ai_quoteLine it))), (''supplierId'', JStr (doc_text (ai_quote it) ''supplierId''))] @
       fields_of (ai_rfqLine it) [''itemId''] @ optional_description (ai_rfqLine it) @ fields_of (ai_rfqLine it) [''uom''] @
       [(''awardedQty'', JNum (as_awardedQuantity (ai_selection it))), (''unitPrice'', JNum (ai_price it)),
        (''currency'', JStr (doc_text (ai_quote it) ''currency'')), (''selectionReason'', JStr (ai_reason it)),
        (''quotedUnitPrice'', JNum (line_number (ai_quoteLine it) ''unitPrice'')), (''priceBasisQuantity'', JNum (ai_basis it))] @
       fields_of (ai_quoteLine it) [''taxIncluded'', ''taxRate'']\<rparr>"

definition award_lines :: "(nat \<Rightarrow> string) \<Rightarrow> ident \<Rightarrow> award_item list \<Rightarrow> proc_line list" where
  "award_lines us award its = map (\<lambda>(k, it). award_line us award (k + 1) it) (List.enumerate 0 its)"

text \<open>One group per supplier and currency, in the order of first use, then of the collation.\<close>
definition group_key :: "award_item \<Rightarrow> string" where
  "group_key it = doc_text (ai_quote it) ''supplierId'' @ nul @ doc_text (ai_quote it) ''currency''"

definition add_to_group :: "award_item \<Rightarrow> (string \<times> award_item list) list \<Rightarrow> (string \<times> award_item list) list" where
  "add_to_group it gs = (case map_of gs (group_key it) of
     None \<Rightarrow> gs @ [(group_key it, [it])] | Some g \<Rightarrow> AList.update (group_key it) (g @ [it]) gs)"

definition group_items :: "award_item list \<Rightarrow> (string \<times> award_item list) list" where
  "group_items its = fold add_to_group its []"

fun insert_group :: "(string \<Rightarrow> string \<Rightarrow> bool) \<Rightarrow> string \<times> 'a \<Rightarrow> (string \<times> 'a) list \<Rightarrow> (string \<times> 'a) list" where
  "insert_group le g [] = [g]"
| "insert_group le g (h # hs) = (if le (fst g) (fst h) then g # h # hs else h # insert_group le g hs)"

definition sort_groups :: "(string \<Rightarrow> string \<Rightarrow> bool) \<Rightarrow> (string \<times> 'a) list \<Rightarrow> (string \<times> 'a) list" where
  "sort_groups le gs = foldr (insert_group le) gs []"

definition order_document :: "so_env \<Rightarrow> ident \<Rightarrow> ident \<Rightarrow> award_item \<Rightarrow> instant \<Rightarrow> document" where
  "order_document E i award it t = \<lparr>doc_id = i, doc_tenantId = pe_tenant (se_proj E), doc_sourceSystem = ''readywork'',
     doc_externalId = i, doc_status = ''draft'', doc_createdAt = t, doc_updatedAt = t,
     doc_fields = [(''awardId'', JStr award), (''supplierId'', JStr (doc_text (ai_quote it) ''supplierId'')),
       (''currency'', JStr (doc_text (ai_quote it) ''currency'')), (''orderedAt'', JStr (pe_iso (se_proj E) t))]\<rparr>"

definition order_line :: "(nat \<Rightarrow> string) \<Rightarrow> ident \<Rightarrow> proc_line list \<Rightarrow> nat \<Rightarrow> award_item \<Rightarrow> proc_line" where
  "order_line us po als k it = \<lparr>pl_id = ''po-line:'' @ us k, pl_lineNumber = pl_lineNumber (ai_rfqLine it),
     pl_fields = [(''poId'', JStr po),
       (''awardLineId'', JStr (case find (\<lambda>a. line_text a ''rfqLineId'' = pl_id (ai_rfqLine it)) (List.rev als) of
          None \<Rightarrow> [] | Some a \<Rightarrow> pl_id a)),
       (''quoteLineId'', JStr (pl_id (ai_quoteLine it))), (''rfqLineId'', JStr (pl_id (ai_rfqLine it)))] @
       if_text (ai_rfqLine it) ''requisitionLineId'' ''requisitionLineId'' @ fields_of (ai_rfqLine it) [''itemId''] @
       optional_description (ai_rfqLine it) @ fields_of (ai_rfqLine it) [''uom''] @
       [(''orderedQty'', JNum (as_awardedQuantity (ai_selection it))), (''unitPrice'', JNum (ai_price it)),
        (''currency'', JStr (doc_text (ai_quote it) ''currency'')),
        (''quotedUnitPrice'', JNum (line_number (ai_quoteLine it) ''unitPrice'')), (''priceBasisQuantity'', JNum (ai_basis it))] @
       fields_of (ai_quoteLine it) [''taxIncluded'', ''taxRate''] @ if_text (ai_rfqLine it) ''requiredAt'' ''requestedAt''\<rparr>"

text \<open>The orders of the groups; \<open>k\<close> random identifiers have been drawn before.\<close>
fun award_orders :: "so_env \<Rightarrow> (nat \<Rightarrow> string) \<Rightarrow> ident \<Rightarrow> proc_line list \<Rightarrow> instant \<Rightarrow> nat \<Rightarrow> (string \<times> award_item list) list \<Rightarrow> (document \<times> proc_line list) list" where
  "award_orders E us award als t k [] = []"
| "award_orders E us award als t k ((key, g) # gs) =
    (let po = ''po:'' @ us k
     in (order_document E po award (hd g) t, map (\<lambda>(j, it). order_line us po als (k + 1 + j) it) (List.enumerate 0 g)) #
        award_orders E us award als t (k + 1 + length g) gs)"

definition write_order_line :: "so_env \<Rightarrow> document \<Rightarrow> proc_line \<Rightarrow> so_db \<Rightarrow> unit so_tx" where
  "write_order_line E po l s = bind_tx (insert_row_line PurchaseOrderLine (doc_id po) l s) (\<lambda>_.
     on_store (enqueueLineProjection (se_proj E) ''purchase_order_line'' l (doc_updatedAt po) 1))"

definition write_order :: "so_env \<Rightarrow> document \<times> proc_line list \<Rightarrow> so_db \<Rightarrow> unit so_tx" where
  "write_order E po s =
    bind_tx (insert_row ''purchase_order'' (fst po) s) (\<lambda>_ s.
    bind_tx (on_store (enqueueDocumentProjection (se_proj E) ''purchase_order'' (fst po) 1) s) (\<lambda>_.
    each_tx (write_order_line E (fst po)) (snd po)))"

definition awarded_rfq :: "instant \<Rightarrow> document \<Rightarrow> document" where
  "awarded_rfq t rfq = rfq\<lparr>doc_status := ''awarded'', doc_updatedAt := t\<rparr>"

text \<open>The writes of an award once every line is prepared.\<close>
definition write_award :: "so_env \<Rightarrow> (nat \<Rightarrow> string) \<Rightarrow> award_input \<Rightarrow> instant \<Rightarrow> document \<Rightarrow> nat \<Rightarrow> award_item list \<Rightarrow> so_db \<Rightarrow> award_result so_tx" where
  "write_award E us r t rfq n its s =
    (let award = award_document E (''award:'' @ us 0) r t; als = award_lines us (doc_id award) its;
         orders = award_orders E us (doc_id award) als t (1 + length its) (sort_groups (se_collate E) (group_items its))
     in bind_tx (insert_row ''award'' award s) (\<lambda>_ s.
        bind_tx (each_tx (insert_row_line AwardLine (doc_id award)) als s) (\<lambda>_ s.
        bind_tx (each_tx (write_order E) orders s) (\<lambda>_ s.
        bind_tx (write_rfq (awarded_rfq t rfq) n (wi_expected r) s) (\<lambda>_ s.
        let res = \<lparr>wr_award = (award, 1), wr_lines = als, wr_orders = map (\<lambda>(d, ls). ((d, 1), ls)) orders,
              wr_rfq = (awarded_rfq t rfq, n + 1), wr_replayed = False\<rparr>
        in (Inr res, s\<lparr>so_award_keys := (wi_key r, wi_hash r, res) # so_award_keys s\<rparr>))))))"

definition award_body :: "so_env \<Rightarrow> (nat \<Rightarrow> string) \<Rightarrow> award_input \<Rightarrow> instant \<Rightarrow> so_db \<Rightarrow> award_result so_tx" where
  "award_body E us r t s =
    (case getDocument ''rfq'' (wi_rfqId r) (so_proc s) of
       None \<Rightarrow> (Inl (SoMissing ''rfq''), s)
     | Some (rfq, n) \<Rightarrow>
         if doc_status rfq = ''awarded'' then (Inl (SoAwarded (wi_rfqId r)), s)
         else if int n \<noteq> wi_expected r then (Inl (SoVersion (wi_expected r) (int n)), s)
         else if doc_status rfq \<noteq> ''pending_award'' then (Inl (SoState (doc_status rfq)), s)
         else if doc_text rfq ''comparisonSnapshotId'' = [] then (Inl (SoInvalid ''comparisonSnapshotId''), s)
         else (case getDocument ''quote_comparison'' (doc_text rfq ''comparisonSnapshotId'') (so_proc s) of
           None \<Rightarrow> (Inl (SoInvalid ''comparison''), s)
         | Some (d, _) \<Rightarrow>
             if doc_text d ''rfqId'' \<noteq> wi_rfqId r then (Inl (SoInvalid ''comparison''), s)
             else let ls = listLines RfqLine (wi_rfqId r) (so_proc s) in
               with_value (exact_ids (map as_rfqLineId (wi_lines r)) (map pl_id ls) ''lines'') (\<lambda>_.
               with_value (ensure (distinct (map as_quoteLineId (wi_lines r))) (SoSet ''quoteLineId'')) (\<lambda>_ s.
               with_value (all_right (map (prepare_line E (wi_rfqId r) rfq d ls t (so_proc s)) (wi_lines r))) (\<lambda>its.
               write_award E us r t rfq n its) s)) s))"

definition award_checks :: "so_env \<Rightarrow> award_input \<Rightarrow> (so_fault, instant) result" where
  "award_checks E r =
    (case source_texts [(''idempotencyKey'', wi_key r), (''payloadHash'', wi_hash r), (''rfqId'', wi_rfqId r),
        (''approvedBy'', wi_approvedBy r)] of
       Inl e \<Rightarrow> Inl e
     | Inr _ \<Rightarrow> (case requireExpectedVersion (wi_expected r) of
       Inl e \<Rightarrow> Inl e
     | Inr _ \<Rightarrow> (case parsed_date E (wi_approvedAt r) ''approvedAt'' of
       Inl e \<Rightarrow> Inl e
     | Inr t \<Rightarrow> if wi_lines r = [] then Inl (SoInvalid ''lines'') else Inr t)))"

definition awardRfqAndCreateDraftPurchaseOrders :: "so_env \<Rightarrow> (nat \<Rightarrow> string) \<Rightarrow> award_input \<Rightarrow> so_db \<Rightarrow> award_result so_tx" where
  "awardRfqAndCreateDraftPurchaseOrders E us r s =
    with_value (award_checks E r) (\<lambda>t s. atomic s
      (case map_of (so_award_keys s) (wi_key r) of
         Some (h, res) \<Rightarrow> if h \<noteq> wi_hash r then (Inl (SoKeyReused (wi_key r)), s) else (Inr (res\<lparr>wr_replayed := True\<rparr>), s)
       | None \<Rightarrow> award_body E us r t s)) s"

end
