(* ===== verification/SupplierIntake.thy ===== *)
theory SupplierIntake
  imports Sourcing
begin

text \<open>
  What reaches the books from outside (\<open>getSupplierSyncResult\<close>, \<open>syncSuppliersIdempotent\<close> and
  \<open>persistInboundCommunicationIdempotent\<close> of \<open>packages/persistence/src/index.ts\<close>): the suppliers of an
  ERP, found again by their identity there, and the mails of suppliers, each kept once for its
  identity at the provider and for its message id.
\<close>

subsection \<open>Data\<close>

record sync_input =
  sy_key :: string
  sy_hash :: string
  sy_suppliers :: "document list"
  sy_issues :: "json list"

record sync_result =
  sr_created :: nat
  sr_updated :: nat
  sr_unchanged :: nat
  sr_issues :: "json list"
  sr_items :: "json list"

record mail_identity =
  mi_communicationId :: ident
  mi_provider :: string
  mi_mailbox :: string
  mi_uid :: string
  mi_messageId :: string
  mi_hash :: string

record intake_db =
  it_proc :: proc_db
  it_sync_keys :: "(string \<times> string \<times> sync_result) list"
  it_identities :: "mail_identity list"

datatype intake_fault = ItTenant | ItInvalid string | ItKeyReused string | ItMissing string | ItMismatch string
  | ItUnique | ItConcurrent | ItStore doc_fault

type_synonym 'a intake_tx = "(intake_fault, 'a, intake_db) tx"

definition on_docs :: "(proc_db \<Rightarrow> 'a doc_tx) \<Rightarrow> intake_db \<Rightarrow> 'a intake_tx" where
  "on_docs f s = (case f (it_proc s) of (Inl e, d) \<Rightarrow> (Inl (ItStore e), s\<lparr>it_proc := d\<rparr>)
     | (Inr a, d) \<Rightarrow> (Inr a, s\<lparr>it_proc := d\<rparr>))"

text \<open>A document is inserted at version one beside its projection.\<close>
definition insert_projected :: "proj_env \<Rightarrow> string \<Rightarrow> document \<Rightarrow> intake_db \<Rightarrow> unit intake_tx" where
  "insert_projected E kind d s =
    (if find_doc kind (doc_id d) (it_proc s) \<noteq> None \<or> source_taken kind d (it_proc s) then (Inl ItUnique, s)
     else on_docs (\<lambda>db. enqueueDocumentProjection E kind d 1
       (db\<lparr>pd_documents := pd_documents db @ [doc_row_of kind d 1 (doc_createdAt d)]\<rparr>)) s)"

subsection \<open>Suppliers\<close>

text \<open>\<open>isDeepStrictEqual\<close> of two JSON values, whatever the order of the keys.\<close>
function deep_equal :: "json \<Rightarrow> json \<Rightarrow> bool" where
  "deep_equal (JArr xs) (JArr ys) \<longleftrightarrow> length xs = length ys \<and> list_all (\<lambda>(x, y). deep_equal x y) (zip xs ys)"
| "deep_equal (JObj a) (JObj b) \<longleftrightarrow> length a = length b \<and>
     list_all (\<lambda>(k, v). case map_of b k of None \<Rightarrow> False | Some w \<Rightarrow> deep_equal v w) a"
| "deep_equal JNull v \<longleftrightarrow> v = JNull"
| "deep_equal (JBool x) v \<longleftrightarrow> v = JBool x"
| "deep_equal (JNum q) v \<longleftrightarrow> v = JNum q"
| "deep_equal (JStr s) v \<longleftrightarrow> v = JStr s"
| "deep_equal (JArr xs) JNull \<longleftrightarrow> False" | "deep_equal (JArr xs) (JBool x) \<longleftrightarrow> False"
| "deep_equal (JArr xs) (JNum q) \<longleftrightarrow> False" | "deep_equal (JArr xs) (JStr s) \<longleftrightarrow> False" | "deep_equal (JArr xs) (JObj b) \<longleftrightarrow> False"
| "deep_equal (JObj a) JNull \<longleftrightarrow> False" | "deep_equal (JObj a) (JBool x) \<longleftrightarrow> False"
| "deep_equal (JObj a) (JNum q) \<longleftrightarrow> False" | "deep_equal (JObj a) (JStr s) \<longleftrightarrow> False" | "deep_equal (JObj a) (JArr ys) \<longleftrightarrow> False"
  by pat_completeness auto
termination
proof (relation "measure (\<lambda>(v, w). size v)", goal_cases)
  case (2 xs ys z x y)
  then have "x \<in> set xs" by (auto dest: set_zip_leftD)
  then show ?case by (induction xs) auto
next
  case (3 a b z k v w)
  then have "(k, v) \<in> set a" by auto
  then show ?case by (induction a) auto
qed simp

definition sameSupplierContent :: "document \<Rightarrow> document \<Rightarrow> bool" where
  "sameSupplierContent a b \<longleftrightarrow> doc_id a = doc_id b \<and> doc_tenantId a = doc_tenantId b \<and> doc_sourceSystem a = doc_sourceSystem b \<and>
     doc_externalId a = doc_externalId b \<and> doc_status a = doc_status b \<and> deep_equal (JObj (doc_fields a)) (JObj (doc_fields b))"

definition copied_field :: "document \<Rightarrow> string \<Rightarrow> (string \<times> json) list" where
  "copied_field d k = (case map_of (doc_fields d) k of None \<Rightarrow> [] | Some v \<Rightarrow> [(k, v)])"

definition supplierSyncItem :: "document \<times> nat \<Rightarrow> json" where
  "supplierSyncItem st = (let d = fst st in JObj ([(''id'', JStr (doc_id d)), (''externalId'', JStr (doc_externalId d))] @
     concat (map (copied_field d) [''name'', ''currency'', ''contacts'']) @
     concat (map (\<lambda>k. if doc_text d k = [] then [] else copied_field d k)
       [''countryCode'', ''countryName'', ''city'', ''street'', ''street2'', ''postalCode'']) @
     [(''status'', JStr (doc_status d)), (''sourceSystem'', JStr (doc_sourceSystem d)), (''version'', JNum (jint (int (snd st))))]))"

definition findSupplier :: "document \<Rightarrow> proc_db \<Rightarrow> (document \<times> nat) option" where
  "findSupplier c db = map_option (\<lambda>r. (dr_document r, dr_version r))
     (case find (\<lambda>r. dr_kind r = ''supplier'' \<and> dr_sourceSystem r = doc_sourceSystem c \<and> dr_externalId r = doc_externalId c)
        (pd_documents db) of
        None \<Rightarrow> find_doc ''supplier'' (doc_id c) db | Some r \<Rightarrow> Some r)"

text \<open>The candidate under the identity of the stored supplier.\<close>
definition merged_supplier :: "proj_env \<Rightarrow> document \<Rightarrow> document \<Rightarrow> document" where
  "merged_supplier E c stored = c\<lparr>doc_id := doc_id stored, doc_tenantId := pe_tenant E, doc_createdAt := doc_createdAt stored\<rparr>"

definition update_supplier :: "proj_env \<Rightarrow> document \<Rightarrow> nat \<Rightarrow> intake_db \<Rightarrow> unit intake_tx" where
  "update_supplier E d n s =
    (let p = (\<lambda>r. (dr_kind r, dr_id r) = (''supplier'', doc_id d) \<and> dr_version r = n);
         f = (\<lambda>r. r\<lparr>dr_sourceSystem := doc_sourceSystem d, dr_externalId := doc_externalId d, dr_status := doc_status d,
           dr_version := n + 1, dr_document := d, dr_updatedAt := doc_updatedAt d\<rparr>)
     in if source_taken ''supplier'' d (it_proc s) then (Inl ItUnique, s)
        else if changes p (pd_documents (it_proc s)) \<noteq> 1 then (Inl ItConcurrent, s)
        else on_docs (\<lambda>db. enqueueDocumentProjection E ''supplier'' d (n + 1) (db\<lparr>pd_documents := upd_where p f (pd_documents db)\<rparr>)) s)"

definition sync_item :: "proj_env \<Rightarrow> document \<Rightarrow> intake_db \<Rightarrow> (nat \<times> nat \<times> nat \<times> json) intake_tx" where
  "sync_item E c s = (case findSupplier c (it_proc s) of
     None \<Rightarrow> bind_tx (insert_projected E ''supplier'' c s) (\<lambda>_ s. (Inr (1, 0, 0, supplierSyncItem (c, 1)), s))
   | Some (d, n) \<Rightarrow>
       let m = merged_supplier E c d
       in if sameSupplierContent d m then (Inr (0, 0, 1, supplierSyncItem (d, n)), s)
          else bind_tx (update_supplier E m n s) (\<lambda>_ s. (Inr (0, 1, 0, supplierSyncItem (m, n + 1)), s)))"

fun sync_items :: "proj_env \<Rightarrow> document list \<Rightarrow> intake_db \<Rightarrow> (nat \<times> nat \<times> nat \<times> json) list intake_tx" where
  "sync_items E [] s = (Inr [], s)"
| "sync_items E (c # cs) s = bind_tx (sync_item E c s) (\<lambda>x s. bind_tx (sync_items E cs s) (\<lambda>xs s. (Inr (x # xs), s)))"

definition getSupplierSyncResult :: "string \<Rightarrow> string \<Rightarrow> intake_db \<Rightarrow> (intake_fault, sync_result option) result" where
  "getSupplierSyncResult key h s =
    (if key = [] then Inl (ItInvalid ''idempotencyKey'') else if h = [] then Inl (ItInvalid ''payloadHash'')
     else case map_of (it_sync_keys s) key of None \<Rightarrow> Inr None
       | Some (h', res) \<Rightarrow> if h' \<noteq> h then Inl (ItKeyReused key) else Inr (Some res))"

definition sync_checks :: "proj_env \<Rightarrow> sync_input \<Rightarrow> (intake_fault, unit) result" where
  "sync_checks E r =
    (if sy_key r = [] then Inl (ItInvalid ''idempotencyKey'') else if sy_hash r = [] then Inl (ItInvalid ''payloadHash'')
     else case find (\<lambda>d. doc_tenantId d \<noteq> pe_tenant E \<or> doc_id d = [] \<or> trim (doc_sourceSystem d) = [] \<or> trim (doc_externalId d) = [])
         (sy_suppliers r) of
       None \<Rightarrow> Inr () | Some d \<Rightarrow> Inl (if doc_tenantId d \<noteq> pe_tenant E then ItTenant else ItInvalid ''supplier''))"

definition sync_result_of :: "sync_input \<Rightarrow> (nat \<times> nat \<times> nat \<times> json) list \<Rightarrow> sync_result" where
  "sync_result_of r xs = \<lparr>sr_created = sum_list (map fst xs), sr_updated = sum_list (map (\<lambda>x. fst (snd x)) xs),
     sr_unchanged = sum_list (map (\<lambda>x. fst (snd (snd x))) xs), sr_issues = sy_issues r, sr_items = map (\<lambda>x. snd (snd (snd x))) xs\<rparr>"

text \<open>Inside a transaction of the caller a failure is left to the caller to roll back.\<close>
definition syncSuppliersIdempotent :: "proj_env \<Rightarrow> bool \<Rightarrow> sync_input \<Rightarrow> intake_db \<Rightarrow> sync_result intake_tx" where
  "syncSuppliersIdempotent E owns r s =
    with_value (sync_checks E r) (\<lambda>_ s. (if owns then atomic s else id)
      (with_value (getSupplierSyncResult (sy_key r) (sy_hash r) s) (\<lambda>found s.
        (case found of Some res \<Rightarrow> (Inr res, s)
         | None \<Rightarrow> bind_tx (sync_items E (sy_suppliers r) s) (\<lambda>xs s.
             (Inr (sync_result_of r xs), s\<lparr>it_sync_keys := (sy_key r, sy_hash r, sync_result_of r xs) # it_sync_keys s\<rparr>)))) s)) s"

subsection \<open>Mails\<close>

text \<open>The address between the first angle brackets that hold anything, trimmed.\<close>
fun bracketed :: "string \<Rightarrow> string option" where
  "bracketed [] = None"
| "bracketed (c # cs) = (if c \<noteq> CHR ''<'' then bracketed cs
     else let w = takeWhile (\<lambda>x. x \<noteq> CHR ''<'' \<and> x \<noteq> CHR ''>'') cs
       in if w \<noteq> [] \<and> starts_with (drop (length w) cs) ''>'' then Some (trim w) else bracketed cs)"

definition address_part :: "string \<Rightarrow> bool" where
  "address_part s \<longleftrightarrow> s \<noteq> [] \<and> list_all (\<lambda>c. \<not> is_space c \<and> c \<notin> set ''@<>'') s"

definition email_shape :: "string \<Rightarrow> bool" where
  "email_shape s \<longleftrightarrow> (let local = takeWhile (\<lambda>c. c \<noteq> CHR ''@'') s; domain = drop (length local + 1) s
     in address_part local \<and> address_part domain \<and> length local < length s \<and>
        list_ex (\<lambda>i. domain ! i = CHR ''.'' \<and> 0 < i \<and> i < length domain - 1) [0..<length domain])"

definition inboundEmailAddress :: "string \<Rightarrow> string option" where
  "inboundEmailAddress v = (let c = trim (case bracketed v of None \<Rightarrow> v | Some w \<Rightarrow> w) in if email_shape c then Some (lowercase c) else None)"

definition supplier_emails :: "document \<Rightarrow> string list" where
  "supplier_emails d = map (\<lambda>c. lowercase (trim (field_text c ''email'')))
     (filter (\<lambda>c. field_text c ''email'' \<noteq> []) (json_objects (map_of (doc_fields d) ''contacts'')))"

record mail_keys =
  mk_provider :: string
  mk_mailbox :: string
  mk_uid :: string
  mk_messageId :: string

definition keys_of_mail :: "document \<Rightarrow> mail_keys" where
  "keys_of_mail c = \<lparr>mk_provider = trim (doc_text c ''provider''), mk_mailbox = trim (doc_text c ''mailbox''),
     mk_uid = trim (doc_text c ''uid''), mk_messageId = trim (doc_text c ''messageId'')\<rparr>"

definition any_provider :: "mail_keys \<Rightarrow> bool" where
  "any_provider k \<longleftrightarrow> mk_provider k \<noteq> [] \<or> mk_mailbox k \<noteq> [] \<or> mk_uid k \<noteq> []"

definition whole_provider :: "mail_keys \<Rightarrow> bool" where
  "whole_provider k \<longleftrightarrow> mk_provider k \<noteq> [] \<and> mk_mailbox k \<noteq> [] \<and> mk_uid k \<noteq> []"

definition mail_checks :: "proj_env \<Rightarrow> document \<Rightarrow> string \<Rightarrow> (intake_fault, unit) result" where
  "mail_checks E c h =
    (if doc_tenantId c \<noteq> pe_tenant E then Inl ItTenant
     else if trim h = [] then Inl (ItInvalid ''payloadHash'')
     else if doc_text c ''direction'' \<noteq> ''inbound'' \<or> doc_text c ''channel'' \<noteq> ''email'' then Inl (ItInvalid ''direction'')
     else if doc_text c ''businessObjectType'' \<notin> {''rfq'', ''purchase_order''} \<or> trim (doc_text c ''businessObjectId'') = []
     then Inl (ItInvalid ''businessObject'')
     else if trim (doc_text c ''supplierId'') = [] then Inl (ItInvalid ''supplierId'')
     else if any_provider (keys_of_mail c) \<and> \<not> whole_provider (keys_of_mail c) then Inl (ItInvalid ''provider'')
     else if \<not> whole_provider (keys_of_mail c) \<and> mk_messageId (keys_of_mail c) = [] then Inl (ItInvalid ''messageId'')
     else Inr ())"

definition same_provider :: "mail_keys \<Rightarrow> mail_identity \<Rightarrow> bool" where
  "same_provider k m \<longleftrightarrow> mi_provider m = mk_provider k \<and> mi_mailbox m = mk_mailbox k \<and> mi_uid m = mk_uid k"

text \<open>The identities of a mail that were recorded before, by provider and by message id.\<close>
definition known_identities :: "mail_keys \<Rightarrow> intake_db \<Rightarrow> mail_identity list" where
  "known_identities k s =
    (if whole_provider k then (case find (same_provider k) (it_identities s) of None \<Rightarrow> [] | Some m \<Rightarrow> [m]) else []) @
    (if mk_messageId k \<noteq> [] then (case find (\<lambda>m. mi_messageId m = mk_messageId k) (it_identities s) of None \<Rightarrow> [] | Some m \<Rightarrow> [m]) else [])"

text \<open>The gateway's identifier is added to a stored mail that has none.\<close>
definition add_gateway :: "proj_env \<Rightarrow> document \<Rightarrow> ident \<Rightarrow> document \<times> nat \<Rightarrow> intake_db \<Rightarrow> (document \<times> nat) intake_tx" where
  "add_gateway E c i st s =
    (let (d, n) = st
     in if doc_text c ''gatewayInboundId'' \<noteq> [] \<and> doc_text d ''gatewayInboundId'' = []
        then let d' = d\<lparr>doc_fields := AList.update ''gatewayInboundId'' (JStr (doc_text c ''gatewayInboundId'')) (doc_fields d)\<rparr>;
               p = (\<lambda>r. (dr_kind r, dr_id r) = (''communication'', i))
             in bind_tx (on_docs (\<lambda>db. enqueueDocumentProjection E ''communication'' d' (n + 1)
                  (db\<lparr>pd_documents := upd_where p (\<lambda>r. r\<lparr>dr_document := d', dr_version := n + 1\<rparr>) (pd_documents db)\<rparr>)) s)
                  (\<lambda>_ s. (Inr (d', n + 1), s))
        else (Inr (d, n), s))"

definition replay_mail :: "proj_env \<Rightarrow> document \<Rightarrow> string \<Rightarrow> mail_identity list \<Rightarrow> intake_db \<Rightarrow> ((document \<times> nat) \<times> bool) intake_tx" where
  "replay_mail E c h ms s =
    (if list_ex (\<lambda>m. mi_communicationId m \<noteq> mi_communicationId (hd ms)) ms \<or> list_ex (\<lambda>m. mi_hash m \<noteq> h) ms
     then (Inl (ItKeyReused ''mail''), s)
     else case getDocument ''communication'' (mi_communicationId (hd ms)) (it_proc s) of
       None \<Rightarrow> (Inl (ItMissing ''communication''), s)
     | Some st \<Rightarrow> bind_tx (add_gateway E c (mi_communicationId (hd ms)) st s) (\<lambda>st s. (Inr (st, True), s)))"

text \<open>The business object of the mail, and its sender among the contacts of the supplier.\<close>
definition mail_fits :: "document \<Rightarrow> proc_db \<Rightarrow> (intake_fault, unit) result" where
  "mail_fits c db = (let supplier = doc_text c ''supplierId'' in
    case getDocument ''supplier'' supplier db of
      None \<Rightarrow> Inl (ItMissing ''supplier'')
    | Some (known, _) \<Rightarrow>
        (case (if doc_text c ''businessObjectType'' = ''rfq''
           then (case getDocument ''rfq'' (doc_text c ''businessObjectId'') db of None \<Rightarrow> Inl (ItMissing ''rfq'')
             | Some (rfq, _) \<Rightarrow> if supplier \<in> set (json_strings (map_of (doc_fields rfq) ''supplierIds'')) then Inr ()
                 else Inl (ItMismatch ''supplier not invited''))
           else (case getDocument ''purchase_order'' (doc_text c ''businessObjectId'') db of None \<Rightarrow> Inl (ItMissing ''purchase_order'')
             | Some (po, _) \<Rightarrow> if doc_text po ''supplierId'' = supplier then Inr () else Inl (ItMismatch ''supplier of order''))) of
           Inl e \<Rightarrow> Inl e
         | Inr _ \<Rightarrow> (case inboundEmailAddress (doc_text c ''from'') of
             None \<Rightarrow> Inl (ItMismatch ''sender'')
           | Some a \<Rightarrow> if a \<in> set (supplier_emails known) then Inr () else Inl (ItMismatch ''sender''))))"

definition identity_of :: "document \<Rightarrow> string \<Rightarrow> mail_identity" where
  "identity_of c h = (let k = keys_of_mail c in \<lparr>mi_communicationId = doc_id c, mi_provider = mk_provider k, mi_mailbox = mk_mailbox k,
     mi_uid = mk_uid k, mi_messageId = mk_messageId k, mi_hash = h\<rparr>)"

text \<open>The primary key and the partial unique indexes of the identities.\<close>
definition identity_taken :: "mail_identity \<Rightarrow> intake_db \<Rightarrow> bool" where
  "identity_taken m s \<longleftrightarrow> list_ex (\<lambda>x. mi_communicationId x = mi_communicationId m \<or>
     (mi_uid m \<noteq> [] \<and> mi_provider x = mi_provider m \<and> mi_mailbox x = mi_mailbox m \<and> mi_uid x = mi_uid m) \<or>
     (mi_messageId m \<noteq> [] \<and> mi_messageId x = mi_messageId m)) (it_identities s)"

definition persistInboundCommunicationIdempotent :: "proj_env \<Rightarrow> document \<Rightarrow> string \<Rightarrow> intake_db \<Rightarrow> ((document \<times> nat) \<times> bool) intake_tx" where
  "persistInboundCommunicationIdempotent E c h s =
    with_value (mail_checks E c h) (\<lambda>_ s. atomic s
      (let ms = known_identities (keys_of_mail c) s
       in if ms \<noteq> [] then replay_mail E c h ms s
          else with_value (mail_fits c (it_proc s)) (\<lambda>_ s.
            bind_tx (insert_projected E ''communication'' c s) (\<lambda>_ s.
              if identity_taken (identity_of c h) s then (Inl ItUnique, s)
              else (Inr ((c, 1), False), s\<lparr>it_identities := it_identities s @ [identity_of c h]\<rparr>))) s)) s"

end
