(* ===== verification/SourcingBooks.thy ===== *)
theory SourcingBooks
  imports Sourcing ExecutionInvariants "HOL-Library.Multiset"
begin

text \<open>
  What the transactions of \<open>Sourcing\<close> guarantee together: a request that awaits its award has a
  comparison of exactly its quotes, an award covers the request line by line, gives every line to one
  order, ends the request and is answered again for its key.
\<close>

subsection \<open>Histories\<close>

datatype so_op = OpRequisition create_input | OpRfq create_input | OpQuote create_input
  | OpCompare comparison_input | OpAward "nat \<Rightarrow> string" award_input

definition so_exec :: "so_env \<Rightarrow> so_op \<Rightarrow> so_db \<Rightarrow> so_db" where
  "so_exec E x s = (case x of OpRequisition r \<Rightarrow> snd (createRequisitionIdempotent E r s)
     | OpRfq r \<Rightarrow> snd (createRfqIdempotent E r s) | OpQuote r \<Rightarrow> snd (createQuoteIdempotent E r s)
     | OpCompare r \<Rightarrow> snd (persistQuoteComparison E r s)
     | OpAward us r \<Rightarrow> snd (awardRfqAndCreateDraftPurchaseOrders E us r s))"

definition so_run :: "so_env \<Rightarrow> so_op list \<Rightarrow> so_db \<Rightarrow> so_db" where
  "so_run E = fold (so_exec E)"

definition so_empty :: so_db where
  "so_empty = \<lparr>so_proc = empty_db, so_requisition_keys = [], so_create_keys = [], so_comparison_keys = [], so_award_keys = [],
     so_audit = []\<rparr>"

lemma so_run_keeps:
  assumes "P s" "\<And>x s. P s \<Longrightarrow> P (so_exec E x s)"
  shows "P (so_run E ops s)"
  using assms(1) by (induction ops arbitrary: s) (simp_all add: so_run_def assms(2))

subsection \<open>Rows\<close>

abbreviation row_at :: "string \<Rightarrow> ident \<Rightarrow> so_db \<Rightarrow> doc_row option" where
  "row_at k i s \<equiv> find_doc k i (so_proc s)"

definition docs_ok :: "so_db \<Rightarrow> bool" where
  "docs_ok s \<longleftrightarrow> distinct (map (\<lambda>r. (dr_kind r, dr_id r)) (pd_documents (so_proc s))) \<and>
     (\<forall>r\<in>set (pd_documents (so_proc s)). dr_id r = doc_id (dr_document r))"

text \<open>New rows have the property, the others are as they were.\<close>
definition adds :: "(doc_row \<Rightarrow> bool) \<Rightarrow> so_db \<Rightarrow> so_db \<Rightarrow> bool" where
  "adds P s s' \<longleftrightarrow> (docs_ok s \<longrightarrow> docs_ok s') \<and>
     (\<forall>k i. row_at k i s' = row_at k i s \<or> (row_at k i s = None \<and> (\<exists>r. row_at k i s' = Some r \<and> P r)))"

text \<open>The request is written over, the other rows are as they were.\<close>
definition rfq_put :: "document \<Rightarrow> nat \<Rightarrow> so_db \<Rightarrow> so_db \<Rightarrow> bool" where
  "rfq_put d n s s' \<longleftrightarrow> docs_ok s' \<and> (\<exists>r. row_at ''rfq'' (doc_id d) s = Some r \<and> dr_version r = n \<and>
     (\<exists>r'. row_at ''rfq'' (doc_id d) s' = Some r' \<and> dr_document r' = d \<and> dr_version r' = n + 1)) \<and>
     (\<forall>k i. (k, i) \<noteq> (''rfq'', doc_id d) \<longrightarrow> row_at k i s' = row_at k i s)"

lemma adds_refl: "adds P s s"
  by (simp add: adds_def)

lemma adds_trans: "adds P s s1 \<Longrightarrow> adds P s1 s2 \<Longrightarrow> adds P s s2"
  unfolding adds_def by (metis option.distinct(1))

lemma adds_mono: "adds P s s' \<Longrightarrow> (\<And>r. P r \<Longrightarrow> Q r) \<Longrightarrow> adds Q s s'"
  unfolding adds_def by metis

lemma adds_same: "pd_documents (so_proc s') = pd_documents (so_proc s) \<Longrightarrow> adds P s s'"
  by (simp add: adds_def docs_ok_def find_doc_def)

lemma adds_docs_ok: "adds P s s' \<Longrightarrow> docs_ok s \<Longrightarrow> docs_ok s'"
  by (simp add: adds_def)

lemma find_doc_key: "find_doc k i db = Some r \<Longrightarrow> r \<in> set (pd_documents db) \<and> dr_kind r = k \<and> dr_id r = i"
  by (auto simp: find_doc_def find_Some_iff)

lemma insert_row_adds:
  assumes "insert_row kind d s = (Inr u, s')"
  shows "adds (\<lambda>r. r = doc_row_of kind d 1 (doc_createdAt d)) s s'"
proof -
  let ?r = "doc_row_of kind d 1 (doc_createdAt d)"
  have new: "row_at kind (doc_id d) s = None" and s': "so_proc s' = (so_proc s)\<lparr>pd_documents := pd_documents (so_proc s) @ [?r]\<rparr>"
    using assms by (auto simp: insert_row_def split: if_splits)
  have fresh: "(kind, doc_id d) \<notin> (\<lambda>r. (dr_kind r, dr_id r)) ` set (pd_documents (so_proc s))"
    using new by (auto simp: find_doc_def find_None_iff)
  show ?thesis
    using fresh by (auto simp: adds_def docs_ok_def s' find_doc_append doc_row_of_def split: option.split)
qed

lemma insert_row_line_adds: "insert_row_line k doc l s = (Inr u, s') \<Longrightarrow> adds P s s'"
  by (auto simp: insert_row_line_def split: if_splits intro: adds_same)

lemma each_adds:
  assumes "each_tx f xs s = (Inr u, s')" "\<And>x s s'. x \<in> set xs \<Longrightarrow> f x s = (Inr (), s') \<Longrightarrow> adds P s s'"
  shows "adds P s s'"
  using each_tx_keeps[of "adds P s" s f xs u s'] assms adds_refl adds_trans by metis

lemma insert_with_lines_adds:
  assumes "insert_with_lines k r s = (Inr u, s')"
  shows "adds (\<lambda>x. x = doc_row_of (LINE_DOCUMENT_KIND k) (ci_document r) 1 (doc_createdAt (ci_document r))) s s'"
proof -
  from assms obtain u1 s1 where "insert_row (LINE_DOCUMENT_KIND k) (ci_document r) s = (Inr u1, s1)"
    and "each_tx (insert_row_line k (doc_id (ci_document r))) (ci_lines r) s1 = (Inr u, s')"
    by (auto simp: insert_with_lines_def tx_ok)
  then show ?thesis by (blast intro: adds_trans[OF insert_row_adds each_adds] insert_row_line_adds)
qed

lemma on_store_ok: "on_store f s = (Inr a, s') \<longleftrightarrow> (\<exists>d. f (so_proc s) = (Inr a, d) \<and> s' = s\<lparr>so_proc := d\<rparr>)"
  by (auto simp: on_store_def split: prod.splits sum.splits)

lemma tables_kept_adds: "tables_kept (so_proc s) d \<Longrightarrow> adds P s (s\<lparr>so_proc := d\<rparr>)"
  by (simp add: adds_same tables_kept_def)

lemma write_order_line_adds: "write_order_line E po l s = (Inr u, s') \<Longrightarrow> adds P s s'"
  by (auto simp: write_order_line_def tx_ok on_store_ok dest!: enqueueLineProjection_ok(1)
    intro: adds_trans[OF insert_row_line_adds tables_kept_adds])

lemma write_order_adds:
  assumes "write_order E po s = (Inr u, s')"
  shows "adds (\<lambda>r. dr_kind r = ''purchase_order'') s s'"
proof -
  from assms obtain u1 s1 u2 d where 1: "insert_row ''purchase_order'' (fst po) s = (Inr u1, s1)"
    and 2: "enqueueDocumentProjection (se_proj E) ''purchase_order'' (fst po) 1 (so_proc s1) = (Inr u2, d)"
    and 3: "each_tx (write_order_line E (fst po)) (snd po) (s1\<lparr>so_proc := d\<rparr>) = (Inr u, s')"
    by (auto simp: write_order_def tx_ok on_store_ok)
  have "adds (\<lambda>r. dr_kind r = ''purchase_order'') s s1"
    by (rule adds_mono[OF insert_row_adds[OF 1]]) (simp add: doc_row_of_def)
  moreover have "adds (\<lambda>r. dr_kind r = ''purchase_order'') s1 (s1\<lparr>so_proc := d\<rparr>)"
    by (rule tables_kept_adds[OF enqueueDocumentProjection_ok(1)[OF 2]])
  moreover have "adds (\<lambda>r. dr_kind r = ''purchase_order'') (s1\<lparr>so_proc := d\<rparr>) s'"
    by (rule each_adds[OF 3]) (rule write_order_line_adds)
  ultimately show ?thesis by (blast intro: adds_trans)
qed

text \<open>An update of the request under its version.\<close>
lemma put_rfq:
  assumes ok: "docs_ok s" and some: "changes p (pd_documents (so_proc s)) = 1"
    and p: "p = (\<lambda>r. (dr_kind r, dr_id r) = (''rfq'', doc_id d) \<and> dr_version r = n)"
    and s': "pd_documents (so_proc s') = upd_where p (\<lambda>r. r\<lparr>dr_status := st, dr_version := n + 1, dr_document := d,
        dr_updatedAt := t\<rparr>) (pd_documents (so_proc s))"
  shows "rfq_put d n s s'"
proof -
  let ?f = "\<lambda>r. r\<lparr>dr_status := st, dr_version := n + 1, dr_document := d, dr_updatedAt := t\<rparr>"
  let ?key = "\<lambda>r. (dr_kind r, dr_id r)"
  from some have "filter p (pd_documents (so_proc s)) \<noteq> []" by (auto simp: changes_def)
  then obtain r where r: "r \<in> set (pd_documents (so_proc s))" "p r" by (auto simp: filter_empty_conv)
  have dist: "distinct (map ?key (pd_documents (so_proc s)))" using ok by (simp add: docs_ok_def)
  have at: "row_at ''rfq'' (doc_id d) s = Some r"
    using find_distinct_key[OF dist r(1)] r(2) p by (simp add: find_doc_def)
  have upd: "row_at k i s' = map_option (\<lambda>r. if p r then ?f r else r) (row_at k i s)" for k i
    unfolding find_doc_def s' by (rule find_upd_where) simp
  have "map ?key (upd_where p ?f (pd_documents (so_proc s))) = map ?key (pd_documents (so_proc s))"
    by (rule map_upd_where) simp
  then have "docs_ok s'" using ok by (auto simp: docs_ok_def s' set_upd_where p)
  moreover have "row_at k i s' = row_at k i s" if "(k, i) \<noteq> (''rfq'', doc_id d)" for k i
    using that upd[of k i] by (cases "row_at k i s") (auto simp: p dest: find_doc_key)
  ultimately show ?thesis using at upd[of "''rfq''" "doc_id d"] r(2) by (simp add: rfq_put_def p)
qed

lemma write_rfq_put: "docs_ok s \<Longrightarrow> write_rfq d n e s = (Inr u, s') \<Longrightarrow> rfq_put d n s s'"
  by (rule put_rfq) (auto simp: write_rfq_def Let_def split: if_splits)

lemma update_rfq_put:
  assumes "docs_ok s" "updateExecutionDocument E ''rfq'' d n (so_proc s) = (Inr v, db)"
  shows "rfq_put d n s (s\<lparr>so_proc := db\<rparr>)"
proof -
  let ?p = "\<lambda>r. (dr_kind r, dr_id r) = (''rfq'', doc_id d) \<and> dr_version r = n"
  from assms(2) obtain db1 u where "changes ?p (pd_documents (so_proc s)) = 1"
    and "db1 = (so_proc s)\<lparr>pd_documents := upd_where ?p (\<lambda>r. r\<lparr>dr_status := doc_status d, dr_version := n + 1,
          dr_document := d, dr_updatedAt := doc_updatedAt d\<rparr>) (pd_documents (so_proc s))\<rparr>"
    and "tables_kept db1 db"
    by (auto simp: updateExecutionDocument_def Let_def tx_ok split: if_splits dest: enqueueDocumentProjection_ok(1))
  then show ?thesis using put_rfq[OF assms(1), of ?p d n "s\<lparr>so_proc := db\<rparr>" "doc_updatedAt d" "doc_status d"]
    by (simp add: tables_kept_def)
qed

subsection \<open>What each transaction does to the rows\<close>

text \<open>A refused transaction leaves the state.\<close>
lemma tx_refused: "with_value r (\<lambda>a s. atomic s (g a s)) s = (Inl e, s') \<Longrightarrow> s' = s"
  by (cases r) (auto dest: atomic_error)

lemma refused:
  "createRequisitionIdempotent E r s = (Inl e, s') \<Longrightarrow> s' = s"
  "createDocumentWithLinesIdempotent E k r s = (Inl e, s') \<Longrightarrow> s' = s"
  "persistQuoteComparison E q s = (Inl e, s') \<Longrightarrow> s' = s"
  "awardRfqAndCreateDraftPurchaseOrders E us w s = (Inl e, s') \<Longrightarrow> s' = s"
  unfolding createRequisitionIdempotent_def createDocumentWithLinesIdempotent_def persistQuoteComparison_def
    awardRfqAndCreateDraftPurchaseOrders_def Let_def by (erule tx_refused)+

lemma snd_tx: "(\<And>e s'. r = (Inl e, s') \<Longrightarrow> P s') \<Longrightarrow> (\<And>a s'. r = (Inr a, s') \<Longrightarrow> P s') \<Longrightarrow> P (snd r)"
  by (cases r; cases "fst r") auto

lemma replay_create_state: "replay_create k r e s = (Inr a, s') \<Longrightarrow> s' = s"
  by (auto simp: replay_create_def split: if_splits option.splits)

lemma audit_attachment_adds: "audit_attachment rfq a s = (Inr u, s') \<Longrightarrow> adds P s s'"
  by (auto simp: audit_attachment_def Let_def split: if_splits intro: adds_same)

lemma audit_selected_adds: "audit_selected k rfq s = (Inr u, s') \<Longrightarrow> adds P s s'"
  by (auto simp: audit_selected_def Let_def split: if_splits intro: adds_refl each_adds audit_attachment_adds)

lemma requisition_steps:
  assumes "createRequisitionIdempotent E r s = (Inr a, s')"
  shows "adds (\<lambda>r. dr_kind r = ''requisition'') s s'"
proof (cases "map_of (so_requisition_keys s) (ci_key r)")
  case None
  with assms obtain u s1 where i: "insert_with_lines RequisitionLine r s = (Inr u, s1)" and s': "so_proc s' = so_proc s1"
    by (auto simp: createRequisitionIdempotent_def tx_ok with_value_ok)
  have "adds (\<lambda>r. dr_kind r = ''requisition'') s s1"
    by (rule adds_mono[OF insert_with_lines_adds[OF i]]) (simp add: doc_row_of_def LINE_DOCUMENT_KIND_def)
  then show ?thesis by (rule adds_trans) (simp add: adds_same s')
next
  case (Some e)
  with assms show ?thesis
    by (auto simp: createRequisitionIdempotent_def tx_ok with_value_ok adds_refl dest: replay_create_state)
qed

text \<open>A new document: its row is added and, for a quote, its request may be written over.\<close>
lemma create_steps:
  assumes "createDocumentWithLinesIdempotent E k r s = (Inr a, s')"
  obtains (replay) "s' = s"
  | (new) s1 u2 where "adds (\<lambda>x. x = doc_row_of (LINE_DOCUMENT_KIND k) (ci_document r) 1 (doc_createdAt (ci_document r))) s s1"
    "row_at (LINE_DOCUMENT_KIND k) (doc_id (ci_document r)) s = None"
    "row_at (LINE_DOCUMENT_KIND k) (doc_id (ci_document r)) s1 = Some (doc_row_of (LINE_DOCUMENT_KIND k) (ci_document r) 1 (doc_createdAt (ci_document r)))"
    "quote_open k (ci_document r) s = Inr ()" "receive_quote E k (ci_document r) s1 = (Inr u2, s')"
proof (cases "map_of (so_create_keys s) (LINE_DOCUMENT_KIND k, ci_key r)")
  case None
  let ?r = "doc_row_of (LINE_DOCUMENT_KIND k) (ci_document r) 1 (doc_createdAt (ci_document r))"
  from assms None obtain u1 s1 u2 s2 u3 where q: "quote_open k (ci_document r) s = Inr ()"
    and i: "insert_with_lines k r s = (Inr u1, s1)" and au: "audit_selected k (ci_document r) s1 = (Inr u2, s2)"
    and rec: "receive_quote E k (ci_document r)
      (s2\<lparr>so_create_keys := ((LINE_DOCUMENT_KIND k, ci_key r), ci_hash r, doc_id (ci_document r)) # so_create_keys s2\<rparr>) = (Inr u3, s')"
    by (auto simp: createDocumentWithLinesIdempotent_def tx_ok with_value_ok)
  let ?s = "s2\<lparr>so_create_keys := ((LINE_DOCUMENT_KIND k, ci_key r), ci_hash r, doc_id (ci_document r)) # so_create_keys s2\<rparr>"
  have "adds (\<lambda>x. x = ?r) s ?s"
    by (rule adds_trans[OF insert_with_lines_adds[OF i] adds_trans[OF audit_selected_adds[OF au] adds_same]]) simp
  moreover have none: "row_at (LINE_DOCUMENT_KIND k) (doc_id (ci_document r)) s = None"
    using i by (auto simp: insert_with_lines_def tx_ok insert_row_def split: if_splits)
  moreover have "row_at (LINE_DOCUMENT_KIND k) (doc_id (ci_document r)) ?s = Some ?r"
  proof -
    from i obtain u s0 where s0: "insert_row (LINE_DOCUMENT_KIND k) (ci_document r) s = (Inr u, s0)"
      and l: "each_tx (insert_row_line k (doc_id (ci_document r))) (ci_lines r) s0 = (Inr u1, s1)"
      by (auto simp: insert_with_lines_def tx_ok)
    have "row_at (LINE_DOCUMENT_KIND k) (doc_id (ci_document r)) s0 = Some ?r"
      using s0 none by (auto simp: insert_row_def find_doc_append doc_row_of_def split: if_splits)
    moreover have "adds (\<lambda>_. False) s0 ?s"
      by (rule adds_trans[OF each_adds[OF l insert_row_line_adds] adds_trans[OF audit_selected_adds[OF au] adds_same]]) simp_all
    ultimately show ?thesis by (metis adds_def option.distinct(1))
  qed
  ultimately show ?thesis using new q rec by blast
next
  case (Some e)
  then show ?thesis using assms replay by (auto simp: createDocumentWithLinesIdempotent_def tx_ok with_value_ok dest: replay_create_state)
qed

lemma compare_steps:
  assumes "persistQuoteComparison E r s = (Inr a, s')" "docs_ok s" and d: "d = clone_document (qi_snapshot r)"
  obtains (replay) "s' = s"
  | (new) rfq n s1 where "getDocument ''rfq'' (doc_text d ''rfqId'') (so_proc s) = Some (rfq, n)" "doc_status rfq \<in> set comparable"
    "trim (doc_id d) \<noteq> []" "comparison_fits (qi_versions r) d (so_proc s) = Inr ()" "row_at ''quote_comparison'' (doc_id d) s = None"
    "adds (\<lambda>x. x = doc_row_of ''quote_comparison'' d 1 (doc_createdAt d)) s s1"
    "row_at ''quote_comparison'' (doc_id d) s1 = Some (doc_row_of ''quote_comparison'' d 1 (doc_createdAt d))"
    "rfq_put (compared_rfq d rfq) n s1 s'"
proof (cases "map_of (so_comparison_keys s) (qi_key r)")
  case None
  let ?r = "doc_row_of ''quote_comparison'' d 1 (doc_createdAt d)"
  from assms(1) None have checks: "comparison_checks E r d = Inr ()" and body: "compare_body r d s = (Inr a, s')"
    by (auto simp: persistQuoteComparison_def Let_def tx_ok with_value_ok d)
  from body obtain rfq n u1 s1 u2 s2 where got: "getDocument ''rfq'' (doc_text d ''rfqId'') (so_proc s) = Some (rfq, n)"
    and st: "doc_status rfq \<in> set comparable" and fits: "comparison_fits (qi_versions r) d (so_proc s) = Inr ()"
    and i: "insert_row ''quote_comparison'' d s = (Inr u1, s1)"
    and w: "write_rfq (compared_rfq d rfq) n (qi_expected r) s1 = (Inr u2, s2)" and s': "so_proc s' = so_proc s2"
    by (auto simp: compare_body_def tx_ok with_value_ok Let_def split: option.splits if_splits)
  have id: "trim (doc_id d) \<noteq> []"
    using checks by (auto simp: comparison_checks_def validateQuoteComparisonSnapshot_def Let_def source_texts_def source_text_def
      split: sum.splits if_splits)
  have none: "row_at ''quote_comparison'' (doc_id d) s = None" using i by (auto simp: insert_row_def split: if_splits)
  have at: "row_at ''quote_comparison'' (doc_id d) s1 = Some ?r"
    using i none by (auto simp: insert_row_def find_doc_append doc_row_of_def split: if_splits)
  have "rfq_put (compared_rfq d rfq) n s1 s2" by (rule write_rfq_put[OF adds_docs_ok[OF insert_row_adds[OF i] assms(2)] w])
  then have "rfq_put (compared_rfq d rfq) n s1 s'" by (simp add: rfq_put_def docs_ok_def s')
  then show ?thesis using new[OF got st id fits none insert_row_adds[OF i] at] by blast
next
  case (Some e)
  then show ?thesis using assms(1) replay by (cases e) (auto simp: persistQuoteComparison_def Let_def tx_ok with_value_ok split: if_splits)
qed

lemma award_steps:
  assumes "awardRfqAndCreateDraftPurchaseOrders E us r s = (Inr a, s')" "docs_ok s"
  obtains (replay) "s' = s" "wr_replayed a"
  | (new) rfq n s1 where "getDocument ''rfq'' (wi_rfqId r) (so_proc s) = Some (rfq, n)" "\<not> wr_replayed a"
    "wr_rfq a = (awarded_rfq (doc_updatedAt (fst (wr_rfq a))) rfq, n + 1)"
    "adds (\<lambda>x. dr_kind x \<in> {''award'', ''purchase_order''}) s s1" "rfq_put (fst (wr_rfq a)) n s1 s'"
proof (cases "map_of (so_award_keys s) (wi_key r)")
  case None
  from assms(1) None obtain t where body: "award_body E us r t s = (Inr a, s')"
    by (auto simp: awardRfqAndCreateDraftPurchaseOrders_def tx_ok with_value_ok)
  from body obtain rfq n its where got: "getDocument ''rfq'' (wi_rfqId r) (so_proc s) = Some (rfq, n)"
    and w: "write_award E us r t rfq n its s = (Inr a, s')"
    by (auto simp: award_body_def tx_ok with_value_ok Let_def split: option.splits if_splits)
  from w obtain aw u1 s1 als u2 s2 os u3 s3 u4 s4 where 1: "insert_row ''award'' aw s = (Inr u1, s1)"
    and 2: "each_tx (insert_row_line AwardLine (doc_id aw)) als s1 = (Inr u2, s2)"
    and 3: "each_tx (write_order E) os s2 = (Inr u3, s3)"
    and 4: "write_rfq (awarded_rfq t rfq) n (wi_expected r) s3 = (Inr u4, s4)"
    and s': "so_proc s' = so_proc s4" and a: "wr_rfq a = (awarded_rfq t rfq, n + 1)" "\<not> wr_replayed a"
    by (auto simp: write_award_def tx_ok Let_def)
  have "adds (\<lambda>x. dr_kind x \<in> {''award'', ''purchase_order''}) s s1"
    by (rule adds_mono[OF insert_row_adds[OF 1]]) (simp add: doc_row_of_def)
  moreover have "adds (\<lambda>x. dr_kind x \<in> {''award'', ''purchase_order''}) s1 s2" by (rule each_adds[OF 2 insert_row_line_adds])
  moreover have "adds (\<lambda>x. dr_kind x \<in> {''award'', ''purchase_order''}) s2 s3"
    by (rule each_adds[OF 3]) (auto intro: adds_mono[OF write_order_adds])
  ultimately have ad: "adds (\<lambda>x. dr_kind x \<in> {''award'', ''purchase_order''}) s s3" by (blast intro: adds_trans)
  have "rfq_put (awarded_rfq t rfq) n s3 s4" by (rule write_rfq_put[OF adds_docs_ok[OF ad assms(2)] 4])
  then have "rfq_put (awarded_rfq t rfq) n s3 s'" by (simp add: rfq_put_def docs_ok_def s')
  then show ?thesis using new[OF got a(2) _ ad] a(1) by (simp add: awarded_rfq_def)
next
  case (Some e)
  then show ?thesis using assms(1) replay
    by (cases e) (auto simp: awardRfqAndCreateDraftPurchaseOrders_def tx_ok with_value_ok split: if_splits)
qed

subsection \<open>A request that awaits its award\<close>

definition stored_versions :: "ident \<Rightarrow> proc_db \<Rightarrow> (ident \<times> int option) set" where
  "stored_versions rfq db = (\<lambda>q. (doc_id (fst q), Some (int (snd q)))) ` set (quotes_of rfq db)"

definition compared_versions :: "document \<Rightarrow> (ident \<times> int option) set" where
  "compared_versions d = (\<lambda>q. (field_text q ''quoteId'', positive_int (map_of q ''quoteVersion''))) `
     (\<Union>c\<in>set (comparison_lines d). set (quote_results c))"

text \<open>The comparison of a request: stored, of this request, and of all its quotes as they are.\<close>
definition compared :: "ident \<Rightarrow> document \<Rightarrow> so_db \<Rightarrow> bool" where
  "compared i rfq s \<longleftrightarrow> (\<exists>c r. map_of (doc_fields rfq) ''comparisonSnapshotId'' = Some (JStr c) \<and> c \<noteq> [] \<and>
     row_at ''quote_comparison'' c s = Some r \<and> doc_text (dr_document r) ''rfqId'' = i \<and>
     compared_versions (dr_document r) = stored_versions i (so_proc s))"

definition pending_ok :: "so_db \<Rightarrow> bool" where
  "pending_ok s \<longleftrightarrow> docs_ok s \<and>
     (\<forall>i r. row_at ''rfq'' i s = Some r \<longrightarrow> doc_status (dr_document r) = ''pending_award'' \<longrightarrow> compared i (dr_document r) s)"

lemma row_mem: "docs_ok s \<Longrightarrow> r \<in> set (pd_documents (so_proc s)) \<longleftrightarrow> row_at (dr_kind r) (dr_id r) s = Some r"
  using find_distinct_key[of "\<lambda>r. (dr_kind r, dr_id r)"] by (auto simp: docs_ok_def find_doc_def dest: find_Some_mem)

lemma row_id: "docs_ok s \<Longrightarrow> row_at k i s = Some r \<Longrightarrow> doc_id (dr_document r) = i"
  by (auto simp: docs_ok_def dest: find_doc_key)

lemma stored_versions_rows:
  assumes "docs_ok s"
  shows "stored_versions i (so_proc s) = {(j, Some (int (dr_version r))) | j r. row_at ''quote'' j s = Some r \<and>
    map_of (doc_fields (dr_document r)) ''rfqId'' = Some (JStr i)}"
proof -
  let ?g = "\<lambda>r. (doc_id (dr_document r), Some (int (dr_version r)))"
  have "stored_versions i (so_proc s) = ?g ` {r \<in> set (pd_documents (so_proc s)). dr_kind r = ''quote'' \<and>
      map_of (doc_fields (dr_document r)) ''rfqId'' = Some (JStr i)}"
    by (force simp: stored_versions_def quotes_of_def listDocuments_def)
  also have "\<dots> = ?g ` {r. \<exists>j. row_at ''quote'' j s = Some r \<and> map_of (doc_fields (dr_document r)) ''rfqId'' = Some (JStr i)}"
    using row_mem[OF assms] by (intro arg_cong[where f = "image ?g"]) (auto dest: find_doc_key)
  finally have "stored_versions i (so_proc s) = ?g ` {r. \<exists>j. row_at ''quote'' j s = Some r \<and> map_of (doc_fields (dr_document r)) ''rfqId'' = Some (JStr i)}" .
  moreover have "row_at ''quote'' j s = Some r \<Longrightarrow> ?g r = (j, Some (int (dr_version r)))" for j r
    by (simp add: row_id[OF assms])
  ultimately show ?thesis by blast
qed

text \<open>Rows that are neither quotes nor requests awaiting an award change nothing.\<close>
lemma stored_versions_cong:
  assumes "docs_ok s" "docs_ok s'"
    "\<And>j r. map_of (doc_fields (dr_document r)) ''rfqId'' = Some (JStr i) \<Longrightarrow> row_at ''quote'' j s' = Some r \<longleftrightarrow> row_at ''quote'' j s = Some r"
  shows "stored_versions i (so_proc s') = stored_versions i (so_proc s)"
  unfolding stored_versions_rows[OF assms(1)] stored_versions_rows[OF assms(2)] using assms(3) by blast

lemma compared_kept:
  assumes "compared i rfq s" "stored_versions i (so_proc s') = stored_versions i (so_proc s)"
    "\<And>c r. row_at ''quote_comparison'' c s = Some r \<Longrightarrow> row_at ''quote_comparison'' c s' = Some r"
  shows "compared i rfq s'"
  using assms unfolding compared_def by metis

lemma adds_kept: "adds P s s' \<Longrightarrow> row_at k i s = Some r \<Longrightarrow> row_at k i s' = Some r"
  unfolding adds_def by (metis option.distinct(1))

lemma adds_new: "adds P s s' \<Longrightarrow> row_at k i s' = Some r \<Longrightarrow> row_at k i s = Some r \<or> P r"
  unfolding adds_def by (metis option.inject)

lemma pending_adds:
  assumes "pending_ok s" "adds P s s'"
    "\<And>r. P r \<Longrightarrow> dr_kind r \<noteq> ''quote'' \<and> (dr_kind r = ''rfq'' \<longrightarrow> doc_status (dr_document r) \<noteq> ''pending_award'')"
  shows "pending_ok s'"
proof -
  have ok: "docs_ok s" "docs_ok s'" using assms(1) adds_docs_ok[OF assms(2)] by (auto simp: pending_ok_def)
  have quotes: "row_at ''quote'' j s' = Some r \<longleftrightarrow> row_at ''quote'' j s = Some r" for j r
    using adds_new[OF assms(2), of "''quote''" j r] adds_kept[OF assms(2), of "''quote''" j r] assms(3)[of r]
      find_doc_key[of "''quote''" j "so_proc s'" r] by blast
  show ?thesis
    unfolding pending_ok_def
  proof (intro conjI allI impI ok)
    fix i r assume r: "row_at ''rfq'' i s' = Some r" "doc_status (dr_document r) = ''pending_award''"
    then have "row_at ''rfq'' i s = Some r"
      using adds_new[OF assms(2) r(1)] assms(3)[of r] find_doc_key[OF r(1)] by blast
    with r(2) assms(1) have "compared i (dr_document r) s" by (simp add: pending_ok_def)
    then show "compared i (dr_document r) s'"
      using stored_versions_cong[OF ok] quotes adds_kept[OF assms(2)] by (blast intro: compared_kept)
  qed
qed

lemma put_other: "rfq_put d n s s' \<Longrightarrow> (k, i) \<noteq> (''rfq'', doc_id d) \<Longrightarrow> row_at k i s' = row_at k i s"
  by (auto simp: rfq_put_def)

text \<open>A request written over with another status, or with its comparison.\<close>
lemma pending_put:
  assumes ok: "docs_ok s" and put: "rfq_put d n s s'"
    and others: "\<And>i r. i \<noteq> doc_id d \<Longrightarrow> row_at ''rfq'' i s = Some r \<Longrightarrow> doc_status (dr_document r) = ''pending_award'' \<Longrightarrow>
      compared i (dr_document r) s"
    and own: "doc_status d = ''pending_award'' \<Longrightarrow> compared (doc_id d) d s"
  shows "pending_ok s'"
proof -
  have ok': "docs_ok s'" using put by (simp add: rfq_put_def)
  have stored: "stored_versions i (so_proc s') = stored_versions i (so_proc s)" for i
    using put_other[OF put] by (intro stored_versions_cong[OF ok ok']) simp
  have kept: "compared i f s \<Longrightarrow> compared i f s'" for i f
    by (erule compared_kept[OF _ stored]) (simp add: put_other[OF put])
  show ?thesis
    unfolding pending_ok_def
  proof (intro conjI allI impI ok')
    fix i r assume r: "row_at ''rfq'' i s' = Some r" "doc_status (dr_document r) = ''pending_award''"
    show "compared i (dr_document r) s'"
    proof (cases "i = doc_id d")
      case True
      then have "dr_document r = d" using put r(1) by (auto simp: rfq_put_def)
      then show ?thesis using own kept r(2) True by simp
    next
      case False
      then show ?thesis using put_other[OF put, of "''rfq''" i] r others kept by simp
    qed
  qed
qed

lemma getDocument_row: "getDocument k i (so_proc s) = Some (d, n) \<longleftrightarrow> (\<exists>r. row_at k i s = Some r \<and> dr_document r = d \<and> dr_version r = n)"
  by (auto simp: getDocument_def)

lemma quoted_not_pending: "quoted_status rfq db \<noteq> ''pending_award''"
  by (simp add: quoted_status_def)

lemma doc_text_field: "map_of (doc_fields d) k = Some (JStr v) \<Longrightarrow> doc_text d k = v"
  by (simp add: doc_text_def string_of_def)

lemma pending_quote:
  assumes ok: "pending_ok s" and ad: "adds (\<lambda>x. x = doc_row_of ''quote'' q 1 t) s s1"
    and new: "row_at ''quote'' (doc_id q) s = None" "row_at ''quote'' (doc_id q) s1 = Some (doc_row_of ''quote'' q 1 t)"
    and rec: "receive_quote E QuoteLine q s1 = (Inr u, s')"
  shows "pending_ok s'"
proof -
  have ok0: "docs_ok s" and ok1: "docs_ok s1" using ok adds_docs_ok[OF ad] by (auto simp: pending_ok_def)
  let ?i = "doc_text q ''rfqId''"
  have same: "row_at k i s1 = Some r \<longleftrightarrow> row_at k i s = Some r" if "k \<noteq> ''quote'' \<or> r \<noteq> doc_row_of ''quote'' q 1 t" for k i r
    using that adds_new[OF ad, of k i r] adds_kept[OF ad, of k i r] find_doc_key[of k i "so_proc s1" r]
    by (auto simp: doc_row_of_def)
  have stored: "stored_versions i (so_proc s1) = stored_versions i (so_proc s)" if "i \<noteq> ?i" for i
  proof (rule stored_versions_cong[OF ok0 ok1])
    fix j and r :: doc_row assume "map_of (doc_fields (dr_document r)) ''rfqId'' = Some (JStr i)"
    then have "r \<noteq> doc_row_of ''quote'' q 1 t" using that by (auto simp: doc_row_of_def dest: doc_text_field)
    then show "row_at ''quote'' j s1 = Some r \<longleftrightarrow> row_at ''quote'' j s = Some r" by (simp add: same)
  qed
  have others: "compared i (dr_document r) s1" if "i \<noteq> ?i" "row_at ''rfq'' i s1 = Some r" "doc_status (dr_document r) = ''pending_award''" for i r
    using that ok same[of "''rfq''"] adds_kept[OF ad] by (intro compared_kept[OF _ stored]) (auto simp: pending_ok_def)
  from rec obtain rfq n where got: "getDocument ''rfq'' ?i (so_proc s1) = Some (rfq, n)"
    by (auto simp: receive_quote_def split: option.splits)
  then have id: "doc_id rfq = ?i" using row_id[OF ok1] by (auto simp: getDocument_row)
  show ?thesis
  proof (cases "doc_status rfq \<in> set receipting \<and> (doc_status rfq \<noteq> quoted_status rfq (so_proc s1) \<or>
      map_of (doc_fields rfq) ''comparisonSnapshotId'' \<noteq> None)")
    case True
    let ?d = "(without_comparison rfq)\<lparr>doc_status := quoted_status rfq (so_proc s1), doc_updatedAt := doc_updatedAt q\<rparr>"
    from rec got True obtain v db where "updateExecutionDocument (se_proj E) ''rfq'' ?d n (so_proc s1) = (Inr v, db)"
      and s': "s' = s1\<lparr>so_proc := db\<rparr>"
      by (auto simp: receive_quote_def tx_ok on_store_ok)
    then have "rfq_put ?d n s1 s'" using update_rfq_put[OF ok1] by simp
    then show ?thesis
      by (rule pending_put[OF ok1]) (use others id in \<open>simp_all add: quoted_not_pending without_comparison_def\<close>)
  next
    case False
    then have s': "s' = s1" using rec got by (auto simp: receive_quote_def)
    have "doc_status rfq \<noteq> ''pending_award''"
      using False quoted_not_pending[of rfq "so_proc s1"] by (auto simp: receipting_def)
    then have "compared i (dr_document r) s1" if "row_at ''rfq'' i s1 = Some r" "doc_status (dr_document r) = ''pending_award''" for i r
      using that others[of i r] got by (cases "i = ?i") (auto simp: getDocument_row)
    then show ?thesis using ok1 by (simp add: s' pending_ok_def)
  qed
qed

lemma exact_idsD:
  assumes "exact_ids a b w = Inr u"
  shows "mset a = mset b" "distinct a" "distinct b" "set a = set b"
proof -
  have s: "sort a = sort b" and d: "distinct a" "distinct b"
    using assms by (auto simp: exact_ids_def assertExactIdSet_def split: sum.splits if_splits)
  show "mset a = mset b" using s by (metis mset_sort)
  then show "set a = set b" by (metis set_mset_mset)
qed (use assms in \<open>auto simp: exact_ids_def assertExactIdSet_def split: sum.splits if_splits\<close>)

lemma all_rightD: "all_right (map f xs) = Inr ys \<Longrightarrow> x \<in> set xs \<Longrightarrow> \<exists>y. f x = Inr y"
  by (drule all_right_all2) (auto simp: list_all2_conv_all_nth in_set_conv_nth)

lemma check_resultsD: "check_results vs stored db l seen qs = Inr u \<Longrightarrow> q \<in> set qs \<Longrightarrow> \<exists>u. check_result vs stored db l q = Inr u"
  by (induction qs arbitrary: seen) (auto split: if_splits sum.splits)

lemma check_resultD:
  assumes "check_result vs stored db l q = Inr u"
  shows "(field_text q ''quoteId'', positive_int (map_of q ''quoteVersion'')) \<in> (\<lambda>x. (doc_id (fst x), Some (int (snd x)))) ` set stored"
  using assms by (force simp: check_result_def Let_def split: option.splits if_splits prod.splits dest: find_Some_mem)

text \<open>A comparison that fits names exactly the stored quotes, each at its version.\<close>
lemma fits_versions:
  assumes "comparison_fits vs d db = Inr u"
  shows "compared_versions d = stored_versions (doc_text d ''rfqId'') db"
proof -
  let ?stored = "quotes_of (doc_text d ''rfqId'') db"
  let ?ls = "listLines RfqLine (doc_text d ''rfqId'') db"
  from assms obtain y where ids: "exact_ids (map fst vs) (map (\<lambda>q. doc_id (fst q)) ?stored) ''quotes'' = Inr ()"
    and lines: "all_right (map (check_line vs ?stored db ?ls) (comparison_lines d)) = Inr y"
    and last: "exact_ids (remdups (compared_quotes d)) (map fst vs) ''quotes'' = Inr ()"
    by (auto simp: comparison_fits_def Let_def split: sum.splits)
  have sub: "compared_versions d \<subseteq> stored_versions (doc_text d ''rfqId'') db"
  proof
    fix x assume "x \<in> compared_versions d"
    then obtain c q where c: "c \<in> set (comparison_lines d)" "q \<in> set (quote_results c)"
      and x: "x = (field_text q ''quoteId'', positive_int (map_of q ''quoteVersion''))" by (auto simp: compared_versions_def)
    from all_rightD[OF lines c(1)] obtain l u where "check_results vs ?stored db l [] (quote_results c) = Inr u"
      by (auto simp: check_line_def split: option.splits if_splits)
    then show "x \<in> stored_versions (doc_text d ''rfqId'') db"
      using check_resultD check_resultsD[OF _ c(2)] unfolding x stored_versions_def by blast
  qed
  have names: "fst ` compared_versions d = fst ` stored_versions (doc_text d ''rfqId'') db"
  proof -
    have "fst ` compared_versions d = set (compared_quotes d)" by (force simp: compared_versions_def compared_quotes_def)
    also have "\<dots> = set (map (\<lambda>q. doc_id (fst q)) ?stored)" using exact_idsD(4)[OF ids] exact_idsD(4)[OF last] by simp
    finally show ?thesis by (simp add: stored_versions_def image_image)
  qed
  have "inj_on fst (stored_versions (doc_text d ''rfqId'') db)"
  proof -
    have "inj_on (\<lambda>q. doc_id (fst q)) (set ?stored)" using exact_idsD(3)[OF ids] by (simp add: distinct_map)
    then show ?thesis by (fastforce simp: stored_versions_def inj_on_def)
  qed
  then show ?thesis using inj_on_image_eq_iff[OF _ sub subset_refl] names by blast
qed

lemma pending_compare:
  assumes "pending_ok s" "persistQuoteComparison E r s = (Inr a, s')"
  shows "pending_ok s'"
proof -
  have ok: "docs_ok s" using assms(1) by (simp add: pending_ok_def)
  define d where "d = clone_document (qi_snapshot r)"
  show ?thesis
    using assms(2) ok d_def
  proof (cases rule: compare_steps)
    case (new rfq n s1)
    have p1: "pending_ok s1" by (rule pending_adds[OF assms(1) new(6)]) (simp add: doc_row_of_def)
    then have ok1: "docs_ok s1" by (simp add: pending_ok_def)
    have id: "doc_id rfq = doc_text d ''rfqId''" using new(1) row_id[OF ok] by (auto simp: getDocument_row)
    have q: "row_at ''quote'' j s1 = Some x \<longleftrightarrow> row_at ''quote'' j s = Some x" for j x
      using adds_new[OF new(6), of "''quote''" j x] adds_kept[OF new(6), of "''quote''" j x]
        find_doc_key[of "''quote''" j "so_proc s1" x] by (auto simp: doc_row_of_def)
    have "stored_versions i (so_proc s1) = stored_versions i (so_proc s)" for i
      by (intro stored_versions_cong[OF ok ok1]) (simp add: q)
    moreover have "doc_id d \<noteq> []" using new(3) by (auto simp: trim_def)
    ultimately have own: "compared (doc_id rfq) (compared_rfq d rfq) s1"
      using new(7) fits_versions[OF new(4)] id
      by (auto simp: compared_def compared_rfq_def doc_row_of_def update_get intro!: exI[of _ "doc_id d"])
    show ?thesis
      by (rule pending_put[OF ok1 new(8)]) (use p1 own in \<open>auto simp: pending_ok_def compared_rfq_def\<close>)
  qed (use assms in simp)
qed

lemma pending_award:
  assumes "pending_ok s" "awardRfqAndCreateDraftPurchaseOrders E us r s = (Inr a, s')"
  shows "pending_ok s'"
proof -
  have ok: "docs_ok s" using assms(1) by (simp add: pending_ok_def)
  show ?thesis
    using assms(2) ok
  proof (cases rule: award_steps)
    case (new rfq n s1)
    have p1: "pending_ok s1" by (rule pending_adds[OF assms(1) new(4)]) auto
    then have ok1: "docs_ok s1" by (simp add: pending_ok_def)
    have "doc_status (fst (wr_rfq a)) = ''awarded''" by (subst new(3)) (simp add: awarded_rfq_def)
    then show ?thesis
      by (intro pending_put[OF ok1 new(5)]) (use p1 in \<open>auto simp: pending_ok_def\<close>)
  qed (use assms in simp)
qed

lemma pending_create:
  assumes "pending_ok s" "createDocumentWithLinesIdempotent E k r s = (Inr a, s')" "k \<in> {RfqLine, QuoteLine}"
    "k = RfqLine \<Longrightarrow> doc_status (ci_document r) = ''draft''"
  shows "pending_ok s'"
  using assms(2)
proof (cases rule: create_steps)
  case (new s1 u2)
  show ?thesis
  proof (cases "k = RfqLine")
    case True
    then have "s' = s1" using new(5) by (simp add: receive_quote_def)
    then show ?thesis using pending_adds[OF assms(1) new(1)] assms(4) True
      by (simp add: doc_row_of_def LINE_DOCUMENT_KIND_def)
  next
    case False
    then show ?thesis using pending_quote[OF assms(1), of "ci_document r"] new assms(3) by (simp add: LINE_DOCUMENT_KIND_def)
  qed
qed (use assms in simp)

lemma so_exec_pending: "pending_ok s \<Longrightarrow> pending_ok (so_exec E x s)"
proof (cases x)
  case (OpRequisition r)
  assume ok: "pending_ok s"
  have step: "createRequisitionIdempotent E r s = (Inr a, s') \<Longrightarrow> pending_ok s'" for a s'
    by (rule pending_adds[OF ok]) (erule requisition_steps, simp)
  show ?thesis unfolding OpRequisition so_exec_def so_op.case
    by (rule snd_tx) (use ok in \<open>auto dest: refused(1) step\<close>)
next
  case (OpRfq r)
  assume ok: "pending_ok s"
  show ?thesis unfolding OpRfq so_exec_def so_op.case createRfqIdempotent_def
    by (rule snd_tx) (use ok in \<open>auto dest: refused(2) pending_create\<close>)
next
  case (OpQuote r)
  assume ok: "pending_ok s"
  show ?thesis unfolding OpQuote so_exec_def so_op.case createQuoteIdempotent_def
    by (rule snd_tx) (use ok in \<open>auto dest: refused(2) pending_create\<close>)
next
  case (OpCompare r)
  assume ok: "pending_ok s"
  show ?thesis unfolding OpCompare so_exec_def so_op.case
    by (rule snd_tx) (use ok in \<open>auto dest: refused(3) pending_compare\<close>)
next
  case (OpAward us r)
  assume ok: "pending_ok s"
  show ?thesis unfolding OpAward so_exec_def so_op.case
    by (rule snd_tx) (use ok in \<open>auto dest: refused(4) pending_award\<close>)
qed

lemma pending_empty: "pending_ok so_empty"
  by (simp add: pending_ok_def docs_ok_def so_empty_def empty_db_def find_doc_def)

lemma so_run_pending: "pending_ok s \<Longrightarrow> pending_ok (so_run E ops s)"
  by (rule so_run_keeps) (simp_all add: so_exec_pending)

subsection \<open>A request that is awarded\<close>

definition awarded_at :: "ident \<Rightarrow> doc_row \<Rightarrow> so_db \<Rightarrow> bool" where
  "awarded_at i r s \<longleftrightarrow> pending_ok s \<and> row_at ''rfq'' i s = Some r \<and> doc_status (dr_document r) = ''awarded''"

lemma awarded_at_put:
  assumes "awarded_at i r s" "adds P s s1" "rfq_put d n s1 s'" "row_at ''rfq'' (doc_id d) s1 = Some x"
    "doc_status (dr_document x) \<noteq> ''awarded''"
  shows "row_at ''rfq'' i s' = Some r"
  using assms put_other[OF assms(3), of "''rfq''" i] adds_kept[OF assms(2), of "''rfq''" i r] by (cases "i = doc_id d") (auto simp: awarded_at_def)

lemma awarded_at_create:
  assumes "awarded_at i r s" "createDocumentWithLinesIdempotent E k c s = (Inr a, s')"
  shows "row_at ''rfq'' i s' = Some r"
  using assms(2)
proof (cases rule: create_steps)
  case (new s1 u2)
  have ok1: "docs_ok s1" using assms(1) adds_docs_ok[OF new(1)] by (simp add: awarded_at_def pending_ok_def)
  have kept: "row_at ''rfq'' i s1 = Some r" using adds_kept[OF new(1)] assms(1) by (simp add: awarded_at_def)
  show ?thesis
  proof (cases "k = QuoteLine")
    case True
    let ?q = "ci_document c"
    from new(5) True obtain rfq n where got: "getDocument ''rfq'' (doc_text ?q ''rfqId'') (so_proc s1) = Some (rfq, n)"
      by (auto simp: receive_quote_def split: option.splits)
    show ?thesis
    proof (cases "doc_text ?q ''rfqId'' = i")
      case True
      then have "rfq = dr_document r" using got kept by (simp add: getDocument_row)
      then have "s' = s1" using new(5) got assms(1) by (auto simp: receive_quote_def awarded_at_def receipting_def split: if_splits)
      then show ?thesis using kept by simp
    next
      case False
      let ?d = "(without_comparison rfq)\<lparr>doc_status := quoted_status rfq (so_proc s1), doc_updatedAt := doc_updatedAt ?q\<rparr>"
      have id: "doc_id ?d = doc_text ?q ''rfqId''" using got row_id[OF ok1] by (auto simp: getDocument_row without_comparison_def)
      show ?thesis
      proof (cases "s' = s1")
        case s': False
        with new(5) got True obtain v db where up: "updateExecutionDocument (se_proj E) ''rfq'' ?d n (so_proc s1) = (Inr v, db)"
          and "s' = s1\<lparr>so_proc := db\<rparr>"
          by (simp add: receive_quote_def tx_ok on_store_ok split: if_splits) blast
        then show ?thesis using put_other[OF update_rfq_put[OF ok1 up], of "''rfq''" i] kept False id by simp
      qed (use kept in simp)
    qed
  qed (use new(5) kept in \<open>simp add: receive_quote_def\<close>)
qed (use assms in \<open>simp add: awarded_at_def\<close>)

lemma awarded_at_compare:
  assumes "awarded_at i r s" "persistQuoteComparison E c s = (Inr a, s')"
  shows "row_at ''rfq'' i s' = Some r"
proof -
  have ok: "docs_ok s" using assms(1) by (simp add: awarded_at_def pending_ok_def)
  show ?thesis
    using assms(2) ok refl
  proof (cases rule: compare_steps)
    case (new rfq n s1)
    have id: "doc_id (compared_rfq (clone_document (qi_snapshot c)) rfq) = doc_text (clone_document (qi_snapshot c)) ''rfqId''"
      using new(1) row_id[OF ok] by (auto simp: getDocument_row compared_rfq_def)
    from new(1) obtain x where x: "row_at ''rfq'' (doc_text (clone_document (qi_snapshot c)) ''rfqId'') s = Some x" "dr_document x = rfq"
      by (auto simp: getDocument_row)
    show ?thesis
      using awarded_at_put[OF assms(1) new(6,8)] adds_kept[OF new(6) x(1)] x(2) id new(2) by (auto simp: comparable_def)
  qed (use assms in \<open>simp add: awarded_at_def\<close>)
qed

lemma awarded_at_award:
  assumes "awarded_at i r s" "awardRfqAndCreateDraftPurchaseOrders E us w s = (Inr a, s')"
  shows "row_at ''rfq'' i s' = Some r"
proof -
  have ok: "docs_ok s" using assms(1) by (simp add: awarded_at_def pending_ok_def)
  show ?thesis
  proof (cases "map_of (so_award_keys s) (wi_key w)")
    case None
    then have st: "\<exists>t. award_body E us w t s = (Inr a, s')" 
      using assms(2) by (auto simp: awardRfqAndCreateDraftPurchaseOrders_def tx_ok with_value_ok)
    show ?thesis
      using assms(2) ok
    proof (cases rule: award_steps)
      case (new rfq n s1)
      from new(1) obtain x where x: "row_at ''rfq'' (wi_rfqId w) s = Some x" "dr_document x = rfq" by (auto simp: getDocument_row)
      have "doc_status rfq \<noteq> ''awarded''" using st new(1) by (auto simp: award_body_def split: if_splits)
      moreover have "doc_id (fst (wr_rfq a)) = wi_rfqId w"
        by (subst new(3)) (use x row_id[OF ok x(1)] in \<open>simp add: awarded_rfq_def\<close>)
      ultimately show ?thesis using awarded_at_put[OF assms(1) new(4,5)] adds_kept[OF new(4) x(1)] x(2) by simp
    qed (use assms in \<open>simp add: awarded_at_def\<close>)
  next
    case (Some e)
    then show ?thesis using assms
      by (cases e) (auto simp: awardRfqAndCreateDraftPurchaseOrders_def tx_ok with_value_ok awarded_at_def split: if_splits)
  qed
qed

lemma awarded_at_exec: "awarded_at i r s \<Longrightarrow> awarded_at i r (so_exec E x s)"
proof -
  assume e: "awarded_at i r s"
  have "row_at ''rfq'' i (so_exec E x s) = Some r"
  proof (cases x)
    case (OpRequisition c)
    show ?thesis unfolding OpRequisition so_exec_def so_op.case
      by (rule snd_tx) (use e in \<open>auto simp: awarded_at_def dest: refused(1) intro: adds_kept[OF requisition_steps]\<close>)
  next
    case (OpRfq c)
    show ?thesis unfolding OpRfq so_exec_def so_op.case createRfqIdempotent_def
      by (rule snd_tx) (use e in \<open>auto simp: awarded_at_def dest: refused(2) intro: awarded_at_create[OF e]\<close>)
  next
    case (OpQuote c)
    show ?thesis unfolding OpQuote so_exec_def so_op.case createQuoteIdempotent_def
      by (rule snd_tx) (use e in \<open>auto simp: awarded_at_def dest: refused(2) intro: awarded_at_create[OF e]\<close>)
  next
    case (OpCompare c)
    show ?thesis unfolding OpCompare so_exec_def so_op.case
      by (rule snd_tx) (use e in \<open>auto simp: awarded_at_def dest: refused(3) intro: awarded_at_compare[OF e]\<close>)
  next
    case (OpAward us c)
    show ?thesis unfolding OpAward so_exec_def so_op.case
      by (rule snd_tx) (use e in \<open>auto simp: awarded_at_def dest: refused(4) intro: awarded_at_award[OF e]\<close>)
  qed
  then show ?thesis using e so_exec_pending by (simp add: awarded_at_def)
qed

lemma so_run_awarded_at: "awarded_at i r s \<Longrightarrow> awarded_at i r (so_run E ops s)"
  by (rule so_run_keeps) (simp_all add: awarded_at_exec)

subsection \<open>The keys of awards\<close>

lemma each_same:
  assumes "each_tx f xs s = (Inr u, s')" "\<And>x s s'. f x s = (Inr () , s') \<Longrightarrow> g s' = g s"
  shows "g s' = g s"
  using each_tx_keeps[of "\<lambda>x. g x = g s" s f xs u s'] assms by metis

lemma keys_rows:
  "insert_row k d s = (Inr u, s') \<Longrightarrow> so_award_keys s' = so_award_keys s"
  "insert_row_line lk i l s = (Inr u, s') \<Longrightarrow> so_award_keys s' = so_award_keys s"
  "audit_attachment rfq m s = (Inr u, s') \<Longrightarrow> so_award_keys s' = so_award_keys s"
  "on_store f s = (Inr v, s') \<Longrightarrow> so_award_keys s' = so_award_keys s"
  "write_rfq d n e s = (Inr u, s') \<Longrightarrow> so_award_keys s' = so_award_keys s"
  by (auto simp: insert_row_def insert_row_line_def audit_attachment_def on_store_ok write_rfq_def Let_def split: if_splits)

lemma keys_lines: "insert_with_lines k r s = (Inr u, s') \<Longrightarrow> so_award_keys s' = so_award_keys s"
  by (auto simp: insert_with_lines_def tx_ok dest!: keys_rows(1) dest: each_same[where g = so_award_keys] keys_rows(2))

lemma keys_audit: "audit_selected k rfq s = (Inr u, s') \<Longrightarrow> so_award_keys s' = so_award_keys s"
  by (auto simp: audit_selected_def Let_def split: if_splits dest: each_same[where g = so_award_keys] keys_rows(3))

lemma keys_receive: "receive_quote E k q s = (Inr u, s') \<Longrightarrow> so_award_keys s' = so_award_keys s"
  by (auto simp: receive_quote_def tx_ok split: if_splits option.splits dest: keys_rows(4))

lemma keys_requisition: "createRequisitionIdempotent E r s = (Inr a, s') \<Longrightarrow> so_award_keys s' = so_award_keys s"
  by (auto simp: createRequisitionIdempotent_def tx_ok with_value_ok split: option.splits dest: keys_lines replay_create_state)

lemma keys_create: "createDocumentWithLinesIdempotent E k r s = (Inr a, s') \<Longrightarrow> so_award_keys s' = so_award_keys s"
  by (auto simp: createDocumentWithLinesIdempotent_def tx_ok with_value_ok split: option.splits
    dest: replay_create_state dest!: keys_lines keys_audit keys_receive)

lemma keys_compare: "persistQuoteComparison E r s = (Inr a, s') \<Longrightarrow> so_award_keys s' = so_award_keys s"
  by (auto simp: persistQuoteComparison_def compare_body_def Let_def tx_ok with_value_ok split: option.splits if_splits
    dest!: keys_rows(1,5))

lemma keys_order_line: "write_order_line E po l s = (Inr u, s') \<Longrightarrow> so_award_keys s' = so_award_keys s"
  by (auto simp: write_order_line_def tx_ok dest!: keys_rows(2,4))

lemma keys_order: "write_order E po s = (Inr u, s') \<Longrightarrow> so_award_keys s' = so_award_keys s"
  by (auto simp: write_order_def tx_ok dest!: keys_rows(1,4) dest: each_same[where g = so_award_keys] keys_order_line)

text \<open>A new award stores its answer under its key.\<close>
lemma keys_write_award:
  assumes "write_award E us r t rfq n its s = (Inr a, s')"
  shows "so_award_keys s' = (wi_key r, wi_hash r, a) # so_award_keys s"
proof -
  from assms obtain aw u1 s1 als u2 s2 os u3 s3 d u4 s4 where "insert_row ''award'' aw s = (Inr u1, s1)"
    and "each_tx (insert_row_line AwardLine (doc_id aw)) als s1 = (Inr u2, s2)"
    and "each_tx (write_order E) os s2 = (Inr u3, s3)" and "write_rfq d n (wi_expected r) s3 = (Inr u4, s4)"
    and s': "s' = s4\<lparr>so_award_keys := (wi_key r, wi_hash r, a) # so_award_keys s4\<rparr>"
    by (auto simp: write_award_def tx_ok Let_def)
  then have "so_award_keys s1 = so_award_keys s" "so_award_keys s2 = so_award_keys s1" "so_award_keys s3 = so_award_keys s2"
    "so_award_keys s4 = so_award_keys s3"
    by (auto dest: keys_rows(1,5) each_same[where g = so_award_keys, OF _ keys_rows(2)] each_same[where g = so_award_keys, OF _ keys_order])
  then show ?thesis by (simp add: s')
qed

lemma keys_award_body:
  assumes "award_body E us r t s = (Inr a, s')"
  shows "so_award_keys s' = (wi_key r, wi_hash r, a) # so_award_keys s"
proof -
  from assms obtain rfq n its where "write_award E us r t rfq n its s = (Inr a, s')"
    by (auto simp: award_body_def Let_def with_value_ok split: option.splits if_splits)
  then show ?thesis by (rule keys_write_award)
qed

lemma keys_award:
  assumes "awardRfqAndCreateDraftPurchaseOrders E us r s = (Inr a, s')"
  shows "\<exists>res. map_of (so_award_keys s') (wi_key r) = Some (wi_hash r, res) \<and> res\<lparr>wr_replayed := True\<rparr> = a\<lparr>wr_replayed := True\<rparr>"
    and "map_of (so_award_keys s) k = Some e \<Longrightarrow> map_of (so_award_keys s') k = Some e"
proof -
  show "\<exists>res. map_of (so_award_keys s') (wi_key r) = Some (wi_hash r, res) \<and> res\<lparr>wr_replayed := True\<rparr> = a\<lparr>wr_replayed := True\<rparr>"
  proof (cases "map_of (so_award_keys s) (wi_key r)")
    case (Some x)
    then show ?thesis using assms
      by (cases x) (auto simp: awardRfqAndCreateDraftPurchaseOrders_def tx_ok with_value_ok split: if_splits)
  qed (use assms in \<open>auto simp: awardRfqAndCreateDraftPurchaseOrders_def tx_ok with_value_ok dest!: keys_award_body\<close>)
  show "map_of (so_award_keys s') k = Some e" if "map_of (so_award_keys s) k = Some e"
  proof (cases "map_of (so_award_keys s) (wi_key r)")
    case (Some x)
    then show ?thesis using assms that
      by (cases x) (auto simp: awardRfqAndCreateDraftPurchaseOrders_def tx_ok with_value_ok split: if_splits)
  qed (use assms that in \<open>auto simp: awardRfqAndCreateDraftPurchaseOrders_def tx_ok with_value_ok dest!: keys_award_body\<close>)
qed

lemma keys_exec:
  assumes key: "map_of (so_award_keys s) k = Some e"
  shows "map_of (so_award_keys (so_exec E x s)) k = Some e"
proof (cases x)
  case (OpRequisition c)
  show ?thesis unfolding OpRequisition so_exec_def so_op.case
    by (rule snd_tx) (use key in \<open>auto dest: refused(1) keys_requisition\<close>)
next
  case (OpRfq c)
  show ?thesis unfolding OpRfq so_exec_def so_op.case createRfqIdempotent_def
    by (rule snd_tx) (use key in \<open>auto dest: refused(2) keys_create\<close>)
next
  case (OpQuote c)
  show ?thesis unfolding OpQuote so_exec_def so_op.case createQuoteIdempotent_def
    by (rule snd_tx) (use key in \<open>auto dest: refused(2) keys_create\<close>)
next
  case (OpCompare c)
  show ?thesis unfolding OpCompare so_exec_def so_op.case
    by (rule snd_tx) (use key in \<open>auto dest: refused(3) keys_compare\<close>)
next
  case (OpAward us c)
  show ?thesis unfolding OpAward so_exec_def so_op.case
    by (rule snd_tx) (use key in \<open>auto dest: refused(4) keys_award(2)\<close>)
qed

lemma keys_run: "map_of (so_award_keys s) k = Some e \<Longrightarrow> map_of (so_award_keys (so_run E ops s)) k = Some e"
  by (rule so_run_keeps) (simp_all add: keys_exec)

subsection \<open>What an award orders\<close>

lemma mset_update_group: "map_of gs k = Some g \<Longrightarrow>
    mset (concat (map snd (AList.update k (g @ [x]) gs))) = add_mset x (mset (concat (map snd gs)))"
  by (induction gs) (auto split: if_splits)

lemma mset_add_to_group: "mset (concat (map snd (add_to_group x gs))) = add_mset x (mset (concat (map snd gs)))"
  by (simp add: add_to_group_def mset_update_group split: option.split)

lemma mset_fold_groups: "mset (concat (map snd (fold add_to_group its gs))) = mset its + mset (concat (map snd gs))"
  by (induction its arbitrary: gs) (simp_all add: mset_add_to_group)

lemma mset_insert_group: "mset (concat (map snd (insert_group le g gs))) = mset (snd g) + mset (concat (map snd gs))"
  by (induction gs) (auto simp: ac_simps)

lemma mset_groups: "mset (concat (map snd (sort_groups le (group_items its)))) = mset its"
proof -
  have "mset (concat (map snd (sort_groups le gs))) = mset (concat (map snd gs))" for gs :: "(string \<times> award_item list) list"
    by (induction gs) (simp_all add: sort_groups_def mset_insert_group)
  then show ?thesis by (simp add: group_items_def mset_fold_groups)
qed

text \<open>The award line of an item among the lines of the award.\<close>
definition award_line_id :: "proc_line list \<Rightarrow> award_item \<Rightarrow> ident" where
  "award_line_id als it = (case find (\<lambda>a. line_text a ''rfqLineId'' = pl_id (ai_rfqLine it)) (List.rev als) of
     None \<Rightarrow> [] | Some a \<Rightarrow> pl_id a)"

lemma order_line_award: "line_text (order_line us po als k it) ''awardLineId'' = award_line_id als it"
  by (simp add: order_line_def line_text_def string_of_def award_line_id_def)

lemma map_enumerate: "map (\<lambda>x. f (snd x)) (List.enumerate k xs) = map f xs"
  by (induction xs arbitrary: k) simp_all

lemma order_lines_awards: "map (\<lambda>l. line_text l ''awardLineId'') (concat (map snd (award_orders E us aw als t k gs))) =
    map (award_line_id als) (concat (map snd gs))"
proof (induction gs arbitrary: k)
  case (Cons g gs)
  then show ?case by (cases g) (simp add: Let_def order_line_award comp_def case_prod_beta map_enumerate)
qed simp

lemma fields_of_other: "k \<notin> set ks \<Longrightarrow> map_of (fields_of l ks @ f) k = map_of f k"
  by (induction ks) (auto simp: fields_of_def copied_def split: option.split)

lemma description_other: "k \<noteq> ''description'' \<Longrightarrow> map_of (optional_description l @ f) k = map_of f k"
  by (auto simp: optional_description_def copied_def split: option.split)

lemma award_line_fields: "line_text (award_line us aw k it) ''rfqLineId'' = pl_id (ai_rfqLine it)"
  "line_number (award_line us aw k it) ''awardedQty'' = as_awardedQuantity (ai_selection it)"
  by (simp_all add: award_line_def line_text_def string_of_def line_number_def fields_of_other description_other del: map_of_append)

lemma prepare_lineD:
  assumes "prepare_line E rid rfq d ls t db sel = Inr it"
  shows "ai_selection it = sel" "ai_rfqLine it \<in> set ls" "pl_id (ai_rfqLine it) = as_rfqLineId sel"
    "as_awardedQuantity sel = line_number (ai_rfqLine it) ''requestedQty''"
proof -
  from assms obtain reason l q where l: "find (\<lambda>l. pl_id l = as_rfqLineId sel) (List.rev ls) = Some l"
    and eq: "jeq (as_awardedQuantity sel) (line_number l ''requestedQty'')" "is_finite (as_awardedQuantity sel)"
    and pq: "prepare_quote E rid rfq t db sel reason l q = Inr it"
    by (auto simp: prepare_line_def split: sum.splits option.splits if_splits)
  from pq have it: "ai_selection it = sel" "ai_rfqLine it = l"
    by (auto simp: prepare_quote_def split: option.splits if_splits sum.splits prod.splits)
  show "ai_selection it = sel" "ai_rfqLine it \<in> set ls" "pl_id (ai_rfqLine it) = as_rfqLineId sel"
    using it find_Some_mem[OF l] by auto
  show "as_awardedQuantity sel = line_number (ai_rfqLine it) ''requestedQty''"
    using eq by (cases "as_awardedQuantity sel"; cases "line_number l ''requestedQty''") (simp_all add: it)
qed

text \<open>The items of an award are the lines of the request, each once.\<close>
lemma prepared_lines:
  assumes its: "all_right (map (prepare_line E rid rfq d ls t db) sels) = Inr its"
    and ids: "exact_ids (map as_rfqLineId sels) (map pl_id ls) w = Inr u"
  shows "mset (map ai_rfqLine its) = mset ls"
    "\<And>it. it \<in> set its \<Longrightarrow> as_awardedQuantity (ai_selection it) = line_number (ai_rfqLine it) ''requestedQty''"
proof -
  have all: "list_all2 (\<lambda>sel it. prepare_line E rid rfq d ls t db sel = Inr it) sels its" by (rule all_right_all2[OF its])
  have "map (\<lambda>it. pl_id (ai_rfqLine it)) its = map as_rfqLineId sels"
    using all by induction (auto dest: prepare_lineD(3))
  then have "mset (map pl_id (map ai_rfqLine its)) = mset (map pl_id ls)" using exact_idsD(1)[OF ids] by (simp add: comp_def)
  moreover have "set (map ai_rfqLine its) \<subseteq> set ls" using all by induction (auto dest: prepare_lineD(2))
  moreover have "inj_on pl_id (set ls)" using exact_idsD(3)[OF ids] by (simp add: distinct_map)
  ultimately have "image_mset pl_id (mset (map ai_rfqLine its)) = image_mset pl_id (mset ls)" by (simp add: multiset.map_comp)
  show "mset (map ai_rfqLine its) = mset ls"
  proof -
    let ?f = "the_inv_into (set ls) pl_id"
    have f: "?f (pl_id l) = l" if "l \<in> set ls" for l
      by (rule the_inv_into_f_f) (use \<open>inj_on pl_id (set ls)\<close> that in simp_all)
    have "image_mset ?f (image_mset pl_id (mset xs)) = mset xs" if "set xs \<subseteq> set ls" for xs
      using that by (induction xs) (simp_all add: f)
    then show ?thesis using \<open>image_mset pl_id (mset (map ai_rfqLine its)) = image_mset pl_id (mset ls)\<close>
      \<open>set (map ai_rfqLine its) \<subseteq> set ls\<close> by (metis order_refl)
  qed
  show "as_awardedQuantity (ai_selection it) = line_number (ai_rfqLine it) ''requestedQty''" if "it \<in> set its" for it
    using that all prepare_lineD(1,4) by (fastforce simp: list_all2_conv_all_nth in_set_conv_nth)
qed

lemma award_lines_map: "map (\<lambda>l. (line_text l ''rfqLineId'', line_number l ''awardedQty'')) (award_lines us aw its) =
    map (\<lambda>it. (pl_id (ai_rfqLine it), as_awardedQuantity (ai_selection it))) its"
  using map_enumerate[of "\<lambda>it. (pl_id (ai_rfqLine it), as_awardedQuantity (ai_selection it))" 0 its]
  by (simp add: award_lines_def comp_def case_prod_beta award_line_fields)

text \<open>Every item finds its own award line.\<close>
lemma own_award_lines:
  assumes "distinct (map (\<lambda>it. pl_id (ai_rfqLine it)) its)"
  shows "map (award_line_id (award_lines us aw its)) its = map pl_id (award_lines us aw its)"
proof (rule nth_equalityI)
  fix i assume "i < length (map (award_line_id (award_lines us aw its)) its)"
  then have i: "i < length its" by simp
  let ?als = "award_lines us aw its"
  have len: "length ?als = length its" by (simp add: award_lines_def)
  have nth: "?als ! j = award_line us aw (j + 1) (its ! j)" if "j < length its" for j
    using that by (simp add: award_lines_def nth_enumerate_eq)
  have key: "line_text (?als ! j) ''rfqLineId'' = pl_id (ai_rfqLine (its ! j))" if "j < length its" for j
    by (simp add: nth[OF that] award_line_fields)
  have "map (\<lambda>a. line_text a ''rfqLineId'') ?als = map (\<lambda>it. pl_id (ai_rfqLine it)) its"
    by (rule nth_equalityI) (simp_all add: len key)
  then have "distinct (map (\<lambda>a. line_text a ''rfqLineId'') (List.rev ?als))" using assms by (simp add: rev_map[symmetric])
  then have "find (\<lambda>a. line_text a ''rfqLineId'' = line_text (?als ! i) ''rfqLineId'') (List.rev ?als) = Some (?als ! i)"
    by (rule find_distinct_key) (use i len in \<open>simp add: nth_mem\<close>)
  then show "map (award_line_id ?als) its ! i = map pl_id ?als ! i"
    using i by (simp add: award_line_id_def key len)
qed (simp add: award_lines_def)

lemma new_award:
  assumes "awardRfqAndCreateDraftPurchaseOrders E us r s = (Inr a, s')" "\<not> wr_replayed a"
  obtains rfq d t its where
    "exact_ids (map as_rfqLineId (wi_lines r)) (map pl_id (listLines RfqLine (wi_rfqId r) (so_proc s))) ''lines'' = Inr ()"
    "all_right (map (prepare_line E (wi_rfqId r) rfq d (listLines RfqLine (wi_rfqId r) (so_proc s)) t (so_proc s)) (wi_lines r)) = Inr its"
    "wr_lines a = award_lines us (''award:'' @ us 0) its"
    "map snd (wr_orders a) = map snd (award_orders E us (''award:'' @ us 0) (award_lines us (''award:'' @ us 0) its) t (1 + length its)
       (sort_groups (se_collate E) (group_items its)))"
proof (cases "map_of (so_award_keys s) (wi_key r)")
  case None
  with assms obtain t where "award_body E us r t s = (Inr a, s')"
    by (auto simp: awardRfqAndCreateDraftPurchaseOrders_def tx_ok with_value_ok)
  then obtain rfq n d its where
    1: "exact_ids (map as_rfqLineId (wi_lines r)) (map pl_id (listLines RfqLine (wi_rfqId r) (so_proc s))) ''lines'' = Inr ()" and
    2: "all_right (map (prepare_line E (wi_rfqId r) rfq d (listLines RfqLine (wi_rfqId r) (so_proc s)) t (so_proc s)) (wi_lines r)) = Inr its" and
    3: "write_award E us r t rfq n its s = (Inr a, s')"
    by (auto simp: award_body_def tx_ok with_value_ok Let_def split: option.splits if_splits)
  show ?thesis by (rule that[OF 1 2]) (use 3 in \<open>auto simp: write_award_def tx_ok Let_def award_document_def case_prod_beta\<close>)
next
  case (Some e)
  then show ?thesis using assms
    by (cases e) (auto simp: awardRfqAndCreateDraftPurchaseOrders_def tx_ok with_value_ok split: if_splits)
qed

subsection \<open>An example\<close>

definition demo_tender :: so_env where
  "demo_tender = \<lparr>se_proj = demo_env, se_parse = (\<lambda>v. if v = ''9'' then Some 9 else if v = ''20'' then Some 20 else None),
     se_collate = (\<lambda>a b. length a \<le> length b)\<rparr>"

definition demo_paper :: "ident \<Rightarrow> string \<Rightarrow> (string \<times> json) list \<Rightarrow> document" where
  "demo_paper i st f = \<lparr>doc_id = i, doc_tenantId = ''t'', doc_sourceSystem = ''s'', doc_externalId = i, doc_status = st,
     doc_createdAt = 1, doc_updatedAt = 1, doc_fields = f\<rparr>"

definition demo_item :: "ident \<Rightarrow> (string \<times> json) list \<Rightarrow> proc_line" where
  "demo_item i f = \<lparr>pl_id = i, pl_lineNumber = i, pl_fields = f @ [(''itemId'', JStr ''x''), (''uom'', JStr ''kg'')]\<rparr>"

definition demo_rfq :: create_input where
  "demo_rfq = \<lparr>ci_document = demo_paper ''r'' ''open'' [(''supplierIds'', JArr [JStr ''a''])],
     ci_lines = [demo_item ''l'' [(''rfqId'', JStr ''r''), (''requestedQty'', JNum (JFin 3))],
       demo_item ''m'' [(''rfqId'', JStr ''r''), (''requestedQty'', JNum (JFin 4))]], ci_key = ''k'', ci_hash = ''h''\<rparr>"

definition demo_quote :: "ident \<Rightarrow> ident \<Rightarrow> create_input" where
  "demo_quote i supplier = \<lparr>ci_document = demo_paper i ''received'' [(''rfqId'', JStr ''r''), (''supplierId'', JStr supplier),
       (''currency'', JStr ''EUR''), (''validUntil'', JStr ''20'')],
     ci_lines = map (\<lambda>l. demo_item (i @ l) [(''quoteId'', JStr i), (''rfqLineId'', JStr l), (''quotedQty'', JNum (JFin 9)),
       (''unitPrice'', JNum (JFin 0))]) [''l'', ''m''],
     ci_key = i, ci_hash = ''h''\<rparr>"

definition demo_result :: "ident \<Rightarrow> ident \<Rightarrow> ident \<Rightarrow> json" where
  "demo_result i supplier l = JObj [(''quoteId'', JStr i), (''quoteVersion'', JNum (JFin 1)), (''quoteLineId'', JStr (i @ l)),
     (''supplierId'', JStr supplier), (''eligibility'', JStr ''eligible'')]"

definition demo_comparison :: comparison_input where
  "demo_comparison = \<lparr>qi_key = ''k'', qi_hash = ''h'', qi_expected = 1, qi_versions = [(''p'', 1)],
     qi_snapshot = demo_paper ''c'' ''final'' [(''rfqId'', JStr ''r''), (''rfqVersion'', JNum (JFin 1)), (''createdBy'', JStr ''u''),
       (''comparisonCurrency'', JStr ''EUR''), (''ruleVersion'', JStr ''1''), (''asOf'', JStr ''9''),
       (''rateSnapshot'', JObj [(''version'', JStr ''1''), (''rates'', JObj [(''EUR'', JNum (JFin 1))])]),
       (''weights'', JObj [(''price'', JNum (JFin 1))]),
       (''lineComparisons'', JArr (map (\<lambda>l. JObj [(''rfqLineId'', JStr l), (''lineNumber'', JStr l), (''itemId'', JStr ''x''),
          (''recommendedSupplierId'', JStr ''a''), (''quotes'', JArr [demo_result ''p'' ''a'' l])])
          [''l'', ''m'']))]\<rparr>"

definition demo_award :: award_input where
  "demo_award = \<lparr>wi_key = ''k'', wi_hash = ''h'', wi_rfqId = ''r'', wi_expected = 2, wi_approvedBy = ''u'', wi_approvedAt = ''9'',
     wi_lines = [\<lparr>as_rfqLineId = ''l'', as_quoteLineId = ''pl'', as_awardedQuantity = JFin 3, as_selectionReason = ''s''\<rparr>,
       \<lparr>as_rfqLineId = ''m'', as_quoteLineId = ''pm'', as_awardedQuantity = JFin 4, as_selectionReason = ''s''\<rparr>]\<rparr>"

definition demo_steps :: "so_op list" where
  "demo_steps = [OpRfq demo_rfq, OpQuote (demo_quote ''p'' ''a''), OpCompare demo_comparison]"

definition demo_market :: so_db where
  "demo_market = so_run demo_tender demo_steps so_empty"

definition demo_awarded :: award_result where
  "demo_awarded = (case fst (awardRfqAndCreateDraftPurchaseOrders demo_tender nat_str demo_award demo_market) of Inr a \<Rightarrow> a)"

definition demo_after :: so_db where
  "demo_after = snd (awardRfqAndCreateDraftPurchaseOrders demo_tender nat_str demo_award demo_market)"

lemma demo_market_pending:
  "map_option (\<lambda>d. (doc_status (fst d), doc_text (fst d) ''comparisonSnapshotId'')) (getDocument ''rfq'' ''r'' (so_proc demo_market)) =
    Some (''pending_award'', ''c'')"
  by code_simp

lemma demo_award_ok: "(case fst (awardRfqAndCreateDraftPurchaseOrders demo_tender nat_str demo_award demo_market) of
    Inl _ \<Rightarrow> False | Inr a \<Rightarrow> \<not> wr_replayed a)"
  by code_simp

lemma demo_award_result:
  "awardRfqAndCreateDraftPurchaseOrders demo_tender nat_str demo_award demo_market = (Inr demo_awarded, demo_after)"
  "\<not> wr_replayed demo_awarded"
  using demo_award_ok unfolding demo_awarded_def demo_after_def
  by (cases "awardRfqAndCreateDraftPurchaseOrders demo_tender nat_str demo_award demo_market"; auto split: sum.splits)+

subsection \<open>Properties\<close>

text \<open>C7 a request that awaits its award is never awarded on an outdated comparison: whatever was created,
  quoted, compared and awarded before, its comparison is stored, is of this request, and names exactly
  the quotes stored for it, each at its stored version.\<close>
theorem pending_award_covers_quotes:
  assumes "getDocument ''rfq'' i (so_proc (so_run E ops so_empty)) = Some (rfq, n)" "doc_status rfq = ''pending_award''"
  shows "\<exists>d v. getDocument ''quote_comparison'' (doc_text rfq ''comparisonSnapshotId'') (so_proc (so_run E ops so_empty)) = Some (d, v) \<and>
    doc_text d ''rfqId'' = i \<and> compared_versions d = stored_versions i (so_proc (so_run E ops so_empty))"
proof -
  from assms obtain r where "row_at ''rfq'' i (so_run E ops so_empty) = Some r" "dr_document r = rfq" by (auto simp: getDocument_row)
  then have "compared i rfq (so_run E ops so_empty)"
    using so_run_pending[OF pending_empty, of E ops] assms(2) by (auto simp: pending_ok_def)
  then show ?thesis by (auto simp: compared_def getDocument_row dest: doc_text_field)
qed

theorem pending_award_covers_quotes_witness:
  "\<exists>d v. getDocument ''quote_comparison'' ''c'' (so_proc (so_run demo_tender demo_steps so_empty)) = Some (d, v) \<and>
    doc_text d ''rfqId'' = ''r'' \<and>
    compared_versions d = stored_versions ''r'' (so_proc (so_run demo_tender demo_steps so_empty))"
proof -
  obtain rfq n where "getDocument ''rfq'' ''r'' (so_proc (so_run demo_tender demo_steps so_empty)) = Some (rfq, n)"
    "doc_status rfq = ''pending_award''" "doc_text rfq ''comparisonSnapshotId'' = ''c''"
    using demo_market_pending by (auto simp: demo_market_def)
  then show ?thesis using pending_award_covers_quotes[of "''r''" demo_tender demo_steps rfq n] by simp
qed

text \<open>C8 an award ends its request: after it, no requisition, request, quote, comparison or other award
  changes the request, which stays awarded at the version the award returned.\<close>
theorem awarded_request_final:
  assumes "awardRfqAndCreateDraftPurchaseOrders E us r (so_run E before so_empty) = (Inr a, s')" "\<not> wr_replayed a"
  shows "getDocument ''rfq'' (wi_rfqId r) (so_proc (so_run E later s')) = Some (wr_rfq a) \<and>
    doc_status (fst (wr_rfq a)) = ''awarded''"
proof -
  let ?s = "so_run E before so_empty"
  have p: "pending_ok ?s" by (rule so_run_pending[OF pending_empty])
  then have ok: "docs_ok ?s" by (simp add: pending_ok_def)
  show ?thesis
    using assms(1) ok
  proof (cases rule: award_steps)
    case (new rfq n s1)
    have st: "doc_status (fst (wr_rfq a)) = ''awarded''" by (subst new(3)) (simp add: awarded_rfq_def)
    have id: "doc_id (fst (wr_rfq a)) = wi_rfqId r"
      by (subst new(3)) (use new(1) row_id[OF ok] in \<open>auto simp: getDocument_row awarded_rfq_def\<close>)
    from new(5) obtain x where x: "row_at ''rfq'' (wi_rfqId r) s' = Some x" "dr_document x = fst (wr_rfq a)" "dr_version x = n + 1"
      by (auto simp: rfq_put_def id)
    have "awarded_at (wi_rfqId r) x s'" using pending_award[OF p assms(1)] x st by (simp add: awarded_at_def)
    then have "row_at ''rfq'' (wi_rfqId r) (so_run E later s') = Some x"
      using so_run_awarded_at by (auto simp: awarded_at_def)
    then show ?thesis using x(2,3) new(3) st by (simp add: getDocument_def prod_eq_iff)
  qed (use assms(2) in simp)
qed

theorem awarded_request_final_witness:
  "getDocument ''rfq'' ''r'' (so_proc (so_run demo_tender demo_steps demo_after)) = Some (wr_rfq demo_awarded) \<and>
    doc_status (fst (wr_rfq demo_awarded)) = ''awarded''"
  using awarded_request_final[of demo_tender nat_str demo_award demo_steps demo_awarded demo_after demo_steps]
    demo_award_result by (simp add: demo_market_def demo_award_def)

text \<open>C9 an award covers its request: its lines are the lines of the request with the requested
  quantities, and the draft orders together have one line for each line of the award.\<close>
theorem award_covers_request:
  assumes "awardRfqAndCreateDraftPurchaseOrders E us r s = (Inr a, s')" "\<not> wr_replayed a"
  shows "mset (map (\<lambda>l. (line_text l ''rfqLineId'', line_number l ''awardedQty'')) (wr_lines a)) =
      mset (map (\<lambda>l. (pl_id l, line_number l ''requestedQty'')) (listLines RfqLine (wi_rfqId r) (so_proc s))) \<and>
    mset (map (\<lambda>l. line_text l ''awardLineId'') (concat (map snd (wr_orders a)))) = mset (map pl_id (wr_lines a))"
proof -
  from assms obtain rfq d t its where
    1: "exact_ids (map as_rfqLineId (wi_lines r)) (map pl_id (listLines RfqLine (wi_rfqId r) (so_proc s))) ''lines'' = Inr ()" and
    2: "all_right (map (prepare_line E (wi_rfqId r) rfq d (listLines RfqLine (wi_rfqId r) (so_proc s)) t (so_proc s)) (wi_lines r)) = Inr its" and
    3: "wr_lines a = award_lines us (''award:'' @ us 0) its" and
    4: "map snd (wr_orders a) = map snd (award_orders E us (''award:'' @ us 0) (award_lines us (''award:'' @ us 0) its) t (1 + length its)
       (sort_groups (se_collate E) (group_items its)))"
    by (rule new_award)
  let ?ls = "listLines RfqLine (wi_rfqId r) (so_proc s)"
  have "map (\<lambda>l. (line_text l ''rfqLineId'', line_number l ''awardedQty'')) (wr_lines a) =
      map (\<lambda>l. (pl_id l, line_number l ''requestedQty'')) (map ai_rfqLine its)"
    using prepared_lines(2)[OF 2 1] by (simp add: 3 award_lines_map)
  then have "mset (map (\<lambda>l. (line_text l ''rfqLineId'', line_number l ''awardedQty'')) (wr_lines a)) =
      mset (map (\<lambda>l. (pl_id l, line_number l ''requestedQty'')) ?ls)"
    using prepared_lines(1)[OF 2 1] by (simp flip: multiset.map_comp)
  moreover have "distinct (map (\<lambda>it. pl_id (ai_rfqLine it)) its)"
  proof -
    have "mset (map pl_id (map ai_rfqLine its)) = mset (map pl_id ?ls)"
      using prepared_lines(1)[OF 2 1] by (simp flip: multiset.map_comp)
    then show ?thesis using exact_idsD(3)[OF 1] mset_eq_imp_distinct_iff by (fastforce simp: comp_def)
  qed
  then have "mset (map (award_line_id (wr_lines a)) its) = mset (map pl_id (wr_lines a))" by (simp add: 3 own_award_lines)
  moreover have "map (\<lambda>l. line_text l ''awardLineId'') (concat (map snd (wr_orders a))) =
      map (award_line_id (wr_lines a)) (concat (map snd (sort_groups (se_collate E) (group_items its))))"
    by (simp add: 4 3 order_lines_awards)
  then have "mset (map (\<lambda>l. line_text l ''awardLineId'') (concat (map snd (wr_orders a)))) = mset (map (award_line_id (wr_lines a)) its)"
    by (simp add: mset_groups)
  ultimately show ?thesis by simp
qed

theorem award_covers_request_witness:
  "mset (map (\<lambda>l. (line_text l ''rfqLineId'', line_number l ''awardedQty'')) (wr_lines demo_awarded)) =
      mset (map (\<lambda>l. (pl_id l, line_number l ''requestedQty'')) (listLines RfqLine (wi_rfqId demo_award) (so_proc demo_market))) \<and>
    mset (map (\<lambda>l. line_text l ''awardLineId'') (concat (map snd (wr_orders demo_awarded)))) = mset (map pl_id (wr_lines demo_awarded))"
  by (rule award_covers_request[OF demo_award_result])

text \<open>C18 an award is answered again for its key: however the books go on, the same call gives the first
  answer, marked as replayed, and changes nothing.\<close>
theorem award_replayed:
  assumes "awardRfqAndCreateDraftPurchaseOrders E us r s = (Inr a, s')"
  shows "awardRfqAndCreateDraftPurchaseOrders E us' r (so_run E later s') = (Inr (a\<lparr>wr_replayed := True\<rparr>), so_run E later s')"
proof -
  from keys_award(1)[OF assms] obtain res where res: "map_of (so_award_keys (so_run E later s')) (wi_key r) = Some (wi_hash r, res)"
    "res\<lparr>wr_replayed := True\<rparr> = a\<lparr>wr_replayed := True\<rparr>" using keys_run by blast
  obtain t where "award_checks E r = Inr t"
    using assms by (auto simp: awardRfqAndCreateDraftPurchaseOrders_def with_value_ok)
  then show ?thesis using res by (simp add: awardRfqAndCreateDraftPurchaseOrders_def)
qed

theorem award_replayed_witness:
  "awardRfqAndCreateDraftPurchaseOrders demo_tender nat_str demo_award (so_run demo_tender demo_steps demo_after) =
    (Inr (demo_awarded\<lparr>wr_replayed := True\<rparr>), so_run demo_tender demo_steps demo_after)"
  by (rule award_replayed[OF demo_award_result(1)])

end
