(* ===== verification/IntakeBooks.thy ===== *)
theory IntakeBooks
  imports SupplierIntake SourcingBooks
begin

text \<open>
  What the intake of suppliers and mails keeps: every version of a document it writes has its projection,
  and a mail once recorded is found again for ever under its identities.
\<close>

datatype intake_op = OpSync sync_input | OpMail document string

definition intake_exec :: "proj_env \<Rightarrow> intake_op \<Rightarrow> intake_db \<Rightarrow> intake_db" where
  "intake_exec E x s = (case x of OpSync r \<Rightarrow> snd (syncSuppliersIdempotent E True r s)
     | OpMail c h \<Rightarrow> snd (persistInboundCommunicationIdempotent E c h s))"

definition intake_run :: "proj_env \<Rightarrow> intake_op list \<Rightarrow> intake_db \<Rightarrow> intake_db" where
  "intake_run E = fold (intake_exec E)"

lemma intake_run_keeps:
  assumes "P s" "\<And>x s. P s \<Longrightarrow> P (intake_exec E x s)"
  shows "P (intake_run E ops s)"
  using assms(1) by (induction ops arbitrary: s) (simp_all add: intake_run_def assms(2))

lemma intake_exec_cases:
  assumes "P s" "\<And>r a s'. syncSuppliersIdempotent E True r s = (Inr a, s') \<Longrightarrow> P s'"
    "\<And>c h a s'. persistInboundCommunicationIdempotent E c h s = (Inr a, s') \<Longrightarrow> P s'"
  shows "P (intake_exec E x s)"
proof (cases x)
  case (OpSync r)
  show ?thesis unfolding OpSync intake_exec_def intake_op.case
  proof (rule snd_tx)
    fix e s' assume "syncSuppliersIdempotent E True r s = (Inl e, s')"
    then have "s' = s" unfolding syncSuppliersIdempotent_def by (simp only: if_True) (erule tx_refused)
    then show "P s'" using assms(1) by simp
  qed (use assms(2) in blast)
next
  case (OpMail c h)
  show ?thesis unfolding OpMail intake_exec_def intake_op.case
  proof (rule snd_tx)
    fix e s' assume "persistInboundCommunicationIdempotent E c h s = (Inl e, s')"
    then have "s' = s" unfolding persistInboundCommunicationIdempotent_def by (rule tx_refused)
    then show "P s'" using assms(1) by simp
  qed (use assms(3) in blast)
qed

subsection \<open>Documents\<close>

definition keys_ok :: "proc_db \<Rightarrow> bool" where
  "keys_ok db \<longleftrightarrow> distinct (map (\<lambda>r. (dr_kind r, dr_id r)) (pd_documents db)) \<and>
     (\<forall>r\<in>set (pd_documents db). dr_id r = doc_id (dr_document r))"

text \<open>Every document is projected but those under the source keys \<open>B\<close>.\<close>
definition books_ok :: "proj_env \<Rightarrow> string set \<Rightarrow> intake_db \<Rightarrow> bool" where
  "books_ok E B s \<longleftrightarrow> keys_ok (it_proc s) \<and> docs_projected E B (it_proc s)"

text \<open>The source keys of the documents without a job for some of their versions.\<close>
definition unprojected :: "proj_env \<Rightarrow> proc_db \<Rightarrow> string set" where
  "unprojected E db = fst ` Set.filter (\<lambda>v. \<not> row_projected ''procurement_documents'' (pd_queue db) v)
     (doc_version E ` set (pd_documents db))"

lemma docs_projected_iff: "docs_projected E B db \<longleftrightarrow> unprojected E db \<subseteq> B"
  by (auto simp: docs_projected_def versions_projected_def unprojected_def)

lemma on_docs_ok: "on_docs f s = (Inr a, s') \<longleftrightarrow> (\<exists>d. f (it_proc s) = (Inr a, d) \<and> s' = s\<lparr>it_proc := d\<rparr>)"
  by (auto simp: on_docs_def split: prod.splits sum.splits)

text \<open>A row is written under its key and version beside the projection of the next one.\<close>
lemma books_update:
  assumes ok: "books_ok E B s" and r: "find_doc kind (doc_id d) (it_proc s) = Some r0" "dr_version r0 = n"
    and p: "\<And>r. r \<in> set (pd_documents (it_proc s)) \<Longrightarrow> p r \<longleftrightarrow> r = r0"
    and f: "dr_kind (f r0) = kind" "dr_id (f r0) = doc_id d" "dr_version (f r0) = n + 1" "dr_document (f r0) = d"
    and q: "enqueueDocumentProjection E kind d (n + 1) ((it_proc s)\<lparr>pd_documents := upd_where p f (pd_documents (it_proc s))\<rparr>) = (Inr u, db)"
  shows "books_ok E B (s\<lparr>it_proc := db\<rparr>)"
proof -
  let ?p = "\<lambda>r. (dr_kind r, dr_id r) = (kind, doc_id d) \<and> dr_version r = n"
  let ?f = "\<lambda>r. if r = r0 then f r0 else r\<lparr>dr_kind := kind, dr_id := doc_id d, dr_version := n + 1, dr_document := d\<rparr>"
  let ?rows = "pd_documents (it_proc s)"
  have r0: "r0 \<in> set ?rows" "dr_kind r0 = kind" "dr_id r0 = doc_id d" using find_doc_key[OF r(1)] by auto
  have dist: "distinct (map (\<lambda>r. (dr_kind r, dr_id r)) ?rows)" using ok by (simp add: books_ok_def keys_ok_def)
  have only: "?p x \<longleftrightarrow> x = r0" if "x \<in> set ?rows" for x
    using that r0 r(2) dist by (auto simp: distinct_map inj_on_def)
  have same: "upd_where p f ?rows = upd_where ?p ?f ?rows"
    using p only by (auto simp: upd_where_def)
  have "docs_projected E B db"
  proof (rule docs_update[where p = ?p and f = ?f and kind = kind and d = d and n = n])
    show "changes ?p ?rows = 1"
      using changes_key[OF dist, of "(kind, doc_id d)" r0 ?p] r r0 by (auto simp: find_doc_def)
  qed (use ok q same in \<open>auto simp: books_ok_def doc_version_def doc_row_of_def f\<close>)
  moreover have "keys_ok db"
  proof -
    have rows: "pd_documents db = upd_where p f ?rows"
      using enqueueDocumentProjection_ok(1)[OF q] by (simp add: tables_kept_def)
    have "map (\<lambda>r. (dr_kind r, dr_id r)) (upd_where p f ?rows) = map (\<lambda>r. (dr_kind r, dr_id r)) ?rows"
      by (rule map_upd_where) (use p r0 f in auto)
    then show ?thesis using ok p by (auto simp: keys_ok_def books_ok_def rows set_upd_where f)
  qed
  ultimately show ?thesis by (simp add: books_ok_def)
qed

lemma books_insert:
  assumes "books_ok E B s" "insert_projected E kind d s = (Inr u, s')"
  shows "books_ok E B s'"
proof -
  let ?r = "doc_row_of kind d 1 (doc_createdAt d)"
  from assms(2) obtain db where none: "find_doc kind (doc_id d) (it_proc s) = None"
    and q: "enqueueDocumentProjection E kind d 1 ((it_proc s)\<lparr>pd_documents := pd_documents (it_proc s) @ [?r]\<rparr>) = (Inr u, db)"
    and s': "s' = s\<lparr>it_proc := db\<rparr>"
    by (auto simp: insert_projected_def on_docs_ok split: if_splits)
  have "docs_projected E B db" by (rule docs_insert[OF _ q]) (use assms(1) in \<open>simp add: books_ok_def\<close>)
  moreover have "keys_ok db"
    using assms(1) none enqueueDocumentProjection_ok(1)[OF q]
    by (auto simp: keys_ok_def books_ok_def tables_kept_def doc_row_of_def find_doc_def find_None_iff)
  ultimately show ?thesis by (simp add: books_ok_def s')
qed

lemma books_keys: "books_ok E B s \<Longrightarrow> it_proc s' = it_proc s \<Longrightarrow> books_ok E B s'"
  by (simp add: books_ok_def)

lemma keys_only:
  assumes "keys_ok db" "find_doc k i db = Some r" "x \<in> set (pd_documents db)"
  shows "(dr_kind x, dr_id x) = (k, i) \<longleftrightarrow> x = r"
proof
  have inj: "inj_on (\<lambda>r. (dr_kind r, dr_id r)) (set (pd_documents db))"
    using assms(1) by (simp add: keys_ok_def distinct_map)
  show "x = r" if "(dr_kind x, dr_id x) = (k, i)"
    by (rule inj_onD[OF inj]) (use that find_doc_key[OF assms(2)] assms(3) in simp_all)
qed (use find_doc_key[OF assms(2)] in simp)

lemma find_supplier_row:
  assumes "keys_ok (it_proc s)" "findSupplier c (it_proc s) = Some (d, n)"
  obtains r where "find_doc ''supplier'' (doc_id d) (it_proc s) = Some r" "dr_document r = d" "dr_version r = n"
proof -
  from assms(2) obtain r where r: "r \<in> set (pd_documents (it_proc s))" "dr_kind r = ''supplier''" "dr_document r = d" "dr_version r = n"
    by (auto simp: findSupplier_def split: option.splits dest: find_Some_mem find_doc_key)
  have "find (\<lambda>x. (dr_kind x, dr_id x) = (dr_kind r, dr_id r)) (pd_documents (it_proc s)) = Some r"
    by (rule find_distinct_key) (use assms(1) r(1) in \<open>simp_all add: keys_ok_def\<close>)
  then show ?thesis using that r assms(1) by (auto simp: find_doc_def keys_ok_def)
qed

lemma books_sync_item:
  assumes ok: "books_ok E B s" and step: "sync_item E c s = (Inr x, s')"
  shows "books_ok E B s'"
proof (cases "findSupplier c (it_proc s)")
  case None
  then show ?thesis using step ok by (auto simp: sync_item_def tx_ok intro: books_insert)
next
  case (Some st)
  obtain d n where st: "st = (d, n)" by (cases st)
  let ?m = "merged_supplier E c d"
  show ?thesis
  proof (cases "sameSupplierContent d ?m")
    case False
    from step Some st False obtain u where "update_supplier E ?m n s = (Inr u, s')"
      by (auto simp: sync_item_def Let_def tx_ok)
    then obtain u' db where q: "enqueueDocumentProjection E ''supplier'' ?m (n + 1) ((it_proc s)\<lparr>pd_documents :=
        upd_where (\<lambda>r. (dr_kind r, dr_id r) = (''supplier'', doc_id ?m) \<and> dr_version r = n)
          (\<lambda>r. r\<lparr>dr_sourceSystem := doc_sourceSystem ?m, dr_externalId := doc_externalId ?m, dr_status := doc_status ?m,
             dr_version := n + 1, dr_document := ?m, dr_updatedAt := doc_updatedAt ?m\<rparr>) (pd_documents (it_proc s))\<rparr>) = (Inr u', db)"
      and s': "s' = s\<lparr>it_proc := db\<rparr>"
      by (simp add: update_supplier_def Let_def on_docs_ok split: if_splits) blast
    obtain r where r: "find_doc ''supplier'' (doc_id ?m) (it_proc s) = Some r" "dr_version r = n"
      using find_supplier_row[of s c d n] ok Some st by (auto simp: books_ok_def merged_supplier_def)
    have only: "((dr_kind x, dr_id x) = (''supplier'', doc_id ?m) \<and> dr_version x = n) \<longleftrightarrow> x = r"
      if "x \<in> set (pd_documents (it_proc s))" for x
      using keys_only[OF _ r(1) that] ok r(2) by (auto simp: books_ok_def)
    show ?thesis unfolding s'
      by (rule books_update[OF ok r(1,2) only _ _ _ _ q]) (use find_doc_key[OF r(1)] in simp_all)
  qed (use step Some st ok in \<open>simp add: sync_item_def Let_def\<close>)
qed

lemma books_sync_items: "books_ok E B s \<Longrightarrow> sync_items E cs s = (Inr xs, s') \<Longrightarrow> books_ok E B s'"
  by (induction cs arbitrary: s s' xs) (auto simp: tx_ok dest: books_sync_item)

lemma sync_cases:
  assumes "syncSuppliersIdempotent E True r s = (Inr a, s')"
  obtains "s' = s" | xs s1 where "sync_items E (sy_suppliers r) s = (Inr xs, s1)" "it_proc s' = it_proc s1"
    "it_identities s' = it_identities s1"
  using assms by (auto simp: syncSuppliersIdempotent_def tx_ok with_value_ok split: option.splits)

lemma gateway_cases:
  assumes "add_gateway E c i (d, n) s = (Inr st, s')"
  obtains "s' = s" "st = (d, n)" "doc_text c ''gatewayInboundId'' = [] \<or> doc_text d ''gatewayInboundId'' \<noteq> []"
  | u db where "st = (d\<lparr>doc_fields := AList.update ''gatewayInboundId'' (JStr (doc_text c ''gatewayInboundId'')) (doc_fields d)\<rparr>, n + 1)"
    "doc_text c ''gatewayInboundId'' \<noteq> []" "doc_text d ''gatewayInboundId'' = []" "s' = s\<lparr>it_proc := db\<rparr>"
    "enqueueDocumentProjection E ''communication'' (fst st) (n + 1) ((it_proc s)\<lparr>pd_documents :=
       upd_where (\<lambda>r. (dr_kind r, dr_id r) = (''communication'', i)) (\<lambda>r. r\<lparr>dr_document := fst st, dr_version := n + 1\<rparr>)
         (pd_documents (it_proc s))\<rparr>) = (Inr u, db)"
  using assms by (auto simp: add_gateway_def Let_def tx_ok on_docs_ok split: if_splits)

lemma mail_cases:
  assumes "persistInboundCommunicationIdempotent E c h s = (Inr a, s')"
  obtains (replay) m ms d n st where "known_identities (keys_of_mail c) s = m # ms" "a = (st, True)"
    "getDocument ''communication'' (mi_communicationId m) (it_proc s) = Some (d, n)"
    "add_gateway E c (mi_communicationId m) (d, n) s = (Inr st, s')"
  | (new) u s1 where "known_identities (keys_of_mail c) s = []" "a = ((c, 1), False)"
    "insert_projected E ''communication'' c s = (Inr u, s1)" "s' = s1\<lparr>it_identities := it_identities s1 @ [identity_of c h]\<rparr>"
proof (cases "known_identities (keys_of_mail c) s")
  case Nil
  then show ?thesis using assms new
    by (auto simp: persistInboundCommunicationIdempotent_def Let_def tx_ok with_value_ok split: if_splits)
next
  case (Cons m ms)
  then have "replay_mail E c h (m # ms) s = (Inr a, s')"
    using assms by (auto simp: persistInboundCommunicationIdempotent_def Let_def tx_ok with_value_ok)
  then obtain d n where 1: "getDocument ''communication'' (mi_communicationId m) (it_proc s) = Some (d, n)"
    and 2: "bind_tx (add_gateway E c (mi_communicationId m) (d, n) s) (\<lambda>st s. (Inr (st, True), s)) = (Inr a, s')"
    by (simp add: replay_mail_def split: if_splits option.splits) (metis surj_pair)
  from 2 obtain st where "add_gateway E c (mi_communicationId m) (d, n) s = (Inr st, s')" "a = (st, True)" by (auto simp: tx_ok)
  then show ?thesis using replay Cons 1 by blast
qed

lemma communication_row:
  assumes "keys_ok db" "getDocument ''communication'' i db = Some (d, n)"
  obtains r where "find_doc ''communication'' i db = Some r" "dr_document r = d" "dr_version r = n" "doc_id d = i"
proof -
  from assms(2) obtain r where r: "find_doc ''communication'' i db = Some r" "dr_document r = d" "dr_version r = n"
    by (auto simp: getDocument_def)
  then show ?thesis using that[OF r] find_doc_key[OF r(1)] assms(1) by (auto simp: keys_ok_def)
qed

lemma books_gateway:
  assumes ok: "books_ok E B s" and st: "getDocument ''communication'' i (it_proc s) = Some (d, n)"
    and step: "add_gateway E c i (d, n) s = (Inr v, s')"
  shows "books_ok E B s'"
proof -
  have keys: "keys_ok (it_proc s)" using ok by (simp add: books_ok_def)
  obtain r where r: "find_doc ''communication'' i (it_proc s) = Some r" "dr_document r = d" "dr_version r = n" "doc_id d = i"
    by (rule communication_row[OF keys st])
  from step show ?thesis
  proof (cases rule: gateway_cases)
    case (2 u db)
    have id: "doc_id (fst v) = i" by (simp add: 2(1) r(4))
    have only: "(dr_kind x, dr_id x) = (''communication'', i) \<longleftrightarrow> x = r" if "x \<in> set (pd_documents (it_proc s))" for x
      by (rule keys_only[OF keys r(1) that])
    show ?thesis unfolding 2(4)
      by (rule books_update[OF ok _ r(3) only _ _ _ _ 2(5)]) (use r(1) find_doc_key[OF r(1)] id in simp_all)
  qed (use ok in simp)
qed

lemma books_exec: "books_ok E B s \<Longrightarrow> books_ok E B (intake_exec E x s)"
proof (rule intake_exec_cases)
  fix r a s' assume ok: "books_ok E B s" and "syncSuppliersIdempotent E True r s = (Inr a, s')"
  from this(2) show "books_ok E B s'"
    by (cases rule: sync_cases) (use ok books_sync_items books_keys in blast)+
next
  fix c h a s' assume ok: "books_ok E B s" and "persistInboundCommunicationIdempotent E c h s = (Inr a, s')"
  from this(2) show "books_ok E B s'"
  proof (cases rule: mail_cases)
    case (replay m ms d n st)
    then show ?thesis using books_gateway[OF ok] by blast
  next
    case (new u s1)
    then show ?thesis using books_keys[OF books_insert[OF ok new(3)]] by simp
  qed
qed

lemma books_run: "books_ok E B s \<Longrightarrow> books_ok E B (intake_run E ops s)"
  by (rule intake_run_keeps) (simp_all add: books_exec)

subsection \<open>A recorded mail\<close>

text \<open>The mail is found under each of its identities, and its communication is stored.\<close>
definition mail_recorded :: "document \<Rightarrow> string \<Rightarrow> intake_db \<Rightarrow> bool" where
  "mail_recorded c h s \<longleftrightarrow>
     (whole_provider (keys_of_mail c) \<longrightarrow> find (same_provider (keys_of_mail c)) (it_identities s) = Some (identity_of c h)) \<and>
     (mk_messageId (keys_of_mail c) \<noteq> [] \<longrightarrow>
        find (\<lambda>m. mi_messageId m = mk_messageId (keys_of_mail c)) (it_identities s) = Some (identity_of c h)) \<and>
     (\<exists>r. find_doc ''communication'' (doc_id c) (it_proc s) = Some r \<and>
        (doc_text c ''gatewayInboundId'' \<noteq> [] \<longrightarrow> doc_text (dr_document r) ''gatewayInboundId'' \<noteq> []))"

text \<open>Writes beside the communications leave them, and the identities only grow.\<close>
definition mail_grows :: "intake_db \<Rightarrow> intake_db \<Rightarrow> bool" where
  "mail_grows s s' \<longleftrightarrow> (\<exists>ms. it_identities s' = it_identities s @ ms) \<and>
     (\<forall>i r. find_doc ''communication'' i (it_proc s) = Some r \<longrightarrow> (\<exists>r'. find_doc ''communication'' i (it_proc s') = Some r' \<and>
        (doc_text (dr_document r) ''gatewayInboundId'' \<noteq> [] \<longrightarrow> doc_text (dr_document r') ''gatewayInboundId'' \<noteq> [])))"

lemma mail_grows_refl: "mail_grows s s"
  by (simp add: mail_grows_def)

lemma mail_grows_trans: "mail_grows s s1 \<Longrightarrow> mail_grows s1 s2 \<Longrightarrow> mail_grows s s2"
proof -
  assume 1: "mail_grows s s1" and 2: "mail_grows s1 s2"
  from 1 2 have "\<exists>ms. it_identities s2 = it_identities s @ ms" by (auto simp: mail_grows_def)
  moreover have "\<exists>r'. find_doc ''communication'' i (it_proc s2) = Some r' \<and>
      (doc_text (dr_document r) ''gatewayInboundId'' \<noteq> [] \<longrightarrow> doc_text (dr_document r') ''gatewayInboundId'' \<noteq> [])"
    if "find_doc ''communication'' i (it_proc s) = Some r" for i r
  proof -
    from that 1 obtain r1 where r1: "find_doc ''communication'' i (it_proc s1) = Some r1"
      "doc_text (dr_document r) ''gatewayInboundId'' \<noteq> [] \<longrightarrow> doc_text (dr_document r1) ''gatewayInboundId'' \<noteq> []"
      by (auto simp: mail_grows_def)
    with 2 obtain r2 where "find_doc ''communication'' i (it_proc s2) = Some r2"
      "doc_text (dr_document r1) ''gatewayInboundId'' \<noteq> [] \<longrightarrow> doc_text (dr_document r2) ''gatewayInboundId'' \<noteq> []"
      unfolding mail_grows_def by blast
    with r1(2) show ?thesis by blast
  qed
  ultimately show ?thesis by (simp add: mail_grows_def)
qed

lemma recorded_grows:
  assumes rec: "mail_recorded c h s" and grow: "mail_grows s s'"
  shows "mail_recorded c h s'"
proof -
  obtain ms where ms: "it_identities s' = it_identities s @ ms" using grow by (auto simp: mail_grows_def)
  obtain r where r: "find_doc ''communication'' (doc_id c) (it_proc s) = Some r"
    "doc_text c ''gatewayInboundId'' \<noteq> [] \<longrightarrow> doc_text (dr_document r) ''gatewayInboundId'' \<noteq> []"
    using rec by (auto simp: mail_recorded_def)
  obtain r' where "find_doc ''communication'' (doc_id c) (it_proc s') = Some r'"
    "doc_text (dr_document r) ''gatewayInboundId'' \<noteq> [] \<longrightarrow> doc_text (dr_document r') ''gatewayInboundId'' \<noteq> []"
    using grow r(1) unfolding mail_grows_def by blast
  then show ?thesis using rec r(2) by (simp add: mail_recorded_def ms find_append)
qed

lemma kept_docs_grow: "it_identities s' = it_identities s \<Longrightarrow>
    (\<And>i r. find_doc ''communication'' i (it_proc s) = Some r \<Longrightarrow> find_doc ''communication'' i (it_proc s') = Some r) \<Longrightarrow> mail_grows s s'"
  by (simp add: mail_grows_def)

lemma insert_finds:
  assumes "insert_projected E kind d s = (Inr u, s')"
  shows "find_doc k i (it_proc s') = (case find_doc k i (it_proc s) of Some x \<Rightarrow> Some x
     | None \<Rightarrow> if (kind, doc_id d) = (k, i) then Some (doc_row_of kind d 1 (doc_createdAt d)) else None)"
    "it_identities s' = it_identities s"
proof -
  from assms obtain db where q: "enqueueDocumentProjection E kind d 1 ((it_proc s)\<lparr>pd_documents := pd_documents (it_proc s) @
      [doc_row_of kind d 1 (doc_createdAt d)]\<rparr>) = (Inr u, db)" and s': "s' = s\<lparr>it_proc := db\<rparr>"
    by (auto simp: insert_projected_def on_docs_ok split: if_splits)
  show "find_doc k i (it_proc s') = (case find_doc k i (it_proc s) of Some x \<Rightarrow> Some x
     | None \<Rightarrow> if (kind, doc_id d) = (k, i) then Some (doc_row_of kind d 1 (doc_createdAt d)) else None)"
    using find_doc_kept[OF enqueueDocumentProjection_ok(1)[OF q], of k i]
    unfolding s' find_doc_append by (auto simp: doc_row_of_def split: option.split)
  show "it_identities s' = it_identities s" by (simp add: s')
qed

lemma insert_grows: "insert_projected E kind d s = (Inr u, s') \<Longrightarrow> mail_grows s s'"
  by (rule kept_docs_grow) (simp_all add: insert_finds)

lemma supplier_grows: "update_supplier E d n s = (Inr u, s') \<Longrightarrow> mail_grows s s'"
proof -
  assume up: "update_supplier E d n s = (Inr u, s')"
  let ?p = "\<lambda>r. (dr_kind r, dr_id r) = (''supplier'', doc_id d) \<and> dr_version r = n"
  let ?f = "\<lambda>r. r\<lparr>dr_sourceSystem := doc_sourceSystem d, dr_externalId := doc_externalId d, dr_status := doc_status d,
           dr_version := n + 1, dr_document := d, dr_updatedAt := doc_updatedAt d\<rparr>"
  from up obtain u' db where q: "enqueueDocumentProjection E ''supplier'' d (n + 1)
      ((it_proc s)\<lparr>pd_documents := upd_where ?p ?f (pd_documents (it_proc s))\<rparr>) = (Inr u', db)" and s': "s' = s\<lparr>it_proc := db\<rparr>"
    by (simp add: update_supplier_def Let_def on_docs_ok split: if_splits) blast
  have "find_doc ''communication'' i db = find_doc ''communication'' i (it_proc s)" for i
  proof -
    have "find_doc ''communication'' i db = map_option (\<lambda>r. if ?p r then ?f r else r) (find_doc ''communication'' i (it_proc s))"
      unfolding find_doc_kept[OF enqueueDocumentProjection_ok(1)[OF q]] by (rule find_doc_upd) simp
    then show ?thesis by (cases "find_doc ''communication'' i (it_proc s)") (auto dest: find_doc_key)
  qed
  then show ?thesis by (intro kept_docs_grow) (simp_all add: s')
qed

lemma sync_item_grows: "sync_item E c s = (Inr x, s') \<Longrightarrow> mail_grows s s'"
  by (auto simp: sync_item_def Let_def tx_ok mail_grows_refl split: option.splits if_splits intro: insert_grows supplier_grows)

lemma sync_items_grow: "sync_items E cs s = (Inr xs, s') \<Longrightarrow> mail_grows s s'"
  by (induction cs arbitrary: s s' xs) (auto simp: tx_ok mail_grows_refl intro: mail_grows_trans sync_item_grows)

lemma gateway_grows:
  assumes "getDocument ''communication'' i (it_proc s) = Some (d, n)" "add_gateway E c i (d, n) s = (Inr v, s')"
  shows "mail_grows s s'"
  using assms(2)
proof (cases rule: gateway_cases)
  case (2 u db)
  let ?p = "\<lambda>r. (dr_kind r, dr_id r) = (''communication'', i)"
  let ?f = "\<lambda>r. r\<lparr>dr_document := fst v, dr_version := n + 1\<rparr>"
  have "find_doc ''communication'' j db = map_option (\<lambda>r. if ?p r then ?f r else r) (find_doc ''communication'' j (it_proc s))" for j
    unfolding find_doc_kept[OF enqueueDocumentProjection_ok(1)[OF 2(5)]] by (rule find_doc_upd) simp
  then have find_db: "find_doc ''communication'' j db = map_option (\<lambda>r. if ?p r then ?f r else r) (find_doc ''communication'' j (it_proc s))" for j .
  have "\<exists>r'. find_doc ''communication'' j db = Some r' \<and>
      (doc_text (dr_document r) ''gatewayInboundId'' \<noteq> [] \<longrightarrow> doc_text (dr_document r') ''gatewayInboundId'' \<noteq> [])"
    if r: "find_doc ''communication'' j (it_proc s) = Some r" for j r
  proof (cases "j = i")
    case True
    then have "dr_document r = d" using assms(1) r by (simp add: getDocument_def)
    then show ?thesis using find_db[of j] r 2(3) by simp
  next
    case False
    then show ?thesis using find_db[of j] r find_doc_key[OF r] by simp
  qed
  then show ?thesis by (simp add: mail_grows_def 2(4))
qed (simp add: mail_grows_refl)

lemma mail_grows_cong: "mail_grows s s1 \<Longrightarrow> it_proc s' = it_proc s1 \<Longrightarrow> it_identities s' = it_identities s1 @ ms \<Longrightarrow> mail_grows s s'"
  by (auto simp: mail_grows_def)

lemma mail_grows_persist: "persistInboundCommunicationIdempotent E c h s = (Inr a, s') \<Longrightarrow> mail_grows s s'"
  by (erule mail_cases) (auto intro: gateway_grows mail_grows_cong[OF insert_grows])

lemma grows_exec: "mail_grows s (intake_exec E x s)"
proof (rule intake_exec_cases[where P = "mail_grows s"])
  fix r a s' assume "syncSuppliersIdempotent E True r s = (Inr a, s')"
  then show "mail_grows s s'"
    by (cases rule: sync_cases) (auto simp: mail_grows_refl intro: mail_grows_cong[OF sync_items_grow, where ms = "[]"])
qed (auto simp: mail_grows_refl mail_grows_persist)

lemma recorded_run: "mail_recorded c h s \<Longrightarrow> mail_recorded c h (intake_run E ops s)"
  by (rule intake_run_keeps) (auto intro: recorded_grows grows_exec)

lemma new_mail_recorded:
  assumes "persistInboundCommunicationIdempotent E c h s = (Inr (st, False), s')"
  shows "mail_recorded c h s'"
  using assms
proof (cases rule: mail_cases)
  case (new u s1)
  have none: "whole_provider (keys_of_mail c) \<Longrightarrow> find (same_provider (keys_of_mail c)) (it_identities s) = None"
    "mk_messageId (keys_of_mail c) \<noteq> [] \<Longrightarrow> find (\<lambda>m. mi_messageId m = mk_messageId (keys_of_mail c)) (it_identities s) = None"
    using new(1) by (auto simp: known_identities_def split: option.splits)
  have "find_doc ''communication'' (doc_id c) (it_proc s) = None"
    using new(3) by (auto simp: insert_projected_def split: if_splits)
  then have "find_doc ''communication'' (doc_id c) (it_proc s1) = Some (doc_row_of ''communication'' c 1 (doc_createdAt c))"
    by (simp add: insert_finds[OF new(3)])
  then show ?thesis using none
    by (auto simp: mail_recorded_def new(4) insert_finds(2)[OF new(3)] find_append doc_row_of_def identity_of_def same_provider_def Let_def)
qed simp

lemma recorded_replays:
  assumes rec: "mail_recorded c h s" and ok: "books_ok E B s" and chk: "mail_checks E c h = Inr ()"
  shows "\<exists>st. persistInboundCommunicationIdempotent E c h s = (Inr (st, True), s) \<and> doc_id (fst st) = doc_id c"
proof -
  from chk have some: "whole_provider (keys_of_mail c) \<or> mk_messageId (keys_of_mail c) \<noteq> []"
    by (auto simp: mail_checks_def split: if_splits)
  have known: "known_identities (keys_of_mail c) s = (if whole_provider (keys_of_mail c) then [identity_of c h] else []) @
      (if mk_messageId (keys_of_mail c) \<noteq> [] then [identity_of c h] else [])"
    using rec by (simp add: mail_recorded_def known_identities_def)
  obtain ms where ms: "known_identities (keys_of_mail c) s = identity_of c h # ms" "set ms \<subseteq> {identity_of c h}"
    using that some unfolding known by (cases "whole_provider (keys_of_mail c)") auto
  from rec obtain r where r: "find_doc ''communication'' (doc_id c) (it_proc s) = Some r"
    and g: "doc_text c ''gatewayInboundId'' \<noteq> [] \<Longrightarrow> doc_text (dr_document r) ''gatewayInboundId'' \<noteq> []"
    by (auto simp: mail_recorded_def)
  have id: "mi_communicationId (identity_of c h) = doc_id c" "mi_hash (identity_of c h) = h" by (simp_all add: identity_of_def Let_def)
  have "add_gateway E c (doc_id c) (dr_document r, dr_version r) s = (Inr (dr_document r, dr_version r), s)"
    using g by (auto simp: add_gateway_def)
  moreover have "\<not> list_ex (\<lambda>m. mi_communicationId m \<noteq> doc_id c) ms" "\<not> list_ex (\<lambda>m. mi_hash m \<noteq> h) ms"
    using ms(2) id by (auto simp: list_ex_iff)
  ultimately have "replay_mail E c h (identity_of c h # ms) s = (Inr ((dr_document r, dr_version r), True), s)"
    using r id by (simp add: replay_mail_def getDocument_def)
  then have "persistInboundCommunicationIdempotent E c h s = (Inr ((dr_document r, dr_version r), True), s)"
    by (simp add: persistInboundCommunicationIdempotent_def chk ms(1))
  moreover have "doc_id (dr_document r) = doc_id c"
    using ok find_doc_key[OF r] by (auto simp: books_ok_def keys_ok_def)
  ultimately show ?thesis by force
qed

subsection \<open>An example\<close>

definition intake_empty :: intake_db where
  "intake_empty = \<lparr>it_proc = empty_db, it_sync_keys = [], it_identities = []\<rparr>"

lemma books_empty: "books_ok E B intake_empty"
  using empty_projected by (simp add: books_ok_def keys_ok_def intake_empty_def) (simp add: empty_db_def)

definition demo_vendor :: document where
  "demo_vendor = demo_paper ''a'' ''active'' [(''name'', JStr ''n''),
     (''contacts'', JArr [JObj [(''id'', JStr ''1''), (''email'', JStr '' M@x.eu'')]])]"

definition demo_intake :: intake_db where
  "demo_intake = snd (insert_projected demo_env ''purchase_order'' (demo_paper ''o'' ''sent'' [(''supplierId'', JStr ''a'')])
     (snd (insert_projected demo_env ''supplier'' demo_vendor intake_empty)))"

definition demo_letter :: document where
  "demo_letter = demo_paper ''e'' ''received'' [(''direction'', JStr ''inbound''), (''channel'', JStr ''email''),
     (''businessObjectType'', JStr ''purchase_order''), (''businessObjectId'', JStr ''o''), (''supplierId'', JStr ''a''),
     (''messageId'', JStr ''<1>''), (''from'', JStr ''Ms M <m@X.eu>'')]"

definition demo_sync :: sync_input where
  "demo_sync = \<lparr>sy_key = ''k'', sy_hash = ''h'', sy_suppliers = [demo_vendor\<lparr>doc_status := ''blocked''\<rparr>,
     demo_paper ''b'' ''active'' [(''name'', JStr ''m'')]], sy_issues = []\<rparr>"

lemma demo_intake_books: "books_ok demo_env B demo_intake"
proof -
  have 1: "isl (fst (insert_projected demo_env ''supplier'' demo_vendor intake_empty)) = False"
    and 2: "isl (fst (insert_projected demo_env ''purchase_order'' (demo_paper ''o'' ''sent'' [(''supplierId'', JStr ''a'')])
      (snd (insert_projected demo_env ''supplier'' demo_vendor intake_empty)))) = False"
    by code_simp+
  have ins: "books_ok E B s \<Longrightarrow> isl (fst (insert_projected E k d s)) = False \<Longrightarrow> books_ok E B (snd (insert_projected E k d s))" for k d s and E :: proj_env
    by (cases "insert_projected E k d s"; cases "fst (insert_projected E k d s)") (auto dest: books_insert)
  show ?thesis unfolding demo_intake_def by (rule ins[OF ins[OF books_empty 1] 2])
qed

lemma demo_letter_new:
  "(case persistInboundCommunicationIdempotent demo_env demo_letter ''h'' demo_intake of (Inr (_, old), _) \<Rightarrow> \<not> old | _ \<Rightarrow> False)"
  by code_simp

lemma demo_sync_counts:
  "(case syncSuppliersIdempotent demo_env True demo_sync demo_intake of
     (Inr r, _) \<Rightarrow> (sr_created r, sr_updated r, sr_unchanged r) = (1, 1, 0) | _ \<Rightarrow> False)"
  by code_simp

subsection \<open>Properties\<close>



text \<open>C19 a mail is recorded once: after it, however the intake goes on, the same mail is answered with the
  communication recorded first and changes nothing.  The document table is only assumed to hold one row for each kind and
  identifier, as its primary key demands, stored under the identifier of its document.\<close>
theorem mail_once:
  assumes "keys_ok (it_proc s)" "persistInboundCommunicationIdempotent E c h s = (Inr (st, False), s')"
  shows "\<exists>st'. persistInboundCommunicationIdempotent E c h (intake_run E later s') = (Inr (st', True), intake_run E later s') \<and>
    doc_id (fst st') = doc_id c"
proof -
  have "books_ok E UNIV s" using assms(1) by (simp add: books_ok_def docs_projected_iff)
  then have "books_ok E UNIV s'" using books_exec[of E UNIV s "OpMail c h"] assms(2) by (simp add: intake_exec_def)
  moreover have "mail_checks E c h = Inr ()"
    using assms(2) by (auto simp: persistInboundCommunicationIdempotent_def with_value_ok)
  ultimately show ?thesis
    using recorded_replays[OF recorded_run[OF new_mail_recorded[OF assms(2)]] books_run] by blast
qed

theorem mail_once_witness:
  "\<exists>st s'. persistInboundCommunicationIdempotent demo_env demo_letter ''h''
      (intake_run demo_env [OpSync demo_sync] (snd (persistInboundCommunicationIdempotent demo_env demo_letter ''h'' demo_intake))) =
        (Inr (st, True), s') \<and> doc_id (fst st) = ''e''"
proof -
  obtain st s' where "persistInboundCommunicationIdempotent demo_env demo_letter ''h'' demo_intake = (Inr (st, False), s')"
    using demo_letter_new by (auto split: prod.splits sum.splits)
  moreover have "keys_ok (it_proc demo_intake)" using demo_intake_books[of "{}"] by (simp add: books_ok_def)
  ultimately show ?thesis using mail_once[of demo_intake demo_env demo_letter "''h''" st s' "[OpSync demo_sync]"]
    by (auto simp: demo_letter_def demo_paper_def)
qed

end
