(* ===== verification/Spec2Isabelle.thy ===== *)
theory Spec2Isabelle
  imports Policy Lifecycle TaskMachine MessageGateway ProjectionQueue Documents LineMatch DocumentJobs EditorApproval WorkerBooks IntakeBooks
begin

text \<open>
  Supply-sentry: a verification library of its server-side core.

  The program runs procurement for digital employees: documents (orders, confirmations, shipments,
  receipts, invoices) live in SQLite tables, every command on them is one transaction of
  \<open>packages/persistence/src/index.ts\<close>, effects on the outside world are queued as messages of an
  outbox that workers dispatch, every change of a row enqueues a job that projects it into the
  manufacturing context, chat messages go through a gateway with a circuit breaker, and published
  graphs run as durable workflows that wait for approvals and events.

  \<^bold>\<open>Language.\<close>  \<open>Prelude\<close> has strings, maps in insertion order and row lists; \<open>JsNumber\<close> the numbers of
  JavaScript (rounding to 53 bits written out, infinities and NaN; negative zero is not told from zero)
  and JSON values; \<open>Transactions\<close> the writes under \<open>BEGIN IMMEDIATE\<close> and \<open>ROLLBACK\<close> with the calculus
  \<open>after\<close> of what a successful write establishes; \<open>LeaseQueue\<close> the contract of a row under a lease, as a
  locale interpreted by the four queues.  Strings are lists of eight-bit characters, so the few
  Chinese key words of the source (names of roles and routes) are no values of the model.
  Times are integers of milliseconds; random identifiers, the clock, hashes, date parsing, JSON
  printing of atoms and the redaction of secrets are arguments of the definitions that use them.

  \<^bold>\<open>Core runtime\<close> (\<open>packages/core/src\<close>).  \<open>Policy\<close>: permission rules, the governance matrices and the gate of
  the chat handler.  \<open>Repositories\<close>: the in-memory stores, one locale with an interpretation per entity.
  \<open>Lifecycle\<close>: the state machines of orders, RFQs and invoices and the business-object store.
  \<open>TaskMachine\<close>: tasks, approvals, budgets, exceptions, activities and events over one hub.

  \<^bold>\<open>Messaging\<close> (\<open>packages/messaging/src\<close>).  \<open>Messaging\<close> has the contracts and the breaker, \<open>MessagingStore\<close> the
  tables, \<open>MessageGateway\<close> the gateway, whose \<open>deliver\<close> is cut at its asynchronous send into two steps; the
  step relation interleaves any number of deliveries, crashes and control calls.

  \<^bold>\<open>Projection\<close> (\<open>packages/context/src/projection-queue.ts\<close>, \<open>packages/persistence/src/twin-projection-enqueue.ts\<close>).
  \<open>ProjectionQueue\<close> is the queue, \<open>Documents\<close> the versioned documents and lines that enqueue into it.

  \<^bold>\<open>Procurement execution\<close> (\<open>packages/persistence/src/index.ts\<close>, \<open>packages/core/src/procurement-model.ts\<close>).
  \<open>Quantities\<close>: the event projection of an order line; \<open>LineMatch\<close>: the three-way match; \<open>DocumentJobs\<close>: the
  extraction queue; \<open>Amendments\<close>: amendments with their audit.  \<open>Outbox\<close> holds the state \<open>exec_db\<close> of the
  execution, the operations of the outbox and what a dispatched or failed message writes; \<open>Commands\<close> and
  \<open>Fulfilment\<close> hold the eighteen handlers; \<open>Execution\<close> holds \<open>executeProcurementMutation\<close> around them and runs
  \<open>exec_run\<close> that mix mutations of any kind with requeues, claims, completions and failures by any
  workers.  \<open>ExecutionInvariants\<close> reduces an invariant of the store to laws about its single writes:
  the locales \<open>exec_base\<close>, \<open>exec_facts\<close>, \<open>exec_commands\<close> and \<open>exec_invariant\<close> name the writes and prove that the handlers, the
  mutation and every run keep the property.  They are interpreted in \<open>OutboxRows\<close> (the shape, permanence
  and leases of messages), \<open>Mutations\<close> (replay and authority), \<open>QuantityBooks\<close> (quantities against events)
  and \<open>AmendmentBooks\<close> (amendments against their messages).

  \<^bold>\<open>Sourcing and intake\<close> (\<open>packages/persistence/src/index.ts\<close>).  \<open>Sourcing\<close> has the transactions that create
  requisitions, requests for quotation and quotes, compare the quotes and award a request with one
  draft order per supplier and currency, over the tables of \<open>Documents\<close> and the tables of keys;
  \<open>SourcingBooks\<close> shows, over histories of them, that an award always rests on a comparison of all current
  quotes, covers the request, is final and is answered again for its key.  \<open>SupplierIntake\<close> has the suppliers
  reported by an ERP and the mails of suppliers, \<open>IntakeBooks\<close> that each mail is recorded once and each
  version of a document projected.  Requisitions, requests, quotes, comparisons and awards are written
  without a projection job, as in the code; the orders of an award and a request moved by a quote have one.

  \<^bold>\<open>The outbox worker\<close> (\<open>apps/api/src/procurement-outbox-worker.ts\<close> with \<open>public-demo-receipts.ts\<close>,
  \<open>procurement-attachment-content.ts\<close> and the recipient check of \<open>procurement-message-drafts.ts\<close>).  \<open>ErpPayloads\<close> reads
  the frozen payloads and checks the receipts of the ERP; \<open>Dispatch\<close> resolves a message to one call to the
  outside, whose answer is an argument, and reads the answer; \<open>OutboxWorker\<close> is the run of a tenant, with
  whatever others do to the store while a call is outside; \<open>WorkerBooks\<close> shows that such a run is a run of the
  store, so that its invariants hold, and what a message may lead to.

  \<^bold>\<open>Workflows\<close> (\<open>packages/graph-runtime/src\<close>, \<open>packages/temporal-runtime/src\<close>, \<open>apps/api/src/editor-approval.ts\<close>).
  \<open>GraphRuntime\<close>: node types, validation, the variable pool; \<open>SignalGate\<close>: correlation of signals; \<open>GraphRun\<close>: the
  workflow function from await to await; \<open>EditorApproval\<close>: the approval handler of the API composed with
  the run, with early, late, repeated and concurrent decisions.

  \<^bold>\<open>What the lemmas show.\<close>  Each component has its invariant and that every operation keeps it; refused
  operations leave the store alone (\<open>atomic\<close>); leases exclude each other for their length; keys make
  repeated requests harmless; projections equal the replay of their events; the amendment tables
  refine the abstract life cycle; validation and line match are equivalent to their specifications.
  Several theorems record what the code does wrong: an approval lost between publication and gate,
  a document job stranded after its last attempt, a line that a date write-back blocks.

  \<^bold>\<open>Bounds and fuel.\<close>  No definition uses fuel.  The cycle search recurses over the unvisited nodes, the
  other loops are folds over lists; that a graph run ends is a theorem (\<open>graph_run_terminates\<close>), by a weight
  that every step lowers.

  \<^bold>\<open>Not modelled.\<close>  User interfaces and demos; HTTP parsing and authentication; the connectors
  themselves, mail intake, document parsing and model calls (I/O); SQL read models for display; schema and migrations; service-level rules
  (time zones of the platform); the scoring that proposes a comparison of quotes; the texts of
  generated mails and the context objects of activities, which no operation reads back.
\<close>

end
